(* ===== verification/Prelude.thy ===== *)
theory Prelude
  imports Main "HOL-Library.Word"
begin

text \<open>
  Shared vocabulary of the development: results of fallible code as sums with a
  bind, sequences of early-return checks, checked machine-integer increments and
  list operations addressed by a key (Rust's \<open>iter_mut().find\<close> and \<open>retain\<close>).
\<close>

named_theorems result_simps \<open>evaluation and inversion of results\<close>

section \<open>Fallible results\<close>

text \<open>
  A Rust \<open>Result<T, E>\<close> is the sum \<open>'e + 'a\<close> with \<open>Inl\<close> for the error; the
  operator \<open>?\<close> is \<open>bind_r\<close>. A function of type \<open>Result<(), E>\<close> that is a
  sequence of early returns is \<open>first_error\<close> over its checks.
\<close>

definition bind_r :: "'e + 'a \<Rightarrow> ('a \<Rightarrow> 'e + 'b) \<Rightarrow> 'e + 'b" where
  "bind_r m f = (case m of Inl e \<Rightarrow> Inl e | Inr a \<Rightarrow> f a)"

definition map_err :: "('e \<Rightarrow> 'f) \<Rightarrow> 'e + 'a \<Rightarrow> 'f + 'a" where
  "map_err g m = (case m of Inl e \<Rightarrow> Inl (g e) | Inr a \<Rightarrow> Inr a)"

definition fail_if :: "bool \<Rightarrow> 'e \<Rightarrow> 'e + unit" where
  "fail_if b e = (if b then Inl e else Inr ())"

fun first_error :: "('e + unit) list \<Rightarrow> 'e + unit" where
  "first_error [] = Inr ()"
| "first_error (c # cs) = (case c of Inl e \<Rightarrow> Inl e | Inr _ \<Rightarrow> first_error cs)"

text \<open>\<open>fold_r\<close> is a \<open>for\<close> loop whose body may return an error.\<close>

fun fold_r :: "('s \<Rightarrow> 'a \<Rightarrow> 'e + 's) \<Rightarrow> 's \<Rightarrow> 'a list \<Rightarrow> 'e + 's" where
  "fold_r f s [] = Inr s"
| "fold_r f s (x # xs) = bind_r (f s x) (\<lambda>s'. fold_r f s' xs)"

definition is_ok :: "'e + 'a \<Rightarrow> bool" where
  "is_ok m = (case m of Inl _ \<Rightarrow> False | Inr _ \<Rightarrow> True)"

definition check_opt :: "('a \<Rightarrow> 'e + unit) \<Rightarrow> 'a option \<Rightarrow> 'e + unit" where
  "check_opt f x = (case x of None \<Rightarrow> Inr () | Some a \<Rightarrow> f a)"

lemma bind_r_simps [simp]:
  "bind_r (Inl e) f = Inl e" "bind_r (Inr a) f = f a"
  by (simp_all add: bind_r_def)

lemma bind_r_Inr_iff [result_simps]:
  "bind_r m f = Inr y \<longleftrightarrow> (\<exists>x. m = Inr x \<and> f x = Inr y)"
  by (cases m) auto

lemma bind_r_Inl_iff [result_simps]:
  "bind_r m f = Inl e \<longleftrightarrow> m = Inl e \<or> (\<exists>x. m = Inr x \<and> f x = Inl e)"
  by (cases m) auto

lemma map_err_simps [simp]:
  "map_err g (Inl e) = Inl (g e)" "map_err g (Inr a) = Inr a"
  by (simp_all add: map_err_def)

lemma map_err_Inr_iff [result_simps]: "map_err g m = Inr a \<longleftrightarrow> m = Inr a"
  by (cases m) auto

lemma fail_if_Inr_iff [result_simps]: "fail_if b e = Inr u \<longleftrightarrow> \<not> b"
  by (simp add: fail_if_def)

lemma fail_if_simps [simp]:
  "fail_if True e = Inl e" "fail_if False e = Inr ()"
  by (simp_all add: fail_if_def)

lemma first_error_Inr_iff [result_simps]:
  "first_error cs = Inr u \<longleftrightarrow> (\<forall>c \<in> set cs. c = Inr ())"
  by (induction cs) (auto split: sum.splits)

declare first_error.simps(2) [simp del]

lemma first_error_Cons_simps [simp]:
  "first_error (Inl e # cs) = Inl e" "first_error (Inr u # cs) = first_error cs"
  by (simp_all add: first_error.simps)

lemma check_opt_simps [simp]:
  "check_opt f None = Inr ()" "check_opt f (Some a) = f a"
  by (simp_all add: check_opt_def)

lemma check_opt_Inr_iff [result_simps]:
  "check_opt f x = Inr u \<longleftrightarrow> (\<forall>a. x = Some a \<longrightarrow> f a = Inr ())"
  by (cases x) auto

lemma is_ok_simps [simp]: "is_ok (Inr a)" "\<not> is_ok (Inl e)"
  by (simp_all add: is_ok_def)

lemma fold_r_append:
  "fold_r f s (xs @ ys) = bind_r (fold_r f s xs) (\<lambda>s'. fold_r f s' ys)"
proof (induction xs arbitrary: s)
  case (Cons x xs)
  then show ?case by (cases "f s x") simp_all
qed simp

text \<open>The rule for loops: what every successful iteration keeps, the loop keeps.\<close>

lemma fold_r_invariant:
  assumes "fold_r f s xs = Inr t" and "I s"
    and "\<And>s x s'. I s \<Longrightarrow> x \<in> set xs \<Longrightarrow> f s x = Inr s' \<Longrightarrow> I s'"
  shows "I t"
  using assms
proof (induction xs arbitrary: s)
  case (Cons x xs)
  from Cons.prems(1) obtain s' where s': "f s x = Inr s'" "fold_r f s' xs = Inr t"
    by (auto simp: result_simps)
  have "I s'" using Cons.prems(2,3) s'(1) by (meson list.set_intros(1))
  then show ?case
    using Cons.IH [OF s'(2)] Cons.prems(3) by (meson list.set_intros(2))
qed simp

section \<open>Machine integers\<close>

type_synonym u8 = "8 word"
type_synonym u16 = "16 word"
type_synonym u32 = "32 word"
type_synonym u64 = "64 word"

text \<open>\<open>i64\<close> timestamps are \<open>int\<close>, with the saturation of \<open>saturating_sub\<close> written out.\<close>

type_synonym i64 = int

definition i64_min :: int where "i64_min = - 9223372036854775808"
definition i64_max :: int where "i64_max = 9223372036854775807"

definition saturating_sub_i64 :: "i64 \<Rightarrow> i64 \<Rightarrow> i64" where
  "saturating_sub_i64 a b = max i64_min (min i64_max (a - b))"

text \<open>\<open>checked_add(1).ok_or(e)?\<close> on an unsigned word; \<open>- 1\<close> is the maximal value.\<close>

definition checked_inc :: "'e \<Rightarrow> 'l::len word \<Rightarrow> 'e + 'l word" where
  "checked_inc e n = (if n = - 1 then Inl e else Inr (n + 1))"

lemma checked_inc_Inr_iff [result_simps]:
  "checked_inc e n = Inr m \<longleftrightarrow> n \<noteq> - 1 \<and> m = n + 1"
  by (auto simp: checked_inc_def)

lemma checked_inc_Inl_iff [result_simps]:
  "checked_inc e n = Inl e' \<longleftrightarrow> n = - 1 \<and> e' = e"
  by (auto simp: checked_inc_def)

lemma unat_inc: "n \<noteq> - 1 \<Longrightarrow> unat (n + 1) = Suc (unat n)" for n :: "'l::len word"
proof -
  assume "n \<noteq> - 1"
  then have "1 + n \<noteq> 0" by (metis add.commute eq_neg_iff_add_eq_0)
  then show ?thesis by (metis add.commute unatSuc)
qed

lemma inc_greater: "n \<noteq> - 1 \<Longrightarrow> n < n + 1" for n :: "'l::len word"
  by (simp add: word_less_nat_alt unat_inc)

lemma inc_pos: "n \<noteq> - 1 \<Longrightarrow> 0 < n + 1" for n :: "'l::len word"
  by (simp add: word_less_nat_alt unat_inc)

lemma inc_nonzero: "n \<noteq> - 1 \<Longrightarrow> n + 1 \<noteq> 0" for n :: "'l::len word"
  using inc_pos by force

lemma inc_le_iff: "n \<noteq> - 1 \<Longrightarrow> n + 1 \<le> m \<longleftrightarrow> n < m" for n :: "'l::len word"
  by (simp add: word_less_nat_alt word_le_nat_alt unat_inc less_eq_Suc_le)

lemma less_inc_iff: "n \<noteq> - 1 \<Longrightarrow> m < n + 1 \<longleftrightarrow> m \<le> n" for n :: "'l::len word"
  by (simp add: word_less_nat_alt word_le_nat_alt unat_inc less_Suc_eq_le)

lemmas inc_simps = inc_greater inc_pos inc_nonzero inc_le_iff less_inc_iff

section \<open>Lists addressed by a predicate\<close>

text \<open>
  \<open>update_first p f xs\<close> is \<open>if let Some(x) = xs.iter_mut().find(p) { f(x) }\<close>:
  the first match changes, the rest stays.
\<close>

fun update_first :: "('a \<Rightarrow> bool) \<Rightarrow> ('a \<Rightarrow> 'a) \<Rightarrow> 'a list \<Rightarrow> 'a list" where
  "update_first p f [] = []"
| "update_first p f (x # xs) = (if p x then f x # xs else x # update_first p f xs)"

fun position :: "('a \<Rightarrow> bool) \<Rightarrow> 'a list \<Rightarrow> nat option" where
  "position p [] = None"
| "position p (x # xs) = (if p x then Some 0 else map_option Suc (position p xs))"

lemma length_update_first [simp]: "length (update_first p f xs) = length xs"
  by (induction xs) auto

lemma update_first_none [simp]: "\<not> list_ex p xs \<Longrightarrow> update_first p f xs = xs"
  by (induction xs) auto

lemma map_update_first:
  "(\<And>x. g (f x) = g x) \<Longrightarrow> map g (update_first p f xs) = map g xs"
  by (induction xs) auto

lemma set_update_first: "y \<in> set (update_first p f xs) \<Longrightarrow>
    y \<in> set xs \<or> (\<exists>x \<in> set xs. p x \<and> y = f x)"
  by (induction xs) (auto split: if_splits)

lemma position_Some:
  "position p xs = Some i \<Longrightarrow> i < length xs \<and> p (xs ! i) \<and> (\<forall>j < i. \<not> p (xs ! j))"
proof (induction xs arbitrary: i)
  case (Cons x xs)
  then show ?case
    by (auto split: if_splits simp: nth_Cons less_Suc_eq_0_disj split: nat.splits)
qed simp

lemma position_None_iff: "position p xs = None \<longleftrightarrow> (\<forall>x \<in> set xs. \<not> p x)"
  by (induction xs) auto

lemma position_distinct_nth:
  assumes "distinct xs" and "i < length xs"
  shows "position (\<lambda>y. y = xs ! i) xs = Some i"
proof (cases "position (\<lambda>y. y = xs ! i) xs")
  case None
  then show ?thesis using assms(2) by (auto simp: position_None_iff)
next
  case (Some j)
  from position_Some [OF this] show ?thesis
    using Some assms nth_eq_iff_index_eq by blast
qed

lemma find_Some_set: "find p xs = Some x \<Longrightarrow> x \<in> set xs \<and> p x"
  by (induction xs) (auto split: if_splits)

end
