(* ===== verification/RustText.thy ===== *)
theory RustText
  imports Prelude
begin

text \<open>
  Rust's \<open>String\<close>: a list of Unicode scalar values, with its UTF-8 byte length
  (what \<open>len()\<close> counts), \<open>char::is_control\<close>, \<open>char::is_whitespace\<close>, \<open>trim\<close>
  and character boundaries. Error messages are values of type \<open>message\<close>.
\<close>

section \<open>Strings as scalar values\<close>

type_synonym str = "nat list"

definition lit :: "string \<Rightarrow> str" where
  "lit s = map of_char s"

datatype message = Msg string | MsgValue string str

text \<open>
  \<open>Msg m\<close> is the literal message; \<open>MsgValue m v\<close> is a message formatted from the
  literal \<open>m\<close> and the interpolated value \<open>v\<close>.
\<close>

definition utf8_len :: "nat \<Rightarrow> nat" where
  "utf8_len c = (if c < 128 then 1 else if c < 2048 then 2 else if c < 65536 then 3 else 4)"

definition utf8_char :: "nat \<Rightarrow> u8 list" where
  "utf8_char c =
    (if c < 128 then [of_nat c]
     else if c < 2048 then [of_nat (192 + c div 64), of_nat (128 + c mod 64)]
     else if c < 65536 then
       [of_nat (224 + c div 4096), of_nat (128 + c div 64 mod 64), of_nat (128 + c mod 64)]
     else
       [of_nat (240 + c div 262144), of_nat (128 + c div 4096 mod 64),
        of_nat (128 + c div 64 mod 64), of_nat (128 + c mod 64)])"

definition utf8 :: "str \<Rightarrow> u8 list" where
  "utf8 s = concat (map utf8_char s)"

definition text_len :: "str \<Rightarrow> nat" where
  "text_len s = sum_list (map utf8_len s)"

definition is_control :: "nat \<Rightarrow> bool" where
  "is_control c \<longleftrightarrow> c < 32 \<or> (127 \<le> c \<and> c < 160)"

definition is_whitespace :: "nat \<Rightarrow> bool" where
  "is_whitespace c \<longleftrightarrow> (9 \<le> c \<and> c \<le> 13) \<or> c = 32 \<or> c = 133 \<or> c = 160 \<or> c = 5760
     \<or> (8192 \<le> c \<and> c \<le> 8202) \<or> c = 8232 \<or> c = 8233 \<or> c = 8239 \<or> c = 8287 \<or> c = 12288"

definition trim_start :: "str \<Rightarrow> str" where
  "trim_start s = dropWhile is_whitespace s"

definition trim_end :: "str \<Rightarrow> str" where
  "trim_end s = rev (dropWhile is_whitespace (rev s))"

definition trim :: "str \<Rightarrow> str" where
  "trim s = trim_end (trim_start s)"

definition is_lower_hex :: "nat \<Rightarrow> bool" where
  "is_lower_hex c \<longleftrightarrow> (48 \<le> c \<and> c \<le> 57) \<or> (97 \<le> c \<and> c \<le> 102)"

definition is_hex :: "nat \<Rightarrow> bool" where
  "is_hex c \<longleftrightarrow> is_lower_hex c \<or> (65 \<le> c \<and> c \<le> 70)"

definition is_digit :: "nat \<Rightarrow> bool" where
  "is_digit c \<longleftrightarrow> 48 \<le> c \<and> c \<le> 57"

definition is_lower :: "nat \<Rightarrow> bool" where
  "is_lower c \<longleftrightarrow> 97 \<le> c \<and> c \<le> 122"

definition to_lower :: "nat \<Rightarrow> nat" where
  "to_lower c = (if 65 \<le> c \<and> c \<le> 90 then c + 32 else c)"

fun strip_prefix :: "str \<Rightarrow> str \<Rightarrow> str option" where
  "strip_prefix [] s = Some s"
| "strip_prefix (p # ps) [] = None"
| "strip_prefix (p # ps) (c # cs) = (if p = c then strip_prefix ps cs else None)"

fun is_char_boundary :: "str \<Rightarrow> nat \<Rightarrow> bool" where
  "is_char_boundary [] i = (i = 0)"
| "is_char_boundary (c # cs) i =
    (i = 0 \<or> (utf8_len c \<le> i \<and> is_char_boundary cs (i - utf8_len c)))"

text \<open>\<open>byte_prefix s i\<close> is the slice \<open>s[..i]\<close> at a character boundary.\<close>

fun byte_prefix :: "str \<Rightarrow> nat \<Rightarrow> str" where
  "byte_prefix [] i = []"
| "byte_prefix (c # cs) i = (if utf8_len c \<le> i then c # byte_prefix cs (i - utf8_len c) else [])"

text \<open>Decimal rendering of a \<open>usize\<close> in a formatted message.\<close>

fun decimal :: "nat \<Rightarrow> string" where
  "decimal n =
    (if n < 10 then [char_of (48 + n)] else decimal (n div 10) @ [char_of (48 + n mod 10)])"

declare decimal.simps [simp del]

section \<open>Laws\<close>

lemma lit_eq_iff [simp]: "lit a = lit b \<longleftrightarrow> a = b"
proof -
  have "inj (of_char :: char \<Rightarrow> nat)" by (rule inj_of_char)
  then show ?thesis by (simp add: lit_def inj_map_eq_map)
qed

lemma utf8_len_pos [simp]: "0 < utf8_len c"
  by (simp add: utf8_len_def)

lemma length_utf8_char: "length (utf8_char c) = utf8_len c"
  by (simp add: utf8_char_def utf8_len_def)

lemma length_utf8: "length (utf8 s) = text_len s"
  by (induction s) (simp_all add: utf8_def text_len_def length_utf8_char)

lemma text_len_simps [simp]:
  "text_len [] = 0" "text_len (c # s) = utf8_len c + text_len s"
  "text_len (s @ t) = text_len s + text_len t"
  by (simp_all add: text_len_def)

lemma text_len_0_iff [simp]: "text_len s = 0 \<longleftrightarrow> s = []"
  by (cases s) (simp_all add: utf8_len_def)

lemma text_len_dropWhile: "text_len (dropWhile p s) \<le> text_len s"
  by (induction s) auto

lemma text_len_rev [simp]: "text_len (rev s) = text_len s"
  by (induction s) auto

lemma text_len_trim_end: "text_len (trim_end s) \<le> text_len s"
  using text_len_dropWhile [of is_whitespace "rev s"] by (simp add: trim_end_def)

lemma text_len_trim: "text_len (trim s) \<le> text_len s"
  unfolding trim_def trim_start_def
  by (rule order_trans [OF text_len_trim_end text_len_dropWhile])

lemma trim_end_prefix: "\<exists>ws. s = trim_end s @ ws \<and> (\<forall>c \<in> set ws. is_whitespace c)"
proof -
  have "rev s = takeWhile is_whitespace (rev s) @ dropWhile is_whitespace (rev s)" by simp
  then have "s = trim_end s @ rev (takeWhile is_whitespace (rev s))"
    unfolding trim_end_def by (metis rev_append rev_rev_ident)
  moreover have "\<forall>c \<in> set (rev (takeWhile is_whitespace (rev s))). is_whitespace c"
    by (auto dest: set_takeWhileD)
  ultimately show ?thesis by blast
qed

lemma set_trim_end: "set (trim_end s) \<subseteq> set s"
  unfolding trim_end_def by (auto dest: set_dropWhileD)

lemma set_trim: "set (trim s) \<subseteq> set s"
  using set_trim_end [of "trim_start s"]
  by (auto simp: trim_def trim_start_def dest: set_dropWhileD)

lemma trim_end_idem [simp]: "trim_end (trim_end s) = trim_end s"
  by (simp add: trim_end_def)

lemma dropWhile_trim_end:
  "dropWhile is_whitespace s = s \<Longrightarrow> dropWhile is_whitespace (trim_end s) = trim_end s"
proof (cases s)
  case (Cons c cs)
  assume "dropWhile is_whitespace s = s"
  then have nw: "\<not> is_whitespace c"
    using Cons by (metis dropWhile.simps(2) dropWhile_eq_self_iff list.discI list.sel(1))
  from trim_end_prefix [of s] obtain ws
    where ws: "s = trim_end s @ ws" "\<forall>c \<in> set ws. is_whitespace c" by blast
  show "dropWhile is_whitespace (trim_end s) = trim_end s"
  proof (cases "trim_end s")
    case (Cons d ds)
    with ws(1) \<open>s = c # cs\<close> have "d = c" by simp
    with nw Cons show ?thesis by simp
  qed simp
qed (simp add: trim_end_def)

lemma trim_idem [simp]: "trim (trim s) = trim s"
proof -
  have "dropWhile is_whitespace (trim_end (trim_start s)) = trim_end (trim_start s)"
    by (rule dropWhile_trim_end) (simp add: trim_start_def)
  then show ?thesis by (simp add: trim_def trim_start_def)
qed

lemma is_char_boundary_0 [simp]: "is_char_boundary s 0"
  by (cases s) auto

lemma text_len_byte_prefix: "text_len (byte_prefix s i) \<le> i"
  by (induction s i rule: byte_prefix.induct) auto

lemma text_len_byte_prefix_boundary:
  "is_char_boundary s i \<Longrightarrow> text_len (byte_prefix s i) = i"
proof (induction s i rule: byte_prefix.induct)
  case (2 c cs i)
  then show ?case by (auto simp: utf8_len_def split: if_splits)
qed auto

lemma byte_prefix_prefix: "\<exists>t. s = byte_prefix s i @ t"
  by (induction s i rule: byte_prefix.induct) auto

lemma strip_prefix_Some_iff: "strip_prefix p s = Some t \<longleftrightarrow> s = p @ t"
  by (induction p s rule: strip_prefix.induct) auto

lemma strip_prefix_append [simp]: "strip_prefix p (p @ t) = Some t"
  by (simp add: strip_prefix_Some_iff)

end
