(* ===== verification/PaneText.thy ===== *)
theory PaneText
  imports RustText
begin

text \<open>
  The limits and text validators of \<open>src/src/pane_state/model.rs\<close>: random identifiers,
  agent kinds, provider session identifiers, bounded required and optional texts, and the
  identity of a tmux pane.
\<close>

section \<open>Limits\<close>

definition PANE_STATE_SCHEMA_VERSION :: u16 where "PANE_STATE_SCHEMA_VERSION = 11"
definition IDENTIFIER_MAX_BYTES :: nat where "IDENTIFIER_MAX_BYTES = 256"
definition BODY_MAX_BYTES :: nat where "BODY_MAX_BYTES = 4096"
definition PATH_MAX_BYTES :: nat where "PATH_MAX_BYTES = 8192"
definition MAX_TASK_ITEMS :: nat where "MAX_TASK_ITEMS = 256"
definition MAX_SUBAGENTS :: nat where "MAX_SUBAGENTS = 256"
definition MAX_VIEW_PANES :: nat where "MAX_VIEW_PANES = 512"
definition MAX_TASK_CONTEXT_PROMPTS :: nat where "MAX_TASK_CONTEXT_PROMPTS = 4"
definition TASK_CONTEXT_PROMPT_MAX_BYTES :: nat where "TASK_CONTEXT_PROMPT_MAX_BYTES = 1200"
definition TASK_SUMMARY_MAX_BYTES :: nat where "TASK_SUMMARY_MAX_BYTES = 256"
definition RESPONSE_PREVIEW_MAX_BYTES :: nat where "RESPONSE_PREVIEW_MAX_BYTES = 1200"
definition MAX_LISTENING_PORTS :: nat where "MAX_LISTENING_PORTS = 64"
definition MAX_BACKGROUND_TASKS :: nat where "MAX_BACKGROUND_TASKS = 256"
definition USAGE_LIMIT_WAIT_REASON :: str where "USAGE_LIMIT_WAIT_REASON = lit ''usage_limit''"

lemmas limit_defs = PANE_STATE_SCHEMA_VERSION_def IDENTIFIER_MAX_BYTES_def BODY_MAX_BYTES_def
  PATH_MAX_BYTES_def MAX_TASK_ITEMS_def MAX_SUBAGENTS_def MAX_VIEW_PANES_def
  MAX_TASK_CONTEXT_PROMPTS_def TASK_CONTEXT_PROMPT_MAX_BYTES_def TASK_SUMMARY_MAX_BYTES_def
  RESPONSE_PREVIEW_MAX_BYTES_def MAX_LISTENING_PORTS_def MAX_BACKGROUND_TASKS_def
  USAGE_LIMIT_WAIT_REASON_def

section \<open>Text validators\<close>

text \<open>
  Two private functions with these names and bodies exist in the code: the byte-wise test
  of a string that is all ASCII is the test of its scalar values, because every byte of
  the encoding of a scalar value beyond ASCII is at least 128.
\<close>

definition validate_random_id :: "str \<Rightarrow> string \<Rightarrow> message + unit" where
  "validate_random_id value name =
    fail_if (text_len value \<noteq> 32 \<or> \<not> list_all is_lower_hex value)
      (Msg (name @ '' must be exactly 32 lowercase hexadecimal characters''))"

definition normalize_text :: "str \<Rightarrow> str" where
  "normalize_text value = trim (map (\<lambda>c. if c = 0 \<or> is_control c then 32 else c) value)"

definition validate_optional_text :: "str \<Rightarrow> string \<Rightarrow> nat \<Rightarrow> message + unit" where
  "validate_optional_text value field max_bytes = first_error
    [fail_if (text_len value > max_bytes)
       (Msg (field @ '' exceeds the '' @ decimal max_bytes @ ''-byte limit'')),
     fail_if (list_ex is_control value) (Msg (field @ '' contains a control character''))]"

definition validate_required_text :: "str \<Rightarrow> string \<Rightarrow> nat \<Rightarrow> message + unit" where
  "validate_required_text value field max_bytes = first_error
    [fail_if (trim value = []) (Msg (field @ '' must not be empty'')),
     validate_optional_text value field max_bytes]"

section \<open>Identifiers\<close>

type_synonym state_id = str
type_synonym agent_kind = str
type_synonym agent_session_id = str

definition agent_kind_char :: "nat \<Rightarrow> nat \<Rightarrow> bool" where
  "agent_kind_char index c \<longleftrightarrow>
     is_lower c \<or> is_digit c \<or> ((c = 46 \<or> c = 95 \<or> c = 45) \<and> index > 0)"

definition agent_kind_parse :: "str \<Rightarrow> message + agent_kind" where
  "agent_kind_parse raw =
    (let value = map to_lower (trim raw);
         valid = value \<noteq> [] \<and> text_len value \<le> 64
           \<and> list_all (\<lambda>(i, c). agent_kind_char i c) (zip [0..<length value] value)
     in if \<not> valid then Inl (Msg ''agent kind must match [a-z0-9][a-z0-9._-]{0,63}'')
        else Inr value)"

definition agent_kind_deserialize_strict :: "str \<Rightarrow> message + agent_kind" where
  "agent_kind_deserialize_strict value = bind_r (agent_kind_parse value)
    (\<lambda>parsed. if parsed \<noteq> value
       then Inl (Msg ''agent kind must already be normalized at deserialize boundary'')
       else Inr parsed)"

definition agent_session_id_parse :: "str \<Rightarrow> message + agent_session_id" where
  "agent_session_id_parse raw =
    (let value = normalize_text raw
     in bind_r (validate_required_text value ''agent session ID'' IDENTIFIER_MAX_BYTES)
          (\<lambda>_. Inr value))"

definition agent_session_id_deserialize_strict :: "str \<Rightarrow> message + agent_session_id" where
  "agent_session_id_deserialize_strict value =
    bind_r (validate_required_text value ''agent session ID'' IDENTIFIER_MAX_BYTES)
      (\<lambda>_. if normalize_text value \<noteq> value
        then Inl (Msg ''agent session ID must already be normalized at deserialize boundary'')
        else Inr value)"

definition state_id_parse :: "str \<Rightarrow> message + state_id" where
  "state_id_parse value = bind_r (validate_random_id value ''state ID'') (\<lambda>_. Inr value)"

record pane_instance =
  pane_id :: str
  pane_pid :: u32

text \<open>Pane instances are compared by their identifier, then by their process.\<close>

type_synonym pane_key = "str \<times> u32"

definition pane_key_of :: "pane_instance \<Rightarrow> pane_key" where
  "pane_key_of p = (pane_id p, pane_pid p)"

definition pane_instance_validate :: "pane_instance \<Rightarrow> message + unit" where
  "pane_instance_validate p =
    (let valid_pane_id = (case strip_prefix (lit ''%'') (pane_id p) of
           None \<Rightarrow> False
         | Some digits \<Rightarrow> digits \<noteq> [] \<and> list_all is_digit digits)
     in fail_if (\<not> valid_pane_id \<or> pane_pid p = 0) (Msg ''invalid pane instance''))"

section \<open>Laws\<close>

lemma validate_optional_text_ok [result_simps]:
  "validate_optional_text v f n = Inr u \<longleftrightarrow> text_len v \<le> n \<and> \<not> list_ex is_control v"
  by (auto simp: validate_optional_text_def result_simps)

lemma validate_required_text_ok [result_simps]:
  "validate_required_text v f n = Inr u \<longleftrightarrow>
     trim v \<noteq> [] \<and> text_len v \<le> n \<and> \<not> list_ex is_control v"
  by (auto simp: validate_required_text_def result_simps)

lemma validate_random_id_ok [result_simps]:
  "validate_random_id v n = Inr u \<longleftrightarrow> text_len v = 32 \<and> list_all is_lower_hex v"
  by (auto simp: validate_random_id_def result_simps)

lemma normalize_text_no_control: "\<not> list_ex is_control (normalize_text v)"
proof -
  have "\<not> is_control c" if "c \<in> set (normalize_text v)" for c
    using that set_trim [of "map (\<lambda>c. if c = 0 \<or> is_control c then 32 else c) v"]
    by (auto simp: normalize_text_def is_control_def)
  then show ?thesis by (auto simp: list_ex_iff)
qed

lemma normalize_text_id: "\<not> list_ex is_control v \<Longrightarrow> normalize_text v = trim v"
proof -
  assume *: "\<not> list_ex is_control v"
  have "map (\<lambda>c. if c = 0 \<or> is_control c then 32 else c) v = v"
    using * by (intro map_idI) (auto simp: list_ex_iff is_control_def)
  then show ?thesis by (simp add: normalize_text_def)
qed

lemma normalize_text_idem [simp]: "normalize_text (normalize_text v) = normalize_text v"
  by (simp add: normalize_text_id [OF normalize_text_no_control]) (simp add: normalize_text_def)

lemma agent_kind_char_not_space: "agent_kind_char i c \<Longrightarrow> \<not> is_whitespace c \<and> to_lower c = c"
  by (auto simp: agent_kind_char_def is_lower_def is_digit_def is_whitespace_def to_lower_def)

lemma trim_no_whitespace: "\<forall>c \<in> set s. \<not> is_whitespace c \<Longrightarrow> trim s = s"
proof -
  assume s: "\<forall>c \<in> set s. \<not> is_whitespace c"
  have *: "dropWhile is_whitespace t = t" if "\<forall>c \<in> set t. \<not> is_whitespace c" for t
    using that by (cases t) auto
  from s have "dropWhile is_whitespace s = s" "dropWhile is_whitespace (rev s) = rev s"
    using * [of s] * [of "rev s"] by simp_all
  then show ?thesis by (simp add: trim_def trim_start_def trim_end_def)
qed

lemma agent_kind_parse_Inr:
  assumes "agent_kind_parse raw = Inr k"
  shows "k = map to_lower (trim raw) \<and> k \<noteq> [] \<and> text_len k \<le> 64
    \<and> (\<forall>i < length k. agent_kind_char i (k ! i))"
  using assms
  by (auto simp: agent_kind_parse_def Let_def list_all_length split: if_splits)

theorem agent_kind_roundtrip:
  assumes "agent_kind_parse raw = Inr k"
  shows "agent_kind_deserialize_strict k = Inr k"
proof -
  note k = agent_kind_parse_Inr [OF assms]
  have chars: "\<not> is_whitespace c \<and> to_lower c = c" if "c \<in> set k" for c
    using that k agent_kind_char_not_space by (metis in_set_conv_nth)
  have "map to_lower (trim k) = k"
    using chars by (simp add: trim_no_whitespace map_idI)
  then have "agent_kind_parse k = Inr k"
    using k by (auto simp: agent_kind_parse_def Let_def list_all_length)
  then show ?thesis by (simp add: agent_kind_deserialize_strict_def)
qed

theorem agent_kind_roundtrip_witness:
  "agent_kind_deserialize_strict (lit ''codex'') = Inr (lit ''codex'')"
  by (rule agent_kind_roundtrip [of "lit '' Codex ''"])
    (simp add: agent_kind_parse_def lit_def trim_def trim_start_def trim_end_def
      is_whitespace_def to_lower_def agent_kind_char_def is_lower_def is_digit_def utf8_len_def)

theorem agent_session_id_roundtrip:
  assumes "agent_session_id_parse raw = Inr s"
  shows "agent_session_id_deserialize_strict s = Inr s"
  using assms
  by (auto simp: agent_session_id_parse_def agent_session_id_deserialize_strict_def Let_def
      result_simps)

theorem agent_session_id_roundtrip_witness:
  "agent_session_id_deserialize_strict (lit ''s 1'') = Inr (lit ''s 1'')"
  by (rule agent_session_id_roundtrip [of "32 # 115 # 9 # 49 # [10]"])
    (simp add: agent_session_id_parse_def normalize_text_def validate_required_text_def
      validate_optional_text_def lit_def trim_def trim_start_def trim_end_def limit_defs
      is_whitespace_def is_control_def utf8_len_def)

end
