(* ===== verification/TranscriptParser.thy ===== *)
theory TranscriptParser
  imports PaneText
begin

unbundle bit_operations_syntax

text \<open>
  The incremental JSONL reader of \<open>question_notice/turn_order.rs\<close>: a byte-by-byte structural
  parser that keeps only the identifiers of a record. \<open>D\<close> is \<open>serde_json::from_slice::<String>\<close>
  and \<open>I\<close> the digest of an identifier. The stack of frames has its top first. A parser whose
  \<open>feed\<close> has failed is never read again, so the failure carries no state.
\<close>

section \<open>Records and fields\<close>

datatype read_failure = HistoryUnknown | Unavailable

type_synonym string_decoder = "u8 list \<Rightarrow> str option"

datatype record_kind = KindOther | KindSessionMeta | KindEvent | KindStart | KindComplete | KindAbort
  | KindRollback

definition kind_parse :: "str \<Rightarrow> record_kind" where
  "kind_parse v =
    (if v = lit ''session_meta'' then KindSessionMeta
     else if v = lit ''event_msg'' then KindEvent
     else if v = lit ''task_started'' \<or> v = lit ''turn_started'' then KindStart
     else if v = lit ''task_complete'' \<or> v = lit ''turn_complete'' then KindComplete
     else if v = lit ''turn_aborted'' then KindAbort
     else if v = lit ''thread_rolled_back'' then KindRollback
     else KindOther)"

record transcript_record =
  tr_kind :: record_kind
  tr_event :: record_kind
  tr_id :: "str option"
  tr_turn :: "str option"
  tr_user_source :: bool
  tr_source_known :: bool
  tr_parent :: bool
  tr_forked :: bool
  tr_error :: bool

definition record_default :: transcript_record where
  "record_default = \<lparr>tr_kind = KindOther, tr_event = KindOther, tr_id = None, tr_turn = None,
     tr_user_source = False, tr_source_known = False, tr_parent = False, tr_forked = False, tr_error = False\<rparr>"

datatype json_field = FieldOther | FieldType | FieldPayload | FieldId | FieldTurn | FieldSource
  | FieldParent | FieldFork | FieldError

definition field_parse :: "str \<Rightarrow> json_field" where
  "field_parse v =
    (if v = lit ''type'' then FieldType
     else if v = lit ''payload'' then FieldPayload
     else if v = lit ''id'' then FieldId
     else if v = lit ''turn_id'' then FieldTurn
     else if v = lit ''thread_source'' then FieldSource
     else if v = lit ''parent_thread_id'' then FieldParent
     else if v = lit ''forked_from_id'' then FieldFork
     else if v = lit ''error'' then FieldError
     else FieldOther)"

fun field_number :: "json_field \<Rightarrow> nat" where
  "field_number FieldOther = 0"
| "field_number FieldType = 1"
| "field_number FieldPayload = 2"
| "field_number FieldId = 3"
| "field_number FieldTurn = 4"
| "field_number FieldSource = 5"
| "field_number FieldParent = 6"
| "field_number FieldFork = 7"
| "field_number FieldError = 8"

definition field_bit :: "json_field \<Rightarrow> u16" where
  "field_bit f = (if f = FieldOther then 0 else push_bit (field_number f) 1)"

section \<open>Frames and tokens\<close>

datatype frame_role = RoleRoot | RolePayload | RoleOther

datatype frame_stage = KeyOrEnd | Key | Colon | ValueStage | ValueOrEnd | CommaObject | CommaArray

record frame =
  fr_role :: frame_role
  fr_stage :: frame_stage
  fr_field :: json_field
  fr_seen :: u16
  fr_array :: bool

datatype token_target = TargetKey | TargetValue frame_role json_field

record string_token =
  st_target :: token_target
  st_bytes :: "u8 list"
  st_keep :: bool
  st_escape :: bool
  st_unicode :: u8
  st_utf8 :: u8
  st_low :: u8
  st_high :: u8

datatype number_state = Minus | Zero | Integer | Dot | Fraction | Exponent | Sign | ExponentDigit

datatype token = TokenString string_token | TokenLiteral "u8 list" nat | TokenNumber number_state

definition digit_byte :: "u8 \<Rightarrow> bool" where
  "digit_byte b \<longleftrightarrow> 48 \<le> b \<and> b \<le> 57"

definition is_hex_byte :: "u8 \<Rightarrow> bool" where
  "is_hex_byte b \<longleftrightarrow> digit_byte b \<or> 65 \<le> b \<and> b \<le> 70 \<or> 97 \<le> b \<and> b \<le> 102"

text \<open>\<open>Inr None\<close>: the byte ends the number.\<close>

definition number_step :: "number_state \<Rightarrow> u8 \<Rightarrow> read_failure + number_state option" where
  "number_step n b =
    (if n = Minus \<and> b = 48 then Inr (Some Zero)
     else if n = Minus \<and> 49 \<le> b \<and> b \<le> 57 then Inr (Some Integer)
     else if n = Integer \<and> digit_byte b then Inr (Some Integer)
     else if n \<in> {Zero, Integer} \<and> b = 46 then Inr (Some Dot)
     else if n \<in> {Zero, Integer, Fraction} \<and> (b = 101 \<or> b = 69) then Inr (Some Exponent)
     else if n \<in> {Dot, Fraction} \<and> digit_byte b then Inr (Some Fraction)
     else if n = Exponent \<and> (b = 43 \<or> b = 45) then Inr (Some Sign)
     else if n \<in> {Exponent, Sign, ExponentDigit} \<and> digit_byte b then Inr (Some ExponentDigit)
     else if n \<in> {Zero, Integer, Fraction, ExponentDigit}
       \<and> (b = 32 \<or> b = 9 \<or> b = 13 \<or> b = 10 \<or> b = 44 \<or> b = 93 \<or> b = 125) then Inr None
     else Inl HistoryUnknown)"

section \<open>The parser\<close>

definition MAX_DEPTH :: nat where "MAX_DEPTH = 64"
definition MAX_METADATA :: nat where "MAX_METADATA = 16 * 1024"

record parser =
  qp_stack :: "frame list"
  qp_token :: "token option"
  qp_record :: transcript_record
  qp_complete :: bool
  qp_metadata :: nat

definition parser_default :: parser where
  "parser_default = \<lparr>qp_stack = [], qp_token = None, qp_record = record_default, qp_complete = False,
     qp_metadata = 0\<rparr>"

definition parser_empty :: "parser \<Rightarrow> bool" where
  "parser_empty p \<longleftrightarrow> qp_stack p = [] \<and> qp_token p = None \<and> \<not> qp_complete p"

definition plain_ascii :: "u8 \<Rightarrow> bool" where
  "plain_ascii b \<longleftrightarrow> 32 \<le> b \<and> b \<le> 127 \<and> b \<noteq> 34 \<and> b \<noteq> 92"

definition skip_ignored_ascii :: "parser \<Rightarrow> u8 list \<Rightarrow> nat" where
  "skip_ignored_ascii p input = (case qp_token p of
      Some (TokenString t) \<Rightarrow>
        if \<not> st_keep t \<and> \<not> st_escape t \<and> st_unicode t = 0 \<and> st_utf8 t = 0
        then (case position (\<lambda>b. \<not> plain_ascii b) input of None \<Rightarrow> length input | Some i \<Rightarrow> i)
        else 0
    | _ \<Rightarrow> 0)"

definition push_frame :: "frame_role \<Rightarrow> bool \<Rightarrow> parser \<Rightarrow> read_failure + parser" where
  "push_frame role array p =
    (if length (qp_stack p) \<ge> MAX_DEPTH then Inl HistoryUnknown
     else Inr (p\<lparr>qp_stack := \<lparr>fr_role = role, fr_stage = (if array then ValueOrEnd else KeyOrEnd),
         fr_field = FieldOther, fr_seen = 0, fr_array = array\<rparr> # qp_stack p\<rparr>))"

definition value_done :: "parser \<Rightarrow> read_failure + parser" where
  "value_done p = (case qp_stack p of
      [] \<Rightarrow> Inl HistoryUnknown
    | frame # rest \<Rightarrow>
        if fr_stage frame \<noteq> ValueStage \<and> fr_stage frame \<noteq> ValueOrEnd then Inl HistoryUnknown
        else Inr (p\<lparr>qp_stack := frame\<lparr>fr_stage := (if fr_array frame then CommaArray else CommaObject)\<rparr> # rest\<rparr>))"

definition close_frame :: "bool \<Rightarrow> parser \<Rightarrow> read_failure + parser" where
  "close_frame array p = (case qp_stack p of
      [] \<Rightarrow> Inl HistoryUnknown
    | frame # rest \<Rightarrow>
        if fr_array frame \<noteq> array then Inl HistoryUnknown
        else if rest = [] then Inr (p\<lparr>qp_stack := [], qp_complete := True\<rparr>)
        else value_done (p\<lparr>qp_stack := rest\<rparr>))"

definition set_stage :: "frame_stage \<Rightarrow> parser \<Rightarrow> parser" where
  "set_stage stage p = (case qp_stack p of
      [] \<Rightarrow> p
    | frame # rest \<Rightarrow> p\<lparr>qp_stack := frame\<lparr>fr_stage := stage\<rparr> # rest\<rparr>)"

definition begin_string :: "token_target \<Rightarrow> bool \<Rightarrow> parser \<Rightarrow> parser" where
  "begin_string target keep p = p\<lparr>qp_token := Some (TokenString
     \<lparr>st_target = target, st_bytes = (if keep then [34] else []), st_keep = keep, st_escape = False,
      st_unicode = 0, st_utf8 = 0, st_low = 128, st_high = 191\<rparr>)\<rparr>"

text \<open>The flags that \<open>begin_value\<close> sets from the first byte of a value of the payload.\<close>

definition note_presence :: "json_field \<Rightarrow> u8 \<Rightarrow> transcript_record \<Rightarrow> transcript_record" where
  "note_presence field b r =
    (let r = (if field = FieldError then r\<lparr>tr_error := b \<noteq> 110\<rparr> else r);
         r = (if field = FieldParent then r\<lparr>tr_parent := b \<noteq> 110\<rparr> else r)
     in (if field = FieldFork then r\<lparr>tr_forked := b \<noteq> 110\<rparr> else r))"

definition kept_value :: "frame_role \<Rightarrow> json_field \<Rightarrow> bool" where
  "kept_value role field \<longleftrightarrow> role = RoleRoot \<and> field = FieldType
     \<or> role = RolePayload \<and> field \<in> {FieldType, FieldId, FieldTurn, FieldSource, FieldParent}"

definition begin_value :: "frame \<Rightarrow> u8 \<Rightarrow> parser \<Rightarrow> read_failure + parser" where
  "begin_value frame b p =
    (let field = (if fr_array frame then FieldOther else fr_field frame);
         p = (if fr_role frame = RolePayload then p\<lparr>qp_record := note_presence field b (qp_record p)\<rparr> else p)
     in if b = 123 \<or> b = 91
        then push_frame (if fr_role frame = RoleRoot \<and> field = FieldPayload \<and> b = 123
          then RolePayload else RoleOther) (b = 91) p
        else if b = 34 then Inr (begin_string (TargetValue (fr_role frame) field)
          (kept_value (fr_role frame) field) p)
        else if b = 110 then Inr (p\<lparr>qp_token := Some (TokenLiteral [110, 117, 108, 108] 1)\<rparr>)
        else if b = 116 then Inr (p\<lparr>qp_token := Some (TokenLiteral [116, 114, 117, 101] 1)\<rparr>)
        else if b = 102 then Inr (p\<lparr>qp_token := Some (TokenLiteral [102, 97, 108, 115, 101] 1)\<rparr>)
        else if b = 45 then Inr (p\<lparr>qp_token := Some (TokenNumber Minus)\<rparr>)
        else if b = 48 then Inr (p\<lparr>qp_token := Some (TokenNumber Zero)\<rparr>)
        else if 49 \<le> b \<and> b \<le> 57 then Inr (p\<lparr>qp_token := Some (TokenNumber Integer)\<rparr>)
        else Inl HistoryUnknown)"

fun store_value :: "(str \<Rightarrow> str) \<Rightarrow> frame_role \<Rightarrow> json_field \<Rightarrow> str \<Rightarrow> transcript_record \<Rightarrow> transcript_record" where
  "store_value I RoleRoot FieldType v r = r\<lparr>tr_kind := kind_parse v\<rparr>"
| "store_value I RolePayload FieldType v r = r\<lparr>tr_event := kind_parse v\<rparr>"
| "store_value I RolePayload FieldId v r = r\<lparr>tr_id := Some (I v)\<rparr>"
| "store_value I RolePayload FieldTurn v r = r\<lparr>tr_turn := Some (I v)\<rparr>"
| "store_value I RolePayload FieldSource v r = r\<lparr>tr_user_source := v = lit ''user'', tr_source_known := True\<rparr>"
| "store_value I RolePayload FieldParent v r = r\<lparr>tr_parent := v \<noteq> []\<rparr>"
| "store_value I _ _ v r = r"

definition string_value :: "(str \<Rightarrow> str) \<Rightarrow> frame_role \<Rightarrow> json_field \<Rightarrow> str \<Rightarrow> parser \<Rightarrow> read_failure + parser" where
  "string_value I role field v p =
    (if text_len v > IDENTIFIER_MAX_BYTES \<or> qp_metadata p + text_len v > MAX_METADATA then Inl HistoryUnknown
     else Inr (p\<lparr>qp_metadata := qp_metadata p + text_len v,
       qp_record := store_value I role field v (qp_record p)\<rparr>))"

section \<open>Feeding a byte\<close>

definition feed_literal :: "u8 \<Rightarrow> u8 list \<Rightarrow> nat \<Rightarrow> parser \<Rightarrow> read_failure + parser" where
  "feed_literal b expected i p =
    (if i \<ge> length expected \<or> expected ! i \<noteq> b then Inl HistoryUnknown
     else if i + 1 = length expected then value_done p
     else Inr (p\<lparr>qp_token := Some (TokenLiteral expected (i + 1))\<rparr>))"

text \<open>The flags of a string after one more byte of it: escapes, and UTF-8 with its first
  continuation byte restricted so that overlong forms and surrogates are refused.\<close>

definition scan_string :: "u8 \<Rightarrow> string_token \<Rightarrow> read_failure + string_token" where
  "scan_string b t =
    (if st_utf8 t \<noteq> 0 then
       if b < st_low t \<or> b > st_high t then Inl HistoryUnknown
       else Inr (t\<lparr>st_utf8 := st_utf8 t - 1, st_low := 128, st_high := 191\<rparr>)
     else if st_unicode t \<noteq> 0 then
       if \<not> is_hex_byte b then Inl HistoryUnknown else Inr (t\<lparr>st_unicode := st_unicode t - 1\<rparr>)
     else if st_escape t then
       if b = 117 then Inr (t\<lparr>st_escape := False, st_unicode := 4\<rparr>)
       else if b \<in> {34, 92, 47, 98, 102, 110, 114, 116} then Inr (t\<lparr>st_escape := False\<rparr>)
       else Inl HistoryUnknown
     else if b \<le> 31 then Inl HistoryUnknown
     else if b = 92 then Inr (t\<lparr>st_escape := True\<rparr>)
     else if 194 \<le> b \<and> b \<le> 223 then Inr (t\<lparr>st_utf8 := 1\<rparr>)
     else if 224 \<le> b \<and> b \<le> 239 then
       Inr (t\<lparr>st_utf8 := 2, st_low := (if b = 224 then 160 else st_low t),
         st_high := (if b = 237 then 159 else st_high t)\<rparr>)
     else if 240 \<le> b \<and> b \<le> 244 then
       Inr (t\<lparr>st_utf8 := 3, st_low := (if b = 240 then 144 else st_low t),
         st_high := (if b = 244 then 143 else st_high t)\<rparr>)
     else if 128 \<le> b then Inl HistoryUnknown
     else Inr t)"

definition keep_byte :: "u8 \<Rightarrow> string_token \<Rightarrow> read_failure + string_token" where
  "keep_byte b t =
    (if \<not> st_keep t then Inr t
     else if length (st_bytes t) \<ge> IDENTIFIER_MAX_BYTES * 6 + 2 then
       if st_target t = TargetKey then Inr (t\<lparr>st_keep := False, st_bytes := []\<rparr>) else Inl HistoryUnknown
     else Inr (t\<lparr>st_bytes := st_bytes t @ [b]\<rparr>))"

definition string_finished :: "u8 \<Rightarrow> string_token \<Rightarrow> bool" where
  "string_finished b t \<longleftrightarrow> b = 34 \<and> \<not> st_escape t \<and> st_unicode t = 0 \<and> st_utf8 t = 0"

definition finish_key :: "str option \<Rightarrow> parser \<Rightarrow> read_failure + parser" where
  "finish_key v p = (case qp_stack p of
      [] \<Rightarrow> Inl HistoryUnknown
    | frame # rest \<Rightarrow>
        let field = (if fr_role frame = RoleOther then FieldOther
          else case v of None \<Rightarrow> FieldOther | Some v \<Rightarrow> field_parse v)
        in if fr_seen frame AND field_bit field \<noteq> 0 then Inl HistoryUnknown
           else Inr (p\<lparr>qp_stack := frame\<lparr>fr_seen := fr_seen frame OR field_bit field, fr_field := field,
             fr_stage := Colon\<rparr> # rest\<rparr>))"

definition finish_string :: "string_decoder \<Rightarrow> (str \<Rightarrow> str) \<Rightarrow> string_token \<Rightarrow> parser \<Rightarrow> read_failure + parser" where
  "finish_string D I t p =
    bind_r (if st_keep t then (case D (st_bytes t @ [34]) of None \<Rightarrow> Inl HistoryUnknown | Some v \<Rightarrow> Inr (Some v))
            else Inr None) (\<lambda>v.
    case st_target t of
      TargetKey \<Rightarrow> finish_key v p
    | TargetValue role field \<Rightarrow>
        bind_r (case v of Some v \<Rightarrow> string_value I role field v p | None \<Rightarrow> Inr p) value_done)"

definition feed_string :: "string_decoder \<Rightarrow> (str \<Rightarrow> str) \<Rightarrow> u8 \<Rightarrow> string_token \<Rightarrow> parser \<Rightarrow> read_failure + parser" where
  "feed_string D I b t p =
    (if string_finished b t then finish_string D I t p
     else bind_r (scan_string b t) (\<lambda>t.
       bind_r (keep_byte b t) (\<lambda>t. Inr (p\<lparr>qp_token := Some (TokenString t)\<rparr>))))"

definition json_space :: "u8 \<Rightarrow> bool" where
  "json_space b \<longleftrightarrow> b = 32 \<or> b = 9 \<or> b = 13 \<or> b = 10"

text \<open>A byte in the frame on top of the stack.\<close>

definition feed_frame :: "u8 \<Rightarrow> frame \<Rightarrow> parser \<Rightarrow> read_failure + parser" where
  "feed_frame b frame p = (case fr_stage frame of
      KeyOrEnd \<Rightarrow> if b = 125 then close_frame False p
        else if b \<noteq> 34 then Inl HistoryUnknown
        else Inr (begin_string TargetKey (fr_role frame \<noteq> RoleOther) p)
    | Key \<Rightarrow> if b \<noteq> 34 then Inl HistoryUnknown
        else Inr (begin_string TargetKey (fr_role frame \<noteq> RoleOther) p)
    | Colon \<Rightarrow> if b \<noteq> 58 then Inl HistoryUnknown else Inr (set_stage ValueStage p)
    | ValueOrEnd \<Rightarrow> if b = 93 then close_frame True p else begin_value frame b p
    | ValueStage \<Rightarrow> begin_value frame b p
    | CommaObject \<Rightarrow> if b = 125 then close_frame False p
        else if b = 44 then Inr (set_stage (if fr_array frame then ValueStage else Key) p)
        else Inl HistoryUnknown
    | CommaArray \<Rightarrow> if b = 93 then close_frame True p
        else if b = 44 then Inr (set_stage (if fr_array frame then ValueStage else Key) p)
        else Inl HistoryUnknown)"

text \<open>
  A byte outside of any token. \<open>is_ascii_whitespace\<close> is the JSON white space and the form feed,
  which is refused.
\<close>

definition feed_structure :: "u8 \<Rightarrow> parser \<Rightarrow> read_failure + parser \<times> transcript_record option" where
  "feed_structure b p =
    (if qp_complete p then
       if b = 10 then Inr (p\<lparr>qp_complete := False, qp_metadata := 0, qp_record := record_default\<rparr>,
         Some (qp_record p))
       else if b = 32 \<or> b = 9 \<or> b = 13 then Inr (p, None)
       else Inl HistoryUnknown
     else if b = 12 then Inl HistoryUnknown
     else if json_space b then Inr (p, None)
     else bind_r (case qp_stack p of
         [] \<Rightarrow> if b \<noteq> 123 then Inl HistoryUnknown else push_frame RoleRoot False p
       | frame # _ \<Rightarrow> feed_frame b frame p) (\<lambda>p. Inr (p, None)))"

definition feed :: "string_decoder \<Rightarrow> (str \<Rightarrow> str) \<Rightarrow> u8 \<Rightarrow> parser \<Rightarrow> read_failure + parser \<times> transcript_record option" where
  "feed D I b p0 =
    (let p = p0\<lparr>qp_token := None\<rparr>
     in case qp_token p0 of
       None \<Rightarrow> feed_structure b p
     | Some (TokenLiteral expected i) \<Rightarrow> bind_r (feed_literal b expected i p) (\<lambda>p. Inr (p, None))
     | Some (TokenNumber n) \<Rightarrow>
         bind_r (number_step n b) (\<lambda>next.
         case next of
           Some n \<Rightarrow> Inr (p\<lparr>qp_token := Some (TokenNumber n)\<rparr>, None)
         | None \<Rightarrow> bind_r (value_done p) (feed_structure b))
     | Some (TokenString t) \<Rightarrow> bind_r (feed_string D I b t p) (\<lambda>p. Inr (p, None)))"

end
