(* ===== verification/BTree.thy ===== *)
theory BTree
  imports Prelude "HOL-Library.List_Lexorder"
begin

text \<open>
  \<open>BTreeSet\<close> and \<open>BTreeMap\<close> as strictly sorted lists: iteration is in key order, as in
  the code. The map interface is a locale, with what its clients need of a loop that
  writes one value under many keys.
\<close>

section \<open>Sorted sets\<close>

fun bs_insert :: "'a::linorder \<Rightarrow> 'a list \<Rightarrow> 'a list" where
  "bs_insert x [] = [x]"
| "bs_insert x (y # ys) =
    (if x < y then x # y # ys else if x = y then y # ys else y # bs_insert x ys)"

definition bs_remove :: "'a \<Rightarrow> 'a list \<Rightarrow> 'a list" where
  "bs_remove x xs = filter (\<lambda>y. y \<noteq> x) xs"

definition bs_of_list :: "'a::linorder list \<Rightarrow> 'a list" where
  "bs_of_list xs = foldl (\<lambda>s x. bs_insert x s) [] xs"

definition bs_extend :: "'a::linorder list \<Rightarrow> 'a list \<Rightarrow> 'a list" where
  "bs_extend s xs = foldl (\<lambda>s x. bs_insert x s) s xs"

lemma set_bs_insert [simp]: "set (bs_insert x s) = insert x (set s)"
  by (induction s) auto

lemma bs_insert_sorted: "sorted_wrt (<) s \<Longrightarrow> sorted_wrt (<) (bs_insert x s)"
  by (induction s) auto

lemma set_bs_remove [simp]: "set (bs_remove x s) = set s - {x}"
  by (auto simp: bs_remove_def)

lemma bs_remove_sorted: "sorted_wrt (<) s \<Longrightarrow> sorted_wrt (<) (bs_remove x s)"
  by (simp add: bs_remove_def sorted_wrt_filter)

lemma set_bs_extend [simp]: "set (bs_extend s xs) = set s \<union> set xs"
  by (induction xs arbitrary: s) (auto simp: bs_extend_def)

lemma bs_extend_sorted: "sorted_wrt (<) s \<Longrightarrow> sorted_wrt (<) (bs_extend s xs)"
  by (induction xs arbitrary: s) (auto simp: bs_extend_def bs_insert_sorted)

lemma bs_of_list_extend: "bs_of_list xs = bs_extend [] xs"
  by (simp add: bs_of_list_def bs_extend_def)

lemma set_bs_of_list [simp]: "set (bs_of_list xs) = set xs"
  by (simp add: bs_of_list_extend)

lemma bs_of_list_sorted: "sorted_wrt (<) (bs_of_list xs)"
  by (simp add: bs_of_list_extend bs_extend_sorted)

lemma sorted_wrt_distinct: "sorted_wrt (<) s \<Longrightarrow> distinct (s :: 'a::linorder list)"
  by (induction s) auto

section \<open>The map interface\<close>

locale ordered_map =
  fixes get :: "'m \<Rightarrow> 'k \<Rightarrow> 'v option"
    and insert :: "'k \<Rightarrow> 'v \<Rightarrow> 'm \<Rightarrow> 'm"
    and remove :: "'k \<Rightarrow> 'm \<Rightarrow> 'm"
    and invar :: "'m \<Rightarrow> bool"
  assumes get_insert: "get (insert k v m) j = (if j = k then Some v else get m j)"
    and get_remove: "get (remove k m) j = (if j = k then None else get m j)"
    and invar_insert: "invar m \<Longrightarrow> invar (insert k v m)"
    and invar_remove: "invar m \<Longrightarrow> invar (remove k m)"
begin

lemma get_insert_all:
  "get (fold (\<lambda>k. insert k v) ks m) j = (if j \<in> set ks then Some v else get m j)"
  by (induction ks arbitrary: m) (auto simp: get_insert)

lemma get_remove_all:
  "get (fold remove ks m) j = (if j \<in> set ks then None else get m j)"
  by (induction ks arbitrary: m) (auto simp: get_remove)

lemma insert_after_remove: "get (insert k v (remove k m)) j = get (insert k v m) j"
  by (simp add: get_insert get_remove)

lemma invar_insert_all: "invar m \<Longrightarrow> invar (fold (\<lambda>k. insert k v) ks m)"
  by (induction ks arbitrary: m) (auto intro: invar_insert)

end

section \<open>Sorted association lists\<close>

abbreviation bm_get :: "('k \<times> 'v) list \<Rightarrow> 'k \<Rightarrow> 'v option" where
  "bm_get \<equiv> map_of"

fun bm_insert :: "'k::linorder \<Rightarrow> 'v \<Rightarrow> ('k \<times> 'v) list \<Rightarrow> ('k \<times> 'v) list" where
  "bm_insert k v [] = [(k, v)]"
| "bm_insert k v ((j, w) # m) =
    (if k < j then (k, v) # (j, w) # m else if k = j then (k, v) # m
     else (j, w) # bm_insert k v m)"

definition bm_remove :: "'k \<Rightarrow> ('k \<times> 'v) list \<Rightarrow> ('k \<times> 'v) list" where
  "bm_remove k m = filter (\<lambda>e. fst e \<noteq> k) m"

definition bm_map_values :: "('k \<Rightarrow> 'v \<Rightarrow> 'v) \<Rightarrow> ('k \<times> 'v) list \<Rightarrow> ('k \<times> 'v) list" where
  "bm_map_values f m = map (\<lambda>e. (fst e, f (fst e) (snd e))) m"

definition bm_invar :: "('k::linorder \<times> 'v) list \<Rightarrow> bool" where
  "bm_invar m \<longleftrightarrow> sorted_wrt (<) (map fst m)"

lemma bm_get_insert: "bm_get (bm_insert k v m) j = (if j = k then Some v else bm_get m j)"
  by (induction k v m rule: bm_insert.induct) auto

lemma bm_get_remove: "bm_get (bm_remove k m) j = (if j = k then None else bm_get m j)"
  by (induction m) (auto simp: bm_remove_def)

lemma bm_keys_insert: "fst ` set (bm_insert k v m) = insert k (fst ` set m)"
  by (induction k v m rule: bm_insert.induct) auto

lemma bm_invar_insert: "bm_invar m \<Longrightarrow> bm_invar (bm_insert k v m)"
proof (induction k v m rule: bm_insert.induct)
  case (2 k v j w m)
  have "\<forall>i \<in> set (map fst (bm_insert k v m)). j < i" if "\<not> k < j" "k \<noteq> j"
    using "2.prems" that bm_keys_insert [of k v m] by (auto simp: bm_invar_def image_iff)
  with 2 show ?case by (auto simp: bm_invar_def)
qed (simp add: bm_invar_def)

lemma bm_invar_remove: "bm_invar m \<Longrightarrow> bm_invar (bm_remove k m)"
  by (induction m) (auto simp: bm_invar_def bm_remove_def)

lemma bm_get_map_values: "bm_get (bm_map_values f m) k = map_option (f k) (bm_get m k)"
  by (induction m) (auto simp: bm_map_values_def)

lemma bm_invar_map_values: "bm_invar m \<Longrightarrow> bm_invar (bm_map_values f m)"
  by (simp add: bm_invar_def bm_map_values_def comp_def)

interpretation bm: ordered_map bm_get bm_insert bm_remove bm_invar
  by unfold_locales (simp_all add: bm_get_insert bm_get_remove bm_invar_insert bm_invar_remove)

text \<open>
  More laws of sorted association lists: filtering, counting and extensionality.
\<close>

lemma bm_get_filter: "bm_invar m \<Longrightarrow> bm_get (filter p m) k = Some v \<longleftrightarrow> bm_get m k = Some v \<and> p (k, v)"
proof -
  assume m: "bm_invar m"
  then have "distinct (map fst m)" by (simp add: bm_invar_def sorted_wrt_distinct)
  then have "distinct (map fst (filter p m))" by (simp add: distinct_map_filter)
  with \<open>distinct (map fst m)\<close> show ?thesis by (auto simp: map_of_eq_Some_iff)
qed

lemma bm_invar_filter: "bm_invar m \<Longrightarrow> bm_invar (filter p m)"
  unfolding bm_invar_def by (induction m) auto

lemma bm_get_filter_key: "bm_get (filter (\<lambda>e. p (fst e)) m) k = (if p k then bm_get m k else None)"
  by (induction m) auto

lemma bm_sum_insert:
  fixes f :: "'k::linorder \<times> 'v \<Rightarrow> nat"
  assumes "bm_invar m"
  shows "sum_list (map f (bm_insert k v m)) + (case bm_get m k of None \<Rightarrow> 0 | Some w \<Rightarrow> f (k, w))
    = sum_list (map f m) + f (k, v)"
  using assms
proof (induction k v m rule: bm_insert.induct)
  case (2 k v j w m)
  then have rest: "bm_invar m" "\<forall>i \<in> fst ` set m. j < i" by (auto simp: bm_invar_def)
  have "bm_get m k = None" if "k < j"
    using rest(2) that by (fastforce simp: map_of_eq_None_iff)
  then show ?case using 2(1) [OF _ _ rest(1)] by (auto split: option.split)
qed simp

lemma bm_length_insert:
  assumes "bm_invar (m :: ('k::linorder \<times> 'v) list)"
  shows "length (bm_insert k v m) = length m + (if bm_get m k = None then 1 else 0)"
  using bm_sum_insert [OF assms, of "\<lambda>_. 1" k v] by (auto simp: sum_list_triv split: option.splits)

lemma bm_get_in: "bm_invar m \<Longrightarrow> (k, v) \<in> set m \<longleftrightarrow> bm_get m k = Some v"
  by (simp add: bm_invar_def sorted_wrt_distinct)

lemma bm_ext:
  assumes "bm_invar (m :: ('k::linorder \<times> 'v) list)" "bm_invar q" "\<And>k. bm_get m k = bm_get q k"
  shows "m = q"
proof -
  have "e \<in> set m \<longleftrightarrow> e \<in> set q" for e
    using bm_get_in [OF assms(1), of "fst e" "snd e"] bm_get_in [OF assms(2), of "fst e" "snd e"] assms(3) by simp
  then have "set m = set q" by blast
  moreover have "sorted_wrt (\<lambda>x y. fst x < fst y) m" "sorted_wrt (\<lambda>x y. fst x < fst y) q"
    using assms(1,2) by (simp_all add: bm_invar_def sorted_wrt_map)
  ultimately show ?thesis
  proof (induction m arbitrary: q)
    case (Cons x m)
    then obtain y p where q: "q = y # p" by (cases q) auto
    have "x = y"
    proof (rule ccontr)
      assume "x \<noteq> y"
      then have "x \<in> set p" "y \<in> set m" using Cons.prems(1) by (auto simp: q)
      then have "fst y < fst x" "fst x < fst y" using Cons.prems(2,3) by (auto simp: q)
      then show False by simp
    qed
    moreover have "x \<notin> set m" "y \<notin> set p" using Cons.prems(2,3) by (auto simp: q)
    then have "set m = set p" using Cons.prems(1) \<open>x = y\<close> by (auto simp: q)
    ultimately show ?case using Cons.IH [of p] Cons.prems(2,3) by (simp add: q)
  qed simp
qed

lemma sum_filter_le: "sum_list (map f (filter p xs)) \<le> (sum_list (map f xs) :: nat)"
  by (induction xs) auto

lemma bm_insert_last: "\<forall>e \<in> set m. fst e < k \<Longrightarrow> bm_insert k v m = m @ [(k, v)]"
  by (induction k v m rule: bm_insert.induct) auto

lemma bm_get_absent: "\<forall>e \<in> set m. fst e < (k :: 'k::linorder) \<Longrightarrow> bm_get m k = None"
  by (auto simp: map_of_eq_None_iff)

lemma sorted_middle: "bm_invar (xs @ (k, v) # ys) \<Longrightarrow> \<forall>e \<in> set xs. fst e < k"
  by (auto simp: bm_invar_def sorted_wrt_append)

lemma length_bs_insert: "length (bs_insert x s) \<le> Suc (length s)" "x \<notin> set s \<Longrightarrow> length (bs_insert x s) = Suc (length s)"
  by (induction s) auto

lemma bs_extend_length: "length (bs_extend s xs) \<le> length s + length xs"
proof (induction xs arbitrary: s)
  case (Cons x xs)
  have "length (bs_insert x s) \<le> Suc (length s)" by (rule length_bs_insert(1))
  with Cons [of "bs_insert x s"] show ?case by (simp add: bs_extend_def)
qed (simp add: bs_extend_def)

end
