(* ===== verification/TranscriptCursor.thy ===== *)
theory TranscriptCursor
  imports TranscriptParser BTree
begin

text \<open>
  The cursor of \<open>question_notice/turn_order.rs\<close>: a resumable reader of one transcript file that
  knows in which order the turns were started and ended. The answers of the file system and of
  the clock are an environment of each call. A byte on which the parser fails leaves the cursor
  as it was and marks the history as unknown, after which nothing of it is used.
\<close>

section \<open>State\<close>

record transcript_locator =
  tl_home :: str
  tl_transcript :: str
  tl_dev :: u64
  tl_ino :: u64

record turn_order =
  to_start :: u64
  to_complete :: "u64 option"
  to_aborted :: "u64 option"
  to_error :: bool

record cursor =
  cu_locator :: transcript_locator
  cu_session_digest :: str
  cu_offset :: u64
  cu_ordinal :: u64
  cu_header :: bool
  cu_unknown :: bool
  cu_size_seen :: u64
  cu_parser :: parser
  cu_turns :: "(str \<times> turn_order) list"

record slice_result =
  sr_bytes :: nat
  sr_more :: bool
  sr_partial :: bool

definition SLICE_BYTES :: nat where "SLICE_BYTES = 4 * 1024 * 1024"
definition REQUEST_BYTES :: nat where "REQUEST_BYTES = 32 * 1024 * 1024"
definition READ_BUFFER_BYTES :: nat where "READ_BUFFER_BYTES = 64 * 1024"
definition MAX_TURNS :: nat where "MAX_TURNS = 4096"

definition cursor_new :: "transcript_locator \<Rightarrow> str \<Rightarrow> cursor" where
  "cursor_new locator session_digest = \<lparr>cu_locator = locator, cu_session_digest = session_digest,
     cu_offset = 0, cu_ordinal = 0, cu_header = False, cu_unknown = False, cu_size_seen = 0,
     cu_parser = parser_default, cu_turns = []\<rparr>"

section \<open>Queries\<close>

definition header_verified :: "cursor \<Rightarrow> bool" where
  "header_verified c \<longleftrightarrow> cu_header c \<and> \<not> cu_unknown c"

definition quiescent :: "cursor \<Rightarrow> bool" where
  "quiescent c \<longleftrightarrow> header_verified c
     \<and> list_all (\<lambda>(_, turn). to_complete turn \<noteq> None \<or> to_aborted turn \<noteq> None) (cu_turns c)"

text \<open>\<open>max_by_key\<close> returns the last of the maximal elements.\<close>

fun latest_turn :: "turn_order list \<Rightarrow> turn_order option" where
  "latest_turn [] = None"
| "latest_turn (t # ts) = (case latest_turn ts of
     None \<Rightarrow> Some t
   | Some u \<Rightarrow> if to_start t \<le> to_start u then Some u else Some t)"

definition cursor_idle :: "cursor \<Rightarrow> bool" where
  "cursor_idle c \<longleftrightarrow> quiescent c \<and> (case latest_turn (map snd (cu_turns c)) of
      None \<Rightarrow> False
    | Some turn \<Rightarrow> to_complete turn \<noteq> None \<and> to_aborted turn = None \<and> \<not> to_error turn)"

definition proves :: "cursor \<Rightarrow> str \<Rightarrow> str \<Rightarrow> bool" where
  "proves c issued submitted \<longleftrightarrow> header_verified c \<and> issued \<noteq> submitted
     \<and> (case (bm_get (cu_turns c) issued, bm_get (cu_turns c) submitted) of
         (Some a, Some b) \<Rightarrow> \<not> to_error a \<and> to_aborted a = None
           \<and> (case to_complete a of
               None \<Rightarrow> False
             | Some complete \<Rightarrow> to_start a < complete \<and> complete < to_start b)
       | _ \<Rightarrow> False)"

section \<open>Records\<close>

definition start_turn :: "str \<Rightarrow> cursor \<Rightarrow> read_failure + cursor" where
  "start_turn i c =
    (if bm_get (cu_turns c) i \<noteq> None \<or> length (cu_turns c) \<ge> MAX_TURNS then Inl HistoryUnknown
     else Inr (c\<lparr>cu_turns := bm_insert i \<lparr>to_start = cu_ordinal c, to_complete = None, to_aborted = None,
       to_error = False\<rparr> (cu_turns c)\<rparr>))"

definition end_turn :: "str \<Rightarrow> transcript_record \<Rightarrow> cursor \<Rightarrow> read_failure + cursor" where
  "end_turn i r c = (case bm_get (cu_turns c) i of
      None \<Rightarrow> Inl HistoryUnknown
    | Some turn \<Rightarrow>
        if to_complete turn \<noteq> None \<or> to_aborted turn \<noteq> None then Inl HistoryUnknown
        else Inr (c\<lparr>cu_turns := bm_insert i
          (if tr_event r = KindComplete
           then turn\<lparr>to_complete := Some (cu_ordinal c), to_error := tr_error r\<rparr>
           else turn\<lparr>to_aborted := Some (cu_ordinal c)\<rparr>) (cu_turns c)\<rparr>))"

definition apply_event_record :: "transcript_record \<Rightarrow> cursor \<Rightarrow> read_failure + cursor" where
  "apply_event_record r c =
    (if tr_kind r = KindSessionMeta then Inl HistoryUnknown
     else if tr_kind r \<noteq> KindEvent then Inr c
     else if tr_event r = KindRollback then Inl HistoryUnknown
     else if tr_event r \<notin> {KindStart, KindComplete, KindAbort} then Inr c
     else case tr_turn r of
       None \<Rightarrow> Inl HistoryUnknown
     | Some i \<Rightarrow> if tr_event r = KindStart then start_turn i c else end_turn i r c)"

definition apply_record :: "transcript_record \<Rightarrow> cursor \<Rightarrow> read_failure + cursor" where
  "apply_record r c =
    bind_r (checked_inc HistoryUnknown (cu_ordinal c)) (\<lambda>ordinal.
    let c = c\<lparr>cu_ordinal := ordinal\<rparr>
    in if \<not> cu_header c then
         if ordinal \<noteq> 1 \<or> tr_kind r \<noteq> KindSessionMeta \<or> tr_id r \<noteq> Some (cu_session_digest c)
           \<or> \<not> tr_user_source r \<or> tr_parent r
         then Inl HistoryUnknown
         else Inr (c\<lparr>cu_header := True\<rparr>)
       else apply_event_record r c)"

section \<open>Reading a slice\<close>

record slice_stat =
  ss_regular :: bool
  ss_dev :: u64
  ss_ino :: u64
  ss_len :: u64

text \<open>
  \<open>sl_expired n\<close> is the test of the deadline before the \<open>n\<close>-th read, \<open>sl_read n\<close> the bytes that
  read would return to an unbounded buffer, \<open>None\<close> for an error.
\<close>

record slice_environment =
  sl_matches :: bool
  sl_open :: bool
  sl_before :: "slice_stat option"
  sl_seek :: bool
  sl_expired :: "nat \<Rightarrow> bool"
  sl_read :: "nat \<Rightarrow> u8 list option"
  sl_after :: "slice_stat option"
  sl_matches_after :: bool

definition feed_cursor :: "string_decoder \<Rightarrow> (str \<Rightarrow> str) \<Rightarrow> u8 \<Rightarrow> cursor \<Rightarrow> read_failure + cursor" where
  "feed_cursor D I b c =
    bind_r (feed D I b (cu_parser c)) (\<lambda>(p, r).
    bind_r (let c = c\<lparr>cu_parser := p\<rparr> in case r of None \<Rightarrow> Inr c | Some r \<Rightarrow> apply_record r c) (\<lambda>c.
    Inr (c\<lparr>cu_offset := cu_offset c + 1\<rparr>)))"

function consume :: "string_decoder \<Rightarrow> (str \<Rightarrow> str) \<Rightarrow> u8 list \<Rightarrow> cursor \<Rightarrow> cursor \<times> (read_failure + unit)" where
  "consume D I [] c = (c, Inr ())"
| "consume D I (b # bs) c =
    (let skipped = skip_ignored_ascii (cu_parser c) (b # bs)
     in if skipped \<noteq> 0
        then consume D I (drop skipped (b # bs)) (c\<lparr>cu_offset := cu_offset c + of_nat skipped\<rparr>)
        else (case feed_cursor D I b c of
            Inl e \<Rightarrow> (c, Inl e)
          | Inr c' \<Rightarrow> consume D I bs c'))"
  by pat_completeness auto

termination
  by (relation "measure (\<lambda>(_, _, bs, _). length bs)") auto

lemma chunk_progress: "xs \<noteq> [] \<Longrightarrow> \<not> budget \<le> done \<Longrightarrow> 0 < b \<Longrightarrow>
    budget - (done + min (length xs) (min (budget - done) b)) < budget - done" for budget :: nat
  by (cases xs) auto

function read_loop :: "string_decoder \<Rightarrow> (str \<Rightarrow> str) \<Rightarrow> slice_environment \<Rightarrow> nat \<Rightarrow> nat \<Rightarrow> nat \<Rightarrow> cursor
    \<Rightarrow> cursor \<times> (read_failure + nat)" where
  "read_loop D I env budget n done c =
    (if done \<ge> budget \<or> sl_expired env n then (c, Inr done)
     else case sl_read env n of
       None \<Rightarrow> (c, Inl Unavailable)
     | Some available \<Rightarrow>
         let chunk = take (min (budget - done) READ_BUFFER_BYTES) available
         in if chunk = [] then (c, Inr done)
            else (case consume D I chunk c of
                (c', Inl e) \<Rightarrow> (c', Inl e)
              | (c', Inr _) \<Rightarrow> read_loop D I env budget (Suc n) (done + length chunk) c'))"
  by pat_completeness auto

termination
  by (relation "measure (\<lambda>(_, _, _, budget, _, done, _). budget - done)") (auto simp: READ_BUFFER_BYTES_def intro: chunk_progress)

declare read_loop.simps [simp del]

definition slice_start :: "slice_environment \<Rightarrow> cursor \<Rightarrow> read_failure + slice_stat" where
  "slice_start env c =
    bind_r (fail_if (\<not> sl_matches env) HistoryUnknown) (\<lambda>_.
    bind_r (fail_if (\<not> sl_open env) Unavailable) (\<lambda>_.
    case sl_before env of
      None \<Rightarrow> Inl Unavailable
    | Some before \<Rightarrow>
        bind_r (fail_if (\<not> ss_regular before \<or> ss_dev before \<noteq> tl_dev (cu_locator c)
            \<or> ss_ino before \<noteq> tl_ino (cu_locator c) \<or> ss_len before < cu_size_seen c
            \<or> ss_len before < cu_offset c) HistoryUnknown) (\<lambda>_.
        bind_r (fail_if (\<not> sl_seek env) Unavailable) (\<lambda>_. Inr before))))"

definition slice_end :: "slice_environment \<Rightarrow> slice_stat \<Rightarrow> cursor \<Rightarrow> read_failure + slice_stat" where
  "slice_end env before c = (case sl_after env of
      None \<Rightarrow> Inl Unavailable
    | Some after \<Rightarrow>
        bind_r (fail_if (ss_dev after \<noteq> ss_dev before \<or> ss_ino after \<noteq> ss_ino before
            \<or> ss_len after < ss_len before \<or> ss_len after < cu_offset c \<or> \<not> sl_matches_after env)
          HistoryUnknown) (\<lambda>_. Inr after))"

definition read_slice_inner :: "string_decoder \<Rightarrow> (str \<Rightarrow> str) \<Rightarrow> slice_environment \<Rightarrow> nat \<Rightarrow> cursor
    \<Rightarrow> cursor \<times> (read_failure + slice_result)" where
  "read_slice_inner D I env budget c = (case slice_start env c of
      Inl e \<Rightarrow> (c, Inl e)
    | Inr before \<Rightarrow> (case read_loop D I env budget 0 0 c of
        (c, Inl e) \<Rightarrow> (c, Inl e)
      | (c, Inr bytes) \<Rightarrow> (case slice_end env before c of
          Inl e \<Rightarrow> (c, Inl e)
        | Inr after \<Rightarrow> (c\<lparr>cu_size_seen := ss_len after\<rparr>,
            Inr \<lparr>sr_bytes = bytes, sr_more = cu_offset c < ss_len after,
              sr_partial = (\<not> parser_empty (cu_parser c))\<rparr>))))"

definition read_slice :: "string_decoder \<Rightarrow> (str \<Rightarrow> str) \<Rightarrow> slice_environment \<Rightarrow> nat \<Rightarrow> cursor
    \<Rightarrow> cursor \<times> (read_failure + slice_result)" where
  "read_slice D I env budget c =
    (if cu_unknown c then (c, Inl HistoryUnknown)
     else case read_slice_inner D I env (min budget SLICE_BYTES) c of
       (c, result) \<Rightarrow> (if result = Inl HistoryUnknown then c\<lparr>cu_unknown := True\<rparr> else c, result))"

section \<open>Reading the header only\<close>

text \<open>Up to the first record: the record, or the parser after all the bytes.\<close>

fun first_record :: "string_decoder \<Rightarrow> (str \<Rightarrow> str) \<Rightarrow> u8 list \<Rightarrow> parser
    \<Rightarrow> read_failure + transcript_record option \<times> parser" where
  "first_record D I [] p = Inr (None, p)"
| "first_record D I (b # bs) p = bind_r (feed D I b p) (\<lambda>(p, r). case r of
     Some r \<Rightarrow> Inr (Some r, p)
   | None \<Rightarrow> first_record D I bs p)"

definition header_unchanged :: "slice_environment \<Rightarrow> slice_stat \<Rightarrow> read_failure + bool" where
  "header_unchanged env before = (case sl_after env of
      None \<Rightarrow> Inl Unavailable
    | Some after \<Rightarrow> Inr (ss_len after \<ge> ss_len before \<and> ss_dev after = ss_dev before
        \<and> ss_ino after = ss_ino before \<and> sl_matches_after env))"

function header_loop :: "string_decoder \<Rightarrow> (str \<Rightarrow> str) \<Rightarrow> slice_environment \<Rightarrow> slice_stat \<Rightarrow> nat \<Rightarrow> nat \<Rightarrow> nat
    \<Rightarrow> parser \<Rightarrow> read_failure + transcript_record option" where
  "header_loop D I env before max_bytes n done p =
    (if done \<ge> max_bytes \<or> sl_expired env n then Inr None
     else case sl_read env n of
       None \<Rightarrow> Inl Unavailable
     | Some available \<Rightarrow>
         let chunk = take (min (max_bytes - done) READ_BUFFER_BYTES) available
         in if chunk = [] then Inr None
            else bind_r (first_record D I chunk p) (\<lambda>(r, p). case r of
                Some r \<Rightarrow> bind_r (header_unchanged env before) (\<lambda>same. Inr (if same then Some r else None))
              | None \<Rightarrow> header_loop D I env before max_bytes (Suc n) (done + length chunk) p))"
  by pat_completeness auto

termination
  by (relation "measure (\<lambda>(_, _, _, _, max_bytes, _, done, _). max_bytes - done)")
    (auto simp: READ_BUFFER_BYTES_def intro: chunk_progress)

declare header_loop.simps [simp del]

definition read_header :: "string_decoder \<Rightarrow> (str \<Rightarrow> str) \<Rightarrow> slice_environment \<Rightarrow> transcript_locator \<Rightarrow> nat
    \<Rightarrow> read_failure + transcript_record option" where
  "read_header D I env locator max_bytes =
    (if \<not> sl_matches env then Inr None
     else bind_r (fail_if (\<not> sl_open env) Unavailable) (\<lambda>_.
       case sl_before env of
         None \<Rightarrow> Inl Unavailable
       | Some before \<Rightarrow>
           if ss_dev before \<noteq> tl_dev locator \<or> ss_ino before \<noteq> tl_ino locator then Inr None
           else header_loop D I env before max_bytes 0 0 parser_default))"

definition verify_startup_header :: "string_decoder \<Rightarrow> (str \<Rightarrow> str) \<Rightarrow> slice_environment \<Rightarrow> transcript_locator
    \<Rightarrow> str \<Rightarrow> bool" where
  "verify_startup_header D I env locator session = (case read_header D I env locator REQUEST_BYTES of
      Inr (Some r) \<Rightarrow> tr_kind r = KindSessionMeta \<and> tr_id r = Some session \<and> tr_user_source r
        \<and> \<not> tr_parent r
    | _ \<Rightarrow> False)"

datatype header_owner = RootSession str bool | NonRoot

definition session_header :: "string_decoder \<Rightarrow> (str \<Rightarrow> str) \<Rightarrow> slice_environment \<Rightarrow> transcript_locator
    \<Rightarrow> header_owner option" where
  "session_header D I env locator = (case read_header D I env locator (256 * 1024) of
      Inr (Some r) \<Rightarrow>
        if tr_kind r \<noteq> KindSessionMeta then None
        else (case tr_id r of
            None \<Rightarrow> None
          | Some session_digest \<Rightarrow>
              if tr_user_source r \<and> \<not> tr_parent r then Some (RootSession session_digest (tr_forked r))
              else if tr_source_known r \<or> tr_parent r then Some NonRoot
              else None)
    | _ \<Rightarrow> None)"

text \<open>\<open>identifier_digest\<close>: the SHA-256 digest \<open>H\<close> of the \<open>serde_json\<close> encoding \<open>J\<close> of the text.\<close>

definition identifier_digest :: "(u8 list \<Rightarrow> str) \<Rightarrow> (str \<Rightarrow> u8 list) \<Rightarrow> str \<Rightarrow> str" where
  "identifier_digest H J v = H (J v)"

end
