(* ===== verification/Background.thy ===== *)
theory Background
  imports PaneText
begin

text \<open>
  \<open>src/src/pane_state/claude_background.rs\<close>: the receipts of Claude's background
  shell tasks, the faults that keep a run open, and the cron snapshot. The list of
  faults is bounded, with one sticky overflow fault in the last slot.
\<close>

section \<open>State\<close>

definition valid_background_id :: "str \<Rightarrow> bool" where
  "valid_background_id i \<longleftrightarrow> trim i \<noteq> [] \<and> trim i = i \<and> text_len i \<le> IDENTIFIER_MAX_BYTES
     \<and> \<not> list_ex is_control i"

datatype registry_presence = RegistryPresent | RegistryAbsent | RegistryUnknown

datatype background_receipt = Pending | Delivered | Cancelled

record background_wait_task =
  bt_task_id :: str
  bt_tool_use_id :: str
  bt_owner_run_seq :: u64
  bt_command :: str
  bt_registered_at :: i64
  bt_receipt :: background_receipt
  bt_notification_status :: "str option"
  bt_last_registry_presence :: registry_presence
  bt_last_checked_at :: "i64 option"

record background_wait_fault =
  bf_reason :: str
  bf_key :: str
  bf_reported :: bool

record claude_background_state =
  cb_tasks :: "background_wait_task list"
  cb_faults :: "background_wait_fault list"
  cb_paused :: bool
  cb_paused_at :: "i64 option"

definition claude_background_default :: claude_background_state where
  "claude_background_default =
    \<lparr>cb_tasks = [], cb_faults = [], cb_paused = False, cb_paused_at = None\<rparr>"

section \<open>Operations\<close>

definition pending_count :: "claude_background_state \<Rightarrow> nat" where
  "pending_count b = length (filter (\<lambda>t. bt_receipt t = Pending) (cb_tasks b))"

definition blocks_completion :: "claude_background_state \<Rightarrow> bool" where
  "blocks_completion b \<longleftrightarrow> pending_count b > 0 \<or> cb_faults b \<noteq> []"

definition is_awaiting_result :: "claude_background_state \<Rightarrow> bool" where
  "is_awaiting_result b \<longleftrightarrow> cb_paused b \<and> pending_count b > 0"

definition activity :: "claude_background_state \<Rightarrow> claude_background_state" where
  "activity b = b\<lparr>cb_paused := False, cb_paused_at := None\<rparr>"

definition OVERFLOW_REASON :: str where "OVERFLOW_REASON = lit ''await_tracking_overflow''"

definition add_fault :: "str \<Rightarrow> str \<Rightarrow> claude_background_state \<Rightarrow> claude_background_state" where
  "add_fault reason key b =
    (if list_ex (\<lambda>f. bf_reason f = reason \<and> bf_key f = key) (cb_faults b) then b
     else if length (cb_faults b) \<ge> MAX_BACKGROUND_TASKS then
       (if list_ex (\<lambda>f. bf_reason f = OVERFLOW_REASON) (cb_faults b) then b
        else b\<lparr>cb_faults := (cb_faults b)[MAX_BACKGROUND_TASKS - 1 :=
               \<lparr>bf_reason = OVERFLOW_REASON, bf_key = lit ''overflow'', bf_reported = False\<rparr>]\<rparr>)
     else b\<lparr>cb_faults := cb_faults b @
            [\<lparr>bf_reason = reason, bf_key = key, bf_reported = False\<rparr>]\<rparr>)"

definition clear_task_faults :: "str \<Rightarrow> claude_background_state \<Rightarrow> claude_background_state" where
  "clear_task_faults key b = b\<lparr>cb_faults :=
     filter (\<lambda>f. bf_key f \<noteq> key \<or> bf_reason f = OVERFLOW_REASON) (cb_faults b)\<rparr>"

section \<open>Validation\<close>

definition background_task_invalid :: "u64 \<Rightarrow> background_wait_task \<Rightarrow> bool" where
  "background_task_invalid run_seq t \<longleftrightarrow>
     bt_owner_run_seq t \<noteq> run_seq
   \<or> bt_command t = []
   \<or> text_len (bt_command t) > BODY_MAX_BYTES
   \<or> bt_registered_at t < 0
   \<or> (case bt_last_checked_at t of None \<Rightarrow> False | Some at \<Rightarrow> at < 0)
   \<or> (case bt_notification_status t of None \<Rightarrow> False | Some s \<Rightarrow> \<not> valid_background_id s)
   \<or> (bt_receipt t = Pending \<and> bt_notification_status t \<noteq> None)
   \<or> (bt_receipt t = Delivered \<and> bt_notification_status t = None)"

fun background_tasks_validate ::
  "u64 \<Rightarrow> str set \<Rightarrow> str set \<Rightarrow> background_wait_task list \<Rightarrow> message + unit" where
  "background_tasks_validate run_seq ids tool_ids [] = Inr ()"
| "background_tasks_validate run_seq ids tool_ids (t # ts) =
    (if \<not> valid_background_id (bt_task_id t) \<or> \<not> valid_background_id (bt_tool_use_id t)
        \<or> bt_task_id t \<in> ids \<or> bt_tool_use_id t \<in> tool_ids
        \<or> background_task_invalid run_seq t
     then Inl (Msg ''invalid background wait task'')
     else background_tasks_validate run_seq (insert (bt_task_id t) ids)
            (insert (bt_tool_use_id t) tool_ids) ts)"

definition claude_background_validate ::
  "claude_background_state \<Rightarrow> u64 \<Rightarrow> message + unit" where
  "claude_background_validate b run_seq = first_error
    [fail_if (length (cb_tasks b) > MAX_BACKGROUND_TASKS
              \<or> length (cb_faults b) > MAX_BACKGROUND_TASKS)
       (Msg ''background wait limit exceeded''),
     background_tasks_validate run_seq {} {} (cb_tasks b),
     first_error (map (\<lambda>f. fail_if
       (\<not> valid_background_id (bf_reason f) \<or> \<not> valid_background_id (bf_key f))
       (Msg ''invalid background wait fault'')) (cb_faults b)),
     fail_if (cb_paused b \<noteq> (cb_paused_at b \<noteq> None)
              \<or> (case cb_paused_at b of None \<Rightarrow> False | Some at \<Rightarrow> at < 0))
       (Msg ''invalid background wait pause'')]"

section \<open>Events of the Claude hooks\<close>

datatype claude_tool_result =
  Registered str str str \<comment> \<open>\<open>task_id\<close>, \<open>tool_use_id\<close>, \<open>command\<close>\<close>
| LaunchUnconfirmed str \<comment> \<open>\<open>tool_use_id\<close>\<close>
| TaskStopped str str \<comment> \<open>\<open>task_id\<close>, \<open>command\<close>\<close>

record claude_task_notification =
  tn_task_id :: str
  tn_tool_use_id :: str
  tn_status :: "str option"

record claude_registry_entry =
  re_id :: str
  re_task_type :: str

record claude_cron =
  cron_id :: str
  cron_schedule :: str
  cron_recurring :: bool

record claude_cron_snapshot =
  cs_entries :: "claude_cron list"
  cs_observed_at :: "i64 option"

definition claude_cron_snapshot_default :: claude_cron_snapshot where
  "claude_cron_snapshot_default = \<lparr>cs_entries = [], cs_observed_at = None\<rparr>"

definition claude_cron_snapshot_validate :: "claude_cron_snapshot \<Rightarrow> message + unit" where
  "claude_cron_snapshot_validate s = fail_if
    (length (cs_entries s) > MAX_BACKGROUND_TASKS
     \<or> (case cs_observed_at s of None \<Rightarrow> False | Some at \<Rightarrow> at < 0)
     \<or> (cs_entries s \<noteq> [] \<and> cs_observed_at s = None)
     \<or> list_ex (\<lambda>e. \<not> valid_background_id (cron_id e) \<or> cron_schedule e = []
          \<or> text_len (cron_schedule e) > IDENTIFIER_MAX_BYTES
          \<or> list_ex is_control (cron_schedule e)) (cs_entries s))
    (Msg ''invalid cron snapshot'')"

section \<open>Laws\<close>

lemma background_default_simps [simp]:
  "cb_tasks claude_background_default = []" "cb_faults claude_background_default = []"
  "cb_paused claude_background_default = False" "cb_paused_at claude_background_default = None"
  "\<not> blocks_completion claude_background_default"
  by (simp_all add: claude_background_default_def blocks_completion_def pending_count_def)

lemma cron_default_simps [simp]:
  "cs_entries claude_cron_snapshot_default = []"
  "cs_observed_at claude_cron_snapshot_default = None"
  "claude_cron_snapshot_validate claude_cron_snapshot_default = Inr ()"
  by (simp_all add: claude_cron_snapshot_default_def claude_cron_snapshot_validate_def)

lemma background_default_valid [simp]:
  "claude_background_validate claude_background_default n = Inr ()"
  by (simp add: claude_background_validate_def)

lemma activity_simps [simp]:
  "cb_tasks (activity b) = cb_tasks b" "cb_faults (activity b) = cb_faults b"
  "cb_paused (activity b) = False" "cb_paused_at (activity b) = None"
  "pending_count (activity b) = pending_count b"
  "blocks_completion (activity b) = blocks_completion b"
  by (simp_all add: activity_def pending_count_def blocks_completion_def)

lemma activity_default [simp]: "activity claude_background_default = claude_background_default"
  by (simp add: activity_def claude_background_default_def)

text \<open>The uniqueness sets of the loop, as distinctness of the projected lists.\<close>

lemma background_tasks_validate_ok [result_simps]:
  "background_tasks_validate n ids tids ts = Inr u \<longleftrightarrow>
     (\<forall>t \<in> set ts. valid_background_id (bt_task_id t) \<and> valid_background_id (bt_tool_use_id t)
        \<and> bt_task_id t \<notin> ids \<and> bt_tool_use_id t \<notin> tids \<and> \<not> background_task_invalid n t)
   \<and> distinct (map bt_task_id ts) \<and> distinct (map bt_tool_use_id ts)"
  by (induction ts arbitrary: ids tids) (auto simp: image_iff)

lemma fold_fail_ok [result_simps]:
  "(\<forall>c \<in> set (map (\<lambda>f. fail_if (p f) e) xs). c = Inr ()) \<longleftrightarrow> (\<forall>f \<in> set xs. \<not> p f)"
  by (auto simp: result_simps)

lemma claude_background_validate_ok [result_simps]:
  "claude_background_validate b n = Inr u \<longleftrightarrow>
     length (cb_tasks b) \<le> MAX_BACKGROUND_TASKS \<and> length (cb_faults b) \<le> MAX_BACKGROUND_TASKS
   \<and> background_tasks_validate n {} {} (cb_tasks b) = Inr ()
   \<and> (\<forall>f \<in> set (cb_faults b). valid_background_id (bf_reason f) \<and> valid_background_id (bf_key f))
   \<and> (cb_paused b \<longleftrightarrow> cb_paused_at b \<noteq> None)
   \<and> (\<forall>at. cb_paused_at b = Some at \<longrightarrow> 0 \<le> at)"
  unfolding claude_background_validate_def
  by (auto simp: result_simps simp del: background_tasks_validate_ok split: option.splits)

lemma add_fault_simps [simp]:
  "cb_tasks (add_fault r k b) = cb_tasks b" "cb_paused (add_fault r k b) = cb_paused b"
  "cb_paused_at (add_fault r k b) = cb_paused_at b"
  "pending_count (add_fault r k b) = pending_count b"
  by (simp_all add: add_fault_def pending_count_def)

lemma add_fault_nonempty [simp]: "cb_faults (add_fault r k b) \<noteq> []"
  by (auto simp: add_fault_def MAX_BACKGROUND_TASKS_def)

lemma add_fault_blocks [simp]: "blocks_completion (add_fault r k b)"
  by (simp add: blocks_completion_def)

lemma add_fault_bounded:
  "length (cb_faults b) \<le> MAX_BACKGROUND_TASKS \<Longrightarrow>
   length (cb_faults (add_fault r k b)) \<le> MAX_BACKGROUND_TASKS"
  by (auto simp: add_fault_def)

lemma overflow_id_valid: "valid_background_id OVERFLOW_REASON" "valid_background_id (lit ''overflow'')"
  by (simp_all add: valid_background_id_def OVERFLOW_REASON_def lit_def trim_def trim_start_def
      trim_end_def is_whitespace_def is_control_def utf8_len_def IDENTIFIER_MAX_BYTES_def)

lemma set_add_fault: "f \<in> set (cb_faults (add_fault r k b)) \<Longrightarrow>
    f \<in> set (cb_faults b) \<or> f = \<lparr>bf_reason = r, bf_key = k, bf_reported = False\<rparr>
    \<or> f = \<lparr>bf_reason = OVERFLOW_REASON, bf_key = lit ''overflow'', bf_reported = False\<rparr>"
  by (auto simp: add_fault_def split: if_splits dest: set_update_subset_insert [THEN subsetD])

lemma add_fault_valid:
  assumes "claude_background_validate b n = Inr ()"
    and "valid_background_id r" and "valid_background_id k"
  shows "claude_background_validate (add_fault r k b) n = Inr ()"
  using assms overflow_id_valid
  by (auto simp: claude_background_validate_ok add_fault_bounded simp del: background_tasks_validate_ok
      dest!: set_add_fault)

lemma clear_task_faults_simps [simp]:
  "cb_tasks (clear_task_faults k b) = cb_tasks b"
  "cb_paused (clear_task_faults k b) = cb_paused b"
  "cb_paused_at (clear_task_faults k b) = cb_paused_at b"
  "pending_count (clear_task_faults k b) = pending_count b"
  "cb_faults (clear_task_faults k b) =
     filter (\<lambda>f. bf_key f \<noteq> k \<or> bf_reason f = OVERFLOW_REASON) (cb_faults b)"
  by (simp_all add: clear_task_faults_def pending_count_def)

lemma clear_task_faults_valid:
  "claude_background_validate b n = Inr () \<Longrightarrow>
   claude_background_validate (clear_task_faults k b) n = Inr ()"
  by (auto simp: claude_background_validate_ok simp del: background_tasks_validate_ok
      intro: order_trans [OF length_filter_le])

lemma activity_valid:
  "claude_background_validate b n = Inr () \<Longrightarrow> claude_background_validate (activity b) n = Inr ()"
  by (auto simp: claude_background_validate_ok simp del: background_tasks_validate_ok)

text \<open>A fault survives until it is resolved: after reporting, the run stays blocked,
  and reporting the same fault again changes nothing.\<close>

lemma list_ex_list_update: "i < length xs \<Longrightarrow> p x \<Longrightarrow> list_ex p (xs[i := x])"
  by (auto simp: list_ex_iff intro: set_update_memI)

theorem add_fault_idempotent: "add_fault r k (add_fault r k b) = add_fault r k b"
proof -
  have "list_ex (\<lambda>f. bf_reason f = OVERFLOW_REASON) ((cb_faults b)[MAX_BACKGROUND_TASKS - 1 :=
      \<lparr>bf_reason = OVERFLOW_REASON, bf_key = lit ''overflow'', bf_reported = False\<rparr>])"
    if "length (cb_faults b) \<ge> MAX_BACKGROUND_TASKS"
    using that by (intro list_ex_list_update) (simp_all add: MAX_BACKGROUND_TASKS_def)
  then show ?thesis by (simp add: add_fault_def)
qed

theorem clear_keeps_overflow:
  "list_ex (\<lambda>f. bf_reason f = OVERFLOW_REASON) (cb_faults b) \<Longrightarrow>
   blocks_completion (clear_task_faults k b)"
  by (auto simp: blocks_completion_def list_ex_iff filter_empty_conv)

section \<open>The log of faults\<close>

text \<open>A fault is known when it is in the log, or when the log says that it overflowed.\<close>

definition fault_known :: "str \<Rightarrow> str \<Rightarrow> claude_background_state \<Rightarrow> bool" where
  "fault_known r k b \<longleftrightarrow> list_ex (\<lambda>f. bf_reason f = r \<and> bf_key f = k) (cb_faults b)
     \<or> list_ex (\<lambda>f. bf_reason f = OVERFLOW_REASON) (cb_faults b)"

lemma add_fault_known: "fault_known r k (add_fault r k b)"
proof -
  have "list_ex (\<lambda>f. bf_reason f = OVERFLOW_REASON) ((cb_faults b)[MAX_BACKGROUND_TASKS - 1 :=
      \<lparr>bf_reason = OVERFLOW_REASON, bf_key = lit ''overflow'', bf_reported = False\<rparr>])"
    if "length (cb_faults b) \<ge> MAX_BACKGROUND_TASKS"
    using that by (intro list_ex_list_update) (simp_all add: MAX_BACKGROUND_TASKS_def)
  then show ?thesis by (simp add: fault_known_def add_fault_def)
qed

lemma fault_known_kept: "fault_known r k b \<Longrightarrow> fault_known r k (add_fault r' k' b)"
proof (cases "length (cb_faults b) \<ge> MAX_BACKGROUND_TASKS")
  case True
  then have "list_ex (\<lambda>f. bf_reason f = OVERFLOW_REASON) ((cb_faults b)[MAX_BACKGROUND_TASKS - 1 :=
      \<lparr>bf_reason = OVERFLOW_REASON, bf_key = lit ''overflow'', bf_reported = False\<rparr>])"
    by (intro list_ex_list_update) (simp_all add: MAX_BACKGROUND_TASKS_def)
  then show "fault_known r k b \<Longrightarrow> fault_known r k (add_fault r' k' b)"
    by (auto simp: fault_known_def add_fault_def)
next
  case False
  then show "fault_known r k b \<Longrightarrow> fault_known r k (add_fault r' k' b)"
    by (auto simp: fault_known_def add_fault_def)
qed

definition report_faults :: "(str \<times> str) list \<Rightarrow> claude_background_state \<Rightarrow> claude_background_state" where
  "report_faults reports b = foldl (\<lambda>b (r, k). add_fault r k b) b reports"

text \<open>
  However many background faults are reported, the log stays within its limit, keeps
  the run blocked, and knows each of them: a fault is in the log, or the log says that it
  overflowed.
\<close>

theorem faults_never_lost:
  assumes "length (cb_faults b) \<le> MAX_BACKGROUND_TASKS" and "(r, k) \<in> set reports"
  shows "length (cb_faults (report_faults reports b)) \<le> MAX_BACKGROUND_TASKS
    \<and> fault_known r k (report_faults reports b) \<and> blocks_completion (report_faults reports b)"
  using assms
proof (induction reports rule: rev_induct)
  case (snoc x reports)
  obtain r' k' where x: "x = (r', k')" by (cases x)
  have step: "report_faults (reports @ [x]) b = add_fault r' k' (report_faults reports b)"
    by (simp add: report_faults_def x)
  have bounded: "length (cb_faults (report_faults reports b)) \<le> MAX_BACKGROUND_TASKS" for reports
    by (induction reports rule: rev_induct)
      (use snoc.prems in \<open>auto simp: report_faults_def add_fault_bounded split: prod.splits\<close>)
  have "fault_known r k (report_faults (reports @ [x]) b)"
    unfolding step using snoc x add_fault_known fault_known_kept by auto
  with bounded [of "reports @ [x]"] step show ?case by simp
qed simp

end
