(* ===== verification/TaskContext.thy ===== *)
theory TaskContext
  imports PaneText
begin

text \<open>
  \<open>TaskContextState\<close> of \<open>src/src/pane_state/model.rs\<close>: the bounded window of recent
  prompts from which a task summary is generated, its fingerprint, and the private
  variant whose text lives in daemon memory only. The SHA-256 of the external crate
  \<open>sha2\<close>, rendered in hexadecimal, is the parameter \<open>H\<close>.
\<close>

section \<open>Task summaries\<close>

datatype task_summary_outcome = Generated | Failed

record task_summary_state =
  tsum_text :: "str option"
  tsum_context_fingerprint :: str
  tsum_generated_at :: i64
  tsum_outcome :: task_summary_outcome
  tsum_failure_code :: "str option"

definition has_line_break :: "str \<Rightarrow> bool" where
  "has_line_break s \<longleftrightarrow> list_ex (\<lambda>c. c = 13 \<or> c = 10) s"

definition task_summary_validate :: "task_summary_state \<Rightarrow> message + unit" where
  "task_summary_validate s = first_error
    [check_opt (\<lambda>t. first_error
       [validate_required_text t ''task summary'' TASK_SUMMARY_MAX_BYTES,
        fail_if (has_line_break t) (Msg ''task summary must be one line'')]) (tsum_text s),
     fail_if (text_len (tsum_context_fingerprint s) \<noteq> 64
              \<or> \<not> list_all is_hex (tsum_context_fingerprint s))
       (Msg ''task summary context fingerprint is invalid''),
     fail_if (tsum_generated_at s < 0) (Msg ''task summary timestamp must be non-negative''),
     fail_if (\<not> (case tsum_outcome s of
         Generated \<Rightarrow> tsum_failure_code s = None
       | Failed \<Rightarrow> tsum_text s = None \<and>
           (case tsum_failure_code s of None \<Rightarrow> False
            | Some code \<Rightarrow> code \<noteq> [] \<and> text_len code \<le> IDENTIFIER_MAX_BYTES
                \<and> list_all (\<lambda>c. is_lower c \<or> c = 95) code)))
       (Msg ''task summary outcome metadata is inconsistent'')]"

section \<open>Truncation at a character boundary\<close>

text \<open>The loop \<open>while !value.is_char_boundary(end) { end -= 1 }\<close>.\<close>

fun char_floor :: "str \<Rightarrow> nat \<Rightarrow> nat" where
  "char_floor s 0 = 0"
| "char_floor s (Suc e) = (if is_char_boundary s (Suc e) then Suc e else char_floor s e)"

definition truncate_utf8 :: "str \<Rightarrow> nat \<Rightarrow> str" where
  "truncate_utf8 value max_bytes =
    (if text_len value \<le> max_bytes then value
     else trim_end (byte_prefix value (char_floor value max_bytes)))"

section \<open>The task context\<close>

record private_task_context =
  pc_recent_prompts :: "str list"
  pc_reference_response :: "str option"

record task_context_state =
  tc_recent_prompts :: "str list"
  tc_reference_response :: "str option"
  tc_summary :: "task_summary_state option"
  tc_private_context_fingerprint :: "str option"
  tc_private_input :: "private_task_context option"

definition task_context_default :: task_context_state where
  "task_context_default = \<lparr>tc_recent_prompts = [], tc_reference_response = None,
     tc_summary = None, tc_private_context_fingerprint = None, tc_private_input = None\<rparr>"

definition push_prompt :: "str list \<Rightarrow> str \<Rightarrow> str list" where
  "push_prompt prompts raw =
    (let prompt = truncate_utf8 (trim raw) TASK_CONTEXT_PROMPT_MAX_BYTES
     in if prompt = [] then prompts
        else if prompts \<noteq> [] \<and> last prompts = prompt then prompts
        else let pushed = prompts @ [prompt]
             in if length pushed > MAX_TASK_CONTEXT_PROMPTS then tl pushed else pushed)"

definition fingerprint_bytes :: "str list \<Rightarrow> str option \<Rightarrow> u8 list" where
  "fingerprint_bytes prompts response =
     concat (map (\<lambda>p. utf8 (0 # lit ''recent'' @ [0]) @ utf8 p) prompts)
     @ (case response of None \<Rightarrow> []
        | Some r \<Rightarrow> utf8 (0 # lit ''reference-response'' @ [0]) @ utf8 r)"

definition fingerprint :: "(u8 list \<Rightarrow> str) \<Rightarrow> str list \<Rightarrow> str option \<Rightarrow> str option" where
  "fingerprint H prompts response =
    (if prompts = [] then None else Some (H (fingerprint_bytes prompts response)))"

definition context_fingerprint :: "(u8 list \<Rightarrow> str) \<Rightarrow> task_context_state \<Rightarrow> str option" where
  "context_fingerprint H t = (case tc_private_context_fingerprint t of
      Some f \<Rightarrow> Some f
    | None \<Rightarrow> fingerprint H (tc_recent_prompts t) (tc_reference_response t))"

text \<open>\<open>private_input()\<close>: the public prompts move into the private record on first use.\<close>

definition private_input :: "task_context_state \<Rightarrow> private_task_context" where
  "private_input t = (case tc_private_input t of
      Some p \<Rightarrow> p
    | None \<Rightarrow> \<lparr>pc_recent_prompts = tc_recent_prompts t,
               pc_reference_response = tc_reference_response t\<rparr>)"

definition set_private_input ::
  "private_task_context \<Rightarrow> task_context_state \<Rightarrow> task_context_state" where
  "set_private_input p t = (case tc_private_input t of
      Some _ \<Rightarrow> t\<lparr>tc_private_input := Some p\<rparr>
    | None \<Rightarrow> t\<lparr>tc_private_input := Some p, tc_recent_prompts := [],
               tc_reference_response := None\<rparr>)"

definition observe_private_prompt ::
  "(u8 list \<Rightarrow> str) \<Rightarrow> str \<Rightarrow> task_context_state \<Rightarrow> task_context_state" where
  "observe_private_prompt H prompt t =
    (if trim prompt = [] then t
     else let input = (private_input t)\<lparr>pc_recent_prompts :=
                push_prompt (pc_recent_prompts (private_input t)) prompt\<rparr>
          in (set_private_input input t)\<lparr>tc_private_context_fingerprint :=
               fingerprint H (pc_recent_prompts input) (pc_reference_response input)\<rparr>)"

definition observe_prompt ::
  "(u8 list \<Rightarrow> str) \<Rightarrow> str \<Rightarrow> task_context_state \<Rightarrow> task_context_state" where
  "observe_prompt H prompt t =
    (if tc_private_context_fingerprint t \<noteq> None then observe_private_prompt H prompt t
     else t\<lparr>tc_recent_prompts := push_prompt (tc_recent_prompts t) prompt\<rparr>)"

definition reference_text :: "str option \<Rightarrow> str option" where
  "reference_text response = (case response of None \<Rightarrow> None
    | Some r \<Rightarrow> if trim r = [] then None
        else Some (truncate_utf8 (trim r) RESPONSE_PREVIEW_MAX_BYTES))"

definition observe_prompt_with_reference ::
  "(u8 list \<Rightarrow> str) \<Rightarrow> str \<Rightarrow> str option \<Rightarrow> task_context_state \<Rightarrow> task_context_state" where
  "observe_prompt_with_reference H prompt response t =
    (if trim prompt = [] then t
     else let r = reference_text response;
              t' = (if tc_private_context_fingerprint t \<noteq> None
                    then set_private_input
                           ((private_input t)\<lparr>pc_reference_response := r\<rparr>) t
                    else t\<lparr>tc_reference_response := r\<rparr>)
          in observe_prompt H prompt t')"

definition observe_private_prompt_with_reference ::
  "(u8 list \<Rightarrow> str) \<Rightarrow> str \<Rightarrow> str option \<Rightarrow> task_context_state \<Rightarrow> task_context_state" where
  "observe_private_prompt_with_reference H prompt response t =
    (if trim prompt = [] then t
     else observe_private_prompt H prompt
       (set_private_input
          ((private_input t)\<lparr>pc_reference_response := reference_text response\<rparr>) t))"

definition summary_input :: "task_context_state \<Rightarrow> task_context_state option" where
  "summary_input t =
    (if tc_private_context_fingerprint t \<noteq> None
     then (case tc_private_input t of None \<Rightarrow> None
           | Some p \<Rightarrow> Some (t\<lparr>tc_recent_prompts := pc_recent_prompts p,
               tc_reference_response := pc_reference_response p,
               tc_private_context_fingerprint := None, tc_private_input := None\<rparr>))
     else Some t)"

definition current_summary ::
  "(u8 list \<Rightarrow> str) \<Rightarrow> task_context_state \<Rightarrow> task_summary_state option" where
  "current_summary H t = (case context_fingerprint H t of None \<Rightarrow> None
    | Some f \<Rightarrow> (case tc_summary t of None \<Rightarrow> None
        | Some s \<Rightarrow> if tsum_context_fingerprint s = f then Some s else None))"

section \<open>Validation\<close>

definition task_context_validate_public :: "task_context_state \<Rightarrow> message + unit" where
  "task_context_validate_public t = first_error
    [fail_if (length (tc_recent_prompts t) > MAX_TASK_CONTEXT_PROMPTS)
       (Msg ''too many task context prompts''),
     first_error (map (\<lambda>p. validate_required_text p ''task context prompt''
       TASK_CONTEXT_PROMPT_MAX_BYTES) (tc_recent_prompts t)),
     check_opt (\<lambda>r. validate_required_text r ''task context reference response''
       RESPONSE_PREVIEW_MAX_BYTES) (tc_reference_response t),
     check_opt task_summary_validate (tc_summary t)]"

text \<open>
  The recursive call of \<open>validate\<close> is on \<open>summary_input\<close>, whose fingerprint is absent,
  so it is the public part.
\<close>

definition task_context_validate ::
  "(u8 list \<Rightarrow> str) \<Rightarrow> task_context_state \<Rightarrow> message + unit" where
  "task_context_validate H t = first_error
    [check_opt (\<lambda>f. first_error
       [fail_if (text_len f \<noteq> 64 \<or> \<not> list_all is_hex f
                 \<or> tc_recent_prompts t \<noteq> [] \<or> tc_reference_response t \<noteq> None)
          (Msg ''invalid private task context''),
        check_opt (\<lambda>input. first_error
          [task_context_validate_public input,
           fail_if (context_fingerprint H input \<noteq> Some f)
             (Msg ''private task context fingerprint mismatch'')]) (summary_input t)])
       (tc_private_context_fingerprint t),
     task_context_validate_public t]"

section \<open>Laws of truncation and of the prompt window\<close>

lemma char_floor_le: "char_floor s e \<le> e"
  by (induction e) auto

lemma char_floor_boundary: "is_char_boundary s (char_floor s e)"
  by (induction e) auto

lemma truncate_utf8_len: "text_len (truncate_utf8 s n) \<le> n"
proof -
  have "text_len (trim_end (byte_prefix s (char_floor s n))) \<le> char_floor s n"
    by (rule order_trans [OF text_len_trim_end text_len_byte_prefix])
  then show ?thesis using char_floor_le [of s n] by (simp add: truncate_utf8_def)
qed

lemma truncate_utf8_prefix: "\<exists>t. s = truncate_utf8 s n @ t"
proof (cases "text_len s \<le> n")
  case False
  obtain t where t: "s = byte_prefix s (char_floor s n) @ t" using byte_prefix_prefix by blast
  obtain ws where "byte_prefix s (char_floor s n) = trim_end (byte_prefix s (char_floor s n)) @ ws"
    using trim_end_prefix by blast
  with t have "s = trim_end (byte_prefix s (char_floor s n)) @ ws @ t" by (metis append_assoc)
  with False show ?thesis by (auto simp: truncate_utf8_def)
qed (simp add: truncate_utf8_def)

text \<open>The loop finds the longest boundary: no larger boundary is within the limit.\<close>

lemma char_floor_greatest: "i \<le> e \<Longrightarrow> is_char_boundary s i \<Longrightarrow> i \<le> char_floor s e"
  by (induction e) (auto simp: le_Suc_eq)

lemma set_truncate_utf8: "set (truncate_utf8 s n) \<subseteq> set s"
  using truncate_utf8_prefix [of s n] by (metis set_append Un_iff subsetI)

lemma trim_truncate_trim [simp]: "trim (truncate_utf8 (trim s) n) = truncate_utf8 (trim s) n"
proof -
  have start: "dropWhile is_whitespace (trim s) = trim s"
    by (metis trim_def trim_idem trim_start_def dropWhile_idem dropWhile_trim_end)
  obtain t where t: "trim s = truncate_utf8 (trim s) n @ t" using truncate_utf8_prefix by blast
  have "dropWhile is_whitespace (truncate_utf8 (trim s) n) = truncate_utf8 (trim s) n"
  proof (cases "truncate_utf8 (trim s) n")
    case (Cons c cs)
    with t have "trim s = c # (cs @ t)" by simp
    with start have "\<not> is_whitespace c" by (metis dropWhile_eq_self_iff list.discI list.sel(1))
    with Cons show ?thesis by simp
  qed simp
  moreover have "trim_end (truncate_utf8 (trim s) n) = truncate_utf8 (trim s) n"
    by (auto simp: truncate_utf8_def trim_def)
  ultimately show ?thesis by (simp add: trim_def trim_start_def)
qed

lemma trim_head_not_space: "trim s = c # cs \<Longrightarrow> \<not> is_whitespace c"
proof -
  assume eq: "trim s = c # cs"
  have "dropWhile is_whitespace (trim s) = trim s"
    by (metis trim_def trim_start_def dropWhile_idem dropWhile_trim_end)
  then show ?thesis using eq by (metis dropWhile_eq_self_iff list.discI list.sel(1))
qed

lemma truncate_nonempty:
  assumes "trim s \<noteq> []" and "4 \<le> n"
  shows "truncate_utf8 (trim s) n \<noteq> []"
proof (cases "text_len (trim s) \<le> n")
  case False
  from assms(1) obtain c cs where eq: "trim s = c # cs" by (cases "trim s") auto
  then have nw: "\<not> is_whitespace c" by (rule trim_head_not_space)
  have "utf8_len c \<le> n" using assms(2) by (auto simp: utf8_len_def)
  then have "utf8_len c \<le> char_floor (trim s) n" by (intro char_floor_greatest) (auto simp: eq)
  then have "c \<in> set (byte_prefix (trim s) (char_floor (trim s) n))" by (simp add: eq)
  then have "trim_end (byte_prefix (trim s) (char_floor (trim s) n)) \<noteq> []"
    using nw by (auto simp: trim_end_def dropWhile_eq_Nil_conv)
  with False show ?thesis by (simp add: truncate_utf8_def)
qed (use assms in \<open>simp add: truncate_utf8_def\<close>)

definition context_prompt_ok :: "str \<Rightarrow> bool" where
  "context_prompt_ok p \<longleftrightarrow> trim p \<noteq> [] \<and> text_len p \<le> TASK_CONTEXT_PROMPT_MAX_BYTES
     \<and> \<not> list_ex is_control p"

lemma truncate_prompt_ok:
  assumes "trim raw \<noteq> []" and "\<not> list_ex is_control raw" and "4 \<le> n"
  shows "trim (truncate_utf8 (trim raw) n) \<noteq> [] \<and> text_len (truncate_utf8 (trim raw) n) \<le> n
    \<and> \<not> list_ex is_control (truncate_utf8 (trim raw) n)"
  using truncate_nonempty [OF assms(1,3)] truncate_utf8_len [of "trim raw" n]
    set_truncate_utf8 [of "trim raw" n] set_trim [of raw] assms(2)
  by (auto simp: list_ex_iff)

text \<open>
  The window holds at most four prompts, all of them valid, and the newest non-blank
  prompt is its last entry.
\<close>

lemma push_prompt_ok:
  assumes "list_all context_prompt_ok ps" and "length ps \<le> MAX_TASK_CONTEXT_PROMPTS"
    and "\<not> list_ex is_control raw"
  shows "list_all context_prompt_ok (push_prompt ps raw)
    \<and> length (push_prompt ps raw) \<le> MAX_TASK_CONTEXT_PROMPTS"
proof (cases "trim raw = []")
  case True
  then show ?thesis using assms by (simp add: push_prompt_def truncate_utf8_def)
next
  case False
  have "context_prompt_ok (truncate_utf8 (trim raw) TASK_CONTEXT_PROMPT_MAX_BYTES)"
    using truncate_prompt_ok [OF False assms(3), of TASK_CONTEXT_PROMPT_MAX_BYTES]
    by (simp add: context_prompt_ok_def TASK_CONTEXT_PROMPT_MAX_BYTES_def)
  then show ?thesis using assms(1,2)
    by (cases ps) (auto simp: push_prompt_def Let_def list_all_iff)
qed

lemma push_prompt_last:
  assumes "trim raw \<noteq> []"
  shows "push_prompt ps raw \<noteq> []
    \<and> last (push_prompt ps raw) = truncate_utf8 (trim raw) TASK_CONTEXT_PROMPT_MAX_BYTES"
  using truncate_nonempty [OF assms, of TASK_CONTEXT_PROMPT_MAX_BYTES]
  by (cases ps) (auto simp: push_prompt_def Let_def TASK_CONTEXT_PROMPT_MAX_BYTES_def
      MAX_TASK_CONTEXT_PROMPTS_def)

section \<open>Validity and privacy\<close>

text \<open>\<open>sha2\<close> renders 32 bytes as 64 hexadecimal digits.\<close>

definition hex_digest :: "(u8 list \<Rightarrow> str) \<Rightarrow> bool" where
  "hex_digest H \<longleftrightarrow> (\<forall>bs. text_len (H bs) = 64 \<and> list_all is_hex (H bs))"

definition task_context_inv :: "(u8 list \<Rightarrow> str) \<Rightarrow> task_context_state \<Rightarrow> bool" where
  "task_context_inv H t \<longleftrightarrow> task_context_validate H t = Inr ()
     \<and> (tc_private_input t \<noteq> None \<longrightarrow> tc_private_context_fingerprint t \<noteq> None)"

definition public_clean :: "task_context_state \<Rightarrow> bool" where
  "public_clean t \<longleftrightarrow> tc_recent_prompts t = [] \<and> tc_reference_response t = None
     \<and> tc_private_context_fingerprint t \<noteq> None"

lemma task_context_validate_public_ok:
  "task_context_validate_public t = Inr u \<longleftrightarrow>
     length (tc_recent_prompts t) \<le> MAX_TASK_CONTEXT_PROMPTS
   \<and> list_all context_prompt_ok (tc_recent_prompts t)
   \<and> (\<forall>r. tc_reference_response t = Some r \<longrightarrow>
        trim r \<noteq> [] \<and> text_len r \<le> RESPONSE_PREVIEW_MAX_BYTES \<and> \<not> list_ex is_control r)
   \<and> (\<forall>s. tc_summary t = Some s \<longrightarrow> task_summary_validate s = Inr ())"
  unfolding task_context_validate_public_def
  by (auto simp: result_simps context_prompt_ok_def list_all_iff)

lemma task_context_validate_ok:
  "task_context_validate H t = Inr u \<longleftrightarrow> task_context_validate_public t = Inr ()
   \<and> (\<forall>f. tc_private_context_fingerprint t = Some f \<longrightarrow>
        text_len f = 64 \<and> list_all is_hex f \<and> tc_recent_prompts t = []
        \<and> tc_reference_response t = None
        \<and> (\<forall>p. tc_private_input t = Some p \<longrightarrow>
             task_context_validate_public (t\<lparr>tc_recent_prompts := pc_recent_prompts p,
               tc_reference_response := pc_reference_response p\<rparr>) = Inr ()
           \<and> fingerprint H (pc_recent_prompts p) (pc_reference_response p) = Some f))"
  unfolding task_context_validate_def
  by (auto simp: result_simps summary_input_def context_fingerprint_def
      task_context_validate_public_ok split: option.splits)

lemma task_context_default_inv [simp]: "task_context_inv H task_context_default"
  by (simp add: task_context_inv_def task_context_validate_ok task_context_validate_public_ok
      task_context_default_def)

text \<open>The private part, seen through \<open>private_input\<close>, is always a valid context.\<close>

lemma private_input_valid:
  assumes "task_context_inv H t"
  shows "length (pc_recent_prompts (private_input t)) \<le> MAX_TASK_CONTEXT_PROMPTS
    \<and> list_all context_prompt_ok (pc_recent_prompts (private_input t))
    \<and> (\<forall>r. pc_reference_response (private_input t) = Some r \<longrightarrow> trim r \<noteq> []
        \<and> text_len r \<le> RESPONSE_PREVIEW_MAX_BYTES \<and> \<not> list_ex is_control r)"
  using assms
  by (auto simp: task_context_inv_def task_context_validate_ok task_context_validate_public_ok
      private_input_def split: option.splits)

lemma reference_text_ok:
  assumes "\<forall>r. response = Some r \<longrightarrow> \<not> list_ex is_control r"
    and "reference_text response = Some q"
  shows "trim q \<noteq> [] \<and> text_len q \<le> RESPONSE_PREVIEW_MAX_BYTES \<and> \<not> list_ex is_control q"
  using assms truncate_prompt_ok [of "the response" RESPONSE_PREVIEW_MAX_BYTES]
  by (auto simp: reference_text_def RESPONSE_PREVIEW_MAX_BYTES_def split: option.splits if_splits)

text \<open>Everything the private operations do is: replace the private record by a valid one.\<close>

lemma observe_private_prompt_eq:
  "trim prompt \<noteq> [] \<Longrightarrow> observe_private_prompt H prompt (set_private_input p t) =
     (set_private_input (p\<lparr>pc_recent_prompts := push_prompt (pc_recent_prompts p) prompt\<rparr>) t)
       \<lparr>tc_private_context_fingerprint :=
          fingerprint H (push_prompt (pc_recent_prompts p) prompt) (pc_reference_response p)\<rparr>"
  by (simp add: observe_private_prompt_def set_private_input_def private_input_def Let_def
      split: option.splits)

lemma set_private_input_self:
  "tc_private_input t \<noteq> None \<Longrightarrow> set_private_input (private_input t) t = t"
  by (auto simp: set_private_input_def private_input_def split: option.splits)

lemma set_private_input_inv:
  assumes inv: "task_context_inv H t" and H: "hex_digest H"
    and ps: "ps \<noteq> []" "length ps \<le> MAX_TASK_CONTEXT_PROMPTS" "list_all context_prompt_ok ps"
    and r: "\<forall>q. r = Some q \<longrightarrow> trim q \<noteq> [] \<and> text_len q \<le> RESPONSE_PREVIEW_MAX_BYTES
        \<and> \<not> list_ex is_control q"
  shows "task_context_inv H ((set_private_input
      \<lparr>pc_recent_prompts = ps, pc_reference_response = r\<rparr> t)
      \<lparr>tc_private_context_fingerprint := fingerprint H ps r\<rparr>)
    \<and> public_clean ((set_private_input \<lparr>pc_recent_prompts = ps, pc_reference_response = r\<rparr> t)
      \<lparr>tc_private_context_fingerprint := fingerprint H ps r\<rparr>)"
  using assms
  by (auto simp: task_context_inv_def task_context_validate_ok task_context_validate_public_ok
      set_private_input_def public_clean_def fingerprint_def hex_digest_def split: option.splits)

lemma fingerprint_Some: "ps \<noteq> [] \<Longrightarrow> fingerprint H ps r = Some (H (fingerprint_bytes ps r))"
  by (simp add: fingerprint_def)

lemma observe_private_prompt_inv:
  assumes inv: "task_context_inv H t" and H: "hex_digest H"
    and prompt: "\<not> list_ex is_control prompt"
  shows "task_context_inv H (observe_private_prompt H prompt t)
    \<and> (trim prompt \<noteq> [] \<longrightarrow> public_clean (observe_private_prompt H prompt t))"
proof (cases "trim prompt = []")
  case False
  let ?p = "private_input t"
  let ?ps = "push_prompt (pc_recent_prompts ?p) prompt"
  note valid = private_input_valid [OF inv]
  have ps: "?ps \<noteq> []" "length ?ps \<le> MAX_TASK_CONTEXT_PROMPTS" "list_all context_prompt_ok ?ps"
    using push_prompt_last [OF False] push_prompt_ok [OF _ _ prompt] valid by auto
  have eq: "observe_private_prompt H prompt t =
      (set_private_input \<lparr>pc_recent_prompts = ?ps,
         pc_reference_response = pc_reference_response ?p\<rparr> t)
      \<lparr>tc_private_context_fingerprint := fingerprint H ?ps (pc_reference_response ?p)\<rparr>"
    using False by (cases ?p) (simp add: observe_private_prompt_def Let_def)
  from set_private_input_inv [OF inv H ps, of "pc_reference_response ?p"] valid
  show ?thesis unfolding eq by blast
qed (use assms in \<open>simp add: observe_private_prompt_def\<close>)

lemma observe_private_prompt_with_reference_inv:
  assumes inv: "task_context_inv H t" and H: "hex_digest H"
    and prompt: "\<not> list_ex is_control prompt"
    and response: "\<forall>r. response = Some r \<longrightarrow> \<not> list_ex is_control r"
  shows "task_context_inv H (observe_private_prompt_with_reference H prompt response t)
    \<and> (trim prompt \<noteq> [] \<longrightarrow>
         public_clean (observe_private_prompt_with_reference H prompt response t))"
proof (cases "trim prompt = []")
  case False
  let ?ps = "push_prompt (pc_recent_prompts (private_input t)) prompt"
  note valid = private_input_valid [OF inv]
  have ps: "?ps \<noteq> []" "length ?ps \<le> MAX_TASK_CONTEXT_PROMPTS" "list_all context_prompt_ok ?ps"
    using push_prompt_last [OF False] push_prompt_ok [OF _ _ prompt] valid by auto
  have eq: "observe_private_prompt_with_reference H prompt response t =
      (set_private_input \<lparr>pc_recent_prompts = ?ps,
         pc_reference_response = reference_text response\<rparr> t)
      \<lparr>tc_private_context_fingerprint := fingerprint H ?ps (reference_text response)\<rparr>"
    using False
    by (cases "private_input t")
      (simp add: observe_private_prompt_with_reference_def observe_private_prompt_eq)
  from set_private_input_inv [OF inv H ps, of "reference_text response"]
    reference_text_ok [OF response]
  show ?thesis unfolding eq by blast
qed (use assms in \<open>simp add: observe_private_prompt_with_reference_def\<close>)

lemma observe_prompt_inv:
  assumes inv: "task_context_inv H t" and H: "hex_digest H"
    and prompt: "\<not> list_ex is_control prompt"
  shows "task_context_inv H (observe_prompt H prompt t)"
proof (cases "tc_private_context_fingerprint t")
  case None
  with inv push_prompt_ok [OF _ _ prompt, of "tc_recent_prompts t"] show ?thesis
    by (auto simp: observe_prompt_def task_context_inv_def task_context_validate_ok
        task_context_validate_public_ok)
next
  case Some
  with observe_private_prompt_inv [OF assms] show ?thesis by (simp add: observe_prompt_def)
qed

lemma observe_prompt_with_reference_inv:
  assumes inv: "task_context_inv H t" and H: "hex_digest H"
    and prompt: "\<not> list_ex is_control prompt"
    and response: "\<forall>r. response = Some r \<longrightarrow> \<not> list_ex is_control r"
  shows "task_context_inv H (observe_prompt_with_reference H prompt response t)"
proof (cases "tc_private_context_fingerprint t")
  case None
  with inv reference_text_ok [OF response]
  have "task_context_inv H (t\<lparr>tc_reference_response := reference_text response\<rparr>)"
    by (auto simp: task_context_inv_def task_context_validate_ok task_context_validate_public_ok)
  from observe_prompt_inv [OF this H prompt] None inv show ?thesis
    by (simp add: observe_prompt_with_reference_def)
next
  case (Some f)
  have "observe_prompt_with_reference H prompt response t =
      observe_private_prompt_with_reference H prompt response t"
    using Some
    by (auto simp: observe_prompt_with_reference_def observe_private_prompt_with_reference_def
        observe_prompt_def set_private_input_def split: option.splits)
  with observe_private_prompt_with_reference_inv [OF assms] show ?thesis by simp
qed

lemma public_clean_kept:
  assumes "task_context_inv H t" and "hex_digest H" and "\<not> list_ex is_control prompt"
    and "public_clean t"
  shows "public_clean (observe_prompt H prompt t)"
  using observe_private_prompt_inv [OF assms(1-3)] assms(4)
  by (cases "trim prompt = []")
    (auto simp: observe_prompt_def public_clean_def observe_private_prompt_def)

section \<open>The window of prompts\<close>

text \<open>What is kept of a prompt, and the last \<open>n\<close> entries of a list.\<close>

definition stored_prompt :: "str \<Rightarrow> str" where
  "stored_prompt raw = truncate_utf8 (trim raw) TASK_CONTEXT_PROMPT_MAX_BYTES"

definition newest :: "nat \<Rightarrow> 'a list \<Rightarrow> 'a list" where
  "newest n xs = drop (length xs - n) xs"

lemma remdups_adj_snoc:
  "remdups_adj (xs @ [x]) = (if xs \<noteq> [] \<and> last xs = x then remdups_adj xs else remdups_adj xs @ [x])"
  by (induction xs rule: remdups_adj.induct) auto

lemma newest_empty [simp]: "0 < n \<Longrightarrow> newest n xs = [] \<longleftrightarrow> xs = []"
  by (cases xs) (auto simp: newest_def)

lemma newest_last: "0 < n \<Longrightarrow> xs \<noteq> [] \<Longrightarrow> last (newest n xs) = last xs"
  by (simp add: newest_def last_drop)

lemma newest_snoc:
  "0 < n \<Longrightarrow> newest n (xs @ [x]) =
    (let pushed = newest n xs @ [x] in if length pushed > n then tl pushed else pushed)"
proof (cases "length xs < n")
  case True
  then show ?thesis by (simp add: newest_def)
next
  case False
  assume "0 < n"
  with False have "Suc (length xs) - n = Suc (length xs - n)" "length xs - n < length xs" by simp_all
  then have "tl (drop (length xs - n) xs @ [x]) = drop (Suc (length xs) - n) xs @ [x]"
    by (simp add: drop_Suc tl_drop [symmetric])
  with False \<open>0 < n\<close> show ?thesis by (simp add: newest_def)
qed

text \<open>
  C16. The recent prompts are, of all the prompts ever observed, trimmed and truncated,
  without the blank ones and without immediate repetitions, the last four.
\<close>

theorem prompt_window:
  "foldl push_prompt [] raws = newest MAX_TASK_CONTEXT_PROMPTS
     (remdups_adj (filter (\<lambda>p. p \<noteq> []) (map stored_prompt raws)))"
proof (induction raws rule: rev_induct)
  case (snoc raw raws)
  let ?kept = "filter (\<lambda>p. p \<noteq> []) (map stored_prompt raws)"
  have pos: "0 < MAX_TASK_CONTEXT_PROMPTS" by (simp add: limit_defs)
  show ?case
    using snoc newest_snoc [OF pos, of "remdups_adj ?kept" "stored_prompt raw"]
      newest_last [OF pos, of "remdups_adj ?kept"]
    by (auto simp: push_prompt_def stored_prompt_def [symmetric] remdups_adj_snoc Let_def
        newest_empty [OF pos])
qed (simp add: newest_def)

end
