(* ===== verification/PaneModel.thy ===== *)
theory PaneModel
  imports Background TaskContext
begin

text \<open>
  The canonical pane state of \<open>src/src/pane_state/model.rs\<close>: lifecycle, unread
  occurrences, prompts, responses, tasks, subagents, process identities, the events the
  reducer accepts, and the validity predicates of all of them. The digest of the external
  crate \<open>sha2\<close> is the parameter \<open>H\<close>, as in theory TaskContext.
\<close>

section \<open>Lifecycle and unread occurrences\<close>

record state_version =
  sv_state_id :: state_id
  sv_agent_epoch :: u64
  sv_revision :: u64

datatype wait_reason = PermissionPrompt | Other str

definition usage_limit :: wait_reason where
  "usage_limit = Other USAGE_LIMIT_WAIT_REASON"

fun is_usage_limit :: "wait_reason \<Rightarrow> bool" where
  "is_usage_limit (Other reason) = (reason = USAGE_LIMIT_WAIT_REASON)"
| "is_usage_limit PermissionPrompt = False"

fun wait_reason_validate :: "wait_reason \<Rightarrow> message + unit" where
  "wait_reason_validate (Other reason) =
     validate_required_text reason ''wait reason'' IDENTIFIER_MAX_BYTES"
| "wait_reason_validate PermissionPrompt = Inr ()"

datatype lifecycle_state = Idle | Running | Waiting wait_reason | Error "str option"

fun is_usage_limited :: "lifecycle_state \<Rightarrow> bool" where
  "is_usage_limited (Waiting reason) = is_usage_limit reason"
| "is_usage_limited _ = False"

fun is_waiting :: "lifecycle_state \<Rightarrow> bool" where
  "is_waiting (Waiting _) = True"
| "is_waiting _ = False"

fun is_error :: "lifecycle_state \<Rightarrow> bool" where
  "is_error (Error _) = True"
| "is_error _ = False"

datatype unread_reason = UnreadWaiting | UnreadError | UnreadCompleted

record unread_occurrence =
  uo_seq :: u64
  uo_order :: u64
  uo_reason :: unread_reason
  uo_occurred_at :: i64

record unread_state =
  un_occurrence_seq :: u64
  un_read_seq :: u64
  un_latest :: "unread_occurrence option"

definition unread_default :: unread_state where
  "unread_default = \<lparr>un_occurrence_seq = 0, un_read_seq = 0, un_latest = None\<rparr>"

definition is_unread :: "unread_state \<Rightarrow> bool" where
  "is_unread u \<longleftrightarrow> un_occurrence_seq u > un_read_seq u"

definition latest_unread :: "unread_state \<Rightarrow> unread_occurrence option" where
  "latest_unread u = (if is_unread u then un_latest u else None)"

definition is_jump_eligible :: "unread_state \<Rightarrow> lifecycle_state \<Rightarrow> bool" where
  "is_jump_eligible u l = (case latest_unread u of None \<Rightarrow> False
     | Some occurrence \<Rightarrow> uo_reason occurrence = UnreadCompleted
         \<or> (uo_reason occurrence = UnreadWaiting \<and> is_waiting l)
         \<or> (uo_reason occurrence = UnreadError \<and> is_error l))"

definition unread_validate :: "unread_state \<Rightarrow> message + unit" where
  "unread_validate u = first_error
    [fail_if (un_read_seq u > un_occurrence_seq u)
       (Msg ''unread read sequence exceeds occurrence sequence''),
     (case un_latest u of
        None \<Rightarrow> fail_if (un_occurrence_seq u \<noteq> 0)
          (Msg ''unread latest occurrence disagrees with occurrence sequence'')
      | Some latest \<Rightarrow> fail_if (\<not> (un_occurrence_seq u > 0
            \<and> uo_seq latest = un_occurrence_seq u \<and> uo_order latest > 0))
          (Msg ''unread latest occurrence disagrees with occurrence sequence''))]"

section \<open>Prompts, responses and processes\<close>

record prompt_state =
  pr_text :: str
  pr_source :: str
  pr_digest :: "str option"

definition prompt_validate :: "prompt_state \<Rightarrow> message + unit" where
  "prompt_validate p = first_error
    [validate_required_text (pr_text p) ''prompt'' BODY_MAX_BYTES,
     validate_required_text (pr_source p) ''prompt source'' IDENTIFIER_MAX_BYTES,
     fail_if (case pr_digest p of None \<Rightarrow> False
        | Some digest \<Rightarrow> text_len digest \<noteq> 64 \<or> \<not> list_all is_lower_hex digest)
       (Msg ''prompt digest is invalid'')]"

record response_state =
  rs_text :: str
  rs_observed_at :: i64

definition response_validate :: "response_state \<Rightarrow> message + unit" where
  "response_validate r = first_error
    [validate_required_text (rs_text r) ''response preview'' RESPONSE_PREVIEW_MAX_BYTES,
     fail_if (has_line_break (rs_text r)) (Msg ''response preview must be one line''),
     fail_if (rs_observed_at r < 0) (Msg ''response preview timestamp must be non-negative'')]"

record background_process_state =
  bp_command :: str
  bp_observed_at :: i64

definition background_process_validate :: "background_process_state \<Rightarrow> message + unit" where
  "background_process_validate p = first_error
    [validate_required_text (bp_command p) ''background process command'' BODY_MAX_BYTES,
     fail_if (has_line_break (bp_command p)) (Msg ''background process command must be one line''),
     fail_if (bp_observed_at p < 0) (Msg ''background process timestamp must be non-negative'')]"

record agent_process_identity =
  ap_pid :: u32
  ap_start_token :: str

definition agent_process_validate :: "agent_process_identity \<Rightarrow> message + unit" where
  "agent_process_validate p = fail_if
    (ap_pid p = 0 \<or> trim (ap_start_token p) = []
     \<or> text_len (ap_start_token p) > IDENTIFIER_MAX_BYTES \<or> has_line_break (ap_start_token p))
    (Msg ''invalid agent process identity'')"

record current_durable_run_projection =
  cr_run_id :: str
  cr_run_seq :: u64
  cr_run_revision :: u64

definition current_run_validate :: "current_durable_run_projection \<Rightarrow> message + unit" where
  "current_run_validate r = first_error
    [validate_random_id (cr_run_id r) ''durable run ID'',
     fail_if (cr_run_seq r = 0 \<or> cr_run_revision r = 0)
       (Msg ''durable run sequence and revision must be positive'')]"

record process_observation =
  po_agent_process_checked :: bool
  po_agent_process :: "agent_process_identity option"
  po_background_process_alive :: "bool option"
  po_listening_ports :: "u16 list option"

text \<open>\<open>ports.windows(2).any(|pair| pair[0] >= pair[1])\<close>\<close>

fun has_unsorted_pair :: "u16 list \<Rightarrow> bool" where
  "has_unsorted_pair (x # y # ports) = (x \<ge> y \<or> has_unsorted_pair (y # ports))"
| "has_unsorted_pair _ = False"

definition process_observation_validate :: "process_observation \<Rightarrow> message + unit" where
  "process_observation_validate p = first_error
    [fail_if (po_agent_process p \<noteq> None \<and> \<not> po_agent_process_checked p)
       (Msg ''agent process identity requires a completed check''),
     check_opt agent_process_validate (po_agent_process p),
     check_opt (\<lambda>ports. first_error
       [fail_if (length ports > MAX_LISTENING_PORTS) (Msg ''too many listening ports''),
        fail_if (has_unsorted_pair ports) (Msg ''listening ports must be sorted and unique'')])
       (po_listening_ports p)]"

section \<open>Tasks, subagents and worktree activity\<close>

record task_progress =
  tp_done :: u64
  tp_total :: u64

datatype task_item_status = TaskPending | TaskInProgress | TaskCompletedStatus

record task_item_state =
  ti_id :: "str option"
  ti_step :: str
  ti_status :: task_item_status

record task_state =
  ts_progress :: task_progress
  ts_items :: "task_item_state list"

definition task_state_default :: task_state where
  "task_state_default = \<lparr>ts_progress = \<lparr>tp_done = 0, tp_total = 0\<rparr>, ts_items = []\<rparr>"

record subagent_state =
  sa_agent_id :: str
  sa_agent_type :: str
  sa_display_name :: "str option"

datatype worktree_activity_kind = VwExec

record worktree_activity =
  wa_kind :: worktree_activity_kind
  wa_name :: str
  wa_path :: str
  wa_command :: str
  wa_observed_at :: i64

definition worktree_activity_validate :: "worktree_activity \<Rightarrow> message + unit" where
  "worktree_activity_validate w = first_error
    [validate_required_text (wa_name w) ''worktree name'' BODY_MAX_BYTES,
     validate_required_text (wa_path w) ''worktree path'' PATH_MAX_BYTES,
     validate_required_text (wa_command w) ''worktree command'' BODY_MAX_BYTES]"

fun validate_task_items :: "str set \<Rightarrow> task_item_state list \<Rightarrow> message + unit" where
  "validate_task_items ids [] = Inr ()"
| "validate_task_items ids (item # items) =
    bind_r (validate_required_text (ti_step item) ''task step'' BODY_MAX_BYTES) (\<lambda>_.
      case ti_id item of
        None \<Rightarrow> validate_task_items ids items
      | Some i \<Rightarrow> bind_r (validate_required_text i ''task item ID'' IDENTIFIER_MAX_BYTES) (\<lambda>_.
          if i \<in> ids then Inl (Msg ''duplicate task item ID'')
          else validate_task_items (insert i ids) items))"

definition completed_items :: "task_item_state list \<Rightarrow> nat" where
  "completed_items items = length (filter (\<lambda>i. ti_status i = TaskCompletedStatus) items)"

definition validate_tasks :: "task_state \<Rightarrow> message + unit" where
  "validate_tasks t = first_error
    [fail_if (tp_done (ts_progress t) > tp_total (ts_progress t))
       (Msg ''task progress exceeds total''),
     fail_if (length (ts_items t) > MAX_TASK_ITEMS) (Msg ''too many task items''),
     validate_task_items {} (ts_items t),
     fail_if (ts_items t \<noteq> [] \<and>
              (tp_done (ts_progress t) \<noteq> of_nat (completed_items (ts_items t))
               \<or> tp_total (ts_progress t) \<noteq> of_nat (length (ts_items t))))
       (Msg ''task progress does not match task items'')]"

fun validate_subagents_from :: "str set \<Rightarrow> subagent_state list \<Rightarrow> message + unit" where
  "validate_subagents_from ids [] = Inr ()"
| "validate_subagents_from ids (s # ss) = first_error
    [validate_required_text (sa_agent_id s) ''subagent ID'' IDENTIFIER_MAX_BYTES,
     validate_required_text (sa_agent_type s) ''subagent type'' IDENTIFIER_MAX_BYTES,
     check_opt (\<lambda>n. validate_required_text n ''subagent name'' IDENTIFIER_MAX_BYTES)
       (sa_display_name s),
     fail_if (sa_agent_id s \<in> ids) (Msg ''duplicate subagent ID''),
     validate_subagents_from (insert (sa_agent_id s) ids) ss]"

definition validate_subagents :: "subagent_state list \<Rightarrow> message + unit" where
  "validate_subagents ss = first_error
    [fail_if (length ss > MAX_SUBAGENTS) (Msg ''too many subagents''),
     validate_subagents_from {} ss]"

section \<open>The canonical pane state\<close>

record pane_state =
  ps_schema_version :: u16
  ps_state_id :: state_id
  ps_revision :: u64
  ps_pane_instance :: pane_instance
  ps_agent :: agent_kind
  ps_agent_session_id :: "agent_session_id option"
  ps_agent_process :: "agent_process_identity option"
  ps_agent_epoch :: u64
  ps_agent_present :: bool
  ps_scan_verified :: bool
  ps_synthetic_completion_armed :: bool
  ps_lifecycle :: lifecycle_state
  ps_run_seq :: u64
  ps_current_run :: "current_durable_run_projection option"
  ps_completed_seq :: u64
  ps_unread :: unread_state
  ps_started_at :: "i64 option"
  ps_completed_at :: "i64 option"
  ps_prompt :: "prompt_state option"
  ps_latest_response :: "response_state option"
  ps_task_context :: task_context_state
  ps_tasks :: task_state
  ps_subagents :: "subagent_state list"
  ps_worktree_activity :: "worktree_activity option"
  ps_background_process :: "background_process_state option"
  ps_claude_background :: claude_background_state
  ps_claude_crons :: claude_cron_snapshot
  ps_listening_ports :: "u16 list"

definition version :: "pane_state \<Rightarrow> state_version" where
  "version s = \<lparr>sv_state_id = ps_state_id s, sv_agent_epoch = ps_agent_epoch s,
     sv_revision = ps_revision s\<rparr>"

definition AWAIT_AGENT_ENDED :: str where "AWAIT_AGENT_ENDED = lit ''await_agent_ended''"

definition is_claude :: "agent_kind \<Rightarrow> bool" where "is_claude a \<longleftrightarrow> a = lit ''claude''"
definition is_codex :: "agent_kind \<Rightarrow> bool" where "is_codex a \<longleftrightarrow> a = lit ''codex''"

text \<open>
  The first half of \<open>validate\<close>: the counters, the lifecycle and the agent, in the order
  of the code. \<open>checked_sub(...).is_none_or(|open| open > 1)\<close> is written out.
\<close>

definition validate_sequence :: "pane_state \<Rightarrow> message + unit" where
  "validate_sequence s = first_error
    [fail_if (ps_revision s = 0 \<or> ps_agent_epoch s = 0)
       (Msg ''revision and agent epoch must be positive''),
     fail_if (ps_completed_seq s > ps_run_seq s) (Msg ''pane state sequence order is invalid''),
     check_opt (\<lambda>r. first_error
       [current_run_validate r,
        fail_if (cr_run_seq r \<noteq> ps_run_seq s)
          (Msg ''durable current run sequence disagrees with pane state'')]) (ps_current_run s),
     fail_if (ps_run_seq s < ps_completed_seq s \<or> ps_run_seq s - ps_completed_seq s > 1)
       (Msg ''pane state has more than one open run'')]"

definition absent_lifecycle_ok :: "lifecycle_state \<Rightarrow> bool" where
  "absent_lifecycle_ok l \<longleftrightarrow>
     l = Idle \<or> is_usage_limited l \<or> l = Error (Some AWAIT_AGENT_ENDED)"

definition validate_lifecycle :: "pane_state \<Rightarrow> message + unit" where
  "validate_lifecycle s = (let idle = (ps_lifecycle s = Idle) in first_error
    [fail_if (blocks_completion (ps_claude_background s) \<and> idle)
       (Msg ''background wait cannot belong to an idle run''),
     fail_if (\<not> is_claude (ps_agent s)
              \<and> (cb_tasks (ps_claude_background s) \<noteq> [] \<or> cb_faults (ps_claude_background s) \<noteq> []
                 \<or> cs_entries (ps_claude_crons s) \<noteq> []))
       (Msg ''Claude background state requires a Claude agent''),
     fail_if (idle \<noteq> (ps_run_seq s = ps_completed_seq s))
       (Msg ''lifecycle and run sequence disagree''),
     fail_if (\<not> ps_agent_present s
              \<and> (\<not> ps_scan_verified s \<or> \<not> absent_lifecycle_ok (ps_lifecycle s)))
       (Msg ''absent agent must be scan-verified and idle or usage-limited''),
     fail_if (ps_synthetic_completion_armed s
              \<and> (\<not> idle \<or> ps_run_seq s \<noteq> 0 \<or> \<not> ps_scan_verified s
                 \<or> ps_agent_session_id s \<noteq> None))
       (Msg ''invalid synthetic completion state''),
     fail_if (ps_run_seq s = 0 \<and> (ps_completed_seq s \<noteq> 0 \<or> ps_started_at s \<noteq> None))
       (Msg ''zero run sequence has run metadata''),
     fail_if ((ps_completed_seq s = 0) \<noteq> (ps_completed_at s = None))
       (Msg ''completed sequence and timestamp disagree''),
     fail_if (ps_run_seq s > 0 \<and> ps_started_at s = None)
       (Msg ''run sequence requires a start timestamp''),
     (case ps_lifecycle s of Waiting reason \<Rightarrow> wait_reason_validate reason | _ \<Rightarrow> Inr ()),
     (case ps_lifecycle s of
        Error (Some reason) \<Rightarrow> validate_optional_text reason ''error reason'' IDENTIFIER_MAX_BYTES
      | _ \<Rightarrow> Inr ())])"

definition validate_details :: "(u8 list \<Rightarrow> str) \<Rightarrow> pane_state \<Rightarrow> message + unit" where
  "validate_details H s = first_error
    [check_opt prompt_validate (ps_prompt s),
     check_opt response_validate (ps_latest_response s),
     task_context_validate H (ps_task_context s),
     validate_tasks (ps_tasks s),
     validate_subagents (ps_subagents s),
     check_opt worktree_activity_validate (ps_worktree_activity s),
     check_opt background_process_validate (ps_background_process s),
     process_observation_validate \<lparr>po_agent_process_checked = False, po_agent_process = None,
       po_background_process_alive = None, po_listening_ports = Some (ps_listening_ports s)\<rparr>,
     unread_validate (ps_unread s)]"

definition pane_state_validate :: "(u8 list \<Rightarrow> str) \<Rightarrow> pane_state \<Rightarrow> message + unit" where
  "pane_state_validate H s = first_error
    [fail_if (ps_schema_version s \<noteq> PANE_STATE_SCHEMA_VERSION)
       (Msg (''unsupported pane state schema version '' @ decimal (unat (ps_schema_version s)))),
     claude_background_validate (ps_claude_background s) (ps_run_seq s),
     claude_cron_snapshot_validate (ps_claude_crons s),
     pane_instance_validate (ps_pane_instance s),
     check_opt agent_process_validate (ps_agent_process s),
     validate_sequence s,
     validate_lifecycle s,
     validate_details H s]"

section \<open>Reconciliation with the durable run store\<close>

text \<open>
  The error value of \<open>reconcile_current_run\<close>; the state is mutated through
  \<open>&mut self\<close>, so the model returns it with the \<open>bool\<close>.
\<close>

definition reconcile_stale ::
  "pane_state \<Rightarrow> current_durable_run_projection \<Rightarrow> message + bool" where
  "reconcile_stale s projection = (case ps_current_run s of
      None \<Rightarrow> Inr False
    | Some existing \<Rightarrow>
        if cr_run_seq existing > cr_run_seq projection then Inr True
        else if cr_run_seq existing = cr_run_seq projection
             \<and> cr_run_id existing \<noteq> cr_run_id projection
        then Inl (Msg ''durable current run ID conflicts at the same run sequence'')
        else if cr_run_id existing = cr_run_id projection
             \<and> cr_run_revision existing > cr_run_revision projection then Inr True
        else Inr False)"

definition completed_at_or :: "pane_state \<Rightarrow> i64 \<Rightarrow> i64" where
  "completed_at_or s observed_at = (case ps_completed_at s of None \<Rightarrow> observed_at | Some at \<Rightarrow> at)"

definition reconcile_advance ::
  "pane_state \<Rightarrow> current_durable_run_projection \<Rightarrow> i64 \<Rightarrow> pane_state" where
  "reconcile_advance s projection observed_at =
    (if cr_run_seq projection > ps_run_seq s
     then s\<lparr>ps_run_seq := cr_run_seq projection, ps_started_at := Some observed_at,
            ps_completed_at := (if cr_run_seq projection > 1
              then Some (completed_at_or s observed_at) else None),
            ps_prompt := None, ps_latest_response := None, ps_tasks := task_state_default,
            ps_subagents := [], ps_worktree_activity := None\<rparr>
     else s)"

definition reconcile_activity ::
  "pane_state \<Rightarrow> current_durable_run_projection \<Rightarrow> bool \<Rightarrow> i64 \<Rightarrow> pane_state" where
  "reconcile_activity s projection execution_active observed_at =
    (if execution_active
     then let completed = (if cr_run_seq projection = 0 then 0 else cr_run_seq projection - 1)
          in s\<lparr>ps_completed_seq := completed,
               ps_completed_at := (if completed > 0
                 then Some (completed_at_or s observed_at) else None),
               ps_lifecycle := (if ps_lifecycle s = Idle then Running else ps_lifecycle s)\<rparr>
     else s\<lparr>ps_completed_seq := cr_run_seq projection, ps_lifecycle := Idle,
            ps_completed_at := Some (completed_at_or s observed_at),
            ps_subagents := [], ps_worktree_activity := None\<rparr>)"

definition reconcile_unread :: "pane_state \<Rightarrow> i64 \<Rightarrow> u64 \<Rightarrow> message + pane_state" where
  "reconcile_unread s observed_at latest_unread_order =
    bind_r (checked_inc (Msg ''unread occurrence sequence overflow'')
        (un_occurrence_seq (ps_unread s))) (\<lambda>seq.
      let previous_order = (case un_latest (ps_unread s) of None \<Rightarrow> 0 | Some l \<Rightarrow> uo_order l)
      in bind_r (checked_inc (Msg ''unread occurrence order overflow'')
          (max latest_unread_order previous_order)) (\<lambda>order.
        Inr (s\<lparr>ps_unread := (ps_unread s)\<lparr>un_occurrence_seq := seq,
          un_latest := Some \<lparr>uo_seq = seq, uo_order = order, uo_reason = UnreadCompleted,
            uo_occurred_at = completed_at_or s observed_at\<rparr>\<rparr>\<rparr>)))"

definition reconcile_current_run :: "(u8 list \<Rightarrow> str) \<Rightarrow> pane_state \<Rightarrow>
    current_durable_run_projection \<Rightarrow> bool \<Rightarrow> i64 \<Rightarrow> u64 \<Rightarrow> message + (pane_state \<times> bool)" where
  "reconcile_current_run H s projection execution_active observed_at latest_unread_order =
    bind_r (current_run_validate projection) (\<lambda>_.
    bind_r (fail_if (observed_at < 0)
      (Msg ''durable run projection timestamp must be non-negative'')) (\<lambda>_.
    bind_r (reconcile_stale s projection) (\<lambda>stale.
      if stale then Inr (s, False)
      else
        let completion_advanced =
              (\<not> execution_active \<and> ps_completed_seq s < cr_run_seq projection);
            s1 = reconcile_activity (reconcile_advance s projection observed_at)
                   projection execution_active observed_at
        in bind_r (if completion_advanced
                   then reconcile_unread s1 observed_at latest_unread_order else Inr s1) (\<lambda>s2.
          let s3 = s2\<lparr>ps_current_run := Some projection\<rparr>
          in if s3 \<noteq> s
             then bind_r (checked_inc (Msg ''pane revision overflow'') (ps_revision s3)) (\<lambda>rev.
               let s4 = s3\<lparr>ps_revision := rev\<rparr>
               in bind_r (pane_state_validate H s4) (\<lambda>_. Inr (s4, True)))
             else Inr (s3, False)))))"

definition clear_current_run ::
  "(u8 list \<Rightarrow> str) \<Rightarrow> pane_state \<Rightarrow> message + (pane_state \<times> bool)" where
  "clear_current_run H s = (case ps_current_run s of
      None \<Rightarrow> Inr (s, False)
    | Some _ \<Rightarrow>
        bind_r (checked_inc (Msg ''pane revision overflow'') (ps_revision s)) (\<lambda>rev.
          let s' = s\<lparr>ps_current_run := None, ps_revision := rev\<rparr>
          in bind_r (pane_state_validate H s') (\<lambda>_. Inr (s', True))))"

end
