(* ===== verification/QuestionResolver.thy ===== *)
theory QuestionResolver
  imports TranscriptCursor PaneModel "HOL-Library.Product_Lexorder"
begin

text \<open>
  The resolver of question notices (\<open>question_notice/resolver.rs\<close>): which sessions are trusted,
  which questions have been issued in which turns, and the candidates whose questions may be
  acknowledged because a later turn was submitted. Time is a number of nanoseconds. \<open>HD\<close> is
  the digest of a home directory.
\<close>

section \<open>Types\<close>

type_synonym instant = nat

definition milliseconds :: "nat \<Rightarrow> nat" where
  "milliseconds n = n * 1000000"

definition SESSION_LIMIT :: nat where "SESSION_LIMIT = 4096"
definition SESSION_INGRESS_LIMIT :: nat where "SESSION_INGRESS_LIMIT = 4096"
definition INGRESS_LIMIT :: nat where "INGRESS_LIMIT = 65536"
definition ARMED_LIMIT :: nat where "ARMED_LIMIT = milliseconds (24 * 60 * 60 * 1000)"
definition PROBE_LIMIT :: nat where "PROBE_LIMIT = milliseconds 1500"

datatype input_class = OrdinaryPrompt | NonAuthoritativeInput

datatype session_source = SourceStartup | SourceResume | SourceClear | SourceFork | SourceCompact
  | SourceUnknown

datatype codex_profile = V01551 | V01561 | V01593 | V01600 | ProfileUnknown

record executable_fingerprint =
  ef_dev :: u64
  ef_ino :: u64
  ef_size :: u64
  ef_mtime_sec :: i64
  ef_mtime_nsec :: i64
  ef_ctime_sec :: i64
  ef_ctime_nsec :: i64

record profile_request =
  pq_process :: agent_process_identity
  pq_executable :: executable_fingerprint

record binding =
  bn_owner :: str
  bn_pane :: pane_instance
  bn_process :: agent_process_identity
  bn_executable :: profile_request
  bn_profile :: codex_profile
  bn_locator :: transcript_locator

datatype trust = Trusted | TrustUnknown

record session =
  se_trust :: trust
  se_binding :: "binding option"
  se_epoch :: u64
  se_ingresses :: "str list"

record order =
  or_session :: str
  or_turn :: str
  or_generation :: u64
  or_resolved :: bool
  or_home :: str
  or_epoch :: u64

datatype candidate_stage = CheckingOrder | Armed | Probing

record order_fence =
  fe_generation :: u64
  fe_ingress :: str
  fe_binding :: binding
  fe_home :: str
  fe_session :: str
  fe_turn :: str
  fe_epoch :: u64
  fe_acknowledged :: u64
  fe_latest :: u64

record candidate =
  ca_eligible_run :: "str option"
  ca_last_evaluated_projection :: "str option"
  ca_fence :: order_fence
  ca_stage :: candidate_stage
  ca_through :: u64
  ca_created :: instant
  ca_deadline :: instant
  ca_next_sample :: "instant option"
  ca_samples :: u8
  ca_consecutive_normal :: u8
  ca_probe_id :: u64
  ca_pending :: bool

datatype screen_sample = SampleMatchedQuestion | SampleActiveQuestion | SampleNormalComposer | SampleAmbiguous

record order_check =
  oc_fence :: order_fence
  oc_issued_turns :: "str list"

record notice_fence =
  nf_acknowledged :: u64
  nf_latest :: u64

record journal_view =
  jv_epoch :: u64
  jv_veto :: bool
  jv_session_dirty :: bool

datatype journal_failure = JournalUnavailable | JournalContended | JournalCapacity | JournalInvalid
  | JournalExpired

datatype retain_reason = RetainReaderBudget | RetainReaderDeadline | RetainReaderUnavailable
  | RetainOrderUnproven | RetainHistoryUnknown | RetainOwner | RetainJournalAcquire | RetainJournalEvaluation
  | RetainJournalVeto | RetainEpoch | RetainCheckingGuardUnavailable | RetainCheckingJournalVeto | RetainFence
  | RetainSampleJournalVeto | RetainActive | RetainMatchedQuestion | RetainAmbiguous | RetainDeadline
  | RetainInterrupted | RetainProbeOwner | RetainProbeDeadline | RetainProbeJournalAcquire
  | RetainProbeJournalEvaluation | RetainProbeJournalVeto | RetainProbeEpoch | RetainCommitOwner
  | RetainCommitDeadline | RetainCommitJournalAcquire | RetainCommitJournalEvaluation
  | RetainCommitJournalVeto | RetainCommitEpoch | RetainSampleTransferUnavailable
  | RetainCommitTransferUnavailable | RetainCommitGuardVeto | RetainFinalGuard | RetainCommitRejected
  | RetainOrderQueueUnavailable | RetainProbeQueueUnavailable | RetainCommitQueueUnavailable
  | RetainProbeBindingChanged | RetainMutationBusy | RetainReplyQueueUnavailable
  | RetainReplyHistoryUnknown | RetainReplyUnknownItem | RetainReplyPersistencePending
  | RetainReplyGuardUnavailable | RetainReplyJournalDirty | RetainReplyOwner | RetainReplyDeadline
  | RetainReplyEpoch | RetainReplyJournalAcquire | RetainReplyJournalEvaluation | RetainReplyMutationBusy
  | RetainReplyInvalidEvidence | RetainReplyOwnerBudget

record resolver =
  rv_generation :: u64
  rv_next_candidate :: u64
  rv_disabled :: bool
  rv_sessions :: "((str \<times> str) \<times> session) list"
  rv_orders :: "((str \<times> u64) \<times> order) list"
  rv_candidates :: "(str \<times> candidate) list"
  rv_total_ingresses :: nat
  rv_retained :: u64
  rv_retained_by :: "retain_reason \<Rightarrow> u64 option"
  rv_non_authoritative :: u64
  rv_session_start_unobserved :: u64
  rv_home_failures :: "(str \<times> (u64 \<times> instant)) list"
  rv_next_failure :: u64
  rv_journal_failures :: "journal_failure \<Rightarrow> u64 option"
  rv_candidates_started :: u64
  rv_candidates_armed :: u64
  rv_candidates_acked :: u64

definition resolver_default :: resolver where
  "resolver_default = \<lparr>rv_generation = 1, rv_next_candidate = 0, rv_disabled = False, rv_sessions = [],
     rv_orders = [], rv_candidates = [], rv_total_ingresses = 0, rv_retained = 0, rv_retained_by = (\<lambda>_. None),
     rv_non_authoritative = 0, rv_session_start_unobserved = 0, rv_home_failures = [], rv_next_failure = 0,
     rv_journal_failures = (\<lambda>_. None), rv_candidates_started = 0, rv_candidates_armed = 0,
     rv_candidates_acked = 0\<rparr>"

section \<open>Counters and failures\<close>

definition saturating_succ :: "'l::len word \<Rightarrow> 'l word" where
  "saturating_succ n = (if n = - 1 then n else n + 1)"

definition count_reason :: "'k \<Rightarrow> ('k \<Rightarrow> u64 option) \<Rightarrow> 'k \<Rightarrow> u64 option" where
  "count_reason k m = m(k := Some (saturating_succ (case m k of None \<Rightarrow> 0 | Some n \<Rightarrow> n)))"

definition note_journal_failure :: "journal_failure option \<Rightarrow> resolver \<Rightarrow> resolver" where
  "note_journal_failure reason r = (case reason of
      None \<Rightarrow> r
    | Some k \<Rightarrow> r\<lparr>rv_journal_failures := count_reason k (rv_journal_failures r)\<rparr>)"

definition note_retained :: "retain_reason \<Rightarrow> resolver \<Rightarrow> resolver" where
  "note_retained reason r = r\<lparr>rv_retained_by := count_reason reason (rv_retained_by r)\<rparr>"

definition disable :: "resolver \<Rightarrow> resolver" where
  "disable r = r\<lparr>rv_disabled := True, rv_candidates := []\<rparr>"

definition retain_candidates :: "(str \<times> candidate \<Rightarrow> bool) \<Rightarrow> resolver \<Rightarrow> resolver" where
  "retain_candidates p r = r\<lparr>rv_candidates := filter p (rv_candidates r)\<rparr>"

definition unknown_session :: session where
  "unknown_session = \<lparr>se_trust = TrustUnknown, se_binding = None, se_epoch = 0, se_ingresses = []\<rparr>"

definition mark_unknown :: "str \<Rightarrow> str \<Rightarrow> resolver \<Rightarrow> resolver" where
  "mark_unknown home session r =
    (let known = bm_get (rv_sessions r) (home, session);
         r = (if known = None then r\<lparr>rv_session_start_unobserved := saturating_succ (rv_session_start_unobserved r)\<rparr>
           else r)
     in if known = None \<and> length (rv_sessions r) \<ge> SESSION_LIMIT then disable r
        else retain_candidates (\<lambda>(_, c). fe_home (ca_fence c) \<noteq> home \<or> fe_session (ca_fence c) \<noteq> session)
          (r\<lparr>rv_sessions := bm_insert (home, session)
            ((case known of None \<Rightarrow> unknown_session | Some s \<Rightarrow> s)\<lparr>se_trust := TrustUnknown\<rparr>) (rv_sessions r)\<rparr>))"

definition journal_failed :: "str option \<Rightarrow> str option \<Rightarrow> instant \<Rightarrow> resolver \<Rightarrow> resolver" where
  "journal_failed home session now r = (case home of
      None \<Rightarrow> disable r
    | Some home \<Rightarrow> (case session of
        Some session \<Rightarrow> mark_unknown home session r
      | None \<Rightarrow>
          if bm_get (rv_home_failures r) home = None \<and> length (rv_home_failures r) \<ge> SESSION_LIMIT
          then disable r
          else let ticket = saturating_succ (rv_next_failure r)
            in retain_candidates (\<lambda>(_, c). fe_home (ca_fence c) \<noteq> home)
              (r\<lparr>rv_next_failure := ticket, rv_home_failures := bm_insert home (ticket, now) (rv_home_failures r)\<rparr>)))"

definition root_mismatch :: "str \<Rightarrow> instant \<Rightarrow> resolver \<Rightarrow> resolver" where
  "root_mismatch home now r =
    (if bm_get (rv_home_failures r) home = None then journal_failed (Some home) None now r else r)"

definition recovery_due :: "instant \<Rightarrow> resolver \<Rightarrow> resolver \<times> (str \<times> u64) list" where
  "recovery_due now r =
    (r\<lparr>rv_home_failures := map (\<lambda>(home, ticket, due).
        (home, ticket, if now < due then due else now + milliseconds 250)) (rv_home_failures r)\<rparr>,
     map (\<lambda>(home, ticket, _). (home, ticket)) (filter (\<lambda>(_, _, due). \<not> now < due) (rv_home_failures r)))"

definition candidate_wakeup :: "candidate \<Rightarrow> instant" where
  "candidate_wakeup c =
    (if ca_stage c = Probing \<and> \<not> ca_pending c
     then min (case ca_next_sample c of None \<Rightarrow> ca_deadline c | Some at \<Rightarrow> at) (ca_deadline c)
     else ca_deadline c)"

definition next_wakeup :: "resolver \<Rightarrow> instant option" where
  "next_wakeup r =
    (case map (\<lambda>(_, _, due). due) (rv_home_failures r) @ map (\<lambda>(_, c). candidate_wakeup c) (rv_candidates r) of
       [] \<Rightarrow> None
     | t # ts \<Rightarrow> Some (foldl min t ts))"

definition tick_due :: "instant \<Rightarrow> resolver \<Rightarrow> bool" where
  "tick_due now r \<longleftrightarrow> list_ex (\<lambda>(_, _, due). due \<le> now) (rv_home_failures r)
     \<or> list_ex (\<lambda>(_, c). ca_deadline c \<le> now
         \<or> ca_stage c = Probing \<and> \<not> ca_pending c
           \<and> (case ca_next_sample c of None \<Rightarrow> False | Some due \<Rightarrow> due \<le> now)) (rv_candidates r)"

definition cursor_sessions :: "resolver \<Rightarrow> (str \<times> str) list" where
  "cursor_sessions r = map fst (filter (\<lambda>(_, s). \<not> rv_disabled r \<and> se_trust s = Trusted) (rv_sessions r))"

definition recovered :: "str \<Rightarrow> u64 \<Rightarrow> resolver \<Rightarrow> resolver" where
  "recovered home ticket r = (case bm_get (rv_home_failures r) home of
      None \<Rightarrow> r
    | Some (current, _) \<Rightarrow>
        if current \<noteq> ticket then r
        else retain_candidates (\<lambda>(_, c). fe_home (ca_fence c) \<noteq> home)
          (r\<lparr>rv_home_failures := bm_remove home (rv_home_failures r),
             rv_sessions := bm_map_values (\<lambda>(key, _) s. if key = home then s\<lparr>se_trust := TrustUnknown\<rparr> else s)
               (rv_sessions r)\<rparr>))"

section \<open>Sessions\<close>

definition trust_of :: "str \<Rightarrow> str \<Rightarrow> resolver \<Rightarrow> trust" where
  "trust_of home session r = (case bm_get (rv_sessions r) (home, session) of
     None \<Rightarrow> TrustUnknown | Some s \<Rightarrow> se_trust s)"

definition session_epoch :: "str \<Rightarrow> str \<Rightarrow> resolver \<Rightarrow> u64 option" where
  "session_epoch home session r = map_option se_epoch (bm_get (rv_sessions r) (home, session))"

definition session_binding :: "str \<Rightarrow> str \<Rightarrow> resolver \<Rightarrow> binding option" where
  "session_binding home session r = Option.bind (bm_get (rv_sessions r) (home, session)) se_binding"

definition cancel :: "str \<Rightarrow> resolver \<Rightarrow> resolver" where
  "cancel owner r = (case bm_get (rv_candidates r) owner of
      None \<Rightarrow> r
    | Some _ \<Rightarrow> r\<lparr>rv_candidates := bm_remove owner (rv_candidates r),
        rv_retained := saturating_succ (rv_retained r)\<rparr>)"

definition owned_by :: "str \<Rightarrow> session \<Rightarrow> bool" where
  "owned_by owner s \<longleftrightarrow> (case se_binding s of None \<Rightarrow> False | Some b \<Rightarrow> bn_owner b = owner)"

definition invalidate_owner :: "str \<Rightarrow> resolver \<Rightarrow> resolver" where
  "invalidate_owner owner r =
    (let r = cancel owner r
     in r\<lparr>rv_sessions := bm_map_values (\<lambda>_ s. if owned_by owner s then s\<lparr>se_trust := TrustUnknown\<rparr> else s)
       (rv_sessions r)\<rparr>)"

definition session_continues :: "session \<Rightarrow> binding option \<Rightarrow> journal_view \<Rightarrow> bool \<Rightarrow> bool" where
  "session_continues s binding journal verified \<longleftrightarrow> se_binding s = binding \<and> binding \<noteq> None \<and> verified
     \<and> se_epoch s = jv_epoch journal \<and> \<not> jv_session_dirty journal"

definition new_session :: "session_source \<Rightarrow> binding option \<Rightarrow> journal_view \<Rightarrow> bool \<Rightarrow> session" where
  "new_session source binding journal verified =
    \<lparr>se_trust = (if source = SourceStartup \<and> verified \<and> binding \<noteq> None \<and> \<not> jv_session_dirty journal
       then Trusted else TrustUnknown),
     se_binding = binding, se_epoch = jv_epoch journal, se_ingresses = []\<rparr>"

definition session_start :: "str \<Rightarrow> str \<Rightarrow> session_source \<Rightarrow> binding option \<Rightarrow> journal_view \<Rightarrow> bool
    \<Rightarrow> resolver \<Rightarrow> resolver" where
  "session_start home session source binding journal verified r =
    (if rv_disabled r \<or> bm_get (rv_home_failures r) home \<noteq> None then r
     else case bm_get (rv_sessions r) (home, session) of
       Some existing \<Rightarrow>
         if \<not> session_continues existing binding journal verified
           \<or> source \<notin> {SourceStartup, SourceCompact}
         then mark_unknown home session r else r
     | None \<Rightarrow>
         if length (rv_sessions r) \<ge> SESSION_LIMIT then disable r
         else let r = (case binding of
                 None \<Rightarrow> r
               | Some b \<Rightarrow> let r = cancel (bn_owner b) r
                   in if source \<noteq> SourceStartup then invalidate_owner (bn_owner b) r else r)
           in r\<lparr>rv_sessions := bm_insert (home, session) (new_session source binding journal verified)
             (rv_sessions r)\<rparr>)"

section \<open>Questions and submissions\<close>

definition session_valid :: "session option \<Rightarrow> binding \<Rightarrow> u64 \<Rightarrow> bool" where
  "session_valid s binding epoch \<longleftrightarrow> (case s of
     None \<Rightarrow> False
   | Some s \<Rightarrow> se_trust s = Trusted \<and> se_binding s = Some binding \<and> se_epoch s = epoch)"

definition issue_order :: "binding \<Rightarrow> str \<Rightarrow> str \<Rightarrow> str \<Rightarrow> u64 \<Rightarrow> u64 \<Rightarrow> resolver \<Rightarrow> resolver" where
  "issue_order binding home session turn order epoch r =
    (let r = cancel (bn_owner binding) r
     in if \<not> session_valid (bm_get (rv_sessions r) (home, session)) binding epoch then mark_unknown home session r
        else r\<lparr>rv_orders := bm_insert (bn_owner binding, order)
          \<lparr>or_session = session, or_turn = turn, or_generation = rv_generation r, or_resolved = False,
           or_home = home, or_epoch = epoch\<rparr> (rv_orders r)\<rparr>)"

definition order_open :: "resolver \<Rightarrow> str \<Rightarrow> str \<Rightarrow> str \<Rightarrow> u64 \<Rightarrow> order \<Rightarrow> bool" where
  "order_open r home session turn epoch order \<longleftrightarrow> or_session order = session \<and> or_turn order \<noteq> turn
     \<and> or_generation order = rv_generation r \<and> or_home order = home \<and> or_epoch order = epoch"

definition in_range :: "str \<Rightarrow> u64 \<Rightarrow> u64 \<Rightarrow> str \<times> u64 \<Rightarrow> bool" where
  "in_range owner after through key \<longleftrightarrow> fst key = owner \<and> after < snd key \<and> snd key \<le> through"

definition open_turns :: "resolver \<Rightarrow> binding \<Rightarrow> str \<Rightarrow> str \<Rightarrow> str \<Rightarrow> notice_fence \<Rightarrow> u64 \<Rightarrow> str list" where
  "open_turns r binding home session turn notice epoch = bs_of_list (map (\<lambda>(_, order). or_turn order)
     (filter (\<lambda>(key, order). in_range (bn_owner binding) (nf_acknowledged notice) (nf_latest notice) key
        \<and> order_open r home session turn epoch order) (rv_orders r)))"

definition start_candidate :: "order_fence \<Rightarrow> instant \<Rightarrow> resolver \<Rightarrow> resolver" where
  "start_candidate fence now r =
    r\<lparr>rv_candidates_started := saturating_succ (rv_candidates_started r),
      rv_candidates := bm_insert (bn_owner (fe_binding fence))
        \<lparr>ca_eligible_run = None, ca_last_evaluated_projection = None, ca_fence = fence, ca_stage = CheckingOrder,
         ca_through = fe_acknowledged fence, ca_created = now, ca_deadline = now + PROBE_LIMIT,
         ca_next_sample = None, ca_samples = 0, ca_consecutive_normal = 0, ca_probe_id = 0, ca_pending = False\<rparr>
        (rv_candidates r)\<rparr>"

text \<open>The ingress is counted once per session; \<open>None\<close>: nothing more happens with it.\<close>

definition accept_ingress :: "str \<Rightarrow> str \<Rightarrow> str \<Rightarrow> resolver \<Rightarrow> resolver \<times> session option" where
  "accept_ingress home session ingress r =
    (let r = (if bm_get (rv_sessions r) (home, session) = None then mark_unknown home session r else r)
     in case bm_get (rv_sessions r) (home, session) of
       None \<Rightarrow> (r, None)
     | Some state \<Rightarrow>
         if ingress \<in> set (se_ingresses state) then (r, None)
         else if length (se_ingresses state) \<ge> SESSION_INGRESS_LIMIT then (mark_unknown home session r, None)
         else if rv_total_ingresses r \<ge> INGRESS_LIMIT then (disable r, None)
         else let state = state\<lparr>se_ingresses := bs_insert ingress (se_ingresses state)\<rparr>
           in (r\<lparr>rv_sessions := bm_insert (home, session) state (rv_sessions r),
                 rv_total_ingresses := rv_total_ingresses r + 1\<rparr>, Some state))"

definition propose :: "binding \<Rightarrow> str \<Rightarrow> str \<Rightarrow> str \<Rightarrow> str \<Rightarrow> notice_fence \<Rightarrow> journal_view \<Rightarrow> instant
    \<Rightarrow> resolver \<Rightarrow> resolver \<times> order_check option" where
  "propose binding home session ingress turn notice journal now r =
    (if bm_get (rv_home_failures r) home \<noteq> None \<or> jv_veto journal \<or> nf_acknowledged notice \<ge> nf_latest notice
     then (r, None)
     else let turns = open_turns r binding home session turn notice (jv_epoch journal)
       in if turns = [] then (r, None)
          else if rv_next_candidate r = - 1 then (disable r, None)
          else let r = r\<lparr>rv_next_candidate := rv_next_candidate r + 1\<rparr>;
              fence = \<lparr>fe_generation = rv_next_candidate r, fe_ingress = ingress, fe_binding = binding,
                fe_home = home, fe_session = session, fe_turn = turn, fe_epoch = jv_epoch journal,
                fe_acknowledged = nf_acknowledged notice, fe_latest = nf_latest notice\<rparr>
            in (start_candidate fence now r, Some \<lparr>oc_fence = fence, oc_issued_turns = turns\<rparr>))"

definition ordinary :: "(transcript_locator \<Rightarrow> str) \<Rightarrow> input_class \<Rightarrow> binding \<Rightarrow> str \<Rightarrow> str \<Rightarrow> str \<Rightarrow> notice_fence
    \<Rightarrow> journal_view \<Rightarrow> instant \<Rightarrow> resolver \<Rightarrow> resolver \<times> order_check option" where
  "ordinary HD input binding session ingress turn notice journal now r =
    (if input = NonAuthoritativeInput
     then (r\<lparr>rv_non_authoritative := saturating_succ (rv_non_authoritative r)\<rparr>, None)
     else if rv_disabled r then (r, None)
     else let home = HD (bn_locator binding)
       in case accept_ingress home session ingress r of
         (r, None) \<Rightarrow> (r, None)
       | (r, Some state) \<Rightarrow>
           let r = cancel (bn_owner binding) r
           in if \<not> session_valid (Some state) binding (jv_epoch journal) then (mark_unknown home session r, None)
              else propose binding home session ingress turn notice journal now r)"

section \<open>Candidates\<close>

definition fence_current :: "resolver \<Rightarrow> order_fence \<Rightarrow> bool" where
  "fence_current r fence \<longleftrightarrow> \<not> rv_disabled r \<and> bm_get (rv_home_failures r) (fe_home fence) = None
     \<and> (case bm_get (rv_candidates r) (bn_owner (fe_binding fence)) of
          None \<Rightarrow> False | Some c \<Rightarrow> ca_fence c = fence)
     \<and> session_valid (bm_get (rv_sessions r) (fe_home fence, fe_session fence)) (fe_binding fence) (fe_epoch fence)"

definition same_owner :: "binding \<Rightarrow> binding \<Rightarrow> bool" where
  "same_owner a b \<longleftrightarrow> bn_owner a = bn_owner b \<and> bn_pane a = bn_pane b \<and> bn_process a = bn_process b
     \<and> bn_executable a = bn_executable b \<and> bn_profile a = bn_profile b"

definition order_counts :: "resolver \<Rightarrow> order_fence \<Rightarrow> u64 \<Rightarrow> bool" where
  "order_counts r fence number = (case bm_get (rv_orders r) (bn_owner (fe_binding fence), number) of
      None \<Rightarrow> False
    | Some order \<Rightarrow> or_resolved order \<and> or_generation order = rv_generation r \<and> or_home order = fe_home fence
        \<and> or_epoch order = fe_epoch fence
        \<and> (case bm_get (rv_sessions r) (or_home order, or_session order) of
            None \<Rightarrow> False
          | Some state \<Rightarrow> se_trust state = Trusted \<and> se_epoch state = fe_epoch fence
              \<and> (case se_binding state of None \<Rightarrow> False | Some b \<Rightarrow> same_owner b (fe_binding fence))))"

text \<open>The loop over \<open>(acknowledged + 1)..=latest\<close> stops at the first number that does not count.\<close>

definition order_numbers :: "u64 \<Rightarrow> u64 \<Rightarrow> u64 list" where
  "order_numbers acknowledged latest = map of_nat [Suc (unat acknowledged) ..< Suc (unat latest)]"

definition resolved_prefix :: "resolver \<Rightarrow> order_fence \<Rightarrow> u64" where
  "resolved_prefix r fence =
    (case takeWhile (order_counts r fence) (order_numbers (fe_acknowledged fence) (fe_latest fence)) of
       [] \<Rightarrow> fe_acknowledged fence
     | ns \<Rightarrow> last ns)"

definition order_proven :: "resolver \<Rightarrow> order_check \<Rightarrow> str list \<Rightarrow> str \<times> u64 \<Rightarrow> order \<Rightarrow> bool" where
  "order_proven r check proven key order \<longleftrightarrow>
     (let fence = oc_fence check
      in in_range (bn_owner (fe_binding fence)) (fe_acknowledged fence) (fe_latest fence) key
         \<and> order_open r (fe_home fence) (fe_session fence) (fe_turn fence) (fe_epoch fence) order
         \<and> or_turn order \<in> set proven \<and> or_turn order \<in> set (oc_issued_turns check))"

definition checked :: "order_check \<Rightarrow> str list \<Rightarrow> instant \<Rightarrow> resolver \<Rightarrow> resolver \<times> bool" where
  "checked check proven now r =
    (let fence = oc_fence check; owner = bn_owner (fe_binding fence)
     in if \<not> fence_current r fence then (r, False)
        else case bm_get (rv_candidates r) owner of
          None \<Rightarrow> (r, False)
        | Some c \<Rightarrow>
            if ca_stage c \<noteq> CheckingOrder \<or> ca_deadline c \<le> now then (cancel owner r, False)
            else let r = r\<lparr>rv_orders := bm_map_values (\<lambda>key order.
                    if order_proven r check proven key order then order\<lparr>or_resolved := True\<rparr> else order) (rv_orders r)\<rparr>;
                through = resolved_prefix r fence
              in if through = fe_acknowledged fence then (cancel owner r, False)
                 else (r\<lparr>rv_candidates := bm_insert owner (c\<lparr>ca_through := through, ca_stage := Armed,
                     ca_created := now, ca_deadline := now + ARMED_LIMIT\<rparr>) (rv_candidates r),
                   rv_candidates_armed := saturating_succ (rv_candidates_armed r)\<rparr>, True))"

definition set_candidate :: "str \<Rightarrow> candidate \<Rightarrow> resolver \<Rightarrow> resolver" where
  "set_candidate owner c r = r\<lparr>rv_candidates := bm_insert owner c (rv_candidates r)\<rparr>"

definition mark_eligible :: "str \<Rightarrow> str \<Rightarrow> bool \<Rightarrow> bool \<Rightarrow> instant \<Rightarrow> resolver \<Rightarrow> resolver" where
  "mark_eligible owner turn is_done interrupted now r = (case bm_get (rv_candidates r) owner of
      None \<Rightarrow> r
    | Some c \<Rightarrow>
        if fe_turn (ca_fence c) \<noteq> turn then r
        else if interrupted \<or> ca_deadline c \<le> now
        then cancel owner (note_retained (if interrupted then RetainInterrupted else RetainDeadline) r)
        else if ca_stage c = Armed \<and> is_done
        then set_candidate owner (c\<lparr>ca_stage := Probing, ca_deadline := now + PROBE_LIMIT,
          ca_next_sample := Some (now + milliseconds 150)\<rparr>) r
        else r)"

definition sample_due :: "instant \<Rightarrow> candidate \<Rightarrow> bool" where
  "sample_due now c \<longleftrightarrow> ca_stage c = Probing \<and> \<not> ca_pending c
     \<and> (case ca_next_sample c of None \<Rightarrow> False | Some at \<Rightarrow> at \<le> now) \<and> ca_samples c < 3"

definition take_sample :: "candidate \<Rightarrow> candidate" where
  "take_sample c = c\<lparr>ca_samples := ca_samples c + 1, ca_probe_id := ca_probe_id c + 1, ca_pending := True,
     ca_next_sample := None\<rparr>"

definition count_expired :: "resolver \<Rightarrow> resolver" where
  "count_expired r = r\<lparr>rv_retained := saturating_succ (rv_retained r),
     rv_retained_by := count_reason RetainDeadline (rv_retained_by r)\<rparr>"

definition probes_due :: "instant \<Rightarrow> resolver \<Rightarrow> resolver \<times> (order_fence \<times> u64) list" where
  "probes_due now r =
    (let live = filter (\<lambda>(_, c). \<not> ca_deadline c \<le> now) (rv_candidates r)
     in ((count_expired ^^ length (filter (\<lambda>(_, c). ca_deadline c \<le> now) (rv_candidates r)))
          (r\<lparr>rv_candidates := map (\<lambda>(owner, c). (owner, if sample_due now c then take_sample c else c)) live\<rparr>),
         map (\<lambda>(_, c). (ca_fence c, ca_probe_id c + 1)) (filter (\<lambda>(_, c). sample_due now c) live)))"

definition record_eligibility :: "str \<Rightarrow> str \<Rightarrow> resolver \<Rightarrow> resolver" where
  "record_eligibility owner run r = (case bm_get (rv_candidates r) owner of
      None \<Rightarrow> r
    | Some c \<Rightarrow> if ca_stage c = Probing \<and> ca_eligible_run c = None
        then set_candidate owner (c\<lparr>ca_eligible_run := Some run\<rparr>) r else r)"

definition record_evaluated_projection :: "str \<Rightarrow> str \<Rightarrow> resolver \<Rightarrow> resolver" where
  "record_evaluated_projection owner projection r = (case bm_get (rv_candidates r) owner of
      None \<Rightarrow> r
    | Some c \<Rightarrow> if ca_stage c = Armed
        then set_candidate owner (c\<lparr>ca_last_evaluated_projection := Some projection\<rparr>) r else r)"

definition take_screen_sample :: "order_fence \<Rightarrow> u64 \<Rightarrow> screen_sample \<Rightarrow> instant \<Rightarrow> resolver \<Rightarrow> resolver \<times> u64 option" where
  "take_screen_sample fence probe_id sample now r =
    (let owner = bn_owner (fe_binding fence)
     in if \<not> fence_current r fence then (r, None)
        else case bm_get (rv_candidates r) owner of
          None \<Rightarrow> (r, None)
        | Some c \<Rightarrow>
            if ca_stage c \<noteq> Probing \<or> ca_probe_id c \<noteq> probe_id \<or> \<not> ca_pending c then (r, None)
            else if ca_deadline c \<le> now \<or> sample \<noteq> SampleNormalComposer then (cancel owner r, None)
            else let c = c\<lparr>ca_pending := False, ca_consecutive_normal := ca_consecutive_normal c + 1\<rparr>
              in if ca_consecutive_normal c = 2
                 then (set_candidate owner (c\<lparr>ca_pending := True\<rparr>) r, Some (ca_through c))
                 else (set_candidate owner (c\<lparr>ca_next_sample := Some (now + milliseconds 300)\<rparr>) r, None))"

definition final_guard :: "resolver \<Rightarrow> order_fence \<Rightarrow> u64 \<Rightarrow> notice_fence \<Rightarrow> journal_view \<Rightarrow> instant \<Rightarrow> bool" where
  "final_guard r fence through notice journal now \<longleftrightarrow> fence_current r fence
     \<and> nf_latest notice = fe_latest fence \<and> nf_acknowledged notice = fe_acknowledged fence
     \<and> jv_epoch journal = fe_epoch fence \<and> \<not> jv_veto journal \<and> resolved_prefix r fence = through
     \<and> (case bm_get (rv_candidates r) (bn_owner (fe_binding fence)) of
         None \<Rightarrow> False
       | Some c \<Rightarrow> ca_stage c = Probing \<and> ca_consecutive_normal c = 2 \<and> ca_pending c \<and> ca_through c = through
           \<and> now < ca_deadline c)"

definition orders_acknowledged :: "str \<Rightarrow> u64 \<Rightarrow> resolver \<Rightarrow> resolver" where
  "orders_acknowledged owner through r =
    (let r = cancel owner r
     in r\<lparr>rv_orders := filter (\<lambda>((key, number), _). key \<noteq> owner \<or> through < number) (rv_orders r)\<rparr>)"

end
