(* ===== verification/QuestionResolverLaws.thy ===== *)
theory QuestionResolverLaws
  imports QuestionResolver BTree
begin

text \<open>
  The resolver as a machine of events, and how its state evolves: sessions keep their binding and
  their epoch and never regain trust, the generations of the fences only grow, and a resolver that
  has been disabled stays disabled.
\<close>

section \<open>The machine\<close>

datatype resolver_event =
    JournalFailed "str option" "str option" instant
  | RootMismatch str instant
  | RecoveryDue instant
  | Recovered str u64
  | MarkUnknown str str
  | SessionStart str str session_source "binding option" journal_view bool
  | Cancel str
  | InvalidateOwner str
  | IssueOrder binding str str str u64 u64
  | Ordinary input_class binding str str str notice_fence journal_view instant
  | Checked order_check "str list" instant
  | MarkEligible str str bool bool instant
  | ProbesDue instant
  | RecordEligibility str str
  | RecordProjection str str
  | ScreenSample order_fence u64 screen_sample instant
  | OrdersAcknowledged str u64
  | NoteRetained retain_reason
  | NoteJournalFailure "journal_failure option"

fun resolver_step :: "(transcript_locator \<Rightarrow> str) \<Rightarrow> resolver_event \<Rightarrow> resolver \<Rightarrow> resolver" where
  "resolver_step HD (JournalFailed home session now) r = journal_failed home session now r"
| "resolver_step HD (RootMismatch home now) r = root_mismatch home now r"
| "resolver_step HD (RecoveryDue now) r = fst (recovery_due now r)"
| "resolver_step HD (Recovered home ticket) r = recovered home ticket r"
| "resolver_step HD (MarkUnknown home session) r = mark_unknown home session r"
| "resolver_step HD (SessionStart home session source binding journal verified) r =
     session_start home session source binding journal verified r"
| "resolver_step HD (Cancel owner) r = cancel owner r"
| "resolver_step HD (InvalidateOwner owner) r = invalidate_owner owner r"
| "resolver_step HD (IssueOrder binding home session turn order epoch) r =
     issue_order binding home session turn order epoch r"
| "resolver_step HD (Ordinary input binding session ingress turn notice journal now) r =
     fst (ordinary HD input binding session ingress turn notice journal now r)"
| "resolver_step HD (Checked check proven now) r = fst (checked check proven now r)"
| "resolver_step HD (MarkEligible owner turn is_done interrupted now) r =
     mark_eligible owner turn is_done interrupted now r"
| "resolver_step HD (ProbesDue now) r = fst (probes_due now r)"
| "resolver_step HD (RecordEligibility owner run) r = record_eligibility owner run r"
| "resolver_step HD (RecordProjection owner projection) r = record_evaluated_projection owner projection r"
| "resolver_step HD (ScreenSample fence probe_id sample now) r =
     fst (take_screen_sample fence probe_id sample now r)"
| "resolver_step HD (OrdersAcknowledged owner through) r = orders_acknowledged owner through r"
| "resolver_step HD (NoteRetained reason) r = note_retained reason r"
| "resolver_step HD (NoteJournalFailure reason) r = note_journal_failure reason r"

definition resolver_run :: "(transcript_locator \<Rightarrow> str) \<Rightarrow> resolver_event list \<Rightarrow> resolver \<Rightarrow> resolver" where
  "resolver_run HD es r = fold (resolver_step HD) es r"

lemma resolver_run_simps [simp]:
  "resolver_run HD [] r = r" "resolver_run HD (e # es) r = resolver_run HD es (resolver_step HD e r)"
  "resolver_run HD (es @ fs) r = resolver_run HD fs (resolver_run HD es r)"
  by (simp_all add: resolver_run_def)

section \<open>Evolution\<close>

definition session_evolves :: "session \<Rightarrow> session \<Rightarrow> bool" where
  "session_evolves s t \<longleftrightarrow> se_binding t = se_binding s \<and> se_epoch t = se_epoch s
     \<and> (se_trust s = TrustUnknown \<longrightarrow> se_trust t = TrustUnknown)"

definition sessions_evolve :: "resolver \<Rightarrow> resolver \<Rightarrow> bool" where
  "sessions_evolve r q \<longleftrightarrow> (\<forall>k s. bm_get (rv_sessions r) k = Some s \<longrightarrow>
     (\<exists>t. bm_get (rv_sessions q) k = Some t \<and> session_evolves s t))"

definition failures_evolve :: "resolver \<Rightarrow> resolver \<Rightarrow> bool" where
  "failures_evolve r q \<longleftrightarrow> (\<forall>home. bm_get (rv_home_failures r) home \<noteq> None \<longrightarrow>
     bm_get (rv_home_failures q) home \<noteq> None
     \<or> (\<forall>session s t. bm_get (rv_sessions r) (home, session) = Some s \<longrightarrow>
          bm_get (rv_sessions q) (home, session) = Some t \<longrightarrow> se_trust t = TrustUnknown))"

definition fresh_fence :: "resolver \<Rightarrow> resolver \<Rightarrow> order_fence \<Rightarrow> bool" where
  "fresh_fence r q f \<longleftrightarrow> rv_next_candidate r < fe_generation f \<and> fe_generation f \<le> rv_next_candidate q"

definition candidates_evolve :: "resolver \<Rightarrow> resolver \<Rightarrow> bool" where
  "candidates_evolve r q \<longleftrightarrow> rv_next_candidate r \<le> rv_next_candidate q
     \<and> (\<forall>k c. bm_get (rv_candidates q) k = Some c \<longrightarrow>
          (\<exists>b. bm_get (rv_candidates r) k = Some b \<and> ca_fence b = ca_fence c)
          \<or> fresh_fence r q (ca_fence c) \<and> \<not> rv_disabled r)"

definition evolves :: "resolver \<Rightarrow> resolver \<Rightarrow> bool" where
  "evolves r q \<longleftrightarrow> (rv_disabled r \<longrightarrow> rv_disabled q) \<and> sessions_evolve r q \<and> failures_evolve r q
     \<and> (bm_invar (rv_candidates r) \<longrightarrow> bm_invar (rv_candidates q) \<and> candidates_evolve r q)"

lemma session_evolves_refl [simp]: "session_evolves s s"
  by (simp add: session_evolves_def)

lemma session_evolves_trans: "session_evolves s t \<Longrightarrow> session_evolves t u \<Longrightarrow> session_evolves s u"
  by (simp add: session_evolves_def)

lemma evolves_refl [simp]: "evolves r r"
  by (auto simp: evolves_def sessions_evolve_def failures_evolve_def candidates_evolve_def)

lemma sessions_evolve_trans: "sessions_evolve r q \<Longrightarrow> sessions_evolve q p \<Longrightarrow> sessions_evolve r p"
  unfolding sessions_evolve_def by (meson session_evolves_trans)

lemma failures_evolve_trans:
  assumes "failures_evolve r q" "failures_evolve q p" "sessions_evolve r q" "sessions_evolve q p"
  shows "failures_evolve r p"
  unfolding failures_evolve_def
proof (intro allI impI)
  fix home assume failing: "bm_get (rv_home_failures r) home \<noteq> None"
  let ?lost = "\<forall>session s t. bm_get (rv_sessions r) (home, session) = Some s \<longrightarrow>
          bm_get (rv_sessions p) (home, session) = Some t \<longrightarrow> se_trust t = TrustUnknown"
  show "bm_get (rv_home_failures p) home \<noteq> None \<or> ?lost"
  proof (cases ?lost)
    case False
    then obtain session s u where s: "bm_get (rv_sessions r) (home, session) = Some s"
      "bm_get (rv_sessions p) (home, session) = Some u" "se_trust u \<noteq> TrustUnknown" by blast
    obtain t where t: "bm_get (rv_sessions q) (home, session) = Some t" "session_evolves t u"
      using assms(3,4) s(1,2) unfolding sessions_evolve_def by (metis option.inject)
    then have "se_trust t \<noteq> TrustUnknown" using s(3) by (auto simp: session_evolves_def)
    then have "bm_get (rv_home_failures q) home \<noteq> None"
      using assms(1) failing s(1) t(1) unfolding failures_evolve_def by blast
    then show ?thesis
      using assms(2) t(1) s(2,3) unfolding failures_evolve_def by blast
  qed blast
qed

lemma candidates_evolve_trans:
  assumes "candidates_evolve r q" "candidates_evolve q p" "rv_disabled r \<longrightarrow> rv_disabled q"
  shows "candidates_evolve r p"
proof -
  have le: "rv_next_candidate r \<le> rv_next_candidate q" "rv_next_candidate q \<le> rv_next_candidate p"
    using assms(1,2) by (simp_all add: candidates_evolve_def)
  have "(\<exists>b. bm_get (rv_candidates r) k = Some b \<and> ca_fence b = ca_fence c)
      \<or> fresh_fence r p (ca_fence c) \<and> \<not> rv_disabled r" if "bm_get (rv_candidates p) k = Some c" for k c
  proof -
    consider b where "bm_get (rv_candidates q) k = Some b" "ca_fence b = ca_fence c"
      | "fresh_fence q p (ca_fence c)" "\<not> rv_disabled q"
      using assms(2) \<open>bm_get (rv_candidates p) k = Some c\<close> unfolding candidates_evolve_def by blast
    then show ?thesis
    proof cases
      case (1 b)
      then have "(\<exists>a. bm_get (rv_candidates r) k = Some a \<and> ca_fence a = ca_fence c)
          \<or> fresh_fence r q (ca_fence c) \<and> \<not> rv_disabled r"
        using assms(1) unfolding candidates_evolve_def by metis
      then show ?thesis using le(2) unfolding fresh_fence_def by (meson order_trans)
    next
      case 2
      then show ?thesis using le(1) assms(3) unfolding fresh_fence_def by (meson order_le_less_trans)
    qed
  qed
  then show ?thesis using le unfolding candidates_evolve_def by (meson order_trans)
qed

lemma evolves_trans: "evolves r q \<Longrightarrow> evolves q p \<Longrightarrow> evolves r p"
  unfolding evolves_def
  using sessions_evolve_trans failures_evolve_trans candidates_evolve_trans by blast

section \<open>Evolution of the operations\<close>

named_theorems evolve_intros \<open>operations under which the resolver evolves\<close>

lemma sessions_kept: "rv_sessions q = rv_sessions r \<Longrightarrow> sessions_evolve r q"
  by (simp add: sessions_evolve_def)

lemma sessions_inserted:
  "rv_sessions q = bm_insert k t (rv_sessions r) \<Longrightarrow> (\<And>s. bm_get (rv_sessions r) k = Some s \<Longrightarrow> session_evolves s t) \<Longrightarrow>
    sessions_evolve r q"
  by (simp add: sessions_evolve_def bm_get_insert)

lemma sessions_mapped:
  "rv_sessions q = bm_map_values f (rv_sessions r) \<Longrightarrow> (\<And>k s. session_evolves s (f k s)) \<Longrightarrow> sessions_evolve r q"
  by (simp add: sessions_evolve_def bm_get_map_values)

lemma failures_kept:
  "(\<And>home. bm_get (rv_home_failures r) home \<noteq> None \<Longrightarrow> bm_get (rv_home_failures q) home \<noteq> None) \<Longrightarrow>
    failures_evolve r q"
  unfolding failures_evolve_def by blast

text \<open>An operation that starts no candidate.\<close>

lemma evolvesI:
  assumes "rv_disabled r \<Longrightarrow> rv_disabled q" "sessions_evolve r q" "failures_evolve r q"
    and "rv_next_candidate q = rv_next_candidate r"
    and "bm_invar (rv_candidates r) \<Longrightarrow> bm_invar (rv_candidates q)"
    and "\<And>k c. bm_invar (rv_candidates r) \<Longrightarrow> bm_get (rv_candidates q) k = Some c \<Longrightarrow>
      \<exists>b. bm_get (rv_candidates r) k = Some b \<and> ca_fence b = ca_fence c"
  shows "evolves r q"
  using assms by (simp add: evolves_def candidates_evolve_def)

lemma evolves_fields [evolve_intros]:
  "rv_disabled q = rv_disabled r \<Longrightarrow> rv_sessions q = rv_sessions r \<Longrightarrow> rv_home_failures q = rv_home_failures r \<Longrightarrow>
    rv_next_candidate q = rv_next_candidate r \<Longrightarrow> rv_candidates q = rv_candidates r \<Longrightarrow> evolves r q"
  by (rule evolvesI) (auto intro: sessions_kept failures_kept)

lemma evolves_retain [evolve_intros]: "evolves r (retain_candidates p r)"
  by (rule evolvesI)
    (auto simp: retain_candidates_def bm_invar_filter bm_get_filter intro: sessions_kept failures_kept)

lemma evolves_disable [evolve_intros]: "evolves r (disable r)"
  by (rule evolvesI) (auto simp: disable_def bm_invar_def intro: sessions_kept failures_kept)

lemma evolves_cancel [evolve_intros]: "evolves r (cancel owner r)"
proof (cases "bm_get (rv_candidates r) owner")
  case (Some c)
  show ?thesis
    by (rule evolvesI)
      (auto simp: cancel_def Some bm_invar_remove bm_get_remove intro: sessions_kept failures_kept split: if_splits)
qed (simp add: cancel_def)

lemma evolves_set_candidate [evolve_intros]:
  "bm_get (rv_candidates r) owner = Some b \<Longrightarrow> ca_fence c = ca_fence b \<Longrightarrow> evolves r (set_candidate owner c r)"
  by (rule evolvesI)
    (auto simp: set_candidate_def bm_invar_insert bm_get_insert intro: sessions_kept failures_kept split: if_splits)

lemma evolves_unknown [evolve_intros]: "evolves r (mark_unknown home session r)"
proof -
  define q where "q = r\<lparr>rv_session_start_unobserved :=
    (if bm_get (rv_sessions r) (home, session) = None then saturating_succ (rv_session_start_unobserved r)
     else rv_session_start_unobserved r)\<rparr>"
  define p where "p = q\<lparr>rv_sessions := bm_insert (home, session)
    ((case bm_get (rv_sessions r) (home, session) of None \<Rightarrow> unknown_session | Some s \<Rightarrow> s)\<lparr>se_trust := TrustUnknown\<rparr>)
    (rv_sessions r)\<rparr>"
  have "evolves r q" by (rule evolves_fields) (simp_all add: q_def)
  moreover have "evolves q p"
  proof (rule evolvesI)
    show "sessions_evolve q p"
      by (rule sessions_inserted) (auto simp: p_def q_def session_evolves_def)
  qed (auto simp: p_def q_def intro: failures_kept)
  ultimately have "evolves r p" by (rule evolves_trans)
  have "mark_unknown home session r = disable q \<or> mark_unknown home session r =
      retain_candidates (\<lambda>(_, c). fe_home (ca_fence c) \<noteq> home \<or> fe_session (ca_fence c) \<noteq> session) p"
    by (simp add: mark_unknown_def q_def p_def Let_def)
  then show ?thesis
  proof
    assume "mark_unknown home session r = disable q"
    then show ?thesis using evolves_trans [OF \<open>evolves r q\<close> evolves_disable] by simp
  next
    assume "mark_unknown home session r =
      retain_candidates (\<lambda>(_, c). fe_home (ca_fence c) \<noteq> home \<or> fe_session (ca_fence c) \<noteq> session) p"
    then show ?thesis using evolves_trans [OF \<open>evolves r p\<close> evolves_retain] by simp
  qed
qed

lemma evolves_journal_failed [evolve_intros]: "evolves r (journal_failed home session now r)"
proof (cases home)
  case (Some h)
  show ?thesis
  proof (cases session)
    case None
    let ?q = "r\<lparr>rv_next_failure := saturating_succ (rv_next_failure r),
      rv_home_failures := bm_insert h (saturating_succ (rv_next_failure r), now) (rv_home_failures r)\<rparr>"
    have "evolves r ?q"
      by (rule evolvesI) (auto simp: bm_get_insert intro: sessions_kept failures_kept)
    then have "evolves r (retain_candidates p ?q)" for p
      using evolves_retain by (rule evolves_trans)
    then show ?thesis
      using Some None evolves_disable by (simp add: journal_failed_def Let_def)
  qed (use Some in \<open>simp add: journal_failed_def evolves_unknown\<close>)
qed (simp add: journal_failed_def evolves_disable)

lemma evolves_recovery_due: "evolves r (fst (recovery_due now r))"
proof (rule evolvesI)
  have "bm_get (map (\<lambda>(home, ticket, due). (home, ticket, if now < due then due else now + milliseconds 250)) m) home
      \<noteq> None" if "bm_get m home \<noteq> None" for home and m :: "(str \<times> u64 \<times> nat) list"
    using that by (induction m) auto
  then show "failures_evolve r (fst (recovery_due now r))"
    by (intro failures_kept) (simp add: recovery_due_def)
qed (auto simp: recovery_due_def intro: sessions_kept)

lemma evolves_recovered: "evolves r (recovered home ticket r)"
proof -
  let ?q = "r\<lparr>rv_home_failures := bm_remove home (rv_home_failures r),
      rv_sessions := bm_map_values (\<lambda>(key, _) s. if key = home then s\<lparr>se_trust := TrustUnknown\<rparr> else s) (rv_sessions r)\<rparr>"
  have "evolves r ?q"
  proof (rule evolvesI)
    show "sessions_evolve r ?q"
      by (rule sessions_mapped) (auto simp: session_evolves_def)
    show "failures_evolve r ?q"
      unfolding failures_evolve_def
      by (auto simp: bm_get_remove bm_get_map_values)
  qed auto
  then have "evolves r (retain_candidates p ?q)" for p
    using evolves_retain by (rule evolves_trans)
  then show ?thesis
    by (simp add: recovered_def split: option.split)
qed

lemma evolves_invalidate [evolve_intros]: "evolves r (invalidate_owner owner r)"
proof -
  let ?q = "(cancel owner r)\<lparr>rv_sessions := bm_map_values (\<lambda>_ s. if owned_by owner s then s\<lparr>se_trust := TrustUnknown\<rparr> else s)
       (rv_sessions (cancel owner r))\<rparr>"
  have "evolves (cancel owner r) ?q"
  proof (rule evolvesI)
    show "sessions_evolve (cancel owner r) ?q"
      by (rule sessions_mapped) (auto simp: session_evolves_def)
  qed (auto intro: failures_kept)
  then show ?thesis
    using evolves_trans [OF evolves_cancel] by (simp add: invalidate_owner_def Let_def)
qed

lemma sessions_kept_none:
  "bm_get (rv_sessions (cancel owner r)) k = bm_get (rv_sessions r) k"
  "bm_get (rv_sessions (invalidate_owner owner r)) k = None \<longleftrightarrow> bm_get (rv_sessions r) k = None"
  by (simp_all add: cancel_def invalidate_owner_def Let_def bm_get_map_values split: option.split)

lemma evolves_start [evolve_intros]: "evolves r (session_start home session source binding journal verified r)"
proof (cases "rv_disabled r \<or> bm_get (rv_home_failures r) home \<noteq> None")
  case False
  show ?thesis
  proof (cases "bm_get (rv_sessions r) (home, session)")
    case None
    define q where "q = (case binding of None \<Rightarrow> r
      | Some b \<Rightarrow> let r = cancel (bn_owner b) r
          in if source \<noteq> SourceStartup then invalidate_owner (bn_owner b) r else r)"
    have "evolves r q"
      unfolding q_def Let_def
      by (auto intro: evolves_cancel evolves_trans [OF evolves_cancel evolves_invalidate] split: option.split)
    moreover have fresh: "bm_get (rv_sessions q) (home, session) = None"
      by (auto simp: q_def Let_def None sessions_kept_none split: option.split)
    moreover have "evolves q (q\<lparr>rv_sessions := bm_insert (home, session) s (rv_sessions q)\<rparr>)" for s
    proof (rule evolvesI)
      show "sessions_evolve q (q\<lparr>rv_sessions := bm_insert (home, session) s (rv_sessions q)\<rparr>)"
      proof (rule sessions_inserted)
        fix old assume "bm_get (rv_sessions q) (home, session) = Some old"
        with fresh show "session_evolves old s" by simp
      qed simp
    qed (auto intro: failures_kept)
    ultimately have "evolves r (q\<lparr>rv_sessions := bm_insert (home, session) s (rv_sessions q)\<rparr>)" for s
      by (blast intro: evolves_trans)
    then show ?thesis
      using False by (simp add: session_start_def None evolves_disable q_def [symmetric])
  qed (use False in \<open>simp add: session_start_def evolves_unknown\<close>)
qed (auto simp: session_start_def)

lemma evolves_orders [evolve_intros]: "evolves r (r\<lparr>rv_orders := m\<rparr>)"
  by (rule evolves_fields) simp_all

lemma evolves_issue [evolve_intros]: "evolves r (issue_order binding home session turn order epoch r)"
  unfolding issue_order_def Let_def
  by (auto intro: evolves_trans [OF evolves_cancel evolves_unknown] evolves_trans [OF evolves_cancel evolves_orders])

lemma evolves_accept: "evolves r (fst (accept_ingress home session ingress r))"
proof -
  define q where "q = (if bm_get (rv_sessions r) (home, session) = None then mark_unknown home session r else r)"
  have rq: "evolves r q" by (simp add: q_def evolves_unknown)
  have "evolves q (fst (accept_ingress home session ingress r))"
  proof (cases "bm_get (rv_sessions q) (home, session)")
    case (Some s)
    let ?p = "q\<lparr>rv_sessions := bm_insert (home, session) (s\<lparr>se_ingresses := bs_insert ingress (se_ingresses s)\<rparr>)
        (rv_sessions q), rv_total_ingresses := rv_total_ingresses q + 1\<rparr>"
    have "evolves q ?p"
    proof (rule evolvesI)
      show "sessions_evolve q ?p"
        by (rule sessions_inserted) (auto simp: Some session_evolves_def)
    qed (auto intro: failures_kept)
    then show ?thesis
      by (simp add: accept_ingress_def q_def [symmetric] Let_def Some evolves_unknown evolves_disable)
  qed (simp add: accept_ingress_def q_def [symmetric])
  with rq show ?thesis by (rule evolves_trans)
qed

lemma unknown_known: "bm_get (rv_sessions (mark_unknown home session r)) (home, session) \<noteq> None
    \<Longrightarrow> rv_disabled (mark_unknown home session r) = rv_disabled r"
  by (simp add: mark_unknown_def Let_def disable_def retain_candidates_def split: if_splits)

lemma accepted_enabled:
  assumes "accept_ingress home session ingress r = (q, Some s)"
  shows "rv_disabled q = rv_disabled r"
proof -
  define p where "p = (if bm_get (rv_sessions r) (home, session) = None then mark_unknown home session r else r)"
  have "bm_get (rv_sessions p) (home, session) \<noteq> None" "rv_disabled q = rv_disabled p"
    using assms by (auto simp: accept_ingress_def p_def [symmetric] Let_def split: option.splits if_splits)
  then show ?thesis by (auto simp: p_def unknown_known split: if_splits)
qed

lemma evolves_started:
  assumes "\<not> rv_disabled r" "rv_next_candidate r \<noteq> - 1" "fe_generation fence = rv_next_candidate r + 1"
  shows "evolves r (start_candidate fence now (r\<lparr>rv_next_candidate := rv_next_candidate r + 1\<rparr>))"
  using assms inc_greater [OF assms(2)]
  by (auto simp: evolves_def candidates_evolve_def fresh_fence_def start_candidate_def bm_invar_insert bm_get_insert
      intro: sessions_kept failures_kept split: if_splits)

lemma evolves_propose:
  "\<not> rv_disabled r \<Longrightarrow> evolves r (fst (propose binding home session ingress turn notice journal now r))"
  by (simp add: propose_def Let_def evolves_disable evolves_started)

lemma evolves_ordinary: "evolves r (fst (ordinary HD input binding session ingress turn notice journal now r))"
proof (cases "input = NonAuthoritativeInput \<or> rv_disabled r")
  case True
  then show ?thesis by (auto simp: ordinary_def intro: evolves_fields)
next
  case False
  let ?home = "HD (bn_locator binding)"
  obtain q state where q: "accept_ingress ?home session ingress r = (q, state)" by fastforce
  have rq: "evolves r q" using evolves_accept [of r ?home session ingress] q by simp
  let ?p = "cancel (bn_owner binding) q"
  have rp: "evolves r ?p" by (rule evolves_trans [OF rq evolves_cancel])
  have enabled: "\<not> rv_disabled ?p" if "state = Some s" for s
    using accepted_enabled q that False by (simp add: cancel_def split: option.split)
  show ?thesis
  proof (cases state)
    case (Some s)
    show ?thesis
      using False q Some evolves_trans [OF rp evolves_unknown] evolves_trans [OF rp evolves_propose [OF enabled [OF Some]]]
      by (simp add: ordinary_def Let_def)
  qed (use False q rq in \<open>simp add: ordinary_def\<close>)
qed

lemma evolves_checked: "evolves r (fst (checked check proven now r))"
proof -
  let ?owner = "bn_owner (fe_binding (oc_fence check))"
  have armed: "evolves r (r\<lparr>rv_orders := m, rv_candidates := bm_insert ?owner (c\<lparr>ca_through := t, ca_stage := Armed,
      ca_created := now, ca_deadline := d\<rparr>) (rv_candidates r), rv_candidates_armed := a\<rparr>)"
    if "bm_get (rv_candidates r) ?owner = Some c" for c m t d a
    by (rule evolvesI)
      (auto simp: that bm_invar_insert bm_get_insert intro: sessions_kept failures_kept split: if_splits)
  show ?thesis
    unfolding checked_def Let_def
    by (auto intro: evolves_cancel evolves_trans [OF evolves_orders evolves_cancel] armed split: option.split)
qed

lemma evolves_note [evolve_intros]: "evolves r (note_retained reason r)" "evolves r (note_journal_failure k r)"
  by (auto simp: note_retained_def note_journal_failure_def intro: evolves_fields split: option.split)

lemma evolves_eligible [evolve_intros]: "evolves r (mark_eligible owner turn is_done interrupted now r)"
  unfolding mark_eligible_def
  by (auto intro: evolves_set_candidate evolves_trans [OF evolves_note(1) evolves_cancel] split: option.split)

lemma evolves_records [evolve_intros]:
  "evolves r (record_eligibility owner run r)" "evolves r (record_evaluated_projection owner projection r)"
  unfolding record_eligibility_def record_evaluated_projection_def
  by (auto intro: evolves_set_candidate split: option.split)

lemma count_expired_fields [simp]:
  "rv_disabled ((count_expired ^^ n) r) = rv_disabled r" "rv_sessions ((count_expired ^^ n) r) = rv_sessions r"
  "rv_home_failures ((count_expired ^^ n) r) = rv_home_failures r" "rv_orders ((count_expired ^^ n) r) = rv_orders r"
  "rv_next_candidate ((count_expired ^^ n) r) = rv_next_candidate r" "rv_generation ((count_expired ^^ n) r) = rv_generation r"
  "rv_candidates ((count_expired ^^ n) r) = rv_candidates r"
  "rv_total_ingresses ((count_expired ^^ n) r) = rv_total_ingresses r"
  by (induction n) (simp_all add: count_expired_def)

lemma probed_candidates: "map (\<lambda>(owner, c). (owner, if sample_due now c then take_sample c else c)) m
    = bm_map_values (\<lambda>_ c. if sample_due now c then take_sample c else c) m"
  by (simp add: bm_map_values_def) (simp add: split_beta)

lemma evolves_probes: "evolves r (fst (probes_due now r))"
  by (rule evolvesI)
    (auto simp: probes_due_def Let_def probed_candidates bm_invar_map_values bm_invar_filter bm_get_map_values
      bm_get_filter take_sample_def intro: sessions_kept failures_kept)

lemma evolves_sample: "evolves r (fst (take_screen_sample fence probe_id sample now r))"
  unfolding take_screen_sample_def Let_def
  by (auto intro: evolves_cancel evolves_set_candidate split: option.split)

lemma evolves_acknowledged [evolve_intros]: "evolves r (orders_acknowledged owner through r)"
  unfolding orders_acknowledged_def Let_def by (rule evolves_trans [OF evolves_cancel evolves_orders])

lemma evolves_mismatch [evolve_intros]: "evolves r (root_mismatch home now r)"
  by (simp add: root_mismatch_def evolves_journal_failed)

lemma evolves_step: "evolves r (resolver_step HD e r)"
  by (cases e)
    (simp_all add: evolve_intros evolves_recovery_due evolves_recovered evolves_ordinary evolves_checked evolves_probes
      evolves_sample)

lemma evolves_run: "evolves r (resolver_run HD es r)"
  by (induction es arbitrary: r) (auto intro: evolves_trans [OF evolves_step])

end
