(* ===== verification/QuestionResolverTrace.thy ===== *)
theory QuestionResolverTrace
  imports QuestionResolverLaws
begin

text \<open>
  What the resolver remembers of its past: every candidate and every resolved order is evidence of
  the events that made it so. An acknowledgement that passes the final guard therefore rests on a
  proof of order for each question and on two separate looks at the screen.
\<close>

section \<open>Where candidates come from\<close>

definition fresh_candidate :: "candidate \<Rightarrow> bool" where
  "fresh_candidate c \<longleftrightarrow> ca_stage c = CheckingOrder \<and> ca_samples c = 0 \<and> ca_consecutive_normal c = 0
     \<and> ca_probe_id c = 0 \<and> \<not> ca_pending c"

definition same_progress :: "candidate \<Rightarrow> candidate \<Rightarrow> bool" where
  "same_progress b c \<longleftrightarrow> ca_samples c = ca_samples b \<and> ca_consecutive_normal c = ca_consecutive_normal b
     \<and> ca_probe_id c = ca_probe_id b \<and> ca_pending c = ca_pending b"

definition candidate_checked :: "resolver_event \<Rightarrow> candidate \<Rightarrow> candidate \<Rightarrow> bool" where
  "candidate_checked e b c \<longleftrightarrow> (\<exists>check proven now. e = Checked check proven now \<and> oc_fence check = ca_fence b)
     \<and> ca_stage c = Armed \<and> same_progress b c"

definition candidate_eligible :: "resolver_event \<Rightarrow> candidate \<Rightarrow> candidate \<Rightarrow> bool" where
  "candidate_eligible e b c \<longleftrightarrow> (\<exists>owner now. e = MarkEligible owner (fe_turn (ca_fence b)) True False now)
     \<and> ca_stage b = Armed \<and> ca_stage c = Probing \<and> same_progress b c"

definition candidate_sampled :: "resolver_event \<Rightarrow> candidate \<Rightarrow> candidate \<Rightarrow> bool" where
  "candidate_sampled e b c \<longleftrightarrow> (\<exists>now. e = ScreenSample (ca_fence b) (ca_probe_id b) SampleNormalComposer now)
     \<and> ca_stage b = Probing \<and> ca_pending b \<and> ca_stage c = Probing \<and> ca_samples c = ca_samples b
     \<and> ca_probe_id c = ca_probe_id b \<and> ca_consecutive_normal c = ca_consecutive_normal b + 1
     \<and> (ca_pending c \<longleftrightarrow> ca_consecutive_normal c = 2)"

definition candidate_moves :: "resolver_event \<Rightarrow> candidate \<Rightarrow> candidate \<Rightarrow> bool" where
  "candidate_moves e b c \<longleftrightarrow> ca_fence c = ca_fence b
     \<and> (ca_stage c = ca_stage b \<and> same_progress b c \<or> candidate_checked e b c \<or> candidate_eligible e b c
        \<or> c = take_sample b \<and> ca_samples b < 3 \<and> \<not> ca_pending b \<or> candidate_sampled e b c)"

lemma candidate_moves_same [simp]: "candidate_moves e c c"
  by (simp add: candidate_moves_def same_progress_def)

definition origin :: "resolver_event \<Rightarrow> resolver \<Rightarrow> resolver \<Rightarrow> bool" where
  "origin e r q \<longleftrightarrow> (\<forall>k c. bm_get (rv_candidates q) k = Some c \<longrightarrow>
     fresh_candidate c \<or> (\<exists>b. bm_get (rv_candidates r) k = Some b \<and> candidate_moves e b c))"

definition fewer :: "resolver \<Rightarrow> resolver \<Rightarrow> bool" where
  "fewer r q \<longleftrightarrow> (\<forall>k c. bm_get (rv_candidates q) k = Some c \<longrightarrow> bm_get (rv_candidates r) k = Some c)
     \<and> rv_orders q = rv_orders r"

lemma fewer_refl [simp]: "fewer r r"
  by (simp add: fewer_def)

lemma fewer_trans: "fewer r q \<Longrightarrow> fewer q p \<Longrightarrow> fewer r p"
  by (simp add: fewer_def)

lemma fewer_origin: "fewer r q \<Longrightarrow> origin e r q"
  by (auto simp: fewer_def origin_def)

lemma fewer_before: "fewer r q \<Longrightarrow> origin e q p \<Longrightarrow> origin e r p"
  unfolding fewer_def origin_def by blast

lemma fewer_fields:
  "rv_candidates q = rv_candidates r \<Longrightarrow> rv_orders q = rv_orders r \<Longrightarrow> fewer r q"
  by (simp add: fewer_def)

lemma fewer_sessions: "fewer r q \<Longrightarrow> fewer r (q\<lparr>rv_sessions := m\<rparr>)"
  by (simp add: fewer_def)

lemma fewer_retain: "bm_invar (rv_candidates r) \<Longrightarrow> fewer r (retain_candidates p r)"
  by (auto simp: fewer_def retain_candidates_def bm_get_filter)

lemma fewer_disable: "fewer r (disable r)"
  by (simp add: fewer_def disable_def)

lemma fewer_cancel: "fewer r (cancel owner r)"
  by (cases "bm_get (rv_candidates r) owner") (auto simp: fewer_def cancel_def bm_get_remove split: if_splits)

lemma fewer_unknown:
  assumes "bm_invar (rv_candidates r)" shows "fewer r (mark_unknown home session r)"
  using assms by (auto simp: fewer_def mark_unknown_def Let_def disable_def retain_candidates_def bm_get_filter)

lemma fewer_failed: "bm_invar (rv_candidates r) \<Longrightarrow> fewer r (journal_failed home session now r)"
  by (cases home; cases session)
    (auto simp: journal_failed_def Let_def fewer_disable fewer_unknown, auto simp: fewer_def retain_candidates_def bm_get_filter)

lemma fewer_recovered: "bm_invar (rv_candidates r) \<Longrightarrow> fewer r (recovered home ticket r)"
  by (auto simp: recovered_def retain_candidates_def fewer_def bm_get_filter split: option.split)

lemma fewer_invalidate: "fewer r (invalidate_owner owner r)"
  by (simp add: invalidate_owner_def Let_def fewer_sessions fewer_cancel)

lemma fewer_start: "bm_invar (rv_candidates r) \<Longrightarrow> fewer r (session_start home session source binding journal verified r)"
  unfolding session_start_def Let_def
  by (auto intro: fewer_unknown fewer_disable fewer_sessions fewer_cancel
      fewer_trans [OF fewer_cancel fewer_invalidate] split: option.split)

lemma invar_cancel: "bm_invar (rv_candidates r) \<Longrightarrow> bm_invar (rv_candidates (cancel owner r))"
  using evolves_cancel by (auto simp: evolves_def)

lemma fewer_accept:
  assumes "bm_invar (rv_candidates r)" shows "fewer r (fst (accept_ingress home session ingress r))"
proof -
  define q where "q = (if bm_get (rv_sessions r) (home, session) = None then mark_unknown home session r else r)"
  have rq: "fewer r q" "bm_invar (rv_candidates q)"
    using assms evolves_unknown [of r home session] by (auto simp: q_def fewer_unknown evolves_def)
  have "fewer q (fst (accept_ingress home session ingress r))"
    using rq(2) by (auto simp: accept_ingress_def q_def [symmetric] Let_def fewer_unknown fewer_disable fewer_fields
        split: option.split)
  with rq(1) show ?thesis by (rule fewer_trans)
qed

lemma origin_propose: "origin e r (fst (propose binding home session ingress turn notice journal now r))"
  by (auto simp: propose_def Let_def fewer_origin fewer_disable)
    (auto simp: origin_def start_candidate_def bm_get_insert fresh_candidate_def split: if_splits intro: exI [where x = "_ :: candidate"])

lemma origin_ordinary:
  assumes "bm_invar (rv_candidates r)"
  shows "origin e r (fst (ordinary HD input binding session ingress turn notice journal now r))"
proof (cases "input = NonAuthoritativeInput \<or> rv_disabled r")
  case True
  then show ?thesis by (auto simp: ordinary_def fewer_def intro: fewer_origin)
next
  case False
  let ?home = "HD (bn_locator binding)"
  obtain q state where q: "accept_ingress ?home session ingress r = (q, state)" by fastforce
  have rq: "fewer r q" using fewer_accept [OF assms, of ?home session ingress] q by simp
  have iq: "bm_invar (rv_candidates q)"
    using evolves_accept [of r ?home session ingress] q assms by (simp add: evolves_def)
  let ?p = "cancel (bn_owner binding) q"
  have rp: "fewer r ?p" by (rule fewer_trans [OF rq fewer_cancel])
  show ?thesis
    using False q fewer_origin [OF rq] fewer_origin [OF fewer_trans [OF rp fewer_unknown [OF invar_cancel [OF iq]]]]
      fewer_before [OF rp origin_propose]
    by (auto simp: ordinary_def Let_def split: option.split)
qed


lemma origin_checked:
  assumes "e = Checked check proven now" shows "origin e r (fst (checked check proven now r))"
proof -
  let ?owner = "bn_owner (fe_binding (oc_fence check))"
  show ?thesis
  proof (cases "fst (checked check proven now r) = r")
    case False
    then have current: "fence_current r (oc_fence check)" by (auto simp: checked_def Let_def split: if_splits)
    then obtain b where b: "bm_get (rv_candidates r) ?owner = Some b" "ca_fence b = oc_fence check"
      by (auto simp: fence_current_def split: option.splits)
    have dropped: "origin e r (cancel ?owner (r\<lparr>rv_orders := m\<rparr>))" for m
      by (auto simp: origin_def cancel_def b(1) bm_get_remove)
    have armed: "candidate_checked e b (b\<lparr>ca_through := t, ca_stage := Armed, ca_created := now, ca_deadline := d\<rparr>)"
      for t d
      using assms b(2) by (auto simp: candidate_checked_def same_progress_def)
    have "origin e r (r\<lparr>rv_orders := m, rv_candidates := bm_insert ?owner
        (b\<lparr>ca_through := t, ca_stage := Armed, ca_created := now, ca_deadline := d\<rparr>) (rv_candidates r),
        rv_candidates_armed := a\<rparr>)" for m t d a
      using armed by (auto simp: origin_def bm_get_insert candidate_moves_def same_progress_def b(1))
    then show ?thesis
      using current by (auto simp: checked_def Let_def b(1) dropped intro: fewer_origin fewer_cancel)
  qed (simp add: fewer_origin)
qed

lemma origin_set:
  "bm_get (rv_candidates r) owner = Some b \<Longrightarrow> candidate_moves e b c \<Longrightarrow> origin e r (set_candidate owner c r)"
  by (auto simp: origin_def set_candidate_def bm_get_insert)

lemma origin_eligible:
  assumes "e = MarkEligible owner turn is_done interrupted now"
  shows "origin e r (mark_eligible owner turn is_done interrupted now r)"
proof (cases "bm_get (rv_candidates r) owner")
  case (Some b)
  have "fewer r (cancel owner (note_retained reason r))" for reason
    by (rule fewer_trans [OF _ fewer_cancel]) (simp add: note_retained_def fewer_def)
  then have "origin e r (cancel owner (note_retained reason r))" for reason by (rule fewer_origin)
  moreover have "candidate_moves e b (b\<lparr>ca_stage := Probing, ca_deadline := d, ca_next_sample := n\<rparr>)"
    if "ca_stage b = Armed" "is_done" "\<not> interrupted" "fe_turn (ca_fence b) = turn" for d n
    using that assms by (auto simp: candidate_moves_def candidate_eligible_def same_progress_def)
  ultimately show ?thesis
    using Some by (auto simp: mark_eligible_def intro: origin_set fewer_origin)
qed (simp add: mark_eligible_def fewer_origin)

lemma origin_records:
  "origin e r (record_eligibility owner run r)" "origin e r (record_evaluated_projection owner projection r)"
  by (auto simp: record_eligibility_def record_evaluated_projection_def candidate_moves_def same_progress_def
      intro: origin_set fewer_origin [OF fewer_refl] split: option.split)

lemma candidate_moves_taken: "sample_due now b \<Longrightarrow> candidate_moves e b (take_sample b)"
  by (simp add: candidate_moves_def sample_due_def take_sample_def)

lemma origin_probes:
  assumes "bm_invar (rv_candidates r)" shows "origin e r (fst (probes_due now r))"
proof -
  have "rv_candidates (fst (probes_due now r)) = bm_map_values (\<lambda>_ c. if sample_due now c then take_sample c else c)
      (filter (\<lambda>(_, c). \<not> ca_deadline c \<le> now) (rv_candidates r))"
    by (simp add: probes_due_def Let_def probed_candidates)
  then show ?thesis
    using assms by (auto simp: origin_def bm_get_map_values bm_get_filter candidate_moves_taken)
qed

lemma origin_sample:
  assumes "e = ScreenSample fence probe_id sample now"
  shows "origin e r (fst (take_screen_sample fence probe_id sample now r))"
proof -
  let ?owner = "bn_owner (fe_binding fence)"
  have "candidate_moves e b (b\<lparr>ca_pending := False, ca_consecutive_normal := ca_consecutive_normal b + 1, ca_pending := True\<rparr>)"
    if "ca_fence b = fence" "ca_stage b = Probing" "ca_probe_id b = probe_id" "ca_pending b"
      "sample = SampleNormalComposer" "ca_consecutive_normal b + 1 = 2" for b
    using that assms by (auto simp: candidate_moves_def candidate_sampled_def)
  moreover have "candidate_moves e b (b\<lparr>ca_pending := False, ca_consecutive_normal := ca_consecutive_normal b + 1, ca_next_sample := n\<rparr>)"
    if "ca_fence b = fence" "ca_stage b = Probing" "ca_probe_id b = probe_id" "ca_pending b"
      "sample = SampleNormalComposer" "ca_consecutive_normal b + 1 \<noteq> 2" for b n
    using that assms by (auto simp: candidate_moves_def candidate_sampled_def)
  ultimately show ?thesis
    by (auto simp: take_screen_sample_def Let_def fence_current_def intro: fewer_origin fewer_cancel origin_set
        split: option.split)
qed

lemma origin_step:
  assumes "bm_invar (rv_candidates r)" shows "origin e r (resolver_step HD e r)"
proof (cases e)
  case (RootMismatch home now)
  then show ?thesis using assms by (simp add: root_mismatch_def fewer_origin fewer_failed)
next
  case (RecoveryDue now)
  then show ?thesis by (simp add: recovery_due_def fewer_origin fewer_fields)
next
  case (IssueOrder binding home session turn order epoch)
  have "origin e (cancel (bn_owner binding) r) (issue_order binding home session turn order epoch r)"
    using fewer_origin [OF fewer_unknown [OF invar_cancel [OF assms]]]
    by (simp add: issue_order_def Let_def) (auto simp: origin_def)
  then show ?thesis using IssueOrder fewer_before [OF fewer_cancel] by simp
next
  case (OrdersAcknowledged owner through)
  have "origin e (cancel owner r) (orders_acknowledged owner through r)"
    by (auto simp: orders_acknowledged_def Let_def origin_def)
  then show ?thesis using OrdersAcknowledged fewer_before [OF fewer_cancel] by simp
next
  case (NoteJournalFailure reason)
  then show ?thesis by (simp add: note_journal_failure_def fewer_origin fewer_fields split: option.split)
next
  case (NoteRetained reason)
  then show ?thesis by (simp add: note_retained_def fewer_origin fewer_fields)
qed (simp_all add: assms fewer_origin fewer_failed fewer_recovered fewer_unknown fewer_start fewer_cancel
    fewer_invalidate origin_ordinary origin_checked origin_eligible origin_records origin_probes origin_sample)

end
