(* ===== verification/QuestionWorkers.thy ===== *)
theory QuestionWorkers
  imports QuestionResolver
begin

text \<open>
  The workers of question notices (\<open>daemon/workers/question.rs\<close>): they read the transcript, look at
  the screen and take the journal's lock outside the serial mutations, and hand back completions.
  What they observe (clock, locks, owner scans, the journal) is the environment of each function.
\<close>

section \<open>The journal's lock\<close>

text \<open>\<open>mutation_busy\<close> and the deadline at each poll; after the last one the mutations are idle.\<close>

fun wait_for_mutation_idle :: "(bool \<times> bool) list \<Rightarrow> retain_reason + unit" where
  "wait_for_mutation_idle [] = Inr ()"
| "wait_for_mutation_idle ((busy, expired) # polls) =
    (if \<not> busy then Inr () else if expired then Inl RetainMutationBusy else wait_for_mutation_idle polls)"

record owner_environment =
  oe_expired :: bool
  oe_verified :: bool
  oe_embedded :: bool
  oe_file :: bool

definition validate_probe_owner :: "owner_environment \<Rightarrow> retain_reason + unit" where
  "validate_probe_owner env =
    (if oe_expired env then Inl RetainDeadline
     else if \<not> oe_verified env \<or> \<not> oe_embedded env \<or> \<not> oe_file env then Inl RetainOwner
     else Inr ())"

record acquire_environment =
  ae_polls :: "(bool \<times> bool) list"
  ae_busy :: bool
  ae_owner :: owner_environment
  ae_busy_verified :: bool
  ae_location :: bool
  ae_lock :: bool
  ae_busy_locked :: bool

datatype admission = WaitBeforeLock | NoWaitAfterCapture

text \<open>One attempt: \<open>None\<close> when it has to be repeated.\<close>

definition acquire_attempt :: "admission \<Rightarrow> acquire_environment \<Rightarrow> (retain_reason + unit) option" where
  "acquire_attempt admission env =
    (case (if admission \<noteq> NoWaitAfterCapture then wait_for_mutation_idle (ae_polls env)
       else if ae_busy env then Inl RetainMutationBusy else Inr ()) of
       Inl e \<Rightarrow> Some (Inl e)
     | Inr _ \<Rightarrow> (case validate_probe_owner (ae_owner env) of
         Inl e \<Rightarrow> Some (Inl e)
       | Inr _ \<Rightarrow>
           if ae_busy_verified env then None
           else if \<not> ae_location env \<or> \<not> ae_lock env then Some (Inl RetainJournalAcquire)
           else if ae_busy_locked env then None
           else Some (Inr ())))"

fun acquire_attempts :: "admission \<Rightarrow> acquire_environment list \<Rightarrow> retain_reason + unit" where
  "acquire_attempts admission [] = Inl RetainMutationBusy"
| "acquire_attempts admission (env # envs) = (case acquire_attempt admission env of
      None \<Rightarrow> acquire_attempts admission envs
    | Some result \<Rightarrow> result)"

definition acquire_for_mutation :: "admission \<Rightarrow> (nat \<Rightarrow> acquire_environment) \<Rightarrow> retain_reason + unit" where
  "acquire_for_mutation admission env =
    acquire_attempts admission (map env [0 ..< (if admission \<noteq> NoWaitAfterCapture then 3 else 1)])"

record evaluation =
  ev_epoch :: u64
  ev_veto :: bool
  ev_session_dirty :: bool

definition acquire_clean_guard :: "order_fence \<Rightarrow> admission \<Rightarrow> (nat \<Rightarrow> acquire_environment) \<Rightarrow> evaluation option
    \<Rightarrow> retain_reason + unit" where
  "acquire_clean_guard fence admission env journal =
    bind_r (acquire_for_mutation admission env) (\<lambda>_. case journal of
      None \<Rightarrow> Inl RetainJournalEvaluation
    | Some evaluation \<Rightarrow>
        if ev_epoch evaluation \<noteq> fe_epoch fence then Inl RetainEpoch
        else if ev_veto evaluation then Inl RetainJournalVeto else Inr ())"

section \<open>Orders\<close>

datatype order_outcome = OutcomeChecked | OutcomeRetained | OutcomeUnknown

text \<open>\<open>co_guard\<close> tells whether the completion carries the journal's lock.\<close>

record order_completion =
  co_check :: order_check
  co_outcome :: order_outcome
  co_reason :: "retain_reason option"
  co_proven :: "str list"
  co_journal :: "evaluation option"
  co_guard :: bool

definition retained_order :: "order_check \<Rightarrow> order_outcome \<Rightarrow> retain_reason \<Rightarrow> order_completion" where
  "retained_order check outcome reason = \<lparr>co_check = check, co_outcome = outcome, co_reason = Some reason,
     co_proven = [], co_journal = None, co_guard = False\<rparr>"

definition proven_turns :: "order_check \<Rightarrow> cursor \<Rightarrow> str list" where
  "proven_turns check c = filter (\<lambda>turn. proves c turn (fe_turn (oc_fence check))) (oc_issued_turns check)"

definition commit_order :: "order_check \<Rightarrow> str list \<Rightarrow> (nat \<Rightarrow> acquire_environment) \<Rightarrow> evaluation option
    \<Rightarrow> order_completion" where
  "commit_order check proven env journal = (case acquire_for_mutation WaitBeforeLock env of
      Inl reason \<Rightarrow> retained_order check (if reason = RetainOwner then OutcomeUnknown else OutcomeRetained) reason
    | Inr _ \<Rightarrow> (case journal of
        None \<Rightarrow> retained_order check OutcomeRetained RetainJournalEvaluation
      | Some evaluation \<Rightarrow>
          if ev_epoch evaluation \<noteq> fe_epoch (oc_fence check) then retained_order check OutcomeUnknown RetainEpoch
          else if ev_veto evaluation then retained_order check OutcomeRetained RetainJournalVeto
          else \<lparr>co_check = check, co_outcome = OutcomeChecked, co_reason = None, co_proven = proven,
            co_journal = Some evaluation, co_guard = True\<rparr>))"

text \<open>One round of the loop: the deadline, \<open>normal_busy\<close> or the next attempt not yet due, and what the
  round would see of the file (from the position that is read on) and of the journal.\<close>

record round_environment =
  re_expired :: bool
  re_wait :: bool
  re_slice :: "u64 \<Rightarrow> slice_environment"
  re_acquire :: "nat \<Rightarrow> acquire_environment"
  re_journal :: "evaluation option"

text \<open>\<open>None\<close>: after these rounds the job still runs.\<close>

fun order_rounds :: "string_decoder \<Rightarrow> (str \<Rightarrow> str) \<Rightarrow> order_check \<Rightarrow> round_environment list \<Rightarrow> nat \<Rightarrow> nat
    \<Rightarrow> cursor \<Rightarrow> cursor \<times> order_completion option" where
  "order_rounds D I check [] remaining attempts c = (c, None)"
| "order_rounds D I check (env # envs) remaining attempts c =
    (if re_expired env \<or> remaining = 0
     then (c, Some (retained_order check OutcomeRetained
       (if remaining = 0 then RetainReaderBudget else RetainReaderDeadline)))
     else if re_wait env then order_rounds D I check envs remaining attempts c
     else case read_slice D I (re_slice env (cu_offset c)) (min remaining SLICE_BYTES) c of
       (c, Inl HistoryUnknown) \<Rightarrow> (c, Some (retained_order check OutcomeUnknown RetainHistoryUnknown))
     | (c, Inl Unavailable) \<Rightarrow> (c, Some (retained_order check OutcomeRetained RetainReaderUnavailable))
     | (c, Inr part) \<Rightarrow>
         let remaining = remaining - sr_bytes part
         in if sr_more part then order_rounds D I check envs remaining attempts c
            else if \<not> sr_partial part \<and> proven_turns check c \<noteq> []
            then (c, Some (commit_order check (proven_turns check c) (re_acquire env) (re_journal env)))
            else if attempts + 1 \<ge> 3 then (c, Some (retained_order check OutcomeRetained RetainOrderUnproven))
            else order_rounds D I check envs remaining (attempts + 1) c)"

definition execute_order_job :: "string_decoder \<Rightarrow> (str \<Rightarrow> str) \<Rightarrow> bool \<Rightarrow> round_environment list \<Rightarrow> order_check
    \<Rightarrow> cursor \<Rightarrow> cursor \<times> order_completion option" where
  "execute_order_job D I embedded envs check c =
    (if cu_locator c \<noteq> bn_locator (fe_binding (oc_fence check)) \<or> \<not> embedded
     then (c, Some (retained_order check OutcomeUnknown RetainHistoryUnknown))
     else order_rounds D I check envs REQUEST_BYTES 0 c)"

section \<open>The order worker\<close>

text \<open>A job with the sessions that are live when it is taken, and its environment.\<close>

record order_job =
  oj_check :: order_check
  oj_live :: "(str \<times> str) list"
  oj_embedded :: bool
  oj_rounds :: "round_environment list"

definition CURSOR_LIMIT :: nat where "CURSOR_LIMIT = 4096"

type_synonym cursors = "((str \<times> str) \<times> cursor) list"

definition order_worker_step :: "string_decoder \<Rightarrow> (str \<Rightarrow> str) \<Rightarrow> order_job \<Rightarrow> cursors
    \<Rightarrow> cursors \<times> order_completion option" where
  "order_worker_step D I job cursors =
    (let cursors = filter (\<lambda>(key, _). key \<in> set (oj_live job)) cursors; check = oj_check job;
         fence = oc_fence check; key = (fe_home fence, fe_session fence)
     in if key \<notin> set (oj_live job) \<or> bm_get cursors key = None \<and> length cursors \<ge> CURSOR_LIMIT
        then (cursors, Some (retained_order check OutcomeUnknown RetainHistoryUnknown))
        else let c = (case bm_get cursors key of
                 None \<Rightarrow> cursor_new (bn_locator (fe_binding fence)) (fe_session fence)
               | Some c \<Rightarrow> c)
          in case execute_order_job D I (oj_embedded job) (oj_rounds job) check c of
             (c, completion) \<Rightarrow> (bm_insert key c cursors, completion))"

fun order_worker :: "string_decoder \<Rightarrow> (str \<Rightarrow> str) \<Rightarrow> order_job list \<Rightarrow> cursors
    \<Rightarrow> cursors \<times> order_completion option list" where
  "order_worker D I [] cursors = (cursors, [])"
| "order_worker D I (job # jobs) cursors = (case order_worker_step D I job cursors of
     (cursors, completion) \<Rightarrow> (case order_worker D I jobs cursors of
       (cursors, completions) \<Rightarrow> (cursors, completion # completions)))"

section \<open>Probes\<close>

definition sample_with_guard :: "(bool \<times> bool) list \<Rightarrow> owner_environment \<Rightarrow> screen_sample
    \<Rightarrow> (nat \<Rightarrow> acquire_environment) \<Rightarrow> evaluation option \<Rightarrow> order_fence \<Rightarrow> screen_sample \<times> (retain_reason + unit)" where
  "sample_with_guard polls owner capture env journal fence =
    (case bind_r (wait_for_mutation_idle polls) (\<lambda>_. validate_probe_owner owner) of
       Inl reason \<Rightarrow> (SampleAmbiguous, Inl reason)
     | Inr _ \<Rightarrow> let guard = acquire_clean_guard fence NoWaitAfterCapture env journal
         in (if is_ok guard then capture else SampleAmbiguous, guard))"

fun probe_reason :: "retain_reason \<Rightarrow> retain_reason" where
  "probe_reason RetainOwner = RetainProbeOwner"
| "probe_reason RetainDeadline = RetainProbeDeadline"
| "probe_reason RetainJournalAcquire = RetainProbeJournalAcquire"
| "probe_reason RetainJournalEvaluation = RetainProbeJournalEvaluation"
| "probe_reason RetainJournalVeto = RetainProbeJournalVeto"
| "probe_reason RetainEpoch = RetainProbeEpoch"
| "probe_reason other = other"

fun commit_reason :: "retain_reason \<Rightarrow> retain_reason" where
  "commit_reason RetainOwner = RetainCommitOwner"
| "commit_reason RetainDeadline = RetainCommitDeadline"
| "commit_reason RetainJournalAcquire = RetainCommitJournalAcquire"
| "commit_reason RetainJournalEvaluation = RetainCommitJournalEvaluation"
| "commit_reason RetainJournalVeto = RetainCommitJournalVeto"
| "commit_reason RetainEpoch = RetainCommitEpoch"
| "commit_reason other = other"

end
