(* ===== verification/TranscriptLaws.thy ===== *)
theory TranscriptLaws
  imports TranscriptCursor
begin

text \<open>
  The cursor against its specification: the fast path over ignored text is invisible, reading in
  slices is reading the concatenation, and what the cursor says of the order of turns is what the
  sequence of records says.
\<close>

section \<open>The fast path\<close>

text \<open>The reader without the fast path.\<close>

fun feed_bytes :: "string_decoder \<Rightarrow> (str \<Rightarrow> str) \<Rightarrow> u8 list \<Rightarrow> cursor \<Rightarrow> cursor \<times> (read_failure + unit)" where
  "feed_bytes D I [] c = (c, Inr ())"
| "feed_bytes D I (b # bs) c = (case feed_cursor D I b c of
     Inl e \<Rightarrow> (c, Inl e)
   | Inr c' \<Rightarrow> feed_bytes D I bs c')"

definition in_ignored_string :: "parser \<Rightarrow> bool" where
  "in_ignored_string p \<longleftrightarrow> (case qp_token p of
     Some (TokenString t) \<Rightarrow> \<not> st_keep t \<and> \<not> st_escape t \<and> st_unicode t = 0 \<and> st_utf8 t = 0
   | _ \<Rightarrow> False)"

lemma plain_bounds:
  "plain_ascii b \<Longrightarrow> \<not> b \<le> 31 \<and> \<not> 194 \<le> b \<and> \<not> 224 \<le> b \<and> \<not> 240 \<le> b \<and> \<not> 128 \<le> b \<and> b \<noteq> 34 \<and> b \<noteq> 92"
  unfolding plain_ascii_def by unat_arith

lemma feed_plain: "in_ignored_string p \<Longrightarrow> plain_ascii b \<Longrightarrow> feed D I b p = Inr (p, None)"
  using plain_bounds [of b]
  by (cases p) (auto simp: in_ignored_string_def feed_def feed_string_def string_finished_def scan_string_def
      keep_byte_def split: option.splits token.splits)

lemma feed_cursor_plain:
  "in_ignored_string (cu_parser c) \<Longrightarrow> plain_ascii b \<Longrightarrow>
    feed_cursor D I b c = Inr (c\<lparr>cu_offset := cu_offset c + 1\<rparr>)"
  by (cases c) (simp add: feed_cursor_def feed_plain)

lemma feed_bytes_plain:
  "in_ignored_string (cu_parser c) \<Longrightarrow> list_all plain_ascii bs \<Longrightarrow>
    feed_bytes D I bs c = (c\<lparr>cu_offset := cu_offset c + of_nat (length bs)\<rparr>, Inr ())"
  by (induction bs arbitrary: c) (simp_all add: feed_cursor_plain algebra_simps)

lemma feed_bytes_append:
  "feed_bytes D I (xs @ ys) c = (case feed_bytes D I xs c of
     (c', Inl e) \<Rightarrow> (c', Inl e)
   | (c', Inr _) \<Rightarrow> feed_bytes D I ys c')"
  by (induction xs arbitrary: c) (auto split: sum.split prod.split)

lemma skipped_plain:
  "skip_ignored_ascii p bs = n \<Longrightarrow> n \<noteq> 0 \<Longrightarrow>
    in_ignored_string p \<and> list_all plain_ascii (take n bs) \<and> n \<le> length bs"
  by (auto simp: skip_ignored_ascii_def in_ignored_string_def list_all_length position_None_iff
      dest!: position_Some split: option.splits token.splits if_splits)

lemma consume_feed_bytes: "consume D I bs c = feed_bytes D I bs c"
proof (induction D I bs c rule: consume.induct)
  case (2 D I b bs c)
  let ?n = "skip_ignored_ascii (cu_parser c) (b # bs)"
  show ?case
  proof (cases "?n = 0")
    case True
    then show ?thesis
      using 2(2) [OF refl] by (auto simp: Let_def split: sum.split)
  next
    case False
    note plain = skipped_plain [OF refl False]
    have "feed_bytes D I (b # bs) c = feed_bytes D I (take ?n (b # bs) @ drop ?n (b # bs)) c"
      by simp
    also have "\<dots> = feed_bytes D I (drop ?n (b # bs)) (c\<lparr>cu_offset := cu_offset c + of_nat ?n\<rparr>)"
      unfolding feed_bytes_append using plain by (simp add: feed_bytes_plain min_absorb2)
    also have "\<dots> = consume D I (drop ?n (b # bs)) (c\<lparr>cu_offset := cu_offset c + of_nat ?n\<rparr>)"
      using 2(1) [OF refl False] by simp
    also have "\<dots> = consume D I (b # bs) c"
      using False by (simp add: Let_def)
    finally show ?thesis ..
  qed
qed simp

section \<open>Slices\<close>

text \<open>The bytes that the reads of a call deliver, as long as none of them fails.\<close>

function slice_data :: "slice_environment \<Rightarrow> nat \<Rightarrow> nat \<Rightarrow> nat \<Rightarrow> u8 list" where
  "slice_data env budget n done =
    (if done \<ge> budget \<or> sl_expired env n then []
     else case sl_read env n of
       None \<Rightarrow> []
     | Some available \<Rightarrow>
         let chunk = take (min (budget - done) READ_BUFFER_BYTES) available
         in if chunk = [] then [] else chunk @ slice_data env budget (Suc n) (done + length chunk))"
  by pat_completeness auto

termination
  by (relation "measure (\<lambda>(_, budget, _, done). budget - done)")
    (auto simp: READ_BUFFER_BYTES_def intro: chunk_progress)

declare slice_data.simps [simp del]

lemma read_loop_feeds:
  "read_loop D I env budget n done c = (c', Inr bytes) \<Longrightarrow>
    feed_bytes D I (slice_data env budget n done) c = (c', Inr ())"
proof (induction D I env budget n "done" c arbitrary: c' bytes rule: read_loop.induct)
  case (1 D I env budget n "done" c)
  show ?case
  proof (cases "done \<ge> budget \<or> sl_expired env n")
    case True
    then show ?thesis
      using 1(2) by (auto simp: read_loop.simps [of D I env budget n] slice_data.simps [of env budget n])
  next
    case False
    then obtain available where some: "sl_read env n = Some available"
      using 1(2) by (auto simp: read_loop.simps [of _ _ _ _ _ "done"] split: option.splits)
    define chunk where "chunk = take (min (budget - done) READ_BUFFER_BYTES) available"
    have loop: "read_loop D I env budget n done c = (if chunk = [] then (c, Inr done)
        else (case consume D I chunk c of (d, Inl e) \<Rightarrow> (d, Inl e)
          | (d, Inr _) \<Rightarrow> read_loop D I env budget (Suc n) (done + length chunk) d))"
      using False some by (simp only: read_loop.simps [of D I env budget n "done" c] Let_def chunk_def if_False option.case)
    have data: "slice_data env budget n done = (if chunk = [] then []
        else chunk @ slice_data env budget (Suc n) (done + length chunk))"
      using False some by (simp only: slice_data.simps [of env budget n "done"] Let_def chunk_def if_False option.case)
    show ?thesis
    proof (cases "chunk = []")
      case True
      then show ?thesis using 1(2) loop data by simp
    next
      case chunk: False
      then obtain d where d: "consume D I chunk c = (d, Inr ())"
        "read_loop D I env budget (Suc n) (done + length chunk) d = (c', Inr bytes)"
        using 1(2) loop by (auto split: prod.splits sum.splits)
      have "feed_bytes D I (slice_data env budget (Suc n) (done + length chunk)) d = (c', Inr ())"
        using 1(1) [OF False some chunk_def chunk d(1) [symmetric] refl d(2)] .
      then show ?thesis
        using data chunk d(1) by (simp add: feed_bytes_append consume_feed_bytes)
    qed
  qed
qed

fun read_slices :: "string_decoder \<Rightarrow> (str \<Rightarrow> str) \<Rightarrow> (slice_environment \<times> nat) list \<Rightarrow> cursor
    \<Rightarrow> read_failure + cursor" where
  "read_slices D I [] c = Inr c"
| "read_slices D I ((env, budget) # calls) c = (case read_slice D I env budget c of
     (c', Inl e) \<Rightarrow> Inl e
   | (c', Inr _) \<Rightarrow> read_slices D I calls c')"

definition slices_data :: "(slice_environment \<times> nat) list \<Rightarrow> u8 list" where
  "slices_data calls = concat (map (\<lambda>(env, budget). slice_data env (min budget SLICE_BYTES) 0 0) calls)"

text \<open>The size of the file that was seen last has no part in what is read.\<close>

definition content :: "cursor \<Rightarrow> cursor" where
  "content c = c\<lparr>cu_size_seen := 0\<rparr>"

lemma apply_record_size: "apply_record r (c\<lparr>cu_size_seen := n\<rparr>) =
    (case apply_record r c of Inl e \<Rightarrow> Inl e | Inr d \<Rightarrow> Inr (d\<lparr>cu_size_seen := n\<rparr>))"
  by (simp add: apply_record_def apply_event_record_def start_turn_def end_turn_def checked_inc_def Let_def
      split: option.split)

lemma feed_cursor_size: "feed_cursor D I b (c\<lparr>cu_size_seen := n\<rparr>) =
    (case feed_cursor D I b c of Inl e \<Rightarrow> Inl e | Inr d \<Rightarrow> Inr (d\<lparr>cu_size_seen := n\<rparr>))"
proof (cases "feed D I b (cu_parser c)")
  case (Inr pr)
  obtain p r where pr: "pr = (p, r)" by (cases pr)
  have "c\<lparr>cu_size_seen := n, cu_parser := p\<rparr> = c\<lparr>cu_parser := p\<rparr>\<lparr>cu_size_seen := n\<rparr>"
    by simp
  then have "apply_record x (c\<lparr>cu_size_seen := n, cu_parser := p\<rparr>) =
      (case apply_record x (c\<lparr>cu_parser := p\<rparr>) of Inl e \<Rightarrow> Inl e | Inr d \<Rightarrow> Inr (d\<lparr>cu_size_seen := n\<rparr>))" for x
    by (metis apply_record_size)
  then show ?thesis
    using Inr by (simp add: pr feed_cursor_def Let_def split: option.split sum.split)
qed (simp add: feed_cursor_def)

lemma feed_bytes_size: "feed_bytes D I bs (c\<lparr>cu_size_seen := n\<rparr>) =
    (case feed_bytes D I bs c of (d, r) \<Rightarrow> (d\<lparr>cu_size_seen := n\<rparr>, r))"
  by (induction bs arbitrary: c) (auto simp: feed_cursor_size split: sum.split prod.split)

lemma read_slice_feeds:
  assumes "read_slice D I env budget c = (c', Inr result)"
  shows "feed_bytes D I (slice_data env (min budget SLICE_BYTES) 0 0) (content c) = (content c', Inr ())"
proof -
  obtain bytes d where "read_loop D I env (min budget SLICE_BYTES) 0 0 c = (d, Inr bytes)"
    "content c' = content d"
    using assms by (auto simp: read_slice_def read_slice_inner_def content_def
        split: prod.splits sum.splits if_splits)
  then show ?thesis
    using read_loop_feeds [of D I env "min budget SLICE_BYTES" 0 0 c d bytes]
    by (simp add: content_def feed_bytes_size)
qed

lemma slices_read_concatenation:
  "read_slices D I calls c = Inr c' \<Longrightarrow>
    feed_bytes D I (slices_data calls) (content c) = (content c', Inr ())"
proof (induction calls arbitrary: c)
  case (Cons call calls)
  obtain env budget where call: "call = (env, budget)" by (cases call)
  obtain d result where "read_slice D I env budget c = (d, Inr result)" "read_slices D I calls d = Inr c'"
    using Cons.prems by (auto simp: call split: prod.splits sum.splits)
  then show ?case
    using read_slice_feeds [of D I env budget c d result] Cons.IH [of d]
    by (simp add: call slices_data_def feed_bytes_append)
qed (simp add: slices_data_def)

section \<open>Records\<close>

text \<open>What the bytes say: the records that the parser completes in them.\<close>

fun parse_bytes :: "string_decoder \<Rightarrow> (str \<Rightarrow> str) \<Rightarrow> u8 list \<Rightarrow> parser
    \<Rightarrow> read_failure + parser \<times> transcript_record list" where
  "parse_bytes D I [] p = Inr (p, [])"
| "parse_bytes D I (b # bs) p = bind_r (feed D I b p) (\<lambda>(p, r).
     bind_r (parse_bytes D I bs p) (\<lambda>(p, rs).
     Inr (p, (case r of None \<Rightarrow> rs | Some r \<Rightarrow> r # rs))))"

lemma parse_bytes_append:
  "parse_bytes D I (xs @ ys) p = bind_r (parse_bytes D I xs p) (\<lambda>(p, rs).
     bind_r (parse_bytes D I ys p) (\<lambda>(p, rs'). Inr (p, rs @ rs')))"
proof (induction xs arbitrary: p)
  case Nil
  then show ?case by (cases "parse_bytes D I ys p") auto
next
  case (Cons x xs)
  have "bind_r (bind_r m f) g = bind_r m (\<lambda>x. bind_r (f x) g)" for m :: "read_failure + parser \<times> transcript_record list"
      and f :: "_ \<Rightarrow> read_failure + parser \<times> transcript_record list" and g :: "_ \<Rightarrow> read_failure + parser \<times> transcript_record list"
    by (cases m) simp_all
  then show ?case
    using Cons.IH by (cases "feed D I x p") (auto split: prod.splits option.splits sum.splits simp: bind_r_def)
qed

text \<open>The history: the records, without the position in the file and the state of the parser.\<close>

definition history :: "cursor \<Rightarrow> cursor" where
  "history c = c\<lparr>cu_offset := 0, cu_size_seen := 0, cu_parser := parser_default\<rparr>"

definition apply_records :: "transcript_record list \<Rightarrow> cursor \<Rightarrow> read_failure + cursor" where
  "apply_records rs c = fold_r (\<lambda>c r. apply_record r c) c rs"

lemma apply_record_history:
  "apply_record r (history c) = (case apply_record r c of Inl e \<Rightarrow> Inl e | Inr d \<Rightarrow> Inr (history d))"
  by (simp add: history_def apply_record_def apply_event_record_def start_turn_def end_turn_def checked_inc_def
      Let_def split: option.split)

lemma history_idem [simp]: "history (history c) = history c" "history (c\<lparr>cu_parser := p\<rparr>) = history c"
  "history (c\<lparr>cu_offset := n\<rparr>) = history c" "history (content c) = history c"
  by (simp_all add: history_def content_def)

lemma apply_record_parser: "apply_record r c = Inr d \<Longrightarrow> cu_parser d = cu_parser c \<and> cu_unknown d = cu_unknown c"
  by (auto simp: apply_record_def apply_event_record_def start_turn_def end_turn_def result_simps Let_def
      split: if_splits option.splits)

lemma feed_cursor_history:
  assumes "feed_cursor D I b c = Inr d"
  shows "\<exists>r. feed D I b (cu_parser c) = Inr (cu_parser d, r)
    \<and> (case r of None \<Rightarrow> history d = history c | Some r \<Rightarrow> apply_record r (history c) = Inr (history d))"
proof -
  obtain p r where f: "feed D I b (cu_parser c) = Inr (p, r)"
    using assms by (auto simp: feed_cursor_def result_simps)
  show ?thesis
  proof (cases r)
    case None
    then show ?thesis using assms f by (auto simp: feed_cursor_def)
  next
    case (Some x)
    then obtain e where e: "apply_record x (c\<lparr>cu_parser := p\<rparr>) = Inr e" "d = e\<lparr>cu_offset := cu_offset e + 1\<rparr>"
      using assms f by (auto simp: feed_cursor_def result_simps)
    then have "apply_record x (history c) = Inr (history d)"
      using apply_record_history [of x "c\<lparr>cu_parser := p\<rparr>"] by simp
    then show ?thesis
      using f Some e apply_record_parser [OF e(1)] by auto
  qed
qed

lemma feed_bytes_history:
  "feed_bytes D I bs c = (d, Inr ()) \<Longrightarrow>
    \<exists>rs. parse_bytes D I bs (cu_parser c) = Inr (cu_parser d, rs) \<and> apply_records rs (history c) = Inr (history d)"
proof (induction bs arbitrary: c)
  case (Cons b bs)
  obtain e where e: "feed_cursor D I b c = Inr e" "feed_bytes D I bs e = (d, Inr ())"
    using Cons.prems by (auto split: sum.splits)
  from feed_cursor_history [OF e(1)] obtain r where r: "feed D I b (cu_parser c) = Inr (cu_parser e, r)"
    "case r of None \<Rightarrow> history e = history c | Some r \<Rightarrow> apply_record r (history c) = Inr (history e)"
    by blast
  from Cons.IH [OF e(2)] obtain rs where "parse_bytes D I bs (cu_parser e) = Inr (cu_parser d, rs)"
    "apply_records rs (history e) = Inr (history d)"
    by blast
  then show ?case
    using r by (auto simp: apply_records_def split: option.splits)
qed (simp add: apply_records_def)

text \<open>Conversely, records that form a history are read from their bytes.\<close>

definition placed :: "parser \<Rightarrow> u64 \<Rightarrow> cursor \<Rightarrow> cursor" where
  "placed p n c = c\<lparr>cu_parser := p, cu_offset := n\<rparr>"

lemma apply_record_placed: "apply_record r (placed p n c) =
    (case apply_record r c of Inl e \<Rightarrow> Inl e | Inr d \<Rightarrow> Inr (placed p n d))"
  by (simp add: placed_def apply_record_def apply_event_record_def start_turn_def end_turn_def checked_inc_def
      Let_def split: option.split)

lemma placed_simps [simp]:
  "cu_parser (placed p n c) = p" "cu_offset (placed p n c) = n" "placed p n (placed q m c) = placed p n c"
  "placed (cu_parser c) (cu_offset c) c = c" "(placed p n c)\<lparr>cu_parser := q\<rparr> = placed q n c"
  "(placed p n c)\<lparr>cu_offset := m\<rparr> = placed p m c"
  by (simp_all add: placed_def)

lemma history_read:
  "parse_bytes D I bs p = Inr (q, rs) \<Longrightarrow> apply_records rs c = Inr d \<Longrightarrow>
    feed_bytes D I bs (placed p n c) = (placed q (n + of_nat (length bs)) d, Inr ())"
proof (induction bs arbitrary: p rs c n)
  case (Cons b bs)
  obtain p1 r rs1 where r: "feed D I b p = Inr (p1, r)" "parse_bytes D I bs p1 = Inr (q, rs1)"
    "rs = (case r of None \<Rightarrow> rs1 | Some r \<Rightarrow> r # rs1)"
    using Cons.prems(1) by (auto simp: result_simps)
  obtain c1 where c1: "feed_cursor D I b (placed p n c) = Inr (placed p1 (n + 1) c1)" "apply_records rs1 c1 = Inr d"
    using Cons.prems(2) r(1,3)
    by (cases r) (auto simp: feed_cursor_def apply_records_def result_simps apply_record_placed)
  show ?case
    using c1(1) Cons.IH [OF r(2) c1(2), of "n + 1"] by (simp add: algebra_simps)
qed (simp add: apply_records_def)

end
