(* ===== verification/TranscriptHistory.thy ===== *)
theory TranscriptHistory
  imports TranscriptLaws
begin

text \<open>
  The turns that a cursor knows against the sequence of records that it has read: what it proves
  of the order of two turns, and when it takes the session for idle, in terms of the records.
\<close>

section \<open>What the history says\<close>

text \<open>The \<open>n\<close>-th record (from 1; the first is the header) is an event of a turn.\<close>

definition event_at :: "transcript_record list \<Rightarrow> nat \<Rightarrow> record_kind \<Rightarrow> str \<Rightarrow> bool" where
  "event_at rs n e i \<longleftrightarrow> 1 < n \<and> n \<le> length rs \<and> tr_kind (rs ! (n - 1)) = KindEvent
     \<and> tr_event (rs ! (n - 1)) = e \<and> tr_turn (rs ! (n - 1)) = Some i"

definition turn_kinds :: "record_kind set" where
  "turn_kinds = {KindStart, KindComplete, KindAbort}"

definition turn_matches :: "transcript_record list \<Rightarrow> str \<Rightarrow> turn_order \<Rightarrow> bool" where
  "turn_matches rs i t \<longleftrightarrow>
     (\<forall>n. event_at rs n KindStart i \<longleftrightarrow> n = unat (to_start t))
   \<and> (\<forall>n. event_at rs n KindComplete i \<longleftrightarrow> (\<exists>w. to_complete t = Some w \<and> n = unat w))
   \<and> (\<forall>n. event_at rs n KindAbort i \<longleftrightarrow> (\<exists>w. to_aborted t = Some w \<and> n = unat w))
   \<and> (\<forall>w. to_complete t = Some w \<longrightarrow> to_error t = tr_error (rs ! (unat w - 1)) \<and> to_start t < w)
   \<and> (to_complete t = None \<longrightarrow> \<not> to_error t)
   \<and> (to_complete t = None \<or> to_aborted t = None)"

definition turns_match :: "transcript_record list \<Rightarrow> (str \<times> turn_order) list \<Rightarrow> bool" where
  "turns_match rs turns \<longleftrightarrow> (\<forall>i. case bm_get turns i of
     None \<Rightarrow> \<forall>n. \<forall>e \<in> turn_kinds. \<not> event_at rs n e i
   | Some t \<Rightarrow> turn_matches rs i t)"

definition history_of :: "transcript_record list \<Rightarrow> cursor \<Rightarrow> bool" where
  "history_of rs c \<longleftrightarrow> unat (cu_ordinal c) = length rs \<and> cu_header c = (rs \<noteq> []) \<and> bm_invar (cu_turns c)
     \<and> turns_match rs (cu_turns c)"

lemma event_at_append: "event_at (rs @ [r]) n e i \<longleftrightarrow> event_at rs n e i
    \<or> n = Suc (length rs) \<and> rs \<noteq> [] \<and> tr_kind r = KindEvent \<and> tr_event r = e \<and> tr_turn r = Some i"
  by (auto simp: event_at_def nth_append le_Suc_eq)

lemma event_at_length: "event_at rs n e i \<Longrightarrow> n \<le> length rs"
  by (simp add: event_at_def)

lemma turn_kinds_simps [simp]: "KindStart \<in> turn_kinds" "KindComplete \<in> turn_kinds" "KindAbort \<in> turn_kinds"
  by (simp_all add: turn_kinds_def)

text \<open>A record that is no event of the turn leaves it as it is.\<close>

lemma turn_matches_other:
  assumes "turn_matches rs i t" and "\<And>e. e \<in> turn_kinds \<Longrightarrow> \<not> event_at (rs @ [r]) (Suc (length rs)) e i"
  shows "turn_matches (rs @ [r]) i t"
proof -
  have same: "event_at (rs @ [r]) n e i \<longleftrightarrow> event_at rs n e i" if "e \<in> turn_kinds" for n e
    using assms(2) [OF that] by (auto simp: event_at_append)
  have "(rs @ [r]) ! (unat w - 1) = rs ! (unat w - 1)" if "to_complete t = Some w" for w
  proof -
    have "event_at rs (unat w) KindComplete i" using assms(1) that by (auto simp: turn_matches_def)
    then show ?thesis by (auto simp: event_at_def nth_append)
  qed
  then show ?thesis
    using assms(1) by (simp add: turn_matches_def same)
qed

lemma turns_match_Some: "turns_match rs turns \<Longrightarrow> bm_get turns i = Some t \<Longrightarrow> turn_matches rs i t"
  unfolding turns_match_def by (drule spec [of _ i]) simp

lemma turns_match_None:
  "turns_match rs turns \<Longrightarrow> bm_get turns i = None \<Longrightarrow> e \<in> turn_kinds \<Longrightarrow> \<not> event_at rs n e i"
  unfolding turns_match_def by (drule spec [of _ i]) simp

lemma turns_match_step:
  assumes "turns_match rs turns" and "\<And>e. e \<in> turn_kinds \<Longrightarrow> \<not> event_at (rs @ [r]) (Suc (length rs)) e i"
  shows "case bm_get turns i of None \<Rightarrow> \<forall>n. \<forall>e \<in> turn_kinds. \<not> event_at (rs @ [r]) n e i
    | Some t \<Rightarrow> turn_matches (rs @ [r]) i t"
proof (cases "bm_get turns i")
  case None
  then show ?thesis
    using turns_match_None [OF assms(1) None] assms(2) by (auto simp: event_at_append)
next
  case (Some t)
  then show ?thesis
    using turn_matches_other [OF turns_match_Some [OF assms(1) Some]] assms(2) by simp
qed

lemma turns_match_other:
  "turns_match rs turns \<Longrightarrow> (\<And>e i. e \<in> turn_kinds \<Longrightarrow> \<not> event_at (rs @ [r]) (Suc (length rs)) e i) \<Longrightarrow>
    turns_match (rs @ [r]) turns"
  unfolding turns_match_def [of "rs @ [r]"] by (intro allI turns_match_step)

lemma started_turn:
  assumes "turns_match rs turns" and "bm_get turns i = None" and "unat n = Suc (length rs)"
    and "rs \<noteq> []" and "tr_kind r = KindEvent" and "tr_event r = KindStart" and "tr_turn r = Some i"
  shows "turns_match (rs @ [r])
    (bm_insert i \<lparr>to_start = n, to_complete = None, to_aborted = None, to_error = False\<rparr> turns)"
  unfolding turns_match_def
proof
  fix j
  show "case bm_get (bm_insert i \<lparr>to_start = n, to_complete = None, to_aborted = None, to_error = False\<rparr> turns) j of
      None \<Rightarrow> \<forall>n. \<forall>e \<in> turn_kinds. \<not> event_at (rs @ [r]) n e j
    | Some t \<Rightarrow> turn_matches (rs @ [r]) j t"
  proof (cases "j = i")
    case True
    have "\<not> event_at rs m e i" if "e \<in> turn_kinds" for m e
      using assms(1,2) that by (rule turns_match_None)
    then show ?thesis
      using True assms(3-7) by (auto simp: bm_get_insert turn_matches_def event_at_append)
  next
    case False
    have "\<not> event_at (rs @ [r]) (Suc (length rs)) e j" for e
      using False assms(7) event_at_length [of rs "Suc (length rs)"] by (auto simp: event_at_append)
    then show ?thesis
      using turns_match_step [OF assms(1)] False by (simp add: bm_get_insert)
  qed
qed

lemma ended_turn:
  assumes "turns_match rs turns" and "bm_get turns i = Some t" and "to_complete t = None" "to_aborted t = None"
    and "unat n = Suc (length rs)" and "rs \<noteq> []" and "tr_kind r = KindEvent"
    and "tr_event r = KindComplete \<and> t' = t\<lparr>to_complete := Some n, to_error := tr_error r\<rparr>
      \<or> tr_event r = KindAbort \<and> t' = t\<lparr>to_aborted := Some n\<rparr>"
    and "tr_turn r = Some i"
  shows "turns_match (rs @ [r]) (bm_insert i t' turns)"
  unfolding turns_match_def
proof
  fix j
  have t: "turn_matches rs i t" using assms(1,2) by (rule turns_match_Some)
  from t have "event_at rs (unat (to_start t)) KindStart i" by (simp add: turn_matches_def)
  then have before: "to_start t < n"
    using event_at_length assms(5) by (auto simp: word_less_nat_alt less_Suc_eq_le)
  show "case bm_get (bm_insert i t' turns) j of
      None \<Rightarrow> \<forall>n. \<forall>e \<in> turn_kinds. \<not> event_at (rs @ [r]) n e j
    | Some t \<Rightarrow> turn_matches (rs @ [r]) j t"
  proof (cases "j = i")
    case True
    then show ?thesis
      using t assms(3-9) before by (auto simp: bm_get_insert turn_matches_def event_at_append nth_append)
  next
    case False
    have "\<not> event_at (rs @ [r]) (Suc (length rs)) e j" for e
      using False assms(9) event_at_length [of rs "Suc (length rs)"] by (auto simp: event_at_append)
    then show ?thesis
      using turns_match_step [OF assms(1)] False by (simp add: bm_get_insert)
  qed
qed


section \<open>The cursor follows the history\<close>

lemma apply_event_follows:
  assumes "apply_event_record r c = Inr d" and "turns_match rs (cu_turns c)" and "bm_invar (cu_turns c)"
    and "rs \<noteq> []" and "unat (cu_ordinal c) = Suc (length rs)"
  shows "turns_match (rs @ [r]) (cu_turns d) \<and> bm_invar (cu_turns d) \<and> cu_ordinal d = cu_ordinal c
    \<and> cu_header d = cu_header c"
proof -
  have skip: "turns_match (rs @ [r]) (cu_turns c)"
    if "tr_kind r \<noteq> KindEvent \<or> tr_event r \<notin> turn_kinds"
    by (rule turns_match_other [OF assms(2)]) (use that in \<open>auto simp: event_at_append dest: event_at_length\<close>)
  consider "d = c" "tr_kind r \<noteq> KindEvent \<or> tr_event r \<notin> turn_kinds"
    | i where "tr_kind r = KindEvent" "tr_event r = KindStart" "tr_turn r = Some i" "start_turn i c = Inr d"
    | i where "tr_kind r = KindEvent" "tr_event r = KindComplete \<or> tr_event r = KindAbort" "tr_turn r = Some i"
      "end_turn i r c = Inr d"
    using assms(1) by (auto simp: apply_event_record_def turn_kinds_def split: if_splits option.splits)
  then show ?thesis
  proof cases
    case 1
    then show ?thesis using skip assms(3) by simp
  next
    case (2 i)
    then show ?thesis
      using started_turn [OF assms(2) _ assms(5,4) 2(1,2,3)] assms(3)
      by (auto simp: start_turn_def bm_invar_insert split: if_splits)
  next
    case (3 i)
    then obtain t where t: "bm_get (cu_turns c) i = Some t" "to_complete t = None" "to_aborted t = None"
      by (auto simp: end_turn_def split: option.splits if_splits)
    let ?t = "if tr_event r = KindComplete then t\<lparr>to_complete := Some (cu_ordinal c), to_error := tr_error r\<rparr>
      else t\<lparr>to_aborted := Some (cu_ordinal c)\<rparr>"
    have "d = c\<lparr>cu_turns := bm_insert i ?t (cu_turns c)\<rparr>"
      using 3(4) t by (simp add: end_turn_def)
    moreover have "turns_match (rs @ [r]) (bm_insert i ?t (cu_turns c))"
      by (rule ended_turn [OF assms(2) t assms(5,4) 3(1) _ 3(3)]) (use 3(2) in auto)
    ultimately show ?thesis
      using assms(3) by (simp add: bm_invar_insert)
  qed
qed

lemma apply_record_follows:
  assumes "apply_record r c = Inr d" and "history_of rs c"
  shows "history_of (rs @ [r]) d"
proof -
  from assms(1) have n: "cu_ordinal c \<noteq> - 1" by (auto simp: apply_record_def result_simps)
  then have len: "unat (cu_ordinal c + 1) = Suc (length rs)"
    using assms(2) by (simp add: unat_inc history_of_def)
  show ?thesis
  proof (cases "cu_header c")
    case False
    then have "d = c\<lparr>cu_ordinal := cu_ordinal c + 1, cu_header := True\<rparr>" "rs = []"
      using assms by (auto simp: apply_record_def result_simps Let_def history_of_def split: if_splits)
    moreover have "turns_match [r] (cu_turns c)"
      using turns_match_other [of "[]" "cu_turns c" r] assms(2) \<open>rs = []\<close>
      by (simp add: history_of_def event_at_def)
    ultimately show ?thesis
      using assms(2) len by (simp add: history_of_def)
  next
    case True
    then have "apply_event_record r (c\<lparr>cu_ordinal := cu_ordinal c + 1\<rparr>) = Inr d"
      using assms(1) by (simp add: apply_record_def result_simps Let_def)
    from apply_event_follows [OF this, of rs] show ?thesis
      using assms(2) len True by (simp add: history_of_def)
  qed
qed

lemma apply_records_follow:
  "apply_records rs' c = Inr d \<Longrightarrow> history_of rs c \<Longrightarrow> history_of (rs @ rs') d"
proof (induction rs' arbitrary: rs c)
  case (Cons r rs')
  then obtain e where "apply_record r c = Inr e" "apply_records rs' e = Inr d"
    by (auto simp: apply_records_def result_simps)
  then show ?case
    using Cons.IH [of e "rs @ [r]"] apply_record_follows Cons.prems(2) by simp
qed (simp add: apply_records_def)

lemma new_history: "history_of [] (history (cursor_new locator digest))"
  by (simp add: history_of_def history_def cursor_new_def bm_invar_def turns_match_def event_at_def)

text \<open>Of a cursor that has read the records from the start of a file.\<close>

definition has_read :: "transcript_record list \<Rightarrow> cursor \<Rightarrow> bool" where
  "has_read rs c \<longleftrightarrow> history_of rs (history c) \<and> \<not> cu_unknown c"

lemma read_slices_unknown: "read_slices D I calls c = Inr d \<Longrightarrow> \<not> cu_unknown c \<Longrightarrow> \<not> cu_unknown d"
proof (induction calls arbitrary: c)
  case (Cons call calls)
  obtain env budget where call: "call = (env, budget)" by (cases call)
  obtain e result where e: "read_slice D I env budget c = (e, Inr result)" "read_slices D I calls e = Inr d"
    using Cons.prems by (auto simp: call split: prod.splits sum.splits)
  have "cu_unknown y = cu_unknown x" if "feed_bytes D I bs x = (y, r)" for bs x y r
    using that
  proof (induction bs arbitrary: x)
    case (Cons b bs)
    then show ?case
      by (auto simp: feed_cursor_def result_simps Let_def dest!: apply_record_parser split: sum.splits option.splits)
  qed simp
  from this [OF read_slice_feeds [OF e(1)]] show ?case
    using Cons.IH [OF e(2)] Cons.prems(2) by (simp add: content_def)
qed simp

lemma content_new: "content (cursor_new locator digest) = cursor_new locator digest"
    "cu_parser (cursor_new locator digest) = parser_default" "cu_parser (content c) = cu_parser c"
  by (simp_all add: content_def cursor_new_def)

lemma slices_history:
  assumes "read_slices D I calls (cursor_new locator digest) = Inr c"
  shows "\<exists>rs. parse_bytes D I (slices_data calls) parser_default = Inr (cu_parser c, rs) \<and> has_read rs c"
proof -
  obtain rs where rs: "parse_bytes D I (slices_data calls) parser_default = Inr (cu_parser c, rs)"
    "apply_records rs (history (cursor_new locator digest)) = Inr (history c)"
    using feed_bytes_history [OF slices_read_concatenation [OF assms]]
    by (auto simp: content_new)
  have "has_read rs c"
    using apply_records_follow [OF rs(2) new_history] read_slices_unknown [OF assms]
    by (simp add: has_read_def cursor_new_def)
  then show ?thesis using rs(1) by blast
qed

section \<open>The order of turns\<close>

definition ordered_turns :: "transcript_record list \<Rightarrow> str \<Rightarrow> str \<Rightarrow> bool" where
  "ordered_turns rs issued submitted \<longleftrightarrow> (\<exists>s e n. event_at rs s KindStart issued
     \<and> event_at rs e KindComplete issued \<and> \<not> tr_error (rs ! (e - 1))
     \<and> event_at rs n KindStart submitted \<and> s < e \<and> e < n)"

lemma has_read_turns: "has_read rs c \<Longrightarrow> turns_match rs (cu_turns c) \<and> cu_header c = (rs \<noteq> []) \<and> \<not> cu_unknown c"
  by (simp add: has_read_def history_of_def history_def)

lemma proves_iff_ordered:
  assumes "has_read rs c"
  shows "proves c issued submitted \<longleftrightarrow> issued \<noteq> submitted \<and> ordered_turns rs issued submitted"
proof -
  note c = has_read_turns [OF assms]
  note m = c [THEN conjunct1]
  have nonempty: "rs \<noteq> []" if "event_at rs n e i" for n e i
    using that by (auto simp: event_at_def)
  show ?thesis
  proof (cases "bm_get (cu_turns c) issued")
    case None
    then show ?thesis
      using turns_match_None [OF m None, of KindStart] by (auto simp: proves_def ordered_turns_def)
  next
    case a: (Some a)
    note A = turns_match_Some [OF m a, unfolded turn_matches_def]
    show ?thesis
    proof (cases "bm_get (cu_turns c) submitted")
      case None
      then show ?thesis
        using turns_match_None [OF m None, of KindStart] a by (auto simp: proves_def ordered_turns_def)
    next
      case b: (Some b)
      note B = turns_match_Some [OF m b, unfolded turn_matches_def]
      have "ordered_turns rs issued submitted \<longleftrightarrow> (\<exists>w. to_complete a = Some w \<and> \<not> to_error a \<and> to_aborted a = None
          \<and> to_start a < w \<and> w < to_start b)"
        using A B unfolding ordered_turns_def by (auto simp: word_less_nat_alt)
      moreover have "header_verified c"
        using A c nonempty by (auto simp: header_verified_def)
      ultimately show ?thesis
        using a b by (auto simp: proves_def split: option.splits)
    qed
  qed
qed

section \<open>Idle sessions\<close>

lemma latest_turn_Some:
  "latest_turn ts = Some t \<Longrightarrow> t \<in> set ts \<and> (\<forall>u \<in> set ts. to_start u \<le> to_start t)"
proof (induction ts arbitrary: t)
  case (Cons u ts)
  show ?case
  proof (cases "latest_turn ts")
    case None
    then have "ts = []" by (cases ts) (auto split: option.splits if_splits)
    then show ?thesis using Cons.prems by simp
  next
    case (Some v)
    from Cons.IH [OF Some] show ?thesis using Cons.prems Some by (auto split: if_splits)
  qed
qed simp

lemma latest_turn_None: "latest_turn ts = None \<longleftrightarrow> ts = []"
  by (cases ts) (auto split: option.splits)

lemma turn_entry: "bm_invar m \<Longrightarrow> (i, t) \<in> set m \<longleftrightarrow> bm_get m i = Some t"
  using sorted_wrt_distinct [of "map fst m"] by (auto simp: bm_invar_def)

definition all_turns_over :: "transcript_record list \<Rightarrow> bool" where
  "all_turns_over rs \<longleftrightarrow> (\<forall>i n. event_at rs n KindStart i \<longrightarrow>
     (\<exists>m. event_at rs m KindComplete i \<or> event_at rs m KindAbort i))"

definition latest_turn_completed :: "transcript_record list \<Rightarrow> bool" where
  "latest_turn_completed rs \<longleftrightarrow> (\<exists>i n m. event_at rs n KindStart i
     \<and> (\<forall>j k. event_at rs k KindStart j \<longrightarrow> k \<le> n)
     \<and> event_at rs m KindComplete i \<and> \<not> tr_error (rs ! (m - 1)))"

lemma quiescent_iff:
  assumes "has_read rs c"
  shows "quiescent c \<longleftrightarrow> rs \<noteq> [] \<and> all_turns_over rs"
proof -
  have c: "turns_match rs (cu_turns c)" "cu_header c = (rs \<noteq> [])" "\<not> cu_unknown c" "bm_invar (cu_turns c)"
    using assms by (simp_all add: has_read_def history_of_def history_def)
  have "list_all (\<lambda>(_, turn). to_complete turn \<noteq> None \<or> to_aborted turn \<noteq> None) (cu_turns c) \<longleftrightarrow>
      (\<forall>i t. bm_get (cu_turns c) i = Some t \<longrightarrow> to_complete t \<noteq> None \<or> to_aborted t \<noteq> None)"
    unfolding list_all_iff using turn_entry [OF c(4)] by fastforce
  also have "\<dots> \<longleftrightarrow> all_turns_over rs"
  proof
    assume over: "\<forall>i t. bm_get (cu_turns c) i = Some t \<longrightarrow> to_complete t \<noteq> None \<or> to_aborted t \<noteq> None"
    show "all_turns_over rs"
      unfolding all_turns_over_def
    proof (intro allI impI)
      fix i n assume n: "event_at rs n KindStart i"
      then obtain t where t: "bm_get (cu_turns c) i = Some t"
        using turns_match_None [OF c(1), of i KindStart n] by (cases "bm_get (cu_turns c) i") auto
      from over t consider w where "to_complete t = Some w" | w where "to_aborted t = Some w" by blast
      then show "\<exists>m. event_at rs m KindComplete i \<or> event_at rs m KindAbort i"
        using turns_match_Some [OF c(1) t] unfolding turn_matches_def by cases blast+
    qed
  next
    assume over: "all_turns_over rs"
    show "\<forall>i t. bm_get (cu_turns c) i = Some t \<longrightarrow> to_complete t \<noteq> None \<or> to_aborted t \<noteq> None"
    proof (intro allI impI)
      fix i t assume "bm_get (cu_turns c) i = Some t"
      note T = turns_match_Some [OF c(1) this, unfolded turn_matches_def]
      obtain m where "event_at rs m KindComplete i \<or> event_at rs m KindAbort i"
        using over T unfolding all_turns_over_def by blast
      then show "to_complete t \<noteq> None \<or> to_aborted t \<noteq> None"
        using T by (metis option.distinct(1))
    qed
  qed
  finally show ?thesis
    using c by (simp add: quiescent_def header_verified_def)
qed

text \<open>The session counts as idle exactly when every turn in the transcript is over and the turn that
  was started last was completed without an error.\<close>

lemma idle_iff:
  assumes "read_slices D I calls (cursor_new locator digest) = Inr c"
    and "parse_bytes D I (slices_data calls) parser_default = Inr (p, rs)"
  shows "cursor_idle c \<longleftrightarrow> all_turns_over rs \<and> latest_turn_completed rs"
proof -
  obtain rs' where "parse_bytes D I (slices_data calls) parser_default = Inr (cu_parser c, rs')" "has_read rs' c"
    using slices_history [OF assms(1)] by blast
  then have read: "has_read rs c" using assms(2) by simp
  then have m: "turns_match rs (cu_turns c)" "bm_invar (cu_turns c)"
    by (simp_all add: has_read_def history_of_def history_def)
  let ?completed = "\<lambda>t. to_complete t \<noteq> None \<and> to_aborted t = None \<and> \<not> to_error t"
  have one: "latest_turn_completed rs \<longleftrightarrow> ?completed t"
    if last: "latest_turn (map snd (cu_turns c)) = Some t" for t
  proof -
    obtain i where i: "bm_get (cu_turns c) i = Some t"
      and top: "\<And>j u. bm_get (cu_turns c) j = Some u \<Longrightarrow> to_start u \<le> to_start t"
      using latest_turn_Some [OF last] turn_entry [OF m(2)] by fastforce
    note T = turns_match_Some [OF m(1) i, unfolded turn_matches_def]
    have le: "k \<le> unat (to_start t)" if start: "event_at rs k KindStart j" for j k
    proof -
      obtain u where u: "bm_get (cu_turns c) j = Some u"
        using turns_match_None [OF m(1), of j KindStart k] start by (cases "bm_get (cu_turns c) j") auto
      have "k = unat (to_start u)"
        using turns_match_Some [OF m(1) u] start by (simp add: turn_matches_def)
      then show ?thesis using top [OF u] by (simp add: word_le_nat_alt)
    qed
    have same: "j = i" if "event_at rs (unat (to_start t)) KindStart j" for j
    proof -
      have "event_at rs (unat (to_start t)) KindStart i" using T by blast
      then show ?thesis using that by (simp add: event_at_def)
    qed
    show ?thesis
    proof
      assume "latest_turn_completed rs"
      then obtain j n m' where j: "event_at rs n KindStart j" "\<And>l k. event_at rs k KindStart l \<Longrightarrow> k \<le> n"
        "event_at rs m' KindComplete j" "\<not> tr_error (rs ! (m' - 1))"
        unfolding latest_turn_completed_def by blast
      have "event_at rs (unat (to_start t)) KindStart i" using T by blast
      then have "n = unat (to_start t)" using le [OF j(1)] j(2) by (simp add: le_antisym)
      then have "j = i" using same j(1) by simp
      then show "?completed t" using T j(3,4) by auto
    next
      assume "?completed t"
      then show "latest_turn_completed rs"
        unfolding latest_turn_completed_def using T le by blast
    qed
  qed
  have none: "\<not> latest_turn_completed rs" if "cu_turns c = []"
    using turns_match_None [OF m(1), of _ KindStart] that unfolding latest_turn_completed_def by auto
  have nonempty: "rs \<noteq> []" if "latest_turn_completed rs"
    using that by (auto simp: latest_turn_completed_def event_at_def)
  show ?thesis
  proof (cases "latest_turn (map snd (cu_turns c))")
    case None
    then show ?thesis
      using none by (simp add: cursor_idle_def latest_turn_None)
  next
    case (Some t)
    then show ?thesis
      using one [OF Some] nonempty quiescent_iff [OF read] by (auto simp: cursor_idle_def)
  qed
qed

end
