(* ===== verification/QuestionOrders.thy ===== *)
theory QuestionOrders
  imports QuestionWorkers TranscriptHistory "HOL-Library.Sublist"
begin

text \<open>
  What a completed check of orders says of the transcript: the cursors that the order worker keeps
  between its jobs are faithful to the files, whatever reads fail, so every turn in a completion is
  over in the transcript before the submitted turn begins.
\<close>

section \<open>What a read consumes\<close>

lemma feed_bytes_prefix: "feed_bytes D I bs c = (d, r) \<Longrightarrow> \<exists>ps. prefix ps bs \<and> feed_bytes D I ps c = (d, Inr ())"
proof (induction bs arbitrary: c)
  case Nil
  then show ?case by (intro exI [where x = "[]"]) simp
next
  case (Cons b bs)
  show ?case
  proof (cases "feed_cursor D I b c")
    case (Inl e)
    then show ?thesis using Cons.prems by (intro exI [where x = "[]"]) simp
  next
    case (Inr e)
    then obtain ps where "prefix ps bs" "feed_bytes D I ps e = (d, Inr ())" using Cons by auto
    then show ?thesis using Inr by (intro exI [where x = "b # ps"]) simp
  qed
qed

lemma read_loop_prefix: "read_loop D I env budget n done c = (d, r) \<Longrightarrow>
    \<exists>ps. prefix ps (slice_data env budget n done) \<and> feed_bytes D I ps c = (d, Inr ())"
proof (induction D I env budget n "done" c arbitrary: d r rule: read_loop.induct)
  case (1 D I env budget n "done" c)
  have none: "\<exists>ps. prefix ps (slice_data env budget n done) \<and> feed_bytes D I ps c = (c, Inr ())" by (intro exI [where x = "[]"]) simp
  show ?case
  proof (cases "done \<ge> budget \<or> sl_expired env n")
    case True
    then show ?thesis using 1(2) none by (simp add: read_loop.simps [of D I env budget n])
  next
    case False
    show ?thesis
    proof (cases "sl_read env n")
      case None
      then show ?thesis using False 1(2) none by (simp add: read_loop.simps [of D I env budget n])
    next
      case (Some available)
      define chunk where "chunk = take (min (budget - done) READ_BUFFER_BYTES) available"
      have loop: "read_loop D I env budget n done c = (if chunk = [] then (c, Inr done)
          else (case consume D I chunk c of (d, Inl e) \<Rightarrow> (d, Inl e)
            | (d, Inr _) \<Rightarrow> read_loop D I env budget (Suc n) (done + length chunk) d))"
        using False Some by (simp only: read_loop.simps [of D I env budget n "done" c] Let_def chunk_def if_False option.case)
      have data: "slice_data env budget n done = (if chunk = [] then []
          else chunk @ slice_data env budget (Suc n) (done + length chunk))"
        using False Some by (simp only: slice_data.simps [of env budget n "done"] Let_def chunk_def if_False option.case)
      show ?thesis
      proof (cases "chunk = []")
        case True
        then show ?thesis using 1(2) loop none by simp
      next
        case chunk: False
        obtain e s where e: "consume D I chunk c = (e, s)" by fastforce
        then have "feed_bytes D I chunk c = (e, s)" by (simp add: consume_feed_bytes)
        show ?thesis
        proof (cases s)
          case (Inl f)
          then show ?thesis using 1(2) loop chunk e data feed_bytes_prefix [OF \<open>feed_bytes D I chunk c = (e, s)\<close>]
            by (auto intro: prefix_prefix)
        next
          case (Inr u)
          have "read_loop D I env budget (Suc n) (done + length chunk) e = (d, r)"
            using 1(2) loop chunk e Inr by simp
          from 1(1) [OF False Some chunk_def chunk e [symmetric] Inr this]
          obtain ps where ps: "prefix ps (slice_data env budget (Suc n) (done + length chunk))" "feed_bytes D I ps e = (d, Inr ())"
            by blast
          then have "feed_bytes D I (chunk @ ps) c = (d, Inr ())"
            using \<open>feed_bytes D I chunk c = (e, s)\<close> Inr by (simp add: feed_bytes_append)
          then show ?thesis using ps(1) data chunk by (intro exI [where x = "chunk @ ps"]) simp
        qed
      qed
    qed
  qed
qed

section \<open>Faithful cursors\<close>

text \<open>\<open>F\<close> is the contents of the transcripts: files that only grow, in the end. A read from a position
  delivers bytes of the file from there on.\<close>

definition reads_file :: "u8 list \<Rightarrow> (u64 \<Rightarrow> slice_environment) \<Rightarrow> bool" where
  "reads_file file env \<longleftrightarrow> (\<forall>position budget. prefix (slice_data (env position) budget 0 0) (drop (unat position) file))"

text \<open>A cursor is faithful when its turns are those of the records in the bytes of the file that it has
  consumed, or when it has given the history up.\<close>

definition consumed :: "string_decoder \<Rightarrow> (str \<Rightarrow> str) \<Rightarrow> u8 list \<Rightarrow> transcript_record list \<Rightarrow> cursor \<Rightarrow> bool" where
  "consumed D I bs rs c \<longleftrightarrow> parse_bytes D I bs parser_default = Inr (cu_parser c, rs) \<and> has_read rs c
     \<and> cu_offset c = of_nat (length bs)"

definition faithful :: "string_decoder \<Rightarrow> (str \<Rightarrow> str) \<Rightarrow> (transcript_locator \<Rightarrow> u8 list) \<Rightarrow> cursor \<Rightarrow> bool" where
  "faithful D I F c \<longleftrightarrow> cu_unknown c \<or> (\<exists>bs rs. prefix bs (F (cu_locator c)) \<and> consumed D I bs rs c)"

lemma faithful_content: "faithful D I F (content c) = faithful D I F c"
  by (simp add: faithful_def consumed_def has_read_def content_def history_def)

lemma faithful_new: "faithful D I F (cursor_new locator digest)"
  using new_history [of locator digest]
  by (auto simp: faithful_def consumed_def has_read_def cursor_new_def intro!: exI [where x = "[]"])

lemma apply_record_place: "apply_record r c = Inr d \<Longrightarrow> cu_offset d = cu_offset c \<and> cu_locator d = cu_locator c
    \<and> cu_unknown d = cu_unknown c"
  by (auto simp: apply_record_def apply_event_record_def start_turn_def end_turn_def result_simps Let_def
      split: if_splits option.splits)

lemma fed_place: "feed_bytes D I bs c = (d, Inr ()) \<Longrightarrow>
    cu_offset d = cu_offset c + of_nat (length bs) \<and> cu_locator d = cu_locator c \<and> cu_unknown d = cu_unknown c"
proof (induction bs arbitrary: c)
  case (Cons b bs)
  then obtain e where e: "feed_cursor D I b c = Inr e" "feed_bytes D I bs e = (d, Inr ())"
    by (auto split: sum.splits)
  then have "cu_offset e = cu_offset c + 1 \<and> cu_locator e = cu_locator c \<and> cu_unknown e = cu_unknown c"
    by (auto simp: feed_cursor_def result_simps Let_def dest!: apply_record_place split: option.splits)
  then show ?case using Cons.IH [OF e(2)] by (simp add: algebra_simps)
qed simp

lemma fed_consumed:
  assumes "consumed D I bs rs c" "feed_bytes D I ys c = (d, Inr ())"
  shows "\<exists>rs'. consumed D I (bs @ ys) (rs @ rs') d"
proof -
  obtain rs' where rs': "parse_bytes D I ys (cu_parser c) = Inr (cu_parser d, rs')"
    "apply_records rs' (history c) = Inr (history d)"
    using feed_bytes_history [OF assms(2)] by blast
  have "history_of (rs @ rs') (history d)"
    using apply_records_follow [OF rs'(2)] assms(1) by (simp add: consumed_def has_read_def)
  then show ?thesis
    using assms(1) rs'(1) fed_place [OF assms(2)]
    by (intro exI [where x = rs']) (simp add: consumed_def has_read_def parse_bytes_append)
qed

lemma read_slice_faithful:
  assumes "faithful D I F c" and read: "read_slice D I (env (cu_offset c)) budget c = (d, r)"
    and law: "reads_file (F (cu_locator c)) env" "length (F (cu_locator c)) < 2 ^ 64"
  shows "faithful D I F d \<and> cu_locator d = cu_locator c"
proof (cases "cu_unknown c")
  case True
  then show ?thesis using assms by (simp add: read_slice_def)
next
  case False
  let ?env = "env (cu_offset c)" and ?n = "min budget SLICE_BYTES"
  obtain e s where e: "read_slice_inner D I ?env ?n c = (e, s)" by fastforce
  then have d: "d = (if s = Inl HistoryUnknown then e\<lparr>cu_unknown := True\<rparr> else e)"
    using read False by (auto simp: read_slice_def)
  obtain f t where f: "read_loop D I ?env ?n 0 0 c = (f, t)" by fastforce
  obtain ps where ps: "prefix ps (slice_data ?env ?n 0 0)" "feed_bytes D I ps c = (f, Inr ())"
    using read_loop_prefix [OF f] by blast
  obtain bs rs where bs: "prefix bs (F (cu_locator c))" "consumed D I bs rs c"
    using assms(1) False by (auto simp: faithful_def)
  have "unat (cu_offset c) = length bs"
    using bs law(2) prefix_length_le [OF bs(1)] by (simp add: consumed_def unat_of_nat take_bit_nat_eq_self_iff unsigned_of_nat)
  then have "prefix ps (drop (length bs) (F (cu_locator c)))"
    using ps(1) law(1) prefix_order.trans by (fastforce simp: reads_file_def)
  then have "prefix (bs @ ps) (F (cu_locator f))"
    using bs(1) fed_place [OF ps(2)] by (auto simp: prefix_def)
  then have "faithful D I F f"
    using fed_consumed [OF bs(2) ps(2)] by (auto simp: faithful_def)
  moreover have "e = c \<or> content e = content f"
    using e f by (auto simp: read_slice_inner_def content_def split: sum.splits)
  moreover have "cu_locator x = cu_locator y" if "content x = content y" for x y
    using that by (simp add: content_def) (metis cursor.ext_inject cursor.surjective cursor.update_convs(7))
  ultimately have "faithful D I F e \<and> cu_locator e = cu_locator c"
    using assms(1) fed_place [OF ps(2)] faithful_content [of D I F e] faithful_content [of D I F f] by metis
  then show ?thesis using d by (auto simp: faithful_def)
qed

section \<open>Completions of checks\<close>

lemma committed: "co_check (commit_order check proven env journal) = check
    \<and> (co_outcome (commit_order check proven env journal) = OutcomeChecked \<longrightarrow>
       co_proven (commit_order check proven env journal) = proven)"
  by (simp add: commit_order_def retained_order_def split: sum.split option.split)

lemma order_rounds_faithful:
  assumes law: "\<forall>env \<in> set envs. reads_file (F locator) (re_slice env)" "length (F locator) < 2 ^ 64"
  shows "faithful D I F c \<Longrightarrow> cu_locator c = locator \<Longrightarrow>
    order_rounds D I check envs remaining attempts c = (d, completion) \<Longrightarrow> faithful D I F d \<and> cu_locator d = locator
    \<and> (\<forall>done. completion = Some done \<longrightarrow> co_check done = check
        \<and> (co_outcome done = OutcomeChecked \<longrightarrow> co_proven done = proven_turns check d))"
  using law(1)
proof (induction envs arbitrary: c remaining attempts)
  case (Cons env envs)
  obtain e s where e: "read_slice D I (re_slice env (cu_offset c)) (min remaining SLICE_BYTES) c = (e, s)" by fastforce
  have "faithful D I F e \<and> cu_locator e = locator"
    using read_slice_faithful [where env = "re_slice env", OF Cons.prems(1) e] Cons.prems(2,4) law(2) by simp
  then have fe: "faithful D I F e" and le: "cu_locator e = locator" by simp_all
  note IH = Cons.IH [OF _ _ _ ballI [OF Cons.prems(4) [THEN bspec], OF list.set_intros(2)]]
  consider "re_expired env \<or> remaining = 0" | "\<not> (re_expired env \<or> remaining = 0)" "re_wait env"
    | "\<not> (re_expired env \<or> remaining = 0)" "\<not> re_wait env" by blast
  then show ?case
  proof cases
    case 1
    then show ?thesis using Cons.prems by (auto simp: retained_order_def)
  next
    case 2
    then have "order_rounds D I check envs remaining attempts c = (d, completion)" using Cons.prems(3) by simp
    then show ?thesis by (rule IH [OF Cons.prems(1,2)])
  next
    case 3
    then have run: "(d, completion) = (case s of
        Inl HistoryUnknown \<Rightarrow> (e, Some (retained_order check OutcomeUnknown RetainHistoryUnknown))
      | Inl Unavailable \<Rightarrow> (e, Some (retained_order check OutcomeRetained RetainReaderUnavailable))
      | Inr part \<Rightarrow>
         if sr_more part then order_rounds D I check envs (remaining - sr_bytes part) attempts e
         else if \<not> sr_partial part \<and> proven_turns check e \<noteq> []
         then (e, Some (commit_order check (proven_turns check e) (re_acquire env) (re_journal env)))
         else if attempts + 1 \<ge> 3 then (e, Some (retained_order check OutcomeRetained RetainOrderUnproven))
         else order_rounds D I check envs (remaining - sr_bytes part) (attempts + 1) e)"
      using Cons.prems(3) by (simp add: e Let_def split: sum.split read_failure.split)
    show ?thesis
    proof (cases s)
      case (Inl f)
      then show ?thesis using run fe le by (cases f) (simp_all add: retained_order_def)
    next
      case (Inr part)
      consider "sr_more part" | "\<not> sr_more part" "\<not> sr_partial part \<and> proven_turns check e \<noteq> []"
        | "\<not> sr_more part" "\<not> (\<not> sr_partial part \<and> proven_turns check e \<noteq> [])" "attempts + 1 \<ge> 3"
        | "\<not> sr_more part" "\<not> (\<not> sr_partial part \<and> proven_turns check e \<noteq> [])" "\<not> attempts + 1 \<ge> 3" by blast
      then show ?thesis
      proof cases
        case 1
        then show ?thesis using run [unfolded Inr sum.case if_P [OF 1]] IH [OF fe le] by metis
      next
        case 2
        then show ?thesis using run Inr fe le committed by simp
      next
        case 3
        then show ?thesis
          using run [unfolded Inr sum.case if_not_P [OF 3(1)] if_not_P [OF 3(2)] if_P [OF 3(3)]] fe le
          by (simp add: retained_order_def)
      next
        case 4
        then show ?thesis
          using run [unfolded Inr sum.case if_not_P [OF 4(1)] if_not_P [OF 4(2)] if_not_P [OF 4(3)]] IH [OF fe le]
          by metis
      qed
    qed
  qed
qed simp

definition job_locator :: "order_check \<Rightarrow> transcript_locator" where
  "job_locator check = bn_locator (fe_binding (oc_fence check))"

definition job_reads :: "(transcript_locator \<Rightarrow> u8 list) \<Rightarrow> order_job \<Rightarrow> bool" where
  "job_reads F job \<longleftrightarrow> (\<forall>env \<in> set (oj_rounds job). reads_file (F (job_locator (oj_check job))) (re_slice env))"

definition cursors_faithful :: "string_decoder \<Rightarrow> (str \<Rightarrow> str) \<Rightarrow> (transcript_locator \<Rightarrow> u8 list) \<Rightarrow> cursors \<Rightarrow> bool" where
  "cursors_faithful D I F cursors \<longleftrightarrow> (\<forall>e \<in> set cursors. faithful D I F (snd e))"

lemma bm_insert_values: "set (bm_insert k v m) \<subseteq> insert (k, v) (set m)"
  by (induction m) (auto split: if_splits)

text \<open>Of a completion that says checked.\<close>

definition order_justified :: "string_decoder \<Rightarrow> (str \<Rightarrow> str) \<Rightarrow> (transcript_locator \<Rightarrow> u8 list) \<Rightarrow> order_completion \<Rightarrow> bool" where
  "order_justified D I F done \<longleftrightarrow> (co_outcome done = OutcomeChecked \<longrightarrow>
     (\<exists>c. faithful D I F c \<and> cu_locator c = job_locator (co_check done) \<and> co_proven done = proven_turns (co_check done) c))"

lemma order_worker_step_faithful:
  assumes cursors: "cursors_faithful D I F cursors" and step: "order_worker_step D I job cursors = (cursors', completion)"
    and law: "job_reads F job" "\<And>locator. length (F locator) < 2 ^ 64"
  shows "cursors_faithful D I F cursors' \<and> (\<forall>done. completion = Some done \<longrightarrow> order_justified D I F done)"
proof -
  let ?check = "oj_check job"
  let ?key = "(fe_home (oc_fence ?check), fe_session (oc_fence ?check))"
  define kept where "kept = filter (\<lambda>(key, _). key \<in> set (oj_live job)) cursors"
  have kept: "cursors_faithful D I F kept" using cursors by (auto simp: kept_def cursors_faithful_def)
  show ?thesis
  proof (cases "?key \<notin> set (oj_live job) \<or> bm_get kept ?key = None \<and> length kept \<ge> CURSOR_LIMIT")
    case True
    then have "cursors' = kept \<and> completion = Some (retained_order ?check OutcomeUnknown RetainHistoryUnknown)"
      using step by (simp add: order_worker_step_def Let_def kept_def [symmetric])
    then show ?thesis using kept by (simp add: retained_order_def order_justified_def)
  next
    case False
    define c where "c = (case bm_get kept ?key of None \<Rightarrow> cursor_new (job_locator ?check) (fe_session (oc_fence ?check)) | Some c \<Rightarrow> c)"
    have c: "faithful D I F c"
      using kept by (force simp: c_def cursors_faithful_def faithful_new dest: map_of_SomeD split: option.split)
    obtain d s where d: "execute_order_job D I (oj_embedded job) (oj_rounds job) ?check c = (d, s)" by fastforce
    have result: "cursors' = bm_insert ?key d kept" "completion = s"
    proof -
      have "order_worker_step D I job cursors
        = (if ?key \<notin> set (oj_live job) \<or> bm_get kept ?key = None \<and> length kept \<ge> CURSOR_LIMIT
          then (kept, Some (retained_order ?check OutcomeUnknown RetainHistoryUnknown))
          else case execute_order_job D I (oj_embedded job) (oj_rounds job) ?check c of
            (c, completion) \<Rightarrow> (bm_insert ?key c kept, completion))"
        unfolding order_worker_step_def Let_def kept_def c_def job_locator_def by (rule refl)
      also have "\<dots> = (bm_insert ?key d kept, s)" by (simp only: if_not_P [OF False] d prod.case)
      finally show "cursors' = bm_insert ?key d kept" "completion = s" using step by simp_all
    qed
    have "faithful D I F d \<and> (\<forall>done. completion = Some done \<longrightarrow> order_justified D I F done)"
    proof (cases "cu_locator c \<noteq> job_locator ?check \<or> \<not> oj_embedded job")
      case True
      then have "d = c \<and> s = Some (retained_order ?check OutcomeUnknown RetainHistoryUnknown)"
        using d by (auto simp: execute_order_job_def job_locator_def)
      then show ?thesis using c result(2) by (simp add: retained_order_def order_justified_def)
    next
      case False
      then have "order_rounds D I ?check (oj_rounds job) REQUEST_BYTES 0 c = (d, s)" "cu_locator c = job_locator ?check"
        using d by (simp_all add: execute_order_job_def job_locator_def)
      from order_rounds_faithful [OF _ law(2) c this(2,1)] show ?thesis
        using law(1) result(2) by (auto simp: job_reads_def order_justified_def)
    qed
    then show ?thesis
      using kept bm_insert_values [of ?key d kept] result(1) by (auto simp: cursors_faithful_def)
  qed
qed

lemma order_worker_justified:
  assumes "\<And>locator. length (F locator) < 2 ^ 64"
  shows "cursors_faithful D I F cursors \<Longrightarrow> order_worker D I jobs cursors = (cursors', completions) \<Longrightarrow>
    \<forall>job \<in> set jobs. job_reads F job \<Longrightarrow> Some done \<in> set completions \<Longrightarrow> order_justified D I F done"
proof (induction jobs arbitrary: cursors cursors' completions)
  case (Cons job jobs)
  obtain kept completion where step: "order_worker_step D I job cursors = (kept, completion)" by fastforce
  obtain final rest where rest: "order_worker D I jobs kept = (final, rest)" by fastforce
  have "cursors_faithful D I F kept \<and> (\<forall>done. completion = Some done \<longrightarrow> order_justified D I F done)"
    using order_worker_step_faithful [OF Cons.prems(1) step _ assms] Cons.prems(3) by simp
  moreover have "completions = completion # rest" using Cons.prems(2) step rest by simp
  ultimately show ?case using Cons.IH [OF _ rest] Cons.prems(3,4) by auto
qed simp

section \<open>The order of turns\<close>

lemma event_at_more: "event_at rs n e i \<Longrightarrow> event_at (rs @ ys) n e i"
  by (auto simp: event_at_def nth_append)

lemma ordered_turns_more: "ordered_turns rs issued submitted \<Longrightarrow> ordered_turns (rs @ ys) issued submitted"
proof -
  assume "ordered_turns rs issued submitted"
  then obtain s e n where o: "event_at rs s KindStart issued" "event_at rs e KindComplete issued" "\<not> tr_error (rs ! (e - 1))"
      "event_at rs n KindStart submitted" "s < e" "e < n"
    unfolding ordered_turns_def by blast
  then have "\<not> tr_error ((rs @ ys) ! (e - 1))" by (auto simp: event_at_def nth_append)
  with o show ?thesis unfolding ordered_turns_def by (meson event_at_more)
qed

lemma faithful_proves:
  assumes "faithful D I F c" "proves c issued submitted"
    and "parse_bytes D I (F (cu_locator c)) parser_default = Inr (p, rs)"
  shows "issued \<noteq> submitted \<and> ordered_turns rs issued submitted"
proof -
  have "\<not> cu_unknown c" using assms(2) by (simp add: proves_def header_verified_def)
  then obtain bs rs1 where bs: "prefix bs (F (cu_locator c))" "consumed D I bs rs1 c"
    using assms(1) by (auto simp: faithful_def)
  then obtain ys where "F (cu_locator c) = bs @ ys" by (auto simp: prefix_def)
  then obtain rs2 where "rs = rs1 @ rs2"
    using assms(3) bs(2) by (auto simp: parse_bytes_append consumed_def result_simps)
  moreover have "issued \<noteq> submitted \<and> ordered_turns rs1 issued submitted"
    using bs(2) assms(2) proves_iff_ordered by (auto simp: consumed_def)
  ultimately show ?thesis using ordered_turns_more by blast
qed

end
