(* ===== verification/QuestionTheorems.thy ===== *)
theory QuestionTheorems
  imports QuestionResolverTrace QuestionOrders
begin

text \<open>
  The evidence that the resolver's state rests on, over whole runs from its start: for a resolved
  order the check that proved it, for a probing candidate the check, the completed turn and the
  looks at the screen.
\<close>

section \<open>Evidence for orders\<close>

text \<open>The order check of a run that proved the order: the fence of the check was current then, and the turn
  of the order was among those issued and proven.\<close>

definition proof_of_order :: "(transcript_locator \<Rightarrow> str) \<Rightarrow> resolver_event list \<Rightarrow> str \<times> u64 \<Rightarrow> order \<Rightarrow> bool" where
  "proof_of_order HD es key order \<longleftrightarrow> (\<exists>before check proven now later. es = before @ Checked check proven now # later
     \<and> fence_current (resolver_run HD before resolver_default) (oc_fence check)
     \<and> order_proven (resolver_run HD before resolver_default) check proven key order)"

definition issue_of_order :: "resolver_event list \<Rightarrow> str \<times> u64 \<Rightarrow> order \<Rightarrow> bool" where
  "issue_of_order es key order \<longleftrightarrow> (\<exists>binding. IssueOrder binding (or_home order) (or_session order) (or_turn order)
     (snd key) (or_epoch order) \<in> set es \<and> bn_owner binding = fst key)"

definition orders_evident :: "(transcript_locator \<Rightarrow> str) \<Rightarrow> resolver_event list \<Rightarrow> resolver \<Rightarrow> bool" where
  "orders_evident HD es r \<longleftrightarrow> (\<forall>key order. bm_get (rv_orders r) key = Some order \<longrightarrow>
     issue_of_order es key order \<and> (or_resolved order \<longrightarrow> proof_of_order HD es key order))"

lemma proof_of_order_snoc: "proof_of_order HD es key order \<Longrightarrow> proof_of_order HD (es @ fs) key order"
  unfolding proof_of_order_def by fastforce

lemma proof_of_order_cong:
  "or_session o1 = or_session o2 \<Longrightarrow> or_turn o1 = or_turn o2 \<Longrightarrow> or_generation o1 = or_generation o2 \<Longrightarrow>
    or_home o1 = or_home o2 \<Longrightarrow> or_epoch o1 = or_epoch o2 \<Longrightarrow> proof_of_order HD es key o1 = proof_of_order HD es key o2"
  by (simp add: proof_of_order_def order_proven_def order_open_def Let_def)

lemma issue_of_order_snoc: "issue_of_order es key order \<Longrightarrow> issue_of_order (es @ fs) key order"
  by (auto simp: issue_of_order_def)

text \<open>What one event does to the orders.\<close>

definition order_moves :: "resolver_event \<Rightarrow> resolver \<Rightarrow> str \<times> u64 \<Rightarrow> order \<Rightarrow> bool" where
  "order_moves e r key order \<longleftrightarrow> bm_get (rv_orders r) key = Some order
     \<or> issue_of_order [e] key order \<and> \<not> or_resolved order
     \<or> (\<exists>old check proven now. e = Checked check proven now \<and> bm_get (rv_orders r) key = Some old
          \<and> order = old\<lparr>or_resolved := True\<rparr> \<and> fence_current r (oc_fence check) \<and> order_proven r check proven key old)"

lemma unknown_orders [simp]: "rv_orders (mark_unknown home session r) = rv_orders r"
  by (simp add: mark_unknown_def Let_def disable_def retain_candidates_def)

lemma cancel_fields [simp]: "rv_orders (cancel owner r) = rv_orders r" "rv_sessions (cancel owner r) = rv_sessions r"
  "rv_generation (cancel owner r) = rv_generation r"
  by (simp_all add: cancel_def split: option.split)

lemma accepted_orders [simp]: "rv_orders (fst (accept_ingress home session ingress r)) = rv_orders r"
  by (simp add: accept_ingress_def Let_def disable_def split: option.split)

lemma propose_orders [simp]: "rv_orders (fst (propose binding home session ingress turn notice journal now r)) = rv_orders r"
  by (simp add: propose_def Let_def disable_def start_candidate_def)

lemma ordinary_orders: "rv_orders (fst (ordinary HD input binding session ingress turn notice journal now r)) = rv_orders r"
proof -
  obtain q s where q: "accept_ingress (HD (bn_locator binding)) session ingress r = (q, s)" by fastforce
  then have "rv_orders q = rv_orders r"
    using accepted_orders [of "HD (bn_locator binding)" session ingress r] by simp
  then show ?thesis by (simp add: ordinary_def q Let_def split: option.split)
qed

lemma note_orders [simp]: "rv_orders (note_retained reason r) = rv_orders r" "rv_orders (note_journal_failure k r) = rv_orders r"
  by (simp_all add: note_retained_def note_journal_failure_def split: option.split)

lemma eligible_orders: "rv_orders (mark_eligible owner turn is_done interrupted now r) = rv_orders r"
  by (simp add: mark_eligible_def set_candidate_def split: option.split)

lemma failed_orders: "rv_orders (journal_failed home session now r) = rv_orders r"
  by (simp add: journal_failed_def disable_def retain_candidates_def Let_def split: option.split)

lemma start_orders: "rv_orders (session_start home session source binding journal verified r) = rv_orders r"
  by (simp add: session_start_def disable_def invalidate_owner_def Let_def split: option.split)

lemma order_step:
  assumes "bm_get (rv_orders (resolver_step HD e r)) key = Some order"
  shows "order_moves e r key order"
proof (cases e)
  case (IssueOrder binding home session turn number epoch)
  then show ?thesis
    using assms by (auto simp: order_moves_def issue_of_order_def issue_order_def Let_def bm_get_insert split: if_splits)
next
  case (Checked check proven now)
  have "order_moves e r key order" if "bm_get (bm_map_values (\<lambda>key order.
      if order_proven r check proven key order then order\<lparr>or_resolved := True\<rparr> else order) (rv_orders r)) key = Some order"
      "fence_current r (oc_fence check)"
    using that Checked by (auto simp: order_moves_def bm_get_map_values split: if_splits)
  then show ?thesis
    using assms Checked by (auto simp: checked_def Let_def order_moves_def split: if_splits option.splits)
next
  case (OrdersAcknowledged owner through)
  have "rv_orders (orders_acknowledged owner through r)
      = filter (\<lambda>e. (\<lambda>(key, number). key \<noteq> owner \<or> through < number) (fst e)) (rv_orders r)"
    by (auto simp: orders_acknowledged_def Let_def intro!: filter_cong)
  then show ?thesis
    using assms OrdersAcknowledged by (simp only: resolver_step.simps bm_get_filter_key order_moves_def) (simp split: if_splits)
qed (use assms in \<open>simp_all add: order_moves_def ordinary_orders eligible_orders failed_orders start_orders root_mismatch_def
    recovery_due_def recovered_def retain_candidates_def invalidate_owner_def Let_def probes_due_def record_eligibility_def
    record_evaluated_projection_def set_candidate_def take_screen_sample_def split: option.splits prod.splits if_splits\<close>)

lemma orders_evident_step:
  assumes "orders_evident HD es (resolver_run HD es resolver_default)"
  shows "orders_evident HD (es @ [e]) (resolver_run HD (es @ [e]) resolver_default)"
  unfolding orders_evident_def
proof (intro allI impI)
  let ?r = "resolver_run HD es resolver_default"
  fix key order
  assume "bm_get (rv_orders (resolver_run HD (es @ [e]) resolver_default)) key = Some order"
  then have "order_moves e ?r key order" using order_step by simp
  then consider "bm_get (rv_orders ?r) key = Some order" | "issue_of_order [e] key order" "\<not> or_resolved order"
    | old check proven now where "e = Checked check proven now" "bm_get (rv_orders ?r) key = Some old"
      "order = old\<lparr>or_resolved := True\<rparr>" "fence_current ?r (oc_fence check)" "order_proven ?r check proven key old"
    unfolding order_moves_def by blast
  then show "issue_of_order (es @ [e]) key order \<and> (or_resolved order \<longrightarrow> proof_of_order HD (es @ [e]) key order)"
  proof cases
    case 1
    then show ?thesis
      using assms unfolding orders_evident_def by (blast intro: issue_of_order_snoc proof_of_order_snoc)
  next
    case 2
    then show ?thesis by (auto simp: issue_of_order_def)
  next
    case 3
    then have "issue_of_order es key old" using assms unfolding orders_evident_def by blast
    moreover have "proof_of_order HD (es @ [e]) key old"
      unfolding proof_of_order_def using 3 by blast
    ultimately show ?thesis
      using proof_of_order_cong [of order old HD "es @ [e]" key] 3(3) by (auto simp: issue_of_order_def)
  qed
qed

lemma orders_evident_run: "orders_evident HD es (resolver_run HD es resolver_default)"
proof (induction es rule: rev_induct)
  case Nil
  show ?case by (simp add: orders_evident_def resolver_default_def)
qed (rule orders_evident_step)

section \<open>Evidence for candidates\<close>

definition looks :: "resolver_event list \<Rightarrow> candidate \<Rightarrow> u64 list \<Rightarrow> bool" where
  "looks es c ids \<longleftrightarrow> distinct ids
     \<and> (\<forall>i \<in> set ids. (\<exists>now. ScreenSample (ca_fence c) i SampleNormalComposer now \<in> set es)
          \<and> i \<le> ca_probe_id c \<and> (ca_pending c \<and> ca_consecutive_normal c < 2 \<longrightarrow> i < ca_probe_id c))"

definition candidate_evident :: "resolver_event list \<Rightarrow> candidate \<Rightarrow> bool" where
  "candidate_evident es c \<longleftrightarrow>
     (ca_stage c \<noteq> CheckingOrder \<longrightarrow> (\<exists>check proven now. Checked check proven now \<in> set es \<and> oc_fence check = ca_fence c))
     \<and> (ca_stage c = Probing \<longrightarrow> (\<exists>owner now. MarkEligible owner (fe_turn (ca_fence c)) True False now \<in> set es))
     \<and> ca_samples c \<le> 3 \<and> ca_probe_id c = ucast (ca_samples c)
     \<and> (ca_consecutive_normal c \<le> 2 \<longrightarrow> (\<exists>ids. length ids = unat (ca_consecutive_normal c) \<and> looks es c ids))"

lemma fresh_evident: "fresh_candidate c \<Longrightarrow> candidate_evident es c"
  by (simp add: fresh_candidate_def candidate_evident_def looks_def)

lemma looks_mono: "looks es c ids \<Longrightarrow> set es \<subseteq> set fs \<Longrightarrow> looks fs c ids"
  unfolding looks_def by blast

lemma taken_probe: "n < 3 \<Longrightarrow> (ucast n :: u64) < ucast n + 1 \<and> n + 1 \<le> 3 \<and> (ucast (n + 1) :: u64) = ucast n + 1" for n :: u8
proof -
  assume "n < 3"
  then have "unat n < 3" by (simp add: word_less_nat_alt)
  then consider "unat n = unat (0 :: u8)" | "unat n = unat (1 :: u8)" | "unat n = unat (2 :: u8)" by fastforce
  then have "n = 0 \<or> n = 1 \<or> n = 2" unfolding word_unat_eq_iff [symmetric] by cases simp_all
  then show ?thesis by auto
qed

lemma kept_evident:
  assumes b: "candidate_evident es b" and "ca_fence c = ca_fence b" "same_progress b c" "set es \<subseteq> set fs"
    and "ca_stage c \<noteq> CheckingOrder \<Longrightarrow> \<exists>check proven now. Checked check proven now \<in> set fs \<and> oc_fence check = ca_fence b"
    and "ca_stage c = Probing \<Longrightarrow> \<exists>owner now. MarkEligible owner (fe_turn (ca_fence b)) True False now \<in> set fs"
  shows "candidate_evident fs c"
proof -
  have "looks es b ids \<Longrightarrow> looks es c ids" for ids
    using assms(2,3) by (simp add: looks_def same_progress_def)
  then have looks: "looks es b ids \<Longrightarrow> looks fs c ids" for ids
    using looks_mono assms(4) by blast
  have "ca_samples b \<le> 3" "ca_probe_id b = ucast (ca_samples b)"
    "ca_consecutive_normal b \<le> 2 \<longrightarrow> (\<exists>ids. length ids = unat (ca_consecutive_normal b) \<and> looks es b ids)"
    using b by (simp_all add: candidate_evident_def)
  then show ?thesis
    using assms(2,3,5,6) looks unfolding candidate_evident_def same_progress_def by auto
qed

lemma evident_stages:
  assumes "candidate_evident es b" "set es \<subseteq> set fs"
  shows "ca_stage b \<noteq> CheckingOrder \<Longrightarrow> \<exists>check proven now. Checked check proven now \<in> set fs \<and> oc_fence check = ca_fence b"
    and "ca_stage b = Probing \<Longrightarrow> \<exists>owner now. MarkEligible owner (fe_turn (ca_fence b)) True False now \<in> set fs"
  using assms unfolding candidate_evident_def by blast+

lemma moved_evident:
  assumes b: "candidate_evident es b" and moves: "candidate_moves e b c"
  shows "candidate_evident (es @ [e]) c"
proof -
  have fence: "ca_fence c = ca_fence b" using moves by (simp add: candidate_moves_def)
  have more: "set es \<subseteq> set (es @ [e])" by auto
  note stages = evident_stages [OF b more]
  consider "ca_stage c = ca_stage b" "same_progress b c" | "candidate_checked e b c" | "candidate_eligible e b c"
    | "c = take_sample b" "ca_samples b < 3" "\<not> ca_pending b" | "candidate_sampled e b c"
    using moves unfolding candidate_moves_def by blast
  then show ?thesis
  proof cases
    case 1
    then show ?thesis using kept_evident [OF b fence _ more] stages by simp
  next
    case 2
    then have "same_progress b c" "ca_stage c = Armed"
      "\<exists>check proven now. Checked check proven now \<in> set (es @ [e]) \<and> oc_fence check = ca_fence b"
      by (auto simp: candidate_checked_def)
    then show ?thesis using kept_evident [OF b fence _ more] by simp
  next
    case 3
    then have "same_progress b c" "ca_stage b = Armed"
      "\<exists>owner now. MarkEligible owner (fe_turn (ca_fence b)) True False now \<in> set (es @ [e])"
      by (auto simp: candidate_eligible_def)
    then show ?thesis using kept_evident [OF b fence _ more] stages by simp
  next
    case 4
    have probe: "ca_probe_id b = ucast (ca_samples b)" using b by (simp add: candidate_evident_def)
    have "looks (es @ [e]) c ids" if "looks es b ids" for ids
      unfolding looks_def
    proof (intro conjI ballI)
      fix i assume "i \<in> set ids"
      then have "i \<le> ca_probe_id b" "\<exists>now. ScreenSample (ca_fence b) i SampleNormalComposer now \<in> set es"
        using \<open>looks es b ids\<close> by (auto simp: looks_def)
      moreover have "ca_probe_id b < ca_probe_id c"
        using taken_probe [OF 4(2)] 4(1) probe by (simp add: take_sample_def)
      ultimately show "\<exists>now. ScreenSample (ca_fence c) i SampleNormalComposer now \<in> set (es @ [e])"
        "i \<le> ca_probe_id c" "ca_pending c \<and> ca_consecutive_normal c < 2 \<longrightarrow> i < ca_probe_id c"
        using fence by auto
    qed (use \<open>looks es b ids\<close> in \<open>simp add: looks_def\<close>)
    then have "ca_consecutive_normal c \<le> 2 \<longrightarrow>
        (\<exists>ids. length ids = unat (ca_consecutive_normal c) \<and> looks (es @ [e]) c ids)"
      using b 4(1) by (auto simp: candidate_evident_def take_sample_def)
    moreover have "ca_samples c \<le> 3 \<and> ca_probe_id c = ucast (ca_samples c)"
      using taken_probe [OF 4(2)] 4(1) probe by (simp add: take_sample_def)
    moreover have "ca_stage c = ca_stage b" by (simp add: 4(1) take_sample_def)
    ultimately show ?thesis using stages fence unfolding candidate_evident_def by simp
  next
    case 5
    have "\<exists>ids. length ids = unat (ca_consecutive_normal c) \<and> looks (es @ [e]) c ids" if "ca_consecutive_normal c \<le> 2"
    proof (cases "ca_consecutive_normal b = - 1")
      case True
      then show ?thesis using 5 by (auto simp: candidate_sampled_def looks_def intro: exI [where x = "[]"])
    next
      case False
      have count: "ca_consecutive_normal c = ca_consecutive_normal b + 1" using 5 by (simp add: candidate_sampled_def)
      then have "unat (ca_consecutive_normal c) = Suc (unat (ca_consecutive_normal b))" using unat_inc [OF False] by simp
      moreover have "ca_consecutive_normal b < 2"
        using that count inc_greater [OF False] by simp
      moreover from this have "ca_consecutive_normal b \<le> 2" by simp
      then obtain ids where ids: "length ids = unat (ca_consecutive_normal b)" "looks es b ids"
        using b by (auto simp: candidate_evident_def)
      ultimately have "looks (es @ [e]) c (ca_probe_id b # ids)"
        using 5 fence unfolding looks_def candidate_sampled_def by auto
      then show ?thesis
        using ids(1) \<open>unat (ca_consecutive_normal c) = _\<close> by (intro exI [where x = "ca_probe_id b # ids"]) simp
    qed
    moreover have "ca_samples c \<le> 3 \<and> ca_probe_id c = ucast (ca_samples c)" "ca_stage b = Probing" "ca_stage c = Probing"
      using b 5 by (simp_all add: candidate_evident_def candidate_sampled_def)
    ultimately show ?thesis using stages fence unfolding candidate_evident_def by simp
  qed
qed

lemma candidates_invar: "bm_invar (rv_candidates (resolver_run HD es resolver_default))"
  using evolves_run [of resolver_default HD es] by (simp add: evolves_def resolver_default_def bm_invar_def)

lemma candidates_evident:
  "bm_get (rv_candidates (resolver_run HD es resolver_default)) k = Some c \<Longrightarrow> candidate_evident es c"
proof (induction es arbitrary: k c rule: rev_induct)
  case Nil
  then show ?case by (simp add: resolver_default_def)
next
  case (snoc e es)
  then show ?case
    using origin_step [OF candidates_invar, of e HD es] fresh_evident moved_evident
    by (simp add: origin_def) blast
qed

text \<open>
  The properties of the resolver and its workers together: what an automatic acknowledgement rests
  on, and what is never forgotten.
\<close>

section \<open>The prefix of resolved orders\<close>

lemma takeWhile_numbers:
  assumes "takeWhile P (map of_nat [a ..< b]) \<noteq> []" "last (takeWhile P (map of_nat [a ..< b])) = (m :: 'l::len word)"
    and "a \<le> n" "n \<le> unat m" "b \<le> 2 ^ LENGTH('l)"
  shows "P (of_nat n :: 'l word)"
proof -
  let ?ns = "takeWhile P (map of_nat [a ..< b]) :: 'l word list"
  define i where "i = length ?ns - 1"
  have i: "i < length ?ns" using assms(1) by (simp add: i_def)
  then have len: "a + i < b" using length_takeWhile_le [of P "map of_nat [a ..< b]"] by simp
  have at: "?ns ! j = of_nat (a + j)" if "j < length ?ns" for j
    using that length_takeWhile_le [of P "map of_nat [a ..< b]"] by (simp add: takeWhile_nth)
  have "m = of_nat (a + i)" using assms(1,2) at [OF i] by (simp add: last_conv_nth i_def)
  then have "unat m = a + i" using len assms(5) by (simp add: unat_of_nat del: of_nat_add)
  then have "n - a < length ?ns" using assms(3,4) i by simp
  then have "of_nat n \<in> set ?ns" using at [of "n - a"] assms(3) nth_mem [of "n - a" ?ns] by simp
  then show ?thesis by (rule set_takeWhileD [THEN conjunct2])
qed

lemma resolved_prefix_counts:
  assumes "resolved_prefix r fence = through" "fe_acknowledged fence < n" "n \<le> through"
  shows "order_counts r fence n"
proof -
  let ?ns = "takeWhile (order_counts r fence) (order_numbers (fe_acknowledged fence) (fe_latest fence))"
  have "?ns \<noteq> []"
  proof
    assume "?ns = []"
    then have "through = fe_acknowledged fence" using assms(1) by (simp add: resolved_prefix_def)
    then show False using assms(2,3) by simp
  qed
  then have "last ?ns = through" using assms(1) by (simp add: resolved_prefix_def split: list.splits)
  moreover have "Suc (unat (fe_latest fence)) \<le> 2 ^ LENGTH(64)" 
    by (rule Suc_leI, rule unsigned_less)
  ultimately have "order_counts r fence (of_nat (unat n))"
    using takeWhile_numbers [of "order_counts r fence" "Suc (unat (fe_acknowledged fence))" "Suc (unat (fe_latest fence))" through "unat n"]
      \<open>?ns \<noteq> []\<close> assms(2,3) by (simp add: order_numbers_def word_less_nat_alt word_le_nat_alt)
  then show ?thesis by simp
qed

section \<open>Acknowledgements\<close>


text \<open>
  C33. Once the history of a session is unknown, the session never becomes trusted again
  in the life of the resolver, and none of its candidates is current.
\<close>

theorem lost_trust_is_final:
  assumes "bm_get (rv_sessions r) (home, session) = Some s" and "se_trust s = TrustUnknown"
  shows "trust_of home session (resolver_run HD es r) = TrustUnknown
    \<and> (\<forall>fence. fe_home fence = home \<longrightarrow> fe_session fence = session \<longrightarrow> \<not> fence_current (resolver_run HD es r) fence)"
proof -
  obtain t where t: "bm_get (rv_sessions (resolver_run HD es r)) (home, session) = Some t" "se_trust t = TrustUnknown"
    using evolves_run [of r HD es] assms unfolding evolves_def sessions_evolve_def session_evolves_def by blast
  then show ?thesis by (auto simp: trust_of_def fence_current_def session_valid_def)
qed

end
