(* ===== verification/Utf8.thy ===== *)
theory Utf8
  imports RustText
begin

text \<open>
  \<open>std::str::from_utf8\<close>: the decoder reads the bytes by their lengths, and accepts what
  encodes back to the same bytes. So overlong forms, stray continuation bytes and
  surrogates are refused, and exactly the encodings of strings are accepted.
\<close>

definition is_scalar :: "nat \<Rightarrow> bool" where
  "is_scalar c \<longleftrightarrow> c < 0x110000 \<and> \<not> (0xD800 \<le> c \<and> c < 0xE000)"

fun utf8_decode :: "nat list \<Rightarrow> str option" where
  "utf8_decode [] = Some []"
| "utf8_decode (a # bs) =
    (if a < 128 then map_option ((#) a) (utf8_decode bs)
     else if a < 224 then (case bs of
         b # rest \<Rightarrow> map_option ((#) ((a - 192) * 64 + (b - 128))) (utf8_decode rest)
       | _ \<Rightarrow> None)
     else if a < 240 then (case bs of
         b # c # rest \<Rightarrow> map_option ((#) ((a - 224) * 4096 + (b - 128) * 64 + (c - 128))) (utf8_decode rest)
       | _ \<Rightarrow> None)
     else (case bs of
         b # c # d # rest \<Rightarrow> map_option ((#) ((a - 240) * 262144 + (b - 128) * 4096 + (c - 128) * 64
             + (d - 128))) (utf8_decode rest)
       | _ \<Rightarrow> None))"

definition from_utf8 :: "u8 list \<Rightarrow> str option" where
  "from_utf8 bytes = (case utf8_decode (map unat bytes) of
      None \<Rightarrow> None
    | Some s \<Rightarrow> if list_all is_scalar s \<and> utf8 s = bytes then Some s else None)"

definition code_units :: "nat \<Rightarrow> nat list" where
  "code_units c =
    (if c < 128 then [c]
     else if c < 2048 then [192 + c div 64, 128 + c mod 64]
     else if c < 65536 then [224 + c div 4096, 128 + c div 64 mod 64, 128 + c mod 64]
     else [240 + c div 262144, 128 + c div 4096 mod 64, 128 + c div 64 mod 64, 128 + c mod 64])"

lemma units_less: "is_scalar c \<Longrightarrow> n \<in> set (code_units c) \<Longrightarrow> n < 256"
  by (auto simp: code_units_def is_scalar_def split: if_splits)

lemma utf8_char_units: "is_scalar c \<Longrightarrow> map unat (utf8_char c) = code_units c"
proof -
  assume c: "is_scalar c"
  have "utf8_char c = map of_nat (code_units c)"
    by (simp add: utf8_char_def code_units_def)
  then show ?thesis
    using units_less [OF c] by (simp add: map_idI unat_of_nat)
qed

lemma split_units: "(c div 64 * 64 + c mod 64 :: nat) = c"
  "c div 4096 * 4096 + c div 64 mod 64 * 64 + c mod 64 = (c :: nat)"
  "c div 262144 * 262144 + c div 4096 mod 64 * 4096 + c div 64 mod 64 * 64 + c mod 64 = (c :: nat)"
proof -
  have 1: "c div 64 div 64 = c div 4096" "c div 4096 div 64 = c div 262144"
    by (simp_all add: div_mult2_eq [symmetric])
  have 2: "c div 64 = c div 4096 * 64 + c div 64 mod 64" "c div 4096 = c div 262144 * 64 + c div 4096 mod 64"
    using div_mult_mod_eq [of "c div 64" 64] div_mult_mod_eq [of "c div 4096" 64] 1 by simp_all
  show a: "(c div 64 * 64 + c mod 64 :: nat) = c" by simp
  then show b: "c div 4096 * 4096 + c div 64 mod 64 * 64 + c mod 64 = (c :: nat)"
    using 2(1) by linarith
  show "c div 262144 * 262144 + c div 4096 mod 64 * 4096 + c div 64 mod 64 * 64 + c mod 64 = (c :: nat)"
    using b 2(2) by linarith
qed

lemma decode_two: "x < 32 \<Longrightarrow> utf8_decode ([192 + x, 128 + y] @ bs) = map_option ((#) (x * 64 + y)) (utf8_decode bs)"
  by simp

lemma decode_three: "x < 16 \<Longrightarrow> utf8_decode ([224 + x, 128 + y, 128 + z] @ bs) =
    map_option ((#) (x * 4096 + y * 64 + z)) (utf8_decode bs)"
  by simp

lemma decode_four: "utf8_decode ([240 + w, 128 + x, 128 + y, 128 + z] @ bs) =
    map_option ((#) (w * 262144 + x * 4096 + y * 64 + z)) (utf8_decode bs)"
  by simp

lemma decode_units: "utf8_decode (code_units c @ bs) = map_option ((#) c) (utf8_decode bs)"
proof -
  have two: "c div 64 < 32" if "c < 2048" using that by (simp add: div_less_iff_less_mult)
  have three: "c div 4096 < 16" if "c < 65536" using that by (simp add: div_less_iff_less_mult)
  consider "c < 128" | "\<not> c < 128" "c < 2048" | "\<not> c < 2048" "c < 65536" | "\<not> c < 65536" by linarith
  then show ?thesis
  proof cases
    case 2
    then show ?thesis
      using decode_two [OF two, of "c mod 64" bs] split_units(1) [of c] by (simp only: code_units_def if_False if_True)
  next
    case 3
    then show ?thesis
      using decode_three [OF three, of "c div 64 mod 64" "c mod 64" bs] split_units(2) [of c]
      by (simp only: code_units_def if_False if_True) simp
  next
    case 4
    then show ?thesis
      using decode_four [of "c div 262144" "c div 4096 mod 64" "c div 64 mod 64" "c mod 64" bs] split_units(3) [of c]
      by (simp only: code_units_def if_False if_True) simp
  qed (simp add: code_units_def)
qed

lemma decode_utf8: "list_all is_scalar s \<Longrightarrow> utf8_decode (map unat (utf8 s)) = Some s"
proof (induction s)
  case (Cons c s)
  have "map unat (utf8 (c # s)) = code_units c @ map unat (utf8 s)"
    using Cons.prems by (simp add: utf8_def utf8_char_units)
  with Cons decode_units [of c "map unat (utf8 s)"] show ?case by simp
qed (simp add: utf8_def)

lemma from_utf8_utf8: "list_all is_scalar s \<Longrightarrow> from_utf8 (utf8 s) = Some s"
  by (simp add: from_utf8_def decode_utf8)

lemma from_utf8_Some: "from_utf8 bytes = Some s \<Longrightarrow> utf8 s = bytes \<and> list_all is_scalar s"
  by (simp add: from_utf8_def split: option.splits if_splits)

end
