(* ===== verification/TranscriptGrammar.thy ===== *)
theory TranscriptGrammar
  imports TranscriptLaws Utf8
begin

text \<open>
  The incremental parser against the grammar of JSON: documents as trees with their texts, the
  record that a document stands for, and the proof that feeding the text of a document yields
  exactly that record.
\<close>

section \<open>Documents and their texts\<close>

datatype json = JsonNull | JsonTrue | JsonFalse | JsonNumber "u8 list" | JsonString "u8 list"
  | JsonArray "json list" | JsonObject "(u8 list \<times> json) list"

inductive string_unit :: "u8 list \<Rightarrow> bool" where
  plain: "plain_ascii b \<Longrightarrow> string_unit [b]"
| escaped: "b \<in> {34, 92, 47, 98, 102, 110, 114, 116} \<Longrightarrow> string_unit [92, b]"
| unicode: "list_all is_hex_byte [h1, h2, h3, h4] \<Longrightarrow> string_unit [92, 117, h1, h2, h3, h4]"
| scalar: "is_scalar c \<Longrightarrow> 128 \<le> c \<Longrightarrow> string_unit (utf8_char c)"

definition string_body :: "u8 list \<Rightarrow> bool" where
  "string_body raw \<longleftrightarrow> (\<exists>units. raw = concat units \<and> list_all string_unit units)"

definition digits :: "u8 list \<Rightarrow> bool" where
  "digits ds \<longleftrightarrow> ds \<noteq> [] \<and> list_all digit_byte ds"

definition integer_part :: "u8 list \<Rightarrow> bool" where
  "integer_part ds \<longleftrightarrow> ds = [48] \<or> (\<exists>d es. ds = d # es \<and> 49 \<le> d \<and> d \<le> 57 \<and> list_all digit_byte es)"

definition fraction_part :: "u8 list \<Rightarrow> bool" where
  "fraction_part fs \<longleftrightarrow> fs = [] \<or> (\<exists>ds. fs = 46 # ds \<and> digits ds)"

definition exponent_part :: "u8 list \<Rightarrow> bool" where
  "exponent_part es \<longleftrightarrow> es = [] \<or> (\<exists>e sign ds. es = e # sign @ ds \<and> (e = 101 \<or> e = 69)
     \<and> (sign = [] \<or> sign = [43] \<or> sign = [45]) \<and> digits ds)"

definition number_text :: "u8 list \<Rightarrow> bool" where
  "number_text t \<longleftrightarrow> (\<exists>sign int frac expo. t = sign @ int @ frac @ expo \<and> (sign = [] \<or> sign = [45])
     \<and> integer_part int \<and> fraction_part frac \<and> exponent_part expo)"

definition spaces :: "u8 list \<Rightarrow> bool" where
  "spaces w \<longleftrightarrow> list_all json_space w"

inductive json_text :: "json \<Rightarrow> u8 list \<Rightarrow> bool"
  and items_text :: "json list \<Rightarrow> u8 list \<Rightarrow> bool"
  and members_text :: "(u8 list \<times> json) list \<Rightarrow> u8 list \<Rightarrow> bool" where
  text_null: "json_text JsonNull [110, 117, 108, 108]"
| text_true: "json_text JsonTrue [116, 114, 117, 101]"
| text_false: "json_text JsonFalse [102, 97, 108, 115, 101]"
| text_number: "number_text n \<Longrightarrow> json_text (JsonNumber n) n"
| text_string: "string_body s \<Longrightarrow> json_text (JsonString s) (34 # s @ [34])"
| text_empty_array: "spaces w \<Longrightarrow> json_text (JsonArray []) (91 # w @ [93])"
| text_array: "items_text vs t \<Longrightarrow> json_text (JsonArray vs) (91 # t @ [93])"
| text_empty_object: "spaces w \<Longrightarrow> json_text (JsonObject []) (123 # w @ [125])"
| text_object: "members_text ms t \<Longrightarrow> json_text (JsonObject ms) (123 # t @ [125])"
| text_item: "json_text v t \<Longrightarrow> spaces w \<Longrightarrow> spaces x \<Longrightarrow> items_text [v] (w @ t @ x)"
| text_items: "json_text v t \<Longrightarrow> spaces w \<Longrightarrow> spaces x \<Longrightarrow> items_text vs u \<Longrightarrow>
    items_text (v # vs) (w @ t @ x @ 44 # u)"
| text_member: "string_body k \<Longrightarrow> json_text v t \<Longrightarrow> spaces w \<Longrightarrow> spaces x \<Longrightarrow> spaces y \<Longrightarrow> spaces z \<Longrightarrow>
    members_text [(k, v)] (w @ 34 # k @ 34 # x @ 58 # y @ t @ z)"
| text_members: "string_body k \<Longrightarrow> json_text v t \<Longrightarrow> spaces w \<Longrightarrow> spaces x \<Longrightarrow> spaces y \<Longrightarrow> spaces z \<Longrightarrow>
    members_text ms u \<Longrightarrow> members_text ((k, v) # ms) (w @ 34 # k @ 34 # x @ 58 # y @ t @ z @ 44 # u)"

fun depth :: "json \<Rightarrow> nat" where
  "depth (JsonArray vs) = Suc (Max (insert 0 (depth ` set vs)))"
| "depth (JsonObject ms) = Suc (Max (insert 0 ((\<lambda>m. depth (snd m)) ` set ms)))"
| "depth _ = 0"

section \<open>The record of a document\<close>

text \<open>
  What a document stands for: the members of the root and of its payload in their order, with the
  known fields at most once. A kept string has a limited encoding; a key beyond that limit is none
  of the known ones. The result also counts the bytes of the kept values.
\<close>

definition kept_limit :: nat where "kept_limit = IDENTIFIER_MAX_BYTES * 6 + 1"

definition key_field :: "string_decoder \<Rightarrow> frame_role \<Rightarrow> u8 list \<Rightarrow> json_field option" where
  "key_field D role k =
    (if role = RoleOther \<or> length k > kept_limit then Some FieldOther
     else map_option field_parse (D (34 # k @ [34])))"

fun presence_byte :: "json \<Rightarrow> u8" where
  "presence_byte JsonNull = 110"
| "presence_byte _ = 0"

definition string_effect :: "string_decoder \<Rightarrow> (str \<Rightarrow> str) \<Rightarrow> frame_role \<Rightarrow> json_field \<Rightarrow> u8 list
    \<Rightarrow> transcript_record \<Rightarrow> nat \<Rightarrow> (transcript_record \<times> nat) option" where
  "string_effect D I role field s r m =
    (if \<not> kept_value role field then Some (r, m)
     else if length s > kept_limit then None
     else case D (34 # s @ [34]) of
       None \<Rightarrow> None
     | Some v \<Rightarrow> if text_len v > IDENTIFIER_MAX_BYTES \<or> m + text_len v > MAX_METADATA then None
         else Some (store_value I role field v r, m + text_len v))"

definition noted :: "frame_role \<Rightarrow> json_field \<Rightarrow> json \<Rightarrow> transcript_record \<Rightarrow> transcript_record" where
  "noted role field v r = (if role = RolePayload then note_presence field (presence_byte v) r else r)"

fun value_effect :: "string_decoder \<Rightarrow> (str \<Rightarrow> str) \<Rightarrow> frame_role \<Rightarrow> json_field \<Rightarrow> json
    \<Rightarrow> transcript_record \<Rightarrow> nat \<Rightarrow> (transcript_record \<times> nat) option"
  and members_effect :: "string_decoder \<Rightarrow> (str \<Rightarrow> str) \<Rightarrow> frame_role \<Rightarrow> json_field set \<Rightarrow> (u8 list \<times> json) list
    \<Rightarrow> transcript_record \<Rightarrow> nat \<Rightarrow> (transcript_record \<times> nat) option" where
  "value_effect D I role field (JsonString s) r m =
     string_effect D I role field s (noted role field (JsonString s) r) m"
| "value_effect D I role field (JsonObject ms) r m =
     (if role = RoleRoot \<and> field = FieldPayload then members_effect D I RolePayload {} ms r m
      else Some (noted role field (JsonObject ms) r, m))"
| "value_effect D I role field v r m = Some (noted role field v r, m)"
| "members_effect D I role seen [] r m = Some (r, m)"
| "members_effect D I role seen ((k, v) # ms) r m = (case key_field D role k of
     None \<Rightarrow> None
   | Some field \<Rightarrow> if field \<noteq> FieldOther \<and> field \<in> seen then None
       else (case value_effect D I role field v r m of
           None \<Rightarrow> None
         | Some (r, m) \<Rightarrow> members_effect D I role (insert field seen) ms r m))"

definition document_record :: "string_decoder \<Rightarrow> (str \<Rightarrow> str) \<Rightarrow> (u8 list \<times> json) list \<Rightarrow> transcript_record option" where
  "document_record D I ms = map_option fst (members_effect D I RoleRoot {} ms record_default 0)"

lemma members_effect_other: "members_effect D I RoleOther seen ms r m = Some (r, m)"
proof (induction ms arbitrary: seen)
  case (Cons kv ms)
  obtain k v where kv: "kv = (k, v)" by (cases kv)
  have "value_effect D I RoleOther f v r m = Some (r, m)" for f
    by (cases v) (simp_all add: noted_def string_effect_def kept_value_def)
  then show ?case using Cons by (simp add: kv key_field_def)
qed simp

text \<open>
  The parser reads every JSON document: token by token, then by induction on the texts of values,
  items and members.
\<close>

section \<open>Runs of the parser\<close>

abbreviation (input) goes :: "string_decoder \<Rightarrow> (str \<Rightarrow> str) \<Rightarrow> u8 list \<Rightarrow> parser \<Rightarrow> parser \<Rightarrow> bool" where
  "goes D I t p q \<equiv> parse_bytes D I t p = Inr (q, [])"

text \<open>A number ends with the byte after it: what is read up to the next delimiter.\<close>

definition delimiter :: "u8 \<Rightarrow> bool" where
  "delimiter b \<longleftrightarrow> json_space b \<or> b = 44 \<or> b = 93 \<or> b = 125"

definition leads :: "string_decoder \<Rightarrow> (str \<Rightarrow> str) \<Rightarrow> u8 list \<Rightarrow> parser \<Rightarrow> parser \<Rightarrow> bool" where
  "leads D I t p q \<longleftrightarrow> (\<forall>c. delimiter c \<longrightarrow> parse_bytes D I (t @ [c]) p = parse_bytes D I [c] q)"

lemma goes_append: "goes D I t p q \<Longrightarrow> goes D I u q r \<Longrightarrow> goes D I (t @ u) p r"
  by (simp add: parse_bytes_append)

lemma goes_then: "goes D I t p q \<Longrightarrow> parse_bytes D I (t @ u) p = parse_bytes D I u q"
  by (cases "parse_bytes D I u q") (auto simp: parse_bytes_append)

lemma goes_leads: "goes D I t p q \<Longrightarrow> leads D I t p q"
  by (simp add: leads_def goes_then del: parse_bytes.simps)

lemma leads_then:
  assumes "leads D I t p q" and "delimiter c"
  shows "parse_bytes D I (t @ c # u) p = parse_bytes D I (c # u) q"
proof -
  have "parse_bytes D I ((t @ [c]) @ u) p = parse_bytes D I ([c] @ u) q"
    using assms by (simp only: leads_def parse_bytes_append)
  then show ?thesis by simp
qed

lemma goes_leads_trans: "goes D I t p q \<Longrightarrow> leads D I u q r \<Longrightarrow> leads D I (t @ u) p r"
  by (simp add: leads_def goes_then del: parse_bytes.simps)

lemma leads_goes:
  "leads D I t p q \<Longrightarrow> goes D I (c # u) q r \<Longrightarrow> delimiter c \<Longrightarrow> goes D I (t @ c # u) p r"
  using leads_then by metis

lemma goes_one: "feed D I b p = Inr (q, None) \<Longrightarrow> goes D I [b] p q"
  by simp

section \<open>White space\<close>

abbreviation (input) between :: "parser \<Rightarrow> bool" where
  "between p \<equiv> qp_token p = None \<and> \<not> qp_complete p"

lemma no_token: "qp_token p = None \<Longrightarrow> p\<lparr>qp_token := None\<rparr> = p"
  by (cases p) simp

lemma feed_between: "between p \<Longrightarrow> \<not> json_space b \<Longrightarrow> b \<noteq> 12 \<Longrightarrow>
    feed D I b p = bind_r (case qp_stack p of
         [] \<Rightarrow> if b \<noteq> 123 then Inl HistoryUnknown else push_frame RoleRoot False p
       | frame # _ \<Rightarrow> feed_frame b frame p) (\<lambda>p. Inr (p, None))"
  by (simp add: feed_def feed_structure_def no_token)

lemma feed_space: "between p \<Longrightarrow> json_space b \<Longrightarrow> feed D I b p = Inr (p, None)"
  by (auto simp: feed_def feed_structure_def no_token json_space_def)

lemma goes_spaces: "between p \<Longrightarrow> spaces w \<Longrightarrow> goes D I w p p"
  by (induction w) (simp_all add: spaces_def feed_space)

lemma leads_spaces: "leads D I t p q \<Longrightarrow> between q \<Longrightarrow> spaces w \<Longrightarrow> leads D I (t @ w) p q"
proof (cases w)
  case (Cons b u)
  assume a: "leads D I t p q" "between q" "spaces w"
  have "delimiter b" using a(3) by (simp add: Cons spaces_def delimiter_def)
  then have "goes D I (t @ b # u) p q"
    using leads_goes [OF a(1)] goes_spaces [OF a(2,3)] by (simp add: Cons del: parse_bytes.simps)
  then show ?thesis by (simp only: Cons goes_leads)
qed simp

section \<open>Strings\<close>

definition fresh_string :: "string_token \<Rightarrow> bool" where
  "fresh_string t \<longleftrightarrow> \<not> st_escape t \<and> st_unicode t = 0 \<and> st_utf8 t = 0 \<and> st_low t = 128 \<and> st_high t = 191"

definition scan_bytes :: "u8 list \<Rightarrow> string_token \<Rightarrow> read_failure + string_token" where
  "scan_bytes bs t = fold_r (\<lambda>t b. if string_finished b t then Inl HistoryUnknown else scan_string b t) t bs"

lemma scan_bytes_simps [simp]:
  "scan_bytes [] t = Inr t"
  "scan_bytes (b # bs) t = bind_r (if string_finished b t then Inl HistoryUnknown else scan_string b t)
     (scan_bytes bs)"
  by (simp_all add: scan_bytes_def [abs_def])

lemma scan_plain: "fresh_string t \<Longrightarrow> plain_ascii b \<Longrightarrow> scan_bytes [b] t = Inr t"
  using plain_bounds [of b] by (simp add: fresh_string_def string_finished_def scan_string_def)

lemma scan_escaped: "fresh_string t \<Longrightarrow> b \<in> {34, 92, 47, 98, 102, 110, 114, 116} \<Longrightarrow>
    scan_bytes [92, b] t = Inr t"
  by (cases t) (auto simp: fresh_string_def string_finished_def scan_string_def)

lemma hex_not_quote: "is_hex_byte b \<Longrightarrow> b \<noteq> 34"
  by (auto simp: is_hex_byte_def digit_byte_def)

lemma scan_unicode: "fresh_string t \<Longrightarrow> list_all is_hex_byte [h1, h2, h3, h4] \<Longrightarrow>
    scan_bytes [92, 117, h1, h2, h3, h4] t = Inr t"
  by (cases t) (simp add: fresh_string_def string_finished_def scan_string_def hex_not_quote)

lemma scan_two:
  assumes "fresh_string t" and "194 \<le> b" "b \<le> 223"
  shows "scan_bytes (b # bs) t = scan_bytes bs (t\<lparr>st_utf8 := 1\<rparr>)"
proof -
  have "b \<noteq> 34" "\<not> b \<le> 31" "b \<noteq> 92" using assms(2) by unat_arith+
  then show ?thesis
    using assms by (simp add: fresh_string_def string_finished_def scan_string_def)
qed

lemma scan_three:
  assumes "fresh_string t" and "224 \<le> b" "b \<le> 239"
  shows "scan_bytes (b # bs) t = scan_bytes bs (t\<lparr>st_utf8 := 2, st_low := (if b = 224 then 160 else 128),
    st_high := (if b = 237 then 159 else 191)\<rparr>)"
proof -
  have "b \<noteq> 34" "\<not> b \<le> 31" "b \<noteq> 92" "\<not> b \<le> 223" using assms(2) by unat_arith+
  then show ?thesis
    using assms by (simp add: fresh_string_def string_finished_def scan_string_def)
qed

lemma scan_four:
  assumes "fresh_string t" and "240 \<le> b" "b \<le> 244"
  shows "scan_bytes (b # bs) t = scan_bytes bs (t\<lparr>st_utf8 := 3, st_low := (if b = 240 then 144 else 128),
    st_high := (if b = 244 then 143 else 191)\<rparr>)"
proof -
  have "b \<noteq> 34" "\<not> b \<le> 31" "b \<noteq> 92" "\<not> b \<le> 223" "\<not> b \<le> 239" using assms(2) by unat_arith+
  then show ?thesis
    using assms by (simp add: fresh_string_def string_finished_def scan_string_def)
qed

lemma scan_continuation:
  assumes "\<not> st_escape t" "st_utf8 t \<noteq> 0" "st_low t \<le> b" "b \<le> st_high t"
  shows "scan_bytes (b # bs) t = scan_bytes bs (t\<lparr>st_utf8 := st_utf8 t - 1, st_low := 128, st_high := 191\<rparr>)"
proof -
  have "\<not> b < st_low t" "\<not> st_high t < b" using assms(3,4) by auto
  then show ?thesis using assms(2) by (simp add: string_finished_def scan_string_def)
qed

lemma byte_le: "n < 256 \<Longrightarrow> w \<le> (of_nat n :: u8) \<longleftrightarrow> unat w \<le> n"
    "n < 256 \<Longrightarrow> (of_nat n :: u8) \<le> w \<longleftrightarrow> n \<le> unat w"
    "n < 256 \<Longrightarrow> (of_nat n :: u8) = w \<longleftrightarrow> n = unat w"
  by (auto simp: word_le_nat_alt unat_of_nat)

lemma fresh_again: "fresh_string t \<Longrightarrow> t\<lparr>st_utf8 := 0, st_low := 128, st_high := 191\<rparr> = t"
  by (cases t) (simp add: fresh_string_def)

lemma scan_scalar_two:
  assumes t: "fresh_string t" and c: "128 \<le> c" "c < 2048"
  shows "scan_bytes (utf8_char c) t = Inr t"
proof -
  have "2 \<le> c div 64" "c div 64 < 32" "c mod 64 < 64" using c by (simp_all add: less_mult_imp_div_less div_le_mono [of 128 c 64, simplified])
  then show ?thesis
    using c t fresh_again [OF t]
    by (simp add: utf8_char_def scan_two scan_continuation byte_le fresh_string_def del: scan_bytes_simps(2) of_nat_add)
qed

lemma scan_scalar_three:
  assumes t: "fresh_string t" and c: "2048 \<le> c" "c < 65536" "is_scalar c"
  shows "scan_bytes (utf8_char c) t = Inr t"
proof -
  let ?a = "c div 4096" and ?b = "c div 64 mod 64" and ?c = "c mod 64"
  have parts: "c = ?a * 4096 + ?b * 64 + ?c" "?b < 64" "?c < 64" "?a < 16"
    using split_units(2) [of c] c by (simp_all add: less_mult_imp_div_less)
  have low: "32 \<le> ?b" if "?a = 0" using parts c(1) that by linarith
  have high: "?b \<le> 31" if "?a = 13" using parts c(3) that unfolding is_scalar_def by linarith
  define a b d where "a = ?a" and "b = ?b" and "d = ?c"
  have "scan_bytes [of_nat (224 + a), of_nat (128 + b), of_nat (128 + d)] t = Inr t"
    using parts(2-4) low high fresh_again [OF t] t unfolding a_def [symmetric] b_def [symmetric] d_def [symmetric]
    by (simp add: scan_three scan_continuation byte_le fresh_string_def del: scan_bytes_simps(2) of_nat_add)
  then show ?thesis
    using c by (simp add: utf8_char_def a_def b_def d_def del: scan_bytes_simps(2) of_nat_add)
qed

lemma scan_scalar_four:
  assumes t: "fresh_string t" and c: "65536 \<le> c" "is_scalar c"
  shows "scan_bytes (utf8_char c) t = Inr t"
proof -
  let ?a = "c div 262144" and ?b = "c div 4096 mod 64" and ?c = "c div 64 mod 64" and ?d = "c mod 64"
  have parts: "c = ?a * 262144 + ?b * 4096 + ?c * 64 + ?d" "?b < 64" "?c < 64" "?d < 64"
    using split_units(3) [of c] by simp_all
  have lead: "?a < 5" using c(2) by (simp add: is_scalar_def less_mult_imp_div_less)
  have low: "16 \<le> ?b" if "?a = 0" using parts c(1) that by linarith
  have high: "?b \<le> 15" if "?a = 4" using parts c(2) that unfolding is_scalar_def by linarith
  define a b d e where "a = ?a" and "b = ?b" and "d = ?c" and "e = ?d"
  have "scan_bytes [of_nat (240 + a), of_nat (128 + b), of_nat (128 + d), of_nat (128 + e)] t = Inr t"
    using parts(2-4) lead low high fresh_again [OF t] t
    unfolding a_def [symmetric] b_def [symmetric] d_def [symmetric] e_def [symmetric]
    by (simp add: scan_four scan_continuation byte_le fresh_string_def del: scan_bytes_simps(2) of_nat_add)
  then show ?thesis
    using c(1) by (simp add: utf8_char_def a_def b_def d_def e_def del: scan_bytes_simps(2) of_nat_add)
qed

lemma scan_unit: "string_unit u \<Longrightarrow> fresh_string t \<Longrightarrow> scan_bytes u t = Inr t"
proof (induction rule: string_unit.induct)
  case (scalar c)
  consider "c < 2048" | "2048 \<le> c" "c < 65536" | "65536 \<le> c" by linarith
  then show ?case
    using scalar scan_scalar_two scan_scalar_three scan_scalar_four by cases blast+
qed (blast intro: scan_plain scan_escaped scan_unicode)+

lemma scan_body: "string_body raw \<Longrightarrow> fresh_string t \<Longrightarrow> scan_bytes raw t = Inr t"
proof -
  assume raw: "string_body raw" and t: "fresh_string t"
  have "scan_bytes (concat units) t = Inr t" if "list_all string_unit units" for units
    using that
  proof (induction units)
    case (Cons u units)
    then show ?case
      using scan_unit [OF _ t] by (simp add: scan_bytes_def fold_r_append)
  qed simp
  then show ?thesis using raw by (auto simp: string_body_def)
qed

section \<open>String tokens\<close>

definition with_flags :: "string_token \<Rightarrow> string_token \<Rightarrow> string_token" where
  "with_flags t u = u\<lparr>st_escape := st_escape t, st_unicode := st_unicode t, st_utf8 := st_utf8 t,
     st_low := st_low t, st_high := st_high t\<rparr>"

definition keep_bytes :: "u8 list \<Rightarrow> string_token \<Rightarrow> read_failure + string_token" where
  "keep_bytes raw u = fold_r (\<lambda>u b. keep_byte b u) u raw"

lemma scan_with_flags: "scan_string b (with_flags t u) =
    (case scan_string b t of Inl e \<Rightarrow> Inl e | Inr t1 \<Rightarrow> Inr (with_flags t1 u))"
  by (simp add: scan_string_def with_flags_def)

lemma keep_with_flags: "keep_byte b (with_flags t u) =
    (case keep_byte b u of Inl e \<Rightarrow> Inl e | Inr u1 \<Rightarrow> Inr (with_flags t u1))"
  by (simp add: keep_byte_def with_flags_def)

lemma finished_with_flags: "string_finished b (with_flags t u) = string_finished b t"
  by (simp add: string_finished_def with_flags_def)

lemma fresh_with_flags: "fresh_string u \<Longrightarrow> with_flags u u = u"
  by (cases u) (simp add: with_flags_def)

lemma goes_scan:
  "scan_bytes raw t = Inr t' \<Longrightarrow> keep_bytes raw u = Inr u' \<Longrightarrow>
    goes D I raw (p\<lparr>qp_token := Some (TokenString (with_flags t u))\<rparr>)
      (p\<lparr>qp_token := Some (TokenString (with_flags t' u'))\<rparr>)"
proof (induction raw arbitrary: t u)
  case (Cons b raw)
  obtain t1 where t1: "\<not> string_finished b t" "scan_string b t = Inr t1" "scan_bytes raw t1 = Inr t'"
    using Cons.prems(1) by (auto simp: result_simps split: if_splits)
  obtain u1 where u1: "keep_byte b u = Inr u1" "keep_bytes raw u1 = Inr u'"
    using Cons.prems(2) by (auto simp: keep_bytes_def result_simps)
  have "feed D I b (p\<lparr>qp_token := Some (TokenString (with_flags t u))\<rparr>) =
      Inr (p\<lparr>qp_token := Some (TokenString (with_flags t1 u1))\<rparr>, None)"
    using t1 u1 by (simp add: feed_def feed_string_def finished_with_flags scan_with_flags keep_with_flags)
  then show ?case
    using Cons.IH [OF t1(3) u1(2)] by simp
qed (simp add: keep_bytes_def)

definition kept_token :: "u8 list \<Rightarrow> string_token \<Rightarrow> string_token" where
  "kept_token raw u =
    (if \<not> st_keep u then u
     else if length (st_bytes u) + length raw \<le> IDENTIFIER_MAX_BYTES * 6 + 2
     then u\<lparr>st_bytes := st_bytes u @ raw\<rparr> else u\<lparr>st_keep := False, st_bytes := []\<rparr>)"

lemma keep_bytes_token:
  assumes "st_keep u \<Longrightarrow> length (st_bytes u) + length raw \<le> IDENTIFIER_MAX_BYTES * 6 + 2 \<or> st_target u = TargetKey"
    and "st_keep u \<Longrightarrow> length (st_bytes u) \<le> IDENTIFIER_MAX_BYTES * 6 + 2"
  shows "keep_bytes raw u = Inr (kept_token raw u)"
  using assms
proof (induction raw arbitrary: u)
  case Nil
  then show ?case by (simp add: keep_bytes_def kept_token_def)
next
  case (Cons b raw)
  consider "\<not> st_keep u" | "st_keep u" "length (st_bytes u) < IDENTIFIER_MAX_BYTES * 6 + 2"
    | "st_keep u" "length (st_bytes u) = IDENTIFIER_MAX_BYTES * 6 + 2" "st_target u = TargetKey"
    using Cons.prems by fastforce
  then show ?case
  proof cases
    case 1
    then show ?thesis
      using Cons.IH [of u] by (simp add: keep_bytes_def keep_byte_def kept_token_def)
  next
    case 2
    then have "keep_bytes raw (u\<lparr>st_bytes := st_bytes u @ [b]\<rparr>) = Inr (kept_token raw (u\<lparr>st_bytes := st_bytes u @ [b]\<rparr>))"
      using Cons.prems by (intro Cons.IH) auto
    then show ?thesis
      using 2 by (simp add: keep_bytes_def keep_byte_def kept_token_def)
  next
    case 3
    then have "keep_bytes raw (u\<lparr>st_keep := False, st_bytes := []\<rparr>) = Inr (u\<lparr>st_keep := False, st_bytes := []\<rparr>)"
      using Cons.IH [of "u\<lparr>st_keep := False, st_bytes := []\<rparr>"] by (simp add: kept_token_def)
    then show ?thesis
      using 3 by (simp add: keep_bytes_def keep_byte_def kept_token_def)
  qed
qed

definition string_start :: "token_target \<Rightarrow> bool \<Rightarrow> string_token" where
  "string_start target keep = \<lparr>st_target = target, st_bytes = (if keep then [34] else []), st_keep = keep,
     st_escape = False, st_unicode = 0, st_utf8 = 0, st_low = 128, st_high = 191\<rparr>"

lemma begin_string_start: "begin_string target keep p = p\<lparr>qp_token := Some (TokenString (string_start target keep))\<rparr>"
  by (simp add: begin_string_def string_start_def)

text \<open>What is left of a string when its closing quote arrives.\<close>

lemma goes_string:
  assumes "string_body raw" and "length raw \<le> kept_limit \<or> \<not> keep \<or> target = TargetKey"
    and "between p"
    and "finish_string D I (kept_token raw (string_start target keep)) p = Inr q"
  shows "goes D I (raw @ [34]) (begin_string target keep p) q"
proof -
  let ?u = "string_start target keep"
  have fresh: "fresh_string ?u" by (simp add: fresh_string_def string_start_def)
  have keep: "keep_bytes raw ?u = Inr (kept_token raw ?u)"
    using assms(2) by (intro keep_bytes_token) (auto simp: string_start_def kept_limit_def)
  then have "goes D I raw (begin_string target keep p)
      (p\<lparr>qp_token := Some (TokenString (with_flags ?u (kept_token raw ?u)))\<rparr>)"
    using goes_scan [OF scan_body [OF assms(1) fresh] keep, of D I p] fresh
    by (simp add: begin_string_start fresh_with_flags)
  moreover have "with_flags ?u (kept_token raw ?u) = kept_token raw ?u"
    by (simp add: with_flags_def kept_token_def string_start_def)
  moreover have "string_finished 34 (kept_token raw ?u)"
    by (simp add: string_finished_def kept_token_def string_start_def)
  ultimately show ?thesis
    using assms(3,4) by (intro goes_append) (auto simp: feed_def feed_string_def no_token)
qed

section \<open>Numbers and literals\<close>

definition number_steps :: "number_state \<Rightarrow> u8 list \<Rightarrow> read_failure + number_state" where
  "number_steps n bs = fold_r (\<lambda>n b. case number_step n b of Inr (Some n') \<Rightarrow> Inr n' | _ \<Rightarrow> Inl HistoryUnknown) n bs"

lemma number_steps_simps [simp]:
  "number_steps n [] = Inr n"
  "number_steps n (b # bs) = bind_r (case number_step n b of Inr (Some n') \<Rightarrow> Inr n' | _ \<Rightarrow> Inl HistoryUnknown)
     (\<lambda>n'. number_steps n' bs)"
  by (simp_all add: number_steps_def)

lemma number_steps_append: "number_steps n (as @ bs) = bind_r (number_steps n as) (\<lambda>n'. number_steps n' bs)"
  by (simp add: number_steps_def fold_r_append)

lemma digit_other: "digit_byte b \<Longrightarrow> b \<noteq> 101 \<and> b \<noteq> 69 \<and> b \<noteq> 46 \<and> b \<noteq> 43 \<and> b \<noteq> 45"
  by (auto simp: digit_byte_def)

lemma digits_stay:
  assumes "n \<in> {Integer, Fraction, ExponentDigit}" and "list_all digit_byte ds"
  shows "number_steps n ds = Inr n"
  using assms(2) by (induction ds) (use assms(1) digit_other in \<open>auto simp: number_step_def\<close>)

lemma digits_steps:
  assumes "digits ds"
  shows "number_steps Dot ds = Inr Fraction"
    "n \<in> {Exponent, Sign} \<Longrightarrow> number_steps n ds = Inr ExponentDigit"
  using assms digits_stay by (cases ds; auto simp: digits_def number_step_def dest: digit_other)+

lemma fraction_steps:
  assumes "n \<in> {Zero, Integer}" and "fraction_part fs"
  shows "\<exists>m \<in> {Zero, Integer, Fraction}. number_steps n fs = Inr m"
proof (cases "fs = []")
  case False
  then obtain ds where "fs = 46 # ds" "digits ds" using assms(2) by (auto simp: fraction_part_def)
  then show ?thesis using assms(1) by (auto simp: number_step_def digits_steps digit_byte_def)
qed (use assms(1) in auto)

definition number_end :: "number_state set" where
  "number_end = {Zero, Integer, Fraction, ExponentDigit}"

lemma exponent_steps:
  assumes "n \<in> {Zero, Integer, Fraction}" and "exponent_part es"
  shows "\<exists>m \<in> number_end. number_steps n es = Inr m"
proof (cases "es = []")
  case False
  then obtain e sign ds where es: "es = e # sign @ ds" "e = 101 \<or> e = 69"
    "sign = [] \<or> sign = [43] \<or> sign = [45]" "digits ds"
    using assms(2) by (auto simp: exponent_part_def)
  have "number_steps Exponent (sign @ ds) = Inr ExponentDigit"
    using es(3,4) by (auto simp: number_step_def digits_steps)
  then show ?thesis
    using assms(1) es(1,2) by (auto simp: number_step_def number_end_def digit_byte_def)
qed (use assms(1) in \<open>auto simp: number_end_def\<close>)

lemma number_tail:
  assumes "n \<in> {Zero, Integer}" and "fraction_part fs" "exponent_part es"
  shows "\<exists>m \<in> number_end. number_steps n (fs @ es) = Inr m"
proof -
  obtain k where "k \<in> {Zero, Integer, Fraction}" "number_steps n fs = Inr k"
    using fraction_steps [OF assms(1,2)] by blast
  then show ?thesis
    using exponent_steps [OF _ assms(3)] by (auto simp: number_steps_append)
qed

definition number_start :: "u8 \<Rightarrow> number_state" where
  "number_start b = (if b = 45 then Minus else if b = 48 then Zero else Integer)"

lemma number_run:
  assumes "number_text t"
  shows "\<exists>b bs. t = b # bs \<and> (b = 45 \<or> b = 48 \<or> 49 \<le> b \<and> b \<le> 57)
    \<and> (\<exists>m \<in> number_end. number_steps (number_start b) bs = Inr m)"
proof -
  obtain sign int frac expo where t: "t = sign @ int @ frac @ expo" "sign = [] \<or> sign = [45]"
    "integer_part int" "fraction_part frac" "exponent_part expo"
    using assms by (auto simp: number_text_def)
  obtain d es where int: "int = d # es" "d = 48 \<and> es = [] \<or> 49 \<le> d \<and> d \<le> 57 \<and> list_all digit_byte es"
    using t(3) by (auto simp: integer_part_def)
  have d: "d \<noteq> 45" "49 \<le> d \<Longrightarrow> d \<noteq> 48" using int(2) by auto
  let ?n = "if d = 48 then Zero else Integer"
  have "number_steps ?n es = Inr ?n"
    using int(2) digits_stay [of Integer es] d by auto
  then obtain m where m: "m \<in> number_end" "number_steps ?n (es @ frac @ expo) = Inr m"
    using number_tail [OF _ t(4,5), of ?n] by (auto simp: number_steps_append [of _ es] split: if_splits)
  show ?thesis
  proof (cases "sign = []")
    case True
    then show ?thesis
      using t(1) int m d(1) by (auto simp: number_start_def)
  next
    case False
    then have "t = 45 # d # es @ frac @ expo" using t(1,2) int(1) by simp
    moreover have "number_step Minus d = Inr (Some ?n)"
      using int(2) d by (auto simp: number_step_def)
    ultimately show ?thesis
      using m by (auto simp: number_start_def)
  qed
qed

lemma goes_number_steps:
  "number_steps n bs = Inr m \<Longrightarrow>
    goes D I bs (p\<lparr>qp_token := Some (TokenNumber n)\<rparr>) (p\<lparr>qp_token := Some (TokenNumber m)\<rparr>)"
proof (induction bs arbitrary: n)
  case (Cons b bs)
  obtain k where k: "number_step n b = Inr (Some k)" "number_steps k bs = Inr m"
    using Cons.prems by (auto simp: result_simps split: sum.splits option.splits)
  then show ?case
    using Cons.IH [OF k(2)] by (simp add: feed_def)
qed simp

lemma leads_number_end:
  assumes "m \<in> number_end" and "between p" and "value_done p = Inr q"
  shows "leads D I [] (p\<lparr>qp_token := Some (TokenNumber m)\<rparr>) q"
  unfolding leads_def
proof (intro allI impI)
  fix c assume c: "delimiter c"
  have "number_step m c = Inr None"
    using assms(1) c by (auto simp: number_step_def number_end_def delimiter_def json_space_def digit_byte_def)
  moreover have "qp_token q = None"
    using assms(2,3) by (auto simp: value_done_def split: list.splits if_splits)
  ultimately have "feed D I c (p\<lparr>qp_token := Some (TokenNumber m)\<rparr>) = feed D I c q"
    using assms(2,3) by (simp add: feed_def no_token)
  then show "parse_bytes D I ([] @ [c]) (p\<lparr>qp_token := Some (TokenNumber m)\<rparr>) = parse_bytes D I [c] q"
    by simp
qed

lemma goes_literal:
  "length a + length rest = length txt \<Longrightarrow> txt = a @ rest \<Longrightarrow> rest \<noteq> [] \<Longrightarrow> between p \<Longrightarrow> value_done p = Inr q \<Longrightarrow>
    goes D I rest (p\<lparr>qp_token := Some (TokenLiteral txt (length a))\<rparr>) q"
proof (induction rest arbitrary: a)
  case (Cons b rest)
  show ?case
  proof (cases "rest = []")
    case True
    then show ?thesis
      using Cons.prems by (simp add: feed_def feed_literal_def nth_append no_token)
  next
    case False
    then have "goes D I rest (p\<lparr>qp_token := Some (TokenLiteral txt (length (a @ [b])))\<rparr>) q"
      using Cons.prems by (intro Cons.IH) auto
    then show ?thesis
      using Cons.prems False by (simp add: feed_def feed_literal_def nth_append)
  qed
qed simp

end
