(* ===== verification/TranscriptDocuments.thy ===== *)
theory TranscriptDocuments
  imports TranscriptGrammar
begin

unbundle bit_operations_syntax

text \<open>
  Values, items and members of a JSON document, by induction on their texts, and the theorem that
  a line of the transcript yields the record that its document stands for.
\<close>

section \<open>Fields of an object\<close>

definition seen_fields :: "u16 \<Rightarrow> json_field set \<Rightarrow> bool" where
  "seen_fields w seen \<longleftrightarrow> (\<forall>f. f \<noteq> FieldOther \<longrightarrow> (w AND field_bit f \<noteq> 0 \<longleftrightarrow> f \<in> seen))"

lemma field_bits: "field_bit f AND field_bit g \<noteq> 0 \<longleftrightarrow> f = g \<and> f \<noteq> FieldOther"
  by (cases f; cases g) (simp_all add: field_bit_def)

lemma seen_fields_insert: "seen_fields w seen \<Longrightarrow> seen_fields (w OR field_bit f) (insert f seen)"
proof -
  assume w: "seen_fields w seen"
  have "(w OR field_bit f) AND field_bit g \<noteq> 0 \<longleftrightarrow> w AND field_bit g \<noteq> 0 \<or> field_bit f AND field_bit g \<noteq> 0" for g
    by (simp add: bit.conj_disj_distrib2 or_eq_0_iff)
  then show ?thesis
    using w by (auto simp: seen_fields_def field_bits)
qed

lemma seen_none: "seen_fields 0 {}"
  by (simp add: seen_fields_def)

lemma seen_clear: "seen_fields w seen \<Longrightarrow> \<not> (f \<noteq> FieldOther \<and> f \<in> seen) \<Longrightarrow> w AND field_bit f = 0"
  by (cases "f = FieldOther") (auto simp: seen_fields_def field_bit_def)

section \<open>Steps at a frame\<close>

definition value_field :: "frame \<Rightarrow> json_field" where
  "value_field f = (if fr_array f then FieldOther else fr_field f)"

definition done_frame :: "frame \<Rightarrow> frame" where
  "done_frame f = f\<lparr>fr_stage := (if fr_array f then CommaArray else CommaObject)\<rparr>"

definition at_value :: "frame \<Rightarrow> bool" where
  "at_value f \<longleftrightarrow> fr_stage f = ValueStage \<or> fr_stage f = ValueOrEnd"

definition at_key :: "frame \<Rightarrow> bool" where
  "at_key f \<longleftrightarrow> (fr_stage f = KeyOrEnd \<or> fr_stage f = Key) \<and> \<not> fr_array f"

lemma value_done_frame: "qp_stack p = f # fs \<Longrightarrow> at_value f \<Longrightarrow> value_done p = Inr (p\<lparr>qp_stack := done_frame f # fs\<rparr>)"
  by (auto simp: value_done_def at_value_def done_frame_def)

lemma feed_value:
  "between p \<Longrightarrow> qp_stack p = f # fs \<Longrightarrow> at_value f \<Longrightarrow> b \<noteq> 93 \<Longrightarrow> \<not> json_space b \<Longrightarrow> b \<noteq> 12 \<Longrightarrow>
    feed D I b p = bind_r (begin_value f b p) (\<lambda>p. Inr (p, None))"
  by (auto simp: feed_between feed_frame_def at_value_def)

definition noted_parser :: "frame \<Rightarrow> json \<Rightarrow> parser \<Rightarrow> parser" where
  "noted_parser f v p = p\<lparr>qp_record := noted (fr_role f) (value_field f) v (qp_record p)\<rparr>"

lemma noted_begin:
  assumes "b = 110 \<longleftrightarrow> v = JsonNull"
  shows "(if fr_role f = RolePayload then p\<lparr>qp_record := note_presence (value_field f) b (qp_record p)\<rparr> else p)
    = noted_parser f v p"
proof -
  have "note_presence x b r = note_presence x (presence_byte v) r" for x r
    using assms by (cases v) (auto simp: note_presence_def)
  then show ?thesis by (cases p) (simp add: noted_parser_def noted_def)
qed

lemma begin_simps:
  assumes "b = 110 \<longleftrightarrow> v = JsonNull"
  shows "begin_value f b p = (if b = 123 \<or> b = 91
        then push_frame (if fr_role f = RoleRoot \<and> value_field f = FieldPayload \<and> b = 123
          then RolePayload else RoleOther) (b = 91) (noted_parser f v p)
        else if b = 34 then Inr (begin_string (TargetValue (fr_role f) (value_field f))
          (kept_value (fr_role f) (value_field f)) (noted_parser f v p))
        else if b = 110 then Inr ((noted_parser f v p)\<lparr>qp_token := Some (TokenLiteral [110, 117, 108, 108] 1)\<rparr>)
        else if b = 116 then Inr ((noted_parser f v p)\<lparr>qp_token := Some (TokenLiteral [116, 114, 117, 101] 1)\<rparr>)
        else if b = 102 then Inr ((noted_parser f v p)\<lparr>qp_token := Some (TokenLiteral [102, 97, 108, 115, 101] 1)\<rparr>)
        else if b = 45 then Inr ((noted_parser f v p)\<lparr>qp_token := Some (TokenNumber Minus)\<rparr>)
        else if b = 48 then Inr ((noted_parser f v p)\<lparr>qp_token := Some (TokenNumber Zero)\<rparr>)
        else if 49 \<le> b \<and> b \<le> 57 then Inr ((noted_parser f v p)\<lparr>qp_token := Some (TokenNumber Integer)\<rparr>)
        else Inl HistoryUnknown)"
  unfolding begin_value_def value_field_def [symmetric] Let_def noted_begin [OF assms] ..

lemma noted_parser_simps [simp]:
  "qp_stack (noted_parser f v p) = qp_stack p" "qp_token (noted_parser f v p) = qp_token p"
  "qp_complete (noted_parser f v p) = qp_complete p" "qp_metadata (noted_parser f v p) = qp_metadata p"
  "qp_record (noted_parser f v p) = noted (fr_role f) (value_field f) v (qp_record p)"
  by (simp_all add: noted_parser_def)

text \<open>Where a value ends.\<close>

definition after_value :: "frame \<Rightarrow> frame list \<Rightarrow> transcript_record \<times> nat \<Rightarrow> parser \<Rightarrow> parser" where
  "after_value f fs e p = p\<lparr>qp_stack := done_frame f # fs, qp_record := fst e, qp_metadata := snd e\<rparr>"

lemma after_noted: "qp_stack p = f # fs \<Longrightarrow> at_value f \<Longrightarrow>
    value_done (noted_parser f v p) = Inr (after_value f fs (noted (fr_role f) (value_field f) v (qp_record p), qp_metadata p) p)"
  by (cases p) (simp add: value_done_frame after_value_def noted_parser_def)

lemma value_literal:
  assumes "between p" "qp_stack p = f # fs" "at_value f"
    and "txt \<in> {[110, 117, 108, 108], [116, 114, 117, 101], [102, 97, 108, 115, 101]}"
    and "hd txt = 110 \<longleftrightarrow> v = JsonNull"
  shows "goes D I txt p (after_value f fs (noted (fr_role f) (value_field f) v (qp_record p), qp_metadata p) p)"
proof -
  have "feed D I (hd txt) p = Inr ((noted_parser f v p)\<lparr>qp_token := Some (TokenLiteral txt 1)\<rparr>, None)"
    using assms(4) feed_value [OF assms(1-3), of "hd txt" D I] begin_simps [OF assms(5), of f p]
    by (auto simp: json_space_def)
  moreover have "goes D I (tl txt) ((noted_parser f v p)\<lparr>qp_token := Some (TokenLiteral txt (length [hd txt]))\<rparr>)
      (after_value f fs (noted (fr_role f) (value_field f) v (qp_record p), qp_metadata p) p)"
    using assms(4) after_noted [OF assms(2,3)] assms(1) by (intro goes_literal) auto
  ultimately have "goes D I (hd txt # tl txt) p
      (after_value f fs (noted (fr_role f) (value_field f) v (qp_record p), qp_metadata p) p)"
    by simp
  then show ?thesis using assms(4) by auto
qed

lemma value_number:
  assumes "between p" "qp_stack p = f # fs" "at_value f" and "number_text t"
  shows "leads D I t p (after_value f fs (noted (fr_role f) (value_field f) (JsonNumber n) (qp_record p), qp_metadata p) p)"
proof -
  let ?v = "JsonNumber n"
  obtain b bs m where t: "t = b # bs" "b = 45 \<or> b = 48 \<or> 49 \<le> b \<and> b \<le> 57" "m \<in> number_end"
    "number_steps (number_start b) bs = Inr m"
    using number_run [OF assms(4)] by blast
  have b: "b \<noteq> 110" "b \<noteq> 93" "\<not> json_space b" "b \<noteq> 12" "b \<noteq> 123" "b \<noteq> 91" "b \<noteq> 34" "b \<noteq> 116" "b \<noteq> 102"
    "49 \<le> b \<Longrightarrow> b \<noteq> 48 \<and> b \<noteq> 45"
    using t(2) by (auto simp: json_space_def)
  have "feed D I b p = Inr ((noted_parser f ?v p)\<lparr>qp_token := Some (TokenNumber (number_start b))\<rparr>, None)"
    using feed_value [OF assms(1-3) b(2-4), of D I] begin_simps [of b ?v f p] b t(2)
    by (auto simp: number_start_def)
  then have "goes D I (b # bs) p ((noted_parser f ?v p)\<lparr>qp_token := Some (TokenNumber m)\<rparr>)"
    using goes_number_steps [OF t(4), of D I "noted_parser f ?v p"] by simp
  moreover have "leads D I [] ((noted_parser f ?v p)\<lparr>qp_token := Some (TokenNumber m)\<rparr>)
      (after_value f fs (noted (fr_role f) (value_field f) ?v (qp_record p), qp_metadata p) p)"
    using leads_number_end [OF t(3), of "noted_parser f ?v p"] after_noted [OF assms(2,3)] assms(1) by simp
  ultimately show ?thesis
    using goes_leads_trans [of D I "b # bs" p _ "[]"] t(1) by simp
qed

lemma value_string:
  assumes "between p" "qp_stack p = f # fs" "at_value f" and "string_body s"
    and "value_effect D I (fr_role f) (value_field f) (JsonString s) (qp_record p) (qp_metadata p) = Some e"
  shows "goes D I (34 # s @ [34]) p (after_value f fs e p)"
proof -
  let ?v = "JsonString s" and ?role = "fr_role f" and ?field = "value_field f"
  let ?keep = "kept_value ?role ?field" and ?p = "noted_parser f (JsonString s) p"
  have "feed D I 34 p = Inr (begin_string (TargetValue ?role ?field) ?keep ?p, None)"
    using feed_value [OF assms(1-3), of 34 D I] begin_simps [of 34 ?v f p] by (simp add: json_space_def)
  moreover have "finish_string D I (kept_token s (string_start (TargetValue ?role ?field) ?keep)) ?p
      = Inr (after_value f fs e p)"
  proof (cases ?keep)
    case False
    then show ?thesis
      using assms(5) after_noted [OF assms(2,3), of ?v]
      by (auto simp: finish_string_def kept_token_def string_start_def string_effect_def)
  next
    case True
    then obtain v where v: "D (34 # s @ [34]) = Some v" "length s \<le> kept_limit"
      "text_len v \<le> IDENTIFIER_MAX_BYTES" "qp_metadata p + text_len v \<le> MAX_METADATA"
      "e = (store_value I ?role ?field v (noted ?role ?field ?v (qp_record p)), qp_metadata p + text_len v)"
      using assms(5) by (auto simp: string_effect_def split: option.splits if_splits)
    then have "string_value I ?role ?field v ?p = Inr (?p\<lparr>qp_metadata := snd e, qp_record := fst e\<rparr>)"
      by (simp add: string_value_def)
    moreover have "value_done (?p\<lparr>qp_metadata := snd e, qp_record := fst e\<rparr>) = Inr (after_value f fs e p)"
      using value_done_frame [of "?p\<lparr>qp_metadata := snd e, qp_record := fst e\<rparr>" f fs] assms(2,3)
      by (cases p) (simp add: after_value_def noted_parser_def)
    ultimately show ?thesis
      using True v(1,2) by (simp add: finish_string_def kept_token_def string_start_def kept_limit_def)
  qed
  moreover have "length s \<le> kept_limit \<or> \<not> ?keep"
    using assms(5) by (auto simp: string_effect_def split: if_splits)
  ultimately have "goes D I (s @ [34]) (begin_string (TargetValue ?role ?field) ?keep ?p) (after_value f fs e p)"
    using assms(1,4) by (intro goes_string) auto
  then show ?thesis
    using \<open>feed D I 34 p = _\<close> by simp
qed

section \<open>Keys and containers\<close>

definition keyed_frame :: "json_field \<Rightarrow> frame \<Rightarrow> frame" where
  "keyed_frame field f = f\<lparr>fr_seen := fr_seen f OR field_bit field, fr_field := field, fr_stage := Colon\<rparr>"

lemma goes_key:
  assumes "between p" "qp_stack p = f # fs" "at_key f" and "string_body k"
    and "key_field D (fr_role f) k = Some field" "fr_seen f AND field_bit field = 0"
  shows "goes D I (34 # k @ [34]) p (p\<lparr>qp_stack := keyed_frame field f # fs\<rparr>)"
proof -
  let ?keep = "fr_role f \<noteq> RoleOther"
  have "feed D I 34 p = Inr (begin_string TargetKey ?keep p, None)"
    using assms(1-3) by (auto simp: feed_between feed_frame_def at_key_def json_space_def)
  moreover have "finish_string D I (kept_token k (string_start TargetKey ?keep)) p
      = Inr (p\<lparr>qp_stack := keyed_frame field f # fs\<rparr>)"
    using assms(2,5,6) by (auto simp: finish_string_def kept_token_def string_start_def key_field_def kept_limit_def
        finish_key_def keyed_frame_def Let_def split: if_splits)
  then have "goes D I (k @ [34]) (begin_string TargetKey ?keep p) (p\<lparr>qp_stack := keyed_frame field f # fs\<rparr>)"
    using assms(1,4) by (intro goes_string) auto
  ultimately show ?thesis by simp
qed

lemma goes_colon:
  assumes "between p" "qp_stack p = keyed_frame field f # fs"
  shows "goes D I [58] p (p\<lparr>qp_stack := (keyed_frame field f)\<lparr>fr_stage := ValueStage\<rparr> # fs\<rparr>)"
  using assms by (simp add: feed_between feed_frame_def keyed_frame_def set_stage_def json_space_def)

definition opened_frame :: "frame_role \<Rightarrow> bool \<Rightarrow> frame" where
  "opened_frame role array = \<lparr>fr_role = role, fr_stage = (if array then ValueOrEnd else KeyOrEnd),
     fr_field = FieldOther, fr_seen = 0, fr_array = array\<rparr>"

lemma goes_open:
  assumes "between p" "qp_stack p = f # fs" "at_value f" and "Suc (length fs) < MAX_DEPTH"
    and "b = 123 \<and> v = JsonObject ms \<or> b = 91 \<and> v = JsonArray vs"
  shows "goes D I [b] p ((noted_parser f v p)\<lparr>qp_stack := opened_frame
    (if fr_role f = RoleRoot \<and> value_field f = FieldPayload \<and> b = 123 then RolePayload else RoleOther)
    (b = 91) # f # fs\<rparr>)"
proof -
  have "b = 110 \<longleftrightarrow> v = JsonNull" using assms(5) by auto
  then show ?thesis
    using assms feed_value [OF assms(1-3), of b D I] begin_simps [of b v f p]
    by (auto simp: json_space_def push_frame_def opened_frame_def)
qed

lemma goes_close:
  assumes "between p" "qp_stack p = f # g # fs" "at_value g"
    and "fr_array f \<and> b = 93 \<and> (fr_stage f = ValueOrEnd \<or> fr_stage f = CommaArray)
      \<or> \<not> fr_array f \<and> b = 125 \<and> (fr_stage f = KeyOrEnd \<or> fr_stage f = CommaObject)"
  shows "goes D I [b] p (p\<lparr>qp_stack := done_frame g # fs\<rparr>)"
  using assms value_done_frame [of "p\<lparr>qp_stack := g # fs\<rparr>" g fs]
  by (auto simp: feed_between feed_frame_def json_space_def close_frame_def)

lemma goes_close_root:
  assumes "between p" "qp_stack p = [f]" "\<not> fr_array f" "fr_stage f = KeyOrEnd \<or> fr_stage f = CommaObject"
  shows "goes D I [125] p (p\<lparr>qp_stack := [], qp_complete := True\<rparr>)"
  using assms by (auto simp: feed_between feed_frame_def json_space_def close_frame_def)

lemma goes_comma:
  assumes "between p" "qp_stack p = done_frame f # fs"
  shows "goes D I [44] p (p\<lparr>qp_stack := (done_frame f)\<lparr>fr_stage := (if fr_array f then ValueStage else Key)\<rparr> # fs\<rparr>)"
  using assms by (auto simp: feed_between feed_frame_def json_space_def done_frame_def set_stage_def)

lemma done_frame_simps [simp]:
  "fr_array (done_frame f) = fr_array f" "fr_role (done_frame f) = fr_role f"
  "done_frame (f\<lparr>fr_stage := s\<rparr>) = done_frame f" "done_frame (done_frame f) = done_frame f"
  "fr_seen (done_frame f) = fr_seen f"
  "(done_frame f)\<lparr>fr_stage := s\<rparr> = f\<lparr>fr_stage := s\<rparr>"
  "fr_stage (done_frame f) = (if fr_array f then CommaArray else CommaObject)"
  by (simp_all add: done_frame_def)

lemma after_value_simps [simp]:
  "qp_stack (after_value f fs e p) = done_frame f # fs" "qp_token (after_value f fs e p) = qp_token p"
  "qp_complete (after_value f fs e p) = qp_complete p" "qp_record (after_value f fs e p) = fst e"
  "qp_metadata (after_value f fs e p) = snd e"
  by (simp_all add: after_value_def)

section \<open>Values\<close>

definition reads_value :: "json \<Rightarrow> u8 list \<Rightarrow> bool" where
  "reads_value v t \<longleftrightarrow> (\<forall>D I p f fs e. between p \<longrightarrow> qp_stack p = f # fs \<longrightarrow> at_value f
     \<longrightarrow> depth v + Suc (length fs) \<le> MAX_DEPTH
     \<longrightarrow> value_effect D I (fr_role f) (value_field f) v (qp_record p) (qp_metadata p) = Some e
     \<longrightarrow> leads D I t p (after_value f fs e p))"

definition reads_items :: "json list \<Rightarrow> u8 list \<Rightarrow> bool" where
  "reads_items vs t \<longleftrightarrow> (\<forall>D I p f fs. between p \<longrightarrow> qp_stack p = f # fs \<longrightarrow> at_value f
     \<longrightarrow> fr_array f \<longrightarrow> fr_role f = RoleOther \<longrightarrow> (\<forall>v \<in> set vs. depth v + Suc (length fs) \<le> MAX_DEPTH)
     \<longrightarrow> leads D I t p (p\<lparr>qp_stack := done_frame f # fs\<rparr>))"

text \<open>The frame after the members keeps its role; its field and its known fields are no longer read.\<close>

definition reads_members :: "(u8 list \<times> json) list \<Rightarrow> u8 list \<Rightarrow> bool" where
  "reads_members ms t \<longleftrightarrow> (\<forall>D I p f fs seen e. between p \<longrightarrow> qp_stack p = f # fs \<longrightarrow> at_key f
     \<longrightarrow> seen_fields (fr_seen f) seen \<longrightarrow> (\<forall>m \<in> set ms. depth (snd m) + Suc (length fs) \<le> MAX_DEPTH)
     \<longrightarrow> members_effect D I (fr_role f) seen ms (qp_record p) (qp_metadata p) = Some e
     \<longrightarrow> (\<exists>f'. \<not> fr_array f' \<and> leads D I t p (after_value f' fs e p)))"

lemma other_effect: "value_effect D I RoleOther FieldOther v r m = Some (r, m)"
  by (cases v) (simp_all add: noted_def string_effect_def kept_value_def)

lemma item_value:
  assumes "reads_value v t" "between p" "qp_stack p = f # fs" "at_value f" "fr_array f" "fr_role f = RoleOther"
    and "depth v + Suc (length fs) \<le> MAX_DEPTH" "spaces w" "spaces x"
  shows "leads D I (w @ t @ x) p (p\<lparr>qp_stack := done_frame f # fs\<rparr>)"
proof -
  have "value_effect D I (fr_role f) (value_field f) v (qp_record p) (qp_metadata p) = Some (qp_record p, qp_metadata p)"
    using assms(5,6) by (simp add: value_field_def other_effect)
  then have "leads D I t p (after_value f fs (qp_record p, qp_metadata p) p)"
    using assms(1-4,7) unfolding reads_value_def by blast
  then have "leads D I (w @ t) p (after_value f fs (qp_record p, qp_metadata p) p)"
    using goes_spaces [OF assms(2,8)] by (rule goes_leads_trans [rotated])
  then have "leads D I ((w @ t) @ x) p (after_value f fs (qp_record p, qp_metadata p) p)"
    by (rule leads_spaces) (use assms(2,9) in auto)
  then show ?thesis
    by (cases p) (simp add: after_value_def)
qed

lemma member_value:
  assumes "reads_value v t" "string_body k" "between p" "qp_stack p = f # fs" "at_key f"
    and "depth v + Suc (length fs) \<le> MAX_DEPTH" "spaces w" "spaces x" "spaces y" "spaces z"
    and "key_field D (fr_role f) k = Some field" "fr_seen f AND field_bit field = 0"
    and "value_effect D I (fr_role f) field v (qp_record p) (qp_metadata p) = Some e"
  shows "leads D I (w @ 34 # k @ 34 # x @ 58 # y @ t @ z) p (after_value (keyed_frame field f) fs e p)"
proof -
  let ?f = "keyed_frame field f" and ?g = "(keyed_frame field f)\<lparr>fr_stage := ValueStage\<rparr>"
  let ?p = "p\<lparr>qp_stack := ?f # fs\<rparr>" and ?q = "p\<lparr>qp_stack := ?g # fs\<rparr>"
  have "goes D I (w @ (34 # k @ [34]) @ x @ [58] @ y) p ?q"
  proof (intro goes_append)
    show "goes D I w p p" "goes D I x ?p ?p" "goes D I y ?q ?q"
      using assms(3,7-9) by (auto intro: goes_spaces)
    show "goes D I (34 # k @ [34]) p ?p" by (rule goes_key [OF assms(3-5,2,11,12)])
    show "goes D I [58] ?p ?q" using goes_colon [of ?p field f fs] assms(3) by simp
  qed
  moreover have "leads D I (t @ z) ?q (after_value ?f fs e p)"
  proof (rule leads_spaces)
    have "value_effect D I (fr_role ?g) (value_field ?g) v (qp_record ?q) (qp_metadata ?q) = Some e"
      using assms(5,13) by (simp add: keyed_frame_def value_field_def at_key_def)
    moreover have "between ?q" "qp_stack ?q = ?g # fs" "at_value ?g"
      using assms(3) by (simp_all add: at_value_def)
    ultimately have "leads D I t ?q (after_value ?g fs e ?q)"
      using assms(1,6) unfolding reads_value_def by blast
    then show "leads D I t ?q (after_value ?f fs e p)"
      by (simp add: after_value_def)
  qed (use assms(3,10) in auto)
  ultimately show ?thesis
    using goes_leads_trans [of D I "w @ (34 # k @ [34]) @ x @ [58] @ y" p ?q "t @ z"] by simp
qed

section \<open>The induction\<close>

lemma reads_itemsD:
  "reads_items vs t \<Longrightarrow> between p \<Longrightarrow> qp_stack p = f # fs \<Longrightarrow> at_value f \<Longrightarrow> fr_array f \<Longrightarrow> fr_role f = RoleOther \<Longrightarrow>
    (\<And>v. v \<in> set vs \<Longrightarrow> depth v + Suc (length fs) \<le> MAX_DEPTH) \<Longrightarrow>
    leads D I t p (p\<lparr>qp_stack := done_frame f # fs\<rparr>)"
  unfolding reads_items_def by blast

lemma depth_item: "v \<in> set vs \<Longrightarrow> depth v < depth (JsonArray vs)"
  by (simp add: less_Suc_eq_le)

lemma depth_member: "m \<in> set ms \<Longrightarrow> depth (snd m) < depth (JsonObject ms)"
  by (simp add: less_Suc_eq_le)

text \<open>An array or object whose inside has been read up to its closing bracket.\<close>

lemma container_leads:
  assumes "between p" "qp_stack p = f # fs" "at_value f" and "Suc (length fs) < MAX_DEPTH"
    and open': "b = 123 \<and> v = JsonObject ms \<or> b = 91 \<and> v = JsonArray vs"
    and "role = (if fr_role f = RoleRoot \<and> value_field f = FieldPayload \<and> b = 123 then RolePayload else RoleOther)"
    and inner: "leads D I t ((noted_parser f v p)\<lparr>qp_stack := opened_frame role (b = 91) # f # fs\<rparr>)
      (after_value g (f # fs) e (noted_parser f v p))" "fr_array g = (b = 91)"
  shows "leads D I (b # t @ [b + 2]) p (after_value f fs e p)"
proof -
  let ?q = "after_value g (f # fs) e (noted_parser f v p)"
  have close: "delimiter (b + 2)"
    using open' by (auto simp: delimiter_def)
  have "goes D I [b + 2] ?q (?q\<lparr>qp_stack := done_frame f # fs\<rparr>)"
    using open' inner(2) assms(1,3) by (intro goes_close) auto
  moreover have "?q\<lparr>qp_stack := done_frame f # fs\<rparr> = after_value f fs e p"
    by (cases p) (simp add: after_value_def noted_parser_def)
  ultimately have "goes D I (t @ (b + 2) # []) ((noted_parser f v p)\<lparr>qp_stack := opened_frame role (b = 91) # f # fs\<rparr>)
      (after_value f fs e p)"
    by (intro leads_goes [OF inner(1) _ close]) (simp del: parse_bytes.simps)
  then have rest: "goes D I (t @ [b + 2]) ((noted_parser f v p)\<lparr>qp_stack := opened_frame role (b = 91) # f # fs\<rparr>)
      (after_value f fs e p)"
    by simp
  have "goes D I [b] p ((noted_parser f v p)\<lparr>qp_stack := opened_frame role (b = 91) # f # fs\<rparr>)"
    using goes_open [OF assms(1-4) open'] assms(6) by simp
  from goes_append [OF this rest] show ?thesis by (simp add: goes_leads)
qed

lemma empty_leads:
  assumes "between p" "spaces w"
  shows "leads D I w p p"
  by (rule goes_leads) (rule goes_spaces [OF assms])

text \<open>A closing bracket is also read right after the opening one, where no value has been.\<close>

lemma empty_container:
  assumes "between p" "qp_stack p = f # fs" "at_value f" and "Suc (length fs) < MAX_DEPTH" and "spaces w"
    and open': "b = 123 \<and> v = JsonObject [] \<or> b = 91 \<and> v = JsonArray []"
  shows "goes D I (b # w @ [b + 2]) p (after_value f fs (noted (fr_role f) (value_field f) v (qp_record p), qp_metadata p) p)"
proof -
  let ?role = "if fr_role f = RoleRoot \<and> value_field f = FieldPayload \<and> b = 123 then RolePayload else RoleOther"
  let ?q = "(noted_parser f v p)\<lparr>qp_stack := opened_frame ?role (b = 91) # f # fs\<rparr>"
  have "goes D I [b] p ?q" by (rule goes_open [OF assms(1-4) open'])
  moreover have "goes D I w ?q ?q" using assms(1,5) by (intro goes_spaces) auto
  moreover have "goes D I [b + 2] ?q (?q\<lparr>qp_stack := done_frame f # fs\<rparr>)"
    using open' assms(1,3) by (intro goes_close) (auto simp: opened_frame_def)
  moreover have "?q\<lparr>qp_stack := done_frame f # fs\<rparr> = after_value f fs (noted (fr_role f) (value_field f) v (qp_record p), qp_metadata p) p"
    by (cases p) (simp add: after_value_def noted_parser_def)
  ultimately have "goes D I ([b] @ w @ [b + 2]) p
      (after_value f fs (noted (fr_role f) (value_field f) v (qp_record p), qp_metadata p) p)"
    by (intro goes_append) (auto simp del: parse_bytes.simps)
  then show ?thesis by simp
qed

lemma reads_empty:
  assumes "spaces w" and "b = 123 \<and> v = JsonObject [] \<or> b = 91 \<and> v = JsonArray []"
  shows "reads_value v (b # w @ [b + 2])"
  unfolding reads_value_def
proof (intro allI impI)
  fix D I p f fs e
  assume p: "between p" "qp_stack p = f # fs" "at_value f" "depth v + Suc (length fs) \<le> MAX_DEPTH"
    and e: "value_effect D I (fr_role f) (value_field f) v (qp_record p) (qp_metadata p) = Some e"
  have "e = (noted (fr_role f) (value_field f) v (qp_record p), qp_metadata p)"
    using e assms(2) by (auto simp: noted_def split: if_splits)
  moreover have "Suc (length fs) < MAX_DEPTH" using p(4) assms(2) by auto
  ultimately show "leads D I (b # w @ [b + 2]) p (after_value f fs e p)"
    using empty_container [OF p(1-3) _ assms] goes_leads by simp
qed

lemma reads_array:
  assumes "reads_items vs t"
  shows "reads_value (JsonArray vs) (91 # t @ [93])"
  unfolding reads_value_def
proof (intro allI impI)
  fix D I p f fs e
  let ?v = "JsonArray vs" and ?g = "opened_frame RoleOther True"
  assume p: "between p" "qp_stack p = f # fs" "at_value f" "depth ?v + Suc (length fs) \<le> MAX_DEPTH"
    and e: "value_effect D I (fr_role f) (value_field f) ?v (qp_record p) (qp_metadata p) = Some e"
  let ?q = "(noted_parser f ?v p)\<lparr>qp_stack := ?g # f # fs\<rparr>"
  have deep: "depth v + Suc (length (f # fs)) \<le> MAX_DEPTH" if "v \<in> set vs" for v
    using depth_item [OF that] p(4) by simp
  have "leads D I t ?q (?q\<lparr>qp_stack := done_frame ?g # f # fs\<rparr>)"
    by (rule reads_itemsD [OF assms _ _ _ _ _ deep]) (use p(1) in \<open>auto simp: opened_frame_def at_value_def\<close>)
  moreover have "?q\<lparr>qp_stack := done_frame ?g # f # fs\<rparr> = after_value ?g (f # fs) e (noted_parser f ?v p)"
    using e by (cases p) (auto simp: after_value_def noted_parser_def)
  ultimately have "leads D I (91 # t @ [91 + 2]) p (after_value f fs e p)"
    using p(4) by (intro container_leads [OF p(1-3), of 91 ?v "[]" vs RoleOther D I t ?g e]) (auto simp: opened_frame_def)
  then show "leads D I (91 # t @ [93]) p (after_value f fs e p)" by simp
qed

lemma reads_object:
  assumes "reads_members ms t"
  shows "reads_value (JsonObject ms) (123 # t @ [125])"
  unfolding reads_value_def
proof (intro allI impI)
  fix D I p f fs e
  let ?v = "JsonObject ms"
  let ?role = "if fr_role f = RoleRoot \<and> value_field f = FieldPayload then RolePayload else RoleOther"
  let ?g = "opened_frame ?role False" and ?p = "noted_parser f (JsonObject ms) p"
  assume p: "between p" "qp_stack p = f # fs" "at_value f" "depth ?v + Suc (length fs) \<le> MAX_DEPTH"
    and e: "value_effect D I (fr_role f) (value_field f) ?v (qp_record p) (qp_metadata p) = Some e"
  let ?q = "?p\<lparr>qp_stack := ?g # f # fs\<rparr>"
  have "depth (snd m) + Suc (length (f # fs)) \<le> MAX_DEPTH" if "m \<in> set ms" for m
    using depth_member [OF that] p(4) by simp
  moreover have "members_effect D I (fr_role ?g) {} ms (qp_record ?q) (qp_metadata ?q) = Some e"
    using e by (auto simp: opened_frame_def members_effect_other noted_def split: if_splits)
  moreover have "at_key ?g" "seen_fields (fr_seen ?g) {}" "between ?q" "qp_stack ?q = ?g # f # fs"
    using p(1) by (simp_all add: opened_frame_def at_key_def seen_none)
  ultimately obtain g where g: "\<not> fr_array g" "leads D I t ?q (after_value g (f # fs) e ?q)"
    using assms unfolding reads_members_def by blast
  have same: "after_value g (f # fs) e ?q = after_value g (f # fs) e ?p"
    by (simp add: after_value_def)
  have inner: "leads D I t (?p\<lparr>qp_stack := opened_frame ?role (123 = (91 :: u8)) # f # fs\<rparr>)
      (after_value g (f # fs) e ?p)"
    using g(2) unfolding same by simp
  have "leads D I (123 # t @ [123 + 2]) p (after_value f fs e p)"
    by (rule container_leads [OF p(1-3) _ _ _ inner]) (use p(4) g(1) in auto)
  then show "leads D I (123 # t @ [125]) p (after_value f fs e p)" by simp
qed

lemma reads_item: "reads_value v t \<Longrightarrow> spaces w \<Longrightarrow> spaces x \<Longrightarrow> reads_items [v] (w @ t @ x)"
  unfolding reads_items_def [of "[v]"] using item_value by simp

lemma reads_more_items:
  assumes "reads_value v t" "spaces w" "spaces x" "reads_items vs u"
  shows "reads_items (v # vs) (w @ t @ x @ 44 # u)"
  unfolding reads_items_def [of "v # vs"]
proof (intro allI impI)
  fix D I p f fs
  assume p: "between p" "qp_stack p = f # fs" "at_value f" "fr_array f" "fr_role f = RoleOther"
    "\<forall>v \<in> set (v # vs). depth v + Suc (length fs) \<le> MAX_DEPTH"
  let ?f = "f\<lparr>fr_stage := ValueStage\<rparr>"
  let ?q = "p\<lparr>qp_stack := done_frame f # fs\<rparr>" and ?r = "p\<lparr>qp_stack := ?f # fs\<rparr>"
  have one: "leads D I (w @ t @ x) p ?q"
    using item_value [OF assms(1) p(1-5) _ assms(2,3)] p(6) by simp
  have "goes D I [44] ?q ?r"
    using goes_comma [of ?q f fs] p(1,4) by simp
  moreover have "leads D I u ?r (?r\<lparr>qp_stack := done_frame ?f # fs\<rparr>)"
    by (rule reads_itemsD [OF assms(4)]) (use p(1,4-6) in \<open>auto simp: at_value_def\<close>)
  ultimately have "leads D I ([44] @ u) ?q (p\<lparr>qp_stack := done_frame f # fs\<rparr>)"
    by (intro goes_leads_trans) simp_all
  then show "leads D I (w @ t @ x @ 44 # u) p (p\<lparr>qp_stack := done_frame f # fs\<rparr>)"
    using leads_then [OF one, of 44] by (simp add: leads_def delimiter_def del: parse_bytes.simps)
qed

lemma reads_member:
  assumes "string_body k" "reads_value v t" "spaces w" "spaces x" "spaces y" "spaces z"
  shows "reads_members [(k, v)] (w @ 34 # k @ 34 # x @ 58 # y @ t @ z)"
  unfolding reads_members_def
proof (intro allI impI)
  fix D I p f fs seen e
  assume p: "between p" "qp_stack p = f # fs" "at_key f" "seen_fields (fr_seen f) seen"
    "\<forall>m \<in> set [(k, v)]. depth (snd m) + Suc (length fs) \<le> MAX_DEPTH"
    and e: "members_effect D I (fr_role f) seen [(k, v)] (qp_record p) (qp_metadata p) = Some e"
  obtain field where field: "key_field D (fr_role f) k = Some field" "\<not> (field \<noteq> FieldOther \<and> field \<in> seen)"
    "value_effect D I (fr_role f) field v (qp_record p) (qp_metadata p) = Some e"
    using e by (auto split: option.splits if_splits)
  have "leads D I (w @ 34 # k @ 34 # x @ 58 # y @ t @ z) p (after_value (keyed_frame field f) fs e p)"
    using member_value [OF assms(2,1) p(1-3) _ assms(3-6) field(1) seen_clear [OF p(4) field(2)] field(3)] p(5) by simp
  then show "\<exists>f'. \<not> fr_array f' \<and> leads D I (w @ 34 # k @ 34 # x @ 58 # y @ t @ z) p (after_value f' fs e p)"
    using p(3) by (intro exI [of _ "keyed_frame field f"]) (simp add: keyed_frame_def at_key_def)
qed

lemma reads_more_members:
  assumes "string_body k" "reads_value v t" "spaces w" "spaces x" "spaces y" "spaces z" "reads_members ms u"
  shows "reads_members ((k, v) # ms) (w @ 34 # k @ 34 # x @ 58 # y @ t @ z @ 44 # u)"
  unfolding reads_members_def [of "(k, v) # ms"]
proof (intro allI impI)
  fix D I p f fs seen e
  assume p: "between p" "qp_stack p = f # fs" "at_key f" "seen_fields (fr_seen f) seen"
    "\<forall>m \<in> set ((k, v) # ms). depth (snd m) + Suc (length fs) \<le> MAX_DEPTH"
    and e: "members_effect D I (fr_role f) seen ((k, v) # ms) (qp_record p) (qp_metadata p) = Some e"
  obtain field e1 where field: "key_field D (fr_role f) k = Some field" "\<not> (field \<noteq> FieldOther \<and> field \<in> seen)"
    "value_effect D I (fr_role f) field v (qp_record p) (qp_metadata p) = Some e1"
    and rest: "members_effect D I (fr_role f) (insert field seen) ms (fst e1) (snd e1) = Some e"
    using e by (auto split: option.splits if_splits)
  let ?g = "keyed_frame field f" and ?h = "(keyed_frame field f)\<lparr>fr_stage := Key\<rparr>"
  let ?q = "after_value ?g fs e1 p" and ?r = "(after_value ?g fs e1 p)\<lparr>qp_stack := ?h # fs\<rparr>"
  have one: "leads D I (w @ 34 # k @ 34 # x @ 58 # y @ t @ z) p ?q"
    using member_value [OF assms(2,1) p(1-3) _ assms(3-6) field(1) seen_clear [OF p(4) field(2)] field(3)] p(5) by simp
  have array: "\<not> fr_array ?g" using p(3) by (simp add: keyed_frame_def at_key_def)
  have "goes D I [44] ?q ?r"
    using goes_comma [of ?q ?g fs] p(1) array by simp
  moreover have "at_key ?h" "seen_fields (fr_seen ?h) (insert field seen)" "between ?r" "qp_stack ?r = ?h # fs"
    "members_effect D I (fr_role ?h) (insert field seen) ms (qp_record ?r) (qp_metadata ?r) = Some e"
    using p(1,3) seen_fields_insert [OF p(4)] rest by (simp_all add: keyed_frame_def at_key_def)
  then obtain f' where f': "\<not> fr_array f'" "leads D I u ?r (after_value f' fs e ?r)"
    using assms(7) p(5) unfolding reads_members_def by (meson list.set_intros(2))
  moreover have "after_value f' fs e ?r = after_value f' fs e p"
    by (simp add: after_value_def)
  ultimately have "leads D I ([44] @ u) ?q (after_value f' fs e p)"
    by (intro goes_leads_trans) simp_all
  then have "leads D I ((w @ 34 # k @ 34 # x @ 58 # y @ t @ z) @ 44 # u) p (after_value f' fs e p)"
    using leads_then [OF one, of 44] by (simp add: leads_def delimiter_def del: parse_bytes.simps)
  then show "\<exists>f'. \<not> fr_array f' \<and> leads D I (w @ 34 # k @ 34 # x @ 58 # y @ t @ z @ 44 # u) p (after_value f' fs e p)"
    using f'(1) by (intro exI [of _ f']) simp
qed

lemma texts_read:
  "json_text v t \<Longrightarrow> reads_value v t" "items_text vs t \<Longrightarrow> reads_items vs t" "members_text ms t \<Longrightarrow> reads_members ms t"
proof (induction rule: json_text_items_text_members_text.inducts)
  case text_null
  then show ?case
    unfolding reads_value_def using value_literal [of _ _ _ "[110, 117, 108, 108]" JsonNull] by (auto intro: goes_leads)
next
  case text_true
  then show ?case
    unfolding reads_value_def using value_literal [of _ _ _ "[116, 114, 117, 101]" JsonTrue] by (auto intro: goes_leads)
next
  case text_false
  then show ?case
    unfolding reads_value_def using value_literal [of _ _ _ "[102, 97, 108, 115, 101]" JsonFalse] by (auto intro: goes_leads)
next
  case (text_number n)
  then show ?case
    unfolding reads_value_def using value_number by auto
next
  case (text_string s)
  then show ?case
    unfolding reads_value_def using value_string [of _ _ _ s] by (blast intro: goes_leads)
next
  case (text_empty_array w)
  then show ?case using reads_empty [of w 91 "JsonArray []"] by simp
next
  case (text_empty_object w)
  then show ?case using reads_empty [of w 123 "JsonObject []"] by simp
qed (blast intro: reads_array reads_object reads_item reads_more_items reads_member reads_more_members)+

section \<open>Lines of a transcript\<close>

definition blanks :: "u8 list \<Rightarrow> bool" where
  "blanks x \<longleftrightarrow> list_all (\<lambda>b. b = 32 \<or> b = 9 \<or> b = 13) x"

text \<open>A line holds one object, nested no deeper than the reader follows, and stands for a record.\<close>

definition document_line :: "string_decoder \<Rightarrow> (str \<Rightarrow> str) \<Rightarrow> u8 list \<Rightarrow> transcript_record \<Rightarrow> bool" where
  "document_line D I line r \<longleftrightarrow> (\<exists>w ms t x. line = w @ t @ x @ [10] \<and> spaces w \<and> blanks x
     \<and> json_text (JsonObject ms) t \<and> depth (JsonObject ms) \<le> MAX_DEPTH \<and> document_record D I ms = Some r)"

lemma root_object:
  assumes "json_text (JsonObject ms) t" and "depth (JsonObject ms) \<le> MAX_DEPTH"
    and "document_record D I ms = Some r"
  shows "\<exists>m. goes D I t parser_default (parser_default\<lparr>qp_record := r, qp_metadata := m, qp_complete := True\<rparr>)"
proof -
  let ?g = "opened_frame RoleRoot False"
  let ?p = "parser_default\<lparr>qp_stack := [?g]\<rparr>"
  have p: "between ?p" by (simp add: parser_default_def)
  have start: "goes D I [123] parser_default ?p"
    by (simp add: feed_between parser_default_def json_space_def push_frame_def opened_frame_def MAX_DEPTH_def)
  obtain m where e: "members_effect D I RoleRoot {} ms record_default 0 = Some (r, m)"
    using assms(3) by (auto simp: document_record_def)
  have default: "qp_record parser_default = record_default" "qp_metadata parser_default = 0"
    by (simp_all add: parser_default_def)
  consider w where "ms = []" "t = 123 # w @ [125]" "spaces w"
    | u where "t = 123 # u @ [125]" "members_text ms u"
    using assms(1) by (cases rule: json_text.cases) auto
  then show ?thesis
  proof cases
    case (1 w)
    have "goes D I w ?p ?p" by (rule goes_spaces [OF p 1(3)])
    moreover have "goes D I [125] ?p (?p\<lparr>qp_stack := [], qp_complete := True\<rparr>)"
      by (rule goes_close_root [OF p]) (auto simp: opened_frame_def)
    ultimately have "goes D I ([123] @ w @ [125]) parser_default (?p\<lparr>qp_stack := [], qp_complete := True\<rparr>)"
      by (rule goes_append [OF start goes_append])
    moreover have "?p\<lparr>qp_stack := [], qp_complete := True\<rparr>
        = parser_default\<lparr>qp_record := r, qp_metadata := m, qp_complete := True\<rparr>"
      using e 1(1) by (simp add: parser_default_def)
    ultimately show ?thesis using 1(2) by (intro exI [of _ m]) simp
  next
    case (2 u)
    have "depth (snd x) + Suc (length ([] :: frame list)) \<le> MAX_DEPTH" if "x \<in> set ms" for x
      using depth_member [OF that] assms(2) by simp
    moreover have "members_effect D I (fr_role ?g) {} ms (qp_record ?p) (qp_metadata ?p) = Some (r, m)"
      using e by (simp add: default opened_frame_def)
    moreover have "at_key ?g" "seen_fields (fr_seen ?g) {}" "qp_stack ?p = [?g]"
      by (simp_all add: opened_frame_def at_key_def seen_none)
    ultimately obtain f where f: "\<not> fr_array f" "leads D I u ?p (after_value f [] (r, m) ?p)"
      using texts_read(3) [OF 2(2)] p unfolding reads_members_def by blast
    let ?q = "after_value f [] (r, m) ?p"
    have "goes D I [125] ?q (?q\<lparr>qp_stack := [], qp_complete := True\<rparr>)"
      by (rule goes_close_root [of _ "done_frame f"]) (use p f(1) in auto)
    then have "goes D I (u @ [125]) ?p (?q\<lparr>qp_stack := [], qp_complete := True\<rparr>)"
      using leads_goes [OF f(2), of 125 "[]"] by (simp add: delimiter_def)
    from goes_append [OF start this]
    have "goes D I t parser_default (?q\<lparr>qp_stack := [], qp_complete := True\<rparr>)" using 2(1) by simp
    moreover have "?q\<lparr>qp_stack := [], qp_complete := True\<rparr>
        = parser_default\<lparr>qp_record := r, qp_metadata := m, qp_complete := True\<rparr>"
      by (simp add: after_value_def parser_default_def)
    ultimately show ?thesis by (intro exI [of _ m]) simp
  qed
qed

lemma goes_blanks: "qp_token p = None \<Longrightarrow> qp_complete p \<Longrightarrow> blanks x \<Longrightarrow> goes D I x p p"
proof (induction x)
  case (Cons b x)
  then have "feed D I b p = Inr (p, None)"
    by (auto simp: blanks_def feed_def feed_structure_def no_token)
  then show ?case using Cons by (simp add: blanks_def)
qed simp

lemma document_line_read:
  assumes "document_line D I line r"
  shows "parse_bytes D I line parser_default = Inr (parser_default, [r])"
proof -
  obtain w ms t x where line: "line = w @ t @ x @ [10]" "spaces w" "blanks x"
    "json_text (JsonObject ms) t" "depth (JsonObject ms) \<le> MAX_DEPTH" "document_record D I ms = Some r"
    using assms by (auto simp: document_line_def)
  obtain m where m: "goes D I t parser_default (parser_default\<lparr>qp_record := r, qp_metadata := m, qp_complete := True\<rparr>)"
    using root_object [OF line(4-6)] by blast
  let ?q = "parser_default\<lparr>qp_record := r, qp_metadata := m, qp_complete := True\<rparr>"
  have "goes D I w parser_default parser_default"
    by (rule goes_spaces) (use line(2) in \<open>auto simp: parser_default_def\<close>)
  moreover have "goes D I x ?q ?q"
    by (rule goes_blanks) (use line(3) in \<open>auto simp: parser_default_def\<close>)
  ultimately have "goes D I (w @ t @ x) parser_default ?q"
    using m by (blast intro: goes_append)
  moreover have "parse_bytes D I [10] ?q = Inr (parser_default, [r])"
    by (simp add: feed_def feed_structure_def parser_default_def)
  ultimately have "parse_bytes D I ((w @ t @ x) @ [10]) parser_default = Inr (parser_default, [r])"
    by (simp only: parse_bytes_append) simp
  then show ?thesis by (simp add: line(1))
qed

lemma lines_read:
  "list_all2 (document_line D I) lines rs \<Longrightarrow>
    parse_bytes D I (concat lines) parser_default = Inr (parser_default, rs)"
proof (induction rule: list_all2_induct)
  case (Cons line lines r rs)
  have "parse_bytes D I line parser_default = Inr (parser_default, [r])"
    using Cons(1) document_line_read by blast
  then show ?case using Cons(3) by (simp add: parse_bytes_append)
qed simp

end
