(* ===== verification/TranscriptTheorems.thy ===== *)
theory TranscriptTheorems
  imports TranscriptHistory TranscriptDocuments
begin

text \<open>
  The reader on whole transcripts: from the lines of the file, in any slices, to the order of the
  turns.
\<close>

section \<open>Whole transcripts\<close>

text \<open>
  C34. When the reader has read a transcript of well-formed records to its end, in
  whatever slices, it proves that a turn ended before another began exactly when the
  records say so.
\<close>

theorem transcript_order_proved:
  assumes "list_all2 (document_line D I) lines rs" and "slices_data calls = concat lines"
    and "read_slices D I calls (cursor_new locator digest) = Inr c"
  shows "proves c issued submitted \<longleftrightarrow> issued \<noteq> submitted \<and> ordered_turns rs issued submitted"
proof -
  obtain rs' where "parse_bytes D I (slices_data calls) parser_default = Inr (cu_parser c, rs')" "has_read rs' c"
    using slices_history [OF assms(3)] by blast
  then show ?thesis
    using lines_read [OF assms(1)] assms(2) proves_iff_ordered by simp
qed

text \<open>In the same situation the session counts as idle exactly when every turn in the transcript is
  over and the turn that was started last was completed without an error.\<close>

theorem transcript_idle:
  assumes "list_all2 (document_line D I) lines rs" and "slices_data calls = concat lines"
    and "read_slices D I calls (cursor_new locator digest) = Inr c"
  shows "cursor_idle c \<longleftrightarrow> all_turns_over rs \<and> latest_turn_completed rs"
  using lines_read [OF assms(1)] assms(2) idle_iff [OF assms(3)] by simp

text \<open>A cursor that has once failed on the history proves nothing and is never idle, whatever is
  read later.\<close>

theorem unknown_history_stays_unknown:
  assumes "read_slice D I env budget c = (c', Inl HistoryUnknown)"
  shows "\<not> proves c' issued submitted \<and> \<not> cursor_idle c'
    \<and> read_slice D I env' budget' c' = (c', Inl HistoryUnknown)"
proof -
  have "cu_unknown c'"
    using assms by (auto simp: read_slice_def split: if_splits prod.splits)
  then show ?thesis
    by (simp add: proves_def cursor_idle_def quiescent_def header_verified_def read_slice_def)
qed

section \<open>Histories are accepted\<close>

lemma read_loop_result:
  "feed_bytes D I (slice_data env budget n done) c = (d, Inr ()) \<Longrightarrow> (\<And>k. sl_read env k \<noteq> None) \<Longrightarrow>
    read_loop D I env budget n done c = (d, Inr (done + length (slice_data env budget n done)))"
proof (induction D I env budget n "done" c arbitrary: d rule: read_loop.induct)
  case (1 D I env budget n "done" c)
  show ?case
  proof (cases "done \<ge> budget \<or> sl_expired env n")
    case True
    then show ?thesis
      using 1(2) by (simp add: read_loop.simps [of D I env budget n "done"] slice_data.simps [of env budget n "done"])
  next
    case False
    obtain available where some: "sl_read env n = Some available"
      using 1(3) by blast
    define chunk where "chunk = take (min (budget - done) READ_BUFFER_BYTES) available"
    have loop: "read_loop D I env budget n done c = (if chunk = [] then (c, Inr done)
        else (case consume D I chunk c of (d, Inl e) \<Rightarrow> (d, Inl e)
          | (d, Inr _) \<Rightarrow> read_loop D I env budget (Suc n) (done + length chunk) d))"
      using False some by (simp only: read_loop.simps [of D I env budget n "done" c] Let_def chunk_def if_False option.case)
    have data: "slice_data env budget n done = (if chunk = [] then []
        else chunk @ slice_data env budget (Suc n) (done + length chunk))"
      using False some by (simp only: slice_data.simps [of env budget n "done"] Let_def chunk_def if_False option.case)
    show ?thesis
    proof (cases "chunk = []")
      case True
      then show ?thesis using 1(2) loop data by simp
    next
      case chunk: False
      then obtain e where e: "consume D I chunk c = (e, Inr ())"
        "feed_bytes D I (slice_data env budget (Suc n) (done + length chunk)) e = (d, Inr ())"
        using 1(2) data by (auto simp: feed_bytes_append consume_feed_bytes split: prod.splits sum.splits)
      from 1(1) [OF False some chunk_def chunk e(1) [symmetric] refl e(2) 1(3)]
      show ?thesis using loop data chunk e(1) by simp
    qed
  qed
qed

lemma slice_end_placed: "slice_end env before (placed p n c) = slice_end env before (placed q n d)"
  by (simp add: slice_end_def split: option.split)

text \<open>
  C35. A slice over unread lines whose records continue the history of the cursor is
  accepted: all its bytes are read, no record is left partial, the cursor holds the turns
  of the records, and its history stays known.
\<close>

theorem history_accepted:
  assumes "list_all2 (document_line D I) lines rs" and "apply_records rs c = Inr d"
    and "cu_parser c = parser_default" "\<not> cu_unknown c"
    and "slice_start env c = Inr before" "\<And>k. sl_read env k \<noteq> None"
    and "slice_data env (min budget SLICE_BYTES) 0 0 = concat lines"
    and "slice_end env before (c\<lparr>cu_offset := cu_offset c + of_nat (length (concat lines))\<rparr>) = Inr after"
  shows "\<exists>c' more. read_slice D I env budget c =
      (c', Inr \<lparr>sr_bytes = length (concat lines), sr_more = more, sr_partial = False\<rparr>)
    \<and> cu_turns c' = cu_turns d \<and> cu_header c' = cu_header d \<and> \<not> cu_unknown c'"
proof -
  let ?n = "cu_offset c + of_nat (length (concat lines))"
  let ?d = "placed parser_default ?n d"
  have "feed_bytes D I (concat lines) c = (?d, Inr ())"
    using history_read [OF lines_read [OF assms(1)] assms(2), of "cu_offset c"]
      placed_simps(4) [of c] unfolding assms(3) by simp
  then have "read_loop D I env (min budget SLICE_BYTES) 0 0 c = (?d, Inr (length (concat lines)))"
    using read_loop_result [of D I env "min budget SLICE_BYTES" 0 0 c ?d] assms(6,7) by simp
  moreover have "slice_end env before ?d = Inr after"
    using assms(8) slice_end_placed [of env before parser_default ?n d "cu_parser c" c]
    by (simp add: placed_def)
  moreover have "cu_unknown d' = cu_unknown e" if "apply_records xs e = Inr d'" for xs e d'
    using that by (induction xs arbitrary: e) (auto simp: apply_records_def result_simps dest: apply_record_parser)
  then have "\<not> cu_unknown d" using assms(2,4) by blast
  ultimately show ?thesis
    using assms(4,5) by (simp add: read_slice_def read_slice_inner_def parser_empty_def parser_default_def placed_def)
qed

section \<open>Rendered documents\<close>

text \<open>The text of a document without white space, for the documents whose pieces are well formed.\<close>

fun render :: "json \<Rightarrow> u8 list" and render_items :: "json list \<Rightarrow> u8 list"
  and render_members :: "(u8 list \<times> json) list \<Rightarrow> u8 list" where
  "render JsonNull = [110, 117, 108, 108]"
| "render JsonTrue = [116, 114, 117, 101]"
| "render JsonFalse = [102, 97, 108, 115, 101]"
| "render (JsonNumber n) = n"
| "render (JsonString s) = 34 # s @ [34]"
| "render (JsonArray vs) = 91 # render_items vs @ [93]"
| "render (JsonObject ms) = 123 # render_members ms @ [125]"
| "render_items [] = []"
| "render_items (v # vs) = render v @ (if vs = [] then [] else 44 # render_items vs)"
| "render_members [] = []"
| "render_members ((k, v) # ms) = 34 # k @ 34 # 58 # render v @ (if ms = [] then [] else 44 # render_members ms)"

fun well_formed :: "json \<Rightarrow> bool" and items_formed :: "json list \<Rightarrow> bool"
  and members_formed :: "(u8 list \<times> json) list \<Rightarrow> bool" where
  "well_formed (JsonNumber n) = number_text n"
| "well_formed (JsonString s) = string_body s"
| "well_formed (JsonArray vs) = items_formed vs"
| "well_formed (JsonObject ms) = members_formed ms"
| "well_formed _ = True"
| "items_formed [] = True"
| "items_formed (v # vs) = (well_formed v \<and> items_formed vs)"
| "members_formed [] = True"
| "members_formed ((k, v) # ms) = (string_body k \<and> well_formed v \<and> members_formed ms)"

lemma no_spaces [simp]: "spaces []"
  by (simp add: spaces_def)

lemma render_text:
  "well_formed v \<Longrightarrow> json_text v (render v)"
  "items_formed vs \<Longrightarrow> vs \<noteq> [] \<Longrightarrow> items_text vs (render_items vs)"
  "members_formed ms \<Longrightarrow> ms \<noteq> [] \<Longrightarrow> members_text ms (render_members ms)"
proof (induction v and vs and ms rule: render_render_items_render_members.induct)
  case (6 vs)
  then show ?case
    using text_empty_array [of "[]"] by (cases "vs = []") (auto intro: text_array)
next
  case (7 ms)
  then show ?case
    using text_empty_object [of "[]"] by (cases "ms = []") (auto intro: text_object)
next
  case (9 v vs)
  then show ?case
    using text_item [of v "render v" "[]" "[]"] text_items [of v "render v" "[]" "[]" vs "render_items vs"]
    by (cases "vs = []") auto
next
  case (11 k v ms)
  then show ?case
    using text_member [of k v "render v" "[]" "[]" "[]" "[]"]
      text_members [of k v "render v" "[]" "[]" "[]" "[]" ms "render_members ms"]
    by (cases "ms = []") auto
qed (auto intro: json_text_items_text_members_text.intros)

text \<open>The reader inverts rendering: the line of a well-formed object gives back the record of the
  object.\<close>

theorem rendered_document_read:
  assumes "well_formed (JsonObject ms)" and "depth (JsonObject ms) \<le> MAX_DEPTH"
    and "document_record D I ms = Some r"
  shows "parse_bytes D I (render (JsonObject ms) @ [10]) parser_default = Inr (parser_default, [r])"
proof (rule document_line_read)
  have "render (JsonObject ms) @ [10] = [] @ render (JsonObject ms) @ [] @ [10]" by simp
  moreover have "blanks []" by (simp add: blanks_def)
  ultimately show "document_line D I (render (JsonObject ms) @ [10]) r"
    using render_text(1) [OF assms(1)] assms(2,3) no_spaces unfolding document_line_def by blast
qed

end
