(* ===== verification/TranscriptWitnesses.thy ===== *)
theory TranscriptWitnesses
  imports TranscriptTheorems "HOL-Library.Code_Target_Numeral"
begin

text \<open>
  A concrete transcript: the header, a turn that is started and completed, and the start of the
  next one, read in one slice. The decoder reads ASCII strings without escapes.
\<close>

definition ascii :: "string \<Rightarrow> u8 list" where
  "ascii s = map of_char s"

definition ascii_decoder :: string_decoder where
  "ascii_decoder bs = Some (map unat (butlast (tl bs)))"

definition same_text :: "str \<Rightarrow> str" where
  "same_text v = v"

lemma plain_body: "list_all plain_ascii raw \<Longrightarrow> string_body raw"
proof -
  assume raw: "list_all plain_ascii raw"
  have "raw = concat (map (\<lambda>b. [b]) raw)" by (induction raw) auto
  moreover have "list_all string_unit (map (\<lambda>b. [b]) raw)"
    using raw by (auto simp: list_all_iff intro: plain)
  ultimately show ?thesis unfolding string_body_def by blast
qed

definition member :: "string \<Rightarrow> string \<Rightarrow> u8 list \<times> json" where
  "member k v = (ascii k, JsonString (ascii v))"

definition header_object :: "(u8 list \<times> json) list" where
  "header_object = [member ''type'' ''session_meta'',
     (ascii ''payload'', JsonObject [member ''id'' ''s'', member ''thread_source'' ''user''])]"

definition event_object :: "string \<Rightarrow> string \<Rightarrow> (u8 list \<times> json) list" where
  "event_object e i = [member ''type'' ''event_msg'',
     (ascii ''payload'', JsonObject [member ''type'' e, member ''turn_id'' i])]"

definition sample_objects :: "(u8 list \<times> json) list list" where
  "sample_objects = [header_object, event_object ''turn_started'' ''a'', event_object ''turn_complete'' ''a'',
     event_object ''turn_started'' ''b'']"

definition sample_lines :: "u8 list list" where
  "sample_lines = map (\<lambda>ms. render (JsonObject ms) @ [10]) sample_objects"

definition sample_records :: "transcript_record list" where
  "sample_records = map (\<lambda>ms. the (document_record ascii_decoder same_text ms)) sample_objects"

definition locator1 :: transcript_locator where
  "locator1 = \<lparr>tl_home = lit ''/h'', tl_transcript = lit ''/h/sessions/t'', tl_dev = 1, tl_ino = 2\<rparr>"

definition stat1 :: slice_stat where
  "stat1 = \<lparr>ss_regular = True, ss_dev = 1, ss_ino = 2, ss_len = 1000\<rparr>"

fun never_expired :: "nat \<Rightarrow> bool" where "never_expired n = False"

fun sample_read :: "nat \<Rightarrow> u8 list option" where
  "sample_read n = (if n = 0 then Some (concat sample_lines) else Some [])"

definition whole_file :: slice_environment where
  "whole_file = \<lparr>sl_matches = True, sl_open = True, sl_before = Some stat1, sl_seek = True,
     sl_expired = never_expired, sl_read = sample_read, sl_after = Some stat1, sl_matches_after = True\<rparr>"

lemma sample_data: "slice_data whole_file (min 4096 SLICE_BYTES) 0 0 = concat sample_lines"
    "slices_data [(whole_file, 4096)] = concat sample_lines"
  by code_simp+

lemma sample_documents: "list_all2 (document_line ascii_decoder same_text) sample_lines sample_records"
proof -
  have formed: "list_all (\<lambda>ms. members_formed ms) sample_objects"
  proof -
    have "list_all plain_ascii (ascii k)" if "k \<in> {''type'', ''payload'', ''id'', ''thread_source'', ''turn_id'',
        ''session_meta'', ''s'', ''user'', ''event_msg'', ''turn_started'', ''turn_complete'', ''a'', ''b''}" for k
      using that by (elim insertE; clarify) code_simp+
    then show ?thesis
      by (simp add: sample_objects_def header_object_def event_object_def member_def plain_body)
  qed
  have "list_all (\<lambda>ms. depth (JsonObject ms) \<le> MAX_DEPTH \<and> document_record ascii_decoder same_text ms \<noteq> None) sample_objects"
    by code_simp
  then have "document_line ascii_decoder same_text (render (JsonObject ms) @ [10])
      (the (document_record ascii_decoder same_text ms))" if "ms \<in> set sample_objects" for ms
    using formed that render_text(1) [of "JsonObject ms"]
    unfolding document_line_def list_all_iff
    by (intro exI [of _ "[]"] exI [of _ ms] exI [of _ "render (JsonObject ms)"]) (auto simp: blanks_def)
  then show ?thesis
    unfolding sample_lines_def sample_records_def by (simp add: list_all2_map1 list_all2_map2 list_all2_same)
qed

lemma sample_ordered: "ordered_turns sample_records (lit ''a'') (lit ''b'')"
proof -
  have "event_at sample_records 2 KindStart (lit ''a'') \<and> event_at sample_records 3 KindComplete (lit ''a'')
      \<and> \<not> tr_error (sample_records ! (3 - 1)) \<and> event_at sample_records 4 KindStart (lit ''b'')"
    by code_simp
  then show ?thesis unfolding ordered_turns_def by force
qed

definition first_cursor :: cursor where
  "first_cursor = cursor_new locator1 (lit ''s'')"

lemma sample_history: "\<exists>d. apply_records sample_records first_cursor = Inr d"
proof -
  have "is_ok (apply_records sample_records first_cursor)" by code_simp
  then show ?thesis by (cases "apply_records sample_records first_cursor") auto
qed

lemma sample_environment:
  "cu_parser first_cursor = parser_default" "\<not> cu_unknown first_cursor" "slice_start whole_file first_cursor = Inr stat1"
  "sl_read whole_file k \<noteq> None"
  "slice_end whole_file stat1 (first_cursor\<lparr>cu_offset := cu_offset first_cursor + of_nat (length (concat sample_lines))\<rparr>)
    = Inr stat1"
proof -
  show "slice_end whole_file stat1 (first_cursor\<lparr>cu_offset := cu_offset first_cursor + of_nat (length (concat sample_lines))\<rparr>)
    = Inr stat1" "cu_parser first_cursor = parser_default" "\<not> cu_unknown first_cursor"
    "slice_start whole_file first_cursor = Inr stat1"
    by code_simp+
  show "sl_read whole_file k \<noteq> None" by (simp add: whole_file_def)
qed

theorem history_accepted_witness:
  "\<exists>c' more. read_slice ascii_decoder same_text whole_file 4096 first_cursor =
      (c', Inr \<lparr>sr_bytes = length (concat sample_lines), sr_more = more, sr_partial = False\<rparr>)
    \<and> cu_header c' \<and> \<not> cu_unknown c'"
proof -
  obtain d where d: "apply_records sample_records first_cursor = Inr d"
    using sample_history by blast
  have "cu_header d" if "apply_records sample_records first_cursor = Inr d" for d
  proof -
    have "case apply_records sample_records first_cursor of Inl _ \<Rightarrow> False | Inr d \<Rightarrow> cu_header d" by code_simp
    then show ?thesis using that by simp
  qed
  then show ?thesis
    using history_accepted [OF sample_documents d sample_environment(1-4) sample_data(1) sample_environment(5)] d by metis
qed

lemma sample_read: "\<exists>c. read_slices ascii_decoder same_text [(whole_file, 4096)] first_cursor = Inr c"
proof -
  obtain d where d: "apply_records sample_records first_cursor = Inr d"
    using sample_history by blast
  have "feed_bytes ascii_decoder same_text (concat sample_lines) first_cursor
      = (placed parser_default (cu_offset first_cursor + of_nat (length (concat sample_lines))) d, Inr ())"
    using history_read [OF lines_read [OF sample_documents] d, of "cu_offset first_cursor"]
      placed_simps(4) [of first_cursor] unfolding sample_environment(1) by simp
  then have feeds: "feed_bytes ascii_decoder same_text (slice_data whole_file (min 4096 SLICE_BYTES) 0 0) first_cursor
      = (placed parser_default (cu_offset first_cursor + of_nat (length (concat sample_lines))) d, Inr ())"
    by (simp only: sample_data(1))
  obtain n where "read_loop ascii_decoder same_text whole_file (min 4096 SLICE_BYTES) 0 0 first_cursor
      = (placed parser_default (cu_offset first_cursor + of_nat (length (concat sample_lines))) d, Inr n)"
    using read_loop_result [OF feeds sample_environment(4)] by blast
  moreover have "slice_end whole_file stat1 (placed parser_default (cu_offset first_cursor
      + of_nat (length (concat sample_lines))) d) = Inr stat1"
    using sample_environment(5) slice_end_placed [of whole_file stat1 parser_default _ d "cu_parser first_cursor" first_cursor]
    by (simp add: placed_def)
  ultimately show ?thesis
    using sample_environment(2,3) by (simp add: read_slice_def read_slice_inner_def)
qed

theorem transcript_order_proved_witness:
  "\<exists>c. read_slices ascii_decoder same_text [(whole_file, 4096)] (cursor_new locator1 (lit ''s'')) = Inr c
    \<and> proves c (lit ''a'') (lit ''b'')"
proof -
  obtain c where c: "read_slices ascii_decoder same_text [(whole_file, 4096)] (cursor_new locator1 (lit ''s'')) = Inr c"
    using sample_read by (auto simp: first_cursor_def)
  from transcript_order_proved [OF sample_documents sample_data(2) this, of "lit ''a''" "lit ''b''"] show ?thesis
    using c sample_ordered by simp
qed

end
