(* ===== verification/QuestionNotices.thy ===== *)
theory QuestionNotices
  imports QuestionResolver
begin

text \<open>
  The question notices (\<open>question_notice/mod.rs\<close>, \<open>storage.rs\<close>, \<open>text.rs\<close>, \<open>reply.rs\<close>): which questions an
  agent has issued, up to which one they are acknowledged, the items a reply can answer, and the
  sidecar file that keeps_owner them over a restart.
\<close>

section \<open>Fingerprints and replies\<close>

definition MAX_QUESTIONS :: nat where "MAX_QUESTIONS = 8"
definition MAX_OPTIONS :: nat where "MAX_OPTIONS = 16"
definition MAX_TEXT_BYTES :: nat where "MAX_TEXT_BYTES = 16 * 1024"
definition MAX_ITEMS :: nat where "MAX_ITEMS = 64"
definition MAX_ISSUED_ITEMS :: nat where "MAX_ISSUED_ITEMS = MAX_QUESTIONS"

definition valid_digest :: "str \<Rightarrow> bool" where
  "valid_digest v \<longleftrightarrow> text_len v = 64 \<and> list_all is_lower_hex v"

record question_fingerprint =
  qf_title :: str
  qf_options :: "str list"

datatype question_evidence = EvidenceUnavailable | Fingerprints "question_fingerprint list"

text \<open>What \<open>Value::as_str\<close> and \<open>as_array\<close> find in the tool input, \<open>null\<close> options being none.\<close>

record tool_question =
  tq_title :: "str option"
  tq_options :: "str option list option option"

definition normalize_question :: "str \<Rightarrow> str" where
  "normalize_question t = filter (\<lambda>c. \<not> is_whitespace c) t"

definition fingerprint_text :: "(str \<Rightarrow> str) \<Rightarrow> str \<Rightarrow> str" where
  "fingerprint_text H t = H (normalize_question t)"

text \<open>The strings of a question, title first.\<close>

definition question_strings :: "tool_question \<Rightarrow> str list option" where
  "question_strings q = (case tq_title q of
      None \<Rightarrow> None
    | Some title \<Rightarrow> (case tq_options q of
        None \<Rightarrow> Some [title]
      | Some None \<Rightarrow> None
      | Some (Some options) \<Rightarrow>
          if options = [] \<or> length options > MAX_OPTIONS then None
          else if list_ex (\<lambda>v. v = None) options then None
          else Some (title # map the options)))"

definition question_text_ok :: "str \<Rightarrow> bool" where
  "question_text_ok t \<longleftrightarrow> normalize_question t \<noteq> [] \<and> \<not> list_ex (\<lambda>c. is_control c \<and> \<not> is_whitespace c) t"

fun count_text :: "nat \<Rightarrow> str list \<Rightarrow> nat option" where
  "count_text bytes [] = Some bytes"
| "count_text bytes (t # ts) =
    (let bytes = bytes + text_len t
     in if bytes > MAX_TEXT_BYTES \<or> \<not> question_text_ok t then None else count_text bytes ts)"

fun fingerprint_questions :: "(str \<Rightarrow> str) \<Rightarrow> nat \<Rightarrow> tool_question list \<Rightarrow> question_fingerprint list option" where
  "fingerprint_questions H bytes [] = Some []"
| "fingerprint_questions H bytes (q # qs) = (case question_strings q of
      None \<Rightarrow> None
    | Some strings \<Rightarrow> (case count_text bytes strings of
        None \<Rightarrow> None
      | Some bytes \<Rightarrow> (case fingerprint_questions H bytes qs of
          None \<Rightarrow> None
        | Some fs \<Rightarrow> Some (\<lparr>qf_title = fingerprint_text H (hd strings),
            qf_options = map (fingerprint_text H) (tl strings)\<rparr> # fs))))"

definition from_tool_input :: "(str \<Rightarrow> str) \<Rightarrow> tool_question list option \<Rightarrow> question_evidence" where
  "from_tool_input H input = (case input of
      None \<Rightarrow> EvidenceUnavailable
    | Some questions \<Rightarrow>
        if questions = [] \<or> length questions > MAX_QUESTIONS then EvidenceUnavailable
        else (case fingerprint_questions H 0 questions of
          None \<Rightarrow> EvidenceUnavailable
        | Some fs \<Rightarrow> Fingerprints fs))"

definition evidence_valid :: "question_evidence \<Rightarrow> bool" where
  "evidence_valid e \<longleftrightarrow> (case e of
      EvidenceUnavailable \<Rightarrow> True
    | Fingerprints qs \<Rightarrow> qs \<noteq> [] \<and> length qs \<le> MAX_QUESTIONS
        \<and> list_all (\<lambda>q. length (qf_options q) \<le> MAX_OPTIONS \<and> list_all valid_digest (qf_title q # qf_options q)) qs)"

definition evidence_matches :: "(str \<Rightarrow> str) \<Rightarrow> question_evidence \<Rightarrow> str \<Rightarrow> str list \<Rightarrow> bool" where
  "evidence_matches H e title options \<longleftrightarrow> (case e of
      EvidenceUnavailable \<Rightarrow> False
    | Fingerprints qs \<Rightarrow> list_ex (\<lambda>q. qf_title q = fingerprint_text H title
        \<and> qf_options q = map (fingerprint_text H) options) qs)"

type_synonym reply_evidence = "str list"

definition reply_valid :: "reply_evidence \<Rightarrow> bool" where
  "reply_valid items \<longleftrightarrow> items \<noteq> [] \<and> length items \<le> MAX_ITEMS
     \<and> length (bs_of_list items) = length items \<and> list_all valid_digest items"

section \<open>State\<close>

definition MAX_OWNERS :: nat where "MAX_OWNERS = 512"
definition MAX_KEYS_PER_OWNER :: nat where "MAX_KEYS_PER_OWNER = 4096"
definition MAX_KEYS :: nat where "MAX_KEYS = 65536"
definition REPLY_COMMIT_RESERVE :: nat where "REPLY_COMMIT_RESERVE = milliseconds 40"
definition RETRY_INTERVAL :: nat where "RETRY_INTERVAL = milliseconds 5000"
definition MAX_TEXT_NOTICES :: nat where "MAX_TEXT_NOTICES = 2048"
definition MAX_TEXT_NOTICES_PER_OWNER :: nat where "MAX_TEXT_NOTICES_PER_OWNER = 512"
definition MAX_CAPTURE_FINGERPRINTS :: nat where "MAX_CAPTURE_FINGERPRINTS = 512"
definition NOTICE_MAX_BYTES :: nat where "NOTICE_MAX_BYTES = 16 * 1024 * 1024"

datatype notice_reason = NoticeInvalidPayload | NoticeOriginUnverified | NoticeAncestorNotInPane
  | NoticeOwnerUnverified | NoticeCapacityExceeded | NoticePersistencePending | NoticeInvalidSidecar
  | NoticeFsyncFailed

datatype notice_disposition = NoticeApplied | NoticeDuplicate | NoticeRejected
datatype notice_durability = NoticePersisted | NoticeMemoryOnly

record notice_result =
  nr_disposition :: notice_disposition
  nr_durability :: "notice_durability option"
  nr_reason :: "notice_reason option"

record notice_summary =
  ns_unacknowledged :: bool
  ns_owner_ref :: "str option"
  ns_latest_order :: u64
  ns_acknowledged_order :: u64
  ns_last_issued_at :: "i64 option"
  ns_degraded :: bool
  ns_reason :: "notice_reason option"

record notice_state =
  qs_pane :: pane_instance
  qs_process :: agent_process_identity
  qs_owner_ref :: str
  qs_latest :: u64
  qs_acknowledged :: u64
  qs_last_issued_at :: i64
  qs_seen :: "str list"

record reply_items =
  ri_session :: str
  ri_items :: "str list"
  ri_pending :: "str list"

text \<open>The digests: SHA-256 of the \<open>serde_json\<close> encoding of a tuple, in hexadecimal.\<close>

record notice_digests =
  nd_key :: "str \<times> str \<times> str \<Rightarrow> str"
  nd_owner :: "str \<Rightarrow> pane_instance \<Rightarrow> agent_process_identity \<Rightarrow> str"
  nd_call :: "str \<Rightarrow> str \<Rightarrow> str"
  nd_item :: "str \<Rightarrow> nat \<Rightarrow> str"
  nd_identifier :: "str \<Rightarrow> str"

record notices =
  qn_resolver :: resolver
  qn_owners :: "(str \<times> notice_state) list"
  qn_bound :: "(pane_key \<times> agent_process_identity) list"
  qn_diagnostics :: "(pane_key \<times> notice_reason) list"
  qn_path :: bool
  qn_server_hash :: str
  qn_invalid_sidecar :: bool
  qn_dirty :: bool
  qn_last_write :: "instant option"
  qn_memory_only :: "(str \<times> str) list"
  qn_question_text :: "((str \<times> u64) \<times> (str \<times> question_evidence)) list"
  qn_reply_items :: "((str \<times> u64) \<times> reply_items) list"
  qn_reply_calls :: "(str \<times> str list) list"
  qn_blocked :: "str list"

definition notices_default :: notices where
  "notices_default = \<lparr>qn_resolver = resolver_default, qn_owners = [], qn_bound = [], qn_diagnostics = [],
     qn_path = False, qn_server_hash = [], qn_invalid_sidecar = False, qn_dirty = False, qn_last_write = None,
     qn_memory_only = [], qn_question_text = [], qn_reply_items = [], qn_reply_calls = [], qn_blocked = []\<rparr>"

definition owner_ref :: "notice_digests \<Rightarrow> str \<Rightarrow> pane_instance \<Rightarrow> agent_process_identity \<Rightarrow> str" where
  "owner_ref dg server pane process = lit ''vtqn1:'' @ nd_owner dg server pane process"

section \<open>The sidecar\<close>

record notice_snapshot =
  sn_schema :: u16
  sn_server_hash :: str
  sn_owners :: "notice_state list"
  sn_reply_items :: "(str \<times> u64 \<times> reply_items) list"
  sn_reply_calls :: "(str \<times> str list) list"
  sn_blocked :: "str list"

text \<open>The marker file: a torn one was created but not completely written.\<close>

datatype marker = MarkerAbsent | MarkerComplete | MarkerTorn

record sidecar =
  sc_snapshot :: "notice_snapshot option"
  sc_marker :: marker

datatype commit_result = PreCommitFailed | Committed | CommittedDurabilityUnknown

text \<open>What a save meets: the clock of the retry interval, of the attempt and of the guard, the directory
  and the file that is replaced, the steps up to the rename, the rename, the marker and the
  synchronisation of the directory. \<open>sv_marker\<close> is what becomes of a marker that has to be created.\<close>

record notice_save_environment =
  sv_clock :: instant
  sv_attempt :: instant
  sv_guard :: instant
  sv_parent :: bool
  sv_target :: bool
  sv_written :: bool
  sv_rename :: bool
  sv_marker :: marker
  sv_synced :: bool

definition snapshot_of :: "notices \<Rightarrow> notice_snapshot" where
  "snapshot_of n = \<lparr>sn_schema = 1, sn_server_hash = qn_server_hash n, sn_owners = map snd (qn_owners n),
     sn_reply_items = map (\<lambda>((owner, order), items). (owner, order, items)) (qn_reply_items n),
     sn_reply_calls = qn_reply_calls n, sn_blocked = qn_blocked n\<rparr>"

text \<open>The marker after \<open>create_marker\<close>, and whether that succeeded.\<close>

definition create_marker :: "marker \<Rightarrow> marker \<Rightarrow> marker \<times> bool" where
  "create_marker outcome m = (case m of
      MarkerComplete \<Rightarrow> (m, True)
    | MarkerTorn \<Rightarrow> (m, False)
    | MarkerAbsent \<Rightarrow> (outcome, outcome = MarkerComplete))"

definition save_inner :: "(notice_snapshot \<Rightarrow> nat) \<Rightarrow> notice_save_environment \<Rightarrow> instant option \<Rightarrow> notices \<Rightarrow> sidecar
    \<Rightarrow> sidecar \<times> bool \<times> bool" where
  "save_inner JB env deadline n disk =
    (if qn_invalid_sidecar n then (disk, False, False)
     else if \<not> qn_path n then (disk, False, True)
     else if JB (snapshot_of n) > NOTICE_MAX_BYTES \<or> \<not> sv_parent env \<or> \<not> sv_target env \<or> \<not> sv_written env
       then (disk, False, False)
     else if (case deadline of None \<Rightarrow> False | Some at \<Rightarrow> \<not> sv_guard env < at) \<or> \<not> sv_rename env
       then (disk, False, False)
     else let disk = disk\<lparr>sc_snapshot := Some (snapshot_of n)\<rparr>;
         (marker, made) = create_marker (sv_marker env) (sc_marker disk);
         disk = disk\<lparr>sc_marker := marker\<rparr>
       in (disk, True, made \<and> sv_synced env))"

definition save :: "(notice_snapshot \<Rightarrow> nat) \<Rightarrow> notice_save_environment \<Rightarrow> instant option \<Rightarrow> notices \<Rightarrow> sidecar
    \<Rightarrow> sidecar \<times> commit_result" where
  "save JB env deadline n disk = (case save_inner JB env deadline n disk of
     (disk, renamed, saved) \<Rightarrow> (disk,
       if saved then Committed else if renamed then CommittedDurabilityUnknown else PreCommitFailed))"

definition persist_commit_until :: "(notice_snapshot \<Rightarrow> nat) \<Rightarrow> notice_save_environment \<Rightarrow> instant option \<Rightarrow> notices
    \<Rightarrow> sidecar \<Rightarrow> notices \<times> sidecar \<times> commit_result" where
  "persist_commit_until JB env deadline n disk =
    (let n = n\<lparr>qn_last_write := Some (sv_attempt env)\<rparr>
     in case save JB env deadline n disk of
       (disk, result) \<Rightarrow>
         if result = PreCommitFailed then (n, disk, result)
         else let n = n\<lparr>qn_dirty := False\<rparr>;
             n = (if result = Committed
               then n\<lparr>qn_memory_only := [],
                 qn_diagnostics := filter (\<lambda>(_, reason). reason \<noteq> NoticePersistencePending) (qn_diagnostics n)\<rparr>
               else n)
           in (n\<lparr>qn_last_write := None\<rparr>, disk, result))"

definition persist :: "(notice_snapshot \<Rightarrow> nat) \<Rightarrow> notice_save_environment \<Rightarrow> notices \<Rightarrow> sidecar \<Rightarrow> notices \<times> sidecar \<times> bool" where
  "persist JB env n disk = (case persist_commit_until JB env None n disk of
     (n, disk, result) \<Rightarrow> (n, disk, result = Committed))"

definition retry_due :: "notice_save_environment \<Rightarrow> notices \<Rightarrow> bool" where
  "retry_due env n \<longleftrightarrow> (case qn_last_write n of None \<Rightarrow> True | Some at \<Rightarrow> at + RETRY_INTERVAL \<le> sv_clock env)"

section \<open>Loading the sidecar\<close>

definition notice_state_ok :: "notice_digests \<Rightarrow> str \<Rightarrow> notice_state \<Rightarrow> bool" where
  "notice_state_ok dg server s \<longleftrightarrow> pane_instance_validate (qs_pane s) = Inr () \<and> agent_process_validate (qs_process s) = Inr ()
     \<and> qs_owner_ref s = owner_ref dg server (qs_pane s) (qs_process s)
     \<and> qs_acknowledged s \<le> qs_latest s \<and> qs_latest s = of_nat (length (qs_seen s)) \<and> 0 \<le> qs_last_issued_at s
     \<and> length (qs_seen s) \<le> MAX_KEYS_PER_OWNER \<and> list_all valid_digest (qs_seen s)"

fun load_owners :: "notice_digests \<Rightarrow> str \<Rightarrow> notice_state list \<Rightarrow> nat \<Rightarrow> (str \<times> notice_state) list
    \<Rightarrow> (str \<times> notice_state) list option" where
  "load_owners dg server [] keys owners = Some owners"
| "load_owners dg server (s # ss) keys owners =
    (let total = keys + length (qs_seen s)
     in if \<not> notice_state_ok dg server s \<or> total > MAX_KEYS \<or> bm_get owners (qs_owner_ref s) \<noteq> None then None
        else load_owners dg server ss total (bm_insert (qs_owner_ref s) s owners))"

definition reply_metadata_ok :: "notice_state \<Rightarrow> u64 \<Rightarrow> reply_items \<Rightarrow> bool" where
  "reply_metadata_ok s order items \<longleftrightarrow> 0 < order \<and> order \<le> qs_latest s \<and> valid_digest (ri_session items)
     \<and> ri_items items \<noteq> [] \<and> length (ri_items items) \<le> MAX_ISSUED_ITEMS \<and> list_all valid_digest (ri_items items)
     \<and> set (ri_pending items) \<subseteq> set (ri_items items)"

fun load_replies :: "(str \<times> notice_state) list \<Rightarrow> (str \<times> u64 \<times> reply_items) list \<Rightarrow> (str \<times> nat) list
    \<Rightarrow> ((str \<times> u64) \<times> reply_items) list \<Rightarrow> ((str \<times> u64) \<times> reply_items) list option" where
  "load_replies owners [] counts replies = Some replies"
| "load_replies owners ((owner, order, items) # es) counts replies = (case bm_get owners owner of
      None \<Rightarrow> None
    | Some s \<Rightarrow>
        if \<not> reply_metadata_ok s order items then None
        else if order \<le> qs_acknowledged s then load_replies owners es counts replies
        else let count = (case bm_get counts owner of None \<Rightarrow> 0 | Some c \<Rightarrow> c) + 1
          in if count > MAX_TEXT_NOTICES_PER_OWNER \<or> bm_get replies (owner, order) \<noteq> None then None
             else load_replies owners es (bm_insert owner count counts) (bm_insert (owner, order) items replies))"

fun calls_ok :: "(str \<times> notice_state) list \<Rightarrow> (str \<times> str list) list \<Rightarrow> nat \<Rightarrow> bool" where
  "calls_ok owners [] used \<longleftrightarrow> True"
| "calls_ok owners ((owner, ids) # cs) used \<longleftrightarrow> bm_get owners owner \<noteq> None \<and> length ids \<le> MAX_KEYS_PER_OWNER
     \<and> list_all valid_digest ids \<and> used + length ids \<le> MAX_KEYS \<and> calls_ok owners cs (used + length ids)"

text \<open>\<open>readable\<close>: the files that are there are private, can be opened and read. The state that is loaded
  is the file's contents: owners, reply items, calls and blocked owners.\<close>

definition load_notice_snapshot :: "notice_digests \<Rightarrow> str \<Rightarrow> notice_snapshot
    \<Rightarrow> ((str \<times> notice_state) list \<times> ((str \<times> u64) \<times> reply_items) list \<times> (str \<times> str list) list \<times> str list) option" where
  "load_notice_snapshot dg server s =
    (if sn_schema s \<noteq> 1 \<or> sn_server_hash s \<noteq> server \<or> length (sn_owners s) > MAX_OWNERS then None
     else case load_owners dg server (sn_owners s) 0 [] of
       None \<Rightarrow> None
     | Some owners \<Rightarrow>
         if length (sn_reply_items s) > MAX_TEXT_NOTICES then None
         else (case load_replies owners (sn_reply_items s) [] [] of
             None \<Rightarrow> None
           | Some replies \<Rightarrow>
               if \<not> calls_ok owners (sn_reply_calls s) 0 \<or> list_ex (\<lambda>owner. bm_get owners owner = None) (sn_blocked s)
               then None else Some (owners, replies, sn_reply_calls s, sn_blocked s)))"

definition load_notices :: "(notice_snapshot \<Rightarrow> nat) \<Rightarrow> notice_digests \<Rightarrow> str \<Rightarrow> bool \<Rightarrow> sidecar
    \<Rightarrow> ((str \<times> notice_state) list \<times> ((str \<times> u64) \<times> reply_items) list \<times> (str \<times> str list) list \<times> str list) option" where
  "load_notices JB dg server readable disk =
    (if \<not> readable \<or> sc_marker disk = MarkerTorn then None
     else case sc_snapshot disk of
       None \<Rightarrow> if sc_marker disk = MarkerComplete then None else Some ([], [], [], [])
     | Some s \<Rightarrow> if JB s > NOTICE_MAX_BYTES then None else load_notice_snapshot dg server s)"

definition notices_open :: "(notice_snapshot \<Rightarrow> nat) \<Rightarrow> notice_digests \<Rightarrow> str \<Rightarrow> bool \<Rightarrow> sidecar \<Rightarrow> notices" where
  "notices_open JB dg server readable disk =
    (let n = notices_default\<lparr>qn_path := True, qn_server_hash := server\<rparr>
     in case load_notices JB dg server readable disk of
       None \<Rightarrow> n\<lparr>qn_invalid_sidecar := True\<rparr>
     | Some (owners, replies, calls, blocked) \<Rightarrow>
         n\<lparr>qn_owners := owners, qn_reply_items := replies, qn_reply_calls := calls, qn_blocked := blocked\<rparr>)"

section \<open>Reply items\<close>

definition of_owner :: "str \<Rightarrow> ((str \<times> u64) \<times> 'v) list \<Rightarrow> ((str \<times> u64) \<times> 'v) list" where
  "of_owner owner m = filter (\<lambda>((bound, _), _). bound = owner) m"

definition call_ids :: "notices \<Rightarrow> str \<Rightarrow> str list" where
  "call_ids n owner = (case bm_get (qn_reply_calls n) owner of None \<Rightarrow> [] | Some ids \<Rightarrow> ids)"

definition item_ids :: "notice_digests \<Rightarrow> str \<Rightarrow> nat \<Rightarrow> str list" where
  "item_ids dg call count = bs_of_list (map (nd_item dg call) [0 ..< count])"

text \<open>Room for the items of one more notice of the owner.\<close>

definition reply_room :: "notices \<Rightarrow> str \<Rightarrow> nat \<Rightarrow> bool" where
  "reply_room n owner count \<longleftrightarrow> count \<noteq> 0 \<and> count \<le> MAX_ISSUED_ITEMS \<and> length (qn_reply_items n) < MAX_TEXT_NOTICES
     \<and> length (of_owner owner (qn_reply_items n)) < MAX_TEXT_NOTICES_PER_OWNER"

definition register_reply_items :: "notice_digests \<Rightarrow> str \<Rightarrow> u64 \<Rightarrow> str \<Rightarrow> str \<Rightarrow> nat \<Rightarrow> notices \<Rightarrow> notices" where
  "register_reply_items dg owner order session call count n =
    (if owner \<in> set (qn_blocked n) \<or> (case bm_get (qn_owners n) owner of
          None \<Rightarrow> True | Some s \<Rightarrow> \<not> (order > qs_acknowledged s \<and> order = qs_latest s))
     then n
     else let session = nd_identifier dg session; call_digest = nd_call dg session call
       in if call_digest \<in> set (call_ids n owner)
          then let ambiguous = item_ids dg call MAX_ISSUED_ITEMS
            in n\<lparr>qn_reply_items := filter (\<lambda>((bound, _), items). bound \<noteq> owner \<or> ri_session items \<noteq> session
                 \<or> set (ri_items items) \<inter> set ambiguous = {}) (qn_reply_items n), qn_dirty := True\<rparr>
          else if sum_list (map (\<lambda>(_, ids). length ids) (qn_reply_calls n)) \<ge> MAX_KEYS
            \<or> length (call_ids n owner) \<ge> MAX_KEYS_PER_OWNER
          then n\<lparr>qn_blocked := bs_insert owner (qn_blocked n),
            qn_reply_items := filter (\<lambda>((bound, _), _). bound \<noteq> owner) (qn_reply_items n), qn_dirty := True\<rparr>
          else let n = n\<lparr>qn_reply_calls := bm_insert owner (bs_insert call_digest (call_ids n owner)) (qn_reply_calls n),
              qn_dirty := True\<rparr>
            in if \<not> reply_room n owner count then n
               else let items = item_ids dg call count
                 in n\<lparr>qn_reply_items := bm_insert (owner, order)
                   \<lparr>ri_session = session, ri_items = items, ri_pending = items\<rparr> (qn_reply_items n)\<rparr>)"

datatype notice_error = InvalidReplyEvidence | StaleNoticeOwner | UnknownReplyItem | ReplyDeadline
  | PersistencePending | InvalidSidecar | FutureNoticeOrder

definition tracking_healthy :: "notices \<Rightarrow> bool" where
  "tracking_healthy n \<longleftrightarrow> \<not> qn_invalid_sidecar n"

definition owner_in_pane :: "notices \<Rightarrow> pane_instance \<Rightarrow> str \<Rightarrow> notice_error + notice_state" where
  "owner_in_pane n pane owner = (case bm_get (qn_owners n) owner of
      None \<Rightarrow> Inl StaleNoticeOwner
    | Some s \<Rightarrow> if qs_pane s = pane then Inr s else Inl StaleNoticeOwner)"

text \<open>The entries of an owner with an order in a range, in order.\<close>

definition reply_range :: "notices \<Rightarrow> str \<Rightarrow> u64 \<Rightarrow> u64 \<Rightarrow> ((str \<times> u64) \<times> reply_items) list" where
  "reply_range n owner low high = filter (\<lambda>(key, _). fst key = owner \<and> low \<le> snd key \<and> snd key \<le> high) (qn_reply_items n)"

definition order_of_item :: "notices \<Rightarrow> str \<Rightarrow> notice_state \<Rightarrow> str \<Rightarrow> str \<Rightarrow> notice_error + u64" where
  "order_of_item n owner s session i =
    (case find (\<lambda>(_, items). ri_session items = session \<and> i \<in> set (ri_items items))
        (reply_range n owner (saturating_succ (qs_acknowledged s)) (qs_latest s)) of
       None \<Rightarrow> Inl UnknownReplyItem
     | Some (key, _) \<Rightarrow> Inr (snd key))"

fun collect_r :: "('a \<Rightarrow> 'e + 'b) \<Rightarrow> 'a list \<Rightarrow> 'e + 'b list" where
  "collect_r f [] = Inr []"
| "collect_r f (x # xs) = bind_r (f x) (\<lambda>y. bind_r (collect_r f xs) (\<lambda>ys. Inr (y # ys)))"

definition match_reply_orders :: "notices \<Rightarrow> pane_instance \<Rightarrow> str \<Rightarrow> str \<Rightarrow> reply_evidence \<Rightarrow> notice_error + u64 list" where
  "match_reply_orders n pane owner session reply =
    bind_r (fail_if (\<not> reply_valid reply \<or> \<not> tracking_healthy n) InvalidReplyEvidence) (\<lambda>_.
    bind_r (owner_in_pane n pane owner) (\<lambda>s.
    bind_r (fail_if (qs_acknowledged s \<ge> qs_latest s) UnknownReplyItem) (\<lambda>_.
    collect_r (order_of_item n owner s session) reply)))"

section \<open>Issuing\<close>

definition reject_notice :: "pane_instance \<Rightarrow> notice_reason \<Rightarrow> notices \<Rightarrow> notices \<times> notice_result" where
  "reject_notice pane reason n =
    (if bm_get (qn_diagnostics n) (pane_key_of pane) \<noteq> None \<or> length (qn_diagnostics n) < MAX_OWNERS
     then n\<lparr>qn_diagnostics := bm_insert (pane_key_of pane) reason (qn_diagnostics n)\<rparr> else n,
     \<lparr>nr_disposition = NoticeRejected, nr_durability = None, nr_reason = Some reason\<rparr>)"

definition bind_notice :: "pane_instance \<Rightarrow> agent_process_identity \<Rightarrow> notices \<Rightarrow> notices" where
  "bind_notice pane process n =
    (if bm_get (qn_bound n) (pane_key_of pane) \<noteq> None \<or> length (qn_bound n) < MAX_OWNERS
     then n\<lparr>qn_bound := bm_insert (pane_key_of pane) process (qn_bound n)\<rparr> else n)"

definition accepted_notice :: "notice_disposition \<Rightarrow> bool \<Rightarrow> notice_result" where
  "accepted_notice disposition persisted = \<lparr>nr_disposition = disposition,
     nr_durability = Some (if persisted then NoticePersisted else NoticeMemoryOnly),
     nr_reason = (if persisted then None else Some NoticePersistencePending)\<rparr>"

definition key_seen :: "notices \<Rightarrow> str \<Rightarrow> str \<Rightarrow> bool" where
  "key_seen n owner key \<longleftrightarrow> (case bm_get (qn_owners n) owner of None \<Rightarrow> False | Some s \<Rightarrow> key \<in> set (qs_seen s))"

definition key_count :: "notices \<Rightarrow> nat" where
  "key_count n = sum_list (map (\<lambda>(_, s). length (qs_seen s)) (qn_owners n))"

definition notice_full :: "notices \<Rightarrow> str \<Rightarrow> bool" where
  "notice_full n owner \<longleftrightarrow> key_count n \<ge> MAX_KEYS
     \<or> (case bm_get (qn_owners n) owner of
          None \<Rightarrow> length (qn_owners n) \<ge> MAX_OWNERS
        | Some s \<Rightarrow> length (qs_seen s) \<ge> MAX_KEYS_PER_OWNER \<or> qs_latest s = - 1)"

text \<open>The new notice in memory.\<close>

definition note_question :: "notice_digests \<Rightarrow> pane_instance \<Rightarrow> agent_process_identity \<Rightarrow> str \<times> str \<times> str \<Rightarrow> i64
    \<Rightarrow> nat option \<Rightarrow> notices \<Rightarrow> notices" where
  "note_question dg pane process identifiers now item_count n =
    (let key = nd_key dg identifiers; owner = owner_ref dg (qn_server_hash n) pane process;
         n = n\<lparr>qn_memory_only := bs_insert (owner, key) (qn_memory_only n),
           qn_resolver := cancel owner (qn_resolver n)\<rparr>;
         s = (case bm_get (qn_owners n) owner of
             Some s \<Rightarrow> s
           | None \<Rightarrow> \<lparr>qs_pane = pane, qs_process = process, qs_owner_ref = owner, qs_latest = 0, qs_acknowledged = 0,
               qs_last_issued_at = now, qs_seen = []\<rparr>);
         order = qs_latest s + 1;
         n = n\<lparr>qn_owners := bm_insert owner (s\<lparr>qs_latest := order, qs_last_issued_at := now,
           qs_seen := bs_insert key (qs_seen s)\<rparr>) (qn_owners n)\<rparr>;
         n = (case item_count of
             None \<Rightarrow> n
           | Some count \<Rightarrow> register_reply_items dg owner order (fst identifiers) (snd (snd identifiers)) count n)
     in n\<lparr>qn_diagnostics := bm_remove (pane_key_of pane) (qn_diagnostics n), qn_dirty := True\<rparr>)"

definition issue_with_items :: "(notice_snapshot \<Rightarrow> nat) \<Rightarrow> notice_digests \<Rightarrow> notice_save_environment \<Rightarrow> pane_instance
    \<Rightarrow> agent_process_identity \<Rightarrow> str \<times> str \<times> str \<Rightarrow> i64 \<Rightarrow> nat option \<Rightarrow> notices \<Rightarrow> sidecar
    \<Rightarrow> notices \<times> sidecar \<times> notice_result" where
  "issue_with_items JB dg env pane process identifiers now item_count n disk =
    (let n = bind_notice pane process n
     in if qn_invalid_sidecar n
        then (case reject_notice pane NoticeInvalidSidecar n of (n, result) \<Rightarrow> (n, disk, result))
        else let key = nd_key dg identifiers; owner = owner_ref dg (qn_server_hash n) pane process
          in if key_seen n owner key
             then (case (if (owner, key) \<in> set (qn_memory_only n) then persist JB env n disk else (n, disk, True)) of
               (n, disk, _) \<Rightarrow> (n, disk, accepted_notice NoticeDuplicate ((owner, key) \<notin> set (qn_memory_only n))))
             else if notice_full n owner
             then (case reject_notice pane NoticeCapacityExceeded n of (n, result) \<Rightarrow> (n, disk, result))
             else let n = note_question dg pane process identifiers now item_count n
               in if retry_due env n
                  then (case persist JB env n disk of
                    (n, disk, persisted) \<Rightarrow> (n, disk, accepted_notice NoticeApplied persisted))
                  else (n, disk, accepted_notice NoticeApplied False))"

definition issue_notice :: "(notice_snapshot \<Rightarrow> nat) \<Rightarrow> notice_digests \<Rightarrow> notice_save_environment \<Rightarrow> pane_instance
    \<Rightarrow> agent_process_identity \<Rightarrow> str \<times> str \<times> str \<Rightarrow> i64 \<Rightarrow> notices \<Rightarrow> sidecar \<Rightarrow> notices \<times> sidecar \<times> notice_result" where
  "issue_notice JB dg env pane process identifiers now n disk =
    issue_with_items JB dg env pane process identifiers now None n disk"

section \<open>Acknowledging\<close>

definition set_diagnostic :: "pane_instance \<Rightarrow> notice_reason \<Rightarrow> notices \<Rightarrow> notices" where
  "set_diagnostic pane reason n = n\<lparr>qn_diagnostics := bm_insert (pane_key_of pane) reason (qn_diagnostics n)\<rparr>"

definition clear_diagnostic :: "pane_instance \<Rightarrow> notices \<Rightarrow> notices" where
  "clear_diagnostic pane n = n\<lparr>qn_diagnostics := bm_remove (pane_key_of pane) (qn_diagnostics n)\<rparr>"

text \<open>A commit that failed before the rename leaves the attempt and the dirty flag as they were.\<close>

definition commit_failed :: "pane_instance \<Rightarrow> notices \<Rightarrow> notices \<Rightarrow> notices" where
  "commit_failed pane old n =
    set_diagnostic pane NoticePersistencePending (n\<lparr>qn_dirty := qn_dirty old, qn_last_write := qn_last_write old\<rparr>)"

definition commit_noted :: "pane_instance \<Rightarrow> commit_result \<Rightarrow> notices \<Rightarrow> notices" where
  "commit_noted pane result n =
    (if result = CommittedDurabilityUnknown then set_diagnostic pane NoticeFsyncFailed n else clear_diagnostic pane n)"

definition drop_acknowledged :: "str \<Rightarrow> u64 \<Rightarrow> notices \<Rightarrow> notices" where
  "drop_acknowledged owner through n = n\<lparr>qn_resolver := orders_acknowledged owner through (qn_resolver n),
     qn_question_text := filter (\<lambda>((bound, order), _). bound \<noteq> owner \<or> through < order) (qn_question_text n),
     qn_reply_items := filter (\<lambda>((bound, order), _). bound \<noteq> owner \<or> through < order) (qn_reply_items n)\<rparr>"

definition acknowledge_until :: "(notice_snapshot \<Rightarrow> nat) \<Rightarrow> notice_save_environment \<Rightarrow> pane_instance \<Rightarrow> str \<Rightarrow> u64
    \<Rightarrow> instant option \<Rightarrow> notices \<Rightarrow> sidecar \<Rightarrow> notices \<times> sidecar \<times> (notice_error + bool)" where
  "acknowledge_until JB env pane owner through deadline n disk =
    (if qn_invalid_sidecar n then (n, disk, Inl InvalidSidecar)
     else let n = n\<lparr>qn_resolver := cancel owner (qn_resolver n)\<rparr>
       in case owner_in_pane n pane owner of
         Inl e \<Rightarrow> (n, disk, Inl e)
       | Inr s \<Rightarrow>
           if through > qs_latest s then (n, disk, Inl FutureNoticeOrder)
           else if through \<le> qs_acknowledged s then (n, disk, Inr False)
           else (case persist_commit_until JB env deadline
               (n\<lparr>qn_owners := bm_insert owner (s\<lparr>qs_acknowledged := through\<rparr>) (qn_owners n)\<rparr>) disk of
             (m, disk, result) \<Rightarrow>
               if result = PreCommitFailed
               then (commit_failed pane n (m\<lparr>qn_owners := bm_insert owner s (qn_owners m)\<rparr>), disk,
                 Inl PersistencePending)
               else (drop_acknowledged owner through (commit_noted pane result m), disk, Inr True)))"

definition acknowledge_notice :: "(notice_snapshot \<Rightarrow> nat) \<Rightarrow> notice_save_environment \<Rightarrow> pane_instance \<Rightarrow> str \<Rightarrow> u64
    \<Rightarrow> notices \<Rightarrow> sidecar \<Rightarrow> notices \<times> sidecar \<times> (notice_error + bool)" where
  "acknowledge_notice JB env pane owner through n disk = acknowledge_until JB env pane owner through None n disk"

text \<open>\<open>BTreeMap::extend\<close>.\<close>

definition restore_items :: "((str \<times> u64) \<times> reply_items) list \<Rightarrow> notices \<Rightarrow> notices" where
  "restore_items before n = n\<lparr>qn_reply_items := fold (\<lambda>(key, items). bm_insert key items) before (qn_reply_items n)\<rparr>"

definition answer_item :: "str \<Rightarrow> u64 \<Rightarrow> str \<times> u64 \<Rightarrow> ((str \<times> u64) \<times> reply_items) list
    \<Rightarrow> ((str \<times> u64) \<times> reply_items) list" where
  "answer_item owner acknowledged pair m =
    (if snd pair \<le> acknowledged then m
     else bm_map_values (\<lambda>key items. if key = (owner, snd pair)
       then items\<lparr>ri_pending := bs_remove (fst pair) (ri_pending items)\<rparr> else items) m)"

definition answered :: "notices \<Rightarrow> str \<Rightarrow> u64 \<Rightarrow> bool" where
  "answered n owner order \<longleftrightarrow> (case bm_get (qn_reply_items n) (owner, order) of
     None \<Rightarrow> False | Some items \<Rightarrow> ri_pending items = [])"

text \<open>The range \<open>acknowledged.saturating_add(1)..=latest\<close>.\<close>

definition open_orders :: "u64 \<Rightarrow> u64 \<Rightarrow> u64 list" where
  "open_orders acknowledged latest = map of_nat [unat (saturating_succ acknowledged) ..< Suc (unat latest)]"

definition answered_prefix :: "notices \<Rightarrow> str \<Rightarrow> u64 \<Rightarrow> u64 \<Rightarrow> u64" where
  "answered_prefix n owner acknowledged latest =
    (case takeWhile (answered n owner) (open_orders acknowledged latest) of [] \<Rightarrow> acknowledged | ns \<Rightarrow> last ns)"

text \<open>Some identifier with an open order is not among the items of that order and session.\<close>

definition foreign_pair :: "((str \<times> u64) \<times> reply_items) list \<Rightarrow> str \<Rightarrow> str \<Rightarrow> u64 \<Rightarrow> str \<times> u64 \<Rightarrow> bool" where
  "foreign_pair before owner session acknowledged pair \<longleftrightarrow> acknowledged < snd pair
     \<and> (case bm_get before (owner, snd pair) of
          None \<Rightarrow> True | Some items \<Rightarrow> \<not> (ri_session items = session \<and> fst pair \<in> set (ri_items items)))"

definition acknowledge_reply_orders :: "(notice_snapshot \<Rightarrow> nat) \<Rightarrow> notice_save_environment \<Rightarrow> instant \<Rightarrow> pane_instance \<Rightarrow> str
    \<Rightarrow> str \<Rightarrow> reply_evidence \<Rightarrow> u64 list \<Rightarrow> instant \<Rightarrow> notices \<Rightarrow> sidecar
    \<Rightarrow> notices \<times> sidecar \<times> (notice_error + bool)" where
  "acknowledge_reply_orders JB env now pane owner session reply orders deadline n disk =
    (if deadline - now < REPLY_COMMIT_RESERVE then (n, disk, Inl ReplyDeadline)
     else if \<not> reply_valid reply \<or> length orders \<noteq> length reply \<or> 0 \<in> set orders \<or> \<not> tracking_healthy n
     then (n, disk, Inl InvalidReplyEvidence)
     else case owner_in_pane n pane owner of
       Inl e \<Rightarrow> (n, disk, Inl e)
     | Inr s \<Rightarrow>
         let acknowledged = qs_acknowledged s; latest = qs_latest s
         in if acknowledged \<ge> latest \<or> list_all (\<lambda>order. order \<le> acknowledged) orders then (n, disk, Inr False)
            else let before = reply_range n owner (saturating_succ acknowledged) latest; pairs = zip reply orders
              in if list_ex (foreign_pair before owner session acknowledged) pairs then (n, disk, Inl UnknownReplyItem)
                 else let m = n\<lparr>qn_reply_items := fold (answer_item owner acknowledged) pairs (qn_reply_items n)\<rparr>;
                     through = answered_prefix m owner acknowledged latest
                   in if through = acknowledged
                      then if reply_range m owner (saturating_succ acknowledged) latest = before then (m, disk, Inr False)
                        else (case persist_commit_until JB env (Some deadline) m disk of
                          (k, disk, result) \<Rightarrow>
                            if result = PreCommitFailed
                            then (commit_failed pane m (restore_items before k), disk, Inl PersistencePending)
                            else (commit_noted pane result k, disk, Inr False))
                      else (case acknowledge_until JB env pane owner through (Some deadline) m disk of
                        (k, disk, Inr changed) \<Rightarrow> (k, disk, Inr changed)
                      | (k, disk, Inl e) \<Rightarrow> (restore_items before k, disk, Inl e)))"

section \<open>Questions on the screen\<close>

definition remember_questions :: "notice_digests \<Rightarrow> str \<Rightarrow> u64 \<Rightarrow> str \<Rightarrow> question_evidence \<Rightarrow> notices \<Rightarrow> notices" where
  "remember_questions dg owner order session questions n =
    (if (case bm_get (qn_owners n) owner of None \<Rightarrow> True | Some s \<Rightarrow> \<not> (order > qs_acknowledged s \<and> order = qs_latest s))
        \<or> \<not> evidence_valid questions \<or> length (qn_question_text n) \<ge> MAX_TEXT_NOTICES
        \<or> length (of_owner owner (qn_question_text n)) \<ge> MAX_TEXT_NOTICES_PER_OWNER
     then n
     else n\<lparr>qn_question_text := bm_insert (owner, order) (nd_identifier dg session, questions) (qn_question_text n)\<rparr>)"

definition fingerprint_key :: "question_fingerprint \<Rightarrow> str \<times> str list" where
  "fingerprint_key q = (qf_title q, qf_options q)"

fun gather_questions :: "notices \<Rightarrow> str \<Rightarrow> str \<Rightarrow> u64 list \<Rightarrow> (str \<times> str list) list \<Rightarrow> (str \<times> str list) list option" where
  "gather_questions n owner session [] questions = Some questions"
| "gather_questions n owner session (order # orders) questions = (case bm_get (qn_question_text n) (owner, order) of
      Some (bound, Fingerprints qs) \<Rightarrow>
        if bound \<noteq> session then None
        else let questions = bs_extend questions (map fingerprint_key qs)
          in if length questions > MAX_CAPTURE_FINGERPRINTS then None
             else gather_questions n owner session orders questions
    | _ \<Rightarrow> None)"

definition capture_questions :: "notices \<Rightarrow> str \<Rightarrow> str \<Rightarrow> u64 \<Rightarrow> u64 \<Rightarrow> question_evidence" where
  "capture_questions n owner session acknowledged latest =
    (if unat latest - unat acknowledged > MAX_TEXT_NOTICES_PER_OWNER then EvidenceUnavailable
     else case gather_questions n owner session (open_orders acknowledged latest) [] of
       None \<Rightarrow> EvidenceUnavailable
     | Some [] \<Rightarrow> EvidenceUnavailable
     | Some qs \<Rightarrow> Fingerprints (map (\<lambda>(title, options). \<lparr>qf_title = title, qf_options = options\<rparr>) qs))"

section \<open>Queries and housekeeping\<close>

definition pane_notice_summary :: "notice_digests \<Rightarrow> pane_instance \<Rightarrow> agent_process_identity option \<Rightarrow> notices \<Rightarrow> notice_summary" where
  "pane_notice_summary dg pane process n =
    (let process = (case process of None \<Rightarrow> bm_get (qn_bound n) (pane_key_of pane) | Some p \<Rightarrow> Some p);
         owner = Option.bind process (\<lambda>p. bm_get (qn_owners n) (owner_ref dg (qn_server_hash n) pane p));
         reason = (if qn_invalid_sidecar n then Some NoticeInvalidSidecar
           else if qn_dirty n then Some NoticePersistencePending
           else if owner = None \<and> list_ex (\<lambda>(_, s). qs_pane s = pane) (qn_owners n) then Some NoticeOwnerUnverified
           else bm_get (qn_diagnostics n) (pane_key_of pane))
     in \<lparr>ns_unacknowledged = (case owner of
            None \<Rightarrow> False
          | Some s \<Rightarrow> list_ex (\<lambda>order. \<not> answered n (qs_owner_ref s) order) (open_orders (qs_acknowledged s) (qs_latest s))),
         ns_owner_ref = map_option qs_owner_ref owner,
         ns_latest_order = (case owner of None \<Rightarrow> 0 | Some s \<Rightarrow> qs_latest s),
         ns_acknowledged_order = (case owner of None \<Rightarrow> 0 | Some s \<Rightarrow> qs_acknowledged s),
         ns_last_issued_at = map_option qs_last_issued_at owner,
         ns_degraded = (reason \<noteq> None), ns_reason = reason\<rparr>)"

definition owner_process :: "pane_instance \<Rightarrow> str \<Rightarrow> notices \<Rightarrow> agent_process_identity option" where
  "owner_process pane owner n = (case owner_in_pane n pane owner of Inl _ \<Rightarrow> None | Inr s \<Rightarrow> Some (qs_process s))"

definition retain_panes :: "pane_key list \<Rightarrow> notices \<Rightarrow> notices" where
  "retain_panes present n = n\<lparr>qn_diagnostics := filter (\<lambda>(pane, _). pane \<in> set present) (qn_diagnostics n)\<rparr>"

text \<open>\<open>owner_alive\<close> is asked of every owner, then of every bound pane.\<close>

definition reconcile_notices :: "(notice_snapshot \<Rightarrow> nat) \<Rightarrow> notice_save_environment \<Rightarrow> (notice_state \<Rightarrow> bool)
    \<Rightarrow> (pane_key \<Rightarrow> agent_process_identity \<Rightarrow> bool) \<Rightarrow> notices \<Rightarrow> sidecar \<Rightarrow> notices \<times> sidecar \<times> bool" where
  "reconcile_notices JB env alive bound_alive n disk =
    (let kept = filter (\<lambda>(_, s). alive s) (qn_owners n); lives = (\<lambda>owner. bm_get kept owner \<noteq> None);
         lost = filter (\<lambda>owner. \<not> lives owner) (map fst (qn_owners n));
         n = n\<lparr>qn_owners := kept, qn_resolver := fold invalidate_owner lost (qn_resolver n),
           qn_memory_only := filter (\<lambda>(owner, _). lives owner) (qn_memory_only n),
           qn_question_text := filter (\<lambda>((owner, _), _). lives owner) (qn_question_text n),
           qn_reply_items := filter (\<lambda>((owner, _), _). lives owner) (qn_reply_items n),
           qn_reply_calls := filter (\<lambda>(owner, _). lives owner) (qn_reply_calls n),
           qn_blocked := filter lives (qn_blocked n),
           qn_bound := filter (\<lambda>(pane, process). bound_alive pane process) (qn_bound n)\<rparr>;
         removed = (lost \<noteq> []); n = n\<lparr>qn_dirty := qn_dirty n \<or> removed\<rparr>
     in case (if qn_dirty n \<and> retry_due env n then persist JB env n disk else (n, disk, False)) of
       (m, disk, _) \<Rightarrow> (m, disk, removed \<or> qn_dirty n \<noteq> qn_dirty m))"

end
