(* ===== verification/QuestionNoticeLaws.thy ===== *)
theory QuestionNoticeLaws
  imports QuestionNotices BTree
begin

text \<open>
  What the notices promise of their own state, and the round trip through the sidecar: whatever is
  saved is accepted when it is loaded.
\<close>

section \<open>Well-formed contents\<close>

definition owners_ok :: "notice_digests \<Rightarrow> str \<Rightarrow> (str \<times> notice_state) list \<Rightarrow> bool" where
  "owners_ok dg server owners \<longleftrightarrow> bm_invar owners
     \<and> (\<forall>owner s. (owner, s) \<in> set owners \<longrightarrow> notice_state_ok dg server s \<and> qs_owner_ref s = owner
          \<and> sorted_wrt (<) (qs_seen s))
     \<and> length owners \<le> MAX_OWNERS \<and> sum_list (map (\<lambda>(_, s). length (qs_seen s)) owners) \<le> MAX_KEYS"

definition replies_ok :: "(str \<times> notice_state) list \<Rightarrow> ((str \<times> u64) \<times> reply_items) list \<Rightarrow> bool" where
  "replies_ok owners replies \<longleftrightarrow> bm_invar replies
     \<and> (\<forall>owner order items. ((owner, order), items) \<in> set replies \<longrightarrow>
          (\<exists>s. bm_get owners owner = Some s \<and> reply_metadata_ok s order items))
     \<and> length replies \<le> MAX_TEXT_NOTICES \<and> (\<forall>owner. length (of_owner owner replies) \<le> MAX_TEXT_NOTICES_PER_OWNER)"

definition calls_fine :: "(str \<times> notice_state) list \<Rightarrow> (str \<times> str list) list \<Rightarrow> bool" where
  "calls_fine owners calls \<longleftrightarrow> bm_invar calls
     \<and> (\<forall>owner ids. (owner, ids) \<in> set calls \<longrightarrow> bm_get owners owner \<noteq> None \<and> length ids \<le> MAX_KEYS_PER_OWNER
          \<and> list_all valid_digest ids)
     \<and> sum_list (map (\<lambda>(_, ids). length ids) calls) \<le> MAX_KEYS"

definition blocked_ok :: "(str \<times> notice_state) list \<Rightarrow> str list \<Rightarrow> bool" where
  "blocked_ok owners blocked \<longleftrightarrow> (\<forall>owner \<in> set blocked. bm_get owners owner \<noteq> None)"

definition notices_ok :: "notice_digests \<Rightarrow> notices \<Rightarrow> bool" where
  "notices_ok dg n \<longleftrightarrow> owners_ok dg (qn_server_hash n) (qn_owners n) \<and> replies_ok (qn_owners n) (qn_reply_items n)
     \<and> calls_fine (qn_owners n) (qn_reply_calls n) \<and> blocked_ok (qn_owners n) (qn_blocked n)"

section \<open>The round trip\<close>

lemma load_owners_saved:
  "bm_invar (done @ owners) \<Longrightarrow> \<forall>owner s. (owner, s) \<in> set owners \<longrightarrow> notice_state_ok dg server s \<and> qs_owner_ref s = owner \<Longrightarrow>
    used + sum_list (map (\<lambda>(_, s). length (qs_seen s)) owners) \<le> MAX_KEYS \<Longrightarrow>
    load_owners dg server (map snd owners) used done = Some (done @ owners)"
proof (induction owners arbitrary: "done" used)
  case (Cons e owners)
  obtain owner s where e: "e = (owner, s)" by (cases e)
  have first: "\<forall>e \<in> set done. fst e < owner" using Cons.prems(1) sorted_middle by (simp add: e)
  have s: "notice_state_ok dg server s" "qs_owner_ref s = owner" using Cons.prems(2) unfolding e by (meson list.set_intros(1))+
  have invar: "bm_invar ((done @ [(owner, s)]) @ owners)" using Cons.prems(1) by (simp add: e)
  have rest: "\<forall>owner s. (owner, s) \<in> set owners \<longrightarrow> notice_state_ok dg server s \<and> qs_owner_ref s = owner"
    using Cons.prems(2) by (meson list.set_intros(2))
  have used: "used + length (qs_seen s) + sum_list (map (\<lambda>(_, s). length (qs_seen s)) owners) \<le> MAX_KEYS"
    using Cons.prems(3) by (simp add: e add.assoc)
  show ?case
    using Cons.IH [OF invar rest used] s used bm_get_absent [OF first] bm_insert_last [OF first] by (simp add: e Let_def)
qed simp

definition open_item :: "(str \<times> notice_state) list \<Rightarrow> (str \<times> u64) \<times> reply_items \<Rightarrow> bool" where
  "open_item owners e \<longleftrightarrow> (case bm_get owners (fst (fst e)) of None \<Rightarrow> False | Some s \<Rightarrow> qs_acknowledged s < snd (fst e))"

definition counted :: "(str \<times> nat) list \<Rightarrow> ((str \<times> u64) \<times> reply_items) list \<Rightarrow> bool" where
  "counted counts replies \<longleftrightarrow> (\<forall>owner. (case bm_get counts owner of None \<Rightarrow> 0 | Some c \<Rightarrow> c) = length (of_owner owner replies))"

lemma of_owner_append: "of_owner owner (xs @ ys) = of_owner owner xs @ of_owner owner ys"
  by (simp add: of_owner_def)

lemma of_owner_filter: "length (of_owner owner (filter p xs)) \<le> length (of_owner owner xs)"
  by (induction xs) (auto simp: of_owner_def)

lemma load_replies_saved:
  "bm_invar (done @ replies) \<Longrightarrow> \<forall>owner order items. ((owner, order), items) \<in> set replies \<longrightarrow>
      (\<exists>s. bm_get owners owner = Some s \<and> reply_metadata_ok s order items) \<Longrightarrow>
    (\<And>owner. length (of_owner owner (done @ filter (open_item owners) replies)) \<le> MAX_TEXT_NOTICES_PER_OWNER) \<Longrightarrow>
    counted counts done \<Longrightarrow>
    load_replies owners (map (\<lambda>((owner, order), items). (owner, order, items)) replies) counts done
      = Some (done @ filter (open_item owners) replies)"
proof (induction replies arbitrary: "done" counts)
  case (Cons e replies)
  obtain owner order items where e: "e = ((owner, order), items)" by (metis prod.exhaust)
  obtain s where s: "bm_get owners owner = Some s" "reply_metadata_ok s order items"
    using Cons.prems(2) unfolding e by (meson list.set_intros(1))
  have rest: "\<forall>owner order items. ((owner, order), items) \<in> set replies \<longrightarrow>
      (\<exists>s. bm_get owners owner = Some s \<and> reply_metadata_ok s order items)"
    using Cons.prems(2) by (meson list.set_intros(2))
  show ?case
  proof (cases "order \<le> qs_acknowledged s")
    case True
    have "bm_invar (done @ replies)"
      using Cons.prems(1) by (auto simp: bm_invar_def sorted_wrt_append)
    moreover have closed: "\<not> open_item owners e" using True s by (simp add: e open_item_def)
    ultimately show ?thesis
      using Cons.IH [OF _ rest _ Cons.prems(4)] Cons.prems(3) s True by (simp add: e)
  next
    case False
    then have is_open: "open_item owners e" using s by (simp add: e open_item_def)
    have first: "\<forall>e \<in> set done. fst e < (owner, order)" using Cons.prems(1) sorted_middle by (simp add: e)
    let ?count = "(case bm_get counts owner of None \<Rightarrow> 0 | Some c \<Rightarrow> c) + 1"
    have count: "?count = length (of_owner owner (done @ [e]))"
      using Cons.prems(4) by (simp add: counted_def of_owner_def e)
    have "length (of_owner owner (done @ [e])) \<le> length (of_owner owner (done @ filter (open_item owners) (e # replies)))"
      using is_open by (simp add: of_owner_append of_owner_def e)
    then have "?count \<le> MAX_TEXT_NOTICES_PER_OWNER"
      using Cons.prems(3) [of owner] unfolding count by linarith
    moreover have "counted (bm_insert owner ?count counts) (done @ [e])"
      using Cons.prems(4) count by (auto simp: counted_def bm_get_insert of_owner_append of_owner_def e)
    then have "load_replies owners (map (\<lambda>((owner, order), items). (owner, order, items)) replies)
        (bm_insert owner ?count counts) (done @ [e]) = Some ((done @ [e]) @ filter (open_item owners) replies)"
      using Cons.IH [OF _ rest] Cons.prems(1,3) is_open by (simp add: e)
    ultimately show ?thesis
      using s False is_open bm_get_absent [OF first] bm_insert_last [OF first] by (simp add: e Let_def)
  qed
qed simp

lemma calls_ok_saved:
  "\<forall>owner ids. (owner, ids) \<in> set calls \<longrightarrow> bm_get owners owner \<noteq> None \<and> length ids \<le> MAX_KEYS_PER_OWNER \<and> list_all valid_digest ids \<Longrightarrow>
    used + sum_list (map (\<lambda>(_, ids). length ids) calls) \<le> MAX_KEYS \<Longrightarrow> calls_ok owners calls used"
  by (induction calls arbitrary: used) auto

lemma load_saved:
  assumes "notices_ok dg n"
  shows "load_notice_snapshot dg (qn_server_hash n) (snapshot_of n)
    = Some (qn_owners n, filter (open_item (qn_owners n)) (qn_reply_items n), qn_reply_calls n, qn_blocked n)"
proof -
  have owners: "load_owners dg (qn_server_hash n) (map snd (qn_owners n)) 0 [] = Some (qn_owners n)"
    using assms load_owners_saved [of "[]" "qn_owners n" dg "qn_server_hash n" 0] by (simp add: notices_ok_def owners_ok_def)
  have "length (of_owner owner (filter (open_item (qn_owners n)) (qn_reply_items n))) \<le> MAX_TEXT_NOTICES_PER_OWNER" for owner
    using assms of_owner_filter [of owner "open_item (qn_owners n)" "qn_reply_items n"]
    by (auto simp: notices_ok_def replies_ok_def intro: order_trans)
  then have replies: "load_replies (qn_owners n) (map (\<lambda>((owner, order), items). (owner, order, items)) (qn_reply_items n)) [] []
      = Some (filter (open_item (qn_owners n)) (qn_reply_items n))"
    using assms load_replies_saved [of "[]" "qn_reply_items n" "qn_owners n" "[]"]
    by (simp add: notices_ok_def replies_ok_def counted_def of_owner_def)
  have "calls_ok (qn_owners n) (qn_reply_calls n) 0"
    using assms calls_ok_saved by (simp add: notices_ok_def calls_fine_def)
  then show ?thesis
    using assms owners replies
    by (auto simp: load_notice_snapshot_def snapshot_of_def notices_ok_def owners_ok_def replies_ok_def blocked_ok_def list_ex_iff)
qed

text \<open>
  The notices and their sidecar under any sequence of operations and restarts: the contents stay
  well formed, so every sidecar is accepted again, and what has been reported as persisted is there
  after a restart.
\<close>

section \<open>The machine\<close>

datatype notice_event =
    IssueQuestion notice_save_environment pane_instance agent_process_identity "str \<times> str \<times> str" i64 "nat option"
  | AcknowledgeQuestions notice_save_environment pane_instance str u64 "instant option"
  | AcknowledgeReply notice_save_environment instant pane_instance str str reply_evidence "u64 list" instant
  | RememberQuestions str u64 str question_evidence
  | RejectNotice pane_instance notice_reason
  | ReconcileOwners notice_save_environment "notice_state \<Rightarrow> bool" "pane_key \<Rightarrow> agent_process_identity \<Rightarrow> bool"
  | RetainPanes "pane_key list"
  | ReopenNotices

type_synonym notice_world = "notices \<times> sidecar"

fun notice_step :: "(notice_snapshot \<Rightarrow> nat) \<Rightarrow> notice_digests \<Rightarrow> notice_event \<Rightarrow> notice_world \<Rightarrow> notice_world" where
  "notice_step JB dg (IssueQuestion env pane process identifiers now count) (n, disk) =
     (case issue_with_items JB dg env pane process identifiers now count n disk of (n, disk, _) \<Rightarrow> (n, disk))"
| "notice_step JB dg (AcknowledgeQuestions env pane owner through deadline) (n, disk) =
     (case acknowledge_until JB env pane owner through deadline n disk of (n, disk, _) \<Rightarrow> (n, disk))"
| "notice_step JB dg (AcknowledgeReply env now pane owner session reply orders deadline) (n, disk) =
     (case acknowledge_reply_orders JB env now pane owner session reply orders deadline n disk of (n, disk, _) \<Rightarrow> (n, disk))"
| "notice_step JB dg (RememberQuestions owner order session questions) (n, disk) =
     (remember_questions dg owner order session questions n, disk)"
| "notice_step JB dg (RejectNotice pane reason) (n, disk) = (fst (reject_notice pane reason n), disk)"
| "notice_step JB dg (ReconcileOwners env alive bound_alive) (n, disk) =
     (case reconcile_notices JB env alive bound_alive n disk of (n, disk, _) \<Rightarrow> (n, disk))"
| "notice_step JB dg (RetainPanes present) (n, disk) = (retain_panes present n, disk)"
| "notice_step JB dg ReopenNotices (n, disk) = (notices_open JB dg (qn_server_hash n) True disk, disk)"

definition notice_run :: "(notice_snapshot \<Rightarrow> nat) \<Rightarrow> notice_digests \<Rightarrow> notice_event list \<Rightarrow> notice_world \<Rightarrow> notice_world" where
  "notice_run JB dg es w = fold (notice_step JB dg) es w"

text \<open>The callers validate the pane and the process, the clock is not before 1970, and no marker is torn by
  a crash.\<close>

fun notice_event_ok :: "notice_event \<Rightarrow> bool" where
  "notice_event_ok (IssueQuestion env pane process identifiers now count) \<longleftrightarrow> pane_instance_validate pane = Inr ()
     \<and> agent_process_validate process = Inr () \<and> 0 \<le> now \<and> sv_marker env \<noteq> MarkerTorn"
| "notice_event_ok (AcknowledgeQuestions env _ _ _ _) \<longleftrightarrow> sv_marker env \<noteq> MarkerTorn"
| "notice_event_ok (AcknowledgeReply env _ _ _ _ _ _ _) \<longleftrightarrow> sv_marker env \<noteq> MarkerTorn"
| "notice_event_ok (ReconcileOwners env _ _) \<longleftrightarrow> sv_marker env \<noteq> MarkerTorn"
| "notice_event_ok _ \<longleftrightarrow> True"

definition digests_ok :: "notice_digests \<Rightarrow> bool" where
  "digests_ok dg \<longleftrightarrow> (\<forall>ids. valid_digest (nd_key dg ids)) \<and> (\<forall>s c. valid_digest (nd_call dg s c))
     \<and> (\<forall>c i. valid_digest (nd_item dg c i)) \<and> (\<forall>v. valid_digest (nd_identifier dg v))"

definition empty_sidecar :: sidecar where
  "empty_sidecar = \<lparr>sc_snapshot = None, sc_marker = MarkerAbsent\<rparr>"

definition first_world :: "(notice_snapshot \<Rightarrow> nat) \<Rightarrow> notice_digests \<Rightarrow> str \<Rightarrow> notice_world" where
  "first_world JB dg server = (notices_open JB dg server True empty_sidecar, empty_sidecar)"

section \<open>Contents under the operations\<close>

lemma of_owner_insert:
  assumes "bm_invar m"
  shows "length (of_owner owner (bm_insert k v m))
    = length (of_owner owner m) + (if fst k = owner \<and> bm_get m k = None then 1 else 0)"
proof -
  have count: "length (of_owner owner xs) = sum_list (map (\<lambda>((bound, _), _). if bound = owner then 1 else 0) xs)" for xs :: "((str \<times> u64) \<times> 'v) list"
    by (induction xs) (auto simp: of_owner_def)
  show ?thesis
    unfolding count using bm_sum_insert [OF assms, of "\<lambda>((bound, _), _). if bound = owner then 1 else 0" k v]
    by (cases k) (auto split: option.splits if_splits)
qed

lemma notices_ok_fields:
  "qn_server_hash m = qn_server_hash n \<Longrightarrow> qn_owners m = qn_owners n \<Longrightarrow> qn_reply_items m = qn_reply_items n \<Longrightarrow>
    qn_reply_calls m = qn_reply_calls n \<Longrightarrow> qn_blocked m = qn_blocked n \<Longrightarrow> notices_ok dg m = notices_ok dg n"
  by (simp add: notices_ok_def)

lemma replies_ok_filter: "replies_ok owners replies \<Longrightarrow> replies_ok owners (filter p replies)"
  unfolding replies_ok_def
  by (auto simp: bm_invar_filter intro: order_trans [OF length_filter_le] order_trans [OF of_owner_filter])

lemma length_bs_of_list: "length (bs_of_list xs) \<le> length xs"
  using bs_extend_length [of "[]" xs] by (simp add: bs_of_list_extend)

lemma item_ids_ok: "digests_ok dg \<Longrightarrow> list_all valid_digest (item_ids dg call count) \<and> length (item_ids dg call count) \<le> count
    \<and> (item_ids dg call count = [] \<longrightarrow> count = 0)"
  using length_bs_of_list [of "map (nd_item dg call) [0 ..< count]"]
  by (auto simp: item_ids_def digests_ok_def list_all_iff dest: arg_cong [where f = set])

lemma call_ids_get: "calls_fine owners calls \<Longrightarrow> length (case bm_get calls owner of None \<Rightarrow> [] | Some ids \<Rightarrow> ids) \<le> MAX_KEYS_PER_OWNER
    \<and> list_all valid_digest (case bm_get calls owner of None \<Rightarrow> [] | Some ids \<Rightarrow> ids)"
  by (auto simp: calls_fine_def MAX_KEYS_PER_OWNER_def dest: map_of_SomeD split: option.split)

lemma calls_fine_insert:
  assumes "calls_fine owners calls" "bm_get owners owner \<noteq> None" "valid_digest d"
    and "sum_list (map (\<lambda>(_, ids). length ids) calls) < MAX_KEYS"
    and "length (case bm_get calls owner of None \<Rightarrow> [] | Some ids \<Rightarrow> ids) < MAX_KEYS_PER_OWNER"
  shows "calls_fine owners (bm_insert owner (bs_insert d (case bm_get calls owner of None \<Rightarrow> [] | Some ids \<Rightarrow> ids)) calls)"
proof -
  let ?ids = "case bm_get calls owner of None \<Rightarrow> [] | Some ids \<Rightarrow> ids"
  have invar: "bm_invar calls" using assms(1) by (simp add: calls_fine_def)
  note sorted = bm_invar_insert [OF invar, of owner "bs_insert d ?ids"]
  have "sum_list (map (\<lambda>(_, ids). length ids) (bm_insert owner (bs_insert d ?ids) calls))
      + (case bm_get calls owner of None \<Rightarrow> 0 | Some w \<Rightarrow> length w) = sum_list (map (\<lambda>(_, ids). length ids) calls) + length (bs_insert d ?ids)"
    using bm_sum_insert [OF invar, of "\<lambda>(_, ids). length ids" owner "bs_insert d ?ids"] by (simp split: option.splits)
  moreover have "(case bm_get calls owner of None \<Rightarrow> 0 | Some w \<Rightarrow> length w) = length ?ids" by (simp split: option.split)
  ultimately have "sum_list (map (\<lambda>(_, ids). length ids) (bm_insert owner (bs_insert d ?ids) calls)) \<le> MAX_KEYS"
    using length_bs_insert(1) [of d ?ids] assms(4) by linarith
  moreover have "length (bs_insert d ?ids) \<le> MAX_KEYS_PER_OWNER" using length_bs_insert(1) [of d ?ids] assms(5) by linarith
  moreover have "list_all valid_digest (bs_insert d ?ids)"
    using call_ids_get [OF assms(1), of owner] assms(3) by (simp add: list_all_iff)
  ultimately show ?thesis
    using assms(1,2) sorted unfolding calls_fine_def bm_get_in [OF sorted] bm_get_in [OF invar] bm_get_insert by simp
qed

lemma replies_ok_insert:
  assumes "replies_ok owners replies" "bm_get owners owner = Some s" "reply_metadata_ok s order items"
    and "length replies < MAX_TEXT_NOTICES" "length (of_owner owner replies) < MAX_TEXT_NOTICES_PER_OWNER"
  shows "replies_ok owners (bm_insert (owner, order) items replies)"
proof -
  have invar: "bm_invar replies" using assms(1) by (simp add: replies_ok_def)
  note sorted = bm_invar_insert [OF invar, of "(owner, order)" items]
  have "length (of_owner o1 (bm_insert (owner, order) items replies)) \<le> MAX_TEXT_NOTICES_PER_OWNER" for o1
    using assms(1,5) of_owner_insert [OF invar, of o1 "(owner, order)" items]
    by (cases "o1 = owner") (auto simp: replies_ok_def)
  then show ?thesis
    using assms bm_length_insert [OF invar, of "(owner, order)" items] sorted
    unfolding replies_ok_def bm_get_in [OF sorted] bm_get_in [OF invar] bm_get_insert by auto
qed

lemma register_frame [simp]:
  "qn_owners (register_reply_items dg owner order session call count n) = qn_owners n"
  "qn_server_hash (register_reply_items dg owner order session call count n) = qn_server_hash n"
  "qn_path (register_reply_items dg owner order session call count n) = qn_path n"
  "qn_invalid_sidecar (register_reply_items dg owner order session call count n) = qn_invalid_sidecar n"
  "qn_memory_only (register_reply_items dg owner order session call count n) = qn_memory_only n"
  "qn_last_write (register_reply_items dg owner order session call count n) = qn_last_write n"
  by (simp_all add: register_reply_items_def Let_def split: option.split)

lemma register_ok:
  assumes ok: "notices_ok dg n" and dg: "digests_ok dg"
  shows "notices_ok dg (register_reply_items dg owner order session call count n)"
proof (cases "owner \<in> set (qn_blocked n) \<or> (case bm_get (qn_owners n) owner of
      None \<Rightarrow> True | Some s \<Rightarrow> \<not> (order > qs_acknowledged s \<and> order = qs_latest s))")
  case False
  then obtain s where s: "bm_get (qn_owners n) owner = Some s" "qs_acknowledged s < order" "order = qs_latest s"
    by (auto split: option.splits)
  let ?session = "nd_identifier dg session" and ?d = "nd_call dg (nd_identifier dg session) call"
  have parts: "replies_ok (qn_owners n) (qn_reply_items n)" "calls_fine (qn_owners n) (qn_reply_calls n)"
      "blocked_ok (qn_owners n) (qn_blocked n)" "owners_ok dg (qn_server_hash n) (qn_owners n)"
    using ok by (simp_all add: notices_ok_def)
  have filtered: "notices_ok dg (n\<lparr>qn_reply_items := filter p (qn_reply_items n), qn_dirty := True\<rparr>)" for p
    using parts replies_ok_filter by (simp add: notices_ok_def)
  have blocked: "notices_ok dg (n\<lparr>qn_blocked := bs_insert owner (qn_blocked n), qn_reply_items := filter p (qn_reply_items n),
      qn_dirty := True\<rparr>)" for p
    using parts replies_ok_filter s(1) by (simp add: notices_ok_def blocked_ok_def)
  define m where "m = n\<lparr>qn_reply_calls := bm_insert owner (bs_insert ?d (call_ids n owner)) (qn_reply_calls n), qn_dirty := True\<rparr>"
  have called: "notices_ok dg m" if "\<not> (sum_list (map (\<lambda>(_, ids). length ids) (qn_reply_calls n)) \<ge> MAX_KEYS
      \<or> length (call_ids n owner) \<ge> MAX_KEYS_PER_OWNER)"
    using parts that s(1) dg calls_fine_insert [of "qn_owners n" "qn_reply_calls n" owner ?d]
    by (simp add: m_def notices_ok_def call_ids_def digests_ok_def)
  have items: "reply_metadata_ok s order \<lparr>ri_session = ?session, ri_items = item_ids dg call count, ri_pending = item_ids dg call count\<rparr>"
    if "reply_room m owner count"
    using that item_ids_ok [OF dg, of call count] s(2,3) dg
    by (auto simp: reply_metadata_ok_def reply_room_def digests_ok_def intro: le_less_trans [OF word_zero_le])
  have "notices_ok dg (m\<lparr>qn_reply_items := bm_insert (owner, order)
      \<lparr>ri_session = ?session, ri_items = item_ids dg call count, ri_pending = item_ids dg call count\<rparr> (qn_reply_items m)\<rparr>)"
    if "notices_ok dg m" "reply_room m owner count"
  proof -
    have "bm_get (qn_owners m) owner = Some s" by (simp add: m_def s)
    from replies_ok_insert [OF _ this items [OF that(2)]] show ?thesis
      using that by (simp add: notices_ok_def reply_room_def)
  qed
  then show ?thesis
    unfolding register_reply_items_def if_not_P [OF False] Let_def m_def [symmetric]
    using filtered blocked called by presburger
qed (simp add: register_reply_items_def ok)

lemma owners_ok_insert:
  assumes ok: "owners_ok dg server owners" and s: "notice_state_ok dg server s" "qs_owner_ref s = owner" "sorted_wrt (<) (qs_seen s)"
    and "bm_get owners owner = None \<Longrightarrow> length owners < MAX_OWNERS"
    and sum: "sum_list (map (\<lambda>(_, s). length (qs_seen s)) owners) + length (qs_seen s)
      \<le> MAX_KEYS + (case bm_get owners owner of None \<Rightarrow> 0 | Some w \<Rightarrow> length (qs_seen w))"
  shows "owners_ok dg server (bm_insert owner s owners)"
proof -
  have invar: "bm_invar owners" using ok by (simp add: owners_ok_def)
  note sorted = bm_invar_insert [OF invar, of owner s]
  have "sum_list (map (\<lambda>(_, s). length (qs_seen s)) (bm_insert owner s owners))
      + (case bm_get owners owner of None \<Rightarrow> 0 | Some w \<Rightarrow> length (qs_seen w))
      = sum_list (map (\<lambda>(_, s). length (qs_seen s)) owners) + length (qs_seen s)"
    using bm_sum_insert [OF invar, of "\<lambda>(_, s). length (qs_seen s)" owner s] by (simp split: option.splits)
  then have "sum_list (map (\<lambda>(_, s). length (qs_seen s)) (bm_insert owner s owners)) \<le> MAX_KEYS" using sum by linarith
  moreover have "length (bm_insert owner s owners) \<le> MAX_OWNERS"
    using bm_length_insert [OF invar, of owner s] ok assms(5) by (auto simp: owners_ok_def)
  ultimately show ?thesis
    using ok s sorted unfolding owners_ok_def bm_get_in [OF sorted] bm_get_in [OF invar] bm_get_insert by simp
qed

text \<open>An owner may be added, or grow.\<close>

lemma owner_grows:
  assumes "\<And>old. bm_get owners owner = Some old \<Longrightarrow> qs_latest old \<le> qs_latest s"
  shows "replies_ok owners replies \<Longrightarrow> replies_ok (bm_insert owner s owners) replies"
    and "calls_fine owners calls \<Longrightarrow> calls_fine (bm_insert owner s owners) calls"
    and "blocked_ok owners blocked \<Longrightarrow> blocked_ok (bm_insert owner s owners) blocked"
proof -
  assume r: "replies_ok owners replies"
  have "\<exists>t. bm_get (bm_insert owner s owners) o1 = Some t \<and> reply_metadata_ok t order items"
    if e: "((o1, order), items) \<in> set replies" for o1 order items
  proof -
    obtain t where t: "bm_get owners o1 = Some t" "reply_metadata_ok t order items"
      using r e unfolding replies_ok_def by blast
    then show ?thesis using assms by (auto simp: bm_get_insert reply_metadata_ok_def intro: order_trans)
  qed
  then show "replies_ok (bm_insert owner s owners) replies" using r by (simp add: replies_ok_def)
next
  show "calls_fine owners calls \<Longrightarrow> calls_fine (bm_insert owner s owners) calls"
    unfolding calls_fine_def bm_get_insert by (metis option.simps(3))
  show "blocked_ok owners blocked \<Longrightarrow> blocked_ok (bm_insert owner s owners) blocked"
    by (simp add: blocked_ok_def bm_get_insert)
qed

end
