(* ===== verification/QuestionNoticeSafety.thy ===== *)
theory QuestionNoticeSafety
  imports QuestionNoticeLaws
begin

text \<open>
  The invariant of the notices together with their sidecar, preserved by every operation whatever
  fails on the way, and what it says of a restart.
\<close>

section \<open>The invariant\<close>

definition disk_ok :: "(notice_snapshot \<Rightarrow> nat) \<Rightarrow> notice_digests \<Rightarrow> str \<Rightarrow> sidecar \<Rightarrow> bool" where
  "disk_ok JB dg server disk \<longleftrightarrow> sc_marker disk \<noteq> MarkerTorn
     \<and> (sc_snapshot disk = None \<longrightarrow> sc_marker disk \<noteq> MarkerComplete)
     \<and> (\<forall>s. sc_snapshot disk = Some s \<longrightarrow> JB s \<le> NOTICE_MAX_BYTES
          \<and> (\<exists>m. notices_ok dg m \<and> qn_server_hash m = server \<and> s = snapshot_of m))"

text \<open>What the sidecar says of an owner.\<close>

definition stored_owner :: "sidecar \<Rightarrow> str \<Rightarrow> notice_state option" where
  "stored_owner disk owner = (case sc_snapshot disk of
     None \<Rightarrow> None | Some s \<Rightarrow> find (\<lambda>t. qs_owner_ref t = owner) (sn_owners s))"

definition seen_durable :: "(str \<times> str) list \<Rightarrow> sidecar \<Rightarrow> str \<Rightarrow> notice_state \<Rightarrow> bool" where
  "seen_durable memory_only disk owner s \<longleftrightarrow> (\<forall>key \<in> set (qs_seen s). (owner, key) \<notin> set memory_only \<longrightarrow>
     (\<exists>t. stored_owner disk owner = Some t \<and> key \<in> set (qs_seen t)))"

definition acknowledged_durable :: "sidecar \<Rightarrow> str \<Rightarrow> notice_state \<Rightarrow> bool" where
  "acknowledged_durable disk owner s \<longleftrightarrow> (0 < qs_acknowledged s \<longrightarrow>
     (\<exists>t. stored_owner disk owner = Some t \<and> qs_acknowledged t = qs_acknowledged s))"

definition notices_durable :: "notices \<Rightarrow> sidecar \<Rightarrow> bool" where
  "notices_durable n disk \<longleftrightarrow> (\<forall>owner s. bm_get (qn_owners n) owner = Some s \<longrightarrow>
     seen_durable (qn_memory_only n) disk owner s \<and> acknowledged_durable disk owner s)"

definition healthy :: "notice_digests \<Rightarrow> str \<Rightarrow> notices \<Rightarrow> bool" where
  "healthy dg server n \<longleftrightarrow> notices_ok dg n \<and> qn_server_hash n = server \<and> qn_path n \<and> \<not> qn_invalid_sidecar n"

definition world_ok :: "(notice_snapshot \<Rightarrow> nat) \<Rightarrow> notice_digests \<Rightarrow> str \<Rightarrow> notice_world \<Rightarrow> bool" where
  "world_ok JB dg server w \<longleftrightarrow> healthy dg server (fst w) \<and> disk_ok JB dg server (snd w) \<and> notices_durable (fst w) (snd w)"

lemma healthy_fields:
  "qn_server_hash m = qn_server_hash n \<Longrightarrow> qn_owners m = qn_owners n \<Longrightarrow> qn_reply_items m = qn_reply_items n \<Longrightarrow>
    qn_reply_calls m = qn_reply_calls n \<Longrightarrow> qn_blocked m = qn_blocked n \<Longrightarrow> qn_path m = qn_path n \<Longrightarrow>
    qn_invalid_sidecar m = qn_invalid_sidecar n \<Longrightarrow> healthy dg server m = healthy dg server n"
  by (simp add: healthy_def notices_ok_def)

lemma durable_fields:
  "qn_owners m = qn_owners n \<Longrightarrow> qn_memory_only m = qn_memory_only n \<Longrightarrow> notices_durable m disk = notices_durable n disk"
  by (simp add: notices_durable_def)

text \<open>The saved state says of every owner what the memory says.\<close>

lemma stored_saved:
  assumes "owners_ok dg server (qn_owners m)" "sc_snapshot disk = Some (snapshot_of m)"
  shows "stored_owner disk owner = bm_get (qn_owners m) owner"
proof -
  have "find (\<lambda>t. qs_owner_ref t = owner) (map snd owners) = bm_get owners owner"
    if "\<forall>e \<in> set owners. qs_owner_ref (snd e) = fst e" for owners
    using that by (induction owners) auto
  moreover have "\<forall>e \<in> set (qn_owners m). qs_owner_ref (snd e) = fst e"
    using assms(1) unfolding owners_ok_def by (metis prod.collapse)
  ultimately show ?thesis
    using assms(2) by (simp add: stored_owner_def snapshot_of_def)
qed

lemma saved_durable:
  assumes "healthy dg server n" "sc_snapshot disk = Some (snapshot_of n)"
  shows "notices_durable n disk"
proof -
  have "stored_owner disk owner = bm_get (qn_owners n) owner" for owner
    using assms by (intro stored_saved) (auto simp: healthy_def notices_ok_def)
  then show ?thesis by (simp add: notices_durable_def seen_durable_def acknowledged_durable_def)
qed

section \<open>Saving\<close>

lemma persist_frame:
  assumes "persist_commit_until JB env deadline n disk = (m, d, result)"
  shows "qn_server_hash m = qn_server_hash n" "qn_owners m = qn_owners n" "qn_reply_items m = qn_reply_items n"
    "qn_reply_calls m = qn_reply_calls n" "qn_blocked m = qn_blocked n" "qn_path m = qn_path n"
    "qn_invalid_sidecar m = qn_invalid_sidecar n" "qn_question_text m = qn_question_text n" "qn_resolver m = qn_resolver n"
    "qn_bound m = qn_bound n" "qn_memory_only m = (if result = Committed then [] else qn_memory_only n)"
  using assms by (auto simp: persist_commit_until_def Let_def split: prod.splits if_splits)

lemma persist_disk:
  assumes "healthy dg server n" "disk_ok JB dg server disk" "sv_marker env \<noteq> MarkerTorn"
    and "persist_commit_until JB env deadline n disk = (m, d, result)"
  shows "disk_ok JB dg server d" "result = PreCommitFailed \<Longrightarrow> d = disk"
    "result \<noteq> PreCommitFailed \<Longrightarrow> sc_snapshot d = Some (snapshot_of n)"
proof -
  let ?n = "n\<lparr>qn_last_write := Some (sv_attempt env)\<rparr>"
  have same: "snapshot_of ?n = snapshot_of n" by (simp add: snapshot_of_def)
  obtain renamed saved where s: "save_inner JB env deadline ?n disk = (d, renamed, saved)"
    "result = (if saved then Committed else if renamed then CommittedDurabilityUnknown else PreCommitFailed)"
    using assms(4) by (auto simp: persist_commit_until_def save_def Let_def split: prod.splits if_splits)
  have "d = disk \<and> \<not> renamed \<and> \<not> saved \<or> renamed \<and> sc_snapshot d = Some (snapshot_of n) \<and> JB (snapshot_of n) \<le> NOTICE_MAX_BYTES
      \<and> sc_marker d \<noteq> MarkerTorn"
    using s(1) assms(1-3) unfolding save_inner_def same
    by (auto simp: healthy_def disk_ok_def create_marker_def Let_def split: if_splits marker.splits prod.splits)
  then show "disk_ok JB dg server d" "result = PreCommitFailed \<Longrightarrow> d = disk"
    "result \<noteq> PreCommitFailed \<Longrightarrow> sc_snapshot d = Some (snapshot_of n)"
    using assms(1,2) s(2) by (auto simp: disk_ok_def healthy_def split: if_splits)
qed

lemma persist_world:
  assumes n: "healthy dg server n" "disk_ok JB dg server disk" "sv_marker env \<noteq> MarkerTorn"
    and persist: "persist_commit_until JB env deadline n disk = (m, d, result)"
    and notices_durable: "notices_durable n disk \<or> result \<noteq> PreCommitFailed"
  shows "world_ok JB dg server (m, d)"
proof -
  note frame = persist_frame [OF persist] and disk = persist_disk [OF n persist]
  have "healthy dg server m" using healthy_fields [of m n] frame n(1) by simp
  moreover have "notices_durable m d"
  proof (cases "result = PreCommitFailed")
    case True
    then show ?thesis using notices_durable disk(2) frame durable_fields [of m n] by simp
  next
    case False
    have "snapshot_of m = snapshot_of n" using frame by (simp add: snapshot_of_def)
    then show ?thesis using saved_durable \<open>healthy dg server m\<close> disk(3) [OF False] by simp
  qed
  ultimately show ?thesis using disk(1) by (simp add: world_ok_def)
qed

section \<open>Issuing\<close>

lemma healthyD: "healthy dg server n \<Longrightarrow> owners_ok dg server (qn_owners n) \<and> bm_invar (qn_owners n)"
  by (auto simp: healthy_def notices_ok_def owners_ok_def)

lemma world_fields:
  "qn_server_hash m = qn_server_hash n \<Longrightarrow> qn_owners m = qn_owners n \<Longrightarrow> qn_reply_items m = qn_reply_items n \<Longrightarrow>
    qn_reply_calls m = qn_reply_calls n \<Longrightarrow> qn_blocked m = qn_blocked n \<Longrightarrow> qn_path m = qn_path n \<Longrightarrow>
    qn_invalid_sidecar m = qn_invalid_sidecar n \<Longrightarrow> qn_memory_only m = qn_memory_only n \<Longrightarrow>
    world_ok JB dg server (m, disk) = world_ok JB dg server (n, disk)"
  by (simp add: world_ok_def healthy_def notices_ok_def notices_durable_def)

lemma rejected_world: "world_ok JB dg server (n, disk) \<Longrightarrow> world_ok JB dg server (fst (reject_notice pane reason n), disk)"
  by (subst world_fields [of _ n]) (simp_all add: reject_notice_def)

lemma bound_world: "world_ok JB dg server (n, disk) \<Longrightarrow> world_ok JB dg server (bind_notice pane process n, disk)"
  by (subst world_fields [of _ n]) (simp_all add: bind_notice_def)

lemma noted_world:
  assumes w: "world_ok JB dg server (n, disk)" and dg: "digests_ok dg"
    and pane: "pane_instance_validate pane = Inr ()" "agent_process_validate process = Inr ()" "0 \<le> now"
    and room: "\<not> notice_full n (owner_ref dg (qn_server_hash n) pane process)"
    and fresh: "\<not> key_seen n (owner_ref dg (qn_server_hash n) pane process) (nd_key dg identifiers)"
  shows "world_ok JB dg server (note_question dg pane process identifiers now item_count n, disk)"
proof -
  let ?owner = "owner_ref dg (qn_server_hash n) pane process" and ?key = "nd_key dg identifiers"
  have n: "notices_ok dg n" "qn_server_hash n = server" "qn_path n" "\<not> qn_invalid_sidecar n" "disk_ok JB dg server disk"
      "notices_durable n disk"
    using w by (simp_all add: world_ok_def healthy_def)
  define s where "s = (case bm_get (qn_owners n) ?owner of
             Some s \<Rightarrow> s
           | None \<Rightarrow> \<lparr>qs_pane = pane, qs_process = process, qs_owner_ref = ?owner, qs_latest = 0, qs_acknowledged = 0,
               qs_last_issued_at = now, qs_seen = []\<rparr>)"
  define t where "t = s\<lparr>qs_latest := qs_latest s + 1, qs_last_issued_at := now, qs_seen := bs_insert ?key (qs_seen s)\<rparr>"
  define m where "m = n\<lparr>qn_memory_only := bs_insert (?owner, ?key) (qn_memory_only n),
    qn_resolver := cancel ?owner (qn_resolver n), qn_owners := bm_insert ?owner t (qn_owners n)\<rparr>"
  define q where "q = (case item_count of None \<Rightarrow> m
    | Some count \<Rightarrow> register_reply_items dg ?owner (qs_latest s + 1) (fst identifiers) (snd (snd identifiers)) count m)"
  have noted: "note_question dg pane process identifiers now item_count n
      = q\<lparr>qn_diagnostics := bm_remove (pane_key_of pane) (qn_diagnostics q), qn_dirty := True\<rparr>"
    by (simp add: note_question_def Let_def q_def m_def t_def s_def split: option.split)
  have sorted: "bm_invar (qn_owners n)" using n(1) by (simp add: notices_ok_def owners_ok_def)
  have s: "notice_state_ok dg server s \<and> qs_owner_ref s = ?owner \<and> sorted_wrt (<) (qs_seen s)"
  proof (cases "bm_get (qn_owners n) ?owner")
    case None
    then show ?thesis using pane n(2) by (simp add: s_def notice_state_ok_def)
  next
    case (Some u)
    then have "(?owner, u) \<in> set (qn_owners n)" by (simp add: bm_get_in [OF sorted])
    then show ?thesis using n(1,2) Some by (auto simp: s_def notices_ok_def owners_ok_def)
  qed
  have key: "?key \<notin> set (qs_seen s)" using fresh by (simp add: s_def key_seen_def split: option.splits)
  have few: "length (qs_seen s) < MAX_KEYS_PER_OWNER"
    using room by (auto simp: s_def notice_full_def MAX_KEYS_PER_OWNER_def split: option.splits)
  have top: "qs_latest s \<noteq> - 1" using room by (auto simp: s_def notice_full_def split: option.splits)
  have digest: "valid_digest ?key" using dg by (simp add: digests_ok_def del: split_paired_All)
  have t: "notice_state_ok dg server t" "qs_owner_ref t = ?owner" "sorted_wrt (<) (qs_seen t)"
    using s key few digest pane(3) inc_greater [OF top] length_bs_insert(2) [OF key]
    by (auto simp: t_def notice_state_ok_def bs_insert_sorted list_all_iff intro: order_trans)
  have "owners_ok dg server (bm_insert ?owner t (qn_owners n))"
  proof (rule owners_ok_insert [OF _ t])
    show "owners_ok dg server (qn_owners n)" using n(1,2) by (simp add: notices_ok_def)
    show "bm_get (qn_owners n) ?owner = None \<Longrightarrow> length (qn_owners n) < MAX_OWNERS"
      using room by (simp add: notice_full_def)
    have "key_count n < MAX_KEYS" using room by (simp add: notice_full_def)
    moreover have "length (qs_seen t) = Suc (case bm_get (qn_owners n) ?owner of None \<Rightarrow> 0 | Some w \<Rightarrow> length (qs_seen w))"
      using length_bs_insert(2) [OF key] by (simp add: t_def s_def split: option.splits)
    ultimately show "sum_list (map (\<lambda>(_, s). length (qs_seen s)) (qn_owners n)) + length (qs_seen t)
        \<le> MAX_KEYS + (case bm_get (qn_owners n) ?owner of None \<Rightarrow> 0 | Some w \<Rightarrow> length (qs_seen w))"
      by (simp add: key_count_def)
  qed
  moreover have grows: "qs_latest old \<le> qs_latest t" if "bm_get (qn_owners n) ?owner = Some old" for old
    using that inc_greater [OF top] by (simp add: t_def s_def)
  ultimately have "notices_ok dg m"
    using n(1,2) owner_grows [of "qn_owners n" ?owner t, OF grows] by (simp add: m_def notices_ok_def)
  then have "notices_ok dg q" using register_ok dg by (simp add: q_def split: option.split)
  moreover have frame: "qn_owners q = qn_owners m" "qn_server_hash q = server" "qn_path q" "\<not> qn_invalid_sidecar q"
      "qn_memory_only q = qn_memory_only m"
    using n by (simp_all add: q_def m_def split: option.split)
  moreover have "notices_durable m disk"
    unfolding notices_durable_def
  proof (intro allI impI)
    fix owner u assume u: "bm_get (qn_owners m) owner = Some u"
    show "seen_durable (qn_memory_only m) disk owner u \<and> acknowledged_durable disk owner u"
    proof (cases "owner = ?owner")
      case True
      then have "u = t" using u by (simp add: m_def bm_get_insert)
      show ?thesis
      proof (cases "bm_get (qn_owners n) ?owner")
        case None
        then show ?thesis using True \<open>u = t\<close> by (simp add: seen_durable_def acknowledged_durable_def t_def s_def m_def)
      next
        case (Some old)
        then have "seen_durable (qn_memory_only n) disk owner old \<and> acknowledged_durable disk owner old"
          using n(6) True by (simp add: notices_durable_def)
        then show ?thesis
          using True \<open>u = t\<close> Some by (auto simp: seen_durable_def acknowledged_durable_def t_def s_def m_def)
      qed
    next
      case False
      then have "bm_get (qn_owners n) owner = Some u" using u by (simp add: m_def bm_get_insert)
      then show ?thesis using n(6) by (auto simp: notices_durable_def seen_durable_def m_def)
    qed
  qed
  ultimately show ?thesis
    using n(5) durable_fields [of q m disk] unfolding noted
    by (simp add: world_ok_def healthy_def notices_ok_def notices_durable_def)
qed

lemma issued_world:
  assumes w: "world_ok JB dg server (n, disk)" and dg: "digests_ok dg"
    and event: "notice_event_ok (IssueQuestion env pane process identifiers now item_count)"
    and issue: "issue_with_items JB dg env pane process identifiers now item_count n disk = (m, d, result)"
  shows "world_ok JB dg server (m, d)"
    and "nr_durability result = Some NoticePersisted \<Longrightarrow>
      key_seen m (owner_ref dg server pane process) (nd_key dg identifiers)
      \<and> (owner_ref dg server pane process, nd_key dg identifiers) \<notin> set (qn_memory_only m)"
proof -
  let ?owner = "owner_ref dg server pane process" and ?key = "nd_key dg identifiers"
  define b where "b = bind_notice pane process n"
  have b: "world_ok JB dg server (b, disk)" unfolding b_def by (rule bound_world [OF w])
  then have server: "qn_server_hash b = server" "\<not> qn_invalid_sidecar b" "healthy dg server b" "disk_ok JB dg server disk"
      "notices_durable b disk"
    by (simp_all add: world_ok_def healthy_def)
  have torn: "sv_marker env \<noteq> MarkerTorn" using event by simp
  have step: "issue_with_items JB dg env pane process identifiers now item_count n disk =
      (if key_seen b ?owner ?key
       then (case if (?owner, ?key) \<in> set (qn_memory_only b) then persist JB env b disk else (b, disk, True) of
         (n, disk, _) \<Rightarrow> (n, disk, accepted_notice NoticeDuplicate ((?owner, ?key) \<notin> set (qn_memory_only n))))
       else if notice_full b ?owner
       then (case reject_notice pane NoticeCapacityExceeded b of (n, result) \<Rightarrow> (n, disk, result))
       else let n = note_question dg pane process identifiers now item_count b
         in if retry_due env n
            then (case persist JB env n disk of
              (n, disk, persisted) \<Rightarrow> (n, disk, accepted_notice NoticeApplied persisted))
            else (n, disk, accepted_notice NoticeApplied False))"
    unfolding issue_with_items_def Let_def b_def [symmetric] server(1) using server(2) by simp
  have "world_ok JB dg server (m, d) \<and> (nr_durability result = Some NoticePersisted \<longrightarrow>
      key_seen m ?owner ?key \<and> (?owner, ?key) \<notin> set (qn_memory_only m))"
  proof (cases "key_seen b ?owner ?key")
    case seen: True
    show ?thesis
    proof (cases "(?owner, ?key) \<in> set (qn_memory_only b)")
      case True
      then obtain r where p: "persist_commit_until JB env None b disk = (m, d, r)"
          "result = accepted_notice NoticeDuplicate ((?owner, ?key) \<notin> set (qn_memory_only m))"
        using issue seen unfolding step by (auto simp: persist_def split: prod.splits)
      then show ?thesis
        using persist_world [OF server(3,4) torn p(1)] server(5) persist_frame(2) [OF p(1)] seen
        by (simp add: accepted_notice_def key_seen_def)
    next
      case False
      then show ?thesis using issue seen b unfolding step by (auto simp: accepted_notice_def)
    qed
  next
    case fresh: False
    show ?thesis
    proof (cases "notice_full b ?owner")
      case True
      then show ?thesis
        using issue fresh rejected_world [OF b, of pane NoticeCapacityExceeded] unfolding step
        by (auto simp: reject_notice_def)
    next
      case room: False
      define q where "q = note_question dg pane process identifiers now item_count b"
      have q: "world_ok JB dg server (q, disk)"
        unfolding q_def using noted_world [OF b dg] event fresh room server(1) by simp
      have seen: "key_seen q ?owner ?key"
        by (simp add: q_def note_question_def Let_def server(1) key_seen_def bm_get_insert split: option.split)
      show ?thesis
      proof (cases "retry_due env q")
        case True
        then obtain r where p: "persist_commit_until JB env None q disk = (m, d, r)"
            "result = accepted_notice NoticeApplied (r = Committed)"
          using issue fresh room unfolding step q_def [symmetric] Let_def by (auto simp: persist_def split: prod.splits)
        then show ?thesis
          using persist_world [OF _ _ torn p(1)] q persist_frame(2,11) [OF p(1)] seen
          by (auto simp: accepted_notice_def key_seen_def world_ok_def)
      next
        case False
        then show ?thesis
          using issue fresh room q unfolding step q_def [symmetric] Let_def by (auto simp: accepted_notice_def)
      qed
    qed
  qed
  then show "world_ok JB dg server (m, d)"
    and "nr_durability result = Some NoticePersisted \<Longrightarrow> key_seen m ?owner ?key \<and> (?owner, ?key) \<notin> set (qn_memory_only m)"
    by simp_all
qed

section \<open>Acknowledging\<close>

lemma canceled_world: "world_ok JB dg server (n\<lparr>qn_resolver := r\<rparr>, disk) = world_ok JB dg server (n, disk)"
  by (rule world_fields) simp_all

lemma acknowledged_owner:
  assumes n: "healthy dg server n" "bm_get (qn_owners n) owner = Some s" and "through \<le> qs_latest s"
  shows "healthy dg server (n\<lparr>qn_owners := bm_insert owner (s\<lparr>qs_acknowledged := through\<rparr>) (qn_owners n)\<rparr>)"
proof -
  let ?s = "s\<lparr>qs_acknowledged := through\<rparr>"
  have ok: "owners_ok dg server (qn_owners n)" using healthyD [OF n(1)] by simp
  then have sorted: "bm_invar (qn_owners n)" by (simp add: owners_ok_def)
  have s: "notice_state_ok dg server s" "qs_owner_ref s = owner" "sorted_wrt (<) (qs_seen s)"
    using ok n(2) unfolding owners_ok_def bm_get_in [OF sorted] by blast+
  have "owners_ok dg server (bm_insert owner ?s (qn_owners n))"
  proof (rule owners_ok_insert [OF ok])
    show "notice_state_ok dg server ?s" using s(1) assms(3) by (simp add: notice_state_ok_def)
    have "sum_list (map (\<lambda>(_, s). length (qs_seen s)) (qn_owners n)) \<le> MAX_KEYS" using ok by (simp add: owners_ok_def)
    then show "sum_list (map (\<lambda>(_, s). length (qs_seen s)) (qn_owners n)) + length (qs_seen ?s)
        \<le> MAX_KEYS + (case bm_get (qn_owners n) owner of None \<Rightarrow> 0 | Some w \<Rightarrow> length (qs_seen w))"
      using n(2) by simp
  qed (use s n(2) in simp_all)
  then show ?thesis
    using n owner_grows [of "qn_owners n" owner ?s] by (auto simp: healthy_def notices_ok_def)
qed

lemma bm_insert_back: "bm_invar m \<Longrightarrow> bm_get m k = Some v \<Longrightarrow> bm_insert k v (bm_insert k w m) = m"
  by (rule bm_ext) (auto simp: bm_invar_insert bm_get_insert)

lemma filtered_world:
  assumes "world_ok JB dg server (n, disk)" "qn_reply_items m = filter p (qn_reply_items n)"
    and "qn_server_hash m = qn_server_hash n" "qn_owners m = qn_owners n" "qn_reply_calls m = qn_reply_calls n"
    "qn_blocked m = qn_blocked n" "qn_path m = qn_path n" "qn_invalid_sidecar m = qn_invalid_sidecar n"
    "qn_memory_only m = qn_memory_only n"
  shows "world_ok JB dg server (m, disk)"
  using assms replies_ok_filter [of "qn_owners n" "qn_reply_items n" p]
  by (auto simp: world_ok_def healthy_def notices_ok_def notices_durable_def)

text \<open>The outcome of an acknowledgement: unless it reports success, the owners, the reply items and the
  sidecar are as they were.\<close>

lemma acknowledged_world:
  assumes w: "world_ok JB dg server (n, disk)" and torn: "sv_marker env \<noteq> MarkerTorn"
    and ack: "acknowledge_until JB env pane owner through deadline n disk = (m, d, result)"
  shows "world_ok JB dg server (m, d)
    \<and> (result \<noteq> Inr True \<longrightarrow> qn_owners m = qn_owners n \<and> qn_reply_items m = qn_reply_items n \<and> d = disk
         \<and> qn_dirty m = qn_dirty n \<and> qn_last_write m = qn_last_write n \<and> qn_memory_only m = qn_memory_only n
         \<and> qn_question_text m = qn_question_text n)
    \<and> (result = Inr True \<longrightarrow> (\<exists>s. bm_get (qn_owners n) owner = Some s \<and> qs_pane s = pane \<and> qs_acknowledged s < through
         \<and> through \<le> qs_latest s \<and> qn_owners m = bm_insert owner (s\<lparr>qs_acknowledged := through\<rparr>) (qn_owners n)))"
proof -
  define c where "c = n\<lparr>qn_resolver := cancel owner (qn_resolver n)\<rparr>"
  have c: "world_ok JB dg server (c, disk)" using w by (simp add: c_def canceled_world)
  then have hc: "healthy dg server c" "disk_ok JB dg server disk" "notices_durable c disk" by (simp_all add: world_ok_def)
  have valid: "\<not> qn_invalid_sidecar n" using w by (simp add: world_ok_def healthy_def)
  show ?thesis
  proof (cases "owner_in_pane c pane owner")
    case (Inl e)
    then show ?thesis using ack c valid by (auto simp: acknowledge_until_def c_def [symmetric] Let_def) (auto simp: c_def)
  next
    case (Inr s)
    then have s: "bm_get (qn_owners n) owner = Some s" "qs_pane s = pane" "bm_get (qn_owners c) owner = Some s"
      by (auto simp: owner_in_pane_def c_def split: option.splits if_splits)
    consider "through > qs_latest s" | "through \<le> qs_latest s" "through \<le> qs_acknowledged s"
      | "through \<le> qs_latest s" "\<not> through \<le> qs_acknowledged s" by fastforce
    then show ?thesis
    proof cases
      case 3
      let ?a = "c\<lparr>qn_owners := bm_insert owner (s\<lparr>qs_acknowledged := through\<rparr>) (qn_owners c)\<rparr>"
      have a: "healthy dg server ?a" by (rule acknowledged_owner [OF hc(1) s(3) 3(1)])
      obtain k r where p: "persist_commit_until JB env deadline ?a disk = (k, d, r)"
        and result: "(m, result) = (if r = PreCommitFailed
          then (commit_failed pane c (k\<lparr>qn_owners := bm_insert owner s (qn_owners k)\<rparr>), Inl PersistencePending)
          else (drop_acknowledged owner through (commit_noted pane r k), Inr True))"
        using ack valid 3 Inr unfolding acknowledge_until_def c_def [symmetric] Let_def
        by (auto split: prod.splits if_splits)
      note frame = persist_frame [OF p] and disk = persist_disk [OF a hc(2) torn p]
      show ?thesis
      proof (cases "r = PreCommitFailed")
        case True
        have sorted: "bm_invar (qn_owners c)" using healthyD [OF hc(1)] by simp
        have m: "m = commit_failed pane c (k\<lparr>qn_owners := bm_insert owner s (qn_owners k)\<rparr>)" "result = Inl PersistencePending"
          using result True by simp_all
        have "bm_insert owner s (qn_owners k) = qn_owners c"
          using frame(2) bm_insert_back [OF sorted s(3)] by simp
        then have fields: "qn_owners m = qn_owners c" "qn_server_hash m = qn_server_hash c" "qn_reply_items m = qn_reply_items c"
            "qn_reply_calls m = qn_reply_calls c" "qn_blocked m = qn_blocked c" "qn_path m = qn_path c"
            "qn_invalid_sidecar m = qn_invalid_sidecar c" "qn_memory_only m = qn_memory_only c"
            "qn_dirty m = qn_dirty c" "qn_last_write m = qn_last_write c" "qn_question_text m = qn_question_text c"
          using frame True by (simp_all add: m(1) commit_failed_def set_diagnostic_def)
        then have "world_ok JB dg server (m, disk)" using c world_fields [of m c] by simp
        then show ?thesis using disk(2) [OF True] fields m(2) by (simp add: c_def)
      next
        case False
        have "world_ok JB dg server (k, d)" using persist_world [OF a hc(2) torn p] False by blast
        then have "world_ok JB dg server (commit_noted pane r k, d)"
          by (subst world_fields [of _ k]) (simp_all add: commit_noted_def set_diagnostic_def clear_diagnostic_def)
        moreover have m: "m = drop_acknowledged owner through (commit_noted pane r k)" "result = Inr True"
          using result False by simp_all
        ultimately have "world_ok JB dg server (m, d)"
          by (rule_tac filtered_world) (simp_all add: drop_acknowledged_def)
        moreover have "qn_owners m = qn_owners ?a"
          using frame(2) by (simp add: m(1) drop_acknowledged_def commit_noted_def set_diagnostic_def clear_diagnostic_def)
        ultimately show ?thesis using m(2) s 3 by (simp add: c_def)
      qed
    next
      case 1
      then have "(m, d, result) = (c, disk, Inl FutureNoticeOrder)"
        using ack valid Inr unfolding acknowledge_until_def c_def [symmetric] Let_def by simp
      then show ?thesis using c by (simp add: c_def)
    next
      case 2
      then have "(m, d, result) = (c, disk, Inr False)"
        using ack valid Inr leD [OF 2(1)] unfolding acknowledge_until_def c_def [symmetric] Let_def by simp
      then show ?thesis using c by (simp add: c_def)
    qed
  qed
qed

section \<open>Replies\<close>

lemma answer_keys: "bm_get (fold (answer_item owner acknowledged) pairs m) key
    = map_option (\<lambda>items. items\<lparr>ri_pending := filter (\<lambda>i. \<not> (acknowledged < snd key \<and> fst key = owner
        \<and> (i, snd key) \<in> set pairs)) (ri_pending items)\<rparr>) (bm_get m key)"
proof (induction pairs arbitrary: m)
  case (Cons pair pairs)
  have "bm_get (answer_item owner acknowledged pair m) key = map_option (\<lambda>items. items\<lparr>ri_pending :=
      filter (\<lambda>i. \<not> (acknowledged < snd key \<and> fst key = owner \<and> (i, snd key) = pair)) (ri_pending items)\<rparr>) (bm_get m key)"
    by (cases pair; cases key; cases "bm_get m key")
      (auto simp: answer_item_def bm_get_map_values bs_remove_def leD intro!: reply_items.equality filter_cong)
  moreover have "filter (\<lambda>i. \<not> (acknowledged < snd key \<and> fst key = owner \<and> (i, snd key) \<in> set pairs))
      (filter (\<lambda>i. \<not> (acknowledged < snd key \<and> fst key = owner \<and> (i, snd key) = pair)) is)
      = filter (\<lambda>i. \<not> (acknowledged < snd key \<and> fst key = owner \<and> (i, snd key) \<in> set (pair # pairs))) is" for "is"
    by (auto intro!: filter_cong)
  ultimately show ?case by (cases "bm_get m key") (simp_all add: Cons.IH)
qed (auto simp: map_option_case split: option.split)

lemma answer_invar: "bm_invar m \<Longrightarrow> bm_invar (fold (answer_item owner acknowledged) pairs m)"
  by (induction pairs arbitrary: m) (auto simp: answer_item_def bm_invar_map_values)

lemma bm_keys_length:
  assumes "bm_invar (m :: ('k::linorder \<times> 'v) list)" "bm_invar (q :: ('k \<times> 'w) list)"
    and "\<And>k. bm_get m k = None \<longleftrightarrow> bm_get q k = None"
  shows "map fst m = map fst q"
proof -
  have "set (map fst m) = set (map fst q)" using assms(3) by (auto simp: map_of_eq_None_iff)
  then show ?thesis using assms(1,2) strict_sorted_equal by (metis bm_invar_def)
qed

lemma same_keys_owner: "map fst m = map fst q \<Longrightarrow> length (of_owner owner m) = length (of_owner owner q)"
proof (induction m arbitrary: q)
  case (Cons x m)
  then show ?case by (cases q; cases x) (auto simp: of_owner_def)
qed (simp add: of_owner_def)

lemma answered_world:
  assumes w: "world_ok JB dg server (n, disk)"
  shows "world_ok JB dg server (n\<lparr>qn_reply_items := fold (answer_item owner acknowledged) pairs (qn_reply_items n)\<rparr>, disk)"
proof -
  let ?m = "fold (answer_item owner acknowledged) pairs (qn_reply_items n)"
  have r: "replies_ok (qn_owners n) (qn_reply_items n)" using w by (simp add: world_ok_def healthy_def notices_ok_def)
  then have invar: "bm_invar (qn_reply_items n)" by (simp add: replies_ok_def)
  note sorted = answer_invar [OF invar, of owner acknowledged pairs]
  have keys: "map fst ?m = map fst (qn_reply_items n)"
    by (rule bm_keys_length [OF sorted invar]) (simp add: answer_keys)
  have "\<exists>s. bm_get (qn_owners n) o1 = Some s \<and> reply_metadata_ok s order items"
    if e: "bm_get ?m (o1, order) = Some items" for o1 order items
  proof -
    obtain old where old: "bm_get (qn_reply_items n) (o1, order) = Some old" "ri_session items = ri_session old"
        "ri_items items = ri_items old" "set (ri_pending items) \<subseteq> set (ri_pending old)"
      using e by (auto simp: answer_keys)
    then obtain s where "bm_get (qn_owners n) o1 = Some s" "reply_metadata_ok s order old"
      using r unfolding replies_ok_def bm_get_in [OF invar] by blast
    then show ?thesis using old by (auto simp: reply_metadata_ok_def)
  qed
  moreover have "length ?m = length (qn_reply_items n)" using keys by (metis length_map)
  ultimately have "replies_ok (qn_owners n) ?m"
    using r sorted same_keys_owner [OF keys] unfolding replies_ok_def bm_get_in [OF sorted] by simp
  then show ?thesis using w by (auto simp: world_ok_def healthy_def notices_ok_def notices_durable_def)
qed

lemma restored_get: "bm_get (fold (\<lambda>(key, items). bm_insert key items) before m) k
    = (case bm_get (rev before) k of None \<Rightarrow> bm_get m k | Some v \<Rightarrow> Some v)"
proof (induction before arbitrary: m)
  case (Cons e es)
  then show ?case by (cases e) (auto simp: bm_get_insert map_add_def split: option.split)
qed simp

lemma restored_invar: "bm_invar m \<Longrightarrow> bm_invar (fold (\<lambda>(key, items). bm_insert key items) before m)"
  by (induction before arbitrary: m) (auto simp: bm_invar_insert)

lemma above_succ: "saturating_succ a \<le> n" if "a < n" for a n :: "'l::len word"
  using that inc_le_iff [of a n] by (auto simp: saturating_succ_def)

lemma reply_range_get: "bm_get (reply_range n owner low high) k
    = (if fst k = owner \<and> low \<le> snd k \<and> snd k \<le> high then bm_get (qn_reply_items n) k else None)"
proof -
  have eq: "reply_range n owner low high
      = filter (\<lambda>e. (\<lambda>k. fst k = owner \<and> low \<le> snd k \<and> snd k \<le> high) (fst e)) (qn_reply_items n)"
    by (auto simp: reply_range_def intro!: filter_cong)
  show ?thesis
    unfolding eq using bm_get_filter_key [of "\<lambda>k. fst k = owner \<and> low \<le> snd k \<and> snd k \<le> high" "qn_reply_items n" k]
    by simp
qed

text \<open>Taking back the answers of a reply.\<close>

lemma restored_items:
  assumes invar: "bm_invar (qn_reply_items n)" and before: "before = reply_range n owner (saturating_succ acknowledged) latest"
    and pairs: "\<not> list_ex (foreign_pair before owner session acknowledged) pairs"
  shows "fold (\<lambda>(key, items). bm_insert key items) before (fold (answer_item owner acknowledged) pairs (qn_reply_items n))
    = qn_reply_items n"
proof (rule bm_ext)
  show "bm_invar (fold (\<lambda>(key, items). bm_insert key items) before (fold (answer_item owner acknowledged) pairs (qn_reply_items n)))"
    by (rule restored_invar [OF answer_invar [OF invar]])
  have "bm_invar before" unfolding before reply_range_def by (rule bm_invar_filter [OF invar])
  then have "distinct (map fst before)" by (simp add: bm_invar_def sorted_wrt_distinct)
  then have rev: "bm_get (rev before) k = bm_get before k" for k
    using map_of_inject_set [of "rev before" before] by (simp add: rev_map [symmetric])
  note get = reply_range_get [of n owner "saturating_succ acknowledged" latest, folded before]
  fix k
  show "bm_get (fold (\<lambda>(key, items). bm_insert key items) before (fold (answer_item owner acknowledged) pairs (qn_reply_items n))) k
      = bm_get (qn_reply_items n) k"
  proof (cases "bm_get before k")
    case (Some v)
    then show ?thesis by (simp add: restored_get rev) (simp add: get split: if_splits)
  next
    case None
    have "\<not> (acknowledged < snd k \<and> fst k = owner \<and> (i, snd k) \<in> set pairs)" if "bm_get (qn_reply_items n) k \<noteq> None" for i
    proof
      assume k: "acknowledged < snd k \<and> fst k = owner \<and> (i, snd k) \<in> set pairs"
      then have "\<not> foreign_pair before owner session acknowledged (i, snd k)" using pairs by (auto simp: list_ex_iff)
      then have "bm_get before k \<noteq> None" using k by (auto simp: foreign_pair_def split: option.splits)
      then show False using None by simp
    qed
    then have "map_option (\<lambda>items. items\<lparr>ri_pending := filter (\<lambda>i. \<not> (acknowledged < snd k \<and> fst k = owner
        \<and> (i, snd k) \<in> set pairs)) (ri_pending items)\<rparr>) (bm_get (qn_reply_items n) k) = bm_get (qn_reply_items n) k"
      by (cases "bm_get (qn_reply_items n) k") auto
    then show ?thesis using None by (simp add: restored_get rev answer_keys)
  qed
qed (rule invar)

lemma replied_world:
  assumes w: "world_ok JB dg server (n, disk)" and torn: "sv_marker env \<noteq> MarkerTorn"
    and reply: "acknowledge_reply_orders JB env now pane owner session reply orders deadline n disk = (m, d, result)"
  shows "world_ok JB dg server (m, d)
    \<and> (\<forall>e. result = Inl e \<longrightarrow> qn_owners m = qn_owners n \<and> qn_reply_items m = qn_reply_items n \<and> d = disk
         \<and> qn_dirty m = qn_dirty n \<and> qn_last_write m = qn_last_write n \<and> qn_memory_only m = qn_memory_only n)"
proof -
  consider "m = n" "d = disk" | s where "owner_in_pane n pane owner = Inr s" "\<not> qs_acknowledged s \<ge> qs_latest s"
      "\<not> list_ex (foreign_pair (reply_range n owner (saturating_succ (qs_acknowledged s)) (qs_latest s)) owner session
          (qs_acknowledged s)) (zip reply orders)"
      "(let acknowledged = qs_acknowledged s; latest = qs_latest s;
            before = reply_range n owner (saturating_succ acknowledged) latest; pairs = zip reply orders;
            q = n\<lparr>qn_reply_items := fold (answer_item owner acknowledged) pairs (qn_reply_items n)\<rparr>;
            through = answered_prefix q owner acknowledged latest
        in if through = acknowledged
           then if reply_range q owner (saturating_succ acknowledged) latest = before then (q, disk, Inr False)
             else (case persist_commit_until JB env (Some deadline) q disk of
               (k, disk, result) \<Rightarrow>
                 if result = PreCommitFailed
                 then (commit_failed pane q (restore_items before k), disk, Inl PersistencePending)
                 else (commit_noted pane result k, disk, Inr False))
           else (case acknowledge_until JB env pane owner through (Some deadline) q disk of
             (k, disk, Inr changed) \<Rightarrow> (k, disk, Inr changed)
           | (k, disk, Inl e) \<Rightarrow> (restore_items before k, disk, Inl e))) = (m, d, result)"
  proof -
    let ?late = "deadline - now < REPLY_COMMIT_RESERVE"
    let ?bad = "\<not> reply_valid reply \<or> length orders \<noteq> length reply \<or> 0 \<in> set orders \<or> \<not> tracking_healthy n"
    consider ?late | "\<not> ?late" ?bad | "\<not> ?late" "\<not> ?bad" by blast
    then show thesis
    proof cases
      case 1
      then show thesis using reply that(1) by (simp add: acknowledge_reply_orders_def)
    next
      case 2
      then show thesis using reply that(1) unfolding acknowledge_reply_orders_def if_not_P [OF 2(1)] if_P [OF 2(2)] by simp
    next
      case 3
      note run = reply [unfolded acknowledge_reply_orders_def if_not_P [OF 3(1)] if_not_P [OF 3(2)]]
      show thesis
      proof (cases "owner_in_pane n pane owner")
        case (Inl e)
        then show thesis using run that(1) by simp
      next
        case (Inr s)
        let ?known = "qs_acknowledged s \<ge> qs_latest s \<or> list_all (\<lambda>order. order \<le> qs_acknowledged s) orders"
        let ?foreign = "list_ex (foreign_pair (reply_range n owner (saturating_succ (qs_acknowledged s)) (qs_latest s)) owner
            session (qs_acknowledged s)) (zip reply orders)"
        note run = run [unfolded Inr sum.case]
        consider ?known | "\<not> ?known" ?foreign | "\<not> ?known" "\<not> ?foreign" by blast
        then show thesis
        proof cases
          case 1
          then show thesis using run that(1) by (simp add: Let_def)
        next
          case 2
          then show thesis using run that(1) unfolding Let_def if_not_P [OF 2(1)] if_P [OF 2(2)] by simp
        next
          case 3
          then show thesis
            using run that(2) [OF Inr] unfolding Let_def if_not_P [OF 3(1)] if_not_P [OF 3(2)] by blast
        qed
      qed
    qed
  qed
  then show ?thesis
  proof cases
    case 1
    then show ?thesis using w by simp
  next
    case (2 s)
    define before where "before = reply_range n owner (saturating_succ (qs_acknowledged s)) (qs_latest s)"
    define q where "q = n\<lparr>qn_reply_items := fold (answer_item owner (qs_acknowledged s)) (zip reply orders) (qn_reply_items n)\<rparr>"
    define through where "through = answered_prefix q owner (qs_acknowledged s) (qs_latest s)"
    have q: "world_ok JB dg server (q, disk)" unfolding q_def by (rule answered_world [OF w])
    then have hq: "healthy dg server q" "disk_ok JB dg server disk" "notices_durable q disk" by (simp_all add: world_ok_def)
    have "bm_invar (qn_reply_items n)" using w by (simp add: world_ok_def healthy_def notices_ok_def replies_ok_def)
    from restored_items [OF this before_def] 2(3)
    have restored: "fold (\<lambda>(key, items). bm_insert key items) before (qn_reply_items q) = qn_reply_items n"
      by (simp add: before_def q_def)
    have run: "(if through = qs_acknowledged s
           then if reply_range q owner (saturating_succ (qs_acknowledged s)) (qs_latest s) = before then (q, disk, Inr False)
             else (case persist_commit_until JB env (Some deadline) q disk of
               (k, disk, result) \<Rightarrow>
                 if result = PreCommitFailed
                 then (commit_failed pane q (restore_items before k), disk, Inl PersistencePending)
                 else (commit_noted pane result k, disk, Inr False))
           else (case acknowledge_until JB env pane owner through (Some deadline) q disk of
             (k, disk, Inr changed) \<Rightarrow> (k, disk, Inr changed)
           | (k, disk, Inl e) \<Rightarrow> (restore_items before k, disk, Inl e))) = (m, d, result)"
      using 2(4) unfolding Let_def before_def through_def q_def .
    show ?thesis
    proof (cases "through = qs_acknowledged s")
      case stay: True
      show ?thesis
      proof (cases "reply_range q owner (saturating_succ (qs_acknowledged s)) (qs_latest s) = before")
        case True
        then show ?thesis using run stay q by auto
      next
        case False
        obtain k r where p: "persist_commit_until JB env (Some deadline) q disk = (k, d, r)"
          and result: "(m, result) = (if r = PreCommitFailed
            then (commit_failed pane q (restore_items before k), Inl PersistencePending)
            else (commit_noted pane r k, Inr False))"
          using run stay False by (auto split: prod.splits if_splits)
        note frame = persist_frame [OF p] and disk = persist_disk [OF hq(1,2) torn p]
        show ?thesis
        proof (cases "r = PreCommitFailed")
          case True
          then have m: "m = commit_failed pane q (restore_items before k)" "result = Inl PersistencePending"
            using result by simp_all
          have fields: "qn_owners m = qn_owners n" "qn_server_hash m = qn_server_hash n" "qn_reply_items m = qn_reply_items n"
              "qn_reply_calls m = qn_reply_calls n" "qn_blocked m = qn_blocked n" "qn_path m = qn_path n"
              "qn_invalid_sidecar m = qn_invalid_sidecar n" "qn_memory_only m = qn_memory_only n"
              "qn_dirty m = qn_dirty n" "qn_last_write m = qn_last_write n"
            using frame True restored by (simp_all add: m(1) commit_failed_def set_diagnostic_def restore_items_def) (simp_all add: q_def)
          then have "world_ok JB dg server (m, disk)" using w world_fields [of m n] by simp
          then show ?thesis using disk(2) [OF True] fields m(2) by simp
        next
          case False
          have "world_ok JB dg server (k, d)" using persist_world [OF hq(1,2) torn p] False by blast
          then have "world_ok JB dg server (commit_noted pane r k, d)"
            by (subst world_fields [of _ k]) (simp_all add: commit_noted_def set_diagnostic_def clear_diagnostic_def)
          then show ?thesis using result False by simp
        qed
      qed
    next
      case False
      obtain k c where ack: "acknowledge_until JB env pane owner through (Some deadline) q disk = (k, d, c)"
        and result: "(m, result) = (case c of Inr changed \<Rightarrow> (k, Inr changed) | Inl e \<Rightarrow> (restore_items before k, Inl e))"
        using run False by (auto split: prod.splits sum.splits)
      note outcome = acknowledged_world [OF q torn ack]
      show ?thesis
      proof (cases c)
        case (Inl e)
        then have same: "qn_owners k = qn_owners q" "qn_reply_items k = qn_reply_items q" "d = disk" "qn_dirty k = qn_dirty q"
            "qn_last_write k = qn_last_write q" "qn_memory_only k = qn_memory_only q"
          using outcome by simp_all
        have m: "m = restore_items before k" "result = Inl e" using result Inl by simp_all
        have "qn_reply_items m = qn_reply_items n" using restored same(2) by (simp add: m(1) restore_items_def)
        moreover have "replies_ok (qn_owners n) (qn_reply_items n)" using w by (simp add: world_ok_def healthy_def notices_ok_def)
        ultimately have "world_ok JB dg server (m, d)"
          using outcome same by (auto simp: m(1) restore_items_def q_def world_ok_def healthy_def notices_ok_def notices_durable_def)
        then show ?thesis
          using same m \<open>qn_reply_items m = _\<close> by (simp add: restore_items_def q_def)
      qed (use outcome result in simp)
    qed
  qed
qed

end
