(* ===== verification/QuestionNoticeTheorems.thy ===== *)
theory QuestionNoticeTheorems
  imports QuestionNoticeSafety
begin

text \<open>
  The invariant of the notices and their sidecar under a whole run with restarts, and what a run never
  takes back from an owner that lives.
\<close>

section \<open>The remaining operations\<close>

lemma remembered_world:
  "world_ok JB dg server (n, disk) \<Longrightarrow> world_ok JB dg server (remember_questions dg owner order session questions n, disk)"
  by (subst world_fields [of _ n]) (simp_all add: remember_questions_def)

lemma retained_world: "world_ok JB dg server (n, disk) \<Longrightarrow> world_ok JB dg server (retain_panes present n, disk)"
  by (subst world_fields [of _ n]) (simp_all add: retain_panes_def)

text \<open>The owners that live, and everything of theirs.\<close>

definition surviving :: "(notice_state \<Rightarrow> bool) \<Rightarrow> notices \<Rightarrow> notices" where
  "surviving alive n = (let kept = filter (\<lambda>(_, s). alive s) (qn_owners n); lives = (\<lambda>owner. bm_get kept owner \<noteq> None)
     in n\<lparr>qn_owners := kept, qn_memory_only := filter (\<lambda>(owner, _). lives owner) (qn_memory_only n),
       qn_reply_items := filter (\<lambda>((owner, _), _). lives owner) (qn_reply_items n),
       qn_reply_calls := filter (\<lambda>(owner, _). lives owner) (qn_reply_calls n),
       qn_blocked := filter lives (qn_blocked n)\<rparr>)"

lemma kept_some:
  assumes "bm_invar m"
  shows "bm_get (filter (\<lambda>(_, v). p v) m) k = Some v \<longleftrightarrow> bm_get m k = Some v \<and> p v"
  using bm_get_filter [OF assms, of "\<lambda>(_, v). p v" k v] by simp

lemma surviving_ok:
  assumes ok: "notices_ok dg n"
  shows "notices_ok dg (surviving alive n)"
proof -
  let ?kept = "filter (\<lambda>(_, s). alive s) (qn_owners n)" and ?lives = "\<lambda>owner. bm_get (filter (\<lambda>(_, s). alive s) (qn_owners n)) owner \<noteq> None"
  have parts: "owners_ok dg (qn_server_hash n) (qn_owners n)" "replies_ok (qn_owners n) (qn_reply_items n)"
      "calls_fine (qn_owners n) (qn_reply_calls n)" "blocked_ok (qn_owners n) (qn_blocked n)"
    using ok by (simp_all add: notices_ok_def)
  have sorted: "bm_invar (qn_owners n)" using parts(1) by (simp add: owners_ok_def)
  have same: "bm_get ?kept owner = bm_get (qn_owners n) owner" if "?lives owner" for owner
    using that kept_some [OF sorted] by (metis not_None_eq)
  have "owners_ok dg (qn_server_hash n) ?kept"
    using parts(1) sum_filter_le [of "\<lambda>(_, s). length (qs_seen s)" "\<lambda>(_, s). alive s" "qn_owners n"]
    unfolding owners_ok_def
    by (auto simp: bm_invar_filter intro: order_trans [OF length_filter_le])
  moreover have "replies_ok ?kept (filter (\<lambda>((owner, _), _). ?lives owner) (qn_reply_items n))"
  proof -
    have "replies_ok (qn_owners n) (filter (\<lambda>((owner, _), _). ?lives owner) (qn_reply_items n))"
      by (rule replies_ok_filter [OF parts(2)])
    moreover have "\<exists>s. bm_get ?kept owner = Some s \<and> reply_metadata_ok s order items"
      if e: "((owner, order), items) \<in> set (filter (\<lambda>((owner, _), _). ?lives owner) (qn_reply_items n))" for owner order items
    proof -
      have "((owner, order), items) \<in> set (qn_reply_items n)" "?lives owner" using e by simp_all
      moreover then obtain s where "bm_get (qn_owners n) owner = Some s" "reply_metadata_ok s order items"
        using parts(2) unfolding replies_ok_def by blast
      ultimately show ?thesis using same [of owner] by auto
    qed
    ultimately show ?thesis unfolding replies_ok_def by blast
  qed
  moreover have "calls_fine ?kept (filter (\<lambda>(owner, _). ?lives owner) (qn_reply_calls n))"
    using parts(3) sum_filter_le [of "\<lambda>(_, ids). length ids" "\<lambda>(owner, _). ?lives owner" "qn_reply_calls n"]
    unfolding calls_fine_def by (auto simp: bm_invar_filter)
  moreover have "blocked_ok ?kept (filter ?lives (qn_blocked n))" by (simp add: blocked_ok_def)
  ultimately show ?thesis by (simp add: notices_ok_def surviving_def Let_def)
qed

lemma surviving_world:
  assumes w: "world_ok JB dg server (n, disk)"
  shows "world_ok JB dg server (surviving alive n, disk)"
proof -
  have sorted: "bm_invar (qn_owners n)" using w healthyD by (auto simp: world_ok_def)
  have "notices_durable (surviving alive n) disk"
    unfolding notices_durable_def
  proof (intro allI impI)
    fix owner s assume "bm_get (qn_owners (surviving alive n)) owner = Some s"
    then have kept: "bm_get (filter (\<lambda>(_, s). alive s) (qn_owners n)) owner = Some s" by (simp add: surviving_def Let_def)
    then have s: "bm_get (qn_owners n) owner = Some s" using kept_some [OF sorted] by blast
    have "(owner, key) \<in> set (qn_memory_only (surviving alive n)) \<longleftrightarrow> (owner, key) \<in> set (qn_memory_only n)" for key
      using kept by (auto simp: surviving_def Let_def)
    then show "seen_durable (qn_memory_only (surviving alive n)) disk owner s \<and> acknowledged_durable disk owner s"
      using w s by (simp add: world_ok_def notices_durable_def seen_durable_def)
  qed
  then show ?thesis
    using w surviving_ok [of dg n alive] by (simp add: world_ok_def healthy_def surviving_def Let_def)
qed

text \<open>Reconciling keeps_owner the survivors, and may save them.\<close>

lemma reconciled_state:
  assumes "reconcile_notices JB env alive bound_alive n disk = (m, d, changed)"
  obtains q :: notices where "qn_server_hash q = qn_server_hash (surviving alive n)" "qn_owners q = qn_owners (surviving alive n)"
    "qn_reply_items q = qn_reply_items (surviving alive n)" "qn_reply_calls q = qn_reply_calls (surviving alive n)"
    "qn_blocked q = qn_blocked (surviving alive n)" "qn_path q = qn_path (surviving alive n)"
    "qn_invalid_sidecar q = qn_invalid_sidecar (surviving alive n)"
    "qn_memory_only q = qn_memory_only (surviving alive n)"
    "(m, d) = (q, disk) \<or> (\<exists>r. persist_commit_until JB env None q disk = (m, d, r))"
proof -
  define kept where "kept = filter (\<lambda>(_, s). alive s) (qn_owners n)"
  define lives where "lives owner \<longleftrightarrow> bm_get kept owner \<noteq> None" for owner
  define lost where "lost = filter (\<lambda>owner. \<not> lives owner) (map fst (qn_owners n))"
  define p where "p = n\<lparr>qn_owners := kept, qn_resolver := fold invalidate_owner lost (qn_resolver n),
      qn_memory_only := filter (\<lambda>(owner, _). lives owner) (qn_memory_only n),
      qn_question_text := filter (\<lambda>((owner, _), _). lives owner) (qn_question_text n),
      qn_reply_items := filter (\<lambda>((owner, _), _). lives owner) (qn_reply_items n),
      qn_reply_calls := filter (\<lambda>(owner, _). lives owner) (qn_reply_calls n),
      qn_blocked := filter lives (qn_blocked n),
      qn_bound := filter (\<lambda>(pane, process). bound_alive pane process) (qn_bound n)\<rparr>"
  define q where "q = p\<lparr>qn_dirty := qn_dirty p \<or> lost \<noteq> []\<rparr>"
  have step: "(case (if qn_dirty q \<and> retry_due env q then persist JB env q disk else (q, disk, False)) of
      (m, disk, _) \<Rightarrow> (m, disk, lost \<noteq> [] \<or> qn_dirty q \<noteq> qn_dirty m)) = (m, d, changed)"
    using assms unfolding reconcile_notices_def Let_def q_def p_def lost_def lives_def [abs_def] kept_def .
  then have result: "(m, d) = (q, disk) \<or> (\<exists>r. persist_commit_until JB env None q disk = (m, d, r))"
    by (auto simp: persist_def split: prod.splits if_splits)
  have "qn_memory_only q = qn_memory_only (surviving alive n)" "qn_blocked q = qn_blocked (surviving alive n)"
    by (simp_all add: q_def p_def surviving_def Let_def lives_def [abs_def] kept_def)
  then show thesis
    by (rule_tac that [OF _ _ _ _ _ _ _ _ result]) (simp_all add: q_def p_def surviving_def Let_def lives_def kept_def)
qed

lemma reconciled_world:
  assumes w: "world_ok JB dg server (n, disk)" and torn: "sv_marker env \<noteq> MarkerTorn"
    and reconcile: "reconcile_notices JB env alive bound_alive n disk = (m, d, changed)"
  shows "world_ok JB dg server (m, d)"
proof -
  note w = surviving_world [OF w, of alive]
  show ?thesis
  proof (rule reconciled_state [OF reconcile])
    fix q :: notices
    assume "qn_server_hash q = qn_server_hash (surviving alive n)" "qn_owners q = qn_owners (surviving alive n)"
      "qn_reply_items q = qn_reply_items (surviving alive n)" "qn_reply_calls q = qn_reply_calls (surviving alive n)"
      "qn_blocked q = qn_blocked (surviving alive n)" "qn_path q = qn_path (surviving alive n)"
      "qn_invalid_sidecar q = qn_invalid_sidecar (surviving alive n)"
      "qn_memory_only q = qn_memory_only (surviving alive n)"
    note q = world_fields [OF this]
    assume "(m, d) = (q, disk) \<or> (\<exists>r. persist_commit_until JB env None q disk = (m, d, r))"
    then show ?thesis
    proof
      assume "\<exists>r. persist_commit_until JB env None q disk = (m, d, r)"
      then obtain r where "persist_commit_until JB env None q disk = (m, d, r)" by blast
      from persist_world [OF _ _ torn this] show ?thesis using w q [of JB dg server disk] by (auto simp: world_ok_def)
    qed (use w q [of JB dg server disk] in simp)
  qed
qed

section \<open>Opening again\<close>

lemma opened_content:
  assumes disk: "disk_ok JB dg server disk"
  shows "world_ok JB dg server (notices_open JB dg server True disk, disk)"
    and "bm_get (qn_owners (notices_open JB dg server True disk)) owner = stored_owner disk owner"
    and "qn_memory_only (notices_open JB dg server True disk) = []"
proof -
  let ?n = "notices_open JB dg server True disk"
  show "qn_memory_only ?n = []"
    by (simp add: notices_open_def notices_default_def Let_def split: option.split)
  have "world_ok JB dg server (?n, disk) \<and> bm_get (qn_owners ?n) owner = stored_owner disk owner"
  proof (cases "sc_snapshot disk")
    case None
    then have "load_notices JB dg server True disk = Some ([], [], [], [])" using disk by (simp add: load_notices_def disk_ok_def)
    then have n: "?n = notices_default\<lparr>qn_path := True, qn_server_hash := server\<rparr>"
      by (simp add: notices_open_def notices_default_def)
    then show ?thesis
      using disk None
      by (simp add: n notices_default_def world_ok_def healthy_def notices_ok_def owners_ok_def replies_ok_def calls_fine_def
          blocked_ok_def notices_durable_def stored_owner_def bm_invar_def of_owner_def)
  next
    case (Some s)
    then obtain m where m: "notices_ok dg m" "qn_server_hash m = server" "s = snapshot_of m" "JB s \<le> NOTICE_MAX_BYTES"
      using disk by (auto simp: disk_ok_def)
    have "load_notices JB dg server True disk
        = Some (qn_owners m, filter (open_item (qn_owners m)) (qn_reply_items m), qn_reply_calls m, qn_blocked m)"
      using Some disk m load_saved [OF m(1)] by (simp add: load_notices_def disk_ok_def)
    then have n: "?n = notices_default\<lparr>qn_path := True, qn_server_hash := server, qn_owners := qn_owners m,
        qn_reply_items := filter (open_item (qn_owners m)) (qn_reply_items m), qn_reply_calls := qn_reply_calls m,
        qn_blocked := qn_blocked m\<rparr>"
      by (simp add: notices_open_def Let_def)
    have healthy: "healthy dg server ?n"
      using m(1,2) replies_ok_filter by (simp add: n notices_default_def healthy_def notices_ok_def)
    have stored: "stored_owner disk owner = bm_get (qn_owners m) owner" for owner
      using m stored_saved [of dg server m disk] Some by (simp add: notices_ok_def)
    then have "notices_durable ?n disk" by (simp add: n notices_durable_def seen_durable_def acknowledged_durable_def)
    then show ?thesis using healthy disk stored by (simp add: world_ok_def) (simp add: n)
  qed
  then show "world_ok JB dg server (?n, disk)" "bm_get (qn_owners ?n) owner = stored_owner disk owner" by simp_all
qed

section \<open>Runs\<close>

lemma notice_step_world:
  assumes w: "world_ok JB dg server (n, disk)" and "digests_ok dg" and event: "notice_event_ok e"
  shows "world_ok JB dg server (notice_step JB dg e (n, disk))"
proof (cases e)
  case (IssueQuestion env pane process identifiers now count)
  then show ?thesis using issued_world(1) [OF w assms(2) event [unfolded IssueQuestion]] by (simp split: prod.split)
next
  case (AcknowledgeQuestions env pane owner through deadline)
  then show ?thesis using acknowledged_world [OF w] event by (simp split: prod.split)
next
  case (AcknowledgeReply env now pane owner session reply orders deadline)
  then show ?thesis using replied_world [OF w] event by (simp split: prod.split)
next
  case (ReconcileOwners env alive bound_alive)
  then show ?thesis using reconciled_world [OF w] event by (simp split: prod.split)
next
  case ReopenNotices
  then show ?thesis using opened_content(1) [of JB dg server disk] w by (simp add: world_ok_def healthy_def)
qed (use w in \<open>simp_all add: remembered_world retained_world rejected_world\<close>)

lemma first_world_ok: "world_ok JB dg server (first_world JB dg server)"
  unfolding first_world_def by (rule opened_content(1)) (simp add: disk_ok_def empty_sidecar_def)

lemma notice_run_from:
  "list_all notice_event_ok es \<Longrightarrow> digests_ok dg \<Longrightarrow> world_ok JB dg server w \<Longrightarrow> world_ok JB dg server (notice_run JB dg es w)"
proof (induction es arbitrary: w)
  case (Cons e es)
  then show ?case using notice_step_world by (cases w) (simp add: notice_run_def)
qed (simp add: notice_run_def)

lemma notice_run_world:
  "list_all notice_event_ok es \<Longrightarrow> digests_ok dg \<Longrightarrow> world_ok JB dg server (notice_run JB dg es (first_world JB dg server))"
  using notice_run_from first_world_ok by blast

text \<open>
  What the notices promise over restarts: the sidecar is always accepted again, a question that was
  reported as persisted is known for as long as its owner lives, an acknowledgement is never taken back,
  and one that fails leaves nothing behind.
\<close>

section \<open>Nothing is taken back\<close>

text \<open>The owner is there with the keys, none of them in memory only, and acknowledged up to an order.\<close>

definition recalled :: "str \<Rightarrow> str list \<Rightarrow> u64 \<Rightarrow> notices \<Rightarrow> bool" where
  "recalled owner keys through n \<longleftrightarrow> (\<exists>s. bm_get (qn_owners n) owner = Some s \<and> through \<le> qs_acknowledged s
     \<and> (\<forall>key \<in> set keys. key \<in> set (qs_seen s) \<and> (owner, key) \<notin> set (qn_memory_only n)))"

definition keeps_owner :: "str \<Rightarrow> notice_event \<Rightarrow> bool" where
  "keeps_owner owner e \<longleftrightarrow> (case e of
     ReconcileOwners _ alive _ \<Rightarrow> \<forall>s. qs_owner_ref s = owner \<longrightarrow> alive s | _ \<Rightarrow> True)"

lemma recalled_fields:
  "recalled owner keys through n \<Longrightarrow> qn_owners m = qn_owners n \<Longrightarrow> set (qn_memory_only m) \<subseteq> set (qn_memory_only n) \<Longrightarrow>
    recalled owner keys through m"
  unfolding recalled_def by (metis subsetD)

lemma recalled_persisted:
  assumes "persist_commit_until JB env deadline n disk = (m, d, r)"
  shows "recalled owner keys through n \<Longrightarrow> recalled owner keys through m"
  by (erule recalled_fields) (simp_all add: persist_frame [OF assms])

lemma recalled_grown:
  assumes "recalled owner keys through n" "qn_owners m = bm_insert bound t (qn_owners n)"
    and "set (qn_memory_only m) \<subseteq> set (qn_memory_only n)"
    and "\<And>s. bm_get (qn_owners n) bound = Some s \<Longrightarrow> qs_acknowledged s \<le> qs_acknowledged t \<and> set (qs_seen s) \<subseteq> set (qs_seen t)"
  shows "recalled owner keys through m"
proof -
  obtain s where s: "bm_get (qn_owners n) owner = Some s" "through \<le> qs_acknowledged s"
      "\<forall>key \<in> set keys. key \<in> set (qs_seen s) \<and> (owner, key) \<notin> set (qn_memory_only n)"
    using assms(1) by (auto simp: recalled_def)
  show ?thesis
  proof (cases "owner = bound")
    case True
    have "bm_get (qn_owners m) owner = Some t" using True by (simp add: assms(2) bm_get_insert)
    then show ?thesis
      using s assms(3) assms(4) [of s] True unfolding recalled_def by (blast intro: order_trans)
  next
    case False
    then have "bm_get (qn_owners m) owner = Some s" using s(1) by (simp add: assms(2) bm_get_insert)
    then show ?thesis using s assms(3) unfolding recalled_def by blast
  qed
qed

lemma recalled_noted:
  assumes "recalled owner keys through n"
    and fresh: "\<not> key_seen n (owner_ref dg (qn_server_hash n) pane process) (nd_key dg identifiers)"
  shows "recalled owner keys through (note_question dg pane process identifiers now item_count n)"
proof -
  let ?owner = "owner_ref dg (qn_server_hash n) pane process" and ?key = "nd_key dg identifiers"
  let ?m = "note_question dg pane process identifiers now item_count n"
  obtain s where s: "bm_get (qn_owners n) owner = Some s" "through \<le> qs_acknowledged s"
      "\<forall>key \<in> set keys. key \<in> set (qs_seen s) \<and> (owner, key) \<notin> set (qn_memory_only n)"
    using assms(1) by (auto simp: recalled_def)
  have memory: "set (qn_memory_only ?m) = insert (?owner, ?key) (set (qn_memory_only n))"
    by (simp add: note_question_def Let_def split: option.split)
  have "\<exists>t. bm_get (qn_owners ?m) owner = Some t \<and> qs_acknowledged t = qs_acknowledged s \<and> set (qs_seen s) \<subseteq> set (qs_seen t)"
    using s(1) by (auto simp: note_question_def Let_def bm_get_insert split: option.split)
  moreover have "(owner, key) \<noteq> (?owner, ?key)" if "key \<in> set keys" for key
    using that s fresh by (auto simp: key_seen_def)
  ultimately show ?thesis using s unfolding recalled_def memory by fastforce
qed

lemma recalled_issued:
  assumes r: "recalled owner keys through n" and valid: "\<not> qn_invalid_sidecar n"
    and issue: "issue_with_items JB dg env pane process identifiers now item_count n disk = (m, d, result)"
  shows "recalled owner keys through m"
proof -
  define b where "b = bind_notice pane process n"
  have b: "recalled owner keys through b" "qn_server_hash b = qn_server_hash n" "\<not> qn_invalid_sidecar b"
    using r valid by (simp_all add: b_def bind_notice_def recalled_def)
  let ?owner = "owner_ref dg (qn_server_hash b) pane process" and ?key = "nd_key dg identifiers"
  let ?q = "note_question dg pane process identifiers now item_count b"
  have "m = b \<or> (\<exists>r. persist_commit_until JB env None b disk = (m, d, r)) \<or> m = fst (reject_notice pane NoticeCapacityExceeded b)
      \<or> \<not> key_seen b ?owner ?key \<and> (m = ?q \<or> (\<exists>r. persist_commit_until JB env None ?q disk = (m, d, r)))"
    using issue b(3) unfolding issue_with_items_def Let_def b_def [symmetric]
    by (auto simp: persist_def reject_notice_def split: prod.splits if_splits)
  moreover have "recalled owner keys through (fst (reject_notice pane NoticeCapacityExceeded b))"
    by (rule recalled_fields [OF b(1)]) (simp_all add: reject_notice_def)
  moreover have "recalled owner keys through ?q" if "\<not> key_seen b ?owner ?key"
    by (rule recalled_noted [OF b(1) that])
  ultimately show ?thesis using b(1) recalled_persisted by blast
qed

text \<open>Whatever an acknowledgement does to the owners, it only moves forward.\<close>

lemma recalled_acknowledged:
  assumes r: "recalled owner keys through n" and w: "world_ok JB dg server (n, disk)" and torn: "sv_marker env \<noteq> MarkerTorn"
    and ack: "acknowledge_until JB env pane bound order deadline n disk = (m, d, result)"
  shows "recalled owner keys through m"
proof -
  have memory: "set (qn_memory_only m) \<subseteq> set (qn_memory_only n)"
    using ack persist_frame(11)
    by (auto simp: acknowledge_until_def Let_def commit_failed_def set_diagnostic_def drop_acknowledged_def commit_noted_def
        clear_diagnostic_def split: sum.splits prod.splits if_splits)
  from acknowledged_world [OF w torn ack] consider "qn_owners m = qn_owners n"
    | s where "bm_get (qn_owners n) bound = Some s" "qs_acknowledged s < order"
      "qn_owners m = bm_insert bound (s\<lparr>qs_acknowledged := order\<rparr>) (qn_owners n)" by blast
  then show ?thesis
  proof cases
    case 2
    then show ?thesis by (intro recalled_grown [OF r 2(3) memory]) auto
  qed (use r memory recalled_fields in blast)
qed

lemma replied_state:
  assumes "acknowledge_reply_orders JB env now pane bound session reply orders deadline n disk = (m, d, result)"
  shows "qn_owners m = qn_owners n \<and> set (qn_memory_only m) \<subseteq> set (qn_memory_only n)
    \<or> (\<exists>acknowledged k order r. acknowledge_until JB env pane bound order (Some deadline)
          (n\<lparr>qn_reply_items := fold (answer_item bound acknowledged) (zip reply orders) (qn_reply_items n)\<rparr>) disk = (k, d, r)
        \<and> qn_owners m = qn_owners k \<and> qn_memory_only m = qn_memory_only k)"
  using assms
  unfolding acknowledge_reply_orders_def Let_def
  by (auto simp: commit_failed_def set_diagnostic_def commit_noted_def clear_diagnostic_def restore_items_def
      dest: persist_frame(2,11) split: sum.splits prod.splits if_splits) blast+

lemma recalled_replied:
  assumes r: "recalled owner keys through n" and w: "world_ok JB dg server (n, disk)" and torn: "sv_marker env \<noteq> MarkerTorn"
    and reply: "acknowledge_reply_orders JB env now pane bound session reply orders deadline n disk = (m, d, result)"
  shows "recalled owner keys through m"
  using replied_state [OF reply]
proof
  assume "\<exists>acknowledged k order r. acknowledge_until JB env pane bound order (Some deadline)
          (n\<lparr>qn_reply_items := fold (answer_item bound acknowledged) (zip reply orders) (qn_reply_items n)\<rparr>) disk = (k, d, r)
        \<and> qn_owners m = qn_owners k \<and> qn_memory_only m = qn_memory_only k"
  then obtain acknowledged order k r where ack: "acknowledge_until JB env pane bound order (Some deadline)
          (n\<lparr>qn_reply_items := fold (answer_item bound acknowledged) (zip reply orders) (qn_reply_items n)\<rparr>) disk = (k, d, r)"
      "qn_owners m = qn_owners k" "qn_memory_only m = qn_memory_only k" by blast
  have "recalled owner keys through k"
    by (rule recalled_acknowledged [OF _ answered_world [OF w] torn ack(1)]) (use r in \<open>simp add: recalled_def\<close>)
  then show ?thesis by (rule recalled_fields) (simp_all add: ack)
qed (use r recalled_fields in blast)

lemma recalled_reconciled:
  assumes r: "recalled owner keys through n" and w: "world_ok JB dg server (n, disk)"
    and alive: "\<forall>s. qs_owner_ref s = owner \<longrightarrow> alive s"
    and reconcile: "reconcile_notices JB env alive bound_alive n disk = (m, d, changed)"
  shows "recalled owner keys through m"
proof -
  have owners: "owners_ok dg server (qn_owners n)" "bm_invar (qn_owners n)" using w healthyD by (auto simp: world_ok_def)
  obtain s where s: "bm_get (qn_owners n) owner = Some s" "through \<le> qs_acknowledged s"
      "\<forall>key \<in> set keys. key \<in> set (qs_seen s) \<and> (owner, key) \<notin> set (qn_memory_only n)"
    using r by (auto simp: recalled_def)
  have "qs_owner_ref s = owner" using owners s(1) unfolding owners_ok_def bm_get_in [OF owners(2)] by blast
  then have "bm_get (qn_owners (surviving alive n)) owner = Some s"
    using alive s(1) kept_some [OF owners(2), of alive] by (simp add: surviving_def Let_def)
  moreover have "set (qn_memory_only (surviving alive n)) \<subseteq> set (qn_memory_only n)"
    by (auto simp: surviving_def Let_def)
  ultimately have survives: "recalled owner keys through (surviving alive n)"
    using s unfolding recalled_def by blast
  show ?thesis
  proof (rule reconciled_state [OF reconcile])
    fix q :: notices
    assume q: "qn_owners q = qn_owners (surviving alive n)" "qn_memory_only q = qn_memory_only (surviving alive n)"
    have "recalled owner keys through q" by (rule recalled_fields [OF survives q(1)]) (simp add: q(2))
    moreover assume "(m, d) = (q, disk) \<or> (\<exists>r. persist_commit_until JB env None q disk = (m, d, r))"
    ultimately show ?thesis using recalled_persisted by blast
  qed
qed

lemma recalled_opened:
  assumes r: "recalled owner keys through n" and w: "world_ok JB dg server (n, disk)" and "keys \<noteq> [] \<or> 0 < through"
  shows "recalled owner keys through (notices_open JB dg server True disk)"
proof -
  obtain s where s: "bm_get (qn_owners n) owner = Some s" "through \<le> qs_acknowledged s"
      "\<forall>key \<in> set keys. key \<in> set (qs_seen s) \<and> (owner, key) \<notin> set (qn_memory_only n)"
    using r by (auto simp: recalled_def)
  have notices_durable: "seen_durable (qn_memory_only n) disk owner s" "acknowledged_durable disk owner s" and disk: "disk_ok JB dg server disk"
    using w s(1) by (auto simp: world_ok_def notices_durable_def)
  have keys: "\<exists>t. stored_owner disk owner = Some t \<and> key \<in> set (qs_seen t)" if "key \<in> set keys" for key
    using that s(3) notices_durable(1) by (simp add: seen_durable_def)
  have stored: "\<exists>t. stored_owner disk owner = Some t \<and> qs_acknowledged t = qs_acknowledged s" if "0 < through"
    using that s(2) notices_durable(2) by (simp add: acknowledged_durable_def)
  obtain t where t: "stored_owner disk owner = Some t"
  proof (cases "0 < through")
    case False
    then have "hd keys \<in> set keys" using assms(3) by simp
    then show ?thesis using keys that by blast
  qed (use stored that in blast)
  have "through \<le> qs_acknowledged t"
  proof (cases "0 < through")
    case False
    then have "through = 0" using word_neq_0_conv by blast
    then show ?thesis by simp
  qed (use stored t s(2) in auto)
  moreover have "\<forall>key \<in> set keys. key \<in> set (qs_seen t)" using keys t by auto
  ultimately show ?thesis using opened_content(2,3) [OF disk] t by (simp add: recalled_def)
qed

lemma recalled_step:
  assumes r: "recalled owner keys through n" and w: "world_ok JB dg server (n, disk)"
    and event: "notice_event_ok e" "keeps_owner owner e" and some: "keys \<noteq> [] \<or> 0 < through"
  shows "recalled owner keys through (fst (notice_step JB dg e (n, disk)))"
proof (cases e)
  case (IssueQuestion env pane process identifiers now count)
  have "\<not> qn_invalid_sidecar n" using w by (simp add: world_ok_def healthy_def)
  from recalled_issued [OF r this] show ?thesis unfolding IssueQuestion by (simp split: prod.split)
next
  case (AcknowledgeQuestions env pane bound order deadline)
  then show ?thesis using recalled_acknowledged [OF r w] event by (simp split: prod.split)
next
  case (AcknowledgeReply env now pane bound session reply orders deadline)
  then show ?thesis using recalled_replied [OF r w] event by (simp split: prod.split)
next
  case (RememberQuestions bound order session questions)
  then show ?thesis by (simp, intro recalled_fields [OF r]) (simp_all add: remember_questions_def)
next
  case (RejectNotice pane reason)
  then show ?thesis by (simp, intro recalled_fields [OF r]) (simp_all add: reject_notice_def)
next
  case (ReconcileOwners env alive bound_alive)
  then show ?thesis using recalled_reconciled [OF r w] event by (simp add: keeps_owner_def split: prod.split)
next
  case (RetainPanes present)
  then show ?thesis by (simp, intro recalled_fields [OF r]) (simp_all add: retain_panes_def)
next
  case ReopenNotices
  then show ?thesis using recalled_opened [OF r w some] w by (simp add: world_ok_def healthy_def)
qed

lemma recalled_run:
  "recalled owner keys through (fst w) \<Longrightarrow> world_ok JB dg server w \<Longrightarrow> digests_ok dg \<Longrightarrow> list_all notice_event_ok es \<Longrightarrow>
    list_all (keeps_owner owner) es \<Longrightarrow> keys \<noteq> [] \<or> 0 < through \<Longrightarrow> recalled owner keys through (fst (notice_run JB dg es w))"
proof (induction es arbitrary: w)
  case (Cons e es)
  obtain n disk where w: "w = (n, disk)" by (cases w)
  have "recalled owner keys through (fst (notice_step JB dg e w))"
    using recalled_step [of owner keys through n] Cons.prems by (simp add: w)
  moreover have "world_ok JB dg server (notice_step JB dg e w)" using notice_step_world Cons.prems by (simp add: w)
  ultimately show ?case using Cons.IH Cons.prems by (simp add: notice_run_def)
qed (simp add: notice_run_def)

section \<open>Properties\<close>




text \<open>
  C39. An acknowledgement by a reply that ends in an error leaves the owners, the reply
  items, the pending write and the sidecar as they were.
\<close>

theorem failed_reply_leaves_no_trace:
  "\<forall>es n disk env now pane owner session reply orders deadline m d e.
    digests_ok dg \<longrightarrow> list_all notice_event_ok es \<longrightarrow> sv_marker env \<noteq> MarkerTorn \<longrightarrow>
    notice_run JB dg es (first_world JB dg server) = (n, disk) \<longrightarrow>
    acknowledge_reply_orders JB env now pane owner session reply orders deadline n disk = (m, d, Inl e) \<longrightarrow>
    qn_owners m = qn_owners n \<and> qn_reply_items m = qn_reply_items n \<and> qn_dirty m = qn_dirty n
      \<and> qn_last_write m = qn_last_write n \<and> d = disk"
proof (intro allI impI)
  fix es n disk env now pane owner session reply orders deadline m d e
  assume dg: "digests_ok dg" and events: "list_all notice_event_ok es" and torn: "sv_marker env \<noteq> MarkerTorn"
    and n: "notice_run JB dg es (first_world JB dg server) = (n, disk)"
    and reply: "acknowledge_reply_orders JB env now pane owner session reply orders deadline n disk = (m, d, Inl e)"
  have "world_ok JB dg server (n, disk)" using notice_run_world [OF events dg, of JB server] n by simp
  from replied_world [OF this torn reply] show "qn_owners m = qn_owners n \<and> qn_reply_items m = qn_reply_items n \<and> qn_dirty m = qn_dirty n
      \<and> qn_last_write m = qn_last_write n \<and> d = disk" by simp
qed


end
