(* ===== verification/QuestionJournal.thy ===== *)
theory QuestionJournal
  imports QuestionNotices QuestionWorkers
begin

text \<open>
  The journal of question hooks (\<open>question_notice/journal.rs\<close>): before a hook reports a question to the
  daemon it enters the question here, so that a report that gets lost is noticed. The lock file holds
  the epoch of the journal in eight bytes, the other file the entries. \<open>KD\<close> is the digest of the key of an
  entry, \<open>JL\<close> the length of the encoded journal.
\<close>

section \<open>Entries\<close>

definition JOURNAL_MAX_BYTES :: nat where "JOURNAL_MAX_BYTES = 1024 * 1024"
definition MAX_DIRTY :: nat where "MAX_DIRTY = 4096"

datatype dirty_reason = QuestionHook | UnclassifiedHook

record dirty_entry =
  de_home :: str
  de_session :: str
  de_turn :: str
  de_tool :: str
  de_writer :: agent_process_identity
  de_reason :: dirty_reason
  de_created_at :: i64

type_synonym entry_digest = "str \<times> str \<times> str \<times> str \<Rightarrow> str"

text \<open>The entry of a hook, with the digests of its identifiers and its own process, whose start token the
  system reports.\<close>

definition dirty_entry_new :: "(str option \<Rightarrow> str) \<Rightarrow> u32 \<Rightarrow> (u32 \<Rightarrow> str option) \<Rightarrow> str
    \<Rightarrow> str option \<times> str option \<times> str option \<Rightarrow> dirty_reason \<Rightarrow> i64 \<Rightarrow> journal_failure + dirty_entry" where
  "dirty_entry_new DG pid start_token home identifiers reason created_at = (case start_token pid of
     None \<Rightarrow> Inl JournalUnavailable
   | Some token \<Rightarrow> Inr \<lparr>de_home = home, de_session = DG (fst identifiers), de_turn = DG (fst (snd identifiers)),
       de_tool = DG (snd (snd identifiers)), de_writer = \<lparr>ap_pid = pid, ap_start_token = token\<rparr>,
       de_reason = reason, de_created_at = created_at\<rparr>)"

definition entry_key :: "entry_digest \<Rightarrow> dirty_entry \<Rightarrow> str" where
  "entry_key KD e = KD (de_home e, de_session e, de_turn e, de_tool e)"

definition entry_valid :: "str \<Rightarrow> dirty_entry \<Rightarrow> bool" where
  "entry_valid home e \<longleftrightarrow> de_home e = home \<and> 0 \<le> de_created_at e \<and> agent_process_validate (de_writer e) = Inr ()
     \<and> list_all valid_digest [de_home e, de_session e, de_turn e, de_tool e]"

record journal =
  jn_schema :: u16
  jn_home :: str
  jn_epoch :: u64
  jn_dirty :: "(str \<times> dirty_entry) list"

datatype writer_state = WriterAlive | WriterDead | WriterUnknown

text \<open>\<open>gone\<close> says that the system knows no process of the number.\<close>

definition writer_state_of :: "(u32 \<Rightarrow> str option) \<Rightarrow> (u32 \<Rightarrow> bool) \<Rightarrow> agent_process_identity \<Rightarrow> writer_state" where
  "writer_state_of start_token gone process = (case start_token (ap_pid process) of
     Some token \<Rightarrow> if token = ap_start_token process then WriterAlive else WriterDead
   | None \<Rightarrow> if gone (ap_pid process) then WriterDead else WriterUnknown)"

section \<open>The files\<close>

text \<open>A file that does not hold a journal is known by its length only.\<close>

datatype journal_file = JournalText journal | OtherText nat

record journal_disk =
  jd_lock :: "u8 list"
  jd_json :: "journal_file option"

text \<open>\<open>u64::to_be_bytes\<close> and \<open>from_be_bytes\<close>.\<close>

fun be_digits :: "nat \<Rightarrow> nat \<Rightarrow> u8 list" where
  "be_digits 0 n = []"
| "be_digits (Suc k) n = be_digits k (n div 256) @ [of_nat (n mod 256)]"

definition epoch_bytes :: "u64 \<Rightarrow> u8 list" where
  "epoch_bytes w = be_digits 8 (unat w)"

definition bytes_value :: "u8 list \<Rightarrow> nat" where
  "bytes_value bs = foldl (\<lambda>n b. n * 256 + unat b) 0 bs"

definition epoch_of :: "u8 list \<Rightarrow> u64" where
  "epoch_of bs = of_nat (bytes_value bs)"

text \<open>What a load meets: reading the lock file, and opening, examining and reading the journal.\<close>

record journal_load =
  jl_checkpoint :: bool
  jl_open :: bool
  jl_stat :: bool
  jl_private :: bool
  jl_read :: bool

text \<open>What a save meets: the deadline, the seek in the lock file and how many of its eight bytes are
  written before an error, its truncation and synchronisation, the temporary file, the deadline again,
  the file that is replaced, the rename and the synchronisation of the directory.\<close>

record journal_save =
  js_expired :: bool
  js_seek :: bool
  js_bytes :: nat
  js_sized :: bool
  js_synced :: bool
  js_temporary :: bool
  js_expired_rename :: bool
  js_target :: bool
  js_rename :: bool
  js_directory :: bool

section \<open>The guard\<close>

record journal_guard =
  gd_checkpoint :: "u64 option"
  gd_journal :: journal

definition overwrite :: "nat \<Rightarrow> u8 list \<Rightarrow> u8 list \<Rightarrow> u8 list" where
  "overwrite n new old = take n new @ drop n old"

text \<open>The checkpoint in the lock file.\<close>

definition save_checkpoint :: "journal_save \<Rightarrow> u64 \<Rightarrow> u8 list \<Rightarrow> u8 list \<times> (journal_failure + unit)" where
  "save_checkpoint env epoch lock =
    (if \<not> js_seek env then (lock, Inl JournalUnavailable)
     else let lock = overwrite (min 8 (js_bytes env)) (epoch_bytes epoch) lock
       in if js_bytes env < 8 then (lock, Inl JournalUnavailable)
          else if \<not> js_sized env then (lock, Inl JournalUnavailable)
          else let lock = take 8 lock
            in if js_synced env then (lock, Inr ()) else (lock, Inl JournalUnavailable))"

definition save_journal :: "(journal \<Rightarrow> nat) \<Rightarrow> journal_save \<Rightarrow> journal_guard \<Rightarrow> journal_disk
    \<Rightarrow> journal_guard \<times> journal_disk \<times> (journal_failure + unit)" where
  "save_journal JL env g disk =
    (let epoch = jn_epoch (gd_journal g)
     in if js_expired env then (g, disk, Inl JournalExpired)
        else if JL (gd_journal g) > JOURNAL_MAX_BYTES then (g, disk, Inl JournalCapacity)
        else (case (if gd_checkpoint g = Some epoch then (jd_lock disk, Inr ())
            else save_checkpoint env epoch (jd_lock disk)) of
          (lock, Inl e) \<Rightarrow> (g, disk\<lparr>jd_lock := lock\<rparr>, Inl e)
        | (lock, Inr _) \<Rightarrow>
            let g = g\<lparr>gd_checkpoint := Some epoch\<rparr>; disk = disk\<lparr>jd_lock := lock\<rparr>
            in if \<not> js_temporary env then (g, disk, Inl JournalUnavailable)
               else if js_expired_rename env then (g, disk, Inl JournalExpired)
               else if \<not> js_target env then (g, disk, Inl JournalInvalid)
               else if \<not> js_rename env then (g, disk, Inl JournalUnavailable)
               else (g, disk\<lparr>jd_json := Some (JournalText (gd_journal g))\<rparr>,
                 if js_directory env then Inr () else Inl JournalUnavailable)))"

definition bump_journal :: "(journal \<Rightarrow> nat) \<Rightarrow> journal_save \<Rightarrow> journal_guard \<Rightarrow> journal_disk
    \<Rightarrow> journal_guard \<times> journal_disk \<times> (journal_failure + unit)" where
  "bump_journal JL env g disk = (case checked_inc JournalCapacity (jn_epoch (gd_journal g)) of
     Inl e \<Rightarrow> (g, disk, Inl e)
   | Inr epoch \<Rightarrow> save_journal JL env (g\<lparr>gd_journal := gd_journal g\<lparr>jn_epoch := epoch\<rparr>\<rparr>) disk)"

text \<open>The lock file as far as it is read, and the journal file.\<close>

definition read_checkpoint :: "u8 list \<Rightarrow> journal_failure + u64 option" where
  "read_checkpoint lock = (let bytes = take 9 lock
     in if bytes = [] then Inr None else if length bytes = 8 then Inr (Some (epoch_of bytes)) else Inl JournalInvalid)"

definition journal_fits :: "entry_digest \<Rightarrow> str \<Rightarrow> journal \<Rightarrow> bool" where
  "journal_fits KD home j \<longleftrightarrow> jn_schema j = 1 \<and> jn_home j = home \<and> length (jn_dirty j) \<le> MAX_DIRTY
     \<and> list_all (\<lambda>(key, e). key = entry_key KD e \<and> entry_valid home e) (jn_dirty j)"

definition read_journal :: "(journal \<Rightarrow> nat) \<Rightarrow> entry_digest \<Rightarrow> str \<Rightarrow> journal_load \<Rightarrow> journal_file option
    \<Rightarrow> journal_failure + journal option" where
  "read_journal JL KD home env json =
    (if \<not> jl_open env then Inl JournalUnavailable
     else case json of
       None \<Rightarrow> Inr None
     | Some f \<Rightarrow>
         if \<not> jl_stat env then Inl JournalUnavailable
         else if \<not> jl_private env then Inl JournalInvalid
         else if \<not> jl_read env then Inl JournalUnavailable
         else if (case f of JournalText j \<Rightarrow> JL j | OtherText n \<Rightarrow> n) > JOURNAL_MAX_BYTES then Inl JournalCapacity
         else (case f of
             OtherText _ \<Rightarrow> Inl JournalInvalid
           | JournalText j \<Rightarrow> if journal_fits KD home j then Inr (Some j) else Inl JournalInvalid))"

definition load_journal :: "(journal \<Rightarrow> nat) \<Rightarrow> entry_digest \<Rightarrow> str \<Rightarrow> journal_load \<Rightarrow> journal_save \<Rightarrow> journal_disk
    \<Rightarrow> journal_guard \<times> journal_disk \<times> (journal_failure + unit)" where
  "load_journal JL KD home env save_env disk =
    (let g = \<lparr>gd_checkpoint = None, gd_journal = \<lparr>jn_schema = 1, jn_home = home, jn_epoch = 0, jn_dirty = []\<rparr>\<rparr>
     in if \<not> jl_checkpoint env then (g, disk, Inl JournalUnavailable)
        else case read_checkpoint (jd_lock disk) of
          Inl e \<Rightarrow> (g, disk, Inl e)
        | Inr checkpoint \<Rightarrow>
            let epoch = (case checkpoint of None \<Rightarrow> 0 | Some epoch \<Rightarrow> epoch);
                g = \<lparr>gd_checkpoint = checkpoint, gd_journal = gd_journal g\<lparr>jn_epoch := epoch\<rparr>\<rparr>
            in (case read_journal JL KD home env (jd_json disk) of
                Inr (Some j) \<Rightarrow>
                  if checkpoint = None \<or> jn_epoch j \<noteq> epoch
                  then bump_journal JL save_env (g\<lparr>gd_journal := j\<lparr>jn_epoch := max (jn_epoch j) epoch\<rparr>\<rparr>) disk
                  else (g\<lparr>gd_journal := j\<rparr>, disk, Inr ())
              | Inr None \<Rightarrow> if checkpoint = None then save_journal JL save_env g disk else bump_journal JL save_env g disk
              | Inl e \<Rightarrow> if e = JournalCapacity \<or> e = JournalInvalid then bump_journal JL save_env g disk
                  else (g, disk, Inl e)))"

section \<open>Operations\<close>

definition insert_dirty :: "(journal \<Rightarrow> nat) \<Rightarrow> entry_digest \<Rightarrow> str \<Rightarrow> bool \<Rightarrow> journal_save \<Rightarrow> journal_save \<Rightarrow> dirty_entry
    \<Rightarrow> journal_guard \<Rightarrow> journal_disk \<Rightarrow> journal_guard \<times> journal_disk \<times> (journal_failure + str)" where
  "insert_dirty JL KD home expired env bump_env entry g disk =
    (if expired then (g, disk, Inl JournalExpired)
     else if \<not> entry_valid home entry then (g, disk, Inl JournalInvalid)
     else let key = entry_key KD entry; dirty = jn_dirty (gd_journal g)
       in if bm_get dirty key \<noteq> None then (g, disk, Inr key)
          else if length dirty \<ge> MAX_DIRTY
          then (case bump_journal JL env g disk of
              (g, disk, Inl e) \<Rightarrow> (g, disk, Inl e)
            | (g, disk, Inr _) \<Rightarrow> (g, disk, Inl JournalCapacity))
          else (case save_journal JL env (g\<lparr>gd_journal := gd_journal g\<lparr>jn_dirty := bm_insert key entry dirty\<rparr>\<rparr>) disk of
              (g, disk, Inr _) \<Rightarrow> (g, disk, Inr key)
            | (g, disk, Inl e) \<Rightarrow>
                let g = g\<lparr>gd_journal := gd_journal g\<lparr>jn_dirty := bm_remove key (jn_dirty (gd_journal g))\<rparr>\<rparr>
                in if e = JournalCapacity
                   then (case bump_journal JL bump_env g disk of
                       (g, disk, Inl f) \<Rightarrow> (g, disk, Inl f)
                     | (g, disk, Inr _) \<Rightarrow> (g, disk, Inl e))
                   else (g, disk, Inl e)))"

definition clear_persisted :: "(journal \<Rightarrow> nat) \<Rightarrow> bool \<Rightarrow> journal_save \<Rightarrow> str \<Rightarrow> journal_guard \<Rightarrow> journal_disk
    \<Rightarrow> journal_guard \<times> journal_disk \<times> (journal_failure + unit)" where
  "clear_persisted JL expired env key g disk =
    (if expired then (g, disk, Inl JournalExpired)
     else if bm_get (jn_dirty (gd_journal g)) key = None then (g, disk, Inr ())
     else save_journal JL env (g\<lparr>gd_journal := gd_journal g\<lparr>jn_dirty := bm_remove key (jn_dirty (gd_journal g))\<rparr>\<rparr>) disk)"

definition evaluate_journal :: "(journal \<Rightarrow> nat) \<Rightarrow> bool \<Rightarrow> bool \<Rightarrow> journal_save \<Rightarrow> str option
    \<Rightarrow> (agent_process_identity \<Rightarrow> writer_state) \<Rightarrow> journal_guard \<Rightarrow> journal_disk
    \<Rightarrow> journal_guard \<times> journal_disk \<times> (journal_failure + evaluation)" where
  "evaluate_journal JL expired expired_after env session liveness g disk =
    (if expired then (g, disk, Inl JournalExpired)
     else let dirty = jn_dirty (gd_journal g);
         session_dirty = list_ex (\<lambda>(_, e). session = Some (de_session e)) dirty;
         alive = filter (\<lambda>(_, e). liveness (de_writer e) \<noteq> WriterDead) dirty;
         g = g\<lparr>gd_journal := gd_journal g\<lparr>jn_dirty := alive\<rparr>\<rparr>
       in case (if list_ex (\<lambda>(_, e). liveness (de_writer e) = WriterDead) dirty then bump_journal JL env g disk
           else (g, disk, Inr ())) of
         (g, disk, Inl e) \<Rightarrow> (g, disk, Inl e)
       | (g, disk, Inr _) \<Rightarrow>
           (g, disk, if expired_after then Inl JournalExpired
             else Inr \<lparr>ev_epoch = jn_epoch (gd_journal g), ev_veto = (jn_dirty (gd_journal g) \<noteq> []),
               ev_session_dirty = session_dirty\<rparr>))"

end
