(* ===== verification/QuestionJournalLaws.thy ===== *)
theory QuestionJournalLaws
  imports QuestionJournal
begin

text \<open>
  What the journal guarantees whatever fails: its epoch never goes back, and an entry is seen by every
  later evaluation in the same epoch, unless it was cleared. Writing the epoch is not atomic, but a
  prefix of the new bytes over the old ones is never less than the old epoch.
\<close>

section \<open>Epochs as bytes\<close>

lemma bytes_value_append: "bytes_value (xs @ ys) = bytes_value xs * 256 ^ length ys + bytes_value ys"
proof (induction ys rule: rev_induct)
  case (snoc y ys)
  have "bytes_value (zs @ [y]) = bytes_value zs * 256 + unat y" for zs by (simp add: bytes_value_def)
  from this [of "xs @ ys"] this [of ys] snoc show ?case by (simp add: algebra_simps)
qed (simp add: bytes_value_def)

lemma bytes_value_bound: "bytes_value bs < 256 ^ length bs"
proof (induction bs rule: rev_induct)
  case (snoc b bs)
  have "unat b < 256" using unsigned_less [of b, where 'a = nat] by simp
  then have "bytes_value bs * 256 + unat b < (bytes_value bs + 1) * 256" by simp
  also have "\<dots> \<le> 256 ^ length bs * 256" using snoc by (intro mult_right_mono) simp_all
  finally show ?case by (simp add: bytes_value_append) (simp add: bytes_value_def)
qed (simp add: bytes_value_def)

lemma length_be_digits: "length (be_digits k n) = k"
  by (induction k arbitrary: n) simp_all

lemma be_digits_value: "bytes_value (be_digits k n) = n mod 256 ^ k"
proof (induction k arbitrary: n)
  case (Suc k)
  have "unat (of_nat (n mod 256) :: u8) = n mod 256" by (simp add: unat_of_nat)
  then show ?case
    using Suc [of "n div 256"] by (simp add: bytes_value_append) (simp add: bytes_value_def mod_mult2_eq mult.commute)
qed (simp add: bytes_value_def)

lemma unat_epoch: "length bs = 8 \<Longrightarrow> unat (epoch_of bs) = bytes_value bs"
  using bytes_value_bound [of bs] by (simp add: epoch_of_def unat_of_nat)

lemma length_epoch_bytes: "length (epoch_bytes w) = 8"
  by (simp only: epoch_bytes_def length_be_digits)

lemma epoch_of_bytes: "epoch_of (epoch_bytes w) = w"
proof -
  have "unat w < 256 ^ 8" using unsigned_less [of w, where 'a = nat] by simp
  then have "bytes_value (epoch_bytes w) = unat w" unfolding epoch_bytes_def be_digits_value by simp
  then show ?thesis by (simp add: epoch_of_def)
qed

lemma torn_value:
  assumes "length old = length new" "bytes_value old \<le> bytes_value new"
  shows "bytes_value old \<le> bytes_value (overwrite n new old)"
proof -
  let ?m = "256 ^ length (drop n old) :: nat"
  have split: "bytes_value bs = bytes_value (take n bs) * 256 ^ length (drop n bs) + bytes_value (drop n bs)" for bs
    using bytes_value_append [of "take n bs" "drop n bs"] by simp
  have "bytes_value (take n old) * ?m \<le> bytes_value new" using split [of old] assms(2) by linarith
  also have "\<dots> < (bytes_value (take n new) + 1) * ?m"
    using split [of new] bytes_value_bound [of "drop n new"] assms(1) by (simp add: algebra_simps)
  finally have "bytes_value (take n old) < bytes_value (take n new) + 1" by (simp only: mult_less_cancel2)
  then have "bytes_value (take n old) \<le> bytes_value (take n new)" by simp
  then show ?thesis
    using split [of old] mult_right_mono [of "bytes_value (take n old)" "bytes_value (take n new)" ?m]
    by (simp add: overwrite_def bytes_value_append)
qed

section \<open>Saving\<close>

definition lock_at :: "u8 list \<Rightarrow> u64 \<Rightarrow> bool" where
  "lock_at lock e \<longleftrightarrow> length lock = 8 \<and> epoch_of lock = e"

lemma torn_epoch:
  assumes "lock_at lock c" "c \<le> e"
  shows "length (overwrite n (epoch_bytes e) lock) = 8" "c \<le> epoch_of (overwrite n (epoch_bytes e) lock)"
proof -
  have eight: "length lock = 8" using assms(1) by (simp add: lock_at_def)
  show len: "length (overwrite n (epoch_bytes e) lock) = 8"
    using eight length_epoch_bytes [of e] by (simp add: overwrite_def)
  have "bytes_value lock \<le> bytes_value (epoch_bytes e)"
    using assms unat_epoch [OF eight] unat_epoch [OF length_epoch_bytes, of e]
    by (simp add: lock_at_def epoch_of_bytes word_le_nat_alt)
  from torn_value [OF _ this] show "c \<le> epoch_of (overwrite n (epoch_bytes e) lock)"
    using assms(1) unat_epoch [OF eight] unat_epoch [OF len] length_epoch_bytes [of e]
    by (simp add: lock_at_def word_le_nat_alt)
qed

lemma whole_epoch: "8 \<le> n \<Longrightarrow> length lock \<le> 8 \<Longrightarrow> overwrite n (epoch_bytes e) lock = epoch_bytes e"
  using length_epoch_bytes [of e] by (simp add: overwrite_def)

text \<open>The guard knows what the lock file holds.\<close>

definition knows_lock :: "journal_guard \<Rightarrow> journal_disk \<Rightarrow> bool" where
  "knows_lock g disk \<longleftrightarrow> (case gd_checkpoint g of
     None \<Rightarrow> jd_lock disk = [] | Some c \<Rightarrow> lock_at (jd_lock disk) c \<and> c \<le> jn_epoch (gd_journal g))"

lemma saved_journal:
  assumes known: "knows_lock g disk" and save: "save_journal JL env g disk = (g', d, r)"
  shows "gd_journal g' = gd_journal g"
    and "r = Inr () \<Longrightarrow> lock_at (jd_lock d) (jn_epoch (gd_journal g)) \<and> gd_checkpoint g' = Some (jn_epoch (gd_journal g))
      \<and> jd_json d = Some (JournalText (gd_journal g))"
    and "lock_at (jd_lock disk) c \<Longrightarrow> length (jd_lock d) = 8 \<and> c \<le> epoch_of (jd_lock d)"
    and "jd_json d = jd_json disk \<or> jd_json d = Some (JournalText (gd_journal g)) \<and> lock_at (jd_lock d) (jn_epoch (gd_journal g))"
    and "r = Inl JournalCapacity \<Longrightarrow> g' = g \<and> d = disk"
proof -
  let ?e = "jn_epoch (gd_journal g)"
  let ?lock = "if gd_checkpoint g = Some ?e then (jd_lock disk, Inr ()) else save_checkpoint env ?e (jd_lock disk)"
  have short: "length (jd_lock disk) \<le> 8"
    using known by (auto simp: knows_lock_def lock_at_def split: option.splits)
  obtain lock q where lock: "?lock = (lock, q)" by (cases ?lock)
  have made: "lock_at lock ?e" if "q = Inr ()"
  proof (cases "gd_checkpoint g = Some ?e")
    case True
    then show ?thesis using lock known by (simp add: knows_lock_def)
  next
    case False
    then have "lock = epoch_bytes ?e"
      using lock that whole_epoch [OF _ short, of 8] length_epoch_bytes [of ?e]
      by (auto simp: save_checkpoint_def Let_def min_def split: if_splits)
    then show ?thesis by (simp add: lock_at_def length_epoch_bytes epoch_of_bytes)
  qed
  have kept: "length lock = 8 \<and> c \<le> epoch_of lock" if at: "lock_at (jd_lock disk) c" for c
  proof -
    have le: "c \<le> ?e" "length (jd_lock disk) = 8" "c \<le> epoch_of (jd_lock disk)"
      using at known by (auto simp: knows_lock_def lock_at_def split: option.splits)
    show ?thesis
    proof (cases "lock = jd_lock disk")
      case False
      then have "lock = overwrite (min 8 (js_bytes env)) (epoch_bytes ?e) (jd_lock disk)"
        using lock torn_epoch(1) [OF at le(1), of "min 8 (js_bytes env)"]
        by (auto simp: save_checkpoint_def Let_def split: if_splits)
      then show ?thesis using torn_epoch [OF at le(1)] by simp
    qed (use le in simp)
  qed
  have capacity: "q \<noteq> Inl JournalCapacity"
    using lock by (auto simp: save_checkpoint_def Let_def split: if_splits)
  note step = save [unfolded save_journal_def Let_def lock]
  show "gd_journal g' = gd_journal g" using step by (auto split: if_splits sum.splits)
  show "r = Inr () \<Longrightarrow> lock_at (jd_lock d) ?e \<and> gd_checkpoint g' = Some ?e \<and> jd_json d = Some (JournalText (gd_journal g))"
    using step made by (auto split: if_splits sum.splits)
  show "length (jd_lock d) = 8 \<and> c \<le> epoch_of (jd_lock d)" if at: "lock_at (jd_lock disk) c"
    using step kept [OF at] at by (auto simp: lock_at_def split: if_splits sum.splits)
  show "jd_json d = jd_json disk \<or> jd_json d = Some (JournalText (gd_journal g)) \<and> lock_at (jd_lock d) ?e"
    using step made by (auto split: if_splits sum.splits)
  show "r = Inl JournalCapacity \<Longrightarrow> g' = g \<and> d = disk"
    using step capacity by (auto split: if_splits sum.splits)
qed

section \<open>The machine\<close>

text \<open>One process at a time holds the lock, and drops it when an operation fails. Outside of the program
  the journal file may get lost or be damaged.\<close>

datatype journal_event =
    AcquireJournal journal_load journal_save
  | BumpJournal journal_save
  | InsertDirty bool journal_save journal_save dirty_entry
  | ClearDirty bool journal_save str
  | EvaluateJournal bool bool journal_save "str option" "agent_process_identity \<Rightarrow> writer_state"
  | ReleaseJournal
  | DamageJournal "nat option"

datatype journal_answer = NoAnswer | InsertedAt u64 str | EvaluatedTo evaluation

type_synonym journal_world = "journal_guard option \<times> journal_disk"

definition answer_with :: "('a \<Rightarrow> journal_guard \<Rightarrow> journal_answer) \<Rightarrow> journal_guard \<times> journal_disk \<times> (journal_failure + 'a)
    \<Rightarrow> journal_world \<times> journal_answer" where
  "answer_with f result = (case result of
     (g, disk, Inl _) \<Rightarrow> ((None, disk), NoAnswer) | (g, disk, Inr x) \<Rightarrow> ((Some g, disk), f x g))"

fun journal_step :: "(journal \<Rightarrow> nat) \<Rightarrow> entry_digest \<Rightarrow> str \<Rightarrow> journal_event \<Rightarrow> journal_world
    \<Rightarrow> journal_world \<times> journal_answer" where
  "journal_step JL KD home (AcquireJournal env save_env) (None, disk) =
     answer_with (\<lambda>_ _. NoAnswer) (load_journal JL KD home env save_env disk)"
| "journal_step JL KD home (BumpJournal env) (Some g, disk) = answer_with (\<lambda>_ _. NoAnswer) (bump_journal JL env g disk)"
| "journal_step JL KD home (InsertDirty expired env bump_env entry) (Some g, disk) =
     answer_with (\<lambda>key g. InsertedAt (jn_epoch (gd_journal g)) key) (insert_dirty JL KD home expired env bump_env entry g disk)"
| "journal_step JL KD home (ClearDirty expired env key) (Some g, disk) =
     answer_with (\<lambda>_ _. NoAnswer) (clear_persisted JL expired env key g disk)"
| "journal_step JL KD home (EvaluateJournal expired expired_after env session liveness) (Some g, disk) =
     answer_with (\<lambda>ev _. EvaluatedTo ev) (evaluate_journal JL expired expired_after env session liveness g disk)"
| "journal_step JL KD home ReleaseJournal (_, disk) = ((None, disk), NoAnswer)"
| "journal_step JL KD home (DamageJournal lost) (g, disk) = ((g, disk\<lparr>jd_json := map_option OtherText lost\<rparr>), NoAnswer)"
| "journal_step JL KD home _ w = (w, NoAnswer)"

definition journal_run :: "(journal \<Rightarrow> nat) \<Rightarrow> entry_digest \<Rightarrow> str \<Rightarrow> journal_event list \<Rightarrow> journal_world \<Rightarrow> journal_world" where
  "journal_run JL KD home es w = fold (\<lambda>e w. fst (journal_step JL KD home e w)) es w"

definition empty_journal :: journal_world where
  "empty_journal = (None, \<lparr>jd_lock = [], jd_json = None\<rparr>)"

section \<open>The invariant\<close>

text \<open>What the holder of the lock has in memory is what the files say.\<close>

definition guard_ok :: "journal_world \<Rightarrow> bool" where
  "guard_ok w \<longleftrightarrow> (case fst w of None \<Rightarrow> True | Some g \<Rightarrow>
     lock_at (jd_lock (snd w)) (jn_epoch (gd_journal g)) \<and> gd_checkpoint g = Some (jn_epoch (gd_journal g))
     \<and> (\<forall>j. jd_json (snd w) = Some (JournalText j) \<longrightarrow> jn_epoch j = jn_epoch (gd_journal g) \<longrightarrow> jn_dirty j = jn_dirty (gd_journal g)))"

definition holds_keys :: "str list \<Rightarrow> journal \<Rightarrow> bool" where
  "holds_keys keys j \<longleftrightarrow> (\<forall>key \<in> set keys. bm_get (jn_dirty j) key \<noteq> None)"

text \<open>The epoch has reached \<open>e\<close>, and while it is \<open>e\<close> the keys are entered.\<close>

definition tracked :: "str list \<Rightarrow> u64 \<Rightarrow> journal_world \<Rightarrow> bool" where
  "tracked keys e w \<longleftrightarrow> length (jd_lock (snd w)) = 8 \<and> e \<le> epoch_of (jd_lock (snd w))
     \<and> (epoch_of (jd_lock (snd w)) = e \<longrightarrow>
         (\<forall>j. jd_json (snd w) = Some (JournalText j) \<longrightarrow> jn_epoch j = e \<longrightarrow> holds_keys keys j)
         \<and> (\<forall>g. fst w = Some g \<longrightarrow> holds_keys keys (gd_journal g)))"

text \<open>A save with the epoch of the lock file or a later one.\<close>

definition world_after :: "journal_guard \<times> journal_disk \<times> (journal_failure + 'a) \<Rightarrow> journal_world" where
  "world_after result = (case result of (g, disk, r) \<Rightarrow> (if is_ok r then Some g else None, disk))"

lemma answer_world: "fst (answer_with f result) = world_after result"
  by (auto simp: answer_with_def world_after_def split: prod.split sum.split)

lemma saved_guard: "knows_lock g disk \<Longrightarrow> guard_ok (world_after (save_journal JL env g disk))"
proof -
  assume known: "knows_lock g disk"
  obtain g' d r where save: "save_journal JL env g disk = (g', d, r)" using prod_cases3 by blast
  note saved = saved_journal [OF known save]
  show ?thesis
  proof (cases r)
    case (Inr u)
    then show ?thesis using saved(1,2) by (simp add: save guard_ok_def world_after_def)
  qed (simp add: save guard_ok_def world_after_def)
qed

lemma saved_tracked:
  assumes known: "knows_lock g disk" and old: "tracked keys e (Some h, disk) \<or> tracked keys e (None, disk)"
    and keys: "jn_epoch (gd_journal g) = e \<Longrightarrow> holds_keys keys (gd_journal g)"
  shows "tracked keys e (world_after (save_journal JL env g disk))"
proof -
  obtain g' d r where save: "save_journal JL env g disk = (g', d, r)" using prod_cases3 by blast
  note saved = saved_journal [OF known save]
  have lock: "lock_at (jd_lock disk) (epoch_of (jd_lock disk))" "e \<le> epoch_of (jd_lock disk)"
    using old by (auto simp: tracked_def lock_at_def)
  have d: "length (jd_lock d) = 8" "epoch_of (jd_lock disk) \<le> epoch_of (jd_lock d)" using saved(3) [OF lock(1)] by simp_all
  have "holds_keys keys j" if "epoch_of (jd_lock d) = e" "jd_json d = Some (JournalText j)" "jn_epoch j = e" for j
  proof (cases "jd_json d = jd_json disk")
    case True
    moreover have "epoch_of (jd_lock disk) = e" using d(2) lock(2) that(1) by simp
    ultimately show ?thesis using old that by (auto simp: tracked_def)
  next
    case False
    then show ?thesis using saved(4) that keys by auto
  qed
  moreover have "holds_keys keys (gd_journal g')" if "epoch_of (jd_lock d) = e" "is_ok r"
  proof -
    have "lock_at (jd_lock d) (jn_epoch (gd_journal g))" using saved(2) that(2) by (cases r) simp_all
    then show ?thesis using keys saved(1) that(1) by (simp add: lock_at_def)
  qed
  ultimately show ?thesis using d lock(2) by (simp add: save tracked_def world_after_def)
qed

lemma bumped:
  assumes known: "knows_lock g disk"
  shows "guard_ok (world_after (bump_journal JL env g disk))"
    and "tracked keys e (None, disk) \<Longrightarrow> e \<le> jn_epoch (gd_journal g) \<Longrightarrow> tracked keys e (world_after (bump_journal JL env g disk))"
proof -
  let ?g = "g\<lparr>gd_journal := gd_journal g\<lparr>jn_epoch := jn_epoch (gd_journal g) + 1\<rparr>\<rparr>"
  have step: "bump_journal JL env g disk
      = (if jn_epoch (gd_journal g) = - 1 then (g, disk, Inl JournalCapacity) else save_journal JL env ?g disk)"
    by (simp add: bump_journal_def checked_inc_def)
  have up: "jn_epoch (gd_journal g) < jn_epoch (gd_journal g) + 1" if "jn_epoch (gd_journal g) \<noteq> - 1"
    using that inc_greater by blast
  have next_known: "knows_lock ?g disk" if "jn_epoch (gd_journal g) \<noteq> - 1"
    using known up [OF that] by (auto simp: knows_lock_def split: option.splits)
  show "guard_ok (world_after (bump_journal JL env g disk))"
    using saved_guard [OF next_known] by (simp add: step) (simp add: world_after_def guard_ok_def)
  show "tracked keys e (world_after (bump_journal JL env g disk))"
    if t: "tracked keys e (None, disk)" and le: "e \<le> jn_epoch (gd_journal g)"
  proof (cases "jn_epoch (gd_journal g) = - 1")
    case True
    then show ?thesis using t by (simp add: step world_after_def)
  next
    case False
    have "jn_epoch (gd_journal ?g) \<noteq> e" using up [OF False] le by auto
    then show ?thesis using saved_tracked [OF next_known [OF False], of keys e undefined] t False by (simp add: step)
  qed
qed

lemma guard_known: "guard_ok (Some g, disk) \<Longrightarrow> knows_lock g disk"
  by (simp add: guard_ok_def knows_lock_def)

lemma dropped [simp]: "tracked keys e (Some g, disk) \<Longrightarrow> tracked keys e (None, disk)" "guard_ok (None, disk)"
  by (simp_all add: tracked_def guard_ok_def)

lemma tracked_epoch: "tracked keys e (Some g, disk) \<Longrightarrow> guard_ok (Some g, disk) \<Longrightarrow> e \<le> jn_epoch (gd_journal g)
    \<and> (jn_epoch (gd_journal g) = e \<longrightarrow> holds_keys keys (gd_journal g))"
  by (auto simp: tracked_def guard_ok_def lock_at_def)

text \<open>A change of the entries in the epoch of the lock file.\<close>

lemma changed_known: "guard_ok (Some g, disk) \<Longrightarrow> knows_lock (g\<lparr>gd_journal := gd_journal g\<lparr>jn_dirty := dirty\<rparr>\<rparr>) disk"
  by (simp add: guard_ok_def knows_lock_def)

section \<open>Every step keeps it\<close>

lemma loaded_journal:
  shows "guard_ok (world_after (load_journal JL KD home env save_env disk))"
    and "tracked keys e (None, disk) \<Longrightarrow> tracked keys e (world_after (load_journal JL KD home env save_env disk))"
proof -
  define j0 where "j0 = \<lparr>jn_schema = 1, jn_home = home, jn_epoch = 0, jn_dirty = []\<rparr>"
  have "guard_ok (world_after (load_journal JL KD home env save_env disk))
      \<and> (tracked keys e (None, disk) \<longrightarrow> tracked keys e (world_after (load_journal JL KD home env save_env disk)))"
  proof (cases "jl_checkpoint env")
    case True
    show ?thesis
    proof (cases "read_checkpoint (jd_lock disk)")
      case (Inl x)
      then show ?thesis using True by (simp add: load_journal_def world_after_def Let_def)
    next
      case (Inr checkpoint)
      define epoch where "epoch = (case checkpoint of None \<Rightarrow> 0 | Some epoch \<Rightarrow> epoch)"
      define g where "g = \<lparr>gd_checkpoint = checkpoint, gd_journal = j0\<lparr>jn_epoch := epoch\<rparr>\<rparr>"
      have lock: "case checkpoint of None \<Rightarrow> jd_lock disk = [] | Some c \<Rightarrow> lock_at (jd_lock disk) c"
        using Inr by (auto simp: read_checkpoint_def Let_def lock_at_def split: if_splits option.splits)
      then have known: "knows_lock (g\<lparr>gd_journal := j\<rparr>) disk" if "epoch \<le> jn_epoch j" for j
        using that by (auto simp: knows_lock_def g_def epoch_def split: option.splits)
      have none: "checkpoint \<noteq> None" "epoch_of (jd_lock disk) = epoch" "e \<le> epoch" if "tracked keys e (None, disk)"
        using that lock by (auto simp: tracked_def lock_at_def epoch_def split: option.splits)
      have bump: "guard_ok (world_after (bump_journal JL save_env (g\<lparr>gd_journal := j\<rparr>) disk))
          \<and> (tracked keys e (None, disk) \<longrightarrow> tracked keys e (world_after (bump_journal JL save_env (g\<lparr>gd_journal := j\<rparr>) disk)))"
        if "epoch \<le> jn_epoch j" for j
        using bumped [OF known [OF that]] none(3) that by (auto intro: order_trans)
      have same: "g\<lparr>gd_journal := j0\<lparr>jn_epoch := epoch\<rparr>\<rparr> = g" by (simp add: g_def)
      have empty: "epoch \<le> jn_epoch (j0\<lparr>jn_epoch := epoch\<rparr>)" by simp
      have sel: "gd_journal \<lparr>gd_checkpoint = None, gd_journal = j0\<rparr> = j0" by simp
      have step: "load_journal JL KD home env save_env disk = (case read_journal JL KD home env (jd_json disk) of
                Inr (Some j) \<Rightarrow>
                  if checkpoint = None \<or> jn_epoch j \<noteq> epoch
                  then bump_journal JL save_env (g\<lparr>gd_journal := j\<lparr>jn_epoch := max (jn_epoch j) epoch\<rparr>\<rparr>) disk
                  else (g\<lparr>gd_journal := j\<rparr>, disk, Inr ())
              | Inr None \<Rightarrow> if checkpoint = None then save_journal JL save_env g disk else bump_journal JL save_env g disk
              | Inl e \<Rightarrow> if e = JournalCapacity \<or> e = JournalInvalid then bump_journal JL save_env g disk
                  else (g, disk, Inl e))"
        using True unfolding load_journal_def Let_def Inr sum.case
        unfolding j0_def [symmetric] epoch_def [symmetric] sel g_def [symmetric] by simp
      show ?thesis
      proof (cases "read_journal JL KD home env (jd_json disk)")
        case (Inl x)
        then show ?thesis using bump [OF empty] unfolding step same by (simp add: world_after_def)
      next
        case (Inr loaded)
        show ?thesis
        proof (cases loaded)
          case None
          have "guard_ok (world_after (save_journal JL save_env g disk))"
            using saved_guard known [OF empty] unfolding same by blast
          then show ?thesis using bump [OF empty] none(1) Inr None unfolding step same by (cases "checkpoint = None") auto
        next
          case (Some j)
          then have json: "jd_json disk = Some (JournalText j)"
            using Inr by (auto simp: read_journal_def split: option.splits if_splits journal_file.splits)
          show ?thesis
          proof (cases "checkpoint = None \<or> jn_epoch j \<noteq> epoch")
            case True
            have "epoch \<le> jn_epoch (j\<lparr>jn_epoch := max (jn_epoch j) epoch\<rparr>)" by simp
            from bump [OF this] show ?thesis using Inr Some True unfolding step by simp
          next
            case False
            then have "guard_ok (Some (g\<lparr>gd_journal := j\<rparr>), disk)"
              using lock json by (auto simp: guard_ok_def g_def epoch_def)
            moreover have "tracked keys e (Some (g\<lparr>gd_journal := j\<rparr>), disk)" if t: "tracked keys e (None, disk)"
              using t none(2) [OF t] json False by (simp add: tracked_def)
            moreover have "load_journal JL KD home env save_env disk = (g\<lparr>gd_journal := j\<rparr>, disk, Inr ())"
              using Inr Some False unfolding step by (cases checkpoint) simp_all
            ultimately show ?thesis by (simp add: world_after_def)
          qed
        qed
      qed
    qed
  qed (simp add: load_journal_def world_after_def Let_def)
  then show "guard_ok (world_after (load_journal JL KD home env save_env disk))"
    and "tracked keys e (None, disk) \<Longrightarrow> tracked keys e (world_after (load_journal JL KD home env save_env disk))" by blast+
qed

lemma changed:
  assumes ok: "guard_ok (Some g, disk)"
  shows "guard_ok (world_after (save_journal JL env (g\<lparr>gd_journal := gd_journal g\<lparr>jn_dirty := dirty\<rparr>\<rparr>) disk))"
    and "tracked keys e (Some g, disk)
      \<Longrightarrow> (\<And>key. key \<in> set keys \<Longrightarrow> bm_get (jn_dirty (gd_journal g)) key \<noteq> None \<Longrightarrow> bm_get dirty key \<noteq> None)
      \<Longrightarrow> tracked keys e (world_after (save_journal JL env (g\<lparr>gd_journal := gd_journal g\<lparr>jn_dirty := dirty\<rparr>\<rparr>) disk))"
proof -
  show "guard_ok (world_after (save_journal JL env (g\<lparr>gd_journal := gd_journal g\<lparr>jn_dirty := dirty\<rparr>\<rparr>) disk))"
    by (rule saved_guard [OF changed_known [OF ok]])
  assume t: "tracked keys e (Some g, disk)"
    and kept: "\<And>key. key \<in> set keys \<Longrightarrow> bm_get (jn_dirty (gd_journal g)) key \<noteq> None \<Longrightarrow> bm_get dirty key \<noteq> None"
  have "holds_keys keys (gd_journal (g\<lparr>gd_journal := gd_journal g\<lparr>jn_dirty := dirty\<rparr>\<rparr>))"
    if "jn_epoch (gd_journal (g\<lparr>gd_journal := gd_journal g\<lparr>jn_dirty := dirty\<rparr>\<rparr>)) = e"
    using tracked_epoch [OF t ok] that kept by (auto simp: holds_keys_def)
  then show "tracked keys e (world_after (save_journal JL env (g\<lparr>gd_journal := gd_journal g\<lparr>jn_dirty := dirty\<rparr>\<rparr>) disk))"
    using saved_tracked [OF changed_known [OF ok]] t by blast
qed

lemma changed_bumped:
  assumes ok: "guard_ok (Some g, disk)"
  shows "guard_ok (world_after (bump_journal JL env (g\<lparr>gd_journal := gd_journal g\<lparr>jn_dirty := dirty\<rparr>\<rparr>) disk))"
    and "tracked keys e (Some g, disk)
      \<Longrightarrow> tracked keys e (world_after (bump_journal JL env (g\<lparr>gd_journal := gd_journal g\<lparr>jn_dirty := dirty\<rparr>\<rparr>) disk))"
  using bumped [OF changed_known [OF ok]] tracked_epoch [OF _ ok] dropped(1) by simp_all

lemma world_after_ok [simp]: "world_after (g, disk, Inr x) = (Some g, disk)" "world_after (g, disk, Inl f) = (None, disk)"
  by (simp_all add: world_after_def)

lemma inserted:
  assumes ok: "guard_ok (Some g, disk)"
  shows "guard_ok (world_after (insert_dirty JL KD home expired env bump_env entry g disk))
      \<and> (tracked keys e (Some g, disk) \<longrightarrow> tracked keys e (world_after (insert_dirty JL KD home expired env bump_env entry g disk)))"
proof -
  define key where "key = entry_key KD entry"
  define dirty where "dirty = jn_dirty (gd_journal g)"
  define g1 where "g1 = g\<lparr>gd_journal := gd_journal g\<lparr>jn_dirty := bm_insert key entry dirty\<rparr>\<rparr>"
  let ?out = "insert_dirty JL KD home expired env bump_env entry g disk"
  obtain g' d r where save: "save_journal JL env g1 disk = (g', d, r)" using prod_cases3 by blast
  obtain bg bd br where full: "bump_journal JL env g disk = (bg, bd, br)" using prod_cases3 by blast
  define g2 where "g2 = g'\<lparr>gd_journal := gd_journal g'\<lparr>jn_dirty := bm_remove key (jn_dirty (gd_journal g'))\<rparr>\<rparr>"
  obtain cg cd cr where again: "bump_journal JL bump_env g2 d = (cg, cd, cr)" using prod_cases3 by blast
  note eval = insert_dirty_def Let_def key_def [symmetric] dirty_def [symmetric] g1_def [symmetric]
  have grown: "bm_get (bm_insert key entry dirty) k \<noteq> None" if "bm_get dirty k \<noteq> None" for k
    using that by (simp add: bm_get_insert)
  have fine: "guard_ok (world_after (save_journal JL env g1 disk))"
    and track: "tracked keys e (Some g, disk) \<Longrightarrow> tracked keys e (world_after (save_journal JL env g1 disk))"
    unfolding g1_def using changed [OF ok] grown by (simp_all add: dirty_def)
  consider (early) "expired \<or> \<not> entry_valid home entry" | (here) "\<not> expired" "entry_valid home entry" "bm_get dirty key \<noteq> None"
    | (full) "\<not> expired" "entry_valid home entry" "bm_get dirty key = None" "MAX_DIRTY \<le> length dirty"
    | (new) "\<not> expired" "entry_valid home entry" "bm_get dirty key = None" "\<not> MAX_DIRTY \<le> length dirty" by blast
  then show ?thesis
  proof cases
    case early
    then show ?thesis using ok by (auto simp: insert_dirty_def)
  next
    case here
    then show ?thesis using ok by (auto simp: eval)
  next
    case full
    have "guard_ok (world_after (bump_journal JL env g disk))"
      "tracked keys e (Some g, disk) \<Longrightarrow> tracked keys e (world_after (bump_journal JL env g disk))"
      using bumped [OF guard_known [OF ok]] tracked_epoch [OF _ ok] dropped(1) by simp_all
    then show ?thesis using full \<open>bump_journal JL env g disk = _\<close> by (cases br) (auto simp: eval intro: dropped)
  next
    case new
    have out: "?out = (case r of Inr _ \<Rightarrow> (g', d, Inr key) | Inl f \<Rightarrow>
        if f = JournalCapacity then (case cr of Inl h \<Rightarrow> (cg, cd, Inl h) | Inr _ \<Rightarrow> (cg, cd, Inl f)) else (g2, d, Inl f))"
      using new save again unfolding g2_def by (simp add: eval split: sum.split)
    show ?thesis
    proof (cases "r = Inl JournalCapacity")
      case True
      have "g' = g1 \<and> d = disk"
        using saved_journal(5) [OF changed_known [OF ok] save [unfolded g1_def]] True by (simp add: g1_def)
      then have "g2 = g\<lparr>gd_journal := gd_journal g\<lparr>jn_dirty := bm_remove key (bm_insert key entry dirty)\<rparr>\<rparr>" "d = disk"
        by (simp_all add: g2_def g1_def)
      then have "guard_ok (world_after (bump_journal JL bump_env g2 d))"
        "tracked keys e (Some g, disk) \<Longrightarrow> tracked keys e (world_after (bump_journal JL bump_env g2 d))"
        using changed_bumped [OF ok] by simp_all
      then show ?thesis using True unfolding out again by (cases cr) (auto intro: dropped)
    next
      case False
      then show ?thesis using fine track unfolding out save by (cases r) (auto intro: dropped)
    qed
  qed
qed

lemma cleared:
  assumes ok: "guard_ok (Some g, disk)"
  shows "guard_ok (world_after (clear_persisted JL expired env key g disk))
      \<and> (tracked keys e (Some g, disk) \<longrightarrow> key \<notin> set keys \<longrightarrow> tracked keys e (world_after (clear_persisted JL expired env key g disk)))"
proof -
  have kept: "bm_get (bm_remove key dirty) k \<noteq> None" if "key \<notin> set keys" "k \<in> set keys" "bm_get dirty k \<noteq> None" for k dirty
    using that by (auto simp: bm_get_remove)
  have save: "tracked keys e (world_after (save_journal JL env
      (g\<lparr>gd_journal := gd_journal g\<lparr>jn_dirty := bm_remove key (jn_dirty (gd_journal g))\<rparr>\<rparr>) disk))"
    if "tracked keys e (Some g, disk)" "key \<notin> set keys"
    by (rule changed(2) [OF ok that(1)]) (rule kept [OF that(2)])
  note fine = changed(1) [OF ok, of JL env "bm_remove key (jn_dirty (gd_journal g))"]
  consider (late) expired | (gone) "\<not> expired" "bm_get (jn_dirty (gd_journal g)) key = None"
    | (saved) "\<not> expired" "bm_get (jn_dirty (gd_journal g)) key \<noteq> None" by blast
  then show ?thesis
  proof cases
    case late
    then show ?thesis by (auto simp: clear_persisted_def intro: dropped)
  next
    case gone
    then show ?thesis using ok by (simp add: clear_persisted_def)
  next
    case saved
    then show ?thesis using fine save by (auto simp: clear_persisted_def)
  qed
qed

lemma evaluated:
  assumes ok: "guard_ok (Some g, disk)"
  shows "guard_ok (world_after (evaluate_journal JL expired expired_after env session liveness g disk))
      \<and> (tracked keys e (Some g, disk)
        \<longrightarrow> tracked keys e (world_after (evaluate_journal JL expired expired_after env session liveness g disk)))"
proof -
  let ?dirty = "jn_dirty (gd_journal g)"
  define alive where "alive = filter (\<lambda>(_, e). liveness (de_writer e) \<noteq> WriterDead) ?dirty"
  define g1 where "g1 = g\<lparr>gd_journal := gd_journal g\<lparr>jn_dirty := alive\<rparr>\<rparr>"
  define found where "found = list_ex (\<lambda>(_, e). liveness (de_writer e) = WriterDead) ?dirty"
  obtain g' d r where bump: "bump_journal JL env g1 disk = (g', d, r)" using prod_cases3 by blast
  have same: "g1 = g" if "\<not> found"
  proof -
    have "alive = ?dirty" using that by (auto simp: alive_def found_def list_ex_iff intro!: filter_True)
    then show ?thesis by (simp add: g1_def)
  qed
  have bumps: "guard_ok (world_after (g', d, r))" "tracked keys e (Some g, disk) \<longrightarrow> tracked keys e (world_after (g', d, r))"
    unfolding bump [symmetric] g1_def using changed_bumped [OF ok] by blast+
  note eval = evaluate_journal_def Let_def alive_def [symmetric] g1_def [symmetric] found_def [symmetric]
  show ?thesis
  proof (cases expired)
    case True
    then show ?thesis by (auto simp: evaluate_journal_def intro: dropped)
  next
    case False
    then show ?thesis using bumps same ok
      by (cases found; cases r; cases expired_after) (auto simp: eval bump intro: dropped)
  qed
qed

text \<open>What an evaluation reports is what the guard holds.\<close>

lemma evaluation_of:
  "evaluate_journal JL expired expired_after env session liveness g disk = (g', d, Inr ev)
    \<Longrightarrow> ev_epoch ev = jn_epoch (gd_journal g') \<and> (ev_veto ev \<longleftrightarrow> jn_dirty (gd_journal g') \<noteq> [])"
  by (auto simp: evaluate_journal_def Let_def split: if_splits prod.splits sum.splits)

text \<open>An entry that is reported as entered is in the guard.\<close>

lemma entered:
  assumes ok: "guard_ok (Some g, disk)"
    and out: "insert_dirty JL KD home expired env bump_env entry g disk = (g', d, Inr key)"
  shows "bm_get (jn_dirty (gd_journal g')) key \<noteq> None"
proof (cases "bm_get (jn_dirty (gd_journal g)) key \<noteq> None")
  case True
  obtain h d' r where "save_journal JL env (g\<lparr>gd_journal := gd_journal g\<lparr>jn_dirty := bm_insert key entry (jn_dirty (gd_journal g))\<rparr>\<rparr>) disk
    = (h, d', r)" using prod_cases3 by blast
  with True out show ?thesis by (auto simp: insert_dirty_def Let_def split: if_splits prod.splits sum.splits)
next
  case False
  define g1 where "g1 = g\<lparr>gd_journal := gd_journal g\<lparr>jn_dirty := bm_insert key entry (jn_dirty (gd_journal g))\<rparr>\<rparr>"
  have "save_journal JL env g1 disk = (g', d, Inr ())"
    using out False by (auto simp: insert_dirty_def Let_def g1_def split: if_splits prod.splits sum.splits)
  then have "gd_journal g' = gd_journal g1" using saved_journal(1) changed_known [OF ok] unfolding g1_def by blast
  then show ?thesis by (simp add: g1_def bm_get_insert)
qed

definition clears :: "str list \<Rightarrow> journal_event \<Rightarrow> bool" where
  "clears keys e = (case e of ClearDirty _ _ key \<Rightarrow> key \<in> set keys | _ \<Rightarrow> False)"

lemma journal_step_keeps:
  assumes ok: "guard_ok w"
  shows "guard_ok (fst (journal_step JL KD home ev w))
      \<and> (tracked keys e w \<longrightarrow> \<not> clears keys ev \<longrightarrow> tracked keys e (fst (journal_step JL KD home ev w)))"
proof -
  obtain g disk where w: "w = (g, disk)" by (cases w)
  show ?thesis
  proof (cases g)
    case None
    show ?thesis
    proof (cases ev)
      case (AcquireJournal env save_env)
      then show ?thesis using loaded_journal None by (simp add: w answer_world)
    qed (use None in \<open>simp_all add: w tracked_def guard_ok_def\<close>)
  next
    case (Some h)
    have h: "guard_ok (Some h, disk)" using ok w Some by simp
    show ?thesis
    proof (cases ev)
      case (BumpJournal env)
      have "tracked keys e (Some h, disk) \<Longrightarrow> e \<le> jn_epoch (gd_journal h)" using tracked_epoch h by blast
      then show ?thesis using bumped [OF guard_known [OF h]] by (auto simp: w Some BumpJournal answer_world intro: dropped)
    next
      case (InsertDirty expired env bump_env entry)
      then show ?thesis using inserted [OF h] by (simp add: w Some answer_world)
    next
      case (ClearDirty expired env key)
      then show ?thesis using cleared [OF h] by (simp add: w Some answer_world clears_def)
    next
      case (EvaluateJournal expired expired_after env session liveness)
      then show ?thesis using evaluated [OF h] by (simp add: w Some answer_world)
    next
      case (DamageJournal lost)
      then show ?thesis using h by (auto simp: w Some guard_ok_def tracked_def)
    qed (use h in \<open>auto simp: w Some intro: dropped\<close>)
  qed
qed

lemma journal_run_keeps:
  "guard_ok w \<Longrightarrow> guard_ok (journal_run JL KD home es w)
    \<and> (tracked keys e w \<longrightarrow> list_all (\<lambda>ev. \<not> clears keys ev) es \<longrightarrow> tracked keys e (journal_run JL KD home es w))"
proof (induction es arbitrary: w)
  case (Cons ev es)
  show ?case
    using Cons.IH [of "fst (journal_step JL KD home ev w)"] journal_step_keeps [OF Cons.prems, of JL KD home ev keys e]
    by (auto simp: journal_run_def)
qed (simp add: journal_run_def)

lemma reached_ok: "guard_ok (journal_run JL KD home es empty_journal)"
  using journal_run_keeps by (simp add: empty_journal_def)

lemma evaluated_answer:
  "journal_step JL KD home ev w = (w', EvaluatedTo v) \<Longrightarrow> \<exists>expired expired_after env session liveness g disk g' d.
    w = (Some g, disk) \<and> w' = (Some g', d) \<and> ev = EvaluateJournal expired expired_after env session liveness
    \<and> evaluate_journal JL expired expired_after env session liveness g disk = (g', d, Inr v)"
  by (cases "(JL, KD, home, ev, w)" rule: journal_step.cases) (auto simp: answer_with_def split: prod.splits sum.splits)

lemma inserted_answer:
  "journal_step JL KD home ev w = (w', InsertedAt e key) \<Longrightarrow> \<exists>expired env bump_env entry g disk g' d.
    w = (Some g, disk) \<and> w' = (Some g', d) \<and> ev = InsertDirty expired env bump_env entry \<and> e = jn_epoch (gd_journal g')
    \<and> insert_dirty JL KD home expired env bump_env entry g disk = (g', d, Inr key)"
  by (cases "(JL, KD, home, ev, w)" rule: journal_step.cases) (auto simp: answer_with_def split: prod.splits sum.splits)

lemma evaluated_epoch:
  assumes ok: "guard_ok w" and step: "journal_step JL KD home ev w = (w', EvaluatedTo v)"
  shows "guard_ok w'" "tracked [] (ev_epoch v) w'"
    and "tracked keys e w \<Longrightarrow> e \<le> ev_epoch v \<and> (ev_epoch v = e \<longrightarrow> keys \<noteq> [] \<longrightarrow> ev_veto v)"
proof -
  obtain g disk g' d where w': "w' = (Some g', d)" and v: "ev_epoch v = jn_epoch (gd_journal g')" "ev_veto v \<longleftrightarrow> jn_dirty (gd_journal g') \<noteq> []"
    and ev: "\<not> clears keys ev"
    using evaluated_answer [OF step] by (auto simp: clears_def dest: evaluation_of)
  show ok': "guard_ok w'" using journal_step_keeps [OF ok, of JL KD home ev] step by simp
  then show "tracked [] (ev_epoch v) w'" by (auto simp: w' v guard_ok_def tracked_def lock_at_def holds_keys_def)
  assume "tracked keys e w"
  then have "tracked keys e (Some g', d)" using journal_step_keeps [OF ok, of JL KD home ev keys e] step ev w' by simp
  then show "e \<le> ev_epoch v \<and> (ev_epoch v = e \<longrightarrow> keys \<noteq> [] \<longrightarrow> ev_veto v)"
    using tracked_epoch [of keys e g' d] ok' by (cases keys) (auto simp: w' v holds_keys_def)
qed

lemma inserted_tracked:
  assumes ok: "guard_ok w" and step: "journal_step JL KD home ev w = (w', InsertedAt e key)"
  shows "guard_ok w'" "tracked [key] e w'"
    and "tracked [] e0 w \<Longrightarrow> e0 \<le> e"
proof -
  obtain g disk g' d expired env bump_env entry where w: "w = (Some g, disk)" "w' = (Some g', d)" and e: "e = jn_epoch (gd_journal g')"
    and ins: "insert_dirty JL KD home expired env bump_env entry g disk = (g', d, Inr key)"
    and ev: "\<not> clears [] ev"
    using inserted_answer [OF step] by (auto simp: clears_def)
  have held: "bm_get (jn_dirty (gd_journal g')) key \<noteq> None" by (rule entered [OF ok [unfolded w] ins])
  show ok': "guard_ok w'" using journal_step_keeps [OF ok, of JL KD home ev] step by simp
  then show "tracked [key] e w'" using held by (auto simp: w e guard_ok_def tracked_def lock_at_def holds_keys_def)
  assume "tracked [] e0 w"
  then have "tracked [] e0 w'" using journal_step_keeps [OF ok, of JL KD home ev "[]" e0] step ev by simp
  then show "e0 \<le> e" using tracked_epoch [of "[]" e0 g' d] ok' by (simp add: w e)
qed

section \<open>No report gets lost unnoticed\<close>

text \<open>
  C0. placeholder
\<close>

theorem journal_loss_detected:
  "\<forall>before w0 start w1 v between w2 hook w3 e key later w4 check w5 v'.
    journal_run JL KD home before empty_journal = w0 \<longrightarrow> journal_step JL KD home start w0 = (w1, EvaluatedTo v) \<longrightarrow>
    journal_run JL KD home between w1 = w2 \<longrightarrow> journal_step JL KD home hook w2 = (w3, InsertedAt e key) \<longrightarrow>
    list_all (\<lambda>ev. \<not> clears [key] ev) later \<longrightarrow> journal_run JL KD home later w3 = w4 \<longrightarrow>
    journal_step JL KD home check w4 = (w5, EvaluatedTo v') \<longrightarrow> ev_veto v' \<or> ev_epoch v < ev_epoch v'"
proof (intro allI impI)
  fix before w0 start w1 v between w2 hook w3 e key later w4 check w5 v'
  assume runs: "journal_run JL KD home before empty_journal = w0" "journal_run JL KD home between w1 = w2"
      "journal_run JL KD home later w3 = w4"
    and steps: "journal_step JL KD home start w0 = (w1, EvaluatedTo v)" "journal_step JL KD home hook w2 = (w3, InsertedAt e key)"
      "journal_step JL KD home check w4 = (w5, EvaluatedTo v')"
    and kept: "list_all (\<lambda>ev. \<not> clears [key] ev) later"
  have w0: "guard_ok w0" using reached_ok runs(1) by blast
  note w1 = evaluated_epoch(1,2) [OF w0 steps(1)]
  have w2: "guard_ok w2" "tracked [] (ev_epoch v) w2"
    using journal_run_keeps [OF w1(1), of JL KD home between "[]" "ev_epoch v"] w1(2) runs(2)
    by (auto simp: list_all_iff clears_def split: journal_event.splits)
  note w3 = inserted_tracked(1,2) [OF w2(1) steps(2)]
  have w4: "guard_ok w4" "tracked [key] e w4"
    using journal_run_keeps [OF w3(1), of JL KD home later "[key]" e] w3(2) kept runs(3) by auto
  have "ev_epoch v \<le> e" using inserted_tracked(3) [OF w2(1) steps(2) w2(2)] .
  moreover have "e \<le> ev_epoch v' \<and> (ev_epoch v' = e \<longrightarrow> ev_veto v')"
    using evaluated_epoch(3) [OF w4(1) steps(3) w4(2)] by simp
  ultimately show "ev_veto v' \<or> ev_epoch v < ev_epoch v'" by auto
qed

text \<open>A lock file that holds only a part of the first checkpoint keeps every process out.\<close>

lemma torn_checkpoint_locks_out:
  "jd_lock disk \<noteq> [] \<Longrightarrow> length (jd_lock disk) < 8
    \<Longrightarrow> fst (journal_run JL KD home es (None, disk)) = None"
proof (induction es arbitrary: disk)
  case (Cons ev es)
  have "\<exists>d. fst (journal_step JL KD home ev (None, disk)) = (None, d) \<and> jd_lock d = jd_lock disk"
    using Cons.prems by (cases ev) (auto simp: load_journal_def read_checkpoint_def answer_with_def Let_def)
  then obtain d where "fst (journal_step JL KD home ev (None, disk)) = (None, d)" "jd_lock d = jd_lock disk" by blast
  then show ?case using Cons.IH [of d] Cons.prems by (simp add: journal_run_def)
qed (simp add: journal_run_def)

end
