(* ===== verification/QuestionWitnesses.thy ===== *)
theory QuestionWitnesses
  imports QuestionTheorems TranscriptWitnesses QuestionNoticeTheorems QuestionJournalLaws
begin

text \<open>
  A question on its way from the hook to its acknowledgement: a session starts, asks in its turn, the
  transcript shows that turn over and the next one begun, and the screen shows the composer twice.
\<close>

section \<open>A job of the order worker\<close>

definition transcripts :: "transcript_locator \<Rightarrow> u8 list" where
  "transcripts locator = (if locator = locator1 then concat sample_lines else [])"

definition all_records :: "transcript_locator \<Rightarrow> transcript_record list" where
  "all_records locator = (if locator = locator1 then sample_records else [])"

definition full_stat :: slice_stat where
  "full_stat = stat1\<lparr>ss_len := of_nat (length (concat sample_lines))\<rparr>"

fun read_from :: "u64 \<Rightarrow> nat \<Rightarrow> u8 list option" where
  "read_from offset n = (if n = 0 then Some (drop (unat offset) (concat sample_lines)) else Some [])"

definition file_at :: "u64 \<Rightarrow> slice_environment" where
  "file_at offset = whole_file\<lparr>sl_before := Some full_stat, sl_after := Some full_stat, sl_read := read_from offset\<rparr>"

lemma prefix_take: "prefix (take n xs) xs"
  by (metis append_take_drop_id prefixI)

lemma file_at_reads: "reads_file (transcripts locator1) file_at"
  unfolding reads_file_def
proof (intro allI)
  fix offset budget
  have fields: "sl_expired (file_at offset) n = False" "sl_read (file_at offset) n = read_from offset n" for n
    by (simp_all add: file_at_def whole_file_def)
  have stop: "slice_data (file_at offset) budget (Suc 0) m = []" for m
    by (simp add: slice_data.simps [of "file_at offset" budget "Suc 0" m] fields)
  have "slice_data (file_at offset) budget 0 0
      = (if budget = 0 then [] else take (min budget READ_BUFFER_BYTES) (drop (unat offset) (concat sample_lines)))"
    using stop by (simp add: slice_data.simps [of "file_at offset" budget 0 0] fields Let_def)
  then show "prefix (slice_data (file_at offset) budget 0 0) (drop (unat offset) (transcripts locator1))"
    by (simp add: transcripts_def prefix_take)
qed

lemma transcripts_short: "\<forall>locator. length (transcripts locator) < 2 ^ 64"
proof -
  have "length (concat sample_lines) < 2 ^ 64" by code_simp
  then show ?thesis by (simp add: transcripts_def)
qed

lemma transcripts_parsed: "\<forall>locator. \<exists>p. parse_bytes ascii_decoder same_text (transcripts locator) parser_default = Inr (p, all_records locator)"
  using lines_read [OF sample_documents] by (auto simp: transcripts_def all_records_def)

lemma full_slice: "slice_data (file_at 0) (min (min REQUEST_BYTES SLICE_BYTES) SLICE_BYTES) 0 0 = concat sample_lines"
  by code_simp

lemma file_read: "\<exists>c. read_slice ascii_decoder same_text (file_at 0) (min REQUEST_BYTES SLICE_BYTES) first_cursor
    = (c, Inr \<lparr>sr_bytes = length (concat sample_lines), sr_more = False, sr_partial = False\<rparr>) \<and> has_read sample_records c"
proof -
  let ?n = "cu_offset first_cursor + of_nat (length (concat sample_lines))"
  obtain d where d: "apply_records sample_records first_cursor = Inr d"
    using sample_history by blast
  have "feed_bytes ascii_decoder same_text (slice_data (file_at 0) (min (min REQUEST_BYTES SLICE_BYTES) SLICE_BYTES) 0 0)
      first_cursor = (placed parser_default ?n d, Inr ())"
    unfolding full_slice
    using history_read [OF lines_read [OF sample_documents] d, of "cu_offset first_cursor"]
      placed_simps(4) [of first_cursor] unfolding sample_environment(1) by simp
  then have "read_loop ascii_decoder same_text (file_at 0) (min (min REQUEST_BYTES SLICE_BYTES) SLICE_BYTES) 0 0 first_cursor
      = (placed parser_default ?n d, Inr (length (concat sample_lines)))"
    using read_loop_result [of ascii_decoder same_text "file_at 0" "min (min REQUEST_BYTES SLICE_BYTES) SLICE_BYTES" 0 0]
      full_slice by (simp add: file_at_def)
  moreover have "slice_start (file_at 0) first_cursor = Inr full_stat" by code_simp
  moreover have "slice_end (file_at 0) full_stat (placed parser_default ?n d) = Inr full_stat"
  proof -
    have "slice_end (file_at 0) full_stat (placed parser_default ?n first_cursor) = Inr full_stat" by code_simp
    then show ?thesis
      using slice_end_placed [of "file_at 0" full_stat parser_default ?n d parser_default first_cursor] by simp
  qed
  moreover have "\<not> cu_unknown first_cursor" by (rule sample_environment(2))
  moreover have "\<not> ?n < ss_len full_stat" by code_simp
  moreover have "parser_empty parser_default" by code_simp
  ultimately have read: "read_slice ascii_decoder same_text (file_at 0) (min REQUEST_BYTES SLICE_BYTES) first_cursor
      = ((placed parser_default ?n d)\<lparr>cu_size_seen := ss_len full_stat\<rparr>,
         Inr \<lparr>sr_bytes = length (concat sample_lines), sr_more = False, sr_partial = False\<rparr>)"
    by (simp add: read_slice_def read_slice_inner_def)
  have "history first_cursor = first_cursor" by (simp add: history_def first_cursor_def cursor_new_def)
  then have "history_of sample_records d"
    using apply_records_follow [OF d, of "[]"] new_history [of locator1 "lit ''s''"] by (simp add: first_cursor_def)
  moreover have "\<not> cu_unknown d"
  proof -
    have "case apply_records sample_records first_cursor of Inl _ \<Rightarrow> False | Inr d \<Rightarrow> \<not> cu_unknown d" by code_simp
    then show ?thesis using d by simp
  qed
  ultimately show ?thesis using read by (simp add: has_read_def history_of_def history_def placed_def)
qed

section \<open>The events\<close>

definition process1 :: agent_process_identity where
  "process1 = \<lparr>ap_pid = 71, ap_start_token = lit ''1:2''\<rparr>"

definition fingerprint1 :: executable_fingerprint where
  "fingerprint1 = \<lparr>ef_dev = 1, ef_ino = 2, ef_size = 3, ef_mtime_sec = 0, ef_mtime_nsec = 0, ef_ctime_sec = 0, ef_ctime_nsec = 0\<rparr>"

definition binding1 :: binding where
  "binding1 = \<lparr>bn_owner = lit ''owner'', bn_pane = \<lparr>pane_id = lit ''%7'', pane_pid = 70\<rparr>, bn_process = process1,
     bn_executable = \<lparr>pq_process = process1, pq_executable = fingerprint1\<rparr>, bn_profile = V01561, bn_locator = locator1\<rparr>"

definition clean :: journal_view where
  "clean = \<lparr>jv_epoch = 0, jv_veto = False, jv_session_dirty = False\<rparr>"

definition one_question :: notice_fence where
  "one_question = \<lparr>nf_acknowledged = 0, nf_latest = 1\<rparr>"

definition fence1 :: order_fence where
  "fence1 = \<lparr>fe_generation = 1, fe_ingress = lit ''i'', fe_binding = binding1, fe_home = lit ''/h'', fe_session = lit ''s'',
     fe_turn = lit ''b'', fe_epoch = 0, fe_acknowledged = 0, fe_latest = 1\<rparr>"

definition check1 :: order_check where
  "check1 = \<lparr>oc_fence = fence1, oc_issued_turns = [lit ''a'']\<rparr>"

definition question_events :: "resolver_event list" where
  "question_events =
    [SessionStart (lit ''/h'') (lit ''s'') SourceStartup (Some binding1) clean True,
     IssueOrder binding1 (lit ''/h'') (lit ''s'') (lit ''a'') 1 0,
     Ordinary OrdinaryPrompt binding1 (lit ''s'') (lit ''i'') (lit ''b'') one_question clean 0,
     Checked check1 [lit ''a''] 1000,
     MarkEligible (lit ''owner'') (lit ''b'') True False 2000,
     ProbesDue (milliseconds 200), ScreenSample fence1 1 SampleNormalComposer (milliseconds 210),
     ProbesDue (milliseconds 600), ScreenSample fence1 2 SampleNormalComposer (milliseconds 610)]"

lemma question_guarded: "final_guard (resolver_run tl_home question_events resolver_default) fence1 1 one_question clean (milliseconds 700)"
  by code_simp

definition idle_now :: acquire_environment where
  "idle_now = \<lparr>ae_polls = [], ae_busy = False,
     ae_owner = \<lparr>oe_expired = False, oe_verified = True, oe_embedded = True, oe_file = True\<rparr>,
     ae_busy_verified = False, ae_location = True, ae_lock = True, ae_busy_locked = False\<rparr>"

fun always_idle :: "nat \<Rightarrow> acquire_environment" where "always_idle n = idle_now"

definition clean_evaluation :: evaluation where
  "clean_evaluation = \<lparr>ev_epoch = 0, ev_veto = False, ev_session_dirty = False\<rparr>"

definition round1 :: round_environment where
  "round1 = \<lparr>re_expired = False, re_wait = False, re_slice = file_at, re_acquire = always_idle,
     re_journal = Some clean_evaluation\<rparr>"

definition job1 :: order_job where
  "job1 = \<lparr>oj_check = check1, oj_live = [(lit ''/h'', lit ''s'')], oj_embedded = True, oj_rounds = [round1]\<rparr>"

definition completion1 :: order_completion where
  "completion1 = \<lparr>co_check = check1, co_outcome = OutcomeChecked, co_reason = None, co_proven = [lit ''a''],
     co_journal = Some clean_evaluation, co_guard = True\<rparr>"

lemma job_done: "\<exists>cursors. order_worker ascii_decoder same_text [job1] [] = (cursors, [Some completion1])"
proof -
  obtain c where c: "read_slice ascii_decoder same_text (file_at 0) (min REQUEST_BYTES SLICE_BYTES) first_cursor
      = (c, Inr \<lparr>sr_bytes = length (concat sample_lines), sr_more = False, sr_partial = False\<rparr>)" "has_read sample_records c"
    using file_read by blast
  have "proves c (lit ''a'') (lit ''b'')"
    using proves_iff_ordered [OF c(2)] sample_ordered by simp
  then have proven: "proven_turns check1 c = [lit ''a'']" by (simp add: proven_turns_def check1_def fence1_def)
  have committed: "commit_order check1 [lit ''a''] always_idle (Some clean_evaluation) = completion1" by code_simp
  have "cu_offset first_cursor = 0" "REQUEST_BYTES \<noteq> 0" by code_simp+
  then have rounds: "order_rounds ascii_decoder same_text check1 [round1] REQUEST_BYTES 0 first_cursor = (c, Some completion1)"
    using c(1) proven committed by (simp add: round1_def Let_def)
  have start: "cursor_new (bn_locator (fe_binding (oc_fence check1))) (fe_session (oc_fence check1)) = first_cursor"
    "cu_locator first_cursor = bn_locator (fe_binding (oc_fence check1))"
    by (simp_all add: check1_def fence1_def binding1_def first_cursor_def cursor_new_def)
  have "(fe_home (oc_fence check1), fe_session (oc_fence check1)) \<in> set [(lit ''/h'', lit ''s'')]"
    by (simp add: check1_def fence1_def)
  then have "order_worker_step ascii_decoder same_text job1 []
      = ([((fe_home (oc_fence check1), fe_session (oc_fence check1)), c)], Some completion1)"
    using rounds start by (simp add: order_worker_step_def execute_order_job_def job1_def CURSOR_LIMIT_def Let_def)
  then show ?thesis by simp
qed


theorem lost_trust_is_final_witness:
  "\<exists>s. bm_get (rv_sessions (resolver_run tl_home [MarkUnknown (lit ''/h'') (lit ''s'')] resolver_default)) (lit ''/h'', lit ''s'') = Some s
     \<and> se_trust s = TrustUnknown
     \<and> trust_of (lit ''/h'') (lit ''s'') (resolver_run tl_home question_events
          (resolver_run tl_home [MarkUnknown (lit ''/h'') (lit ''s'')] resolver_default)) = TrustUnknown"
proof -
  let ?r = "resolver_run tl_home [MarkUnknown (lit ''/h'') (lit ''s'')] resolver_default"
  have "case bm_get (rv_sessions ?r) (lit ''/h'', lit ''s'') of None \<Rightarrow> False | Some s \<Rightarrow> se_trust s = TrustUnknown"
    by code_simp
  then obtain s where "bm_get (rv_sessions ?r) (lit ''/h'', lit ''s'') = Some s" "se_trust s = TrustUnknown"
    by (auto split: option.splits)
  with lost_trust_is_final [OF this] show ?thesis by blast
qed

text \<open>
  One question on its way through the notices: issued and saved, acknowledged and saved, and the daemon
  started again.
\<close>

definition digest1 :: str where "digest1 = replicate 64 48"

definition same_digest :: notice_digests where
  "same_digest = \<lparr>nd_key = (\<lambda>_. digest1), nd_owner = (\<lambda>_ _ _. digest1), nd_call = (\<lambda>_ _. digest1), nd_item = (\<lambda>_ _. digest1),
     nd_identifier = (\<lambda>_. digest1)\<rparr>"

fun small :: "notice_snapshot \<Rightarrow> nat" where "small s = 100"

definition saving :: notice_save_environment where
  "saving = \<lparr>sv_clock = 0, sv_attempt = 0, sv_guard = 0, sv_parent = True, sv_target = True, sv_written = True,
     sv_rename = True, sv_marker = MarkerComplete, sv_synced = True\<rparr>"

definition pane1 :: pane_instance where "pane1 = \<lparr>pane_id = lit ''%7'', pane_pid = 70\<rparr>"

definition agent1 :: agent_process_identity where "agent1 = \<lparr>ap_pid = 71, ap_start_token = lit ''1:2''\<rparr>"

definition question1 :: "str \<times> str \<times> str" where "question1 = (lit ''s'', lit ''t'', lit ''c'')"

definition owner1 :: str where "owner1 = owner_ref same_digest (lit ''h'') pane1 agent1"

definition issue1 :: notice_event where "issue1 = IssueQuestion saving pane1 agent1 question1 5 (Some 1)"

definition acknowledge1 :: notice_event where "acknowledge1 = AcknowledgeQuestions saving pane1 owner1 1 None"

definition fresh_world :: notice_world where "fresh_world = first_world small same_digest (lit ''h'')"

definition asked_world :: notice_world where "asked_world = notice_step small same_digest issue1 fresh_world"

lemma same_digest_ok: "digests_ok same_digest"
proof -
  have "valid_digest digest1" by code_simp
  then show ?thesis by (simp add: digests_ok_def same_digest_def)
qed

lemma events_ok: "list_all notice_event_ok [issue1, acknowledge1, ReopenNotices]"
  by code_simp

lemma all_kept: "list_all (keeps_owner owner1) [acknowledge1, ReopenNotices]"
  by (simp add: keeps_owner_def acknowledge1_def)




definition failing :: notice_save_environment where "failing = saving\<lparr>sv_written := False\<rparr>"

definition reply1 :: reply_evidence where "reply1 = [digest1]"

theorem failed_reply_leaves_no_trace_witness:
  "\<exists>m d. acknowledge_reply_orders small failing 0 pane1 owner1 digest1 reply1 [1] (milliseconds 100) (fst asked_world) (snd asked_world)
      = (m, d, Inl PersistencePending)
    \<and> qn_owners m = qn_owners (fst asked_world) \<and> qn_reply_items m = qn_reply_items (fst asked_world) \<and> d = snd asked_world"
proof -
  obtain m d r where step: "acknowledge_reply_orders small failing 0 pane1 owner1 digest1 reply1 [1] (milliseconds 100) (fst asked_world) (snd asked_world)
      = (m, d, r)" using prod_cases3 by blast
  have "snd (snd (acknowledge_reply_orders small failing 0 pane1 owner1 digest1 reply1 [1] (milliseconds 100) (fst asked_world) (snd asked_world)))
      = Inl PersistencePending" by code_simp
  then have r: "r = Inl PersistencePending" using step by simp
  have run: "notice_run small same_digest [issue1] (first_world small same_digest (lit ''h'')) = (fst asked_world, snd asked_world)"
    by (simp add: notice_run_def asked_world_def fresh_world_def)
  have torn: "sv_marker failing \<noteq> MarkerTorn" by (simp add: failing_def saving_def)
  have "list_all notice_event_ok [issue1]" using events_ok by simp
  from failed_reply_leaves_no_trace [rule_format, OF same_digest_ok this torn run step [unfolded r]]
  show ?thesis using step r by blast
qed


section \<open>The journal\<close>

definition lasting :: journal_save where
  "lasting = \<lparr>js_expired = False, js_seek = True, js_bytes = 8, js_sized = True, js_synced = True, js_temporary = True,
     js_expired_rename = False, js_target = True, js_rename = True, js_directory = True\<rparr>"

definition journal_readable :: journal_load where
  "journal_readable = \<lparr>jl_checkpoint = True, jl_open = True, jl_stat = True, jl_private = True, jl_read = True\<rparr>"

definition hook_entry :: dirty_entry where
  "hook_entry = \<lparr>de_home = digest1, de_session = digest1, de_turn = digest1, de_tool = digest1, de_writer = agent1,
     de_reason = QuestionHook, de_created_at = 5\<rparr>"

definition first_digest :: entry_digest where "first_digest = (\<lambda>(home, session, turn, tool). tool)"

definition light :: "journal \<Rightarrow> nat" where "light j = length (jn_dirty j)"

abbreviation acquire_event :: journal_event where "acquire_event \<equiv> AcquireJournal journal_readable lasting"
abbreviation check_event :: journal_event where
  "check_event \<equiv> EvaluateJournal False False lasting (Some digest1) (\<lambda>_. WriterUnknown)"
abbreviation hook_event :: journal_event where "hook_event \<equiv> InsertDirty False lasting lasting hook_entry"
abbreviation journal_at :: "journal_event list \<Rightarrow> journal_world \<Rightarrow> journal_world" where
  "journal_at \<equiv> journal_run light first_digest digest1"

definition checked_journal :: journal_world where
  "checked_journal = journal_at [check_event] (journal_at [acquire_event] empty_journal)"

definition hooked_journal :: journal_world where
  "hooked_journal = journal_at [hook_event] (journal_at [ReleaseJournal, acquire_event] checked_journal)"

text \<open>The journal is lost after the hook: the next check sees a later epoch.\<close>

lemma journal_one: "(journal_at [e] w, snd (journal_step light first_digest digest1 e w)) = journal_step light first_digest digest1 e w"
  by (simp add: journal_run_def)

theorem journal_loss_detected_witness:
  "\<exists>v v'. snd (journal_step light first_digest digest1 check_event (journal_at [acquire_event] empty_journal)) = EvaluatedTo v
     \<and> snd (journal_step light first_digest digest1 check_event (journal_at [ReleaseJournal, DamageJournal (Some 3), acquire_event] hooked_journal))
       = EvaluatedTo v'
     \<and> (ev_veto v' \<or> ev_epoch v < ev_epoch v')"
proof -
  let ?w0 = "journal_at [acquire_event] empty_journal"
  let ?w2 = "journal_at [ReleaseJournal, acquire_event] checked_journal"
  let ?later = "[ReleaseJournal, DamageJournal (Some 3), acquire_event]"
  let ?w4 = "journal_at ?later hooked_journal"
  have answers: "snd (journal_step light first_digest digest1 check_event ?w0) = EvaluatedTo \<lparr>ev_epoch = 0, ev_veto = False, ev_session_dirty = False\<rparr>"
    "snd (journal_step light first_digest digest1 hook_event ?w2) = InsertedAt 0 digest1"
    "snd (journal_step light first_digest digest1 check_event ?w4) = EvaluatedTo \<lparr>ev_epoch = 1, ev_veto = False, ev_session_dirty = False\<rparr>"
    by code_simp+
  note steps = journal_one [of check_event ?w0, folded checked_journal_def, symmetric, unfolded answers(1)]
    journal_one [of hook_event ?w2, folded hooked_journal_def, symmetric, unfolded answers(2)]
    journal_one [of check_event ?w4, symmetric, unfolded answers(3)]
  have "list_all (\<lambda>ev. \<not> clears [digest1] ev) ?later" by (simp add: clears_def)
  from journal_loss_detected [rule_format, OF refl steps(1) refl steps(2) this refl steps(3)] answers(1,3)
  show ?thesis by blast
qed
end
