(* ===== verification/PaneEvents.thy ===== *)
theory PaneEvents
  imports PaneModel
begin

text \<open>
  The inputs of the pane reducer (\<open>src/src/pane_state/model.rs\<close>): observations, progress
  operations, reports and the event type; the view events of tmux; the capture tracker and
  the reduction context.
\<close>

section \<open>Observations\<close>

datatype agent_session_source = Startup | Resume | Clear | Compact

datatype agent_presence_observation = Present agent_kind | Absent | Unknown

datatype modal = Approval | SynchronousQuestion | TrustDirectory | StartupUpdate

record evidence =
  ev_working :: bool
  ev_modal :: "modal option"
  ev_asynchronous_question :: bool
  ev_transcript_viewer :: bool

datatype capture_inference =
  PermissionWait wait_reason
| UsageLimit
| ProviderError str
| CaptureActivityObserved
| StaleRunCompleted
| NoChange

text \<open>A fingerprint is the 32-byte array of the code.\<close>

type_synonym fingerprint32 = "u8 list"

record capture_observation =
  co_inference :: capture_inference
  co_observed_fingerprint :: "fingerprint32 option"
  co_codex_screen :: "evidence option"
  co_codex_idle_verified :: bool

section \<open>Progress and reports\<close>

datatype progress_operation =
  SetPrompt prompt_state
| ClearPrompt
| TaskCreated
| TaskCompleted
| ReplaceTasks task_progress "task_item_state list"
| UpsertTaskItem str str \<comment> \<open>\<open>id\<close>, \<open>step\<close>\<close>
| UpdateTaskItemStatus str task_item_status \<comment> \<open>\<open>id\<close>, \<open>status\<close>\<close>
| ClearTasks
| UpsertSubagent subagent_state
| RemoveSubagent str \<comment> \<open>\<open>agent_id\<close>\<close>
| ReplaceSubagents "subagent_state list"
| ClearSubagents
| SetWorktreeActivity worktree_activity
| ClearWorktreeActivity
| SetBackgroundProcess background_process_state
| ClearBackgroundProcess

datatype reported_lifecycle =
  ReportedRunning | ReportedWaiting wait_reason | ReportedIdle | ReportedError "str option"

datatype 'a field_update = Set 'a | ClearField

record explicit_state_report =
  er_observed_at :: i64
  er_lifecycle :: "reported_lifecycle option"
  er_started_at :: "i64 option"
  er_completed_at :: "i64 option"
  er_prompt :: "prompt_state field_update option"
  er_tasks :: "task_progress field_update option"
  er_subagents :: "subagent_state list field_update option"
  er_attention :: bool

definition report_is_semantically_empty :: "explicit_state_report \<Rightarrow> bool" where
  "report_is_semantically_empty r \<longleftrightarrow>
     er_lifecycle r = None \<and> er_started_at r = None \<and> er_completed_at r = None
   \<and> er_prompt r = None \<and> er_tasks r = None \<and> er_subagents r = None \<and> \<not> er_attention r"

section \<open>Events\<close>

datatype stored_state_descriptor = Canonical state_version

datatype pane_event =
  ClaudeToolResultObserved i64 claude_tool_result "progress_operation list"
| ClaudeTaskNotificationsObserved i64 "claude_task_notification list"
| ClaudeStopped i64 "response_state option" "claude_registry_entry list option"
    "claude_cron list option" \<comment> \<open>\<open>observed_at\<close>, \<open>response\<close>, \<open>registry\<close>, \<open>crons\<close>\<close>
| ClaudeSessionEnded i64
| AgentSessionStarted i64 agent_session_source "prompt_state option"
    \<comment> \<open>\<open>observed_at\<close>, \<open>source\<close>, \<open>resumed_prompt\<close>\<close>
| BeginRun i64 "prompt_state option" \<comment> \<open>\<open>started_at\<close>, \<open>prompt\<close>\<close>
| ActivityObserved i64
| ActivityAndProgressObserved i64 "progress_operation list"
| WaitRequested i64 wait_reason
| CompleteRun i64 \<comment> \<open>\<open>completed_at\<close>\<close>
| ResponseAndCompleteRun i64 response_state
| FailRun i64 "str option"
| MarkPaneRead u64 \<comment> \<open>\<open>through_order\<close>\<close>
| MarkDone state_version i64 \<comment> \<open>\<open>expected\<close>, \<open>completed_at\<close>\<close>
| TaskSummaryGenerated state_id u64 task_summary_state
    \<comment> \<open>\<open>expected_state_id\<close>, \<open>expected_agent_epoch\<close>, \<open>summary\<close>\<close>
| ProgressUpdated i64 "progress_operation list"
| ExplicitStateReported explicit_state_report
| ObservationBatch "stored_state_descriptor option" u64 i64 agent_presence_observation
    "capture_observation option" "process_observation option"
    \<comment> \<open>\<open>base\<close>, \<open>tracker_generation\<close>, \<open>observed_at\<close>, \<open>presence\<close>, \<open>capture\<close>, \<open>process\<close>\<close>
| PaneRemoved "stored_state_descriptor option"

fun is_external :: "pane_event \<Rightarrow> bool" where
  "is_external (ClaudeToolResultObserved _ _ _) = True"
| "is_external (ClaudeTaskNotificationsObserved _ _) = True"
| "is_external (ClaudeStopped _ _ _ _) = True"
| "is_external (ClaudeSessionEnded _) = True"
| "is_external (AgentSessionStarted _ _ _) = True"
| "is_external (BeginRun _ _) = True"
| "is_external (ActivityObserved _) = True"
| "is_external (ActivityAndProgressObserved _ _) = True"
| "is_external (WaitRequested _ _) = True"
| "is_external (CompleteRun _) = True"
| "is_external (ResponseAndCompleteRun _ _) = True"
| "is_external (FailRun _ _) = True"
| "is_external (ProgressUpdated _ _) = True"
| "is_external (ExplicitStateReported _) = True"
| "is_external _ = False"

fun is_semantically_empty :: "pane_event \<Rightarrow> bool" where
  "is_semantically_empty (ProgressUpdated _ operations) = (operations = [])"
| "is_semantically_empty (ExplicitStateReported report) = report_is_semantically_empty report"
| "is_semantically_empty _ = False"

record pane_event_envelope =
  en_daemon_instance_id :: str
  en_event_id :: str
  en_pane_instance :: pane_instance
  en_agent :: "agent_kind option"
  en_agent_session_id :: "agent_session_id option"
  en_event :: pane_event

section \<open>View events\<close>

datatype view_hook_kind =
  WindowPaneChanged | SessionWindowChanged | ClientSessionChanged | ClientAttached | ClientDetached

record client_witness =
  cw_client_pid :: u32
  cw_session_id :: str
  cw_window_id :: str
  cw_active_pane :: pane_instance
  cw_control_mode :: bool
  cw_active_pane_flag :: bool

definition client_is_eligible :: "client_witness \<Rightarrow> bool" where
  "client_is_eligible w \<longleftrightarrow> \<not> cw_control_mode w \<and> \<not> cw_active_pane_flag w"

record view_event =
  ve_hook_kind :: view_hook_kind
  ve_active_pane :: "pane_instance option"
  ve_window_panes :: "pane_instance list"
  ve_pane_visible :: bool
  ve_window_visible :: bool

fun validate_view_panes :: "pane_instance set \<Rightarrow> pane_instance list \<Rightarrow> message + unit" where
  "validate_view_panes seen [] = Inr ()"
| "validate_view_panes seen (p # ps) = first_error
    [pane_instance_validate p,
     fail_if (p \<in> seen) (Msg ''duplicate pane in view event''),
     validate_view_panes (insert p seen) ps]"

definition view_event_validate :: "view_event \<Rightarrow> message + unit" where
  "view_event_validate v =
    (if ve_hook_kind v = ClientDetached
     then fail_if (ve_active_pane v \<noteq> None \<or> ve_window_panes v \<noteq> []
                   \<or> ve_pane_visible v \<or> ve_window_visible v)
            (Msg ''client-detached event cannot contain visibility proof'')
     else (case ve_active_pane v of
         None \<Rightarrow> Inl (Msg ''view event active pane is missing'')
       | Some active \<Rightarrow> first_error
           [pane_instance_validate active,
            fail_if (length (ve_window_panes v) > MAX_VIEW_PANES)
              (Msg ''too many panes in view event''),
            validate_view_panes {} (ve_window_panes v),
            fail_if (active \<notin> set (ve_window_panes v))
              (Msg ''active pane is not in the view event window''),
            fail_if (ve_pane_visible v \<and> \<not> ve_window_visible v)
              (Msg ''pane visibility requires window visibility'')]))"

section \<open>Tracker and context\<close>

record codex_binding_rejection =
  cbr_state_id :: state_id
  cbr_agent_epoch :: u64
  cbr_process :: agent_process_identity

record capture_tracker_snapshot =
  ct_generation :: u64
  ct_epoch :: "(state_id \<times> u64) option"
  ct_hook_authoritative :: bool
  ct_codex_binding_rejected :: "codex_binding_rejection option"
  ct_codex_idle_verified_at :: "i64 option"
  ct_codex_screen :: "(evidence \<times> i64) option"
  ct_codex_screen_expired_at :: "i64 option"
  ct_interruption_verification_pending :: bool
  ct_agent_process :: "agent_process_identity option"
  ct_last_agent_process :: "agent_process_identity option"
  ct_absence_count :: u8
  ct_replacement_kind :: "agent_kind option"
  ct_replacement_streak :: u8
  ct_fingerprint :: "fingerprint32 option"
  ct_last_change_at :: "i64 option"
  ct_last_semantic_scan_at :: "i64 option"
  ct_rebaseline_pending :: bool

definition tracker_default :: capture_tracker_snapshot where
  "tracker_default = \<lparr>ct_generation = 0, ct_epoch = None, ct_hook_authoritative = False,
     ct_codex_binding_rejected = None, ct_codex_idle_verified_at = None, ct_codex_screen = None,
     ct_codex_screen_expired_at = None, ct_interruption_verification_pending = False,
     ct_agent_process = None, ct_last_agent_process = None, ct_absence_count = 0,
     ct_replacement_kind = None, ct_replacement_streak = 0, ct_fingerprint = None,
     ct_last_change_at = None, ct_last_semantic_scan_at = None, ct_rebaseline_pending = False\<rparr>"

record reduction_context =
  rc_pane_visible :: bool \<comment> \<open>\<open>visibility.pane_visible_to_eligible_client\<close>\<close>
  rc_tracker :: capture_tracker_snapshot
  rc_new_state_id :: "state_id option"
  rc_latest_unread_order :: u64
  rc_private_task_prompt :: "str option"

end
