(* ===== verification/PaneProgress.thy ===== *)
theory PaneProgress
  imports PaneEvents
begin

text \<open>
  The parts of \<open>src/src/pane_state/reducer.rs\<close> that change one component of a pane
  state: errors, epochs, runs, progress operations and the Claude background receipts.
  Every function takes the state and returns the new one; on an error the caller drops
  its working copy, so no state is returned.
\<close>

section \<open>Errors\<close>

datatype reduce_error =
  InvalidRequest message
| InvalidPaneInstance
| StaleStateIdentity
| StaleSelection
| StaleAgentEvent
| InvalidProgressOperation message
| StateInvariantViolation message
| CounterOverflow string
| MissingStateId

fun prefix_message :: "string \<Rightarrow> message \<Rightarrow> message" where
  "prefix_message p (Msg m) = Msg (p @ m)"
| "prefix_message p (MsgValue m v) = MsgValue (p @ m) v"

datatype epoch_source = Explicit | Process | ProcessVerifiedExplicitHandover

definition update_background ::
  "(claude_background_state \<Rightarrow> claude_background_state) \<Rightarrow> pane_state \<Rightarrow> pane_state" where
  "update_background f s = s\<lparr>ps_claude_background := f (ps_claude_background s)\<rparr>"

section \<open>Epochs and runs\<close>

definition read_stale_attention :: "unread_state \<Rightarrow> unread_state" where
  "read_stale_attention u =
    (if is_unread u \<and> (case un_latest u of None \<Rightarrow> False
          | Some latest \<Rightarrow> uo_reason latest = UnreadWaiting \<or> uo_reason latest = UnreadError)
     then u\<lparr>un_read_seq := un_occurrence_seq u\<rparr> else u)"

definition begin_agent_epoch :: "agent_kind \<Rightarrow> agent_session_id option \<Rightarrow> epoch_source \<Rightarrow>
    pane_state \<Rightarrow> reduce_error + pane_state" where
  "begin_agent_epoch agent session source s =
    bind_r (checked_inc (CounterOverflow ''agent epoch'') (ps_agent_epoch s)) (\<lambda>epoch.
      Inr (s\<lparr>ps_unread := read_stale_attention (ps_unread s),
        ps_agent_epoch := epoch,
        ps_agent := agent,
        ps_agent_session_id := session,
        ps_agent_process := None,
        ps_agent_present := True,
        ps_scan_verified := (source = Process \<or> source = ProcessVerifiedExplicitHandover),
        ps_synthetic_completion_armed := False,
        ps_lifecycle := Idle,
        ps_run_seq := 0,
        ps_current_run := None,
        ps_completed_seq := 0,
        ps_started_at := None,
        ps_completed_at := None,
        ps_prompt := None,
        ps_latest_response := None,
        ps_task_context := task_context_default,
        ps_tasks := task_state_default,
        ps_subagents := [],
        ps_worktree_activity := None,
        ps_background_process := None,
        ps_claude_background := claude_background_default,
        ps_claude_crons := claude_cron_snapshot_default,
        ps_listening_ports := []\<rparr>))"

definition start_new_run :: "i64 \<Rightarrow> pane_state \<Rightarrow> reduce_error + pane_state" where
  "start_new_run started_at s =
    (if ps_run_seq s = ps_completed_seq s
     then bind_r (checked_inc (CounterOverflow ''run sequence'') (ps_run_seq s)) (\<lambda>seq.
       Inr (s\<lparr>ps_run_seq := seq,
         ps_current_run := None,
         ps_started_at := Some started_at,
         ps_prompt := None,
         ps_latest_response := None,
         ps_tasks := task_state_default,
         ps_subagents := [],
         ps_worktree_activity := None,
         ps_claude_background := claude_background_default,
         ps_synthetic_completion_armed := False\<rparr>))
     else Inr (s\<lparr>ps_synthetic_completion_armed := False\<rparr>))"

definition activity_observed :: "i64 \<Rightarrow> pane_state \<Rightarrow> reduce_error + pane_state" where
  "activity_observed observed_at s =
    bind_r (start_new_run observed_at s) (\<lambda>s.
      Inr (update_background activity (s\<lparr>ps_lifecycle := Running\<rparr>)))"

definition wait_requested :: "i64 \<Rightarrow> wait_reason \<Rightarrow> pane_state \<Rightarrow> reduce_error + pane_state" where
  "wait_requested observed_at reason s =
    bind_r (start_new_run observed_at s) (\<lambda>s. Inr (s\<lparr>ps_lifecycle := Waiting reason\<rparr>))"

definition fail_run :: "i64 \<Rightarrow> str option \<Rightarrow> pane_state \<Rightarrow> reduce_error + pane_state" where
  "fail_run observed_at reason s =
    bind_r (start_new_run observed_at s) (\<lambda>s. Inr (s\<lparr>ps_lifecycle := Error reason\<rparr>))"

definition begin_run :: "(u8 list \<Rightarrow> str) \<Rightarrow> i64 \<Rightarrow> prompt_state option \<Rightarrow> str option \<Rightarrow>
    pane_state \<Rightarrow> reduce_error + pane_state" where
  "begin_run H started_at prompt private_task_prompt s =
    (let starts_new_run = (ps_run_seq s = ps_completed_seq s);
         reference_response =
           (if starts_new_run then map_option rs_text (ps_latest_response s) else None)
     in bind_r (start_new_run started_at s) (\<lambda>s.
       let s = update_background activity (s\<lparr>ps_lifecycle := Running, ps_prompt := prompt\<rparr>);
           s = (case private_task_prompt of
               None \<Rightarrow> s
             | Some private \<Rightarrow> s\<lparr>ps_prompt := None, ps_task_context :=
                 (if starts_new_run
                  then observe_private_prompt_with_reference H private reference_response
                         (ps_task_context s)
                  else observe_private_prompt H private (ps_task_context s))\<rparr>)
       in Inr (case ps_prompt s of
           None \<Rightarrow> s
         | Some p \<Rightarrow> s\<lparr>ps_task_context :=
             (if starts_new_run
              then observe_prompt_with_reference H (pr_text p) reference_response
                     (ps_task_context s)
              else observe_prompt H (pr_text p) (ps_task_context s))\<rparr>)))"

text \<open>The parameter \<open>_visibility\<close> of \<open>complete_run\<close> is not used by the code.\<close>

definition completion_deferred :: "pane_state \<Rightarrow> bool" where
  "completion_deferred s \<longleftrightarrow> ps_subagents s \<noteq> []
     \<or> cb_tasks (ps_claude_background s) \<noteq> [] \<or> blocks_completion (ps_claude_background s)"

definition close_run :: "i64 \<Rightarrow> pane_state \<Rightarrow> pane_state" where
  "close_run completed_at s = s\<lparr>ps_completed_seq := ps_run_seq s,
     ps_lifecycle := Idle,
     ps_completed_at := Some completed_at,
     ps_synthetic_completion_armed := False,
     ps_subagents := [],
     ps_claude_background := claude_background_default,
     ps_worktree_activity := None\<rparr>"

definition complete_run :: "i64 \<Rightarrow> bool \<Rightarrow> pane_state \<Rightarrow> pane_state" where
  "complete_run completed_at allow_unarmed_synthetic s =
    (if completion_deferred s then s
     else if ps_run_seq s = 0 then
       (if \<not> ps_synthetic_completion_armed s \<and> \<not> allow_unarmed_synthetic then s
        else close_run completed_at (s\<lparr>ps_run_seq := 1, ps_started_at := Some completed_at\<rparr>))
     else if ps_run_seq s = ps_completed_seq s then s
     else close_run completed_at s)"

definition complete_run_with_response :: "i64 \<Rightarrow> response_state \<Rightarrow> bool \<Rightarrow> pane_state \<Rightarrow>
    reduce_error + pane_state" where
  "complete_run_with_response completed_at response allow_unarmed_synthetic s =
    bind_r (map_err InvalidRequest (response_validate response)) (\<lambda>_.
      let completed_before = ps_completed_seq s;
          s' = complete_run completed_at allow_unarmed_synthetic s
      in Inr (if ps_completed_seq s' > completed_before
              then s'\<lparr>ps_latest_response := Some response\<rparr> else s'))"

definition mark_done :: "i64 \<Rightarrow> pane_state \<Rightarrow> reduce_error + pane_state" where
  "mark_done completed_at s =
    bind_r (if ps_run_seq s = ps_completed_seq s
            then bind_r (checked_inc (CounterOverflow ''run sequence'') (ps_run_seq s)) (\<lambda>seq.
              Inr (s\<lparr>ps_run_seq := seq, ps_started_at := Some completed_at\<rparr>))
            else Inr s) (\<lambda>s.
      Inr (s\<lparr>ps_completed_seq := ps_run_seq s,
        ps_lifecycle := Idle,
        ps_completed_at := Some completed_at,
        ps_synthetic_completion_armed := False,
        ps_tasks := task_state_default,
        ps_latest_response :=
          (if cb_tasks (ps_claude_background s) \<noteq> []
              \<or> blocks_completion (ps_claude_background s)
           then None else ps_latest_response s),
        ps_claude_background := claude_background_default,
        ps_subagents := [],
        ps_worktree_activity := None\<rparr>))"

section \<open>Progress operations\<close>

definition derive_task_progress :: "task_state \<Rightarrow> task_state" where
  "derive_task_progress t =
    (if ts_items t = [] then t
     else t\<lparr>ts_progress := \<lparr>tp_done = of_nat (completed_items (ts_items t)),
                          tp_total = of_nat (length (ts_items t))\<rparr>\<rparr>)"

fun validate_progress_operation :: "progress_operation \<Rightarrow> message + unit" where
  "validate_progress_operation (SetPrompt prompt) = prompt_validate prompt"
| "validate_progress_operation (ReplaceTasks progress items) =
     validate_tasks (derive_task_progress \<lparr>ts_progress = progress, ts_items = items\<rparr>)"
| "validate_progress_operation (UpsertTaskItem i step) = first_error
     [validate_required_text i ''task item ID'' IDENTIFIER_MAX_BYTES,
      validate_required_text step ''task step'' BODY_MAX_BYTES]"
| "validate_progress_operation (UpdateTaskItemStatus i _) =
     validate_required_text i ''task item ID'' IDENTIFIER_MAX_BYTES"
| "validate_progress_operation (UpsertSubagent subagent) = validate_subagents [subagent]"
| "validate_progress_operation (RemoveSubagent agent_id) =
     validate_required_text agent_id ''subagent ID'' IDENTIFIER_MAX_BYTES"
| "validate_progress_operation (ReplaceSubagents subagents) = validate_subagents subagents"
| "validate_progress_operation (SetWorktreeActivity act) = worktree_activity_validate act"
| "validate_progress_operation (SetBackgroundProcess p) = background_process_validate p"
| "validate_progress_operation _ = Inr ()"

definition upsert_task_item :: "str \<Rightarrow> str \<Rightarrow> task_item_state list \<Rightarrow> task_item_state list" where
  "upsert_task_item i step items =
    (if list_ex (\<lambda>item. ti_id item = Some i) items
     then update_first (\<lambda>item. ti_id item = Some i)
            (\<lambda>item. item\<lparr>ti_step := step, ti_status := TaskPending\<rparr>) items
     else items @ [\<lparr>ti_id = Some i, ti_step = step, ti_status = TaskPending\<rparr>])"

definition upsert_subagent :: "subagent_state \<Rightarrow> subagent_state list \<Rightarrow> subagent_state list" where
  "upsert_subagent subagent subagents =
    (if list_ex (\<lambda>e. sa_agent_id e = sa_agent_id subagent) subagents
     then update_first (\<lambda>e. sa_agent_id e = sa_agent_id subagent) (\<lambda>_. subagent) subagents
     else subagents @ [subagent])"

definition remove_subagent :: "str \<Rightarrow> subagent_state list \<Rightarrow> subagent_state list" where
  "remove_subagent agent_id subagents = filter (\<lambda>s. sa_agent_id s \<noteq> agent_id) subagents"

definition set_progress :: "task_progress \<Rightarrow> pane_state \<Rightarrow> pane_state" where
  "set_progress p s = s\<lparr>ps_tasks := \<lparr>ts_progress = p, ts_items = []\<rparr>\<rparr>"

fun apply_progress_operation ::
  "pane_state \<Rightarrow> progress_operation \<Rightarrow> reduce_error + pane_state" where
  "apply_progress_operation s (SetPrompt prompt) = Inr (s\<lparr>ps_prompt := Some prompt\<rparr>)"
| "apply_progress_operation s ClearPrompt = Inr (s\<lparr>ps_prompt := None\<rparr>)"
| "apply_progress_operation s TaskCreated =
     (let p = ts_progress (ps_tasks s)
      in bind_r (checked_inc (CounterOverflow ''task total'') (tp_total p)) (\<lambda>total.
           Inr (set_progress (p\<lparr>tp_total := total\<rparr>) s)))"
| "apply_progress_operation s TaskCompleted =
     (let p = ts_progress (ps_tasks s)
      in bind_r (checked_inc (CounterOverflow ''task completed'') (tp_done p)) (\<lambda>completed.
           if completed > tp_total p
           then Inl (InvalidProgressOperation (Msg ''task completion exceeds total''))
           else Inr (set_progress (p\<lparr>tp_done := completed\<rparr>) s)))"
| "apply_progress_operation s (ReplaceTasks progress items) =
     Inr (s\<lparr>ps_tasks := derive_task_progress \<lparr>ts_progress = progress, ts_items = items\<rparr>\<rparr>)"
| "apply_progress_operation s (UpsertTaskItem i step) =
     Inr (s\<lparr>ps_tasks := derive_task_progress
       ((ps_tasks s)\<lparr>ts_items := upsert_task_item i step (ts_items (ps_tasks s))\<rparr>)\<rparr>)"
| "apply_progress_operation s (UpdateTaskItemStatus i status) =
     (if list_ex (\<lambda>item. ti_id item = Some i) (ts_items (ps_tasks s))
      then Inr (s\<lparr>ps_tasks := derive_task_progress ((ps_tasks s)\<lparr>ts_items :=
             update_first (\<lambda>item. ti_id item = Some i) (\<lambda>item. item\<lparr>ti_status := status\<rparr>)
               (ts_items (ps_tasks s))\<rparr>)\<rparr>)
      else Inl (InvalidProgressOperation (MsgValue ''unknown task item ID '' i)))"
| "apply_progress_operation s ClearTasks = Inr (s\<lparr>ps_tasks := task_state_default\<rparr>)"
| "apply_progress_operation s (UpsertSubagent subagent) =
     Inr (s\<lparr>ps_subagents := upsert_subagent subagent (ps_subagents s)\<rparr>)"
| "apply_progress_operation s (RemoveSubagent agent_id) =
     Inr (s\<lparr>ps_subagents := remove_subagent agent_id (ps_subagents s)\<rparr>)"
| "apply_progress_operation s (ReplaceSubagents subagents) =
     Inr (s\<lparr>ps_subagents := subagents\<rparr>)"
| "apply_progress_operation s ClearSubagents = Inr (s\<lparr>ps_subagents := []\<rparr>)"
| "apply_progress_operation s (SetWorktreeActivity act) =
     Inr (s\<lparr>ps_worktree_activity := Some act\<rparr>)"
| "apply_progress_operation s ClearWorktreeActivity = Inr (s\<lparr>ps_worktree_activity := None\<rparr>)"
| "apply_progress_operation s (SetBackgroundProcess p) =
     Inr (s\<lparr>ps_background_process := Some p\<rparr>)"
| "apply_progress_operation s ClearBackgroundProcess = Inr (s\<lparr>ps_background_process := None\<rparr>)"

definition apply_progress ::
  "progress_operation list \<Rightarrow> pane_state \<Rightarrow> reduce_error + pane_state" where
  "apply_progress operations s =
    bind_r (fold_r (\<lambda>s operation.
        bind_r (map_err InvalidProgressOperation (validate_progress_operation operation))
          (\<lambda>_. apply_progress_operation s operation)) s operations) (\<lambda>s.
      bind_r (map_err InvalidProgressOperation (first_error
          [validate_tasks (ps_tasks s), validate_subagents (ps_subagents s),
           check_opt background_process_validate (ps_background_process s)])) (\<lambda>_.
        Inr s))"

section \<open>Claude background receipts\<close>

definition register_background_task ::
  "str \<Rightarrow> str \<Rightarrow> str \<Rightarrow> i64 \<Rightarrow> u64 \<Rightarrow> claude_background_state \<Rightarrow> claude_background_state" where
  "register_background_task task_id tool_use_id command at run_seq b =
    (let b' = (case find (\<lambda>t. bt_task_id t = task_id) (cb_tasks b) of
        Some task \<Rightarrow>
          (if bt_tool_use_id task \<noteq> tool_use_id \<or> bt_command task \<noteq> command
           then add_fault (lit ''await_identity_conflict'') task_id b else b)
      | None \<Rightarrow>
          if list_ex (\<lambda>t. bt_tool_use_id t = tool_use_id) (cb_tasks b)
          then add_fault (lit ''await_identity_conflict'') task_id b
          else if length (cb_tasks b) \<ge> MAX_BACKGROUND_TASKS
          then add_fault OVERFLOW_REASON (lit ''overflow'') b
          else b\<lparr>cb_tasks := cb_tasks b @ [\<lparr>bt_task_id = task_id, bt_tool_use_id = tool_use_id,
              bt_owner_run_seq = run_seq, bt_command = command, bt_registered_at = at,
              bt_receipt = Pending, bt_notification_status = None,
              bt_last_registry_presence = RegistryUnknown, bt_last_checked_at = None\<rparr>]\<rparr>)
     in b'\<lparr>cb_faults := filter (\<lambda>f. bf_reason f \<noteq> lit ''await_launch_unconfirmed''
            \<or> bf_key f \<noteq> tool_use_id) (cb_faults b')\<rparr>)"

fun apply_claude_tool_result ::
  "claude_tool_result \<Rightarrow> i64 \<Rightarrow> pane_state \<Rightarrow> reduce_error + pane_state" where
  "apply_claude_tool_result (Registered task_id tool_use_id command) at s =
    (if \<not> valid_background_id task_id \<or> \<not> valid_background_id tool_use_id
        \<or> command = [] \<or> text_len command > BODY_MAX_BYTES
     then Inl (InvalidRequest (Msg ''invalid background registration''))
     else Inr (update_background
       (register_background_task task_id tool_use_id command at (ps_run_seq s)) s))"
| "apply_claude_tool_result (LaunchUnconfirmed tool_use_id) at s =
    (if \<not> valid_background_id tool_use_id
     then Inl (InvalidRequest (Msg ''invalid tool-use ID''))
     else Inr (update_background (add_fault (lit ''await_launch_unconfirmed'') tool_use_id) s))"
| "apply_claude_tool_result (TaskStopped task_id command) at s =
    (let matches = (\<lambda>t. bt_task_id t = task_id \<and> bt_command t = command)
     in Inr (if list_ex matches (cb_tasks (ps_claude_background s))
        then update_background (\<lambda>b. clear_task_faults task_id
               (b\<lparr>cb_tasks := update_first matches (\<lambda>t. t\<lparr>bt_receipt := Cancelled\<rparr>)
                  (cb_tasks b)\<rparr>)) s
        else s))"

definition apply_notification ::
  "claude_background_state \<Rightarrow> claude_task_notification \<Rightarrow> claude_background_state" where
  "apply_notification b n =
    (let matches = (\<lambda>t. bt_task_id t = tn_task_id n \<and> bt_tool_use_id t = tn_tool_use_id n);
         valid = (case tn_status n of None \<Rightarrow> False | Some st \<Rightarrow> valid_background_id st)
     in case find matches (cb_tasks b) of
          None \<Rightarrow> b
        | Some task \<Rightarrow>
            if valid then clear_task_faults (tn_task_id n)
              (b\<lparr>cb_tasks := update_first matches (\<lambda>t. t\<lparr>bt_receipt :=
                   (if bt_receipt t \<noteq> Cancelled then Delivered else bt_receipt t),
                   bt_notification_status := tn_status n\<rparr>) (cb_tasks b)\<rparr>)
            else if bt_receipt task = Pending
              then add_fault (lit ''await_notification_invalid'') (tn_task_id n) b
            else b)"

definition has_fault_reason :: "str \<Rightarrow> claude_background_state \<Rightarrow> bool" where
  "has_fault_reason reason b \<longleftrightarrow> list_ex (\<lambda>f. bf_reason f = reason) (cb_faults b)"

definition notification_resumes :: "pane_state \<Rightarrow> bool" where
  "notification_resumes s \<longleftrightarrow> (case ps_lifecycle s of
      Running \<Rightarrow> True | Idle \<Rightarrow> True
    | Error (Some reason) \<Rightarrow> has_fault_reason reason (ps_claude_background s)
    | _ \<Rightarrow> False)"

definition apply_task_notifications ::
  "i64 \<Rightarrow> claude_task_notification list \<Rightarrow> pane_state \<Rightarrow> reduce_error + pane_state" where
  "apply_task_notifications observed_at notifications s =
    bind_r (if notification_resumes s then activity_observed observed_at s
            else Inr (update_background activity s)) (\<lambda>s.
      if notifications = [] \<or> length notifications > MAX_BACKGROUND_TASKS
      then Inl (InvalidRequest (Msg ''invalid notification count''))
      else Inr (update_background (\<lambda>b. foldl apply_notification b notifications) s))"

definition mark_registry_presence ::
  "claude_registry_entry list option \<Rightarrow> i64 \<Rightarrow> background_wait_task \<Rightarrow> background_wait_task" where
  "mark_registry_presence registry observed_at task =
    (if bt_receipt task \<noteq> Pending then task
     else task\<lparr>bt_last_registry_presence := (case registry of
           None \<Rightarrow> RegistryUnknown
         | Some entries \<Rightarrow>
             if list_ex (\<lambda>e. re_id e = bt_task_id task \<and> re_task_type e = lit ''shell'') entries
             then RegistryPresent else RegistryAbsent),
         bt_last_checked_at := Some observed_at\<rparr>)"

definition blocking_lifecycle :: "claude_background_state \<Rightarrow> lifecycle_state" where
  "blocking_lifecycle b =
    (case (case find (\<lambda>f. \<not> bf_reported f) (cb_faults b) of
             Some f \<Rightarrow> Some f
           | None \<Rightarrow> (case cb_faults b of [] \<Rightarrow> None | f # _ \<Rightarrow> Some f)) of
       Some fault \<Rightarrow> Error (Some (bf_reason fault))
     | None \<Rightarrow> Running)"

definition stop_observation :: "claude_registry_entry list option \<Rightarrow> claude_cron list option \<Rightarrow>
    i64 \<Rightarrow> pane_state \<Rightarrow> pane_state" where
  "stop_observation registry crons observed_at s =
    (let snapshot = \<lparr>cs_entries = (case crons of None \<Rightarrow> [] | Some c \<Rightarrow> c),
           cs_observed_at = (case crons of None \<Rightarrow> None | Some _ \<Rightarrow> Some observed_at)\<rparr>
     in (update_background (\<lambda>b. b\<lparr>cb_tasks :=
           map (mark_registry_presence registry observed_at) (cb_tasks b)\<rparr>) s)
        \<lparr>ps_claude_crons := (if is_ok (claude_cron_snapshot_validate snapshot)
           then snapshot else claude_cron_snapshot_default)\<rparr>)"

definition apply_claude_stop :: "i64 \<Rightarrow> response_state option \<Rightarrow>
    claude_registry_entry list option \<Rightarrow> claude_cron list option \<Rightarrow> bool \<Rightarrow>
    pane_state \<Rightarrow> reduce_error + pane_state" where
  "apply_claude_stop observed_at response registry crons initial s0 =
    (let s = stop_observation registry crons observed_at s0
     in if blocks_completion (ps_claude_background s)
        then Inr (update_background (\<lambda>b. b\<lparr>cb_paused := True, cb_paused_at :=
               (case cb_paused_at b of None \<Rightarrow> Some observed_at | Some at \<Rightarrow> Some at)\<rparr>)
               (s\<lparr>ps_lifecycle := blocking_lifecycle (ps_claude_background s)\<rparr>))
        else if ps_subagents s \<noteq> [] then Inr s
        else
          let s = s\<lparr>ps_claude_background := claude_background_default\<rparr>;
              completed_before = ps_completed_seq s
          in bind_r (case response of
                Some r \<Rightarrow> complete_run_with_response observed_at r initial s
              | None \<Rightarrow> Inr (complete_run observed_at initial s)) (\<lambda>s.
            Inr (if ps_completed_seq s > completed_before \<and> response = None
                 then s\<lparr>ps_latest_response := None\<rparr> else s)))"

definition end_claude_tracking :: "pane_state \<Rightarrow> pane_state" where
  "end_claude_tracking s =
    (let open = (cb_tasks (ps_claude_background s) \<noteq> []
                 \<or> blocks_completion (ps_claude_background s));
         s' = s\<lparr>ps_claude_background := claude_background_default,
                ps_claude_crons := claude_cron_snapshot_default\<rparr>
     in if open
        then let s'' = update_background (add_fault AWAIT_AGENT_ENDED (lit ''session'')) s'
             in (if is_usage_limited (ps_lifecycle s'') then s''
                 else s''\<lparr>ps_lifecycle := Error (Some AWAIT_AGENT_ENDED)\<rparr>)
        else s')"

end
