(* ===== verification/PaneReducer.thy ===== *)
theory PaneReducer
  imports PaneProgress
begin

text \<open>
  The reducer of \<open>src/src/pane_state/reducer.rs\<close>: \<open>reduce\<close> takes the current
  canonical state of a pane (or none), an event envelope and the reduction context, and
  returns the next state with the next capture tracker and an outcome, or an error.
\<close>

section \<open>Results\<close>

datatype reduction_outcome = Noop | TrackerOnly | CanonicalChanged

record reduction =
  rd_record :: "pane_state option"
  rd_tracker_delta :: "capture_tracker_snapshot option"
  rd_outcome :: reduction_outcome

definition unchanged :: "pane_state option \<Rightarrow> reduction" where
  "unchanged current = \<lparr>rd_record = current, rd_tracker_delta = None, rd_outcome = Noop\<rparr>"

section \<open>Identity and evidence\<close>

datatype existing_identity =
  ExactPresent | ExactAbsent | UnboundPresent | UnboundAbsent | MismatchPresent | MismatchAbsent

definition classify_identity ::
  "pane_state \<Rightarrow> agent_kind \<Rightarrow> agent_session_id \<Rightarrow> existing_identity" where
  "classify_identity s agent session =
    (if ps_agent s = agent
     then (case ps_agent_session_id s of
         Some current \<Rightarrow>
           if current = session then (if ps_agent_present s then ExactPresent else ExactAbsent)
           else (if ps_agent_present s then MismatchPresent else MismatchAbsent)
       | None \<Rightarrow> if ps_agent_present s then UnboundPresent else UnboundAbsent)
     else if ps_agent_present s then MismatchPresent else MismatchAbsent)"

fun is_epoch_start_evidence :: "pane_event \<Rightarrow> bool" where
  "is_epoch_start_evidence (ClaudeToolResultObserved _ _ _) = True"
| "is_epoch_start_evidence (ClaudeTaskNotificationsObserved _ _) = True"
| "is_epoch_start_evidence (AgentSessionStarted _ _ _) = True"
| "is_epoch_start_evidence (BeginRun _ _) = True"
| "is_epoch_start_evidence (ActivityObserved _) = True"
| "is_epoch_start_evidence (ActivityAndProgressObserved _ _) = True"
| "is_epoch_start_evidence (WaitRequested _ _) = True"
| "is_epoch_start_evidence (FailRun _ _) = True"
| "is_epoch_start_evidence (ExplicitStateReported report) = (case er_lifecycle report of
     Some ReportedRunning \<Rightarrow> True | Some (ReportedWaiting _) \<Rightarrow> True
   | Some (ReportedError _) \<Rightarrow> True | _ \<Rightarrow> False)"
| "is_epoch_start_evidence _ = False"

fun is_completion :: "pane_event \<Rightarrow> bool" where
  "is_completion (CompleteRun _) = True"
| "is_completion (ResponseAndCompleteRun _ _) = True"
| "is_completion (ClaudeStopped _ _ _ _) = True"
| "is_completion (ExplicitStateReported report) =
     (er_lifecycle report = Some ReportedIdle
      \<and> (er_completed_at report \<noteq> None \<or> er_attention report))"
| "is_completion _ = False"

fun is_completion_for_state :: "pane_state \<Rightarrow> pane_event \<Rightarrow> bool" where
  "is_completion_for_state s (CompleteRun _) = True"
| "is_completion_for_state s (ResponseAndCompleteRun _ _) = True"
| "is_completion_for_state s (ClaudeStopped _ _ _ _) = True"
| "is_completion_for_state s (ExplicitStateReported report) =
     (er_lifecycle report = Some ReportedIdle
      \<and> (ps_run_seq s > ps_completed_seq s
          \<or> (ps_synthetic_completion_armed s \<and> is_completion (ExplicitStateReported report))))"
| "is_completion_for_state s _ = False"

definition interruption_needs_terminal_verification ::
  "pane_state \<Rightarrow> existing_identity \<Rightarrow> pane_event \<Rightarrow> bool" where
  "interruption_needs_terminal_verification s identity event \<longleftrightarrow>
     is_claude (ps_agent s)
   \<and> (identity = ExactPresent \<or> identity = ExactAbsent)
   \<and> ps_completed_seq s > 0
   \<and> ps_run_seq s = ps_completed_seq s
   \<and> (case event of FailRun _ _ \<Rightarrow> True | WaitRequested _ reason \<Rightarrow> is_usage_limit reason
       | _ \<Rightarrow> False)"

definition can_create_from_explicit :: "pane_event \<Rightarrow> bool" where
  "can_create_from_explicit event \<longleftrightarrow> is_epoch_start_evidence event \<or> is_completion event"

section \<open>Applying an explicit event\<close>

definition apply_agent_session_started :: "(u8 list \<Rightarrow> str) \<Rightarrow> agent_session_source \<Rightarrow>
    prompt_state option \<Rightarrow> pane_state \<Rightarrow> pane_state" where
  "apply_agent_session_started H source resumed_prompt s =
    (let s' = s\<lparr>ps_prompt := (if source = Resume then resumed_prompt else None)\<rparr>
     in case ps_prompt s' of None \<Rightarrow> s'
        | Some prompt \<Rightarrow>
            s'\<lparr>ps_task_context := observe_prompt H (pr_text prompt) (ps_task_context s')\<rparr>)"

definition apply_report_fields :: "explicit_state_report \<Rightarrow> pane_state \<Rightarrow> pane_state" where
  "apply_report_fields report s = s
    \<lparr>ps_prompt := (case er_prompt report of None \<Rightarrow> ps_prompt s
        | Some (Set prompt) \<Rightarrow> Some prompt | Some ClearField \<Rightarrow> None),
     ps_tasks := (case er_tasks report of None \<Rightarrow> ps_tasks s
        | Some (Set progress) \<Rightarrow> \<lparr>ts_progress = progress, ts_items = []\<rparr>
        | Some ClearField \<Rightarrow> task_state_default),
     ps_subagents := (case er_subagents report of None \<Rightarrow> ps_subagents s
        | Some (Set subagents) \<Rightarrow> subagents | Some ClearField \<Rightarrow> [])\<rparr>"

definition or_else :: "'a option \<Rightarrow> 'a \<Rightarrow> 'a" where
  "or_else x d = (case x of None \<Rightarrow> d | Some a \<Rightarrow> a)"

definition report_completes :: "explicit_state_report \<Rightarrow> pane_state \<Rightarrow> bool" where
  "report_completes report s \<longleftrightarrow> ps_run_seq s > ps_completed_seq s
     \<or> (ps_synthetic_completion_armed s \<and> ps_run_seq s = 0
        \<and> (er_completed_at report \<noteq> None \<or> er_attention report))"

definition apply_explicit_report ::
  "explicit_state_report \<Rightarrow> pane_state \<Rightarrow> reduce_error + pane_state" where
  "apply_explicit_report report s =
    bind_r (case er_lifecycle report of
        Some ReportedRunning \<Rightarrow>
          activity_observed (or_else (er_started_at report) (er_observed_at report)) s
      | Some (ReportedWaiting reason) \<Rightarrow> wait_requested (er_observed_at report) reason s
      | Some ReportedIdle \<Rightarrow> Inr (if report_completes report s
          then complete_run (or_else (er_completed_at report) (er_observed_at report)) False s
          else s)
      | Some (ReportedError reason) \<Rightarrow> fail_run (er_observed_at report) reason s
      | None \<Rightarrow> Inr s)
    (\<lambda>s. Inr (apply_report_fields report s))"

fun apply_regular_explicit_event :: "(u8 list \<Rightarrow> str) \<Rightarrow> pane_event \<Rightarrow> str option \<Rightarrow>
    pane_state \<Rightarrow> reduce_error + pane_state" where
  "apply_regular_explicit_event H (ClaudeToolResultObserved observed_at result operations) pt s =
     bind_r (activity_observed observed_at s) (\<lambda>s.
     bind_r (apply_progress operations s) (\<lambda>s.
       apply_claude_tool_result result observed_at s))"
| "apply_regular_explicit_event H (ClaudeTaskNotificationsObserved observed_at ns) pt s =
     apply_task_notifications observed_at ns s"
| "apply_regular_explicit_event H (ClaudeStopped observed_at response registry crons) pt s =
     apply_claude_stop observed_at response registry crons False s"
| "apply_regular_explicit_event H (ClaudeSessionEnded _) pt s = Inr (end_claude_tracking s)"
| "apply_regular_explicit_event H (AgentSessionStarted _ source resumed_prompt) pt s =
     Inr (apply_agent_session_started H source resumed_prompt s)"
| "apply_regular_explicit_event H (BeginRun started_at prompt) pt s =
     begin_run H started_at prompt pt s"
| "apply_regular_explicit_event H (ActivityObserved observed_at) pt s =
     activity_observed observed_at s"
| "apply_regular_explicit_event H (ActivityAndProgressObserved observed_at operations) pt s =
     bind_r (activity_observed observed_at s) (apply_progress operations)"
| "apply_regular_explicit_event H (WaitRequested observed_at reason) pt s =
     wait_requested observed_at reason s"
| "apply_regular_explicit_event H (CompleteRun completed_at) pt s =
     Inr (complete_run completed_at False s)"
| "apply_regular_explicit_event H (ResponseAndCompleteRun completed_at response) pt s =
     complete_run_with_response completed_at response False s"
| "apply_regular_explicit_event H (FailRun observed_at reason) pt s =
     fail_run observed_at reason s"
| "apply_regular_explicit_event H (ProgressUpdated _ operations) pt s =
     apply_progress operations s"
| "apply_regular_explicit_event H (ExplicitStateReported report) pt s =
     apply_explicit_report report s"
| "apply_regular_explicit_event H _ pt s =
     Inl (InvalidRequest (Msg ''event is not an explicit agent event''))"

definition apply_initial_explicit_event :: "(u8 list \<Rightarrow> str) \<Rightarrow> pane_event \<Rightarrow> str option \<Rightarrow>
    pane_state \<Rightarrow> reduce_error + pane_state" where
  "apply_initial_explicit_event H event pt s = (case event of
      ClaudeStopped observed_at response registry crons \<Rightarrow>
        apply_claude_stop observed_at response registry crons True s
    | AgentSessionStarted _ source resumed_prompt \<Rightarrow>
        Inr (apply_agent_session_started H source resumed_prompt s)
    | CompleteRun completed_at \<Rightarrow> Inr (complete_run completed_at True s)
    | ResponseAndCompleteRun completed_at response \<Rightarrow>
        complete_run_with_response completed_at response True s
    | ExplicitStateReported report \<Rightarrow>
        (if er_lifecycle report = Some ReportedIdle
         then Inr (apply_report_fields report
           (complete_run (or_else (er_completed_at report) (er_observed_at report)) True s))
         else apply_regular_explicit_event H event pt s)
    | _ \<Rightarrow> apply_regular_explicit_event H event pt s)"

section \<open>New states and trackers\<close>

definition new_state :: "pane_event_envelope \<Rightarrow> agent_kind \<Rightarrow> agent_session_id option \<Rightarrow>
    bool \<Rightarrow> bool \<Rightarrow> state_id option \<Rightarrow> reduce_error + pane_state" where
  "new_state envelope agent session scan_verified armed new_state_id =
    (case new_state_id of None \<Rightarrow> Inl MissingStateId
     | Some state_id \<Rightarrow> Inr \<lparr>ps_schema_version = PANE_STATE_SCHEMA_VERSION,
         ps_state_id = state_id, ps_revision = 0,
         ps_pane_instance = en_pane_instance envelope, ps_agent = agent,
         ps_agent_session_id = session, ps_agent_process = None, ps_agent_epoch = 1,
         ps_agent_present = True, ps_scan_verified = scan_verified,
         ps_synthetic_completion_armed = armed, ps_lifecycle = Idle, ps_run_seq = 0,
         ps_current_run = None, ps_completed_seq = 0, ps_unread = unread_default,
         ps_started_at = None, ps_completed_at = None, ps_prompt = None,
         ps_latest_response = None, ps_task_context = task_context_default,
         ps_tasks = task_state_default, ps_subagents = [], ps_worktree_activity = None,
         ps_background_process = None, ps_claude_background = claude_background_default,
         ps_claude_crons = claude_cron_snapshot_default, ps_listening_ports = []\<rparr>)"

definition initial_explicit_state :: "pane_event_envelope \<Rightarrow> state_id option \<Rightarrow>
    reduce_error + pane_state option" where
  "initial_explicit_state envelope new_state_id =
    (if \<not> can_create_from_explicit (en_event envelope) then Inr None
     else case en_agent envelope of
         None \<Rightarrow> Inl (InvalidRequest (Msg ''explicit event requires an agent''))
       | Some agent \<Rightarrow> (case en_agent_session_id envelope of
             None \<Rightarrow> Inl (InvalidRequest (Msg ''explicit event requires an agent session ID''))
           | Some session \<Rightarrow>
               bind_r (new_state envelope agent (Some session) False False new_state_id)
                 (\<lambda>s. Inr (Some s))))"

definition tracker_matches_state :: "capture_tracker_snapshot \<Rightarrow> pane_state \<Rightarrow> bool" where
  "tracker_matches_state tracker s \<longleftrightarrow> ct_epoch tracker = Some (ps_state_id s, ps_agent_epoch s)"

definition reset_tracker_for_state ::
  "capture_tracker_snapshot \<Rightarrow> pane_state \<Rightarrow> capture_tracker_snapshot" where
  "reset_tracker_for_state tracker s = \<lparr>ct_generation = ct_generation tracker,
     ct_epoch = Some (ps_state_id s, ps_agent_epoch s), ct_hook_authoritative = False,
     ct_codex_binding_rejected = None, ct_codex_idle_verified_at = None, ct_codex_screen = None,
     ct_codex_screen_expired_at = None, ct_interruption_verification_pending = False,
     ct_agent_process = None, ct_last_agent_process = ps_agent_process s, ct_absence_count = 0,
     ct_replacement_kind = None, ct_replacement_streak = 0, ct_fingerprint = None,
     ct_last_change_at = None, ct_last_semantic_scan_at = None, ct_rebaseline_pending = False\<rparr>"

definition bump_tracker :: "capture_tracker_snapshot \<Rightarrow> reduce_error + capture_tracker_snapshot" where
  "bump_tracker tracker =
    bind_r (checked_inc (CounterOverflow ''capture tracker generation'') (ct_generation tracker))
      (\<lambda>g. Inr (tracker\<lparr>ct_generation := g\<rparr>))"

definition finish_state_reduction :: "(u8 list \<Rightarrow> str) \<Rightarrow> pane_state option \<Rightarrow> pane_state \<Rightarrow>
    capture_tracker_snapshot \<Rightarrow> capture_tracker_snapshot option \<Rightarrow> reduce_error + reduction" where
  "finish_state_reduction H current s tracker previous_tracker =
    (let canonical_changed = (current \<noteq> Some s)
     in bind_r (if canonical_changed
          then bind_r (case current of
                 Some existing \<Rightarrow> checked_inc (CounterOverflow ''revision'') (ps_revision existing)
               | None \<Rightarrow> Inr 1) (\<lambda>rev.
            let s' = s\<lparr>ps_revision := rev\<rparr>
            in bind_r (map_err StateInvariantViolation (pane_state_validate H s')) (\<lambda>_. Inr s'))
          else Inr s) (\<lambda>s.
       let tracker_changed = (case previous_tracker of None \<Rightarrow> False
             | Some previous \<Rightarrow> previous \<noteq> tracker)
       in Inr \<lparr>rd_record = Some s,
            rd_tracker_delta = (if tracker_changed then Some tracker else None),
            rd_outcome = (if canonical_changed then CanonicalChanged
              else if tracker_changed then TrackerOnly else Noop)\<rparr>))"

section \<open>Internal events\<close>

text \<open>
  Only the three internal events reach this function; the last branch stands for the
  code's \<open>unreachable!()\<close>.
\<close>

definition reduce_internal_state_event :: "(u8 list \<Rightarrow> str) \<Rightarrow> pane_state option \<Rightarrow>
    pane_event_envelope \<Rightarrow> reduction_context \<Rightarrow> reduce_error + reduction" where
  "reduce_internal_state_event H current envelope context =
    (case current of
       None \<Rightarrow> (case en_event envelope of
           MarkDone _ _ \<Rightarrow> Inl StaleSelection | _ \<Rightarrow> Inr (unchanged current))
     | Some existing \<Rightarrow>
         let finish = (\<lambda>s.
               let outside = (ps_completed_seq s > ps_completed_seq existing
                     \<or> (case en_event envelope of MarkDone _ _ \<Rightarrow> True | _ \<Rightarrow> False));
                   tracker = (if outside
                     then (rc_tracker context)\<lparr>ct_rebaseline_pending := True\<rparr>
                     else rc_tracker context)
               in finish_state_reduction H current s tracker
                    (if outside then Some (rc_tracker context) else None))
         in case en_event envelope of
           MarkPaneRead through_order \<Rightarrow>
             finish (case un_latest (ps_unread existing) of
                 Some latest \<Rightarrow> if uo_order latest \<le> through_order
                   then existing\<lparr>ps_unread := (ps_unread existing)
                     \<lparr>un_read_seq := un_occurrence_seq (ps_unread existing)\<rparr>\<rparr>
                   else existing
               | None \<Rightarrow> existing)
         | MarkDone expected completed_at \<Rightarrow>
             (if version existing \<noteq> expected then Inl StaleSelection
              else bind_r (mark_done completed_at existing) finish)
         | TaskSummaryGenerated expected_state_id expected_agent_epoch summary \<Rightarrow>
             (if ps_state_id existing \<noteq> expected_state_id
                 \<or> ps_agent_epoch existing \<noteq> expected_agent_epoch
                 \<or> context_fingerprint H (ps_task_context existing)
                    \<noteq> Some (tsum_context_fingerprint summary)
              then Inr (unchanged current)
              else bind_r (map_err (\<lambda>e. InvalidRequest (prefix_message ''invalid task summary: '' e))
                     (task_summary_validate summary)) (\<lambda>_.
                finish (existing\<lparr>ps_task_context :=
                  (ps_task_context existing)\<lparr>tc_summary := Some summary\<rparr>\<rparr>)))
         | _ \<Rightarrow> Inl (InvalidRequest (Msg ''unsupported reducer event'')))"

section \<open>Observations\<close>

definition supports_process_detection :: "agent_kind \<Rightarrow> bool" where
  "supports_process_detection a \<longleftrightarrow> is_claude a \<or> is_codex a \<or> a = lit ''opencode''"

definition apply_process_observation ::
  "process_observation option \<Rightarrow> pane_state \<Rightarrow> reduce_error + pane_state" where
  "apply_process_observation observation s = (case observation of
      None \<Rightarrow> Inr s
    | Some p \<Rightarrow> bind_r (map_err InvalidRequest (process_observation_validate p)) (\<lambda>_.
        Inr (s\<lparr>ps_agent_process := (case po_agent_process p of
                 Some identity \<Rightarrow> if po_agent_process_checked p then Some identity
                   else ps_agent_process s
               | None \<Rightarrow> ps_agent_process s),
             ps_background_process := (if po_background_process_alive p = Some False then None
               else ps_background_process s),
             ps_listening_ports := or_else (po_listening_ports p) (ps_listening_ports s)\<rparr>)))"

definition confirm_absent :: "i64 \<Rightarrow> pane_state \<Rightarrow> pane_state" where
  "confirm_absent observed_at s =
    (let background_open = (cb_tasks (ps_claude_background s) \<noteq> []
           \<or> blocks_completion (ps_claude_background s));
         s = (if background_open then end_claude_tracking s else s);
         s = (if ps_run_seq s > ps_completed_seq s \<and> \<not> background_open
              then complete_run observed_at False s else s)
     in s\<lparr>ps_agent_present := False, ps_scan_verified := True, ps_background_process := None,
          ps_claude_crons := claude_cron_snapshot_default, ps_listening_ports := []\<rparr>)"

definition capture_inference_step :: "capture_inference \<Rightarrow> capture_tracker_snapshot \<Rightarrow> i64 \<Rightarrow>
    pane_state \<Rightarrow> reduce_error + pane_state" where
  "capture_inference_step inference tracker observed_at s = (case inference of
      PermissionWait reason \<Rightarrow>
        (if \<not> is_codex (ps_agent s) \<or> ps_run_seq s > ps_completed_seq s
         then wait_requested observed_at reason s else Inr s)
    | UsageLimit \<Rightarrow> wait_requested observed_at usage_limit s
    | ProviderError reason \<Rightarrow> fail_run observed_at (Some reason) s
    | CaptureActivityObserved \<Rightarrow>
        (if \<not> blocks_completion (ps_claude_background s) \<and> ct_fingerprint tracker \<noteq> None
            \<and> ps_run_seq s > ps_completed_seq s
         then activity_observed observed_at s else Inr s)
    | StaleRunCompleted \<Rightarrow>
        Inr (if ps_lifecycle s = Running then complete_run observed_at False s else s)
    | NoChange \<Rightarrow> Inr s)"

definition is_interruption :: "capture_inference \<Rightarrow> bool" where
  "is_interruption i \<longleftrightarrow> (case i of UsageLimit \<Rightarrow> True | ProviderError _ \<Rightarrow> True | _ \<Rightarrow> False)"

definition apply_capture :: "capture_observation option \<Rightarrow> i64 \<Rightarrow>
    pane_state \<times> capture_tracker_snapshot \<Rightarrow>
    reduce_error + (pane_state \<times> capture_tracker_snapshot)" where
  "apply_capture observation observed_at st =
    (let s = fst st;
         tracker = (snd st)
           \<lparr>ct_codex_idle_verified_at := (case observation of
                Some c \<Rightarrow> if co_codex_idle_verified c then Some observed_at else None
              | None \<Rightarrow> None),
            ct_codex_screen_expired_at := None,
            ct_codex_screen := (case observation of
                Some c \<Rightarrow> map_option (\<lambda>e. (e, observed_at)) (co_codex_screen c)
              | None \<Rightarrow> None)\<rparr>
     in case observation of None \<Rightarrow> Inr (s, tracker)
      | Some c \<Rightarrow>
        let changed = (co_observed_fingerprint c \<noteq> None
              \<and> co_observed_fingerprint c \<noteq> ct_fingerprint tracker);
            tracker = tracker\<lparr>ct_interruption_verification_pending := False,
              ct_last_semantic_scan_at := Some observed_at\<rparr>
        in if ct_rebaseline_pending tracker \<and> \<not> is_interruption (co_inference c)
           then Inr (s, if co_observed_fingerprint c \<noteq> None
                then tracker\<lparr>ct_fingerprint := co_observed_fingerprint c,
                       ct_last_change_at := Some observed_at, ct_rebaseline_pending := False\<rparr>
                else tracker)
           else
             let tracker = tracker\<lparr>ct_rebaseline_pending := False\<rparr>
             in bind_r (capture_inference_step (co_inference c) tracker observed_at s) (\<lambda>s.
               Inr (s, if co_observed_fingerprint c \<noteq> None
                  then tracker\<lparr>ct_fingerprint := co_observed_fingerprint c,
                    ct_last_change_at := (if changed \<or> ct_last_change_at tracker = None
                      then Some observed_at else ct_last_change_at tracker)\<rparr>
                  else tracker)))"

definition checked_process :: "process_observation option \<Rightarrow> agent_process_identity option" where
  "checked_process p = (case p of None \<Rightarrow> None
     | Some po \<Rightarrow> if po_agent_process_checked po then po_agent_process po else None)"

text \<open>The block that restarts the tracker after a new epoch seen by process.\<close>

definition restart_tracker :: "agent_process_identity option \<Rightarrow> capture_observation option \<Rightarrow>
    i64 \<Rightarrow> capture_tracker_snapshot \<Rightarrow> pane_state \<Rightarrow> capture_tracker_snapshot" where
  "restart_tracker observed capture observed_at tracker s =
    (let fp = (case capture of None \<Rightarrow> None | Some c \<Rightarrow> co_observed_fingerprint c)
     in (reset_tracker_for_state tracker s)\<lparr>ct_agent_process := observed,
          ct_last_agent_process := observed,
          ct_fingerprint := fp,
          ct_last_change_at := (if fp = None then None else Some observed_at),
          ct_last_semantic_scan_at := (if capture = None then None else Some observed_at)\<rparr>)"

definition count_absence :: "i64 \<Rightarrow> pane_state \<times> capture_tracker_snapshot \<Rightarrow>
    reduce_error + (pane_state \<times> capture_tracker_snapshot)" where
  "count_absence observed_at st =
    bind_r (checked_inc (CounterOverflow ''absence'') (ct_absence_count (snd st))) (\<lambda>n.
      Inr (if n \<ge> 2
           then (confirm_absent observed_at (fst st), (snd st)\<lparr>ct_absence_count := 0\<rparr>)
           else (fst st, (snd st)\<lparr>ct_absence_count := n\<rparr>)))"

definition observe_unknown :: "capture_tracker_snapshot \<Rightarrow> capture_tracker_snapshot" where
  "observe_unknown tracker = tracker\<lparr>ct_codex_screen := None, ct_codex_idle_verified_at := None,
     ct_codex_screen_expired_at := None, ct_agent_process := None, ct_absence_count := 0,
     ct_replacement_kind := None, ct_replacement_streak := 0\<rparr>"

definition observe_absent :: "capture_observation option \<Rightarrow> i64 \<Rightarrow>
    pane_state \<times> capture_tracker_snapshot \<Rightarrow>
    reduce_error + (pane_state \<times> capture_tracker_snapshot)" where
  "observe_absent capture observed_at st =
    bind_r (apply_capture capture observed_at (fst st, (snd st)\<lparr>ct_agent_process := None,
        ct_replacement_kind := None, ct_replacement_streak := 0\<rparr>)) (\<lambda>st.
      if ps_scan_verified (fst st) \<and> supports_process_detection (ps_agent (fst st))
      then count_absence observed_at st else Inr st)"

definition observe_new_epoch :: "agent_kind \<Rightarrow> agent_process_identity option \<Rightarrow>
    capture_observation option \<Rightarrow> i64 \<Rightarrow> pane_state \<times> capture_tracker_snapshot \<Rightarrow>
    reduce_error + (pane_state \<times> capture_tracker_snapshot)" where
  "observe_new_epoch agent observed capture observed_at st =
    bind_r (begin_agent_epoch agent None Process (fst st)) (\<lambda>s.
      Inr (s, restart_tracker observed capture observed_at (snd st) s))"

definition observe_same_agent :: "agent_kind \<Rightarrow> capture_observation option \<Rightarrow>
    process_observation option \<Rightarrow> i64 \<Rightarrow> pane_state \<times> capture_tracker_snapshot \<Rightarrow>
    reduce_error + (pane_state \<times> capture_tracker_snapshot)" where
  "observe_same_agent agent capture process observed_at st =
    (let s = fst st;
         tracker = (snd st)\<lparr>ct_absence_count := 0, ct_replacement_kind := None,
           ct_replacement_streak := 0\<rparr>;
         observed = checked_process process
     in if ps_agent_present s
        then let replaced = (case (ct_last_agent_process tracker, observed) of
                   (Some expected, Some actual) \<Rightarrow> expected \<noteq> actual | _ \<Rightarrow> False)
          in if replaced then observe_new_epoch agent observed capture observed_at (s, tracker)
             else apply_capture capture observed_at (s\<lparr>ps_scan_verified := True\<rparr>,
               tracker\<lparr>ct_agent_process := (case process of
                    Some p \<Rightarrow> if po_agent_process_checked p then observed
                      else ct_agent_process tracker
                  | None \<Rightarrow> ct_agent_process tracker),
                 ct_last_agent_process := (case observed of
                    Some p \<Rightarrow> Some p | None \<Rightarrow> ct_last_agent_process tracker)\<rparr>)
        else observe_new_epoch agent observed capture observed_at (s, tracker))"

definition observe_other_agent :: "agent_kind \<Rightarrow> capture_observation option \<Rightarrow>
    process_observation option \<Rightarrow> i64 \<Rightarrow> pane_state \<times> capture_tracker_snapshot \<Rightarrow>
    reduce_error + (pane_state \<times> capture_tracker_snapshot)" where
  "observe_other_agent agent capture process observed_at st =
    (if ps_agent_present (fst st)
     then bind_r (if ps_scan_verified (fst st) then count_absence observed_at st else Inr st) (\<lambda>st.
       let tracker = snd st
       in if ct_replacement_kind tracker = Some agent
          then bind_r (checked_inc (CounterOverflow ''replacement streak'')
                 (ct_replacement_streak tracker)) (\<lambda>n.
            Inr (fst st, tracker\<lparr>ct_replacement_streak := n\<rparr>))
          else Inr (fst st, tracker\<lparr>ct_replacement_kind := Some agent,
                 ct_replacement_streak := 1\<rparr>))
     else observe_new_epoch agent (checked_process process) capture observed_at st)"

definition observe_existing :: "agent_presence_observation \<Rightarrow> capture_observation option \<Rightarrow>
    process_observation option \<Rightarrow> i64 \<Rightarrow> pane_state \<times> capture_tracker_snapshot \<Rightarrow>
    reduce_error + (pane_state \<times> capture_tracker_snapshot)" where
  "observe_existing presence capture process observed_at st = (case presence of
      Unknown \<Rightarrow> Inr (fst st, observe_unknown (snd st))
    | Absent \<Rightarrow> observe_absent capture observed_at st
    | Present agent \<Rightarrow>
        (if agent = ps_agent (fst st)
         then observe_same_agent agent capture process observed_at st
         else observe_other_agent agent capture process observed_at st))"

definition observation_is_stale ::
  "pane_state option \<Rightarrow> stored_state_descriptor option \<Rightarrow> u64 \<Rightarrow> u64 \<Rightarrow> bool" where
  "observation_is_stale current base tracker_generation generation \<longleftrightarrow>
     base \<noteq> map_option (\<lambda>s. Canonical (version s)) current \<or> tracker_generation \<noteq> generation"

definition reduce_observation :: "(u8 list \<Rightarrow> str) \<Rightarrow> pane_state option \<Rightarrow>
    pane_event_envelope \<Rightarrow> reduction_context \<Rightarrow> stored_state_descriptor option \<Rightarrow> u64 \<Rightarrow> i64 \<Rightarrow>
    agent_presence_observation \<Rightarrow> capture_observation option \<Rightarrow> process_observation option \<Rightarrow>
    reduce_error + reduction" where
  "reduce_observation H current envelope context base generation observed_at presence capture process =
    (if observation_is_stale current base generation (ct_generation (rc_tracker context))
     then Inr (unchanged current)
     else case current of
       None \<Rightarrow> (case presence of
           Present agent \<Rightarrow>
             bind_r (new_state envelope agent None True True (rc_new_state_id context)) (\<lambda>s.
             bind_r (apply_process_observation process s) (\<lambda>s.
             bind_r (bump_tracker ((restart_tracker (checked_process process) capture observed_at
                 (rc_tracker context) s)\<lparr>ct_last_agent_process := ps_agent_process s\<rparr>)) (\<lambda>tracker.
               finish_state_reduction H current s tracker (Some (rc_tracker context)))))
         | _ \<Rightarrow> Inr (unchanged current))
     | Some existing \<Rightarrow>
         bind_r (observe_existing presence capture process observed_at
             (existing, rc_tracker context)) (\<lambda>st.
         bind_r (apply_process_observation process (fst st)) (\<lambda>s.
         bind_r (bump_tracker (snd st)) (\<lambda>tracker.
           finish_state_reduction H current s tracker (Some (rc_tracker context))))))"

section \<open>Explicit events\<close>

definition is_compact_start :: "pane_event \<Rightarrow> bool" where
  "is_compact_start event = (case event of
     AgentSessionStarted _ source _ \<Rightarrow> source = Compact | _ \<Rightarrow> False)"

definition is_claude_only :: "pane_event \<Rightarrow> bool" where
  "is_claude_only event = (case event of
     ClaudeToolResultObserved _ _ _ \<Rightarrow> True | ClaudeTaskNotificationsObserved _ _ \<Rightarrow> True
   | ClaudeStopped _ _ _ _ \<Rightarrow> True | ClaudeSessionEnded _ \<Rightarrow> True | _ \<Rightarrow> False)"

definition is_session_start :: "pane_event \<Rightarrow> bool" where
  "is_session_start event = (case event of AgentSessionStarted _ _ _ \<Rightarrow> True | _ \<Rightarrow> False)"

text \<open>The branch for a pane without a canonical state.\<close>

definition reduce_explicit_new :: "(u8 list \<Rightarrow> str) \<Rightarrow> pane_event_envelope \<Rightarrow>
    reduction_context \<Rightarrow> agent_kind \<Rightarrow> reduce_error + reduction" where
  "reduce_explicit_new H envelope context agent =
    bind_r (initial_explicit_state envelope (rc_new_state_id context)) (\<lambda>initial.
      case initial of
        None \<Rightarrow> Inr (unchanged None)
      | Some s \<Rightarrow>
          bind_r (apply_initial_explicit_event H (en_event envelope)
              (rc_private_task_prompt context) s) (\<lambda>s.
            let tracker = (reset_tracker_for_state (rc_tracker context) s)
                  \<lparr>ct_hook_authoritative := (is_codex agent
                     \<or> is_session_start (en_event envelope)),
                   ct_rebaseline_pending := (ps_completed_seq s > 0)\<rparr>
            in bind_r (bump_tracker tracker) (\<lambda>tracker.
              finish_state_reduction H None s tracker (Some (rc_tracker context)))))"

definition safe_handover :: "pane_state \<Rightarrow> capture_tracker_snapshot \<Rightarrow> pane_event \<Rightarrow>
    agent_kind \<Rightarrow> bool" where
  "safe_handover s tracker event agent \<longleftrightarrow>
     tracker_matches_state tracker s \<and> is_epoch_start_evidence event
   \<and> ct_replacement_streak tracker \<ge> 2 \<and> ct_replacement_kind tracker = Some agent"

text \<open>The \<open>match identity\<close> of \<open>reduce_explicit\<close>.\<close>

definition apply_by_identity :: "(u8 list \<Rightarrow> str) \<Rightarrow> pane_event \<Rightarrow> str option \<Rightarrow>
    capture_tracker_snapshot \<Rightarrow> agent_kind \<Rightarrow> agent_session_id \<Rightarrow> pane_state \<Rightarrow>
    reduce_error + pane_state" where
  "apply_by_identity H event pt tracker agent session s =
    (let apply = apply_regular_explicit_event H event pt;
         enter = (\<lambda>source. bind_r (begin_agent_epoch agent (Some session) source s) apply);
         evidence = is_epoch_start_evidence event;
         completion = is_completion_for_state s event
     in case classify_identity s agent session of
          ExactPresent \<Rightarrow> apply s
        | ExactAbsent \<Rightarrow>
            (if evidence then enter Explicit
             else if completion then bind_r (apply s) (\<lambda>s.
               Inr (s\<lparr>ps_agent_present := False, ps_scan_verified := True\<rparr>))
             else Inl StaleAgentEvent)
        | UnboundPresent \<Rightarrow>
            (if evidence \<or> (completion \<and> ps_synthetic_completion_armed s)
             then apply (s\<lparr>ps_agent_session_id := Some session\<rparr>) else Inr s)
        | UnboundAbsent \<Rightarrow> if evidence then enter Explicit else Inl StaleAgentEvent
        | MismatchPresent \<Rightarrow>
            (if safe_handover s tracker event agent
             then enter ProcessVerifiedExplicitHandover else Inl StaleAgentEvent)
        | MismatchAbsent \<Rightarrow> if evidence then enter Explicit else Inl StaleAgentEvent)"

text \<open>The tracker of an accepted explicit event.\<close>

definition explicit_tracker :: "pane_state \<Rightarrow> pane_state \<Rightarrow> capture_tracker_snapshot \<Rightarrow>
    agent_kind \<Rightarrow> bool \<Rightarrow> capture_tracker_snapshot" where
  "explicit_tracker existing s tracker0 agent trusted =
    (let identity_changed = (ps_state_id s \<noteq> ps_state_id existing
           \<or> ps_agent_epoch s \<noteq> ps_agent_epoch existing);
         tracker = (if identity_changed \<or> \<not> tracker_matches_state tracker0 existing
           then reset_tracker_for_state tracker0 s else tracker0);
         tracker = (if is_codex agent \<and> trusted
           then tracker\<lparr>ct_hook_authoritative := True, ct_codex_screen := None,
                  ct_codex_screen_expired_at := None\<rparr> else tracker);
         tracker = tracker\<lparr>ct_interruption_verification_pending := False,
           ct_absence_count := 0, ct_replacement_kind := None, ct_replacement_streak := 0\<rparr>
     in if ps_completed_seq s > ps_completed_seq existing
        then tracker\<lparr>ct_rebaseline_pending := True\<rparr> else tracker)"

definition reduce_session_start :: "(u8 list \<Rightarrow> str) \<Rightarrow> pane_state \<Rightarrow> reduction_context \<Rightarrow>
    agent_kind \<Rightarrow> agent_session_id \<Rightarrow> agent_session_source \<Rightarrow> prompt_state option \<Rightarrow>
    reduce_error + reduction" where
  "reduce_session_start H existing context agent session source resumed_prompt =
    bind_r (begin_agent_epoch agent (Some session) Explicit existing) (\<lambda>s.
      let s = apply_agent_session_started H source resumed_prompt s;
          tracker = (reset_tracker_for_state (rc_tracker context) s)\<lparr>ct_hook_authoritative := True\<rparr>
      in bind_r (bump_tracker tracker) (\<lambda>tracker.
        finish_state_reduction H (Some existing) s tracker (Some (rc_tracker context))))"

definition reduce_regular :: "(u8 list \<Rightarrow> str) \<Rightarrow> pane_state \<Rightarrow> pane_event \<Rightarrow>
    reduction_context \<Rightarrow> agent_kind \<Rightarrow> agent_session_id \<Rightarrow> reduce_error + reduction" where
  "reduce_regular H existing event context agent session =
    (let identity = classify_identity existing agent session
     in if interruption_needs_terminal_verification existing identity event
        then (if ct_interruption_verification_pending (rc_tracker context)
              then Inr (unchanged (Some existing))
              else bind_r (bump_tracker ((rc_tracker context)
                     \<lparr>ct_interruption_verification_pending := True\<rparr>)) (\<lambda>tracker.
                finish_state_reduction H (Some existing) existing tracker
                  (Some (rc_tracker context))))
        else bind_r (apply_by_identity H event (rc_private_task_prompt context)
               (rc_tracker context) agent session existing) (\<lambda>s.
          bind_r (bump_tracker (explicit_tracker existing s (rc_tracker context) agent
              (identity = ExactPresent \<or> is_epoch_start_evidence event))) (\<lambda>tracker.
            finish_state_reduction H (Some existing) s tracker (Some (rc_tracker context)))))"

definition reduce_explicit :: "(u8 list \<Rightarrow> str) \<Rightarrow> pane_state option \<Rightarrow>
    pane_event_envelope \<Rightarrow> reduction_context \<Rightarrow> reduce_error + reduction" where
  "reduce_explicit H current envelope context =
    (case en_agent envelope of
       None \<Rightarrow> Inl (InvalidRequest (Msg ''explicit event requires an agent''))
     | Some agent \<Rightarrow>
       (if is_claude_only (en_event envelope) \<and> \<not> is_claude agent
        then Inl (InvalidRequest (Msg ''Claude observation requires a Claude agent''))
        else case en_agent_session_id envelope of
          None \<Rightarrow> Inl (InvalidRequest (Msg ''explicit event requires an agent session ID''))
        | Some session \<Rightarrow> (case current of
            None \<Rightarrow> (if is_compact_start (en_event envelope) then Inl StaleAgentEvent
                     else reduce_explicit_new H envelope context agent)
          | Some existing \<Rightarrow> (case en_event envelope of
              AgentSessionStarted _ source resumed_prompt \<Rightarrow>
                (if source = Compact
                 then (if ps_agent existing \<noteq> agent
                          \<or> ps_agent_session_id existing \<noteq> Some session
                          \<or> \<not> ps_agent_present existing
                       then Inl StaleAgentEvent else Inr (unchanged current))
                 else reduce_session_start H existing context agent session source
                        resumed_prompt)
            | event \<Rightarrow> reduce_regular H existing event context agent session))))"

section \<open>Unread occurrences\<close>

fun event_epoch :: "pane_event \<Rightarrow> pane_state \<Rightarrow> i64" where
  "event_epoch (ClaudeToolResultObserved observed_at _ _) s = observed_at"
| "event_epoch (ClaudeTaskNotificationsObserved observed_at _) s = observed_at"
| "event_epoch (ClaudeStopped observed_at _ _ _) s = observed_at"
| "event_epoch (ClaudeSessionEnded observed_at) s = observed_at"
| "event_epoch (AgentSessionStarted observed_at _ _) s = observed_at"
| "event_epoch (ActivityObserved observed_at) s = observed_at"
| "event_epoch (ActivityAndProgressObserved observed_at _) s = observed_at"
| "event_epoch (WaitRequested observed_at _) s = observed_at"
| "event_epoch (FailRun observed_at _) s = observed_at"
| "event_epoch (ProgressUpdated observed_at _) s = observed_at"
| "event_epoch (ObservationBatch _ _ observed_at _ _ _) s = observed_at"
| "event_epoch (BeginRun started_at _) s = started_at"
| "event_epoch (CompleteRun completed_at) s = completed_at"
| "event_epoch (ResponseAndCompleteRun completed_at _) s = completed_at"
| "event_epoch (MarkDone _ completed_at) s = completed_at"
| "event_epoch (ExplicitStateReported report) s = er_observed_at report"
| "event_epoch _ s = (case ps_completed_at s of Some at \<Rightarrow> at
     | None \<Rightarrow> or_else (ps_started_at s) 0)"

text \<open>The reason of a new occurrence, from the previous state and the new one.\<close>

definition fresh_unread_reason :: "pane_state option \<Rightarrow> bool \<Rightarrow> pane_state \<Rightarrow> unread_reason option" where
  "fresh_unread_reason current fresh_background_fault s =
    (let same_epoch = (case current of None \<Rightarrow> False
           | Some previous \<Rightarrow> ps_agent_epoch previous = ps_agent_epoch s);
         previous_lifecycle = (if same_epoch then map_option ps_lifecycle current else None);
         completed = (case current of
             Some previous \<Rightarrow> (if same_epoch then ps_completed_seq s > ps_completed_seq previous
                               else ps_completed_seq s > 0)
           | None \<Rightarrow> ps_completed_seq s > 0)
     in if is_waiting (ps_lifecycle s)
           \<and> \<not> (case previous_lifecycle of Some l \<Rightarrow> is_waiting l | None \<Rightarrow> False)
        then Some UnreadWaiting
        else if is_error (ps_lifecycle s) \<and> (fresh_background_fault
           \<or> \<not> (case previous_lifecycle of Some l \<Rightarrow> is_error l | None \<Rightarrow> False))
        then Some UnreadError
        else if completed then Some UnreadCompleted else None)"

definition push_occurrence :: "pane_event \<Rightarrow> reduction_context \<Rightarrow> unread_reason \<Rightarrow> pane_state \<Rightarrow>
    reduce_error + pane_state" where
  "push_occurrence event context reason s =
    bind_r (checked_inc (CounterOverflow ''unread occurrence sequence'')
        (un_occurrence_seq (ps_unread s))) (\<lambda>seq.
    let previous_order = (case un_latest (ps_unread s) of None \<Rightarrow> 0 | Some l \<Rightarrow> uo_order l)
    in bind_r (checked_inc (CounterOverflow ''unread occurrence order'')
        (max (rc_latest_unread_order context) previous_order)) (\<lambda>order.
      let occurred_at = (case reason of
            UnreadCompleted \<Rightarrow> or_else (ps_completed_at s) (event_epoch event s)
          | _ \<Rightarrow> event_epoch event s);
          seen = (rc_pane_visible context
            \<or> (case event of MarkDone _ _ \<Rightarrow> True | _ \<Rightarrow> False))
      in Inr (s\<lparr>ps_unread := \<lparr>un_occurrence_seq = seq,
           un_read_seq = (if seen then seq else un_read_seq (ps_unread s)),
           un_latest = Some \<lparr>uo_seq = seq, uo_order = order, uo_reason = reason,
             uo_occurred_at = occurred_at\<rparr>\<rparr>\<rparr>)))"

definition apply_unread_transition :: "pane_state option \<Rightarrow> pane_event \<Rightarrow> reduction_context \<Rightarrow>
    pane_state \<Rightarrow> reduce_error + pane_state" where
  "apply_unread_transition current event context s =
    (case event of MarkPaneRead _ \<Rightarrow> Inr s
     | _ \<Rightarrow>
       let fault_reason = (case ps_lifecycle s of
             Error (Some reason) \<Rightarrow>
               (if has_fault_reason reason (ps_claude_background s) then Some reason else None)
           | _ \<Rightarrow> None)
       in case fault_reason of
          None \<Rightarrow> (case fresh_unread_reason current False s of
              None \<Rightarrow> Inr s | Some reason \<Rightarrow> push_occurrence event context reason s)
        | Some r \<Rightarrow>
           (let pending = (\<lambda>f. bf_reason f = r \<and> \<not> bf_reported f)
            in if \<not> list_ex pending (cb_faults (ps_claude_background s)) then Inr s
               else
                 let s = update_background (\<lambda>b. b\<lparr>cb_faults :=
                       update_first pending (\<lambda>f. f\<lparr>bf_reported := True\<rparr>) (cb_faults b)\<rparr>) s
                 in case fresh_unread_reason current True s of
                      None \<Rightarrow> Inr s | Some reason \<Rightarrow> push_occurrence event context reason s))"

section \<open>The reducer\<close>

definition reduce_event :: "(u8 list \<Rightarrow> str) \<Rightarrow> pane_state option \<Rightarrow> pane_event_envelope \<Rightarrow>
    reduction_context \<Rightarrow> reduce_error + reduction" where
  "reduce_event H current envelope context =
    (case en_event envelope of
       ObservationBatch base generation observed_at presence capture process \<Rightarrow>
         reduce_observation H current envelope context base generation observed_at presence
           capture process
     | PaneRemoved _ \<Rightarrow> Inr (unchanged current)
     | MarkPaneRead _ \<Rightarrow> reduce_internal_state_event H current envelope context
     | TaskSummaryGenerated _ _ _ \<Rightarrow> reduce_internal_state_event H current envelope context
     | MarkDone _ _ \<Rightarrow> reduce_internal_state_event H current envelope context
     | event \<Rightarrow> (if is_external event then reduce_explicit H current envelope context
                 else Inl (InvalidRequest (Msg ''unsupported reducer event''))))"

definition reduce :: "(u8 list \<Rightarrow> str) \<Rightarrow> pane_state option \<Rightarrow> pane_event_envelope \<Rightarrow>
    reduction_context \<Rightarrow> reduce_error + reduction" where
  "reduce H current envelope context =
    bind_r (map_err InvalidRequest (pane_instance_validate (en_pane_instance envelope))) (\<lambda>_.
    if (case current of None \<Rightarrow> False
        | Some s \<Rightarrow> ps_pane_instance s \<noteq> en_pane_instance envelope)
    then Inl InvalidPaneInstance
    else if is_semantically_empty (en_event envelope) then Inr (unchanged current)
    else bind_r (reduce_event H current envelope context) (\<lambda>reduction.
      if rd_outcome reduction = CanonicalChanged
      then (case rd_record reduction of
          None \<Rightarrow> Inr reduction
        | Some s \<Rightarrow>
            bind_r (apply_unread_transition current (en_event envelope) context s) (\<lambda>s.
            bind_r (map_err StateInvariantViolation (pane_state_validate H s)) (\<lambda>_.
              Inr (reduction\<lparr>rd_record := Some s\<rparr>))))
      else Inr reduction))"

end
