(* ===== verification/Badge.thy ===== *)
theory Badge
  imports PaneEvents
begin

text \<open>
  Badges: the counts and the rollup of \<open>src/src/daemon/session_badge.rs\<close>, and the
  derivation of a pane's badge from its record and the screen evidence in
  \<open>src/src/pane_state/resolver.rs\<close>. The counters of type \<open>usize\<close> count panes held in
  memory and are natural numbers here; times are \<open>i64\<close>.
\<close>

section \<open>Counts and rollup\<close>

datatype badge_state = Blocked | Limited | Working | Done | UnknownBadge | IdleBadge

text \<open>The derived \<open>Ord\<close> follows the order of the constructors.\<close>

fun badge_rank :: "badge_state \<Rightarrow> nat" where
  "badge_rank Blocked = 0"
| "badge_rank Limited = 1"
| "badge_rank Working = 2"
| "badge_rank Done = 3"
| "badge_rank UnknownBadge = 4"
| "badge_rank IdleBadge = 5"

lemma badge_rank_inject: "badge_rank a = badge_rank b \<Longrightarrow> a = b"
  by (cases a; cases b) simp_all

instantiation badge_state :: linorder
begin

definition less_eq_badge_state :: "badge_state \<Rightarrow> badge_state \<Rightarrow> bool" where
  "less_eq_badge_state a b \<longleftrightarrow> badge_rank a \<le> badge_rank b"

definition less_badge_state :: "badge_state \<Rightarrow> badge_state \<Rightarrow> bool" where
  "less_badge_state a b \<longleftrightarrow> badge_rank a < badge_rank b"

instance
  by standard (auto simp: less_eq_badge_state_def less_badge_state_def intro: badge_rank_inject)

end

fun badge_as_str :: "badge_state \<Rightarrow> string" where
  "badge_as_str Blocked = ''blocked''"
| "badge_as_str Limited = ''limited''"
| "badge_as_str Working = ''working''"
| "badge_as_str Done = ''done''"
| "badge_as_str UnknownBadge = ''unknown''"
| "badge_as_str IdleBadge = ''idle''"

record badge_state_counts =
  n_blocked :: nat
  n_limited :: nat
  n_working :: nat
  n_done :: nat
  n_unknown :: nat
  n_idle :: nat

definition counts_default :: badge_state_counts where
  "counts_default = \<lparr>n_blocked = 0, n_limited = 0, n_working = 0, n_done = 0,
     n_unknown = 0, n_idle = 0\<rparr>"

fun push :: "badge_state_counts \<Rightarrow> badge_state \<Rightarrow> badge_state_counts" where
  "push c Blocked = c\<lparr>n_blocked := n_blocked c + 1\<rparr>"
| "push c Limited = c\<lparr>n_limited := n_limited c + 1\<rparr>"
| "push c Working = c\<lparr>n_working := n_working c + 1\<rparr>"
| "push c Done = c\<lparr>n_done := n_done c + 1\<rparr>"
| "push c UnknownBadge = c\<lparr>n_unknown := n_unknown c + 1\<rparr>"
| "push c IdleBadge = c\<lparr>n_idle := n_idle c + 1\<rparr>"

definition from_states :: "badge_state list \<Rightarrow> badge_state_counts" where
  "from_states states = foldl push counts_default states"

definition merge_counts :: "badge_state_counts \<Rightarrow> badge_state_counts \<Rightarrow> badge_state_counts" where
  "merge_counts c d = \<lparr>n_blocked = n_blocked c + n_blocked d,
     n_limited = n_limited c + n_limited d, n_working = n_working c + n_working d,
     n_done = n_done c + n_done d, n_unknown = n_unknown c + n_unknown d,
     n_idle = n_idle c + n_idle d\<rparr>"

definition counts_total :: "badge_state_counts \<Rightarrow> nat" where
  "counts_total c = n_blocked c + n_limited c + n_working c + n_done c + n_unknown c + n_idle c"

text \<open>The array that both \<open>rollup_state\<close> and \<open>badge_counts_value\<close> iterate over.\<close>

definition count_entries :: "badge_state_counts \<Rightarrow> (badge_state \<times> nat) list" where
  "count_entries c = [(Blocked, n_blocked c), (Limited, n_limited c), (Working, n_working c),
     (Done, n_done c), (UnknownBadge, n_unknown c), (IdleBadge, n_idle c)]"

definition rollup_state :: "badge_state_counts \<Rightarrow> badge_state option" where
  "rollup_state c = map_option fst (find (\<lambda>(_, count). count > 0) (count_entries c))"

record badge_glyphs =
  gl_unknown :: str
  gl_blocked :: str
  gl_limited :: str
  gl_working :: str
  gl_awaiting_result :: str
  gl_done :: str
  gl_idle :: str

datatype session_badge_mode = Rollup | Counts

record agent_badge_config =
  abc_enabled :: bool
  abc_mode :: session_badge_mode
  abc_suffix :: str
  abc_hide_idle :: bool

fun glyph_for_state :: "badge_state \<Rightarrow> badge_glyphs \<Rightarrow> str" where
  "glyph_for_state Blocked g = gl_blocked g"
| "glyph_for_state Limited g = gl_limited g"
| "glyph_for_state Working g = gl_working g"
| "glyph_for_state Done g = gl_done g"
| "glyph_for_state UnknownBadge g = gl_unknown g"
| "glyph_for_state IdleBadge g = gl_idle g"

definition badge_rollup_value :: "badge_state_counts \<Rightarrow> badge_glyphs \<Rightarrow> str \<Rightarrow> str option" where
  "badge_rollup_value c g suffix =
    (case rollup_state c of None \<Rightarrow> None | Some s \<Rightarrow> Some (glyph_for_state s g @ suffix))"

fun join_with :: "'a list \<Rightarrow> 'a list list \<Rightarrow> 'a list" where
  "join_with sep [] = []"
| "join_with sep [x] = x"
| "join_with sep (x # y # xs) = x @ sep @ join_with sep (y # xs)"

definition badge_counts_value :: "badge_state_counts \<Rightarrow> badge_glyphs \<Rightarrow> str \<Rightarrow> str option" where
  "badge_counts_value c g suffix =
    (let parts = map (\<lambda>(s, count). glyph_for_state s g @ lit '' '' @ lit (decimal count))
           (filter (\<lambda>(_, count). count > 0) (count_entries c))
     in if parts = [] then None else Some (join_with (lit '' '') parts @ suffix))"

definition badge_value_from_counts :: "badge_state_counts \<Rightarrow> badge_glyphs \<Rightarrow>
    session_badge_mode \<Rightarrow> str \<Rightarrow> bool \<Rightarrow> str option" where
  "badge_value_from_counts c g mode suffix hide_idle =
    (let c = (if hide_idle then c\<lparr>n_idle := 0\<rparr> else c)
     in case mode of Rollup \<Rightarrow> badge_rollup_value c g suffix
        | Counts \<Rightarrow> badge_counts_value c g suffix)"

definition agent_badge_value_from_counts :: "badge_state_counts \<Rightarrow> badge_glyphs \<Rightarrow>
    agent_badge_config \<Rightarrow> str option" where
  "agent_badge_value_from_counts c g config =
    badge_value_from_counts c g (abc_mode config) (abc_suffix config) (abc_hide_idle config)"

section \<open>The badge of a pane\<close>

datatype presentation_reason =
  CanonicalReason | HookAuthoritative | ProviderResynchronized | AgentAbsent | CanonicalActive
| ScreenWorking | ScreenApproval | ScreenQuestion | ScreenTrust | ScreenUpdate
| UnreadCompletion | UnknownScreen | TranscriptViewer | EvidenceUnavailable | EvidenceExpired
| ObservationTimeInvalid | EpochMismatch

record presentation_explanation =
  pe_reason :: presentation_reason
  pe_observed_at :: "i64 option"
  pe_ttl_seconds :: "i64 option"

definition explain :: "presentation_reason \<Rightarrow> presentation_explanation" where
  "explain reason = \<lparr>pe_reason = reason, pe_observed_at = None, pe_ttl_seconds = None\<rparr>"

definition SCREEN_EVIDENCE_TTL_SECONDS :: i64 where "SCREEN_EVIDENCE_TTL_SECONDS = 3"

definition resolve_badge :: "pane_state \<Rightarrow> badge_state" where
  "resolve_badge s = (case ps_lifecycle s of
      Waiting reason \<Rightarrow> if is_usage_limit reason then Limited else Blocked
    | Error _ \<Rightarrow> Blocked
    | Running \<Rightarrow> Working
    | Idle \<Rightarrow> (case latest_unread (ps_unread s) of
          Some latest \<Rightarrow> if uo_reason latest = UnreadCompleted then Done else IdleBadge
        | None \<Rightarrow> IdleBadge))"

definition canonical_reason :: "pane_state \<Rightarrow> capture_tracker_snapshot \<Rightarrow>
    presentation_reason option" where
  "canonical_reason s tracker =
    (if \<not> is_codex (ps_agent s) then Some CanonicalReason
     else if ct_hook_authoritative tracker then Some HookAuthoritative
     else if \<not> ps_agent_present s then Some AgentAbsent
     else if ps_lifecycle s \<noteq> Idle then Some CanonicalActive
     else None)"

fun modal_reason :: "modal \<Rightarrow> presentation_reason" where
  "modal_reason Approval = ScreenApproval"
| "modal_reason SynchronousQuestion = ScreenQuestion"
| "modal_reason TrustDirectory = ScreenTrust"
| "modal_reason StartupUpdate = ScreenUpdate"

definition idle_verified :: "capture_tracker_snapshot \<Rightarrow> i64 \<Rightarrow> bool" where
  "idle_verified tracker now = (case ct_codex_idle_verified_at tracker of None \<Rightarrow> False
     | Some at \<Rightarrow> 0 \<le> saturating_sub_i64 now at
         \<and> saturating_sub_i64 now at \<le> SCREEN_EVIDENCE_TTL_SECONDS)"

text \<open>
  The \<open>if\<close> chain of the evidence: \<open>Inr\<close> is an early return of a badge with its reason,
  \<open>Inl\<close> the \<open>unavailable_reason\<close>.
\<close>

definition screen_badge :: "pane_state \<Rightarrow> capture_tracker_snapshot \<Rightarrow> i64 \<Rightarrow>
    presentation_reason + (badge_state \<times> presentation_reason)" where
  "screen_badge s tracker now =
    (if ct_epoch tracker \<noteq> Some (ps_state_id s, ps_agent_epoch s) then Inl EpochMismatch
     else case ct_codex_screen tracker of
       Some (ev, at) \<Rightarrow>
         (if now < at then Inl ObservationTimeInvalid
          else if saturating_sub_i64 now at > SCREEN_EVIDENCE_TTL_SECONDS then Inl EvidenceExpired
          else if ev_transcript_viewer ev then Inl TranscriptViewer
          else (case ev_modal ev of
              Some modal \<Rightarrow> Inr (Blocked, modal_reason modal)
            | None \<Rightarrow>
                if ev_working ev then Inr (Working, ScreenWorking)
                else if idle_verified tracker now
                then Inr (resolve_badge s, ProviderResynchronized)
                else Inl UnknownScreen))
     | None \<Rightarrow> (case ct_codex_screen_expired_at tracker of
           Some at \<Rightarrow> Inl (if now < at then ObservationTimeInvalid else EvidenceExpired)
         | None \<Rightarrow> Inl EvidenceUnavailable))"

definition evidence_observed_at :: "pane_state \<Rightarrow> capture_tracker_snapshot \<Rightarrow> i64 option" where
  "evidence_observed_at s tracker =
    (if ct_epoch tracker = Some (ps_state_id s, ps_agent_epoch s)
     then (case ct_codex_screen tracker of Some (_, at) \<Rightarrow> Some at
           | None \<Rightarrow> ct_codex_screen_expired_at tracker)
     else None)"

definition resolve_presentation_with_explanation :: "pane_state \<Rightarrow> capture_tracker_snapshot \<Rightarrow>
    i64 \<Rightarrow> badge_state \<times> presentation_explanation" where
  "resolve_presentation_with_explanation s tracker now =
    (let canonical = resolve_badge s;
         explanation = (\<lambda>reason. \<lparr>pe_reason = reason,
           pe_observed_at = evidence_observed_at s tracker,
           pe_ttl_seconds = Some SCREEN_EVIDENCE_TTL_SECONDS\<rparr>)
     in case canonical_reason s tracker of
          Some reason \<Rightarrow> (canonical, explain reason)
        | None \<Rightarrow> (case screen_badge s tracker now of
              Inr (badge, reason) \<Rightarrow> (badge, explanation reason)
            | Inl unavailable \<Rightarrow>
                if canonical = Done then (Done, explain UnreadCompletion)
                else (UnknownBadge, explanation unavailable)))"

definition resolve_presentation :: "pane_state \<Rightarrow> capture_tracker_snapshot \<Rightarrow> i64 \<Rightarrow> badge_state" where
  "resolve_presentation s tracker now = fst (resolve_presentation_with_explanation s tracker now)"

section \<open>Laws of the counts\<close>

lemmas counts_simps = counts_default_def merge_counts_def counts_total_def

definition count_of :: "badge_state \<Rightarrow> badge_state_counts \<Rightarrow> nat" where
  "count_of b c = the (map_of (count_entries c) b)"

lemma count_of_push [simp]: "count_of b (push c a) = count_of b c + (if a = b then 1 else 0)"
  by (cases a; cases b) (simp_all add: count_of_def count_entries_def)

lemma count_of_from_states: "count_of b (from_states states) = count_list states b"
proof -
  have "count_of b (foldl push c states) = count_of b c + count_list states b" for c
    by (induction states arbitrary: c) auto
  moreover have "count_of b counts_default = 0"
    by (cases b) (simp_all add: count_of_def count_entries_def counts_default_def)
  ultimately show ?thesis by (simp add: from_states_def)
qed

lemma count_of_merge: "count_of b (merge_counts c d) = count_of b c + count_of b d"
  by (cases b) (simp_all add: count_of_def count_entries_def merge_counts_def)

lemma counts_eqI: "(\<And>b. count_of b c = count_of b d) \<Longrightarrow> c = d"
proof -
  assume eq: "\<And>b. count_of b c = count_of b d"
  show "c = d"
    using eq [of Blocked] eq [of Limited] eq [of Working] eq [of Done] eq [of UnknownBadge]
      eq [of IdleBadge]
    by (cases c; cases d) (simp add: count_of_def count_entries_def)
qed

lemma counts_total_push [simp]: "counts_total (push c b) = Suc (counts_total c)"
  by (cases b) (simp_all add: counts_total_def)

lemma counts_total_from_states: "counts_total (from_states states) = length states"
proof -
  have "counts_total (foldl push c states) = counts_total c + length states" for c
    by (induction states arbitrary: c) auto
  then show ?thesis by (simp add: from_states_def counts_simps)
qed

lemma from_states_append: "from_states (xs @ ys) = merge_counts (from_states xs) (from_states ys)"
  by (rule counts_eqI) (simp add: count_of_from_states count_of_merge)

text \<open>The rollup is the least state with a positive count.\<close>

lemma rollup_state_count:
  "rollup_state c = Some b \<longleftrightarrow> 0 < count_of b c \<and> (\<forall>a. 0 < count_of a c \<longrightarrow> b \<le> a)"
proof -
  have all: "(\<forall>a. P a) \<longleftrightarrow> P Blocked \<and> P Limited \<and> P Working \<and> P Done \<and> P UnknownBadge \<and> P IdleBadge"
    for P using badge_state.exhaust by metis
  show ?thesis
    by (cases b) (auto simp: rollup_state_def count_of_def count_entries_def all
        less_eq_badge_state_def)
qed

lemma rollup_state_None: "rollup_state c = None \<longleftrightarrow> (\<forall>a. count_of a c = 0)"
proof
  assume "\<forall>a. count_of a c = 0"
  then show "rollup_state c = None" using rollup_state_count [of c] by (cases "rollup_state c") auto
next
  assume none: "rollup_state c = None"
  show "\<forall>a. count_of a c = 0"
  proof
    fix a
    show "count_of a c = 0"
      using none by (cases a)
        (auto simp: rollup_state_def count_of_def count_entries_def split: if_splits)
  qed
qed

text \<open>
  C17. The state shown for a group of panes is the most urgent of their states, in the
  order blocked, limited, working, done, unknown, idle; nothing is shown for no panes.
\<close>

theorem rollup_most_urgent:
  "rollup_state (from_states states) =
    (if states = [] then None else Some (Min (set states)))"
proof (cases "states = []")
  case True
  then show ?thesis by (simp add: rollup_state_None count_of_from_states)
next
  case False
  then have "rollup_state (from_states states) = Some (Min (set states))"
    by (simp add: rollup_state_count count_of_from_states count_list_0_iff zero_less_iff_neq_zero)
  with False show ?thesis by simp
qed

theorem counts_merge_panes:
  "counts_total (merge_counts (from_states xs) (from_states ys)) = length xs + length ys
   \<and> rollup_state (merge_counts (from_states xs) (from_states ys)) =
      rollup_state (from_states (xs @ ys))"
  using counts_total_from_states [of "xs @ ys"] by (simp add: from_states_append)

lemma count_entries_positive:
  "filter (\<lambda>(_, count). count > 0) (count_entries c) = [] \<longleftrightarrow> rollup_state c = None"
  by (auto simp: rollup_state_def find_None_iff filter_empty_conv)

theorem badge_modes_agree:
  "badge_value_from_counts c g Rollup suffix hide = None \<longleftrightarrow>
   badge_value_from_counts c g Counts suffix hide = None"
  using count_entries_positive [of c] count_entries_positive [of "c\<lparr>n_idle := 0\<rparr>"]
  by (simp add: badge_value_from_counts_def badge_rollup_value_def badge_counts_value_def Let_def
      split: option.splits)

section \<open>Laws of the presentation\<close>

lemma canonical_None:
  "canonical_reason s tracker = None \<longleftrightarrow> is_codex (ps_agent s)
     \<and> \<not> ct_hook_authoritative tracker \<and> ps_agent_present s \<and> ps_lifecycle s = Idle"
  by (simp add: canonical_reason_def)

text \<open>Screen evidence that may be shown: of this epoch, not from the future, not expired.\<close>

definition fresh_evidence :: "pane_state \<Rightarrow> capture_tracker_snapshot \<Rightarrow> i64 \<Rightarrow> evidence \<Rightarrow> bool" where
  "fresh_evidence s tracker now ev \<longleftrightarrow> ct_epoch tracker = Some (ps_state_id s, ps_agent_epoch s)
     \<and> (\<exists>at. ct_codex_screen tracker = Some (ev, at) \<and> at \<le> now
          \<and> now - at \<le> SCREEN_EVIDENCE_TTL_SECONDS)"

lemma saturating_ttl: "saturating_sub_i64 a b \<le> SCREEN_EVIDENCE_TTL_SECONDS \<longleftrightarrow>
   a - b \<le> SCREEN_EVIDENCE_TTL_SECONDS"
  by (auto simp: saturating_sub_i64_def SCREEN_EVIDENCE_TTL_SECONDS_def i64_min_def i64_max_def)

lemma screen_badge_fresh:
  assumes "screen_badge s tracker now = Inr (badge, reason)"
  shows "\<exists>ev. fresh_evidence s tracker now ev \<and> \<not> ev_transcript_viewer ev
    \<and> (badge = (case ev_modal ev of Some _ \<Rightarrow> Blocked
         | None \<Rightarrow> if ev_working ev then Working else resolve_badge s))
    \<and> (ev_modal ev = None \<and> \<not> ev_working ev \<longrightarrow> idle_verified tracker now)"
  using assms saturating_ttl
  by (auto simp: screen_badge_def fresh_evidence_def not_less split: option.splits if_splits)

text \<open>
  The displayed badge differs from the canonical one only for an idle Codex pane
  without authoritative hooks, and then it is unknown, or it is what a fresh screen of
  this epoch shows: blocked on a dialog, working on a working screen.
\<close>

theorem presentation_differs_only_on_fresh_screen:
  assumes "resolve_presentation s tracker now \<noteq> resolve_badge s"
  shows "is_codex (ps_agent s) \<and> \<not> ct_hook_authoritative tracker \<and> ps_agent_present s
    \<and> ps_lifecycle s = Idle
    \<and> (resolve_presentation s tracker now = UnknownBadge
       \<or> (\<exists>ev. fresh_evidence s tracker now ev \<and> \<not> ev_transcript_viewer ev
            \<and> (resolve_presentation s tracker now = Blocked \<and> ev_modal ev \<noteq> None
               \<or> resolve_presentation s tracker now = Working \<and> ev_modal ev = None
                 \<and> ev_working ev)))"
proof -
  from assms have none: "canonical_reason s tracker = None"
    by (cases "canonical_reason s tracker")
      (auto simp: resolve_presentation_def resolve_presentation_with_explanation_def)
  show ?thesis
  proof (cases "screen_badge s tracker now")
    case (Inl reason)
    with assms none canonical_None [of s tracker] show ?thesis
      by (auto simp: resolve_presentation_def resolve_presentation_with_explanation_def Let_def
          split: if_splits)
  next
    case (Inr br)
    obtain badge reason where br: "br = (badge, reason)" by (cases br)
    with Inr none have shown: "resolve_presentation s tracker now = badge"
      by (simp add: resolve_presentation_def resolve_presentation_with_explanation_def Let_def)
    from screen_badge_fresh [OF Inr [unfolded br]] assms none canonical_None [of s tracker]
    show ?thesis unfolding shown by (auto split: option.splits if_splits)
  qed
qed

theorem idle_shown_only_when_verified:
  assumes "resolve_presentation s tracker now = IdleBadge" and "is_codex (ps_agent s)"
    and "ps_agent_present s" and "\<not> ct_hook_authoritative tracker"
  shows "\<exists>ev. fresh_evidence s tracker now ev \<and> ev_modal ev = None \<and> \<not> ev_working ev
    \<and> \<not> ev_transcript_viewer ev \<and> idle_verified tracker now"
proof -
  have idle: "ps_lifecycle s = Idle"
  proof (rule ccontr)
    assume "ps_lifecycle s \<noteq> Idle"
    with assms show False
      by (auto simp: resolve_presentation_def resolve_presentation_with_explanation_def
          canonical_reason_def resolve_badge_def split: lifecycle_state.splits if_splits)
  qed
  with assms(2-4) have none: "canonical_reason s tracker = None" by (simp add: canonical_None)
  with assms(1) obtain badge reason where inr: "screen_badge s tracker now = Inr (badge, reason)"
    "badge = IdleBadge"
    by (cases "screen_badge s tracker now")
      (auto simp: resolve_presentation_def resolve_presentation_with_explanation_def Let_def
        split: if_splits prod.splits)
  from screen_badge_fresh [OF inr(1)] inr(2) show ?thesis
    by (auto split: option.splits if_splits)
qed

end
