(* ===== verification/AgentModel.thy ===== *)
theory AgentModel
  imports PaneModel
begin

text \<open>
  The durable run and operation records of \<open>src/src/agent_state/model.rs\<close> with their
  validity, and the provider observations of \<open>src/src/hook/provider.rs\<close> that the run
  reducer consumes. Parameters stand for external code: \<open>H\<close> for the hexadecimal digest
  of \<open>sha2\<close>, \<open>J\<close> for the length of \<open>serde_json\<close>'s encoding of the evidence, \<open>B64\<close>
  for the encoder of the crate \<open>base64\<close>, and an \<open>entropy\<close> argument for the bytes (or
  the error) of \<open>getrandom\<close>.
\<close>

section \<open>Limits\<close>

definition PRIVATE_STATE_FORMAT_VERSION :: u16 where "PRIVATE_STATE_FORMAT_VERSION = 1"
definition RUN_EVIDENCE_MAX_BYTES :: nat where "RUN_EVIDENCE_MAX_BYTES = 8 * 1024"
definition RUN_EVENT_REFERENCE_MAX_COUNT :: nat where "RUN_EVENT_REFERENCE_MAX_COUNT = 16"
definition RESPONSE_ARTIFACT_BODY_MAX_BYTES :: nat where
  "RESPONSE_ARTIFACT_BODY_MAX_BYTES = 512 * 1024"
definition VIEWPORT_FINGERPRINT_CONVENTION_VERSION :: u16 where
  "VIEWPORT_FINGERPRINT_CONVENTION_VERSION = 1"
definition REASON_MAX_BYTES :: nat where "REASON_MAX_BYTES = 1024"

lemmas run_limits = PRIVATE_STATE_FORMAT_VERSION_def RUN_EVIDENCE_MAX_BYTES_def
  RUN_EVENT_REFERENCE_MAX_COUNT_def RESPONSE_ARTIFACT_BODY_MAX_BYTES_def
  VIEWPORT_FINGERPRINT_CONVENTION_VERSION_def REASON_MAX_BYTES_def

section \<open>Identifiers\<close>

definition hex_digit :: "nat \<Rightarrow> nat" where
  "hex_digit d = (if d < 10 then 48 + d else 87 + d)"

definition hex_byte :: "u8 \<Rightarrow> str" where
  "hex_byte b = [hex_digit (unat b div 16), hex_digit (unat b mod 16)]"

definition random_hex_128 :: "str + u8 list \<Rightarrow> message + str" where
  "random_hex_128 entropy =
    bind_r (map_err (MsgValue ''failed to obtain OS randomness: '') entropy) (\<lambda>bytes.
      Inr (concat (map hex_byte bytes)))"

type_synonym state_generation = str
type_synonym stable_run_id = str
type_synonym operation_id = str
type_synonym resolution_id = str
type_synonym sha256_digest = str

definition random_id_parse :: "string \<Rightarrow> str \<Rightarrow> message + str" where
  "random_id_parse label' value = bind_r (validate_random_id value label') (\<lambda>_. Inr value)"

definition is_ascii_alphanumeric :: "nat \<Rightarrow> bool" where
  "is_ascii_alphanumeric c \<longleftrightarrow> is_digit c \<or> is_lower c \<or> (65 \<le> c \<and> c \<le> 90)"

definition validate_caller_id :: "str \<Rightarrow> string \<Rightarrow> message + unit" where
  "validate_caller_id value field =
    fail_if (\<not> (16 \<le> text_len value \<and> text_len value \<le> 128)
             \<or> \<not> list_all (\<lambda>c. is_ascii_alphanumeric c \<or> c = 95 \<or> c = 45) value)
      (Msg (field @ '' must be 16 to 128 ASCII [A-Za-z0-9_-] characters''))"

definition operation_id_parse :: "str \<Rightarrow> message + operation_id" where
  "operation_id_parse value = bind_r (validate_caller_id value ''operation ID'') (\<lambda>_. Inr value)"

definition resolution_id_parse :: "str \<Rightarrow> message + resolution_id" where
  "resolution_id_parse value = bind_r (validate_caller_id value ''resolution ID'') (\<lambda>_. Inr value)"

definition sha256_digest_parse :: "str \<Rightarrow> message + sha256_digest" where
  "sha256_digest_parse value =
    (if text_len value \<noteq> 64 \<or> \<not> list_all is_lower_hex value
     then Inl (Msg ''invalid SHA-256 digest'') else Inr value)"

text \<open>This module's own \<open>validate_required_text\<close>: not blank means not empty here.\<close>

definition run_required_text :: "str \<Rightarrow> string \<Rightarrow> nat \<Rightarrow> message + unit" where
  "run_required_text value field max_bytes =
    fail_if (value = [] \<or> text_len value > max_bytes \<or> list_ex is_control value)
      (Msg (''invalid '' @ field))"

section \<open>State metadata and bindings\<close>

datatype state_meta_status = Ready | Resetting

record state_meta =
  sm_state_format_version :: u16
  sm_status :: state_meta_status
  sm_generation :: state_generation
  sm_target_generation :: "state_generation option"

definition state_meta_validate :: "state_meta \<Rightarrow> message + unit" where
  "state_meta_validate m =
    (if sm_state_format_version m \<noteq> PRIVATE_STATE_FORMAT_VERSION
     then Inl (Msg (''unsupported private state format version ''
                    @ decimal (unat (sm_state_format_version m))))
     else case (sm_status m, sm_target_generation m) of
         (Ready, None) \<Rightarrow> Inr ()
       | (Resetting, Some target) \<Rightarrow>
           if target \<noteq> sm_generation m then Inr ()
           else Inl (Msg ''invalid state generation metadata'')
       | _ \<Rightarrow> Inl (Msg ''invalid state generation metadata''))"

definition state_meta_new_ready :: "str + u8 list \<Rightarrow> message + state_meta" where
  "state_meta_new_ready entropy = bind_r (random_hex_128 entropy) (\<lambda>generation.
     Inr \<lparr>sm_state_format_version = PRIVATE_STATE_FORMAT_VERSION, sm_status = Ready,
       sm_generation = generation, sm_target_generation = None\<rparr>)"

definition state_meta_resetting ::
  "state_generation \<Rightarrow> state_generation \<Rightarrow> message + state_meta" where
  "state_meta_resetting generation target =
    (let meta = \<lparr>sm_state_format_version = PRIVATE_STATE_FORMAT_VERSION, sm_status = Resetting,
           sm_generation = generation, sm_target_generation = Some target\<rparr>
     in bind_r (state_meta_validate meta) (\<lambda>_. Inr meta))"

record server_identity =
  si_pid :: u32
  si_start_time :: i64

record agent_binding =
  ab_server_identity :: server_identity
  ab_pane_instance :: pane_instance
  ab_pane_state_id :: state_id
  ab_agent_epoch :: u64
  ab_agent_kind :: agent_kind
  ab_provider_session_id :: agent_session_id
  ab_process :: agent_process_identity

definition server_identity_check :: "server_identity \<Rightarrow> message + unit" where
  "server_identity_check i = fail_if (si_pid i = 0 \<or> si_start_time i < 0)
     (Msg ''invalid tmux server identity'')"

definition agent_binding_validate :: "agent_binding \<Rightarrow> message + unit" where
  "agent_binding_validate b = first_error
    [server_identity_check (ab_server_identity b),
     pane_instance_validate (ab_pane_instance b),
     fail_if (ab_agent_epoch b = 0) (Msg ''agent epoch must be positive''),
     agent_process_validate (ab_process b)]"

record operation_binding =
  ob_server_identity :: server_identity
  ob_pane_instance :: pane_instance
  ob_pane_state_id :: state_id
  ob_agent_epoch :: u64
  ob_agent_kind :: agent_kind
  ob_provider_session_id :: "agent_session_id option"
  ob_process :: agent_process_identity

definition operation_binding_validate :: "operation_binding \<Rightarrow> message + unit" where
  "operation_binding_validate b = first_error
    [server_identity_check (ob_server_identity b),
     pane_instance_validate (ob_pane_instance b),
     fail_if (ob_agent_epoch b = 0) (Msg ''agent epoch must be positive''),
     agent_process_validate (ob_process b)]"

definition is_provider_session_pending :: "operation_binding \<Rightarrow> bool" where
  "is_provider_session_pending b \<longleftrightarrow> ob_provider_session_id b = None"

definition operation_binding_from :: "agent_binding \<Rightarrow> operation_binding" where
  "operation_binding_from b = \<lparr>ob_server_identity = ab_server_identity b,
     ob_pane_instance = ab_pane_instance b, ob_pane_state_id = ab_pane_state_id b,
     ob_agent_epoch = ab_agent_epoch b, ob_agent_kind = ab_agent_kind b,
     ob_provider_session_id = Some (ab_provider_session_id b), ob_process = ab_process b\<rparr>"

section \<open>Resolutions and recovery\<close>

datatype execution_phase = PhaseRunning | PhaseWaiting | PhaseError | PhaseEnded
datatype semantic_outcome = Unresolved | Completed
datatype resolution_kind = ProviderCompleted | OperatorCompleted

record operator_audit =
  oa_actor_uid :: u32
  oa_actor_pid :: u32
  oa_reason :: str
  oa_reason_digest :: sha256_digest
  oa_pre_revision :: u64
  oa_post_revision :: u64
  oa_observed_at :: i64

definition saturating_inc :: "u64 \<Rightarrow> u64" where
  "saturating_inc n = (if n = - 1 then n else n + 1)"

definition operator_audit_validate :: "(u8 list \<Rightarrow> str) \<Rightarrow> operator_audit \<Rightarrow> message + unit" where
  "operator_audit_validate H a = first_error
    [run_required_text (oa_reason a) ''operator reason'' REASON_MAX_BYTES,
     fail_if (oa_reason_digest a \<noteq> H (utf8 (oa_reason a))) (Msg ''operator reason digest mismatch''),
     fail_if (oa_actor_pid a = 0 \<or> oa_post_revision a \<noteq> saturating_inc (oa_pre_revision a)
              \<or> oa_observed_at a < 0)
       (Msg ''invalid operator audit fields'')]"

record run_resolution =
  rr_resolution_id :: resolution_id
  rr_kind :: resolution_kind
  rr_resolved_at :: i64
  rr_operator_audit :: "operator_audit option"

definition run_resolution_validate :: "(u8 list \<Rightarrow> str) \<Rightarrow> run_resolution \<Rightarrow> message + unit" where
  "run_resolution_validate H r =
    (if rr_resolved_at r < 0 then Inl (Msg ''resolution timestamp must be non-negative'')
     else case (rr_kind r, rr_operator_audit r) of
         (ProviderCompleted, None) \<Rightarrow> Inr ()
       | (OperatorCompleted, Some audit) \<Rightarrow> operator_audit_validate H audit
       | _ \<Rightarrow> Inl (Msg ''resolution and operator audit disagree''))"

datatype recovery_process_expectation =
  ExpectExactAbsent
| ExpectReplacedBy agent_process_identity
| ExpectExactPresentStable agent_process_identity

fun recovery_process_validate :: "recovery_process_expectation \<Rightarrow> message + unit" where
  "recovery_process_validate ExpectExactAbsent = Inr ()"
| "recovery_process_validate (ExpectReplacedBy p) = agent_process_validate p"
| "recovery_process_validate (ExpectExactPresentStable p) = agent_process_validate p"

record recovery_pane_fence =
  rf_state_id :: state_id
  rf_revision :: u64
  rf_current_run :: current_durable_run_projection
  rf_lifecycle :: lifecycle_state
  rf_subagent_count :: u32

definition recovery_pane_fence_validate :: "recovery_pane_fence \<Rightarrow> message + unit" where
  "recovery_pane_fence_validate f = first_error
    [current_run_validate (rf_current_run f),
     fail_if (rf_revision f = 0 \<or> rf_subagent_count f \<noteq> 0) (Msg ''invalid recovery pane fence''),
     fail_if (is_waiting (rf_lifecycle f)) (Msg ''a waiting pane cannot be operator-completed'')]"

record recovery_viewport_fingerprint =
  vf_convention_version :: u16
  vf_pane_width :: u16
  vf_pane_height :: u16
  vf_digest :: sha256_digest

definition viewport_fingerprint_validate :: "recovery_viewport_fingerprint \<Rightarrow> message + unit" where
  "viewport_fingerprint_validate f =
    fail_if (vf_convention_version f \<noteq> VIEWPORT_FINGERPRINT_CONVENTION_VERSION
             \<or> vf_pane_width f = 0 \<or> vf_pane_height f = 0)
      (Msg ''invalid recovery viewport fingerprint'')"

definition saturating_add_i64 :: "i64 \<Rightarrow> i64 \<Rightarrow> i64" where
  "saturating_add_i64 a b = max i64_min (min i64_max (a + b))"

record recovery_precondition =
  rp_run_ref :: str
  rp_binding :: agent_binding
  rp_run_revision :: u64
  rp_evidence_digest :: sha256_digest
  rp_pane :: recovery_pane_fence
  rp_viewport_fingerprint :: "recovery_viewport_fingerprint option"
  rp_process_expectation :: recovery_process_expectation
  rp_issued_at :: i64
  rp_expires_at :: i64

definition recovery_precondition_validate :: "recovery_precondition \<Rightarrow> message + unit" where
  "recovery_precondition_validate p = first_error
    [run_required_text (rp_run_ref p) ''run reference'' (IDENTIFIER_MAX_BYTES * 4),
     agent_binding_validate (rp_binding p),
     recovery_pane_fence_validate (rp_pane p),
     recovery_process_validate (rp_process_expectation p),
     fail_if (rf_state_id (rp_pane p) \<noteq> ab_pane_state_id (rp_binding p))
       (Msg ''recovery pane state ID disagrees with binding''),
     (case (rp_process_expectation p, rp_viewport_fingerprint p) of
        (ExpectExactPresentStable _, Some fp) \<Rightarrow> viewport_fingerprint_validate fp
      | (ExpectExactPresentStable _, None) \<Rightarrow>
          Inl (Msg ''exact-present recovery requires a viewport fingerprint'')
      | (_, None) \<Rightarrow> Inr ()
      | (_, Some _) \<Rightarrow>
          Inl (Msg ''only exact-present recovery may carry a viewport fingerprint'')),
     fail_if (rp_run_revision p = 0 \<or> rp_issued_at p < 0
              \<or> rp_expires_at p \<noteq> saturating_add_i64 (rp_issued_at p) 60)
       (Msg ''invalid recovery precondition revision or validity window'')]"

section \<open>Evidence and artifacts\<close>

record provider_event_reference =
  pr_event_ref :: str
  pr_ingress_request_id :: str
  pr_payload_digest :: sha256_digest
  pr_disposition :: str
  pr_receipt :: str
  pr_count :: u32
  pr_first_observed_at :: i64
  pr_last_observed_at :: i64

definition provider_event_validate :: "provider_event_reference \<Rightarrow> message + unit" where
  "provider_event_validate e = first_error
    [run_required_text (pr_event_ref e) ''provider event reference'' IDENTIFIER_MAX_BYTES,
     run_required_text (pr_ingress_request_id e) ''ingress request ID'' IDENTIFIER_MAX_BYTES,
     run_required_text (pr_disposition e) ''provider event disposition'' IDENTIFIER_MAX_BYTES,
     run_required_text (pr_receipt e) ''provider event receipt'' IDENTIFIER_MAX_BYTES,
     fail_if (pr_count e = 0 \<or> pr_first_observed_at e < 0
              \<or> pr_last_observed_at e < pr_first_observed_at e)
       (Msg ''invalid provider event observation'')]"

record run_evidence_summary =
  re_provider_events :: "provider_event_reference list"
  re_activity_count :: u64
  re_permission_request_count :: u64
  re_user_input_request_count :: u64
  re_process_absence_count :: u64
  re_terminal_still_count :: u64
  re_first_observed_at :: "i64 option"
  re_last_observed_at :: "i64 option"

definition run_evidence_default :: run_evidence_summary where
  "run_evidence_default = \<lparr>re_provider_events = [], re_activity_count = 0,
     re_permission_request_count = 0, re_user_input_request_count = 0,
     re_process_absence_count = 0, re_terminal_still_count = 0,
     re_first_observed_at = None, re_last_observed_at = None\<rparr>"

text \<open>\<open>J\<close> is the encoder's result: the length of the encoding, or its error.\<close>

type_synonym evidence_encoder = "run_evidence_summary \<Rightarrow> str + nat"

definition run_evidence_validate :: "evidence_encoder \<Rightarrow> run_evidence_summary \<Rightarrow> message + unit" where
  "run_evidence_validate J e = first_error
    [fail_if (length (re_provider_events e) > RUN_EVENT_REFERENCE_MAX_COUNT)
       (Msg ''too many provider event references''),
     first_error (map provider_event_validate (re_provider_events e)),
     (case (re_first_observed_at e, re_last_observed_at e) of
        (None, None) \<Rightarrow> Inr ()
      | (Some earliest, Some latest) \<Rightarrow>
          fail_if (\<not> (earliest \<ge> 0 \<and> latest \<ge> earliest)) (Msg ''invalid evidence observation range'')
      | _ \<Rightarrow> Inl (Msg ''invalid evidence observation range'')),
     bind_r (map_err (MsgValue ''failed to encode run evidence: '') (J e)) (\<lambda>n.
       fail_if (n > RUN_EVIDENCE_MAX_BYTES) (Msg ''run evidence exceeds the 8 KiB limit''))]"

datatype provider_completeness = ProviderComplete | ProviderUnknown
datatype artifact_store_completeness =
  StoreComplete | StoreTruncated | StoreUnavailable | StoreExpired

record response_artifact_metadata =
  am_run_id :: stable_run_id
  am_operation_id :: "operation_id option"
  am_provider_session_id :: agent_session_id
  am_observed_process :: agent_process_identity
  am_original_byte_count :: u64
  am_stored_byte_count :: u64
  am_original_digest :: sha256_digest
  am_stored_digest :: "sha256_digest option"
  am_provider_completeness :: provider_completeness
  am_store_completeness :: artifact_store_completeness
  am_source :: str
  am_encoding :: str
  am_observed_at :: i64
  am_file_name :: "str option"

definition artifact_file_name :: "stable_run_id \<Rightarrow> str" where
  "artifact_file_name run_id = run_id @ lit ''.response''"

definition artifact_metadata_validate :: "response_artifact_metadata \<Rightarrow> message + unit" where
  "artifact_metadata_validate m = first_error
    [agent_process_validate (am_observed_process m),
     run_required_text (am_source m) ''artifact source'' IDENTIFIER_MAX_BYTES,
     fail_if (am_encoding m \<noteq> lit ''utf-8'' \<or> am_observed_at m < 0)
       (Msg ''invalid response artifact encoding or time''),
     (if am_store_completeness m = StoreComplete \<or> am_store_completeness m = StoreTruncated
      then fail_if (am_stored_digest m = None
          \<or> am_file_name m \<noteq> Some (artifact_file_name (am_run_id m))
          \<or> am_stored_byte_count m > of_nat RESPONSE_ARTIFACT_BODY_MAX_BYTES
          \<or> (am_store_completeness m = StoreComplete
             \<and> (am_stored_byte_count m \<noteq> am_original_byte_count m
                \<or> am_stored_digest m \<noteq> Some (am_original_digest m)))
          \<or> (am_store_completeness m = StoreTruncated
             \<and> am_stored_byte_count m \<ge> am_original_byte_count m))
        (Msg ''invalid stored response artifact metadata'')
      else if am_store_completeness m = StoreUnavailable
      then fail_if (am_file_name m \<noteq> None
          \<or> \<not> (case am_stored_digest m of None \<Rightarrow> am_stored_byte_count m = 0
             | Some _ \<Rightarrow> am_stored_byte_count m \<le> of_nat RESPONSE_ARTIFACT_BODY_MAX_BYTES
                 \<and> am_stored_byte_count m \<le> am_original_byte_count m))
        (Msg ''unavailable artifact has invalid candidate metadata'')
      else fail_if (am_file_name m \<noteq> None) (Msg ''expired artifact must not reference a body''))]"

section \<open>Run records\<close>

record run_record =
  run_state_format_version :: u16
  run_generation :: state_generation
  run_run_id :: stable_run_id
  run_run_seq :: u64
  run_revision :: u64
  run_binding :: agent_binding
  run_provider_turn_key :: "str option"
  run_operation_id :: "operation_id option"
  run_execution_phase :: execution_phase
  run_semantic_outcome :: semantic_outcome
  run_evidence :: run_evidence_summary
  run_resolution :: "run_resolution option"
  run_artifact :: "response_artifact_metadata option"
  run_created_at :: i64
  run_updated_at :: i64

definition run_artifact_check :: "run_record \<Rightarrow> response_artifact_metadata \<Rightarrow> message + unit" where
  "run_artifact_check r artifact = first_error
    [artifact_metadata_validate artifact,
     fail_if (am_run_id artifact \<noteq> run_run_id r \<or> am_operation_id artifact \<noteq> run_operation_id r)
       (Msg ''artifact identity disagrees with run''),
     fail_if (run_semantic_outcome r \<noteq> Completed)
       (Msg ''unresolved run must not have a response artifact'')]"

definition run_record_validate ::
  "(u8 list \<Rightarrow> str) \<Rightarrow> evidence_encoder \<Rightarrow> run_record \<Rightarrow> message + unit" where
  "run_record_validate H J r = first_error
    [fail_if (run_state_format_version r \<noteq> PRIVATE_STATE_FORMAT_VERSION)
       (Msg ''run record state format mismatch''),
     agent_binding_validate (run_binding r),
     fail_if (run_run_seq r = 0 \<or> run_created_at r < 0 \<or> run_updated_at r < run_created_at r
         \<or> (case run_provider_turn_key r of None \<Rightarrow> False
            | Some key \<Rightarrow> \<not> is_ok (run_required_text key ''provider turn key'' IDENTIFIER_MAX_BYTES)))
       (Msg ''invalid run record identity or time''),
     run_evidence_validate J (run_evidence r),
     (case (run_execution_phase r, run_semantic_outcome r, run_resolution r) of
        (_, Unresolved, None) \<Rightarrow> Inr ()
      | (PhaseEnded, Completed, Some resolution) \<Rightarrow> run_resolution_validate H resolution
      | _ \<Rightarrow> Inl (Msg ''invalid run phase/outcome/resolution combination'')),
     check_opt (run_artifact_check r) (run_artifact r)]"

definition execution_active :: "run_record \<Rightarrow> bool" where
  "execution_active r \<longleftrightarrow> run_semantic_outcome r = Unresolved \<and> run_execution_phase r \<noteq> PhaseEnded"

section \<open>Operation records\<close>

datatype dispatch_state = Prepared | DispatchStarted | PromptConfirmed | DeliveryUnknown | Rejected

record operation_result_receipt =
  or_code :: str
  or_observed_at :: i64
  or_confirmation_basis :: "str option"
  or_source_attribution :: "str option"

definition operation_receipt_validate :: "operation_result_receipt \<Rightarrow> message + unit" where
  "operation_receipt_validate r = first_error
    [run_required_text (or_code r) ''operation receipt code'' IDENTIFIER_MAX_BYTES,
     fail_if (or_observed_at r < 0) (Msg ''invalid operation receipt timestamp''),
     check_opt (\<lambda>v. run_required_text v ''confirmation basis'' IDENTIFIER_MAX_BYTES)
       (or_confirmation_basis r),
     check_opt (\<lambda>v. run_required_text v ''source attribution'' IDENTIFIER_MAX_BYTES)
       (or_source_attribution r)]"

definition operator_abandon :: "str \<Rightarrow> i64 \<Rightarrow> message + operation_result_receipt" where
  "operator_abandon reason observed_at =
    (if trim reason = [] then Inl (Msg ''abandon reason must not be blank'')
     else bind_r (run_required_text reason ''abandon reason'' (IDENTIFIER_MAX_BYTES - 9)) (\<lambda>_.
       let receipt = \<lparr>or_code = lit ''operator_abandoned'', or_observed_at = observed_at,
             or_confirmation_basis = None,
             or_source_attribution = Some (lit ''operator:'' @ reason)\<rparr>
       in bind_r (operation_receipt_validate receipt) (\<lambda>_. Inr receipt)))"

record operation_record =
  op_state_format_version :: u16
  op_generation :: state_generation
  op_operation_id :: operation_id
  op_revision :: u64
  op_request_fingerprint :: sha256_digest
  op_target_agent_ref :: str
  op_prompt_digest :: sha256_digest
  op_dispatch_option :: str
  op_binding :: operation_binding
  op_expected_pane_version :: state_version
  op_expected_current_run :: "current_durable_run_projection option"
  op_expected_run_seq :: u64
  op_confirmation_deadline_at :: i64
  op_dispatch_state :: dispatch_state
  op_run_id :: "stable_run_id option"
  op_result_receipt :: "operation_result_receipt option"
  op_created_at :: i64
  op_updated_at :: i64

definition operator_abandoned :: "operation_record \<Rightarrow> bool" where
  "operator_abandoned r \<longleftrightarrow> op_dispatch_state r = DeliveryUnknown
     \<and> (case op_result_receipt r of None \<Rightarrow> False
        | Some receipt \<Rightarrow> or_code receipt = lit ''operator_abandoned'')"

definition dispatch_fenced :: "operation_record \<Rightarrow> bool" where
  "dispatch_fenced r \<longleftrightarrow> (op_dispatch_state r = Prepared \<or> op_dispatch_state r = DispatchStarted
     \<or> op_dispatch_state r = DeliveryUnknown) \<and> \<not> operator_abandoned r"

definition prompt_staging_required :: "operation_record \<Rightarrow> bool" where
  "prompt_staging_required r \<longleftrightarrow>
     op_dispatch_state r = Prepared \<or> op_dispatch_state r = DispatchStarted"

definition in_flight :: "operation_record \<Rightarrow> bool" where
  "in_flight r \<longleftrightarrow> op_dispatch_state r = Prepared \<or> op_dispatch_state r = DispatchStarted"

definition abandoned_receipt_invalid :: "operation_record \<Rightarrow> operation_result_receipt \<Rightarrow> bool" where
  "abandoned_receipt_invalid r receipt \<longleftrightarrow> or_code receipt = lit ''operator_abandoned''
     \<and> (\<not> operator_abandoned r \<or> op_run_id r \<noteq> None \<or> or_confirmation_basis receipt \<noteq> None
        \<or> \<not> (case or_source_attribution receipt of None \<Rightarrow> False
             | Some source \<Rightarrow> (case strip_prefix (lit ''operator:'') source of None \<Rightarrow> False
                 | Some reason \<Rightarrow> trim reason \<noteq> [])))"

definition operation_record_validate :: "operation_record \<Rightarrow> message + unit" where
  "operation_record_validate r = first_error
    [fail_if (op_state_format_version r \<noteq> PRIVATE_STATE_FORMAT_VERSION)
       (Msg ''operation record state format mismatch''),
     operation_binding_validate (op_binding r),
     fail_if (sv_state_id (op_expected_pane_version r) \<noteq> ob_pane_state_id (op_binding r)
              \<or> sv_agent_epoch (op_expected_pane_version r) \<noteq> ob_agent_epoch (op_binding r))
       (Msg ''operation pane precondition disagrees with Agent Binding''),
     check_opt current_run_validate (op_expected_current_run r),
     run_required_text (op_target_agent_ref r) ''target agent reference'' IDENTIFIER_MAX_BYTES,
     run_required_text (op_dispatch_option r) ''dispatch option'' IDENTIFIER_MAX_BYTES,
     fail_if (op_expected_run_seq r = 0 \<or> op_created_at r < 0
              \<or> op_updated_at r < op_created_at r
              \<or> op_confirmation_deadline_at r < op_created_at r)
       (Msg ''invalid operation record sequence or time''),
     (case (op_dispatch_state r, op_run_id r, op_result_receipt r) of
        (Prepared, None, None) \<Rightarrow> Inr ()
      | (DispatchStarted, None, None) \<Rightarrow> Inr ()
      | (PromptConfirmed, Some _, Some receipt) \<Rightarrow> operation_receipt_validate receipt
      | (DeliveryUnknown, _, Some receipt) \<Rightarrow> operation_receipt_validate receipt
      | (Rejected, _, Some receipt) \<Rightarrow> operation_receipt_validate receipt
      | _ \<Rightarrow> Inl (Msg ''invalid operation state/receipt combination'')),
     fail_if (case op_result_receipt r of None \<Rightarrow> False
              | Some receipt \<Rightarrow> abandoned_receipt_invalid r receipt)
       (Msg ''invalid abandoned operation receipt''),
     fail_if (ob_provider_session_id (op_binding r) = None
              \<and> (\<not> is_codex (ob_agent_kind (op_binding r)) \<or> op_dispatch_state r = PromptConfirmed))
       (Msg ''only an unconfirmed Codex operation may have a pending provider session'')]"

section \<open>Provider observations\<close>

datatype provider_hook_kind =
  HookSessionStart | HookUserPromptSubmit | HookActivity | HookWaiting | HookStop

record response_candidate =
  cand_original_bytes :: u64
  cand_original_digest :: str
  cand_stored_bytes :: u64
  cand_stored_digest :: str
  cand_body_base64 :: str
  cand_truncated :: bool
  cand_provider_completeness :: provider_completeness

text \<open>
  \<open>utf8_suffix\<close>: the loop moves \<open>start\<close> up to the next character boundary. The
  comparison with the length only makes the recursion total: the length is a boundary.
\<close>

function next_boundary :: "str \<Rightarrow> nat \<Rightarrow> nat" where
  "next_boundary s start =
    (if is_char_boundary s start \<or> text_len s \<le> start then start
     else next_boundary s (start + 1))"
  by auto

termination
  by (relation "measure (\<lambda>(s, start). text_len s - start)") auto

declare next_boundary.simps [simp del]

text \<open>The slice \<open>s[i..]\<close> at a character boundary.\<close>

fun byte_suffix :: "str \<Rightarrow> nat \<Rightarrow> str" where
  "byte_suffix [] i = []"
| "byte_suffix (c # cs) i = (if i = 0 then c # cs else byte_suffix cs (i - utf8_len c))"

definition utf8_suffix :: "str \<Rightarrow> nat \<Rightarrow> str" where
  "utf8_suffix s limit =
    (if text_len s \<le> limit then s else byte_suffix s (next_boundary s (text_len s - limit)))"

definition response_candidate_from_body :: "(u8 list \<Rightarrow> str) \<Rightarrow> (u8 list \<Rightarrow> str) \<Rightarrow> str \<Rightarrow>
    provider_completeness \<Rightarrow> response_candidate" where
  "response_candidate_from_body H B64 body completeness =
    (let stored = utf8_suffix body RESPONSE_ARTIFACT_BODY_MAX_BYTES
     in \<lparr>cand_original_bytes = of_nat (text_len body), cand_original_digest = H (utf8 body),
         cand_stored_bytes = of_nat (text_len stored), cand_stored_digest = H (utf8 stored),
         cand_body_base64 = B64 (utf8 stored),
         cand_truncated = (text_len stored \<noteq> text_len body),
         cand_provider_completeness = completeness\<rparr>)"

text \<open>
  The field \<open>question_resolver\<close> belongs to the question notices and is not read by the
  run reducer; it is left out.
\<close>

record provider_observation =
  obs_ingress_request_id :: str
  obs_provider :: agent_kind
  obs_session_id :: agent_session_id
  obs_hook_kind :: provider_hook_kind
  obs_provider_turn_key :: "str option"
  obs_provider_event_ref :: "str option"
  obs_payload_digest :: str
  obs_prompt_digest :: "str option"
  obs_response :: "response_candidate option"
  obs_observed_at :: i64

definition can_start_run :: "provider_observation \<Rightarrow> bool" where
  "can_start_run ob \<longleftrightarrow> obs_hook_kind ob = HookUserPromptSubmit
     \<or> (is_codex (obs_provider ob) \<and> obs_provider_turn_key ob \<noteq> None
        \<and> (obs_hook_kind ob = HookActivity \<or> obs_hook_kind ob = HookWaiting))"

end
