(* ===== verification/PaneStore.thy ===== *)
theory PaneStore
  imports PaneReducer Badge AgentModel BTree "HOL-Library.Product_Lexorder"
begin

text \<open>
  The canonical state of all panes, \<open>src/src/pane_state/store.rs\<close>: the records, what the
  daemon derives from their changes (transitions, notifications, triage, flash), and the
  operations that change them. A write to the records is saved before it becomes visible.

  Parameters: \<open>P\<close> for the length of the \<open>serde_json\<close> encoding that \<open>preflight_projection\<close>
  measures, \<open>S\<close> for the implementation of the trait \<open>PaneSnapshotStoreIo\<close>, and the bytes
  of \<open>getrandom\<close>. Some operations leave a changed runtime behind with an error, so every
  operation returns the runtime with its result.
\<close>

section \<open>Errors and derived records\<close>

definition MAX_DIAGNOSTICS :: nat where "MAX_DIAGNOSTICS = 256"
definition MAX_NOTIFICATION_JOBS :: nat where "MAX_NOTIFICATION_JOBS = 64"
definition MAX_RESPONSE_FRAME_BYTES :: nat where "MAX_RESPONSE_FRAME_BYTES = 16 * 1024 * 1024"

datatype store_error =
  StateTooLarge
| StoreInvalidPaneInstance
| StoreStaleStateIdentity
| WriterLeaseHeld
| PersistFailed message
| FailStop message
| StoreCounterOverflow string
| ReduceFailed reduce_error
| RandomFailed message

fun requires_daemon_exit :: "store_error \<Rightarrow> bool" where
  "requires_daemon_exit (FailStop _) = True"
| "requires_daemon_exit (StoreCounterOverflow _) = True"
| "requires_daemon_exit (ReduceFailed (CounterOverflow _)) = True"
| "requires_daemon_exit _ = False"

record pane_state_diagnostic =
  dg_pane_instance :: pane_instance
  dg_message :: str

record canonical_transition =
  tr_pane_instance :: pane_instance
  tr_agent :: "agent_kind option"
  tr_from :: "badge_state option"
  tr_to :: "badge_state option"
  tr_at_epoch :: i64
  tr_state_version :: "state_version option"
  tr_run_seq :: u64
  tr_completed_seq :: u64
  tr_prompt_digest :: "str option"
  tr_prompt_submitted :: bool

record canonical_notification =
  nt_pane_instance :: pane_instance
  nt_state_version :: state_version

record apply_result =
  ar_outcome :: reduction_outcome
  ar_state_version :: "state_version option"
  ar_snapshot_revision :: u64

record observation_dispatch_snapshot =
  od_pane_instance :: pane_instance
  od_base :: "stored_state_descriptor option"
  od_tracker :: capture_tracker_snapshot
  od_state :: "pane_state option"

record pane_read_apply_result =
  prr_committed :: nat
  prr_snapshot_revision :: u64

type_synonym pane_records = "(pane_key \<times> pane_state) list"

record state_runtime =
  rt_records :: pane_records
  rt_trackers :: "(pane_key \<times> capture_tracker_snapshot) list"
  rt_diagnostics :: "pane_state_diagnostic list"
  rt_transitions :: "canonical_transition list"
  rt_notification_jobs :: "canonical_notification list"
  rt_notification_generations :: "(pane_key \<times> state_version) list"
  rt_triage :: "(pane_key \<times> badge_state) list"
  rt_triage_calm_polls :: "(pane_key \<times> u8) list"
  rt_flash :: "(pane_key \<times> u8) list"
  rt_snapshot_revision :: u64
  rt_latest_unread_order :: u64
  rt_snapshot_frame_too_large :: bool
  rt_fail_stopped :: bool

definition runtime_default :: state_runtime where
  "runtime_default = \<lparr>rt_records = [], rt_trackers = [], rt_diagnostics = [],
     rt_transitions = [], rt_notification_jobs = [], rt_notification_generations = [],
     rt_triage = [], rt_triage_calm_polls = [], rt_flash = [], rt_snapshot_revision = 0,
     rt_latest_unread_order = 0, rt_snapshot_frame_too_large = False, rt_fail_stopped = False\<rparr>"

text \<open>A step that returns the runtime with its result; \<open>?\<close> stops at an error.\<close>

fun and_then :: "'s \<times> ('e + 'a) \<Rightarrow> ('s \<Rightarrow> 'a \<Rightarrow> 's \<times> ('e + 'b)) \<Rightarrow> 's \<times> ('e + 'b)" where
  "and_then (s, Inl e) f = (s, Inl e)"
| "and_then (s, Inr a) f = f s a"

text \<open>\<open>push_back\<close> with the loop that drops from the front.\<close>

definition push_bounded :: "nat \<Rightarrow> 'a \<Rightarrow> 'a list \<Rightarrow> 'a list" where
  "push_bounded n x xs = newest n (xs @ [x])"

section \<open>Queries\<close>

definition record_badge :: "pane_state option \<Rightarrow> badge_state option" where
  "record_badge s = map_option resolve_badge s"

definition latest_order :: "pane_state \<Rightarrow> u64" where
  "latest_order s = (case un_latest (ps_unread s) of None \<Rightarrow> 0 | Some l \<Rightarrow> uo_order l)"

definition rt_tracker :: "state_runtime \<Rightarrow> pane_key \<Rightarrow> capture_tracker_snapshot" where
  "rt_tracker rt k = (case bm_get (rt_trackers rt) k of None \<Rightarrow> tracker_default | Some t \<Rightarrow> t)"

definition descriptor :: "state_runtime \<Rightarrow> pane_key \<Rightarrow> stored_state_descriptor option" where
  "descriptor rt k = map_option (\<lambda>s. Canonical (version s)) (bm_get (rt_records rt) k)"

definition tracked_panes :: "state_runtime \<Rightarrow> pane_key list" where
  "tracked_panes rt = remdups_adj (sort (map fst (rt_records rt) @ map fst (rt_trackers rt)))"

definition freeze_observation_dispatch ::
  "pane_instance list \<Rightarrow> state_runtime \<Rightarrow> observation_dispatch_snapshot list" where
  "freeze_observation_dispatch panes rt =
    sort_key (\<lambda>o'. pane_key_of (od_pane_instance o')) (map (\<lambda>p.
      \<lparr>od_pane_instance = p, od_base = descriptor rt (pane_key_of p),
       od_tracker = rt_tracker rt (pane_key_of p),
       od_state = bm_get (rt_records rt) (pane_key_of p)\<rparr>) panes)"

definition notification_is_current :: "canonical_notification \<Rightarrow> state_runtime \<Rightarrow> bool" where
  "notification_is_current n rt \<longleftrightarrow> \<not> rt_fail_stopped rt
   \<and> bm_get (rt_notification_generations rt) (pane_key_of (nt_pane_instance n))
      = Some (nt_state_version n)
   \<and> (case bm_get (rt_records rt) (pane_key_of (nt_pane_instance n)) of None \<Rightarrow> False
      | Some s \<Rightarrow> ps_agent_present s \<and> ps_state_id s = sv_state_id (nt_state_version n)
          \<and> ps_agent_epoch s = sv_agent_epoch (nt_state_version n)
          \<and> resolve_badge s = Blocked)"

section \<open>Checks of the projection\<close>

fun check_records :: "(u8 list \<Rightarrow> str) \<Rightarrow> u64 set \<Rightarrow> pane_records \<Rightarrow> store_error + unit" where
  "check_records H orders [] = Inr ()"
| "check_records H orders ((k, s) # rs) =
    (if pane_key_of (ps_pane_instance s) \<noteq> k
     then Inl (PersistFailed (Msg ''canonical cache key and pane instance disagree''))
     else bind_r (map_err PersistFailed (pane_state_validate H s)) (\<lambda>_.
       case un_latest (ps_unread s) of
         None \<Rightarrow> check_records H orders rs
       | Some l \<Rightarrow> if uo_order l \<in> orders
           then Inl (PersistFailed (Msg ''duplicate unread occurrence order''))
           else check_records H (insert (uo_order l) orders) rs))"

definition collections_bounded :: "state_runtime \<Rightarrow> bool" where
  "collections_bounded rt \<longleftrightarrow> length (rt_transitions rt) \<le> MAX_DIAGNOSTICS
   \<and> length (rt_diagnostics rt) \<le> MAX_DIAGNOSTICS
   \<and> length (rt_notification_jobs rt) \<le> MAX_NOTIFICATION_JOBS
   \<and> length (rt_notification_generations rt) \<le> MAX_DIAGNOSTICS
   \<and> length (rt_triage rt) \<le> MAX_DIAGNOSTICS
   \<and> length (rt_triage_calm_polls rt) \<le> MAX_DIAGNOSTICS
   \<and> length (rt_flash rt) \<le> MAX_DIAGNOSTICS"

definition validate_projection :: "(u8 list \<Rightarrow> str) \<Rightarrow> state_runtime \<Rightarrow> store_error + unit" where
  "validate_projection H rt =
    bind_r (check_records H {} (rt_records rt)) (\<lambda>_.
      fail_if (\<not> collections_bounded rt)
        (PersistFailed (Msg ''projection collection exceeds configured bound'')))"

type_synonym preflight_encoder = "u64 \<Rightarrow> pane_state list \<Rightarrow> canonical_transition list \<Rightarrow>
  pane_state_diagnostic list \<Rightarrow> str + nat"

definition FRAME_DIAGNOSTIC :: str where
  "FRAME_DIAGNOSTIC = lit ''resolved snapshot exceeds frame limit''"

definition preflight_projection :: "preflight_encoder \<Rightarrow> state_runtime \<Rightarrow>
    state_runtime \<times> (store_error + bool)" where
  "preflight_projection P rt =
    (case P (rt_snapshot_revision rt) (map snd (rt_records rt)) (rt_transitions rt)
        (rt_diagnostics rt) of
       Inl e \<Rightarrow> (rt, Inl (PersistFailed (MsgValue '''' e)))
     | Inr size' \<Rightarrow>
         let too_large = (size' > MAX_RESPONSE_FRAME_BYTES);
             pane = (case rt_records rt of [] \<Rightarrow> \<lparr>pane_id = lit ''%0'', pane_pid = 1\<rparr>
               | (k, _) # _ \<Rightarrow> \<lparr>pane_id = fst k, pane_pid = snd k\<rparr>);
             diagnostics = (if too_large \<and>
                 \<not> list_ex (\<lambda>d. dg_message d = FRAME_DIAGNOSTIC) (rt_diagnostics rt)
               then rt_diagnostics rt
                 @ [\<lparr>dg_pane_instance = pane, dg_message = FRAME_DIAGNOSTIC\<rparr>]
               else rt_diagnostics rt)
         in (rt\<lparr>rt_snapshot_frame_too_large := too_large,
                rt_diagnostics := newest MAX_DIAGNOSTICS diagnostics\<rparr>,
             Inr (rt_snapshot_frame_too_large rt \<noteq> too_large)))"

definition bump_snapshot_revision :: "state_runtime \<Rightarrow> state_runtime \<times> (store_error + unit)" where
  "bump_snapshot_revision rt =
    (case checked_inc (StoreCounterOverflow ''snapshot revision'') (rt_snapshot_revision rt) of
       Inl e \<Rightarrow> (rt, Inl e) | Inr n \<Rightarrow> (rt\<lparr>rt_snapshot_revision := n\<rparr>, Inr ()))"

text \<open>\<open>validate_projection()?\<close> followed by \<open>let _ = preflight_projection(..)?\<close>.\<close>

definition settle :: "(u8 list \<Rightarrow> str) \<Rightarrow> preflight_encoder \<Rightarrow> state_runtime \<Rightarrow>
    state_runtime \<times> (store_error + unit)" where
  "settle H P rt = and_then (rt, validate_projection H rt) (\<lambda>rt _.
     and_then (preflight_projection P rt) (\<lambda>rt _. (rt, Inr ())))"

definition bump_and_settle :: "(u8 list \<Rightarrow> str) \<Rightarrow> preflight_encoder \<Rightarrow> state_runtime \<Rightarrow>
    state_runtime \<times> (store_error + unit)" where
  "bump_and_settle H P rt = and_then (bump_snapshot_revision rt) (\<lambda>rt _. settle H P rt)"

text \<open>The operations on a clone: the draft replaces the runtime only when all went well.\<close>

definition commit_draft :: "state_runtime \<Rightarrow> state_runtime \<times> (store_error + 'a) \<Rightarrow>
    state_runtime \<times> (store_error + 'a)" where
  "commit_draft rt outcome = (case snd outcome of Inl e \<Rightarrow> (rt, Inl e) | Inr _ \<Rightarrow> outcome)"

section \<open>Hydration\<close>

definition max_order :: "pane_records \<Rightarrow> u64" where
  "max_order records = foldl (\<lambda>m e. case un_latest (ps_unread (snd e)) of
     None \<Rightarrow> m | Some l \<Rightarrow> max m (uo_order l)) 0 records"

definition collect_panes :: "(pane_state \<Rightarrow> 'v option) \<Rightarrow> pane_records \<Rightarrow> (pane_key \<times> 'v) list" where
  "collect_panes f records = foldl (\<lambda>m e. case f (snd e) of None \<Rightarrow> m
     | Some v \<Rightarrow> bm_insert (fst e) v m) [] records"

definition hydrate :: "(u8 list \<Rightarrow> str) \<Rightarrow> pane_records \<Rightarrow> store_error + state_runtime" where
  "hydrate H records =
    (let rt = runtime_default\<lparr>rt_records := records, rt_latest_unread_order := max_order records\<rparr>;
         blocked = (\<lambda>s. resolve_badge s = Blocked)
     in bind_r (validate_projection H rt) (\<lambda>_.
       Inr (rt\<lparr>rt_trackers := collect_panes (\<lambda>s. Some (tracker_default
              \<lparr>ct_epoch := Some (ps_state_id s, ps_agent_epoch s),
               ct_last_agent_process := ps_agent_process s\<rparr>)) records,
            rt_notification_generations :=
              collect_panes (\<lambda>s. if blocked s then Some (version s) else None) records,
            rt_triage := collect_panes (\<lambda>s. if blocked s then Some Blocked else None) records\<rparr>)))"

section \<open>What a change of a record leads to\<close>

definition moved_epoch :: "pane_state option \<Rightarrow> pane_state option \<Rightarrow> bool" where
  "moved_epoch previous current = (case (previous, current) of
     (Some before, Some after) \<Rightarrow> ps_state_id before \<noteq> ps_state_id after
       \<or> ps_agent_epoch before \<noteq> ps_agent_epoch after
   | _ \<Rightarrow> False)"

definition discarded_completion :: "pane_state option \<Rightarrow> pane_state option \<Rightarrow> bool" where
  "discarded_completion previous current = (case (previous, current) of
     (Some before, Some after) \<Rightarrow> resolve_badge before = Done
       \<and> (ps_state_id before \<noteq> ps_state_id after \<or> ps_agent_epoch before \<noteq> ps_agent_epoch after
          \<or> ps_agent before \<noteq> ps_agent after
          \<or> ps_agent_session_id before \<noteq> ps_agent_session_id after)
   | _ \<Rightarrow> False)"

definition first_some :: "'a option \<Rightarrow> 'a option \<Rightarrow> 'a option" where
  "first_some x y = (case x of None \<Rightarrow> y | Some _ \<Rightarrow> x)"

definition candidate_transition :: "pane_instance \<Rightarrow> pane_state option \<Rightarrow> pane_state option \<Rightarrow>
    pane_event \<Rightarrow> i64 \<Rightarrow> canonical_transition" where
  "candidate_transition pane previous current event at_epoch =
    (let shown = first_some current previous;
         discarded = discarded_completion previous current
     in \<lparr>tr_pane_instance = pane,
         tr_agent = map_option ps_agent (if discarded then previous else shown),
         tr_from = record_badge previous, tr_to = record_badge current,
         tr_at_epoch = (case previous of
             Some before \<Rightarrow> if discarded
               then or_else (first_some (ps_completed_at before) (ps_started_at before)) at_epoch
               else at_epoch
           | None \<Rightarrow> at_epoch),
         tr_state_version = map_option version current,
         tr_run_seq = (case shown of None \<Rightarrow> 0 | Some s \<Rightarrow> ps_run_seq s),
         tr_completed_seq = (case shown of None \<Rightarrow> 0 | Some s \<Rightarrow> ps_completed_seq s),
         tr_prompt_digest = (case event of
             BeginRun _ (Some prompt) \<Rightarrow> pr_digest prompt | _ \<Rightarrow> None),
         tr_prompt_submitted = (case event of
             BeginRun _ (Some prompt) \<Rightarrow> pr_source prompt = lit ''user'' \<and> pr_digest prompt \<noteq> None
           | _ \<Rightarrow> False)\<rparr>)"

definition OVERFLOW_DIAGNOSTIC :: str where
  "OVERFLOW_DIAGNOSTIC = lit ''notification_queue_overflow: dropped_oldest''"

text \<open>The loop \<open>while self.notification_jobs.len() > 64\<close>.\<close>

function drop_overflow :: "pane_instance \<Rightarrow> canonical_notification list \<Rightarrow>
    pane_state_diagnostic list \<Rightarrow> canonical_notification list \<times> pane_state_diagnostic list" where
  "drop_overflow pane jobs diagnostics =
    (if length jobs > MAX_NOTIFICATION_JOBS
     then drop_overflow pane (tl jobs) (push_bounded MAX_DIAGNOSTICS
       \<lparr>dg_pane_instance = pane, dg_message = OVERFLOW_DIAGNOSTIC\<rparr> diagnostics)
     else (jobs, diagnostics))"
  by auto

termination
  by (relation "measure (\<lambda>(_, jobs, _). length jobs)") (auto simp: MAX_NOTIFICATION_JOBS_def)

declare drop_overflow.simps [simp del]

definition notify_blocked :: "pane_instance \<Rightarrow> state_version \<Rightarrow> state_runtime \<Rightarrow> state_runtime" where
  "notify_blocked pane v rt =
    (let dropped = drop_overflow pane (rt_notification_jobs rt
           @ [\<lparr>nt_pane_instance = pane, nt_state_version = v\<rparr>]) (rt_diagnostics rt)
     in rt\<lparr>rt_notification_generations :=
             bm_insert (pane_key_of pane) v (rt_notification_generations rt),
           rt_notification_jobs := fst dropped, rt_diagnostics := snd dropped\<rparr>)"

definition derive_candidate_projection :: "pane_instance \<Rightarrow> pane_state option \<Rightarrow>
    pane_state option \<Rightarrow> pane_event \<Rightarrow> i64 \<Rightarrow> state_runtime \<Rightarrow> state_runtime" where
  "derive_candidate_projection pane previous current event at_epoch rt =
    (let key = pane_key_of pane;
         badge = record_badge current;
         rt = (if badge \<noteq> Some Blocked \<or> moved_epoch previous current
           then rt\<lparr>rt_notification_generations :=
             bm_remove key (rt_notification_generations rt)\<rparr> else rt);
         rt = rt\<lparr>rt_transitions := push_bounded MAX_DIAGNOSTICS
           (candidate_transition pane previous current event at_epoch) (rt_transitions rt)\<rparr>;
         rt = (if record_badge previous \<noteq> badge
           then (let rt = rt\<lparr>rt_flash := bm_insert key 2 (rt_flash rt)\<rparr>
             in case current of
                  Some s \<Rightarrow> if resolve_badge s = Blocked then notify_blocked pane (version s) rt else rt
                | None \<Rightarrow> rt)
           else rt)
     in if badge = Some Blocked
        then rt\<lparr>rt_triage := bm_insert key Blocked (rt_triage rt),
               rt_triage_calm_polls := bm_remove key (rt_triage_calm_polls rt)\<rparr>
        else rt)"

section \<open>Applying an event\<close>

text \<open>\<open>transition_at_epoch\<close> repeats the arms of \<open>event_epoch\<close> of the reducer.\<close>

fun transition_at_epoch :: "pane_event \<Rightarrow> pane_state option \<Rightarrow> i64" where
  "transition_at_epoch (ClaudeToolResultObserved observed_at _ _) c = observed_at"
| "transition_at_epoch (ClaudeTaskNotificationsObserved observed_at _) c = observed_at"
| "transition_at_epoch (ClaudeStopped observed_at _ _ _) c = observed_at"
| "transition_at_epoch (ClaudeSessionEnded observed_at) c = observed_at"
| "transition_at_epoch (AgentSessionStarted observed_at _ _) c = observed_at"
| "transition_at_epoch (ActivityObserved observed_at) c = observed_at"
| "transition_at_epoch (ActivityAndProgressObserved observed_at _) c = observed_at"
| "transition_at_epoch (WaitRequested observed_at _) c = observed_at"
| "transition_at_epoch (FailRun observed_at _) c = observed_at"
| "transition_at_epoch (ProgressUpdated observed_at _) c = observed_at"
| "transition_at_epoch (ObservationBatch _ _ observed_at _ _ _) c = observed_at"
| "transition_at_epoch (BeginRun started_at _) c = started_at"
| "transition_at_epoch (CompleteRun completed_at) c = completed_at"
| "transition_at_epoch (ResponseAndCompleteRun completed_at _) c = completed_at"
| "transition_at_epoch (MarkDone _ completed_at) c = completed_at"
| "transition_at_epoch (ExplicitStateReported report) c = er_observed_at report"
| "transition_at_epoch _ c = (case c of None \<Rightarrow> 0
     | Some s \<Rightarrow> or_else (first_some (ps_completed_at s) (ps_started_at s)) 0)"

fun event_can_create_record :: "pane_state option \<Rightarrow> pane_event \<Rightarrow> bool" where
  "event_can_create_record (Some _) event = False"
| "event_can_create_record None (ClaudeToolResultObserved _ _ _) = True"
| "event_can_create_record None (ClaudeTaskNotificationsObserved _ _) = True"
| "event_can_create_record None (ClaudeStopped _ _ _ _) = True"
| "event_can_create_record None (AgentSessionStarted _ _ _) = True"
| "event_can_create_record None (BeginRun _ _) = True"
| "event_can_create_record None (ActivityObserved _) = True"
| "event_can_create_record None (ActivityAndProgressObserved _ _) = True"
| "event_can_create_record None (WaitRequested _ _) = True"
| "event_can_create_record None (FailRun _ _) = True"
| "event_can_create_record None (CompleteRun _) = True"
| "event_can_create_record None (ResponseAndCompleteRun _ _) = True"
| "event_can_create_record None (ExplicitStateReported report) = (case er_lifecycle report of
     Some ReportedIdle \<Rightarrow> er_completed_at report \<noteq> None \<or> er_attention report
   | Some _ \<Rightarrow> True | None \<Rightarrow> False)"
| "event_can_create_record None (ObservationBatch _ _ _ presence _ _) = (case presence of
     Present _ \<Rightarrow> True | _ \<Rightarrow> False)"
| "event_can_create_record None _ = False"

definition state_id_for :: "str + u8 list \<Rightarrow> pane_state option \<Rightarrow> pane_event \<Rightarrow>
    store_error + state_id option" where
  "state_id_for entropy current event =
    (if event_can_create_record current event
     then map_err RandomFailed (bind_r (random_hex_128 entropy) (\<lambda>v. Inr (Some v)))
     else Inr None)"

text \<open>The branch of an outcome without a new record.\<close>

definition public_tracker_change ::
  "capture_tracker_snapshot \<Rightarrow> capture_tracker_snapshot \<Rightarrow> bool" where
  "public_tracker_change tracker next' \<longleftrightarrow> ct_agent_process tracker \<noteq> ct_agent_process next'
   \<or> ct_codex_screen tracker \<noteq> ct_codex_screen next'
   \<or> ct_codex_screen_expired_at tracker \<noteq> ct_codex_screen_expired_at next'
   \<or> ct_hook_authoritative tracker \<noteq> ct_hook_authoritative next'"

definition apply_tracker :: "(u8 list \<Rightarrow> str) \<Rightarrow> preflight_encoder \<Rightarrow> pane_key \<Rightarrow>
    capture_tracker_snapshot option \<Rightarrow> state_runtime \<Rightarrow> state_runtime \<times> (store_error + unit)" where
  "apply_tracker H P key delta rt = (case delta of
      None \<Rightarrow> (rt, Inr ())
    | Some next' \<Rightarrow>
        let changed = public_tracker_change (rt_tracker rt key) next';
            rt = rt\<lparr>rt_trackers := bm_insert key next' (rt_trackers rt)\<rparr>
        in if changed then bump_and_settle H P rt else (rt, Inr ()))"

definition advance_order :: "pane_state \<Rightarrow> state_runtime \<Rightarrow> state_runtime \<times> (store_error + unit)" where
  "advance_order candidate rt =
    (if latest_order candidate > rt_latest_unread_order rt
     then case checked_inc (StoreCounterOverflow ''unread occurrence order'')
            (rt_latest_unread_order rt) of
          Inl e \<Rightarrow> (rt, Inl e)
        | Inr expected \<Rightarrow>
            if latest_order candidate \<noteq> expected
            then (rt, Inl (PersistFailed (Msg ''unread occurrence order is not globally monotonic'')))
            else (rt\<lparr>rt_latest_unread_order := latest_order candidate\<rparr>, Inr ())
     else (rt, Inr ()))"

definition store_record :: "(u8 list \<Rightarrow> str) \<Rightarrow> preflight_encoder \<Rightarrow> pane_event_envelope \<Rightarrow>
    pane_state \<Rightarrow> capture_tracker_snapshot option \<Rightarrow> state_runtime \<Rightarrow>
    state_runtime \<times> (store_error + unit)" where
  "store_record H P envelope candidate delta rt =
    and_then (advance_order candidate rt) (\<lambda>rt _.
      let pane = en_pane_instance envelope;
          key = pane_key_of pane;
          previous = bm_get (rt_records rt) key;
          rt = rt\<lparr>rt_records := bm_insert key candidate (rt_records rt),
                 rt_trackers := (case delta of None \<Rightarrow> rt_trackers rt
                   | Some next' \<Rightarrow> bm_insert key next' (rt_trackers rt))\<rparr>
      in bump_and_settle H P (derive_candidate_projection pane previous (Some candidate)
           (en_event envelope) (transition_at_epoch (en_event envelope) (Some candidate)) rt))"

definition reduction_context_of :: "state_runtime \<Rightarrow> pane_key \<Rightarrow> state_id option \<Rightarrow> bool \<Rightarrow>
    str option \<Rightarrow> reduction_context" where
  "reduction_context_of rt key new_state_id visible secret = \<lparr>rc_pane_visible = visible,
     rc_tracker = rt_tracker rt key, rc_new_state_id = new_state_id,
     rc_latest_unread_order = rt_latest_unread_order rt, rc_private_task_prompt = secret\<rparr>"

text \<open>
  A reduction that changes the record always has one: the \<open>None\<close> branch stands for the
  panic of \<open>expect\<close>.
\<close>

definition apply_event_in_memory :: "(u8 list \<Rightarrow> str) \<Rightarrow> preflight_encoder \<Rightarrow> str + u8 list \<Rightarrow>
    pane_event_envelope \<Rightarrow> bool \<Rightarrow> str option \<Rightarrow> state_runtime \<Rightarrow>
    state_runtime \<times> (store_error + apply_result)" where
  "apply_event_in_memory H P entropy envelope visible secret rt =
    (let key = pane_key_of (en_pane_instance envelope);
         current = bm_get (rt_records rt) key
     in and_then (rt, state_id_for entropy current (en_event envelope)) (\<lambda>rt new_state_id.
        and_then (rt, map_err ReduceFailed (reduce H current envelope
            (reduction_context_of rt key new_state_id visible secret))) (\<lambda>rt reduction.
        if rd_outcome reduction \<noteq> CanonicalChanged
        then and_then (apply_tracker H P key (rd_tracker_delta reduction) rt) (\<lambda>rt _.
          (rt, Inr \<lparr>ar_outcome = rd_outcome reduction,
             ar_state_version = map_option version (bm_get (rt_records rt) key),
             ar_snapshot_revision = rt_snapshot_revision rt\<rparr>))
        else case rd_record reduction of
            None \<Rightarrow> (rt, Inl (FailStop (Msg ''canonical mutation has a state'')))
          | Some candidate \<Rightarrow>
              and_then (store_record H P envelope candidate (rd_tracker_delta reduction) rt) (\<lambda>rt _.
                (rt, Inr \<lparr>ar_outcome = CanonicalChanged,
                   ar_state_version = Some (version candidate),
                   ar_snapshot_revision = rt_snapshot_revision rt\<rparr>)))))"

end
