(* ===== verification/PaneRuntime.thy ===== *)
theory PaneRuntime
  imports PaneStore
begin

text \<open>
  The public operations of \<open>CanonicalStateRuntime\<close> in \<open>src/src/pane_state/store.rs\<close>. The
  saver \<open>S\<close> takes the records and the state \<open>'d\<close> of the storage; its trait is in
  \<open>src/src/pane_state/snapshot.rs\<close>.
\<close>

type_synonym 'd saver = "pane_records \<Rightarrow> 'd \<Rightarrow> 'd \<times> (store_error + unit)"

definition STOPPED :: store_error where
  "STOPPED = FailStop (Msg ''daemon is fail-stopped'')"

text \<open>\<open>io.save(&draft.records)?; *self = draft;\<close>\<close>

definition save_draft :: "'d saver \<Rightarrow> state_runtime \<Rightarrow> 'a \<Rightarrow> state_runtime \<times> 'd \<Rightarrow>
    (state_runtime \<times> 'd) \<times> (store_error + 'a)" where
  "save_draft S draft result st = (case S (rt_records draft) (snd st) of
      (d, Inl e) \<Rightarrow> ((fst st, d), Inl e)
    | (d, Inr _) \<Rightarrow> ((draft, d), Inr result))"

definition apply_event :: "(u8 list \<Rightarrow> str) \<Rightarrow> preflight_encoder \<Rightarrow> 'd saver \<Rightarrow> str + u8 list \<Rightarrow>
    pane_event_envelope \<Rightarrow> bool \<Rightarrow> str option \<Rightarrow> state_runtime \<times> 'd \<Rightarrow>
    (state_runtime \<times> 'd) \<times> (store_error + apply_result)" where
  "apply_event H P S entropy envelope visible secret st =
    (if rt_fail_stopped (fst st) then (st, Inl STOPPED)
     else case apply_event_in_memory H P entropy envelope visible secret (fst st) of
         (_, Inl e) \<Rightarrow> (st, Inl e)
       | (draft, Inr result) \<Rightarrow>
           if ar_outcome result = CanonicalChanged then save_draft S draft result st
           else ((draft, snd st), Inr result))"

definition project_current_run :: "(u8 list \<Rightarrow> str) \<Rightarrow> preflight_encoder \<Rightarrow> 'd saver \<Rightarrow> pane_key \<Rightarrow>
    current_durable_run_projection \<Rightarrow> bool \<Rightarrow> i64 \<Rightarrow> state_runtime \<times> 'd \<Rightarrow>
    (state_runtime \<times> 'd) \<times> (store_error + bool)" where
  "project_current_run H P S key projection active observed_at st =
    (let rt = fst st in
     if rt_fail_stopped rt then (st, Inl STOPPED)
     else case bm_get (rt_records rt) key of
         None \<Rightarrow> (st, Inr False)
       | Some current \<Rightarrow>
         (case reconcile_current_run H current projection active observed_at
              (rt_latest_unread_order rt) of
            Inl e \<Rightarrow> (st, Inl (PersistFailed e))
          | Inr (candidate, changed) \<Rightarrow>
              if \<not> changed then (st, Inr False)
              else case bump_and_settle H P (rt
                  \<lparr>rt_latest_unread_order := max (rt_latest_unread_order rt) (latest_order candidate),
                   rt_records := bm_insert key candidate (rt_records rt)\<rparr>) of
                  (_, Inl e) \<Rightarrow> (st, Inl e)
                | (draft, Inr _) \<Rightarrow> save_draft S draft True st))"

definition remove_absent_pane :: "(u8 list \<Rightarrow> str) \<Rightarrow> preflight_encoder \<Rightarrow> 'd saver \<Rightarrow> pane_key \<Rightarrow>
    stored_state_descriptor option \<Rightarrow> state_runtime \<times> 'd \<Rightarrow>
    (state_runtime \<times> 'd) \<times> (store_error + bool)" where
  "remove_absent_pane H P S key expected st =
    (let rt = fst st in
     if rt_fail_stopped rt then (st, Inl STOPPED)
     else if descriptor rt key \<noteq> expected then (st, Inr False)
     else if bm_get (rt_records rt) key = None \<and> bm_get (rt_trackers rt) key = None
     then (st, Inr False)
     else case bump_and_settle H P (rt
         \<lparr>rt_records := bm_remove key (rt_records rt),
          rt_trackers := bm_remove key (rt_trackers rt),
          rt_triage := bm_remove key (rt_triage rt),
          rt_notification_generations := bm_remove key (rt_notification_generations rt),
          rt_triage_calm_polls := bm_remove key (rt_triage_calm_polls rt),
          rt_flash := bm_remove key (rt_flash rt)\<rparr>) of
         (_, Inl e) \<Rightarrow> (st, Inl e)
       | (draft, Inr _) \<Rightarrow> save_draft S draft True st)"

text \<open>
  The loop of \<open>apply_pane_reads\<close>: the working runtime, the number of committed reads and
  whether anything changed; an error comes with the flag that stops the daemon. An event
  that fails otherwise is skipped with what it left in the working runtime.
\<close>

fun read_panes :: "(u8 list \<Rightarrow> str) \<Rightarrow> preflight_encoder \<Rightarrow> u64 \<Rightarrow> pane_event_envelope list \<Rightarrow>
    state_runtime \<times> nat \<times> bool \<Rightarrow> (store_error \<times> bool) + state_runtime \<times> nat \<times> bool" where
  "read_panes H P revision [] w = Inr w"
| "read_panes H P revision (envelope # envelopes) (working, committed, changed) =
    (case en_event envelope of
       MarkPaneRead _ \<Rightarrow>
         (case apply_event_in_memory H P (Inr []) envelope False None
              (working\<lparr>rt_snapshot_revision := revision\<rparr>) of
            (working, Inr result) \<Rightarrow> read_panes H P revision envelopes
              (working, if ar_outcome result = CanonicalChanged then Suc committed else committed,
               changed \<or> ar_outcome result \<noteq> Noop)
          | (working, Inl e) \<Rightarrow>
              if requires_daemon_exit e then Inl (e, True)
              else read_panes H P revision envelopes (working, committed, changed))
     | _ \<Rightarrow> Inl (ReduceFailed (InvalidRequest
              (Msg ''pane read commit accepts only MarkPaneRead events'')), False))"

definition stop_daemon :: "state_runtime \<Rightarrow> state_runtime" where
  "stop_daemon rt = rt\<lparr>rt_fail_stopped := True\<rparr>"

definition apply_pane_reads :: "(u8 list \<Rightarrow> str) \<Rightarrow> preflight_encoder \<Rightarrow> 'd saver \<Rightarrow>
    pane_event_envelope list \<Rightarrow> state_runtime \<times> 'd \<Rightarrow>
    (state_runtime \<times> 'd) \<times> (store_error + pane_read_apply_result)" where
  "apply_pane_reads H P S envelopes st =
    (let rt = fst st; revision = rt_snapshot_revision rt in
     if rt_fail_stopped rt then (st, Inl STOPPED)
     else case read_panes H P revision envelopes (rt, 0, False) of
         Inl (e, stop) \<Rightarrow> ((if stop then stop_daemon rt else rt, snd st), Inl e)
       | Inr (working, committed, changed) \<Rightarrow>
         (let working = working\<lparr>rt_snapshot_revision := revision\<rparr> in
          case and_then (if changed then bump_snapshot_revision working else (working, Inr ()))
              (\<lambda>working _. settle H P working) of
            (_, Inl e) \<Rightarrow> ((stop_daemon rt, snd st), Inl e)
          | (working, Inr _) \<Rightarrow>
              let result = \<lparr>prr_committed = committed,
                    prr_snapshot_revision = rt_snapshot_revision working\<rparr>
              in if committed > 0 then save_draft S working result st
                 else ((working, snd st), Inr result)))"

section \<open>Operations on the derived state\<close>

definition note_codex_binding_rejected :: "pane_key \<Rightarrow> state_version \<Rightarrow> agent_process_identity \<Rightarrow>
    state_runtime \<Rightarrow> state_runtime \<times> (store_error + bool)" where
  "note_codex_binding_rejected key expected process rt =
    (case bm_get (rt_records rt) key of
       None \<Rightarrow> (rt, Inr False)
     | Some record' \<Rightarrow>
         if version record' \<noteq> expected \<or> \<not> is_codex (ps_agent record')
            \<or> \<not> ps_agent_present record' \<or> ps_agent_process record' \<noteq> Some process
         then (rt, Inr False)
         else
           let rejection = \<lparr>cbr_state_id = ps_state_id record',
                 cbr_agent_epoch = ps_agent_epoch record', cbr_process = process\<rparr>;
               tracker = rt_tracker rt key
           in if ct_codex_binding_rejected tracker = Some rejection then (rt, Inr False)
              else case checked_inc (StoreCounterOverflow ''capture tracker generation'')
                  (ct_generation tracker) of
                  Inl e \<Rightarrow> (rt, Inl e)
                | Inr n \<Rightarrow> (rt\<lparr>rt_trackers := bm_insert key (tracker\<lparr>ct_generation := n,
                    ct_epoch := Some (ps_state_id record', ps_agent_epoch record'),
                    ct_codex_binding_rejected := Some rejection\<rparr>) (rt_trackers rt)\<rparr>, Inr True))"

text \<open>One round of the two loops of \<open>advance_poll_projection\<close>, with \<open>visible_changed\<close>.\<close>

definition calm_poll :: "state_runtime \<times> bool \<Rightarrow> pane_key \<Rightarrow> state_runtime \<times> bool" where
  "calm_poll st key = (let rt = fst st in
     if record_badge (bm_get (rt_records rt) key) = Some Blocked
     then (rt\<lparr>rt_triage_calm_polls := bm_remove key (rt_triage_calm_polls rt)\<rparr>, snd st)
     else
       let count = (case bm_get (rt_triage_calm_polls rt) key of None \<Rightarrow> 0 | Some n \<Rightarrow> n);
           count = (if count = - 1 then count else count + 1)
       in if count \<ge> 2
          then (rt\<lparr>rt_triage := bm_remove key (rt_triage rt),
                  rt_triage_calm_polls := bm_remove key (rt_triage_calm_polls rt)\<rparr>, True)
          else (rt\<lparr>rt_triage_calm_polls := bm_insert key count (rt_triage_calm_polls rt)\<rparr>, snd st))"

definition flash_poll :: "state_runtime \<times> bool \<Rightarrow> pane_key \<Rightarrow> state_runtime \<times> bool" where
  "flash_poll st key = (let rt = fst st;
       remaining = (case bm_get (rt_flash rt) key of None \<Rightarrow> 0 | Some n \<Rightarrow> n)
     in if remaining \<le> 1 then (rt\<lparr>rt_flash := bm_remove key (rt_flash rt)\<rparr>, True)
        else (rt\<lparr>rt_flash := bm_insert key (remaining - 1) (rt_flash rt)\<rparr>, snd st))"

definition advance_poll_projection :: "(u8 list \<Rightarrow> str) \<Rightarrow> preflight_encoder \<Rightarrow> state_runtime \<Rightarrow>
    state_runtime \<times> (store_error + bool)" where
  "advance_poll_projection H P rt =
    (let st = foldl calm_poll (rt, False) (map fst (rt_triage rt));
         st = foldl flash_poll st (map fst (rt_flash (fst st)))
     in commit_draft rt (and_then
          (if snd st then bump_and_settle H P (fst st) else settle H P (fst st))
          (\<lambda>rt _. (rt, Inr (snd st)))))"

definition screen_expired :: "i64 \<Rightarrow> capture_tracker_snapshot \<Rightarrow> bool" where
  "screen_expired now tracker = (case ct_codex_screen tracker of None \<Rightarrow> False
     | Some (_, at) \<Rightarrow> \<not> (0 \<le> saturating_sub_i64 now at
         \<and> saturating_sub_i64 now at \<le> SCREEN_EVIDENCE_TTL_SECONDS))"

definition expire_screen_evidence :: "i64 \<Rightarrow> state_runtime \<Rightarrow> state_runtime \<times> (store_error + unit)" where
  "expire_screen_evidence now rt =
    (let rt' = rt\<lparr>rt_trackers := bm_map_values (\<lambda>_ tracker. if screen_expired now tracker
           then tracker\<lparr>ct_codex_screen_expired_at := map_option snd (ct_codex_screen tracker),
                  ct_codex_screen := None\<rparr>
           else tracker) (rt_trackers rt)\<rparr>
     in if list_ex (\<lambda>e. screen_expired now (snd e)) (rt_trackers rt)
        then bump_snapshot_revision rt' else (rt', Inr ()))"

definition push_diagnostic :: "(u8 list \<Rightarrow> str) \<Rightarrow> preflight_encoder \<Rightarrow> pane_instance \<Rightarrow> str \<Rightarrow>
    state_runtime \<Rightarrow> state_runtime \<times> (store_error + unit)" where
  "push_diagnostic H P pane text' rt = commit_draft rt (bump_and_settle H P
     (rt\<lparr>rt_diagnostics := push_bounded MAX_DIAGNOSTICS
       \<lparr>dg_pane_instance = pane, dg_message = text'\<rparr> (rt_diagnostics rt)\<rparr>))"

definition mark_projection_changed :: "(u8 list \<Rightarrow> str) \<Rightarrow> preflight_encoder \<Rightarrow> state_runtime \<Rightarrow>
    state_runtime \<times> (store_error + u64)" where
  "mark_projection_changed H P rt = commit_draft rt (and_then (bump_and_settle H P rt)
     (\<lambda>rt _. (rt, Inr (rt_snapshot_revision rt))))"

definition finish_sequenced_projection :: "(u8 list \<Rightarrow> str) \<Rightarrow> preflight_encoder \<Rightarrow>
    pane_instance option \<Rightarrow> str list \<Rightarrow> bool \<Rightarrow> u64 \<Rightarrow> state_runtime \<Rightarrow>
    state_runtime \<times> (store_error + u64)" where
  "finish_sequenced_projection H P diagnostic_pane messages projection_changed revision_before rt =
    (let draft = (case diagnostic_pane of None \<Rightarrow> rt
           | Some pane \<Rightarrow> rt\<lparr>rt_diagnostics := foldl (\<lambda>ds m. push_bounded MAX_DIAGNOSTICS
               \<lparr>dg_pane_instance = pane, dg_message = m\<rparr> ds) (rt_diagnostics rt) messages\<rparr>);
         changed = (projection_changed \<or> (diagnostic_pane \<noteq> None \<and> messages \<noteq> []));
         bump = (\<lambda>rt. if rt_snapshot_revision rt = revision_before then bump_snapshot_revision rt
           else (rt, Inr ()))
     in commit_draft rt
       (and_then (if changed then bump draft else (draft, Inr ())) (\<lambda>rt _.
        and_then (rt, validate_projection H rt) (\<lambda>rt _.
        and_then (preflight_projection P rt) (\<lambda>rt preflight_changed.
        and_then (if preflight_changed \<and> rt_snapshot_revision rt = revision_before
            then and_then (bump_snapshot_revision rt) (\<lambda>rt _. preflight_projection P rt)
            else (rt, Inr preflight_changed)) (\<lambda>rt _.
          (rt, Inr (rt_snapshot_revision rt))))))))"

end
