(* ===== verification/PaneLaws.thy ===== *)
theory PaneLaws
  imports PaneReducer
begin

text \<open>
  What every operation of the pane reducer keeps: the identity of the record, the order of
  the epochs and the unread history. The lemmas follow the operations in the order of the
  code; the reducer's theorems are in theory PaneTheorems.
\<close>

named_theorems frame_rules \<open>frame facts of the pane operations\<close>

section \<open>The frame of an operation\<close>

definition unread_kept :: "unread_state \<Rightarrow> unread_state \<Rightarrow> bool" where
  "unread_kept u u' \<longleftrightarrow> u' = u \<or> u' = u\<lparr>un_read_seq := un_occurrence_seq u\<rparr>"

definition op_frame :: "pane_state \<Rightarrow> pane_state \<Rightarrow> bool" where
  "op_frame s s' \<longleftrightarrow> ps_schema_version s' = ps_schema_version s
     \<and> ps_state_id s' = ps_state_id s \<and> ps_revision s' = ps_revision s
     \<and> ps_pane_instance s' = ps_pane_instance s \<and> ps_agent_epoch s \<le> ps_agent_epoch s'
     \<and> unread_kept (ps_unread s) (ps_unread s')"

lemma unread_kept_refl [simp, intro]: "unread_kept u u"
  by (simp add: unread_kept_def)

lemma unread_kept_trans: "unread_kept u v \<Longrightarrow> unread_kept v w \<Longrightarrow> unread_kept u w"
  by (auto simp: unread_kept_def)

lemma unread_kept_simps:
  assumes "unread_kept u v"
  shows "un_occurrence_seq v = un_occurrence_seq u" "un_latest v = un_latest u"
    "un_read_seq v = un_read_seq u \<or> un_read_seq v = un_occurrence_seq u"
  using assms by (auto simp: unread_kept_def)

lemma op_frame_refl [simp, intro]: "op_frame s s"
  by (simp add: op_frame_def)

lemma op_frame_trans: "op_frame s t \<Longrightarrow> op_frame t u \<Longrightarrow> op_frame s u"
  unfolding op_frame_def by (auto elim: unread_kept_trans)

lemma read_stale_attention_kept [simp]: "unread_kept u (read_stale_attention u)"
  by (auto simp: unread_kept_def read_stale_attention_def)

lemma update_background_frame [simp]: "op_frame s (update_background f t) = op_frame s t"
  by (simp add: update_background_def op_frame_def)

lemma begin_agent_epoch_frame [frame_rules]:
  "begin_agent_epoch agent session source s = Inr s' \<Longrightarrow> op_frame s s'"
  by (auto simp: begin_agent_epoch_def op_frame_def result_simps dest: inc_greater)

lemma start_new_run_frame [frame_rules]: "start_new_run at s = Inr s' \<Longrightarrow> op_frame s s'"
  by (auto simp: start_new_run_def op_frame_def result_simps split: if_splits)

lemma activity_observed_frame [frame_rules]: "activity_observed at s = Inr s' \<Longrightarrow> op_frame s s'"
  by (auto simp: activity_observed_def update_background_def op_frame_def result_simps
      dest!: start_new_run_frame)

lemma wait_requested_frame [frame_rules]: "wait_requested at r s = Inr s' \<Longrightarrow> op_frame s s'"
  by (auto simp: wait_requested_def op_frame_def result_simps dest!: start_new_run_frame)

lemma fail_run_frame [frame_rules]: "fail_run at r s = Inr s' \<Longrightarrow> op_frame s s'"
  by (auto simp: fail_run_def op_frame_def result_simps dest!: start_new_run_frame)

lemma begin_run_frame [frame_rules]: "begin_run H at p pt s = Inr s' \<Longrightarrow> op_frame s s'"
  by (auto simp: begin_run_def op_frame_def update_background_def Let_def result_simps
      dest!: start_new_run_frame split: option.splits)

lemma close_run_frame [simp]: "op_frame s (close_run at s)"
  by (simp add: close_run_def op_frame_def)

lemma complete_run_frame [simp]: "op_frame s (complete_run at b t) = op_frame s t"
  by (simp add: complete_run_def close_run_def op_frame_def)

lemma complete_run_with_response_frame [frame_rules]:
  "complete_run_with_response at r b s = Inr s' \<Longrightarrow> op_frame s s'"
  using complete_run_frame [of s at b s]
  by (auto simp: complete_run_with_response_def op_frame_def Let_def result_simps split: if_splits)

lemma mark_done_frame [frame_rules]: "mark_done at s = Inr s' \<Longrightarrow> op_frame s s'"
  by (auto simp: mark_done_def op_frame_def result_simps split: if_splits)

lemma apply_progress_operation_frame [frame_rules]:
  "apply_progress_operation s operation = Inr s' \<Longrightarrow> op_frame s s'"
  by (cases operation)
    (auto simp: op_frame_def set_progress_def Let_def result_simps split: if_splits)

lemma apply_progress_frame [frame_rules]:
  assumes "apply_progress operations s = Inr s'"
  shows "op_frame s s'"
proof -
  from assms have "fold_r (\<lambda>s operation. bind_r (map_err InvalidProgressOperation
      (validate_progress_operation operation)) (\<lambda>_. apply_progress_operation s operation))
      s operations = Inr s'"
    by (auto simp: apply_progress_def result_simps)
  then show ?thesis
    by (rule fold_r_invariant [where I = "op_frame s"])
      (auto simp: result_simps dest: apply_progress_operation_frame intro: op_frame_trans)
qed

lemma apply_claude_tool_result_frame [frame_rules]:
  "apply_claude_tool_result result at s = Inr s' \<Longrightarrow> op_frame s s'"
  by (cases result) (auto simp: Let_def split: if_splits)

lemma apply_task_notifications_frame [frame_rules]:
  "apply_task_notifications at ns s = Inr s' \<Longrightarrow> op_frame s s'"
  by (auto simp: apply_task_notifications_def result_simps split: if_splits
      dest!: activity_observed_frame intro: op_frame_trans)

lemma stop_observation_frame [simp]: "op_frame s (stop_observation registry crons at s)"
  by (simp add: stop_observation_def op_frame_def update_background_def Let_def)

lemma apply_claude_stop_frame [frame_rules]:
  assumes "apply_claude_stop at response registry crons initial s = Inr s'"
  shows "op_frame s s'"
proof -
  let ?t = "stop_observation registry crons at s"
  have t: "op_frame s ?t" by simp
  have "op_frame ?t s'"
    using assms complete_run_frame [of ?t at initial
        "?t\<lparr>ps_claude_background := claude_background_default\<rparr>"]
    by (auto simp: apply_claude_stop_def Let_def result_simps op_frame_def update_background_def
        dest!: complete_run_with_response_frame split: if_splits option.splits)
  with t show ?thesis by (rule op_frame_trans)
qed

lemma end_claude_tracking_frame [simp]: "op_frame s (end_claude_tracking s)"
  by (simp add: end_claude_tracking_def op_frame_def update_background_def Let_def)

lemma apply_agent_session_started_frame [simp]:
  "op_frame s (apply_agent_session_started H source p s)"
  by (simp add: apply_agent_session_started_def op_frame_def Let_def split: option.splits)

lemma apply_report_fields_frame [simp]: "op_frame s (apply_report_fields report t) = op_frame s t"
  by (simp add: apply_report_fields_def op_frame_def)

lemma apply_explicit_report_frame [frame_rules]:
  "apply_explicit_report report s = Inr s' \<Longrightarrow> op_frame s s'"
  by (auto simp: apply_explicit_report_def result_simps
      split: option.splits reported_lifecycle.splits if_splits
      dest!: activity_observed_frame wait_requested_frame fail_run_frame
      intro: op_frame_trans)

lemma apply_regular_explicit_event_frame [frame_rules]:
  "apply_regular_explicit_event H event pt s = Inr s' \<Longrightarrow> op_frame s s'"
  by (cases event) (auto simp: result_simps dest!: frame_rules intro: op_frame_trans)

lemma apply_initial_explicit_event_frame [frame_rules]:
  "apply_initial_explicit_event H event pt s = Inr s' \<Longrightarrow> op_frame s s'"
  by (cases event) (auto simp: apply_initial_explicit_event_def result_simps split: if_splits
      dest!: frame_rules intro: op_frame_trans)

lemma apply_by_identity_frame [frame_rules]:
  assumes "apply_by_identity H event pt tracker agent session s = Inr s'"
  shows "op_frame s s'"
proof -
  have bound: "op_frame s (s\<lparr>ps_agent_session_id := Some session\<rparr>)"
    by (simp add: op_frame_def)
  have marked: "op_frame t (t\<lparr>ps_agent_present := False, ps_scan_verified := True\<rparr>)" for t
    by (simp add: op_frame_def)
  show ?thesis
    using assms bound marked
    by (auto simp: apply_by_identity_def Let_def result_simps
        split: existing_identity.splits if_splits
        dest!: apply_regular_explicit_event_frame begin_agent_epoch_frame
        intro: op_frame_trans)
qed

section \<open>Observations\<close>

lemma apply_process_observation_frame [frame_rules]:
  "apply_process_observation p s = Inr s' \<Longrightarrow> op_frame s s'"
  by (auto simp: apply_process_observation_def op_frame_def result_simps split: option.splits)

lemma confirm_absent_frame [simp]: "op_frame s (confirm_absent at s)"
  using end_claude_tracking_frame [of s] complete_run_frame [of s at False s]
    complete_run_frame [of s at False "end_claude_tracking s"]
  by (auto simp: confirm_absent_def Let_def op_frame_def)

lemma capture_inference_step_frame [frame_rules]:
  "capture_inference_step i tracker at s = Inr s' \<Longrightarrow> op_frame s s'"
  by (auto simp: capture_inference_step_def split: capture_inference.splits if_splits
      dest!: activity_observed_frame wait_requested_frame fail_run_frame)

lemma apply_capture_frame [frame_rules]:
  "apply_capture c at st = Inr st' \<Longrightarrow> op_frame (fst st) (fst st')"
  by (auto simp: apply_capture_def Let_def result_simps split: option.splits if_splits
      dest!: capture_inference_step_frame)

lemma count_absence_frame [frame_rules]:
  "count_absence at st = Inr st' \<Longrightarrow> op_frame (fst st) (fst st')"
  by (auto simp: count_absence_def result_simps split: if_splits)

lemma observe_existing_frame [frame_rules]:
  "observe_existing presence capture process at st = Inr st' \<Longrightarrow> op_frame (fst st) (fst st')"
proof -
  have verified: "op_frame s (s\<lparr>ps_scan_verified := True\<rparr>)" for s
    by (simp add: op_frame_def)
  assume "observe_existing presence capture process at st = Inr st'"
  then show ?thesis
    using verified
    by (fastforce simp: observe_existing_def observe_absent_def observe_same_agent_def
        observe_other_agent_def observe_new_epoch_def Let_def result_simps
        split: agent_presence_observation.splits if_splits option.splits
        dest!: apply_capture_frame count_absence_frame begin_agent_epoch_frame
        intro: op_frame_trans)
qed

end
