(* ===== verification/Machine.thy ===== *)
theory Machine
  imports Prelude
begin

text \<open>
  The interface between the components that own a versioned record and the clients that
  fence their writes on its revision: a step on an accepted input keeps the record valid
  and either changes nothing or moves the revision by exactly one. From these two laws
  follow, for every run of accepted inputs, validity, monotonicity, and the fact the
  clients rely on: an unchanged revision means an unchanged record.
\<close>

locale revisioned_machine =
  fixes step :: "'s \<Rightarrow> 'i \<Rightarrow> 'e + 's"
    and valid :: "'s \<Rightarrow> bool"
    and revision :: "'s \<Rightarrow> nat"
  assumes step_valid: "valid s \<Longrightarrow> step s i = Inr s' \<Longrightarrow> valid s'"
    and step_revision: "step s i = Inr s' \<Longrightarrow> s' = s \<or> revision s' = Suc (revision s)"
begin

lemma run_valid: "fold_r step s is = Inr s' \<Longrightarrow> valid s \<Longrightarrow> valid s'"
  by (rule fold_r_invariant [where I = valid]) (auto intro: step_valid)

lemma run_revision_mono: "fold_r step s is = Inr s' \<Longrightarrow> revision s \<le> revision s'"
proof (rule fold_r_invariant [where I = "\<lambda>t. revision s \<le> revision t"])
  fix t x t'
  assume "revision s \<le> revision t" "step t x = Inr t'"
  then show "revision s \<le> revision t'" using step_revision by fastforce
qed auto

lemma run_revision_bound: "fold_r step s is = Inr s' \<Longrightarrow> revision s' \<le> revision s + length is"
proof (induction "is" arbitrary: s)
  case (Cons i "is")
  then obtain t where t: "step s i = Inr t" "fold_r step t is = Inr s'"
    by (auto simp: result_simps)
  from Cons.IH [OF t(2)] step_revision [OF t(1)] show ?case by auto
qed simp

lemma same_revision_same_state:
  "fold_r step s is = Inr s' \<Longrightarrow> revision s' = revision s \<Longrightarrow> s' = s"
proof (induction "is" arbitrary: s)
  case (Cons i "is")
  then obtain t where t: "step s i = Inr t" "fold_r step t is = Inr s'"
    by (auto simp: result_simps)
  from step_revision [OF t(1)] show ?case
  proof
    assume "t = s"
    with Cons t show ?thesis by simp
  next
    assume "revision t = Suc (revision s)"
    with run_revision_mono [OF t(2)] Cons.prems(2) show ?thesis by simp
  qed
qed simp

end

end
