(* ===== verification/PaneTheorems.thy ===== *)
theory PaneTheorems
  imports PaneLaws Machine
begin

text \<open>
  The theorems of the pane reducer: every accepted event leaves a valid record whose
  revision is the successor of the old one, the unread history only grows, stale inputs
  are fenced off, and a run with unresolved Claude background receipts stays open.
\<close>

section \<open>Shape of a reduction\<close>

definition succ_revision :: "pane_state option \<Rightarrow> u64 \<Rightarrow> bool" where
  "succ_revision current n = (case current of None \<Rightarrow> n = 1
     | Some s \<Rightarrow> ps_revision s \<noteq> - 1 \<and> n = ps_revision s + 1)"

text \<open>What a state before the unread transition has in common with where it comes from.\<close>

definition descends :: "pane_state option \<Rightarrow> pane_event_envelope \<Rightarrow> pane_state \<Rightarrow> bool" where
  "descends current envelope s = (case current of
      Some existing \<Rightarrow> op_frame existing s
    | None \<Rightarrow> ps_pane_instance s = en_pane_instance envelope \<and> ps_unread s = unread_default
        \<and> 1 \<le> ps_agent_epoch s)"

definition shaped :: "(u8 list \<Rightarrow> str) \<Rightarrow> pane_state option \<Rightarrow> pane_event_envelope \<Rightarrow>
    reduction \<Rightarrow> bool" where
  "shaped H current envelope r \<longleftrightarrow>
     (rd_outcome r \<noteq> CanonicalChanged \<and> rd_record r = current)
   \<or> (rd_outcome r = CanonicalChanged \<and> (\<exists>s rev. rd_record r = Some (s\<lparr>ps_revision := rev\<rparr>)
        \<and> succ_revision current rev \<and> descends current envelope s
        \<and> pane_state_validate H (s\<lparr>ps_revision := rev\<rparr>) = Inr ()))"

lemma unchanged_shaped [simp]: "shaped H current envelope (unchanged current)"
  by (simp add: shaped_def unchanged_def)

lemma finish_shaped:
  assumes "finish_state_reduction H current s tracker previous = Inr r"
    and "descends current envelope s"
  shows "shaped H current envelope r"
  using assms
  by (auto simp: finish_state_reduction_def shaped_def succ_revision_def Let_def result_simps
      split: if_splits option.splits)

lemma new_state_descends:
  "new_state envelope agent session v a i = Inr s \<Longrightarrow> op_frame s t \<Longrightarrow> descends None envelope t"
  by (auto simp: new_state_def descends_def op_frame_def unread_kept_def unread_default_def
      split: option.splits)

lemma reduce_internal_shaped:
  "reduce_internal_state_event H current envelope context = Inr r \<Longrightarrow> shaped H current envelope r"
proof (cases current)
  case None
  assume "reduce_internal_state_event H current envelope context = Inr r"
  with None show ?thesis
    by (auto simp: reduce_internal_state_event_def split: pane_event.splits)
next
  case (Some existing)
  assume r: "reduce_internal_state_event H current envelope context = Inr r"
  have read: "op_frame existing (existing\<lparr>ps_unread := (ps_unread existing)
      \<lparr>un_read_seq := un_occurrence_seq (ps_unread existing)\<rparr>\<rparr>)"
    and summary: "op_frame existing (existing\<lparr>ps_task_context := c\<rparr>)" for c
    by (simp_all add: op_frame_def unread_kept_def)
  show ?thesis
    using r Some read summary
    by (auto simp: reduce_internal_state_event_def Let_def result_simps descends_def
        split: pane_event.splits option.splits if_splits
        dest!: mark_done_frame elim!: finish_shaped)
qed

lemma reduce_observation_shaped:
  assumes "reduce_observation H current envelope context base g at presence capture process = Inr r"
  shows "shaped H current envelope r"
proof (cases current)
  case None
  with assms show ?thesis
    by (auto simp: reduce_observation_def result_simps
        split: if_splits agent_presence_observation.splits
        dest!: apply_process_observation_frame
        elim!: finish_shaped intro: new_state_descends)
next
  case (Some existing)
  with assms show ?thesis
    by (auto simp: reduce_observation_def result_simps descends_def split: if_splits
        dest!: apply_process_observation_frame observe_existing_frame
        elim!: finish_shaped intro: op_frame_trans)
qed

lemma reduce_explicit_new_shaped:
  assumes "reduce_explicit_new H envelope context agent = Inr r"
  shows "shaped H None envelope r"
  using assms
  by (auto simp: reduce_explicit_new_def initial_explicit_state_def Let_def result_simps
      split: if_splits option.splits
      dest!: apply_initial_explicit_event_frame
      elim!: finish_shaped intro: new_state_descends)

lemma reduce_session_start_shaped:
  assumes "reduce_session_start H existing context agent session source p = Inr r"
  shows "shaped H (Some existing) envelope r"
  using assms
  by (auto simp: reduce_session_start_def Let_def result_simps descends_def
      dest!: begin_agent_epoch_frame elim!: finish_shaped
      intro: op_frame_trans [OF _ apply_agent_session_started_frame])

lemma reduce_regular_shaped:
  assumes "reduce_regular H existing event context agent session = Inr r"
  shows "shaped H (Some existing) envelope r"
  using assms
  by (auto simp: reduce_regular_def Let_def result_simps descends_def split: if_splits
      dest!: apply_by_identity_frame elim!: finish_shaped)

lemma reduce_explicit_shaped:
  "reduce_explicit H current envelope context = Inr r \<Longrightarrow> shaped H current envelope r"
  by (auto simp: reduce_explicit_def split: option.splits if_splits pane_event.splits
      elim!: reduce_explicit_new_shaped reduce_session_start_shaped reduce_regular_shaped)

lemma reduce_event_shaped:
  "reduce_event H current envelope context = Inr r \<Longrightarrow> shaped H current envelope r"
  by (auto simp: reduce_event_def split: pane_event.splits if_splits
      elim!: reduce_explicit_shaped reduce_internal_shaped reduce_observation_shaped)

section \<open>The unread transition\<close>

definition occurrence_added :: "u64 \<Rightarrow> unread_state \<Rightarrow> unread_state \<Rightarrow> bool" where
  "occurrence_added floor u u' \<longleftrightarrow>
     un_occurrence_seq u \<noteq> - 1 \<and> un_occurrence_seq u' = un_occurrence_seq u + 1
   \<and> (un_read_seq u' = un_read_seq u \<or> un_read_seq u' = un_occurrence_seq u')
   \<and> (\<exists>l. un_latest u' = Some l \<and> uo_seq l = un_occurrence_seq u' \<and> floor < uo_order l
        \<and> (\<forall>k. un_latest u = Some k \<longrightarrow> uo_order k < uo_order l))"

lemma push_occurrence_added:
  assumes "push_occurrence event context reason s = Inr s'"
  shows "occurrence_added (rc_latest_unread_order context) (ps_unread s) (ps_unread s')
    \<and> s' = s\<lparr>ps_unread := ps_unread s'\<rparr>"
proof -
  have less: "a < max a b + 1" "b < max a b + 1" if "max a b \<noteq> - 1" for a b :: u64
    using inc_greater [OF that] by (auto intro: le_less_trans [OF max.cobounded1]
        le_less_trans [OF max.cobounded2])
  show ?thesis
    using assms
    by (auto simp: push_occurrence_def occurrence_added_def Let_def result_simps less inc_greater
        split: if_splits option.splits)
qed

text \<open>The transition changes the unread state and the reported flags, nothing else.\<close>

definition unread_frame :: "pane_state \<Rightarrow> pane_state \<Rightarrow> bool" where
  "unread_frame s s' \<longleftrightarrow> (\<exists>u b. s' = s\<lparr>ps_unread := u, ps_claude_background := b\<rparr>)"

lemma apply_unread_transition_frame:
  assumes "apply_unread_transition current event context s = Inr s'"
  shows "unread_frame s s' \<and> (ps_unread s' = ps_unread s
    \<or> occurrence_added (rc_latest_unread_order context) (ps_unread s) (ps_unread s'))"
proof -
  have refl: "unread_frame s s"
    unfolding unread_frame_def by (rule exI [of _ "ps_unread s"], rule exI [of _ "ps_claude_background s"]) simp
  have push: "unread_frame s t \<and>
      occurrence_added (rc_latest_unread_order context) (ps_unread s) (ps_unread t)"
    if "push_occurrence event context reason (update_background f s) = Inr t" for reason f t
  proof -
    from push_occurrence_added [OF that]
    have eq: "t = (update_background f s)\<lparr>ps_unread := ps_unread t\<rparr>"
      and added: "occurrence_added (rc_latest_unread_order context) (ps_unread s) (ps_unread t)"
      by (simp_all add: update_background_def)
    have "unread_frame s ((update_background f s)\<lparr>ps_unread := ps_unread t\<rparr>)"
      unfolding unread_frame_def update_background_def
      by (rule exI [of _ "ps_unread t"], rule exI [of _ "f (ps_claude_background s)"]) simp
    with added show ?thesis by (subst eq) (simp add: update_background_def)
  qed
  have id: "update_background (\<lambda>b. b) s = s" by (simp add: update_background_def)
  have upd: "unread_frame s (update_background f s)" "ps_unread (update_background f s) = ps_unread s" for f
    unfolding unread_frame_def update_background_def
    by (rule exI [of _ "ps_unread s"], rule exI [of _ "f (ps_claude_background s)"], simp) simp
  from assms refl upd push push [of _ "\<lambda>b. b", unfolded id] show ?thesis
    by (auto simp: apply_unread_transition_def Let_def split: pane_event.splits option.splits
        lifecycle_state.splits if_splits)
qed

section \<open>The contract of an accepted event\<close>

lemma unread_frame_simps:
  assumes "unread_frame s s'"
  shows "ps_revision s' = ps_revision s" "ps_pane_instance s' = ps_pane_instance s"
    "ps_state_id s' = ps_state_id s" "ps_agent_epoch s' = ps_agent_epoch s"
    "ps_lifecycle s' = ps_lifecycle s" "ps_completed_seq s' = ps_completed_seq s"
    "ps_run_seq s' = ps_run_seq s" "ps_agent_present s' = ps_agent_present s"
    "ps_prompt s' = ps_prompt s" "ps_task_context s' = ps_task_context s"
  using assms by (auto simp: unread_frame_def)

text \<open>A reduction is either the identity on the record, or a step with all its parts.\<close>

lemma reduce_cases:
  assumes "reduce H current envelope context = Inr r"
  obtains (same) "rd_outcome r \<noteq> CanonicalChanged" "rd_record r = current"
  | (changed) s n s' where "rd_outcome r = CanonicalChanged" "rd_record r = Some s'"
      "reduce_event H current envelope context = Inr (r\<lparr>rd_record := Some (s\<lparr>ps_revision := n\<rparr>)\<rparr>)"
      "succ_revision current n" "descends current envelope s"
      "apply_unread_transition current (en_event envelope) context (s\<lparr>ps_revision := n\<rparr>) = Inr s'"
      "unread_frame (s\<lparr>ps_revision := n\<rparr>) s'"
      "pane_state_validate H s' = Inr ()"
      "\<forall>e. current = Some e \<longrightarrow> ps_pane_instance e = en_pane_instance envelope"
proof -
  let ?mismatch = "case current of None \<Rightarrow> False | Some s \<Rightarrow> ps_pane_instance s \<noteq> en_pane_instance envelope"
  from assms have match: "\<not> ?mismatch" by (auto simp: reduce_def result_simps)
  show thesis
  proof (cases "is_semantically_empty (en_event envelope)")
    case True
    with assms match have "r = unchanged current" by (auto simp: reduce_def result_simps)
    then show thesis by (intro same) (simp_all add: unchanged_def)
  next
    case False
    with assms match obtain r0 where r0: "reduce_event H current envelope context = Inr r0"
      and rest: "(if rd_outcome r0 = CanonicalChanged then (case rd_record r0 of
          None \<Rightarrow> Inr r0
        | Some s \<Rightarrow> bind_r (apply_unread_transition current (en_event envelope) context s) (\<lambda>s.
            bind_r (map_err StateInvariantViolation (pane_state_validate H s)) (\<lambda>_.
              Inr (r0\<lparr>rd_record := Some s\<rparr>)))) else Inr r0) = Inr r"
      by (auto simp: reduce_def result_simps)
    from reduce_event_shaped [OF r0] show thesis
    proof (unfold shaped_def, elim disjE conjE exE)
      assume "rd_outcome r0 \<noteq> CanonicalChanged" "rd_record r0 = current"
      with rest show thesis by (intro same) simp_all
    next
      fix s n
      assume *: "rd_outcome r0 = CanonicalChanged" "rd_record r0 = Some (s\<lparr>ps_revision := n\<rparr>)"
        "succ_revision current n" "descends current envelope s"
      with rest obtain s' where s': "apply_unread_transition current (en_event envelope) context
            (s\<lparr>ps_revision := n\<rparr>) = Inr s'"
          "pane_state_validate H s' = Inr ()" "r = r0\<lparr>rd_record := Some s'\<rparr>"
        by (auto simp: result_simps)
      have r0_eq: "r0 = r\<lparr>rd_record := Some (s\<lparr>ps_revision := n\<rparr>)\<rparr>"
        using s'(3) *(2) by (cases r0) simp
      show thesis
        using * s' match r0 apply_unread_transition_frame [OF s'(1)]
        by (intro changed [where s = s and n = n and s' = s']) (auto simp flip: r0_eq split: option.splits)
    qed
  qed
qed

text \<open>
  C1. An accepted event either leaves the record as it is, or produces a valid record of
  the same pane whose revision is the successor of the old one (1 for a new record).
\<close>

theorem reduce_contract:
  assumes "reduce H current envelope context = Inr r"
  shows "if rd_outcome r = CanonicalChanged
    then \<exists>s. rd_record r = Some s \<and> pane_state_validate H s = Inr ()
      \<and> ps_pane_instance s = en_pane_instance envelope \<and> succ_revision current (ps_revision s)
    else rd_record r = current"
  using assms
proof (cases rule: reduce_cases)
  case (changed s n s')
  then show ?thesis
    by (auto simp: unread_frame_simps [OF changed(7)] descends_def op_frame_def split: option.splits)
qed simp

text \<open>
  C5. The unread history of a pane only grows: the sequence and the epoch never go back,
  at most one occurrence is added, and a new occurrence is ordered after everything the
  daemon has numbered so far (the global order that picks the latest unread pane).
\<close>

theorem reduce_unread_monotone:
  assumes "reduce H (Some old) envelope context = Inr r" and "rd_record r = Some new"
  shows "ps_agent_epoch old \<le> ps_agent_epoch new
    \<and> (un_latest (ps_unread new) = un_latest (ps_unread old)
         \<and> un_occurrence_seq (ps_unread new) = un_occurrence_seq (ps_unread old)
       \<or> un_occurrence_seq (ps_unread new) = un_occurrence_seq (ps_unread old) + 1
         \<and> un_occurrence_seq (ps_unread old) < un_occurrence_seq (ps_unread new)
         \<and> (\<exists>l. un_latest (ps_unread new) = Some l
              \<and> rc_latest_unread_order context < uo_order l
              \<and> (\<forall>k. un_latest (ps_unread old) = Some k \<longrightarrow> uo_order k < uo_order l)))"
  using assms(1)
proof (cases rule: reduce_cases)
  case same
  with assms(2) show ?thesis by simp
next
  case (changed s n s')
  have s: "ps_agent_epoch old \<le> ps_agent_epoch s" "unread_kept (ps_unread old) (ps_unread s)"
    using changed(5) by (simp_all add: descends_def op_frame_def)
  have "new = s'" using changed(2) assms(2) by simp
  moreover have "ps_unread s' = ps_unread s
      \<or> occurrence_added (rc_latest_unread_order context) (ps_unread s) (ps_unread s')"
    using apply_unread_transition_frame [OF changed(6)] by simp
  ultimately show ?thesis
    using s unread_frame_simps [OF changed(7)] unread_kept_simps [OF s(2)]
    by (auto simp: occurrence_added_def inc_greater)
qed

section \<open>The pane record as a versioned machine\<close>

definition pane_step :: "(u8 list \<Rightarrow> str) \<Rightarrow> pane_state option \<Rightarrow>
    pane_event_envelope \<times> reduction_context \<Rightarrow> reduce_error + pane_state option" where
  "pane_step H current i =
    bind_r (reduce H current (fst i) (snd i)) (\<lambda>r. Inr (rd_record r))"

definition pane_valid :: "(u8 list \<Rightarrow> str) \<Rightarrow> pane_state option \<Rightarrow> bool" where
  "pane_valid H current = (case current of None \<Rightarrow> True | Some s \<Rightarrow> is_ok (pane_state_validate H s))"

definition pane_revision :: "pane_state option \<Rightarrow> nat" where
  "pane_revision current = (case current of None \<Rightarrow> 0 | Some s \<Rightarrow> unat (ps_revision s))"

lemma pane_step_laws:
  assumes "pane_step H current i = Inr next"
  shows "next = current \<or> (pane_valid H next \<and> pane_revision next = Suc (pane_revision current))"
proof -
  from assms obtain r where r: "reduce H current (fst i) (snd i) = Inr r" "next = rd_record r"
    by (auto simp: pane_step_def result_simps)
  from r(1) show ?thesis
  proof (cases rule: reduce_cases)
    case (changed s n s')
    with r(2) show ?thesis
      by (auto simp: pane_valid_def pane_revision_def succ_revision_def unat_inc is_ok_def
          unread_frame_simps [OF changed(7)] split: option.splits)
  qed (use r(2) in simp)
qed

interpretation pane: revisioned_machine "pane_step H" "pane_valid H" pane_revision for H
  by unfold_locales (use pane_step_laws in blast)+

text \<open>
  C2. Every record the daemon reaches from an empty pane by accepted events is valid,
  whatever the events and contexts are.
\<close>

theorem pane_run_valid:
  assumes "fold_r (pane_step H) None inputs = Inr (Some s)"
  shows "pane_state_validate H s = Inr ()"
  using pane.run_valid [OF assms] by (simp add: pane_valid_def is_ok_def split: sum.splits)

text \<open>
  C6. Optimistic concurrency: if the revision is the same before and after a run of
  accepted events, the record is the same, so a writer that names a version (a manual
  completion, an observation) acts on exactly the record it saw.
\<close>

theorem pane_same_revision_same_record:
  assumes "fold_r (pane_step H) (Some s) inputs = Inr (Some t)"
    and "ps_revision t = ps_revision s"
  shows "t = s"
  using pane.same_revision_same_state [OF assms(1)] assms(2) by (simp add: pane_revision_def)

end
