(* ===== verification/PaneStoreLaws.thy ===== *)
theory PaneStoreLaws
  imports PaneRuntime PaneTheorems "HOL-Library.Multiset"
begin

text \<open>
  The invariant of the pane store and what each operation does with it: records sorted by
  their pane, valid, with distinct unread orders below the counter of the daemon; the counts
  of calm polls are of panes in triage, a flash lasts two polls, and every derived
  collection is within its bound.
\<close>

named_theorems store_rules \<open>preservation of the store invariant\<close>

section \<open>The invariant\<close>

definition latest_occurrence :: "pane_state \<Rightarrow> unread_occurrence option" where
  "latest_occurrence s = un_latest (ps_unread s)"

definition orders :: "pane_records \<Rightarrow> u64 list" where
  "orders rs = map uo_order (List.map_filter (\<lambda>e. latest_occurrence (snd e)) rs)"

definition record_ok :: "(u8 list \<Rightarrow> str) \<Rightarrow> pane_key \<times> pane_state \<Rightarrow> bool" where
  "record_ok H e \<longleftrightarrow> pane_key_of (ps_pane_instance (snd e)) = fst e
     \<and> pane_state_validate H (snd e) = Inr ()"

definition records_ok :: "(u8 list \<Rightarrow> str) \<Rightarrow> pane_records \<Rightarrow> bool" where
  "records_ok H rs \<longleftrightarrow> bm_invar rs \<and> (\<forall>e \<in> set rs. record_ok H e) \<and> distinct (orders rs)"

definition store_ok :: "(u8 list \<Rightarrow> str) \<Rightarrow> state_runtime \<Rightarrow> bool" where
  "store_ok H rt \<longleftrightarrow> records_ok H (rt_records rt)
     \<and> (\<forall>n \<in> set (orders (rt_records rt)). n \<le> rt_latest_unread_order rt)
     \<and> bm_invar (rt_trackers rt) \<and> bm_invar (rt_notification_generations rt)
     \<and> bm_invar (rt_triage rt) \<and> bm_invar (rt_triage_calm_polls rt) \<and> bm_invar (rt_flash rt)
     \<and> fst ` set (rt_triage_calm_polls rt) \<subseteq> fst ` set (rt_triage rt)
     \<and> (\<forall>e \<in> set (rt_flash rt). snd e \<le> 2)"

lemma orders_simps [simp]:
  "orders [] = []"
  "orders (e # rs) = (case latest_occurrence (snd e) of None \<Rightarrow> orders rs | Some l \<Rightarrow> uo_order l # orders rs)"
  by (simp_all add: orders_def List.map_filter_simps split: option.splits)

lemma set_orders: "n \<in> set (orders rs) \<longleftrightarrow>
    (\<exists>e \<in> set rs. \<exists>l. latest_occurrence (snd e) = Some l \<and> n = uo_order l)"
  by (induction rs) (auto split: option.splits)

lemma set_ordersI: "e \<in> set rs \<Longrightarrow> latest_occurrence (snd e) = Some l \<Longrightarrow> uo_order l \<in> set (orders rs)"
  by (simp only: set_orders) blast

lemma check_records_iff:
  "check_records H os rs = Inr () \<longleftrightarrow>
     (\<forall>e \<in> set rs. record_ok H e) \<and> distinct (orders rs) \<and> set (orders rs) \<inter> os = {}"
proof (induction H os rs rule: check_records.induct)
  case (2 H os k s rs)
  show ?case
    using 2 by (auto simp: record_ok_def result_simps latest_occurrence_def split: option.splits)
qed simp

lemma validate_projection_iff:
  "validate_projection H rt = Inr () \<longleftrightarrow>
     (\<forall>e \<in> set (rt_records rt). record_ok H e) \<and> distinct (orders (rt_records rt)) \<and> collections_bounded rt"
  by (auto simp: validate_projection_def result_simps check_records_iff)

section \<open>Insertion and removal of records\<close>

lemma bm_insert_set: "bm_invar m \<Longrightarrow>
    set (bm_insert k v m) = insert (k, v) {e \<in> set m. fst e \<noteq> k}"
proof (induction k v m rule: bm_insert.induct)
  case (2 k v j w m)
  have "\<forall>e \<in> set m. j < fst e" using "2.prems" by (auto simp: bm_invar_def)
  moreover have "bm_invar m" using "2.prems" by (simp add: bm_invar_def)
  ultimately show ?case using "2.IH" by (auto dest: order_less_trans)
qed simp

lemma bm_remove_set [simp]: "set (bm_remove k m) = {e \<in> set m. fst e \<noteq> k}"
  by (auto simp: bm_remove_def)

lemma bm_get_set: "bm_get m k = Some v \<Longrightarrow> (k, v) \<in> set m"
  by (rule map_of_SomeD)

lemma bm_get_invar: "bm_invar m \<Longrightarrow> bm_get m k = Some v \<longleftrightarrow> (k, v) \<in> set m"
  by (auto simp: bm_invar_def dest: map_of_SomeD sorted_wrt_distinct intro: map_of_is_SomeI)

lemma distinct_orders_filter: "distinct (orders rs) \<Longrightarrow> distinct (orders (filter P rs))"
  by (induction rs) (auto simp: set_orders split: option.splits if_splits)

lemma mset_bm_insert: "bm_invar m \<Longrightarrow>
    mset (bm_insert k v m) = add_mset (k, v) (mset (bm_remove k m))"
proof (induction k v m rule: bm_insert.induct)
  case (2 k v j w m)
  have lt: "\<forall>e \<in> set m. j < fst e" and inv: "bm_invar m" using "2.prems" by (auto simp: bm_invar_def)
  have "bm_remove k m = m" if "k \<le> j"
    using lt that by (auto simp: bm_remove_def filter_id_conv)
  then show ?case using "2.IH" inv by (auto simp: bm_remove_def simp flip: mset_filter)
qed (simp add: bm_remove_def)

lemma mset_orders: "mset rs = mset rs' \<Longrightarrow> mset (orders rs) = mset (orders rs')"
proof -
  have "mset (orders rs) = (\<Sum>e \<in># mset rs. case latest_occurrence (snd e) of
      None \<Rightarrow> {#} | Some l \<Rightarrow> {#uo_order l#})" for rs
    by (induction rs) (auto split: option.splits)
  then show "mset rs = mset rs' \<Longrightarrow> mset (orders rs) = mset (orders rs')" by simp
qed

lemma distinct_orders_insert:
  assumes "bm_invar rs" and "distinct (orders rs)"
    and "\<And>l. latest_occurrence s = Some l \<Longrightarrow> uo_order l \<notin> set (orders (bm_remove k rs))"
  shows "distinct (orders (bm_insert k s rs))"
proof -
  have "mset (orders (bm_insert k s rs)) = mset (orders ((k, s) # bm_remove k rs))"
    by (rule mset_orders) (simp add: mset_bm_insert assms(1))
  moreover have "distinct (orders ((k, s) # bm_remove k rs))"
    using assms(2,3) distinct_orders_filter [of rs] by (auto simp: bm_remove_def split: option.splits)
  ultimately show ?thesis by (metis mset_eq_imp_distinct_iff)
qed


section \<open>The order a reduction gives a record\<close>

definition order_step :: "u64 \<Rightarrow> pane_state option \<Rightarrow> pane_state \<Rightarrow> bool" where
  "order_step floor current s \<longleftrightarrow>
     latest_occurrence s = (case current of None \<Rightarrow> None | Some c \<Rightarrow> latest_occurrence c)
   \<or> (\<exists>l. latest_occurrence s = Some l
        \<and> max floor (case current of None \<Rightarrow> 0 | Some c \<Rightarrow> latest_order c) \<noteq> - 1
        \<and> uo_order l = max floor (case current of None \<Rightarrow> 0 | Some c \<Rightarrow> latest_order c) + 1)"

lemma push_occurrence_order:
  assumes "push_occurrence event context reason s = Inr t"
  shows "\<exists>l. un_latest (ps_unread t) = Some l \<and> max (rc_latest_unread_order context) (latest_order s) \<noteq> - 1
    \<and> uo_order l = max (rc_latest_unread_order context) (latest_order s) + 1"
  using assms by (auto simp: push_occurrence_def Let_def result_simps latest_order_def)

lemma apply_unread_transition_order:
  assumes "apply_unread_transition current event context s = Inr t"
  shows "un_latest (ps_unread t) = un_latest (ps_unread s)
    \<or> (\<exists>l. un_latest (ps_unread t) = Some l
        \<and> max (rc_latest_unread_order context) (latest_order s) \<noteq> - 1
        \<and> uo_order l = max (rc_latest_unread_order context) (latest_order s) + 1)"
proof -
  have upd: "latest_order (update_background f s) = latest_order s"
    "ps_unread (update_background f s) = ps_unread s" for f
    by (simp_all add: update_background_def latest_order_def)
  from assms show ?thesis
    by (auto simp: apply_unread_transition_def Let_def upd split: pane_event.splits option.splits
        lifecycle_state.splits if_splits dest!: push_occurrence_order)
qed

lemma descends_latest:
  assumes "descends current envelope s"
  shows "latest_occurrence s = (case current of None \<Rightarrow> None | Some c \<Rightarrow> latest_occurrence c)"
    "latest_order s = (case current of None \<Rightarrow> 0 | Some c \<Rightarrow> latest_order c)"
  using assms
  by (auto simp: descends_def op_frame_def unread_default_def latest_occurrence_def latest_order_def
      dest: unread_kept_simps(2) split: option.splits)

text \<open>What the store learns of a reduction that changes the record.\<close>

lemma reduce_changed:
  assumes "reduce H current envelope context = Inr r" and "rd_outcome r = CanonicalChanged"
  obtains s where "rd_record r = Some s" "record_ok H (pane_key_of (en_pane_instance envelope), s)"
    "succ_revision current (ps_revision s)"
    "order_step (rc_latest_unread_order context) current s"
  using assms(1)
proof (cases rule: reduce_cases)
  case same
  with assms(2) show thesis by simp
next
  case (changed s n s')
  have "order_step (rc_latest_unread_order context) current s'"
    using apply_unread_transition_order [OF changed(6)] descends_latest [OF changed(5)]
    by (auto simp: order_step_def latest_occurrence_def latest_order_def)
  moreover have "ps_pane_instance s' = en_pane_instance envelope"
    using changed(5,7,9) unread_frame_simps(2) [OF changed(7)]
    by (auto simp: descends_def op_frame_def split: option.splits)
  moreover have "succ_revision current (ps_revision s')"
    using changed(4) unread_frame_simps(1) [OF changed(7)] by simp
  ultimately show thesis
    using that [of s'] changed(2,8) by (simp add: record_ok_def)
qed

section \<open>Changing a record\<close>

lemma latest_order_of: "latest_occurrence s = Some l \<Longrightarrow> uo_order l = latest_order s"
  by (simp add: latest_occurrence_def latest_order_def)

lemma records_insert_ok:
  assumes rs: "records_ok H rs" and bound: "\<forall>n \<in> set (orders rs). n \<le> cap"
    and ok: "record_ok H (k, s)" and step: "order_step cap (bm_get rs k) s"
  shows "records_ok H (bm_insert k s rs)"
    and "\<forall>n \<in> set (orders (bm_insert k s rs)). n \<le> max cap (latest_order s)"
    and "latest_order s \<le> cap \<or> (cap \<noteq> - 1 \<and> latest_order s = cap + 1)"
proof -
  have inv: "bm_invar rs" and all: "\<forall>e \<in> set rs. record_ok H e" and dist: "distinct (orders rs)"
    using rs by (simp_all add: records_ok_def)
  have old: "latest_order c \<le> cap" if "bm_get rs k = Some c" for c
  proof (cases "latest_occurrence c")
    case None
    then show ?thesis by (simp add: latest_occurrence_def latest_order_def)
  next
    case (Some l)
    then have "uo_order l \<in> set (orders rs)"
      using bm_get_set [OF that] by (force simp: set_orders)
    with bound Some show ?thesis by (auto simp: latest_order_of)
  qed
  have fresh: "latest_occurrence s = (case bm_get rs k of None \<Rightarrow> None | Some c \<Rightarrow> latest_occurrence c)
      \<or> (cap \<noteq> - 1 \<and> (\<exists>l. latest_occurrence s = Some l \<and> uo_order l = cap + 1))"
    using step old by (auto simp: order_step_def max_absorb1 split: option.splits)
  have new: "uo_order l \<notin> set (orders (bm_remove k rs))" if l: "latest_occurrence s = Some l" for l
  proof
    assume mem: "uo_order l \<in> set (orders (bm_remove k rs))"
    then obtain e k' where e: "e \<in> set rs" "fst e \<noteq> k" "latest_occurrence (snd e) = Some k'"
      "uo_order l = uo_order k'"
      by (auto simp: set_orders)
    have "uo_order l \<in> set (orders rs)" using e by (auto simp: set_orders)
    then have "uo_order l \<le> cap" using bound by blast
    with fresh l obtain c where c: "bm_get rs k = Some c" "latest_occurrence c = Some l"
      by (auto simp: inc_greater split: option.splits dest: leD)
    have perm: "mset rs = add_mset (k, c) (mset (bm_remove k rs))"
      using inv c(1)
    proof -
      have "bm_insert k c rs = rs"
      proof (rule map_sorted_distinct_set_unique [where f = fst])
        show "sorted (map fst (bm_insert k c rs))" "distinct (map fst (bm_insert k c rs))"
          "sorted (map fst rs)" "distinct (map fst rs)"
          using inv bm_invar_insert [OF inv, of k c]
          by (auto simp: bm_invar_def sorted_wrt_distinct intro: strict_sorted_imp_sorted)
        show "inj_on fst (set (bm_insert k c rs) \<union> set rs)"
          using inv c(1) by (auto simp: inj_on_def bm_insert_set bm_get_invar [OF inv, symmetric])
        show "set (bm_insert k c rs) = set rs"
          using inv c(1) by (auto simp: bm_insert_set bm_get_invar [OF inv, symmetric])
      qed
      then show ?thesis using mset_bm_insert [OF inv, of k c] by simp
    qed
    have "mset (orders rs) = mset (orders ((k, c) # bm_remove k rs))"
      by (rule mset_orders) (simp add: perm)
    then have "distinct (orders ((k, c) # bm_remove k rs))"
      using dist mset_eq_imp_distinct_iff by blast
    with c(2) mem show False by simp
  qed
  show "records_ok H (bm_insert k s rs)"
    using inv all ok distinct_orders_insert [OF inv dist new]
    by (auto simp: records_ok_def bm_invar_insert bm_insert_set)
  have "n = latest_order s \<or> n \<in> set (orders rs)" if "n \<in> set (orders (bm_insert k s rs))" for n
  proof -
    from that obtain e l where "e \<in> set (bm_insert k s rs)" "latest_occurrence (snd e) = Some l" "n = uo_order l"
      by (auto simp: set_orders)
    moreover from this have "e = (k, s) \<or> e \<in> set rs" using inv by (auto simp: bm_insert_set)
    ultimately show ?thesis using latest_order_of set_orders by fastforce
  qed
  then show "\<forall>n \<in> set (orders (bm_insert k s rs)). n \<le> max cap (latest_order s)"
    using bound by (metis le_max_iff_disj order_refl)
  show "latest_order s \<le> cap \<or> (cap \<noteq> - 1 \<and> latest_order s = cap + 1)"
    using fresh old by (auto simp: latest_order_def latest_occurrence_def split: option.splits)
qed


section \<open>Preservation by the steps\<close>

text \<open>The part of a runtime the invariant reads; the other fields may change freely.\<close>

lemma store_ok_irrelevant [simp]:
  "store_ok H (rt\<lparr>rt_diagnostics := d\<rparr>) = store_ok H rt"
  "store_ok H (rt\<lparr>rt_transitions := t\<rparr>) = store_ok H rt"
  "store_ok H (rt\<lparr>rt_notification_jobs := j\<rparr>) = store_ok H rt"
  "store_ok H (rt\<lparr>rt_snapshot_revision := n\<rparr>) = store_ok H rt"
  "store_ok H (rt\<lparr>rt_snapshot_frame_too_large := b\<rparr>) = store_ok H rt"
  "store_ok H (rt\<lparr>rt_fail_stopped := b\<rparr>) = store_ok H rt"
  by (simp_all add: store_ok_def)

lemma newest_length: "length (newest n xs) \<le> n"
  by (simp add: newest_def)

lemma push_bounded_length [simp]: "length (push_bounded n x xs) \<le> n"
  by (simp add: push_bounded_def newest_length)

lemma drop_overflow_jobs: "length (fst (drop_overflow pane jobs ds)) \<le> MAX_NOTIFICATION_JOBS"
  by (induction pane jobs ds rule: drop_overflow.induct) (subst drop_overflow.simps, simp)

lemma drop_overflow_diagnostics:
  "length ds \<le> MAX_DIAGNOSTICS \<Longrightarrow> length (snd (drop_overflow pane jobs ds)) \<le> MAX_DIAGNOSTICS"
  by (induction pane jobs ds rule: drop_overflow.induct) (subst drop_overflow.simps, simp)

lemma bump_shape:
  "bump_snapshot_revision rt = (rt', Inr u) \<longleftrightarrow> rt_snapshot_revision rt \<noteq> - 1
    \<and> rt' = rt\<lparr>rt_snapshot_revision := rt_snapshot_revision rt + 1\<rparr>"
  by (auto simp: bump_snapshot_revision_def checked_inc_def)

definition framed :: "state_runtime \<Rightarrow> state_runtime \<Rightarrow> bool" where
  "framed rt rt' \<longleftrightarrow> length (rt_diagnostics rt') \<le> MAX_DIAGNOSTICS
     \<and> rt' = rt\<lparr>rt_diagnostics := rt_diagnostics rt',
                rt_snapshot_frame_too_large := rt_snapshot_frame_too_large rt'\<rparr>"

lemma preflight_shape: "preflight_projection P rt = (rt', Inr b) \<Longrightarrow> framed rt rt'"
  by (auto simp: preflight_projection_def framed_def Let_def newest_length split: sum.splits)

lemma framed_simps:
  assumes "framed rt rt'"
  shows "rt_records rt' = rt_records rt" "rt_trackers rt' = rt_trackers rt"
    "rt_transitions rt' = rt_transitions rt" "rt_triage rt' = rt_triage rt"
    "rt_notification_jobs rt' = rt_notification_jobs rt" "rt_flash rt' = rt_flash rt"
    "rt_notification_generations rt' = rt_notification_generations rt"
    "rt_triage_calm_polls rt' = rt_triage_calm_polls rt"
    "rt_snapshot_revision rt' = rt_snapshot_revision rt"
    "rt_latest_unread_order rt' = rt_latest_unread_order rt"
    "rt_fail_stopped rt' = rt_fail_stopped rt"
    "store_ok H rt' = store_ok H rt"
    "collections_bounded rt \<Longrightarrow> collections_bounded rt'"
proof -
  obtain d b where "rt' = rt\<lparr>rt_diagnostics := d, rt_snapshot_frame_too_large := b\<rparr>" "length d \<le> MAX_DIAGNOSTICS"
    using assms unfolding framed_def by blast
  then show "rt_records rt' = rt_records rt" "rt_trackers rt' = rt_trackers rt"
    "rt_transitions rt' = rt_transitions rt" "rt_triage rt' = rt_triage rt"
    "rt_notification_jobs rt' = rt_notification_jobs rt" "rt_flash rt' = rt_flash rt"
    "rt_notification_generations rt' = rt_notification_generations rt"
    "rt_triage_calm_polls rt' = rt_triage_calm_polls rt"
    "rt_snapshot_revision rt' = rt_snapshot_revision rt"
    "rt_latest_unread_order rt' = rt_latest_unread_order rt"
    "rt_fail_stopped rt' = rt_fail_stopped rt"
    "store_ok H rt' = store_ok H rt"
    "collections_bounded rt \<Longrightarrow> collections_bounded rt'"
    by (simp_all add: collections_bounded_def)
qed

lemma settle_shape:
  "settle H P rt = (rt', Inr u) \<Longrightarrow> framed rt rt' \<and> collections_bounded rt'
    \<and> validate_projection H rt = Inr ()"
  by (cases "validate_projection H rt"; cases "preflight_projection P rt"; cases "snd (preflight_projection P rt)")
    (auto simp: settle_def dest!: preflight_shape simp: validate_projection_iff framed_simps)

lemma bump_and_settle_shape:
  assumes "bump_and_settle H P rt = (rt', Inr u)"
  shows "rt_snapshot_revision rt \<noteq> - 1"
    and "framed (rt\<lparr>rt_snapshot_revision := rt_snapshot_revision rt + 1\<rparr>) rt'"
    and "collections_bounded rt'" "validate_projection H rt = Inr ()"
proof -
  obtain rt1 r where b: "bump_snapshot_revision rt = (rt1, r)" by fastforce
  with assms have r: "r = Inr ()" by (cases r) (auto simp: bump_and_settle_def)
  with b have eq: "rt_snapshot_revision rt \<noteq> - 1" "rt1 = rt\<lparr>rt_snapshot_revision := rt_snapshot_revision rt + 1\<rparr>"
    by (simp_all add: bump_shape)
  have s: "settle H P rt1 = (rt', Inr u)"
    using assms b r by (simp add: bump_and_settle_def)
  show "rt_snapshot_revision rt \<noteq> - 1" using eq by simp
  show "framed (rt\<lparr>rt_snapshot_revision := rt_snapshot_revision rt + 1\<rparr>) rt'" "collections_bounded rt'"
    "validate_projection H rt = Inr ()"
    using settle_shape [OF s] eq(2) by (auto simp: validate_projection_iff collections_bounded_def)
qed

lemma bm_keys_remove: "fst ` set (bm_remove k m) = fst ` set m - {k}"
  by (force simp: bm_remove_def)

lemma bm_insert_all: "\<forall>e \<in> set m. Q e \<Longrightarrow> Q (k, v) \<Longrightarrow> \<forall>e \<in> set (bm_insert k v m). Q e"
  by (induction k v m rule: bm_insert.induct) auto

lemma store_ok_steps:
  assumes "store_ok H rt"
  shows "store_ok H (rt\<lparr>rt_notification_generations := bm_remove k (rt_notification_generations rt)\<rparr>)"
    "store_ok H (rt\<lparr>rt_flash := bm_insert k 2 (rt_flash rt)\<rparr>)"
    "store_ok H (rt\<lparr>rt_triage := bm_insert k b (rt_triage rt),
       rt_triage_calm_polls := bm_remove k (rt_triage_calm_polls rt)\<rparr>)"
    "store_ok H (notify_blocked pane v rt)"
    "store_ok H (rt\<lparr>rt_transitions := ts\<rparr>)"
proof -
  have keys: "fst ` set (rt_triage_calm_polls rt) - {k} \<subseteq> insert k (fst ` set (rt_triage rt))"
    using assms by (auto simp: store_ok_def)
  show "store_ok H (rt\<lparr>rt_triage := bm_insert k b (rt_triage rt),
       rt_triage_calm_polls := bm_remove k (rt_triage_calm_polls rt)\<rparr>)"
    using assms keys
    by (simp add: store_ok_def bm_invar_insert bm_invar_remove bm_keys_insert bm_keys_remove
        del: bm_remove_set)
  have "\<forall>e \<in> set (bm_insert k 2 (rt_flash rt)). snd e \<le> 2"
    by (rule bm_insert_all) (use assms in \<open>simp_all add: store_ok_def\<close>)
  then show "store_ok H (rt\<lparr>rt_flash := bm_insert k 2 (rt_flash rt)\<rparr>)"
    using assms by (simp add: store_ok_def bm_invar_insert)
qed (use assms in \<open>simp_all add: store_ok_def bm_invar_insert bm_invar_remove
    notify_blocked_def Let_def\<close>)

lemma store_ok_if: "store_ok H a \<Longrightarrow> store_ok H b \<Longrightarrow> store_ok H (if c then a else b)"
  by simp

lemma store_ok_option: "store_ok H a \<Longrightarrow> (\<And>x. store_ok H (f x)) \<Longrightarrow>
    store_ok H (case y of None \<Rightarrow> a | Some x \<Rightarrow> f x)"
  by (cases y) auto

lemma derive_store_ok:
  "store_ok H rt \<Longrightarrow> store_ok H (derive_candidate_projection pane previous current event at_epoch rt)"
  unfolding derive_candidate_projection_def Let_def
  by (intro store_ok_steps store_ok_if store_ok_option)

lemma derive_simps [simp]:
  "rt_records (derive_candidate_projection pane previous current event at_epoch rt) = rt_records rt"
  "rt_trackers (derive_candidate_projection pane previous current event at_epoch rt) = rt_trackers rt"
  "rt_snapshot_revision (derive_candidate_projection pane previous current event at_epoch rt)
    = rt_snapshot_revision rt"
  "rt_latest_unread_order (derive_candidate_projection pane previous current event at_epoch rt)
    = rt_latest_unread_order rt"
  "rt_fail_stopped (derive_candidate_projection pane previous current event at_epoch rt)
    = rt_fail_stopped rt"
  by (simp_all add: derive_candidate_projection_def notify_blocked_def Let_def split: option.splits)

section \<open>The operations keep the invariant\<close>

definition store_inv :: "(u8 list \<Rightarrow> str) \<Rightarrow> state_runtime \<Rightarrow> bool" where
  "store_inv H rt \<longleftrightarrow> store_ok H rt \<and> collections_bounded rt"

definition projection_error :: "store_error \<Rightarrow> bool" where
  "projection_error e \<longleftrightarrow> e = StoreCounterOverflow ''snapshot revision''
     \<or> e = PersistFailed (Msg ''projection collection exceeds configured bound'')
     \<or> (\<exists>m. e = PersistFailed (MsgValue '''' m))"

lemma store_ok_records: "store_ok H rt \<Longrightarrow>
    (\<forall>e \<in> set (rt_records rt). record_ok H e) \<and> distinct (orders (rt_records rt))"
  by (simp add: store_ok_def records_ok_def)

lemma check_records_total: "store_ok H rt \<Longrightarrow> check_records H {} (rt_records rt) = Inr ()"
  by (simp add: check_records_iff store_ok_records)

lemma settle_error:
  assumes "store_ok H rt" and "settle H P rt = (rt', Inl e)"
  shows "projection_error e"
proof (cases "collections_bounded rt")
  case True
  then have "validate_projection H rt = Inr ()"
    using assms(1) by (simp add: validate_projection_def check_records_total)
  then show ?thesis using assms(2)
    by (auto simp: settle_def preflight_projection_def projection_error_def Let_def split: sum.splits)
next
  case False
  then show ?thesis using assms
    by (auto simp: settle_def validate_projection_def check_records_total projection_error_def)
qed

lemma bump_and_settle_error:
  assumes "store_ok H rt" and "bump_and_settle H P rt = (rt', Inl e)"
  shows "projection_error e"
proof (cases "bump_snapshot_revision rt")
  case (Pair rt1 r)
  show ?thesis
  proof (cases r)
    case (Inl x)
    with Pair assms(2) show ?thesis
      by (auto simp: bump_and_settle_def bump_snapshot_revision_def projection_error_def result_simps
          split: sum.splits)
  next
    case (Inr u)
    with Pair assms(2) have "settle H P rt1 = (rt', Inl e)" by (simp add: bump_and_settle_def)
    moreover have "store_ok H rt1" using Pair Inr assms(1) by (auto simp: bump_shape)
    ultimately show ?thesis by (intro settle_error)
  qed
qed

lemma bump_and_settle_inv:
  assumes "store_ok H rt" and "bump_and_settle H P rt = (rt', Inr u)"
  shows "store_inv H rt'"
  using bump_and_settle_shape [OF assms(2)] framed_simps(12) [of _ rt' H] assms(1)
  by (simp add: store_inv_def)

lemma settle_inv: "store_ok H rt \<Longrightarrow> settle H P rt = (rt', Inr u) \<Longrightarrow> store_inv H rt'"
  using settle_shape [of H P rt rt' u] framed_simps(12) [of rt rt' H] by (simp add: store_inv_def)

lemma trackers_ok: "store_ok H rt \<Longrightarrow>
    store_ok H (rt\<lparr>rt_trackers := bm_insert k t (rt_trackers rt)\<rparr>)"
  by (simp add: store_ok_def bm_invar_insert)

lemma apply_tracker_inv:
  assumes "store_inv H rt" and "apply_tracker H P key delta rt = (rt', Inr u)"
  shows "store_inv H rt' \<and> rt_records rt' = rt_records rt
    \<and> rt_latest_unread_order rt' = rt_latest_unread_order rt"
proof (cases delta)
  case None
  with assms show ?thesis by (simp add: apply_tracker_def)
next
  case (Some t)
  let ?rt = "rt\<lparr>rt_trackers := bm_insert key t (rt_trackers rt)\<rparr>"
  have ok: "store_ok H ?rt" "collections_bounded ?rt"
    using assms(1) by (auto simp: store_inv_def trackers_ok collections_bounded_def)
  show ?thesis
  proof (cases "public_tracker_change (rt_tracker rt key) t")
    case True
    with Some assms(2) have b: "bump_and_settle H P ?rt = (rt', Inr u)"
      by (simp add: apply_tracker_def Let_def)
    show ?thesis
      using bump_and_settle_inv [OF ok(1) b] framed_simps(1,10) [OF bump_and_settle_shape(2) [OF b]]
      by simp
  next
    case False
    with Some assms(2) ok show ?thesis by (auto simp: apply_tracker_def Let_def store_inv_def)
  qed
qed

lemma apply_tracker_error:
  "store_ok H rt \<Longrightarrow> apply_tracker H P key delta rt = (rt', Inl e) \<Longrightarrow> projection_error e"
  by (auto simp: apply_tracker_def Let_def split: option.splits if_splits
      elim!: bump_and_settle_error [rotated] intro: trackers_ok)

text \<open>The runtime of a changed record before its projection is checked.\<close>

definition with_record :: "pane_key \<Rightarrow> pane_state \<Rightarrow> capture_tracker_snapshot option \<Rightarrow>
    state_runtime \<Rightarrow> state_runtime" where
  "with_record key candidate delta rt =
    rt\<lparr>rt_latest_unread_order := max (rt_latest_unread_order rt) (latest_order candidate),
       rt_records := bm_insert key candidate (rt_records rt),
       rt_trackers := (case delta of None \<Rightarrow> rt_trackers rt
         | Some next' \<Rightarrow> bm_insert key next' (rt_trackers rt))\<rparr>"

lemma with_record_ok:
  assumes "store_ok H rt" and "record_ok H (key, candidate)"
    and "order_step (rt_latest_unread_order rt) (bm_get (rt_records rt) key) candidate"
  shows "store_ok H (with_record key candidate delta rt)"
proof -
  have "records_ok H (rt_records rt)" "\<forall>n \<in> set (orders (rt_records rt)). n \<le> rt_latest_unread_order rt"
    using assms(1) by (simp_all add: store_ok_def)
  from records_insert_ok [OF this assms(2,3)] show ?thesis
    using assms(1) by (simp add: store_ok_def with_record_def bm_invar_insert split: option.splits)
qed

lemma advance_order_shape:
  assumes "store_ok H rt" and "record_ok H (key, candidate)"
    and "order_step (rt_latest_unread_order rt) (bm_get (rt_records rt) key) candidate"
  shows "advance_order candidate rt =
    (rt\<lparr>rt_latest_unread_order := max (rt_latest_unread_order rt) (latest_order candidate)\<rparr>, Inr ())"
proof -
  have "records_ok H (rt_records rt)" "\<forall>n \<in> set (orders (rt_records rt)). n \<le> rt_latest_unread_order rt"
    using assms(1) by (simp_all add: store_ok_def)
  from records_insert_ok(3) [OF this assms(2,3)] show ?thesis
    by (auto simp: advance_order_def checked_inc_def max_def not_less)
qed

lemma store_record_shape:
  assumes "store_ok H rt" and "record_ok H (pane_key_of (en_pane_instance envelope), candidate)"
    and "order_step (rt_latest_unread_order rt)
      (bm_get (rt_records rt) (pane_key_of (en_pane_instance envelope))) candidate"
  shows "store_record H P envelope candidate delta rt = bump_and_settle H P
    (derive_candidate_projection (en_pane_instance envelope)
      (bm_get (rt_records rt) (pane_key_of (en_pane_instance envelope))) (Some candidate)
      (en_event envelope) (transition_at_epoch (en_event envelope) (Some candidate))
      (with_record (pane_key_of (en_pane_instance envelope)) candidate delta rt))"
  by (cases delta) (simp_all add: store_record_def advance_order_shape [OF assms] with_record_def Let_def)

lemma stored_ok:
  assumes "store_ok H rt" and "record_ok H (pane_key_of (en_pane_instance envelope), candidate)"
    and "order_step (rt_latest_unread_order rt)
      (bm_get (rt_records rt) (pane_key_of (en_pane_instance envelope))) candidate"
  shows "store_ok H (derive_candidate_projection (en_pane_instance envelope) previous (Some candidate)
      event at_epoch (with_record (pane_key_of (en_pane_instance envelope)) candidate delta rt))"
  by (rule derive_store_ok [OF with_record_ok [OF assms]])

text \<open>The branch of an event in memory that has a reduction.\<close>

definition conclude :: "(u8 list \<Rightarrow> str) \<Rightarrow> preflight_encoder \<Rightarrow> pane_event_envelope \<Rightarrow>
    reduction \<Rightarrow> state_runtime \<Rightarrow> state_runtime \<times> (store_error + apply_result)" where
  "conclude H P envelope r rt =
    (let key = pane_key_of (en_pane_instance envelope) in
     if rd_outcome r \<noteq> CanonicalChanged
     then and_then (apply_tracker H P key (rd_tracker_delta r) rt) (\<lambda>rt _.
       (rt, Inr \<lparr>ar_outcome = rd_outcome r, ar_state_version = map_option version (bm_get (rt_records rt) key),
          ar_snapshot_revision = rt_snapshot_revision rt\<rparr>))
     else case rd_record r of
         None \<Rightarrow> (rt, Inl (FailStop (Msg ''canonical mutation has a state'')))
       | Some candidate \<Rightarrow>
           and_then (store_record H P envelope candidate (rd_tracker_delta r) rt) (\<lambda>rt _.
             (rt, Inr \<lparr>ar_outcome = CanonicalChanged, ar_state_version = Some (version candidate),
                ar_snapshot_revision = rt_snapshot_revision rt\<rparr>)))"

lemma apply_event_in_memory_conclude:
  assumes "apply_event_in_memory H P entropy envelope visible secret rt = (rt', res)"
  obtains (random) m where "res = Inl (RandomFailed m)" "rt' = rt"
  | (reducer) e where "res = Inl (ReduceFailed e)" "rt' = rt"
  | (reduced) i r where "conclude H P envelope r rt = (rt', res)"
      "reduce H (bm_get (rt_records rt) (pane_key_of (en_pane_instance envelope))) envelope
        (reduction_context_of rt (pane_key_of (en_pane_instance envelope)) i visible secret) = Inr r"
proof -
  let ?key = "pane_key_of (en_pane_instance envelope)"
  let ?current = "bm_get (rt_records rt) ?key"
  show thesis
  proof (cases "state_id_for entropy ?current (en_event envelope)")
    case (Inl e)
    then obtain m where "e = RandomFailed m"
      by (auto simp: state_id_for_def map_err_def split: if_splits sum.splits)
    then show thesis using assms Inl
      by (intro random [of m]) (simp_all add: apply_event_in_memory_def Let_def)
  next
    case id: (Inr i)
    show thesis
    proof (cases "reduce H ?current envelope (reduction_context_of rt ?key i visible secret)")
      case (Inl e)
      then show thesis using assms id
        by (intro reducer [of e]) (simp_all add: apply_event_in_memory_def Let_def)
    next
      case (Inr r)
      then show thesis using assms id
        by (intro reduced [of r i]) (simp_all add: apply_event_in_memory_def conclude_def Let_def)
    qed
  qed
qed

lemma conclude_kept:
  assumes inv: "store_inv H rt" and "rd_outcome r \<noteq> CanonicalChanged"
    and run: "conclude H P envelope r rt = (rt', res)"
  shows "case res of Inl e \<Rightarrow> projection_error e
    | Inr a \<Rightarrow> ar_outcome a = rd_outcome r \<and> store_inv H rt' \<and> rt_records rt' = rt_records rt"
proof (cases "apply_tracker H P (pane_key_of (en_pane_instance envelope)) (rd_tracker_delta r) rt")
  case (Pair t x)
  have ok: "store_ok H rt" using inv by (simp add: store_inv_def)
  show ?thesis
  proof (cases x)
    case (Inl e)
    with Pair run assms(2) apply_tracker_error [OF ok, of P "pane_key_of (en_pane_instance envelope)"] show ?thesis by (auto simp: conclude_def Let_def)
  next
    case (Inr u)
    with Pair run assms(2) apply_tracker_inv [OF inv, of P "pane_key_of (en_pane_instance envelope)"] show ?thesis by (auto simp: conclude_def Let_def)
  qed
qed

lemma conclude_changed:
  assumes inv: "store_inv H rt" and changed: "rd_outcome r = CanonicalChanged"
    and red: "reduce H (bm_get (rt_records rt) (pane_key_of (en_pane_instance envelope))) envelope
        (reduction_context_of rt (pane_key_of (en_pane_instance envelope)) i visible secret) = Inr r"
    and run: "conclude H P envelope r rt = (rt', res)"
  shows "case res of Inl e \<Rightarrow> projection_error e
    | Inr a \<Rightarrow> ar_outcome a = CanonicalChanged \<and> store_inv H rt' \<and> rt_snapshot_revision rt \<noteq> - 1
        \<and> rt_snapshot_revision rt' = rt_snapshot_revision rt + 1
        \<and> (\<exists>s. rt_records rt' = bm_insert (pane_key_of (en_pane_instance envelope)) s (rt_records rt)
             \<and> ar_state_version a = Some (version s)
             \<and> succ_revision (bm_get (rt_records rt) (pane_key_of (en_pane_instance envelope)))
                  (ps_revision s))"
proof -
  let ?key = "pane_key_of (en_pane_instance envelope)"
  let ?current = "bm_get (rt_records rt) ?key"
  have ok: "store_ok H rt" using inv by (simp add: store_inv_def)
  from red changed obtain s where s: "rd_record r = Some s" "record_ok H (?key, s)"
    "succ_revision ?current (ps_revision s)" "order_step (rt_latest_unread_order rt) ?current s"
    by (elim reduce_changed) (auto simp: reduction_context_of_def)
  let ?b = "derive_candidate_projection (en_pane_instance envelope) ?current (Some s)
      (en_event envelope) (transition_at_epoch (en_event envelope) (Some s))
      (with_record ?key s (rd_tracker_delta r) rt)"
  have run': "and_then (bump_and_settle H P ?b) (\<lambda>rt _. (rt, Inr \<lparr>ar_outcome = CanonicalChanged,
      ar_state_version = Some (version s), ar_snapshot_revision = rt_snapshot_revision rt\<rparr>)) = (rt', res)"
    using run changed s(1) store_record_shape [OF ok s(2,4)] by (simp add: conclude_def Let_def)
  have okb: "store_ok H ?b" by (rule stored_ok [OF ok s(2,4)])
  obtain t x where b: "bump_and_settle H P ?b = (t, x)" by fastforce
  show ?thesis
  proof (cases x)
    case (Inl e)
    with b run' bump_and_settle_error [OF okb] show ?thesis by auto
  next
    case (Inr u)
    with b have b': "bump_and_settle H P ?b = (t, Inr u)" by simp
    note shape = bump_and_settle_shape [OF b']
    show ?thesis
      using b' run' s(3) bump_and_settle_inv [OF okb b'] shape(1) framed_simps(1,9) [OF shape(2)]
      by (auto simp: with_record_def)
  qed
qed

end
