(* ===== verification/PaneSaver.thy ===== *)
theory PaneSaver
  imports PaneStoreLaws
begin

text \<open>
  What the store promises about its storage. A successful save makes exactly the saved
  records durable, a failed one leaves the old ones or the new ones; from these two laws of
  the storage follows that every change that becomes visible has been made durable before.
\<close>

section \<open>The interface\<close>

locale pane_saver =
  fixes save :: "pane_records \<Rightarrow> 'd \<Rightarrow> 'd \<times> (store_error + unit)"
    and stored :: "'d \<Rightarrow> 'b option"
    and image :: "pane_records \<Rightarrow> 'b option"
  assumes save_ok: "save rs d = (d', Inr u) \<Longrightarrow> stored d' = image rs \<and> image rs \<noteq> None"
    and save_error: "save rs d = (d', Inl e) \<Longrightarrow>
      stored d' = stored d \<or> stored d' = image rs \<and> image rs \<noteq> None"

text \<open>How an operation of the store may use its storage.\<close>

definition commits :: "'d saver \<Rightarrow> state_runtime \<times> 'd \<Rightarrow> state_runtime \<times> 'd \<Rightarrow> bool" where
  "commits S st st' \<longleftrightarrow> S (rt_records (fst st')) (snd st) = (snd st', Inr ())
    \<or> rt_records (fst st') = rt_records (fst st)
      \<and> (snd st' = snd st \<or> (\<exists>rs e. bm_invar rs \<and> S rs (snd st) = (snd st', Inl e)))"

context pane_saver
begin

lemma changed_is_durable:
  assumes "commits save st st'" and "rt_records (fst st') \<noteq> rt_records (fst st)"
  shows "stored (snd st') = image (rt_records (fst st')) \<and> image (rt_records (fst st')) \<noteq> None"
  using assms save_ok by (auto simp: commits_def)

lemma storage_of_attempt:
  assumes "commits save st st'"
  shows "stored (snd st') = stored (snd st)
    \<or> (\<exists>rs. stored (snd st') = image rs \<and> image rs \<noteq> None)"
  using assms save_ok save_error unfolding commits_def by metis

end

lemma commits_refl [simp]: "fst st' = fst st \<Longrightarrow> snd st' = snd st \<Longrightarrow> commits S st st'"
  by (simp add: commits_def)

lemma commits_records: "rt_records (fst st') = rt_records (fst st) \<Longrightarrow> snd st' = snd st \<Longrightarrow> commits S st st'"
  by (simp add: commits_def)

lemma save_draft_commits:
  assumes "save_draft S draft result st = (st', res)" and "bm_invar (rt_records draft)"
  shows "commits S st st'" and "fst st' = fst st \<and> (\<exists>e. res = Inl e) \<or> fst st' = draft \<and> res = Inr result"
  using assms by (auto simp: save_draft_def commits_def split: prod.splits sum.splits)

lemma store_inv_sorted: "store_inv H rt \<Longrightarrow> bm_invar (rt_records rt)"
  by (simp add: store_inv_def store_ok_def records_ok_def)

section \<open>Each operation\<close>

text \<open>What a caller sees of an operation: the invariant, the storage and the revision.\<close>

definition advances :: "state_runtime \<Rightarrow> state_runtime \<Rightarrow> bool" where
  "advances rt rt' \<longleftrightarrow> rt_snapshot_revision rt \<le> rt_snapshot_revision rt'
     \<and> (rt_records rt' \<noteq> rt_records rt \<longrightarrow> rt_snapshot_revision rt < rt_snapshot_revision rt')"

lemma advances_trans: "advances a b \<Longrightarrow> advances b c \<Longrightarrow> advances a c"
  by (cases "rt_records b = rt_records a") (auto simp: advances_def)

definition sound :: "(u8 list \<Rightarrow> str) \<Rightarrow> 'd saver \<Rightarrow> state_runtime \<times> 'd \<Rightarrow> state_runtime \<times> 'd \<Rightarrow> bool" where
  "sound H S st st' \<longleftrightarrow> store_inv H (fst st') \<and> commits S st st' \<and> advances (fst st) (fst st')"

lemma advances_refl [simp]: "advances rt rt"
  by (simp add: advances_def)

lemma sound_refl: "store_inv H (fst st) \<Longrightarrow> fst st' = fst st \<Longrightarrow> snd st' = snd st \<Longrightarrow> sound H S st st'"
  by (simp add: sound_def)

lemma save_draft_sound:
  assumes "save_draft S draft result st = (st', res)" and "store_inv H (fst st)" and "store_inv H draft"
    and "advances (fst st) draft"
  shows "sound H S st st'"
  using save_draft_commits [OF assms(1) store_inv_sorted [OF assms(3)]] assms(2-4)
  by (auto simp: sound_def)

lemma bumped_advances:
  assumes "bump_and_settle H P rt' = (draft, Inr u)" and "rt_snapshot_revision rt' = rt_snapshot_revision rt"
  shows "advances rt draft"
proof -
  note s = bump_and_settle_shape [OF assms(1)]
  have "rt_snapshot_revision draft = rt_snapshot_revision rt + 1"
    using framed_simps(9) [OF s(2)] assms(2) by simp
  then show ?thesis using s(1) assms(2) inc_greater [of "rt_snapshot_revision rt"]
    by (auto simp: advances_def)
qed

lemma tracker_change_advances:
  assumes "apply_tracker H P key delta rt = (rt', Inr u)"
  shows "rt_snapshot_revision rt \<le> rt_snapshot_revision rt'"
proof (cases "\<exists>t. delta = Some t \<and> public_tracker_change (rt_tracker rt key) t")
  case True
  then obtain t where "bump_and_settle H P (rt\<lparr>rt_trackers := bm_insert key t (rt_trackers rt)\<rparr>) = (rt', Inr u)"
    using assms by (auto simp: apply_tracker_def Let_def)
  from bumped_advances [OF this, of rt] show ?thesis by (simp add: advances_def)
next
  case False
  with assms show ?thesis by (auto simp: apply_tracker_def Let_def split: option.splits)
qed

lemma in_memory_sound:
  assumes inv: "store_inv H rt"
    and run: "apply_event_in_memory H P entropy envelope visible secret rt = (rt', Inr a)"
  shows "store_inv H rt' \<and> advances rt rt'
    \<and> (ar_outcome a \<noteq> CanonicalChanged \<longrightarrow> rt_records rt' = rt_records rt)"
  using run
proof (cases rule: apply_event_in_memory_conclude)
  case (reduced i r)
  show ?thesis
  proof (cases "rd_outcome r = CanonicalChanged")
    case True
    with conclude_changed [OF inv True reduced(2,1)] show ?thesis
      using inc_greater [of "rt_snapshot_revision rt"] by (auto simp: advances_def)
  next
    case False
    obtain t x where t: "apply_tracker H P (pane_key_of (en_pane_instance envelope)) (rd_tracker_delta r) rt
        = (t, x)" by fastforce
    with reduced(1) False have "x = Inr ()" "t = rt'"
      by (cases x; simp add: conclude_def Let_def)+
    with t have "rt_snapshot_revision rt \<le> rt_snapshot_revision rt'"
      by (simp add: tracker_change_advances)
    with conclude_kept [OF inv False reduced(1)] show ?thesis by (simp add: advances_def)
  qed
qed simp_all

lemma in_memory_error:
  assumes inv: "store_inv H rt"
    and run: "apply_event_in_memory H P entropy envelope visible secret rt = (rt', Inl e)"
  shows "(\<exists>m. e = RandomFailed m) \<or> (\<exists>r. e = ReduceFailed r) \<or> projection_error e"
  using run
proof (cases rule: apply_event_in_memory_conclude)
  case (reduced i r)
  with conclude_changed [OF inv _ reduced(2,1)] conclude_kept [OF inv _ reduced(1)] show ?thesis
    by (cases "rd_outcome r = CanonicalChanged") auto
qed auto

lemma apply_event_sound:
  assumes inv: "store_inv H (fst st)"
    and run: "apply_event H P S entropy envelope visible secret st = (st', res)"
  shows "sound H S st st'"
proof (cases "rt_fail_stopped (fst st)")
  case True
  with run inv show ?thesis by (auto simp: apply_event_def intro: sound_refl)
next
  case False
  obtain draft x where d: "apply_event_in_memory H P entropy envelope visible secret (fst st) = (draft, x)"
    by fastforce
  show ?thesis
  proof (cases x)
    case (Inl e)
    with run d False inv show ?thesis by (auto simp: apply_event_def intro: sound_refl)
  next
    case (Inr a)
    note draft = in_memory_sound [OF inv d [unfolded Inr]]
    show ?thesis
    proof (cases "ar_outcome a = CanonicalChanged")
      case True
      with run d False Inr have "save_draft S draft a st = (st', res)" by (simp add: apply_event_def)
      from save_draft_sound [OF this inv] draft show ?thesis by simp
    next
      case unchanged: False
      with run d False Inr have "st' = (draft, snd st)" by (simp add: apply_event_def)
      with draft unchanged show ?thesis by (auto simp: sound_def intro: commits_records)
    qed
  qed
qed

section \<open>Runs projected onto a pane\<close>

lemma reconcile_unread_shape:
  assumes "reconcile_unread s at n = Inr t"
  shows "order_step n (Some s) t \<and> t = s\<lparr>ps_unread := ps_unread t\<rparr>"
  using assms
  by (auto simp: reconcile_unread_def result_simps Let_def order_step_def latest_occurrence_def latest_order_def)

lemma reconcile_frame:
  "ps_unread (reconcile_activity (reconcile_advance s p at) p b at) = ps_unread s"
  "ps_pane_instance (reconcile_activity (reconcile_advance s p at) p b at) = ps_pane_instance s"
  "ps_revision (reconcile_activity (reconcile_advance s p at) p b at) = ps_revision s"
  by (simp_all add: reconcile_activity_def reconcile_advance_def Let_def)

lemma reconcile_changed:
  assumes "reconcile_current_run H s projection active at n = Inr (c, True)"
  shows "pane_state_validate H c = Inr () \<and> ps_pane_instance c = ps_pane_instance s
    \<and> order_step n (Some s) c \<and> succ_revision (Some s) (ps_revision c)"
proof -
  let ?s1 = "reconcile_activity (reconcile_advance s projection at) projection active at"
  from assms obtain s2 where s2: "(if \<not> active \<and> ps_completed_seq s < cr_run_seq projection
        then reconcile_unread ?s1 at n else Inr ?s1) = Inr s2"
    and c: "ps_revision s2 \<noteq> - 1" "pane_state_validate H c = Inr ()"
      "c = s2\<lparr>ps_current_run := Some projection, ps_revision := ps_revision s2 + 1\<rparr>"
    by (auto simp: reconcile_current_run_def result_simps Let_def split: if_splits)
  have "order_step n (Some s) s2 \<and> ps_pane_instance s2 = ps_pane_instance s \<and> ps_revision s2 = ps_revision s"
  proof (cases "\<not> active \<and> ps_completed_seq s < cr_run_seq projection")
    case True
    with s2 have "reconcile_unread ?s1 at n = Inr s2" by simp
    from reconcile_unread_shape [OF this] obtain u where
      u: "order_step n (Some ?s1) s2" "s2 = ?s1\<lparr>ps_unread := u\<rparr>" by metis
    then show ?thesis using reconcile_frame [of s projection at active]
      by (simp add: order_step_def latest_occurrence_def latest_order_def)
  next
    case False
    with s2 show ?thesis using reconcile_frame [of s projection at active]
      by (auto simp: order_step_def latest_occurrence_def)
  qed
  with c show ?thesis by (simp add: order_step_def latest_occurrence_def latest_order_def succ_revision_def)
qed

lemma project_current_run_sound:
  assumes inv: "store_inv H (fst st)"
    and run: "project_current_run H P S key projection active at st = (st', res)"
  shows "sound H S st st'"
proof (cases "\<exists>s c. \<not> rt_fail_stopped (fst st) \<and> bm_get (rt_records (fst st)) key = Some s
    \<and> reconcile_current_run H s projection active at (rt_latest_unread_order (fst st)) = Inr (c, True)")
  case False
  with run inv show ?thesis
    by (auto simp: project_current_run_def Let_def split: if_splits option.splits sum.splits
        intro: sound_refl)
next
  case True
  then obtain s c where live: "\<not> rt_fail_stopped (fst st)" and s: "bm_get (rt_records (fst st)) key = Some s"
    and c: "reconcile_current_run H s projection active at (rt_latest_unread_order (fst st)) = Inr (c, True)"
    by blast
  let ?rt = "with_record key c None (fst st)"
  have ok: "store_ok H (fst st)" using inv by (simp add: store_inv_def)
  have rec: "record_ok H (key, s)"
    using store_ok_records [OF ok] bm_get_set [OF s] by blast
  then have "record_ok H (key, c)"
    using reconcile_changed [OF c] by (simp add: record_ok_def)
  from with_record_ok [OF ok this] reconcile_changed [OF c] s have okc: "store_ok H ?rt" by simp
  obtain draft x where b: "bump_and_settle H P ?rt = (draft, x)" by fastforce
  then have run': "(case (draft, x) of (_, Inl e) \<Rightarrow> (st, Inl e)
      | (draft, Inr _) \<Rightarrow> save_draft S draft True st) = (st', res)"
    using run live s c by (simp add: project_current_run_def with_record_def Let_def)
  show ?thesis
  proof (cases x)
    case (Inl e)
    with run' inv show ?thesis by (auto intro: sound_refl)
  next
    case (Inr u)
    with run' have "save_draft S draft True st = (st', res)" by simp
    moreover have "store_inv H draft" using bump_and_settle_inv [OF okc] b Inr by blast
    moreover have "advances (fst st) draft"
      using bumped_advances [OF b [unfolded Inr], of "fst st"] by (simp add: with_record_def)
    ultimately show ?thesis by (rule save_draft_sound [OF _ inv])
  qed
qed

section \<open>Removal of a pane\<close>

lemma remove_ok:
  assumes "store_ok H rt"
  shows "store_ok H (rt\<lparr>rt_records := bm_remove key (rt_records rt),
      rt_trackers := bm_remove key (rt_trackers rt), rt_triage := bm_remove key (rt_triage rt),
      rt_notification_generations := bm_remove key (rt_notification_generations rt),
      rt_triage_calm_polls := bm_remove key (rt_triage_calm_polls rt),
      rt_flash := bm_remove key (rt_flash rt)\<rparr>)"
proof -
  have "records_ok H (bm_remove key (rt_records rt))"
    using assms distinct_orders_filter [of "rt_records rt" "\<lambda>e. fst e \<noteq> key"]
    by (auto simp: store_ok_def records_ok_def bm_invar_remove) (simp add: bm_remove_def)
  moreover have "set (orders (bm_remove key (rt_records rt))) \<subseteq> set (orders (rt_records rt))"
    unfolding subset_iff set_orders by (auto intro: bexI [rotated])
  moreover have "fst ` set (bm_remove key (rt_triage_calm_polls rt)) \<subseteq> fst ` set (bm_remove key (rt_triage rt))"
    using assms by (auto simp: bm_keys_remove store_ok_def simp del: bm_remove_set)
  ultimately show ?thesis using assms by (auto simp: store_ok_def bm_invar_remove)
qed

lemma remove_absent_pane_sound:
  assumes inv: "store_inv H (fst st)"
    and run: "remove_absent_pane H P S key expected st = (st', res)"
  shows "sound H S st st'"
proof -
  let ?rt = "(fst st)\<lparr>rt_records := bm_remove key (rt_records (fst st)),
      rt_trackers := bm_remove key (rt_trackers (fst st)), rt_triage := bm_remove key (rt_triage (fst st)),
      rt_notification_generations := bm_remove key (rt_notification_generations (fst st)),
      rt_triage_calm_polls := bm_remove key (rt_triage_calm_polls (fst st)),
      rt_flash := bm_remove key (rt_flash (fst st))\<rparr>"
  have okr: "store_ok H ?rt" by (rule remove_ok) (use inv in \<open>simp add: store_inv_def\<close>)
  obtain draft x where b: "bump_and_settle H P ?rt = (draft, x)" by fastforce
  from run b have "st' = st \<or> (case x of Inl e \<Rightarrow> st' = st | Inr _ \<Rightarrow> save_draft S draft True st = (st', res))"
    by (auto simp: remove_absent_pane_def Let_def split: if_splits sum.splits)
  then show ?thesis
  proof (cases x)
    case (Inr u)
    have "store_inv H draft" using bump_and_settle_inv [OF okr] b Inr by blast
    moreover have "advances (fst st) draft"
      using bumped_advances [OF b [unfolded Inr], of "fst st"] by simp
    ultimately have "sound H S st st'" if save: "save_draft S draft True st = (st', res)"
      by (rule save_draft_sound [OF save inv])
    then show ?thesis
      using \<open>st' = st \<or> _\<close> Inr inv by (auto intro: sound_refl)
  qed (use inv in \<open>auto intro: sound_refl\<close>)
qed

section \<open>Operations on derived state\<close>

text \<open>What a step leaves of the records, and that the revision does not go back.\<close>

definition derives :: "(u8 list \<Rightarrow> str) \<Rightarrow> state_runtime \<Rightarrow> state_runtime \<times> (store_error + 'a) \<Rightarrow> bool" where
  "derives H rt m \<longleftrightarrow> (\<forall>r. snd m = Inr r \<longrightarrow> store_inv H (fst m) \<and> rt_records (fst m) = rt_records rt
     \<and> rt_snapshot_revision rt \<le> rt_snapshot_revision (fst m))"

lemma commit_draft_sound:
  assumes "commit_draft rt m = (rt', res)" and "store_inv H rt" and "derives H rt m"
  shows "sound H S (rt, d) (rt', d)"
  using assms by (cases m) (auto simp: commit_draft_def derives_def sound_def advances_def commits_def split: sum.splits)

lemma derives_bump:
  assumes "store_ok H rt'" "rt_records rt' = rt_records rt" "rt_snapshot_revision rt' = rt_snapshot_revision rt"
  shows "derives H rt (bump_and_settle H P rt')"
proof (cases "bump_and_settle H P rt'")
  case (Pair draft x)
  show ?thesis
  proof (cases x)
    case (Inr u)
    with Pair have b: "bump_and_settle H P rt' = (draft, Inr u)" by simp
    show ?thesis
      using b bump_and_settle_inv [OF assms(1) b] bumped_advances [OF b assms(3)]
        framed_simps(1) [OF bump_and_settle_shape(2) [OF b]] assms(2)
      by (simp add: derives_def advances_def)
  qed (use Pair in \<open>simp add: derives_def\<close>)
qed

lemma derives_settle:
  assumes "store_ok H rt'" "rt_records rt' = rt_records rt"
    "rt_snapshot_revision rt \<le> rt_snapshot_revision rt'"
  shows "derives H rt (settle H P rt')"
proof (cases "settle H P rt'")
  case (Pair draft x)
  show ?thesis
  proof (cases x)
    case (Inr u)
    with Pair have b: "settle H P rt' = (draft, Inr u)" by simp
    show ?thesis
      using b settle_inv [OF assms(1) b] framed_simps(1,9) [of rt' draft] settle_shape [OF b] assms(2,3)
      by (simp add: derives_def)
  qed (use Pair in \<open>simp add: derives_def\<close>)
qed

lemma derives_return: "derives H rt m \<Longrightarrow> derives H rt (and_then m (\<lambda>rt _. (rt, Inr (f rt))))"
  by (cases m; cases "snd m") (auto simp: derives_def)

lemma push_diagnostic_sound:
  assumes "push_diagnostic H P pane t rt = (rt', res)" and inv: "store_inv H rt"
  shows "sound H S (rt, d) (rt', d)"
  by (rule commit_draft_sound [OF assms(1) [unfolded push_diagnostic_def] inv derives_bump])
    (use inv in \<open>simp_all add: store_inv_def\<close>)

lemma mark_projection_changed_sound:
  assumes "mark_projection_changed H P rt = (rt', res)" and inv: "store_inv H rt"
  shows "sound H S (rt, d) (rt', d)"
  by (rule commit_draft_sound [OF assms(1) [unfolded mark_projection_changed_def] inv
        derives_return [OF derives_bump]])
    (use inv in \<open>simp_all add: store_inv_def\<close>)

text \<open>
  The two loops of a poll visit each key once. A loop whose body reads and writes only what
  belongs to its key does the same to every key.
\<close>

lemma foldl_local:
  assumes "\<And>st k. view (f st k) k = g k (view st k)" and "\<And>st k j. j \<noteq> k \<Longrightarrow> view (f st k) j = view st j"
    and "distinct ks"
  shows "view (foldl f st ks) j = (if j \<in> set ks then g j (view st j) else view st j)"
  using assms(3)
proof (induction ks arbitrary: st)
  case (Cons k ks)
  then show ?case using assms(1,2) by (cases "j = k") auto
qed simp

text \<open>What a poll leaves alone.\<close>

definition rest_frame :: "state_runtime \<Rightarrow> state_runtime \<Rightarrow> bool" where
  "rest_frame rt rt' \<longleftrightarrow> rt_transitions rt' = rt_transitions rt \<and> rt_diagnostics rt' = rt_diagnostics rt
     \<and> rt_notification_jobs rt' = rt_notification_jobs rt
     \<and> rt_notification_generations rt' = rt_notification_generations rt
     \<and> rt_fail_stopped rt' = rt_fail_stopped rt"

definition polled :: "(u8 list \<Rightarrow> str) \<Rightarrow> state_runtime \<Rightarrow> state_runtime \<times> bool \<Rightarrow> bool" where
  "polled H rt st \<longleftrightarrow> store_ok H (fst st) \<and> rt_records (fst st) = rt_records rt
     \<and> rt_snapshot_revision (fst st) = rt_snapshot_revision rt \<and> rest_frame rt (fst st)"

lemma calm_poll_polled:
  assumes "polled H rt st" and "key \<in> fst ` set (rt_triage (fst st))"
  shows "polled H rt (calm_poll st key)"
    and "fst ` set (rt_triage (fst st)) - {key} \<subseteq> fst ` set (rt_triage (fst (calm_poll st key)))"
  using assms
  by (auto simp: polled_def rest_frame_def calm_poll_def Let_def store_ok_def bm_invar_insert bm_invar_remove
      bm_keys_insert bm_keys_remove simp del: bm_remove_set)

lemma calm_polls_polled:
  "polled H rt st \<Longrightarrow> distinct ks \<Longrightarrow> set ks \<subseteq> fst ` set (rt_triage (fst st)) \<Longrightarrow>
    polled H rt (foldl calm_poll st ks)"
proof (induction ks arbitrary: st)
  case (Cons k ks)
  then have k: "k \<in> fst ` set (rt_triage (fst st))" by simp
  have "set ks \<subseteq> fst ` set (rt_triage (fst (calm_poll st k)))"
    using calm_poll_polled(2) [OF Cons.prems(1) k] Cons.prems(2,3) by auto
  then show ?case using Cons calm_poll_polled(1) [OF Cons.prems(1) k] by simp
qed simp

lemma flash_poll_polled: "polled H rt st \<Longrightarrow> polled H rt (flash_poll st key)"
proof -
  assume st: "polled H rt st"
  have "\<forall>e \<in> set (bm_insert key (n - 1) (rt_flash (fst st))). snd e \<le> 2"
    if "bm_get (rt_flash (fst st)) key = Some n" "\<not> n \<le> 1" for n
  proof (rule bm_insert_all)
    show "\<forall>e \<in> set (rt_flash (fst st)). snd e \<le> 2" using st by (simp add: polled_def store_ok_def)
    with bm_get_set [OF that(1)] have "n \<le> 2" by auto
    then show "snd (key, n - 1) \<le> 2" using that(2) by (simp add: word_le_nat_alt unat_sub_if')
  qed
  with st show ?thesis
    by (auto simp: polled_def rest_frame_def flash_poll_def Let_def store_ok_def bm_invar_insert bm_invar_remove
        split: option.splits)
qed

lemma foldl_invariant: "I s \<Longrightarrow> (\<And>s x. I s \<Longrightarrow> I (f s x)) \<Longrightarrow> I (foldl f s xs)"
  by (induction xs arbitrary: s) auto

text \<open>The state of a poll before it is checked.\<close>

definition poll_loops :: "state_runtime \<Rightarrow> state_runtime \<times> bool" where
  "poll_loops rt = (let st = foldl calm_poll (rt, False) (map fst (rt_triage rt))
     in foldl flash_poll st (map fst (rt_flash (fst st))))"

lemma bm_invar_distinct: "bm_invar m \<Longrightarrow> distinct (map fst m)"
  by (simp add: bm_invar_def sorted_wrt_distinct)

lemma poll_loops_polled: "store_ok H rt \<Longrightarrow> polled H rt (poll_loops rt)"
proof -
  assume ok: "store_ok H rt"
  then have "polled H rt (foldl calm_poll (rt, False) (map fst (rt_triage rt)))"
    by (intro calm_polls_polled) (auto simp: polled_def rest_frame_def store_ok_def bm_invar_distinct)
  then show ?thesis
    unfolding poll_loops_def Let_def by (rule foldl_invariant) (rule flash_poll_polled)
qed

lemma advance_poll_eq:
  "advance_poll_projection H P rt = commit_draft rt (and_then
     (if snd (poll_loops rt) then bump_and_settle H P (fst (poll_loops rt))
      else settle H P (fst (poll_loops rt))) (\<lambda>t _. (t, Inr (snd (poll_loops rt)))))"
  by (simp add: advance_poll_projection_def poll_loops_def Let_def)

lemma advance_poll_sound:
  assumes run: "advance_poll_projection H P rt = (rt', res)" and inv: "store_inv H rt"
  shows "sound H S (rt, d) (rt', d)"
proof -
  have "polled H rt (poll_loops rt)" using inv poll_loops_polled by (simp add: store_inv_def)
  then have "derives H rt (if snd (poll_loops rt) then bump_and_settle H P (fst (poll_loops rt))
      else settle H P (fst (poll_loops rt)))"
    by (auto simp: polled_def intro: derives_bump derives_settle)
  from commit_draft_sound [OF run [unfolded advance_poll_eq] inv derives_return [OF this]]
  show ?thesis .
qed

lemma trackers_mapped: "store_inv H rt \<Longrightarrow>
    store_inv H (rt\<lparr>rt_trackers := bm_map_values f (rt_trackers rt)\<rparr>)"
  by (simp add: store_inv_def store_ok_def collections_bounded_def bm_invar_map_values)

lemma expire_screen_evidence_sound:
  assumes run: "expire_screen_evidence now rt = (rt', res)" and inv: "store_inv H rt"
  shows "sound H S (rt, d) (rt', d)"
proof -
  obtain f where f: "rt' = rt\<lparr>rt_trackers := bm_map_values f (rt_trackers rt)\<rparr>
    \<or> rt_snapshot_revision rt \<noteq> - 1 \<and> rt' = rt\<lparr>rt_trackers := bm_map_values f (rt_trackers rt),
        rt_snapshot_revision := rt_snapshot_revision rt + 1\<rparr>"
    using run by (auto simp: expire_screen_evidence_def Let_def bump_snapshot_revision_def checked_inc_def
        split: if_splits)
  let ?rt = "rt\<lparr>rt_trackers := bm_map_values f (rt_trackers rt)\<rparr>"
  have inv': "store_inv H ?rt" by (rule trackers_mapped [OF inv])
  then have "store_inv H (?rt\<lparr>rt_snapshot_revision := n\<rparr>)" for n
    by (simp add: store_inv_def collections_bounded_def)
  with f inv' show ?thesis
    using inc_greater [of "rt_snapshot_revision rt"]
    by (auto simp: sound_def advances_def commits_def)
qed

lemma note_codex_binding_rejected_sound:
  assumes "note_codex_binding_rejected key expected process rt = (rt', res)" and "store_inv H rt"
  shows "sound H S (rt, d) (rt', d)"
  using assms
  by (auto simp: note_codex_binding_rejected_def Let_def sound_def advances_def commits_def store_inv_def
      trackers_ok collections_bounded_def split: option.splits if_splits sum.splits)

lemma foldl_push_bounded [simp]:
  "length ds \<le> n \<Longrightarrow> length (foldl (\<lambda>ds m. push_bounded n (f m) ds) ds ms) \<le> n"
  by (induction ms arbitrary: ds) auto

text \<open>A preflight, and a step that bumps only when nobody has bumped since.\<close>

lemma derives_preflight:
  assumes "store_ok H rt'" "collections_bounded rt'" "rt_records rt' = rt_records rt"
    "rt_snapshot_revision rt \<le> rt_snapshot_revision rt'"
  shows "derives H rt (preflight_projection P rt')"
proof (cases "preflight_projection P rt'")
  case (Pair t x)
  show ?thesis
  proof (cases x)
    case (Inr b)
    with Pair have p: "framed rt' t" by (simp add: preflight_shape)
    show ?thesis using Pair framed_simps(1,9) [OF p] framed_simps(12) [OF p, of H]
        framed_simps(13) [OF p] assms
      by (simp add: derives_def store_inv_def)
  qed (use Pair in \<open>simp add: derives_def\<close>)
qed

lemma derives_and_then:
  assumes "derives H rt m"
    and "\<And>t a. m = (t, Inr a) \<Longrightarrow> store_inv H t \<Longrightarrow> rt_records t = rt_records rt \<Longrightarrow>
      rt_snapshot_revision rt \<le> rt_snapshot_revision t \<Longrightarrow> derives H rt (f t a)"
  shows "derives H rt (and_then m f)"
proof (cases m)
  case (Pair t x)
  show ?thesis
  proof (cases x)
    case (Inr a)
    with Pair assms(1) have "store_inv H t" "rt_records t = rt_records rt"
      "rt_snapshot_revision rt \<le> rt_snapshot_revision t" by (simp_all add: derives_def)
    with assms(2) [of t a] Pair Inr show ?thesis by simp
  qed (use Pair in \<open>simp add: derives_def\<close>)
qed

lemma derives_Inr: "store_inv H t \<Longrightarrow> rt_records t = rt_records rt \<Longrightarrow>
    rt_snapshot_revision rt \<le> rt_snapshot_revision t \<Longrightarrow> derives H rt (t, r)"
  by (simp add: derives_def)

lemma derives_bump_revision:
  assumes "store_inv H t" "rt_records t = rt_records rt" "rt_snapshot_revision rt \<le> rt_snapshot_revision t"
  shows "derives H rt (bump_snapshot_revision t)"
  using assms inc_greater [of "rt_snapshot_revision t"]
  by (auto simp: derives_def bump_snapshot_revision_def checked_inc_def store_inv_def
      collections_bounded_def split: if_splits)

lemma derives_if: "derives H rt a \<Longrightarrow> derives H rt b \<Longrightarrow> derives H rt (if c then a else b)"
  by simp

lemma finish_sequenced_sound:
  assumes run: "finish_sequenced_projection H P pane messages changed before rt = (rt', res)"
    and inv: "store_inv H rt"
  shows "sound H S (rt, d) (rt', d)"
proof -
  let ?draft = "case pane of None \<Rightarrow> rt | Some pane \<Rightarrow> rt\<lparr>rt_diagnostics :=
      foldl (\<lambda>ds m. push_bounded MAX_DIAGNOSTICS \<lparr>dg_pane_instance = pane, dg_message = m\<rparr> ds)
        (rt_diagnostics rt) messages\<rparr>"
  have draft: "store_inv H ?draft" "rt_records ?draft = rt_records rt"
    "rt_snapshot_revision ?draft = rt_snapshot_revision rt"
    using inv by (auto simp: store_inv_def collections_bounded_def split: option.splits)
  have pre: "derives H rt (preflight_projection P t)"
    if "store_inv H t" "rt_records t = rt_records rt"
      "rt_snapshot_revision rt \<le> rt_snapshot_revision t" for t
    using derives_preflight [of H t rt P] that by (simp add: store_inv_def)
  have rev: "rt_snapshot_revision rt \<le> rt_snapshot_revision ?draft" using draft(3) by simp
  show ?thesis
    by (rule commit_draft_sound [OF run [unfolded finish_sequenced_projection_def Let_def] inv],
      (rule derives_and_then derives_if derives_bump_revision pre derives_Inr draft rev | assumption)+)
qed

end
