(* ===== verification/PaneReads.thy ===== *)
theory PaneReads
  imports PaneSaver
begin

text \<open>
  The bulk commit of pane reads, \<open>apply_pane_reads\<close>. An event of the batch that fails is
  skipped with what it left in the working state; the lemmas show that such a leftover
  never becomes visible, because the final check of the batch refuses it.
\<close>

text \<open>\<open>serde_json::to_vec\<close> on the types of the projection has no failing case.\<close>

definition encoder_total :: "preflight_encoder \<Rightarrow> bool" where
  "encoder_total P \<longleftrightarrow> (\<forall>n ss ts ds. \<exists>size'. P n ss ts ds = Inr size')"

section \<open>What a read can change\<close>

definition overfull :: "state_runtime \<Rightarrow> bool" where
  "overfull rt \<longleftrightarrow> length (rt_flash rt) > MAX_DIAGNOSTICS \<or> length (rt_triage rt) > MAX_DIAGNOSTICS"

definition rest_bounded :: "state_runtime \<Rightarrow> bool" where
  "rest_bounded rt \<longleftrightarrow> length (rt_transitions rt) \<le> MAX_DIAGNOSTICS
   \<and> length (rt_diagnostics rt) \<le> MAX_DIAGNOSTICS
   \<and> length (rt_notification_jobs rt) \<le> MAX_NOTIFICATION_JOBS
   \<and> length (rt_notification_generations rt) \<le> MAX_DIAGNOSTICS
   \<and> length (rt_triage_calm_polls rt) \<le> MAX_DIAGNOSTICS"

lemma collections_bounded_iff: "collections_bounded rt \<longleftrightarrow> rest_bounded rt \<and> \<not> overfull rt"
  by (auto simp: collections_bounded_def rest_bounded_def overfull_def)

lemma bm_insert_length: "length m \<le> length (bm_insert k v m)"
  by (induction k v m rule: bm_insert.induct) auto

lemma bm_remove_length: "length (bm_remove k m) \<le> length m"
  by (simp add: bm_remove_def)

lemma mark_read_internal:
  assumes "reduce_internal_state_event H current envelope context = Inr r"
    and "en_event envelope = MarkPaneRead n" and "rd_outcome r = CanonicalChanged"
  shows "\<exists>c s. current = Some c \<and> rd_record r = Some s \<and> ps_lifecycle s = ps_lifecycle c"
proof (cases current)
  case None
  with assms show ?thesis by (auto simp: reduce_internal_state_event_def unchanged_def)
next
  case (Some c)
  define t where "t = (case un_latest (ps_unread c) of
      Some latest \<Rightarrow> if uo_order latest \<le> n
        then c\<lparr>ps_unread := (ps_unread c)\<lparr>un_read_seq := un_occurrence_seq (ps_unread c)\<rparr>\<rparr> else c
    | None \<Rightarrow> c)"
  have "ps_lifecycle t = ps_lifecycle c" by (simp add: t_def split: option.split)
  moreover have "\<exists>tracker previous. finish_state_reduction H current t tracker previous = Inr r"
    using assms(1,2) Some by (auto simp: reduce_internal_state_event_def Let_def t_def)
  ultimately show ?thesis using Some
    by (auto simp: finish_state_reduction_def Let_def result_simps split: if_splits)
qed

lemma mark_read_lifecycle:
  assumes "reduce H current envelope context = Inr r" and "rd_outcome r = CanonicalChanged"
    and "en_event envelope = MarkPaneRead n" and "rd_record r = Some s"
  shows "\<exists>c. current = Some c \<and> ps_lifecycle s = ps_lifecycle c"
  using assms(1)
proof (cases rule: reduce_cases)
  case (changed s0 m s')
  have "s' = s0\<lparr>ps_revision := m\<rparr>"
    using changed(6) assms(3) by (simp add: apply_unread_transition_def)
  then show ?thesis
    using mark_read_internal [of H current envelope "context" "r\<lparr>rd_record := Some (s0\<lparr>ps_revision := m\<rparr>)\<rparr>" n]
      changed(1-3) assms(3,4)
    by (auto simp: reduce_event_def)
qed (use assms(2) in simp)

lemma blocked_lifecycle: "ps_lifecycle s = ps_lifecycle c \<Longrightarrow>
    resolve_badge s = Blocked \<longleftrightarrow> resolve_badge c = Blocked"
  by (simp add: resolve_badge_def split: lifecycle_state.split option.split)

lemma derive_read_fields:
  assumes "resolve_badge s = Blocked \<longleftrightarrow> resolve_badge c = Blocked"
    and "rt' = derive_candidate_projection pane (Some c) (Some s) event at_epoch rt"
  shows "rt_flash rt' = rt_flash rt \<or> rt_flash rt' = bm_insert (pane_key_of pane) 2 (rt_flash rt)"
    and "rt_triage rt' = rt_triage rt \<or> rt_triage rt' = bm_insert (pane_key_of pane) Blocked (rt_triage rt)"
    and "length (rt_transitions rt') \<le> MAX_DIAGNOSTICS"
    and "rt_diagnostics rt' = rt_diagnostics rt" "rt_notification_jobs rt' = rt_notification_jobs rt"
    and "rt_notification_generations rt' = rt_notification_generations rt
      \<or> rt_notification_generations rt' = bm_remove (pane_key_of pane) (rt_notification_generations rt)"
    and "rt_triage_calm_polls rt' = rt_triage_calm_polls rt
      \<or> rt_triage_calm_polls rt' = bm_remove (pane_key_of pane) (rt_triage_calm_polls rt)"
  using assms(1) unfolding assms(2) derive_candidate_projection_def Let_def record_badge_def
  by (cases "resolve_badge s = Blocked"; cases "resolve_badge s = resolve_badge c"; simp)+

lemma derive_read:
  assumes "resolve_badge s = Blocked \<longleftrightarrow> resolve_badge c = Blocked" and "rest_bounded rt"
  shows "rest_bounded (derive_candidate_projection pane (Some c) (Some s) event at_epoch rt)"
    and "overfull rt \<Longrightarrow> overfull (derive_candidate_projection pane (Some c) (Some s) event at_epoch rt)"
proof -
  note f = derive_read_fields [OF assms(1) refl, of pane event at_epoch rt]
  show "rest_bounded (derive_candidate_projection pane (Some c) (Some s) event at_epoch rt)"
    using f(3-5) f(6,7) assms(2) bm_remove_length [of "pane_key_of pane" "rt_notification_generations rt"]
      bm_remove_length [of "pane_key_of pane" "rt_triage_calm_polls rt"]
    by (force simp: rest_bounded_def)
  show "overfull rt \<Longrightarrow> overfull (derive_candidate_projection pane (Some c) (Some s) event at_epoch rt)"
    using f(1,2) bm_insert_length [of "rt_flash rt" "pane_key_of pane" 2]
      bm_insert_length [of "rt_triage rt" "pane_key_of pane" Blocked]
    by (force simp: overfull_def)
qed

lemma and_then_eq: "and_then m f = (s, r) \<longleftrightarrow>
    (\<exists>e. m = (s, Inl e) \<and> r = Inl e) \<or> (\<exists>t a. m = (t, Inr a) \<and> f t a = (s, r))"
  by (cases m; cases "snd m") auto

text \<open>A bump and a check touch the revision and the diagnostics, whatever they return.\<close>

definition reframed :: "state_runtime \<Rightarrow> state_runtime \<Rightarrow> bool" where
  "reframed rt rt' \<longleftrightarrow> rt' = rt\<lparr>rt_snapshot_revision := rt_snapshot_revision rt',
       rt_diagnostics := rt_diagnostics rt', rt_snapshot_frame_too_large := rt_snapshot_frame_too_large rt'\<rparr>
     \<and> (length (rt_diagnostics rt) \<le> MAX_DIAGNOSTICS \<longrightarrow> length (rt_diagnostics rt') \<le> MAX_DIAGNOSTICS)"

lemma bump_and_settle_any: "bump_and_settle H P rt = (rt', res) \<Longrightarrow> reframed rt rt'"
  by (auto simp: bump_and_settle_def settle_def bump_snapshot_revision_def checked_inc_def
      preflight_projection_def Let_def newest_length reframed_def and_then_eq
      split: sum.splits if_splits)

lemma reframed_simps:
  assumes "reframed rt rt'"
  shows "rt_records rt' = rt_records rt" "store_ok H rt' = store_ok H rt"
    "rest_bounded rt \<Longrightarrow> rest_bounded rt'" "overfull rt' = overfull rt"
    "rt_fail_stopped rt' = rt_fail_stopped rt" "rt_notification_jobs rt' = rt_notification_jobs rt"
    "rt_notification_generations rt' = rt_notification_generations rt"
proof -
  obtain n d b where "rt' = rt\<lparr>rt_snapshot_revision := n, rt_diagnostics := d, rt_snapshot_frame_too_large := b\<rparr>"
    "length (rt_diagnostics rt) \<le> MAX_DIAGNOSTICS \<longrightarrow> length d \<le> MAX_DIAGNOSTICS"
    using assms unfolding reframed_def by metis
  then show "rt_records rt' = rt_records rt" "store_ok H rt' = store_ok H rt"
    "rest_bounded rt \<Longrightarrow> rest_bounded rt'" "overfull rt' = overfull rt"
    "rt_fail_stopped rt' = rt_fail_stopped rt" "rt_notification_jobs rt' = rt_notification_jobs rt"
    "rt_notification_generations rt' = rt_notification_generations rt"
    by (simp_all add: rest_bounded_def overfull_def)
qed

text \<open>With an encoder that does not fail, a check fails only on a full collection.\<close>

lemma bump_and_settle_fails:
  assumes "bump_and_settle H P rt = (rt', Inl e)" and "store_ok H rt" and "encoder_total P"
    and "rest_bounded rt"
  shows "requires_daemon_exit e \<or> overfull rt'"
proof (cases "rt_snapshot_revision rt = - 1")
  case True
  with assms(1) show ?thesis
    by (auto simp: bump_and_settle_def bump_snapshot_revision_def checked_inc_def)
next
  case False
  let ?rt = "rt\<lparr>rt_snapshot_revision := rt_snapshot_revision rt + 1\<rparr>"
  have "settle H P ?rt = (rt', Inl e)"
    using assms(1) False by (simp add: bump_and_settle_def bump_snapshot_revision_def checked_inc_def)
  then have "\<not> collections_bounded ?rt"
    using assms(2,3) check_records_total [of H ?rt]
    by (auto simp: settle_def validate_projection_def preflight_projection_def encoder_total_def Let_def
        split: sum.splits) (metis sum.distinct(1))
  then have "overfull rt" using assms(4)
    by (auto simp: collections_bounded_iff rest_bounded_def overfull_def)
  with reframed_simps(4) [OF bump_and_settle_any [OF assms(1)]] show ?thesis by simp
qed

section \<open>One read of the batch\<close>

lemma tracker_reads:
  assumes "apply_tracker H P key delta rt = (rt', res)" and "encoder_total P" and "store_ok H rt"
    and "rest_bounded rt"
  shows "store_ok H rt' \<and> rest_bounded rt' \<and> rt_records rt' = rt_records rt
    \<and> (overfull rt \<longrightarrow> overfull rt')"
proof (cases delta)
  case None
  with assms show ?thesis by (simp add: apply_tracker_def)
next
  case (Some t)
  let ?rt = "rt\<lparr>rt_trackers := bm_insert key t (rt_trackers rt)\<rparr>"
  have ok: "store_ok H ?rt" "rest_bounded ?rt" "overfull ?rt = overfull rt"
    using trackers_ok [OF assms(3)] assms(4) by (simp_all add: rest_bounded_def overfull_def)
  from assms(1) Some have "rt' = ?rt \<or> bump_and_settle H P ?rt = (rt', res)"
    by (auto simp: apply_tracker_def Let_def split: if_splits)
  then show ?thesis
    using ok reframed_simps(1-4) [OF bump_and_settle_any [of H P ?rt rt' res]] by auto
qed

lemma read_in_memory:
  assumes run: "apply_event_in_memory H P entropy envelope visible secret rt = (rt', res)"
    and read: "en_event envelope = MarkPaneRead n" and total: "encoder_total P"
    and ok: "store_ok H rt" and rest: "rest_bounded rt"
  shows "(overfull rt \<longrightarrow> overfull rt')
    \<and> (store_ok H rt' \<and> rest_bounded rt')
    \<and> (rt_records rt' = rt_records rt \<or> overfull rt'
       \<or> (case res of Inr a \<Rightarrow> ar_outcome a = CanonicalChanged | Inl e \<Rightarrow> requires_daemon_exit e))"
  using run
proof (cases rule: apply_event_in_memory_conclude)
  case (reduced i r)
  let ?key = "pane_key_of (en_pane_instance envelope)"
  let ?current = "bm_get (rt_records rt) ?key"
  show ?thesis
  proof (cases "rd_outcome r = CanonicalChanged")
    case False
    with reduced(1) obtain x where "apply_tracker H P ?key (rd_tracker_delta r) rt = (rt', x)"
      by (auto simp: conclude_def Let_def and_then_eq)
    from tracker_reads [OF this total ok rest] show ?thesis by simp
  next
    case True
    from reduced(2) True obtain s where s: "rd_record r = Some s" "record_ok H (?key, s)"
      "order_step (rt_latest_unread_order rt) ?current s"
      by (elim reduce_changed) (auto simp: reduction_context_of_def)
    from mark_read_lifecycle [OF reduced(2) True read s(1)] obtain c where
      c: "?current = Some c" "ps_lifecycle s = ps_lifecycle c" by blast
    let ?w = "with_record ?key s (rd_tracker_delta r) rt"
    let ?b = "derive_candidate_projection (en_pane_instance envelope) (Some c) (Some s)
        (en_event envelope) (transition_at_epoch (en_event envelope) (Some s)) ?w"
    have w: "rest_bounded ?w" "overfull ?w = overfull rt"
      using rest by (simp_all add: with_record_def rest_bounded_def overfull_def)
    note b = derive_read [OF blocked_lifecycle [OF c(2)] w(1)]
    have okb: "store_ok H ?b" by (rule stored_ok [OF ok s(2,3)])
    obtain x where x: "bump_and_settle H P ?b = (rt', x)"
      "res = Inr \<lparr>ar_outcome = CanonicalChanged, ar_state_version = Some (version s),
          ar_snapshot_revision = rt_snapshot_revision rt'\<rparr> \<or> (\<exists>e. x = Inl e \<and> res = Inl e)"
      using reduced(1) True s(1) c(1) store_record_shape [OF ok s(2,3)]
      by (auto simp: conclude_def Let_def and_then_eq)
    note fr = reframed_simps [OF bump_and_settle_any [OF x(1)]]
    have "overfull rt \<longrightarrow> overfull rt'" "store_ok H rt' \<and> rest_bounded rt'"
      using fr(2-4) okb b w(2) by auto
    moreover have "overfull rt' \<or> (case res of Inr a \<Rightarrow> ar_outcome a = CanonicalChanged
        | Inl e \<Rightarrow> requires_daemon_exit e)"
      using x bump_and_settle_fails [OF _ okb total b(1)] by auto
    ultimately show ?thesis by blast
  qed
qed (use ok rest in auto)

section \<open>The batch\<close>

lemma read_panes_sound:
  assumes "read_panes H P revision envelopes (w, n, changed) = Inr (w', n', changed')"
    and "encoder_total P" "store_ok H w" "rest_bounded w"
    and "rt_records w = rs \<or> overfull w \<or> 0 < n \<and> changed"
  shows "store_ok H w' \<and> rest_bounded w'
    \<and> (rt_records w' = rs \<or> overfull w' \<or> 0 < n' \<and> changed') \<and> (0 < n \<and> changed \<longrightarrow> 0 < n' \<and> changed')"
  using assms
proof (induction envelopes arbitrary: w n changed)
  case (Cons envelope envelopes)
  let ?w = "w\<lparr>rt_snapshot_revision := revision\<rparr>"
  from Cons.prems(1) obtain m where m: "en_event envelope = MarkPaneRead m"
    by (auto split: pane_event.splits)
  obtain t x where t: "apply_event_in_memory H P (Inr []) envelope False None ?w = (t, x)" by fastforce
  have pre: "store_ok H ?w" "rest_bounded ?w" "overfull ?w = overfull w"
    using Cons.prems(3,4) by (simp_all add: rest_bounded_def overfull_def)
  note step = read_in_memory [OF t m Cons.prems(2) pre(1,2)]
  show ?case
  proof (cases x)
    case (Inr a)
    let ?n = "if ar_outcome a = CanonicalChanged then Suc n else n"
    let ?c = "changed \<or> ar_outcome a \<noteq> Noop"
    have "read_panes H P revision envelopes (t, ?n, ?c) = Inr (w', n', changed')"
      using Cons.prems(1) m t Inr by simp
    from Cons.IH [OF this Cons.prems(2)] step Inr pre(3) Cons.prems(5) show ?thesis by auto
  next
    case (Inl e)
    with Cons.prems(1) m t have e: "\<not> requires_daemon_exit e"
      and rest: "read_panes H P revision envelopes (t, n, changed) = Inr (w', n', changed')"
      by (auto split: if_splits)
    from Cons.IH [OF rest Cons.prems(2)] step Inl e pre(3) Cons.prems(5) show ?thesis by auto
  qed
qed simp

lemma apply_pane_reads_sound:
  assumes run: "apply_pane_reads H P S envelopes st = (st', res)" and inv: "store_inv H (fst st)"
    and total: "encoder_total P"
  shows "sound H S st st'"
proof -
  have stop: "sound H S st (stop_daemon (fst st), snd st)"
    using inv by (auto simp: sound_def stop_daemon_def commits_def advances_def store_inv_def
        collections_bounded_def)
  have same: "sound H S st st" using inv by (auto intro: sound_refl)
  let ?rev = "rt_snapshot_revision (fst st)"
  show ?thesis
  proof (cases "read_panes H P ?rev envelopes (fst st, 0, False)")
    case (Inl e)
    with run stop same show ?thesis
      by (cases e) (auto simp: apply_pane_reads_def Let_def split: if_splits)
  next
    case (Inr o')
    obtain w n c where o': "o' = (w, n, c)" by (cases o') auto
    have pre: "store_ok H (fst st)" "rest_bounded (fst st)"
      using inv by (simp_all add: store_inv_def collections_bounded_iff)
    have w: "store_ok H w" "rest_bounded w"
      "rt_records w = rt_records (fst st) \<or> overfull w \<or> 0 < n \<and> c"
      using read_panes_sound [OF Inr [unfolded o'] total pre, of "rt_records (fst st)"] by auto
    let ?w = "w\<lparr>rt_snapshot_revision := ?rev\<rparr>"
    let ?m = "if c then bump_and_settle H P ?w else settle H P ?w"
    have m: "and_then (if c then bump_snapshot_revision ?w else (?w, Inr ())) (\<lambda>w _. settle H P w) = ?m"
      by (simp add: bump_and_settle_def)
    obtain t x where t: "?m = (t, x)" by fastforce
    let ?result = "\<lparr>prr_committed = n, prr_snapshot_revision = rt_snapshot_revision t\<rparr>"
    have run': "(if rt_fail_stopped (fst st) then (st, Inl STOPPED)
        else case x of Inl e \<Rightarrow> ((stop_daemon (fst st), snd st), Inl e)
          | Inr _ \<Rightarrow> if n > 0 then save_draft S t ?result st else ((t, snd st), Inr ?result)) = (st', res)"
      using run by (simp only: apply_pane_reads_def Let_def Inr o' sum.case prod.case m t)
    show ?thesis
    proof (cases "rt_fail_stopped (fst st) \<or> (\<exists>e. x = Inl e)")
      case True
      with run' stop same show ?thesis by (auto split: if_splits)
    next
      case False
      then have x: "x = Inr ()" by (cases x) auto
      have t': "store_inv H t \<and> rt_records t = rt_records w \<and> \<not> overfull w
          \<and> rt_snapshot_revision t = (if c then ?rev + 1 else ?rev) \<and> (c \<longrightarrow> ?rev \<noteq> - 1)"
        using t x bump_and_settle_inv [of H ?w P t] settle_inv [of H ?w P t] w(1)
          bump_and_settle_shape [of H P ?w t] settle_shape [of H P ?w t] framed_simps(1,9)
        by (auto simp: validate_projection_iff collections_bounded_iff overfull_def split: if_splits)
      have adv: "advances (fst st) t" if "0 < n \<and> c \<or> rt_records w = rt_records (fst st)"
        using that t' inc_greater [of ?rev] by (auto simp: advances_def)
      show ?thesis
      proof (cases "0 < n")
        case True
        have "save_draft S t ?result st = (st', res)" using run' False x True by simp
        from save_draft_sound [OF this inv] show ?thesis using t' adv w(3) by blast
      next
        case none: False
        have "st' = (t, snd st)" "rt_records t = rt_records (fst st)"
          using run' False x none w(3) t' by auto
        then show ?thesis using t' adv by (auto simp: sound_def intro: commits_records)
      qed
    qed
  qed
qed

end
