(* ===== verification/PaneSnapshot.thy ===== *)
theory PaneSnapshot
  imports PaneRuntime PaneReads
begin

text \<open>
  The snapshot file of the pane records, \<open>src/src/pane_state/snapshot.rs\<close>: encoding and
  decoding with their checks, loading, and the atomic replacement of the file. \<open>E\<close> and \<open>D\<close>
  stand for \<open>serde_json\<close> on \<open>PaneStateSnapshot\<close>. What the file system answers to each call
  is a record of the environment; what it holds is \<open>snapshot_files\<close>.
\<close>

unbundle bit_operations_syntax

definition PANE_SNAPSHOT_SCHEMA_VERSION :: u16 where "PANE_SNAPSHOT_SCHEMA_VERSION = 11"

record pane_state_snapshot =
  sn_schema_version :: u16
  sn_server_identity :: server_identity
  sn_records :: "pane_state list"

type_synonym snapshot_encoder = "pane_state_snapshot \<Rightarrow> str + u8 list"
type_synonym snapshot_decoder = "u8 list \<Rightarrow> str + pane_state_snapshot"

definition persist_failed :: "str \<Rightarrow> store_error" where
  "persist_failed m = PersistFailed (MsgValue '''' m)"

section \<open>Encoding and decoding\<close>

fun validate_records :: "(u8 list \<Rightarrow> str) \<Rightarrow> pane_records \<Rightarrow> store_error + unit" where
  "validate_records H [] = Inr ()"
| "validate_records H ((k, s) # rs) =
    (if pane_key_of (ps_pane_instance s) \<noteq> k
     then Inl (PersistFailed (Msg ''pane snapshot key and state identity disagree''))
     else bind_r (map_err PersistFailed (pane_state_validate H s)) (\<lambda>_. validate_records H rs))"

definition encode_snapshot :: "(u8 list \<Rightarrow> str) \<Rightarrow> snapshot_encoder \<Rightarrow> server_identity \<Rightarrow>
    pane_records \<Rightarrow> store_error + u8 list" where
  "encode_snapshot H E identity records =
    bind_r (validate_records H records) (\<lambda>_.
    bind_r (map_err persist_failed (E \<lparr>sn_schema_version = PANE_SNAPSHOT_SCHEMA_VERSION,
        sn_server_identity = identity, sn_records = map snd records\<rparr>)) (\<lambda>encoded.
    if length encoded > MAX_RESPONSE_FRAME_BYTES then Inl StateTooLarge else Inr encoded))"

definition insert_record :: "(u8 list \<Rightarrow> str) \<Rightarrow> pane_records \<Rightarrow> pane_state \<Rightarrow>
    store_error + pane_records" where
  "insert_record H records s =
    bind_r (map_err PersistFailed (pane_state_validate H s)) (\<lambda>_.
    let pane = pane_key_of (ps_pane_instance s)
    in if bm_get records pane \<noteq> None
       then Inl (PersistFailed (MsgValue ''pane snapshot contains duplicate pane instance ''
         (fst pane @ lit ('':'' @ decimal (unat (snd pane))))))
       else Inr (bm_insert pane s records))"

definition decode_snapshot :: "(u8 list \<Rightarrow> str) \<Rightarrow> snapshot_decoder \<Rightarrow> server_identity \<Rightarrow>
    u8 list \<Rightarrow> store_error + pane_records" where
  "decode_snapshot H D expected_identity encoded =
    (if length encoded > MAX_RESPONSE_FRAME_BYTES then Inl StateTooLarge
     else bind_r (map_err (\<lambda>e. PersistFailed (MsgValue ''corrupt pane snapshot: '' e)) (D encoded))
       (\<lambda>snapshot.
         if sn_schema_version snapshot \<noteq> PANE_SNAPSHOT_SCHEMA_VERSION
         then Inl (PersistFailed (Msg (''unsupported pane snapshot schema version ''
           @ decimal (unat (sn_schema_version snapshot)))))
         else if sn_server_identity snapshot \<noteq> expected_identity
         then Inl (PersistFailed
           (Msg ''pane snapshot server identity does not match current tmux server''))
         else fold_r (insert_record H) [] (sn_records snapshot)))"

section \<open>Permissions\<close>

record file_metadata =
  md_is_symlink :: bool
  md_is_file :: bool
  md_is_dir :: bool
  md_uid :: u32
  md_mode :: u32

datatype stat_result = StatNotFound | StatFailed str | Stat file_metadata

definition validate_private_directory :: "u32 \<Rightarrow> str \<Rightarrow> file_metadata \<Rightarrow> store_error + unit" where
  "validate_private_directory euid path metadata = fail_if
    (md_is_symlink metadata \<or> \<not> md_is_dir metadata \<or> md_uid metadata \<noteq> euid
     \<or> md_mode metadata AND 0x1FF \<noteq> 0x1C0)
    (PersistFailed (MsgValue ''insecure pane snapshot directory: '' path))"

definition validate_private_file :: "u32 \<Rightarrow> str \<Rightarrow> file_metadata \<Rightarrow> store_error + unit" where
  "validate_private_file euid path metadata = fail_if
    (md_is_symlink metadata \<or> \<not> md_is_file metadata \<or> md_uid metadata \<noteq> euid
     \<or> md_mode metadata AND 0x1FF \<noteq> 0x180)
    (PersistFailed (MsgValue ''insecure pane snapshot file: '' path))"

section \<open>Loading\<close>

record load_environment =
  le_stat :: stat_result
  le_stat_previous :: stat_result
  le_open :: "str + unit"
  le_fstat :: "str + file_metadata"
  le_read :: "str + u8 list"

definition previous_snapshot :: "stat_result \<Rightarrow> store_error + pane_records" where
  "previous_snapshot previous = (case previous of
      Stat _ \<Rightarrow> Inl (PersistFailed (Msg (''pane-state-v10.json requires an offline schema 11 conversion; if schema ''
        @ ''11 was intentionally removed to reset state, archive the old file outside daemon storage ''
        @ ''instead of reconverting it; see RELEASING.md'')))
    | StatNotFound \<Rightarrow> Inr []
    | StatFailed e \<Rightarrow> Inl (persist_failed e))"

definition load_snapshot :: "(u8 list \<Rightarrow> str) \<Rightarrow> snapshot_decoder \<Rightarrow> u32 \<Rightarrow> str \<Rightarrow>
    server_identity \<Rightarrow> load_environment \<Rightarrow> store_error + pane_records" where
  "load_snapshot H D euid path expected_identity env =
    (case le_stat env of
       StatNotFound \<Rightarrow> previous_snapshot (le_stat_previous env)
     | StatFailed e \<Rightarrow> Inl (persist_failed e)
     | Stat metadata \<Rightarrow>
         bind_r (validate_private_file euid path metadata) (\<lambda>_.
         bind_r (map_err persist_failed (le_open env)) (\<lambda>_.
         bind_r (map_err persist_failed (le_fstat env)) (\<lambda>opened.
         bind_r (validate_private_file euid path opened) (\<lambda>_.
         bind_r (map_err persist_failed (le_read env)) (\<lambda>content.
           decode_snapshot H D expected_identity (take (MAX_RESPONSE_FRAME_BYTES + 1) content)))))))"

section \<open>Saving\<close>

text \<open>The snapshot file and the temporary file beside it.\<close>

record snapshot_files =
  sf_current :: "u8 list option"
  sf_temp :: "u8 list option"

datatype mkdir_result = MkdirCreated | MkdirAlreadyExists | MkdirFailed str

record save_environment =
  se_parent :: "str option"
  se_stat_parent :: stat_result
  se_create_ancestors :: "str + unit"
  se_create_parent :: mkdir_result
  se_stat_created :: "str + file_metadata"
  se_stat :: stat_result
  se_file_name :: "str option"
  se_create_temp :: "str + unit"
  se_write :: "str + unit"
  se_written :: nat
  se_sync :: "str + unit"
  se_rename :: "str + unit"
  se_sync_parent :: "str + unit"

definition ensure_private_parent :: "u32 \<Rightarrow> save_environment \<Rightarrow> store_error + unit" where
  "ensure_private_parent euid env =
    (case se_parent env of
       None \<Rightarrow> Inl (PersistFailed (Msg ''pane snapshot path has no parent''))
     | Some parent \<Rightarrow>
    (case se_stat_parent env of
       Stat metadata \<Rightarrow> validate_private_directory euid parent metadata
     | StatNotFound \<Rightarrow>
         bind_r (map_err persist_failed (se_create_ancestors env)) (\<lambda>_.
         bind_r (case se_create_parent env of
             MkdirFailed e \<Rightarrow> Inl (persist_failed e) | _ \<Rightarrow> Inr ()) (\<lambda>_.
         bind_r (map_err persist_failed (se_stat_created env)) (\<lambda>metadata.
           validate_private_directory euid parent metadata)))
     | StatFailed e \<Rightarrow> Inl (persist_failed e)))"

text \<open>
  The closure of \<open>save_snapshot\<close>: a failed write leaves a prefix in the temporary file, and
  \<open>rename\<close> replaces the snapshot in one step.
\<close>

definition replace_file :: "u8 list \<Rightarrow> save_environment \<Rightarrow> snapshot_files \<Rightarrow>
    snapshot_files \<times> (store_error + unit)" where
  "replace_file encoded env files =
    and_then (case se_create_temp env of Inl e \<Rightarrow> (files, Inl (persist_failed e))
        | Inr _ \<Rightarrow> (files\<lparr>sf_temp := Some []\<rparr>, Inr ())) (\<lambda>files _.
    and_then (case se_write env of
          Inl e \<Rightarrow> (files\<lparr>sf_temp := Some (take (se_written env) encoded)\<rparr>, Inl (persist_failed e))
        | Inr _ \<Rightarrow> (files\<lparr>sf_temp := Some encoded\<rparr>, Inr ())) (\<lambda>files _.
    and_then (files, map_err persist_failed (se_sync env)) (\<lambda>files _.
    and_then (case se_rename env of Inl e \<Rightarrow> (files, Inl (persist_failed e))
        | Inr _ \<Rightarrow> (files\<lparr>sf_current := sf_temp files, sf_temp := None\<rparr>, Inr ())) (\<lambda>files _.
      (files, map_err persist_failed (se_sync_parent env))))))"

definition save_snapshot :: "(u8 list \<Rightarrow> str) \<Rightarrow> snapshot_encoder \<Rightarrow> u32 \<Rightarrow> str \<Rightarrow>
    server_identity \<Rightarrow> pane_records \<Rightarrow> save_environment \<Rightarrow> snapshot_files \<Rightarrow>
    snapshot_files \<times> (store_error + unit)" where
  "save_snapshot H E euid path identity records env files =
    (case bind_r (encode_snapshot H E identity records) (\<lambda>encoded.
        bind_r (ensure_private_parent euid env) (\<lambda>_.
        bind_r (case se_stat env of
            Stat metadata \<Rightarrow> validate_private_file euid path metadata | _ \<Rightarrow> Inr ()) (\<lambda>_.
        bind_r (case se_file_name env of
            None \<Rightarrow> Inl (PersistFailed (Msg ''pane snapshot path has no file name''))
          | Some _ \<Rightarrow> Inr ()) (\<lambda>_. Inr encoded)))) of
       Inl e \<Rightarrow> (files, Inl e)
     | Inr encoded \<Rightarrow>
         let (files', result) = replace_file encoded env files
         in (if is_ok result then files' else files'\<lparr>sf_temp := None\<rparr>, result))"

definition retain_topology_records :: "pane_records \<Rightarrow> pane_key list \<Rightarrow> pane_records" where
  "retain_topology_records records topology = filter (\<lambda>e. fst e \<in> set topology) records"

text \<open>
  The file store keeps the contract of the pane store: the interpretation of the interface
  on \<open>save_snapshot\<close>, and what a restart reads back.
\<close>

section \<open>The file store as storage\<close>

text \<open>
  \<open>FilePaneSnapshotStore\<close>: each call of \<open>save\<close> meets the next answers of the file system.
\<close>

definition file_saver :: "(u8 list \<Rightarrow> str) \<Rightarrow> snapshot_encoder \<Rightarrow> u32 \<Rightarrow> str \<Rightarrow> server_identity \<Rightarrow>
    (nat \<Rightarrow> save_environment) \<Rightarrow> (snapshot_files \<times> nat) saver" where
  "file_saver H E euid path identity plan records d =
    (let (files, result) = save_snapshot H E euid path identity records (plan (snd d)) (fst d)
     in ((files, Suc (snd d)), result))"

definition snapshot_image :: "(u8 list \<Rightarrow> str) \<Rightarrow> snapshot_encoder \<Rightarrow> server_identity \<Rightarrow>
    pane_records \<Rightarrow> u8 list option" where
  "snapshot_image H E identity records =
    (case encode_snapshot H E identity records of Inr bytes \<Rightarrow> Some bytes | Inl _ \<Rightarrow> None)"

lemma replace_file_effect:
  assumes "replace_file encoded env files = (files', res)"
  shows "case res of Inr _ \<Rightarrow> sf_current files' = Some encoded \<and> sf_temp files' = None
    | Inl _ \<Rightarrow> sf_current files' = sf_current files \<or> sf_current files' = Some encoded"
  using assms
  by (auto simp: replace_file_def and_then_eq map_err_def split: sum.splits)

lemma save_snapshot_effect:
  assumes "save_snapshot H E euid path identity records env files = (files', res)"
  shows "case res of
      Inr _ \<Rightarrow> \<exists>bytes. encode_snapshot H E identity records = Inr bytes \<and> sf_current files' = Some bytes
        \<and> sf_temp files' = None
    | Inl _ \<Rightarrow> sf_current files' = sf_current files
        \<or> (\<exists>bytes. encode_snapshot H E identity records = Inr bytes \<and> sf_current files' = Some bytes)"
proof (cases "\<exists>bytes. replace_file bytes env files = (files', res)
    \<and> encode_snapshot H E identity records = Inr bytes \<and> is_ok res")
  case True
  then obtain bytes where *: "replace_file bytes env files = (files', res)"
    "encode_snapshot H E identity records = Inr bytes" "is_ok res" by blast
  from replace_file_effect [OF *(1)] *(2,3) show ?thesis by (auto split: sum.splits)
next
  case False
  show ?thesis
  proof (cases res)
    case (Inr u)
    with assms False show ?thesis
      by (auto simp: save_snapshot_def Let_def result_simps split: sum.splits prod.splits if_splits)
  next
    case (Inl e)
    with assms have "sf_current files' = sf_current files
      \<or> (\<exists>bytes f. encode_snapshot H E identity records = Inr bytes
          \<and> replace_file bytes env files = (f, Inl e) \<and> sf_current files' = sf_current f)"
      by (auto simp: save_snapshot_def Let_def result_simps split: sum.splits prod.splits if_splits)
    with Inl show ?thesis using replace_file_effect by force
  qed
qed

interpretation filed: pane_saver "file_saver H E euid path identity plan"
  "\<lambda>d. sf_current (fst d)" "snapshot_image H E identity" for H E euid path identity plan
  by unfold_locales (auto simp: file_saver_def snapshot_image_def split: prod.splits
      dest!: save_snapshot_effect)

section \<open>What comes back\<close>

text \<open>\<open>private_input\<close> has \<open>#[serde(skip)]\<close>: it does not survive a restart.\<close>

definition erase_private :: "pane_state \<Rightarrow> pane_state" where
  "erase_private s = s\<lparr>ps_task_context := (ps_task_context s)\<lparr>tc_private_input := None\<rparr>\<rparr>"

definition durable_records :: "pane_records \<Rightarrow> pane_records" where
  "durable_records rs = bm_map_values (\<lambda>_. erase_private) rs"

text \<open>\<open>serde_json\<close> reads back what it wrote of valid records, but for the skipped field.\<close>

definition json_snapshot :: "(u8 list \<Rightarrow> str) \<Rightarrow> snapshot_encoder \<Rightarrow> snapshot_decoder \<Rightarrow> bool" where
  "json_snapshot H E D \<longleftrightarrow> (\<forall>s bytes. E s = Inr bytes \<longrightarrow>
     list_all (\<lambda>r. pane_state_validate H r = Inr ()) (sn_records s) \<longrightarrow>
     D bytes = Inr (s\<lparr>sn_records := map erase_private (sn_records s)\<rparr>))"

lemma erase_valid:
  assumes "pane_state_validate H s = Inr ()"
  shows "pane_state_validate H (erase_private s) = Inr ()"
proof -
  have "task_context_validate H ((ps_task_context s)\<lparr>tc_private_input := None\<rparr>) = Inr ()"
    if "task_context_validate H (ps_task_context s) = Inr ()"
    using that by (auto simp: task_context_validate_def result_simps summary_input_def
        task_context_validate_public_def split: option.splits)
  then show ?thesis using assms
    by (auto simp: pane_state_validate_def erase_private_def validate_details_def validate_lifecycle_def
        validate_sequence_def absent_lifecycle_ok_def result_simps split: option.splits)
qed

lemma validate_records_iff:
  "validate_records H rs = Inr () \<longleftrightarrow> (\<forall>e \<in> set rs. record_ok H e)"
  by (induction H rs rule: validate_records.induct) (auto simp: record_ok_def result_simps)

lemma record_ok_erase: "record_ok H e \<Longrightarrow> record_ok H (fst e, erase_private (snd e))"
  using erase_valid by (auto simp: record_ok_def erase_private_def)

text \<open>Inserting sorted records one by one rebuilds the map.\<close>

lemma insert_records_sorted:
  assumes "bm_invar (done @ rs)" and "\<forall>e \<in> set rs. record_ok H e"
  shows "fold_r (insert_record H) done (map snd rs) = Inr (done @ rs)"
  using assms
proof (induction rs arbitrary: "done")
  case (Cons e rs)
  have less: "\<forall>d \<in> set done. fst d < fst e"
    using Cons.prems(1) by (auto simp: bm_invar_def sorted_wrt_append)
  then have "bm_get done (fst e) = None" by (auto simp: map_of_eq_None_iff)
  moreover have e: "pane_state_validate H (snd e) = Inr ()" "pane_key_of (ps_pane_instance (snd e)) = fst e"
    using Cons.prems(2) by (auto simp: record_ok_def)
  ultimately have "insert_record H done (snd e) = Inr (done @ [e])"
    using bm_insert_last [OF less, of "snd e"] by (simp add: insert_record_def)
  moreover have "bm_invar ((done @ [e]) @ rs)" using Cons.prems(1) by simp
  ultimately show ?case using Cons.IH [of "done @ [e]"] Cons.prems(2) by simp
qed simp

lemma decode_encode:
  assumes "encode_snapshot H E identity rs = Inr bytes" and "json_snapshot H E D" and "bm_invar rs"
  shows "decode_snapshot H D identity bytes = Inr (durable_records rs)"
proof -
  have ok: "\<forall>e \<in> set rs. record_ok H e" and len: "length bytes \<le> MAX_RESPONSE_FRAME_BYTES"
    and enc: "E \<lparr>sn_schema_version = PANE_SNAPSHOT_SCHEMA_VERSION, sn_server_identity = identity,
      sn_records = map snd rs\<rparr> = Inr bytes"
    using assms(1) by (auto simp: encode_snapshot_def result_simps validate_records_iff split: if_splits)
  have "list_all (\<lambda>r. pane_state_validate H r = Inr ()) (map snd rs)"
    using ok by (auto simp: list_all_iff record_ok_def)
  then have "D bytes = Inr \<lparr>sn_schema_version = PANE_SNAPSHOT_SCHEMA_VERSION,
      sn_server_identity = identity, sn_records = map erase_private (map snd rs)\<rparr>"
    using assms(2) enc unfolding json_snapshot_def by fastforce
  moreover have "map erase_private (map snd rs) = map snd (durable_records rs)"
    by (simp add: durable_records_def bm_map_values_def)
  moreover have "\<forall>e \<in> set (durable_records rs). record_ok H e"
    using ok record_ok_erase by (auto simp: durable_records_def bm_map_values_def)
  ultimately show ?thesis
    using len insert_records_sorted [of "[]" "durable_records rs" H] bm_invar_map_values [OF assms(3)]
    by (simp add: decode_snapshot_def durable_records_def)
qed

text \<open>What is read back is accepted by \<open>hydrate\<close>, with the order counter of before at most.\<close>

lemma orders_durable [simp]: "orders (durable_records rs) = orders rs"
  by (induction rs) (auto simp: durable_records_def bm_map_values_def latest_occurrence_def
      erase_private_def split: option.splits)

lemma max_order_bound: "\<forall>n \<in> set (orders rs). n \<le> max_order rs"
proof -
  have "m \<le> foldl (\<lambda>m e. case un_latest (ps_unread (snd e)) of None \<Rightarrow> m | Some l \<Rightarrow> max m (uo_order l)) m rs
    \<and> (\<forall>n \<in> set (orders rs). n \<le> foldl (\<lambda>m e. case un_latest (ps_unread (snd e)) of
        None \<Rightarrow> m | Some l \<Rightarrow> max m (uo_order l)) m rs)" for m
    by (induction rs arbitrary: m) (fastforce simp: latest_occurrence_def split: option.splits)+
  then show ?thesis by (simp add: max_order_def)
qed

lemma bm_invar_collect: "bm_invar (collect_panes f rs)"
  unfolding collect_panes_def
  by (rule foldl_invariant) (auto simp: bm_invar_def bm_invar_insert [unfolded bm_invar_def]
      split: option.splits)

lemma hydrate_ok:
  assumes "records_ok H rs"
  obtains rt where "hydrate H rs = Inr rt" "store_ok H rt" "rt_records rt = rs"
proof -
  have v: "validate_projection H (runtime_default\<lparr>rt_records := rs, rt_latest_unread_order := max_order rs\<rparr>) = Inr ()"
    using assms by (simp add: validate_projection_iff records_ok_def runtime_default_def
        collections_bounded_def)
  show thesis
    using v assms max_order_bound [of rs] that
    by (simp add: hydrate_def Let_def store_ok_def runtime_default_def bm_invar_def [of "[]"] bm_invar_collect)
qed

lemma records_ok_durable: "records_ok H rs \<Longrightarrow> records_ok H (durable_records rs)"
  using record_ok_erase
  by (auto simp: records_ok_def durable_records_def bm_invar_map_values)
    (auto simp: bm_map_values_def orders_durable [unfolded durable_records_def bm_map_values_def])

end
