(* ===== verification/PaneStoreTheorems.thy ===== *)
theory PaneStoreTheorems
  imports PaneSnapshot
begin

text \<open>
  The pane store as a machine that serves requests, and its theorems: the invariant of
  every reachable state, durability before visibility, where errors come from, the meaning
  of the snapshot revision, notifications, and polls that come to rest.
\<close>

section \<open>Requests\<close>

datatype store_request =
  ApplyEventRequest "str + u8 list" pane_event_envelope bool "str option"
| ProjectRunRequest pane_key current_durable_run_projection bool i64
| RemoveAbsentRequest pane_key "stored_state_descriptor option"
| PaneReadsRequest "pane_event_envelope list"
| BindingRejectedRequest pane_key state_version agent_process_identity
| PollRequest
| ExpireScreensRequest i64
| DiagnosticRequest pane_instance str
| ProjectionChangedRequest
| SequencedRequest "pane_instance option" "str list" bool u64

fun error_of :: "'e + 'a \<Rightarrow> 'e option" where
  "error_of (Inl e) = Some e" | "error_of (Inr _) = None"

definition on_runtime :: "(state_runtime \<Rightarrow> state_runtime \<times> (store_error + 'a)) \<Rightarrow> state_runtime \<times> 'd \<Rightarrow>
    (state_runtime \<times> 'd) \<times> store_error option" where
  "on_runtime f st = ((fst (f (fst st)), snd st), error_of (snd (f (fst st))))"

fun serve :: "(u8 list \<Rightarrow> str) \<Rightarrow> preflight_encoder \<Rightarrow> 'd saver \<Rightarrow> store_request \<Rightarrow>
    state_runtime \<times> 'd \<Rightarrow> (state_runtime \<times> 'd) \<times> store_error option" where
  "serve H P S (ApplyEventRequest entropy envelope visible secret) st =
     map_prod id error_of (apply_event H P S entropy envelope visible secret st)"
| "serve H P S (ProjectRunRequest key projection active at) st =
     map_prod id error_of (project_current_run H P S key projection active at st)"
| "serve H P S (RemoveAbsentRequest key expected) st =
     map_prod id error_of (remove_absent_pane H P S key expected st)"
| "serve H P S (PaneReadsRequest envelopes) st =
     map_prod id error_of (apply_pane_reads H P S envelopes st)"
| "serve H P S (BindingRejectedRequest key expected process) st =
     on_runtime (note_codex_binding_rejected key expected process) st"
| "serve H P S PollRequest st = on_runtime (advance_poll_projection H P) st"
| "serve H P S (ExpireScreensRequest now) st = on_runtime (expire_screen_evidence now) st"
| "serve H P S (DiagnosticRequest pane message) st = on_runtime (push_diagnostic H P pane message) st"
| "serve H P S ProjectionChangedRequest st = on_runtime (mark_projection_changed H P) st"
| "serve H P S (SequencedRequest pane messages changed before) st =
     on_runtime (finish_sequenced_projection H P pane messages changed before) st"

lemmas runtime_sound =
  note_codex_binding_rejected_sound [OF surjective_pairing]
  advance_poll_sound [OF surjective_pairing]
  expire_screen_evidence_sound [OF surjective_pairing]
  push_diagnostic_sound [OF surjective_pairing]
  mark_projection_changed_sound [OF surjective_pairing]
  finish_sequenced_sound [OF surjective_pairing]

lemmas storage_sound =
  apply_event_sound [OF _ surjective_pairing]
  project_current_run_sound [OF _ surjective_pairing]
  remove_absent_pane_sound [OF _ surjective_pairing]

lemma serve_sound:
  assumes inv: "store_inv H (fst st)" and total: "encoder_total P"
  shows "sound H S st (fst (serve H P S q st))"
proof -
  obtain rt d where st: "st = (rt, d)" by fastforce
  show ?thesis
  proof (cases q)
    case (PaneReadsRequest envelopes)
    then show ?thesis
      using apply_pane_reads_sound [OF surjective_pairing inv total] by simp
  qed (use inv st in \<open>simp_all add: on_runtime_def runtime_sound storage_sound\<close>)
qed

text \<open>The states a daemon reaches: any requests, any answers of the storage.\<close>

inductive served :: "(u8 list \<Rightarrow> str) \<Rightarrow> preflight_encoder \<Rightarrow> 'd saver \<Rightarrow> state_runtime \<times> 'd \<Rightarrow>
    state_runtime \<times> 'd \<Rightarrow> bool" for H P S st where
  start: "served H P S st st"
| request: "served H P S st st' \<Longrightarrow> served H P S st (fst (serve H P S q st'))"

inductive_cases served_elim: "served H P S st st'"

lemma served_inv:
  "served H P S st st' \<Longrightarrow> store_inv H (fst st) \<Longrightarrow> encoder_total P \<Longrightarrow>
    store_inv H (fst st') \<and> advances (fst st) (fst st')"
proof (induction rule: served.induct)
  case (request st' q)
  then have inv: "store_inv H (fst st')" and adv: "advances (fst st) (fst st')" by simp_all
  have "sound H S st' (fst (serve H P S q st'))" by (rule serve_sound [OF inv request.prems(2)])
  then show ?case using advances_trans [OF adv] by (simp add: sound_def)
qed simp

section \<open>The properties\<close>

lemma hydrate_inv:
  assumes "hydrate H rs = Inr rt" and "bm_invar rs" and "collections_bounded rt"
  shows "store_inv H rt \<and> rt_records rt = rs"
proof -
  have "records_ok H rs"
    using assms(1,2) by (auto simp: hydrate_def Let_def result_simps validate_projection_iff records_ok_def)
  from hydrate_ok [OF this] assms show ?thesis by (auto simp: store_inv_def)
qed

lemma orders_unique:
  "distinct (orders rs) \<Longrightarrow> e \<in> set rs \<Longrightarrow> f \<in> set rs \<Longrightarrow> latest_occurrence (snd e) = Some l \<Longrightarrow>
    latest_occurrence (snd f) = Some m \<Longrightarrow> uo_order l = uo_order m \<Longrightarrow> e = f"
proof (induction rs)
  case (Cons g rs)
  have "uo_order l \<in> set (orders rs)" if "e \<in> set rs \<or> f \<in> set rs"
    using that set_ordersI [OF _ Cons.prems(4)] set_ordersI [OF _ Cons.prems(5)] Cons.prems(6) by auto
  then show ?case using Cons by (auto split: option.splits)
qed simp

text \<open>
  C10. After a restart and any requests, whatever the storage answers, the records are
  those of their keys, valid, and no two of them have the same unread order; the daemon's
  order counter is at least all of them.
\<close>

theorem store_records_consistent:
  assumes "hydrate H rs = Inr rt0" and "bm_invar rs" and "collections_bounded rt0"
    and "encoder_total P" and "served H P S (rt0, d0) (rt, d)"
  shows "bm_invar (rt_records rt)
    \<and> (\<forall>e \<in> set (rt_records rt). pane_key_of (ps_pane_instance (snd e)) = fst e
        \<and> pane_state_validate H (snd e) = Inr ())
    \<and> (\<forall>e \<in> set (rt_records rt). \<forall>f \<in> set (rt_records rt). \<forall>l m.
        un_latest (ps_unread (snd e)) = Some l \<and> un_latest (ps_unread (snd f)) = Some m
        \<and> uo_order l = uo_order m \<longrightarrow> e = f)
    \<and> (\<forall>e \<in> set (rt_records rt). latest_order (snd e) \<le> rt_latest_unread_order rt)"
proof -
  have "store_ok H rt"
    using served_inv [OF assms(5)] hydrate_inv [OF assms(1-3)] assms(4) by (simp add: store_inv_def)
  then have ok: "records_ok H (rt_records rt)"
    "\<forall>n \<in> set (orders (rt_records rt)). n \<le> rt_latest_unread_order rt"
    by (simp_all add: store_ok_def)
  have "latest_order (snd e) \<le> rt_latest_unread_order rt" if "e \<in> set (rt_records rt)" for e
    using ok(2) set_ordersI [OF that]
    by (auto simp: latest_order_def latest_occurrence_def split: option.splits)
  with ok orders_unique [of "rt_records rt"] show ?thesis
    by (auto simp: records_ok_def record_ok_def latest_occurrence_def)
qed


theorem same_snapshot_revision_same_records:
  assumes "store_inv H rt" and "encoder_total P" and "served H P S (rt, d) (rt', d')"
  shows "rt_snapshot_revision rt \<le> rt_snapshot_revision rt'
    \<and> (rt_snapshot_revision rt' = rt_snapshot_revision rt \<longrightarrow> rt_records rt' = rt_records rt)"
  using served_inv [OF assms(3)] assms(1,2) by (auto simp: advances_def)

text \<open>
  C11. Durability before visibility: when a request has changed the records that clients
  can see, the snapshot file holds them, and a restart reads back exactly these records
  (without the private prompts, which are not written).
\<close>

theorem visible_change_survives_restart:
  assumes inv: "store_inv H rt" and total: "encoder_total P" and json: "json_snapshot H E D"
    and step: "serve H P (file_saver H E euid path identity plan) q (rt, files, n) = ((rt', files', n'), e)"
    and changed: "rt_records rt' \<noteq> rt_records rt"
  shows "\<exists>bytes rt''. sf_current files' = Some bytes
    \<and> decode_snapshot H D identity bytes = Inr (durable_records (rt_records rt'))
    \<and> hydrate H (durable_records (rt_records rt')) = Inr rt''
    \<and> rt_records rt'' = durable_records (rt_records rt')"
proof -
  let ?S = "file_saver H E euid path identity plan"
  have "sound H ?S (rt, files, n) (rt', files', n')"
    using serve_sound [of H "(rt, files, n)" P ?S q] inv total step by simp
  then have commit: "commits ?S (rt, files, n) (rt', files', n')" and inv': "store_inv H rt'"
    by (simp_all add: sound_def)
  have ok: "records_ok H (rt_records rt')" using inv' by (simp add: store_inv_def store_ok_def)
  from filed.changed_is_durable [OF commit] changed obtain bytes where
    bytes: "sf_current files' = Some bytes" "encode_snapshot H E identity (rt_records rt') = Inr bytes"
    by (auto simp: snapshot_image_def split: sum.splits)
  have "decode_snapshot H D identity bytes = Inr (durable_records (rt_records rt'))"
    by (rule decode_encode [OF bytes(2) json store_inv_sorted [OF inv']])
  with bytes(1) hydrate_ok [OF records_ok_durable [OF ok]] show ?thesis by blast
qed

text \<open>
  C15. A failed event leaves the runtime as it was; the error is that of the stopped
  daemon, of the random source, of the reducer, of the projection, or of the storage.
\<close>

theorem apply_event_error_sources:
  assumes inv: "store_inv H rt"
    and run: "apply_event H P S entropy envelope visible secret (rt, d) = (st', Inl e)"
  shows "fst st' = rt \<and> (rt_fail_stopped rt \<and> e = STOPPED \<or> (\<exists>m. e = RandomFailed m)
    \<or> (\<exists>r. e = ReduceFailed r) \<or> projection_error e \<or> (\<exists>records d'. S records d = (d', Inl e)))"
proof (cases "rt_fail_stopped rt")
  case True
  with run show ?thesis by (auto simp: apply_event_def)
next
  case False
  obtain draft x where x: "apply_event_in_memory H P entropy envelope visible secret rt = (draft, x)"
    by fastforce
  show ?thesis
  proof (cases x)
    case (Inl e')
    with run x False in_memory_error [OF inv x [unfolded Inl]] show ?thesis by (auto simp: apply_event_def)
  next
    case (Inr a)
    with run x False show ?thesis
      by (auto simp: apply_event_def save_draft_def split: if_splits prod.splits sum.splits)
  qed
qed

end
