(* ===== verification/PanePolls.thy ===== *)
theory PanePolls
  imports PaneStoreTheorems
begin

text \<open>
  Polls come to rest: without further events two polls clear every flash and leave in
  triage exactly the panes that are blocked, and a third poll changes nothing visible.
\<close>

section \<open>What one poll does to each pane\<close>

definition poll_view :: "state_runtime \<times> bool \<Rightarrow> pane_key \<Rightarrow>
    badge_state option \<times> u8 option \<times> badge_state option \<times> u8 option" where
  "poll_view st k = (bm_get (rt_triage (fst st)) k, bm_get (rt_triage_calm_polls (fst st)) k,
     record_badge (bm_get (rt_records (fst st)) k), bm_get (rt_flash (fst st)) k)"

fun calm_step :: "badge_state option \<times> u8 option \<times> badge_state option \<times> u8 option \<Rightarrow>
    badge_state option \<times> u8 option \<times> badge_state option \<times> u8 option" where
  "calm_step (t, c, b, f) =
    (if b = Some Blocked then (t, None, b, f)
     else let n = or_else c 0; n = (if n = - 1 then n else n + 1)
       in if n \<ge> 2 then (None, None, b, f) else (t, Some n, b, f))"

fun flash_step :: "badge_state option \<times> u8 option \<times> badge_state option \<times> u8 option \<Rightarrow>
    badge_state option \<times> u8 option \<times> badge_state option \<times> u8 option" where
  "flash_step (t, c, b, f) =
    (if or_else f 0 \<le> 1 then (t, c, b, None) else (t, c, b, Some (or_else f 0 - 1)))"

lemma calm_poll_view:
  "poll_view (calm_poll st k) k = calm_step (poll_view st k)"
  "j \<noteq> k \<Longrightarrow> poll_view (calm_poll st k) j = poll_view st j"
  by (auto simp: poll_view_def calm_poll_def Let_def bm_get_insert bm_get_remove or_else_def
      split: option.splits)

lemma flash_poll_view:
  "poll_view (flash_poll st k) k = flash_step (poll_view st k)"
  "j \<noteq> k \<Longrightarrow> poll_view (flash_poll st k) j = poll_view st j"
  by (auto simp: poll_view_def flash_poll_def Let_def bm_get_insert bm_get_remove or_else_def
      split: option.splits)

lemma bm_get_Some_iff: "k \<in> set (map fst m) \<longleftrightarrow> bm_get m k \<noteq> None"
  by (simp add: map_of_eq_None_iff)

lemma poll_view_loops:
  assumes "store_ok H rt"
  shows "poll_view (poll_loops rt) k = (let v = poll_view (rt, False) k;
      v = (if fst v = None then v else calm_step v)
    in if snd (snd (snd v)) = None then v else flash_step v)"
proof -
  let ?a = "foldl calm_poll (rt, False) (map fst (rt_triage rt))"
  have inv: "bm_invar (rt_triage rt)" using assms by (simp add: store_ok_def)
  have a: "poll_view ?a j = (if j \<in> set (map fst (rt_triage rt)) then calm_step (poll_view (rt, False) j)
      else poll_view (rt, False) j)" for j
    by (rule foldl_local [where g = "\<lambda>_. calm_step"]) (simp_all add: calm_poll_view bm_invar_distinct inv)
  have "polled H rt ?a"
    using assms by (intro calm_polls_polled) (auto simp: polled_def rest_frame_def store_ok_def bm_invar_distinct)
  then have inv': "bm_invar (rt_flash (fst ?a))" by (simp add: polled_def store_ok_def)
  have b: "poll_view (poll_loops rt) k = (if k \<in> set (map fst (rt_flash (fst ?a)))
      then flash_step (poll_view ?a k) else poll_view ?a k)"
    unfolding poll_loops_def Let_def
    by (rule foldl_local [where g = "\<lambda>_. flash_step"]) (simp_all add: flash_poll_view bm_invar_distinct inv')
  have "k \<in> set (map fst (rt_flash (fst ?a))) \<longleftrightarrow> snd (snd (snd (poll_view ?a k))) \<noteq> None"
    by (simp only: poll_view_def bm_get_Some_iff fst_conv snd_conv)
  moreover have "k \<in> set (map fst (rt_triage rt)) \<longleftrightarrow> fst (poll_view (rt, False) k) \<noteq> None"
    by (simp only: poll_view_def bm_get_Some_iff fst_conv snd_conv)
  ultimately show ?thesis unfolding b a Let_def by (auto simp del: set_map)
qed

section \<open>A poll succeeds\<close>

lemma bm_length_mono:
  assumes "bm_invar m" "bm_invar m'" "\<And>k. bm_get m k \<noteq> None \<Longrightarrow> bm_get m' k \<noteq> None"
  shows "length m \<le> length m'"
proof -
  have "set (map fst m) \<subseteq> set (map fst m')"
    using assms(3) by (auto simp only: bm_get_Some_iff subset_iff)
  then have "card (set (map fst m)) \<le> card (set (map fst m'))" by (intro card_mono) auto
  then show ?thesis using assms(1,2) distinct_card [OF bm_invar_distinct] by (metis length_map)
qed

lemma calm_step_keys: "fst (calm_step v) \<noteq> None \<Longrightarrow> fst v \<noteq> None"
  "snd (snd (snd (calm_step v))) = snd (snd (snd v))" "fst (snd (snd (calm_step v))) = fst (snd (snd v))"
  by (cases v rule: calm_step.cases; auto simp: Let_def split: if_splits)+

lemma flash_step_keys: "snd (snd (snd (flash_step v))) \<noteq> None \<Longrightarrow> or_else (snd (snd (snd v))) 0 > 1"
  "fst (flash_step v) = fst v" "fst (snd (snd (flash_step v))) = fst (snd (snd v))"
  by (cases v rule: flash_step.cases; auto split: if_splits)+

lemma poll_view_keeps:
  assumes "store_ok H rt"
  shows "fst (poll_view (poll_loops rt) k) \<noteq> None \<Longrightarrow> fst (poll_view (rt, False) k) \<noteq> None"
    and "snd (snd (snd (poll_view (poll_loops rt) k))) \<noteq> None \<Longrightarrow>
      snd (snd (snd (poll_view (rt, False) k))) \<noteq> None"
proof -
  obtain t c b f where v: "poll_view (rt, False) k = (t, c, b, f)" by (rule prod_cases4)
  have "fst (calm_step (t, c, b, f)) \<noteq> None \<longrightarrow> t \<noteq> None"
    "snd (snd (snd (calm_step (t, c, b, f)))) = f" "fst (flash_step w) = fst w" for w
    using calm_step_keys [of "(t, c, b, f)"] flash_step_keys(2) by auto
  note steps = this
  show "fst (poll_view (poll_loops rt) k) \<noteq> None \<Longrightarrow> fst (poll_view (rt, False) k) \<noteq> None"
    unfolding poll_view_loops [OF assms] Let_def v using steps
    by (simp del: calm_step.simps flash_step.simps split: if_splits)
  show "snd (snd (snd (poll_view (rt, False) k))) \<noteq> None"
    if "snd (snd (snd (poll_view (poll_loops rt) k))) \<noteq> None"
  proof
    assume "snd (snd (snd (poll_view (rt, False) k))) = None"
    with v have "f = None" by simp
    with that show False
      unfolding poll_view_loops [OF assms] Let_def v using steps
      by (simp del: calm_step.simps flash_step.simps split: if_splits)
  qed
qed

lemma poll_loops_bounded:
  assumes "store_inv H rt"
  shows "collections_bounded (fst (poll_loops rt))"
proof -
  let ?p = "fst (poll_loops rt)"
  have ok: "store_ok H rt" using assms by (simp add: store_inv_def)
  note p = poll_loops_polled [OF ok]
  have keep: "bm_get (rt_triage ?p) k \<noteq> None \<Longrightarrow> bm_get (rt_triage rt) k \<noteq> None"
    "bm_get (rt_flash ?p) k \<noteq> None \<Longrightarrow> bm_get (rt_flash rt) k \<noteq> None" for k
    using poll_view_keeps [OF ok, of k] by (simp_all add: poll_view_def)
  have "length (rt_triage ?p) \<le> length (rt_triage rt)" "length (rt_flash ?p) \<le> length (rt_flash rt)"
    by (rule bm_length_mono; use p ok keep in \<open>simp add: polled_def store_ok_def\<close>)+
  moreover have "length (rt_triage_calm_polls ?p) \<le> length (rt_triage ?p)"
  proof (rule bm_length_mono)
    show "bm_invar (rt_triage_calm_polls ?p)" "bm_invar (rt_triage ?p)"
      using p by (simp_all add: polled_def store_ok_def)
    show "bm_get (rt_triage ?p) k \<noteq> None" if "bm_get (rt_triage_calm_polls ?p) k \<noteq> None" for k
    proof -
      have "fst ` set (rt_triage_calm_polls ?p) \<subseteq> fst ` set (rt_triage ?p)"
        using p by (simp add: polled_def store_ok_def)
      moreover have "k \<in> fst ` set (rt_triage_calm_polls ?p)"
        using that bm_get_Some_iff [of k "rt_triage_calm_polls ?p"] by simp
      ultimately show ?thesis using bm_get_Some_iff [of k "rt_triage ?p"] by auto
    qed
  qed
  ultimately show ?thesis
    using assms p by (auto simp: store_inv_def collections_bounded_def polled_def rest_frame_def)
qed

lemma settle_total:
  assumes "store_ok H rt" "collections_bounded rt" "encoder_total P"
  shows "\<exists>rt'. settle H P rt = (rt', Inr ()) \<and> framed rt rt'"
proof -
  have v: "validate_projection H rt = Inr ()"
    using assms(1,2) by (simp add: validate_projection_def check_records_total)
  obtain n where "P (rt_snapshot_revision rt) (map snd (rt_records rt)) (rt_transitions rt)
      (rt_diagnostics rt) = Inr n"
    using assms(3) unfolding encoder_total_def by blast
  then obtain rt' b where p: "preflight_projection P rt = (rt', Inr b)"
    by (simp add: preflight_projection_def Let_def)
  then show ?thesis using preflight_shape [OF p] v by (simp add: settle_def)
qed

lemma poll_succeeds:
  assumes inv: "store_inv H rt" and total: "encoder_total P" and rev: "rt_snapshot_revision rt \<noteq> - 1"
  obtains rt' where "advance_poll_projection H P rt = (rt', Inr (snd (poll_loops rt)))"
    "store_inv H rt'" "rt_records rt' = rt_records rt"
    "poll_view (rt', False) = poll_view (poll_loops rt)"
    "rt_snapshot_revision rt' \<le> rt_snapshot_revision rt + 1"
proof -
  let ?p = "fst (poll_loops rt)"
  let ?q = "if snd (poll_loops rt) then ?p\<lparr>rt_snapshot_revision := rt_snapshot_revision rt + 1\<rparr> else ?p"
  have ok: "store_ok H rt" using inv by (simp add: store_inv_def)
  have p: "store_ok H ?p" "rt_records ?p = rt_records rt" "rt_snapshot_revision ?p = rt_snapshot_revision rt"
    using poll_loops_polled [OF ok] by (simp_all add: polled_def)
  have b: "collections_bounded ?q" "store_ok H ?q"
    using poll_loops_bounded [OF inv] p(1) by (simp_all add: collections_bounded_def)
  from settle_total [OF b(2,1) total] obtain rt' where s: "settle H P ?q = (rt', Inr ())" "framed ?q rt'"
    by blast
  have "(if snd (poll_loops rt) then bump_and_settle H P ?p else settle H P ?p) = (rt', Inr ())"
    using s(1) rev p(3) by (simp add: bump_and_settle_def bump_snapshot_revision_def checked_inc_def
        split: if_splits)
  then have "advance_poll_projection H P rt = (rt', Inr (snd (poll_loops rt)))"
    by (simp add: advance_poll_eq commit_draft_def)
  moreover have "store_inv H rt'" using settle_inv [OF b(2) s(1)] .
  moreover have "poll_view (rt', False) = poll_view (poll_loops rt)"
    using framed_simps [OF s(2)] by (auto simp: poll_view_def fun_eq_iff)
  ultimately show thesis
    using that framed_simps(1,9) [OF s(2)] p(2,3) inc_greater [OF rev] by (auto simp: less_imp_le)
qed

section \<open>Coming to rest\<close>

text \<open>After one poll every flash lasts one poll at most, and every calm pane has been counted.\<close>

lemma poll_once:
  assumes "store_ok H rt"
  shows "snd (snd (snd (poll_view (poll_loops rt) k))) \<in> {None, Some 1}"
    and "fst (snd (snd (poll_view (poll_loops rt) k))) = fst (snd (snd (poll_view (rt, False) k)))"
    and "fst (snd (snd (poll_view (rt, False) k))) = Some Blocked \<Longrightarrow>
      fst (poll_view (poll_loops rt) k) = fst (poll_view (rt, False) k)"
    and "fst (snd (snd (poll_view (rt, False) k))) \<noteq> Some Blocked \<Longrightarrow>
      fst (poll_view (poll_loops rt) k) \<noteq> None \<Longrightarrow>
      or_else (fst (snd (poll_view (rt, False) k))) 0 = 0 \<and> fst (snd (poll_view (poll_loops rt) k)) = Some 1"
proof -
  obtain t c b f where v: "poll_view (rt, False) k = (t, c, b, f)" by (rule prod_cases4)
  have "f = None \<or> (\<exists>n. f = Some n \<and> n \<le> 2)"
    using assms v bm_get_set [of "rt_flash rt" k] by (cases f) (auto simp: poll_view_def store_ok_def)
  moreover have "n \<le> 2 \<Longrightarrow> \<not> n \<le> 1 \<Longrightarrow> n = 2" for n :: u8
    by (simp add: word_le_nat_alt word_unat_eq_iff)
  ultimately have f: "f = None \<or> (\<exists>n. f = Some n \<and> (n \<le> 1 \<or> n = 2))" by blast
  have inc: "n \<noteq> - 1 \<Longrightarrow> \<not> n + 1 \<ge> (2 :: u8) \<Longrightarrow> n = 0" for n :: u8
    using unat_inc [of n] by (auto simp: word_le_nat_alt unat_eq_0 [symmetric])
  have top: "(2 :: u8) \<le> - 1"
    by (simp add: word_le_nat_alt unsigned_minus_1_eq_mask mask_eq_exp_minus_1)
  note e = poll_view_loops [OF assms, of k, unfolded v Let_def]
  show "snd (snd (snd (poll_view (poll_loops rt) k))) \<in> {None, Some 1}"
    unfolding e using f by (auto simp: or_else_def Let_def)
  show "fst (snd (snd (poll_view (poll_loops rt) k))) = fst (snd (snd (poll_view (rt, False) k)))"
    unfolding e v by (auto simp: Let_def)
  show "fst (snd (snd (poll_view (rt, False) k))) = Some Blocked \<Longrightarrow>
      fst (poll_view (poll_loops rt) k) = fst (poll_view (rt, False) k)"
    unfolding e v by auto
  show "fst (snd (snd (poll_view (rt, False) k))) \<noteq> Some Blocked \<Longrightarrow>
      fst (poll_view (poll_loops rt) k) \<noteq> None \<Longrightarrow>
      or_else (fst (snd (poll_view (rt, False) k))) 0 = 0 \<and> fst (snd (poll_view (poll_loops rt) k)) = Some 1"
    unfolding e v using inc [of "or_else c 0"] top by (auto simp: Let_def split: if_splits)
qed

lemma poll_twice:
  assumes "store_ok H rt" and "store_ok H rt'" and "poll_view (rt', False) = poll_view (poll_loops rt)"
  shows "snd (snd (snd (poll_view (poll_loops rt') k))) = None"
    and "fst (poll_view (poll_loops rt') k) =
      (if fst (snd (snd (poll_view (rt, False) k))) = Some Blocked then fst (poll_view (rt, False) k) else None)"
proof -
  note one = poll_once [OF assms(1), of k] and two = poll_once [OF assms(2), of k, unfolded assms(3)]
  obtain t c b f where v: "poll_view (poll_loops rt) k = (t, c, b, f)" by (rule prod_cases4)
  have "f = None \<or> f = Some 1" using one(1) v by simp
  then show "snd (snd (snd (poll_view (poll_loops rt') k))) = None"
    unfolding poll_view_loops [OF assms(2)] assms(3) v Let_def by (auto simp: or_else_def Let_def)
  show "fst (poll_view (poll_loops rt') k) =
      (if fst (snd (snd (poll_view (rt, False) k))) = Some Blocked then fst (poll_view (rt, False) k) else None)"
  proof (cases "fst (snd (snd (poll_view (rt, False) k))) = Some Blocked")
    case True
    then show ?thesis using one(2,3) two(3) by simp
  next
    case False
    have "fst (poll_view (poll_loops rt') k) = None"
    proof (rule ccontr)
      assume some: "fst (poll_view (poll_loops rt') k) \<noteq> None"
      with poll_view_keeps(1) [OF assms(2), of k] assms(3)
      have "fst (poll_view (poll_loops rt) k) \<noteq> None" by simp
      with one(2,4) False two(4) some show False by (simp add: or_else_def)
    qed
    with False show ?thesis by simp
  qed
qed

lemma empty_of_get: "(\<And>k. bm_get m k = None) \<Longrightarrow> m = []"
proof (cases m)
  case (Cons e es)
  moreover assume "\<And>k. bm_get m k = None"
  from this [of "fst e"] Cons show ?thesis by simp
qed simp

lemma calm_polls_quiet:
  assumes "\<forall>k \<in> set ks. record_badge (bm_get (rt_records (fst st)) k) = Some Blocked" and "\<not> snd st"
  shows "\<not> snd (foldl calm_poll st ks) \<and> rt_flash (fst (foldl calm_poll st ks)) = rt_flash (fst st)"
  using assms by (induction ks arbitrary: st) (simp_all add: calm_poll_def Let_def)

text \<open>
  Polls succeed and come to rest: after two polls nothing flashes, only panes that
  are blocked are still in triage, and the third poll changes nothing.
\<close>

theorem polls_come_to_rest:
  assumes inv: "store_inv H rt" and total: "encoder_total P"
    and rev: "unat (rt_snapshot_revision rt) + 3 < 2 ^ 64"
  shows "\<exists>b1 b2 rt1 rt2 rt3. advance_poll_projection H P rt = (rt1, Inr b1)
    \<and> advance_poll_projection H P rt1 = (rt2, Inr b2)
    \<and> rt_flash rt2 = [] \<and> rt_records rt2 = rt_records rt
    \<and> (\<forall>k. bm_get (rt_triage rt2) k =
        (if record_badge (bm_get (rt_records rt) k) = Some Blocked then bm_get (rt_triage rt) k else None))
    \<and> advance_poll_projection H P rt2 = (rt3, Inr False)"
proof -
  have step: "rt_snapshot_revision t \<noteq> - 1 \<and> unat (rt_snapshot_revision t + 1) = Suc (unat (rt_snapshot_revision t))"
    if "unat (rt_snapshot_revision t) + 1 < 2 ^ 64" for t
  proof -
    have "rt_snapshot_revision t \<noteq> - 1" using that by (auto simp: unsigned_minus_1_eq_mask mask_eq_exp_minus_1)
    then show ?thesis by (simp add: unat_inc)
  qed
  have r0: "rt_snapshot_revision rt \<noteq> - 1" using step [of rt] rev by simp
  from poll_succeeds [OF inv total r0] obtain rt1 where
    p1: "advance_poll_projection H P rt = (rt1, Inr (snd (poll_loops rt)))" "store_inv H rt1"
      "rt_records rt1 = rt_records rt" "poll_view (rt1, False) = poll_view (poll_loops rt)"
      "rt_snapshot_revision rt1 \<le> rt_snapshot_revision rt + 1" .
  have u1: "unat (rt_snapshot_revision rt1) \<le> unat (rt_snapshot_revision rt) + 1"
    using p1(5) step [of rt] rev by (simp add: word_le_nat_alt)
  have r1: "rt_snapshot_revision rt1 \<noteq> - 1" using step [of rt1] u1 rev by simp
  from poll_succeeds [OF p1(2) total r1] obtain rt2 where
    p2: "advance_poll_projection H P rt1 = (rt2, Inr (snd (poll_loops rt1)))" "store_inv H rt2"
      "rt_records rt2 = rt_records rt1" "poll_view (rt2, False) = poll_view (poll_loops rt1)"
      "rt_snapshot_revision rt2 \<le> rt_snapshot_revision rt1 + 1" .
  have u2: "unat (rt_snapshot_revision rt2) \<le> unat (rt_snapshot_revision rt) + 2"
    using p2(5) step [of rt1] u1 rev by (simp add: word_le_nat_alt)
  have r2: "rt_snapshot_revision rt2 \<noteq> - 1" using step [of rt2] u2 rev by simp
  from poll_succeeds [OF p2(2) total r2] obtain rt3 where
    p3: "advance_poll_projection H P rt2 = (rt3, Inr (snd (poll_loops rt2)))" .
  have ok: "store_ok H rt" "store_ok H rt1" using inv p1(2) by (simp_all add: store_inv_def)
  note two = poll_twice [OF ok p1(4)]
  have view: "poll_view (rt2, False) k = poll_view (poll_loops rt1) k" for k using p2(4) by simp
  have flash: "rt_flash rt2 = []"
    using two(1) by (intro empty_of_get) (simp flip: view, simp add: poll_view_def)
  have triage: "bm_get (rt_triage rt2) k =
      (if record_badge (bm_get (rt_records rt) k) = Some Blocked then bm_get (rt_triage rt) k else None)" for k
    using two(2) [of k] by (simp flip: view, simp add: poll_view_def)
  have "\<forall>k \<in> set (map fst (rt_triage rt2)). record_badge (bm_get (rt_records rt2) k) = Some Blocked"
  proof
    fix k assume "k \<in> set (map fst (rt_triage rt2))"
    then have "bm_get (rt_triage rt2) k \<noteq> None" by (simp only: bm_get_Some_iff not_False_eq_True)
    with triage [of k] show "record_badge (bm_get (rt_records rt2) k) = Some Blocked"
      using p1(3) p2(3) by (simp split: if_splits)
  qed
  then have "\<not> snd (poll_loops rt2)"
    using calm_polls_quiet [of "map fst (rt_triage rt2)" "(rt2, False)"] flash
    by (simp add: poll_loops_def Let_def)
  with p1 p2 p3 flash triage show ?thesis by auto
qed

end
