(* ===== verification/PaneNotices.thy ===== *)
theory PaneNotices
  imports PanePolls
begin

text \<open>
  Notifications of blocked panes: one job when a pane becomes blocked, current for as long
  as the pane stays blocked. And the limit of the derived collections: a full flash table
  makes the next visible change fail, and a bulk read then stops the daemon.
\<close>

section \<open>The projection of an accepted event\<close>

lemma conclude_shape:
  assumes inv: "store_inv H rt" and changed: "rd_outcome r = CanonicalChanged"
    and red: "reduce H (bm_get (rt_records rt) (pane_key_of (en_pane_instance envelope))) envelope
        (reduction_context_of rt (pane_key_of (en_pane_instance envelope)) i visible secret) = Inr r"
    and run: "conclude H P envelope r rt = (rt', Inr a)"
  obtains s where "bm_get (rt_records rt') (pane_key_of (en_pane_instance envelope)) = Some s"
    "reframed (derive_candidate_projection (en_pane_instance envelope)
        (bm_get (rt_records rt) (pane_key_of (en_pane_instance envelope))) (Some s)
        (en_event envelope) (transition_at_epoch (en_event envelope) (Some s))
        (with_record (pane_key_of (en_pane_instance envelope)) s (rd_tracker_delta r) rt)) rt'"
proof -
  let ?key = "pane_key_of (en_pane_instance envelope)"
  have ok: "store_ok H rt" using inv by (simp add: store_inv_def)
  from red changed obtain s where s: "rd_record r = Some s" "record_ok H (?key, s)"
    "order_step (rt_latest_unread_order rt) (bm_get (rt_records rt) ?key) s"
    by (elim reduce_changed) (auto simp: reduction_context_of_def)
  let ?b = "derive_candidate_projection (en_pane_instance envelope) (bm_get (rt_records rt) ?key) (Some s)
      (en_event envelope) (transition_at_epoch (en_event envelope) (Some s))
      (with_record ?key s (rd_tracker_delta r) rt)"
  have "bump_and_settle H P ?b = (rt', Inr ())"
    using run changed s(1) store_record_shape [OF ok s(2,3)] by (auto simp: conclude_def Let_def and_then_eq)
  then have re: "reframed ?b rt'" by (rule bump_and_settle_any)
  have "bm_get (rt_records rt') ?key = Some s"
    using reframed_simps(1) [OF re] by (simp add: with_record_def bm_get_insert)
  with re show thesis using that by blast
qed

lemma drop_overflow_newest: "fst (drop_overflow pane jobs ds) = newest MAX_NOTIFICATION_JOBS jobs"
proof (induction pane jobs ds rule: drop_overflow.induct)
  case (1 pane jobs ds)
  show ?case
  proof (cases "length jobs > MAX_NOTIFICATION_JOBS")
    case True
    then show ?thesis using 1
      by (subst drop_overflow.simps) (cases jobs, auto simp: newest_def Suc_diff_le)
  next
    case False
    then show ?thesis by (subst drop_overflow.simps) (simp add: newest_def)
  qed
qed

lemma derive_jobs:
  "rt_notification_jobs (derive_candidate_projection pane previous (Some s) event at_epoch rt) =
    (if record_badge previous \<noteq> Some Blocked \<and> resolve_badge s = Blocked
     then newest MAX_NOTIFICATION_JOBS
       (rt_notification_jobs rt @ [\<lparr>nt_pane_instance = pane, nt_state_version = version s\<rparr>])
     else rt_notification_jobs rt)"
  "record_badge previous \<noteq> Some Blocked \<Longrightarrow> resolve_badge s = Blocked \<Longrightarrow>
    bm_get (rt_notification_generations (derive_candidate_projection pane previous (Some s) event at_epoch rt))
      (pane_key_of pane) = Some (version s)"
  by (auto simp: derive_candidate_projection_def notify_blocked_def Let_def drop_overflow_newest
      record_badge_def bm_get_insert)

lemma tracker_jobs:
  assumes "apply_tracker H P key delta rt = (rt', x)"
  shows "rt_notification_jobs rt' = rt_notification_jobs rt"
proof (cases delta)
  case (Some t)
  let ?rt = "rt\<lparr>rt_trackers := bm_insert key t (rt_trackers rt)\<rparr>"
  from assms Some have "rt' = ?rt \<or> bump_and_settle H P ?rt = (rt', x)"
    by (auto simp: apply_tracker_def Let_def split: if_splits)
  then show ?thesis using reframed_simps(6) [OF bump_and_settle_any [of H P ?rt rt' x]] by auto
qed (use assms in \<open>simp add: apply_tracker_def\<close>)

text \<open>
  C13. An accepted event queues a notification exactly when it blocks a pane that was not
  blocked, for the version that it stores; the queue keeps its newest 64 entries.
\<close>

theorem blocked_pane_notified_once:
  assumes inv: "store_inv H rt"
    and run: "apply_event H P S entropy envelope visible secret (rt, d) = ((rt', d'), Inr a)"
    and key: "key = pane_key_of (en_pane_instance envelope)"
  shows "(if record_badge (bm_get (rt_records rt) key) \<noteq> Some Blocked
        \<and> record_badge (bm_get (rt_records rt') key) = Some Blocked
      then \<exists>s. bm_get (rt_records rt') key = Some s
        \<and> rt_notification_jobs rt' = newest MAX_NOTIFICATION_JOBS (rt_notification_jobs rt
            @ [\<lparr>nt_pane_instance = en_pane_instance envelope, nt_state_version = version s\<rparr>])
        \<and> (ps_agent_present s \<longrightarrow> notification_is_current
            \<lparr>nt_pane_instance = en_pane_instance envelope, nt_state_version = version s\<rparr> rt')
      else rt_notification_jobs rt' = rt_notification_jobs rt)"
proof -
  from run have live: "\<not> rt_fail_stopped rt" by (auto simp: apply_event_def)
  with run have mem: "apply_event_in_memory H P entropy envelope visible secret rt = (rt', Inr a)"
    by (auto simp: apply_event_def save_draft_def split: prod.splits sum.splits if_splits)
  then show ?thesis
  proof (cases rule: apply_event_in_memory_conclude)
    case (reduced i r)
    show ?thesis
    proof (cases "rd_outcome r = CanonicalChanged")
      case False
      with reduced(1) have "rt_notification_jobs rt' = rt_notification_jobs rt"
        by (auto simp: conclude_def Let_def and_then_eq dest: tracker_jobs)
      with conclude_kept [OF inv False reduced(1)] show ?thesis by simp
    next
      case True
      from conclude_shape [OF inv True reduced(2,1)] obtain s where
        s: "bm_get (rt_records rt') key = Some s"
        "reframed (derive_candidate_projection (en_pane_instance envelope) (bm_get (rt_records rt) key) (Some s)
            (en_event envelope) (transition_at_epoch (en_event envelope) (Some s))
            (with_record key s (rd_tracker_delta r) rt)) rt'"
        unfolding key by metis
      let ?b = "derive_candidate_projection (en_pane_instance envelope) (bm_get (rt_records rt) key) (Some s)
            (en_event envelope) (transition_at_epoch (en_event envelope) (Some s))
            (with_record key s (rd_tracker_delta r) rt)"
      note eq = reframed_simps(5-7) [OF s(2)]
      show ?thesis
        using s(1) live derive_jobs [where previous = "bm_get (rt_records rt) key" and s = s]
        unfolding eq notification_is_current_def
        by (auto simp: record_badge_def with_record_def version_def key)
    qed
  qed simp_all
qed

section \<open>A full flash table\<close>

lemma validate_overfull:
  "store_ok H rt \<Longrightarrow> overfull rt \<Longrightarrow> validate_projection H rt =
    Inl (PersistFailed (Msg ''projection collection exceeds configured bound''))"
  by (simp add: validate_projection_def check_records_total collections_bounded_iff)

lemma bm_insert_new_length: "bm_get m k = None \<Longrightarrow> length (bm_insert k v m) = Suc (length m)"
  by (induction k v m rule: bm_insert.induct) (auto split: if_splits)

lemma derive_flash:
  "record_badge previous \<noteq> record_badge (Some s) \<Longrightarrow>
    rt_flash (derive_candidate_projection pane previous (Some s) event at_epoch rt)
      = bm_insert (pane_key_of pane) 2 (rt_flash rt)"
  by (auto simp: derive_candidate_projection_def notify_blocked_def Let_def)

text \<open>
  C14. When 256 panes flash, reading a pane whose badge changes makes the projection
  exceed its bound, and the daemon stops itself.
\<close>

theorem full_flash_stops_daemon:
  assumes inv: "store_inv H rt" and live: "\<not> rt_fail_stopped rt" and rev: "rt_snapshot_revision rt \<noteq> - 1"
    and full: "length (rt_flash rt) = 256" "bm_get (rt_flash rt) (pane_key_of (en_pane_instance envelope)) = None"
    and read: "en_event envelope = MarkPaneRead n"
    and red: "reduce H (bm_get (rt_records rt) (pane_key_of (en_pane_instance envelope))) envelope
      (reduction_context_of rt (pane_key_of (en_pane_instance envelope)) None False None) = Inr r"
    and changed: "rd_outcome r = CanonicalChanged"
      "record_badge (rd_record r) \<noteq> record_badge (bm_get (rt_records rt) (pane_key_of (en_pane_instance envelope)))"
  shows "apply_pane_reads H P S [envelope] (rt, d) = ((stop_daemon rt, d),
    Inl (PersistFailed (Msg ''projection collection exceeds configured bound'')))"
proof -
  let ?key = "pane_key_of (en_pane_instance envelope)"
  let ?bound = "PersistFailed (Msg ''projection collection exceeds configured bound'')"
  have ok: "store_ok H rt" using inv by (simp add: store_inv_def)
  from red changed(1) obtain s where s: "rd_record r = Some s" "record_ok H (?key, s)"
    "order_step (rt_latest_unread_order rt) (bm_get (rt_records rt) ?key) s"
    by (elim reduce_changed) (auto simp: reduction_context_of_def)
  let ?b = "derive_candidate_projection (en_pane_instance envelope) (bm_get (rt_records rt) ?key) (Some s)
      (en_event envelope) (transition_at_epoch (en_event envelope) (Some s))
      (with_record ?key s (rd_tracker_delta r) rt)"
  have okb: "store_ok H ?b" by (rule stored_ok [OF ok s(2,3)])
  have "rt_flash ?b = bm_insert ?key 2 (rt_flash rt)"
    using changed(2) s(1) by (subst derive_flash) (auto simp: with_record_def)
  then have over: "overfull ?b"
    using bm_insert_new_length [OF full(2)] full(1) by (simp add: overfull_def MAX_DIAGNOSTICS_def)
  let ?w = "?b\<lparr>rt_snapshot_revision := rt_snapshot_revision rt + 1\<rparr>"
  have w: "store_ok H (?b\<lparr>rt_snapshot_revision := m\<rparr>)" "overfull (?b\<lparr>rt_snapshot_revision := m\<rparr>)" for m
    using okb over by (simp_all add: overfull_def)
  have rb: "rt_snapshot_revision (with_record ?key s (rd_tracker_delta r) rt) = rt_snapshot_revision rt"
    by (simp add: with_record_def)
  have v: "validate_projection H (?b\<lparr>rt_snapshot_revision := m\<rparr>) = Inl ?bound" for m
    by (rule validate_overfull [OF w])
  have "bump_and_settle H P ?b = (?w, Inl ?bound)"
    using rev by (simp add: bump_and_settle_def bump_snapshot_revision_def checked_inc_def settle_def rb v)
  then have "conclude H P envelope r rt = (?w, Inl ?bound)"
    using changed(1) s(1) store_record_shape [OF ok s(2,3)] by (simp add: conclude_def Let_def)
  moreover have "state_id_for (Inr []) (bm_get (rt_records rt) ?key) (en_event envelope) = Inr None"
    using read by (cases "bm_get (rt_records rt) ?key") (simp_all add: state_id_for_def)
  ultimately have "apply_event_in_memory H P (Inr []) envelope False None rt = (?w, Inl ?bound)"
    using red by (simp add: apply_event_in_memory_def conclude_def Let_def)
  moreover have "rt\<lparr>rt_snapshot_revision := rt_snapshot_revision rt\<rparr> = rt" by simp
  ultimately have "read_panes H P (rt_snapshot_revision rt) [envelope] (rt, 0, False) = Inr (?w, 0, False)"
    using read by simp
  moreover have "settle H P (?w\<lparr>rt_snapshot_revision := rt_snapshot_revision rt\<rparr>) =
      (?w\<lparr>rt_snapshot_revision := rt_snapshot_revision rt\<rparr>, Inl ?bound)"
    by (simp add: settle_def v)
  ultimately show ?thesis using live by (simp add: apply_pane_reads_def Let_def)
qed

end
