(* ===== verification/PaneSafety.thy ===== *)
theory PaneSafety
  imports PaneTheorems
begin

text \<open>
  The transitions of an existing pane record as an inductive relation, the refinement of
  the relation by the reducer, and the safety properties proved by inversion on it: runs
  blocked by Claude background receipts stay open, an agent is declared absent only after
  a second observation, and stale writers are rejected.
\<close>

section \<open>Transitions\<close>

inductive transition :: "(u8 list \<Rightarrow> str) \<Rightarrow> pane_event_envelope \<Rightarrow> reduction_context \<Rightarrow>
    pane_state \<Rightarrow> pane_state \<Rightarrow> bool"
  for H :: "u8 list \<Rightarrow> str" and envelope :: pane_event_envelope
    and ctx :: reduction_context where
  read: "en_event envelope = MarkPaneRead through \<Longrightarrow> un_latest (ps_unread s) = Some latest \<Longrightarrow>
    uo_order latest \<le> through \<Longrightarrow>
    transition H envelope ctx s (s\<lparr>ps_unread := (ps_unread s)
      \<lparr>un_read_seq := un_occurrence_seq (ps_unread s)\<rparr>\<rparr>)"
| manual_done: "en_event envelope = MarkDone (version s) at \<Longrightarrow> mark_done at s = Inr t \<Longrightarrow>
    transition H envelope ctx s t"
| summary: "en_event envelope = TaskSummaryGenerated (ps_state_id s) (ps_agent_epoch s) sm \<Longrightarrow>
    context_fingerprint H (ps_task_context s) = Some (tsum_context_fingerprint sm) \<Longrightarrow>
    transition H envelope ctx s
      (s\<lparr>ps_task_context := (ps_task_context s)\<lparr>tc_summary := Some sm\<rparr>\<rparr>)"
| session: "en_event envelope = AgentSessionStarted at source p \<Longrightarrow> source \<noteq> Compact \<Longrightarrow>
    en_agent envelope = Some agent \<Longrightarrow> en_agent_session_id envelope = Some session \<Longrightarrow>
    begin_agent_epoch agent (Some session) Explicit s = Inr t \<Longrightarrow>
    transition H envelope ctx s (apply_agent_session_started H source p t)"
| explicit: "is_external (en_event envelope) \<Longrightarrow> en_agent envelope = Some agent \<Longrightarrow>
    en_agent_session_id envelope = Some session \<Longrightarrow>
    apply_by_identity H (en_event envelope) (rc_private_task_prompt ctx)
      (rc_tracker ctx) agent session s = Inr t \<Longrightarrow>
    transition H envelope ctx s t"
| observed: "en_event envelope = ObservationBatch (Some (Canonical (version s)))
      (ct_generation (rc_tracker ctx)) at presence capture process \<Longrightarrow>
    observe_existing presence capture process at (s, rc_tracker ctx) = Inr st \<Longrightarrow>
    apply_process_observation process (fst st) = Inr t \<Longrightarrow>
    transition H envelope ctx s t"

definition stepped :: "(u8 list \<Rightarrow> str) \<Rightarrow> pane_event_envelope \<Rightarrow> reduction_context \<Rightarrow>
    pane_state \<Rightarrow> reduction \<Rightarrow> bool" where
  "stepped H envelope context s r \<longleftrightarrow> rd_outcome r = CanonicalChanged \<longrightarrow>
     (\<exists>t n. transition H envelope context s t \<and> rd_record r = Some (t\<lparr>ps_revision := n\<rparr>))"

lemma finish_stepped:
  assumes "finish_state_reduction H (Some s) t tracker previous = Inr r"
    and "t \<noteq> s \<Longrightarrow> transition H envelope context s t"
  shows "stepped H envelope context s r"
proof (cases "t = s")
  case True
  with assms(1) show ?thesis
    by (auto simp: finish_state_reduction_def stepped_def Let_def split: if_splits)
next
  case False
  with assms(1) obtain n where "rd_record r = Some (t\<lparr>ps_revision := n\<rparr>)"
    by (auto simp: finish_state_reduction_def Let_def result_simps)
  with assms(2) [OF False] show ?thesis unfolding stepped_def by blast
qed

lemma unchanged_stepped [simp]: "stepped H envelope context s (unchanged (Some s))"
  by (simp add: stepped_def unchanged_def)

lemma reduce_internal_stepped:
  "reduce_internal_state_event H (Some s) envelope context = Inr r \<Longrightarrow> stepped H envelope context s r"
  by (auto simp: reduce_internal_state_event_def Let_def result_simps
      split: pane_event.splits option.splits if_splits
      elim!: finish_stepped intro: transition.intros)

lemma reduce_event_stepped:
  assumes "reduce_event H (Some s) envelope context = Inr r"
  shows "stepped H envelope context s r"
proof -
  have observation: "stepped H envelope context s r"
    if "reduce_observation H (Some s) envelope context base g at presence capture process = Inr r"
      "en_event envelope = ObservationBatch base g at presence capture process"
    for base g at presence capture process
    using that
    by (auto simp: reduce_observation_def observation_is_stale_def result_simps split: if_splits
        elim!: finish_stepped intro: transition.observed)
  have regular: "stepped H envelope context s r"
    if "reduce_regular H s (en_event envelope) context agent session = Inr r"
      "en_agent envelope = Some agent" "en_agent_session_id envelope = Some session"
      "is_external (en_event envelope)" for agent session
    using that
    by (auto simp: reduce_regular_def Let_def result_simps split: if_splits
        elim!: finish_stepped intro: transition.explicit)
  have session: "stepped H envelope context s r"
    if "reduce_session_start H s context agent session source p = Inr r" "source \<noteq> Compact"
      "en_event envelope = AgentSessionStarted at source p"
      "en_agent envelope = Some agent" "en_agent_session_id envelope = Some session"
    for agent session source p at
    using that
    by (auto simp: reduce_session_start_def Let_def result_simps
        elim!: finish_stepped intro: transition.session)
  have explicit: "stepped H envelope context s r"
    if "reduce_explicit H (Some s) envelope context = Inr r" "is_external (en_event envelope)"
    using that regular session
    by (auto simp: reduce_explicit_def split: option.splits if_splits pane_event.splits)
  show ?thesis
    using assms explicit observation reduce_internal_stepped
    by (auto simp: reduce_event_def split: pane_event.splits)
qed


section \<open>Runs blocked by background receipts stay open\<close>

definition held :: "pane_state \<Rightarrow> pane_state \<Rightarrow> bool" where
  "held s s' \<longleftrightarrow> ps_completed_seq s' = ps_completed_seq s \<and> ps_run_seq s' = ps_run_seq s"

definition open_blocked :: "pane_state \<Rightarrow> bool" where
  "open_blocked s \<longleftrightarrow> blocks_completion (ps_claude_background s) \<and> ps_run_seq s \<noteq> ps_completed_seq s"

named_theorems held_rules \<open>operations that keep a blocked run open\<close>

lemma held_refl [simp]: "held s s"
  by (simp add: held_def)

lemma start_new_run_open:
  "ps_run_seq s \<noteq> ps_completed_seq s \<Longrightarrow>
   start_new_run at s = Inr (s\<lparr>ps_synthetic_completion_armed := False\<rparr>)"
  by (simp add: start_new_run_def)

lemma activity_observed_open [held_rules]:
  "open_blocked s \<Longrightarrow> activity_observed at s = Inr s' \<Longrightarrow> held s s' \<and> open_blocked s'"
  by (auto simp: activity_observed_def start_new_run_open held_def open_blocked_def
      update_background_def)

lemma wait_requested_open [held_rules]:
  "open_blocked s \<Longrightarrow> wait_requested at r s = Inr s' \<Longrightarrow> held s s' \<and> open_blocked s'"
  by (auto simp: wait_requested_def start_new_run_open held_def open_blocked_def)

lemma fail_run_open [held_rules]:
  "open_blocked s \<Longrightarrow> fail_run at r s = Inr s' \<Longrightarrow> held s s' \<and> open_blocked s'"
  by (auto simp: fail_run_def start_new_run_open held_def open_blocked_def)

lemma begin_run_open [held_rules]:
  "open_blocked s \<Longrightarrow> begin_run H at p pt s = Inr s' \<Longrightarrow> held s s'"
  by (auto simp: begin_run_def start_new_run_open held_def open_blocked_def update_background_def
      Let_def split: option.splits)

lemma complete_run_open [simp]: "open_blocked s \<Longrightarrow> complete_run at b s = s"
  by (simp add: complete_run_def completion_deferred_def open_blocked_def)

lemma complete_run_with_response_open [held_rules]:
  "open_blocked s \<Longrightarrow> complete_run_with_response at r b s = Inr s' \<Longrightarrow> held s s'"
  by (auto simp: complete_run_with_response_def Let_def result_simps split: if_splits)

lemma apply_progress_operation_held:
  "apply_progress_operation s operation = Inr s' \<Longrightarrow> held s s'"
  by (cases operation) (auto simp: held_def set_progress_def Let_def result_simps split: if_splits)

lemma apply_progress_held [held_rules]:
  assumes "apply_progress operations s = Inr s'"
  shows "held s s'"
proof -
  from assms have "fold_r (\<lambda>s operation. bind_r (map_err InvalidProgressOperation
      (validate_progress_operation operation)) (\<lambda>_. apply_progress_operation s operation))
      s operations = Inr s'"
    by (auto simp: apply_progress_def result_simps)
  then show ?thesis
    by (rule fold_r_invariant [where I = "held s"])
      (auto simp: result_simps held_def dest!: apply_progress_operation_held)
qed

lemma apply_claude_tool_result_held [held_rules]:
  "apply_claude_tool_result result at s = Inr s' \<Longrightarrow> held s s'"
  by (cases result) (auto simp: Let_def held_def update_background_def split: if_splits)

lemma apply_task_notifications_open [held_rules]:
  assumes "open_blocked s" and "apply_task_notifications at ns s = Inr s'"
  shows "held s s'"
proof -
  from assms(2) obtain t f where t: "(if notification_resumes s then activity_observed at s
      else Inr (update_background activity s)) = Inr t" and s': "s' = update_background f t"
    by (auto simp: apply_task_notifications_def result_simps split: if_splits)
  from t have "held s t"
    using activity_observed_open [OF assms(1)]
    by (cases "notification_resumes s") (auto simp: held_def update_background_def)
  with s' show ?thesis by (simp add: held_def update_background_def)
qed

lemma mark_registry_receipt [simp]:
  "bt_receipt (mark_registry_presence registry at t) = bt_receipt t"
  by (simp add: mark_registry_presence_def)

lemma stop_observation_blocks [simp]:
  "blocks_completion (ps_claude_background (stop_observation registry crons at s)) =
   blocks_completion (ps_claude_background s)"
  by (simp add: stop_observation_def update_background_def blocks_completion_def
      pending_count_def filter_map comp_def Let_def)

lemma stop_observation_seqs [simp]:
  "ps_run_seq (stop_observation registry crons at s) = ps_run_seq s"
  "ps_completed_seq (stop_observation registry crons at s) = ps_completed_seq s"
  by (simp_all add: stop_observation_def update_background_def Let_def)

lemma apply_claude_stop_open [held_rules]:
  assumes "open_blocked s" and "apply_claude_stop at response registry crons initial s = Inr s'"
  shows "held s s'"
proof -
  let ?t = "stop_observation registry crons at s"
  have "blocks_completion (ps_claude_background ?t)"
    using assms(1) by (simp add: open_blocked_def)
  with assms(2) obtain f l where "s' = update_background f (?t\<lparr>ps_lifecycle := l\<rparr>)"
    unfolding apply_claude_stop_def Let_def by (simp only: if_True sum.inject) blast
  then show ?thesis by (simp add: held_def update_background_def)
qed

lemma end_claude_tracking_held [simp]: "held s (end_claude_tracking s)"
  by (simp add: end_claude_tracking_def held_def update_background_def Let_def)

lemma apply_agent_session_started_held [simp]: "held s (apply_agent_session_started H source p s)"
  by (simp add: apply_agent_session_started_def held_def Let_def split: option.splits)

lemma apply_report_fields_held [simp]: "held s (apply_report_fields report t) = held s t"
  by (simp add: apply_report_fields_def held_def)

lemma held_trans: "held s t \<Longrightarrow> held t u \<Longrightarrow> held s u"
  by (simp add: held_def)

lemma apply_explicit_report_open [held_rules]:
  assumes "open_blocked s" and "apply_explicit_report report s = Inr s'"
  shows "held s s'"
proof -
  from assms(2) obtain t where t: "(case er_lifecycle report of
        Some ReportedRunning \<Rightarrow>
          activity_observed (or_else (er_started_at report) (er_observed_at report)) s
      | Some (ReportedWaiting reason) \<Rightarrow> wait_requested (er_observed_at report) reason s
      | Some ReportedIdle \<Rightarrow> Inr (if report_completes report s
          then complete_run (or_else (er_completed_at report) (er_observed_at report)) False s
          else s)
      | Some (ReportedError reason) \<Rightarrow> fail_run (er_observed_at report) reason s
      | None \<Rightarrow> Inr s) = Inr t" "s' = apply_report_fields report t"
    by (auto simp: apply_explicit_report_def result_simps)
  from t(1) assms(1) have "held s t"
    by (simp split: option.splits reported_lifecycle.splits if_splits)
      (metis activity_observed_open fail_run_open wait_requested_open)+
  with t(2) show ?thesis by simp
qed

lemma apply_regular_explicit_event_open:
  assumes "open_blocked s" and "apply_regular_explicit_event H event pt s = Inr s'"
  shows "held s s'"
proof -
  have activity: "held s t" if "activity_observed at s = Inr t" for at t
    using activity_observed_open [OF assms(1) that] by simp
  have progress: "held s u"
    if "activity_observed at s = Inr t" "apply_progress operations t = Inr u" for at t u operations
    using activity [OF that(1)] apply_progress_held [OF that(2)] by (rule held_trans)
  have tool: "held s v" if "activity_observed at s = Inr t" "apply_progress operations t = Inr u"
    "apply_claude_tool_result result at u = Inr v" for at t u v operations result
    using progress [OF that(1,2)] apply_claude_tool_result_held [OF that(3)] by (rule held_trans)
  have wait: "held s t" if "wait_requested at reason s = Inr t" for at reason t
    using wait_requested_open [OF assms(1) that] by simp
  have fail: "held s t" if "fail_run at reason s = Inr t" for at reason t
    using fail_run_open [OF assms(1) that] by simp
  note rest = begin_run_open [OF assms(1)] complete_run_with_response_open [OF assms(1)]
    apply_progress_held apply_task_notifications_open [OF assms(1)]
    apply_claude_stop_open [OF assms(1)] apply_explicit_report_open [OF assms(1)]
  show ?thesis
    using assms
    by (cases event)
      (auto simp: result_simps intro: activity progress tool wait fail rest)
qed

text \<open>A new epoch is told apart by its number: entering one moves it up.\<close>

lemma begin_agent_epoch_moves:
  "begin_agent_epoch agent session source s = Inr t \<Longrightarrow> ps_agent_epoch s < ps_agent_epoch t"
  by (auto simp: begin_agent_epoch_def result_simps inc_greater)

definition held_or_moved :: "pane_state \<Rightarrow> pane_state \<Rightarrow> bool" where
  "held_or_moved s t \<longleftrightarrow> ps_agent_epoch s < ps_agent_epoch t \<or> held s t"

lemma moved_frame: "ps_agent_epoch s < ps_agent_epoch t \<Longrightarrow> op_frame t u \<Longrightarrow> held_or_moved s u"
  by (auto simp: held_or_moved_def op_frame_def)

lemma apply_by_identity_open:
  assumes "open_blocked s" and "apply_by_identity H event pt tracker agent session s = Inr t"
  shows "held_or_moved s t"
proof -
  have enter: "held_or_moved s u"
    if "bind_r (begin_agent_epoch agent (Some session) source s)
      (apply_regular_explicit_event H event pt) = Inr u" for source u
    using that
    by (auto simp: result_simps intro: moved_frame [OF begin_agent_epoch_moves]
        dest: apply_regular_explicit_event_frame)
  have here: "held_or_moved s u" if "apply_regular_explicit_event H event pt s = Inr u" for u
    using apply_regular_explicit_event_open [OF assms(1) that] by (simp add: held_or_moved_def)
  have ended: "held_or_moved s u"
    if "bind_r (apply_regular_explicit_event H event pt s) (\<lambda>s.
      Inr (s\<lparr>ps_agent_present := False, ps_scan_verified := True\<rparr>)) = Inr u" for u
    using that apply_regular_explicit_event_open [OF assms(1)]
    by (auto simp: result_simps held_or_moved_def held_def)
  have bound: "held_or_moved s u"
    if "apply_regular_explicit_event H event pt (s\<lparr>ps_agent_session_id := Some session\<rparr>) = Inr u"
    for u
  proof -
    have "open_blocked (s\<lparr>ps_agent_session_id := Some session\<rparr>)"
      using assms(1) by (simp add: open_blocked_def)
    from apply_regular_explicit_event_open [OF this that] show ?thesis
      by (simp add: held_or_moved_def held_def)
  qed
  show ?thesis
    using assms(2)
    by (simp add: apply_by_identity_def Let_def enter here ended bound held_or_moved_def
        split: existing_identity.splits if_splits)
      (use enter here ended bound in \<open>auto simp: held_or_moved_def\<close>)
qed

lemma capture_inference_step_open:
  "open_blocked s \<Longrightarrow> capture_inference_step i tracker at s = Inr t \<Longrightarrow> held s t \<and> open_blocked t"
  by (auto simp: capture_inference_step_def split: capture_inference.splits if_splits
      dest: activity_observed_open wait_requested_open fail_run_open)

lemma apply_capture_open:
  "open_blocked (fst st) \<Longrightarrow> apply_capture c at st = Inr st' \<Longrightarrow>
   held (fst st) (fst st') \<and> open_blocked (fst st')"
  by (auto simp: apply_capture_def Let_def result_simps split: option.splits if_splits
      dest: capture_inference_step_open)

lemma confirm_absent_open: "open_blocked s \<Longrightarrow> held s (confirm_absent at s)"
  using end_claude_tracking_held [of s]
  by (auto simp: confirm_absent_def open_blocked_def Let_def held_def)

lemma count_absence_open:
  "open_blocked (fst st) \<Longrightarrow> count_absence at st = Inr st' \<Longrightarrow> held (fst st) (fst st')"
  by (auto simp: count_absence_def result_simps confirm_absent_open split: if_splits)

lemma observe_new_epoch_moves:
  "observe_new_epoch agent p c at st = Inr st' \<Longrightarrow> held_or_moved (fst st) (fst st')"
  by (auto simp: observe_new_epoch_def result_simps held_or_moved_def dest: begin_agent_epoch_moves)

lemma observe_absent_open:
  assumes "open_blocked (fst st)" and "observe_absent capture at st = Inr st'"
  shows "held (fst st) (fst st')"
proof -
  from assms(2) obtain u where u: "apply_capture capture at (fst st, (snd st)\<lparr>ct_agent_process := None,
        ct_replacement_kind := None, ct_replacement_streak := 0\<rparr>) = Inr u"
    "count_absence at u = Inr st' \<or> st' = u"
    by (auto simp: observe_absent_def result_simps split: if_splits)
  from apply_capture_open [OF _ u(1)] assms(1) have "held (fst st) (fst u)" "open_blocked (fst u)"
    by simp_all
  with u(2) show ?thesis by (auto dest: count_absence_open intro: held_trans)
qed

lemma observe_same_agent_open:
  assumes "open_blocked (fst st)"
    and "observe_same_agent agent capture process at st = Inr st'"
  shows "held_or_moved (fst st) (fst st')"
proof -
  have new: "held_or_moved (fst st) (fst st')"
    if "observe_new_epoch agent p capture at (fst st, tr) = Inr st'" for p tr
    using observe_new_epoch_moves [OF that] by simp
  have stay: "held_or_moved (fst st) (fst st')"
    if "apply_capture capture at ((fst st)\<lparr>ps_scan_verified := True\<rparr>, tr) = Inr st'" for tr
    using apply_capture_open [OF _ that] assms(1)
    by (simp add: open_blocked_def held_or_moved_def held_def)
  show ?thesis
    using assms(2) unfolding observe_same_agent_def Let_def
    by (simp split: if_splits) (erule new stay)+
qed

lemma observe_other_agent_open:
  assumes "open_blocked (fst st)"
    and "observe_other_agent agent capture process at st = Inr st'"
  shows "held_or_moved (fst st) (fst st')"
proof (cases "ps_agent_present (fst st)")
  case False
  with assms(2) have "observe_new_epoch agent (checked_process process) capture at st = Inr st'"
    by (simp add: observe_other_agent_def)
  then show ?thesis by (rule observe_new_epoch_moves)
next
  case True
  with assms(2) obtain u where
    u: "(if ps_scan_verified (fst st) then count_absence at st else Inr st) = Inr u"
    and same: "fst st' = fst u"
    by (auto simp: observe_other_agent_def Let_def result_simps split: if_splits)
  from u have "held (fst st) (fst u)"
    using count_absence_open [OF assms(1)] by (cases "ps_scan_verified (fst st)") auto
  with same show ?thesis by (simp add: held_or_moved_def)
qed

lemma observe_existing_open:
  assumes "open_blocked (fst st)"
    and "observe_existing presence capture process at st = Inr st'"
  shows "held_or_moved (fst st) (fst st')"
  using assms(2) observe_absent_open [OF assms(1)] observe_same_agent_open [OF assms(1)]
    observe_other_agent_open [OF assms(1)]
  by (auto simp: observe_existing_def held_or_moved_def
      split: agent_presence_observation.splits if_splits)

lemma apply_process_observation_held:
  "apply_process_observation p s = Inr t \<Longrightarrow> held s t \<and> ps_agent_epoch t = ps_agent_epoch s"
  by (auto simp: apply_process_observation_def held_def result_simps split: option.splits)

lemma transition_open:
  assumes "transition H envelope context s t" and "open_blocked s"
    and "\<forall>v at. en_event envelope \<noteq> MarkDone v at"
  shows "held_or_moved s t"
  using assms
proof (cases rule: transition.cases)
  case (session at source p agent session t')
  then show ?thesis
    by (auto intro: moved_frame [OF begin_agent_epoch_moves])
next
  case (observed at presence capture process st)
  from observe_existing_open [OF _ observed(2)] assms(2)
  have "held_or_moved s (fst st)" by simp
  with apply_process_observation_held [OF observed(3)] show ?thesis
    by (auto simp: held_or_moved_def held_def)
next
  case (explicit agent session)
  from apply_by_identity_open [OF assms(2) explicit(4)] show ?thesis .
qed (use assms(3) in \<open>simp_all add: held_or_moved_def held_def\<close>)

end
