(* ===== verification/PaneGuards.thy ===== *)
theory PaneGuards
  imports PaneSafety
begin

text \<open>
  The guards of the pane reducer, stated of whole reductions: what can end a run, take an
  agent away, replace it, or raise and clear the unread mark.
\<close>

section \<open>From a reduction to its transition\<close>

lemma reduction_transition:
  assumes "reduce H (Some old) envelope context = Inr r" and "rd_record r = Some new"
  obtains (same) "new = old"
  | (step) t n where "transition H envelope context old t"
      "unread_frame (t\<lparr>ps_revision := n\<rparr>) new"
      "apply_unread_transition (Some old) (en_event envelope) context (t\<lparr>ps_revision := n\<rparr>) = Inr new"
      "pane_state_validate H new = Inr ()" "rd_outcome r = CanonicalChanged"
  using assms(1)
proof (cases rule: reduce_cases)
  case same
  with assms(2) show thesis by (auto intro: that(1))
next
  case (changed s n s')
  from reduce_event_stepped [OF changed(3)] changed(1)
  obtain t m where t: "transition H envelope context old t"
    "s\<lparr>ps_revision := n\<rparr> = t\<lparr>ps_revision := m\<rparr>"
    by (auto simp: stepped_def)
  with changed assms(2) show thesis by (intro that(2) [of t m]) simp_all
qed

lemma frame_of_unread:
  assumes "unread_frame (t\<lparr>ps_revision := n\<rparr>) new"
  shows "ps_agent_epoch new = ps_agent_epoch t" "ps_lifecycle new = ps_lifecycle t"
    "ps_completed_seq new = ps_completed_seq t" "ps_run_seq new = ps_run_seq t"
    "ps_agent_present new = ps_agent_present t" "ps_agent new = ps_agent t"
    "ps_agent_session_id new = ps_agent_session_id t" "ps_task_context new = ps_task_context t"
    "ps_prompt new = ps_prompt t"
  using assms by (auto simp: unread_frame_def)

lemma valid_idle:
  "pane_state_validate H s = Inr () \<Longrightarrow> ps_lifecycle s = Idle \<longleftrightarrow> ps_run_seq s = ps_completed_seq s"
  by (auto simp: pane_state_validate_def validate_lifecycle_def result_simps Let_def split: if_splits)

lemma valid_blocked:
  "pane_state_validate H s = Inr () \<Longrightarrow> blocks_completion (ps_claude_background s) \<Longrightarrow> open_blocked s"
  by (auto simp: pane_state_validate_def validate_lifecycle_def result_simps Let_def open_blocked_def
      split: if_splits)

section \<open>Background receipts\<close>

text \<open>
  C4. A run with pending Claude background tasks or unresolved faults is not completed by
  any event except a manual completion: as long as the agent's epoch lasts, the run stays
  open and the pane is not idle.
\<close>

theorem background_blocks_completion:
  assumes "reduce H (Some old) envelope context = Inr r" and "rd_record r = Some new"
    and "pane_state_validate H old = Inr ()"
    and "blocks_completion (ps_claude_background old)"
    and "\<forall>v at. en_event envelope \<noteq> MarkDone v at"
    and "ps_agent_epoch new = ps_agent_epoch old"
  shows "ps_completed_seq new = ps_completed_seq old \<and> ps_run_seq new = ps_run_seq old
    \<and> ps_lifecycle new \<noteq> Idle"
proof -
  have blocked: "open_blocked old" using assms(3,4) by (rule valid_blocked)
  show ?thesis
    using assms(1,2)
  proof (cases rule: reduction_transition)
    case same
    with blocked valid_idle [OF assms(3)] show ?thesis by (simp add: open_blocked_def)
  next
    case (step t n)
    from transition_open [OF step(1) blocked assms(5)] assms(6) frame_of_unread [OF step(2)]
    have "held old t" by (simp add: held_or_moved_def)
    with blocked valid_idle [OF step(4)] frame_of_unread [OF step(2)] show ?thesis
      by (simp add: held_def open_blocked_def)
  qed
qed

section \<open>The agent of a pane\<close>

definition same_agent :: "pane_state \<Rightarrow> pane_state \<Rightarrow> bool" where
  "same_agent s s' \<longleftrightarrow> ps_agent s' = ps_agent s \<and> ps_agent_present s' = ps_agent_present s
     \<and> ps_scan_verified s' = ps_scan_verified s"

named_theorems agent_rules \<open>operations that keep the agent of a pane\<close>

lemma same_agent_refl [simp]: "same_agent s s"
  by (simp add: same_agent_def)

lemma same_agent_trans: "same_agent s t \<Longrightarrow> same_agent t u \<Longrightarrow> same_agent s u"
  by (simp add: same_agent_def)

lemma same_agent_background [simp]: "same_agent s (update_background f t) = same_agent s t"
  by (simp add: same_agent_def update_background_def)

lemma start_new_run_agent [agent_rules]: "start_new_run at s = Inr s' \<Longrightarrow> same_agent s s'"
  by (auto simp: start_new_run_def same_agent_def result_simps split: if_splits)

lemma activity_observed_agent [agent_rules]: "activity_observed at s = Inr s' \<Longrightarrow> same_agent s s'"
  by (auto simp: activity_observed_def update_background_def same_agent_def result_simps
      dest!: start_new_run_agent)

lemma wait_requested_agent [agent_rules]: "wait_requested at r s = Inr s' \<Longrightarrow> same_agent s s'"
  by (auto simp: wait_requested_def same_agent_def result_simps dest!: start_new_run_agent)

lemma fail_run_agent [agent_rules]: "fail_run at r s = Inr s' \<Longrightarrow> same_agent s s'"
  by (auto simp: fail_run_def same_agent_def result_simps dest!: start_new_run_agent)

lemma begin_run_agent [agent_rules]: "begin_run H at p pt s = Inr s' \<Longrightarrow> same_agent s s'"
  by (auto simp: begin_run_def same_agent_def update_background_def Let_def result_simps
      dest!: start_new_run_agent split: option.splits)

lemma complete_run_agent [simp]: "same_agent s (complete_run at b t) = same_agent s t"
  by (simp add: complete_run_def close_run_def same_agent_def)

lemma complete_run_with_response_agent [agent_rules]:
  "complete_run_with_response at r b s = Inr s' \<Longrightarrow> same_agent s s'"
  using complete_run_agent [of s at b s]
  by (auto simp: complete_run_with_response_def same_agent_def Let_def result_simps
      split: if_splits)

lemma mark_done_agent [agent_rules]: "mark_done at s = Inr s' \<Longrightarrow> same_agent s s'"
  by (auto simp: mark_done_def same_agent_def result_simps split: if_splits)

lemma apply_progress_operation_agent [agent_rules]:
  "apply_progress_operation s operation = Inr s' \<Longrightarrow> same_agent s s'"
  by (cases operation)
    (auto simp: same_agent_def set_progress_def Let_def result_simps split: if_splits)

lemma apply_progress_agent [agent_rules]:
  assumes "apply_progress operations s = Inr s'"
  shows "same_agent s s'"
proof -
  from assms have "fold_r (\<lambda>s operation. bind_r (map_err InvalidProgressOperation
      (validate_progress_operation operation)) (\<lambda>_. apply_progress_operation s operation))
      s operations = Inr s'"
    by (auto simp: apply_progress_def result_simps)
  then show ?thesis
    by (rule fold_r_invariant [where I = "same_agent s"])
      (auto simp: result_simps dest: apply_progress_operation_agent intro: same_agent_trans)
qed

lemma apply_claude_tool_result_agent [agent_rules]:
  "apply_claude_tool_result result at s = Inr s' \<Longrightarrow> same_agent s s'"
  by (cases result) (auto simp: Let_def split: if_splits)

lemma apply_task_notifications_agent [agent_rules]:
  "apply_task_notifications at ns s = Inr s' \<Longrightarrow> same_agent s s'"
  by (auto simp: apply_task_notifications_def result_simps split: if_splits
      dest!: activity_observed_agent intro: same_agent_trans)

lemma stop_observation_agent [simp]: "same_agent s (stop_observation registry crons at s)"
  by (simp add: stop_observation_def same_agent_def update_background_def Let_def)

lemma apply_claude_stop_agent [agent_rules]:
  assumes "apply_claude_stop at response registry crons initial s = Inr s'"
  shows "same_agent s s'"
proof -
  let ?t = "stop_observation registry crons at s"
  have "same_agent ?t s'"
    using assms complete_run_agent [of ?t at initial
        "?t\<lparr>ps_claude_background := claude_background_default\<rparr>"]
    by (auto simp: apply_claude_stop_def Let_def result_simps same_agent_def update_background_def
        dest!: complete_run_with_response_agent split: if_splits option.splits)
  with stop_observation_agent show ?thesis by (rule same_agent_trans)
qed

lemma end_claude_tracking_agent [simp]: "same_agent s (end_claude_tracking s)"
  by (simp add: end_claude_tracking_def same_agent_def update_background_def Let_def)

lemma apply_agent_session_started_agent [simp]:
  "same_agent s (apply_agent_session_started H source p s)"
  by (simp add: apply_agent_session_started_def same_agent_def Let_def split: option.splits)

lemma apply_report_fields_agent [simp]:
  "same_agent s (apply_report_fields report t) = same_agent s t"
  by (simp add: apply_report_fields_def same_agent_def)

lemma apply_explicit_report_agent [agent_rules]:
  "apply_explicit_report report s = Inr s' \<Longrightarrow> same_agent s s'"
  by (auto simp: apply_explicit_report_def result_simps
      split: option.splits reported_lifecycle.splits if_splits
      dest!: activity_observed_agent wait_requested_agent fail_run_agent
      intro: same_agent_trans)

lemma apply_regular_explicit_event_agent:
  "apply_regular_explicit_event H event pt s = Inr s' \<Longrightarrow> same_agent s s'"
  by (cases event) (auto simp: result_simps dest!: agent_rules intro: same_agent_trans)

section \<open>Declaring an agent absent\<close>

lemma begin_agent_epoch_agent:
  "begin_agent_epoch agent session source s = Inr t \<Longrightarrow> ps_agent t = agent \<and> ps_agent_present t"
  by (auto simp: begin_agent_epoch_def result_simps)

lemma classify_present:
  "ps_agent_present s \<Longrightarrow>
   classify_identity s agent session \<in> {ExactPresent, UnboundPresent, MismatchPresent}"
  by (simp add: classify_identity_def split: option.splits)

lemma classify_other: "ps_agent_present s \<Longrightarrow> ps_agent s \<noteq> agent \<Longrightarrow>
   classify_identity s agent session = MismatchPresent"
  by (simp add: classify_identity_def)

lemma classify_present_agent:
  "classify_identity s agent session = ExactPresent \<Longrightarrow> ps_agent s = agent"
  "classify_identity s agent session = UnboundPresent \<Longrightarrow> ps_agent s = agent"
  by (auto simp: classify_identity_def split: option.splits if_splits)

text \<open>On a present agent an explicit event keeps the agent, or is a verified handover.\<close>

lemma apply_by_identity_agent:
  assumes "apply_by_identity H event pt tracker agent session s = Inr t" and "ps_agent_present s"
  shows "same_agent s t \<or> (safe_handover s tracker event agent \<and> ps_agent_present t)"
proof -
  have bound: "same_agent s (s\<lparr>ps_agent_session_id := x\<rparr>)" for x
    by (simp add: same_agent_def)
  from classify_present [OF assms(2), of agent session] assms(1) show ?thesis
    by (auto simp: apply_by_identity_def Let_def result_simps split: if_splits
        dest!: apply_regular_explicit_event_agent begin_agent_epoch_agent
        intro: same_agent_trans [OF bound])
      (auto simp: same_agent_def)
qed

lemma capture_inference_step_agent:
  "capture_inference_step i tracker at s = Inr t \<Longrightarrow> same_agent s t"
  by (auto simp: capture_inference_step_def split: capture_inference.splits if_splits
      dest: activity_observed_agent wait_requested_agent fail_run_agent)

lemma apply_capture_agent:
  "apply_capture c at st = Inr st' \<Longrightarrow> same_agent (fst st) (fst st')"
  by (auto simp: apply_capture_def Let_def result_simps split: option.splits if_splits
      dest!: capture_inference_step_agent)

lemma apply_capture_count:
  "apply_capture c at st = Inr st' \<Longrightarrow> ct_absence_count (snd st') = ct_absence_count (snd st)"
  by (auto simp: apply_capture_def Let_def result_simps split: option.splits if_splits)

text \<open>What an observation does to a present agent: nothing, or the second absence.\<close>

definition second_absence :: "pane_state \<times> capture_tracker_snapshot \<Rightarrow> pane_state \<Rightarrow> bool" where
  "second_absence st s' \<longleftrightarrow> \<not> ps_agent_present s' \<and> ps_agent s' = ps_agent (fst st)
     \<and> ps_scan_verified (fst st) \<and> 1 \<le> ct_absence_count (snd st)"

lemma confirm_absent_agent: "ps_agent (confirm_absent at s) = ps_agent s \<and> \<not> ps_agent_present (confirm_absent at s)"
  using end_claude_tracking_agent [of s] complete_run_agent [of s at False s]
  by (auto simp: confirm_absent_def Let_def same_agent_def)

lemma count_absence_agent:
  assumes "count_absence at st = Inr st'" and "ps_scan_verified (fst st)"
  shows "same_agent (fst st) (fst st') \<or> second_absence st (fst st')"
proof -
  have "1 \<le> c" if "2 \<le> c + 1" for c :: u8
  proof (rule ccontr)
    assume "\<not> 1 \<le> c"
    then have "c = 0" by (simp add: word_le_nat_alt unat_eq_0 not_le)
    with that show False by (simp add: word_le_nat_alt)
  qed
  with assms confirm_absent_agent [of at "fst st"] show ?thesis
    by (auto simp: count_absence_def second_absence_def result_simps split: if_splits)
qed

lemma observe_absent_agent:
  assumes "observe_absent capture at st = Inr st'"
  shows "same_agent (fst st) (fst st') \<or> second_absence st (fst st')"
proof -
  from assms obtain u where u: "apply_capture capture at (fst st, (snd st)\<lparr>ct_agent_process := None,
        ct_replacement_kind := None, ct_replacement_streak := 0\<rparr>) = Inr u"
    "(ps_scan_verified (fst u) \<and> count_absence at u = Inr st') \<or> st' = u"
    by (auto simp: observe_absent_def result_simps split: if_splits)
  have same: "same_agent (fst st) (fst u)" and count: "ct_absence_count (snd u) = ct_absence_count (snd st)"
    using apply_capture_agent [OF u(1)] apply_capture_count [OF u(1)] by simp_all
  from u(2) show ?thesis
  proof
    assume "ps_scan_verified (fst u) \<and> count_absence at u = Inr st'"
    with count_absence_agent [of at u st'] same count show ?thesis
      by (auto simp: same_agent_def second_absence_def)
  qed (use same in simp)
qed

lemma observe_same_agent_agent:
  assumes "observe_same_agent agent capture process at st = Inr st'" and "ps_agent_present (fst st)"
    and "agent = ps_agent (fst st)"
  shows "ps_agent (fst st') = ps_agent (fst st) \<and> ps_agent_present (fst st')"
proof -
  have new: "ps_agent (fst st') = agent \<and> ps_agent_present (fst st')"
    if "observe_new_epoch agent p capture at (fst st, tr) = Inr st'" for p tr
    using that by (auto simp: observe_new_epoch_def result_simps dest: begin_agent_epoch_agent)
  have stay: "ps_agent (fst st') = agent \<and> ps_agent_present (fst st')"
    if "apply_capture capture at ((fst st)\<lparr>ps_scan_verified := True\<rparr>, tr) = Inr st'" for tr
    using apply_capture_agent [OF that] assms(2,3) by (simp add: same_agent_def)
  have "ps_agent (fst st') = agent \<and> ps_agent_present (fst st')"
    using assms(1,2) unfolding observe_same_agent_def Let_def
    by (simp split: if_splits) (erule new stay)+
  with assms(3) show ?thesis by simp
qed

lemma observe_other_agent_agent:
  assumes "observe_other_agent agent capture process at st = Inr st'" and "ps_agent_present (fst st)"
  shows "same_agent (fst st) (fst st') \<or> second_absence st (fst st')"
proof -
  from assms obtain u where
    u: "(if ps_scan_verified (fst st) then count_absence at st else Inr st) = Inr u"
    and same: "fst st' = fst u"
    by (auto simp: observe_other_agent_def Let_def result_simps split: if_splits)
  from u have "same_agent (fst st) (fst u) \<or> second_absence st (fst u)"
    using count_absence_agent by (cases "ps_scan_verified (fst st)") auto
  with same show ?thesis by simp
qed

lemma observe_existing_agent:
  assumes "observe_existing presence capture process at st = Inr st'"
    and "ps_agent_present (fst st)"
  shows "(ps_agent (fst st') = ps_agent (fst st) \<and> ps_agent_present (fst st'))
    \<or> (second_absence st (fst st') \<and> presence \<noteq> Unknown \<and> presence \<noteq> Present (ps_agent (fst st)))"
proof (cases presence)
  case Unknown
  with assms show ?thesis by (auto simp: observe_existing_def)
next
  case Absent
  with assms observe_absent_agent [of capture at st st'] show ?thesis
    by (auto simp: observe_existing_def same_agent_def)
next
  case (Present agent)
  with assms observe_other_agent_agent [of agent capture process at st st']
    observe_same_agent_agent [of agent capture process at st st'] show ?thesis
    by (auto simp: observe_existing_def same_agent_def split: if_splits)
qed

lemma apply_process_observation_agent:
  "apply_process_observation p s = Inr t \<Longrightarrow> same_agent s t"
  by (auto simp: apply_process_observation_def same_agent_def result_simps split: option.splits)

text \<open>The cases of a transition from a present agent.\<close>

lemma transition_agent:
  assumes "transition H envelope context s t" and "ps_agent_present s"
  shows "(ps_agent t = ps_agent s \<and> ps_agent_present t)
    \<or> (\<exists>base g at presence capture process.
         en_event envelope = ObservationBatch base g at presence capture process
         \<and> presence \<noteq> Unknown \<and> presence \<noteq> Present (ps_agent s)
         \<and> second_absence (s, rc_tracker context) t)
    \<or> (ps_agent_present t \<and> (\<exists>agent. en_agent envelope = Some agent
         \<and> (safe_handover s (rc_tracker context) (en_event envelope) agent
            \<or> (\<exists>at source p. en_event envelope = AgentSessionStarted at source p \<and> source \<noteq> Compact))))"
  using assms(1)
proof (cases rule: transition.cases)
  case (manual_done at)
  with mark_done_agent [OF manual_done(2)] assms(2) show ?thesis by (simp add: same_agent_def)
next
  case (session at source p agent sess t')
  with begin_agent_epoch_agent [OF session(6)]
    apply_agent_session_started_agent [of t' H source p] show ?thesis
    by (auto simp: same_agent_def)
next
  case (explicit agent session)
  with apply_by_identity_agent [OF explicit(4) assms(2)] assms(2) show ?thesis
    by (auto simp: same_agent_def)
next
  case (observed at presence capture process st)
  have "same_agent (fst st) t" by (rule apply_process_observation_agent [OF observed(3)])
  with observe_existing_agent [OF observed(2)] assms(2) observed(1) show ?thesis
    by (auto simp: same_agent_def second_absence_def)
qed (use assms(2) in simp_all)

text \<open>
  C7. An agent that is present is declared absent only by a process observation that does
  not show it, on a scan-verified record, and only when an earlier observation had already
  counted it as missing: a single missed scan never loses an agent.
\<close>

theorem agent_lost_on_second_scan:
  assumes "reduce H (Some old) envelope context = Inr r" and "rd_record r = Some new"
    and "ps_agent_present old" and "\<not> ps_agent_present new"
  shows "(\<exists>base g at presence capture process.
      en_event envelope = ObservationBatch base g at presence capture process
      \<and> presence \<noteq> Unknown \<and> presence \<noteq> Present (ps_agent old))
    \<and> ps_scan_verified old \<and> 1 \<le> ct_absence_count (rc_tracker context)"
  using assms(1,2)
proof (cases rule: reduction_transition)
  case (step t n)
  from transition_agent [OF step(1) assms(3)] frame_of_unread [OF step(2)] assms(4) show ?thesis
    by (auto simp: second_absence_def)
qed (use assms in simp)

text \<open>
  C8. While an agent is present, a record changes to another agent only through a handover
  that the process scans have confirmed twice, or through the start of a new session.
\<close>

theorem agent_replaced_by_verified_handover:
  assumes "reduce H (Some old) envelope context = Inr r" and "rd_record r = Some new"
    and "ps_agent_present old" and "ps_agent new \<noteq> ps_agent old"
  shows "\<exists>agent. en_agent envelope = Some agent
    \<and> (safe_handover old (rc_tracker context) (en_event envelope) agent
       \<or> (\<exists>at source p. en_event envelope = AgentSessionStarted at source p \<and> source \<noteq> Compact))"
  using assms(1,2)
proof (cases rule: reduction_transition)
  case (step t n)
  from transition_agent [OF step(1) assms(3)] frame_of_unread [OF step(2)] assms(4) show ?thesis
    by (auto simp: second_absence_def)
qed (use assms in simp)

section \<open>The unread mark\<close>

lemma push_occurrence_read:
  assumes "push_occurrence event context reason s = Inr s'"
    and "rc_pane_visible context \<or> (\<exists>v at. event = MarkDone v at)"
  shows "\<not> is_unread (ps_unread s')"
  using assms by (auto simp: push_occurrence_def Let_def result_simps is_unread_def)

lemma apply_unread_transition_seen:
  assumes "apply_unread_transition current event context s = Inr s'"
    and "rc_pane_visible context \<or> (\<exists>v at. event = MarkDone v at)"
  shows "ps_unread s' = ps_unread s \<or> \<not> is_unread (ps_unread s')"
  using assms push_occurrence_read
  by (fastforce simp: apply_unread_transition_def Let_def update_background_def
      split: pane_event.splits option.splits lifecycle_state.splits if_splits)

theorem visible_pane_stays_read:
  assumes "reduce H (Some old) envelope context = Inr r" and "rd_record r = Some new"
    and "rc_pane_visible context" and "\<not> is_unread (ps_unread old)"
  shows "\<not> is_unread (ps_unread new)"
  using assms(1)
proof (cases rule: reduce_cases)
  case (changed s n s')
  have "unread_kept (ps_unread old) (ps_unread s)"
    using changed(5) by (simp add: descends_def op_frame_def)
  with assms(4) have "\<not> is_unread (ps_unread s)"
    by (auto simp: unread_kept_def is_unread_def)
  with apply_unread_transition_seen [OF changed(6)] assms(2,3) changed(2) show ?thesis by auto
qed (use assms in simp)

section \<open>Manual completion\<close>

lemma mark_done_effect:
  assumes "mark_done at s = Inr t"
  shows "t \<noteq> s \<and> ps_completed_seq t \<noteq> ps_completed_seq s \<and> ps_run_seq t = ps_completed_seq t
    \<and> ps_lifecycle t = Idle \<and> ps_completed_at t = Some at \<and> ps_agent_epoch t = ps_agent_epoch s
    \<and> \<not> blocks_completion (ps_claude_background t) \<and> ps_subagents t = []
    \<and> unread_kept (ps_unread s) (ps_unread t)"
proof -
  have "ps_completed_seq t \<noteq> ps_completed_seq s" and rest: "ps_run_seq t = ps_completed_seq t
    \<and> ps_lifecycle t = Idle \<and> ps_completed_at t = Some at \<and> ps_agent_epoch t = ps_agent_epoch s
    \<and> ps_claude_background t = claude_background_default \<and> ps_subagents t = []
    \<and> ps_unread t = ps_unread s"
    using assms by (auto simp: mark_done_def result_simps split: if_splits)
  then show ?thesis
    by (auto simp: blocks_completion_def pending_count_def claude_background_default_def)
qed

lemma finish_outcome:
  "finish_state_reduction H (Some s) t tracker previous = Inr r \<Longrightarrow> t \<noteq> s \<Longrightarrow>
   rd_outcome r = CanonicalChanged \<and> (\<exists>n. rd_record r = Some (t\<lparr>ps_revision := n\<rparr>))"
  by (auto simp: finish_state_reduction_def Let_def result_simps)

lemma fresh_completed:
  assumes "ps_lifecycle s = Idle" and "ps_agent_epoch old = ps_agent_epoch s"
    and "ps_completed_seq old < ps_completed_seq s"
  shows "fresh_unread_reason (Some old) b s = Some UnreadCompleted"
  using assms by (simp add: fresh_unread_reason_def)

text \<open>
  A manual completion is accepted only for the version it names; it then closes the
  run at the given time, leaves nothing unread and counts exactly one occurrence.
\<close>

theorem manual_done_closes:
  assumes "reduce H (Some old) envelope context = Inr r" and "rd_record r = Some new"
    and "en_event envelope = MarkDone v at" and "pane_state_validate H old = Inr ()"
  shows "v = version old \<and> ps_lifecycle new = Idle \<and> ps_completed_seq new = ps_run_seq new
    \<and> ps_completed_at new = Some at \<and> \<not> is_unread (ps_unread new)
    \<and> un_occurrence_seq (ps_unread new) = un_occurrence_seq (ps_unread old) + 1"
proof -
  from assms(1,3) obtain r0 t where t: "version old = v" "mark_done at old = Inr t"
    and r0: "reduce_event H (Some old) envelope context = Inr r0"
      "finish_state_reduction H (Some old) t
         ((rc_tracker context)\<lparr>ct_rebaseline_pending := True\<rparr>) (Some (rc_tracker context)) = Inr r0"
    by (auto simp: reduce_def reduce_event_def reduce_internal_state_event_def Let_def result_simps
        split: if_splits)
  note effect = mark_done_effect [OF t(2)]
  obtain n where stored: "rd_record r0 = Some (t\<lparr>ps_revision := n\<rparr>)"
    and outcome: "rd_outcome r0 = CanonicalChanged"
    using finish_outcome [OF r0(2)] effect by blast
  from assms(1,3) r0(1) stored outcome assms(2)
  have step: "apply_unread_transition (Some old) (MarkDone v at) context (t\<lparr>ps_revision := n\<rparr>) = Inr new"
    and valid: "pane_state_validate H new = Inr ()"
    by (auto simp: reduce_def result_simps split: if_splits)
  have le: "ps_completed_seq old \<le> ps_run_seq old"
    using assms(4) by (auto simp: pane_state_validate_def validate_sequence_def result_simps not_less
        split: if_splits)
  have less: "ps_completed_seq old < ps_completed_seq (t\<lparr>ps_revision := n\<rparr>)"
    using t(2) le
    by (auto simp: mark_done_def result_simps inc_greater order.not_eq_order_implies_strict
        split: if_splits)
  have push: "push_occurrence (MarkDone v at) context UnreadCompleted (t\<lparr>ps_revision := n\<rparr>) = Inr new"
    using step effect fresh_completed [OF _ _ less]
    by (simp add: apply_unread_transition_def)
  note added = push_occurrence_added [OF push, simplified]
  from added obtain u where new: "new = t\<lparr>ps_revision := n, ps_unread := u\<rparr>" by blast
  have "\<not> is_unread (ps_unread new)" by (rule push_occurrence_read [OF push]) simp
  moreover have "un_occurrence_seq (ps_unread new) = un_occurrence_seq (ps_unread old) + 1"
    using added effect by (auto simp: occurrence_added_def unread_kept_simps)
  moreover have "ps_lifecycle new = Idle \<and> ps_completed_seq new = ps_run_seq new
      \<and> ps_completed_at new = Some at"
    using new effect by simp
  ultimately show ?thesis using t(1) by simp
qed

end
