(* ===== verification/PaneRuns.thy ===== *)
theory PaneRuns
  imports PaneGuards
begin

text \<open>
  Acceptance of the run operations: on a valid record of a present agent the operations
  that open or resume a run produce a valid record, so \<open>reduce\<close> never rejects them as a
  violated invariant; and a task prompt given in private never reaches the public part of
  the record.
\<close>

section \<open>Validity as a conjunction\<close>

definition lifecycle_ok :: "lifecycle_state \<Rightarrow> bool" where
  "lifecycle_ok l \<longleftrightarrow> (case l of
      Waiting reason \<Rightarrow> wait_reason_validate reason = Inr ()
    | Error (Some reason) \<Rightarrow> validate_optional_text reason ''error reason'' IDENTIFIER_MAX_BYTES = Inr ()
    | _ \<Rightarrow> True)"

lemma validate_lifecycle_ok:
  "validate_lifecycle s = Inr u \<longleftrightarrow>
     \<not> (blocks_completion (ps_claude_background s) \<and> ps_lifecycle s = Idle)
   \<and> (is_claude (ps_agent s) \<or> cb_tasks (ps_claude_background s) = []
        \<and> cb_faults (ps_claude_background s) = [] \<and> cs_entries (ps_claude_crons s) = [])
   \<and> (ps_lifecycle s = Idle) = (ps_run_seq s = ps_completed_seq s)
   \<and> (ps_agent_present s \<or> ps_scan_verified s \<and> absent_lifecycle_ok (ps_lifecycle s))
   \<and> (ps_synthetic_completion_armed s \<longrightarrow> ps_lifecycle s = Idle \<and> ps_run_seq s = 0
        \<and> ps_scan_verified s \<and> ps_agent_session_id s = None)
   \<and> (ps_run_seq s = 0 \<longrightarrow> ps_completed_seq s = 0 \<and> ps_started_at s = None)
   \<and> (ps_completed_seq s = 0) = (ps_completed_at s = None)
   \<and> (ps_run_seq s > 0 \<longrightarrow> ps_started_at s \<noteq> None)
   \<and> lifecycle_ok (ps_lifecycle s)"
  by (cases "ps_lifecycle s")
    (auto simp: validate_lifecycle_def Let_def result_simps lifecycle_ok_def split: option.splits)

lemma validate_sequence_ok:
  "validate_sequence s = Inr u \<longleftrightarrow> ps_revision s \<noteq> 0 \<and> ps_agent_epoch s \<noteq> 0
   \<and> ps_completed_seq s \<le> ps_run_seq s \<and> ps_run_seq s - ps_completed_seq s \<le> 1
   \<and> (\<forall>r. ps_current_run s = Some r \<longrightarrow> current_run_validate r = Inr ()
        \<and> cr_run_seq r = ps_run_seq s)"
  by (auto simp: validate_sequence_def result_simps not_less not_le)

lemma validate_details_ok:
  "validate_details H s = Inr u \<longleftrightarrow> check_opt prompt_validate (ps_prompt s) = Inr ()
   \<and> check_opt response_validate (ps_latest_response s) = Inr ()
   \<and> task_context_validate H (ps_task_context s) = Inr ()
   \<and> validate_tasks (ps_tasks s) = Inr () \<and> validate_subagents (ps_subagents s) = Inr ()
   \<and> check_opt worktree_activity_validate (ps_worktree_activity s) = Inr ()
   \<and> check_opt background_process_validate (ps_background_process s) = Inr ()
   \<and> process_observation_validate \<lparr>po_agent_process_checked = False, po_agent_process = None,
       po_background_process_alive = None, po_listening_ports = Some (ps_listening_ports s)\<rparr> = Inr ()
   \<and> unread_validate (ps_unread s) = Inr ()"
  unfolding validate_details_def by (simp only: first_error_Inr_iff) simp

lemma pane_state_validate_ok:
  "pane_state_validate H s = Inr u \<longleftrightarrow> ps_schema_version s = PANE_STATE_SCHEMA_VERSION
   \<and> claude_background_validate (ps_claude_background s) (ps_run_seq s) = Inr ()
   \<and> claude_cron_snapshot_validate (ps_claude_crons s) = Inr ()
   \<and> pane_instance_validate (ps_pane_instance s) = Inr ()
   \<and> check_opt agent_process_validate (ps_agent_process s) = Inr ()
   \<and> validate_sequence s = Inr () \<and> validate_lifecycle s = Inr () \<and> validate_details H s = Inr ()"
  unfolding pane_state_validate_def
  by (simp only: first_error_Inr_iff) (simp add: fail_if_Inr_iff)

lemmas pane_validity = pane_state_validate_ok validate_sequence_ok validate_lifecycle_ok
  validate_details_ok

section \<open>Opening and resuming a run\<close>

lemma tasks_default_valid [simp]: "validate_tasks task_state_default = Inr ()"
  by (simp add: validate_tasks_def task_state_default_def)

lemma no_subagents_valid [simp]: "validate_subagents [] = Inr ()"
  by (simp add: validate_subagents_def)

lemma start_new_run_total: "ps_run_seq s \<noteq> - 1 \<Longrightarrow> \<exists>t. start_new_run at s = Inr t"
  by (cases "ps_run_seq s = ps_completed_seq s") (simp_all add: start_new_run_def checked_inc_def)

lemma start_new_run_valid:
  assumes "pane_state_validate H s = Inr ()" and "ps_agent_present s"
    and "start_new_run at s = Inr t"
    and "l \<noteq> Idle" and "lifecycle_ok l" and "b = id \<or> b = activity"
  shows "pane_state_validate H
    (t\<lparr>ps_lifecycle := l, ps_claude_background := b (ps_claude_background t)\<rparr>) = Inr ()"
proof (cases "ps_run_seq s = ps_completed_seq s")
  case True
  with assms(3) have t: "ps_run_seq s \<noteq> - 1" "t = s\<lparr>ps_run_seq := ps_run_seq s + 1,
      ps_current_run := None, ps_started_at := Some at, ps_prompt := None,
      ps_latest_response := None, ps_tasks := task_state_default, ps_subagents := [],
      ps_worktree_activity := None, ps_claude_background := claude_background_default,
      ps_synthetic_completion_armed := False\<rparr>"
    by (auto simp: start_new_run_def result_simps)
  note counters = inc_nonzero [OF t(1)] inc_pos [OF t(1)] inc_greater [OF t(1)]
  have b: "b claude_background_default = claude_background_default" using assms(6) by auto
  from assms(1,2,4,5) True counters b show ?thesis
    by (auto simp: pane_validity t(2) less_imp_le)
next
  case False
  with assms(3) have t: "t = s\<lparr>ps_synthetic_completion_armed := False\<rparr>"
    by (simp add: start_new_run_def)
  from assms(6) have "cb_tasks (b c) = cb_tasks c" "cb_faults (b c) = cb_faults c"
    "claude_background_validate c n = Inr () \<Longrightarrow> claude_background_validate (b c) n = Inr ()" for c n
    by (auto simp: activity_valid)
  with assms(1,2,4,5) False show ?thesis
    by (auto simp: pane_validity t)
qed

theorem run_operations_accepted:
  assumes "pane_state_validate H s = Inr ()" and "ps_agent_present s" and "ps_run_seq s \<noteq> - 1"
    and "wait_reason_validate reason = Inr ()"
    and "\<forall>m. message = Some m \<longrightarrow>
      validate_optional_text m ''error reason'' IDENTIFIER_MAX_BYTES = Inr ()"
  shows "(\<exists>t. activity_observed at s = Inr t \<and> ps_lifecycle t = Running
        \<and> pane_state_validate H t = Inr ())
    \<and> (\<exists>t. wait_requested at reason s = Inr t \<and> ps_lifecycle t = Waiting reason
        \<and> pane_state_validate H t = Inr ())
    \<and> (\<exists>t. fail_run at message s = Inr t \<and> ps_lifecycle t = Error message
        \<and> pane_state_validate H t = Inr ())"
proof -
  obtain t where t: "start_new_run at s = Inr t"
    using start_new_run_total [OF assms(3)] by blast
  note valid = start_new_run_valid [OF assms(1,2) t]
  have "pane_state_validate H (update_background activity (t\<lparr>ps_lifecycle := Running\<rparr>)) = Inr ()"
    using valid [of Running activity] by (simp add: update_background_def lifecycle_ok_def)
  moreover have "pane_state_validate H (t\<lparr>ps_lifecycle := Waiting reason\<rparr>) = Inr ()"
    using valid [of "Waiting reason" id] assms(4) by (simp add: lifecycle_ok_def)
  moreover have "pane_state_validate H (t\<lparr>ps_lifecycle := Error message\<rparr>) = Inr ()"
    using valid [of "Error message" id] assms(5) by (simp add: lifecycle_ok_def split: option.splits)
  ultimately show ?thesis
    using t by (simp add: activity_observed_def wait_requested_def fail_run_def update_background_def)
qed

section \<open>Prompts\<close>

lemma prompt_clean: "prompt_validate p = Inr () \<Longrightarrow> \<not> list_ex is_control (pr_text p)"
  by (auto simp: prompt_validate_def validate_required_text_def validate_optional_text_def result_simps)

lemma response_clean: "response_validate r = Inr () \<Longrightarrow> \<not> list_ex is_control (rs_text r)"
  by (auto simp: response_validate_def validate_required_text_def validate_optional_text_def result_simps)

lemma start_new_run_context: "start_new_run at s = Inr t \<Longrightarrow> ps_task_context t = ps_task_context s"
  by (auto simp: start_new_run_def result_simps split: if_splits)

text \<open>The context and the prompt that \<open>begin_run\<close> leaves.\<close>

definition run_prompt :: "prompt_state option \<Rightarrow> str option \<Rightarrow> prompt_state option" where
  "run_prompt prompt secret = (case secret of None \<Rightarrow> prompt | Some _ \<Rightarrow> None)"

definition run_context :: "(u8 list \<Rightarrow> str) \<Rightarrow> pane_state \<Rightarrow> prompt_state option \<Rightarrow>
    str option \<Rightarrow> task_context_state" where
  "run_context H s prompt secret =
    (let fresh = (ps_run_seq s = ps_completed_seq s);
         reference = (if fresh then map_option rs_text (ps_latest_response s) else None);
         c = ps_task_context s
     in case secret of
          Some text' \<Rightarrow> if fresh then observe_private_prompt_with_reference H text' reference c
            else observe_private_prompt H text' c
        | None \<Rightarrow> (case prompt of None \<Rightarrow> c
            | Some p \<Rightarrow> if fresh then observe_prompt_with_reference H (pr_text p) reference c
                else observe_prompt H (pr_text p) c))"

lemma begin_run_shape:
  "begin_run H at prompt secret s = bind_r (start_new_run at s) (\<lambda>t.
     Inr ((update_background activity (t\<lparr>ps_lifecycle := Running\<rparr>))
       \<lparr>ps_prompt := run_prompt prompt secret, ps_task_context := run_context H s prompt secret\<rparr>))"
proof (cases "start_new_run at s")
  case (Inr t)
  then show ?thesis
    using start_new_run_context [OF Inr]
    by (simp add: begin_run_def Let_def run_prompt_def run_context_def update_background_def
        split: option.splits)
qed (simp add: begin_run_def Let_def)

lemma run_context_inv:
  assumes "task_context_inv H (ps_task_context s)" and "hex_digest H"
    and "\<forall>r. ps_latest_response s = Some r \<longrightarrow> response_validate r = Inr ()"
    and "\<forall>p. prompt = Some p \<longrightarrow> prompt_validate p = Inr ()"
    and "\<forall>q. secret = Some q \<longrightarrow> \<not> list_ex is_control q"
  shows "task_context_inv H (run_context H s prompt secret)
    \<and> (\<forall>q. secret = Some q \<longrightarrow> trim q \<noteq> [] \<longrightarrow> public_clean (run_context H s prompt secret))"
proof -
  let ?r = "if ps_run_seq s = ps_completed_seq s then map_option rs_text (ps_latest_response s) else None"
  have r: "\<forall>t. ?r = Some t \<longrightarrow> \<not> list_ex is_control t"
    using assms(3) response_clean by auto
  show ?thesis
    using assms(4,5) prompt_clean
      observe_private_prompt_with_reference_inv [OF assms(1,2) _ r]
      observe_private_prompt_inv [OF assms(1,2)] observe_prompt_inv [OF assms(1,2)]
      observe_prompt_with_reference_inv [OF assms(1,2) _ r]
    by (cases secret; cases prompt) (auto simp: run_context_def Let_def assms(1) split: if_splits)
qed

lemma prompt_context_valid:
  assumes "pane_state_validate H u = Inr ()" and "task_context_validate H c = Inr ()"
    and "check_opt prompt_validate q = Inr ()"
  shows "pane_state_validate H (u\<lparr>ps_prompt := q, ps_task_context := c\<rparr>) = Inr ()"
proof -
  let ?v = "u\<lparr>ps_prompt := q, ps_task_context := c\<rparr>"
  have "validate_sequence ?v = validate_sequence u" "validate_lifecycle ?v = validate_lifecycle u"
    by (simp_all add: validate_sequence_def validate_lifecycle_def)
  with assms show ?thesis by (simp add: pane_state_validate_ok validate_details_ok)
qed

lemma response_of_valid:
  "pane_state_validate H s = Inr () \<Longrightarrow> ps_latest_response s = Some r \<Longrightarrow> response_validate r = Inr ()"
  by (simp add: pane_validity)

theorem begin_run_accepted:
  assumes "pane_state_validate H s = Inr ()" and "ps_agent_present s" and "ps_run_seq s \<noteq> - 1"
    and "hex_digest H" and "task_context_inv H (ps_task_context s)"
    and "\<forall>p. prompt = Some p \<longrightarrow> prompt_validate p = Inr ()"
    and "\<forall>q. secret = Some q \<longrightarrow> \<not> list_ex is_control q"
  shows "\<exists>t. begin_run H at prompt secret s = Inr t \<and> ps_lifecycle t = Running
    \<and> pane_state_validate H t = Inr () \<and> task_context_inv H (ps_task_context t)"
proof -
  obtain t where t: "start_new_run at s = Inr t"
    using start_new_run_total [OF assms(3)] by blast
  let ?u = "update_background activity (t\<lparr>ps_lifecycle := Running\<rparr>)"
  have u: "pane_state_validate H ?u = Inr ()"
    using start_new_run_valid [OF assms(1,2) t, of Running activity]
    by (simp add: update_background_def lifecycle_ok_def)
  have c: "task_context_inv H (run_context H s prompt secret)"
    using run_context_inv [OF assms(5,4) _ assms(6,7)] response_of_valid [OF assms(1)] by blast
  have p: "check_opt prompt_validate (run_prompt prompt secret) = Inr ()"
    using assms(6) by (cases secret; cases prompt) (simp_all add: run_prompt_def)
  from prompt_context_valid [OF u _ p] c have "pane_state_validate H (?u\<lparr>ps_prompt := run_prompt prompt secret,
      ps_task_context := run_context H s prompt secret\<rparr>) = Inr ()"
    by (simp add: task_context_inv_def)
  with t c show ?thesis by (simp add: begin_run_shape update_background_def)
qed

text \<open>
  C9. The text of a private prompt never enters the stored record: after a run that begins
  with one, the record has no prompt, no recent prompts and no reference response.
\<close>

theorem private_prompt_stays_private:
  assumes "begin_run H at prompt (Some secret) s = Inr t"
    and "pane_state_validate H s = Inr ()" and "task_context_inv H (ps_task_context s)"
    and "hex_digest H" and "\<not> list_ex is_control secret" and "trim secret \<noteq> []"
    and "\<forall>p. prompt = Some p \<longrightarrow> prompt_validate p = Inr ()"
  shows "ps_prompt t = None \<and> tc_recent_prompts (ps_task_context t) = []
    \<and> tc_reference_response (ps_task_context t) = None"
proof -
  have "public_clean (run_context H s prompt (Some secret))"
    using run_context_inv [OF assms(3,4) _ assms(7), of "Some secret"] assms(5,6)
      response_of_valid [OF assms(2)] by simp
  with assms(1) show ?thesis
    by (auto simp: begin_run_shape run_prompt_def result_simps update_background_def public_clean_def)
qed

end
