(* ===== verification/PaneTables.thy ===== *)
theory PaneTables
  imports Prelude PaneProgress
begin

text \<open>
  The interface of a list addressed by a key: an entry is inserted or replaced in place,
  and removed by its key. The laws say what a lookup returns after each operation; from
  them follow what a whole batch of operations leaves, which is what the progress reports
  of the agents rely on (the last report of an item wins, whatever came in between).
\<close>

locale keyed_table =
  fixes lookup :: "'k \<Rightarrow> 't \<Rightarrow> 'v option"
    and upsert :: "'e \<Rightarrow> 't \<Rightarrow> 't"
    and key :: "'e \<Rightarrow> 'k"
    and stored :: "'e \<Rightarrow> 'v"
  assumes lookup_upsert:
    "lookup k (upsert e t) = (if k = key e then Some (stored e) else lookup k t)"
begin

lemma last_upsert_wins:
  "lookup k (fold upsert es t) = (case find (\<lambda>e. key e = k) (rev es) of
      Some e \<Rightarrow> Some (stored e) | None \<Rightarrow> lookup k t)"
proof (induction es arbitrary: t)
  case (Cons e es)
  have "find p (xs @ [x]) = (case find p xs of Some y \<Rightarrow> Some y
      | None \<Rightarrow> if p x then Some x else None)" for p :: "'e \<Rightarrow> bool" and xs x
    by (induction xs) auto
  with Cons show ?case by (auto simp: lookup_upsert split: option.splits)
qed simp

lemma upsert_commute:
  "key e \<noteq> key f \<Longrightarrow> lookup k (upsert e (upsert f t)) = lookup k (upsert f (upsert e t))"
  by (simp add: lookup_upsert)

end

locale erasable_table = keyed_table lookup upsert key stored
  for lookup :: "'k \<Rightarrow> 't \<Rightarrow> 'v option" and upsert :: "'e \<Rightarrow> 't \<Rightarrow> 't"
    and key :: "'e \<Rightarrow> 'k" and stored :: "'e \<Rightarrow> 'v" +
  fixes remove :: "'k \<Rightarrow> 't \<Rightarrow> 't"
  assumes lookup_remove: "lookup k (remove k' t) = (if k = k' then None else lookup k t)"
begin

lemma upsert_then_remove: "lookup k (remove (key e) (upsert e t)) = lookup k (remove (key e) t)"
  by (simp add: lookup_remove lookup_upsert)

lemma removed_stays_out:
  assumes "\<forall>e \<in> set es. key e \<noteq> k"
  shows "lookup k (fold upsert es (remove k t)) = None"
proof -
  have "find (\<lambda>e. key e = k) (rev es) = None"
    using assms by (auto simp: find_None_iff)
  then show ?thesis by (simp add: last_upsert_wins lookup_remove)
qed

end

text \<open>
  The keyed lists of the progress operations (task items and subagents) as instances of
  the table interface, and the counts derived from the task items.
\<close>

section \<open>Lookups after an update\<close>

lemma find_append: "find p (xs @ ys) = (case find p xs of Some x \<Rightarrow> Some x | None \<Rightarrow> find p ys)"
  by (induction xs) auto

definition task_lookup :: "str \<Rightarrow> task_item_state list \<Rightarrow> (str \<times> task_item_status) option" where
  "task_lookup i items = map_option (\<lambda>item. (ti_step item, ti_status item))
     (find (\<lambda>item. ti_id item = Some i) items)"

definition subagent_lookup :: "str \<Rightarrow> subagent_state list \<Rightarrow> subagent_state option" where
  "subagent_lookup i subagents = find (\<lambda>s. sa_agent_id s = i) subagents"

lemma list_ex_find: "list_ex p xs \<longleftrightarrow> find p xs \<noteq> None"
  by (induction xs) auto

lemma task_lookup_upsert:
  "task_lookup k (upsert_task_item i step items) =
    (if k = i then Some (step, TaskPending) else task_lookup k items)"
proof (cases "list_ex (\<lambda>item. ti_id item = Some i) items")
  case True
  then show ?thesis
    by (induction items) (auto simp: task_lookup_def upsert_task_item_def split: if_splits)
next
  case False
  then have "find (\<lambda>item. ti_id item = Some i) items = None" by (simp add: list_ex_find)
  with False show ?thesis
    by (auto simp: task_lookup_def upsert_task_item_def find_append split: option.splits)
qed

lemma subagent_lookup_upsert:
  "subagent_lookup k (upsert_subagent s subagents) =
    (if k = sa_agent_id s then Some s else subagent_lookup k subagents)"
proof (cases "list_ex (\<lambda>e. sa_agent_id e = sa_agent_id s) subagents")
  case True
  then show ?thesis
    by (induction subagents) (auto simp: subagent_lookup_def upsert_subagent_def split: if_splits)
next
  case False
  then have "find (\<lambda>e. sa_agent_id e = sa_agent_id s) subagents = None" by (simp add: list_ex_find)
  with False show ?thesis
    by (auto simp: subagent_lookup_def upsert_subagent_def find_append split: option.splits)
qed

lemma subagent_lookup_remove:
  "subagent_lookup k (remove_subagent i subagents) = (if k = i then None else subagent_lookup k subagents)"
  by (induction subagents) (auto simp: subagent_lookup_def remove_subagent_def)

interpretation task_table: keyed_table task_lookup "\<lambda>e. upsert_task_item (fst e) (snd e)"
    fst "\<lambda>e. (snd e, TaskPending)"
  by unfold_locales (rule task_lookup_upsert)

interpretation subagent_table: erasable_table subagent_lookup upsert_subagent sa_agent_id
    "\<lambda>s. s" remove_subagent
  by unfold_locales (rule subagent_lookup_upsert, rule subagent_lookup_remove)

section \<open>Batches of operations\<close>

lemma derive_items [simp]: "ts_items (derive_task_progress t) = ts_items t"
  by (simp add: derive_task_progress_def)

lemma apply_progress_fold:
  assumes "apply_progress operations s = Inr s'"
  shows "fold_r apply_progress_operation s operations = Inr s'"
proof -
  have "fold_r (\<lambda>s operation. bind_r (map_err InvalidProgressOperation
      (validate_progress_operation operation)) (\<lambda>_. apply_progress_operation s operation))
      s operations = Inr s' \<Longrightarrow> fold_r apply_progress_operation s operations = Inr s'" for s
    by (induction operations arbitrary: s) (auto simp: result_simps)
  with assms show ?thesis by (auto simp: apply_progress_def result_simps)
qed

lemma upsert_tasks_fold:
  "fold_r apply_progress_operation s (map (\<lambda>e. UpsertTaskItem (fst e) (snd e)) es) = Inr s' \<Longrightarrow>
   ts_items (ps_tasks s') = fold (\<lambda>e. upsert_task_item (fst e) (snd e)) es (ts_items (ps_tasks s))"
  by (induction es arbitrary: s) (auto simp: result_simps)

lemma upsert_subagents_fold:
  "fold_r apply_progress_operation s (map UpsertSubagent es) = Inr s' \<Longrightarrow>
   ps_subagents s' = fold upsert_subagent es (ps_subagents s)"
  by (induction es arbitrary: s) (auto simp: result_simps)

theorem task_upserts_last_wins:
  assumes "apply_progress (map (\<lambda>e. UpsertTaskItem (fst e) (snd e)) es) s = Inr s'"
  shows "task_lookup i (ts_items (ps_tasks s')) = (case find (\<lambda>e. fst e = i) (rev es) of
      Some e \<Rightarrow> Some (snd e, TaskPending) | None \<Rightarrow> task_lookup i (ts_items (ps_tasks s)))"
  using upsert_tasks_fold [OF apply_progress_fold [OF assms]]
  by (simp add: task_table.last_upsert_wins)

theorem removed_subagent_stays_removed:
  assumes "apply_progress (RemoveSubagent i # map UpsertSubagent es) s = Inr s'"
    and "\<forall>e \<in> set es. sa_agent_id e \<noteq> i"
  shows "subagent_lookup i (ps_subagents s') = None"
proof -
  have "ps_subagents s' = fold upsert_subagent es (remove_subagent i (ps_subagents s))"
    using upsert_subagents_fold [of "s\<lparr>ps_subagents := remove_subagent i (ps_subagents s)\<rparr>"]
      apply_progress_fold [OF assms(1)]
    by (auto simp: result_simps)
  with subagent_table.removed_stays_out [OF assms(2)] show ?thesis by simp
qed

section \<open>Counts\<close>

lemma completed_items_update:
  assumes "find p items = Some item" and "ti_status item \<noteq> TaskCompletedStatus"
  shows "completed_items (update_first p (\<lambda>item. item\<lparr>ti_status := TaskCompletedStatus\<rparr>) items)
    = Suc (completed_items items)"
  using assms by (induction items) (auto simp: completed_items_def split: if_splits)

lemma validate_tasks_counts:
  "validate_tasks t = Inr () \<Longrightarrow> ts_items t \<noteq> [] \<Longrightarrow>
   tp_done (ts_progress t) = of_nat (completed_items (ts_items t))
   \<and> tp_total (ts_progress t) = of_nat (length (ts_items t))"
  by (auto simp: validate_tasks_def result_simps)

theorem completing_item_counts:
  assumes "validate_tasks (ps_tasks s) = Inr ()"
    and "find (\<lambda>item. ti_id item = Some i) (ts_items (ps_tasks s)) = Some item"
    and "ti_status item \<noteq> TaskCompletedStatus"
  shows "\<exists>s'. apply_progress_operation s (UpdateTaskItemStatus i TaskCompletedStatus) = Inr s'
    \<and> tp_done (ts_progress (ps_tasks s')) = tp_done (ts_progress (ps_tasks s)) + 1
    \<and> tp_total (ts_progress (ps_tasks s')) = tp_total (ts_progress (ps_tasks s))
    \<and> length (ts_items (ps_tasks s')) = length (ts_items (ps_tasks s))"
proof -
  let ?items = "ts_items (ps_tasks s)"
  let ?p = "\<lambda>item. ti_id item = Some i"
  let ?new = "update_first ?p (\<lambda>item. item\<lparr>ti_status := TaskCompletedStatus\<rparr>) ?items"
  have ex: "list_ex ?p ?items" using assms(2) by (simp add: list_ex_find)
  then have items: "?items \<noteq> []" "?new \<noteq> []" by (cases ?items; auto)+
  note counts = validate_tasks_counts [OF assms(1) items(1)]
  show ?thesis
    using ex items counts completed_items_update [OF assms(2,3)]
    by (simp add: derive_task_progress_def)
qed

end
