(* ===== verification/Samples.thy ===== *)
theory Samples
  imports PaneModel "HOL-Library.Code_Target_Numeral"
begin

text \<open>
  The concrete values that the witness theories share: a digest function, the kinds of the
  two providers and the first record of a pane.
\<close>

definition sample_digest :: "u8 list \<Rightarrow> str" where
  "sample_digest bs = replicate 64 97"

lemma sample_digest_hex: "hex_digest sample_digest"
  by (simp add: hex_digest_def sample_digest_def text_len_def utf8_len_def is_hex_def is_lower_hex_def
      sum_list_replicate list_all_iff)

definition claude_kind :: agent_kind where "claude_kind = lit ''claude''"
definition codex_kind :: agent_kind where "codex_kind = lit ''codex''"

definition fresh_pane :: pane_state where
  "fresh_pane = \<lparr>ps_schema_version = PANE_STATE_SCHEMA_VERSION, ps_state_id = replicate 32 99,
     ps_revision = 1, ps_pane_instance = \<lparr>pane_id = lit ''%7'', pane_pid = 70\<rparr>,
     ps_agent = claude_kind, ps_agent_session_id = Some (lit ''session-1''),
     ps_agent_process = None, ps_agent_epoch = 1, ps_agent_present = True,
     ps_scan_verified = False, ps_synthetic_completion_armed = False, ps_lifecycle = Idle,
     ps_run_seq = 0, ps_current_run = None, ps_completed_seq = 0, ps_unread = unread_default,
     ps_started_at = None, ps_completed_at = None, ps_prompt = None, ps_latest_response = None,
     ps_task_context = task_context_default, ps_tasks = task_state_default, ps_subagents = [],
     ps_worktree_activity = None, ps_background_process = None,
     ps_claude_background = claude_background_default,
     ps_claude_crons = claude_cron_snapshot_default, ps_listening_ports = []\<rparr>"

end
