(* ===== verification/PaneWitnesses.thy ===== *)
theory PaneWitnesses
  imports PaneRuns PaneTables Samples Badge
begin

text \<open>
  A concrete pane with a Claude agent, run through the reducer, at which the hypotheses of
  the pane theorems hold; the records below are the ones the reducer produces.
\<close>

section \<open>The sample pane\<close>

definition sample_envelope :: "agent_kind \<Rightarrow> pane_event \<Rightarrow> pane_event_envelope" where
  "sample_envelope agent event = \<lparr>en_daemon_instance_id = replicate 32 97,
     en_event_id = replicate 32 98, en_pane_instance = \<lparr>pane_id = lit ''%7'', pane_pid = 70\<rparr>,
     en_agent = Some agent, en_agent_session_id = Some (lit ''session-1''), en_event = event\<rparr>"

definition sample_context :: "bool \<Rightarrow> capture_tracker_snapshot \<Rightarrow> reduction_context" where
  "sample_context visible tracker = \<lparr>rc_pane_visible = visible, rc_tracker = tracker,
     rc_new_state_id = Some (replicate 32 99), rc_latest_unread_order = 4,
     rc_private_task_prompt = None\<rparr>"

definition plain_context :: reduction_context where
  "plain_context = sample_context False tracker_default"

definition applied :: "pane_state option \<Rightarrow> pane_event \<Rightarrow> reduction" where
  "applied current event =
     projr (reduce sample_digest current (sample_envelope claude_kind event) plain_context)"

lemma is_ok_projr: "is_ok m \<Longrightarrow> m = Inr (projr m)"
  by (cases m) simp_all

text \<open>A run is begun, a background task is registered, a permission is awaited.\<close>

definition begun :: pane_state where
  "begun = fresh_pane\<lparr>ps_lifecycle := Running, ps_run_seq := 1, ps_started_at := Some 10\<rparr>"

definition registered :: pane_state where
  "registered = begun\<lparr>ps_revision := 2, ps_claude_background := claude_background_default
     \<lparr>cb_tasks := [\<lparr>bt_task_id = lit ''t1'', bt_tool_use_id = lit ''u1'', bt_owner_run_seq = 1,
        bt_command = lit ''sleep 9'', bt_registered_at = 11, bt_receipt = Pending,
        bt_notification_status = None, bt_last_registry_presence = RegistryUnknown,
        bt_last_checked_at = None\<rparr>]\<rparr>\<rparr>"

definition waiting :: pane_state where
  "waiting = begun\<lparr>ps_revision := 2, ps_lifecycle := Waiting PermissionPrompt,
     ps_unread := \<lparr>un_occurrence_seq = 1, un_read_seq = 0, un_latest = Some \<lparr>uo_seq = 1,
       uo_order = 5, uo_reason = UnreadWaiting, uo_occurred_at = 12\<rparr>\<rparr>\<rparr>"

definition scanned :: pane_state where
  "scanned = fresh_pane\<lparr>ps_agent_session_id := None, ps_scan_verified := True\<rparr>"

definition register_event :: pane_event where
  "register_event = ClaudeToolResultObserved 11
     (Registered (lit ''t1'') (lit ''u1'') (lit ''sleep 9'')) []"

lemma begun_valid: "pane_state_validate sample_digest begun = Inr ()"
  by code_simp

section \<open>Witnesses\<close>

theorem reduce_contract_witness:
  "\<exists>s. rd_record (applied None (BeginRun 10 None)) = Some s \<and> ps_revision s = 1
     \<and> pane_state_validate sample_digest s = Inr ()"
proof -
  have ok: "reduce sample_digest None (sample_envelope claude_kind (BeginRun 10 None)) plain_context
    = Inr (applied None (BeginRun 10 None))"
    unfolding applied_def by (rule is_ok_projr) code_simp
  have "rd_outcome (applied None (BeginRun 10 None)) = CanonicalChanged" by code_simp
  with reduce_contract [OF ok] show ?thesis by (auto simp: succ_revision_def)
qed

theorem pane_run_valid_witness:
  "pane_state_validate sample_digest registered = Inr ()"
proof (rule pane_run_valid)
  show "fold_r (pane_step sample_digest) None
    [(sample_envelope claude_kind (BeginRun 10 None), plain_context),
     (sample_envelope claude_kind register_event, plain_context)]
    = Inr (Some registered)"
    by code_simp
qed


definition stopped :: pane_state where
  "stopped = the (rd_record (applied (Some registered) (ClaudeStopped 13 None None None)))"

theorem background_blocks_completion_witness:
  "ps_completed_seq stopped = ps_completed_seq registered \<and> ps_run_seq stopped = ps_run_seq registered
   \<and> ps_lifecycle stopped \<noteq> Idle \<and> stopped \<noteq> registered"
proof -
  have "ps_completed_seq stopped = ps_completed_seq registered
    \<and> ps_run_seq stopped = ps_run_seq registered \<and> ps_lifecycle stopped \<noteq> Idle"
  proof (rule background_blocks_completion)
    show "reduce sample_digest (Some registered)
        (sample_envelope claude_kind (ClaudeStopped 13 None None None)) plain_context
      = Inr (applied (Some registered) (ClaudeStopped 13 None None None))"
      unfolding applied_def by (rule is_ok_projr) code_simp
    show "rd_record (applied (Some registered) (ClaudeStopped 13 None None None)) = Some stopped"
      by code_simp
    show "pane_state_validate sample_digest registered = Inr ()" by code_simp
    show "blocks_completion (ps_claude_background registered)" by code_simp
    show "\<forall>v at. en_event (sample_envelope claude_kind (ClaudeStopped 13 None None None)) \<noteq> MarkDone v at"
      by (simp add: sample_envelope_def)
    show "ps_agent_epoch stopped = ps_agent_epoch registered" by code_simp
  qed
  moreover have "ps_revision stopped \<noteq> ps_revision registered" by code_simp
  ultimately show ?thesis by auto
qed

theorem reduce_unread_monotone_witness:
  "un_occurrence_seq (ps_unread waiting) = un_occurrence_seq (ps_unread begun) + 1
   \<and> (\<exists>l. un_latest (ps_unread waiting) = Some l \<and> 4 < uo_order l)"
proof -
  have ok: "reduce sample_digest (Some begun)
      (sample_envelope claude_kind (WaitRequested 12 PermissionPrompt)) plain_context
    = Inr (applied (Some begun) (WaitRequested 12 PermissionPrompt))"
    unfolding applied_def by (rule is_ok_projr) code_simp
  have stored: "rd_record (applied (Some begun) (WaitRequested 12 PermissionPrompt)) = Some waiting"
    by code_simp
  have "un_occurrence_seq (ps_unread waiting) \<noteq> un_occurrence_seq (ps_unread begun)" by code_simp
  with reduce_unread_monotone [OF ok stored] show ?thesis
    by (auto simp: plain_context_def sample_context_def)
qed

theorem pane_same_revision_same_record_witness:
  "fold_r (pane_step sample_digest) (Some waiting)
     [(sample_envelope claude_kind (MarkPaneRead 0), plain_context)] = Inr (Some waiting)"
proof -
  let ?t = "the (projr (fold_r (pane_step sample_digest) (Some waiting)
     [(sample_envelope claude_kind (MarkPaneRead 0), plain_context)]))"
  have run: "fold_r (pane_step sample_digest) (Some waiting)
     [(sample_envelope claude_kind (MarkPaneRead 0), plain_context)] = Inr (Some ?t)"
    by code_simp
  have "ps_revision ?t = ps_revision waiting" by code_simp
  from pane_same_revision_same_record [OF run this] run show ?thesis by simp
qed

definition lost :: reduction where
  "lost = projr (reduce sample_digest (Some scanned)
     (sample_envelope claude_kind (ObservationBatch (Some (Canonical (version scanned))) 0 20
       Absent None None))
     (sample_context False (tracker_default\<lparr>ct_absence_count := 1\<rparr>)))"

theorem agent_lost_on_second_scan_witness:
  "ps_agent_present scanned \<and> \<not> ps_agent_present (the (rd_record lost))
   \<and> 1 \<le> ct_absence_count (tracker_default\<lparr>ct_absence_count := 1\<rparr>)"
proof -
  have ok: "reduce sample_digest (Some scanned)
      (sample_envelope claude_kind (ObservationBatch (Some (Canonical (version scanned))) 0 20
        Absent None None))
      (sample_context False (tracker_default\<lparr>ct_absence_count := 1\<rparr>)) = Inr lost"
    unfolding lost_def by (rule is_ok_projr) code_simp
  have stored: "rd_record lost = Some (the (rd_record lost))" by code_simp
  have present: "ps_agent_present scanned" by code_simp
  have absent: "\<not> ps_agent_present (the (rd_record lost))" by code_simp
  from agent_lost_on_second_scan [OF ok stored present absent] present absent show ?thesis
    by (simp add: sample_context_def)
qed

definition handover_tracker :: capture_tracker_snapshot where
  "handover_tracker = tracker_default\<lparr>ct_epoch := Some (replicate 32 99, 1),
     ct_replacement_kind := Some codex_kind, ct_replacement_streak := 2\<rparr>"

definition replaced :: reduction where
  "replaced = projr (reduce sample_digest (Some begun)
     (sample_envelope codex_kind (BeginRun 30 None)) (sample_context False handover_tracker))"

theorem agent_replaced_by_verified_handover_witness:
  "ps_agent (the (rd_record replaced)) \<noteq> ps_agent begun
   \<and> safe_handover begun handover_tracker (BeginRun 30 None) codex_kind"
proof -
  have ok: "reduce sample_digest (Some begun) (sample_envelope codex_kind (BeginRun 30 None))
      (sample_context False handover_tracker) = Inr replaced"
    unfolding replaced_def by (rule is_ok_projr) code_simp
  have stored: "rd_record replaced = Some (the (rd_record replaced))" by code_simp
  have present: "ps_agent_present begun" by code_simp
  have other: "ps_agent (the (rd_record replaced)) \<noteq> ps_agent begun" by code_simp
  from agent_replaced_by_verified_handover [OF ok stored present other] other show ?thesis
    by (simp add: sample_envelope_def sample_context_def)
qed

section \<open>Run operations\<close>

definition sample_prompt :: prompt_state where
  "sample_prompt = \<lparr>pr_text = lit ''fix the build'', pr_source = lit ''hook'', pr_digest = None\<rparr>"

lemma begun_context: "task_context_inv sample_digest (ps_task_context begun)"
  by (simp add: begun_def fresh_pane_def)

definition begun_in_private :: pane_state where
  "begun_in_private = projr (begin_run sample_digest 50 (Some sample_prompt)
     (Some (lit ''rotate the key'')) begun)"

theorem private_prompt_stays_private_witness:
  "ps_prompt begun_in_private = None
   \<and> tc_recent_prompts (ps_task_context begun_in_private) = []
   \<and> tc_reference_response (ps_task_context begun_in_private) = None"
proof (rule private_prompt_stays_private)
  show "begin_run sample_digest 50 (Some sample_prompt) (Some (lit ''rotate the key'')) begun
    = Inr begun_in_private"
    unfolding begun_in_private_def by (rule is_ok_projr) code_simp
  show "pane_state_validate sample_digest begun = Inr ()" by (rule begun_valid)
  show "task_context_inv sample_digest (ps_task_context begun)" by (rule begun_context)
  show "hex_digest sample_digest" by (rule sample_digest_hex)
  show "\<not> list_ex is_control (lit ''rotate the key'')" "trim (lit ''rotate the key'') \<noteq> []"
    by code_simp+
  have "prompt_validate sample_prompt = Inr ()" by code_simp
  then show "\<forall>p. Some sample_prompt = Some p \<longrightarrow> prompt_validate p = Inr ()" by simp
qed

end
