(* ===== verification/StoreWitnesses.thy ===== *)
theory StoreWitnesses
  imports PaneNotices PaneWitnesses
begin

text \<open>
  A concrete pane store: one pane, a permission request, the snapshot file with the bytes of
  the one snapshot that is written, two polls, and a full flash table.
\<close>

section \<open>The sample store\<close>

definition sample_frame :: preflight_encoder where
  "sample_frame n ss ts ds = Inr 1000"

lemma sample_frame_total: "encoder_total sample_frame"
  by (simp add: encoder_total_def sample_frame_def)

definition loaded :: pane_records where
  "loaded = [(pane_key_of (ps_pane_instance begun), begun)]"

definition hydrated :: state_runtime where
  "hydrated = projr (hydrate sample_digest loaded)"

definition sample_key :: pane_key where
  "sample_key = (lit ''%7'', 70)"

definition wait_envelope :: pane_event_envelope where
  "wait_envelope = sample_envelope claude_kind (WaitRequested 12 PermissionPrompt)"

definition asked :: pane_state where
  "asked = begun\<lparr>ps_revision := 2, ps_lifecycle := Waiting PermissionPrompt,
     ps_unread := \<lparr>un_occurrence_seq = 1, un_read_seq = 0, un_latest = Some \<lparr>uo_seq = 1,
       uo_order = 1, uo_reason = UnreadWaiting, uo_occurred_at = 12\<rparr>\<rparr>\<rparr>"

text \<open>The file system grants every call; the encoder knows the one snapshot.\<close>

definition sample_server :: server_identity where
  "sample_server = \<lparr>si_pid = 1, si_start_time = 2\<rparr>"

definition sample_encoder :: snapshot_encoder where
  "sample_encoder s = (if s = \<lparr>sn_schema_version = PANE_SNAPSHOT_SCHEMA_VERSION,
     sn_server_identity = sample_server, sn_records = [asked]\<rparr> then Inr [123, 125] else Inl (lit ''other''))"

definition sample_decoder :: snapshot_decoder where
  "sample_decoder bytes = (if bytes = [123, 125] then Inr \<lparr>sn_schema_version = PANE_SNAPSHOT_SCHEMA_VERSION,
     sn_server_identity = sample_server, sn_records = [erase_private asked]\<rparr> else Inl (lit ''other''))"

lemma sample_json: "json_snapshot sample_digest sample_encoder sample_decoder"
  by (simp add: json_snapshot_def sample_encoder_def sample_decoder_def)

definition private_directory :: file_metadata where
  "private_directory = \<lparr>md_is_symlink = False, md_is_file = False, md_is_dir = True, md_uid = 501, md_mode = 0x41C0\<rparr>"

definition granted :: save_environment where
  "granted = \<lparr>se_parent = Some (lit ''/run''), se_stat_parent = Stat private_directory,
     se_create_ancestors = Inr (), se_create_parent = MkdirCreated, se_stat_created = Inr private_directory,
     se_stat = StatNotFound, se_file_name = Some (lit ''pane''), se_create_temp = Inr (), se_write = Inr (),
     se_written = 0, se_sync = Inr (), se_rename = Inr (), se_sync_parent = Inr ()\<rparr>"

definition sample_saver :: "(snapshot_files \<times> nat) saver" where
  "sample_saver = file_saver sample_digest sample_encoder 501 (lit ''/run/pane'') sample_server (\<lambda>_. granted)"

definition empty_disk :: "snapshot_files \<times> nat" where
  "empty_disk = (\<lparr>sf_current = None, sf_temp = None\<rparr>, 0)"

definition wait_request :: store_request where
  "wait_request = ApplyEventRequest (Inr []) wait_envelope False None"

definition after_wait :: "(state_runtime \<times> snapshot_files \<times> nat) \<times> store_error option" where
  "after_wait = serve sample_digest sample_frame sample_saver wait_request (hydrated, empty_disk)"

lemma hydrated_ok: "hydrate sample_digest loaded = Inr hydrated"
  unfolding hydrated_def by (rule is_ok_projr) code_simp

lemma loaded_sorted: "bm_invar loaded"
  by (simp add: loaded_def bm_invar_def)

lemma hydrated_bounded: "collections_bounded hydrated"
  by code_simp

lemma hydrated_inv: "store_inv sample_digest hydrated"
  using hydrate_inv [OF hydrated_ok loaded_sorted hydrated_bounded] by simp

lemma wait_served: "served sample_digest sample_frame sample_saver (hydrated, empty_disk) (fst after_wait)"
  unfolding after_wait_def by (rule served.request [OF served.start])

lemma after_wait_record: "rt_records (fst (fst after_wait)) = [(sample_key, asked)]"
  by code_simp

section \<open>Witnesses\<close>

theorem store_records_consistent_witness:
  "latest_order asked \<le> rt_latest_unread_order (fst (fst after_wait))
    \<and> pane_state_validate sample_digest asked = Inr ()"
proof -
  have s: "served sample_digest sample_frame sample_saver (hydrated, empty_disk)
      (fst (fst after_wait), snd (fst after_wait))"
    using wait_served by simp
  show ?thesis
    using store_records_consistent [OF hydrated_ok loaded_sorted hydrated_bounded sample_frame_total s]
    by (simp add: after_wait_record)
qed


theorem visible_change_survives_restart_witness:
  "\<exists>bytes rt''. sf_current (fst (snd (fst after_wait))) = Some bytes
    \<and> decode_snapshot sample_digest sample_decoder sample_server bytes
        = Inr (durable_records [(sample_key, asked)])
    \<and> hydrate sample_digest (durable_records [(sample_key, asked)]) = Inr rt''"
proof -
  obtain rt' files' n' e where r: "after_wait = ((rt', files', n'), e)"
    by (cases after_wait) auto
  have "serve sample_digest sample_frame (file_saver sample_digest sample_encoder 501 (lit ''/run/pane'')
      sample_server (\<lambda>_. granted)) wait_request (hydrated, fst empty_disk, snd empty_disk) = ((rt', files', n'), e)"
    using r by (simp add: after_wait_def sample_saver_def)
  moreover have "rt_records rt' \<noteq> rt_records hydrated"
  proof -
    have "rt_records hydrated \<noteq> [(sample_key, asked)]" by code_simp
    then show ?thesis using after_wait_record r by (metis fst_conv)
  qed
  ultimately obtain bytes rt'' where "sf_current files' = Some bytes"
    "decode_snapshot sample_digest sample_decoder sample_server bytes = Inr (durable_records (rt_records rt'))"
    "hydrate sample_digest (durable_records (rt_records rt')) = Inr rt''"
    using visible_change_survives_restart [OF hydrated_inv sample_frame_total sample_json] by blast
  moreover have "rt_records rt' = [(sample_key, asked)]" using after_wait_record r by (metis fst_conv)
  ultimately show ?thesis unfolding r by auto
qed

definition refused :: "(state_runtime \<times> snapshot_files \<times> nat) \<times> (store_error + apply_result)" where
  "refused = apply_event sample_digest sample_frame
     (file_saver sample_digest sample_encoder 502 (lit ''/run/pane'') sample_server (\<lambda>_. granted))
     (Inr []) wait_envelope False None (hydrated, empty_disk)"

theorem apply_event_error_sources_witness:
  "fst (fst refused) = hydrated \<and> \<not> is_ok (snd refused)"
proof -
  have e: "\<not> is_ok (snd refused)" by code_simp
  then obtain x where "snd refused = Inl x" by (cases "snd refused") auto
  then have "apply_event sample_digest sample_frame
     (file_saver sample_digest sample_encoder 502 (lit ''/run/pane'') sample_server (\<lambda>_. granted))
     (Inr []) wait_envelope False None (hydrated, empty_disk) = (fst refused, Inl x)"
    by (simp add: refused_def [symmetric] prod_eq_iff)
  from apply_event_error_sources [OF hydrated_inv this] e show ?thesis by simp
qed

theorem blocked_pane_notified_once_witness:
  "rt_notification_jobs (fst (fst after_wait)) = newest MAX_NOTIFICATION_JOBS
     (rt_notification_jobs hydrated @
       [\<lparr>nt_pane_instance = en_pane_instance wait_envelope, nt_state_version = version asked\<rparr>])"
proof -
  obtain rt' d' a where r: "apply_event sample_digest sample_frame sample_saver (Inr []) wait_envelope False None
      (hydrated, empty_disk) = ((rt', d'), Inr a)"
  proof -
    have "is_ok (snd (apply_event sample_digest sample_frame sample_saver (Inr []) wait_envelope False None
      (hydrated, empty_disk)))" by code_simp
    then show thesis using that
      by (cases "apply_event sample_digest sample_frame sample_saver (Inr []) wait_envelope False None
        (hydrated, empty_disk)"; cases "snd (apply_event sample_digest sample_frame sample_saver (Inr [])
        wait_envelope False None (hydrated, empty_disk))") auto
  qed
  have rt: "rt' = fst (fst after_wait)" using r by (simp add: after_wait_def wait_request_def)
  have "sample_key = pane_key_of (en_pane_instance wait_envelope)"
    by (simp add: sample_key_def wait_envelope_def sample_envelope_def pane_key_of_def)
  note k = blocked_pane_notified_once [OF hydrated_inv r this]
  have "record_badge (bm_get (rt_records hydrated) sample_key) \<noteq> Some Blocked" by code_simp
  moreover have "bm_get (rt_records rt') sample_key = Some asked"
    by (simp add: rt after_wait_record)
  moreover have "record_badge (Some asked) = Some Blocked" by code_simp
  ultimately show ?thesis using k by (simp add: rt)
qed

text \<open>A full flash table, and a read of a pane whose badge it changes.\<close>

definition stale_pane :: pane_state where
  "stale_pane = begun\<lparr>ps_lifecycle := Idle, ps_completed_seq := 1, ps_completed_at := Some 12,
     ps_unread := \<lparr>un_occurrence_seq = 1, un_read_seq = 0, un_latest = Some \<lparr>uo_seq = 1,
       uo_order = 1, uo_reason = UnreadCompleted, uo_occurred_at = 12\<rparr>\<rparr>\<rparr>"

definition read_envelope :: pane_event_envelope where
  "read_envelope = sample_envelope claude_kind (MarkPaneRead 1)"

definition crowded_flash :: "(pane_key \<times> u8) list" where
  "crowded_flash = map (\<lambda>i. ((lit ''%9'', of_nat i), 1)) [1..<257]"

definition crowded :: state_runtime where
  "crowded = runtime_default\<lparr>rt_records := [(sample_key, stale_pane)], rt_latest_unread_order := 1,
     rt_flash := crowded_flash\<rparr>"

lemma crowded_flash_sorted: "bm_invar crowded_flash"
proof -
  have "sorted_wrt (\<lambda>i j. (of_nat i :: u32) < of_nat j) [1..<257]"
    by (rule sorted_wrt_mono_rel [OF _ sorted_wrt_upt]) (simp add: word_less_nat_alt unat_of_nat)
  then show ?thesis
    by (simp add: bm_invar_def crowded_flash_def sorted_wrt_map less_prod_def)
qed

definition read_reduction :: reduction where
  "read_reduction = projr (reduce sample_digest (bm_get (rt_records crowded) sample_key) read_envelope
     (reduction_context_of crowded sample_key None False None))"

theorem full_flash_stops_daemon_witness:
  "rt_fail_stopped (fst (fst (apply_pane_reads sample_digest sample_frame sample_saver [read_envelope]
     (crowded, empty_disk))))"
proof -
  have records: "rt_records crowded = [(sample_key, stale_pane)]"
    by (simp add: crowded_def)
  have "records_ok sample_digest [(sample_key, stale_pane)]"
  proof -
    have "pane_state_validate sample_digest stale_pane = Inr ()"
      "pane_key_of (ps_pane_instance stale_pane) = sample_key" by code_simp+
    then show ?thesis by (simp add: records_ok_def record_ok_def bm_invar_def split: option.split)
  qed
  moreover have "latest_occurrence stale_pane = Some \<lparr>uo_seq = 1, uo_order = 1, uo_reason = UnreadCompleted,
      uo_occurred_at = 12\<rparr>" by code_simp
  ultimately have ok: "store_ok sample_digest crowded"
    using crowded_flash_sorted
    by (auto simp: store_ok_def crowded_def runtime_default_def bm_invar_def [of "[]"] crowded_flash_def)
  have inv: "store_inv sample_digest crowded"
    using ok by (simp add: store_inv_def collections_bounded_def crowded_def runtime_default_def
        crowded_flash_def MAX_DIAGNOSTICS_def)
  have key: "pane_key_of (en_pane_instance read_envelope) = sample_key"
    by (simp add: read_envelope_def sample_envelope_def pane_key_of_def sample_key_def)
  have "bm_get crowded_flash sample_key = None"
    by (auto simp: crowded_flash_def sample_key_def map_of_eq_None_iff lit_def)
  then have flash: "bm_get (rt_flash crowded) (pane_key_of (en_pane_instance read_envelope)) = None"
    "length (rt_flash crowded) = 256"
    by (simp_all add: key crowded_def crowded_flash_def)
  have context': "reduction_context_of crowded sample_key None False None
      = reduction_context_of (crowded\<lparr>rt_flash := []\<rparr>) sample_key None False None"
    by (simp add: reduction_context_of_def rt_tracker_def)
  have red: "reduce sample_digest (bm_get (rt_records crowded) (pane_key_of (en_pane_instance read_envelope)))
      read_envelope (reduction_context_of crowded (pane_key_of (en_pane_instance read_envelope)) None False None)
      = Inr read_reduction"
    unfolding key read_reduction_def context' by (rule is_ok_projr) code_simp
  have "rd_outcome read_reduction = CanonicalChanged"
    "record_badge (rd_record read_reduction) \<noteq> record_badge (Some stale_pane)"
    unfolding read_reduction_def context' by code_simp+
  moreover have "bm_get (rt_records crowded) (pane_key_of (en_pane_instance read_envelope)) = Some stale_pane"
    by (simp add: key records)
  moreover have "\<not> rt_fail_stopped crowded" "rt_snapshot_revision crowded \<noteq> - 1"
    by (simp_all add: crowded_def runtime_default_def)
  moreover have "en_event read_envelope = MarkPaneRead 1"
    by (simp add: read_envelope_def sample_envelope_def)
  ultimately have "fst (fst (apply_pane_reads sample_digest sample_frame sample_saver [read_envelope]
      (crowded, empty_disk))) = stop_daemon crowded"
    using full_flash_stops_daemon [OF inv _ _ flash(2,1) _ red, of 1, where S = sample_saver and d = empty_disk
      and P = sample_frame] by simp
  then show ?thesis by (simp add: stop_daemon_def)
qed

end
