(* ===== verification/AgentRun.thy ===== *)
theory AgentRun
  imports AgentModel Machine
begin

text \<open>
  The reducer of durable runs, \<open>src/src/agent_state/reducer.rs\<close>: a provider observation
  creates a run or is applied to one. The record is a working copy of the caller's, which
  drops it on an error, so no record is returned with an error.
\<close>

datatype apply_disposition = Applied | Duplicate | EvidenceOnly

definition require_observation_binding ::
  "agent_binding \<Rightarrow> provider_observation \<Rightarrow> message + unit" where
  "require_observation_binding b ob =
    fail_if (ab_agent_kind b \<noteq> obs_provider ob \<or> ab_provider_session_id b \<noteq> obs_session_id ob)
      (Msg ''provider observation does not match the Agent Binding'')"

definition correctness_event_ref :: "provider_observation \<Rightarrow> str option" where
  "correctness_event_ref ob =
    (if obs_hook_kind ob = HookUserPromptSubmit \<or> obs_hook_kind ob = HookStop
     then Some (case obs_provider_event_ref ob of Some r \<Rightarrow> r | None \<Rightarrow> obs_ingress_request_id ob)
     else None)"

definition find_stable_provider_reference ::
  "run_record \<Rightarrow> provider_observation \<Rightarrow> provider_event_reference option" where
  "find_stable_provider_reference r ob = (case correctness_event_ref ob of
      None \<Rightarrow> None
    | Some event_ref \<Rightarrow>
        find (\<lambda>e. pr_event_ref e = event_ref) (re_provider_events (run_evidence r)))"

text \<open>\<open>Vec::remove\<close> at an index in range.\<close>

definition remove_at :: "nat \<Rightarrow> 'a list \<Rightarrow> 'a list" where
  "remove_at i xs = take i xs @ drop (Suc i) xs"

definition make_room ::
  "provider_event_reference list \<Rightarrow> message + provider_event_reference list" where
  "make_room events =
    (if length events \<ge> RUN_EVENT_REFERENCE_MAX_COUNT
     then (case position (\<lambda>e. pr_disposition e = lit ''prompt_updated'') events of
         Some i \<Rightarrow> Inr (remove_at i events)
       | None \<Rightarrow> Inl (Msg ''run provider event reference capacity exceeded''))
     else Inr events)"

definition new_reference :: "run_record \<Rightarrow> provider_observation \<Rightarrow> str \<Rightarrow> str \<Rightarrow> str \<Rightarrow>
    provider_event_reference" where
  "new_reference r ob event_ref digest disposition = \<lparr>pr_event_ref = event_ref,
     pr_ingress_request_id = obs_ingress_request_id ob, pr_payload_digest = digest,
     pr_disposition = disposition,
     pr_receipt = lit ''run_revision_'' @ lit (decimal (unat (run_revision r))),
     pr_count = 1, pr_first_observed_at = obs_observed_at ob,
     pr_last_observed_at = obs_observed_at ob\<rparr>"

definition append_provider_reference ::
  "run_record \<Rightarrow> provider_observation \<Rightarrow> string \<Rightarrow> message + run_record" where
  "append_provider_reference r ob disposition =
    bind_r (case correctness_event_ref ob of
        None \<Rightarrow> Inr (re_provider_events (run_evidence r))
      | Some event_ref \<Rightarrow>
          bind_r (make_room (re_provider_events (run_evidence r))) (\<lambda>events.
          bind_r (sha256_digest_parse (obs_payload_digest ob)) (\<lambda>digest.
            Inr (events @ [new_reference r ob event_ref digest (lit disposition)])))) (\<lambda>events.
      Inr (r\<lparr>run_evidence := (run_evidence r)
        \<lparr>re_provider_events := events,
         re_first_observed_at := Some (case re_first_observed_at (run_evidence r) of
             None \<Rightarrow> obs_observed_at ob | Some v \<Rightarrow> min v (obs_observed_at ob)),
         re_last_observed_at := Some (case re_last_observed_at (run_evidence r) of
             None \<Rightarrow> obs_observed_at ob | Some v \<Rightarrow> max v (obs_observed_at ob))\<rparr>\<rparr>))"

text \<open>The end of both branches of \<open>apply_observation\<close>.\<close>

definition stamp_revision :: "run_record \<Rightarrow> provider_observation \<Rightarrow> message + run_record" where
  "stamp_revision r ob =
    bind_r (checked_inc (Msg ''run revision overflow'') (run_revision r)) (\<lambda>n.
      Inr (r\<lparr>run_updated_at := max (run_updated_at r) (obs_observed_at ob), run_revision := n\<rparr>))"

text \<open>The branch for a reference that the record already has.\<close>

definition retry_reference ::
  "run_record \<Rightarrow> provider_observation \<Rightarrow> provider_event_reference \<Rightarrow> message + run_record" where
  "retry_reference r ob existing =
    bind_r (sha256_digest_parse (obs_payload_digest ob)) (\<lambda>digest.
    if pr_payload_digest existing \<noteq> digest
    then Inl (Msg ''provider event reference was reused with another payload'')
    else bind_r (checked_inc (Msg ''provider retry count overflow'') (pr_count existing)) (\<lambda>n.
      Inr (r\<lparr>run_evidence := (run_evidence r)\<lparr>re_provider_events :=
        update_first (\<lambda>e. pr_event_ref e = pr_event_ref existing)
          (\<lambda>e. e\<lparr>pr_count := n,
             pr_last_observed_at := max (pr_last_observed_at e) (obs_observed_at ob)\<rparr>)
          (re_provider_events (run_evidence r))\<rparr>\<rparr>)))"

definition observe_phase :: "execution_phase \<Rightarrow> run_record \<Rightarrow> run_record" where
  "observe_phase phase r =
    (if run_semantic_outcome r = Unresolved \<and> run_execution_phase r \<noteq> PhaseEnded
     then r\<lparr>run_execution_phase := phase\<rparr> else r)"

text \<open>The \<open>match\<close> on the hook kind; \<open>entropy\<close> feeds \<open>ResolutionId::generate\<close>.\<close>

definition apply_hook ::
  "str + u8 list \<Rightarrow> provider_observation \<Rightarrow> run_record \<Rightarrow> message + run_record" where
  "apply_hook entropy ob r = (case obs_hook_kind ob of
      HookSessionStart \<Rightarrow> Inl (Msg ''SessionStart cannot be attributed to an Agent Run'')
    | HookUserPromptSubmit \<Rightarrow> Inr r
    | HookActivity \<Rightarrow>
        bind_r (checked_inc (Msg ''activity evidence overflow'')
            (re_activity_count (run_evidence r))) (\<lambda>n.
          Inr (observe_phase PhaseRunning
            (r\<lparr>run_evidence := (run_evidence r)\<lparr>re_activity_count := n\<rparr>\<rparr>)))
    | HookWaiting \<Rightarrow>
        bind_r (checked_inc (Msg ''permission evidence overflow'')
            (re_permission_request_count (run_evidence r))) (\<lambda>n.
          Inr (observe_phase PhaseWaiting
            (r\<lparr>run_evidence := (run_evidence r)\<lparr>re_permission_request_count := n\<rparr>\<rparr>)))
    | HookStop \<Rightarrow>
        (if run_semantic_outcome r = Unresolved
         then bind_r (random_hex_128 entropy) (\<lambda>resolution_id.
           Inr (r\<lparr>run_execution_phase := PhaseEnded, run_semantic_outcome := Completed,
             run_resolution := Some \<lparr>rr_resolution_id = resolution_id,
               rr_kind = ProviderCompleted, rr_resolved_at = obs_observed_at ob,
               rr_operator_audit = None\<rparr>\<rparr>))
         else Inr r))"

definition turn_mismatch :: "run_record \<Rightarrow> provider_observation \<Rightarrow> bool" where
  "turn_mismatch r ob = (case (run_provider_turn_key r, obs_provider_turn_key ob) of
      (Some expected, Some actual) \<Rightarrow> expected \<noteq> actual | _ \<Rightarrow> False)"

definition apply_observation :: "(u8 list \<Rightarrow> str) \<Rightarrow> evidence_encoder \<Rightarrow> str + u8 list \<Rightarrow>
    run_record \<Rightarrow> provider_observation \<Rightarrow> message + (run_record \<times> apply_disposition)" where
  "apply_observation H J entropy r ob =
    bind_r (require_observation_binding (run_binding r) ob) (\<lambda>_.
    if turn_mismatch r ob
    then Inl (Msg ''provider observation belongs to another turn'')
    else case find_stable_provider_reference r ob of
      Some existing \<Rightarrow>
        bind_r (retry_reference r ob existing) (\<lambda>r.
        bind_r (stamp_revision r ob) (\<lambda>r.
        bind_r (run_record_validate H J r) (\<lambda>_. Inr (r, Duplicate))))
    | None \<Rightarrow>
        bind_r (apply_hook entropy ob r) (\<lambda>r.
        bind_r (append_provider_reference r ob
            (if obs_hook_kind ob = HookUserPromptSubmit then ''prompt_updated'' else ''applied''))
          (\<lambda>r.
        bind_r (stamp_revision r ob) (\<lambda>r.
        bind_r (run_record_validate H J r) (\<lambda>_. Inr (r, Applied))))))"

definition initial_run :: "state_generation \<Rightarrow> stable_run_id \<Rightarrow> u64 \<Rightarrow> agent_binding \<Rightarrow>
    operation_id option \<Rightarrow> provider_observation \<Rightarrow> run_record" where
  "initial_run generation run_id run_seq binding operation ob =
    \<lparr>run_state_format_version = PRIVATE_STATE_FORMAT_VERSION, run_generation = generation,
     run_run_id = run_id, run_run_seq = run_seq, run_revision = 1, run_binding = binding,
     run_provider_turn_key = obs_provider_turn_key ob, run_operation_id = operation,
     run_execution_phase = PhaseRunning, run_semantic_outcome = Unresolved,
     run_evidence = run_evidence_default, run_resolution = None, run_artifact = None,
     run_created_at = obs_observed_at ob, run_updated_at = obs_observed_at ob\<rparr>"

definition first_observation :: "(u8 list \<Rightarrow> str) \<Rightarrow> evidence_encoder \<Rightarrow>
    str + u8 list \<Rightarrow> provider_observation \<Rightarrow> run_record \<Rightarrow> message + run_record" where
  "first_observation H J entropy ob r =
    (if obs_hook_kind ob = HookUserPromptSubmit
     then append_provider_reference r ob ''run_created''
     else bind_r (apply_observation H J entropy r ob) (\<lambda>x. Inr (fst x)))"

definition new_run_from_observation :: "(u8 list \<Rightarrow> str) \<Rightarrow> evidence_encoder \<Rightarrow>
    str + u8 list \<Rightarrow> str + u8 list \<Rightarrow> state_generation \<Rightarrow> agent_binding \<Rightarrow> u64 \<Rightarrow>
    operation_id option \<Rightarrow> provider_observation \<Rightarrow> message + run_record" where
  "new_run_from_observation H J run_entropy entropy generation binding run_seq operation ob =
    (if \<not> can_start_run ob
     then Inl (Msg ''new run allocation requires a prompt or a Codex turn activity/wait hook'')
     else if operation \<noteq> None \<and> obs_hook_kind ob \<noteq> HookUserPromptSubmit
     then Inl (Msg ''only a user prompt can link an operation to a new run'')
     else bind_r (require_observation_binding binding ob) (\<lambda>_.
       bind_r (random_hex_128 run_entropy) (\<lambda>run_id.
       bind_r (first_observation H J entropy ob
           (initial_run generation run_id run_seq binding operation ob)) (\<lambda>r.
       bind_r (run_record_validate H J r) (\<lambda>_. Inr r)))))"

definition artifact_metadata :: "(u8 list \<Rightarrow> str) \<Rightarrow> run_record \<Rightarrow> provider_observation \<Rightarrow>
    response_candidate option \<Rightarrow> message + response_artifact_metadata" where
  "artifact_metadata H r ob candidate =
    (if obs_hook_kind ob \<noteq> HookStop \<or> run_semantic_outcome r \<noteq> Completed
     then Inl (Msg ''response artifact requires a completed Stop observation'')
     else bind_r (case candidate of
         Some c \<Rightarrow>
           bind_r (sha256_digest_parse (cand_original_digest c)) (\<lambda>original.
           bind_r (sha256_digest_parse (cand_stored_digest c)) (\<lambda>stored.
             Inr \<lparr>am_run_id = run_run_id r, am_operation_id = run_operation_id r,
               am_provider_session_id = ab_provider_session_id (run_binding r),
               am_observed_process = ab_process (run_binding r),
               am_original_byte_count = cand_original_bytes c,
               am_stored_byte_count = cand_stored_bytes c,
               am_original_digest = original, am_stored_digest = Some stored,
               am_provider_completeness = cand_provider_completeness c,
               am_store_completeness = (if cand_truncated c then StoreTruncated else StoreComplete),
               am_source = lit ''provider_hook'', am_encoding = lit ''utf-8'',
               am_observed_at = obs_observed_at ob,
               am_file_name = Some (artifact_file_name (run_run_id r))\<rparr>))
       | None \<Rightarrow> Inr \<lparr>am_run_id = run_run_id r, am_operation_id = run_operation_id r,
               am_provider_session_id = ab_provider_session_id (run_binding r),
               am_observed_process = ab_process (run_binding r),
               am_original_byte_count = 0, am_stored_byte_count = 0,
               am_original_digest = H [], am_stored_digest = None,
               am_provider_completeness = ProviderUnknown,
               am_store_completeness = StoreUnavailable,
               am_source = lit ''provider_hook'', am_encoding = lit ''utf-8'',
               am_observed_at = obs_observed_at ob, am_file_name = None\<rparr>) (\<lambda>metadata.
       bind_r (artifact_metadata_validate metadata) (\<lambda>_. Inr metadata)))"

end
