(* ===== verification/AgentTheorems.thy ===== *)
theory AgentTheorems
  imports AgentRun
begin

text \<open>
  The theorems of the run reducer: a run is valid and moves by one revision, a completed
  run is final, redelivered events are recognised for as long as the run lives, and the
  artifact of a hook response is accepted.
\<close>

section \<open>Cases of an accepted observation\<close>

lemma apply_observation_cases:
  assumes "apply_observation H J entropy r ob = Inr (r', d)"
  obtains (retry) existing t where "find_stable_provider_reference r ob = Some existing"
      "retry_reference r ob existing = Inr t" "stamp_revision t ob = Inr r'"
      "run_record_validate H J r' = Inr ()" "d = Duplicate"
  | (fresh) t u where "find_stable_provider_reference r ob = None"
      "apply_hook entropy ob r = Inr t"
      "append_provider_reference t ob (if obs_hook_kind ob = HookUserPromptSubmit
         then ''prompt_updated'' else ''applied'') = Inr u"
      "stamp_revision u ob = Inr r'" "run_record_validate H J r' = Inr ()" "d = Applied"
proof (cases "find_stable_provider_reference r ob")
  case None
  with assms show thesis
    by (auto simp: apply_observation_def result_simps split: if_splits intro: fresh)
next
  case (Some existing)
  with assms show thesis
    by (auto simp: apply_observation_def result_simps split: if_splits intro: retry)
qed

lemma stamp_revision_simps:
  assumes "stamp_revision r ob = Inr r'"
  shows "run_revision r \<noteq> - 1" "run_revision r' = run_revision r + 1"
    "run_evidence r' = run_evidence r" "run_resolution r' = run_resolution r"
    "run_semantic_outcome r' = run_semantic_outcome r"
    "run_execution_phase r' = run_execution_phase r" "run_binding r' = run_binding r"
    "run_run_id r' = run_run_id r" "run_provider_turn_key r' = run_provider_turn_key r"
    "run_artifact r' = run_artifact r" "run_operation_id r' = run_operation_id r"
    "run_created_at r' = run_created_at r" "run_run_seq r' = run_run_seq r"
  using assms by (auto simp: stamp_revision_def result_simps)

lemma retry_reference_simps:
  assumes "retry_reference r ob existing = Inr r'"
  shows "run_revision r' = run_revision r" "run_resolution r' = run_resolution r"
    "run_semantic_outcome r' = run_semantic_outcome r"
    "run_execution_phase r' = run_execution_phase r" "run_binding r' = run_binding r"
    "run_run_id r' = run_run_id r" "run_provider_turn_key r' = run_provider_turn_key r"
    "run_artifact r' = run_artifact r" "run_operation_id r' = run_operation_id r"
    "run_created_at r' = run_created_at r" "run_run_seq r' = run_run_seq r"
    "map pr_event_ref (re_provider_events (run_evidence r')) =
     map pr_event_ref (re_provider_events (run_evidence r))"
    "map pr_disposition (re_provider_events (run_evidence r')) =
     map pr_disposition (re_provider_events (run_evidence r))"
    "re_activity_count (run_evidence r') = re_activity_count (run_evidence r)"
    "re_permission_request_count (run_evidence r') = re_permission_request_count (run_evidence r)"
  using assms by (auto simp: retry_reference_def result_simps map_update_first split: if_splits)

lemma append_reference_simps:
  assumes "append_provider_reference r ob disposition = Inr r'"
  shows "run_revision r' = run_revision r" "run_resolution r' = run_resolution r"
    "run_semantic_outcome r' = run_semantic_outcome r"
    "run_execution_phase r' = run_execution_phase r" "run_binding r' = run_binding r"
    "run_run_id r' = run_run_id r" "run_provider_turn_key r' = run_provider_turn_key r"
    "run_artifact r' = run_artifact r" "run_operation_id r' = run_operation_id r"
    "run_created_at r' = run_created_at r" "run_run_seq r' = run_run_seq r"
  using assms by (auto simp: append_provider_reference_def result_simps)

lemma apply_hook_simps:
  assumes "apply_hook entropy ob r = Inr r'"
  shows "run_revision r' = run_revision r" "run_binding r' = run_binding r"
    "run_run_id r' = run_run_id r" "run_provider_turn_key r' = run_provider_turn_key r"
    "run_artifact r' = run_artifact r" "run_operation_id r' = run_operation_id r"
    "run_created_at r' = run_created_at r" "run_run_seq r' = run_run_seq r"
    "re_provider_events (run_evidence r') = re_provider_events (run_evidence r)"
    "run_semantic_outcome r = Completed \<Longrightarrow> run_semantic_outcome r' = Completed
       \<and> run_resolution r' = run_resolution r \<and> run_execution_phase r' = run_execution_phase r"
  using assms
  by (auto simp: apply_hook_def result_simps observe_phase_def split: provider_hook_kind.splits if_splits)

section \<open>The run as a versioned machine\<close>

definition run_step :: "(u8 list \<Rightarrow> str) \<Rightarrow> evidence_encoder \<Rightarrow> run_record \<Rightarrow>
    (str + u8 list) \<times> provider_observation \<Rightarrow> message + run_record" where
  "run_step H J r i = bind_r (apply_observation H J (fst i) r (snd i)) (\<lambda>x. Inr (fst x))"

lemma run_step_Inr:
  "run_step H J r i = Inr r' \<longleftrightarrow> (\<exists>d. apply_observation H J (fst i) r (snd i) = Inr (r', d))"
  by (auto simp: run_step_def result_simps)

lemma run_step_laws:
  assumes "run_step H J r i = Inr r'"
  shows "run_record_validate H J r' = Inr () \<and> unat (run_revision r') = Suc (unat (run_revision r))"
proof -
  from assms obtain d where "apply_observation H J (fst i) r (snd i) = Inr (r', d)"
    by (auto simp: run_step_Inr)
  then show ?thesis
  proof (cases rule: apply_observation_cases)
    case (retry existing t)
    then show ?thesis
      using stamp_revision_simps [OF retry(3)] retry_reference_simps [OF retry(2)] by (simp add: unat_inc)
  next
    case (fresh t u)
    then show ?thesis
      using stamp_revision_simps [OF fresh(4)] append_reference_simps [OF fresh(3)]
        apply_hook_simps [OF fresh(2)] by (simp add: unat_inc)
  qed
qed

interpretation run: revisioned_machine "run_step H J" "\<lambda>r. run_record_validate H J r = Inr ()"
    "\<lambda>r. unat (run_revision r)" for H J
  by unfold_locales (use run_step_laws in blast)+

section \<open>What a completed run keeps\<close>

definition same_run :: "run_record \<Rightarrow> run_record \<Rightarrow> bool" where
  "same_run r r' \<longleftrightarrow> run_run_id r' = run_run_id r \<and> run_binding r' = run_binding r
     \<and> run_run_seq r' = run_run_seq r \<and> run_operation_id r' = run_operation_id r
     \<and> run_provider_turn_key r' = run_provider_turn_key r
     \<and> run_created_at r' = run_created_at r \<and> run_artifact r' = run_artifact r"

definition finality :: "run_record \<Rightarrow> run_record \<Rightarrow> bool" where
  "finality r r' \<longleftrightarrow> (run_semantic_outcome r = Completed \<longrightarrow> run_semantic_outcome r' = Completed
     \<and> run_resolution r' = run_resolution r \<and> run_execution_phase r' = run_execution_phase r)"

lemma run_step_keeps:
  assumes "run_step H J r i = Inr r'"
  shows "same_run r r' \<and> finality r r'"
proof -
  from assms obtain d where "apply_observation H J (fst i) r (snd i) = Inr (r', d)"
    by (auto simp: run_step_Inr)
  then show ?thesis
  proof (cases rule: apply_observation_cases)
    case (retry existing t)
    show ?thesis
      by (simp add: same_run_def finality_def stamp_revision_simps [OF retry(3)]
          retry_reference_simps [OF retry(2)])
  next
    case (fresh t u)
    show ?thesis
      using apply_hook_simps(10) [OF fresh(2)]
      by (auto simp: same_run_def finality_def stamp_revision_simps [OF fresh(4)]
          append_reference_simps [OF fresh(3)] apply_hook_simps(1-9) [OF fresh(2)])
  qed
qed

lemma run_keeps:
  assumes "fold_r (run_step H J) r inputs = Inr r'"
  shows "same_run r r' \<and> finality r r'"
  by (rule fold_r_invariant [OF assms, where I = "\<lambda>t. same_run r t \<and> finality r t"])
    (auto simp: same_run_def finality_def dest!: run_step_keeps)

text \<open>
  Once a run is completed, no later observation changes its outcome, its resolution,
  its phase or its identity.
\<close>

theorem completed_run_is_final:
  assumes "fold_r (run_step H J) r inputs = Inr r'" and "run_semantic_outcome r = Completed"
  shows "run_semantic_outcome r' = Completed \<and> run_resolution r' = run_resolution r
    \<and> run_execution_phase r' = run_execution_phase r
    \<and> run_run_id r' = run_run_id r \<and> run_binding r' = run_binding r"
  using run_keeps [OF assms(1)] assms(2) by (simp add: same_run_def finality_def)

theorem run_stays_valid:
  assumes "fold_r (run_step H J) r inputs = Inr r'" and "run_record_validate H J r = Inr ()"
  shows "run_record_validate H J r' = Inr ()
    \<and> unat (run_revision r') \<le> unat (run_revision r) + length inputs
    \<and> (run_revision r' = run_revision r \<longrightarrow> r' = r)"
  using run.run_valid [OF assms] run.run_revision_bound [OF assms(1)]
    run.same_revision_same_state [OF assms(1)] by simp

section \<open>Event references\<close>

abbreviation events_of :: "run_record \<Rightarrow> provider_event_reference list" where
  "events_of r \<equiv> re_provider_events (run_evidence r)"

lemma remove_at_set: "set (remove_at i xs) \<subseteq> set xs"
  using set_take_subset set_drop_subset by (fastforce simp: remove_at_def)

lemma remove_at_distinct: "distinct (map f xs) \<Longrightarrow> distinct (map f (remove_at i xs))"
proof -
  assume "distinct (map f xs)"
  then have "distinct (map f (take i xs @ drop i xs))" by simp
  then have "distinct (map f (take i xs @ drop (Suc i) xs))"
    by (cases "i < length xs") (simp_all add: Cons_nth_drop_Suc [symmetric])
  then show ?thesis by (simp add: remove_at_def)
qed

lemma remove_at_keeps: "x \<in> set xs \<Longrightarrow> i < length xs \<Longrightarrow> x \<noteq> xs ! i \<Longrightarrow> x \<in> set (remove_at i xs)"
proof -
  assume "x \<in> set xs" "i < length xs" "x \<noteq> xs ! i"
  then have "x \<in> set (take i xs @ xs ! i # drop (Suc i) xs)" by (simp add: id_take_nth_drop [symmetric])
  with \<open>x \<noteq> xs ! i\<close> show ?thesis by (simp add: remove_at_def)
qed

lemma remove_at_length: "i < length xs \<Longrightarrow> length (remove_at i xs) = length xs - 1"
  by (simp add: remove_at_def)

lemma make_room_cases:
  assumes "make_room events = Inr events'"
  obtains (room) "length events < RUN_EVENT_REFERENCE_MAX_COUNT" "events' = events"
  | (evict) i where "i < length events" "pr_disposition (events ! i) = lit ''prompt_updated''"
      "events' = remove_at i events"
proof (cases "length events < RUN_EVENT_REFERENCE_MAX_COUNT")
  case True
  with assms show thesis by (intro room) (simp_all add: make_room_def)
next
  case False
  with assms obtain i where i: "position (\<lambda>e. pr_disposition e = lit ''prompt_updated'') events = Some i"
    "events' = remove_at i events"
    by (auto simp: make_room_def split: option.splits)
  from position_Some [OF i(1)] i(2) show thesis by (intro evict) simp_all
qed

lemma make_room_laws:
  assumes "make_room events = Inr events'"
  shows "set events' \<subseteq> set events"
    and "distinct (map pr_event_ref events) \<Longrightarrow> distinct (map pr_event_ref events')"
    and "e \<in> set events \<Longrightarrow> pr_disposition e \<noteq> lit ''prompt_updated'' \<Longrightarrow> e \<in> set events'"
proof -
  show "set events' \<subseteq> set events"
    using assms by (cases rule: make_room_cases) (auto dest: subsetD [OF remove_at_set])
  show "distinct (map pr_event_ref events')" if "distinct (map pr_event_ref events)"
    using assms by (cases rule: make_room_cases) (simp_all add: that remove_at_distinct)
  show "e \<in> set events'" if e: "e \<in> set events" "pr_disposition e \<noteq> lit ''prompt_updated''"
    using assms
  proof (cases rule: make_room_cases)
    case (evict i)
    with e have "e \<noteq> events ! i" by auto
    from remove_at_keeps [OF e(1) evict(1) this] evict(3) show ?thesis by simp
  qed (simp add: e(1))
qed

text \<open>What the references of a run keep under every observation.\<close>

definition references_kept :: "run_record \<Rightarrow> run_record \<Rightarrow> bool" where
  "references_kept r r' \<longleftrightarrow> (distinct (map pr_event_ref (events_of r)) \<longrightarrow>
       distinct (map pr_event_ref (events_of r')))
     \<and> (\<forall>e \<in> set (events_of r). pr_disposition e \<noteq> lit ''prompt_updated'' \<longrightarrow>
          (\<exists>e' \<in> set (events_of r'). pr_event_ref e' = pr_event_ref e
             \<and> pr_disposition e' = pr_disposition e \<and> pr_payload_digest e' = pr_payload_digest e))"

lemma references_kept_trans:
  "references_kept r s \<Longrightarrow> references_kept s t \<Longrightarrow> references_kept r t"
  unfolding references_kept_def by metis

lemma update_first_kept:
  assumes "x \<in> set xs" and "\<And>y. g (f y) = g y"
  shows "\<exists>y \<in> set (update_first p f xs). g y = g x"
  using assms by (induction xs) auto

lemma retry_kept:
  assumes "retry_reference r ob existing = Inr r'"
  shows "references_kept r r'"
proof -
  let ?g = "\<lambda>e. (pr_event_ref e, pr_disposition e, pr_payload_digest e)"
  obtain f where f: "events_of r' = update_first (\<lambda>e. pr_event_ref e = pr_event_ref existing) f (events_of r)"
    "\<And>e. ?g (f e) = ?g e"
    using assms by (auto simp: retry_reference_def result_simps split: if_splits)
  have "\<exists>e' \<in> set (events_of r'). ?g e' = ?g e" if "e \<in> set (events_of r)" for e
    unfolding f(1) using that f(2) by (rule update_first_kept)
  then show ?thesis
    using retry_reference_simps(12) [OF assms] unfolding references_kept_def by fastforce
qed

lemma append_kept:
  assumes "append_provider_reference r ob disposition = Inr r'"
    and "find_stable_provider_reference r ob = None"
  shows "references_kept r r'"
proof (cases "correctness_event_ref ob")
  case None
  with assms(1) have "events_of r' = events_of r"
    by (auto simp: append_provider_reference_def result_simps)
  then show ?thesis by (auto simp: references_kept_def)
next
  case (Some event_ref)
  with assms(1) obtain events digest where room: "make_room (events_of r) = Inr events"
    and r': "events_of r' = events @ [new_reference r ob event_ref digest (lit disposition)]"
    by (auto simp: append_provider_reference_def result_simps)
  have "event_ref \<notin> pr_event_ref ` set (events_of r)"
    using assms(2) Some by (auto simp: find_stable_provider_reference_def find_None_iff)
  with make_room_laws(1) [OF room] have "event_ref \<notin> pr_event_ref ` set events" by auto
  with make_room_laws(2,3) [OF room] show ?thesis
    unfolding references_kept_def r' by (auto simp: new_reference_def)
qed

lemma run_step_references:
  assumes "run_step H J r i = Inr r'"
  shows "references_kept r r'"
proof -
  from assms obtain d where "apply_observation H J (fst i) r (snd i) = Inr (r', d)"
    by (auto simp: run_step_Inr)
  then show ?thesis
  proof (cases rule: apply_observation_cases)
    case (retry existing t)
    with retry_kept [OF retry(2)] stamp_revision_simps(3) [OF retry(3)] show ?thesis
      by (simp add: references_kept_def)
  next
    case (fresh t u)
    have "find_stable_provider_reference t (snd i) = None"
      using fresh(1) apply_hook_simps(9) [OF fresh(2)] by (simp add: find_stable_provider_reference_def split: option.splits)
    from append_kept [OF fresh(3) this] apply_hook_simps(9) [OF fresh(2)]
      stamp_revision_simps(3) [OF fresh(4)] show ?thesis
      by (simp add: references_kept_def)
  qed
qed

lemma run_references:
  assumes "fold_r (run_step H J) r inputs = Inr r'"
  shows "references_kept r r'"
  by (rule fold_r_invariant [OF assms, where I = "references_kept r"])
    (auto simp: references_kept_def [of r r] dest: run_step_references intro: references_kept_trans)

theorem references_survive:
  assumes "fold_r (run_step H J) r inputs = Inr r'"
    and "distinct (map pr_event_ref (events_of r))"
    and "e \<in> set (events_of r)" and "pr_disposition e \<noteq> lit ''prompt_updated''"
  shows "distinct (map pr_event_ref (events_of r'))
    \<and> (\<exists>e' \<in> set (events_of r'). pr_event_ref e' = pr_event_ref e
         \<and> pr_payload_digest e' = pr_payload_digest e)"
  using run_references [OF assms(1)] assms(2-4) unfolding references_kept_def by blast

section \<open>Redelivered stops\<close>

lemma append_adds:
  assumes "append_provider_reference r ob disposition = Inr r'"
    and "correctness_event_ref ob = Some event_ref"
  shows "\<exists>e \<in> set (events_of r'). pr_event_ref e = event_ref \<and> pr_disposition e = lit disposition
    \<and> pr_payload_digest e = obs_payload_digest ob"
  using assms
  by (auto simp: append_provider_reference_def result_simps new_reference_def sha256_digest_parse_def
      split: if_splits)

lemma stop_applied:
  assumes "apply_observation H J entropy r ob = Inr (r', Applied)" and "obs_hook_kind ob = HookStop"
  shows "run_semantic_outcome r' = Completed
    \<and> (\<exists>e \<in> set (events_of r'). correctness_event_ref ob = Some (pr_event_ref e)
        \<and> pr_disposition e = lit ''applied'')"
  using assms(1)
proof (cases rule: apply_observation_cases)
  case (fresh t u)
  obtain event_ref where ev: "correctness_event_ref ob = Some event_ref"
    using assms(2) by (simp add: correctness_event_ref_def)
  have "run_semantic_outcome t = Completed"
    using fresh(2) assms(2)
    by (cases "run_semantic_outcome r") (auto simp: apply_hook_def result_simps)
  with append_adds [OF fresh(3) ev] ev assms(2) stamp_revision_simps [OF fresh(4)]
    append_reference_simps [OF fresh(3)] show ?thesis by auto
qed simp

text \<open>
  A Stop that was applied is recognised whenever it is delivered again, after any
  other observations: it is reported as a duplicate, and neither the resolution nor the
  list of references changes.
\<close>

theorem stop_redelivery_is_duplicate:
  assumes "apply_observation H J entropy r ob = Inr (r1, Applied)"
    and "obs_hook_kind ob = HookStop"
    and "fold_r (run_step H J) r1 inputs = Inr r2"
    and "apply_observation H J entropy' r2 ob = Inr (r3, d)"
  shows "d = Duplicate \<and> run_semantic_outcome r3 = Completed
    \<and> run_resolution r3 = run_resolution r1
    \<and> map pr_event_ref (events_of r3) = map pr_event_ref (events_of r2)"
proof -
  obtain e where e: "e \<in> set (events_of r1)" "correctness_event_ref ob = Some (pr_event_ref e)"
    "pr_disposition e = lit ''applied''" and completed: "run_semantic_outcome r1 = Completed"
    using stop_applied [OF assms(1,2)] by auto
  have "\<exists>e' \<in> set (events_of r2). pr_event_ref e' = pr_event_ref e"
    using run_references [OF assms(3)] e(1,3) unfolding references_kept_def by fastforce
  with e(2) have found: "find_stable_provider_reference r2 ob \<noteq> None"
    by (auto simp: find_stable_provider_reference_def find_None_iff)
  have final: "finality r1 r2" using run_keeps [OF assms(3)] by simp
  from assms(4) show ?thesis
  proof (cases rule: apply_observation_cases)
    case (retry existing t)
    with final completed show ?thesis
      by (simp add: finality_def stamp_revision_simps [OF retry(3)]
          retry_reference_simps [OF retry(2)])
  qed (use found in simp)
qed

section \<open>New runs\<close>

theorem new_run_is_open:
  assumes "new_run_from_observation H J run_entropy entropy generation binding run_seq operation ob
    = Inr r"
  shows "execution_active r \<and> run_record_validate H J r = Inr () \<and> run_binding r = binding
    \<and> run_run_seq r = run_seq \<and> run_operation_id r = operation \<and> run_resolution r = None
    \<and> (operation \<noteq> None \<longrightarrow> obs_hook_kind ob = HookUserPromptSubmit)
    \<and> run_execution_phase r = (if obs_hook_kind ob = HookWaiting then PhaseWaiting else PhaseRunning)
    \<and> run_revision r = (if obs_hook_kind ob = HookUserPromptSubmit then 1 else 2)"
proof -
  from assms have start: "can_start_run ob" by (auto simp: new_run_from_observation_def split: if_splits)
  from assms obtain run_id where
    made: "first_observation H J entropy ob
        (initial_run generation run_id run_seq binding operation ob) = Inr r"
    and valid: "run_record_validate H J r = Inr ()"
    and linked: "operation \<noteq> None \<longrightarrow> obs_hook_kind ob = HookUserPromptSubmit"
    by (auto simp: new_run_from_observation_def result_simps split: if_splits)
  let ?r0 = "initial_run generation run_id run_seq binding operation ob"
  have r0: "run_revision ?r0 = 1" "run_binding ?r0 = binding"
    "run_run_seq ?r0 = run_seq" "run_operation_id ?r0 = operation" "run_resolution ?r0 = None"
    "run_semantic_outcome ?r0 = Unresolved" "run_execution_phase ?r0 = PhaseRunning"
    "run_evidence ?r0 = run_evidence_default"
    by (simp_all add: initial_run_def)
  show ?thesis
  proof (cases "obs_hook_kind ob = HookUserPromptSubmit")
    case True
    with made have "append_provider_reference ?r0 ob ''run_created'' = Inr r" by (simp add: first_observation_def)
    with append_reference_simps [OF this] r0 valid linked True show ?thesis
      by (simp add: execution_active_def)
  next
    case False
    with made obtain d where ap: "apply_observation H J entropy ?r0 ob = Inr (r, d)"
      by (auto simp: first_observation_def result_simps)
    have hook: "obs_hook_kind ob = HookActivity \<or> obs_hook_kind ob = HookWaiting"
      using start False by (simp add: can_start_run_def)
    from ap show ?thesis
    proof (cases rule: apply_observation_cases)
      case (retry existing t)
      with r0(8) show ?thesis
        by (simp add: find_stable_provider_reference_def run_evidence_default_def split: option.splits)
    next
      case (fresh t u)
      have "run_execution_phase t = (if obs_hook_kind ob = HookWaiting then PhaseWaiting else PhaseRunning)
          \<and> run_semantic_outcome t = Unresolved \<and> run_resolution t = None"
        using fresh(2) hook r0 by (auto simp: apply_hook_def result_simps observe_phase_def)
      with r0 valid linked False show ?thesis
        by (simp add: execution_active_def stamp_revision_simps [OF fresh(4)]
            append_reference_simps [OF fresh(3)] apply_hook_simps(1-9) [OF fresh(2)])
    qed
  qed
qed

end
