(* ===== verification/AgentArtifacts.thy ===== *)
theory AgentArtifacts
  imports AgentTheorems
begin

text \<open>
  The stored part of a response and its metadata: the suffix kept of a long response, the
  acceptance of the metadata the daemon builds from a hook response, and the identifiers
  made from random bytes.
\<close>

section \<open>The stored suffix\<close>

lemma is_char_boundary_end [simp]: "is_char_boundary s (text_len s)"
  by (induction s) auto

lemma next_boundary_laws:
  assumes "start \<le> text_len s"
  shows "start \<le> next_boundary s start \<and> next_boundary s start \<le> text_len s
    \<and> is_char_boundary s (next_boundary s start)
    \<and> (\<forall>i. start \<le> i \<and> i < next_boundary s start \<longrightarrow> \<not> is_char_boundary s i)"
  using assms
proof (induction s start rule: next_boundary.induct)
  case (1 s start)
  show ?case
  proof (cases "is_char_boundary s start \<or> text_len s \<le> start")
    case True
    with "1.prems" show ?thesis by (auto simp: next_boundary.simps [of s start] intro: le_antisym)
  next
    case False
    then have IH: "start + 1 \<le> next_boundary s (start + 1) \<and> next_boundary s (start + 1) \<le> text_len s
        \<and> is_char_boundary s (next_boundary s (start + 1))
        \<and> (\<forall>i. start + 1 \<le> i \<and> i < next_boundary s (start + 1) \<longrightarrow> \<not> is_char_boundary s i)"
      by (intro "1.IH") auto
    from False have eq: "next_boundary s start = next_boundary s (start + 1)"
      by (simp add: next_boundary.simps [of s start])
    have "\<not> is_char_boundary s i" if "start \<le> i" "i < next_boundary s start" for i
      using that IH False eq by (cases "i = start") auto
    with IH eq show ?thesis by simp
  qed
qed

lemma byte_split: "is_char_boundary s i \<Longrightarrow> s = byte_prefix s i @ byte_suffix s i"
proof (induction s i rule: byte_suffix.induct)
  case (2 c cs i)
  then show ?case by (cases "i = 0") (auto simp: utf8_len_def split: if_splits)
qed simp

lemma text_len_byte_suffix:
  assumes "is_char_boundary s i"
  shows "text_len (byte_suffix s i) = text_len s - i"
proof -
  have "text_len s = text_len (byte_prefix s i) + text_len (byte_suffix s i)"
    by (subst byte_split [OF assms]) simp
  then show ?thesis using text_len_byte_prefix_boundary [OF assms] by simp
qed

lemma is_char_boundary_split: "is_char_boundary (p @ q) (text_len p)"
  by (induction p) auto

theorem utf8_suffix_longest:
  shows "\<exists>p. body = p @ utf8_suffix body limit \<and> text_len (utf8_suffix body limit) \<le> limit
    \<and> (\<forall>p' q'. body = p' @ q' \<longrightarrow> text_len q' \<le> limit \<longrightarrow>
         text_len q' \<le> text_len (utf8_suffix body limit))"
proof (cases "text_len body \<le> limit")
  case True
  then show ?thesis by (auto simp: utf8_suffix_def intro: exI [of _ "[]"])
next
  case False
  let ?b = "next_boundary body (text_len body - limit)"
  have b: "text_len body - limit \<le> ?b" "?b \<le> text_len body" "is_char_boundary body ?b"
    "\<And>i. text_len body - limit \<le> i \<Longrightarrow> i < ?b \<Longrightarrow> \<not> is_char_boundary body i"
    using next_boundary_laws [of "text_len body - limit" body] by auto
  have suffix: "utf8_suffix body limit = byte_suffix body ?b"
    using False by (simp add: utf8_suffix_def)
  have "text_len q' \<le> text_len body - ?b" if "body = p' @ q'" "text_len q' \<le> limit" for p' q'
  proof -
    have "is_char_boundary body (text_len p')" using that(1) is_char_boundary_split by simp
    moreover have "text_len body - limit \<le> text_len p'" using that by simp
    ultimately have "?b \<le> text_len p'" using b(4) by (meson not_less)
    then show ?thesis using that(1) by simp
  qed
  then show ?thesis
    using byte_split [OF b(3)] text_len_byte_suffix [OF b(3)] b(1) suffix by auto
qed

lemma utf8_suffix_bounds:
  "text_len (utf8_suffix body limit) \<le> min limit (text_len body)"
  "text_len body \<le> limit \<Longrightarrow> utf8_suffix body limit = body"
proof -
  show "utf8_suffix body limit = body" if "text_len body \<le> limit"
    using that by (simp add: utf8_suffix_def)
  show "text_len (utf8_suffix body limit) \<le> min limit (text_len body)"
    using next_boundary_laws [of "text_len body - limit" body]
    by (auto simp: utf8_suffix_def text_len_byte_suffix)
qed

section \<open>Metadata of a hook response\<close>

definition lower_hex_digest :: "(u8 list \<Rightarrow> str) \<Rightarrow> bool" where
  "lower_hex_digest H \<longleftrightarrow> (\<forall>bs. text_len (H bs) = 64 \<and> list_all is_lower_hex (H bs))"

lemma lower_hex_parse: "lower_hex_digest H \<Longrightarrow> sha256_digest_parse (H bs) = Inr (H bs)"
  by (simp add: lower_hex_digest_def sha256_digest_parse_def)

lemma unat_of_len: "n < 2 ^ 64 \<Longrightarrow> unat (of_nat n :: u64) = n"
  by (simp add: unat_of_nat take_bit_nat_eq_self)

theorem hook_response_accepted:
  assumes "lower_hex_digest H" and "obs_hook_kind ob = HookStop"
    and "run_semantic_outcome r = Completed"
    and "agent_process_validate (ab_process (run_binding r)) = Inr ()"
    and "0 \<le> obs_observed_at ob" and "text_len body < 2 ^ 64"
  shows "\<exists>m. artifact_metadata H r ob (Some (response_candidate_from_body H B64 body completeness)) = Inr m
    \<and> am_store_completeness m =
        (if text_len body \<le> RESPONSE_ARTIFACT_BODY_MAX_BYTES then StoreComplete else StoreTruncated)
    \<and> am_stored_byte_count m \<le> of_nat RESPONSE_ARTIFACT_BODY_MAX_BYTES
    \<and> am_file_name m = Some (artifact_file_name (run_run_id r))"
proof -
  let ?limit = RESPONSE_ARTIFACT_BODY_MAX_BYTES
  let ?stored = "utf8_suffix body ?limit"
  note bounds = utf8_suffix_bounds [of body ?limit]
  have len: "unat (of_nat (text_len ?stored) :: u64) = text_len ?stored"
    "unat (of_nat (text_len body) :: u64) = text_len body"
    "unat (of_nat ?limit :: u64) = ?limit"
    using bounds(1) assms(6) by (auto simp: unat_of_len RESPONSE_ARTIFACT_BODY_MAX_BYTES_def)
  have truncated: "text_len ?stored \<noteq> text_len body \<longleftrightarrow> ?limit < text_len body"
    using bounds by (cases "text_len body \<le> ?limit") auto
  have stored: "?stored = body" if "text_len ?stored = text_len body"
    using that truncated bounds(2) by simp
  have source: "run_required_text (lit ''provider_hook'') ''artifact source'' IDENTIFIER_MAX_BYTES = Inr ()"
    by (simp add: run_required_text_def lit_def IDENTIFIER_MAX_BYTES_def utf8_len_def is_control_def)
  show ?thesis
    using assms bounds(1) truncated stored source len
    by (auto simp: artifact_metadata_def response_candidate_from_body_def Let_def lower_hex_parse
        artifact_metadata_validate_def word_le_nat_alt word_less_nat_alt not_le)
qed

section \<open>Generated identifiers\<close>

lemma hex_digit_lower: "d < 16 \<Longrightarrow> is_lower_hex (hex_digit d) \<and> utf8_len (hex_digit d) = 1"
  by (auto simp: hex_digit_def is_lower_hex_def utf8_len_def)

lemma hex_byte_laws: "text_len (hex_byte b) = 2 \<and> list_all is_lower_hex (hex_byte b)"
proof -
  have "unat b < 2 ^ 8" using unsigned_less [of b] by simp
  then have "unat b div 16 < 16" by simp
  then show ?thesis using hex_digit_lower by (simp add: hex_byte_def)
qed

lemma hex_bytes_laws:
  "text_len (concat (map hex_byte bytes)) = 2 * length bytes
   \<and> list_all is_lower_hex (concat (map hex_byte bytes))"
  by (induction bytes) (simp_all add: hex_byte_laws)

theorem generated_ids_parse:
  assumes "random_hex_128 (Inr bytes) = Inr value" and "length bytes = 16"
  shows "random_id_parse label' value = Inr value \<and> operation_id_parse value = Inr value
    \<and> resolution_id_parse value = Inr value"
proof -
  have eq: "value = concat (map hex_byte bytes)"
    using assms(1) by (simp add: random_hex_128_def)
  have hex: "text_len value = 32" "list_all is_lower_hex value"
    using hex_bytes_laws [of bytes] assms(2) eq by simp_all
  have "list_all (\<lambda>c. is_ascii_alphanumeric c \<or> c = 95 \<or> c = 45) value"
    using hex(2) by (rule list.pred_mono_strong)
      (auto simp: is_lower_hex_def is_ascii_alphanumeric_def is_digit_def is_lower_def)
  with hex show ?thesis
    by (simp add: random_id_parse_def validate_random_id_def operation_id_parse_def
        resolution_id_parse_def validate_caller_id_def)
qed

end
