(* ===== verification/StateResult.thy ===== *)
theory StateResult
  imports Prelude
begin

text \<open>
  Operations that change a state and may fail: the state that an operation leaves behind is
  returned with the error too, for what was written before the failure stays written. The
  operator \<open>?\<close> is \<open>bind_s\<close>, a loop whose body may fail is \<open>each_s\<close>. The locale states
  the interface of a relation between the states before and after: every operation built from
  parts that respect it keeps it.
\<close>

type_synonym ('s, 'e, 'a) op = "'s \<Rightarrow> 's \<times> ('e + 'a)"

named_theorems keeps_intros \<open>operations whose steps respect a relation\<close>

definition bind_s :: "('s, 'e, 'a) op \<Rightarrow> ('a \<Rightarrow> ('s, 'e, 'b) op) \<Rightarrow> ('s, 'e, 'b) op" where
  "bind_s m f = (\<lambda>s. case m s of (s', Inl e) \<Rightarrow> (s', Inl e) | (s', Inr a) \<Rightarrow> f a s')"

text \<open>A result that does not depend on the state, and one that is read from it.\<close>

definition give :: "'e + 'a \<Rightarrow> ('s, 'e, 'a) op" where
  "give r = (\<lambda>s. (s, r))"

definition asks :: "('s \<Rightarrow> 'e + 'a) \<Rightarrow> ('s, 'e, 'a) op" where
  "asks f = (\<lambda>s. (s, f s))"

definition modify_s :: "('s \<Rightarrow> 's) \<Rightarrow> ('s, 'e, unit) op" where
  "modify_s f = (\<lambda>s. (f s, Inr ()))"

text \<open>What is done with the error of an operation.\<close>

definition catch_s :: "('s, 'e, 'a) op \<Rightarrow> ('e \<Rightarrow> ('s, 'e, 'a) op) \<Rightarrow> ('s, 'e, 'a) op" where
  "catch_s m h = (\<lambda>s. case m s of (s', Inl e) \<Rightarrow> h e s' | (s', Inr a) \<Rightarrow> (s', Inr a))"

text \<open>The result as a value, for a \<open>match\<close> on it.\<close>

definition attempt_s :: "('s, 'e, 'a) op \<Rightarrow> ('s, 'e, 'e + 'a) op" where
  "attempt_s m = (\<lambda>s. case m s of (s', r) \<Rightarrow> (s', Inr r))"

fun each_s :: "('a \<Rightarrow> ('s, 'e, 'b) op) \<Rightarrow> 'a list \<Rightarrow> ('s, 'e, 'b list) op" where
  "each_s f [] = give (Inr [])"
| "each_s f (x # xs) = bind_s (f x) (\<lambda>y. bind_s (each_s f xs) (\<lambda>ys. give (Inr (y # ys))))"

section \<open>Evaluation\<close>

lemma give_apply [simp]: "give r s = (s, r)"
  by (simp add: give_def)

lemma asks_apply [simp]: "asks f s = (s, f s)"
  by (simp add: asks_def)

lemma modify_s_apply [simp]: "modify_s f s = (f s, Inr ())"
  by (simp add: modify_s_def)

lemma bind_s_apply:
  "bind_s m f s = (case m s of (s', Inl e) \<Rightarrow> (s', Inl e) | (s', Inr a) \<Rightarrow> f a s')"
  by (simp add: bind_s_def)

lemma bind_s_eqs [simp]:
  "m s = (s', Inl e) \<Longrightarrow> bind_s m f s = (s', Inl e)"
  "m s = (s', Inr a) \<Longrightarrow> bind_s m f s = f a s'"
  by (simp_all add: bind_s_def)

lemma bind_s_Inr_iff [result_simps]:
  "bind_s m f s = (t, Inr b) \<longleftrightarrow> (\<exists>s' a. m s = (s', Inr a) \<and> f a s' = (t, Inr b))"
  by (auto simp: bind_s_def split: prod.splits sum.splits)

lemma bind_s_Inl_iff [result_simps]:
  "bind_s m f s = (t, Inl e) \<longleftrightarrow>
    m s = (t, Inl e) \<or> (\<exists>s' a. m s = (s', Inr a) \<and> f a s' = (t, Inl e))"
  by (auto simp: bind_s_def split: prod.splits sum.splits)

lemma bind_s_give [simp]: "bind_s (give (Inr a)) f = f a" "bind_s (give (Inl e)) f = give (Inl e)"
  by (simp_all add: bind_s_def give_def fun_eq_iff)

lemma catch_s_Inr_iff [result_simps]:
  "catch_s m h s = (t, Inr b) \<longleftrightarrow>
    m s = (t, Inr b) \<or> (\<exists>s' e. m s = (s', Inl e) \<and> h e s' = (t, Inr b))"
  by (auto simp: catch_s_def split: prod.splits sum.splits)

lemma catch_s_Inl_iff [result_simps]:
  "catch_s m h s = (t, Inl e) \<longleftrightarrow> (\<exists>s' e'. m s = (s', Inl e') \<and> h e' s' = (t, Inl e))"
  by (auto simp: catch_s_def split: prod.splits sum.splits)

lemma attempt_s_iff [result_simps]:
  "attempt_s m s = (t, Inr r) \<longleftrightarrow> m s = (t, r)" "attempt_s m s \<noteq> (t, Inl e)"
  by (auto simp: attempt_s_def split: prod.splits)

section \<open>Relations between the states before and after\<close>

definition keeps :: "('s \<Rightarrow> 's \<Rightarrow> bool) \<Rightarrow> ('s, 'e, 'a) op \<Rightarrow> bool" where
  "keeps R m \<longleftrightarrow> (\<forall>s. R s (fst (m s)))"

lemma keepsI: "(\<And>s t r. m s = (t, r) \<Longrightarrow> R s t) \<Longrightarrow> keeps R m"
  by (simp add: keeps_def) (metis surjective_pairing)

lemma keepsD: "keeps R m \<Longrightarrow> m s = (t, r) \<Longrightarrow> R s t"
  by (metis keeps_def fst_conv)

locale evolution =
  fixes R :: "'s \<Rightarrow> 's \<Rightarrow> bool"
  assumes reflexive: "R s s"
    and transitive: "R s t \<Longrightarrow> R t u \<Longrightarrow> R s u"
begin

lemma keeps_give [keeps_intros]: "keeps R (give r)"
  by (simp add: keeps_def reflexive)

lemma keeps_asks [keeps_intros]: "keeps R (asks f)"
  by (simp add: keeps_def reflexive)

lemma keeps_bind [keeps_intros]:
  "keeps R m \<Longrightarrow> (\<And>a. keeps R (f a)) \<Longrightarrow> keeps R (bind_s m f)"
  by (rule keepsI) (auto simp: bind_s_def reflexive split: prod.splits sum.splits
      dest: keepsD intro: transitive)

lemma keeps_catch [keeps_intros]:
  "keeps R m \<Longrightarrow> (\<And>e. keeps R (h e)) \<Longrightarrow> keeps R (catch_s m h)"
  by (rule keepsI) (auto simp: catch_s_def split: prod.splits sum.splits
      dest: keepsD intro: transitive)

lemma keeps_attempt [keeps_intros]: "keeps R m \<Longrightarrow> keeps R (attempt_s m)"
  by (rule keepsI) (auto simp: attempt_s_def split: prod.splits dest: keepsD)

lemma keeps_each [keeps_intros]:
  "(\<And>x. keeps R (f x)) \<Longrightarrow> keeps R (each_s f xs)"
  by (induction xs) (auto intro!: keeps_give keeps_bind)

lemma keeps_if [keeps_intros]:
  "keeps R a \<Longrightarrow> keeps R b \<Longrightarrow> keeps R (if c then a else b)"
  by simp

lemma keeps_option [keeps_intros]:
  "keeps R a \<Longrightarrow> (\<And>x. keeps R (b x)) \<Longrightarrow> keeps R (case v of None \<Rightarrow> a | Some x \<Rightarrow> b x)"
  by (cases v) simp_all

lemma keeps_sum [keeps_intros]:
  "(\<And>x. keeps R (a x)) \<Longrightarrow> (\<And>x. keeps R (b x)) \<Longrightarrow>
    keeps R (case v of Inl x \<Rightarrow> a x | Inr x \<Rightarrow> b x)"
  by (cases v) simp_all

lemma keeps_prod [keeps_intros]:
  "(\<And>x y. keeps R (a x y)) \<Longrightarrow> keeps R (case p of (x, y) \<Rightarrow> a x y)"
  by (cases p) simp

lemma keeps_let [keeps_intros]: "keeps R (f v) \<Longrightarrow> keeps R (let x = v in f x)"
  by simp

lemma keeps_run: "keeps R m \<Longrightarrow> R s t \<Longrightarrow> R s (fst (m t))"
  by (metis keeps_def transitive)

end

text \<open>An operation on a part of the state.\<close>

definition within :: "('t \<Rightarrow> 's) \<Rightarrow> ('s \<Rightarrow> 't \<Rightarrow> 't) \<Rightarrow> ('s, 'e, 'a) op \<Rightarrow> ('t, 'e, 'a) op" where
  "within get put m = (\<lambda>t. let (s, r) = m (get t) in (put s t, r))"

lemma within_apply: "within get put m t = (put (fst (m (get t))) t, snd (m (get t)))"
  by (simp add: within_def split: prod.splits)

lemma within_Inr_iff [result_simps]:
  "within get put m t = (t', Inr a) \<longleftrightarrow> (\<exists>s. m (get t) = (s, Inr a) \<and> t' = put s t)"
  by (auto simp: within_def split: prod.splits)

lemma keeps_within:
  "keeps R m \<Longrightarrow> (\<And>s t. get (put s t) = s) \<Longrightarrow>
    keeps (\<lambda>t t'. R (get t) (get t')) (within get put m)"
  by (simp add: keeps_def within_apply)

text \<open>
  Assertions on operations that may fail: from a state that satisfies \<open>P\<close>, a success ends
  in \<open>Q\<close> of its result and a failure in \<open>E\<close>.
\<close>

definition triple :: "('s \<Rightarrow> bool) \<Rightarrow> ('s, 'e, 'a) op \<Rightarrow> ('a \<Rightarrow> 's \<Rightarrow> bool) \<Rightarrow> ('s \<Rightarrow> bool) \<Rightarrow> bool" where
  "triple P m Q E \<longleftrightarrow> (\<forall>s. P s \<longrightarrow> (case m s of (t, Inl _) \<Rightarrow> E t | (t, Inr a) \<Rightarrow> Q a t))"

named_theorems triple_intros \<open>rules for assertions on operations\<close>

lemma tripleI:
  "(\<And>s t a. P s \<Longrightarrow> m s = (t, Inr a) \<Longrightarrow> Q a t) \<Longrightarrow> (\<And>s t e. P s \<Longrightarrow> m s = (t, Inl e) \<Longrightarrow> E t) \<Longrightarrow>
    triple P m Q E"
  by (auto simp: triple_def split: prod.split sum.split)

lemma tripleD: "triple P m Q E \<Longrightarrow> P s \<Longrightarrow> m s = (t, Inr a) \<Longrightarrow> Q a t"
  "triple P m Q E \<Longrightarrow> P s \<Longrightarrow> m s = (t, Inl e) \<Longrightarrow> E t"
  by (auto simp: triple_def dest!: spec [of _ s])

lemma triple_weaken:
  "triple P m Q E \<Longrightarrow> (\<And>s. P' s \<Longrightarrow> P s) \<Longrightarrow> (\<And>a s. Q a s \<Longrightarrow> Q' a s) \<Longrightarrow> (\<And>s. E s \<Longrightarrow> E' s) \<Longrightarrow>
    triple P' m Q' E'"
  by (rule tripleI) (blast dest: tripleD)+

lemma triple_bind [triple_intros]:
  "triple P m Q E \<Longrightarrow> (\<And>a. triple (Q a) (f a) S E) \<Longrightarrow> triple P (bind_s m f) S E"
  by (rule tripleI) (auto simp: result_simps dest: tripleD)

lemma triple_give: "(\<And>s a. P s \<Longrightarrow> r = Inr a \<Longrightarrow> Q a s) \<Longrightarrow> (\<And>s. P s \<Longrightarrow> E s) \<Longrightarrow> triple P (give r) Q E"
  by (rule tripleI) auto

lemma triple_asks:
  "(\<And>s a. P s \<Longrightarrow> f s = Inr a \<Longrightarrow> Q a s) \<Longrightarrow> (\<And>s. P s \<Longrightarrow> E s) \<Longrightarrow> triple P (asks f) Q E"
  by (rule tripleI) auto

text \<open>What a result without effects says is a fact from then on.\<close>

lemma triple_bind_give:
  "(\<And>a. r = Inr a \<Longrightarrow> triple P (f a) Q E) \<Longrightarrow> (\<And>s. P s \<Longrightarrow> E s) \<Longrightarrow> triple P (bind_s (give r) f) Q E"
  by (cases r) (auto simp: triple_def)

lemma triple_modify: "(\<And>s. P s \<Longrightarrow> Q () (f s)) \<Longrightarrow> triple P (modify_s f) Q E"
  by (rule tripleI) auto

lemma triple_if [triple_intros]:
  "(c \<Longrightarrow> triple P a Q E) \<Longrightarrow> (\<not> c \<Longrightarrow> triple P b Q E) \<Longrightarrow> triple P (if c then a else b) Q E"
  by simp

lemma triple_option [triple_intros]:
  "(v = None \<Longrightarrow> triple P a Q E) \<Longrightarrow> (\<And>x. v = Some x \<Longrightarrow> triple P (b x) Q E) \<Longrightarrow>
    triple P (case v of None \<Rightarrow> a | Some x \<Rightarrow> b x) Q E"
  by (cases v) simp_all

lemma triple_catch [triple_intros]:
  "triple P m Q E' \<Longrightarrow> (\<And>e. triple E' (h e) Q E) \<Longrightarrow> triple P (catch_s m h) Q E"
  by (rule tripleI) (auto simp: result_simps dest: tripleD)

lemma triple_attempt: "triple P m (\<lambda>_. Q) Q \<Longrightarrow> triple P (attempt_s m) (\<lambda>_. Q) E"
  by (rule tripleI) (auto simp: attempt_s_def split: prod.splits, metis sum.exhaust tripleD)

lemma triple_pre: "(\<And>s. P s \<Longrightarrow> triple (\<lambda>t. t = s) m Q E) \<Longrightarrow> triple P m Q E"
  by (auto simp: triple_def)

lemma triple_fact: "(\<And>s. P s \<Longrightarrow> A) \<Longrightarrow> (A \<Longrightarrow> triple P m Q E) \<Longrightarrow> triple P m Q E"
  by (auto simp: triple_def)

lemma bind_s_if: "bind_s (if c then a else b) f = (if c then bind_s a f else bind_s b f)"
  by simp

lemma bind_s_assoc: "bind_s (bind_s m f) g = bind_s m (\<lambda>a. bind_s (f a) g)"
  by (auto simp: bind_s_def fun_eq_iff split: prod.split sum.split)

text \<open>What is kept by relations.\<close>

lemma triple_keeps: "keeps R m \<Longrightarrow> (\<And>s t. P s \<Longrightarrow> R s t \<Longrightarrow> Q t) \<Longrightarrow> triple P m (\<lambda>_. Q) Q"
  by (rule tripleI) (auto dest: keepsD)

lemma keeps_triple: "triple I m (\<lambda>_. I) I \<Longrightarrow> keeps (\<lambda>s t. I s \<longrightarrow> I t) m"
  by (rule keepsI) (metis sum.exhaust tripleD)

end
