(* ===== verification/AgentFiles.thy ===== *)
theory AgentFiles
  imports AgentRun StateResult BTree
begin

text \<open>
  The files under the agent state directory, \<open>src/src/agent_state/store.rs\<close>: directories as
  sorted maps from file names to bytes, the private reads, the atomic writes and removals,
  and the accounting of records and bytes. \<open>externals\<close> collects what is not in the
  repository: the crates \<open>serde_json\<close>, \<open>sha2\<close>, \<open>base64\<close> and \<open>getrandom\<close>, the clock, and the
  answers of the file system. Its answers are indexed by a counter of the state that every
  call which changes a file moves on, so the same call can fail once and succeed later.
\<close>

section \<open>Limits and errors\<close>

definition RUN_RECORD_MAX_BYTES :: nat where "RUN_RECORD_MAX_BYTES = 16 * 1024"
definition OPERATION_RECORD_MAX_BYTES :: nat where "OPERATION_RECORD_MAX_BYTES = 4 * 1024"
definition PROMPT_BODY_MAX_BYTES :: nat where "PROMPT_BODY_MAX_BYTES = 65536"
definition RUN_STORE_MAX_RECORDS :: nat where "RUN_STORE_MAX_RECORDS = 2048"
definition RUN_STORE_MAX_BYTES :: u64 where "RUN_STORE_MAX_BYTES = 96 * 1024 * 1024"
definition OPERATION_STORE_MAX_RECORDS :: nat where "OPERATION_STORE_MAX_RECORDS = 65536"
definition OPERATION_STORE_MAX_BYTES :: u64 where "OPERATION_STORE_MAX_BYTES = 128 * 1024 * 1024"
definition PROMPT_STORE_MAX_RECORDS :: nat where "PROMPT_STORE_MAX_RECORDS = 128"
definition PROMPT_STORE_MAX_BYTES :: u64 where "PROMPT_STORE_MAX_BYTES = 8 * 1024 * 1024"
definition ARTIFACT_STORE_MAX_FILES :: nat where "ARTIFACT_STORE_MAX_FILES = 4096"
definition ARTIFACT_STORE_MAX_BYTES :: u64 where "ARTIFACT_STORE_MAX_BYTES = 64 * 1024 * 1024"
definition RUN_RETENTION_PER_PANE :: nat where "RUN_RETENTION_PER_PANE = 64"
definition RUN_RETENTION_SECONDS :: i64 where "RUN_RETENTION_SECONDS = 30 * 24 * 60 * 60"

datatype agent_store_error =
  Io message
| Corrupt message
| Invalid message
| Capacity message
| Conflict message
| PromptDispatchBusy message
| OperationConflict message
| OperationStoreFull message
| OperationNotFound message
| OperationGenerationReplaced message
| RunNotFound message
| RunGenerationReplaced message
| ProviderEventConflict message
| ResolutionConflict message
| RunAlreadyResolved message
| StalePrecondition message
| RecoveryNotAllowed message
| NotFound message
| ArtifactUnavailable
| ArtifactExpired
| StateUninitialized

fun message_text :: "message \<Rightarrow> str" where
  "message_text (Msg m) = lit m"
| "message_text (MsgValue m v) = lit m @ v"

fun error_text :: "agent_store_error \<Rightarrow> str" where
  "error_text (Io m) = message_text m"
| "error_text (Corrupt m) = message_text m"
| "error_text (Invalid m) = message_text m"
| "error_text (Capacity m) = message_text m"
| "error_text (Conflict m) = message_text m"
| "error_text (PromptDispatchBusy m) = message_text m"
| "error_text (OperationConflict m) = message_text m"
| "error_text (OperationStoreFull m) = message_text m"
| "error_text (OperationNotFound m) = message_text m"
| "error_text (OperationGenerationReplaced m) = message_text m"
| "error_text (RunNotFound m) = message_text m"
| "error_text (RunGenerationReplaced m) = message_text m"
| "error_text (ProviderEventConflict m) = message_text m"
| "error_text (ResolutionConflict m) = message_text m"
| "error_text (RunAlreadyResolved m) = message_text m"
| "error_text (StalePrecondition m) = message_text m"
| "error_text (RecoveryNotAllowed m) = message_text m"
| "error_text (NotFound m) = message_text m"
| "error_text ArtifactUnavailable = lit ''response artifact is unavailable''"
| "error_text ArtifactExpired = lit ''response artifact has expired''"
| "error_text StateUninitialized = lit ''agent state is not initialized''"

definition io_error :: "string \<Rightarrow> str \<Rightarrow> agent_store_error" where
  "io_error action e = Io (MsgValue (''failed to '' @ action @ '': '') e)"

definition missing_reference_error :: "agent_store_error \<Rightarrow> str \<Rightarrow> agent_store_error" where
  "missing_reference_error e context = Corrupt (MsgValue '''' (context @ lit '': '' @ error_text e))"

section \<open>What is outside the repository\<close>

record run_ref =
  ref_server_identity :: str
  ref_generation :: state_generation
  ref_run_id :: stable_run_id

record operation_ref =
  oref_server_identity :: str
  oref_generation :: state_generation
  oref_operation_id :: operation_id

text \<open>The answers to the calls of one atomic write, and of one removal.\<close>

record write_answers =
  wa_directory :: "str + unit" \<comment> \<open>the directory is private\<close>
  wa_existing :: "str + unit" \<comment> \<open>the replaced file, if any, is private\<close>
  wa_random :: "str + unit"
  wa_create :: "str + unit"
  wa_write :: "str + unit"
  wa_sync :: "str + unit"
  wa_rename :: "str + unit"
  wa_sync_directory :: "str + unit"

record remove_answers =
  ra_remove :: "str + unit"
  ra_sync_directory :: "str + unit"

type_synonym dispatch_target =
  "server_identity \<times> pane_instance \<times> state_id \<times> agent_kind \<times> agent_process_identity"

record externals =
  x_digest :: "u8 list \<Rightarrow> str"
  x_evidence :: "run_evidence_summary \<Rightarrow> str + u8 list"
  x_encode_run :: "run_record \<Rightarrow> str + u8 list"
  x_decode_run :: "u8 list \<Rightarrow> str + run_record"
  x_encode_operation :: "operation_record \<Rightarrow> str + u8 list"
  x_decode_operation :: "u8 list \<Rightarrow> str + operation_record"
  x_encode_meta :: "state_meta \<Rightarrow> str + u8 list"
  x_decode_meta :: "u8 list \<Rightarrow> str + state_meta"
  x_encode_binding :: "agent_binding \<Rightarrow> str + u8 list"
  x_encode_target :: "dispatch_target \<Rightarrow> str + u8 list"
  x_encode_reference :: "run_ref \<Rightarrow> str + u8 list"
  x_base64url :: "u8 list \<Rightarrow> str"
  x_base64_decode :: "str \<Rightarrow> str + u8 list"
  x_entropy :: "nat \<Rightarrow> str + u8 list"
  x_resolution_entropy :: "nat \<Rightarrow> str + u8 list"
  x_now :: "nat \<Rightarrow> i64"
  x_fault :: "nat \<Rightarrow> str \<Rightarrow> str option" \<comment> \<open>a path that cannot be read\<close>
  x_write :: "nat \<Rightarrow> write_answers"
  x_remove :: "nat \<Rightarrow> remove_answers"

text \<open>The length of the encoded evidence, which its validation bounds.\<close>

definition x_evidence_len :: "externals \<Rightarrow> evidence_encoder" where
  "x_evidence_len X e = (case x_evidence X e of Inl m \<Rightarrow> Inl m | Inr bytes \<Rightarrow> Inr (length bytes))"

section \<open>Directories\<close>

type_synonym directory = "(str \<times> u8 list) list"

datatype region = Runs | Operations | Prompts | Artifacts

record region_capacity =
  rc_records :: nat
  rc_bytes :: u64

record agent_store =
  as_root :: str
  as_meta :: state_meta
  as_run_capacity :: region_capacity
  as_operation_capacity :: region_capacity
  as_runs :: directory
  as_operations :: directory
  as_prompts :: directory
  as_artifacts :: directory
  as_meta_file :: "u8 list option"
  as_calls :: nat

type_synonym 'a store_op = "(agent_store, agent_store_error, 'a) op"

fun files :: "region \<Rightarrow> agent_store \<Rightarrow> directory" where
  "files Runs s = as_runs s"
| "files Operations s = as_operations s"
| "files Prompts s = as_prompts s"
| "files Artifacts s = as_artifacts s"

fun put_files :: "region \<Rightarrow> directory \<Rightarrow> agent_store \<Rightarrow> agent_store" where
  "put_files Runs d s = s\<lparr>as_runs := d\<rparr>"
| "put_files Operations d s = s\<lparr>as_operations := d\<rparr>"
| "put_files Prompts d s = s\<lparr>as_prompts := d\<rparr>"
| "put_files Artifacts d s = s\<lparr>as_artifacts := d\<rparr>"

fun directory_name :: "region \<Rightarrow> str" where
  "directory_name Runs = lit ''runs''"
| "directory_name Operations = lit ''operations''"
| "directory_name Prompts = lit ''prompts''"
| "directory_name Artifacts = lit ''artifacts''"

definition path_join :: "str \<Rightarrow> str \<Rightarrow> str" where
  "path_join a b = (if a = [] \<or> last a = 47 then a @ b else a @ [47] @ b)"

definition region_dir :: "region \<Rightarrow> agent_store \<Rightarrow> str" where
  "region_dir r s = path_join (as_root s) (directory_name r)"

definition path :: "region \<Rightarrow> str \<Rightarrow> agent_store \<Rightarrow> str" where
  "path r name s = path_join (region_dir r s) name"

definition next_call :: "agent_store \<Rightarrow> agent_store" where
  "next_call s = s\<lparr>as_calls := Suc (as_calls s)\<rparr>"

definition run_file :: "stable_run_id \<Rightarrow> str" where "run_file run_id = run_id @ lit ''.json''"
definition operation_file :: "operation_id \<Rightarrow> str" where "operation_file i = i @ lit ''.json''"
definition prompt_file :: "operation_id \<Rightarrow> str" where "prompt_file i = i @ lit ''.prompt''"

fun contains_text :: "str \<Rightarrow> str \<Rightarrow> bool" where
  "contains_text t [] = (t = [])"
| "contains_text t (c # cs) = (strip_prefix t (c # cs) \<noteq> None \<or> contains_text t cs)"

definition is_temporary :: "str \<Rightarrow> bool" where
  "is_temporary name = contains_text (lit ''.tmp.'') name"

definition ends_with :: "str \<Rightarrow> str \<Rightarrow> bool" where
  "ends_with name suffix = (strip_prefix (rev suffix) (rev name) \<noteq> None)"

section \<open>Reading\<close>

text \<open>A path that the file system refuses: inspection, permissions, opening or reading.\<close>

definition readable :: "externals \<Rightarrow> string \<Rightarrow> str \<Rightarrow> agent_store \<Rightarrow> agent_store_error + unit" where
  "readable X action p s = (case x_fault X (as_calls s) p of
     Some e \<Rightarrow> Inl (io_error action e) | None \<Rightarrow> Inr ())"

definition read_private_file :: "externals \<Rightarrow> region \<Rightarrow> str \<Rightarrow> nat \<Rightarrow> string \<Rightarrow> agent_store \<Rightarrow>
    agent_store_error + u8 list" where
  "read_private_file X r name max_bytes label' s =
    bind_r (readable X (''inspect '' @ label') (path r name s) s) (\<lambda>_.
    case bm_get (files r s) name of
      None \<Rightarrow> Inl (io_error (''inspect '' @ label') (lit ''No such file or directory (os error 2)''))
    | Some body \<Rightarrow>
        if length body > max_bytes
        then Inl (Corrupt (MsgValue (label' @ '' '') (path r name s @ lit '' exceeds size limit'')))
        else Inr body)"

definition decode_file :: "(u8 list \<Rightarrow> str + 'a) \<Rightarrow> string \<Rightarrow> str \<Rightarrow> u8 list \<Rightarrow> agent_store_error + 'a" where
  "decode_file D label' p body = map_err (\<lambda>e. Corrupt
     (MsgValue (''invalid '' @ label' @ '' '') (p @ lit '': '' @ e))) (D body)"

definition read_json :: "externals \<Rightarrow> (u8 list \<Rightarrow> str + 'a) \<Rightarrow> region \<Rightarrow> str \<Rightarrow> nat \<Rightarrow> string \<Rightarrow>
    agent_store \<Rightarrow> agent_store_error + 'a" where
  "read_json X D r name max_bytes label' s =
    bind_r (read_private_file X r name max_bytes label' s) (decode_file D label' (path r name s))"

definition encode_json :: "('a \<Rightarrow> str + u8 list) \<Rightarrow> nat \<Rightarrow> string \<Rightarrow> 'a \<Rightarrow> agent_store_error + u8 list" where
  "encode_json E max_bytes label' v =
    bind_r (map_err (\<lambda>e. Invalid (MsgValue (''failed to encode '' @ label' @ '': '') e)) (E v)) (\<lambda>encoded.
    if length encoded > max_bytes
    then Inl (Capacity (Msg (label' @ '' exceeds the '' @ decimal max_bytes @ ''-byte limit'')))
    else Inr encoded)"

definition existing_file_size :: "externals \<Rightarrow> region \<Rightarrow> str \<Rightarrow> agent_store \<Rightarrow>
    agent_store_error + u64 option" where
  "existing_file_size X r name s =
    bind_r (readable X ''inspect existing state file'' (path r name s) s) (\<lambda>_.
      Inr (map_option (\<lambda>body. of_nat (length body)) (bm_get (files r s) name)))"

text \<open>\<open>checked_add\<close> on \<open>u64\<close>.\<close>

definition checked_add :: "'e \<Rightarrow> u64 \<Rightarrow> u64 \<Rightarrow> 'e + u64" where
  "checked_add e a b = (if unat a + unat b < 2 ^ 64 then Inr (a + b) else Inl e)"

definition saturating_add :: "u64 \<Rightarrow> u64 \<Rightarrow> u64" where
  "saturating_add a b = (if unat a + unat b < 2 ^ 64 then a + b else - 1)"

definition saturating_sub :: "u64 \<Rightarrow> u64 \<Rightarrow> u64" where
  "saturating_sub a b = (if b \<le> a then a - b else 0)"

definition count_file :: "externals \<Rightarrow> region \<Rightarrow> nat \<Rightarrow> string \<Rightarrow> agent_store \<Rightarrow> nat \<times> u64 \<Rightarrow>
    str \<times> u8 list \<Rightarrow> agent_store_error + nat \<times> u64" where
  "count_file X r record_limit label' s usage f =
    bind_r (readable X ''inspect state directory entry'' (path r (fst f) s) s) (\<lambda>_.
    if is_temporary (fst f) then Inr usage
    else if fst usage + 1 > record_limit
    then Inl (Capacity (Msg (label' @ '' exceeds its record limit'')))
    else bind_r (checked_add (Corrupt (Msg (label' @ '' byte accounting overflow''))) (snd usage)
        (of_nat (length (snd f)))) (\<lambda>bytes. Inr (fst usage + 1, bytes)))"

definition directory_usage :: "externals \<Rightarrow> region \<Rightarrow> nat \<Rightarrow> string \<Rightarrow> agent_store \<Rightarrow>
    agent_store_error + nat \<times> u64" where
  "directory_usage X r record_limit label' s =
    bind_r (readable X ''scan state directory'' (region_dir r s) s) (\<lambda>_.
      fold_r (count_file X r record_limit label' s) (0, 0) (files r s))"

definition region_capacity_of :: "externals \<Rightarrow> region \<Rightarrow> nat \<Rightarrow> string \<Rightarrow> agent_store \<Rightarrow>
    agent_store_error + region_capacity" where
  "region_capacity_of X r record_limit label' s =
    bind_r (directory_usage X r record_limit label' s) (\<lambda>(records, bytes).
      Inr \<lparr>rc_records = records, rc_bytes = bytes\<rparr>)"

definition next_region_capacity :: "region_capacity \<Rightarrow> u64 option \<Rightarrow> u64 \<Rightarrow> nat \<Rightarrow> u64 \<Rightarrow> string \<Rightarrow>
    agent_store_error + region_capacity" where
  "next_region_capacity current replaced_size new_size record_limit byte_limit label' =
    (let next_records = rc_records current + (if replaced_size = None then 1 else 0);
         next_bytes = saturating_add (saturating_sub (rc_bytes current)
           (case replaced_size of None \<Rightarrow> 0 | Some n \<Rightarrow> n)) new_size
     in if next_records > record_limit \<or> next_bytes > byte_limit
        then Inl (Capacity (Msg (label' @ '' is full'')))
        else Inr \<lparr>rc_records = next_records, rc_bytes = next_bytes\<rparr>)"

definition ensure_region_capacity :: "externals \<Rightarrow> region \<Rightarrow> u64 option \<Rightarrow> u64 \<Rightarrow> nat \<Rightarrow> u64 \<Rightarrow>
    string \<Rightarrow> agent_store \<Rightarrow> agent_store_error + unit" where
  "ensure_region_capacity X r replaced_size new_size record_limit byte_limit label' s =
    bind_r (region_capacity_of X r record_limit label' s) (\<lambda>current.
    bind_r (next_region_capacity current replaced_size new_size record_limit byte_limit label') (\<lambda>_.
      Inr ()))"

text \<open>
  The loop over the record files of a directory. The order of \<open>read_dir\<close> is open; it only
  decides which of several errors is reported.
\<close>

definition visit_file :: "region \<Rightarrow> str \<Rightarrow> nat \<Rightarrow> string \<Rightarrow> agent_store \<Rightarrow>
    ('v \<Rightarrow> str \<Rightarrow> agent_store_error + 'v) \<Rightarrow> nat \<times> 'v \<Rightarrow> str \<times> u8 list \<Rightarrow> agent_store_error + nat \<times> 'v" where
  "visit_file r suffix record_limit label' s visitor acc f =
    (if is_temporary (fst f) then Inr acc
     else if \<not> ends_with (fst f) suffix
     then Inl (Corrupt (MsgValue ''unexpected canonical state file: '' (path r (fst f) s)))
     else if fst acc + 1 > record_limit
     then Inl (Capacity (Msg (label' @ '' exceeds its record limit'')))
     else bind_r (visitor (snd acc) (fst f)) (\<lambda>v. Inr (fst acc + 1, v)))"

definition for_each_canonical_file :: "externals \<Rightarrow> region \<Rightarrow> str \<Rightarrow> nat \<Rightarrow> string \<Rightarrow>
    ('v \<Rightarrow> str \<Rightarrow> agent_store_error + 'v) \<Rightarrow> 'v \<Rightarrow> agent_store \<Rightarrow> agent_store_error + 'v" where
  "for_each_canonical_file X r suffix record_limit label' visitor v s =
    bind_r (readable X ''scan record directory'' (region_dir r s) s) (\<lambda>_.
    bind_r (fold_r (visit_file r suffix record_limit label' s visitor) (0, v) (files r s))
      (\<lambda>acc. Inr (snd acc)))"

definition canonical_files :: "externals \<Rightarrow> region \<Rightarrow> str \<Rightarrow> nat \<Rightarrow> string \<Rightarrow> agent_store \<Rightarrow>
    agent_store_error + str list" where
  "canonical_files X r suffix record_limit label' s =
    for_each_canonical_file X r suffix record_limit label' (\<lambda>names name. Inr (names @ [name])) [] s"

section \<open>Writing and removing\<close>

text \<open>
  An atomic write: until the rename nothing changes; a failure to sync the directory after it
  is reported although the file is replaced. The temporary file is not modelled: no reader
  looks at names with \<open>.tmp.\<close>.
\<close>

definition write_bytes_atomic :: "externals \<Rightarrow> region \<Rightarrow> str \<Rightarrow> u8 list \<Rightarrow> unit store_op" where
  "write_bytes_atomic X r name body s =
    (let a = x_write X (as_calls s); s = next_call s
     in case first_error
         [map_err (io_error ''inspect private state directory'') (wa_directory a),
          (case bm_get (files r s) name of None \<Rightarrow> Inr () | Some _ \<Rightarrow>
             map_err (\<lambda>e. Io (MsgValue ''insecure agent state file: '' e)) (wa_existing a)),
          map_err (\<lambda>e. Io (MsgValue ''obtain temporary file randomness: '' e)) (wa_random a),
          map_err (io_error ''create temporary state file'') (wa_create a),
          map_err (io_error ''write temporary state file'') (wa_write a),
          map_err (io_error ''sync temporary state file'') (wa_sync a),
          map_err (io_error ''replace state file'') (wa_rename a)] of
        Inl e \<Rightarrow> (s, Inl e)
      | Inr _ \<Rightarrow> (put_files r (bm_insert name body (files r s)) s,
          map_err (io_error ''sync state directory'') (wa_sync_directory a)))"

definition remove_file_and_sync :: "externals \<Rightarrow> region \<Rightarrow> str \<Rightarrow> unit store_op" where
  "remove_file_and_sync X r name s =
    (let a = x_remove X (as_calls s); s = next_call s
     in case ra_remove a of
        Inl e \<Rightarrow> (s, Inl (io_error ''remove private state file'' e))
      | Inr _ \<Rightarrow>
          if bm_get (files r s) name = None then (s, Inr ())
          else (put_files r (bm_remove name (files r s)) s,
            map_err (io_error ''sync state directory'') (ra_sync_directory a)))"

text \<open>The loop of \<open>remove_files_and_sync\<close>; the result says whether a file was removed.\<close>

fun remove_each :: "externals \<Rightarrow> region \<Rightarrow> bool \<Rightarrow> str list \<Rightarrow> bool store_op" where
  "remove_each X r changed [] s = (s, Inr changed)"
| "remove_each X r changed (name # names) s =
    (if 47 \<in> set name
     then (s, Inl (Invalid (MsgValue ''cleanup path escapes state directory: '' (path r name s))))
     else let a = x_remove X (as_calls s); s = next_call s
       in case ra_remove a of
          Inl e \<Rightarrow> (s, Inl (io_error ''remove private state file'' e))
        | Inr _ \<Rightarrow> remove_each X r (changed \<or> bm_get (files r s) name \<noteq> None) names
            (put_files r (bm_remove name (files r s)) s))"

definition sync_directory :: "externals \<Rightarrow> unit store_op" where
  "sync_directory X s =
    (next_call s, map_err (io_error ''sync state directory'') (ra_sync_directory (x_remove X (as_calls s))))"

definition remove_files_and_sync :: "externals \<Rightarrow> region \<Rightarrow> str list \<Rightarrow> unit store_op" where
  "remove_files_and_sync X r names =
    bind_s (remove_each X r False names) (\<lambda>changed.
      if changed then sync_directory X else give (Inr ()))"

text \<open>Orphaned bodies and leftovers of interrupted writes are removed one by one.\<close>

definition cleanup_body_directory :: "externals \<Rightarrow> region \<Rightarrow> str list \<Rightarrow> unit store_op" where
  "cleanup_body_directory X r referenced s =
    (case readable X ''scan body directory'' (region_dir r s) s of
       Inl e \<Rightarrow> (s, Inl e)
     | Inr _ \<Rightarrow> remove_files_and_sync X r
         (filter (\<lambda>name. is_temporary name \<or> name \<notin> set referenced) (map fst (files r s))) s)"

definition cleanup_temporary_files :: "externals \<Rightarrow> region \<Rightarrow> unit store_op" where
  "cleanup_temporary_files X r s =
    (case readable X ''scan record directory'' (region_dir r s) s of
       Inl e \<Rightarrow> (s, Inl e)
     | Inr _ \<Rightarrow> remove_files_and_sync X r (filter is_temporary (map fst (files r s))) s)"

definition clear_directory_and_sync :: "externals \<Rightarrow> region \<Rightarrow> unit store_op" where
  "clear_directory_and_sync X r s =
    (case readable X ''scan reset directory'' (region_dir r s) s of
       Inl e \<Rightarrow> (s, Inl e)
     | Inr _ \<Rightarrow> bind_s (remove_each X r False (map fst (files r s))) (\<lambda>_. sync_directory X) s)"

end
