(* ===== verification/AgentStore.thy ===== *)
theory AgentStore
  imports AgentFiles PaneText Utf8 "HOL-Library.Product_Lexorder"
begin

text \<open>
  The durable store of runs and operations, \<open>src/src/agent_state/store.rs\<close>: loading,
  saving with the rules for the replacement of a record, prompts, response artifacts,
  retention, and the offline operations. Every operation returns the store that it leaves
  behind, with its result or its error.
\<close>

section \<open>What may replace a record\<close>

definition provider_event_kept :: "provider_event_reference \<Rightarrow> provider_event_reference \<Rightarrow> bool" where
  "provider_event_kept old new \<longleftrightarrow> pr_event_ref old = pr_event_ref new
     \<and> pr_ingress_request_id old = pr_ingress_request_id new
     \<and> pr_payload_digest old = pr_payload_digest new \<and> pr_disposition old = pr_disposition new
     \<and> pr_receipt old = pr_receipt new \<and> pr_first_observed_at old = pr_first_observed_at new
     \<and> pr_count new \<ge> pr_count old \<and> pr_last_observed_at new \<ge> pr_last_observed_at old"

definition validate_evidence_replacement :: "run_evidence_summary \<Rightarrow> run_evidence_summary \<Rightarrow>
    agent_store_error + unit" where
  "validate_evidence_replacement existing new =
    (if re_activity_count new < re_activity_count existing
        \<or> re_permission_request_count new < re_permission_request_count existing
        \<or> re_user_input_request_count new < re_user_input_request_count existing
        \<or> re_process_absence_count new < re_process_absence_count existing
        \<or> re_terminal_still_count new < re_terminal_still_count existing
        \<or> length (re_provider_events new) < length (re_provider_events existing)
     then Inl (Conflict (Msg ''run evidence replacement is not monotonic''))
     else if list_ex (\<lambda>(a, b). \<not> provider_event_kept a b)
         (zip (re_provider_events existing) (re_provider_events new))
     then Inl (Conflict (Msg ''provider evidence identity changed during replacement''))
     else Inr ())"

definition completeness_monotonic :: "artifact_store_completeness \<Rightarrow> artifact_store_completeness \<Rightarrow> bool" where
  "completeness_monotonic old new \<longleftrightarrow> old = new
     \<or> (old = StoreUnavailable \<and> (new = StoreComplete \<or> new = StoreTruncated))
     \<or> (old \<noteq> StoreExpired \<and> new = StoreExpired)"

definition validate_artifact_replacement :: "response_artifact_metadata option \<Rightarrow>
    response_artifact_metadata option \<Rightarrow> agent_store_error + unit" where
  "validate_artifact_replacement existing new = (case (existing, new) of
      (Some e, Some n) \<Rightarrow>
        if am_original_digest e \<noteq> am_original_digest n
           \<or> am_original_byte_count e \<noteq> am_original_byte_count n
           \<or> am_run_id e \<noteq> am_run_id n \<or> am_operation_id e \<noteq> am_operation_id n
        then Inl (Conflict (Msg ''response artifact identity changed during replacement''))
        else if \<not> completeness_monotonic (am_store_completeness e) (am_store_completeness n)
        then Inl (Conflict (Msg ''response artifact state cannot move backward''))
        else Inr ()
    | (Some _, None) \<Rightarrow> Inl (Conflict (Msg ''response artifact metadata cannot be removed''))
    | (None, _) \<Rightarrow> Inr ())"

definition validate_run_replacement :: "run_record \<Rightarrow> run_record \<Rightarrow> agent_store_error + unit" where
  "validate_run_replacement existing new = first_error
    [fail_if (run_generation existing \<noteq> run_generation new \<or> run_run_id existing \<noteq> run_run_id new
         \<or> run_run_seq existing \<noteq> run_run_seq new \<or> run_binding existing \<noteq> run_binding new
         \<or> run_provider_turn_key existing \<noteq> run_provider_turn_key new
         \<or> run_operation_id existing \<noteq> run_operation_id new
         \<or> run_created_at existing \<noteq> run_created_at new)
       (Conflict (Msg ''run replacement changes immutable identity fields'')),
     fail_if (run_revision new \<noteq> saturating_inc (run_revision existing)
         \<or> run_updated_at new < run_updated_at existing)
       (Conflict (Msg ''run replacement must advance revision and time exactly once'')),
     fail_if (run_semantic_outcome existing = Completed \<and> run_semantic_outcome new \<noteq> Completed)
       (Conflict (Msg ''completed run cannot become unresolved'')),
     fail_if (run_resolution existing \<noteq> None \<and> run_resolution new \<noteq> run_resolution existing)
       (Conflict (Msg ''run resolution is immutable once assigned'')),
     validate_evidence_replacement (run_evidence existing) (run_evidence new),
     validate_artifact_replacement (run_artifact existing) (run_artifact new)]"

definition provider_session_rebound :: "operation_record \<Rightarrow> operation_record \<Rightarrow> bool" where
  "provider_session_rebound existing new \<longleftrightarrow>
     ob_provider_session_id (op_binding new) \<noteq> None
     \<and> (op_dispatch_state existing = DispatchStarted \<or> op_dispatch_state existing = DeliveryUnknown)
     \<and> op_dispatch_state new = PromptConfirmed
     \<and> ob_server_identity (op_binding existing) = ob_server_identity (op_binding new)
     \<and> ob_pane_instance (op_binding existing) = ob_pane_instance (op_binding new)
     \<and> ob_pane_state_id (op_binding existing) = ob_pane_state_id (op_binding new)
     \<and> ob_agent_kind (op_binding existing) = ob_agent_kind (op_binding new)
     \<and> ob_process (op_binding existing) = ob_process (op_binding new)
     \<and> (ob_provider_session_id (op_binding existing) = None
          \<and> ob_agent_epoch (op_binding existing) = ob_agent_epoch (op_binding new)
        \<or> is_codex (ob_agent_kind (op_binding existing))
          \<and> checked_inc () (ob_agent_epoch (op_binding existing)) = Inr (ob_agent_epoch (op_binding new)))
     \<and> sv_state_id (op_expected_pane_version existing) = sv_state_id (op_expected_pane_version new)
     \<and> sv_revision (op_expected_pane_version existing) = sv_revision (op_expected_pane_version new)
     \<and> sv_agent_epoch (op_expected_pane_version new) = ob_agent_epoch (op_binding new)"

definition operation_request_changed :: "operation_record \<Rightarrow> operation_record \<Rightarrow> bool" where
  "operation_request_changed existing new \<longleftrightarrow>
     op_generation existing \<noteq> op_generation new
     \<or> op_operation_id existing \<noteq> op_operation_id new
     \<or> op_request_fingerprint existing \<noteq> op_request_fingerprint new
     \<or> op_target_agent_ref existing \<noteq> op_target_agent_ref new
     \<or> op_prompt_digest existing \<noteq> op_prompt_digest new
     \<or> op_dispatch_option existing \<noteq> op_dispatch_option new
     \<or> (op_binding existing \<noteq> op_binding new \<and> \<not> provider_session_rebound existing new)
     \<or> (op_expected_pane_version existing \<noteq> op_expected_pane_version new
        \<and> \<not> provider_session_rebound existing new)
     \<or> op_expected_current_run existing \<noteq> op_expected_current_run new
     \<or> op_expected_run_seq existing \<noteq> op_expected_run_seq new
     \<or> op_confirmation_deadline_at existing \<noteq> op_confirmation_deadline_at new
     \<or> op_created_at existing \<noteq> op_created_at new"

definition is_abandonment :: "operation_record \<Rightarrow> operation_record \<Rightarrow> bool" where
  "is_abandonment existing new \<longleftrightarrow> op_dispatch_state existing = DeliveryUnknown
     \<and> \<not> operator_abandoned existing \<and> operator_abandoned new"

definition dispatch_transition :: "operation_record \<Rightarrow> operation_record \<Rightarrow> bool" where
  "dispatch_transition existing new \<longleftrightarrow> \<not> operator_abandoned existing
     \<and> (is_abandonment existing new
        \<or> (case op_dispatch_state existing of
             Prepared \<Rightarrow> op_dispatch_state new = DispatchStarted \<or> op_dispatch_state new = Rejected
           | DispatchStarted \<Rightarrow> op_dispatch_state new = PromptConfirmed
               \<or> op_dispatch_state new = DeliveryUnknown \<or> op_dispatch_state new = Rejected
           | DeliveryUnknown \<Rightarrow> op_dispatch_state new = PromptConfirmed
           | _ \<Rightarrow> False))"

definition validate_operation_replacement :: "operation_record \<Rightarrow> operation_record \<Rightarrow>
    agent_store_error + unit" where
  "validate_operation_replacement existing new = first_error
    [fail_if (operation_request_changed existing new)
       (Conflict (Msg ''operation replacement changes immutable request fields'')),
     fail_if (op_revision new \<noteq> saturating_inc (op_revision existing)
         \<or> op_updated_at new < op_updated_at existing)
       (Conflict (Msg ''operation replacement must advance revision and time exactly once'')),
     fail_if (\<not> dispatch_transition existing new)
       (Conflict (Msg ''invalid dispatch operation state transition'')),
     fail_if (op_run_id existing \<noteq> None \<and> op_run_id existing \<noteq> op_run_id new)
       (Conflict (Msg ''operation run binding cannot be replaced'')),
     fail_if (op_result_receipt existing \<noteq> None \<and> op_result_receipt existing \<noteq> op_result_receipt new
         \<and> \<not> is_abandonment existing new
         \<and> \<not> (op_dispatch_state existing = DeliveryUnknown \<and> op_dispatch_state new = PromptConfirmed))
       (Conflict (Msg ''operation result receipt cannot be replaced''))]"

section \<open>Loading and saving records\<close>

definition validate_run :: "externals \<Rightarrow> run_record \<Rightarrow> agent_store \<Rightarrow> agent_store_error + unit" where
  "validate_run X record' s =
    bind_r (map_err Invalid (run_record_validate (x_digest X) (x_evidence_len X) record')) (\<lambda>_.
      fail_if (run_generation record' \<noteq> sm_generation (as_meta s))
        (Invalid (Msg ''run generation mismatch'')))"

definition validate_operation :: "operation_record \<Rightarrow> agent_store \<Rightarrow> agent_store_error + unit" where
  "validate_operation record' s =
    bind_r (map_err Invalid (operation_record_validate record')) (\<lambda>_.
      fail_if (op_generation record' \<noteq> sm_generation (as_meta s))
        (Invalid (Msg ''operation generation mismatch'')))"

definition load_run :: "externals \<Rightarrow> stable_run_id \<Rightarrow> agent_store \<Rightarrow>
    agent_store_error + run_record option" where
  "load_run X run_id s =
    (if bm_get (as_runs s) (run_file run_id) = None then Inr None
     else bind_r (read_json X (x_decode_run X) Runs (run_file run_id) RUN_RECORD_MAX_BYTES ''run record'' s)
       (\<lambda>record'.
       bind_r (validate_run X record' s) (\<lambda>_.
       if run_run_id record' \<noteq> run_id
       then Inl (Corrupt (MsgValue ''run record identity does not match '' (path Runs (run_file run_id) s)))
       else Inr (Some record'))))"

definition load_operation :: "externals \<Rightarrow> operation_id \<Rightarrow> agent_store \<Rightarrow>
    agent_store_error + operation_record option" where
  "load_operation X i s =
    (if bm_get (as_operations s) (operation_file i) = None then Inr None
     else bind_r (read_json X (x_decode_operation X) Operations (operation_file i)
         OPERATION_RECORD_MAX_BYTES ''operation record'' s) (\<lambda>record'.
       bind_r (validate_operation record' s) (\<lambda>_.
       if op_operation_id record' \<noteq> i
       then Inl (Corrupt (MsgValue ''operation record identity does not match ''
         (path Operations (operation_file i) s)))
       else Inr (Some record'))))"

text \<open>
  The end of both saves: the accounting follows a successful write, and is read again from
  the directory after a failed one.
\<close>

definition write_counted :: "externals \<Rightarrow> region \<Rightarrow> str \<Rightarrow> u8 list \<Rightarrow> region_capacity \<Rightarrow>
    (region_capacity \<Rightarrow> agent_store \<Rightarrow> agent_store) \<Rightarrow> nat \<Rightarrow> string \<Rightarrow> unit store_op" where
  "write_counted X r name encoded capacity set_capacity record_limit label' s =
    (case write_bytes_atomic X r name encoded s of
       (s, Inr _) \<Rightarrow> (set_capacity capacity s, Inr ())
     | (s, Inl e) \<Rightarrow> (case region_capacity_of X r record_limit label' s of
           Inl e' \<Rightarrow> (s, Inl e')
         | Inr c \<Rightarrow> (set_capacity c s, Inl e)))"

definition set_run_capacity :: "region_capacity \<Rightarrow> agent_store \<Rightarrow> agent_store" where
  "set_run_capacity c s = s\<lparr>as_run_capacity := c\<rparr>"

definition set_operation_capacity :: "region_capacity \<Rightarrow> agent_store \<Rightarrow> agent_store" where
  "set_operation_capacity c s = s\<lparr>as_operation_capacity := c\<rparr>"

definition write_run :: "externals \<Rightarrow> run_record \<Rightarrow> unit store_op" where
  "write_run X record' =
    bind_s (give (encode_json (x_encode_run X) RUN_RECORD_MAX_BYTES ''run record'' record')) (\<lambda>encoded.
    bind_s (asks (\<lambda>s. bind_r (existing_file_size X Runs (run_file (run_run_id record')) s) (\<lambda>old.
      next_region_capacity (as_run_capacity s) old (of_nat (length encoded)) RUN_STORE_MAX_RECORDS
        RUN_STORE_MAX_BYTES ''run store''))) (\<lambda>capacity.
      write_counted X Runs (run_file (run_run_id record')) encoded capacity set_run_capacity
        RUN_STORE_MAX_RECORDS ''run store''))"

definition save_run :: "externals \<Rightarrow> run_record \<Rightarrow> unit store_op" where
  "save_run X record' =
    bind_s (asks (validate_run X record')) (\<lambda>_.
    bind_s (asks (load_run X (run_run_id record'))) (\<lambda>existing.
    case existing of
      None \<Rightarrow> write_run X record'
    | Some e \<Rightarrow>
        if e = record' then give (Inr ())
        else bind_s (give (validate_run_replacement e record')) (\<lambda>_. write_run X record')))"

definition write_operation :: "externals \<Rightarrow> operation_record \<Rightarrow> unit store_op" where
  "write_operation X record' =
    bind_s (give (encode_json (x_encode_operation X) OPERATION_RECORD_MAX_BYTES ''operation record''
      record')) (\<lambda>encoded.
    bind_s (asks (\<lambda>s. bind_r (existing_file_size X Operations (operation_file (op_operation_id record')) s)
      (\<lambda>old. next_region_capacity (as_operation_capacity s) old (of_nat (length encoded))
        OPERATION_STORE_MAX_RECORDS OPERATION_STORE_MAX_BYTES ''operation store''))) (\<lambda>capacity.
      write_counted X Operations (operation_file (op_operation_id record')) encoded capacity
        set_operation_capacity OPERATION_STORE_MAX_RECORDS ''operation store''))"

definition save_operation :: "externals \<Rightarrow> operation_record \<Rightarrow> unit store_op" where
  "save_operation X record' =
    bind_s (asks (validate_operation record')) (\<lambda>_.
    bind_s (asks (load_operation X (op_operation_id record'))) (\<lambda>existing.
    case existing of
      None \<Rightarrow> write_operation X record'
    | Some e \<Rightarrow>
        if e = record' then give (Inr ())
        else bind_s (give (validate_operation_replacement e record')) (\<lambda>_. write_operation X record')))"

definition read_run_file :: "externals \<Rightarrow> agent_store \<Rightarrow> run_record list \<Rightarrow> str \<Rightarrow>
    agent_store_error + run_record list" where
  "read_run_file X s acc name =
    bind_r (read_json X (x_decode_run X) Runs name RUN_RECORD_MAX_BYTES ''run record'' s) (\<lambda>record'.
    bind_r (validate_run X record' s) (\<lambda>_.
    if name \<noteq> run_file (run_run_id record')
    then Inl (Corrupt (MsgValue ''run record has non-canonical file name: '' (path Runs name s)))
    else Inr (acc @ [record'])))"

definition list_runs :: "externals \<Rightarrow> agent_store \<Rightarrow> agent_store_error + run_record list" where
  "list_runs X s =
    bind_r (canonical_files X Runs (lit ''.json'') RUN_STORE_MAX_RECORDS ''run store'' s) (\<lambda>names.
    bind_r (fold_r (read_run_file X s) [] names) (\<lambda>records.
      Inr (sort_key run_run_id records)))"

definition read_operation_file :: "externals \<Rightarrow> str \<Rightarrow> agent_store \<Rightarrow>
    agent_store_error + operation_record" where
  "read_operation_file X name s =
    bind_r (read_json X (x_decode_operation X) Operations name OPERATION_RECORD_MAX_BYTES
      ''operation record'' s) (\<lambda>record'.
    bind_r (validate_operation record' s) (\<lambda>_.
    if name \<noteq> operation_file (op_operation_id record')
    then Inl (Corrupt (MsgValue ''operation record has non-canonical file name: ''
      (path Operations name s)))
    else Inr record'))"

definition for_each_operation :: "externals \<Rightarrow> ('v \<Rightarrow> operation_record \<Rightarrow> agent_store_error + 'v) \<Rightarrow> 'v \<Rightarrow>
    agent_store \<Rightarrow> agent_store_error + 'v" where
  "for_each_operation X visitor v s =
    for_each_canonical_file X Operations (lit ''.json'') OPERATION_STORE_MAX_RECORDS ''operation store''
      (\<lambda>v name. bind_r (read_operation_file X name s) (visitor v)) v s"

definition list_operations :: "externals \<Rightarrow> agent_store \<Rightarrow> agent_store_error + operation_record list" where
  "list_operations X s =
    bind_r (canonical_files X Operations (lit ''.json'') OPERATION_STORE_MAX_RECORDS ''operation store'' s)
      (\<lambda>names. bind_r (fold_r (\<lambda>acc name. bind_r (read_operation_file X name s)
        (\<lambda>record'. Inr (acc @ [record']))) [] names) (\<lambda>records.
        Inr (sort_key op_operation_id records)))"

section \<open>Prompts\<close>

definition stage_prompt :: "externals \<Rightarrow> operation_id \<Rightarrow> u8 list \<Rightarrow> unit store_op" where
  "stage_prompt X i body s =
    (if length body > PROMPT_BODY_MAX_BYTES
     then (s, Inl (Capacity (Msg ''prompt exceeds the 65,536-byte limit'')))
     else if bm_get (as_prompts s) (prompt_file i) \<noteq> None
     then (s, bind_r (read_private_file X Prompts (prompt_file i) PROMPT_BODY_MAX_BYTES ''prompt staging'' s)
       (\<lambda>existing. fail_if (existing \<noteq> body) (Conflict (MsgValue ''prompt staging conflict for '' i))))
     else case ensure_region_capacity X Prompts None (of_nat (length body)) PROMPT_STORE_MAX_RECORDS
         PROMPT_STORE_MAX_BYTES ''prompt staging store'' s of
       Inl e \<Rightarrow> (s, Inl e)
     | Inr _ \<Rightarrow> write_bytes_atomic X Prompts (prompt_file i) body s)"

definition read_prompt :: "externals \<Rightarrow> operation_id \<Rightarrow> agent_store \<Rightarrow> agent_store_error + u8 list" where
  "read_prompt X i s =
    (if bm_get (as_prompts s) (prompt_file i) = None
     then Inl (NotFound (MsgValue ''prompt staging not found for '' i))
     else read_private_file X Prompts (prompt_file i) PROMPT_BODY_MAX_BYTES ''prompt staging'' s)"

definition delete_prompt :: "externals \<Rightarrow> operation_id \<Rightarrow> unit store_op" where
  "delete_prompt X i = remove_file_and_sync X Prompts (prompt_file i)"

end
