(* ===== verification/AgentBodies.thy ===== *)
theory AgentBodies
  imports AgentStore
begin

text \<open>
  The bodies beside the records of \<open>src/src/agent_state/store.rs\<close>: response artifacts with
  their capacity, the retention of runs, orphans and references, usage, and the operations on
  the whole store (opening, reset, recovery).
\<close>

section \<open>Response artifacts\<close>

definition required_run_for_artifact :: "externals \<Rightarrow> stable_run_id \<Rightarrow> agent_store \<Rightarrow>
    agent_store_error + run_record" where
  "required_run_for_artifact X run_id s =
    bind_r (load_run X run_id s) (\<lambda>r. case r of
      None \<Rightarrow> Inl (NotFound (MsgValue ''run '' (run_id @ lit '' not found'')))
    | Some record' \<Rightarrow> Inr record')"

definition expire_artifact :: "externals \<Rightarrow> stable_run_id \<Rightarrow> unit store_op" where
  "expire_artifact X run_id =
    bind_s (asks (required_run_for_artifact X run_id)) (\<lambda>run.
    case run_artifact run of
      None \<Rightarrow> give (Inr ())
    | Some artifact \<Rightarrow>
        if am_store_completeness artifact = StoreExpired then give (Inr ())
        else bind_s (save_run X (run\<lparr>run_artifact := Some (artifact\<lparr>am_file_name := None,
              am_store_completeness := StoreExpired\<rparr>),
            run_revision := saturating_inc (run_revision run)\<rparr>)) (\<lambda>_.
          case am_file_name artifact of
            None \<Rightarrow> give (Inr ())
          | Some file_name \<Rightarrow> remove_file_and_sync X Artifacts file_name))"

definition is_stored :: "artifact_store_completeness \<Rightarrow> bool" where
  "is_stored c \<longleftrightarrow> c = StoreComplete \<or> c = StoreTruncated"

text \<open>The runs whose body may go, with the key they are sorted by.\<close>

definition expiry_candidate :: "run_record \<Rightarrow> (i64 \<times> i64 \<times> stable_run_id) option" where
  "expiry_candidate run = (case (run_resolution run, run_artifact run) of
      (Some resolution, Some artifact) \<Rightarrow>
        if is_stored (am_store_completeness artifact)
        then Some (rr_resolved_at resolution, run_created_at run, run_run_id run) else None
    | _ \<Rightarrow> None)"

definition expiry_candidates :: "stable_run_id \<Rightarrow> run_record list \<Rightarrow> (i64 \<times> i64 \<times> stable_run_id) list" where
  "expiry_candidates target runs =
    sort (List.map_filter expiry_candidate (filter (\<lambda>run. run_run_id run \<noteq> target) runs))"

text \<open>
  The loop of \<open>ensure_artifact_capacity_with_limits\<close>: each round expires the oldest body.
  \<open>None\<close> stands for a loop that has not ended after the given number of rounds.
\<close>

datatype round_outcome = Room | Full agent_store_error | Expire stable_run_id

definition capacity_round :: "externals \<Rightarrow> stable_run_id \<Rightarrow> str \<Rightarrow> u64 \<Rightarrow> nat \<Rightarrow> u64 \<Rightarrow> agent_store \<Rightarrow>
    round_outcome" where
  "capacity_round X target name new_size file_limit byte_limit s =
    (case bind_r (existing_file_size X Artifacts name s) (\<lambda>old.
        ensure_region_capacity X Artifacts old new_size file_limit byte_limit
          ''response artifact store'' s) of
       Inr _ \<Rightarrow> Room
     | Inl (Capacity _) \<Rightarrow> (case list_runs X s of
           Inl e \<Rightarrow> Full e
         | Inr runs \<Rightarrow> (case expiry_candidates target runs of
               [] \<Rightarrow> Full (Capacity (Msg ''response artifact store is full''))
             | (_, _, run_id) # _ \<Rightarrow> Expire run_id))
     | Inl e \<Rightarrow> Full e)"

fun make_artifact_room :: "nat \<Rightarrow> externals \<Rightarrow> stable_run_id \<Rightarrow> str \<Rightarrow> u64 \<Rightarrow> nat \<Rightarrow> u64 \<Rightarrow> agent_store \<Rightarrow>
    (agent_store \<times> (agent_store_error + unit)) option" where
  "make_artifact_room 0 X target name new_size file_limit byte_limit s = None"
| "make_artifact_room (Suc rounds) X target name new_size file_limit byte_limit s =
    (case capacity_round X target name new_size file_limit byte_limit s of
       Room \<Rightarrow> Some (s, Inr ())
     | Full e \<Rightarrow> Some (s, Inl e)
     | Expire run_id \<Rightarrow> (case expire_artifact X run_id s of
           (s, Inl e) \<Rightarrow> Some (s, Inl e)
         | (s, Inr _) \<Rightarrow> make_artifact_room rounds X target name new_size file_limit byte_limit s))"

definition ensure_artifact_capacity :: "externals \<Rightarrow> stable_run_id \<Rightarrow> str \<Rightarrow> u64 \<Rightarrow> unit store_op" where
  "ensure_artifact_capacity X target name new_size s =
    (case make_artifact_room (Suc RUN_STORE_MAX_RECORDS) X target name new_size ARTIFACT_STORE_MAX_FILES
        ARTIFACT_STORE_MAX_BYTES s of
       Some outcome \<Rightarrow> outcome
     | None \<Rightarrow> (s, Inl (Corrupt (Msg ''response artifact capacity loop does not end''))))"

record artifact_observation =
  ao_provider_completeness :: provider_completeness
  ao_source :: str
  ao_observed_at :: i64

definition artifact_for :: "run_record \<Rightarrow> u64 \<Rightarrow> u64 \<Rightarrow> sha256_digest \<Rightarrow> sha256_digest option \<Rightarrow>
    provider_completeness \<Rightarrow> artifact_store_completeness \<Rightarrow> str \<Rightarrow> i64 \<Rightarrow> str option \<Rightarrow>
    response_artifact_metadata" where
  "artifact_for run original_bytes stored_bytes original_digest stored_digest provider completeness
      source observed_at file_name =
    \<lparr>am_run_id = run_run_id run, am_operation_id = run_operation_id run,
     am_provider_session_id = ab_provider_session_id (run_binding run),
     am_observed_process = ab_process (run_binding run),
     am_original_byte_count = original_bytes, am_stored_byte_count = stored_bytes,
     am_original_digest = original_digest, am_stored_digest = stored_digest,
     am_provider_completeness = provider, am_store_completeness = completeness,
     am_source = source, am_encoding = lit ''utf-8'', am_observed_at = observed_at,
     am_file_name = file_name\<rparr>"

text \<open>The check of an artifact that the run has already; \<open>Some\<close> ends the call.\<close>

definition settled_artifact :: "response_artifact_metadata option \<Rightarrow>
    (response_artifact_metadata \<Rightarrow> bool) \<Rightarrow> agent_store_error + response_artifact_metadata option" where
  "settled_artifact existing conflicts = (case existing of
      None \<Rightarrow> Inr None
    | Some artifact \<Rightarrow>
        if conflicts artifact
        then Inl (Conflict (Msg ''response artifact digest conflicts with existing completion''))
        else Inr (if am_store_completeness artifact \<noteq> StoreUnavailable then Some artifact else None))"

definition store_artifact :: "externals \<Rightarrow> stable_run_id \<Rightarrow> str \<Rightarrow> artifact_observation \<Rightarrow>
    response_artifact_metadata store_op" where
  "store_artifact X run_id body ob =
    bind_s (asks (required_run_for_artifact X run_id)) (\<lambda>run.
    if run_semantic_outcome run \<noteq> Completed
    then give (Inl (Invalid (Msg ''cannot store an artifact for an unresolved run'')))
    else let original = utf8 body; original_digest = x_digest X original;
        stored_text = utf8_suffix body RESPONSE_ARTIFACT_BODY_MAX_BYTES; stored = utf8 stored_text;
        completeness = (if length stored = length original then StoreComplete else StoreTruncated);
        file_name = artifact_file_name run_id
      in bind_s (give (settled_artifact (run_artifact run) (\<lambda>a. am_original_digest a \<noteq> original_digest)))
        (\<lambda>settled. case settled of Some artifact \<Rightarrow> give (Inr artifact) | None \<Rightarrow>
        bind_s (attempt_s (bind_s (ensure_artifact_capacity X run_id file_name (of_nat (length stored)))
          (\<lambda>_. write_bytes_atomic X Artifacts file_name stored))) (\<lambda>written.
        let metadata = (case written of
            Inr _ \<Rightarrow> artifact_for run (of_nat (length original)) (of_nat (length stored)) original_digest
              (Some (x_digest X stored)) (ao_provider_completeness ob) completeness (ao_source ob)
              (ao_observed_at ob) (Some file_name)
          | Inl _ \<Rightarrow> artifact_for run (of_nat (length original)) 0 original_digest None
              (ao_provider_completeness ob) StoreUnavailable (ao_source ob) (ao_observed_at ob) None)
        in bind_s (give (map_err Invalid (artifact_metadata_validate metadata))) (\<lambda>_.
           bind_s (save_run X (run\<lparr>run_artifact := Some metadata,
             run_revision := saturating_inc (run_revision run),
             run_updated_at := max (run_updated_at run) (ao_observed_at ob)\<rparr>)) (\<lambda>_.
           give (Inr metadata))))))"

definition decode_body :: "externals \<Rightarrow> response_candidate \<Rightarrow> agent_store_error + u8 list" where
  "decode_body X c =
    bind_r (map_err (\<lambda>e. Invalid (MsgValue ''invalid response body base64: '' e))
      (x_base64_decode X (cand_body_base64 c))) (\<lambda>decoded.
    if of_nat (length decoded) \<noteq> cand_stored_bytes c \<or> x_digest X decoded \<noteq> cand_stored_digest c
    then Inl (Invalid (Msg ''response candidate body does not match its metadata''))
    else if from_utf8 decoded = None
    then Inl (Invalid (Msg ''response candidate body is not UTF-8''))
    else Inr decoded)"

definition candidate_inconsistent :: "response_candidate \<Rightarrow> bool" where
  "candidate_inconsistent c \<longleftrightarrow> cand_stored_bytes c > of_nat RESPONSE_ARTIFACT_BODY_MAX_BYTES
     \<or> cand_truncated c \<noteq> (cand_stored_bytes c \<noteq> cand_original_bytes c)
     \<or> (\<not> cand_truncated c \<and> (cand_original_bytes c \<noteq> cand_stored_bytes c
        \<or> cand_original_digest c \<noteq> cand_stored_digest c))"

definition store_artifact_candidate :: "externals \<Rightarrow> stable_run_id \<Rightarrow> response_candidate \<Rightarrow> str \<Rightarrow> i64 \<Rightarrow>
    response_artifact_metadata store_op" where
  "store_artifact_candidate X run_id c source observed_at =
    bind_s (give (decode_body X c)) (\<lambda>body.
    if candidate_inconsistent c
    then give (Inl (Invalid (Msg ''response candidate metadata is inconsistent'')))
    else bind_s (give (map_err Invalid (sha256_digest_parse (cand_original_digest c)))) (\<lambda>original_digest.
    bind_s (give (map_err Invalid (sha256_digest_parse (cand_stored_digest c)))) (\<lambda>stored_digest.
    bind_s (asks (required_run_for_artifact X run_id)) (\<lambda>run.
    if run_semantic_outcome run \<noteq> Completed
    then give (Inl (Invalid (Msg ''cannot store an artifact for an unresolved run'')))
    else bind_s (give (settled_artifact (run_artifact run) (\<lambda>a. am_original_digest a \<noteq> original_digest
          \<or> am_original_byte_count a \<noteq> cand_original_bytes c)))
      (\<lambda>settled. case settled of Some artifact \<Rightarrow> give (Inr artifact) | None \<Rightarrow>
      let file_name = artifact_file_name run_id in
      bind_s (attempt_s (bind_s (ensure_artifact_capacity X run_id file_name (of_nat (length body)))
        (\<lambda>_. write_bytes_atomic X Artifacts file_name body))) (\<lambda>written.
      let metadata = (case written of
          Inr _ \<Rightarrow> artifact_for run (cand_original_bytes c) (cand_stored_bytes c) original_digest
            (Some stored_digest) (cand_provider_completeness c)
            (if cand_truncated c then StoreTruncated else StoreComplete) source observed_at (Some file_name)
        | Inl _ \<Rightarrow> artifact_for run (cand_original_bytes c) (cand_stored_bytes c) original_digest
            (Some stored_digest) (cand_provider_completeness c) StoreUnavailable source observed_at None)
      in bind_s (give (map_err Invalid (artifact_metadata_validate metadata))) (\<lambda>_.
         bind_s (give (checked_inc (Invalid (Msg ''run revision overflow'')) (run_revision run))) (\<lambda>revision.
         bind_s (save_run X (run\<lparr>run_artifact := Some metadata, run_revision := revision,
           run_updated_at := max (run_updated_at run) observed_at\<rparr>)) (\<lambda>_.
         give (Inr metadata))))))))))"

definition read_artifact :: "externals \<Rightarrow> stable_run_id \<Rightarrow> agent_store \<Rightarrow> agent_store_error + str" where
  "read_artifact X run_id s =
    bind_r (required_run_for_artifact X run_id s) (\<lambda>run.
    case run_artifact run of
      None \<Rightarrow> Inl ArtifactUnavailable
    | Some artifact \<Rightarrow>
        if am_store_completeness artifact = StoreUnavailable then Inl ArtifactUnavailable
        else if am_store_completeness artifact = StoreExpired then Inl ArtifactExpired
        else (case am_file_name artifact of
          None \<Rightarrow> Inl (Corrupt (Msg ''artifact file name is absent''))
        | Some file_name \<Rightarrow>
            bind_r (read_private_file X Artifacts file_name RESPONSE_ARTIFACT_BODY_MAX_BYTES
              ''response artifact'' s) (\<lambda>body.
            if of_nat (length body) \<noteq> am_stored_byte_count artifact
               \<or> am_stored_digest artifact \<noteq> Some (x_digest X body)
            then Inl (Corrupt (Msg ''response artifact body does not match metadata''))
            else (case from_utf8 body of
              None \<Rightarrow> Inl (Corrupt (Msg ''response artifact is not UTF-8''))
            | Some t \<Rightarrow> Inr t))))"

section \<open>Retention\<close>

record run_retention_reserve =
  rv_records :: nat
  rv_bytes :: u64

definition retention_key :: "run_record \<Rightarrow> i64 \<times> stable_run_id" where
  "retention_key run = (run_created_at run, run_run_id run)"

definition run_pane :: "run_record \<Rightarrow> pane_key" where
  "run_pane run = pane_key_of (ab_pane_instance (run_binding run))"

definition group_by_pane :: "run_record list \<Rightarrow> (pane_key \<times> run_record list) list" where
  "group_by_pane runs = foldl (\<lambda>m run. bm_insert (run_pane run)
     ((case bm_get m (run_pane run) of None \<Rightarrow> [] | Some rs \<Rightarrow> rs) @ [run]) m) [] runs"

definition retained_limit :: "run_record list \<Rightarrow> stable_run_id list \<Rightarrow> pane_key option \<Rightarrow> pane_key \<Rightarrow> nat" where
  "retained_limit runs protected incoming pane = RUN_RETENTION_PER_PANE -
     (if incoming = Some pane
         \<and> list_ex (\<lambda>run. run_pane run = pane \<and> run_run_id run \<in> set protected) runs then 1 else 0)"

definition pane_excess :: "run_record list \<Rightarrow> stable_run_id list \<Rightarrow> pane_key option \<Rightarrow>
    pane_key \<times> run_record list \<Rightarrow> stable_run_id list" where
  "pane_excess runs protected incoming entry =
    (let pane_runs = sort_key retention_key (snd entry)
     in map run_run_id
       (take (length pane_runs - retained_limit runs protected incoming (fst entry)) pane_runs))"

text \<open>What the accounting of bytes loses with a removed run.\<close>

definition without_run :: "externals \<Rightarrow> agent_store \<Rightarrow> u64 \<Rightarrow> run_record \<Rightarrow> agent_store_error + u64" where
  "without_run X s bytes run = bind_r (existing_file_size X Runs (run_file (run_run_id run)) s) (\<lambda>n.
     Inr (saturating_sub bytes (case n of None \<Rightarrow> 0 | Some v \<Rightarrow> v)))"

fun remove_for_reserve :: "externals \<Rightarrow> agent_store \<Rightarrow> nat \<Rightarrow> u64 \<Rightarrow> run_record list \<Rightarrow>
    stable_run_id list \<times> nat \<times> u64 \<Rightarrow> agent_store_error + (stable_run_id list \<times> nat \<times> u64)" where
  "remove_for_reserve X s target_records target_bytes [] acc = Inr acc"
| "remove_for_reserve X s target_records target_bytes (run # runs) (ids, records, bytes) =
    (if records \<le> target_records \<and> bytes \<le> target_bytes then Inr (ids, records, bytes)
     else if run_run_id run \<in> set ids
     then remove_for_reserve X s target_records target_bytes runs (ids, records, bytes)
     else bind_r (without_run X s bytes run) (\<lambda>bytes'.
       remove_for_reserve X s target_records target_bytes runs
         (bs_insert (run_run_id run) ids, records - 1, bytes')))"

text \<open>The runs that retention removes, from the list of all runs.\<close>

definition retention_victims :: "externals \<Rightarrow> i64 \<Rightarrow> stable_run_id list \<Rightarrow> run_retention_reserve \<Rightarrow>
    pane_key option \<Rightarrow> agent_store \<Rightarrow> run_record list \<Rightarrow> agent_store_error + stable_run_id list" where
  "retention_victims X now protected reserve incoming s runs =
    (let removable = sort_key retention_key
           (filter (\<lambda>run. \<not> execution_active run \<and> run_run_id run \<notin> set protected) runs);
         cutoff = saturating_sub_i64 now RUN_RETENTION_SECONDS;
         expired = bs_of_list (map run_run_id (filter (\<lambda>run. run_created_at run < cutoff) removable));
         by_pane = group_by_pane (filter (\<lambda>run. run_run_id run \<notin> set expired) removable);
         ids = foldl (\<lambda>ids entry. bs_extend ids (pane_excess runs protected incoming entry)) expired by_pane;
         target_records = RUN_STORE_MAX_RECORDS - rv_records reserve;
         target_bytes = saturating_sub RUN_STORE_MAX_BYTES (rv_bytes reserve)
     in bind_r (fold_r (without_run X s) (rc_bytes (as_run_capacity s))
          (filter (\<lambda>run. run_run_id run \<in> set ids) runs)) (\<lambda>bytes.
        bind_r (remove_for_reserve X s target_records target_bytes removable
          (ids, length runs - length ids, bytes)) (\<lambda>(ids, records, bytes).
        if records > target_records \<or> bytes > target_bytes
        then Inl (Capacity (Msg
          ''run store cannot satisfy retention reserve without protected records''))
        else Inr ids)))"

text \<open>What is to be removed is read first: the sizes, and the bodies of the runs.\<close>

definition removal_step :: "externals \<Rightarrow> agent_store \<Rightarrow> nat \<times> u64 \<times> str list \<Rightarrow> stable_run_id \<Rightarrow>
    agent_store_error + (nat \<times> u64 \<times> str list)" where
  "removal_step X s acc run_id = (case acc of (records, bytes, names) \<Rightarrow>
    bind_r (existing_file_size X Runs (run_file run_id) s) (\<lambda>size.
    bind_r (case size of None \<Rightarrow> Inr (records, bytes)
       | Some n \<Rightarrow> bind_r (checked_add (Corrupt (Msg ''run removal byte accounting overflow'')) bytes n)
           (\<lambda>bytes. Inr (records + 1, bytes))) (\<lambda>(records, bytes).
    bind_r (load_run X run_id s) (\<lambda>run.
      Inr (records, bytes, (case run of None \<Rightarrow> names | Some r \<Rightarrow> (case run_artifact r of None \<Rightarrow> names
        | Some artifact \<Rightarrow> (case am_file_name artifact of None \<Rightarrow> names | Some name \<Rightarrow> names @ [name]))))))))"

definition remove_runs_atomically :: "externals \<Rightarrow> stable_run_id list \<Rightarrow> unit store_op" where
  "remove_runs_atomically X run_ids =
    bind_s (asks (\<lambda>s. fold_r (removal_step X s) (0, 0, []) run_ids)) (\<lambda>(records, bytes, names).
    bind_s (remove_files_and_sync X Runs (map run_file run_ids)) (\<lambda>_.
    bind_s (modify_s (\<lambda>s. set_run_capacity \<lparr>rc_records = rc_records (as_run_capacity s) - records,
      rc_bytes = saturating_sub (rc_bytes (as_run_capacity s)) bytes\<rparr> s)) (\<lambda>_.
      remove_files_and_sync X Artifacts names)))"

definition collect_run_retention :: "externals \<Rightarrow> i64 \<Rightarrow> stable_run_id list \<Rightarrow> run_retention_reserve \<Rightarrow>
    pane_key option \<Rightarrow> stable_run_id list store_op" where
  "collect_run_retention X now protected_run_ids reserve incoming =
    (if now < 0 \<or> rv_records reserve > RUN_STORE_MAX_RECORDS \<or> rv_bytes reserve > RUN_STORE_MAX_BYTES
     then give (Inl (Invalid (Msg ''invalid run retention request'')))
     else let protected = bs_of_list (take (RUN_STORE_MAX_RECORDS + 1) protected_run_ids)
       in if length protected > RUN_STORE_MAX_RECORDS
       then give (Inl (Capacity (Msg ''run retention protection set exceeds limit'')))
       else bind_s (asks (\<lambda>s. bind_r (list_runs X s)
           (retention_victims X now protected reserve incoming s))) (\<lambda>victims.
         bind_s (remove_runs_atomically X victims) (\<lambda>_. give (Inr victims))))"

end
