(* ===== verification/AgentLifecycle.thy ===== *)
theory AgentLifecycle
  imports AgentBodies
begin

text \<open>
  The operations of \<open>src/src/agent_state/store.rs\<close> on the whole store: opening with the
  checks of every record and body, the removal of orphans, the reset to a new generation,
  the recovery of a store without valid metadata, and the usage report.
\<close>

definition META_MAX_BYTES :: nat where "META_MAX_BYTES = 4096"

definition PROMPT_DOMAIN :: "u8 list" where
  "PROMPT_DOMAIN = map of_nat (lit ''vde-tmux:prompt:v1'') @ [0]"

definition digest_decoded_prompt :: "externals \<Rightarrow> str \<Rightarrow> str" where
  "digest_decoded_prompt X prompt = x_digest X (PROMPT_DOMAIN @ utf8 prompt)"

section \<open>References to bodies\<close>

definition referenced_prompt :: "str list \<Rightarrow> operation_record \<Rightarrow> agent_store_error + str list" where
  "referenced_prompt names record' =
    (if prompt_staging_required record'
     then let names = bs_insert (prompt_file (op_operation_id record')) names
       in if length names > PROMPT_STORE_MAX_RECORDS
          then Inl (Corrupt (Msg ''prompt staging references exceed store limit'')) else Inr names
     else Inr names)"

definition artifact_name :: "run_record \<Rightarrow> str option" where
  "artifact_name run = (case run_artifact run of None \<Rightarrow> None | Some artifact \<Rightarrow> am_file_name artifact)"

definition cleanup_orphans :: "externals \<Rightarrow> unit store_op" where
  "cleanup_orphans X =
    bind_s (asks (for_each_operation X referenced_prompt [])) (\<lambda>prompts.
    bind_s (asks (list_runs X)) (\<lambda>runs.
    bind_s (cleanup_body_directory X Prompts prompts) (\<lambda>_.
    bind_s (cleanup_body_directory X Artifacts (bs_of_list (List.map_filter artifact_name runs))) (\<lambda>_.
    bind_s (cleanup_temporary_files X Runs) (\<lambda>_.
      cleanup_temporary_files X Operations)))))"

definition validate_canonical_records :: "externals \<Rightarrow> agent_store \<Rightarrow> agent_store_error + unit" where
  "validate_canonical_records X s =
    bind_r (list_runs X s) (\<lambda>_. for_each_operation X (\<lambda>_ _. Inr ()) () s)"

definition operation_prompt_check :: "externals \<Rightarrow> agent_store \<Rightarrow> unit \<Rightarrow> operation_record \<Rightarrow>
    agent_store_error + unit" where
  "operation_prompt_check X s u record' =
    (let i = op_operation_id record'; name = (\<lambda>t. lit ''operation '' @ i @ lit t) in
     if \<not> prompt_staging_required record' then Inr ()
     else bind_r (map_err (\<lambda>e. missing_reference_error e (name '' references invalid prompt staging''))
         (read_private_file X Prompts (prompt_file i) PROMPT_BODY_MAX_BYTES ''prompt staging'' s)) (\<lambda>body.
       case from_utf8 body of
         None \<Rightarrow> Inl (Corrupt (MsgValue '''' (name '' prompt staging is not UTF-8'')))
       | Some prompt \<Rightarrow>
           bind_r (map_err Corrupt (sha256_digest_parse (digest_decoded_prompt X prompt))) (\<lambda>digest.
           fail_if (digest \<noteq> op_prompt_digest record')
             (Corrupt (MsgValue '''' (name '' prompt staging digest mismatch''))))))"

definition run_artifact_file_check :: "externals \<Rightarrow> agent_store \<Rightarrow> unit \<Rightarrow> run_record \<Rightarrow>
    agent_store_error + unit" where
  "run_artifact_file_check X s u run =
    (let name = (\<lambda>t. lit ''run '' @ run_run_id run @ lit t) in
     case run_artifact run of None \<Rightarrow> Inr () | Some artifact \<Rightarrow>
    (case am_file_name artifact of None \<Rightarrow> Inr () | Some file_name \<Rightarrow>
      if file_name \<noteq> artifact_file_name (run_run_id run)
      then Inl (Corrupt (MsgValue '''' (name '' references a non-canonical response artifact'')))
      else bind_r (map_err (\<lambda>e. missing_reference_error e (name '' references an invalid response artifact''))
          (read_private_file X Artifacts file_name RESPONSE_ARTIFACT_BODY_MAX_BYTES ''response artifact'' s))
        (\<lambda>body. fail_if (of_nat (length body) \<noteq> am_stored_byte_count artifact
            \<or> am_stored_digest artifact \<noteq> Some (x_digest X body) \<or> from_utf8 body = None)
          (Corrupt (MsgValue '''' (name '' response artifact body does not match metadata''))))))"

definition validate_body_references :: "externals \<Rightarrow> agent_store \<Rightarrow> agent_store_error + unit" where
  "validate_body_references X s =
    bind_r (for_each_operation X (operation_prompt_check X s) () s) (\<lambda>_.
    bind_r (list_runs X s) (\<lambda>runs. fold_r (run_artifact_file_check X s) () runs))"

section \<open>The metadata file\<close>

definition meta_path :: "agent_store \<Rightarrow> str" where
  "meta_path s = path_join (as_root s) (lit ''state-meta.json'')"

definition read_meta :: "externals \<Rightarrow> agent_store \<Rightarrow> agent_store_error + state_meta" where
  "read_meta X s =
    bind_r (readable X ''inspect state metadata'' (meta_path s) s) (\<lambda>_.
    case as_meta_file s of
      None \<Rightarrow> Inl (io_error ''inspect state metadata'' (lit ''No such file or directory (os error 2)''))
    | Some bytes \<Rightarrow>
        if length bytes > META_MAX_BYTES
        then Inl (Corrupt (MsgValue ''state metadata '' (meta_path s @ lit '' exceeds size limit'')))
        else decode_file (x_decode_meta X) ''state metadata'' (meta_path s) bytes)"

definition write_meta :: "externals \<Rightarrow> state_meta \<Rightarrow> unit store_op" where
  "write_meta X meta s =
    (case encode_json (x_encode_meta X) META_MAX_BYTES ''state metadata'' meta of
       Inl e \<Rightarrow> (s, Inl e)
     | Inr bytes \<Rightarrow>
         let a = x_write X (as_calls s); s = next_call s
         in (case first_error
             [map_err (io_error ''inspect private state directory'') (wa_directory a),
              (case as_meta_file s of None \<Rightarrow> Inr () | Some _ \<Rightarrow>
                 map_err (\<lambda>e. Io (MsgValue ''insecure agent state file: '' e)) (wa_existing a)),
              map_err (\<lambda>e. Io (MsgValue ''obtain temporary file randomness: '' e)) (wa_random a),
              map_err (io_error ''create temporary state file'') (wa_create a),
              map_err (io_error ''write temporary state file'') (wa_write a),
              map_err (io_error ''sync temporary state file'') (wa_sync a),
              map_err (io_error ''replace state file'') (wa_rename a)] of
            Inl e \<Rightarrow> (s, Inl e)
          | Inr _ \<Rightarrow> (s\<lparr>as_meta_file := Some bytes\<rparr>,
              map_err (io_error ''sync state directory'') (wa_sync_directory a))))"

section \<open>Opening\<close>

record open_environment =
  oe_inspect :: "str + unit"
  oe_root_missing :: bool
  oe_directories :: "(str + unit) list" \<comment> \<open>the root and the four directories are private\<close>

definition private_directories :: "open_environment \<Rightarrow> agent_store_error + unit" where
  "private_directories env = first_error (map (map_err (\<lambda>e. Io (MsgValue '''' e))) (oe_directories env))"

definition open_meta :: "externals \<Rightarrow> open_environment \<Rightarrow> state_meta store_op" where
  "open_meta X env s =
    (case as_meta_file s of
       Some _ \<Rightarrow> (s, read_meta X s)
     | None \<Rightarrow>
         if \<not> oe_root_missing env then (s, Inl StateUninitialized)
         else bind_s (give (map_err Invalid (state_meta_new_ready (x_entropy X (as_calls s))))) (\<lambda>meta.
           bind_s (write_meta X meta) (\<lambda>_. give (Inr meta))) s)"

definition start_store :: "state_meta \<Rightarrow> agent_store \<Rightarrow> agent_store" where
  "start_store meta s = s\<lparr>as_meta := meta, as_run_capacity := \<lparr>rc_records = 0, rc_bytes = 0\<rparr>,
     as_operation_capacity := \<lparr>rc_records = 0, rc_bytes = 0\<rparr>\<rparr>"

definition open_or_initialize :: "externals \<Rightarrow> open_environment \<Rightarrow> unit store_op" where
  "open_or_initialize X env =
    bind_s (give (map_err (io_error ''inspect agent state root'') (oe_inspect env))) (\<lambda>_.
    bind_s (give (private_directories env)) (\<lambda>_.
    bind_s (open_meta X env) (\<lambda>meta.
    bind_s (give (map_err Corrupt (state_meta_validate meta))) (\<lambda>_.
    if sm_status meta \<noteq> Ready then give (Inl StateUninitialized)
    else bind_s (modify_s (start_store meta)) (\<lambda>_.
      bind_s (cleanup_temporary_files X Runs) (\<lambda>_.
      bind_s (cleanup_temporary_files X Operations) (\<lambda>_.
      bind_s (asks (validate_canonical_records X)) (\<lambda>_.
      bind_s (cleanup_orphans X) (\<lambda>_.
      bind_s (asks (validate_body_references X)) (\<lambda>_.
      bind_s (asks (region_capacity_of X Runs RUN_STORE_MAX_RECORDS ''run store'')) (\<lambda>runs.
      bind_s (modify_s (set_run_capacity runs)) (\<lambda>_.
      bind_s (asks (region_capacity_of X Operations OPERATION_STORE_MAX_RECORDS ''operation store'')) (\<lambda>operations.
        modify_s (set_operation_capacity operations))))))))))))))"

section \<open>Reset and recovery\<close>

definition refuse_in_flight :: "unit \<Rightarrow> operation_record \<Rightarrow> agent_store_error + unit" where
  "refuse_in_flight u record' = fail_if (in_flight record')
     (RecoveryNotAllowed (Msg ''offline reset requires no in-flight operations''))"

definition ensure_reset_quiescent :: "externals \<Rightarrow> agent_store \<Rightarrow> agent_store_error + unit" where
  "ensure_reset_quiescent X s =
    bind_r (list_runs X s) (\<lambda>runs.
    if list_ex execution_active runs
    then Inl (RecoveryNotAllowed (Msg ''offline reset requires no execution-active runs''))
    else for_each_operation X refuse_in_flight () s)"

definition clear_regions :: "externals \<Rightarrow> unit store_op" where
  "clear_regions X =
    bind_s (clear_directory_and_sync X Runs) (\<lambda>_.
    bind_s (clear_directory_and_sync X Operations) (\<lambda>_.
    bind_s (clear_directory_and_sync X Prompts) (\<lambda>_.
      clear_directory_and_sync X Artifacts)))"

definition begin_reset :: "externals \<Rightarrow> state_generation \<Rightarrow> state_meta \<Rightarrow> state_meta store_op" where
  "begin_reset X expected meta =
    (case sm_status meta of
       Ready \<Rightarrow>
         if sm_generation meta \<noteq> expected
         then give (Inl (StalePrecondition (Msg ''state generation does not match reset precondition'')))
         else bind_s (modify_s (start_store meta)) (\<lambda>_.
           bind_s (asks (ensure_reset_quiescent X)) (\<lambda>_.
           bind_s (asks (\<lambda>s. map_err Invalid (random_hex_128 (x_entropy X (as_calls s))))) (\<lambda>target.
           bind_s (give (map_err Invalid (state_meta_resetting (sm_generation meta) target))) (\<lambda>meta.
           bind_s (write_meta X meta) (\<lambda>_. give (Inr meta))))))
     | Resetting \<Rightarrow>
         if sm_generation meta = expected then give (Inr meta)
         else give (Inl (StalePrecondition (Msg ''reset marker generation does not match reset precondition''))))"

definition reset_offline :: "externals \<Rightarrow> open_environment \<Rightarrow> state_generation \<Rightarrow> state_generation store_op" where
  "reset_offline X env expected =
    bind_s (give (private_directories env)) (\<lambda>_.
    bind_s (asks (read_meta X)) (\<lambda>meta.
    bind_s (give (map_err Corrupt (state_meta_validate meta))) (\<lambda>_.
    bind_s (begin_reset X expected meta) (\<lambda>meta.
    case sm_target_generation meta of
      None \<Rightarrow> give (Inl (Corrupt (Msg ''reset target generation is absent'')))
    | Some target \<Rightarrow>
        bind_s (clear_regions X) (\<lambda>_.
        let ready = \<lparr>sm_state_format_version = sm_state_format_version meta, sm_status = Ready,
              sm_generation = target, sm_target_generation = None\<rparr>
        in bind_s (give (map_err Invalid (state_meta_validate ready))) (\<lambda>_.
           bind_s (write_meta X ready) (\<lambda>_. give (Inr target))))))))"

definition recovery_allowed :: "externals \<Rightarrow> agent_store \<Rightarrow> agent_store_error + unit" where
  "recovery_allowed X s =
    (case as_meta_file s of
       None \<Rightarrow> Inr ()
     | Some _ \<Rightarrow> (case read_meta X s of
         Inr meta \<Rightarrow> if is_ok (state_meta_validate meta)
           then Inl (RecoveryNotAllowed (Msg ''state metadata is valid; use generation-bound reset''))
           else Inr ()
       | Inl (Corrupt _) \<Rightarrow> Inr ()
       | Inl e \<Rightarrow> Inl e))"

definition recover_uninitialized_offline :: "externals \<Rightarrow> open_environment \<Rightarrow> state_generation store_op" where
  "recover_uninitialized_offline X env =
    bind_s (give (private_directories env)) (\<lambda>_.
    bind_s (asks (recovery_allowed X)) (\<lambda>_.
    bind_s (clear_regions X) (\<lambda>_.
    bind_s (asks (\<lambda>s. map_err Invalid (state_meta_new_ready (x_entropy X (as_calls s))))) (\<lambda>ready.
    bind_s (write_meta X ready) (\<lambda>_. give (Inr (sm_generation ready)))))))"

section \<open>Usage\<close>

record store_region_usage =
  ru_records :: nat
  ru_bytes :: u64
  ru_record_limit :: nat
  ru_byte_limit :: u64
  ru_oldest_retained_at :: "i64 option"

record agent_state_usage =
  us_generation :: state_generation
  us_state_format_version :: u16
  us_runs :: store_region_usage
  us_operations :: store_region_usage
  us_prompts :: store_region_usage
  us_artifacts :: store_region_usage
  us_in_flight_operations :: nat

definition earliest_of :: "i64 list \<Rightarrow> i64 option" where
  "earliest_of ts = (case ts of [] \<Rightarrow> None | t # ts \<Rightarrow> Some (foldl min t ts))"

definition region_usage :: "externals \<Rightarrow> region \<Rightarrow> nat \<Rightarrow> u64 \<Rightarrow> string \<Rightarrow> i64 list \<Rightarrow> agent_store \<Rightarrow>
    agent_store_error + store_region_usage" where
  "region_usage X r record_limit byte_limit label' observed s =
    bind_r (directory_usage X r record_limit label' s) (\<lambda>(records, bytes).
      Inr \<lparr>ru_records = records, ru_bytes = bytes, ru_record_limit = record_limit,
        ru_byte_limit = byte_limit, ru_oldest_retained_at = earliest_of observed\<rparr>)"

definition count_operation :: "i64 option \<times> nat \<Rightarrow> operation_record \<Rightarrow>
    agent_store_error + (i64 option \<times> nat)" where
  "count_operation acc record' = Inr
    (Some (case fst acc of None \<Rightarrow> op_created_at record' | Some t \<Rightarrow> min t (op_created_at record')),
     snd acc + (if in_flight record' then 1 else 0))"

definition usage :: "externals \<Rightarrow> agent_store \<Rightarrow> agent_store_error + agent_state_usage" where
  "usage X s =
    bind_r (list_runs X s) (\<lambda>runs.
    bind_r (for_each_operation X count_operation (None, 0) s) (\<lambda>(oldest, flying).
    bind_r (region_usage X Runs RUN_STORE_MAX_RECORDS RUN_STORE_MAX_BYTES ''run store''
      (map run_created_at runs) s) (\<lambda>ru.
    bind_r (region_usage X Operations OPERATION_STORE_MAX_RECORDS OPERATION_STORE_MAX_BYTES
      ''operation store'' (case oldest of None \<Rightarrow> [] | Some t \<Rightarrow> [t]) s) (\<lambda>ou.
    bind_r (region_usage X Prompts PROMPT_STORE_MAX_RECORDS PROMPT_STORE_MAX_BYTES
      ''prompt staging store'' [] s) (\<lambda>pu.
    bind_r (region_usage X Artifacts ARTIFACT_STORE_MAX_FILES ARTIFACT_STORE_MAX_BYTES
      ''response artifact store''
      (List.map_filter (\<lambda>run. map_option am_observed_at (run_artifact run)) runs) s) (\<lambda>au.
    Inr \<lparr>us_generation = sm_generation (as_meta s),
      us_state_format_version = sm_state_format_version (as_meta s), us_runs = ru,
      us_operations = ou, us_prompts = pu, us_artifacts = au, us_in_flight_operations = flying\<rparr>))))))"

end
