(* ===== verification/AgentRuntime.thy ===== *)
theory AgentRuntime
  imports AgentLifecycle
begin

text \<open>
  The runtime over the durable store, \<open>src/src/agent_state/runtime.rs\<close>, first part: its
  indexes and the life of a dispatch operation, from the staged prompt over the started
  dispatch to the confirmation by a run, the settlement at the deadline, or the operator's
  abandonment. \<open>ag_in_flight\<close> is the fence: one unsettled operation per target.
\<close>

definition PROMPT_CONFIRMATION_TIMEOUT_SECONDS :: i64 where "PROMPT_CONFIRMATION_TIMEOUT_SECONDS = 10"
definition CAPACITY_ORIGIN :: str where "CAPACITY_ORIGIN = lit ''capacity_auto_resume''"

record dispatch_input_evidence =
  di_binding :: operation_binding
  di_digest :: sha256_digest
  di_automatic :: bool
  di_created_at :: i64

definition dispatch_input_from :: "operation_record \<Rightarrow> dispatch_input_evidence option" where
  "dispatch_input_from operation =
    (if op_dispatch_state operation = DispatchStarted \<or> op_dispatch_state operation = DeliveryUnknown
        \<or> op_dispatch_state operation = PromptConfirmed
     then Some \<lparr>di_binding = op_binding operation, di_digest = op_prompt_digest operation,
       di_automatic = (op_dispatch_option operation = CAPACITY_ORIGIN),
       di_created_at = op_created_at operation\<rparr>
     else None)"

record agent_runtime =
  ag_server_identity :: str
  ag_store :: agent_store
  ag_current_by_binding :: "(str \<times> stable_run_id) list"
  ag_current_by_pane :: "(pane_key \<times> stable_run_id) list"
  ag_turn_index :: "(str \<times> stable_run_id) list"
  ag_event_index :: "(str \<times> stable_run_id) list"
  ag_in_flight :: "(str \<times> operation_id) list"
  ag_dispatch_inputs :: "(str \<times> (operation_id \<times> dispatch_input_evidence) list) list"

type_synonym 'a runtime_op = "(agent_runtime, agent_store_error, 'a) op"

definition put_store :: "agent_store \<Rightarrow> agent_runtime \<Rightarrow> agent_runtime" where
  "put_store s rt = rt\<lparr>ag_store := s\<rparr>"

definition on_store :: "'a store_op \<Rightarrow> 'a runtime_op" where
  "on_store m = within ag_store put_store m"

definition ask_store :: "(agent_store \<Rightarrow> agent_store_error + 'a) \<Rightarrow> 'a runtime_op" where
  "ask_store f = asks (\<lambda>rt. f (ag_store rt))"

section \<open>Keys\<close>

text \<open>\<open>u64::to_be_bytes\<close> of the length, then the field.\<close>

definition be_bytes :: "u64 \<Rightarrow> u8 list" where
  "be_bytes n = map (\<lambda>i. of_nat (unat n div 256 ^ (7 - i) mod 256)) [0..<8]"

definition framed_field :: "u8 list \<Rightarrow> u8 list" where
  "framed_field bytes = be_bytes (of_nat (length bytes)) @ bytes"

definition framed_bytes :: "str list \<Rightarrow> u8 list" where
  "framed_bytes texts = concat (map (\<lambda>t. framed_field (utf8 t)) texts)"

definition hex_value :: "nat \<Rightarrow> nat" where
  "hex_value c = (if c < 97 then c - 48 else c - 87)"

text \<open>\<open>finalize()\<close> gives the bytes that the hexadecimal digest writes out.\<close>

fun unhex :: "str \<Rightarrow> u8 list" where
  "unhex (a # b # cs) = of_nat (hex_value a * 16 + hex_value b) # unhex cs"
| "unhex _ = []"

definition request_fingerprint :: "externals \<Rightarrow> str \<Rightarrow> sha256_digest \<Rightarrow> str \<Rightarrow> sha256_digest" where
  "request_fingerprint X target_agent_ref prompt_digest dispatch_option =
    x_digest X (unhex (x_digest X (framed_bytes
      [lit ''vde-tmux:agent-operation-request:v1'', target_agent_ref, prompt_digest, dispatch_option])))"

definition binding_key :: "externals \<Rightarrow> agent_binding \<Rightarrow> agent_store_error + str" where
  "binding_key X binding =
    bind_r (map_err (\<lambda>e. Invalid (MsgValue ''failed to encode Agent Binding: '' e))
      (x_encode_binding X binding)) (\<lambda>encoded. Inr (x_digest X encoded))"

definition target_of :: "operation_binding \<Rightarrow> dispatch_target" where
  "target_of b = (ob_server_identity b, ob_pane_instance b, ob_pane_state_id b, ob_agent_kind b, ob_process b)"

definition operation_target_key :: "externals \<Rightarrow> operation_binding \<Rightarrow> agent_store_error + str" where
  "operation_target_key X binding =
    bind_r (map_err (\<lambda>e. Invalid (MsgValue ''failed to encode operation dispatch target: '' e))
      (x_encode_target X (target_of binding))) (\<lambda>encoded. Inr (x_digest X encoded))"

definition operation_target_key_for_agent :: "externals \<Rightarrow> agent_binding \<Rightarrow> agent_store_error + str" where
  "operation_target_key_for_agent X binding = operation_target_key X (operation_binding_from binding)"

definition turn_index_key :: "externals \<Rightarrow> provider_observation \<Rightarrow> str \<Rightarrow> str" where
  "turn_index_key X ob turn_key = x_digest X (framed_bytes [obs_provider ob, obs_session_id ob, turn_key])"

definition turn_index_key_for_binding :: "externals \<Rightarrow> agent_binding \<Rightarrow> str \<Rightarrow> str" where
  "turn_index_key_for_binding X b turn_key =
    x_digest X (framed_bytes [ab_agent_kind b, ab_provider_session_id b, turn_key])"

definition operation_binding_matches_agent :: "operation_binding \<Rightarrow> agent_binding \<Rightarrow> bool" where
  "operation_binding_matches_agent operation agent \<longleftrightarrow>
     ob_server_identity operation = ab_server_identity agent
     \<and> ob_pane_instance operation = ab_pane_instance agent
     \<and> ob_pane_state_id operation = ab_pane_state_id agent
     \<and> (if ob_agent_epoch operation = ab_agent_epoch agent
        then (case ob_provider_session_id operation of None \<Rightarrow> True
          | Some session \<Rightarrow> session = ab_provider_session_id agent)
        else is_codex (ob_agent_kind operation)
          \<and> checked_inc () (ob_agent_epoch operation) = Inr (ab_agent_epoch agent))
     \<and> ob_agent_kind operation = ab_agent_kind agent
     \<and> ob_process operation = ab_process agent"

definition operation_run_sequence_matches_agent :: "operation_record \<Rightarrow> agent_binding \<Rightarrow> u64 \<Rightarrow> bool" where
  "operation_run_sequence_matches_agent operation agent run_seq \<longleftrightarrow>
    (if ob_agent_epoch (op_binding operation) = ab_agent_epoch agent
     then op_expected_run_seq operation = run_seq
     else is_codex (ob_agent_kind (op_binding operation))
       \<and> checked_inc () (ob_agent_epoch (op_binding operation)) = Inr (ab_agent_epoch agent)
       \<and> run_seq = 1)"

section \<open>Records that must be there\<close>

definition required_run :: "externals \<Rightarrow> stable_run_id \<Rightarrow> agent_store \<Rightarrow> agent_store_error + run_record" where
  "required_run X run_id s = bind_r (load_run X run_id s) (\<lambda>r. case r of
      None \<Rightarrow> Inl (RunNotFound (MsgValue ''run '' (run_id @ lit '' was not found'')))
    | Some record' \<Rightarrow> Inr record')"

definition required_operation :: "externals \<Rightarrow> operation_id \<Rightarrow> agent_store \<Rightarrow>
    agent_store_error + operation_record" where
  "required_operation X i s = bind_r (load_operation X i s) (\<lambda>r. case r of
      None \<Rightarrow> Inl (OperationNotFound (MsgValue ''operation '' (i @ lit '' was not found'')))
    | Some record' \<Rightarrow> Inr record')"

definition validate_run_ref :: "run_ref \<Rightarrow> agent_runtime \<Rightarrow> agent_store_error + unit" where
  "validate_run_ref reference rt =
    fail_if (ref_server_identity reference \<noteq> ag_server_identity rt
        \<or> ref_generation reference \<noteq> sm_generation (as_meta (ag_store rt)))
      (RunGenerationReplaced (Msg ''run reference belongs to another server generation''))"

definition validate_operation_ref :: "operation_ref \<Rightarrow> agent_runtime \<Rightarrow> agent_store_error + unit" where
  "validate_operation_ref reference rt =
    fail_if (oref_server_identity reference \<noteq> ag_server_identity rt
        \<or> oref_generation reference \<noteq> sm_generation (as_meta (ag_store rt)))
      (OperationGenerationReplaced (Msg ''operation reference belongs to another server generation''))"

definition advance_operation_revision :: "operation_record \<Rightarrow> i64 \<Rightarrow>
    agent_store_error + operation_record" where
  "advance_operation_revision operation observed_at =
    bind_r (checked_inc (Invalid (Msg ''operation revision overflow'')) (op_revision operation)) (\<lambda>n.
      Inr (operation\<lparr>op_revision := n, op_updated_at := max (op_updated_at operation) observed_at\<rparr>))"

section \<open>The fence and the dispatched inputs\<close>

definition fence :: "str \<Rightarrow> operation_id \<Rightarrow> agent_runtime \<Rightarrow> agent_runtime" where
  "fence key i rt = rt\<lparr>ag_in_flight := bm_insert key i (ag_in_flight rt)\<rparr>"

definition unfence :: "str \<Rightarrow> operation_id \<Rightarrow> agent_runtime \<Rightarrow> agent_runtime" where
  "unfence key i rt =
    (if bm_get (ag_in_flight rt) key = Some i
     then rt\<lparr>ag_in_flight := bm_remove key (ag_in_flight rt)\<rparr> else rt)"

definition release_dispatch_fence :: "externals \<Rightarrow> operation_record \<Rightarrow> unit runtime_op" where
  "release_dispatch_fence X operation =
    bind_s (give (operation_target_key X (op_binding operation))) (\<lambda>key.
      modify_s (unfence key (op_operation_id operation)))"

definition note_input :: "str \<Rightarrow> operation_record \<Rightarrow> agent_runtime \<Rightarrow> agent_runtime" where
  "note_input key operation rt =
    (let inputs = (case bm_get (ag_dispatch_inputs rt) key of None \<Rightarrow> [] | Some m \<Rightarrow> m) in
     case dispatch_input_from operation of
       Some input \<Rightarrow> rt\<lparr>ag_dispatch_inputs :=
         bm_insert key (bm_insert (op_operation_id operation) input inputs) (ag_dispatch_inputs rt)\<rparr>
     | None \<Rightarrow>
         if bm_get (ag_dispatch_inputs rt) key = None then rt
         else let left = bm_remove (op_operation_id operation) inputs
           in rt\<lparr>ag_dispatch_inputs := (if left = [] then bm_remove key (ag_dispatch_inputs rt)
                else bm_insert key left (ag_dispatch_inputs rt))\<rparr>)"

definition index_dispatch_input :: "externals \<Rightarrow> operation_record \<Rightarrow> unit runtime_op" where
  "index_dispatch_input X operation =
    bind_s (give (operation_target_key X (op_binding operation))) (\<lambda>key.
      modify_s (note_input key operation))"

definition matches_dispatch_input :: "externals \<Rightarrow> agent_binding \<Rightarrow> provider_observation \<Rightarrow> bool \<Rightarrow>
    agent_runtime \<Rightarrow> agent_store_error + bool" where
  "matches_dispatch_input X binding ob automatic_only rt =
    (if obs_hook_kind ob \<noteq> HookUserPromptSubmit then Inr False
     else bind_r (operation_target_key_for_agent X binding) (\<lambda>key. Inr
       (case bm_get (ag_dispatch_inputs rt) key of None \<Rightarrow> False | Some inputs \<Rightarrow>
         list_ex (\<lambda>input. (\<not> automatic_only \<or> di_automatic input)
             \<and> operation_binding_matches_agent (di_binding input) binding
             \<and> obs_prompt_digest ob = Some (di_digest input)
             \<and> obs_observed_at ob \<ge> di_created_at input) (map snd inputs))))"

section \<open>Preparing and dispatching\<close>

datatype prepare_operation_result = Existing operation_record | Created operation_record

definition lookup_operation_request :: "externals \<Rightarrow> operation_id \<Rightarrow> sha256_digest \<Rightarrow> agent_store \<Rightarrow>
    agent_store_error + operation_record option" where
  "lookup_operation_request X i fingerprint' s =
    bind_r (load_operation X i s) (\<lambda>r. case r of
      None \<Rightarrow> Inr None
    | Some existing \<Rightarrow>
        if op_request_fingerprint existing \<noteq> fingerprint'
        then Inl (OperationConflict (MsgValue ''operation ID ''
          (i @ lit '' was reused with another request'')))
        else Inr (Some existing))"

record operation_request =
  oq_operation_id :: operation_id
  oq_target_agent_ref :: str
  oq_prompt :: "u8 list"
  oq_prompt_digest :: sha256_digest
  oq_dispatch_option :: str
  oq_binding :: operation_binding
  oq_expected_pane_version :: state_version
  oq_expected_current_run :: "current_durable_run_projection option"
  oq_expected_run_seq :: u64
  oq_observed_at :: i64

definition check_prompt_digest :: "externals \<Rightarrow> operation_request \<Rightarrow> agent_store_error + unit" where
  "check_prompt_digest X q = (case from_utf8 (oq_prompt q) of
      None \<Rightarrow> Inl (Invalid (Msg ''prompt staging must be UTF-8''))
    | Some decoded \<Rightarrow>
        bind_r (map_err Invalid (sha256_digest_parse (digest_decoded_prompt X decoded))) (\<lambda>expected.
          fail_if (oq_prompt_digest q \<noteq> expected) (Invalid
            (Msg ''prompt staging does not match the domain-separated prompt digest''))))"

definition requested_fingerprint :: "externals \<Rightarrow> operation_request \<Rightarrow> sha256_digest" where
  "requested_fingerprint X q =
    request_fingerprint X (oq_target_agent_ref q) (oq_prompt_digest q) (oq_dispatch_option q)"

definition prepared_record :: "externals \<Rightarrow> operation_request \<Rightarrow> agent_store \<Rightarrow>
    agent_store_error + operation_record" where
  "prepared_record X q s =
    (let deadline = oq_observed_at q + PROMPT_CONFIRMATION_TIMEOUT_SECONDS in
     if deadline > i64_max then Inl (Invalid (Msg ''operation confirmation deadline overflow''))
     else Inr \<lparr>op_state_format_version = PRIVATE_STATE_FORMAT_VERSION,
       op_generation = sm_generation (as_meta s), op_operation_id = oq_operation_id q, op_revision = 1,
       op_request_fingerprint = requested_fingerprint X q,
       op_target_agent_ref = oq_target_agent_ref q, op_prompt_digest = oq_prompt_digest q,
       op_dispatch_option = oq_dispatch_option q, op_binding = oq_binding q,
       op_expected_pane_version = oq_expected_pane_version q,
       op_expected_current_run = oq_expected_current_run q, op_expected_run_seq = oq_expected_run_seq q,
       op_confirmation_deadline_at = deadline, op_dispatch_state = Prepared, op_run_id = None,
       op_result_receipt = None, op_created_at = oq_observed_at q, op_updated_at = oq_observed_at q\<rparr>)"

fun full_store_error :: "agent_store_error \<Rightarrow> agent_store_error" where
  "full_store_error (Capacity m) = OperationStoreFull m"
| "full_store_error e = e"

definition prepare_operation :: "externals \<Rightarrow> operation_request \<Rightarrow> prepare_operation_result runtime_op" where
  "prepare_operation X q =
    bind_s (give (check_prompt_digest X q)) (\<lambda>_.
    bind_s (ask_store (lookup_operation_request X (oq_operation_id q) (requested_fingerprint X q))) (\<lambda>existing.
    case existing of Some record' \<Rightarrow> give (Inr (Existing record')) | None \<Rightarrow>
    bind_s (give (operation_target_key X (oq_binding q))) (\<lambda>key.
    bind_s (asks (\<lambda>rt. fail_if (bm_get (ag_in_flight rt) key \<noteq> None) (PromptDispatchBusy (Msg
      ''another dispatch operation is active or delivery-ambiguous for this Agent Binding'')))) (\<lambda>_.
    bind_s (catch_s (on_store (stage_prompt X (oq_operation_id q) (oq_prompt q)))
      (\<lambda>e. give (Inl (full_store_error e)))) (\<lambda>_.
    bind_s (ask_store (prepared_record X q)) (\<lambda>record'.
    bind_s (catch_s (on_store (save_operation X record')) (\<lambda>e.
      bind_s (attempt_s (on_store (delete_prompt X (oq_operation_id q)))) (\<lambda>_.
        give (Inl (full_store_error e))))) (\<lambda>_.
    bind_s (modify_s (fence key (oq_operation_id q))) (\<lambda>_.
      give (Inr (Created record'))))))))))"

definition mark_dispatch_started :: "externals \<Rightarrow> operation_id \<Rightarrow> i64 \<Rightarrow> operation_record runtime_op" where
  "mark_dispatch_started X i observed_at =
    bind_s (ask_store (required_operation X i)) (\<lambda>record'.
    if op_dispatch_state record' \<noteq> Prepared then give (Inr record')
    else bind_s (give (advance_operation_revision (record'\<lparr>op_dispatch_state := DispatchStarted\<rparr>)
        observed_at)) (\<lambda>record'.
      bind_s (on_store (save_operation X record')) (\<lambda>_.
      bind_s (index_dispatch_input X record') (\<lambda>_. give (Inr record')))))"

section \<open>Settling and abandoning\<close>

definition settlement_allowed :: "dispatch_state \<Rightarrow> dispatch_state \<Rightarrow> bool" where
  "settlement_allowed old new \<longleftrightarrow> (old = Prepared \<and> new = Rejected)
     \<or> (old = DispatchStarted \<and> (new = DeliveryUnknown \<or> new = Rejected))"

fun dispatch_state_debug :: "dispatch_state \<Rightarrow> string" where
  "dispatch_state_debug Prepared = ''Prepared''"
| "dispatch_state_debug DispatchStarted = ''DispatchStarted''"
| "dispatch_state_debug PromptConfirmed = ''PromptConfirmed''"
| "dispatch_state_debug DeliveryUnknown = ''DeliveryUnknown''"
| "dispatch_state_debug Rejected = ''Rejected''"

definition settled_record :: "operation_record \<Rightarrow> dispatch_state \<Rightarrow> str \<Rightarrow> i64 \<Rightarrow>
    agent_store_error + operation_record" where
  "settled_record operation state code observed_at = advance_operation_revision
     (operation\<lparr>op_dispatch_state := state, op_result_receipt := Some \<lparr>or_code = code,
        or_observed_at = observed_at, or_confirmation_basis = None, or_source_attribution = None\<rparr>\<rparr>)
     observed_at"

definition settle_dispatch :: "externals \<Rightarrow> operation_id \<Rightarrow> dispatch_state \<Rightarrow> str \<Rightarrow> i64 \<Rightarrow>
    operation_record runtime_op" where
  "settle_dispatch X i state code observed_at =
    (if state \<noteq> DeliveryUnknown \<and> state \<noteq> Rejected
     then give (Inl (Invalid (Msg ''dispatch settlement must be delivery_unknown or rejected'')))
     else bind_s (ask_store (required_operation X i)) (\<lambda>record'.
       if op_dispatch_state record' = state
       then bind_s (if state = Rejected then release_dispatch_fence X record' else give (Inr ())) (\<lambda>_.
         bind_s (on_store (delete_prompt X i)) (\<lambda>_. give (Inr record')))
       else if \<not> settlement_allowed (op_dispatch_state record') state
       then give (Inl (OperationConflict (Msg (''cannot settle operation from ''
         @ dispatch_state_debug (op_dispatch_state record') @ '' to '' @ dispatch_state_debug state))))
       else bind_s (give (settled_record record' state code observed_at)) (\<lambda>record'.
         bind_s (on_store (save_operation X record')) (\<lambda>_.
         bind_s (index_dispatch_input X record') (\<lambda>_.
         bind_s (if state = Rejected then release_dispatch_fence X record'
           else bind_s (give (operation_target_key X (op_binding record'))) (\<lambda>key. modify_s (fence key i)))
           (\<lambda>_.
         bind_s (on_store (delete_prompt X i)) (\<lambda>_. give (Inr record'))))))))"

definition reject_prepared_retry_if_expired :: "externals \<Rightarrow> operation_id \<Rightarrow> i64 \<Rightarrow>
    operation_record option runtime_op" where
  "reject_prepared_retry_if_expired X i observed_at =
    bind_s (ask_store (required_operation X i)) (\<lambda>record'.
    if op_dispatch_state record' \<noteq> Prepared \<or> op_confirmation_deadline_at record' > observed_at
    then give (Inr None)
    else bind_s (settle_dispatch X i Rejected (lit ''prepared_dispatch_timeout'') observed_at)
      (\<lambda>settled. give (Inr (Some settled))))"

definition abandoned_again :: "operation_record \<Rightarrow> u64 \<Rightarrow> operation_result_receipt \<Rightarrow> bool" where
  "abandoned_again operation expected_revision receipt \<longleftrightarrow>
     checked_inc () expected_revision = Inr (op_revision operation)
     \<and> (case op_result_receipt operation of None \<Rightarrow> False
        | Some existing \<Rightarrow> or_source_attribution existing = or_source_attribution receipt)"

definition abandon_operation :: "externals \<Rightarrow> operation_ref \<Rightarrow> u64 \<Rightarrow> str \<Rightarrow> i64 \<Rightarrow>
    operation_record runtime_op" where
  "abandon_operation X reference expected_revision reason observed_at =
    bind_s (asks (validate_operation_ref reference)) (\<lambda>_.
    bind_s (give (map_err Invalid (operator_abandon reason observed_at))) (\<lambda>receipt.
    bind_s (ask_store (required_operation X (oref_operation_id reference))) (\<lambda>operation.
    if operator_abandoned operation
    then (if abandoned_again operation expected_revision receipt
      then bind_s (release_dispatch_fence X operation) (\<lambda>_.
        bind_s (on_store (delete_prompt X (op_operation_id operation))) (\<lambda>_. give (Inr operation)))
      else give (Inl (OperationConflict
        (Msg ''abandon retry does not match the original revision and reason''))))
    else if expected_revision = 0 \<or> op_revision operation \<noteq> expected_revision
    then give (Inl (StalePrecondition (Msg ''operation revision changed before abandon'')))
    else if op_dispatch_state operation \<noteq> DeliveryUnknown \<or> op_run_id operation \<noteq> None
    then give (Inl (OperationConflict
      (Msg ''only an unlinked delivery_unknown operation can be abandoned'')))
    else bind_s (ask_store (list_runs X)) (\<lambda>runs.
    if list_ex (\<lambda>run. run_operation_id run = Some (op_operation_id operation)) runs
    then give (Inl (OperationConflict (Msg
      ''operation already has a persisted linked run; retry confirmation before abandon'')))
    else bind_s (give (advance_operation_revision (operation\<lparr>op_result_receipt := Some receipt\<rparr>)
        observed_at)) (\<lambda>operation.
      bind_s (on_store (save_operation X operation)) (\<lambda>_.
      bind_s (release_dispatch_fence X operation) (\<lambda>_.
      bind_s (on_store (delete_prompt X (op_operation_id operation))) (\<lambda>_.
        give (Inr operation)))))))))"

section \<open>Deadlines\<close>

definition flying_operations :: "externals \<Rightarrow> agent_runtime \<Rightarrow> agent_store_error + operation_record list" where
  "flying_operations X rt = fold_r (\<lambda>acc i. bind_r (required_operation X i (ag_store rt)) (\<lambda>operation.
     Inr (acc @ [operation]))) [] (map snd (ag_in_flight rt))"

definition dispatch_expired :: "i64 \<Rightarrow> operation_record \<Rightarrow> bool" where
  "dispatch_expired observed_at operation \<longleftrightarrow>
     (op_dispatch_state operation = Prepared \<or> op_dispatch_state operation = DispatchStarted)
     \<and> op_confirmation_deadline_at operation \<le> observed_at"

definition settle_expired :: "externals \<Rightarrow> i64 \<Rightarrow> operation_record \<Rightarrow> operation_record runtime_op" where
  "settle_expired X observed_at operation =
    (if op_dispatch_state operation = Prepared
     then settle_dispatch X (op_operation_id operation) Rejected (lit ''prepared_dispatch_timeout'') observed_at
     else settle_dispatch X (op_operation_id operation) DeliveryUnknown
       (lit ''prompt_confirmation_timeout'') observed_at)"

definition settle_expired_dispatches :: "externals \<Rightarrow> i64 \<Rightarrow> operation_record list runtime_op" where
  "settle_expired_dispatches X observed_at =
    bind_s (asks (flying_operations X)) (\<lambda>operations.
      each_s (settle_expired X observed_at) (filter (dispatch_expired observed_at) operations))"

text \<open>The two questions stop at the first operation that answers them.\<close>

fun any_operation :: "externals \<Rightarrow> (operation_record \<Rightarrow> bool) \<Rightarrow> agent_store \<Rightarrow> operation_id list \<Rightarrow>
    agent_store_error + bool" where
  "any_operation X p s [] = Inr False"
| "any_operation X p s (i # is) = bind_r (required_operation X i s) (\<lambda>operation.
     if p operation then Inr True else any_operation X p s is)"

definition has_in_flight_operations :: "externals \<Rightarrow> agent_runtime \<Rightarrow> agent_store_error + bool" where
  "has_in_flight_operations X rt = any_operation X in_flight (ag_store rt) (map snd (ag_in_flight rt))"

definition has_expired_dispatch :: "externals \<Rightarrow> i64 \<Rightarrow> agent_runtime \<Rightarrow> agent_store_error + bool" where
  "has_expired_dispatch X observed_at rt =
    any_operation X (dispatch_expired observed_at) (ag_store rt) (map snd (ag_in_flight rt))"

section \<open>Confirmation by a run\<close>

definition matching_operation :: "externals \<Rightarrow> agent_binding \<Rightarrow> u64 \<Rightarrow> provider_observation \<Rightarrow>
    agent_runtime \<Rightarrow> agent_store_error + operation_record option" where
  "matching_operation X binding run_seq ob rt = (case obs_prompt_digest ob of
      None \<Rightarrow> Inl (Invalid (Msg ''prompt digest is absent''))
    | Some prompt_digest \<Rightarrow>
        bind_r (operation_target_key_for_agent X binding) (\<lambda>key.
        case bm_get (ag_in_flight rt) key of
          None \<Rightarrow> Inr None
        | Some i \<Rightarrow> bind_r (required_operation X i (ag_store rt)) (\<lambda>operation.
            Inr (if operation_binding_matches_agent (op_binding operation) binding
                \<and> operation_run_sequence_matches_agent operation binding run_seq
                \<and> op_prompt_digest operation = prompt_digest
                \<and> obs_observed_at ob \<ge> op_updated_at operation
                \<and> (op_dispatch_state operation = DispatchStarted
                   \<or> op_dispatch_state operation = DeliveryUnknown)
              then Some operation else None))))"

definition rebind_operation :: "operation_record \<Rightarrow> run_record \<Rightarrow> agent_store_error + operation_record" where
  "rebind_operation operation run =
    (let confirmed = operation_binding_from (run_binding run) in
     if op_binding operation = confirmed then Inr operation
     else if \<not> operation_binding_matches_agent (op_binding operation) (run_binding run)
        \<or> \<not> operation_run_sequence_matches_agent operation (run_binding run) (run_run_seq run)
     then Inl (OperationConflict (Msg ''provider session rollover does not match the confirmed run binding''))
     else Inr (operation\<lparr>op_binding := confirmed, op_expected_pane_version :=
       \<lparr>sv_state_id = ab_pane_state_id (run_binding run), sv_agent_epoch = ab_agent_epoch (run_binding run),
        sv_revision = sv_revision (op_expected_pane_version operation)\<rparr>\<rparr>))"

definition confirmed_record :: "operation_record \<Rightarrow> run_record \<Rightarrow> i64 \<Rightarrow> agent_store_error + operation_record" where
  "confirmed_record operation run observed_at = advance_operation_revision
     (operation\<lparr>op_dispatch_state := PromptConfirmed, op_run_id := Some (run_run_id run),
       op_result_receipt := Some \<lparr>or_code = lit ''prompt_confirmed'', or_observed_at = observed_at,
         or_confirmation_basis = Some (if run_created_at run > op_confirmation_deadline_at operation
           then lit ''binding_sequence_digest'' else lit ''guarded_window_digest''),
         or_source_attribution = Some (lit ''non_exclusive'')\<rparr>\<rparr>) observed_at"

definition confirm_linked_operation :: "externals \<Rightarrow> run_record \<Rightarrow> i64 \<Rightarrow>
    operation_record option runtime_op" where
  "confirm_linked_operation X run observed_at = (case run_operation_id run of
      None \<Rightarrow> give (Inr None)
    | Some i \<Rightarrow> bind_s (ask_store (required_operation X i)) (\<lambda>operation.
        if op_dispatch_state operation = PromptConfirmed
        then (if op_run_id operation \<noteq> Some (run_run_id run)
          then give (Inl (Corrupt (Msg ''confirmed operation points to another run'')))
          else bind_s (release_dispatch_fence X operation) (\<lambda>_.
            bind_s (on_store (delete_prompt X i)) (\<lambda>_. give (Inr (Some operation)))))
        else if operator_abandoned operation \<or> (op_dispatch_state operation \<noteq> DispatchStarted
            \<and> op_dispatch_state operation \<noteq> DeliveryUnknown)
        then give (Inl (OperationConflict (Msg (''linked operation cannot be confirmed from ''
          @ dispatch_state_debug (op_dispatch_state operation)))))
        else bind_s (give (rebind_operation operation run)) (\<lambda>operation.
          bind_s (give (confirmed_record operation run observed_at)) (\<lambda>operation.
          bind_s (on_store (save_operation X operation)) (\<lambda>_.
          bind_s (index_dispatch_input X operation) (\<lambda>_.
          bind_s (release_dispatch_fence X operation) (\<lambda>_.
          bind_s (on_store (delete_prompt X i)) (\<lambda>_. give (Inr (Some operation))))))))))"

end
