(* ===== verification/AgentProvider.thy ===== *)
theory AgentProvider
  imports AgentRuntime
begin

text \<open>
  The runtime over the durable store, \<open>src/src/agent_state/runtime.rs\<close>, second part: the
  indexes of the runs, provider observations, the reconciliation with the observed processes
  and panes, capacity failures, the operator's completion of a run, and the restart.
\<close>

section \<open>Indexing a run\<close>

definition event_refs :: "run_record \<Rightarrow> str list" where
  "event_refs run = map pr_event_ref (re_provider_events (run_evidence run))"

definition drop_stale_events :: "run_record \<Rightarrow> agent_runtime \<Rightarrow> agent_runtime" where
  "drop_stale_events run rt = rt\<lparr>ag_event_index := filter (\<lambda>e. snd e \<noteq> run_run_id run
     \<or> fst e \<in> set (event_refs run)) (ag_event_index rt)\<rparr>"

definition replaces_current :: "externals \<Rightarrow> str \<Rightarrow> run_record \<Rightarrow> agent_runtime \<Rightarrow>
    agent_store_error + bool" where
  "replaces_current X key run rt = (case bm_get (ag_current_by_binding rt) key of
      None \<Rightarrow> Inr True
    | Some existing_id \<Rightarrow> bind_r (load_run X existing_id (ag_store rt)) (\<lambda>r. case r of
        None \<Rightarrow> Inr True
      | Some existing \<Rightarrow>
          if run_run_seq existing = run_run_seq run \<and> run_run_id existing \<noteq> run_run_id run
          then Inl (Corrupt (Msg (''Agent Binding has duplicate run sequence ''
            @ decimal (unat (run_run_seq run)))))
          else Inr (run_run_seq existing < run_run_seq run \<or> run_run_id existing = run_run_id run)))"

definition EVENT_INDEX_LIMIT :: nat where
  "EVENT_INDEX_LIMIT = RUN_STORE_MAX_RECORDS * RUN_EVENT_REFERENCE_MAX_COUNT"

definition belongs_to_other :: "(str \<times> stable_run_id) list \<Rightarrow> run_record \<Rightarrow> str \<Rightarrow> bool" where
  "belongs_to_other m run key = (case bm_get m key of None \<Rightarrow> False | Some i \<Rightarrow> i \<noteq> run_run_id run)"

definition check_references :: "externals \<Rightarrow> run_record \<Rightarrow> agent_runtime \<Rightarrow> agent_store_error + unit" where
  "check_references X run rt = first_error
    [fail_if (case run_provider_turn_key run of None \<Rightarrow> False
        | Some turn_key \<Rightarrow> belongs_to_other (ag_turn_index rt) run
            (turn_index_key_for_binding X (run_binding run) turn_key))
       (Corrupt (Msg ''provider turn key is attributed to multiple runs'')),
     fail_if (list_ex (belongs_to_other (ag_event_index rt) run) (event_refs run))
       (Corrupt (Msg ''provider event reference is attributed to multiple runs'')),
     fail_if (length (ag_event_index rt)
         + length (filter (\<lambda>e. bm_get (ag_event_index rt) e = None) (event_refs run)) > EVENT_INDEX_LIMIT)
       (Capacity (Msg (''provider event index exceeds the '' @ decimal EVENT_INDEX_LIMIT @ ''-entry limit'')))]"

definition pane_rank :: "run_record \<Rightarrow> u64 \<times> u64 \<times> i64 \<times> stable_run_id" where
  "pane_rank run = (ab_agent_epoch (run_binding run), run_run_seq run, run_updated_at run, run_run_id run)"

definition replaces_pane_current :: "externals \<Rightarrow> run_record \<Rightarrow> agent_runtime \<Rightarrow>
    agent_store_error + bool" where
  "replaces_pane_current X run rt = (case bm_get (ag_current_by_pane rt) (run_pane run) of
      None \<Rightarrow> Inr True
    | Some existing_id \<Rightarrow> bind_r (load_run X existing_id (ag_store rt)) (\<lambda>r. case r of
        None \<Rightarrow> Inr True | Some existing \<Rightarrow> Inr (pane_rank existing \<le> pane_rank run)))"

definition set_current_binding :: "str \<Rightarrow> run_record \<Rightarrow> agent_runtime \<Rightarrow> agent_runtime" where
  "set_current_binding key run rt =
    rt\<lparr>ag_current_by_binding := bm_insert key (run_run_id run) (ag_current_by_binding rt)\<rparr>"

definition set_current_pane :: "run_record \<Rightarrow> agent_runtime \<Rightarrow> agent_runtime" where
  "set_current_pane run rt =
    rt\<lparr>ag_current_by_pane := bm_insert (run_pane run) (run_run_id run) (ag_current_by_pane rt)\<rparr>"

definition set_current :: "externals \<Rightarrow> str \<Rightarrow> run_record \<Rightarrow> unit runtime_op" where
  "set_current X key run =
    bind_s (modify_s (set_current_binding key run)) (\<lambda>_.
    bind_s (asks (replaces_pane_current X run)) (\<lambda>replace.
      if replace then modify_s (set_current_pane run) else give (Inr ())))"

definition add_references :: "externals \<Rightarrow> run_record \<Rightarrow> agent_runtime \<Rightarrow> agent_runtime" where
  "add_references X run rt = rt\<lparr>
     ag_turn_index := (case run_provider_turn_key run of None \<Rightarrow> ag_turn_index rt
       | Some turn_key \<Rightarrow> bm_insert (turn_index_key_for_binding X (run_binding run) turn_key)
           (run_run_id run) (ag_turn_index rt)),
     ag_event_index := foldl (\<lambda>m e. bm_insert e (run_run_id run) m) (ag_event_index rt) (event_refs run)\<rparr>"

definition index_run :: "externals \<Rightarrow> run_record \<Rightarrow> unit runtime_op" where
  "index_run X run =
    bind_s (modify_s (drop_stale_events run)) (\<lambda>_.
    bind_s (give (binding_key X (run_binding run))) (\<lambda>key.
    bind_s (asks (replaces_current X key run)) (\<lambda>replace.
    bind_s (asks (check_references X run)) (\<lambda>_.
    bind_s (if replace then set_current X key run else give (Inr ())) (\<lambda>_.
      modify_s (add_references X run))))))"

section \<open>Runs that end without a result\<close>

definition end_phase :: "run_record \<Rightarrow> i64 \<Rightarrow> agent_store_error + run_record" where
  "end_phase run observed_at =
    bind_r (checked_inc (Invalid (Msg ''run revision overflow'')) (run_revision run)) (\<lambda>n.
      Inr (run\<lparr>run_execution_phase := PhaseEnded, run_revision := n,
        run_updated_at := max (run_updated_at run) observed_at\<rparr>))"

definition end_unresolved_run :: "externals \<Rightarrow> run_record \<Rightarrow> i64 \<Rightarrow> run_record runtime_op" where
  "end_unresolved_run X run observed_at =
    (if \<not> execution_active run then give (Inr run)
     else bind_s (give (end_phase run observed_at)) (\<lambda>run.
       bind_s (on_store (save_run X run)) (\<lambda>_.
       bind_s (index_run X run) (\<lambda>_. give (Inr run)))))"

definition unbind :: "str \<Rightarrow> run_record \<Rightarrow> agent_runtime \<Rightarrow> agent_runtime" where
  "unbind key run rt = rt\<lparr>
     ag_current_by_binding := (if bm_get (ag_current_by_binding rt) key = Some (run_run_id run)
       then bm_remove key (ag_current_by_binding rt) else ag_current_by_binding rt),
     ag_current_by_pane := (if bm_get (ag_current_by_pane rt) (run_pane run) = Some (run_run_id run)
       then bm_remove (run_pane run) (ag_current_by_pane rt) else ag_current_by_pane rt)\<rparr>"

definition remove_current_binding :: "externals \<Rightarrow> run_record \<Rightarrow> unit runtime_op" where
  "remove_current_binding X run =
    bind_s (give (binding_key X (run_binding run))) (\<lambda>key. modify_s (unbind key run))"

definition retire_replaced_bindings_for_pane :: "externals \<Rightarrow> agent_binding \<Rightarrow> i64 \<Rightarrow> unit runtime_op" where
  "retire_replaced_bindings_for_pane X binding observed_at =
    bind_s (asks (\<lambda>rt. case bm_get (ag_current_by_pane rt) (pane_key_of (ab_pane_instance binding)) of
        None \<Rightarrow> Inr None
      | Some run_id \<Rightarrow> bind_r (required_run X run_id (ag_store rt)) (\<lambda>run. Inr (Some run)))) (\<lambda>current.
    case current of None \<Rightarrow> give (Inr ()) | Some run \<Rightarrow>
      if run_binding run = binding then give (Inr ())
      else bind_s (end_unresolved_run X run observed_at) (\<lambda>run. remove_current_binding X run))"

definition forget_runs :: "stable_run_id list \<Rightarrow> agent_runtime \<Rightarrow> agent_runtime" where
  "forget_runs removed rt = rt\<lparr>
     ag_turn_index := filter (\<lambda>e. snd e \<notin> set removed) (ag_turn_index rt),
     ag_event_index := filter (\<lambda>e. snd e \<notin> set removed) (ag_event_index rt),
     ag_current_by_binding := filter (\<lambda>e. snd e \<notin> set removed) (ag_current_by_binding rt),
     ag_current_by_pane := filter (\<lambda>e. snd e \<notin> set removed) (ag_current_by_pane rt)\<rparr>"

definition collect_retention :: "externals \<Rightarrow> i64 \<Rightarrow> run_retention_reserve \<Rightarrow> pane_key option \<Rightarrow>
    unit runtime_op" where
  "collect_retention X observed_at reserve incoming =
    bind_s (asks (\<lambda>rt. Inr (map snd (ag_current_by_pane rt)))) (\<lambda>protected.
    bind_s (on_store (collect_run_retention X observed_at protected reserve incoming)) (\<lambda>removed.
    if removed = [] then give (Inr ())
    else bind_s (modify_s (forget_runs removed)) (\<lambda>_.
      asks (\<lambda>rt. fail_if (length (ag_event_index rt) > EVENT_INDEX_LIMIT)
        (Capacity (Msg ''provider event index exceeds the declared global bound''))))))"

section \<open>Provider observations\<close>

record provider_apply_result =
  pa_run :: "run_record option"
  pa_operation :: "operation_record option"
  pa_disposition :: apply_disposition
  pa_dispatched_prompt :: bool

definition provider_event_run :: "externals \<Rightarrow> provider_observation \<Rightarrow> agent_runtime \<Rightarrow>
    agent_store_error + run_record option" where
  "provider_event_run X ob rt = (case obs_provider_event_ref ob of
      None \<Rightarrow> Inr None
    | Some event_ref \<Rightarrow> (case bm_get (ag_event_index rt) event_ref of
        None \<Rightarrow> Inr None
      | Some run_id \<Rightarrow> bind_r (required_run X run_id (ag_store rt)) (\<lambda>run. Inr (Some run))))"

definition observe :: "externals \<Rightarrow> provider_observation \<Rightarrow> run_record \<Rightarrow>
    (run_record \<times> apply_disposition) runtime_op" where
  "observe X ob run = ask_store (\<lambda>s. map_err ProviderEventConflict
     (apply_observation (x_digest X) (x_evidence_len X) (x_resolution_entropy X (as_calls s)) run ob))"

text \<open>The branch of \<open>finish_provider_observation\<close> for a \<open>Stop\<close>.\<close>

definition store_stop_response :: "externals \<Rightarrow> provider_observation \<Rightarrow> run_record \<Rightarrow> unit runtime_op" where
  "store_stop_response X ob run = (case obs_response ob of
      Some response \<Rightarrow> bind_s (on_store (store_artifact_candidate X (run_run_id run) response
        (lit ''provider_hook'') (obs_observed_at ob))) (\<lambda>_. give (Inr ()))
    | None \<Rightarrow>
        if run_artifact run \<noteq> None then give (Inr ())
        else bind_s (give (map_err Invalid (artifact_metadata (x_digest X) run ob None))) (\<lambda>metadata.
          bind_s (give (checked_inc (Invalid (Msg ''run revision overflow'')) (run_revision run))) (\<lambda>n.
            on_store (save_run X (run\<lparr>run_artifact := Some metadata, run_revision := n\<rparr>)))))"

definition finish_provider_observation :: "externals \<Rightarrow> run_record \<Rightarrow> provider_observation \<Rightarrow>
    apply_disposition \<Rightarrow> provider_apply_result runtime_op" where
  "finish_provider_observation X run ob disposition =
    bind_s (confirm_linked_operation X run (obs_observed_at ob)) (\<lambda>confirmed.
    bind_s (if obs_hook_kind ob \<noteq> HookStop then give (Inr run)
      else bind_s (store_stop_response X ob run) (\<lambda>_.
        bind_s (ask_store (required_run X (run_run_id run))) (\<lambda>run.
        bind_s (index_run X run) (\<lambda>_. give (Inr run))))) (\<lambda>run.
    bind_s (case (confirmed, run_operation_id run) of
        (None, Some i) \<Rightarrow> bind_s (ask_store (required_operation X i)) (\<lambda>operation. give (Inr (Some operation)))
      | _ \<Rightarrow> give (Inr confirmed)) (\<lambda>operation.
    bind_s (asks (matches_dispatch_input X (run_binding run) ob False)) (\<lambda>dispatched.
      give (Inr \<lparr>pa_run = Some run, pa_operation = operation, pa_disposition = disposition,
        pa_dispatched_prompt = dispatched\<rparr>)))))"

definition apply_to_run :: "externals \<Rightarrow> provider_observation \<Rightarrow> stable_run_id \<Rightarrow> provider_apply_result runtime_op" where
  "apply_to_run X ob run_id =
    bind_s (ask_store (required_run X run_id)) (\<lambda>run.
    bind_s (observe X ob run) (\<lambda>(run, disposition).
    bind_s (on_store (save_run X run)) (\<lambda>_.
    bind_s (index_run X run) (\<lambda>_.
      finish_provider_observation X run ob disposition))))"

definition redeliver_to_run :: "externals \<Rightarrow> provider_observation \<Rightarrow> stable_run_id \<Rightarrow>
    provider_apply_result runtime_op" where
  "redeliver_to_run X ob run_id =
    bind_s (ask_store (required_run X run_id)) (\<lambda>run.
    bind_s (observe X ob run) (\<lambda>(run, disposition).
    bind_s (on_store (save_run X run)) (\<lambda>_.
      finish_provider_observation X run ob disposition)))"

definition apply_to_attributed_turn :: "externals \<Rightarrow> provider_observation \<Rightarrow> stable_run_id \<Rightarrow>
    provider_apply_result runtime_op" where
  "apply_to_attributed_turn X ob run_id =
    bind_s (ask_store (required_run X run_id)) (\<lambda>run.
    bind_s (observe X ob run) (\<lambda>(run, disposition).
    bind_s (on_store (save_run X run)) (\<lambda>_.
    bind_s (index_run X run) (\<lambda>_.
      finish_provider_observation X run ob
        (if execution_active run then disposition else EvidenceOnly)))))"

definition end_previous_run :: "externals \<Rightarrow> u64 \<Rightarrow> i64 \<Rightarrow> stable_run_id \<Rightarrow> unit runtime_op" where
  "end_previous_run X run_seq observed_at previous_id =
    bind_s (ask_store (required_run X previous_id)) (\<lambda>previous.
    if run_run_seq previous \<ge> run_seq
    then give (Inl (ProviderEventConflict (Msg (''run sequence '' @ decimal (unat run_seq)
      @ '' is already allocated for this Agent Binding''))))
    else if execution_active previous
    then bind_s (give (end_phase previous observed_at)) (\<lambda>previous. on_store (save_run X previous))
    else give (Inr ()))"

definition RUN_RESERVE :: run_retention_reserve where
  "RUN_RESERVE = \<lparr>rv_records = 1, rv_bytes = of_nat RUN_RECORD_MAX_BYTES\<rparr>"

definition start_run :: "externals \<Rightarrow> agent_binding \<Rightarrow> u64 \<Rightarrow> provider_observation \<Rightarrow>
    provider_apply_result runtime_op" where
  "start_run X binding run_seq ob =
    bind_s (if obs_hook_kind ob = HookUserPromptSubmit then asks (matching_operation X binding run_seq ob)
      else give (Inr None)) (\<lambda>operation.
    bind_s (collect_retention X (obs_observed_at ob) RUN_RESERVE
      (Some (pane_key_of (ab_pane_instance binding)))) (\<lambda>_.
    bind_s (ask_store (\<lambda>s. map_err Invalid (new_run_from_observation (x_digest X) (x_evidence_len X)
      (x_entropy X (as_calls s)) (x_resolution_entropy X (as_calls s)) (sm_generation (as_meta s))
      binding run_seq (map_option op_operation_id operation) ob))) (\<lambda>run.
    bind_s (on_store (save_run X run)) (\<lambda>_.
    bind_s (index_run X run) (\<lambda>_.
      finish_provider_observation X run ob Applied)))))"

definition indexed_event :: "provider_observation \<Rightarrow> agent_runtime \<Rightarrow> stable_run_id option" where
  "indexed_event ob rt = (case obs_provider_event_ref ob of
      None \<Rightarrow> None | Some event_ref \<Rightarrow> bm_get (ag_event_index rt) event_ref)"

definition attributed_turn :: "externals \<Rightarrow> agent_binding \<Rightarrow> provider_observation \<Rightarrow> agent_runtime \<Rightarrow>
    stable_run_id option" where
  "attributed_turn X binding ob rt = (case obs_provider_turn_key ob of
      None \<Rightarrow> None
    | Some turn_key \<Rightarrow> bm_get (ag_turn_index rt) (turn_index_key_for_binding X binding turn_key))"

definition start_or_attribute :: "externals \<Rightarrow> agent_binding \<Rightarrow> u64 \<Rightarrow> provider_observation \<Rightarrow> str \<Rightarrow>
    provider_apply_result runtime_op" where
  "start_or_attribute X binding run_seq ob key =
    bind_s (asks (\<lambda>rt. Inr (attributed_turn X binding ob rt))) (\<lambda>attributed.
    case attributed of Some run_id \<Rightarrow> apply_to_attributed_turn X ob run_id | None \<Rightarrow>
    bind_s (asks (\<lambda>rt. Inr (bm_get (ag_current_by_binding rt) key))) (\<lambda>previous.
    bind_s (case previous of None \<Rightarrow> give (Inr ())
      | Some previous_id \<Rightarrow> end_previous_run X run_seq (obs_observed_at ob) previous_id) (\<lambda>_.
      start_run X binding run_seq ob)))"

definition attributed_run :: "externals \<Rightarrow> provider_observation \<Rightarrow> str \<Rightarrow> agent_runtime \<Rightarrow>
    agent_store_error + stable_run_id" where
  "attributed_run X ob key rt = (case obs_provider_turn_key ob of
      Some turn_key \<Rightarrow> (case bm_get (ag_turn_index rt) (turn_index_key X ob turn_key) of
          Some run_id \<Rightarrow> Inr run_id
        | None \<Rightarrow> Inl (NotFound (Msg ''provider event could not be attributed to a retained run'')))
    | None \<Rightarrow> (case bm_get (ag_current_by_binding rt) key of
          Some run_id \<Rightarrow> Inr run_id
        | None \<Rightarrow> Inl (NotFound (Msg ''provider event has no unique execution-active run''))))"

definition apply_provider_observation :: "externals \<Rightarrow> agent_binding \<Rightarrow> u64 \<Rightarrow> provider_observation \<Rightarrow>
    provider_apply_result runtime_op" where
  "apply_provider_observation X binding run_seq ob =
    (if obs_hook_kind ob = HookSessionStart
     then give (Inr \<lparr>pa_run = None, pa_operation = None, pa_disposition = Applied,
       pa_dispatched_prompt = False\<rparr>)
     else bind_s (asks (\<lambda>rt. Inr (indexed_event ob rt))) (\<lambda>known.
       case known of Some run_id \<Rightarrow> redeliver_to_run X ob run_id | None \<Rightarrow>
       bind_s (retire_replaced_bindings_for_pane X binding (obs_observed_at ob)) (\<lambda>_.
       bind_s (give (binding_key X binding)) (\<lambda>key.
       if can_start_run ob then start_or_attribute X binding run_seq ob key
       else bind_s (asks (attributed_run X ob key)) (apply_to_run X ob)))))"

section \<open>Capacity failures\<close>

definition current_run_for_binding :: "externals \<Rightarrow> agent_binding \<Rightarrow> agent_runtime \<Rightarrow>
    agent_store_error + run_record option" where
  "current_run_for_binding X binding rt =
    bind_r (binding_key X binding) (\<lambda>key.
    case bm_get (ag_current_by_binding rt) key of
      None \<Rightarrow> Inr None
    | Some run_id \<Rightarrow>
        if bm_get (ag_current_by_pane rt) (pane_key_of (ab_pane_instance binding)) \<noteq> Some run_id
        then Inr None
        else bind_r (required_run X run_id (ag_store rt)) (\<lambda>run.
          if run_binding run \<noteq> binding
          then Inl (Corrupt (Msg ''current run index points to another Agent Binding''))
          else Inr (Some run)))"

definition capacity_digest :: "externals \<Rightarrow> run_record \<Rightarrow> str \<Rightarrow> sha256_digest" where
  "capacity_digest X run turn = x_digest X (utf8 (ab_provider_session_id (run_binding run) @ lit '':''
     @ turn @ lit '':task_complete_error''))"

definition capacity_reference :: "sha256_digest \<Rightarrow> i64 \<Rightarrow> provider_event_reference" where
  "capacity_reference digest observed_at = \<lparr>pr_event_ref = lit ''capacity:'' @ digest,
     pr_ingress_request_id = lit ''terminal_failure'', pr_payload_digest = digest,
     pr_disposition = lit ''provider_overloaded'', pr_receipt = lit ''terminal_failure'', pr_count = 1,
     pr_first_observed_at = observed_at, pr_last_observed_at = observed_at\<rparr>"

definition capacity_failed_run :: "externals \<Rightarrow> run_record \<Rightarrow> str \<Rightarrow> i64 \<Rightarrow> agent_store_error + run_record" where
  "capacity_failed_run X run turn observed_at =
    (let reference = capacity_reference (capacity_digest X run turn) observed_at;
         evidence = run_evidence run;
         new_evidence = \<not> list_ex (\<lambda>e. pr_event_ref e = pr_event_ref reference) (re_provider_events evidence);
         changed = (new_evidence \<or> run_execution_phase run \<noteq> PhaseError);
         events = re_provider_events evidence @ (if new_evidence then [reference] else [])
     in bind_r (if changed then checked_inc (Invalid (Msg ''run revision overflow'')) (run_revision run)
          else Inr (run_revision run)) (\<lambda>revision.
        Inr (run\<lparr>run_revision := revision,
          run_updated_at := (if changed then max (run_updated_at run) observed_at else run_updated_at run),
          run_execution_phase := PhaseError,
          run_evidence := evidence\<lparr>re_provider_events := events,
            re_first_observed_at := Some (case re_first_observed_at evidence of
                None \<Rightarrow> observed_at | Some t \<Rightarrow> t),
            re_last_observed_at := Some (max (case re_last_observed_at evidence of
                None \<Rightarrow> observed_at | Some t \<Rightarrow> t) observed_at)\<rparr>\<rparr>)))"

definition capacity_failure :: "externals \<Rightarrow> stable_run_id \<Rightarrow> i64 \<Rightarrow> run_record runtime_op" where
  "capacity_failure X run_id observed_at =
    bind_s (ask_store (required_run X run_id)) (\<lambda>run.
    bind_s (asks (current_run_for_binding X (run_binding run))) (\<lambda>current.
    if map_option run_run_id current \<noteq> Some run_id \<or> run_semantic_outcome run \<noteq> Unresolved
       \<or> run_execution_phase run = PhaseEnded
    then give (Inl (Invalid (Msg ''capacity failure is not the current unresolved run'')))
    else case run_provider_turn_key run of
      None \<Rightarrow> give (Inl (Invalid (Msg ''capacity turn is absent'')))
    | Some turn \<Rightarrow>
        bind_s (give (capacity_failed_run X run turn observed_at)) (\<lambda>run.
        bind_s (on_store (save_run X run)) (\<lambda>_.
        bind_s (index_run X run) (\<lambda>_. give (Inr run))))))"

definition capacity_input :: "externals \<Rightarrow> agent_binding \<Rightarrow> provider_observation \<Rightarrow> agent_runtime \<Rightarrow>
    agent_store_error + bool" where
  "capacity_input X binding ob rt = matches_dispatch_input X binding ob True rt"

end
