(* ===== verification/AgentRecovery.thy ===== *)
theory AgentRecovery
  imports AgentProvider
begin

text \<open>
  The runtime over the durable store, \<open>src/src/agent_state/runtime.rs\<close>, third part: the
  reconciliation with observed processes and panes, the operator's completion of a run under
  its precondition, and the restart.
\<close>

section \<open>Processes and panes\<close>

definition current_runs :: "externals \<Rightarrow> agent_runtime \<Rightarrow> agent_store_error + run_record list" where
  "current_runs X rt = fold_r (\<lambda>acc run_id. bind_r (required_run X run_id (ag_store rt)) (\<lambda>run.
     Inr (acc @ [run]))) [] (map snd (ag_current_by_binding rt))"

definition reconcile_process_for_pane :: "externals \<Rightarrow> pane_key \<Rightarrow> bool \<Rightarrow> agent_process_identity option \<Rightarrow>
    i64 \<Rightarrow> run_record option runtime_op" where
  "reconcile_process_for_pane X pane process_checked observed_process observed_at =
    (if \<not> process_checked then give (Inr None)
     else bind_s (asks (\<lambda>rt. Inr (bm_get (ag_current_by_pane rt) pane))) (\<lambda>current.
       case current of None \<Rightarrow> give (Inr None) | Some run_id \<Rightarrow>
       bind_s (ask_store (required_run X run_id)) (\<lambda>run.
       if observed_process = Some (ab_process (run_binding run)) then give (Inr None)
       else let was_execution_active = execution_active run in
         bind_s (if was_execution_active then end_unresolved_run X run observed_at else give (Inr run))
           (\<lambda>run.
         bind_s (remove_current_binding X run) (\<lambda>_.
           give (Inr (if was_execution_active then Some run else None)))))))"

definition pane_matches_binding :: "pane_state \<Rightarrow> agent_binding \<Rightarrow> bool" where
  "pane_matches_binding pane binding \<longleftrightarrow> ps_pane_instance pane = ab_pane_instance binding
     \<and> ps_state_id pane = ab_pane_state_id binding \<and> ps_agent_epoch pane = ab_agent_epoch binding
     \<and> ps_agent pane = ab_agent_kind binding
     \<and> ps_agent_session_id pane = Some (ab_provider_session_id binding)
     \<and> ps_agent_process pane = Some (ab_process binding) \<and> ps_agent_present pane"

definition is_live :: "(pane_key \<times> pane_state) list \<Rightarrow> run_record \<Rightarrow> bool" where
  "is_live panes run = (case bm_get panes (run_pane run) of
     None \<Rightarrow> False | Some pane \<Rightarrow> pane_matches_binding pane (run_binding run))"

definition end_if_gone :: "externals \<Rightarrow> (pane_key \<times> pane_state) list \<Rightarrow> i64 \<Rightarrow> run_record \<Rightarrow> unit runtime_op" where
  "end_if_gone X panes observed_at run =
    (if execution_active run \<and> \<not> is_live panes run
     then bind_s (end_unresolved_run X run observed_at) (\<lambda>_. give (Inr ())) else give (Inr ()))"

definition live_keys :: "externals \<Rightarrow> (pane_key \<times> pane_state) list \<Rightarrow> agent_runtime \<Rightarrow>
    agent_store_error + str list" where
  "live_keys X panes rt = fold_r (\<lambda>keys e. bind_r (required_run X (snd e) (ag_store rt)) (\<lambda>run.
     Inr (if is_live panes run then bs_insert (fst e) keys else keys))) [] (ag_current_by_binding rt)"

definition keep_live :: "str list \<Rightarrow> agent_runtime \<Rightarrow> agent_runtime" where
  "keep_live keys rt = rt\<lparr>ag_current_by_binding := filter (\<lambda>e. fst e \<in> set keys) (ag_current_by_binding rt),
     ag_current_by_pane := []\<rparr>"

definition put_pane_current :: "externals \<Rightarrow> stable_run_id \<Rightarrow> unit runtime_op" where
  "put_pane_current X run_id =
    bind_s (ask_store (required_run X run_id)) (\<lambda>run. modify_s (set_current_pane run))"

definition reconcile_panes_after_restart :: "externals \<Rightarrow> (pane_key \<times> pane_state) list \<Rightarrow> i64 \<Rightarrow>
    run_record list runtime_op" where
  "reconcile_panes_after_restart X panes observed_at =
    bind_s (asks (current_runs X)) (\<lambda>runs.
    bind_s (each_s (end_if_gone X panes observed_at) runs) (\<lambda>_.
    bind_s (asks (live_keys X panes)) (\<lambda>keys.
    bind_s (modify_s (keep_live keys)) (\<lambda>_.
    bind_s (asks (\<lambda>rt. Inr (map snd (ag_current_by_binding rt)))) (\<lambda>run_ids.
    bind_s (each_s (put_pane_current X) run_ids) (\<lambda>_.
      asks (current_runs X)))))))"

section \<open>References\<close>

definition run_ref_of :: "stable_run_id \<Rightarrow> agent_runtime \<Rightarrow> run_ref" where
  "run_ref_of run_id rt = \<lparr>ref_server_identity = ag_server_identity rt,
     ref_generation = sm_generation (as_meta (ag_store rt)), ref_run_id = run_id\<rparr>"

definition operation_ref_of :: "operation_id \<Rightarrow> agent_runtime \<Rightarrow> operation_ref" where
  "operation_ref_of i rt = \<lparr>oref_server_identity = ag_server_identity rt,
     oref_generation = sm_generation (as_meta (ag_store rt)), oref_operation_id = i\<rparr>"

definition get_run :: "externals \<Rightarrow> run_ref \<Rightarrow> agent_runtime \<Rightarrow> agent_store_error + run_record" where
  "get_run X reference rt = bind_r (validate_run_ref reference rt) (\<lambda>_.
     required_run X (ref_run_id reference) (ag_store rt))"

definition get_operation :: "externals \<Rightarrow> operation_ref \<Rightarrow> agent_runtime \<Rightarrow>
    agent_store_error + operation_record" where
  "get_operation X reference rt = bind_r (validate_operation_ref reference rt) (\<lambda>_.
     required_operation X (oref_operation_id reference) (ag_store rt))"

definition read_response :: "externals \<Rightarrow> run_ref \<Rightarrow> agent_runtime \<Rightarrow> agent_store_error + str" where
  "read_response X reference rt = bind_r (validate_run_ref reference rt) (\<lambda>_.
     read_artifact X (ref_run_id reference) (ag_store rt))"

definition validate_reference_server_identity :: "str \<Rightarrow> message + unit" where
  "validate_reference_server_identity value = fail_if
     (value = [] \<or> text_len value > IDENTIFIER_MAX_BYTES
      \<or> \<not> list_all (\<lambda>c. is_ascii_alphanumeric c \<or> c = 95 \<or> c = 45) value)
     (Msg ''invalid reference server identity'')"

definition encode_reference :: "externals \<Rightarrow> string \<Rightarrow> run_ref \<Rightarrow> message + str" where
  "encode_reference X prefix' reference =
    bind_r (map_err (MsgValue ''failed to encode reference: '') (x_encode_reference X reference)) (\<lambda>encoded.
      Inr (lit (prefix' @ '':'') @ x_base64url X encoded))"

definition encode_run_ref :: "externals \<Rightarrow> run_ref \<Rightarrow> message + str" where
  "encode_run_ref X reference =
    bind_r (validate_reference_server_identity (ref_server_identity reference)) (\<lambda>_.
      encode_reference X ''vtr3'' reference)"

section \<open>Completion by the operator\<close>

definition evidence_digest :: "externals \<Rightarrow> run_record \<Rightarrow> agent_store_error + sha256_digest" where
  "evidence_digest X run = bind_r (map_err (\<lambda>e. Invalid (MsgValue ''failed to encode run evidence: '' e))
     (x_evidence X (run_evidence run))) (\<lambda>encoded. Inr (x_digest X encoded))"

definition same_completion :: "externals \<Rightarrow> run_resolution \<Rightarrow> str \<Rightarrow> bool" where
  "same_completion X existing reason \<longleftrightarrow> rr_kind existing = OperatorCompleted
     \<and> (case rr_operator_audit existing of None \<Rightarrow> False
        | Some audit \<Rightarrow> oa_reason_digest audit = x_digest X (utf8 reason))"

definition lookup_operator_completion :: "externals \<Rightarrow> run_ref \<Rightarrow> resolution_id \<Rightarrow> str \<Rightarrow> agent_runtime \<Rightarrow>
    agent_store_error + run_record option" where
  "lookup_operator_completion X reference resolution_id' reason rt =
    bind_r (validate_run_ref reference rt) (\<lambda>_.
    bind_r (required_run X (ref_run_id reference) (ag_store rt)) (\<lambda>run.
    case run_resolution run of
      None \<Rightarrow> Inr None
    | Some existing \<Rightarrow>
        if rr_resolution_id existing = resolution_id'
        then (if same_completion X existing reason then Inr (Some run)
          else Inl (ResolutionConflict (Msg ''resolution ID was reused with another outcome or reason'')))
        else Inl (RunAlreadyResolved (Msg ''run was already resolved by another resolution ID''))))"

record completion_request =
  cq_reference :: run_ref
  cq_precondition :: recovery_precondition
  cq_resolution_id :: resolution_id
  cq_reason :: str
  cq_actor_uid :: u32
  cq_actor_pid :: u32
  cq_observed_at :: i64
  cq_fresh_pane :: recovery_pane_fence
  cq_fresh_process :: "agent_process_identity option"
  cq_fresh_viewport :: "recovery_viewport_fingerprint option"

definition expectation_matches :: "recovery_precondition \<Rightarrow> agent_process_identity \<Rightarrow>
    agent_process_identity option \<Rightarrow> recovery_viewport_fingerprint option \<Rightarrow> bool" where
  "expectation_matches p bound fresh_process fresh_viewport =
    (case (rp_process_expectation p, fresh_process, fresh_viewport) of
       (ExpectExactAbsent, None, None) \<Rightarrow> True
     | (ExpectReplacedBy expected, Some actual, None) \<Rightarrow> actual = expected \<and> actual \<noteq> bound
     | (ExpectExactPresentStable expected, Some actual, Some fp) \<Rightarrow>
         actual = expected \<and> actual = bound \<and> Some fp = rp_viewport_fingerprint p
     | _ \<Rightarrow> False)"

definition check_completion :: "externals \<Rightarrow> completion_request \<Rightarrow> run_record \<Rightarrow> agent_store_error + unit" where
  "check_completion X q run =
    (let p = cq_precondition q; current = rf_current_run (rp_pane p) in
     bind_r (map_err Invalid (recovery_precondition_validate p)) (\<lambda>_.
     bind_r (map_err Invalid (encode_run_ref X (cq_reference q))) (\<lambda>encoded_ref.
     bind_r (if rp_run_ref p \<noteq> encoded_ref \<or> rp_binding p \<noteq> run_binding run
           \<or> rp_run_revision p \<noteq> run_revision run then Inr True
         else bind_r (evidence_digest X run) (\<lambda>digest. Inr (rp_evidence_digest p \<noteq> digest
           \<or> cr_run_id current \<noteq> run_run_id run \<or> cr_run_seq current \<noteq> run_run_seq run
           \<or> cr_run_revision current \<noteq> run_revision run))) (\<lambda>stale.
     first_error
       [fail_if stale (StalePrecondition (Msg ''run identity, revision, binding, or evidence changed'')),
        fail_if (cq_observed_at q < rp_issued_at p \<or> cq_observed_at q > rp_expires_at p)
          (StalePrecondition (Msg ''recovery precondition expired or is not yet valid'')),
        fail_if (run_semantic_outcome run \<noteq> Unresolved)
          (RecoveryNotAllowed (Msg ''only an unresolved run may be operator-completed'')),
        fail_if (cq_fresh_pane q \<noteq> rp_pane p)
          (StalePrecondition (Msg ''fresh pane state disagrees with recovery precondition'')),
        fail_if (\<not> expectation_matches p (ab_process (run_binding run)) (cq_fresh_process q)
            (cq_fresh_viewport q))
          (StalePrecondition (Msg ''fresh process observation disagrees with recovery precondition''))]))))"

definition operator_completed_run :: "externals \<Rightarrow> completion_request \<Rightarrow> run_record \<Rightarrow>
    agent_store_error + run_record" where
  "operator_completed_run X q run =
    bind_r (checked_inc (Invalid (Msg ''run revision overflow'')) (run_revision run)) (\<lambda>post_revision.
    let run' = run\<lparr>run_revision := post_revision, run_execution_phase := PhaseEnded,
        run_semantic_outcome := Completed,
        run_updated_at := max (run_updated_at run) (cq_observed_at q),
        run_resolution := Some \<lparr>rr_resolution_id = cq_resolution_id q, rr_kind = OperatorCompleted,
          rr_resolved_at = cq_observed_at q, rr_operator_audit = Some \<lparr>oa_actor_uid = cq_actor_uid q,
            oa_actor_pid = cq_actor_pid q, oa_reason = cq_reason q,
            oa_reason_digest = x_digest X (utf8 (cq_reason q)), oa_pre_revision = run_revision run,
            oa_post_revision = post_revision, oa_observed_at = cq_observed_at q\<rparr>\<rparr>\<rparr>
    in bind_r (map_err Invalid (run_record_validate (x_digest X) (x_evidence_len X) run')) (\<lambda>_. Inr run'))"

definition resolve_operator_completed :: "externals \<Rightarrow> completion_request \<Rightarrow> run_record runtime_op" where
  "resolve_operator_completed X q =
    bind_s (asks (validate_run_ref (cq_reference q))) (\<lambda>_.
    bind_s (asks (lookup_operator_completion X (cq_reference q) (cq_resolution_id q) (cq_reason q))) (\<lambda>known.
    case known of Some run \<Rightarrow> give (Inr run) | None \<Rightarrow>
    bind_s (ask_store (required_run X (ref_run_id (cq_reference q)))) (\<lambda>run.
    bind_s (give (check_completion X q run)) (\<lambda>_.
    bind_s (give (operator_completed_run X q run)) (\<lambda>run.
    bind_s (on_store (save_run X run)) (\<lambda>_.
    bind_s (index_run X run) (\<lambda>_. give (Inr run))))))))"

section \<open>Restart\<close>

definition note_operation :: "externals \<Rightarrow> agent_runtime \<Rightarrow> operation_record \<Rightarrow>
    agent_store_error + agent_runtime" where
  "note_operation X rt operation =
    bind_r (if dispatch_fenced operation
      then bind_r (operation_target_key X (op_binding operation)) (\<lambda>key.
        Inr (fence key (op_operation_id operation) rt)) else Inr rt) (\<lambda>rt.
    if dispatch_input_from operation = None then Inr rt
    else bind_r (operation_target_key X (op_binding operation)) (\<lambda>key.
      Inr (note_input key operation rt)))"

definition note_operations :: "externals \<Rightarrow> unit runtime_op" where
  "note_operations X rt = (case for_each_operation X (note_operation X) rt (ag_store rt) of
     Inl e \<Rightarrow> (rt, Inl e) | Inr rt' \<Rightarrow> (rt', Inr ()))"

definition rebuild_indexes :: "externals \<Rightarrow> unit runtime_op" where
  "rebuild_indexes X =
    bind_s (ask_store (list_runs X)) (\<lambda>runs.
    bind_s (each_s (index_run X) runs) (\<lambda>_. note_operations X))"

definition confirm_after_restart :: "externals \<Rightarrow> run_record \<Rightarrow> unit runtime_op" where
  "confirm_after_restart X run =
    (if run_operation_id run = None then give (Inr ())
     else bind_s (confirm_linked_operation X run (run_updated_at run)) (\<lambda>_. give (Inr ())))"

definition settle_after_restart :: "externals \<Rightarrow> operation_id \<Rightarrow> unit runtime_op" where
  "settle_after_restart X i =
    bind_s (ask_store (required_operation X i)) (\<lambda>operation.
    bind_s (asks (\<lambda>rt. Inr (x_now X (as_calls (ag_store rt))))) (\<lambda>observed_at.
    case op_dispatch_state operation of
      Prepared \<Rightarrow>
        if op_confirmation_deadline_at operation \<le> observed_at
        then bind_s (settle_dispatch X i Rejected (lit ''prepared_dispatch_timeout_after_restart'')
          observed_at) (\<lambda>_. give (Inr ()))
        else give (Inr ())
    | DispatchStarted \<Rightarrow> bind_s (settle_dispatch X i DeliveryUnknown
        (lit ''daemon_restarted_during_dispatch'') observed_at) (\<lambda>_. give (Inr ()))
    | _ \<Rightarrow> give (Inr ())))"

definition reconcile_in_flight_after_restart :: "externals \<Rightarrow> unit runtime_op" where
  "reconcile_in_flight_after_restart X =
    bind_s (ask_store (list_runs X)) (\<lambda>runs.
    bind_s (each_s (confirm_after_restart X) runs) (\<lambda>_.
    bind_s (asks (\<lambda>rt. Inr (map snd (ag_in_flight rt)))) (\<lambda>operation_ids.
    bind_s (each_s (settle_after_restart X) operation_ids) (\<lambda>_. give (Inr ())))))"

definition clear_indexes :: "agent_runtime \<Rightarrow> agent_runtime" where
  "clear_indexes rt = rt\<lparr>ag_current_by_binding := [], ag_current_by_pane := [], ag_turn_index := [],
     ag_event_index := [], ag_in_flight := [], ag_dispatch_inputs := []\<rparr>"

definition open_runtime :: "externals \<Rightarrow> open_environment \<Rightarrow> unit runtime_op" where
  "open_runtime X env =
    bind_s (on_store (open_or_initialize X env)) (\<lambda>_.
    bind_s (modify_s clear_indexes) (\<lambda>_.
    bind_s (rebuild_indexes X) (\<lambda>_. reconcile_in_flight_after_restart X)))"

end
