(* ===== verification/AgentStoreLaws.thy ===== *)
theory AgentStoreLaws
  imports AgentRecovery
begin

text \<open>
  What the operations of the durable store and of its runtime can do to the files. The
  locale \<open>durable\<close> collects what a relation between two states of the store must satisfy for
  the single steps that touch the disk; it gives the relation for every operation of the
  runtime. The interpretations are in the theories of the properties.
\<close>

section \<open>Files\<close>

lemma files_put [simp]: "files r (put_files r' d s) = (if r = r' then d else files r s)"
  by (cases r; cases r') simp_all

lemma files_next_call [simp]: "files r (next_call s) = files r s"
  by (cases r) (simp_all add: next_call_def)

lemma files_capacity [simp]: "files r (set_run_capacity c s) = files r s"
  "files r (set_operation_capacity c s) = files r s"
  by (cases r; simp add: set_run_capacity_def set_operation_capacity_def)+

lemma meta_simps [simp]: "as_meta (put_files r d s) = as_meta s" "as_meta (next_call s) = as_meta s"
  "as_meta (set_run_capacity c s) = as_meta s" "as_meta (set_operation_capacity c s) = as_meta s"
  by (cases r; simp add: next_call_def set_run_capacity_def set_operation_capacity_def)+

lemma files_regions: "as_runs s = files Runs s" "as_operations s = files Operations s"
  "as_prompts s = files Prompts s" "as_artifacts s = files Artifacts s"
  by simp_all

text \<open>An atomic write leaves the old file or the new one; \<open>Inr\<close> means the new one.\<close>

lemma write_bytes_atomic_cases:
  assumes "write_bytes_atomic X r name body s = (s', res)"
  obtains (kept) e where "res = Inl e" "s' = next_call s"
  | (written) "s' = put_files r (bm_insert name body (files r s)) (next_call s)"
      "res = map_err (io_error ''sync state directory'') (wa_sync_directory (x_write X (as_calls s)))"
proof -
  obtain E :: "agent_store_error + unit" where "(s', res) = (case E of Inl e \<Rightarrow> (next_call s, Inl e)
      | Inr _ \<Rightarrow> (put_files r (bm_insert name body (files r (next_call s))) (next_call s),
          map_err (io_error ''sync state directory'') (wa_sync_directory (x_write X (as_calls s)))))"
    using assms [symmetric] unfolding write_bytes_atomic_def Let_def by (rule that)
  then show ?thesis
    using kept written by (cases E) simp_all
qed

lemma remove_file_cases:
  assumes "remove_file_and_sync X r name s = (s', res)"
  shows "s' = next_call s \<or> s' = put_files r (bm_remove name (files r s)) (next_call s)"
  using assms by (auto simp: remove_file_and_sync_def Let_def split: sum.splits if_splits)

lemma write_counted_cases:
  assumes "write_counted X r name encoded c set_capacity limit label' s = (s', res)"
  obtains t res' where "write_bytes_atomic X r name encoded s = (t, res')"
    "s' = t \<or> (\<exists>c'. s' = set_capacity c' t)" "is_ok res \<longleftrightarrow> is_ok res'"
proof (cases "write_bytes_atomic X r name encoded s")
  case (Pair t res')
  have "s' = t \<or> (\<exists>c'. s' = set_capacity c' t)" "is_ok res \<longleftrightarrow> is_ok res'"
    using assms Pair by (auto simp: write_counted_def split: sum.splits)
  then show ?thesis
    by (rule that [OF Pair])
qed

text \<open>What the visitor of a directory keeps.\<close>

lemma for_each_file_invariant:
  assumes "for_each_canonical_file X r suffix limit label' visitor v s = Inr v'" and "I v"
    and step: "\<And>v name w. I v \<Longrightarrow> name \<in> fst ` set (files r s) \<Longrightarrow> \<not> is_temporary name \<Longrightarrow>
      visitor v name = Inr w \<Longrightarrow> I w"
  shows "I v'"
proof -
  obtain acc where acc: "fold_r (visit_file r suffix limit label' s visitor) (0, v) (files r s) = Inr acc"
    and v': "v' = snd acc"
    using assms(1) by (auto simp: for_each_canonical_file_def result_simps)
  have "I (snd acc)"
  proof (rule fold_r_invariant [OF acc])
    show "I (snd (0::nat, v))" using \<open>I v\<close> by simp
    fix a f b assume "I (snd a)" "f \<in> set (files r s)"
      and "visit_file r suffix limit label' s visitor a f = Inr b"
    then show "I (snd b)"
      using step [of "snd a" "fst f"] by (auto simp: visit_file_def result_simps split: if_splits)
  qed
  then show ?thesis by (simp add: v')
qed

lemma for_each_operation_invariant:
  assumes "for_each_operation X visitor v s = Inr v'" and "I v"
    and "\<And>v operation w. I v \<Longrightarrow> visitor v operation = Inr w \<Longrightarrow> I w"
  shows "I v'"
  using assms(1,2) unfolding for_each_operation_def
  by (rule for_each_file_invariant) (auto simp: result_simps intro: assms(3))

section \<open>The interface of a relation on the store\<close>

definition over_store :: "(agent_store \<Rightarrow> agent_store \<Rightarrow> bool) \<Rightarrow> agent_runtime \<Rightarrow> agent_runtime \<Rightarrow> bool" where
  "over_store R rt rt' \<longleftrightarrow> R (ag_store rt) (ag_store rt')"

lemma store_simps [simp]:
  "ag_store (put_store s rt) = s" "ag_store (fence k i rt) = ag_store rt"
  "ag_store (unfence k i rt) = ag_store rt" "ag_store (note_input k operation rt) = ag_store rt"
  "ag_store (drop_stale_events run rt) = ag_store rt" "ag_store (set_current_binding k run rt) = ag_store rt"
  "ag_store (set_current_pane run rt) = ag_store rt" "ag_store (add_references X run rt) = ag_store rt"
  "ag_store (unbind k run rt) = ag_store rt" "ag_store (forget_runs ids rt) = ag_store rt"
  "ag_store (keep_live ks rt) = ag_store rt" "ag_store (clear_indexes rt) = ag_store rt"
  by (simp_all add: put_store_def fence_def unfence_def note_input_def drop_stale_events_def
      set_current_binding_def set_current_pane_def add_references_def unbind_def forget_runs_def
      keep_live_def clear_indexes_def Let_def split: option.split)

lemma in_flight_simps [simp]:
  "ag_in_flight (put_store s rt) = ag_in_flight rt" "ag_in_flight (note_input k operation rt) = ag_in_flight rt"
  "ag_in_flight (drop_stale_events run rt) = ag_in_flight rt" "ag_in_flight (set_current_binding k run rt) = ag_in_flight rt"
  "ag_in_flight (set_current_pane run rt) = ag_in_flight rt" "ag_in_flight (add_references X run rt) = ag_in_flight rt"
  "ag_in_flight (unbind k run rt) = ag_in_flight rt" "ag_in_flight (forget_runs ids rt) = ag_in_flight rt"
  "ag_in_flight (keep_live ks rt) = ag_in_flight rt"
  by (simp_all add: put_store_def note_input_def drop_stale_events_def set_current_binding_def
      set_current_pane_def add_references_def unbind_def forget_runs_def keep_live_def Let_def split: option.split)

definition on_stores :: "(agent_runtime \<Rightarrow> agent_runtime \<Rightarrow> bool) \<Rightarrow> agent_store \<Rightarrow> agent_store \<Rightarrow> bool" where
  "on_stores R s t \<longleftrightarrow> (\<forall>rt. ag_store rt = s \<longrightarrow> R rt (put_store t rt))"

lemma put_store_simps [simp]: "put_store (ag_store rt) rt = rt" "put_store t (put_store s rt) = put_store t rt"
  by (simp_all add: put_store_def)

lemma on_stores_over [simp]: "on_stores (over_store R) = R"
proof -
  have "\<exists>rt :: agent_runtime. ag_store rt = s" for s
    by (metis store_simps(1))
  then show ?thesis
    by (auto simp: on_stores_def over_store_def fun_eq_iff)
qed

lemma keeps_on_store: "keeps (on_stores R) m \<longleftrightarrow> keeps R (on_store m)"
  by (auto simp: keeps_def on_stores_def on_store_def within_apply)

text \<open>The five operations that move a dispatch operation are the steps of the interface.\<close>

locale durable = evolution R for R :: "agent_runtime \<Rightarrow> agent_runtime \<Rightarrow> bool" +
  fixes X :: externals
  assumes indexes: "ag_store rt' = ag_store rt \<Longrightarrow> ag_in_flight rt' = ag_in_flight rt \<Longrightarrow> R rt rt'"
    and save_run [keeps_intros]: "keeps (on_stores R) (save_run X run)"
    and write_body: "r = Prompts \<or> r = Artifacts \<Longrightarrow> keeps (on_stores R) (write_bytes_atomic X r name body)"
    and remove_body: "r = Prompts \<or> r = Artifacts \<Longrightarrow> keeps (on_stores R) (remove_file_and_sync X r name)"
    and prepare_operation [keeps_intros]: "keeps R (prepare_operation X q)"
    and mark_dispatch_started [keeps_intros]: "keeps R (mark_dispatch_started X i t)"
    and settle_dispatch [keeps_intros]: "keeps R (settle_dispatch X i state code t)"
    and abandon_operation [keeps_intros]: "keeps R (abandon_operation X ref n reason t)"
    and confirm_linked_operation [keeps_intros]: "keeps R (confirm_linked_operation X run t)"
begin

lemma stores_evolution: "evolution (on_stores R)"
proof
  show "on_stores R s s" for s
    by (simp add: on_stores_def indexes put_store_def)
  show "on_stores R s t \<Longrightarrow> on_stores R t u \<Longrightarrow> on_stores R s u" for s t u
    unfolding on_stores_def by (metis store_simps(1) put_store_simps(2) transitive)
qed

lemmas store_intros [keeps_intros] = evolution.keeps_give [OF stores_evolution]
  evolution.keeps_asks [OF stores_evolution] evolution.keeps_bind [OF stores_evolution]
  evolution.keeps_catch [OF stores_evolution] evolution.keeps_attempt [OF stores_evolution]
  evolution.keeps_each [OF stores_evolution] evolution.keeps_if [OF stores_evolution]
  evolution.keeps_option [OF stores_evolution] evolution.keeps_prod [OF stores_evolution]
  evolution.keeps_let [OF stores_evolution]

lemmas store_reflexive = evolution.reflexive [OF stores_evolution]
lemmas store_transitive = evolution.transitive [OF stores_evolution]

lemma over_store_op [keeps_intros]: "keeps (on_stores R) m \<Longrightarrow> keeps R (on_store m)"
  by (simp add: keeps_on_store)

lemma over_ask [keeps_intros]: "keeps R (ask_store f)"
  unfolding ask_store_def by (rule keeps_asks)

lemma over_modify [keeps_intros]:
  "(\<And>rt. ag_store (f rt) = ag_store rt \<and> ag_in_flight (f rt) = ag_in_flight rt) \<Longrightarrow> keeps R (modify_s f)"
  by (simp add: keeps_def indexes)

lemma delete_prompt [keeps_intros]: "keeps (on_stores R) (delete_prompt X i)"
  unfolding delete_prompt_def by (rule remove_body) simp

lemma stage_prompt [keeps_intros]: "keeps (on_stores R) (stage_prompt X i body)"
  using write_body [of Prompts]
  by (auto simp: keeps_def stage_prompt_def store_reflexive split: sum.split)

lemma reject_prepared_retry_if_expired [keeps_intros]:
  "keeps R (reject_prepared_retry_if_expired X i t)"
  unfolding reject_prepared_retry_if_expired_def by (intro keeps_intros; simp)

lemma settle_expired_dispatches [keeps_intros]: "keeps R (settle_expired_dispatches X t)"
  unfolding settle_expired_dispatches_def settle_expired_def by (intro keeps_intros; simp)

lemma index_run [keeps_intros]: "keeps R (index_run X run)"
  unfolding index_run_def set_current_def by (intro keeps_intros; simp)

lemma end_unresolved_run [keeps_intros]: "keeps R (end_unresolved_run X run t)"
  unfolding end_unresolved_run_def by (intro keeps_intros; simp)

lemma remove_current_binding [keeps_intros]: "keeps R (remove_current_binding X run)"
  unfolding remove_current_binding_def by (intro keeps_intros; simp)

lemma retire_replaced_bindings [keeps_intros]:
  "keeps R (retire_replaced_bindings_for_pane X binding t)"
  unfolding retire_replaced_bindings_for_pane_def by (intro keeps_intros; simp)

lemma expire_artifact [keeps_intros]: "keeps (on_stores R) (expire_artifact X i)"
  unfolding expire_artifact_def by (intro keeps_intros remove_body; simp)

lemma make_artifact_room:
  "make_artifact_room n X target name size' fl bl s = Some (s', res) \<Longrightarrow> on_stores R s s'"
proof (induction n arbitrary: s)
  case (Suc n)
  then show ?case
    using keepsD [OF expire_artifact]
    by (fastforce simp: store_reflexive split: round_outcome.splits prod.splits sum.splits intro: store_transitive)
qed simp

lemma ensure_artifact_capacity [keeps_intros]: "keeps (on_stores R) (ensure_artifact_capacity X target name size')"
  by (rule keepsI) (auto simp: ensure_artifact_capacity_def store_reflexive
      simp del: make_artifact_room.simps split: option.splits dest: make_artifact_room)

lemma store_artifact_candidate [keeps_intros]: "keeps (on_stores R) (store_artifact_candidate X i c source t)"
  unfolding store_artifact_candidate_def by (intro keeps_intros write_body; simp)

lemma store_artifact [keeps_intros]: "keeps (on_stores R) (store_artifact X i body ob)"
  unfolding store_artifact_def by (intro keeps_intros write_body; simp)

lemma observe [keeps_intros]: "keeps R (observe X ob run)"
  unfolding observe_def by (intro keeps_intros; simp)

lemma finish_provider_observation [keeps_intros]:
  "keeps R (finish_provider_observation X run ob d)"
  unfolding finish_provider_observation_def store_stop_response_def by (intro keeps_intros; simp)

lemma attributed_observation [keeps_intros]:
  "keeps R (apply_to_run X ob i)" "keeps R (redeliver_to_run X ob i)"
  "keeps R (apply_to_attributed_turn X ob i)" "keeps R (end_previous_run X n t i)"
  unfolding apply_to_run_def redeliver_to_run_def apply_to_attributed_turn_def end_previous_run_def
  by (intro keeps_intros)+

lemma capacity_failure [keeps_intros]: "keeps R (capacity_failure X i t)"
  unfolding capacity_failure_def by (intro keeps_intros; simp)

lemma reconcile_process [keeps_intros]: "keeps R (reconcile_process_for_pane X pane b p t)"
  unfolding reconcile_process_for_pane_def by (intro keeps_intros; simp)

lemma reconcile_panes [keeps_intros]: "keeps R (reconcile_panes_after_restart X panes t)"
  unfolding reconcile_panes_after_restart_def end_if_gone_def put_pane_current_def by (intro keeps_intros; simp)

lemma resolve_operator_completed [keeps_intros]: "keeps R (resolve_operator_completed X q)"
  unfolding resolve_operator_completed_def by (intro keeps_intros; simp)

lemma reconcile_in_flight [keeps_intros]: "keeps R (reconcile_in_flight_after_restart X)"
  unfolding reconcile_in_flight_after_restart_def confirm_after_restart_def settle_after_restart_def
  by (intro conjI impI keeps_intros | simp split: dispatch_state.split del: imp_conjL)+

end

text \<open>The relations that also admit the removal of runs by the retention.\<close>

locale durable_retention = durable +
  assumes remove_runs: "keeps (on_stores R) (remove_files_and_sync X Runs names)"
    and remove_artifacts: "keeps (on_stores R) (remove_files_and_sync X Artifacts names)"
    and recount: "on_stores R s (set_run_capacity c s)"
begin

lemma remove_runs_atomically [keeps_intros]: "keeps (on_stores R) (remove_runs_atomically X ids)"
  unfolding remove_runs_atomically_def
  by (intro keeps_intros remove_runs remove_artifacts) (simp add: keeps_def recount)

lemma collect_run_retention [keeps_intros]: "keeps (on_stores R) (collect_run_retention X t ids reserve pane)"
  unfolding collect_run_retention_def by (intro keeps_intros; simp)

lemma collect_retention [keeps_intros]: "keeps R (collect_retention X t reserve pane)"
  unfolding collect_retention_def by (intro keeps_intros; simp)

lemma apply_provider_observation [keeps_intros]:
  "keeps R (apply_provider_observation X binding n ob)"
  unfolding apply_provider_observation_def start_or_attribute_def start_run_def by (intro keeps_intros; simp)

end

text \<open>A relation between stores only: the dispatch operations follow from the saves.\<close>

locale durable_files = evolution R for R :: "agent_store \<Rightarrow> agent_store \<Rightarrow> bool" +
  fixes X :: externals
  assumes save_run: "keeps R (save_run X run)"
    and save_operation [keeps_intros]: "keeps R (save_operation X operation)"
    and write_body: "r = Prompts \<or> r = Artifacts \<Longrightarrow> keeps R (write_bytes_atomic X r name body)"
    and remove_body: "r = Prompts \<or> r = Artifacts \<Longrightarrow> keeps R (remove_file_and_sync X r name)"
begin

lemma over_evolution: "evolution (over_store R)"
  by unfold_locales (auto simp: over_store_def reflexive intro: transitive)

lemmas over_intros [keeps_intros] = evolution.keeps_give [OF over_evolution]
  evolution.keeps_asks [OF over_evolution] evolution.keeps_bind [OF over_evolution]
  evolution.keeps_catch [OF over_evolution] evolution.keeps_attempt [OF over_evolution]
  evolution.keeps_each [OF over_evolution] evolution.keeps_if [OF over_evolution]
  evolution.keeps_option [OF over_evolution] evolution.keeps_prod [OF over_evolution]
  evolution.keeps_let [OF over_evolution]

lemma over_store_op [keeps_intros]: "keeps R m \<Longrightarrow> keeps (over_store R) (on_store m)"
  by (simp add: keeps_def over_store_def on_store_def within_apply)

lemma over_ask [keeps_intros]: "keeps (over_store R) (ask_store f)"
  unfolding ask_store_def by (rule over_intros)

lemma over_modify [keeps_intros]: "(\<And>rt. ag_store (f rt) = ag_store rt) \<Longrightarrow> keeps (over_store R) (modify_s f)"
  by (simp add: keeps_def over_store_def reflexive)

lemma delete_prompt [keeps_intros]: "keeps R (delete_prompt X i)"
  unfolding delete_prompt_def by (rule remove_body) simp

lemma stage_prompt [keeps_intros]: "keeps R (stage_prompt X i body)"
  using write_body [of Prompts]
  by (auto simp: keeps_def stage_prompt_def reflexive split: sum.split)

lemma release_dispatch_fence [keeps_intros]: "keeps (over_store R) (release_dispatch_fence X operation)"
  unfolding release_dispatch_fence_def by (intro keeps_intros; simp)

lemma index_dispatch_input [keeps_intros]: "keeps (over_store R) (index_dispatch_input X operation)"
  unfolding index_dispatch_input_def by (intro keeps_intros; simp)

lemma prepare_operation [keeps_intros]: "keeps (over_store R) (prepare_operation X q)"
  unfolding prepare_operation_def by (intro keeps_intros; simp)

lemma mark_dispatch_started [keeps_intros]: "keeps (over_store R) (mark_dispatch_started X i t)"
  unfolding mark_dispatch_started_def by (intro keeps_intros; simp)

lemma settle_dispatch [keeps_intros]: "keeps (over_store R) (settle_dispatch X i st code t)"
  unfolding settle_dispatch_def by (intro keeps_intros; simp)

lemma abandon_operation [keeps_intros]: "keeps (over_store R) (abandon_operation X ref n reason t)"
  unfolding abandon_operation_def by (intro keeps_intros; simp)

lemma confirm_linked_operation [keeps_intros]: "keeps (over_store R) (confirm_linked_operation X run t)"
  unfolding confirm_linked_operation_def by (intro keeps_intros; simp)

lemma durable: "durable (over_store R) X"
  by (intro durable.intro over_evolution durable_axioms.intro)
    (simp_all add: save_run write_body remove_body prepare_operation mark_dispatch_started
      settle_dispatch abandon_operation confirm_linked_operation, simp add: over_store_def reflexive)

lemma for_each_note: "for_each_operation X (note_operation X) rt s = Inr rt' \<Longrightarrow> ag_store rt' = ag_store rt"
  by (rule for_each_operation_invariant [where I = "\<lambda>t. ag_store t = ag_store rt"])
    (auto simp: note_operation_def result_simps split: if_splits)

lemma note_operations [keeps_intros]: "keeps (over_store R) (note_operations X)"
  by (rule keepsI) (auto simp: note_operations_def over_store_def reflexive split: sum.splits
      dest: for_each_note)

lemma index_run: "keeps (over_store R) (index_run X run)"
  by (rule durable.index_run [OF durable])

lemma rebuild_indexes [keeps_intros]: "keeps (over_store R) (rebuild_indexes X)"
  unfolding rebuild_indexes_def by (intro keeps_intros index_run)

end

end
