(* ===== verification/AgentRequests.thy ===== *)
theory AgentRequests
  imports AgentStoreLaws
begin

text \<open>
  The requests that the daemon serves from its runtime over the durable store, and its
  restarts. A restart that fails leaves the store as it is, and only another restart can
  follow. The first part says which directory an operation of the store can change.
\<close>

section \<open>What stays outside a directory\<close>

definition outside :: "region \<Rightarrow> agent_store \<Rightarrow> agent_store \<Rightarrow> bool" where
  "outside r s t \<longleftrightarrow> (\<forall>r'. r' \<noteq> r \<longrightarrow> files r' t = files r' s) \<and> as_meta t = as_meta s"

lemma outside_files: "outside r s t \<Longrightarrow> r' \<noteq> r \<Longrightarrow> files r' t = files r' s"
  by (simp add: outside_def)

interpretation outside: evolution "outside r" for r
  by unfold_locales (auto simp: outside_def)

lemma outside_writes:
  "keeps (outside r) (write_bytes_atomic X r name body)"
  "keeps (outside r) (remove_file_and_sync X r name)"
  by (rule keepsI; erule write_bytes_atomic_cases; simp add: outside_def)
    (rule keepsI; drule remove_file_cases; auto simp: outside_def)

lemma remove_each_outside: "remove_each X r b names s = (t, res) \<Longrightarrow> outside r s t"
proof (induction names arbitrary: b s)
  case (Cons name names)
  let ?t = "put_files r (bm_remove name (files r s)) (next_call s)"
  have *: "outside r s (next_call s)" "outside r s ?t"
    by (simp_all add: outside_def)
  from Cons.prems consider "t = s" | "t = next_call s"
    | b' where "remove_each X r b' names ?t = (t, res)"
    by (auto simp: Let_def split: if_splits sum.splits)
  then show ?case
    using * Cons.IH by cases (auto intro: outside.reflexive outside.transitive)
qed (simp add: outside.reflexive)

lemma sync_directory_outside: "keeps (outside r) (sync_directory X)"
  by (simp add: keeps_def sync_directory_def outside_def)

lemma remove_files_outside: "keeps (outside r) (remove_files_and_sync X r names)"
  unfolding remove_files_and_sync_def
  by (intro keeps_intros sync_directory_outside keepsI) (rule remove_each_outside)

lemma write_counted_outside:
  assumes "\<And>c s. outside r s (set_capacity c s)"
  shows "keeps (outside r) (write_counted X r name encoded c set_capacity limit label')"
proof (rule keepsI)
  fix s t res assume "write_counted X r name encoded c set_capacity limit label' s = (t, res)"
  then show "outside r s t"
    by (rule write_counted_cases)
      (metis assms outside_writes(1) keepsD outside.transitive)
qed

lemma capacity_outside: "outside r s (set_run_capacity c s)" "outside r s (set_operation_capacity c s)"
  by (simp_all add: outside_def)

lemma save_run_outside: "keeps (outside Runs) (save_run X run)"
  unfolding save_run_def write_run_def
  by (intro keeps_intros write_counted_outside capacity_outside)

lemma save_operation_outside: "keeps (outside Operations) (save_operation X operation)"
  unfolding save_operation_def write_operation_def
  by (intro keeps_intros write_counted_outside capacity_outside)

lemmas outside_intros = outside_writes remove_files_outside save_run_outside save_operation_outside

section \<open>Requests\<close>

datatype request =
  PrepareOperation operation_request
| MarkStarted operation_id i64
| SettleDispatch operation_id dispatch_state str i64
| RejectExpired operation_id i64
| AbandonOperation operation_ref u64 str i64
| SettleExpired i64
| ApplyObservation agent_binding u64 provider_observation
| CapacityFailure stable_run_id i64
| ReconcileProcess pane_key bool "agent_process_identity option" i64
| ReconcilePanes "(pane_key \<times> pane_state) list" i64
| CompleteRun completion_request

fun handle :: "externals \<Rightarrow> request \<Rightarrow> agent_runtime \<Rightarrow> agent_runtime" where
  "handle X (PrepareOperation q) rt = fst (prepare_operation X q rt)"
| "handle X (MarkStarted i t) rt = fst (mark_dispatch_started X i t rt)"
| "handle X (SettleDispatch i state code t) rt = fst (settle_dispatch X i state code t rt)"
| "handle X (RejectExpired i t) rt = fst (reject_prepared_retry_if_expired X i t rt)"
| "handle X (AbandonOperation ref n reason t) rt = fst (abandon_operation X ref n reason t rt)"
| "handle X (SettleExpired t) rt = fst (settle_expired_dispatches X t rt)"
| "handle X (ApplyObservation binding n ob) rt = fst (apply_provider_observation X binding n ob rt)"
| "handle X (CapacityFailure i t) rt = fst (capacity_failure X i t rt)"
| "handle X (ReconcileProcess pane checked process t) rt =
    fst (reconcile_process_for_pane X pane checked process t rt)"
| "handle X (ReconcilePanes panes t) rt = fst (reconcile_panes_after_restart X panes t rt)"
| "handle X (CompleteRun q) rt = fst (resolve_operator_completed X q rt)"

text \<open>A daemon serves, or has not come up: its runtime is then only the store on disk.\<close>

datatype daemon = Serving agent_runtime | Down agent_runtime

fun daemon_runtime :: "daemon \<Rightarrow> agent_runtime" where
  "daemon_runtime (Serving rt) = rt"
| "daemon_runtime (Down rt) = rt"

abbreviation daemon_store :: "daemon \<Rightarrow> agent_store" where
  "daemon_store d \<equiv> ag_store (daemon_runtime d)"

datatype daemon_event = Request request | Crash | Restart open_environment

fun daemon_step :: "externals \<Rightarrow> daemon_event \<Rightarrow> daemon \<Rightarrow> daemon" where
  "daemon_step X (Request q) (Serving rt) = Serving (handle X q rt)"
| "daemon_step X (Request q) (Down rt) = Down rt"
| "daemon_step X Crash d = Down (daemon_runtime d)"
| "daemon_step X (Restart env) d = (case open_runtime X env (daemon_runtime d) of
      (rt, Inr _) \<Rightarrow> Serving rt
    | (rt, Inl _) \<Rightarrow> Down rt)"

definition daemon_run :: "externals \<Rightarrow> daemon_event list \<Rightarrow> daemon \<Rightarrow> daemon" where
  "daemon_run X events d = foldl (\<lambda>d e. daemon_step X e d) d events"

lemma daemon_run_simps [simp]: "daemon_run X [] d = d"
  "daemon_run X (e # es) d = daemon_run X es (daemon_step X e d)"
  by (simp_all add: daemon_run_def)

text \<open>An invariant of the daemon, from its two kinds of step.\<close>

lemma daemon_run_invariant:
  assumes "I d" and "\<And>e d. I d \<Longrightarrow> I (daemon_step X e d)"
  shows "I (daemon_run X es d)"
  using assms(1) by (induction es arbitrary: d) (simp_all add: assms(2))

context durable_retention
begin

lemma handle: "R rt (handle X q rt)"
  by (cases q) (auto intro!: keeps_run [OF _ reflexive] prepare_operation mark_dispatch_started
      settle_dispatch abandon_operation keeps_intros)

end

section \<open>Relations that look at the operations only\<close>

locale operation_reads = evolution R for R :: "agent_store \<Rightarrow> agent_store \<Rightarrow> bool" +
  fixes X :: externals
  assumes same_operations: "as_operations t = as_operations s \<Longrightarrow> R s t"
    and remove_temporary: "keeps R (remove_files_and_sync X Operations (filter is_temporary names))"
begin

lemma from_outside: "keeps (outside r) m \<Longrightarrow> r \<noteq> Operations \<Longrightarrow> keeps R m"
  using outside_files [of r _ _ Operations] by (simp add: keeps_def same_operations)

end

locale operation_files = operation_reads +
  assumes save_step [keeps_intros]: "keeps R (save_operation X operation)"

sublocale operation_files \<subseteq> durable_files R X
  by unfold_locales (auto intro: save_step from_outside outside_intros)

sublocale operation_files \<subseteq> serve: durable_retention "over_store R" X
  by (intro durable_retention.intro durable durable_retention_axioms.intro)
    (auto intro: from_outside outside_intros same_operations simp: set_run_capacity_def)

section \<open>Restarts\<close>

lemma cleanup_outside:
  "keeps (outside r) (cleanup_body_directory X r referenced)"
  "keeps (outside r) (cleanup_temporary_files X r)"
  using remove_files_outside
  by (fastforce simp: keeps_def cleanup_body_directory_def cleanup_temporary_files_def
      outside.reflexive split: sum.split)+

context operation_reads
begin

lemma from_meta: "(\<And>s. as_operations (fst (m s)) = as_operations s) \<Longrightarrow> keeps R m"
  by (simp add: keeps_def same_operations)

lemma cleanup_temporary [keeps_intros]: "keeps R (cleanup_temporary_files X r)"
proof (cases "r = Operations")
  case True
  then show ?thesis
    using remove_temporary
    by (fastforce simp: keeps_def cleanup_temporary_files_def reflexive split: sum.split)
qed (auto intro: from_outside cleanup_outside)

lemma cleanup_orphans [keeps_intros]: "keeps R (cleanup_orphans X)"
  unfolding cleanup_orphans_def
  by (intro keeps_intros from_outside [OF cleanup_outside(1)]) simp_all

lemma open_meta [keeps_intros]: "keeps R (open_meta X env)"
  by (rule from_meta) (auto simp: open_meta_def write_meta_def bind_s_def Let_def next_call_def
      split: option.splits sum.splits)

lemma open_or_initialize [keeps_intros]: "keeps R (open_or_initialize X env)"
  unfolding open_or_initialize_def
  by (intro keeps_intros from_meta; simp add: start_store_def set_run_capacity_def
      set_operation_capacity_def)

end

context operation_files
begin

lemma open_runtime: "keeps (over_store R) (open_runtime X env)"
  unfolding open_runtime_def
  by (intro keeps_intros serve.reconcile_in_flight; simp)

lemma daemon_step: "R (daemon_store d) (daemon_store (daemon_step X e d))"
  using serve.handle keepsD [OF open_runtime]
  by (cases "(X, e, d)" rule: daemon_step.cases)
    (auto simp: over_store_def reflexive split: prod.split sum.split)

lemma daemon_run: "R (daemon_store d) (daemon_store (daemon_run X es d))"
proof (rule daemon_run_invariant [where I = "\<lambda>d'. R (daemon_store d) (daemon_store d')"])
  show "R (daemon_store d) (daemon_store (daemon_step X e d'))"
    if "R (daemon_store d) (daemon_store d')" for e d'
    using that daemon_step by (rule transitive)
qed (rule reflexive)

end

end
