(* ===== verification/AgentOperationLife.thy ===== *)
theory AgentOperationLife
  imports AgentRequests
begin

text \<open>
  The life of a dispatch operation across requests, crashes and restarts, as an abstract state
  machine: a stored operation is never lost, moves only along the machine, keeps the fields of
  its request, and does not change any more in a final phase.
\<close>

section \<open>The abstract machine\<close>

datatype phase = PhasePrepared | PhaseStarted | PhaseUnknown | PhaseAbandoned | PhaseRejected
  | PhaseConfirmed "stable_run_id option"

definition phase_of :: "operation_record \<Rightarrow> phase" where
  "phase_of r = (case op_dispatch_state r of
      Prepared \<Rightarrow> PhasePrepared
    | DispatchStarted \<Rightarrow> PhaseStarted
    | DeliveryUnknown \<Rightarrow> if operator_abandoned r then PhaseAbandoned else PhaseUnknown
    | Rejected \<Rightarrow> PhaseRejected
    | PromptConfirmed \<Rightarrow> PhaseConfirmed (op_run_id r))"

inductive life :: "phase \<Rightarrow> phase \<Rightarrow> bool" where
  life_start: "life PhasePrepared PhaseStarted"
| life_refuse: "life PhasePrepared PhaseRejected"
| life_confirm: "life PhaseStarted (PhaseConfirmed run)"
| life_time_out: "life PhaseStarted PhaseUnknown"
| life_give_up: "life PhaseStarted PhaseAbandoned"
| life_reject: "life PhaseStarted PhaseRejected"
| life_confirm_late: "life PhaseUnknown (PhaseConfirmed run)"
| life_abandon: "life PhaseUnknown PhaseAbandoned"

inductive_cases life_from: "life PhaseAbandoned p" "life PhaseRejected p" "life (PhaseConfirmed run) p"

fun final :: "phase \<Rightarrow> bool" where
  "final PhasePrepared = False"
| "final PhaseStarted = False"
| "final PhaseUnknown = False"
| "final _ = True"

definition same_request :: "operation_record \<Rightarrow> operation_record \<Rightarrow> bool" where
  "same_request a b \<longleftrightarrow> op_generation a = op_generation b \<and> op_operation_id a = op_operation_id b
     \<and> op_request_fingerprint a = op_request_fingerprint b
     \<and> op_target_agent_ref a = op_target_agent_ref b \<and> op_prompt_digest a = op_prompt_digest b
     \<and> op_dispatch_option a = op_dispatch_option b \<and> target_of (op_binding a) = target_of (op_binding b)
     \<and> op_expected_current_run a = op_expected_current_run b
     \<and> op_expected_run_seq a = op_expected_run_seq b
     \<and> op_confirmation_deadline_at a = op_confirmation_deadline_at b \<and> op_created_at a = op_created_at b"

section \<open>Stored operations\<close>

text \<open>What a reader of the operation's file finds.\<close>

definition stored_operation :: "externals \<Rightarrow> agent_store \<Rightarrow> operation_id \<Rightarrow> operation_record option" where
  "stored_operation X s i = (case bm_get (as_operations s) (operation_file i) of
      None \<Rightarrow> None
    | Some bytes \<Rightarrow> (case x_decode_operation X bytes of Inl _ \<Rightarrow> None | Inr r \<Rightarrow> Some r))"

text \<open>\<open>serde_json\<close> reads back what it has written.\<close>

definition operation_codec :: "externals \<Rightarrow> bool" where
  "operation_codec X \<longleftrightarrow>
    (\<forall>r bytes. x_encode_operation X r = Inr bytes \<longrightarrow> x_decode_operation X bytes = Inr r)"

definition replaces :: "operation_record \<Rightarrow> operation_record \<Rightarrow> bool" where
  "replaces r r' \<longleftrightarrow> validate_operation_replacement r r' = Inr ()"

definition op_evolves :: "externals \<Rightarrow> agent_store \<Rightarrow> agent_store \<Rightarrow> bool" where
  "op_evolves X s t \<longleftrightarrow> (operation_codec X \<longrightarrow> (\<forall>i r. operation_id_parse i = Inr i \<longrightarrow>
     stored_operation X s i = Some r \<longrightarrow>
     (\<exists>r'. stored_operation X t i = Some r' \<and> replaces\<^sup>*\<^sup>* r r')))"

lemma operation_file_inj [simp]: "operation_file i = operation_file j \<longleftrightarrow> i = j"
  by (simp add: operation_file_def)

lemma stored_operation_same: "as_operations t = as_operations s \<Longrightarrow> stored_operation X t i = stored_operation X s i"
  by (simp add: stored_operation_def)

lemma contains_append_no_dot:
  "46 \<notin> set xs \<Longrightarrow> contains_text (46 # t) (xs @ ys) = contains_text (46 # t) ys"
  by (induction xs) auto

lemma parsed_id_not_temporary: "operation_id_parse i = Inr i \<Longrightarrow> \<not> is_temporary (operation_file i)"
proof -
  assume "operation_id_parse i = Inr i"
  then have "list_all (\<lambda>c. is_ascii_alphanumeric c \<or> c = 95 \<or> c = 45) i"
    by (auto simp: operation_id_parse_def validate_caller_id_def result_simps)
  then have "46 \<notin> set i"
    by (auto simp: list_all_iff is_ascii_alphanumeric_def is_digit_def is_lower_def)
  then have "contains_text (46 # t) (operation_file i) = contains_text (46 # t) (lit ''.json'')" for t
    unfolding operation_file_def by (rule contains_append_no_dot)
  moreover have "lit ''.tmp.'' = 46 # [116, 109, 112, 46]" "lit ''.json'' = [46, 106, 115, 111, 110]"
    by (simp_all add: lit_def)
  ultimately show ?thesis
    by (simp add: is_temporary_def)
qed

text \<open>A save leaves the file, or replaces it by the encoded record.\<close>

lemma write_operation_writes:
  assumes "write_operation X r s = (t, res)"
  obtains (refused) "t = s" "\<not> is_ok res"
  | (writes) bytes u res' where "x_encode_operation X r = Inr bytes"
      "write_bytes_atomic X Operations (operation_file (op_operation_id r)) bytes s = (u, res')"
      "as_operations t = as_operations u" "is_ok res \<longleftrightarrow> is_ok res'"
proof -
  consider "t = s" "\<not> is_ok res"
    | bytes c where "x_encode_operation X r = Inr bytes"
        "write_counted X Operations (operation_file (op_operation_id r)) bytes c set_operation_capacity
          OPERATION_STORE_MAX_RECORDS ''operation store'' s = (t, res)"
    using assms unfolding write_operation_def
    by (cases res) (auto simp: bind_s_def encode_json_def result_simps split: sum.splits if_splits)
  then show ?thesis
  proof cases
    case (2 bytes c)
    show ?thesis
      by (rule write_counted_cases [OF 2(2)]) (auto simp: set_operation_capacity_def intro: writes [OF 2(1)])
  qed (use refused in simp)
qed

lemma write_operation_cases:
  assumes "write_operation X r s = (t, res)"
  obtains (kept) "as_operations t = as_operations s" "\<not> is_ok res"
  | (written) bytes where "x_encode_operation X r = Inr bytes"
      "as_operations t = bm_insert (operation_file (op_operation_id r)) bytes (as_operations s)"
  using assms
proof (cases rule: write_operation_writes)
  case (writes bytes u res')
  from writes(2) show ?thesis
    by (rule write_bytes_atomic_cases)
      (use writes(1,3,4) kept written in \<open>auto simp: next_call_def\<close>)
qed (use kept in simp)

lemma load_operation_stored: "load_operation X i s = Inr (Some r) \<Longrightarrow> stored_operation X s i = Some r"
  by (auto simp: load_operation_def read_json_def read_private_file_def decode_file_def
      stored_operation_def result_simps map_err_def split: if_splits option.splits sum.splits)

lemma load_operation_absent: "load_operation X i s = Inr None \<Longrightarrow> stored_operation X s i = None"
  by (auto simp: load_operation_def stored_operation_def result_simps split: if_splits)

text \<open>The operations after a save: unchanged, or the record in place of what it may replace.\<close>

definition put_operation :: "externals \<Rightarrow> operation_record \<Rightarrow> agent_store \<Rightarrow> agent_store \<Rightarrow> bool" where
  "put_operation X r s t \<longleftrightarrow> (\<forall>i. stored_operation X t i =
     (if i = op_operation_id r then Some r else stored_operation X s i))"

lemma write_operation_stored:
  assumes "write_operation X r s = (t, res)" and "operation_codec X"
  shows "as_operations t = as_operations s \<and> \<not> is_ok res \<or> put_operation X r s t"
  using assms(1)
proof (cases rule: write_operation_cases)
  case (written bytes)
  then have "put_operation X r s t"
    using assms(2) by (simp add: put_operation_def stored_operation_def bm_get_insert operation_codec_def)
  then show ?thesis ..
qed simp

lemma save_operation_cases:
  assumes "save_operation X r s = (t, res)" and codec: "operation_codec X"
  obtains (kept) "as_operations t = as_operations s"
      "is_ok res \<Longrightarrow> stored_operation X s (op_operation_id r) = Some r"
  | (created) "stored_operation X s (op_operation_id r) = None" "put_operation X r s t"
  | (replaced) e where "stored_operation X s (op_operation_id r) = Some e" "replaces e r" "put_operation X r s t"
proof -
  consider "t = s" "\<not> is_ok res"
    | "t = s" "load_operation X (op_operation_id r) s = Inr (Some r)"
    | "load_operation X (op_operation_id r) s = Inr None" "write_operation X r s = (t, res)"
    | e where "load_operation X (op_operation_id r) s = Inr (Some e)" "replaces e r"
        "write_operation X r s = (t, res)"
    using assms(1) by (cases res)
      (auto simp: save_operation_def replaces_def result_simps split: if_splits option.splits;
        metis option.exhaust)+
  then show ?thesis
  proof cases
    case 1
    then show ?thesis using kept by simp
  next
    case 2
    then show ?thesis using kept load_operation_stored by simp
  next
    case 3
    then show ?thesis
      using write_operation_stored [OF 3(2) codec] kept created load_operation_absent by auto
  next
    case (4 e)
    then show ?thesis
      using write_operation_stored [OF 4(3) codec] kept replaced load_operation_stored by auto
  qed
qed

section \<open>The relation on the store\<close>

lemma remove_each_get:
  "remove_each X r b names s = (t, res) \<Longrightarrow> name \<notin> set names \<Longrightarrow> bm_get (files r t) name = bm_get (files r s) name"
proof (induction names arbitrary: b s)
  case (Cons n names)
  let ?t = "put_files r (bm_remove n (files r s)) (next_call s)"
  have *: "bm_get (files r ?t) name = bm_get (files r s) name"
    using Cons.prems(2) by (simp add: bm_get_remove)
  from Cons.prems consider "t = s" | "t = next_call s"
    | b' where "remove_each X r b' names ?t = (t, res)"
    by (auto simp: Let_def split: if_splits sum.splits)
  then show ?case
    using * Cons.IH Cons.prems(2) by cases auto
qed simp

lemma remove_files_get:
  assumes "remove_files_and_sync X r names s = (t, res)" and "name \<notin> set names"
  shows "bm_get (files r t) name = bm_get (files r s) name"
proof -
  obtain u res' where "remove_each X r False names s = (u, res')" "files r t = files r u"
    using assms(1) by (cases "remove_each X r False names s")
      (auto simp: remove_files_and_sync_def bind_s_def sync_directory_def split: sum.splits if_splits)
  then show ?thesis
    using remove_each_get assms(2) by metis
qed

text \<open>A removal of temporary files leaves every operation that has a proper identifier.\<close>

definition durable_id :: "operation_id \<Rightarrow> bool" where
  "durable_id i \<longleftrightarrow> \<not> is_temporary (operation_file i)"

definition same_stored :: "externals \<Rightarrow> agent_store \<Rightarrow> agent_store \<Rightarrow> bool" where
  "same_stored X s t \<longleftrightarrow> (\<forall>i. durable_id i \<longrightarrow> stored_operation X t i = stored_operation X s i)"

interpretation reads: operation_reads "same_stored X" X for X
proof
  show "same_stored X s t" if "as_operations t = as_operations s" for s t
    using stored_operation_same [OF that] by (simp add: same_stored_def)
  show "same_stored X s s" "same_stored X s t \<Longrightarrow> same_stored X t u \<Longrightarrow> same_stored X s u" for s t u
    by (simp_all add: same_stored_def)
  show "keeps (same_stored X) (remove_files_and_sync X Operations (filter is_temporary names))" for names
  proof (rule keepsI)
    fix s t and res :: "agent_store_error + unit"
    assume *: "remove_files_and_sync X Operations (filter is_temporary names) s = (t, res)"
    show "same_stored X s t"
      using remove_files_get [OF *] by (simp add: same_stored_def durable_id_def stored_operation_def)
  qed
qed

lemma same_stored_evolves: "same_stored X s t \<Longrightarrow> op_evolves X s t"
  using parsed_id_not_temporary by (auto simp: same_stored_def op_evolves_def durable_id_def)

interpretation operations: operation_files "op_evolves X" X for X
proof
  show "op_evolves X s t" if "as_operations t = as_operations s" for s t
    using reads.same_operations [OF that] by (rule same_stored_evolves)
  show "op_evolves X s s" for s
    using reads.reflexive by (rule same_stored_evolves)
  show "op_evolves X s u" if "op_evolves X s t" "op_evolves X t u" for s t u
    using that unfolding op_evolves_def by (meson rtranclp_trans)
  show "keeps (op_evolves X) (save_operation X r)" for r
  proof (rule keepsI)
    fix s t res assume *: "save_operation X r s = (t, res)"
    show "op_evolves X s t"
    proof (cases "operation_codec X")
      case True
      with * show ?thesis
        by (cases rule: save_operation_cases)
          (auto simp: op_evolves_def put_operation_def stored_operation_def)
    qed (simp add: op_evolves_def)
  qed
  show "keeps (op_evolves X) (remove_files_and_sync X Operations (filter is_temporary names))" for names
  proof (rule keepsI)
    fix s t and res :: "agent_store_error + unit"
    assume "remove_files_and_sync X Operations (filter is_temporary names) s = (t, res)"
    with reads.remove_temporary show "op_evolves X s t"
      by (intro same_stored_evolves) (rule keepsD)
  qed
qed

section \<open>From the rules of replacement to the machine\<close>

lemma replaces_life: "replaces r r' \<Longrightarrow> life (phase_of r) (phase_of r')"
proof -
  assume "replaces r r'"
  then have "dispatch_transition r r'"
    by (simp add: replaces_def validate_operation_replacement_def result_simps)
  then show ?thesis
    by (auto simp: dispatch_transition_def is_abandonment_def phase_of_def operator_abandoned_def
        intro: life.intros split: dispatch_state.splits)
qed

lemma replaces_request: "replaces r r' \<Longrightarrow> same_request r r'"
  by (auto simp: replaces_def validate_operation_replacement_def operation_request_changed_def
      same_request_def provider_session_rebound_def target_of_def result_simps)

lemma replaced_many: "replaces\<^sup>*\<^sup>* r r' \<Longrightarrow> life\<^sup>*\<^sup>* (phase_of r) (phase_of r') \<and> same_request r r'"
proof (induction rule: rtranclp_induct)
  case (step a b)
  then show ?case
    using replaces_life [OF step.hyps(2)] replaces_request [OF step.hyps(2)]
    by (auto simp: same_request_def intro: rtranclp.rtrancl_into_rtrancl)
qed (simp add: same_request_def)

lemma final_replaced: "replaces\<^sup>*\<^sup>* r r' \<Longrightarrow> final (phase_of r) \<Longrightarrow> r' = r"
proof (induction rule: converse_rtranclp_induct)
  case (step a b)
  then show ?case
    using replaces_life [OF step.hyps(1)] by (cases "phase_of a") (auto elim: life_from)
qed simp

section \<open>Properties\<close>

text \<open>
  C18. A stored dispatch operation is never lost, whatever the daemon serves and however
  often it crashes or restarts: it stays in its file, moves only along the abstract life
  of an operation, keeps the fields of its request, and does not change once it is final.
\<close>

theorem operation_life:
  assumes "operation_codec X" and "operation_id_parse i = Inr i"
    and "stored_operation X (daemon_store d) i = Some r"
  shows "\<exists>r'. stored_operation X (daemon_store (daemon_run X events d)) i = Some r'
    \<and> life\<^sup>*\<^sup>* (phase_of r) (phase_of r') \<and> same_request r r' \<and> (final (phase_of r) \<longrightarrow> r' = r)"
proof -
  obtain r' where "stored_operation X (daemon_store (daemon_run X events d)) i = Some r'" "replaces\<^sup>*\<^sup>* r r'"
    using operations.daemon_run [of X d events] assms by (auto simp: op_evolves_def)
  then show ?thesis
    using replaced_many final_replaced by blast
qed

end
