(* ===== verification/AgentTypes.thy ===== *)
theory AgentTypes
  imports AgentOperationLife
begin

text \<open>
  The typing of the record files: under its own canonical name, each holds an encoding of a
  valid record of the current generation that keeps the size limit. A restart checks it, and
  every request keeps it.
\<close>

definition run_codec :: "externals \<Rightarrow> bool" where
  "run_codec X \<longleftrightarrow> (\<forall>r bytes. x_encode_run X r = Inr bytes \<longrightarrow> x_decode_run X bytes = Inr r)"

fun file_typed :: "externals \<Rightarrow> agent_store \<Rightarrow> region \<Rightarrow> str \<Rightarrow> u8 list \<Rightarrow> bool" where
  "file_typed X s Runs name bytes \<longleftrightarrow> length bytes \<le> RUN_RECORD_MAX_BYTES
     \<and> (\<exists>r. x_decode_run X bytes = Inr r \<and> validate_run X r s = Inr () \<and> name = run_file (run_run_id r))"
| "file_typed X s Operations name bytes \<longleftrightarrow> length bytes \<le> OPERATION_RECORD_MAX_BYTES
     \<and> (\<exists>r. x_decode_operation X bytes = Inr r \<and> validate_operation r s = Inr ()
          \<and> name = operation_file (op_operation_id r))"
| "file_typed X s _ name bytes \<longleftrightarrow> True"

definition well_typed :: "externals \<Rightarrow> agent_store \<Rightarrow> bool" where
  "well_typed X s \<longleftrightarrow> (\<forall>r name bytes. bm_get (files r s) name = Some bytes \<longrightarrow> \<not> is_temporary name \<longrightarrow>
     file_typed X s r name bytes)"

lemma typed_meta: "as_meta t = as_meta s \<Longrightarrow> file_typed X t = file_typed X s"
proof (intro ext)
  show "file_typed X t r name bytes = file_typed X s r name bytes" if "as_meta t = as_meta s" for r name bytes
    by (cases r) (simp_all add: validate_run_def validate_operation_def that)
qed

section \<open>What keeps the typing\<close>

definition codecs :: "externals \<Rightarrow> bool" where
  "codecs X \<longleftrightarrow> run_codec X \<and> operation_codec X"

definition typed_evolves :: "externals \<Rightarrow> agent_store \<Rightarrow> agent_store \<Rightarrow> bool" where
  "typed_evolves X s t \<longleftrightarrow> as_meta t = as_meta s \<and> (codecs X \<longrightarrow> well_typed X s \<longrightarrow> well_typed X t)"

text \<open>Files may go, and a file that is new or changed must be typed.\<close>

lemma typed_evolvesI:
  assumes "as_meta t = as_meta s"
    and "\<And>r name bytes. codecs X \<Longrightarrow> bm_get (files r t) name = Some bytes \<Longrightarrow>
      bm_get (files r s) name = Some bytes \<or> file_typed X s r name bytes"
  shows "typed_evolves X s t"
  unfolding typed_evolves_def well_typed_def
  using assms typed_meta [OF assms(1)] by metis

lemma typed_same: "as_meta t = as_meta s \<Longrightarrow> (\<And>r. files r t = files r s) \<Longrightarrow> typed_evolves X s t"
  by (rule typed_evolvesI) simp_all

lemma typed_removed: "typed_evolves X s (put_files r (bm_remove name (files r s)) (next_call s))"
  by (rule typed_evolvesI) (auto simp: bm_get_remove split: if_splits)

interpretation typing: evolution "typed_evolves X" for X
  by unfold_locales (auto simp: typed_evolves_def)

lemma typed_removes: "remove_each X' r b names s = (t, res) \<Longrightarrow> typed_evolves X s t"
proof (induction names arbitrary: b s)
  case (Cons n names)
  let ?t = "put_files r (bm_remove n (files r s)) (next_call s)"
  from Cons.prems consider "t = s" | "t = next_call s"
    | b' where "remove_each X' r b' names ?t = (t, res)"
    by (auto simp: Let_def split: if_splits sum.splits)
  then show ?case
  proof cases
    case 2
    show ?thesis unfolding 2 by (rule typed_same) simp_all
  next
    case 3
    show ?thesis
      using typed_removed Cons.IH [OF 3] by (rule typing.transitive)
  qed (simp add: typing.reflexive)
qed (simp add: typing.reflexive)

lemma typed_remove_files: "keeps (typed_evolves X) (remove_files_and_sync X' r names)"
proof -
  have sync: "keeps (typed_evolves X) (sync_directory X')"
    by (auto simp: keeps_def sync_directory_def intro: typed_same)
  have each: "keeps (typed_evolves X) (remove_each X' r b names)" for b
    by (rule keepsI) (rule typed_removes)
  show ?thesis
    unfolding remove_files_and_sync_def by (intro keeps_intros sync each)
qed

lemma typed_bodies: "keeps (outside r) m \<Longrightarrow> r = Prompts \<or> r = Artifacts \<Longrightarrow> keeps (typed_evolves X) m"
proof (rule keepsI, rule typed_evolvesI)
  fix s t res r' name bytes
  assume m: "keeps (outside r) m" "r = Prompts \<or> r = Artifacts" "m s = (t, res)"
  have out: "outside r s t"
    using m(1,3) by (rule keepsD)
  then show "as_meta t = as_meta s"
    by (simp add: outside_def)
  assume "bm_get (files r' t) name = Some bytes"
  then show "bm_get (files r' s) name = Some bytes \<or> file_typed X s r' name bytes"
    using outside_files [OF out, of r'] m(2) by (cases "r' = r") auto
qed

text \<open>A save has validated the record and kept the limit when it writes.\<close>

lemma write_counted_typed:
  assumes w: "write_counted X' r name bytes c set_capacity limit label' s = (t, res)"
    and c: "\<And>c s r. files r (set_capacity c s) = files r s" "\<And>c s. as_meta (set_capacity c s) = as_meta s"
    and typed: "codecs X \<Longrightarrow> file_typed X s r name bytes"
  shows "typed_evolves X s t"
proof -
  obtain u res' where u: "write_bytes_atomic X' r name bytes s = (u, res')"
    "as_meta t = as_meta u" "\<And>r. files r t = files r u"
    by (rule write_counted_cases [OF w]) (auto simp: c)
  from u(1) have "as_meta u = as_meta s \<and> (\<forall>r' n b. bm_get (files r' u) n = Some b \<longrightarrow>
      bm_get (files r' s) n = Some b \<or> r' = r \<and> n = name \<and> b = bytes)"
    by (rule write_bytes_atomic_cases) (auto simp: bm_get_insert split: if_splits)
  then show ?thesis
    using u(2,3) typed by (intro typed_evolvesI) auto
qed

lemma save_run_typed: "keeps (typed_evolves X) (save_run X run)"
proof (rule keepsI)
  fix s t res assume *: "save_run X run s = (t, res)"
  consider "t = s"
    | bytes c where "validate_run X run s = Inr ()" "x_encode_run X run = Inr bytes"
        "length bytes \<le> RUN_RECORD_MAX_BYTES"
        "write_counted X Runs (run_file (run_run_id run)) bytes c set_run_capacity RUN_STORE_MAX_RECORDS
          ''run store'' s = (t, res)"
    using * unfolding save_run_def write_run_def encode_json_def
    by (cases res) (auto simp: result_simps split: if_splits option.splits; metis option.exhaust)+
  then show "typed_evolves X s t"
  proof cases
    case (2 bytes c)
    show ?thesis
      using 2(4) by (rule write_counted_typed) (use 2(1-3) in \<open>auto simp: codecs_def run_codec_def\<close>)
  qed (simp add: typing.reflexive)
qed

lemma save_operation_typed: "keeps (typed_evolves X) (save_operation X operation)"
proof (rule keepsI)
  fix s t res assume *: "save_operation X operation s = (t, res)"
  consider "t = s"
    | bytes c where "validate_operation operation s = Inr ()" "x_encode_operation X operation = Inr bytes"
        "length bytes \<le> OPERATION_RECORD_MAX_BYTES"
        "write_counted X Operations (operation_file (op_operation_id operation)) bytes c
          set_operation_capacity OPERATION_STORE_MAX_RECORDS ''operation store'' s = (t, res)"
    using * unfolding save_operation_def write_operation_def encode_json_def
    by (cases res) (auto simp: result_simps split: if_splits option.splits; metis option.exhaust)+
  then show "typed_evolves X s t"
  proof cases
    case (2 bytes c)
    show ?thesis
      using 2(4) by (rule write_counted_typed) (use 2(1-3) in \<open>auto simp: codecs_def operation_codec_def\<close>)
  qed (simp add: typing.reflexive)
qed

interpretation typing: durable_files "typed_evolves X" X for X
  by unfold_locales
    (auto intro: save_run_typed save_operation_typed typed_bodies outside_writes)

interpretation typing_serve: durable_retention "over_store (typed_evolves X)" X for X
  by (intro durable_retention.intro typing.durable durable_retention_axioms.intro)
    (auto intro: typed_remove_files typed_same)

section \<open>Opening\<close>

lemma fold_r_each: "fold_r f a xs = Inr b \<Longrightarrow> x \<in> set xs \<Longrightarrow> \<exists>a' b'. f a' x = Inr b'"
  by (induction xs arbitrary: a) (auto simp: result_simps)

lemma every_file_visited:
  assumes "for_each_canonical_file X r suffix limit label' visitor v s = Inr v'"
    and "bm_get (files r s) name = Some bytes" and "\<not> is_temporary name"
  shows "\<exists>w w'. visitor w name = Inr w'"
proof -
  obtain acc where "fold_r (visit_file r suffix limit label' s visitor) (0, v) (files r s) = Inr acc"
    using assms(1) by (auto simp: for_each_canonical_file_def result_simps)
  from fold_r_each [OF this map_of_SomeD [OF assms(2)]] show ?thesis
    using assms(3) by (auto simp: visit_file_def result_simps split: if_splits)
qed

lemma read_json_file:
  assumes "read_json X D r name limit label' s = Inr v" and "bm_get (files r s) name = Some bytes"
  shows "D bytes = Inr v" "length bytes \<le> limit"
  using assms by (auto simp: read_json_def read_private_file_def decode_file_def result_simps
      map_err_def split: if_splits sum.splits)

lemma collected_names:
  "fold_r (visit_file r suffix limit label' s (\<lambda>names name. Inr (names @ [name]))) acc fs = Inr acc' \<Longrightarrow>
    set (snd acc) \<subseteq> set (snd acc') \<and> (\<forall>f \<in> set fs. \<not> is_temporary (fst f) \<longrightarrow> fst f \<in> set (snd acc'))"
proof (induction fs arbitrary: acc)
  case (Cons f fs)
  from Cons.prems obtain a where a: "visit_file r suffix limit label' s (\<lambda>names name. Inr (names @ [name])) acc f = Inr a"
      "fold_r (visit_file r suffix limit label' s (\<lambda>names name. Inr (names @ [name]))) a fs = Inr acc'"
    by (auto simp: result_simps)
  from a(1) have "snd a = (if is_temporary (fst f) then snd acc else snd acc @ [fst f])"
    by (auto simp: visit_file_def result_simps split: if_splits)
  then show ?case
    using Cons.IH [OF a(2)] by (auto split: if_splits)
qed simp

lemma canonical_names:
  assumes "canonical_files X r suffix limit label' s = Inr names"
    and "bm_get (files r s) name = Some bytes" and "\<not> is_temporary name"
  shows "name \<in> set names"
proof -
  obtain acc where "fold_r (visit_file r suffix limit label' s (\<lambda>names name. Inr (names @ [name]))) (0, [])
      (files r s) = Inr acc" "snd acc = names"
    using assms(1) by (auto simp: canonical_files_def for_each_canonical_file_def result_simps)
  then show ?thesis
    using collected_names map_of_SomeD [OF assms(2)] assms(3) by fastforce
qed

lemma records_checked:
  assumes "validate_canonical_records X s = Inr ()"
  shows "well_typed X s"
  unfolding well_typed_def
proof (intro allI impI)
  fix r name bytes assume f: "bm_get (files r s) name = Some bytes" "\<not> is_temporary name"
  from assms obtain runs where runs: "list_runs X s = Inr runs"
    and operations: "for_each_operation X (\<lambda>_ _. Inr ()) () s = Inr ()"
    by (auto simp: validate_canonical_records_def result_simps)
  show "file_typed X s r name bytes"
  proof (cases r)
    case Runs
    obtain names records where names: "canonical_files X Runs (lit ''.json'') RUN_STORE_MAX_RECORDS ''run store'' s = Inr names"
      "fold_r (read_run_file X s) [] names = Inr records"
      using runs by (auto simp: list_runs_def result_simps)
    have "name \<in> set names"
      using canonical_names [OF names(1)] f Runs by auto
    from fold_r_each [OF names(2) this] obtain rs rs' where "read_run_file X s rs name = Inr rs'"
      by blast
    then show ?thesis
      using f Runs read_json_file [of X "x_decode_run X" Runs name _ _ s _ bytes]
      by (auto simp: read_run_file_def result_simps split: if_splits)
  next
    case Operations
    obtain r where "read_operation_file X name s = Inr r"
      using every_file_visited [OF operations [unfolded for_each_operation_def]] f Operations
      by (fastforce simp: result_simps)
    then show ?thesis
      using f Operations read_json_file [of X "x_decode_operation X" Operations name _ _ s _ bytes]
      by (auto simp: read_operation_file_def result_simps split: if_splits)
  qed simp_all
qed

lemma cleanup_typed:
  "keeps (typed_evolves X) (cleanup_body_directory X' r referenced)"
  "keeps (typed_evolves X) (cleanup_temporary_files X' r)"
  using typed_remove_files
  by (fastforce simp: keeps_def cleanup_body_directory_def cleanup_temporary_files_def
      typing.reflexive split: sum.split)+

lemma cleanup_orphans_typed: "keeps (typed_evolves X) (cleanup_orphans X')"
  unfolding cleanup_orphans_def by (intro keeps_intros cleanup_typed)

lemma open_typed:
  assumes "open_or_initialize X env s = (t, Inr ())" and "codecs X"
  shows "well_typed X t"
proof -
  obtain u v c c' where u: "validate_canonical_records X u = Inr ()" "cleanup_orphans X u = (v, Inr ())"
    and t: "t = set_operation_capacity c (set_run_capacity c' v)"
    using assms(1) by (auto simp: open_or_initialize_def result_simps split: if_splits)
  have "typed_evolves X u v"
    using cleanup_orphans_typed u(2) by (rule keepsD)
  moreover have "typed_evolves X v t"
    unfolding t by (intro typed_same) simp_all
  ultimately show ?thesis
    using records_checked [OF u(1)] \<open>codecs X\<close> by (auto simp: typed_evolves_def)
qed

lemma open_runtime_typed:
  assumes "open_runtime X env rt = (rt', Inr ())" and "codecs X"
  shows "well_typed X (ag_store rt')"
proof -
  obtain s u where s: "open_or_initialize X env (ag_store rt) = (s, Inr ())"
    and u: "bind_s (rebuild_indexes X) (\<lambda>_. reconcile_in_flight_after_restart X)
      (clear_indexes (put_store s rt)) = (rt', Inr ())"
    using assms(1) by (auto simp: open_runtime_def on_store_def result_simps)
  have "keeps (over_store (typed_evolves X)) (bind_s (rebuild_indexes X) (\<lambda>_. reconcile_in_flight_after_restart X))"
    by (intro keeps_intros typing_serve.reconcile_in_flight)
  from keepsD [OF this u] show ?thesis
    using open_typed [OF s \<open>codecs X\<close>] \<open>codecs X\<close> by (auto simp: over_store_def typed_evolves_def)
qed

text \<open>
  C21. While the daemon serves, every record file of its store is well typed, whatever the
  disk held before: under its canonical name it holds a valid record of the current
  generation within the size limit.
\<close>

theorem served_store_well_typed:
  assumes "codecs X" and "daemon_run X events (Down rt0) = Serving rt"
  shows "well_typed X (ag_store rt)"
proof -
  let ?I = "\<lambda>d. case d of Serving rt \<Rightarrow> well_typed X (ag_store rt) | Down _ \<Rightarrow> True"
  have "?I (daemon_run X events (Down rt0))"
  proof (rule daemon_run_invariant)
    fix e d assume "?I d"
    then show "?I (daemon_step X e d)"
      using typing_serve.handle [of X] open_runtime_typed [OF _ \<open>codecs X\<close>] \<open>codecs X\<close>
      by (cases "(X, e, d)" rule: daemon_step.cases)
        (auto simp: over_store_def typed_evolves_def split: prod.split sum.split)
  qed simp
  then show ?thesis
    using assms(2) by simp
qed

end
