(* ===== verification/AgentFences.thy ===== *)
theory AgentFences
  imports AgentTypes StateResult
begin

text \<open>
  The fence of the dispatch: every unsettled operation on disk is in \<open>ag_in_flight\<close> under the
  key of its target, so no two of them share a target. The invariant needs that no write fails
  after its rename, when the directory is synced: then the file is there, but the caller is
  told that it is not.
\<close>

definition synced :: "externals \<Rightarrow> bool" where
  "synced X \<longleftrightarrow> (\<forall>n. wa_sync_directory (x_write X n) = Inr ())"

definition flying :: "externals \<Rightarrow> agent_store \<Rightarrow> operation_id \<Rightarrow> operation_record \<Rightarrow> bool" where
  "flying X s i r \<longleftrightarrow> stored_operation X s i = Some r \<and> dispatch_fenced r"

definition fenced :: "externals \<Rightarrow> agent_runtime \<Rightarrow> bool" where
  "fenced X rt \<longleftrightarrow> (\<forall>i r. flying X (ag_store rt) i r \<longrightarrow>
     (\<exists>key. operation_target_key X (op_binding r) = Inr key \<and> bm_get (ag_in_flight rt) key = Some i))"

definition one_per_target :: "externals \<Rightarrow> agent_store \<Rightarrow> bool" where
  "one_per_target X s \<longleftrightarrow> (\<forall>i j r r' key. flying X s i r \<longrightarrow> flying X s j r' \<longrightarrow>
     operation_target_key X (op_binding r) = Inr key \<longrightarrow> operation_target_key X (op_binding r') = Inr key \<longrightarrow> i = j)"

lemma fenced_unique: "fenced X rt \<Longrightarrow> one_per_target X (ag_store rt)"
  unfolding fenced_def one_per_target_def by (metis Inr_inject option.inject)

lemma fencedD:
  "fenced X rt \<Longrightarrow> stored_operation X (ag_store rt) i = Some r \<Longrightarrow> dispatch_fenced r \<Longrightarrow>
    operation_target_key X (op_binding r) = Inr key \<Longrightarrow> bm_get (ag_in_flight rt) key = Some i"
  unfolding fenced_def flying_def by fastforce

lemma fenced_same:
  assumes "fenced X rt" and "\<And>i. stored_operation X (ag_store rt') i = stored_operation X (ag_store rt) i"
    and "ag_in_flight rt' = ag_in_flight rt"
  shows "fenced X rt'"
  using assms by (simp add: fenced_def flying_def)

lemma target_key_same: "target_of b = target_of b' \<Longrightarrow> operation_target_key X b = operation_target_key X b'"
  by (simp add: operation_target_key_def)

section \<open>Steps\<close>

text \<open>An operation that has been loaded: what is stored under its identifier.\<close>

definition holds :: "externals \<Rightarrow> operation_record \<Rightarrow> agent_runtime \<Rightarrow> bool" where
  "holds X r rt \<longleftrightarrow> fenced X rt \<and> stored_operation X (ag_store rt) (op_operation_id r) = Some r
     \<and> operation_record_validate r = Inr ()"

lemma holds_fenced: "holds X r rt \<Longrightarrow> fenced X rt"
  by (simp add: holds_def)

lemma load_operation_facts:
  "load_operation X i s = Inr (Some r) \<Longrightarrow> stored_operation X s i = Some r
    \<and> op_operation_id r = i \<and> operation_record_validate r = Inr ()"
  using load_operation_stored [of X i s r]
  by (auto simp: load_operation_def validate_operation_def result_simps map_err_def split: if_splits sum.splits)

lemma triple_required:
  "triple (fenced X) (ask_store (required_operation X i)) (\<lambda>r rt. holds X r rt \<and> op_operation_id r = i) (fenced X)"
  unfolding ask_store_def
  by (rule triple_asks) (auto simp: required_operation_def holds_def result_simps
      dest: load_operation_facts split: option.splits)

lemma write_synced:
  assumes "synced X" and "write_bytes_atomic X r name body s = (t, res)" and "\<not> is_ok res"
  shows "t = next_call s"
  using assms(2) by (rule write_bytes_atomic_cases) (use assms(1,3) in \<open>auto simp: synced_def map_err_def\<close>)

lemma failed_save_synced:
  assumes "synced X" and "save_operation X r s = (t, Inl e)"
  shows "as_operations t = as_operations s"
proof -
  have w: "as_operations t = as_operations s" if "write_operation X r s = (t, Inl e)"
    using that
  proof (cases rule: write_operation_writes)
    case (writes bytes u res')
    then show ?thesis
      using write_synced [OF assms(1) writes(2)] by (simp add: next_call_def)
  qed simp
  show ?thesis
    using assms(2) by (auto simp: save_operation_def result_simps w split: if_splits option.splits)
qed

lemma on_store_iff:
  "on_store m rt = (rt', res) \<longleftrightarrow> m (ag_store rt) = (ag_store rt', res) \<and> rt' = put_store (ag_store rt') rt"
  by (auto simp: on_store_def within_apply)

lemma triple_save:
  assumes "synced X" and "operation_codec X" and "op_operation_id r' = op_operation_id r"
    and "dispatch_fenced r' \<Longrightarrow> dispatch_fenced r \<and> target_of (op_binding r') = target_of (op_binding r)"
  shows "triple (holds X r) (on_store (save_operation X r')) (\<lambda>_. holds X r') (fenced X)"
proof (rule tripleI)
  fix rt rt' and e :: agent_store_error
  assume "holds X r rt" "on_store (save_operation X r') rt = (rt', Inl e)"
  then show "fenced X rt'"
    using failed_save_synced [OF assms(1), of r' "ag_store rt"]
    by (auto simp: on_store_iff holds_def intro!: fenced_same [of X rt] stored_operation_same)
      (metis in_flight_simps(1))
next
  fix rt rt' u assume h: "holds X r rt" and w: "on_store (save_operation X r') rt = (rt', Inr u)"
  then have saved: "save_operation X r' (ag_store rt) = (ag_store rt', Inr ())"
    and flight: "ag_in_flight rt' = ag_in_flight rt"
    by (auto simp: on_store_iff) (metis in_flight_simps(1))
  have "operation_record_validate r' = Inr ()"
    using saved by (auto simp: save_operation_def validate_operation_def result_simps map_err_def
        split: sum.splits)
  moreover have "fenced X rt' \<and> stored_operation X (ag_store rt') (op_operation_id r') = Some r'"
    using saved assms(2)
  proof (cases rule: save_operation_cases)
    case kept
    then show ?thesis
      using h flight stored_operation_same [OF kept(1)] by (auto simp: holds_def intro: fenced_same)
  next
    case created
    then show ?thesis
      using h assms(3) by (simp add: holds_def)
  next
    case (replaced e)
    have "fenced X rt'"
      unfolding fenced_def
    proof (intro allI impI)
      fix i q assume q: "flying X (ag_store rt') i q"
      show "\<exists>key. operation_target_key X (op_binding q) = Inr key \<and> bm_get (ag_in_flight rt') key = Some i"
      proof (cases "i = op_operation_id r'")
        case True
        then have "flying X (ag_store rt) i r" "target_of (op_binding q) = target_of (op_binding r)"
          using q h assms(3,4) replaced(3) by (auto simp: flying_def put_operation_def holds_def)
        then show ?thesis
          using h target_key_same by (metis fenced_def flight holds_fenced)
      next
        case False
        then have "flying X (ag_store rt) i q"
          using q replaced(3) by (simp add: flying_def put_operation_def)
        then show ?thesis
          using h flight by (simp add: fenced_def holds_def)
      qed
    qed
    then show ?thesis
      using replaced(3) by (simp add: put_operation_def)
  qed
  ultimately show "holds X r' rt'"
    by (simp add: holds_def)
qed

text \<open>What leaves the operations and the fence alone.\<close>

definition same_fences :: "externals \<Rightarrow> agent_runtime \<Rightarrow> agent_runtime \<Rightarrow> bool" where
  "same_fences X rt rt' \<longleftrightarrow> ag_in_flight rt' = ag_in_flight rt
     \<and> (\<forall>i. stored_operation X (ag_store rt') i = stored_operation X (ag_store rt) i)"

interpretation fences: evolution "same_fences X" for X
  by unfold_locales (auto simp: same_fences_def)

lemma same_fences_holds: "same_fences X rt rt' \<Longrightarrow> fenced X rt \<Longrightarrow> fenced X rt'"
  "same_fences X rt rt' \<Longrightarrow> holds X r rt \<Longrightarrow> holds X r rt'"
  by (auto simp: same_fences_def holds_def intro: fenced_same)

lemma same_fences_outside:
  "keeps (outside r) m \<Longrightarrow> r \<noteq> Operations \<Longrightarrow> keeps (same_fences X) (on_store m)"
  using outside_files [of r _ _ Operations]
  by (auto simp: keeps_def same_fences_def on_store_def within_apply intro!: stored_operation_same)

lemma delete_prompt_fences: "keeps (same_fences X) (on_store (delete_prompt X' i))"
  unfolding delete_prompt_def by (rule same_fences_outside [OF outside_writes(2)]) simp

lemma index_dispatch_input_fences: "keeps (same_fences X) (index_dispatch_input X' r)"
  unfolding index_dispatch_input_def
  by (intro keeps_intros) (simp add: keeps_def same_fences_def)

lemmas triple_same = triple_keeps [OF _ same_fences_holds(2), simplified]

lemma triple_release:
  assumes "\<not> dispatch_fenced r"
  shows "triple (holds X r) (release_dispatch_fence X r) (\<lambda>_. holds X r) (fenced X)"
  unfolding release_dispatch_fence_def
proof (intro triple_bind triple_give triple_modify)
  fix key rt assume h: "holds X r rt"
  have "fenced X (unfence key (op_operation_id r) rt)"
    unfolding fenced_def
  proof (intro allI impI)
    fix i q assume q: "flying X (ag_store (unfence key (op_operation_id r) rt)) i q"
    then have i: "i \<noteq> op_operation_id r"
      using h assms by (auto simp: flying_def holds_def)
    obtain k where "operation_target_key X (op_binding q) = Inr k" "bm_get (ag_in_flight rt) k = Some i"
      using q holds_fenced [OF h] by (auto simp: fenced_def)
    then show "\<exists>k. operation_target_key X (op_binding q) = Inr k
        \<and> bm_get (ag_in_flight (unfence key (op_operation_id r) rt)) k = Some i"
      using i by (auto simp: unfence_def bm_get_remove)
  qed
  then show "holds X r (unfence key (op_operation_id r) rt)"
    using h by (simp add: holds_def)
qed (auto simp: holds_def)

lemma triple_refence:
  assumes "dispatch_fenced r"
    and "operation_target_key X (op_binding r) = Inr key"
  shows "triple (holds X r) (modify_s (fence key (op_operation_id r))) (\<lambda>_. holds X r) (fenced X)"
proof (rule triple_modify)
  fix rt assume h: "holds X r rt"
  have "bm_get (ag_in_flight rt) key = Some (op_operation_id r)"
    using fencedD [OF holds_fenced [OF h] _ assms] h by (simp add: holds_def)
  then have "bm_get (ag_in_flight (fence key (op_operation_id r) rt)) = bm_get (ag_in_flight rt)"
    by (auto simp: fence_def bm_get_insert fun_eq_iff)
  then show "holds X r (fence key (op_operation_id r) rt)"
    using h by (simp add: holds_def fenced_def)
qed

section \<open>The operations of the dispatch\<close>

lemma advanced: "advance_operation_revision r t = Inr r' \<Longrightarrow> op_operation_id r' = op_operation_id r
    \<and> op_binding r' = op_binding r \<and> op_dispatch_state r' = op_dispatch_state r
    \<and> op_result_receipt r' = op_result_receipt r"
  by (auto simp: advance_operation_revision_def result_simps)

definition guarded :: "externals \<Rightarrow> bool" where
  "guarded X \<longleftrightarrow> synced X \<and> operation_codec X"

abbreviation held :: "externals \<Rightarrow> operation_record \<Rightarrow> ('a runtime_op) \<Rightarrow> bool" where
  "held X r m \<equiv> triple (holds X r) m (\<lambda>_. fenced X) (fenced X)"

abbreviation free :: "externals \<Rightarrow> ('a runtime_op) \<Rightarrow> bool" where
  "free X m \<equiv> triple (fenced X) m (\<lambda>_. fenced X) (fenced X)"

lemma held_give: "held X r (give v)"
  by (rule triple_give) (auto dest: holds_fenced)

lemma held_bind_give: "(\<And>a. v = Inr a \<Longrightarrow> held X r (f a)) \<Longrightarrow> held X r (bind_s (give v) f)"
  by (rule triple_bind_give) (auto dest: holds_fenced)

lemma held_bind_save:
  assumes "guarded X" and "op_operation_id r' = op_operation_id r"
    and "dispatch_fenced r' \<Longrightarrow> dispatch_fenced r \<and> target_of (op_binding r') = target_of (op_binding r)"
    and "\<And>u. operation_record_validate r' = Inr () \<Longrightarrow> held X r' (f u)"
  shows "held X r (bind_s (on_store (save_operation X r')) f)"
  using assms(1,4) by (intro triple_bind [OF triple_save [OF _ _ assms(2,3)]])
    (auto simp: triple_def holds_def guarded_def)

lemma held_bind_same:
  assumes "keeps (same_fences X) m" and "\<And>a. held X r (f a)"
  shows "held X r (bind_s m f)"
proof (rule triple_bind)
  show "triple (holds X r) m (\<lambda>_. holds X r) (fenced X)"
    by (rule triple_weaken [OF triple_keeps [OF assms(1), where P = "holds X r" and Q = "holds X r"]])
      (auto dest: holds_fenced same_fences_holds)
qed (rule assms(2))

lemmas held_bind_delete = held_bind_same [OF delete_prompt_fences]
lemmas held_bind_index = held_bind_same [OF index_dispatch_input_fences]

lemma held_bind_release:
  "\<not> dispatch_fenced r \<Longrightarrow> (\<And>u. held X r (f u)) \<Longrightarrow> held X r (bind_s (release_dispatch_fence X r) f)"
  by (rule triple_bind [OF triple_release])

lemma free_required:
  assumes "\<And>r. op_operation_id r = i \<Longrightarrow> operation_record_validate r = Inr () \<Longrightarrow> held X r (f r)"
  shows "free X (bind_s (ask_store (required_operation X i)) f)"
proof (rule triple_bind [OF triple_required])
  fix r
  show "triple (\<lambda>rt. holds X r rt \<and> op_operation_id r = i) (f r) (\<lambda>_. fenced X) (fenced X)"
  proof (rule triple_fact [where A = "op_operation_id r = i \<and> operation_record_validate r = Inr ()"])
    assume *: "op_operation_id r = i \<and> operation_record_validate r = Inr ()"
    show "triple (\<lambda>rt. holds X r rt \<and> op_operation_id r = i) (f r) (\<lambda>_. fenced X) (fenced X)"
      by (rule triple_weaken [OF assms]) (use * in auto)
  qed (simp add: holds_def)
qed

lemma held_bind_ask: "(\<And>a. held X r (f a)) \<Longrightarrow> held X r (bind_s (ask_store v) f)"
  unfolding ask_store_def by (rule held_bind_same [OF fences.keeps_asks])

lemma held_bind_fence:
  "i = op_operation_id r \<Longrightarrow> dispatch_fenced r \<Longrightarrow>
    operation_target_key X (op_binding r) = Inr key \<Longrightarrow> (\<And>u. held X r (f u)) \<Longrightarrow>
    held X r (bind_s (modify_s (fence key i)) f)"
  using triple_bind [OF triple_refence] by blast

lemma free_bind_asks: "(\<And>a. free X (f a)) \<Longrightarrow> free X (bind_s (asks v) f)"
  by (rule triple_bind [where Q = "\<lambda>_. fenced X"]) (auto intro: triple_asks)

lemma free_bind_give: "(\<And>a. v = Inr a \<Longrightarrow> free X (f a)) \<Longrightarrow> free X (bind_s (give v) f)"
  by (rule triple_bind_give)

lemma free_give: "free X (give v)"
  by (rule triple_give)

lemmas held_steps = triple_if held_bind_give held_bind_save held_bind_delete held_bind_index
  held_bind_release held_bind_fence held_bind_ask held_give

lemma fence_mark: "guarded X \<Longrightarrow> free X (mark_dispatch_started X i t)"
  unfolding mark_dispatch_started_def
  by (intro free_required held_steps)
    (auto dest!: advanced simp: dispatch_fenced_def operator_abandoned_def)

lemma rebound: "rebind_operation r run = Inr r' \<Longrightarrow> op_operation_id r' = op_operation_id r
    \<and> target_of (op_binding r') = target_of (op_binding r) \<and> op_dispatch_state r' = op_dispatch_state r
    \<and> op_result_receipt r' = op_result_receipt r"
  by (auto simp: rebind_operation_def Let_def operation_binding_matches_agent_def target_of_def
      operation_binding_from_def split: if_splits)

lemma fence_confirm: "guarded X \<Longrightarrow> free X (confirm_linked_operation X run t)"
  unfolding confirm_linked_operation_def
  by (intro triple_option free_required held_steps free_give)
    (auto dest!: advanced rebound simp: dispatch_fenced_def operator_abandoned_def confirmed_record_def)

lemma settled_not_abandoned:
  "operation_record_validate r = Inr () \<Longrightarrow> op_result_receipt r = Some receipt \<Longrightarrow>
    or_source_attribution receipt = None \<Longrightarrow> \<not> operator_abandoned r"
  by (auto simp: operation_record_validate_def abandoned_receipt_invalid_def operator_abandoned_def
      result_simps)

lemma started_not_abandoned: "op_dispatch_state r = DispatchStarted \<Longrightarrow> \<not> operator_abandoned r"
  by (simp add: operator_abandoned_def)

lemma fence_settle: "guarded X \<Longrightarrow> free X (settle_dispatch X i state code t)"
  unfolding settle_dispatch_def bind_s_if bind_s_assoc
  by (intro triple_if triple_option free_required held_steps free_give)
    (auto simp: settlement_allowed_def dispatch_fenced_def settled_record_def started_not_abandoned
      dest!: advanced dest: settled_not_abandoned)

lemma fence_abandon: "guarded X \<Longrightarrow> free X (abandon_operation X ref n reason t)"
  unfolding abandon_operation_def
  by (intro triple_if triple_option free_bind_asks free_bind_give free_required held_steps)
    (auto simp: dispatch_fenced_def operator_abandoned_def operator_abandon_def Let_def result_simps
      split: if_splits dest!: advanced)

text \<open>Preparing: the target is free, and the operation is fenced as soon as it is on disk.\<close>

definition vacant :: "externals \<Rightarrow> operation_id \<Rightarrow> str \<Rightarrow> agent_runtime \<Rightarrow> bool" where
  "vacant X i key rt \<longleftrightarrow> fenced X rt \<and> stored_operation X (ag_store rt) i = None \<and> bm_get (ag_in_flight rt) key = None"

definition saved :: "externals \<Rightarrow> operation_record \<Rightarrow> str \<Rightarrow> agent_runtime \<Rightarrow> bool" where
  "saved X r key rt \<longleftrightarrow> (\<forall>i q. flying X (ag_store rt) i q \<longrightarrow> (\<exists>k. operation_target_key X (op_binding q) = Inr k
      \<and> (if i = op_operation_id r then k = key else bm_get (ag_in_flight rt) k = Some i)))
    \<and> bm_get (ag_in_flight rt) key = None"

lemma fence_saved: "triple (saved X r key) (modify_s (fence key (op_operation_id r))) (\<lambda>_. fenced X) (fenced X)"
proof (rule triple_modify)
  fix rt assume "saved X r key rt"
  then show "fenced X (fence key (op_operation_id r) rt)"
    unfolding fenced_def saved_def fence_def by (simp add: bm_get_insert) (metis option.distinct(1))
qed

lemma save_vacant:
  assumes "guarded X" and "op_operation_id r = i" and "operation_target_key X (op_binding r) = Inr key"
  shows "triple (vacant X i key) (on_store (save_operation X r)) (\<lambda>_. saved X r key) (fenced X)"
proof (rule tripleI)
  fix rt rt' and e :: agent_store_error
  assume "vacant X i key rt" "on_store (save_operation X r) rt = (rt', Inl e)"
  then show "fenced X rt'"
    using failed_save_synced [of X r "ag_store rt"] assms(1)
    by (auto simp: on_store_iff vacant_def guarded_def intro!: fenced_same [of X rt] stored_operation_same)
      (metis in_flight_simps(1))
next
  fix rt rt' u assume v: "vacant X i key rt" and w: "on_store (save_operation X r) rt = (rt', Inr u)"
  then have w: "save_operation X r (ag_store rt) = (ag_store rt', Inr u)"
    and flight: "ag_in_flight rt' = ag_in_flight rt"
    by (auto simp: on_store_iff) (metis in_flight_simps(1))
  have "put_operation X r (ag_store rt) (ag_store rt')"
    using w assms(1) [unfolded guarded_def, THEN conjunct2] by (cases rule: save_operation_cases) (use v assms(2) in \<open>auto simp: vacant_def\<close>)
  then show "saved X r key rt'"
    using v flight assms by (auto simp: saved_def vacant_def fenced_def flying_def put_operation_def
        split: if_splits)
qed

lemma same_vacant: "same_fences X rt rt' \<Longrightarrow> vacant X i key rt \<Longrightarrow> vacant X i key rt'"
  using same_fences_holds(1) by (auto simp: vacant_def same_fences_def)

lemma stage_prompt_fences: "keeps (same_fences X) (on_store (stage_prompt X i body))"
  using same_fences_outside [OF outside_writes(1), of Prompts X X] fences.reflexive
  by (auto simp: keeps_def stage_prompt_def on_store_def within_apply split: sum.split)

lemma vacant_bind_stage:
  assumes "\<And>u. triple (vacant X i key) (f u) Q (fenced X)"
  shows "triple (vacant X i key) (bind_s (catch_s (on_store (stage_prompt X i body)) (\<lambda>e. give (Inl (h e)))) f)
    Q (fenced X)"
proof (rule triple_bind [OF triple_catch])
  show "triple (vacant X i key) (on_store (stage_prompt X i body)) (\<lambda>_. vacant X i key) (vacant X i key)"
    by (rule triple_keeps [OF stage_prompt_fences]) (rule same_vacant)
qed (auto intro: assms triple_give simp: vacant_def)

lemma vacant_bind_save:
  assumes "guarded X" and "op_operation_id r = i" and "operation_target_key X (op_binding r) = Inr key"
    and "\<And>u. triple (saved X r key) (f u) Q (fenced X)"
  shows "triple (vacant X i key) (bind_s (catch_s (on_store (save_operation X r)) (\<lambda>e.
      bind_s (attempt_s (on_store (delete_prompt X i))) (\<lambda>_. give (Inl (h e))))) f) Q (fenced X)"
proof (rule triple_bind [OF triple_catch [OF save_vacant [OF assms(1,2,3)]]])
  fix e
  have "triple (fenced X) (on_store (delete_prompt X i)) (\<lambda>_. fenced X) (fenced X)"
    by (rule triple_keeps [OF delete_prompt_fences]) (rule same_fences_holds(1))
  then show "triple (fenced X) (bind_s (attempt_s (on_store (delete_prompt X i))) (\<lambda>_. give (Inl (h e))))
      (\<lambda>_. saved X r key) (fenced X)"
    by (rule triple_bind [OF triple_attempt]) (auto intro: triple_give)
qed (rule assms(4))

definition absent :: "externals \<Rightarrow> operation_id \<Rightarrow> agent_runtime \<Rightarrow> bool" where
  "absent X i rt \<longleftrightarrow> fenced X rt \<and> stored_operation X (ag_store rt) i = None"

lemma lookup_absent: "lookup_operation_request X i fp s = Inr None \<Longrightarrow> stored_operation X s i = None"
  using load_operation_absent
  by (cases "load_operation X i s") (auto simp: lookup_operation_request_def split: option.splits if_splits)

lemma free_bind_lookup:
  assumes "\<And>r. triple (fenced X) (f (Some r)) Q (fenced X)" and "triple (absent X i) (f None) Q (fenced X)"
  shows "triple (fenced X) (bind_s (ask_store (lookup_operation_request X i fp)) f) Q (fenced X)"
proof (rule triple_bind)
  show "triple (fenced X) (ask_store (lookup_operation_request X i fp))
      (\<lambda>e rt. fenced X rt \<and> (e = None \<longrightarrow> absent X i rt)) (fenced X)"
    unfolding ask_store_def by (rule triple_asks) (auto simp: absent_def dest: lookup_absent)
  show "triple (\<lambda>rt. fenced X rt \<and> (e = None \<longrightarrow> absent X i rt)) (f e) Q (fenced X)" for e
    by (cases e) (auto intro: triple_weaken [OF assms(1)] triple_weaken [OF assms(2)])
qed

lemma absent_bind_key:
  "(\<And>k. v = Inr k \<Longrightarrow> triple (absent X i) (f k) Q (fenced X)) \<Longrightarrow> triple (absent X i) (bind_s (give v) f) Q (fenced X)"
  by (rule triple_bind_give) (auto simp: absent_def)

lemma absent_bind_free:
  "(\<And>u. triple (vacant X i key) (f u) Q (fenced X)) \<Longrightarrow>
    triple (absent X i) (bind_s (asks (\<lambda>rt. fail_if (bm_get (ag_in_flight rt) key \<noteq> None) e)) f) Q (fenced X)"
  by (rule triple_bind [OF triple_asks]) (auto simp: absent_def vacant_def result_simps)

lemma vacant_bind_record:
  assumes "\<And>r. op_operation_id r = oq_operation_id q \<Longrightarrow> op_binding r = oq_binding q \<Longrightarrow>
    triple (vacant X i key) (f r) Q (fenced X)"
  shows "triple (vacant X i key) (bind_s (ask_store (prepared_record X q)) f) Q (fenced X)"
proof (rule triple_bind)
  let ?A = "\<lambda>r. op_operation_id r = oq_operation_id q \<and> op_binding r = oq_binding q"
  show "triple (vacant X i key) (ask_store (prepared_record X q)) (\<lambda>r rt. vacant X i key rt \<and> ?A r) (fenced X)"
    unfolding ask_store_def
    by (rule triple_asks) (auto simp: vacant_def prepared_record_def Let_def split: if_splits)
  show "triple (\<lambda>rt. vacant X i key rt \<and> ?A r) (f r) Q (fenced X)" for r
    by (rule triple_fact [where A = "?A r"]) (auto intro: triple_weaken [OF assms])
qed

lemma saved_bind_fence:
  "i = op_operation_id r \<Longrightarrow> triple (saved X r key) (bind_s (modify_s (fence key i)) (\<lambda>_. give v)) (\<lambda>_. fenced X) (fenced X)"
  using fence_saved by (auto intro: triple_bind triple_give)

lemma fence_prepare: "guarded X \<Longrightarrow> free X (prepare_operation X q)"
  unfolding prepare_operation_def
  by (intro free_bind_give free_bind_lookup triple_option free_give absent_bind_key absent_bind_free
      vacant_bind_stage vacant_bind_record vacant_bind_save saved_bind_fence) auto

section \<open>The daemon\<close>

definition fences_kept :: "externals \<Rightarrow> agent_runtime \<Rightarrow> agent_runtime \<Rightarrow> bool" where
  "fences_kept X rt rt' \<longleftrightarrow> (guarded X \<longrightarrow> fenced X rt \<longrightarrow> fenced X rt')"

lemma same_fences_kept: "keeps (same_fences X) m \<Longrightarrow> keeps (fences_kept X) m"
  using same_fences_holds(1) by (auto simp: keeps_def fences_kept_def)

lemma outside_fences_kept:
  fixes m :: "'a store_op"
  shows "keeps (outside r) m \<Longrightarrow> r \<noteq> Operations \<Longrightarrow> keeps (on_stores (fences_kept X)) m"
  using same_fences_kept [OF same_fences_outside [of r m X]] by (simp add: keeps_on_store)

lemma free_kept: "(guarded X \<Longrightarrow> free X m) \<Longrightarrow> keeps (fences_kept X) m"
  using keeps_triple [of "fenced X" m] by (auto simp: keeps_def fences_kept_def)

interpretation fence: durable "fences_kept X" X for X
proof
  show "fences_kept X rt rt" for rt
    by (simp add: fences_kept_def)
  show "fences_kept X rt rt' \<Longrightarrow> fences_kept X rt' rt'' \<Longrightarrow> fences_kept X rt rt''" for rt rt' rt''
    by (simp add: fences_kept_def)
  show "ag_store rt' = ag_store rt \<Longrightarrow> ag_in_flight rt' = ag_in_flight rt \<Longrightarrow> fences_kept X rt rt'" for rt rt'
    by (simp add: fences_kept_def fenced_def)
  show "keeps (on_stores (fences_kept X)) (save_run X run)" for run
    by (rule outside_fences_kept [OF save_run_outside]) simp
  show "r = Prompts \<or> r = Artifacts \<Longrightarrow> keeps (on_stores (fences_kept X)) (write_bytes_atomic X r name body)"
    "r = Prompts \<or> r = Artifacts \<Longrightarrow> keeps (on_stores (fences_kept X)) (remove_file_and_sync X r name)"
    for r name body
    by (auto intro: outside_fences_kept outside_writes)
qed (auto intro: free_kept fence_prepare fence_mark fence_settle fence_abandon fence_confirm)

interpretation fence_serve: durable_retention "fences_kept X" X for X
proof
  show "keeps (on_stores (fences_kept X)) (remove_files_and_sync X Runs names)"
    "keeps (on_stores (fences_kept X)) (remove_files_and_sync X Artifacts names)" for names
    by (auto intro: outside_fences_kept remove_files_outside)
  show "on_stores (fences_kept X) s (set_run_capacity c s)" for s c
    by (auto simp: on_stores_def fences_kept_def set_run_capacity_def fenced_def flying_def
        stored_operation_def put_store_def)
qed

section \<open>Restarts\<close>

definition shrunk :: "externals \<Rightarrow> agent_store \<Rightarrow> agent_store \<Rightarrow> bool" where
  "shrunk X s t \<longleftrightarrow> (\<forall>i r. stored_operation X t i = Some r \<longrightarrow> stored_operation X s i = Some r)"

lemma shrunk_unique: "shrunk X s t \<Longrightarrow> one_per_target X s \<Longrightarrow> one_per_target X t"
  unfolding shrunk_def one_per_target_def flying_def by metis

lemma shrunk_get:
  "(\<And>name body. bm_get (as_operations t) name = Some body \<Longrightarrow> bm_get (as_operations s) name = Some body) \<Longrightarrow>
    shrunk X s t"
  by (fastforce simp: shrunk_def stored_operation_def split: option.splits)

lemma remove_each_files:
  "remove_each X r b names s = (t, res) \<Longrightarrow> bm_get (files r t) name = Some body \<Longrightarrow>
    bm_get (files r s) name = Some body \<and> (is_ok res \<longrightarrow> name \<notin> set names)"
proof (induction names arbitrary: b s)
  case (Cons n names)
  let ?t = "put_files r (bm_remove n (files r s)) (next_call s)"
  from Cons.prems consider "t = s" "\<not> is_ok res" | "t = next_call s" "\<not> is_ok res"
    | b' where "remove_each X r b' names ?t = (t, res)"
    by (auto simp: Let_def split: if_splits sum.splits)
  then show ?case
  proof cases
    case (3 b')
    from Cons.IH [OF this Cons.prems(2)] show ?thesis
      by (auto simp: bm_get_remove split: if_splits)
  qed (use Cons.prems(2) in auto)
qed simp

lemma remove_files_files:
  assumes "remove_files_and_sync X r names s = (t, res)" and "bm_get (files r t) name = Some body"
  shows "bm_get (files r s) name = Some body \<and> (is_ok res \<longrightarrow> name \<notin> set names)"
proof -
  obtain u res' where "remove_each X r False names s = (u, res')" "files r t = files r u" "is_ok res \<Longrightarrow> is_ok res'"
    using assms(1) by (cases "remove_each X r False names s")
      (auto simp: remove_files_and_sync_def bind_s_def sync_directory_def split: sum.splits if_splits)
  then show ?thesis
    using remove_each_files assms(2) by metis
qed

interpretation shrinking: operation_reads "shrunk X" X for X
proof
  show "shrunk X s t" if "as_operations t = as_operations s" for s t
    using that by (simp add: shrunk_def stored_operation_def)
  show "shrunk X s s" "shrunk X s t \<Longrightarrow> shrunk X t u \<Longrightarrow> shrunk X s u" for s t u
    by (simp_all add: shrunk_def)
  show "keeps (shrunk X) (remove_files_and_sync X Operations (filter is_temporary names))" for names
    by (rule keepsI, rule shrunk_get) (use remove_files_files [of X Operations] in fastforce)
qed

text \<open>An opened store has no leftovers of interrupted writes among its operations.\<close>

definition settled_names :: "agent_store \<Rightarrow> agent_store \<Rightarrow> bool" where
  "settled_names s t \<longleftrightarrow> (\<forall>name. bm_get (as_operations t) name \<noteq> None \<longrightarrow> bm_get (as_operations s) name \<noteq> None)"

interpretation names: operation_reads settled_names X for X
proof
  show "settled_names s t" if "as_operations t = as_operations s" for s t
    using that by (simp add: settled_names_def)
  show "settled_names s s" "settled_names s t \<Longrightarrow> settled_names t u \<Longrightarrow> settled_names s u" for s t u
    by (simp_all add: settled_names_def)
  show "keeps settled_names (remove_files_and_sync X Operations (filter is_temporary names))" for names
    by (rule keepsI) (use remove_files_files [of X Operations] in \<open>fastforce simp: settled_names_def\<close>)
qed

lemma cleaned_temporary:
  assumes "cleanup_temporary_files X Operations s = (t, Inr ())" and "bm_get (as_operations t) name \<noteq> None"
  shows "\<not> is_temporary name"
proof -
  obtain body where body: "bm_get (files Operations t) name = Some body"
    using assms(2) by auto
  have "remove_files_and_sync X Operations (filter is_temporary (map fst (files Operations s))) s = (t, Inr ())"
    using assms(1) by (auto simp: cleanup_temporary_files_def split: sum.splits)
  from remove_files_files [OF this body] show ?thesis
    using map_of_SomeD by force
qed

lemma opened_names:
  assumes "open_or_initialize X env s = (t, Inr ())" and "bm_get (as_operations t) name \<noteq> None"
  shows "\<not> is_temporary name"
proof -
  obtain u v w c c' where u: "cleanup_temporary_files X Operations u = (v, Inr ())"
    "cleanup_orphans X v = (w, Inr ())" and t: "t = set_operation_capacity c (set_run_capacity c' w)"
    using assms(1) by (auto simp: open_or_initialize_def result_simps split: if_splits)
  have "settled_names v w"
    using names.cleanup_orphans u(2) by (rule keepsD)
  then show ?thesis
    using cleaned_temporary [OF u(1)] assms(2)
    by (auto simp: t settled_names_def set_operation_capacity_def set_run_capacity_def)
qed

text \<open>The fences are built again from the operations on disk.\<close>

definition same_store :: "agent_runtime \<Rightarrow> agent_runtime \<Rightarrow> bool" where
  "same_store rt rt' \<longleftrightarrow> ag_store rt' = ag_store rt"

interpretation indexing: evolution same_store
  by unfold_locales (simp_all add: same_store_def)

lemma index_run_store: "keeps same_store (index_run X run)"
  unfolding index_run_def set_current_def ask_store_def
  by (intro keeps_intros) (simp_all add: keeps_def same_store_def)

definition fenced_among :: "externals \<Rightarrow> str list \<Rightarrow> agent_runtime \<Rightarrow> bool" where
  "fenced_among X names rt \<longleftrightarrow> (\<forall>i r. flying X (ag_store rt) i r \<longrightarrow> operation_file i \<in> set names \<longrightarrow>
     (\<exists>key. operation_target_key X (op_binding r) = Inr key \<and> bm_get (ag_in_flight rt) key = Some i))"

lemma read_operation_stored:
  assumes "read_operation_file X name s = Inr r"
  shows "name = operation_file (op_operation_id r)" "stored_operation X s (op_operation_id r) = Some r"
proof -
  show name: "name = operation_file (op_operation_id r)"
    using assms by (auto simp: read_operation_file_def result_simps split: if_splits)
  obtain r' where "read_json X (x_decode_operation X) Operations name OPERATION_RECORD_MAX_BYTES ''operation record'' s = Inr r'"
    "r' = r"
    using assms by (auto simp: read_operation_file_def result_simps split: if_splits)
  then have json: "read_json X (x_decode_operation X) Operations name OPERATION_RECORD_MAX_BYTES ''operation record'' s = Inr r"
    by simp
  then obtain bytes where "bm_get (files Operations s) name = Some bytes"
    by (auto simp: read_json_def read_private_file_def result_simps split: option.splits)
  then show "stored_operation X s (op_operation_id r) = Some r"
    using read_json_file(1) [OF json] name by (simp add: stored_operation_def)
qed

lemma note_operation_fenced:
  assumes "note_operation X rt r = Inr rt'" and "fenced_among X names rt" and "one_per_target X (ag_store rt)"
    and r: "stored_operation X (ag_store rt) (op_operation_id r) = Some r"
  shows "ag_store rt' = ag_store rt" "fenced_among X (names @ [operation_file (op_operation_id r)]) rt'"
proof -
  let ?i = "op_operation_id r"
  obtain rt'' where n: "(if dispatch_fenced r then bind_r (operation_target_key X (op_binding r))
      (\<lambda>key. Inr (fence key ?i rt)) else Inr rt) = Inr rt''"
    and store: "ag_store rt' = ag_store rt''" "ag_in_flight rt' = ag_in_flight rt''"
    using assms(1) by (auto simp: note_operation_def result_simps split: if_splits)
  show same: "ag_store rt' = ag_store rt"
    using n store by (auto simp: result_simps split: if_splits)
  show "fenced_among X (names @ [operation_file ?i]) rt'"
    unfolding fenced_among_def
  proof (intro allI impI)
    fix j q assume q: "flying X (ag_store rt') j q" and j: "operation_file j \<in> set (names @ [operation_file ?i])"
    show "\<exists>key. operation_target_key X (op_binding q) = Inr key \<and> bm_get (ag_in_flight rt') key = Some j"
    proof (cases "j = ?i")
      case True
      then have "q = r" "dispatch_fenced r"
        using q r same by (auto simp: flying_def)
      then show ?thesis
        using n store True by (auto simp: fence_def bm_get_insert result_simps)
    next
      case False
      then obtain k where k: "operation_target_key X (op_binding q) = Inr k" "bm_get (ag_in_flight rt) k = Some j"
        using assms(2) q j same by (auto simp: fenced_among_def)
      have "flying X (ag_store rt) ?i r" if "dispatch_fenced r"
        using that r by (simp add: flying_def)
      then have "operation_target_key X (op_binding r) \<noteq> Inr k" if "dispatch_fenced r"
        using assms(3) q same k(1) False that unfolding one_per_target_def by metis
      then have "bm_get (ag_in_flight rt'') k = Some j"
        using n k(2) by (auto simp: fence_def bm_get_insert result_simps split: if_splits)
      then show ?thesis
        using k(1) store by auto
    qed
  qed
qed

lemma visit_fenced:
  assumes "fold_r (visit_file Operations (lit ''.json'') limit label' s
      (\<lambda>v name. bind_r (read_operation_file X name s) (note_operation X v))) (n, rt) fs = Inr (n', rt')"
    and "ag_store rt = s" and "fenced_among X names rt" and "one_per_target X s"
    and "\<And>f. f \<in> set fs \<Longrightarrow> \<not> is_temporary (fst f)"
  shows "ag_store rt' = s \<and> fenced_among X (names @ map fst fs) rt'"
  using assms
proof (induction fs arbitrary: n rt names)
  case (Cons f fs)
  let ?V = "visit_file Operations (lit ''.json'') limit label' s
      (\<lambda>v name. bind_r (read_operation_file X name s) (note_operation X v))"
  obtain a where a: "?V (n, rt) f = Inr a" "fold_r ?V a fs = Inr (n', rt')"
    using Cons.prems(1) by (auto simp: result_simps)
  obtain r rt'' where r: "read_operation_file X (fst f) s = Inr r" "note_operation X rt r = Inr rt''"
    and "a = (Suc n, rt'')"
    using a(1) Cons.prems(5) by (auto simp: visit_file_def result_simps split: if_splits)
  then have rest: "fold_r ?V (Suc n, rt'') fs = Inr (n', rt')"
    using a(2) by simp
  note r' = read_operation_stored [OF r(1)]
  have "ag_store rt'' = s" "fenced_among X (names @ [fst f]) rt''"
    using note_operation_fenced [OF r(2) Cons.prems(3)] r' Cons.prems(2,4) by simp_all
  from Cons.IH [OF rest this Cons.prems(4)] Cons.prems(5) show ?case
    by simp
qed simp

lemma note_operations_fenced:
  assumes "note_operations X rt = (rt', Inr ())" and "one_per_target X (ag_store rt)"
    and "\<And>name. bm_get (as_operations (ag_store rt)) name \<noteq> None \<Longrightarrow> \<not> is_temporary name"
  shows "fenced X rt'"
proof -
  have "for_each_operation X (note_operation X) rt (ag_store rt) = Inr rt'"
    using assms(1) by (auto simp: note_operations_def split: sum.splits)
  then obtain n where n: "fold_r (visit_file Operations (lit ''.json'') OPERATION_STORE_MAX_RECORDS ''operation store'' (ag_store rt)
      (\<lambda>v name. bind_r (read_operation_file X name (ag_store rt)) (note_operation X v))) (0, rt) (as_operations (ag_store rt)) = Inr (n, rt')"
    by (auto simp: for_each_operation_def for_each_canonical_file_def result_simps)
  have "\<not> is_temporary (fst f)" if "f \<in> set (as_operations (ag_store rt))" for f
    using assms(3) [of "fst f"] that weak_map_of_SomeI [of "fst f" "snd f"] by auto
  from visit_fenced [OF n refl _ assms(2) this, of "[]"]
  have *: "ag_store rt' = ag_store rt" "fenced_among X (map fst (as_operations (ag_store rt))) rt'"
    by (simp_all add: fenced_among_def)
  have "operation_file i \<in> set (map fst (as_operations (ag_store rt')))" if "flying X (ag_store rt') i r" for i r
    using that * by (auto simp: flying_def stored_operation_def image_iff split: option.splits dest!: map_of_SomeD)
      (metis fst_conv)
  then show ?thesis
    using * by (auto simp: fenced_among_def fenced_def)
qed

definition ready_to_note :: "externals \<Rightarrow> agent_runtime \<Rightarrow> bool" where
  "ready_to_note X rt \<longleftrightarrow> one_per_target X (ag_store rt)
     \<and> (\<forall>name. bm_get (as_operations (ag_store rt)) name \<noteq> None \<longrightarrow> \<not> is_temporary name)"

lemma open_fenced:
  assumes "guarded X"
  shows "triple (\<lambda>rt. one_per_target X (ag_store rt)) (open_runtime X env) (\<lambda>_. fenced X)
    (\<lambda>rt. one_per_target X (ag_store rt))"
  unfolding open_runtime_def rebuild_indexes_def bind_s_assoc
proof (intro triple_bind)
  let ?one = "\<lambda>rt. one_per_target X (ag_store rt)"
  show "triple ?one (on_store (open_or_initialize X env)) (\<lambda>_. ready_to_note X) ?one"
    using keepsD [OF shrinking.open_or_initialize] shrunk_unique opened_names
    by (intro tripleI) (auto simp: on_store_iff ready_to_note_def, blast+)
  show "triple (ready_to_note X) (modify_s clear_indexes) (\<lambda>_. ready_to_note X) ?one"
    by (rule triple_modify) (simp add: ready_to_note_def)
  show "triple (ready_to_note X) (ask_store (list_runs X)) (\<lambda>_. ready_to_note X) ?one"
    unfolding ask_store_def by (rule triple_asks) (auto simp: ready_to_note_def)
  show "triple (ready_to_note X) (each_s (index_run X) runs) (\<lambda>_. ready_to_note X) ?one" for runs
    by (rule triple_weaken [OF triple_keeps [where P = "ready_to_note X" and Q = "ready_to_note X",
        OF indexing.keeps_each [OF index_run_store]]]) (auto simp: ready_to_note_def same_store_def)
  show "triple (ready_to_note X) (note_operations X) (\<lambda>_. fenced X) ?one"
  proof (rule tripleI)
    show "fenced X t" if "ready_to_note X s" "note_operations X s = (t, Inr u)" for s t u
      using that by (intro note_operations_fenced [of X s]) (auto simp: ready_to_note_def)
    show "?one t" if "ready_to_note X s" "note_operations X s = (t, Inl e)" for s t e
      using that by (auto simp: ready_to_note_def note_operations_def split: sum.splits)
  qed
  show "triple (fenced X) (reconcile_in_flight_after_restart X) (\<lambda>_. fenced X) ?one"
    using assms fenced_unique
    by (intro triple_weaken [OF triple_keeps [OF fence.reconcile_in_flight, where P = "fenced X" and Q = "fenced X"]])
      (auto simp: fences_kept_def)
qed

section \<open>Property\<close>

text \<open>
  C19. At most one unsettled dispatch per target: provided that no sync of a directory
  fails after its rename, two operations on disk that are prepared, started or ambiguous
  and not abandoned never share the target pane, agent and process, through all requests,
  crashes and restarts of a daemon that has started with an empty store.
\<close>

theorem one_dispatch_per_target:
  assumes "operation_codec X" and "synced X" and "as_operations (ag_store rt0) = []"
    and "daemon_run X events (Down rt0) = d"
    and "stored_operation X (daemon_store d) i = Some r" and "dispatch_fenced r"
    and "stored_operation X (daemon_store d) j = Some r'" and "dispatch_fenced r'"
    and "target_of (op_binding r) = target_of (op_binding r')"
    and "is_ok (operation_target_key X (op_binding r))"
  shows "i = j"
proof -
  let ?I = "\<lambda>d. one_per_target X (daemon_store d) \<and> (case d of Serving rt \<Rightarrow> fenced X rt | Down _ \<Rightarrow> True)"
  have guarded: "guarded X"
    using assms(1,2) by (simp add: guarded_def)
  have "?I (daemon_run X events (Down rt0))"
  proof (rule daemon_run_invariant)
    show "?I (Down rt0)"
      using assms(3) by (simp add: one_per_target_def flying_def stored_operation_def)
    fix e d assume I: "?I d"
    show "?I (daemon_step X e d)"
    proof (cases e)
      case (Request q)
      show ?thesis
      proof (cases d)
        case (Serving rt)
        then have "fenced X (handle X q rt)"
          using I guarded fence_serve.handle [of X rt q] by (simp add: fences_kept_def)
        then show ?thesis
          using Request Serving fenced_unique by simp
      qed (use I Request in simp)
    next
      case (Restart env)
      obtain rt res where rt: "open_runtime X env (daemon_runtime d) = (rt, res)"
        by fastforce
      have one: "one_per_target X (daemon_store d)"
        using I by simp
      show ?thesis
      proof (cases res)
        case (Inl e)
        then have "one_per_target X (ag_store rt)"
          using tripleD(2) [OF open_fenced [OF guarded] one] rt by simp
        then show ?thesis
          using Restart rt Inl by simp
      next
        case (Inr u)
        then have "fenced X rt"
          using tripleD(1) [OF open_fenced [OF guarded] one] rt by simp
        then show ?thesis
          using Restart rt Inr fenced_unique by simp
      qed
    next
      case Crash
      then show ?thesis
        using conjunct1 [OF I] by simp
    qed
  qed
  then have "one_per_target X (daemon_store d)"
    using assms(4) by simp
  moreover obtain key where "operation_target_key X (op_binding r) = Inr key"
    using assms(10) by (cases "operation_target_key X (op_binding r)") auto
  moreover have "operation_target_key X (op_binding r') = operation_target_key X (op_binding r)"
    by (rule target_key_same [OF assms(9) [symmetric]])
  moreover have "flying X (daemon_store d) i r" "flying X (daemon_store d) j r'"
    unfolding flying_def using assms(5-8) by blast+
  ultimately show ?thesis
    unfolding one_per_target_def by metis
qed

end
