(* ===== verification/AgentErrors.thy ===== *)
theory AgentErrors
  imports AgentFences AgentTheorems
begin

text \<open>
  Where the rules of the store and the runtime above it disagree: updates that the runtime
  builds and the store refuses, and what a failed preparation leaves on the disk.
\<close>

section \<open>An evicted reference\<close>

lemma zip_shifted:
  assumes "distinct (map f xs)" and "i < length xs" and "f y \<notin> f ` set xs"
  shows "\<exists>p \<in> set (zip xs (remove_at i xs @ [y])). f (fst p) \<noteq> f (snd p)"
proof -
  let ?ys = "remove_at i xs @ [y]"
  have len: "length ?ys = length xs"
    using assms(2) by (simp add: remove_at_def)
  have "f (xs ! i) \<noteq> f (?ys ! i)"
  proof (cases "Suc i < length xs")
    case True
    then have "?ys ! i = xs ! Suc i"
      using assms(2) by (simp add: remove_at_def nth_append)
    then show ?thesis
      using assms(1) True nth_eq_iff_index_eq [of "map f xs" i "Suc i"] by simp
  next
    case False
    then have "?ys ! i = y"
      using assms(2) by (simp add: remove_at_def nth_append)
    then show ?thesis
      using assms(2,3) by (metis image_eqI nth_mem)
  qed
  then show ?thesis
    using assms(2) len by (intro bexI [where x = "(xs ! i, ?ys ! i)"]) (auto simp: in_set_zip)
qed

lemma response_hook:
  assumes "apply_hook entropy ob r = Inr t" and "correctness_event_ref ob \<noteq> None"
  shows "run_evidence t = run_evidence r" "run_generation t = run_generation r" "run_updated_at t = run_updated_at r"
    "run_record_validate H J r = Inr () \<Longrightarrow> run_resolution r \<noteq> None \<Longrightarrow> run_resolution t = run_resolution r"
  using assms by (auto simp: apply_hook_def correctness_event_ref_def result_simps run_record_validate_def
      split: provider_hook_kind.splits if_splits execution_phase.splits semantic_outcome.splits option.splits)

text \<open>
  C25. The run reducer makes room for a prompt or a Stop by evicting a reference, and the
  store refuses the record that results: it compares the references position by position.
  So an accepted observation on a run whose references are full never reaches the disk.
\<close>

theorem evicting_observation_refused:
  assumes "run_record_validate H J r = Inr ()"
    and "apply_observation H J entropy r ob = Inr (r', Applied)"
    and "correctness_event_ref ob = Some ref" and "distinct (map pr_event_ref (events_of r))"
    and "length (events_of r) = RUN_EVENT_REFERENCE_MAX_COUNT"
  shows "validate_run_replacement r r' =
    Inl (Conflict (Msg ''provider evidence identity changed during replacement''))"
  using assms(2)
proof (cases rule: apply_observation_cases)
  case (fresh t u)
  note hook = response_hook [OF fresh(2)] apply_hook_simps [OF fresh(2)]
  have t: "run_evidence t = run_evidence r"
    using hook(1) assms(3) by simp
  obtain events digest disposition where room: "make_room (events_of r) = Inr events"
    and u: "events_of u = events @ [new_reference t ob ref digest disposition]"
    using fresh(3) assms(3) t by (auto simp: append_provider_reference_def result_simps)
  obtain i where i: "i < length (events_of r)" "events = remove_at i (events_of r)"
    using room assms(5) by (cases rule: make_room_cases) auto
  have "ref \<notin> pr_event_ref ` set (events_of r)"
    using fresh(1) assms(3) by (auto simp: find_stable_provider_reference_def find_None_iff)
  then obtain p where p: "p \<in> set (zip (events_of r) (events_of u))" "pr_event_ref (fst p) \<noteq> pr_event_ref (snd p)"
    using zip_shifted [OF assms(4) i(1), of "new_reference t ob ref digest disposition"] u i(2)
    by (auto simp: new_reference_def)
  have len: "length (events_of u) = length (events_of r)"
    using u i assms(5) by (simp add: remove_at_length RUN_EVENT_REFERENCE_MAX_COUNT_def)
  have same: "run_evidence r' = run_evidence u"
    "re_activity_count (run_evidence u) = re_activity_count (run_evidence r)"
    "re_permission_request_count (run_evidence u) = re_permission_request_count (run_evidence r)"
    "re_user_input_request_count (run_evidence u) = re_user_input_request_count (run_evidence r)"
    "re_process_absence_count (run_evidence u) = re_process_absence_count (run_evidence r)"
    "re_terminal_still_count (run_evidence u) = re_terminal_still_count (run_evidence r)"
    using fresh(3) t stamp_revision_simps [OF fresh(4)] by (auto simp: append_provider_reference_def result_simps)
  have "validate_evidence_replacement (run_evidence r) (run_evidence r') =
      Inl (Conflict (Msg ''provider evidence identity changed during replacement''))"
    using p len same unfolding validate_evidence_replacement_def provider_event_kept_def list_ex_iff
    by (auto split: prod.splits)
  moreover have "run_updated_at r' \<ge> run_updated_at r" "run_generation r' = run_generation r"
    using fresh(3,4) hook(2,3) assms(3) by (auto simp: append_provider_reference_def stamp_revision_def result_simps)
  moreover have "run_resolution r \<noteq> None \<Longrightarrow> run_resolution t = run_resolution r"
    using hook(4) [OF _ assms(1)] assms(3) by simp
  then have "\<not> (run_resolution r \<noteq> None \<and> run_resolution r' \<noteq> run_resolution r)"
    using append_reference_simps(2) [OF fresh(3)] stamp_revision_simps(4) [OF fresh(4)]
    by (cases "run_resolution r") simp_all
  moreover have "run_revision r' = saturating_inc (run_revision r)"
    using hook append_reference_simps [OF fresh(3)] stamp_revision_simps [OF fresh(4)]
    by (simp add: saturating_inc_def)
  moreover have "same_run r r'" "finality r r'"
    using run_step_keeps [of H J r "(entropy, ob)" r'] assms(2) by (auto simp: run_step_Inr)
  ultimately show ?thesis
    unfolding validate_run_replacement_def same_run_def finality_def by auto
qed simp

section \<open>A repeated capacity failure\<close>

text \<open>
  C26. The runtime builds the record of a repeated capacity failure without a new
  revision, but with the later time of the observation: the store refuses the update
  instead of taking the repetition for the same event.
\<close>

theorem capacity_failure_repeat_refused:
  assumes "capacity_failed_run X run turn t1 = Inr run1" and "capacity_failed_run X run1 turn t2 = Inr run2"
    and "the (re_last_observed_at (run_evidence run1)) < t2" and "run_revision run1 \<noteq> - 1"
  shows "run2 \<noteq> run1 \<and> validate_run_replacement run1 run2 =
    Inl (Conflict (Msg ''run replacement must advance revision and time exactly once''))"
proof -
  let ?ref = "capacity_reference (capacity_digest X run1 turn) t2"
  have one: "run_execution_phase run1 = PhaseError" "re_last_observed_at (run_evidence run1) \<noteq> None"
    "list_ex (\<lambda>e. pr_event_ref e = pr_event_ref ?ref) (events_of run1)"
    using assms(1) by (auto simp: capacity_failed_run_def capacity_reference_def capacity_digest_def
        Let_def result_simps)
  then have two: "run2 = run1\<lparr>run_evidence := run_evidence run2\<rparr>"
    "re_last_observed_at (run_evidence run2) = Some (max (the (re_last_observed_at (run_evidence run1))) t2)"
    using assms(2) by (auto simp: capacity_failed_run_def Let_def result_simps)
  then have "re_last_observed_at (run_evidence run2) \<noteq> re_last_observed_at (run_evidence run1)"
    using assms(3) one(2) by auto
  then have "run2 \<noteq> run1"
    by metis
  moreover have "run_revision run2 \<noteq> saturating_inc (run_revision run1)"
    using assms(4) by (subst two(1)) (simp add: saturating_inc_def)
  moreover have "run_generation run2 = run_generation run1" "run_run_id run2 = run_run_id run1"
    "run_run_seq run2 = run_run_seq run1" "run_binding run2 = run_binding run1"
    "run_provider_turn_key run2 = run_provider_turn_key run1" "run_operation_id run2 = run_operation_id run1"
    "run_created_at run2 = run_created_at run1"
    by (subst two(1), simp)+
  ultimately show ?thesis
    unfolding validate_run_replacement_def by simp
qed

section \<open>A half prepared operation\<close>

text \<open>Opening a store makes no file of a body.\<close>

definition no_new_files :: "agent_store \<Rightarrow> agent_store \<Rightarrow> bool" where
  "no_new_files s t \<longleftrightarrow> (\<forall>r name. bm_get (files r s) name = None \<longrightarrow> bm_get (files r t) name = None)"

interpretation shrink: evolution no_new_files
  by unfold_locales (auto simp: no_new_files_def)

lemma removal_no_new: "keeps no_new_files (remove_files_and_sync X r names)"
proof (rule keepsI)
  fix s t res assume *: "remove_files_and_sync X r names s = (t, res)"
  show "no_new_files s t"
    unfolding no_new_files_def
  proof (intro allI impI)
    fix r' name assume "bm_get (files r' s) name = None"
    then show "bm_get (files r' t) name = None"
      using remove_files_files [OF *] outside_files [OF keepsD [OF remove_files_outside *], of r']
      by (cases "r' = r"; cases "bm_get (files r' t) name") auto
  qed
qed

lemma cleanup_no_new:
  "keeps no_new_files (cleanup_body_directory X r referenced)"
  "keeps no_new_files (cleanup_temporary_files X r)"
  "keeps no_new_files (cleanup_orphans X)"
proof -
  show *: "keeps no_new_files (cleanup_body_directory X r referenced)"
    "keeps no_new_files (cleanup_temporary_files X r)" for r referenced
    using removal_no_new by (fastforce simp: keeps_def cleanup_body_directory_def
        cleanup_temporary_files_def shrink.reflexive split: sum.split)+
  show "keeps no_new_files (cleanup_orphans X)"
    unfolding cleanup_orphans_def by (intro keeps_intros *)
qed

lemma open_meta_files: "open_meta X env s = (t, res) \<Longrightarrow> files r t = files r s"
  by (cases r) (auto simp: open_meta_def write_meta_def bind_s_def Let_def next_call_def
      split: option.splits sum.splits if_splits)

lemma opened_references:
  assumes "open_or_initialize X env s = (t, Inr ())"
  obtains u where "validate_body_references X u = Inr ()" "no_new_files s u" "same_stored X s u"
proof -
  obtain meta a b c d where a: "open_meta X env s = (a, Inr meta)"
    and b: "cleanup_temporary_files X Runs (start_store meta a) = (b, Inr ())"
    and c: "cleanup_temporary_files X Operations b = (c, Inr ())"
    and d: "cleanup_orphans X c = (d, Inr ())" "validate_body_references X d = Inr ()"
    using assms by (auto simp: open_or_initialize_def result_simps split: if_splits)
  have start: "files r (start_store meta a) = files r s" for r
    using open_meta_files [OF a, of r] by (cases r) (simp_all add: start_store_def)
  have "no_new_files s (start_store meta a)"
    by (simp add: no_new_files_def start)
  moreover have "same_stored X s (start_store meta a)"
    using start [of Operations] by (intro reads.same_operations) simp
  ultimately have "no_new_files s d" "same_stored X s d"
    using keepsD [OF cleanup_no_new(2) b] keepsD [OF cleanup_no_new(2) c] keepsD [OF cleanup_no_new(3) d(1)]
      keepsD [OF reads.cleanup_temporary b] keepsD [OF reads.cleanup_temporary c]
      keepsD [OF reads.cleanup_orphans d(1)]
    by (meson shrink.transitive reads.transitive)+
  with d(2) show thesis
    by (rule that)
qed

text \<open>
  C27. An operation that is prepared or started on disk without its staged prompt makes
  every restart fail: the store cannot be opened until the file is removed by hand.
\<close>

theorem missing_prompt_blocks_restart:
  assumes "stored_operation X s i = Some r" and "op_operation_id r = i"
    and "operation_id_parse i = Inr i" and "prompt_staging_required r"
    and "bm_get (as_prompts s) (prompt_file i) = None"
  shows "\<not> is_ok (snd (open_or_initialize X env s))"
proof
  assume "is_ok (snd (open_or_initialize X env s))"
  then obtain t where "open_or_initialize X env s = (t, Inr ())"
    by (cases "open_or_initialize X env s") (auto simp: is_ok_def split: sum.splits)
  then obtain u where u: "validate_body_references X u = Inr ()" "no_new_files s u" "same_stored X s u"
    by (rule opened_references)
  have durable: "\<not> is_temporary (operation_file i)"
    using assms(3) by (rule parsed_id_not_temporary)
  have stored: "stored_operation X u i = Some r"
    using u(3) assms(1) durable by (simp add: same_stored_def durable_id_def)
  then obtain bytes where bytes: "bm_get (files Operations u) (operation_file i) = Some bytes"
    by (auto simp: stored_operation_def split: option.splits)
  have "for_each_operation X (operation_prompt_check X u) () u = Inr ()"
    using u(1) by (auto simp: validate_body_references_def result_simps)
  from every_file_visited [OF this [unfolded for_each_operation_def] bytes durable]
  obtain q w w' where q: "read_operation_file X (operation_file i) u = Inr q" "operation_prompt_check X u w q = Inr w'"
    by (auto simp: result_simps)
  have "q = r"
    using read_operation_stored [OF q(1)] stored by simp
  moreover have "bm_get (as_prompts u) (prompt_file i) = None"
    using u(2) assms(5) unfolding no_new_files_def by (metis files.simps(3))
  ultimately show False
    using q(2) assms(2,4) by (auto simp: operation_prompt_check_def Let_def read_private_file_def result_simps)
qed

end
