(* ===== verification/AgentRooms.thy ===== *)
theory AgentRooms
  imports AgentErrors AgentArtifacts
begin

text \<open>
  The loop that makes room for a response: every round expires one stored body, so it ends
  within as many rounds as there can be runs. And what a stored response reads back as.
\<close>

section \<open>Stored runs\<close>

definition stored_run :: "externals \<Rightarrow> agent_store \<Rightarrow> stable_run_id \<Rightarrow> run_record option" where
  "stored_run X s i = (case bm_get (as_runs s) (run_file i) of
      None \<Rightarrow> None
    | Some bytes \<Rightarrow> (case x_decode_run X bytes of Inl _ \<Rightarrow> None | Inr r \<Rightarrow> Some r))"

lemma run_file_inj [simp]: "run_file i = run_file j \<longleftrightarrow> i = j"
  by (simp add: run_file_def)

lemma stored_run_same: "as_runs t = as_runs s \<Longrightarrow> stored_run X t i = stored_run X s i"
  by (simp add: stored_run_def)

lemma stored_run_outside: "outside r s t \<Longrightarrow> r \<noteq> Runs \<Longrightarrow> stored_run X t i = stored_run X s i"
  using outside_files [of r s t Runs] by (intro stored_run_same) simp

lemma load_run_stored: "load_run X i s = Inr (Some r) \<Longrightarrow> stored_run X s i = Some r \<and> run_run_id r = i"
  by (auto simp: load_run_def read_json_def read_private_file_def decode_file_def
      stored_run_def result_simps map_err_def split: if_splits option.splits sum.splits)

lemma read_run_stored:
  assumes "read_run_file X s acc name = Inr acc'"
  obtains r where "acc' = acc @ [r]" "name = run_file (run_run_id r)" "stored_run X s (run_run_id r) = Some r"
proof -
  obtain r where r: "read_json X (x_decode_run X) Runs name RUN_RECORD_MAX_BYTES ''run record'' s = Inr r"
    "name = run_file (run_run_id r)" "acc' = acc @ [r]"
    using assms by (auto simp: read_run_file_def result_simps split: if_splits)
  obtain bytes where "bm_get (files Runs s) name = Some bytes"
    using r(1) by (auto simp: read_json_def read_private_file_def result_simps split: option.splits)
  then have "stored_run X s (run_run_id r) = Some r"
    using read_json_file(1) [OF r(1)] r(2) by (simp add: stored_run_def)
  then show thesis
    using r that by blast
qed

lemma names_settled:
  "canonical_files X r suffix limit label' s = Inr names \<Longrightarrow> \<forall>name \<in> set names. \<not> is_temporary name"
  unfolding canonical_files_def
  by (rule for_each_file_invariant [where I = "\<lambda>names. \<forall>name \<in> set names. \<not> is_temporary name"]) auto

lemma listed_runs_stored:
  assumes "list_runs X s = Inr runs" and "r \<in> set runs"
  shows "stored_run X s (run_run_id r) = Some r \<and> \<not> is_temporary (run_file (run_run_id r))"
proof -
  let ?I = "\<lambda>r. stored_run X s (run_run_id r) = Some r \<and> \<not> is_temporary (run_file (run_run_id r))"
  obtain names records where names: "canonical_files X Runs (lit ''.json'') RUN_STORE_MAX_RECORDS ''run store'' s = Inr names"
    "fold_r (read_run_file X s) [] names = Inr records" "runs = sort_key run_run_id records"
    using assms(1) by (auto simp: list_runs_def result_simps)
  have "\<forall>r \<in> set records. ?I r"
    by (rule fold_r_invariant [OF names(2), where I = "\<lambda>rs. \<forall>r \<in> set rs. ?I r"])
      (use names_settled [OF names(1)] in \<open>auto elim!: read_run_stored\<close>)
  then show ?thesis
    using assms(2) names(3) by auto
qed

lemma save_run_writes:
  assumes "save_run X r s = (t, Inr ())"
  shows "t = s \<and> load_run X (run_run_id r) s = Inr (Some r) \<or> write_run X r s = (t, Inr ())"
proof -
  obtain existing where l: "load_run X (run_run_id r) s = Inr existing"
    and w: "(case existing of None \<Rightarrow> write_run X r | Some e \<Rightarrow> if e = r then give (Inr ())
      else bind_s (give (validate_run_replacement e r)) (\<lambda>_. write_run X r)) s = (t, Inr ())"
    using assms(1) by (auto simp: save_run_def result_simps)
  show ?thesis
  proof (cases existing)
    case None
    then show ?thesis using w by simp
  next
    case (Some e)
    show ?thesis
    proof (cases "e = r")
      case False
      then have "bind_s (give (validate_run_replacement e r)) (\<lambda>_. write_run X r) s = (t, Inr ())"
        using w Some by simp
      then show ?thesis
        by (cases "validate_run_replacement e r") simp_all
    qed (use l w Some in simp)
  qed
qed

lemma write_run_writes:
  assumes "write_run X r s = (t, Inr ())"
  obtains bytes where "x_encode_run X r = Inr bytes" "length bytes \<le> RUN_RECORD_MAX_BYTES"
    "as_runs t = bm_insert (run_file (run_run_id r)) bytes (as_runs s)"
proof -
  obtain bytes c where b: "x_encode_run X r = Inr bytes" "length bytes \<le> RUN_RECORD_MAX_BYTES"
    "write_counted X Runs (run_file (run_run_id r)) bytes c set_run_capacity RUN_STORE_MAX_RECORDS
      ''run store'' s = (t, Inr ())"
    using assms unfolding write_run_def encode_json_def by (auto simp: result_simps split: if_splits)
  obtain u res' where u: "write_bytes_atomic X Runs (run_file (run_run_id r)) bytes s = (u, res')"
    "as_runs t = as_runs u" "is_ok res'"
    by (rule write_counted_cases [OF b(3)]) (auto simp: set_run_capacity_def)
  from u(1) have "as_runs u = bm_insert (run_file (run_run_id r)) bytes (as_runs s)"
    by (rule write_bytes_atomic_cases) (use u(3) in \<open>auto simp: next_call_def\<close>)
  with b(1,2) u(2) show thesis
    by (intro that) simp_all
qed

text \<open>A successful save stores the record and leaves the other runs.\<close>

lemma save_run_stored:
  assumes "save_run X r s = (t, Inr ())" and "run_codec X"
  shows "stored_run X t i = (if i = run_run_id r then Some r else stored_run X s i)"
  using save_run_writes [OF assms(1)]
proof
  assume "t = s \<and> load_run X (run_run_id r) s = Inr (Some r)"
  then show ?thesis
    using load_run_stored [of X "run_run_id r" s r] by simp
next
  assume "write_run X r s = (t, Inr ())"
  then show ?thesis
    by (rule write_run_writes) (use assms(2) in \<open>simp add: stored_run_def bm_get_insert run_codec_def\<close>)
qed

section \<open>The measure\<close>

definition expirable :: "externals \<Rightarrow> agent_store \<Rightarrow> stable_run_id set" where
  "expirable X s = {i. \<exists>r. stored_run X s i = Some r \<and> \<not> is_temporary (run_file i) \<and> expiry_candidate r \<noteq> None}"

lemma expirable_finite: "finite (expirable X s)"
proof -
  have "run_file ` expirable X s \<subseteq> fst ` set (as_runs s)"
    by (auto simp: expirable_def stored_run_def image_iff split: option.splits dest!: map_of_SomeD)
      (metis fst_conv)
  then show ?thesis
    by (rule finite_imageD [OF finite_subset]) (auto simp: inj_on_def)
qed

lemma counted_names:
  assumes "fold_r (visit_file r suffix limit label' s (\<lambda>names name. Inr (names @ [name]))) acc fs = Inr acc'"
    and "length (snd acc) = fst acc" and "fst acc \<le> limit"
  shows "length (snd acc') \<le> limit"
proof -
  have "length (snd acc') = fst acc' \<and> fst acc' \<le> limit"
    by (rule fold_r_invariant [OF assms(1), where I = "\<lambda>a. length (snd a) = fst a \<and> fst a \<le> limit"])
      (use assms(2,3) in \<open>auto simp: visit_file_def result_simps split: if_splits\<close>)
  then show ?thesis by simp
qed

lemma expirable_bounded:
  assumes "list_runs X s = Inr runs"
  shows "card (expirable X s) \<le> RUN_STORE_MAX_RECORDS"
proof -
  obtain names where names: "canonical_files X Runs (lit ''.json'') RUN_STORE_MAX_RECORDS ''run store'' s = Inr names"
    using assms by (auto simp: list_runs_def result_simps)
  then obtain acc where acc: "fold_r (visit_file Runs (lit ''.json'') RUN_STORE_MAX_RECORDS ''run store'' s
      (\<lambda>names name. Inr (names @ [name]))) (0, []) (as_runs s) = Inr acc" "snd acc = names"
    by (auto simp: canonical_files_def for_each_canonical_file_def result_simps)
  have "run_file ` expirable X s \<subseteq> set names"
    using canonical_names [OF names]
    by (auto simp: expirable_def stored_run_def split: option.splits)
  then have "card (run_file ` expirable X s) \<le> length names"
    by (meson card_length card_mono finite_set le_trans)
  moreover have "card (run_file ` expirable X s) = card (expirable X s)"
    by (rule card_image) (auto simp: inj_on_def)
  ultimately show ?thesis
    using counted_names [OF acc(1)] acc(2) by simp
qed

lemma expire_shrinks:
  assumes "expire_artifact X i s = (t, Inr ())" and "run_codec X" and "i \<in> expirable X s"
  shows "card (expirable X t) < card (expirable X s)"
proof -
  obtain r where r: "stored_run X s i = Some r" "expiry_candidate r \<noteq> None"
    using assms(3) by (auto simp: expirable_def)
  obtain a where a: "run_artifact r = Some a" "is_stored (am_store_completeness a)"
    using r(2) by (auto simp: expiry_candidate_def split: option.splits if_splits)
  define r' where "r' = r\<lparr>run_artifact := Some (a\<lparr>am_file_name := None, am_store_completeness := StoreExpired\<rparr>),
      run_revision := saturating_inc (run_revision r)\<rparr>"
  have "required_run_for_artifact X i s = Inr r" and id: "run_run_id r = i"
  proof -
    obtain run where run: "required_run_for_artifact X i s = Inr run"
      using assms(1) by (auto simp: expire_artifact_def result_simps)
    then have "load_run X i s = Inr (Some run)"
      by (auto simp: required_run_for_artifact_def result_simps split: option.splits)
    then show "required_run_for_artifact X i s = Inr r" "run_run_id r = i"
      using load_run_stored r(1) run by auto
  qed
  then have "bind_s (save_run X r') (\<lambda>_. case am_file_name a of None \<Rightarrow> give (Inr ())
      | Some file_name \<Rightarrow> remove_file_and_sync X Artifacts file_name) s = (t, Inr ())"
    using assms(1) a by (auto simp: expire_artifact_def r'_def is_stored_def bind_s_apply)
  then obtain u where u: "save_run X r' s = (u, Inr ())"
    and t: "t = u \<or> (\<exists>name. remove_file_and_sync X Artifacts name u = (t, Inr ()))"
    by (auto simp: result_simps split: option.splits)
  have tu: "stored_run X t j = stored_run X u j" for j
    using t keepsD [OF outside_writes(2)] stored_run_outside [of Artifacts u t X j] by blast
  have u': "stored_run X u j = (if j = i then Some r' else stored_run X s j)" for j
    using save_run_stored [OF u assms(2)] id by (simp add: r'_def)
  have "expiry_candidate r' = None"
    by (simp add: r'_def expiry_candidate_def is_stored_def split: option.split)
  then have "expirable X t \<subseteq> expirable X s - {i}"
    using tu u' by (auto simp: expirable_def split: if_splits)
  then show ?thesis
    using assms(3) expirable_finite by (meson card_Diff1_less card_mono finite_Diff le_less_trans)
qed

lemma candidate_expirable:
  assumes "list_runs X s = Inr runs" and "(a, b, i) \<in> set (expiry_candidates target runs)"
  shows "i \<in> expirable X s"
proof -
  obtain r where r: "r \<in> set runs" "expiry_candidate r = Some (a, b, i)"
    using assms(2) by (auto simp: expiry_candidates_def List.map_filter_def)
  then have "run_run_id r = i"
    by (auto simp: expiry_candidate_def split: option.splits if_splits)
  then show ?thesis
    using listed_runs_stored [OF assms(1) r(1)] r(2) by (auto simp: expirable_def)
qed

lemma room_made:
  assumes "run_codec X" and "card (expirable X s) < n"
  shows "make_artifact_room n X target name size' fl bl s \<noteq> None"
  using assms(2)
proof (induction n arbitrary: s)
  case (Suc n)
  show ?case
  proof (cases "capacity_round X target name size' fl bl s")
    case (Expire i)
    then obtain runs a b cs where "list_runs X s = Inr runs" "expiry_candidates target runs = (a, b, i) # cs"
      by (auto simp: capacity_round_def split: sum.splits agent_store_error.splits list.splits)
    then have "i \<in> expirable X s"
      using candidate_expirable [of X s runs a b i target] by simp
    then show ?thesis
      using Expire Suc expire_shrinks [OF _ assms(1)]
      by (auto split: prod.splits sum.splits) fastforce
  qed simp_all
qed simp

text \<open>
  C22. The loop that makes room for a response body ends: every round expires the body of
  one run, so 2,049 rounds, one more than the store holds runs, are always enough.
\<close>

theorem artifact_room_terminates:
  assumes "run_codec X"
  shows "\<exists>outcome. make_artifact_room (Suc RUN_STORE_MAX_RECORDS) X target name size' file_limit byte_limit s
    = Some outcome"
proof (cases "list_runs X s")
  case (Inl e)
  then show ?thesis
    by (auto simp: capacity_round_def split: round_outcome.splits sum.splits agent_store_error.splits)
next
  case (Inr runs)
  then show ?thesis
    using room_made [OF assms, of s "Suc RUN_STORE_MAX_RECORDS"] expirable_bounded by fastforce
qed

section \<open>A stored response\<close>

lemma save_then_load:
  assumes "save_run X r s = (t, Inr ())" and "run_codec X" and quiet: "\<And>p. x_fault X (as_calls t) p = None"
  shows "load_run X (run_run_id r) t = Inr (Some r)"
proof -
  have meta: "as_meta t = as_meta s"
    using keepsD [OF save_run_outside assms(1)] by (simp add: outside_def)
  then have valid: "validate_run X r t = Inr ()"
    using assms(1) by (auto simp: save_run_def validate_run_def result_simps)
  show ?thesis
    using save_run_writes [OF assms(1)]
  proof
    assume "write_run X r s = (t, Inr ())"
    then show ?thesis
    proof (rule write_run_writes)
      fix bytes assume "x_encode_run X r = Inr bytes" "length bytes \<le> RUN_RECORD_MAX_BYTES"
        "as_runs t = bm_insert (run_file (run_run_id r)) bytes (as_runs s)"
      then show ?thesis
        using valid quiet assms(2) by (simp add: load_run_def read_json_def read_private_file_def
            readable_def decode_file_def bm_get_insert run_codec_def)
    qed
  qed simp
qed

lemma suffix_fits: "text_len (utf8_suffix body limit) \<le> limit"
  "list_all is_scalar body \<Longrightarrow> list_all is_scalar (utf8_suffix body limit)"
proof -
  obtain p where p: "body = p @ utf8_suffix body limit" "text_len (utf8_suffix body limit) \<le> limit"
    using utf8_suffix_longest by blast
  show "text_len (utf8_suffix body limit) \<le> limit"
    by (rule p(2))
  show "list_all is_scalar (utf8_suffix body limit)" if "list_all is_scalar body"
    using that by (subst (asm) p(1)) simp
qed

lemma store_artifact_parts:
  assumes "store_artifact X i body ob s = (t, Inr m)" and "is_stored (am_store_completeness m)"
    and "load_run X i s = Inr (Some run)" and "run_artifact run = None"
  obtains u v run' where "write_bytes_atomic X Artifacts (artifact_file_name i) (utf8 (utf8_suffix body RESPONSE_ARTIFACT_BODY_MAX_BYTES)) u = (v, Inr ())"
    "save_run X run' v = (t, Inr ())" "run_run_id run' = i" "run_artifact run' = Some m"
    "am_file_name m = Some (artifact_file_name i)" "am_stored_byte_count m = of_nat (length (utf8 (utf8_suffix body RESPONSE_ARTIFACT_BODY_MAX_BYTES)))"
    "am_stored_digest m = Some (x_digest X (utf8 (utf8_suffix body RESPONSE_ARTIFACT_BODY_MAX_BYTES)))"
proof -
  let ?stored = "utf8 (utf8_suffix body RESPONSE_ARTIFACT_BODY_MAX_BYTES)"
  have req: "required_run_for_artifact X i s = Inr run" and id: "run_run_id run = i"
    using assms(3) load_run_stored by (auto simp: required_run_for_artifact_def)
  obtain u written run' where w: "bind_s (ensure_artifact_capacity X i (artifact_file_name i) (of_nat (length ?stored)))
      (\<lambda>_. write_bytes_atomic X Artifacts (artifact_file_name i) ?stored) s = (u, written)"
    and run': "save_run X run' u = (t, Inr ())" "run_run_id run' = i" "run_artifact run' = Some m"
    and m: "m = (case written of
        Inr _ \<Rightarrow> artifact_for run (of_nat (length (utf8 body))) (of_nat (length ?stored)) (x_digest X (utf8 body))
          (Some (x_digest X ?stored)) (ao_provider_completeness ob)
          (if length ?stored = length (utf8 body) then StoreComplete else StoreTruncated) (ao_source ob)
          (ao_observed_at ob) (Some (artifact_file_name i))
      | Inl _ \<Rightarrow> artifact_for run (of_nat (length (utf8 body))) 0 (x_digest X (utf8 body)) None
          (ao_provider_completeness ob) StoreUnavailable (ao_source ob) (ao_observed_at ob) None)"
    using assms(1) req id assms(4)
    by (auto simp: store_artifact_def Let_def settled_artifact_def result_simps split: if_splits)
  have "\<exists>x. written = Inr x"
    using assms(2) m by (cases written) (auto simp: artifact_for_def is_stored_def)
  then obtain v where "write_bytes_atomic X Artifacts (artifact_file_name i) ?stored v = (u, Inr ())" "written = Inr ()"
    using w by (auto simp: result_simps)
  then show thesis
    using run' m by (intro that [of v u run']) (simp_all add: artifact_for_def)
qed

text \<open>
  C24. A response that has been stored for a completed run without one is read back as the
  longest suffix of it that fits, as long as reads do not fail.
\<close>

theorem stored_response_read_back:
  assumes "run_codec X" and "store_artifact X i body ob s = (t, Inr m)" and "is_stored (am_store_completeness m)"
    and "load_run X i s = Inr (Some run)" and "run_artifact run = None" and "list_all is_scalar body"
    and "\<And>p. x_fault X (as_calls t) p = None"
  shows "read_artifact X i t = Inr (utf8_suffix body RESPONSE_ARTIFACT_BODY_MAX_BYTES)"
  using assms(2-5)
proof (rule store_artifact_parts)
  let ?text = "utf8_suffix body RESPONSE_ARTIFACT_BODY_MAX_BYTES"
  fix u v run'
  assume w: "write_bytes_atomic X Artifacts (artifact_file_name i) (utf8 ?text) u = (v, Inr ())"
    and s: "save_run X run' v = (t, Inr ())" "run_run_id run' = i" "run_artifact run' = Some m"
    and m: "am_file_name m = Some (artifact_file_name i)" "am_stored_byte_count m = of_nat (length (utf8 ?text))"
      "am_stored_digest m = Some (x_digest X (utf8 ?text))"
  have "files Artifacts v = bm_insert (artifact_file_name i) (utf8 ?text) (files Artifacts u)"
    using w by (rule write_bytes_atomic_cases) auto
  moreover have "files Artifacts t = files Artifacts v"
    using keepsD [OF save_run_outside s(1)] by (rule outside_files) simp
  ultimately have "bm_get (files Artifacts t) (artifact_file_name i) = Some (utf8 ?text)"
    by (simp add: bm_get_insert)
  moreover have "load_run X i t = Inr (Some run')"
    using save_then_load [OF s(1) assms(1,7)] s(2) by simp
  ultimately show ?thesis
    using s(3) m assms(3,6,7) suffix_fits [of body RESPONSE_ARTIFACT_BODY_MAX_BYTES]
    by (auto simp: read_artifact_def required_run_for_artifact_def is_stored_def read_private_file_def
        readable_def length_utf8 from_utf8_utf8)
qed

end
