(* ===== verification/AgentStoreTheorems.thy ===== *)
theory AgentStoreTheorems
  imports AgentRooms
begin

text \<open>
  Properties of the durable store and its runtime that span several operations: an operation
  is dispatched at most once, and expired dispatches are settled.
\<close>

section \<open>At most one dispatch for an operation identifier\<close>

lemma created_stored:
  assumes "prepare_operation X q rt = (rt', Inr (Created r))" and "operation_codec X"
  shows "stored_operation X (ag_store rt') (oq_operation_id q) = Some r" "phase_of r = PhasePrepared"
proof -
  obtain s rt1 where p: "prepared_record X q s = Inr r" and w: "on_store (save_operation X r) rt1 = (rt', Inr ())
      \<or> (\<exists>key t. on_store (save_operation X r) rt1 = (t, Inr ()) \<and> rt' = fence key (oq_operation_id q) t)"
    using assms(1) by (auto simp: prepare_operation_def result_simps ask_store_def split: option.splits)
  then obtain s' t where t: "save_operation X r s' = (t, Inr ())" "ag_store rt' = t"
    by (auto simp: on_store_iff)
  have id: "op_operation_id r = oq_operation_id q" and "op_dispatch_state r = Prepared"
    using p by (auto simp: prepared_record_def Let_def split: if_splits)
  from t(1) assms(2) show "stored_operation X (ag_store rt') (oq_operation_id q) = Some r"
    by (cases rule: save_operation_cases) (auto simp: t(2) id [symmetric] put_operation_def stored_operation_def)
  show "phase_of r = PhasePrepared"
    using \<open>op_dispatch_state r = Prepared\<close> by (simp add: phase_of_def)
qed

lemma prepare_known:
  assumes "stored_operation X (ag_store rt) (oq_operation_id q) = Some r"
    and "prepare_operation X q rt = (rt', Inr result)"
  shows "result = Existing r \<and> rt' = rt"
proof -
  obtain existing where l: "lookup_operation_request X (oq_operation_id q) (requested_fingerprint X q) (ag_store rt) = Inr existing"
    using assms(2) by (auto simp: prepare_operation_def result_simps ask_store_def)
  then have "existing = Some r"
    using assms(1) lookup_absent load_operation_stored
    by (cases existing) (auto simp: lookup_operation_request_def result_simps split: option.splits if_splits)
  then show ?thesis
    using assms(2) l by (auto simp: prepare_operation_def result_simps ask_store_def)
qed

text \<open>
  C20. At most once: when an operation has been prepared, a later request with its
  identifier that succeeds, after whatever the daemon has served in between and however
  often it has crashed, returns the operation in its present phase and changes nothing.
\<close>

theorem prepare_at_most_once:
  assumes "operation_codec X" and "operation_id_parse (oq_operation_id q) = Inr (oq_operation_id q)"
    and "prepare_operation X q rt = (rt1, Inr (Created r))"
    and "daemon_runtime (daemon_run X events (Serving rt1)) = rt2"
    and "oq_operation_id q' = oq_operation_id q" and "prepare_operation X q' rt2 = (rt3, Inr result)"
  shows "\<exists>r'. result = Existing r' \<and> rt3 = rt2 \<and> same_request r r' \<and> life\<^sup>*\<^sup>* PhasePrepared (phase_of r')"
proof -
  note created = created_stored [OF assms(3,1)]
  have "op_evolves X (ag_store rt1) (ag_store rt2)"
    using operations.daemon_run [of X "Serving rt1" events] assms(4) by simp
  then obtain r' where r': "stored_operation X (ag_store rt2) (oq_operation_id q') = Some r'" "replaces\<^sup>*\<^sup>* r r'"
    using created(1) assms(1,2,5) by (auto simp: op_evolves_def)
  then show ?thesis
    using prepare_known [OF r'(1) assms(6)] replaced_many [OF r'(2)] created(2) by simp
qed

section \<open>Deadlines\<close>

definition flying_ids :: "agent_runtime \<Rightarrow> operation_id set" where
  "flying_ids rt = snd ` set (ag_in_flight rt)"

definition settles :: "externals \<Rightarrow> operation_id \<Rightarrow> operation_record \<Rightarrow> agent_runtime \<Rightarrow> agent_runtime \<Rightarrow> bool" where
  "settles X i r rt rt' \<longleftrightarrow> flying_ids rt' \<subseteq> insert i (flying_ids rt)
     \<and> (\<forall>j. stored_operation X (ag_store rt') j = (if j = i then Some r else stored_operation X (ag_store rt) j))"

lemma flying_ids_steps:
  "flying_ids (fence key i rt) \<subseteq> insert i (flying_ids rt)" "flying_ids (unfence key i rt) \<subseteq> flying_ids rt"
proof -
  have "set (bm_insert key i m) \<subseteq> insert (key, i) (set m)" for m :: "(str \<times> operation_id) list"
    by (induction key i m rule: bm_insert.induct) auto
  then show "flying_ids (fence key i rt) \<subseteq> insert i (flying_ids rt)"
    by (fastforce simp: flying_ids_def fence_def)
  show "flying_ids (unfence key i rt) \<subseteq> flying_ids rt"
    by (auto simp: flying_ids_def unfence_def bm_remove_def)
qed

lemma settles_more:
  "settles X i r rt rt1 \<Longrightarrow> flying_ids rt2 \<subseteq> insert i (flying_ids rt1) \<Longrightarrow>
    (\<And>j. stored_operation X (ag_store rt2) j = stored_operation X (ag_store rt1) j) \<Longrightarrow> settles X i r rt rt2"
  by (auto simp: settles_def)

lemma same_fences_facts: "same_fences X rt rt' \<Longrightarrow> flying_ids rt' = flying_ids rt
    \<and> (\<forall>i. stored_operation X (ag_store rt') i = stored_operation X (ag_store rt) i)"
  by (simp add: same_fences_def flying_ids_def)

lemma deleted_prompt: "on_store (delete_prompt X i) rt = (rt', res) \<Longrightarrow> same_fences X rt rt'"
  using keepsD [OF delete_prompt_fences] by blast

lemma released: "release_dispatch_fence X r rt = (rt', Inr u) \<Longrightarrow>
    flying_ids rt' \<subseteq> flying_ids rt \<and> ag_store rt' = ag_store rt"
  using subsetD [OF flying_ids_steps(2)] by (auto simp: release_dispatch_fence_def result_simps)

lemma settle_dispatch_settles:
  assumes "settle_dispatch X i state code t rt = (rt', Inr r)" and "operation_codec X"
  shows "settles X i r rt rt' \<and> op_dispatch_state r = state"
proof -
  obtain e where e: "required_operation X i (ag_store rt) = Inr e"
    using assms(1) by (auto simp: settle_dispatch_def result_simps ask_store_def split: if_splits)
  then have stored: "stored_operation X (ag_store rt) i = Some e" and id: "op_operation_id e = i"
    using load_operation_facts by (auto simp: required_operation_def result_simps split: option.splits)
  show ?thesis
  proof (cases "op_dispatch_state e = state")
    case True
    then obtain rt1 u v where 1: "(if state = Rejected then release_dispatch_fence X e else give (Inr ())) rt = (rt1, Inr u)"
      "on_store (delete_prompt X i) rt1 = (rt', Inr v)" "r = e"
      using assms(1) e by (auto simp: settle_dispatch_def result_simps ask_store_def split: if_splits)
    have "flying_ids rt1 \<subseteq> flying_ids rt \<and> ag_store rt1 = ag_store rt"
      using 1(1) released by (auto split: if_splits)
    moreover have "same_fences X rt1 rt'"
      using 1(2) by (rule deleted_prompt)
    ultimately show ?thesis
      using stored True 1(3) by (auto simp: settles_def same_fences_def flying_ids_def)
  next
    case False
    then obtain rt1 rt2 rt3 u v w x where 1: "settled_record e state code t = Inr r"
      and save: "on_store (save_operation X r) rt = (rt1, Inr u)" and index: "index_dispatch_input X r rt1 = (rt2, Inr v)"
      and fence: "(if state = Rejected then release_dispatch_fence X r
        else bind_s (give (operation_target_key X (op_binding r))) (\<lambda>key. modify_s (fence key i))) rt2 = (rt3, Inr w)"
      and delete: "on_store (delete_prompt X i) rt3 = (rt', Inr x)"
      using assms(1) e by (auto simp: settle_dispatch_def result_simps ask_store_def split: if_splits)
    have r: "op_operation_id r = i" "op_dispatch_state r = state"
      using 1 id by (auto simp: settled_record_def dest!: advanced)
    have saved: "save_operation X r (ag_store rt) = (ag_store rt1, Inr u)" and flight: "ag_in_flight rt1 = ag_in_flight rt"
      using save by (auto simp: on_store_iff) (metis in_flight_simps(1))
    from saved assms(2) have "settles X i r rt rt1"
      by (rule save_operation_cases)
        (use flight r(1) in \<open>auto simp: settles_def flying_ids_def put_operation_def stored_operation_def\<close>)
    moreover have "same_fences X rt1 rt2"
      using index_dispatch_input_fences index by (rule keepsD)
    moreover have "flying_ids rt3 \<subseteq> insert i (flying_ids rt2) \<and> ag_store rt3 = ag_store rt2"
    proof (cases "state = Rejected")
      case True
      then show ?thesis
        using fence released [of X r rt2 rt3] by auto
    next
      case False
      then obtain key where "rt3 = fence key i rt2"
        using fence by (auto simp: result_simps)
      then show ?thesis
        using flying_ids_steps(1) by simp
    qed
    moreover have "same_fences X rt3 rt'"
      using delete by (rule deleted_prompt)
    ultimately have "flying_ids rt' \<subseteq> insert i (flying_ids rt)" "settles X i r rt rt2" "ag_store rt3 = ag_store rt2"
      "\<forall>j. stored_operation X (ag_store rt') j = stored_operation X (ag_store rt3) j"
      using same_fences_facts [of X rt1 rt2] same_fences_facts [of X rt3 rt'] by (auto simp: settles_def)
    then show ?thesis
      using r(2) by (simp add: settles_def)
  qed
qed

definition in_time :: "externals \<Rightarrow> i64 \<Rightarrow> operation_id \<Rightarrow> agent_runtime \<Rightarrow> bool" where
  "in_time X t i rt \<longleftrightarrow> (\<forall>r. stored_operation X (ag_store rt) i = Some r \<longrightarrow> \<not> dispatch_expired t r)"

lemma settle_all:
  assumes "each_s (settle_expired X t) rs rt = (rt', Inr out)" and "operation_codec X"
    and "flying_ids rt \<subseteq> ids" and "op_operation_id ` set rs \<subseteq> ids"
    and "\<And>i. i \<in> ids \<Longrightarrow> i \<notin> op_operation_id ` set rs \<Longrightarrow> in_time X t i rt"
  shows "flying_ids rt' \<subseteq> ids \<and> (\<forall>i \<in> ids. in_time X t i rt')"
  using assms(1,3-5)
proof (induction rs arbitrary: rt out)
  case (Cons r rs)
  let ?i = "op_operation_id r"
  obtain rt1 s out' where s: "settle_expired X t r rt = (rt1, Inr s)"
    and rest: "each_s (settle_expired X t) rs rt1 = (rt', Inr out')"
    using Cons.prems(1) by (auto simp: result_simps)
  have "settles X ?i s rt rt1 \<and> (op_dispatch_state s = Rejected \<or> op_dispatch_state s = DeliveryUnknown)"
    using s settle_dispatch_settles [OF _ assms(2)] by (auto simp: settle_expired_def split: if_splits)
  then have one: "settles X ?i s rt rt1" and "\<not> dispatch_expired t s"
    by (auto simp: dispatch_expired_def)
  then have new: "in_time X t ?i rt1"
    by (simp add: in_time_def settles_def)
  have keep: "in_time X t j rt1" if "in_time X t j rt" for j
    using that one new by (cases "j = ?i") (auto simp: in_time_def settles_def)
  show ?case
  proof (rule Cons.IH [OF rest])
    show "flying_ids rt1 \<subseteq> ids"
      using one Cons.prems(2,3) by (auto simp: settles_def)
    show "in_time X t j rt1" if "j \<in> ids" "j \<notin> op_operation_id ` set rs" for j
      using that new keep Cons.prems(4) [of j] by (cases "j = ?i") auto
  qed (use Cons.prems(3) in auto)
qed simp

lemma any_in_time:
  assumes "\<And>i. i \<in> set is \<Longrightarrow> in_time X t i rt"
  shows "any_operation X (dispatch_expired t) (ag_store rt) is \<noteq> Inr True"
  using assms
  by (induction "is") (auto simp: result_simps in_time_def required_operation_def
      dest!: load_operation_facts split: option.splits)

lemma flying_loaded:
  assumes "fold_r (\<lambda>acc i. bind_r (required_operation X i s) (\<lambda>operation. Inr (acc @ [operation]))) acc is = Inr ops"
  shows "set acc \<subseteq> set ops \<and> (\<forall>i \<in> set is. \<exists>r \<in> set ops. required_operation X i s = Inr r)
    \<and> set ops \<subseteq> set acc \<union> {r. \<exists>i \<in> set is. required_operation X i s = Inr r}"
  using assms
proof (induction "is" arbitrary: acc)
  case (Cons i "is")
  obtain r where r: "required_operation X i s = Inr r"
    "fold_r (\<lambda>acc i. bind_r (required_operation X i s) (\<lambda>operation. Inr (acc @ [operation]))) (acc @ [r]) is = Inr ops"
    using Cons.prems by (auto simp: result_simps)
  from Cons.IH [OF r(2)] r(1) show ?case
    by auto
qed simp

lemma required_stored: "required_operation X i s = Inr r \<Longrightarrow> stored_operation X s i = Some r \<and> op_operation_id r = i"
  using load_operation_facts by (auto simp: required_operation_def result_simps split: option.splits)


end
