(* ===== verification/AgentWitnesses.thy ===== *)
theory AgentWitnesses
  imports AgentArtifacts Samples AgentStoreTheorems
begin

text \<open>
  A concrete durable run: a prompt starts it and a stop completes it. The records are the
  ones the run reducer produces.
\<close>

definition sample_binding :: agent_binding where
  "sample_binding = \<lparr>ab_server_identity = \<lparr>si_pid = 40, si_start_time = 7\<rparr>,
     ab_pane_instance = \<lparr>pane_id = lit ''%7'', pane_pid = 70\<rparr>,
     ab_pane_state_id = replicate 32 99, ab_agent_epoch = 1, ab_agent_kind = claude_kind,
     ab_provider_session_id = lit ''session-1'',
     ab_process = \<lparr>ap_pid = 71, ap_start_token = lit ''t-71''\<rparr>\<rparr>"

definition observation :: "provider_hook_kind \<Rightarrow> string \<Rightarrow> i64 \<Rightarrow> provider_observation" where
  "observation hook request at = \<lparr>obs_ingress_request_id = lit request,
     obs_provider = claude_kind, obs_session_id = lit ''session-1'', obs_hook_kind = hook,
     obs_provider_turn_key = None, obs_provider_event_ref = None,
     obs_payload_digest = replicate 64 97, obs_prompt_digest = None, obs_response = None,
     obs_observed_at = at\<rparr>"

definition small_evidence :: evidence_encoder where "small_evidence e = Inr 400"

definition entropy :: "str + u8 list" where "entropy = Inr (replicate 16 171)"

definition prompt_event :: provider_event_reference where
  "prompt_event = \<lparr>pr_event_ref = lit ''request-1'', pr_ingress_request_id = lit ''request-1'',
     pr_payload_digest = replicate 64 97, pr_disposition = lit ''run_created'',
     pr_receipt = lit ''run_revision_1'', pr_count = 1, pr_first_observed_at = 10,
     pr_last_observed_at = 10\<rparr>"

definition started_run :: run_record where
  "started_run = \<lparr>run_state_format_version = 1, run_generation = replicate 32 97,
     run_run_id = concat (replicate 16 (lit ''ab'')), run_run_seq = 1, run_revision = 1,
     run_binding = sample_binding, run_provider_turn_key = None, run_operation_id = None,
     run_execution_phase = PhaseRunning, run_semantic_outcome = Unresolved,
     run_evidence = run_evidence_default\<lparr>re_provider_events := [prompt_event],
       re_first_observed_at := Some 10, re_last_observed_at := Some 10\<rparr>,
     run_resolution = None, run_artifact = None, run_created_at = 10, run_updated_at = 10\<rparr>"

definition stop_event :: provider_event_reference where
  "stop_event = \<lparr>pr_event_ref = lit ''request-2'', pr_ingress_request_id = lit ''request-2'',
     pr_payload_digest = replicate 64 97, pr_disposition = lit ''applied'',
     pr_receipt = lit ''run_revision_1'', pr_count = 1, pr_first_observed_at = 20,
     pr_last_observed_at = 20\<rparr>"

definition completed_run :: run_record where
  "completed_run = started_run\<lparr>run_revision := 2, run_execution_phase := PhaseEnded,
     run_semantic_outcome := Completed,
     run_evidence := run_evidence_default\<lparr>re_provider_events := [prompt_event, stop_event],
       re_first_observed_at := Some 10, re_last_observed_at := Some 20\<rparr>,
     run_resolution := Some \<lparr>rr_resolution_id = concat (replicate 16 (lit ''ab'')),
       rr_kind = ProviderCompleted, rr_resolved_at = 20, rr_operator_audit = None\<rparr>,
     run_updated_at := 20\<rparr>"

text \<open>
  A concrete store: a fresh daemon prepares and starts one dispatch, crashes, and finds the
  dispatch ambiguous after its restart. The codec knows the records of this run.
\<close>

section \<open>The sample world\<close>

definition dispatch_binding :: operation_binding where
  "dispatch_binding = operation_binding_from sample_binding"

definition dispatch_request :: operation_request where
  "dispatch_request = \<lparr>oq_operation_id = lit ''operation-000001'', oq_target_agent_ref = lit ''agent-1'',
     oq_prompt = utf8 (lit ''fix it''), oq_prompt_digest = replicate 64 97, oq_dispatch_option = lit ''send'',
     oq_binding = dispatch_binding,
     oq_expected_pane_version = \<lparr>sv_state_id = replicate 32 99, sv_agent_epoch = 1, sv_revision = 4\<rparr>,
     oq_expected_current_run = None, oq_expected_run_seq = 1, oq_observed_at = 100\<rparr>"

definition op_prepared :: operation_record where
  "op_prepared = \<lparr>op_state_format_version = 1, op_generation = concat (replicate 16 (lit ''ab'')),
     op_operation_id = lit ''operation-000001'', op_revision = 1, op_request_fingerprint = replicate 64 97,
     op_target_agent_ref = lit ''agent-1'', op_prompt_digest = replicate 64 97, op_dispatch_option = lit ''send'',
     op_binding = dispatch_binding,
     op_expected_pane_version = \<lparr>sv_state_id = replicate 32 99, sv_agent_epoch = 1, sv_revision = 4\<rparr>,
     op_expected_current_run = None, op_expected_run_seq = 1, op_confirmation_deadline_at = 110,
     op_dispatch_state = Prepared, op_run_id = None, op_result_receipt = None, op_created_at = 100,
     op_updated_at = 100\<rparr>"

definition op_started :: operation_record where
  "op_started = op_prepared\<lparr>op_revision := 2, op_dispatch_state := DispatchStarted, op_updated_at := 101\<rparr>"

definition op_unknown :: operation_record where
  "op_unknown = op_started\<lparr>op_revision := 3, op_dispatch_state := DeliveryUnknown,
     op_result_receipt := Some \<lparr>or_code = lit ''daemon_restarted_during_dispatch'', or_observed_at = 105,
       or_confirmation_basis = None, or_source_attribution = None\<rparr>, op_updated_at := 105\<rparr>"

definition op_overdue :: operation_record where
  "op_overdue = op_started\<lparr>op_revision := 3, op_dispatch_state := DeliveryUnknown,
     op_result_receipt := Some \<lparr>or_code = lit ''prompt_confirmation_timeout'', or_observed_at = 200,
       or_confirmation_basis = None, or_source_attribution = None\<rparr>, op_updated_at := 200\<rparr>"

definition sample_meta :: state_meta where
  "sample_meta = \<lparr>sm_state_format_version = 1, sm_status = Ready, sm_generation = concat (replicate 16 (lit ''ab'')),
     sm_target_generation = None\<rparr>"

definition answer :: response_artifact_metadata where
  "answer = \<lparr>am_run_id = run_run_id completed_run, am_operation_id = None,
     am_provider_session_id = lit ''session-1'', am_observed_process = ab_process sample_binding,
     am_original_byte_count = 4, am_stored_byte_count = 4, am_original_digest = replicate 64 97,
     am_stored_digest = Some (replicate 64 97), am_provider_completeness = ProviderComplete,
     am_store_completeness = StoreComplete, am_source = lit ''provider_hook'', am_encoding = lit ''utf-8'',
     am_observed_at = 30, am_file_name = Some (artifact_file_name (run_run_id completed_run))\<rparr>"

definition answered_run :: run_record where
  "answered_run = completed_run\<lparr>run_artifact := Some answer, run_revision := 3, run_updated_at := 30\<rparr>"

definition quiet_write :: write_answers where
  "quiet_write = \<lparr>wa_directory = Inr (), wa_existing = Inr (), wa_random = Inr (), wa_create = Inr (),
     wa_write = Inr (), wa_sync = Inr (), wa_rename = Inr (), wa_sync_directory = Inr ()\<rparr>"

definition quiet_remove :: remove_answers where
  "quiet_remove = \<lparr>ra_remove = Inr (), ra_sync_directory = Inr ()\<rparr>"

text \<open>Every answer is a constant of its own, so that the simplifier meets it only where it is asked.\<close>

definition table_encode_run :: "run_record \<Rightarrow> str + u8 list" where
  "table_encode_run r = (if r = started_run then Inr [0]
     else if r = completed_run then Inr [1]
     else if r = answered_run then Inr [2]
     else Inl (lit ''other''))"

definition table_decode_run :: "u8 list \<Rightarrow> str + run_record" where
  "table_decode_run bytes = (if bytes = [0] then Inr started_run
     else if bytes = [1] then Inr completed_run
     else if bytes = [2] then Inr answered_run
     else Inl (lit ''other''))"

definition table_encode_operation :: "operation_record \<Rightarrow> str + u8 list" where
  "table_encode_operation r = (if r = op_prepared then Inr [0]
     else if r = op_started then Inr [1]
     else if r = op_unknown then Inr [2]
     else if r = op_overdue then Inr [3]
     else Inl (lit ''other''))"

definition table_decode_operation :: "u8 list \<Rightarrow> str + operation_record" where
  "table_decode_operation bytes = (if bytes = [0] then Inr op_prepared
     else if bytes = [1] then Inr op_started
     else if bytes = [2] then Inr op_unknown
     else if bytes = [3] then Inr op_overdue
     else Inl (lit ''other''))"

definition table_encode_meta :: "state_meta \<Rightarrow> str + u8 list" where
  "table_encode_meta m = (if m = sample_meta then Inr [7] else Inl (lit ''other''))"

definition table_decode_meta :: "u8 list \<Rightarrow> str + state_meta" where
  "table_decode_meta bytes = (if bytes = [7] then Inr sample_meta else Inl (lit ''other''))"

fun always :: "'a \<Rightarrow> 'b \<Rightarrow> 'a" where "always a b = a"

fun never :: "'b \<Rightarrow> 'c \<Rightarrow> 'a option" where "never b c = None"

definition world :: externals where
  "world = \<lparr>x_digest = sample_digest, x_evidence = always (Inr [0]),
     x_encode_run = table_encode_run, x_decode_run = table_decode_run,
     x_encode_operation = table_encode_operation, x_decode_operation = table_decode_operation,
     x_encode_meta = table_encode_meta, x_decode_meta = table_decode_meta,
     x_encode_binding = always (Inr [1]), x_encode_target = always (Inr [2]), x_encode_reference = always (Inr [3]),
     x_base64url = always (lit ''A''), x_base64_decode = always (Inl (lit ''other'')),
     x_entropy = always entropy, x_resolution_entropy = always entropy, x_now = always 105,
     x_fault = never, x_write = always quiet_write, x_remove = always quiet_remove\<rparr>"

lemma world_codecs: "operation_codec world" "run_codec world"
  by (simp_all add: operation_codec_def run_codec_def world_def table_encode_run_def table_decode_run_def
      table_encode_operation_def table_decode_operation_def)

lemma world_synced: "synced world"
  by (simp add: synced_def world_def quiet_write_def)

definition empty_store :: agent_store where
  "empty_store = \<lparr>as_root = lit ''/state'', as_meta = sample_meta, as_run_capacity = \<lparr>rc_records = 0, rc_bytes = 0\<rparr>,
     as_operation_capacity = \<lparr>rc_records = 0, rc_bytes = 0\<rparr>, as_runs = [], as_operations = [], as_prompts = [],
     as_artifacts = [], as_meta_file = None, as_calls = 0\<rparr>"

definition no_daemon :: agent_runtime where
  "no_daemon = \<lparr>ag_server_identity = lit ''server'', ag_store = empty_store, ag_current_by_binding = [],
     ag_current_by_pane = [], ag_turn_index = [], ag_event_index = [], ag_in_flight = [], ag_dispatch_inputs = []\<rparr>"

definition open_new :: open_environment where
  "open_new = \<lparr>oe_inspect = Inr (), oe_root_missing = True, oe_directories = replicate 5 (Inr ())\<rparr>"

definition open_again :: open_environment where
  "open_again = \<lparr>oe_inspect = Inr (), oe_root_missing = False, oe_directories = replicate 5 (Inr ())\<rparr>"

definition opened :: agent_runtime where
  "opened = no_daemon\<lparr>ag_store := empty_store\<lparr>as_meta_file := Some [7], as_calls := 1\<rparr>\<rparr>"

definition target :: str where "target = replicate 64 97"

definition id1 :: operation_id where "id1 = lit ''operation-000001''"

definition prepared :: agent_runtime where
  "prepared = opened\<lparr>ag_store := empty_store\<lparr>as_operation_capacity := \<lparr>rc_records = 1, rc_bytes = 1\<rparr>,
     as_operations := [(operation_file id1, [0])], as_prompts := [(prompt_file id1, utf8 (lit ''fix it''))],
     as_meta_file := Some [7], as_calls := 3\<rparr>, ag_in_flight := [(target, id1)]\<rparr>"

lemma open_step: "open_runtime world open_new no_daemon = (opened, Inr ())"
  by code_simp

lemma prepare_step: "prepare_operation world dispatch_request opened = (prepared, Inr (Created op_prepared))"
  by code_simp

definition dispatched_input :: dispatch_input_evidence where
  "dispatched_input = \<lparr>di_binding = dispatch_binding, di_digest = replicate 64 97, di_automatic = False,
     di_created_at = 100\<rparr>"

definition started :: agent_runtime where
  "started = prepared\<lparr>ag_store := (ag_store prepared)\<lparr>as_operations := [(operation_file id1, [1])], as_calls := 4\<rparr>,
     ag_dispatch_inputs := [(target, [(id1, dispatched_input)])]\<rparr>"

definition reopened :: agent_runtime where
  "reopened = started\<lparr>ag_store := (ag_store started)\<lparr>as_operations := [(operation_file id1, [2])],
     as_prompts := [], as_calls := 6\<rparr>\<rparr>"

definition overdue :: agent_runtime where
  "overdue = started\<lparr>ag_store := (ag_store started)\<lparr>as_operations := [(operation_file id1, [3])],
     as_prompts := [], as_calls := 6\<rparr>\<rparr>"

lemma start_step: "mark_dispatch_started world id1 101 prepared = (started, Inr op_started)"
  by code_simp

lemma reopen_step: "open_runtime world open_again started = (reopened, Inr ())"
  by code_simp

lemma overdue_step: "settle_expired_dispatches world 200 started = (overdue, Inr [op_overdue])"
  by code_simp

definition day :: "daemon_event list" where
  "day = [Restart open_new, Request (PrepareOperation dispatch_request), Request (MarkStarted id1 101),
     Crash, Restart open_again]"

lemma day_run: "daemon_run world day (Down no_daemon) = Serving reopened"
  by (simp add: day_def open_step prepare_step start_step reopen_step)

lemma night_run: "daemon_run world [Request (MarkStarted id1 101), Crash, Restart open_again] (Serving prepared)
    = Serving reopened"
  by (simp add: start_step reopen_step)

section \<open>Witnesses\<close>

lemma id1_parsed: "operation_id_parse id1 = Inr id1"
  by code_simp

lemma stored_prepared: "stored_operation world (ag_store prepared) id1 = Some op_prepared"
  by code_simp

lemma stored_unknown: "stored_operation world (ag_store reopened) id1 = Some op_unknown"
  by code_simp

theorem operation_life_witness:
  "\<exists>r'. stored_operation world (ag_store reopened) id1 = Some r' \<and> life\<^sup>*\<^sup>* PhasePrepared (phase_of r')
    \<and> same_request op_prepared r'"
proof -
  have "stored_operation world (daemon_store (Serving prepared)) id1 = Some op_prepared"
    by (simp add: stored_prepared)
  from operation_life [OF world_codecs(1) id1_parsed this,
      of "[Request (MarkStarted id1 101), Crash, Restart open_again]"]
  show ?thesis
    unfolding night_run by (auto simp: phase_of_def op_prepared_def)
qed

theorem served_store_well_typed_witness: "well_typed world (ag_store reopened)"
proof -
  have "codecs world"
    by (simp add: codecs_def world_codecs)
  then show ?thesis
    using day_run by (rule served_store_well_typed)
qed

theorem one_dispatch_per_target_witness:
  "{j. \<exists>r. stored_operation world (ag_store reopened) j = Some r \<and> dispatch_fenced r
      \<and> target_of (op_binding r) = target_of dispatch_binding} = {id1}"
proof -
  have one: "dispatch_fenced op_unknown" "op_binding op_unknown = dispatch_binding"
    "is_ok (operation_target_key world (op_binding op_unknown))" "as_operations (ag_store no_daemon) = []"
    by code_simp+
  have "j = id1" if "stored_operation world (ag_store reopened) j = Some r" "dispatch_fenced r"
    "target_of (op_binding r) = target_of dispatch_binding" for j r
    using one_dispatch_per_target [OF world_codecs(1) world_synced one(4) day_run, of id1 op_unknown j r]
      that one stored_unknown by simp
  then show ?thesis
    using stored_unknown one by (auto intro: exI [of _ op_unknown])
qed

theorem prepare_at_most_once_witness:
  "\<exists>r'. prepare_operation world dispatch_request reopened = (reopened, Inr (Existing r'))
    \<and> same_request op_prepared r' \<and> life\<^sup>*\<^sup>* PhasePrepared (phase_of r')"
proof -
  have again: "prepare_operation world dispatch_request reopened = (reopened, Inr (Existing op_unknown))"
    by code_simp
  have "operation_id_parse (oq_operation_id dispatch_request) = Inr (oq_operation_id dispatch_request)"
    by code_simp
  from prepare_at_most_once [OF world_codecs(1) this prepare_step _ refl again,
      of "[Request (MarkStarted id1 101), Crash, Restart open_again]"]
  show ?thesis
    using again by (simp add: start_step reopen_step)
qed


text \<open>The write of the operation fails when its directory is synced, after the rename.\<close>

definition late_world :: externals where
  "late_world = world\<lparr>x_write := (\<lambda>n. if n = 2 then quiet_write\<lparr>wa_sync_directory := Inl (lit ''I/O error'')\<rparr>
     else quiet_write)\<rparr>"

definition half_prepared :: agent_runtime where
  "half_prepared = opened\<lparr>ag_store := empty_store\<lparr>as_operation_capacity := \<lparr>rc_records = 1, rc_bytes = 1\<rparr>,
     as_operations := [(operation_file id1, [0])], as_meta_file := Some [7], as_calls := 4\<rparr>\<rparr>"

theorem missing_prompt_blocks_restart_witness:
  "fst (prepare_operation late_world dispatch_request opened) = half_prepared
   \<and> \<not> is_ok (snd (prepare_operation late_world dispatch_request opened))
   \<and> \<not> is_ok (snd (open_or_initialize late_world open_again (ag_store half_prepared)))"
proof -
  have "stored_operation late_world (ag_store half_prepared) id1 = Some op_prepared" "op_operation_id op_prepared = id1"
    "prompt_staging_required op_prepared" "bm_get (as_prompts (ag_store half_prepared)) (prompt_file id1) = None"
    by code_simp+
  then have "\<not> is_ok (snd (open_or_initialize late_world open_again (ag_store half_prepared)))"
    using missing_prompt_blocks_restart [of late_world "ag_store half_prepared" id1 op_prepared open_again] id1_parsed
    by blast
  moreover have "fst (prepare_operation late_world dispatch_request opened) = half_prepared"
    "\<not> is_ok (snd (prepare_operation late_world dispatch_request opened))"
    by code_simp+
  ultimately show ?thesis
    by blast
qed

definition updated_event :: "nat \<Rightarrow> provider_event_reference" where
  "updated_event n = prompt_event\<lparr>pr_event_ref := [65 + n], pr_ingress_request_id := [65 + n],
     pr_disposition := lit ''prompt_updated''\<rparr>"

definition full_run :: run_record where
  "full_run = started_run\<lparr>run_evidence := (run_evidence started_run)\<lparr>re_provider_events :=
     prompt_event # map updated_event [0..<15]\<rparr>\<rparr>"

definition stopped_run :: run_record where
  "stopped_run = fst (projr (apply_observation sample_digest small_evidence entropy full_run
     (observation HookStop ''request-2'' 20)))"

theorem evicting_observation_refused_witness:
  "apply_observation sample_digest small_evidence entropy full_run (observation HookStop ''request-2'' 20)
     = Inr (stopped_run, Applied)
   \<and> validate_run_replacement full_run stopped_run =
     Inl (Conflict (Msg ''provider evidence identity changed during replacement''))"
proof -
  have stop: "apply_observation sample_digest small_evidence entropy full_run (observation HookStop ''request-2'' 20)
     = Inr (stopped_run, Applied)"
    by code_simp
  moreover have "run_record_validate sample_digest small_evidence full_run = Inr ()"
    "correctness_event_ref (observation HookStop ''request-2'' 20) = Some (lit ''request-2'')"
    "distinct (map pr_event_ref (events_of full_run))"
    "length (events_of full_run) = RUN_EVENT_REFERENCE_MAX_COUNT"
    by code_simp+
  ultimately show ?thesis
    using evicting_observation_refused by blast
qed

definition failed_run :: "run_record \<Rightarrow> i64 \<Rightarrow> run_record" where
  "failed_run run t = projr (capacity_failed_run world run (lit ''turn-1'') t)"

theorem capacity_failure_repeat_refused_witness:
  "capacity_failed_run world (failed_run started_run 30) (lit ''turn-1'') 40
     = Inr (failed_run (failed_run started_run 30) 40)
   \<and> validate_run_replacement (failed_run started_run 30) (failed_run (failed_run started_run 30) 40) =
     Inl (Conflict (Msg ''run replacement must advance revision and time exactly once''))"
proof -
  have "capacity_failed_run world started_run (lit ''turn-1'') 30 = Inr (failed_run started_run 30)"
    by code_simp
  moreover have again: "capacity_failed_run world (failed_run started_run 30) (lit ''turn-1'') 40
      = Inr (failed_run (failed_run started_run 30) 40)"
    by code_simp
  moreover have "the (re_last_observed_at (run_evidence (failed_run started_run 30))) < 40"
    "run_revision (failed_run started_run 30) \<noteq> - 1"
    by code_simp+
  ultimately show ?thesis
    using capacity_failure_repeat_refused by blast
qed

theorem artifact_room_terminates_witness:
  "\<exists>outcome. make_artifact_room (Suc RUN_STORE_MAX_RECORDS) world id1 (lit ''x.txt'') 4 0 0 empty_store
    = Some outcome"
  using world_codecs(2) by (rule artifact_room_terminates)

definition answer_store :: agent_store where
  "answer_store = empty_store\<lparr>as_meta := sample_meta\<lparr>sm_generation := run_generation completed_run\<rparr>,
     as_run_capacity := \<lparr>rc_records = 1, rc_bytes = 1\<rparr>,
     as_runs := [(run_file (run_run_id completed_run), [1])]\<rparr>"

definition answered_store :: agent_store where
  "answered_store = answer_store\<lparr>as_runs := [(run_file (run_run_id completed_run), [2])],
     as_artifacts := [(artifact_file_name (run_run_id completed_run), utf8 (lit ''done''))], as_calls := 2\<rparr>"

theorem stored_response_read_back_witness:
  "read_artifact world (run_run_id completed_run) answered_store
    = Inr (utf8_suffix (lit ''done'') RESPONSE_ARTIFACT_BODY_MAX_BYTES)"
proof -
  have "store_artifact world (run_run_id completed_run) (lit ''done'')
      \<lparr>ao_provider_completeness = ProviderComplete, ao_source = lit ''provider_hook'', ao_observed_at = 30\<rparr>
      answer_store = (answered_store, Inr answer)"
    by code_simp
  moreover have "is_stored (am_store_completeness answer)" "run_artifact completed_run = None"
    "load_run world (run_run_id completed_run) answer_store = Inr (Some completed_run)"
    "list_all is_scalar (lit ''done'')"
    by code_simp+
  moreover have "x_fault world n p = None" for n p
    by (simp add: world_def)
  ultimately show ?thesis
    using stored_response_read_back [OF world_codecs(2)] by blast
qed

end
