(* ===== verification/CategoryModel.thy ===== *)
theory CategoryModel
  imports BTree RustText "HOL-Library.Option_ord" "HOL-Library.Product_Lexorder"
begin

text \<open>
  Categories of repositories, \<open>src/src/category/model.rs\<close>: names, the persisted state,
  the effective model built from the configuration and the state, the intents that edit
  the state, and the path patterns of the rules. Errors are strings, as in the code;
  \<open>BTreeMap\<close> and \<open>BTreeSet\<close> are the sorted lists of theory BTree. Of the configuration
  (\<open>src/src/config/mod.rs\<close>) only the section \<open>categories\<close> is read.
\<close>

section \<open>Names\<close>

type_synonym category_name = str
type_synonym repo_key = str

definition CATEGORY_STATE_SCHEMA_VERSION :: u32 where "CATEGORY_STATE_SCHEMA_VERSION = 1"
definition UNCATEGORIZED :: str where "UNCATEGORIZED = lit ''Uncategorized''"
definition AUTOMATIC_LABEL :: str where "AUTOMATIC_LABEL = lit ''Automatic (config)''"
definition CATEGORY_NAME_MAX_BYTES :: nat where "CATEGORY_NAME_MAX_BYTES = 256"

definition category_name_parse :: "str \<Rightarrow> str + category_name" where
  "category_name_parse value =
    (let trimmed = trim value
     in if trimmed = [] then Inl (lit ''category name is empty'')
        else if text_len trimmed > CATEGORY_NAME_MAX_BYTES
        then Inl (lit (''category name exceeds '' @ decimal CATEGORY_NAME_MAX_BYTES @ '' UTF-8 bytes''))
        else if list_ex is_control trimmed
        then Inl (lit ''category name contains a control character'')
        else if trimmed = UNCATEGORIZED \<or> trimmed = AUTOMATIC_LABEL
        then Inl (lit ''category name is reserved: '' @ trimmed)
        else Inr trimmed)"

definition repo_key_parse :: "str \<Rightarrow> str + repo_key" where
  "repo_key_parse value =
    (case (case strip_prefix (lit ''git:'') value of Some path \<Rightarrow> Some path
           | None \<Rightarrow> strip_prefix (lit ''path:'') value) of
       None \<Rightarrow> Inl (lit ''repository key must start with git: or path:'')
     | Some path \<Rightarrow> if trim path = [] then Inl (lit ''repository key path is empty'')
         else Inr value)"

definition repo_key_git :: "str \<Rightarrow> repo_key" where
  "repo_key_git path = lit ''git:'' @ path"

definition repo_key_path :: "str \<Rightarrow> repo_key" where
  "repo_key_path path = lit ''path:'' @ path"

section \<open>Configuration and repositories\<close>

record category_rule =
  rule_category :: str
  rule_path_patterns :: "str list"

record categories_config =
  cfg_display_names :: "(str \<times> str) list"
  cfg_order :: "(str \<times> i64) list"
  cfg_default_category :: "str option"
  cfg_rules :: "category_rule list"

record repo_identity =
  repo_key_of :: repo_key
  repo_rule_path :: str
  repo_display_name :: str

section \<open>The persisted state\<close>

datatype category_source = Configured | Dynamic | System

datatype membership_target = TargetCategory category_name | Automatic

record category_state =
  cat_schema_version :: u32
  cat_revision :: u64
  cat_dynamic_categories :: "category_name list"
  cat_category_order :: "category_name list"
  cat_repo_overrides :: "(repo_key \<times> category_name) list"
  cat_repo_order :: "(category_name \<times> repo_key list) list"

definition category_state_default :: category_state where
  "category_state_default = \<lparr>cat_schema_version = CATEGORY_STATE_SCHEMA_VERSION, cat_revision = 0,
     cat_dynamic_categories = [], cat_category_order = [], cat_repo_overrides = [],
     cat_repo_order = []\<rparr>"

definition validate_unique :: "'a::linorder list \<Rightarrow> str \<Rightarrow> str + unit" where
  "validate_unique values label' =
    fail_if (length (bs_of_list values) \<noteq> length values) (label' @ lit '' contains duplicate entries'')"

definition validate_stored_category_name :: "category_name \<Rightarrow> str + unit" where
  "validate_stored_category_name name =
    (if name = UNCATEGORIZED then Inr () else bind_r (category_name_parse name) (\<lambda>_. Inr ()))"

definition validate_mutable_name :: "category_name \<Rightarrow> str + unit" where
  "validate_mutable_name name = bind_r (category_name_parse name) (\<lambda>_. Inr ())"

definition category_state_validate :: "category_state \<Rightarrow> str + unit" where
  "category_state_validate s = first_error
    [fail_if (cat_schema_version s \<noteq> CATEGORY_STATE_SCHEMA_VERSION)
       (lit (''unsupported category state schema version: '' @ decimal (unat (cat_schema_version s)))),
     validate_unique (cat_category_order s) (lit ''category order''),
     first_error (map (\<lambda>e. first_error
       [validate_stored_category_name (fst e),
        validate_unique (snd e) (lit ''repository order for '' @ fst e)]) (cat_repo_order s)),
     first_error (map validate_stored_category_name (cat_dynamic_categories s)),
     first_error (map (\<lambda>e. validate_stored_category_name (snd e)) (cat_repo_overrides s))]"

section \<open>Path patterns\<close>

text \<open>
  The loop of \<open>wildcard_match\<close> over the two byte slices. \<open>match_index \<le> text_index\<close> and
  \<open>star < pattern_index\<close> hold of every iteration; the first stands in the guard because the
  termination argument needs it.
\<close>

function wildcard_loop ::
  "u8 list \<Rightarrow> u8 list \<Rightarrow> nat \<Rightarrow> nat \<Rightarrow> nat option \<Rightarrow> nat \<Rightarrow> bool" where
  "wildcard_loop pat text' pattern_index text_index star_index match_index =
    (if text_index < length text' \<and> match_index \<le> text_index then
       (if pattern_index < length pat
           \<and> (pat ! pattern_index = text' ! text_index \<or> pat ! pattern_index = 63)
        then wildcard_loop pat text' (pattern_index + 1) (text_index + 1) star_index match_index
        else if pattern_index < length pat \<and> pat ! pattern_index = 42
        then wildcard_loop pat text' (pattern_index + 1) text_index (Some pattern_index) text_index
        else case star_index of
            Some star \<Rightarrow>
              wildcard_loop pat text' (star + 1) (match_index + 1) star_index (match_index + 1)
          | None \<Rightarrow> False)
     else list_all (\<lambda>b. b = 42) (drop pattern_index pat))"
  by auto

termination
  by (relation "measures [\<lambda>(pat, text', p, t, s, m). length text' - m,
      \<lambda>(pat, text', p, t, s, m). length text' - t, \<lambda>(pat, text', p, t, s, m). length pat - p]")
    auto

declare wildcard_loop.simps [simp del]

definition wildcard_match :: "str \<Rightarrow> str \<Rightarrow> bool" where
  "wildcard_match pat text' = wildcard_loop (utf8 pat) (utf8 text') 0 0 None 0"

text \<open>The slices after each \<open>'/'\<close>.\<close>

fun slash_suffixes :: "str \<Rightarrow> str list" where
  "slash_suffixes [] = []"
| "slash_suffixes (c # cs) = (if c = 47 then cs # slash_suffixes cs else slash_suffixes cs)"

definition matches_path_pattern :: "str \<Rightarrow> str \<Rightarrow> bool" where
  "matches_path_pattern pat path \<longleftrightarrow>
     wildcard_match pat path \<or> list_ex (wildcard_match pat) (slash_suffixes path)"

section \<open>The effective model\<close>

record effective_category =
  ec_name :: category_name
  ec_source :: category_source
  ec_display_name :: str

record effective_repo_placement =
  pl_repo :: repo_identity
  pl_category :: category_name
  pl_explicit :: bool

record effective_category_model =
  em_revision :: u64
  em_categories :: "effective_category list"
  em_placements :: "(repo_key \<times> effective_repo_placement) list"

definition configured_category_names :: "categories_config \<Rightarrow> str + category_name list" where
  "configured_category_names config = fold_r (\<lambda>names name.
      bind_r (category_name_parse name) (\<lambda>parsed. Inr (bs_insert parsed names))) []
    (map rule_category (cfg_rules config)
     @ (case cfg_default_category config of None \<Rightarrow> [] | Some d \<Rightarrow> [d])
     @ map fst (cfg_display_names config) @ map fst (cfg_order config))"

definition order_rank :: "categories_config \<Rightarrow> category_name \<Rightarrow> i64" where
  "order_rank config name = (case bm_get (cfg_order config) name of None \<Rightarrow> i64_max | Some n \<Rightarrow> n)"

text \<open>The loop that appends what is not there yet.\<close>

definition append_missing :: "'a list \<Rightarrow> 'a list \<Rightarrow> 'a list" where
  "append_missing xs ys = foldl (\<lambda>xs y. if y \<in> set xs then xs else xs @ [y]) xs ys"

definition effective_category_order ::
  "categories_config \<Rightarrow> category_state \<Rightarrow> category_name list \<Rightarrow> str + category_name list" where
  "effective_category_order config s names =
    (let base = sort_key (\<lambda>name. (order_rank config name, name)) names
     in if cat_category_order s = [] then Inr base
        else
          let ordered = append_missing (filter (\<lambda>name. name \<in> set names) (cat_category_order s)) base
          in bind_r (validate_unique ordered (lit ''effective category order'')) (\<lambda>_. Inr ordered))"

definition resolve_membership ::
  "categories_config \<Rightarrow> category_state \<Rightarrow> repo_identity \<Rightarrow> str + (category_name \<times> bool)" where
  "resolve_membership config s repo =
    (case bm_get (cat_repo_overrides s) (repo_key_of repo) of
       Some category \<Rightarrow> Inr (category, True)
     | None \<Rightarrow>
       (case find (\<lambda>rule. list_ex (\<lambda>pat. matches_path_pattern pat (repo_rule_path repo))
            (rule_path_patterns rule)) (cfg_rules config) of
          Some rule \<Rightarrow> bind_r (category_name_parse (rule_category rule)) (\<lambda>c. Inr (c, False))
        | None \<Rightarrow>
          (case cfg_default_category config of
             Some default' \<Rightarrow>
               if trim default' \<noteq> []
               then bind_r (category_name_parse default') (\<lambda>c. Inr (c, False))
               else Inr (UNCATEGORIZED, False)
           | None \<Rightarrow> Inr (UNCATEGORIZED, False))))"

definition effective_category_of ::
  "categories_config \<Rightarrow> category_name list \<Rightarrow> category_name \<Rightarrow> effective_category" where
  "effective_category_of config configured name = \<lparr>ec_name = name,
     ec_source = (if name = UNCATEGORIZED then System
       else if name \<in> set configured then Configured else Dynamic),
     ec_display_name = (case bm_get (cfg_display_names config) name of
         None \<Rightarrow> name | Some display \<Rightarrow> display)\<rparr>"

definition build :: "categories_config \<Rightarrow> category_state \<Rightarrow> repo_identity list \<Rightarrow>
    str + effective_category_model" where
  "build config s repos =
    bind_r (category_state_validate s) (\<lambda>_.
    bind_r (configured_category_names config) (\<lambda>configured.
    let names = bs_insert UNCATEGORIZED (bs_extend (bs_extend configured
          (cat_dynamic_categories s)) (map snd (cat_repo_overrides s)))
    in bind_r (effective_category_order config s names) (\<lambda>ordered.
       bind_r (fold_r (\<lambda>placements repo.
           bind_r (resolve_membership config s repo) (\<lambda>m.
             Inr (bm_insert (repo_key_of repo) \<lparr>pl_repo = repo, pl_category = fst m,
               pl_explicit = snd m\<rparr> placements))) [] repos) (\<lambda>placements.
         Inr \<lparr>em_revision = cat_revision s,
           em_categories = map (effective_category_of config configured) ordered,
           em_placements = placements\<rparr>))))"

definition model_category ::
  "effective_category_model \<Rightarrow> category_name \<Rightarrow> effective_category option" where
  "model_category m name = find (\<lambda>c. ec_name c = name) (em_categories m)"

definition category_repos :: "effective_category_model \<Rightarrow> category_name \<Rightarrow> repo_key list" where
  "category_repos m category =
    map fst (filter (\<lambda>e. pl_category (snd e) = category) (em_placements m))"

text \<open>
  The comparison of \<open>ordered_repos\<close> (stored position with \<open>None\<close> first, then display name,
  then key) is the lexicographic order of the key below; the sort is stable in both.
\<close>

definition stored_position :: "category_state \<Rightarrow> category_name \<Rightarrow> repo_key \<Rightarrow> nat option" where
  "stored_position s category key = (case bm_get (cat_repo_order s) category of
     None \<Rightarrow> None | Some order \<Rightarrow> position (\<lambda>k. k = key) order)"

definition placement_display_name :: "effective_category_model \<Rightarrow> repo_key \<Rightarrow> str" where
  "placement_display_name m key = (case bm_get (em_placements m) key of
     None \<Rightarrow> [] | Some p \<Rightarrow> repo_display_name (pl_repo p))"

definition ordered_repos ::
  "effective_category_model \<Rightarrow> category_state \<Rightarrow> category_name \<Rightarrow> repo_key list" where
  "ordered_repos m s category =
    sort_key (\<lambda>key. (stored_position s category key, placement_display_name m key, key))
      (category_repos m category)"

end
