(* ===== verification/CategoryIntents.thy ===== *)
theory CategoryIntents
  imports CategoryModel Machine
begin

text \<open>
  The edits of the category state: \<open>CategoryState::apply_intent\<close> and its helpers in
  \<open>src/src/category/model.rs\<close>, and the way \<open>apply_category_intent\<close> in
  \<open>src/src/daemon/server/mutations/sidebar.rs\<close> uses it: the edit runs on a copy, which
  replaces the state only when the edit reports a change.
\<close>

datatype move_direction = Up | Down

datatype category_intent =
  CreateCategory category_name
| RenameCategory category_name category_name \<comment> \<open>\<open>current\<close>, \<open>replacement\<close>\<close>
| DeleteCategory category_name membership_target
| AssignRepo repo_key category_name
| SetRepoAutomatic repo_key
| MoveCategory category_name category_name move_direction \<comment> \<open>\<open>category\<close>, \<open>neighbor\<close>\<close>
| MoveRepo repo_key repo_key category_name move_direction \<comment> \<open>\<open>repo\<close>, \<open>neighbor\<close>\<close>

definition validate_mutable_category ::
  "effective_category_model \<Rightarrow> category_name \<Rightarrow> str + unit" where
  "validate_mutable_category m category = (case model_category m category of
      None \<Rightarrow> Inl (lit ''unknown category: '' @ category)
    | Some c \<Rightarrow> (case ec_source c of
          Dynamic \<Rightarrow> Inr ()
        | Configured \<Rightarrow> Inl (lit ''configured category is read-only: '' @ ec_name c)
        | System \<Rightarrow> Inl (lit ''system category is read-only: '' @ ec_name c)))"

definition validate_delete_replacement :: "effective_category_model \<Rightarrow> category_name \<Rightarrow>
    membership_target \<Rightarrow> str + unit" where
  "validate_delete_replacement m category replacement = (case replacement of
      Automatic \<Rightarrow> Inr ()
    | TargetCategory r \<Rightarrow>
        if r = category then Inl (lit ''category cannot be deleted into itself'')
        else if model_category m r = None
        then Inl (lit ''unknown replacement category: '' @ r) else Inr ())"

definition replace_category_name ::
  "category_name \<Rightarrow> category_name \<Rightarrow> category_state \<Rightarrow> category_state" where
  "replace_category_name current replacement s =
    (let subst = (\<lambda>c. if c = current then replacement else c)
     in s\<lparr>cat_dynamic_categories :=
            bs_insert replacement (bs_remove current (cat_dynamic_categories s)),
          cat_category_order := map subst (cat_category_order s),
          cat_repo_overrides := bm_map_values (\<lambda>_. subst) (cat_repo_overrides s),
          cat_repo_order := (case bm_get (cat_repo_order s) current of
              None \<Rightarrow> cat_repo_order s
            | Some order \<Rightarrow> bm_insert replacement order (bm_remove current (cat_repo_order s)))\<rparr>)"

definition retain_other :: "repo_key \<Rightarrow> repo_key list \<Rightarrow> repo_key list" where
  "retain_other repo repos = filter (\<lambda>value. value \<noteq> repo) repos"

definition move_repo_to_category_end :: "repo_key \<Rightarrow> category_name option \<Rightarrow> category_name \<Rightarrow>
    category_state \<Rightarrow> category_state" where
  "move_repo_to_category_end repo previous category s =
    (let cleaned = bm_map_values (\<lambda>candidate repos.
           if (case previous of None \<Rightarrow> True | Some p \<Rightarrow> candidate = p) \<or> candidate = category
           then retain_other repo repos else repos) (cat_repo_order s);
         entry = (case bm_get cleaned category of None \<Rightarrow> [] | Some repos \<Rightarrow> repos)
     in s\<lparr>cat_repo_order := bm_insert category (entry @ [repo]) cleaned\<rparr>)"

text \<open>The body of the loop over the affected repositories of \<open>delete_category\<close>.\<close>

definition reassign_deleted :: "categories_config \<Rightarrow> effective_category_model \<Rightarrow>
    membership_target \<Rightarrow> category_state \<Rightarrow> repo_key \<Rightarrow> str + category_state" where
  "reassign_deleted config m replacement s repo = (case replacement of
      TargetCategory r \<Rightarrow> Inr (move_repo_to_category_end repo None r
        (s\<lparr>cat_repo_overrides := bm_insert repo r (cat_repo_overrides s)\<rparr>))
    | Automatic \<Rightarrow>
        let s = s\<lparr>cat_repo_overrides := bm_remove repo (cat_repo_overrides s)\<rparr>
        in (case bm_get (em_placements m) repo of
            None \<Rightarrow> Inr s
          | Some placement \<Rightarrow>
              bind_r (resolve_membership config s (pl_repo placement)) (\<lambda>automatic.
                Inr (move_repo_to_category_end repo None (fst automatic) s))))"

definition delete_category :: "categories_config \<Rightarrow> effective_category_model \<Rightarrow>
    category_name \<Rightarrow> membership_target \<Rightarrow> category_state \<Rightarrow> str + category_state" where
  "delete_category config m category replacement s =
    (let affected = map fst (filter (\<lambda>e. snd e = category) (cat_repo_overrides s))
     in fold_r (reassign_deleted config m replacement)
          (s\<lparr>cat_dynamic_categories := bs_remove category (cat_dynamic_categories s),
             cat_category_order := filter (\<lambda>c. c \<noteq> category) (cat_category_order s),
             cat_repo_order := bm_remove category (cat_repo_order s)\<rparr>) affected)"

definition materialize_category_order ::
  "effective_category_model \<Rightarrow> category_state \<Rightarrow> category_state" where
  "materialize_category_order m s = s\<lparr>cat_category_order :=
     append_missing (map ec_name (em_categories m)) (cat_category_order s)\<rparr>"

definition materialize_repo_order ::
  "effective_category_model \<Rightarrow> category_name \<Rightarrow> repo_key list \<Rightarrow> repo_key list" where
  "materialize_repo_order m category order = append_missing order (category_repos m category)"

definition move_relative :: "'a list \<Rightarrow> 'a \<Rightarrow> 'a \<Rightarrow> move_direction \<Rightarrow> str + 'a list" where
  "move_relative values v neighbor direction =
    (if v = neighbor then Inl (lit ''value and neighbor must differ'')
     else case position (\<lambda>c. c = v) values of
        None \<Rightarrow> Inl (lit ''value is not present in order'')
      | Some index \<Rightarrow> (case position (\<lambda>c. c = neighbor) values of
          None \<Rightarrow> Inl (lit ''neighbor is not present in order'')
        | Some neighbor_index \<Rightarrow>
            let expected = (case direction of
                  Up \<Rightarrow> if index = 0 then None else Some (index - 1)
                | Down \<Rightarrow> if index + 1 < length values then Some (index + 1) else None)
            in if expected \<noteq> Some neighbor_index
               then Inl (lit ''value and neighbor are not adjacent in the requested direction'')
               else Inr (values[index := values ! neighbor_index, neighbor_index := values ! index])))"

text \<open>
  The \<open>match intent\<close>: the edited state with \<open>changed\<close>. \<open>move_relative\<close> of the code
  returns \<open>true\<close> whenever it succeeds.
\<close>

definition assign_repo :: "repo_key \<Rightarrow> category_name \<Rightarrow> category_state \<Rightarrow> category_state \<times> bool" where
  "assign_repo repo category s =
    (let previous = bm_get (cat_repo_overrides s) repo
     in (move_repo_to_category_end repo previous category
           (s\<lparr>cat_repo_overrides := bm_insert repo category (cat_repo_overrides s)\<rparr>),
         previous \<noteq> Some category))"

definition set_repo_automatic :: "repo_key \<Rightarrow> category_state \<Rightarrow> category_state \<times> bool" where
  "set_repo_automatic repo s =
    (let previous = bm_get (cat_repo_overrides s) repo;
         s = s\<lparr>cat_repo_overrides := bm_remove repo (cat_repo_overrides s)\<rparr>
     in (case previous of None \<Rightarrow> s
         | Some p \<Rightarrow> s\<lparr>cat_repo_order := bm_map_values (\<lambda>candidate repos.
             if candidate = p then retain_other repo repos else repos) (cat_repo_order s)\<rparr>,
         previous \<noteq> None))"

definition move_repo :: "effective_category_model \<Rightarrow> repo_key \<Rightarrow> repo_key \<Rightarrow> category_name \<Rightarrow>
    move_direction \<Rightarrow> category_state \<Rightarrow> str + category_state" where
  "move_repo m repo neighbor category direction s =
    (case bm_get (em_placements m) repo of
       None \<Rightarrow> Inl (lit ''unknown repository: '' @ repo)
     | Some effective \<Rightarrow> (case bm_get (em_placements m) neighbor of
         None \<Rightarrow> Inl (lit ''unknown repository: '' @ neighbor)
       | Some neighbor_effective \<Rightarrow>
           if pl_category effective \<noteq> category \<or> pl_category neighbor_effective \<noteq> category
           then Inl (lit ''repository reorder cannot cross a category boundary'')
           else
             let order = materialize_repo_order m category
                   (case bm_get (cat_repo_order s) category of None \<Rightarrow> [] | Some order \<Rightarrow> order)
             in bind_r (move_relative order repo neighbor direction) (\<lambda>order.
               Inr (s\<lparr>cat_repo_order := bm_insert category order (cat_repo_order s)\<rparr>))))"

fun edit_state :: "categories_config \<Rightarrow> effective_category_model \<Rightarrow> category_intent \<Rightarrow>
    category_state \<Rightarrow> str + (category_state \<times> bool)" where
  "edit_state config m (CreateCategory name) s =
     bind_r (validate_mutable_name name) (\<lambda>_.
     if model_category m name \<noteq> None then Inl (lit ''category already exists: '' @ name)
     else Inr (s\<lparr>cat_dynamic_categories := bs_insert name (cat_dynamic_categories s),
            cat_category_order := cat_category_order s @ [name]\<rparr>, True))"
| "edit_state config m (RenameCategory current replacement) s =
     bind_r (validate_mutable_category m current) (\<lambda>_.
     bind_r (validate_mutable_name replacement) (\<lambda>_.
     if current = replacement then Inr (s, False)
     else if model_category m replacement \<noteq> None
     then Inl (lit ''category already exists: '' @ replacement)
     else Inr (replace_category_name current replacement s, True)))"
| "edit_state config m (DeleteCategory category replacement) s =
     bind_r (validate_mutable_category m category) (\<lambda>_.
     bind_r (validate_delete_replacement m category replacement) (\<lambda>_.
     bind_r (delete_category config m category replacement s) (\<lambda>s. Inr (s, True))))"
| "edit_state config m (AssignRepo repo category) s =
     (if model_category m category = None then Inl (lit ''unknown category: '' @ category)
      else Inr (assign_repo repo category s))"
| "edit_state config m (SetRepoAutomatic repo) s = Inr (set_repo_automatic repo s)"
| "edit_state config m (MoveCategory category neighbor direction) s =
     bind_r (move_relative (cat_category_order (materialize_category_order m s))
         category neighbor direction) (\<lambda>order. Inr (s\<lparr>cat_category_order := order\<rparr>, True))"
| "edit_state config m (MoveRepo repo neighbor category direction) s =
     bind_r (move_repo m repo neighbor category direction s) (\<lambda>s. Inr (s, True))"

definition apply_intent :: "categories_config \<Rightarrow> category_intent \<Rightarrow> effective_category_model \<Rightarrow>
    category_state \<Rightarrow> str + (category_state \<times> bool)" where
  "apply_intent config intent m s =
    bind_r (configured_category_names config) (\<lambda>configured.
    bind_r (edit_state config m intent s) (\<lambda>(s, changed).
    bind_r (if changed
        then bind_r (checked_inc (lit ''category state revision overflow'') (cat_revision s)) (\<lambda>n.
          Inr (s\<lparr>cat_revision := n\<rparr>))
        else Inr s) (\<lambda>s.
    bind_r (category_state_validate s) (\<lambda>_.
    bind_r (first_error (map validate_stored_category_name configured)) (\<lambda>_.
      Inr (s, changed))))))"

text \<open>The daemon's use: the candidate is kept only if it changed.\<close>

definition commit_intent :: "categories_config \<Rightarrow> category_state \<Rightarrow>
    category_intent \<times> effective_category_model \<Rightarrow> str + category_state" where
  "commit_intent config s i =
    bind_r (apply_intent config (fst i) (snd i) s) (\<lambda>(candidate, changed).
      Inr (if changed then candidate else s))"

end
