(* ===== verification/CategoryWildcard.thy ===== *)
theory CategoryWildcard
  imports CategoryModel
begin

text \<open>
  The matcher of the path patterns against a reference definition: \<open>?\<close> stands for one
  byte, \<open>*\<close> for any bytes. The greedy loop with a single backtracking point decides the
  reference on every text without a literal \<open>*\<close>; on such a text it can miss a match.
\<close>

fun glob :: "u8 list \<Rightarrow> u8 list \<Rightarrow> bool" where
  "glob [] ts = (ts = [])"
| "glob (c # p) [] = (c = 42 \<and> glob p [])"
| "glob (c # p) (t # ts) =
    (if c = 42 then glob p (t # ts) \<or> glob (c # p) ts
     else (c = t \<or> c = 63) \<and> glob p ts)"

lemma glob_nil: "glob p [] \<longleftrightarrow> list_all (\<lambda>b. b = 42) p"
  by (induction p) auto

lemma glob_star: "glob (42 # p) ts \<longleftrightarrow> (\<exists>j \<le> length ts. glob p (drop j ts))"
proof (induction ts)
  case Nil
  then show ?case by simp
next
  case (Cons t ts)
  have "(\<exists>j \<le> length (t # ts). glob p (drop j (t # ts))) \<longleftrightarrow>
      glob p (t # ts) \<or> (\<exists>j \<le> length ts. glob p (drop j ts))"
  proof
    assume "\<exists>j \<le> length (t # ts). glob p (drop j (t # ts))"
    then obtain j where "j \<le> length (t # ts)" "glob p (drop j (t # ts))" by blast
    then show "glob p (t # ts) \<or> (\<exists>j \<le> length ts. glob p (drop j ts))"
      by (cases j) auto
  next
    assume "glob p (t # ts) \<or> (\<exists>j \<le> length ts. glob p (drop j ts))"
    then show "\<exists>j \<le> length (t # ts). glob p (drop j (t # ts))"
    proof
      assume "\<exists>j \<le> length ts. glob p (drop j ts)"
      then obtain j where "j \<le> length ts" "glob p (drop j ts)" by blast
      then show ?thesis by (intro exI [of _ "Suc j"]) simp
    qed (rule exI [of _ 0], simp)
  qed
  with Cons.IH show ?case by simp
qed

text \<open>A segment without a star consumes as many bytes as it has.\<close>

lemma glob_segment:
  "42 \<notin> set q \<Longrightarrow> glob (q @ p) ts \<Longrightarrow> length q \<le> length ts \<and> glob p (drop (length q) ts)"
proof (induction q arbitrary: ts)
  case (Cons c q)
  then show ?case by (cases ts) auto
qed simp

text \<open>
  What the loop decides from a configuration: the rest of the pattern against the rest of
  the text, or a later start of the pattern after the last star.
\<close>

definition later_start :: "u8 list \<Rightarrow> u8 list \<Rightarrow> nat option \<Rightarrow> nat \<Rightarrow> bool" where
  "later_start pat ts star m = (case star of None \<Rightarrow> False
     | Some s \<Rightarrow> \<exists>j. m < j \<and> j \<le> length ts \<and> glob (drop (Suc s) pat) (drop j ts))"

definition loop_ok :: "u8 list \<Rightarrow> nat \<Rightarrow> nat \<Rightarrow> nat option \<Rightarrow> nat \<Rightarrow> bool" where
  "loop_ok pat p t star m = (case star of None \<Rightarrow> True
     | Some s \<Rightarrow> s < length pat \<and> (\<exists>q. drop (Suc s) pat = q @ drop p pat \<and> length q = t - m \<and> 42 \<notin> set q))"

lemma loop_ok_step:
  assumes "loop_ok pat p t star m" and "m \<le> t" and "p < length pat"
    and "pat ! p = c \<or> pat ! p = 63" and "c \<noteq> 42"
  shows "loop_ok pat (p + 1) (t + 1) star m"
proof (cases star)
  case (Some s)
  with assms(1) obtain q where q: "s < length pat" "drop (Suc s) pat = q @ drop p pat"
    "length q = t - m" "42 \<notin> set q"
    by (auto simp: loop_ok_def)
  have "drop (Suc s) pat = (q @ [pat ! p]) @ drop (p + 1) pat"
    using q(2) assms(3) by (simp add: Cons_nth_drop_Suc)
  moreover have "length (q @ [pat ! p]) = t + 1 - m" using q(3) assms(2) by simp
  moreover have "42 \<notin> set (q @ [pat ! p])" using q(4) assms(4,5) by auto
  ultimately show ?thesis using Some q(1) unfolding loop_ok_def by auto
qed (simp add: loop_ok_def)

lemma later_start_end:
  assumes "loop_ok pat p (length ts) star m" and "m \<le> length ts"
  shows "\<not> later_start pat ts star m"
proof
  assume "later_start pat ts star m"
  then obtain s j where s: "star = Some s" and j: "m < j" "j \<le> length ts"
    "glob (drop (Suc s) pat) (drop j ts)"
    by (auto simp: later_start_def split: option.splits)
  with assms(1) obtain q where q: "drop (Suc s) pat = q @ drop p pat" "length q = length ts - m"
    "42 \<notin> set q"
    by (auto simp: loop_ok_def)
  from glob_segment [OF q(3), of "drop p pat" "drop j ts"] j(3) q(1)
  have "length q \<le> length ts - j" by simp
  with q(2) j(1,2) assms(2) show False by simp
qed

lemma later_start_at_star:
  assumes "loop_ok pat p t star m" and "m \<le> t" and "t < length ts"
    and "p < length pat" and "pat ! p = 42" and "later_start pat ts star m"
  shows "glob (drop p pat) (drop t ts)"
proof -
  from assms(6) obtain s j where s: "star = Some s" and j: "m < j" "j \<le> length ts"
    "glob (drop (Suc s) pat) (drop j ts)"
    by (auto simp: later_start_def split: option.splits)
  with assms(1) obtain q where q: "drop (Suc s) pat = q @ drop p pat" "length q = t - m" "42 \<notin> set q"
    by (auto simp: loop_ok_def)
  have pat: "drop p pat = 42 # drop (Suc p) pat"
    using assms(4,5) by (metis Cons_nth_drop_Suc)
  from glob_segment [OF q(3), of "drop p pat" "drop j ts"] j(3) q(1)
  have seg: "length q \<le> length ts - j" "glob (drop p pat) (drop (j + length q) ts)"
    by (simp_all add: add.commute)
  then obtain i where "i \<le> length ts - (j + length q)"
    "glob (drop (Suc p) pat) (drop (i + (j + length q)) ts)"
    unfolding pat glob_star by (auto simp: add.commute)
  moreover from this have "drop (i + (j + length q)) ts = drop (i + j + length q - t) (drop t ts)"
    using q(2) j(1) assms(2) by (simp add: add_ac)
  moreover have "i + j + length q - t \<le> length (drop t ts)"
    using calculation(1) seg(1) j(1,2) q(2) assms(2,3) by simp
  ultimately show ?thesis unfolding pat glob_star by metis
qed

lemma later_start_next:
  "later_start pat ts (Some s) m \<longleftrightarrow> (m < length ts \<and>
     (glob (drop (Suc s) pat) (drop (Suc m) ts) \<or> later_start pat ts (Some s) (Suc m)))"
proof
  assume "later_start pat ts (Some s) m"
  then obtain j where j: "m < j" "j \<le> length ts" "glob (drop (Suc s) pat) (drop j ts)"
    by (auto simp: later_start_def)
  then show "m < length ts \<and> (glob (drop (Suc s) pat) (drop (Suc m) ts)
      \<or> later_start pat ts (Some s) (Suc m))"
    by (cases "j = Suc m") (auto simp: later_start_def intro!: exI [of _ j])
next
  assume *: "m < length ts \<and> (glob (drop (Suc s) pat) (drop (Suc m) ts)
      \<or> later_start pat ts (Some s) (Suc m))"
  then show "later_start pat ts (Some s) m"
  proof (elim conjE disjE)
    assume "later_start pat ts (Some s) (Suc m)"
    then show ?thesis unfolding later_start_def by (auto intro: Suc_lessD)
  qed (auto simp: later_start_def)
qed

lemma wildcard_loop_glob:
  assumes "42 \<notin> set ts" and "loop_ok pat p t star m" and "m \<le> t" and "t \<le> length ts"
    and "p \<le> length pat"
  shows "wildcard_loop pat ts p t star m \<longleftrightarrow>
    glob (drop p pat) (drop t ts) \<or> later_start pat ts star m"
  using assms
proof (induction pat ts p t star m rule: wildcard_loop.induct)
  case (1 pat ts p t star m)
  note hyps = "1.prems"
  show ?case
  proof (cases "t < length ts")
    case False
    with hyps have end': "t = length ts" by simp
    with hyps later_start_end [of pat p ts star m] have "\<not> later_start pat ts star m" by simp
    moreover have "drop t ts = []" using end' by simp
    ultimately show ?thesis
      using end' by (subst wildcard_loop.simps) (simp add: glob_nil)
  next
    case True
    have ts: "drop t ts = ts ! t # drop (Suc t) ts" using True by (simp add: Cons_nth_drop_Suc)
    have nostar: "ts ! t \<noteq> 42" using hyps(1) True by (metis nth_mem)
    have pat: "drop p pat = pat ! p # drop (Suc p) pat" if "p < length pat"
      using that by (simp add: Cons_nth_drop_Suc)
    consider (lit) "p < length pat" "pat ! p = ts ! t \<or> pat ! p = 63"
      | (star) "p < length pat" "pat ! p = 42" "\<not> (pat ! p = ts ! t \<or> pat ! p = 63)"
      | (retry) "\<not> (p < length pat \<and> (pat ! p = ts ! t \<or> pat ! p = 63))"
          "\<not> (p < length pat \<and> pat ! p = 42)" by blast
    then show ?thesis
    proof cases
      case lit
      from hyps(2,3) lit nostar have ok: "loop_ok pat (p + 1) (t + 1) star m"
        by (rule loop_ok_step)
      have ne: "pat ! p \<noteq> 42" using lit(2) nostar by auto
      have "wildcard_loop pat ts p t star m = wildcard_loop pat ts (p + 1) (t + 1) star m"
        using True lit hyps(3) by (simp add: wildcard_loop.simps [of pat ts p t star m])
      also have "\<dots> \<longleftrightarrow> glob (drop (p + 1) pat) (drop (t + 1) ts) \<or> later_start pat ts star m"
        using "1.IH"(1) True lit ok hyps by simp
      finally show ?thesis using lit ne by (simp add: pat [OF lit(1)] ts)
    next
      case star
      have ok: "loop_ok pat (p + 1) t (Some p) t" using star(1) by (simp add: loop_ok_def)
      have "wildcard_loop pat ts p t star m = wildcard_loop pat ts (p + 1) t (Some p) t"
        using True star hyps(3) by (simp add: wildcard_loop.simps [of pat ts p t star m])
      also have "\<dots> \<longleftrightarrow> glob (drop (p + 1) pat) (drop t ts) \<or> later_start pat ts (Some p) t"
        using "1.IH"(2) True star ok hyps by simp
      also have "\<dots> \<longleftrightarrow> glob (drop p pat) (drop t ts)"
      proof
        assume "glob (drop (p + 1) pat) (drop t ts) \<or> later_start pat ts (Some p) t"
        then show "glob (drop p pat) (drop t ts)"
        proof
          assume "later_start pat ts (Some p) t"
          then obtain j where "t < j" "j \<le> length ts" "glob (drop (Suc p) pat) (drop j ts)"
            by (auto simp: later_start_def)
          then show ?thesis unfolding pat [OF star(1)] star(2) glob_star
            by (intro exI [of _ "j - t"]) simp
        qed (use star ts pat [OF star(1)] in simp)
      next
        assume "glob (drop p pat) (drop t ts)"
        then obtain j where j: "j \<le> length ts - t" "glob (drop (Suc p) pat) (drop (j + t) ts)"
          unfolding pat [OF star(1)] star(2) glob_star by (auto simp: add.commute)
        then show "glob (drop (p + 1) pat) (drop t ts) \<or> later_start pat ts (Some p) t"
        proof (cases j)
          case (Suc i)
          with j True have "later_start pat ts (Some p) t"
            unfolding later_start_def by (auto intro!: exI [of _ "j + t"])
          then show ?thesis ..
        qed simp
      qed
      finally show ?thesis
        using later_start_at_star [OF hyps(2,3) True star(1,2)] by blast
    next
      case retry
      have no: "\<not> glob (drop p pat) (drop t ts)"
      proof (cases "p < length pat")
        case True
        with retry show ?thesis by (simp add: pat ts)
      next
        case False
        with hyps(5) show ?thesis by (simp add: ts)
      qed
      show ?thesis
      proof (cases star)
        case None
        with retry True no hyps(3) show ?thesis
          by (subst wildcard_loop.simps) (auto simp: later_start_def)
      next
        case (Some s)
        have s: "s + 1 \<le> length pat" using hyps(2) Some by (simp add: loop_ok_def)
        then have ok: "loop_ok pat (s + 1) (m + 1) star (m + 1)" using Some by (simp add: loop_ok_def)
        have "wildcard_loop pat ts p t star m = wildcard_loop pat ts (s + 1) (m + 1) star (m + 1)"
          using True retry Some hyps(3) by (subst wildcard_loop.simps) auto
        also have "\<dots> \<longleftrightarrow> glob (drop (s + 1) pat) (drop (m + 1) ts) \<or> later_start pat ts star (m + 1)"
          using "1.IH"(3) [OF _ _ _ Some] True retry ok s hyps Some by simp
        also have "\<dots> \<longleftrightarrow> later_start pat ts star m"
          using later_start_next [of pat ts s m] Some True hyps(3) by simp
        finally show ?thesis using no by simp
      qed
    qed
  qed
qed

text \<open>
  C28. The greedy matcher with one backtracking point decides the reference definition of
  path patterns, for every path without a literal star.
\<close>

theorem wildcard_match_glob:
  assumes "42 \<notin> set (utf8 text')"
  shows "wildcard_match pat text' \<longleftrightarrow> glob (utf8 pat) (utf8 text')"
  using wildcard_loop_glob [OF assms, of "utf8 pat" 0 0 None 0]
  by (simp add: wildcard_match_def loop_ok_def later_start_def)

end
