(* ===== verification/CategoryTheorems.thy ===== *)
theory CategoryTheorems
  imports CategoryIntents CategoryWildcard "HOL-Library.Multiset"
begin

text \<open>
  The theorems of the categories: the effective model is closed under its placements, the
  edits keep the state valid and do what they say, and the cases in which an edit that the
  sidebar offers is refused.
\<close>

section \<open>Validity\<close>

lemma validate_unique_ok [result_simps]: "validate_unique xs l = Inr u \<longleftrightarrow> distinct xs"
proof -
  have "length (bs_of_list xs) = card (set xs)"
    using distinct_card [OF sorted_wrt_distinct [OF bs_of_list_sorted [of xs]]] by simp
  then show ?thesis
    by (auto simp: validate_unique_def result_simps card_distinct distinct_card)
qed

definition stored_name_ok :: "category_name \<Rightarrow> bool" where
  "stored_name_ok name \<longleftrightarrow> validate_stored_category_name name = Inr ()"

lemma category_state_validate_ok:
  "category_state_validate s = Inr u \<longleftrightarrow> cat_schema_version s = CATEGORY_STATE_SCHEMA_VERSION
   \<and> distinct (cat_category_order s)
   \<and> (\<forall>e \<in> set (cat_repo_order s). stored_name_ok (fst e) \<and> distinct (snd e))
   \<and> (\<forall>c \<in> set (cat_dynamic_categories s). stored_name_ok c)
   \<and> (\<forall>e \<in> set (cat_repo_overrides s). stored_name_ok (snd e))"
  unfolding category_state_validate_def
  by (auto simp: result_simps stored_name_ok_def)

section \<open>The effective order\<close>

lemma append_missing_set [simp]: "set (append_missing xs ys) = set xs \<union> set ys"
  by (induction ys arbitrary: xs) (auto simp: append_missing_def)

lemma append_missing_distinct: "distinct xs \<Longrightarrow> distinct (append_missing xs ys)"
  by (induction ys arbitrary: xs) (auto simp: append_missing_def)

lemma append_missing_prefix: "\<exists>zs. append_missing xs ys = xs @ zs"
proof (induction ys arbitrary: xs)
  case (Cons y ys)
  from Cons [of "xs @ [y]"] Cons [of xs] show ?case by (auto simp: append_missing_def)
qed (simp add: append_missing_def)

lemma effective_order_laws:
  assumes "effective_category_order config s names = Inr ordered" and "distinct names"
  shows "set ordered = set names \<and> distinct ordered"
  using assms by (auto simp: effective_category_order_def Let_def result_simps split: if_splits)

lemma configured_names_laws:
  assumes "configured_category_names config = Inr names"
  shows "sorted_wrt (<) names
    \<and> (\<forall>rule \<in> set (cfg_rules config). \<exists>c \<in> set names. category_name_parse (rule_category rule) = Inr c)
    \<and> (\<forall>d. cfg_default_category config = Some d \<longrightarrow> (\<exists>c \<in> set names. category_name_parse d = Inr c))
    \<and> UNCATEGORIZED \<notin> set names"
proof -
  let ?f = "\<lambda>names name. bind_r (category_name_parse name) (\<lambda>parsed. Inr (bs_insert parsed names))"
  have gen: "sorted_wrt (<) names' \<and> set names \<subseteq> set names'
      \<and> (\<forall>r \<in> set raw. \<exists>c \<in> set names'. category_name_parse r = Inr c)
      \<and> UNCATEGORIZED \<notin> set names'"
    if "fold_r ?f names raw = Inr names'" "sorted_wrt (<) names" "UNCATEGORIZED \<notin> set names"
    for raw names names'
    using that
  proof (induction raw arbitrary: names)
    case (Cons r raw)
    then obtain c where c: "category_name_parse r = Inr c"
      "fold_r ?f (bs_insert c names) raw = Inr names'"
      by (auto simp: result_simps)
    have "c \<noteq> UNCATEGORIZED"
      using c(1) by (auto simp: category_name_parse_def Let_def split: if_splits)
    with Cons.IH [OF c(2)] Cons.prems c(1) show ?case by (auto simp: bs_insert_sorted)
  qed auto
  from gen [OF assms [unfolded configured_category_names_def]] show ?thesis
    by (auto split: option.splits)
qed

section \<open>The effective model\<close>

lemma build_cases:
  assumes "build config s repos = Inr m"
  obtains configured ordered where "configured_category_names config = Inr configured"
    "em_categories m = map (effective_category_of config configured) ordered"
    "set ordered = insert UNCATEGORIZED (set configured \<union> set (cat_dynamic_categories s)
       \<union> snd ` set (cat_repo_overrides s))"
    "distinct ordered"
    "fold_r (\<lambda>placements repo. bind_r (resolve_membership config s repo) (\<lambda>m.
       Inr (bm_insert (repo_key_of repo) \<lparr>pl_repo = repo, pl_category = fst m,
         pl_explicit = snd m\<rparr> placements))) [] repos = Inr (em_placements m)"
proof -
  from assms obtain configured ordered where c: "configured_category_names config = Inr configured"
    "effective_category_order config s (bs_insert UNCATEGORIZED (bs_extend (bs_extend configured
       (cat_dynamic_categories s)) (map snd (cat_repo_overrides s)))) = Inr ordered"
    "em_categories m = map (effective_category_of config configured) ordered"
    "fold_r (\<lambda>placements repo. bind_r (resolve_membership config s repo) (\<lambda>m.
       Inr (bm_insert (repo_key_of repo) \<lparr>pl_repo = repo, pl_category = fst m,
         pl_explicit = snd m\<rparr> placements))) [] repos = Inr (em_placements m)"
    by (auto simp: build_def Let_def result_simps)
  have "sorted_wrt (<) (bs_insert UNCATEGORIZED (bs_extend (bs_extend configured
       (cat_dynamic_categories s)) (map snd (cat_repo_overrides s))))"
    using configured_names_laws [OF c(1)] by (intro bs_insert_sorted bs_extend_sorted) simp
  from effective_order_laws [OF c(2) sorted_wrt_distinct [OF this]] c show thesis
    by (intro that) auto
qed

lemma model_category_build:
  assumes "em_categories m = map (effective_category_of config configured) ordered"
  shows "model_category m name =
    (if name \<in> set ordered then Some (effective_category_of config configured name) else None)"
  unfolding model_category_def assms
  by (induction ordered) (auto simp: effective_category_of_def)

text \<open>The category of a repository, whatever it is decided by, is known to the model.\<close>

lemma resolve_membership_known:
  assumes "resolve_membership config s repo = Inr (category, explicit)"
    and "configured_category_names config = Inr configured"
  shows "if explicit then bm_get (cat_repo_overrides s) (repo_key_of repo) = Some category
    else bm_get (cat_repo_overrides s) (repo_key_of repo) = None
      \<and> category \<in> insert UNCATEGORIZED (set configured)"
proof -
  note laws = configured_names_laws [OF assms(2)]
  have rule: "rule \<in> set (cfg_rules config)"
    if "find p (cfg_rules config) = Some rule" for p rule
    using find_Some_set [OF that] by simp
  from assms(1) laws rule show ?thesis
    by (fastforce simp: resolve_membership_def result_simps split: option.splits if_splits)
qed

lemma placements_resolve:
  assumes "fold_r (\<lambda>placements repo. bind_r (resolve_membership config s repo) (\<lambda>m.
       Inr (bm_insert (repo_key_of repo) \<lparr>pl_repo = repo, pl_category = fst m,
         pl_explicit = snd m\<rparr> placements))) [] repos = Inr placements"
  shows "\<forall>key p. bm_get placements key = Some p \<longrightarrow> repo_key_of (pl_repo p) = key
    \<and> resolve_membership config s (pl_repo p) = Inr (pl_category p, pl_explicit p)"
  by (rule fold_r_invariant [OF assms])
    (auto simp: result_simps bm_get_insert split: if_splits)

lemma placement_known:
  assumes "build config s repos = Inr m"
    and "bm_get (em_placements m) key = Some placement"
  shows "\<exists>c. model_category m (pl_category placement) = Some c
    \<and> pl_explicit placement = (bm_get (cat_repo_overrides s) key \<noteq> None)
    \<and> (\<forall>o'. bm_get (cat_repo_overrides s) key = Some o' \<longrightarrow> pl_category placement = o')"
  using assms(1)
proof (cases rule: build_cases)
  case (1 configured ordered)
  have p: "repo_key_of (pl_repo placement) = key"
    "resolve_membership config s (pl_repo placement) = Inr (pl_category placement, pl_explicit placement)"
    using placements_resolve [OF 1(5)] assms(2) by auto
  have "if pl_explicit placement then bm_get (cat_repo_overrides s) key = Some (pl_category placement)
    else bm_get (cat_repo_overrides s) key = None
      \<and> pl_category placement \<in> insert UNCATEGORIZED (set configured)"
    using resolve_membership_known [OF p(2) 1(1)] unfolding p(1) .
  moreover from this have "pl_category placement \<in> set ordered"
    using 1(3) by (auto split: if_splits dest: map_of_SomeD intro: rev_image_eqI)
  ultimately show ?thesis
    by (auto simp: model_category_build [OF 1(2)] split: if_splits)
qed

theorem model_closed:
  assumes "build config s repos = Inr m"
    and "bm_get (em_placements m) key = Some placement"
  shows "\<exists>c. model_category m (pl_category placement) = Some c
    \<and> pl_explicit placement = (bm_get (cat_repo_overrides s) key \<noteq> None)
    \<and> (\<forall>o'. bm_get (cat_repo_overrides s) key = Some o' \<longrightarrow> pl_category placement = o')"
  using assms by (rule placement_known)

theorem model_categories_unique:
  assumes "build config s repos = Inr m"
  shows "distinct (map ec_name (em_categories m))
    \<and> map_option ec_source (model_category m UNCATEGORIZED) = Some System"
  using assms
proof (cases rule: build_cases)
  case (1 configured ordered)
  have "map ec_name (em_categories m) = ordered"
    unfolding 1(2) by (simp add: effective_category_of_def comp_def)
  with 1(3,4) show ?thesis
    by (simp add: model_category_build [OF 1(2)]) (simp add: effective_category_of_def)
qed

section \<open>Edits as a versioned machine\<close>

lemma move_repo_to_end_simps [simp]:
  "cat_revision (move_repo_to_category_end repo p c s) = cat_revision s"
  "cat_repo_overrides (move_repo_to_category_end repo p c s) = cat_repo_overrides s"
  "cat_dynamic_categories (move_repo_to_category_end repo p c s) = cat_dynamic_categories s"
  "cat_category_order (move_repo_to_category_end repo p c s) = cat_category_order s"
  by (simp_all add: move_repo_to_category_end_def Let_def)

lemma reassign_deleted_revision:
  "reassign_deleted config m replacement s repo = Inr s' \<Longrightarrow> cat_revision s' = cat_revision s
   \<and> cat_dynamic_categories s' = cat_dynamic_categories s
   \<and> cat_category_order s' = cat_category_order s"
  by (auto simp: reassign_deleted_def Let_def result_simps split: membership_target.splits option.splits)

lemma delete_category_keeps:
  assumes "delete_category config m category replacement s = Inr s'"
  shows "cat_revision s' = cat_revision s
    \<and> cat_dynamic_categories s' = bs_remove category (cat_dynamic_categories s)
    \<and> cat_category_order s' = filter (\<lambda>c. c \<noteq> category) (cat_category_order s)"
  using assms unfolding delete_category_def Let_def
  by (rule fold_r_invariant) (auto dest: reassign_deleted_revision)

lemma edit_state_revision: "edit_state config m intent s = Inr (s', changed) \<Longrightarrow> cat_revision s' = cat_revision s"
proof (cases intent)
  case (AssignRepo repo category)
  then show "edit_state config m intent s = Inr (s', changed) \<Longrightarrow> cat_revision s' = cat_revision s"
    by (auto simp: assign_repo_def Let_def split: if_splits)
next
  case (SetRepoAutomatic repo)
  then show "edit_state config m intent s = Inr (s', changed) \<Longrightarrow> cat_revision s' = cat_revision s"
    by (auto simp: set_repo_automatic_def Let_def split: option.splits)
next
  case (MoveRepo repo neighbor category direction)
  then show "edit_state config m intent s = Inr (s', changed) \<Longrightarrow> cat_revision s' = cat_revision s"
    by (auto simp: move_repo_def Let_def result_simps split: option.splits if_splits)
qed (auto simp: result_simps replace_category_name_def Let_def split: if_splits
    dest: delete_category_keeps)

lemma apply_intent_cases:
  assumes "apply_intent config intent m s = Inr (s', changed)"
  obtains t where "edit_state config m intent s = Inr (t, changed)"
    "category_state_validate s' = Inr ()"
    "s' = t \<or> (\<exists>n. s' = t\<lparr>cat_revision := n\<rparr>)"
    "changed \<Longrightarrow> cat_revision s \<noteq> - 1 \<and> cat_revision s' = cat_revision s + 1"
    "is_ok (configured_category_names config)"
proof -
  obtain t c where edit: "edit_state config m intent s = Inr (t, c)"
    and names: "is_ok (configured_category_names config)"
    using assms by (cases "configured_category_names config"; cases "edit_state config m intent s")
      (auto simp: apply_intent_def)
  have step: "c = changed" "category_state_validate s' = Inr ()"
    "if c then cat_revision t \<noteq> - 1 \<and> s' = t\<lparr>cat_revision := cat_revision t + 1\<rparr> else s' = t"
    using assms edit
    by (simp_all add: apply_intent_def bind_r_Inr_iff [of "configured_category_names config"]
        split: if_splits) (auto simp: result_simps)
  note t = edit [unfolded step(1)] step(2) names step(3) [unfolded step(1)]
  show thesis
  proof (cases changed)
    case True
    with t(4) have n: "cat_revision t \<noteq> - 1" "s' = t\<lparr>cat_revision := cat_revision t + 1\<rparr>" by simp_all
    show thesis
    proof (rule that [OF t(1,2) _ _ t(3)])
      show "s' = t \<or> (\<exists>n. s' = t\<lparr>cat_revision := n\<rparr>)" using n(2) by blast
      show "cat_revision s \<noteq> - 1 \<and> cat_revision s' = cat_revision s + 1"
        using n edit_state_revision [OF t(1)] by simp
    qed
  next
    case False
    with t show thesis by (intro that [OF t(1,2) _ _ t(3)]) simp_all
  qed
qed

lemma commit_intent_laws:
  assumes "commit_intent config s i = Inr s'"
  shows "s' = s \<or> (category_state_validate s' = Inr ()
    \<and> unat (cat_revision s') = Suc (unat (cat_revision s)))"
proof -
  from assms obtain t changed where t: "apply_intent config (fst i) (snd i) s = Inr (t, changed)"
    "s' = (if changed then t else s)"
    by (auto simp: commit_intent_def result_simps)
  then show ?thesis
    by (cases rule: apply_intent_cases [OF t(1)]) (auto simp: unat_inc)
qed

interpretation category: revisioned_machine "commit_intent config"
    "\<lambda>s. category_state_validate s = Inr ()" "\<lambda>s. unat (cat_revision s)" for config
  by unfold_locales (use commit_intent_laws in blast)+

text \<open>
  C29. Whatever edits are committed, the category state stays valid, and its revision is
  at most the number of edits.
\<close>

theorem category_edits_stay_valid:
  assumes "fold_r (commit_intent config) category_state_default inputs = Inr s"
  shows "category_state_validate s = Inr () \<and> unat (cat_revision s) \<le> length inputs"
proof -
  have "category_state_validate category_state_default = Inr ()"
    by (simp add: category_state_validate_ok category_state_default_def)
  with category.run_valid [OF assms] category.run_revision_bound [OF assms] show ?thesis
    by (simp add: category_state_default_def)
qed

section \<open>What the edits do\<close>

lemma affected_reassigned:
  assumes "fold_r (reassign_deleted config m replacement) s repos = Inr s'"
  shows "bm_get (cat_repo_overrides s') key = (if key \<in> set repos
      then (case replacement of TargetCategory r \<Rightarrow> Some r | Automatic \<Rightarrow> None)
      else bm_get (cat_repo_overrides s) key)"
  using assms
proof (induction repos arbitrary: s)
  case (Cons repo repos)
  then obtain t where t: "reassign_deleted config m replacement s repo = Inr t"
    "fold_r (reassign_deleted config m replacement) t repos = Inr s'"
    by (auto simp: result_simps)
  have "bm_get (cat_repo_overrides t) key = (if key = repo
      then (case replacement of TargetCategory r \<Rightarrow> Some r | Automatic \<Rightarrow> None)
      else bm_get (cat_repo_overrides s) key)"
    using t(1) by (auto simp: reassign_deleted_def Let_def result_simps bm_get_insert bm_get_remove
        split: membership_target.splits option.splits)
  with Cons.IH [OF t(2)] show ?case by (cases "key = repo") auto
qed simp

lemma bm_get_unique: "bm_invar m \<Longrightarrow> (k, v) \<in> set m \<longleftrightarrow> bm_get m k = Some v"
  using sorted_wrt_distinct [of "map fst m"] by (simp add: bm_invar_def)

text \<open>
  Deleting a category removes it from the dynamic categories, from the order and from
  every override; the repositories assigned to it go to the replacement or become
  automatic, all others keep their override.
\<close>

theorem delete_reassigns:
  assumes "edit_state config m (DeleteCategory category replacement) s = Inr (s', changed)"
    and "bm_invar (cat_repo_overrides s)"
  shows "category \<notin> set (cat_dynamic_categories s') \<and> category \<notin> set (cat_category_order s')
    \<and> (\<forall>key. bm_get (cat_repo_overrides s') key =
        (if bm_get (cat_repo_overrides s) key = Some category
         then (case replacement of TargetCategory r \<Rightarrow> Some r | Automatic \<Rightarrow> None)
         else bm_get (cat_repo_overrides s) key))
    \<and> (\<forall>key. bm_get (cat_repo_overrides s') key \<noteq> Some category)"
proof -
  let ?affected = "map fst (filter (\<lambda>e. snd e = category) (cat_repo_overrides s))"
  from assms(1) have deleted: "delete_category config m category replacement s = Inr s'"
    and target: "replacement \<noteq> TargetCategory category"
    by (auto simp: result_simps validate_delete_replacement_def)
  have affected: "key \<in> set ?affected \<longleftrightarrow> bm_get (cat_repo_overrides s) key = Some category" for key
    using bm_get_unique [OF assms(2), of key category] by force
  have "bm_get (cat_repo_overrides s') key = (if key \<in> set ?affected
      then (case replacement of TargetCategory r \<Rightarrow> Some r | Automatic \<Rightarrow> None)
      else bm_get (cat_repo_overrides s) key)" for key
    using affected_reassigned [OF deleted [unfolded delete_category_def Let_def], of key] by simp
  then have overrides: "bm_get (cat_repo_overrides s') key =
      (if bm_get (cat_repo_overrides s) key = Some category
       then (case replacement of TargetCategory r \<Rightarrow> Some r | Automatic \<Rightarrow> None)
       else bm_get (cat_repo_overrides s) key)" for key
    unfolding affected .
  with target delete_category_keeps [OF deleted] show ?thesis
    by (auto split: membership_target.splits)
qed

theorem rename_replaces_everywhere:
  assumes "edit_state config m (RenameCategory current replacement) s = Inr (s', True)"
  shows "current \<notin> set (cat_dynamic_categories s') \<and> replacement \<in> set (cat_dynamic_categories s')
    \<and> current \<notin> set (cat_category_order s')
    \<and> length (cat_category_order s') = length (cat_category_order s)
    \<and> (\<forall>key. bm_get (cat_repo_overrides s') key =
        (if bm_get (cat_repo_overrides s) key = Some current then Some replacement
         else bm_get (cat_repo_overrides s) key))
    \<and> bm_get (cat_repo_order s') current = None
    \<and> (\<forall>order. bm_get (cat_repo_order s) current = Some order \<longrightarrow>
         bm_get (cat_repo_order s') replacement = Some order)"
proof -
  from assms have "current \<noteq> replacement" "s' = replace_category_name current replacement s"
    by (auto simp: result_simps split: if_splits)
  moreover have "map_option (\<lambda>c. if c = current then replacement else c) o' =
      (if o' = Some current then Some replacement else o')" for o'
    by (cases o') auto
  ultimately show ?thesis
    by (auto simp: replace_category_name_def Let_def bm_get_map_values bm_get_insert bm_get_remove
        split: option.splits)
qed

theorem assignment_takes_effect:
  assumes "apply_intent config (AssignRepo (repo_key_of repo) category) m s = Inr (s', changed)"
    and "build config s' repos = Inr m'" and "repo \<in> set repos"
  shows "\<exists>p. bm_get (em_placements m') (repo_key_of repo) = Some p \<and> pl_category p = category
    \<and> pl_explicit p"
proof -
  from assms(1) have override: "bm_get (cat_repo_overrides s') (repo_key_of repo) = Some category"
    by (cases rule: apply_intent_cases)
      (auto simp: assign_repo_def Let_def bm_get_insert split: if_splits)
  have stored: "repo_key_of r \<in> dom (bm_get placements')"
    if "fold_r (\<lambda>placements repo. bind_r (resolve_membership config s' repo) (\<lambda>m.
       Inr (bm_insert (repo_key_of repo) \<lparr>pl_repo = repo, pl_category = fst m,
         pl_explicit = snd m\<rparr> placements))) placements rs = Inr placements'"
      "r \<in> set rs \<or> repo_key_of r \<in> dom (bm_get placements)" for placements placements' r rs
    using that
    by (induction rs arbitrary: placements)
      (auto simp: result_simps bm_get_insert domIff simp del: map_of_eq_None_iff split: if_splits)
  from assms(2) have "repo_key_of repo \<in> dom (bm_get (em_placements m'))"
  proof (cases rule: build_cases)
    case (1 configured ordered)
    from stored [OF 1(5)] assms(3) show ?thesis by blast
  qed
  then obtain p where p: "bm_get (em_placements m') (repo_key_of repo) = Some p" by blast
  with placement_known [OF assms(2) p] override show ?thesis by auto
qed

section \<open>Moves\<close>

fun opposite :: "move_direction \<Rightarrow> move_direction" where
  "opposite Up = Down"
| "opposite Down = Up"

lemma move_relative_cases:
  assumes "move_relative values v neighbor direction = Inr values'"
  obtains i j where "i < length values" "j < length values" "values ! i = v" "values ! j = neighbor"
    "v \<noteq> neighbor" "values' = values[i := neighbor, j := v]"
    "case direction of Up \<Rightarrow> i = Suc j | Down \<Rightarrow> j = Suc i"
    "\<forall>k < i. values ! k \<noteq> v" "\<forall>k < j. values ! k \<noteq> neighbor"
proof -
  from assms obtain i j where ij: "position (\<lambda>c. c = v) values = Some i"
    "position (\<lambda>c. c = neighbor) values = Some j" "v \<noteq> neighbor"
    "values' = values[i := values ! j, j := values ! i]"
    "(case direction of Up \<Rightarrow> if i = 0 then None else Some (i - 1)
      | Down \<Rightarrow> if i + 1 < length values then Some (i + 1) else None) = Some j"
    by (auto simp: move_relative_def Let_def split: if_splits option.splits)
  note i = position_Some [OF ij(1)] and j = position_Some [OF ij(2)]
  have "case direction of Up \<Rightarrow> i = Suc j | Down \<Rightarrow> j = Suc i"
    using ij(5) by (auto split: move_direction.splits if_splits)
  with i j ij(3,4) show thesis by (intro that [of i j]) auto
qed

lemma position_eqI:
  assumes "i < length xs" and "p (xs ! i)" and "\<And>k. k < i \<Longrightarrow> \<not> p (xs ! k)"
  shows "position p xs = Some i"
proof (cases "position p xs")
  case None
  with assms(1,2) show ?thesis by (simp add: position_None_iff)
next
  case (Some k)
  from position_Some [OF Some] assms have "k = i" by (metis linorder_neqE_nat)
  with Some show ?thesis by simp
qed


section \<open>Refused edits\<close>

text \<open>
  A name that is still in the stored order cannot be created, whatever the model
  says: the edited state would hold it twice and is refused.
\<close>

theorem stale_order_refuses_create:
  assumes "name \<in> set (cat_category_order s)"
  shows "\<not> is_ok (apply_intent config (CreateCategory name) m s)"
proof
  assume "is_ok (apply_intent config (CreateCategory name) m s)"
  then obtain r where "apply_intent config (CreateCategory name) m s = Inr r"
    by (cases "apply_intent config (CreateCategory name) m s") auto
  then obtain s' changed where "apply_intent config (CreateCategory name) m s = Inr (s', changed)"
    by (cases r) auto
  then show False
  proof (cases rule: apply_intent_cases)
    case (1 t)
    from 1(1) have "cat_category_order t = cat_category_order s @ [name]"
      by (auto simp: result_simps split: if_splits)
    with 1(3) have "cat_category_order s' = cat_category_order s @ [name]" by auto
    with 1(2) assms show False by (simp add: category_state_validate_ok)
  qed
qed

definition plain_config :: categories_config where
  "plain_config = \<lparr>cfg_display_names = [], cfg_order = [], cfg_default_category = None, cfg_rules = []\<rparr>"

definition alpha_repo :: repo_identity where
  "alpha_repo = \<lparr>repo_key_of = lit ''path:/z/alpha'', repo_rule_path = lit ''/z/alpha'',
     repo_display_name = lit ''alpha''\<rparr>"

definition beta_repo :: repo_identity where
  "beta_repo = \<lparr>repo_key_of = lit ''path:/a/beta'', repo_rule_path = lit ''/a/beta'',
     repo_display_name = lit ''beta''\<rparr>"


text \<open>
  With a literal star in the path the matcher can miss a match of the reference
  definition: the pattern that consists of a letter and a star does not match that letter
  followed by a star and another letter.
\<close>

theorem literal_star_missed:
  "\<not> wildcard_match (lit ''a*'') (lit ''a*b'') \<and> glob (utf8 (lit ''a*'')) (utf8 (lit ''a*b''))"
  by code_simp

end
