(* ===== verification/CategoryWitnesses.thy ===== *)
theory CategoryWitnesses
  imports CategoryTheorems "HOL-Library.Code_Target_Numeral"
begin

text \<open>
  Categories of two repositories at which the hypotheses of the category theorems hold: a
  category is created, a repository is assigned to it, and the category is deleted.
\<close>

definition work :: category_name where "work = lit ''Work''"

definition created :: category_state where
  "created = category_state_default\<lparr>cat_revision := 1, cat_dynamic_categories := [work],
     cat_category_order := [work]\<rparr>"

definition assigned :: category_state where
  "assigned = created\<lparr>cat_revision := 2,
     cat_repo_overrides := [(repo_key_of alpha_repo, work)],
     cat_repo_order := [(work, [repo_key_of alpha_repo])]\<rparr>"

definition model_of :: "category_state \<Rightarrow> effective_category_model" where
  "model_of s = projr (build plain_config s [alpha_repo, beta_repo])"

lemma model_of_build:
  "build plain_config category_state_default [alpha_repo, beta_repo] = Inr (model_of category_state_default)"
  "build plain_config created [alpha_repo, beta_repo] = Inr (model_of created)"
  "build plain_config assigned [alpha_repo, beta_repo] = Inr (model_of assigned)"
  by code_simp+

lemma assignment_applies:
  "apply_intent plain_config (AssignRepo (repo_key_of alpha_repo) work) (model_of created) created
   = Inr (assigned, True)"
  by code_simp

theorem category_edits_stay_valid_witness:
  "category_state_validate assigned = Inr () \<and> unat (cat_revision assigned) \<le> 2"
proof -
  have "fold_r (commit_intent plain_config) category_state_default
    [(CreateCategory work, model_of category_state_default),
     (AssignRepo (repo_key_of alpha_repo) work, model_of created)] = Inr assigned"
    by code_simp
  from category_edits_stay_valid [OF this] show ?thesis by simp
qed

definition deleted :: category_state where
  "deleted = category_state_default\<lparr>cat_revision := 2,
     cat_repo_order := [(UNCATEGORIZED, [repo_key_of alpha_repo])]\<rparr>"

theorem delete_reassigns_witness:
  "work \<notin> set (cat_dynamic_categories deleted)
   \<and> bm_get (cat_repo_overrides deleted) (repo_key_of alpha_repo) = None"
proof -
  have "edit_state plain_config (model_of assigned) (DeleteCategory work Automatic) assigned
    = Inr (deleted, True)"
    by code_simp
  moreover have "bm_invar (cat_repo_overrides assigned)" by (simp add: bm_invar_def assigned_def)
  moreover have "bm_get (cat_repo_overrides assigned) (repo_key_of alpha_repo) = Some work"
    by code_simp
  ultimately show ?thesis using delete_reassigns by fastforce
qed


theorem wildcard_match_glob_witness:
  "glob (utf8 (lit ''*/src'')) (utf8 (lit ''/a/src''))"
proof -
  have "42 \<notin> set (utf8 (lit ''/a/src''))" by code_simp
  moreover have "wildcard_match (lit ''*/src'') (lit ''/a/src'')" by code_simp
  ultimately show ?thesis using wildcard_match_glob by blast
qed

end
