(* ===== verification/Spec2Isabelle.thy ===== *)
theory Spec2Isabelle
  imports QuestionWitnesses StoreWitnesses AgentWitnesses PaneWitnesses CategoryWitnesses
begin

text \<open>
  A model of the core of vde-tmux in HOL: the state that its daemon keeps of the coding
  agents in tmux panes, of their durable runs, and of the categories of repositories, with
  the theorems that make the operations on it correct.

  \<^bold>\<open>The program.\<close> Hooks of the providers (Claude, Codex, OpenCode) send events to a daemon,
  and workers of the daemon observe the panes (processes, screen captures). The pane reducer
  (\<open>src/src/pane_state/reducer.rs\<close>) turns an event and the record of a pane into the next
  record; the badge code (\<open>pane_state/resolver.rs\<close>, \<open>daemon/session_badge.rs\<close>) turns records
  into what the status line and the sidebar show. Independently, provider observations
  (\<open>hook/provider.rs\<close>) drive the durable run records (\<open>agent_state/model.rs\<close>,
  \<open>agent_state/reducer.rs\<close>), whose projection the pane record carries. The sidebar edits the
  categories (\<open>category/model.rs\<close>).

  \<^bold>\<open>Conventions.\<close> A Rust \<open>Result<T, E>\<close> is the sum type \<open>E + T\<close> with the bind of theory
  Prelude, \<open>Option\<close> is \<open>option\<close>, integers are words of their width (\<open>u64\<close> and so on, with
  checked and saturating operations written out) except the timestamps (\<open>i64\<close>), which are
  \<open>int\<close>: they are compared and stored, and the saturating operations on them are written out.
  A string is the list of its code points (theory RustText, with UTF-8 lengths, character
  boundaries, trimming). A function with \<open>&mut\<close> parameters returns the new values; where an
  error is returned the caller drops its working copy, so no state is returned with it.
  \<open>BTreeMap\<close> and \<open>BTreeSet\<close> are sorted lists (theory BTree).
  Parameters stand for code outside the repository: \<open>H\<close> for the hexadecimal SHA-256 digest of
  the crate \<open>sha2\<close>, \<open>J\<close> for the length of the \<open>serde_json\<close> encoding of the evidence of a run,
  \<open>B64\<close> for the encoder of the crate \<open>base64\<close>, and an argument of type \<open>str + u8 list\<close> for the
  bytes of \<open>getrandom\<close>. The only laws assumed of them are that digests are 64 hexadecimal
  digits (\<open>hex_digest\<close>, \<open>lower_hex_digest\<close>); a concrete digest function has them in theory Samples.

  \<^bold>\<open>Pane state.\<close> PaneText: limits, text validation, agent kinds and session identifiers, pane
  instances. Background: the background tasks, faults and crons of a Claude session
  (\<open>pane_state/claude_background.rs\<close>). TaskContext: the window of recent prompts, private prompts,
  summaries. PaneModel: the record \<open>pane_state\<close>, its validation, and its reconciliation with the
  durable runs (\<open>pane_state/model.rs\<close>). PaneEvents: events, view events, the capture tracker and
  the context of a reduction. PaneProgress and PaneReducer: the reducer, one definition per
  function of \<open>reducer.rs\<close>; long \<open>match\<close> blocks are definitions of their own.
  Machine: the locale of a machine whose accepted steps keep a validity and count a revision.
  PaneLaws and PaneTheorems: frame laws of the operations, the contract of \<open>reduce\<close>, and the
  interpretation of the locale on the reducer (validity of every reachable record, the meaning of
  the revision). PaneSafety: the transitions of a record as an inductive relation and the
  refinement of it by the reducer. PaneGuards: background receipts keep a run open, an agent is
  lost only after two scans and replaced only by a confirmed handover, manual completion.
  PaneRuns: the operations on runs are accepted on valid records; private prompts stay private.
  PaneTables: task items and subagents as keyed tables (locale and interpretations).

  \<^bold>\<open>The store of the panes.\<close> PaneStore and PaneRuntime: \<open>CanonicalStateRuntime\<close> of
  \<open>pane_state/store.rs\<close>: records, trackers, triage, flashes, notifications and diagnostics, the
  events that go through the reducer, polls, bulk reads; \<open>P\<close> is the size of the encoded projection
  or the error of its encoder, a saver stands for the trait \<open>PaneSnapshotStoreIo\<close>. PaneSnapshot:
  the snapshot file (\<open>pane_state/snapshot.rs\<close>) with the answers of the file system as a record, and
  \<open>E\<close> and \<open>D\<close> for \<open>serde_json\<close>. PaneStoreLaws: the invariant of the store and the operations in
  memory. PaneSaver: the locale of a storage whose successful save is durable, and what it gives
  every operation; PaneReads: bulk reads; the end of PaneSnapshot has the interpretation of the locale
  on the file, and decoding after encoding. PaneStoreTheorems, PanePolls, PaneNotices: the reachable
  states, durability before visibility, bounds, polls that come to rest, notifications. Assumed
  are \<open>encoder_total\<close> (\<open>serde_json\<close> has no failing case on the projection) and \<open>json_snapshot\<close>
  (it reads back what it wrote, without the field that is skipped).

  \<^bold>\<open>Badges.\<close> Badge: counts, rollup and the two display modes, the canonical badge, and the
  presentation of Codex panes from the screen. The rollup is the minimum of the derived order.

  \<^bold>\<open>Durable runs.\<close> AgentModel: records, identifiers and their validation. AgentRun: the run
  reducer. AgentTheorems: the machine of a run (second interpretation of the locale), finality
  of a completed run, the references that make redelivery idempotent, new runs. AgentArtifacts:
  stored responses and generated identifiers.

  \<^bold>\<open>The store of the runs.\<close> AgentFiles: the directories of \<open>AgentStateStore\<close> as tables of
  files, and the record \<open>externals\<close> of everything outside the repository: digests, the
  \<open>serde_json\<close> encoders and decoders, the clock, and the answers of the file system, indexed by
  the number of the call, so that any call can fail in any of its stages. AgentStore, AgentBodies
  and AgentLifecycle: \<open>agent_state/store.rs\<close> (records, prompts and response bodies, opening,
  initialisation and clean-up); AgentRuntime, AgentProvider and AgentRecovery:
  \<open>agent_state/runtime.rs\<close> (dispatch operations, provider observations, restart and queries).
  StateResult is the monad of these operations, with the Hoare rules for it.
  AgentRequests is the daemon as a machine of requests, crashes and restarts. AgentStoreLaws
  states as a locale what an operation on files must keep of a relation on stores so that every
  operation keeps it; the same locale is interpreted three times: for the life of an operation
  (AgentOperationLife, against an abstract state machine), for the types of the files (AgentTypes),
  and for the fence of one dispatch per target (AgentFences). AgentRooms: room for response bodies,
  whose loop takes the fuel of 2,049 rounds, one more than the store may hold runs, and returns;
  AgentStoreTheorems: idempotent preparation and expiry; AgentErrors: three defects of the code.
  Assumed of \<open>serde_json\<close> is that it decodes what it has encoded (\<open>operation_codec\<close>,
  \<open>run_codec\<close>); AgentFences assumes \<open>synced\<close>, that no sync of a directory fails after a rename,
  since the defect of AgentErrors leaves an unfenced operation there.

  \<^bold>\<open>Categories.\<close> BTree: sorted sets and maps with a locale and its interpretation.
  CategoryModel: names, state, path patterns, effective model. CategoryIntents: the edits.
  CategoryWildcard: the matcher against a reference definition. CategoryTheorems: the machine of
  the edits (third interpretation), what deletion, renaming, assignment and moves do, and three
  defects of the code: a literal star in a path, a displayed neighbour past which a repository
  cannot be moved, and a stale name in the order that cannot be created again.

  \<^bold>\<open>Question notices.\<close> A question that Codex asks in a pane is announced until it is answered;
  the daemon acknowledges it by itself only when it can prove that the user has moved on.
  TranscriptParser and TranscriptCursor: the incremental reader of the transcript file
  (\<open>question_notice/turn_order.rs\<close>), with \<open>D\<close> for \<open>serde_json\<close> on one string, \<open>I\<close> for the digest of
  an identifier, and the file and the clock as the record \<open>slice_environment\<close>. TranscriptLaws: the
  reader does not depend on how reads cut the file; TranscriptHistory: the turns of the cursor are
  those of a reference function on records; TranscriptGrammar and TranscriptDocuments: a grammar of
  documents, rendering, and the lines that the reader accepts; TranscriptTheorems: order of turns.
  QuestionResolver: \<open>question_notice/resolver.rs\<close>; QuestionResolverLaws: the machine of its events
  and a preorder on states that every event keeps; QuestionResolverTrace: where orders and
  candidates come from. QuestionWorkers: the order worker and the sampling of a screen
  (\<open>daemon/workers/question.rs\<close>) as a list of rounds, each with what it would see of the clock, the
  file, the owner and the journal; the loop of a job may run on after the rounds given, so its
  result is an option. QuestionOrders: the cursors of the worker are faithful to their files.
  QuestionTheorems composes all of them: what an automatic acknowledgement rests on.
  QuestionNotices: the notices of \<open>question_notice/mod.rs\<close>, \<open>text.rs\<close>, \<open>storage.rs\<close> with the sidecar
  file and its marker on disk (\<open>notice_digests\<close> for the digests, \<open>JB\<close> for the length of the encoded
  snapshot, \<open>notice_save_environment\<close> for the outcome of a save). QuestionNoticeLaws: well-formed
  contents, loading what was saved, and the machine of operations and restarts;
  QuestionNoticeSafety: the invariant of memory and disk together; QuestionNoticeTheorems: restarts,
  persisted questions, acknowledgements that are not taken back, failed replies, and the defect of
  the marker. Assumed are \<open>digests_ok\<close> (digests are 64 hexadecimal digits) and \<open>notice_event_ok\<close>
  (the callers validate panes and processes, the clock is past 1970, and no marker is torn).

  \<^bold>\<open>Witnesses.\<close> Samples, PaneWitnesses, StoreWitnesses, AgentWitnesses, CategoryWitnesses,
  TranscriptWitnesses and QuestionWitnesses apply the theorems to concrete records, most of which the
  modelled code itself produces.

  \<^bold>\<open>Loops.\<close> Loops are structural recursion or recursion with a measure (\<open>next_boundary\<close>,
  \<open>wildcard_loop\<close>); only the loop that makes room for a response body has fuel (above). In the measure of
  \<open>wildcard_loop\<close> the order of its two text indices is needed, which stands in the guard and holds
  of every iteration.

  \<^bold>\<open>Not modelled.\<close> The daemon around the reducers (sockets, threads, locks, leases), the journal, the
  recognition of question screens and the reply worker of the question notices, the sidebar and
  status line views, the parsing of hook payloads and screens, the command line. Of
  \<open>agent_state/model.rs\<close> the field for question notices is left out and of \<open>ProviderObservation\<close> its
  validation; of the resolver the diagnostics and the counters that only they show.
\<close>

end
